(* ===== verification/DD_Prelude.thy ===== *)
theory DD_Prelude
  imports Main "HOL-Library.Word"
begin

unbundle bit_operations_syntax

text \<open>
  What every theory of the development shares: the integer types of
  \<open>src/libraries/lib_dd/include/dd/util/util_typedefs.h\<close>, the outcome of code that can
  stop (a failed \<open>DD_ASSERT\<close>, a null or type-confused pointer, an access or a shift out of
  range, a loop that does not end), sequencing of such code, and the generic lemmas on words
  and lists.
\<close>

section \<open>Integer types\<close>

type_synonym u8 = "8 word"
type_synonym u16 = "16 word"
type_synonym u32 = "32 word"
type_synonym u64 = "64 word"

text \<open>
  Signed integers have the same bits; \<^const>\<open>sint\<close> and \<^const>\<open>word_sless\<close> read them.
\<close>

type_synonym s16 = "16 word"
type_synonym s32 = "32 word"
type_synonym s64 = "64 word"

section \<open>Outcomes\<close>

text \<open>
  \<open>AssertFailed\<close> is the abort of a \<open>DD_ASSERT\<close> or \<open>RESULT_ABORT_UNLESS\<close> in a debug build;
  \<open>NullPointer\<close>, \<open>OutOfBounds\<close>, \<open>ShiftRange\<close>, \<open>SignedOverflow\<close>, \<open>DivideByZero\<close> and
  \<open>BadObject\<close> are the undefined behaviours the source can run into (the last one: a pointer used
  as an object it does not point to); \<open>Diverges\<close> is a loop that has not ended within the fuel given
  to it.
\<close>

datatype fault = AssertFailed | NullPointer | OutOfBounds | ShiftRange | SignedOverflow
  | DivideByZero | BadObject | Diverges

type_synonym 'a outcome = "fault + 'a"

fun and_then :: "'a outcome \<Rightarrow> ('a \<Rightarrow> 'b outcome) \<Rightarrow> 'b outcome" where
  "and_then (Inl e) f = Inl e"
| "and_then (Inr x) f = f x"

definition dd_assert :: "bool \<Rightarrow> 's \<Rightarrow> 's outcome" where
  "dd_assert b s = (if b then Inr s else Inl AssertFailed)"

definition deref :: "'p option \<Rightarrow> 'p outcome" where
  "deref p = (case p of None \<Rightarrow> Inl NullPointer | Some a \<Rightarrow> Inr a)"

lemma and_then_Inr_iff: "and_then m f = Inr y \<longleftrightarrow> (\<exists>x. m = Inr x \<and> f x = Inr y)"
  by (cases m) auto

lemma and_then_assoc [simp]:
  "and_then (and_then m f) g = and_then m (\<lambda>x. and_then (f x) g)"
  by (cases m) auto

lemma dd_assert_True [simp]: "dd_assert True s = Inr s"
  and dd_assert_False [simp]: "dd_assert False s = Inl AssertFailed"
  by (simp_all add: dd_assert_def)

lemma dd_assert_Inr_iff [simp]: "dd_assert b s = Inr t \<longleftrightarrow> b \<and> t = s"
  by (auto simp: dd_assert_def)

lemma deref_simps [simp]: "deref None = Inl NullPointer" "deref (Some a) = Inr a"
  by (simp_all add: deref_def)

section \<open>Signed arithmetic\<close>

text \<open>
  Where the code adds, multiplies or divides signed integers, the model computes on \<^typ>\<open>int\<close> and
  checks the range of each result, since a signed overflow is undefined. Division truncates.
\<close>

definition s32_ok :: "int \<Rightarrow> bool" where
  "s32_ok i \<longleftrightarrow> - (2 ^ 31) \<le> i \<and> i < 2 ^ 31"

definition s64_ok :: "int \<Rightarrow> bool" where
  "s64_ok i \<longleftrightarrow> - (2 ^ 63) \<le> i \<and> i < 2 ^ 63"

definition s32_val :: "int \<Rightarrow> int outcome" where
  "s32_val i = (if s32_ok i then Inr i else Inl SignedOverflow)"

definition s64_val :: "int \<Rightarrow> int outcome" where
  "s64_val i = (if s64_ok i then Inr i else Inl SignedOverflow)"

text \<open>Conversion to \<open>s32\<close> and \<open>s64\<close> is modulo the width.\<close>

definition s32_wrap :: "int \<Rightarrow> int" where
  "s32_wrap i = (i + 2 ^ 31) mod 2 ^ 32 - 2 ^ 31"

definition s64_wrap :: "int \<Rightarrow> int" where
  "s64_wrap i = (i + 2 ^ 63) mod 2 ^ 64 - 2 ^ 63"

definition quot_c :: "int \<Rightarrow> int \<Rightarrow> int" where
  "quot_c a b = sgn a * sgn b * (\<bar>a\<bar> div \<bar>b\<bar>)"

definition rem_c :: "int \<Rightarrow> int \<Rightarrow> int" where
  "rem_c a b = a - quot_c a b * b"

definition s64_div :: "int \<Rightarrow> int \<Rightarrow> int outcome" where
  "s64_div a b = (if b = 0 then Inl DivideByZero else s64_val (quot_c a b))"

definition s64_rem :: "int \<Rightarrow> int \<Rightarrow> int outcome" where
  "s64_rem a b = (if b = 0 then Inl DivideByZero
    else if s64_ok (quot_c a b) then Inr (rem_c a b) else Inl SignedOverflow)"

lemma s32_val_ok [simp]: "s32_ok i \<Longrightarrow> s32_val i = Inr i"
  and s64_val_ok [simp]: "s64_ok i \<Longrightarrow> s64_val i = Inr i"
  by (simp_all add: s32_val_def s64_val_def)

lemma s32_wrap_ok [simp]: "s32_ok i \<Longrightarrow> s32_wrap i = i"
  and s64_wrap_ok [simp]: "s64_ok i \<Longrightarrow> s64_wrap i = i"
  by (simp_all add: s32_ok_def s64_ok_def s32_wrap_def s64_wrap_def)

lemma quot_c_nonneg [simp]: "0 \<le> a \<Longrightarrow> 0 < b \<Longrightarrow> quot_c a b = a div b"
  by (cases "a = 0") (auto simp: quot_c_def)

lemma rem_c_nonneg [simp]: "0 \<le> a \<Longrightarrow> 0 < b \<Longrightarrow> rem_c a b = a mod b"
  by (simp add: rem_c_def minus_div_mult_eq_mod)

section \<open>Collections of facts\<close>

named_theorems links_simps "effect of the intrusive list operations on the two link fields"
named_theorems result_codes "the numeric value of every result code"

section \<open>Words\<close>

lemma word_and_mask_le: "(x AND mask n :: 'a::len word) \<le> mask n"
  by (simp add: word_and_le1)

lemma unat_and_mask: "unat (x AND mask n :: 'a::len word) = unat x mod 2 ^ n"
  by (metis take_bit_eq_mask take_bit_eq_mod unsigned_take_bit_eq)

lemma unat_of_nat_small: "n < 2 ^ LENGTH('a) \<Longrightarrow> unat (of_nat n :: 'a::len word) = n"
  by (simp add: unat_of_nat take_bit_eq_mod)

lemma unat_drop_bit_div: "unat (drop_bit n w :: 'a::len word) = unat w div 2 ^ n"
  by (simp add: unat_drop_bit_eq flip: drop_bit_eq_div)

lemma unat_ucast_mod: "unat (ucast (w :: 'a::len word) :: 'b::len word) = unat w mod 2 ^ LENGTH('b)"
  by (simp add: unsigned_ucast_eq take_bit_eq_mod)

lemma unat_ucast_up:
  assumes "LENGTH('a) \<le> LENGTH('b)"
  shows "unat (ucast (w :: 'a::len word) :: 'b::len word) = unat w"
proof -
  have "unat w < 2 ^ LENGTH('b)"
    using assms unsigned_less [of w, where 'a = nat]
      power_increasing [of "LENGTH('a)" "LENGTH('b)" "2::nat"] by linarith
  then show ?thesis by (simp add: unat_ucast_mod)
qed

text \<open>A word whose sign bit is clear reads the same signed and unsigned.\<close>

lemma sint_small:
  assumes "unat (w :: 'a::len word) < 2 ^ (LENGTH('a) - 1)"
  shows "sint w = int (unat w)"
proof -
  have "int (unat w) < 2 ^ (LENGTH('a) - 1)"
    using assms by (metis of_nat_less_iff of_nat_numeral of_nat_power)
  then have "uint w < 2 ^ (LENGTH('a) - 1)" "- (2 ^ (LENGTH('a) - 1)) \<le> uint w"
    by (simp_all add: order_trans [of _ 0])
  then have "signed_take_bit (LENGTH('a) - 1) (uint w) = uint w"
    by (intro signed_take_bit_int_eq_self) simp_all
  then show ?thesis by (simp add: sint_uint)
qed

lemma scast_small:
  assumes "unat (w :: 'a::len word) < 2 ^ (LENGTH('a) - 1)"
  shows "(scast w :: 'b::len word) = ucast w"
proof -
  have "scast w = (word_of_int (sint w) :: 'b word)" by simp
  also have "\<dots> = word_of_int (int (unat w))" using sint_small [OF assms] by simp
  also have "\<dots> = ucast w" by simp
  finally show ?thesis .
qed

section \<open>Step relations\<close>

text \<open>What the state machines of the development share: an invariant that holds at the start and is kept
  by every step, and, for the locks, an invariant that leaves room for one owner only.\<close>

locale kept_invariant =
  fixes start :: "'s \<Rightarrow> bool" and step :: "'s \<Rightarrow> 's \<Rightarrow> bool" and inv :: "'s \<Rightarrow> bool"
  assumes start_inv: "start s \<Longrightarrow> inv s" and step_inv: "inv s \<Longrightarrow> step s t \<Longrightarrow> inv t"
begin

lemma steps_inv: "step\<^sup>*\<^sup>* s t \<Longrightarrow> inv s \<Longrightarrow> inv t"
  by (induction rule: rtranclp_induct) (auto intro: step_inv)

lemma run_inv: "start s \<Longrightarrow> step\<^sup>*\<^sup>* s t \<Longrightarrow> inv t"
  using steps_inv start_inv by blast

end

locale one_owner = kept_invariant +
  fixes owns :: "'s \<Rightarrow> 't \<Rightarrow> bool"
  assumes same_owner: "inv s \<Longrightarrow> owns s t \<Longrightarrow> owns s u \<Longrightarrow> t = u"
begin

lemma run_exclusive: "start s \<Longrightarrow> step\<^sup>*\<^sup>* s s' \<Longrightarrow> owns s' t \<Longrightarrow> owns s' u \<Longrightarrow> t = u"
  using run_inv same_owner by blast

lemma run_owner: "start s \<Longrightarrow> step\<^sup>*\<^sup>* s s' \<Longrightarrow> \<exists>u. {t. owns s' t} \<subseteq> {u}"
  by (cases "\<exists>t. owns s' t") (auto dest: run_exclusive)

end

section \<open>Lists\<close>

lemma remove1_split: "n \<notin> set xs \<Longrightarrow> remove1 n (xs @ n # ys) = xs @ ys"
  by (simp add: remove1_append)

end
