(* ===== verification/DD_Result.thy ===== *)
theory DD_Result
  imports DD_Prelude
begin

text \<open>
  Result codes: \<open>src/libraries/lib_dd/include/dd/util/util_result.hpp\<close> and the module files
  \<open>util_result_ukern.h\<close>, \<open>util_result_res.h\<close>, \<open>util_result_trace.h\<close>. The header's
  \<open>ModuleBits\<close> and \<open>DescriptionBits\<close> are bit \<^emph>\<open>counts\<close>, and the code uses them as \<^emph>\<open>masks\<close>, so
  a code keeps only the bits of 9 and 13; the theorems say what is left of the descriptions.
\<close>

section \<open>Encoding\<close>

definition ModuleBits :: u32 where "ModuleBits = 9"

definition DescriptionBits :: u32 where "DescriptionBits = 13"

definition GetModule :: "u32 \<Rightarrow> u32" where
  "GetModule result = result AND ModuleBits"

definition GetDescription :: "u32 \<Rightarrow> u32" where
  "GetDescription result = drop_bit (unat ModuleBits) result AND DescriptionBits"

definition ResultSuccess :: u32 where "ResultSuccess = 0"

definition DECLARE_RESULT :: "u32 \<Rightarrow> u32 \<Rightarrow> u32" where
  "DECLARE_RESULT ResultModule description =
    push_bit (unat ModuleBits) (description AND DescriptionBits) OR (ResultModule AND ModuleBits)"

section \<open>Module 1: the micro kernel\<close>

definition ResultTimeout :: u32 where "ResultTimeout = DECLARE_RESULT 1 1"

definition ResultInvalidHandle :: u32 where "ResultInvalidHandle = DECLARE_RESULT 1 2"

definition ResultWin32Error :: u32 where "ResultWin32Error = DECLARE_RESULT 1 3"

definition ResultThreadStorageExhaustion :: u32 where "ResultThreadStorageExhaustion = DECLARE_RESULT 1 4"

definition ResultHandleExhaustion :: u32 where "ResultHandleExhaustion = DECLARE_RESULT 1 5"

definition ResultInvalidThreadFunctionPointer :: u32 where "ResultInvalidThreadFunctionPointer = DECLARE_RESULT 1 6"

definition ResultInvalidStackSize :: u32 where "ResultInvalidStackSize = DECLARE_RESULT 1 7"

definition ResultInvalidPriority :: u32 where "ResultInvalidPriority = DECLARE_RESULT 1 8"

definition ResultInvalidAddress :: u32 where "ResultInvalidAddress = DECLARE_RESULT 1 9"

definition ResultInvalidWaitAddressValue :: u32 where "ResultInvalidWaitAddressValue = DECLARE_RESULT 1 10"

definition ResultInvalidLockAddressValue :: u32 where "ResultInvalidLockAddressValue = DECLARE_RESULT 1 11"

definition ResultRequiresLock :: u32 where "ResultRequiresLock = DECLARE_RESULT 1 12"

definition ResultValueOutOfRange :: u32 where "ResultValueOutOfRange = DECLARE_RESULT 1 13"

definition ResultSamePriority :: u32 where "ResultSamePriority = DECLARE_RESULT 1 14"

definition ResultSameActivityLevel :: u32 where "ResultSameActivityLevel = DECLARE_RESULT 1 15"

definition ResultSameCoreMask :: u32 where "ResultSameCoreMask = DECLARE_RESULT 1 16"

definition ResultInvalidCoreId :: u32 where "ResultInvalidCoreId = DECLARE_RESULT 1 17"

definition ResultInvalidArbitrationType :: u32 where "ResultInvalidArbitrationType = DECLARE_RESULT 1 18"

definition ResultInvalidSignalType :: u32 where "ResultInvalidSignalType = DECLARE_RESULT 1 19"

definition ResultNoWaiters :: u32 where "ResultNoWaiters = DECLARE_RESULT 1 20"

section \<open>Module 6: resources\<close>

definition res_ResultUnknownWin32Error :: u32 where "res_ResultUnknownWin32Error = DECLARE_RESULT 6 1"

definition res_ResultFileNotFound :: u32 where "res_ResultFileNotFound = DECLARE_RESULT 6 2"

definition res_ResultPathNotFound :: u32 where "res_ResultPathNotFound = DECLARE_RESULT 6 3"

definition res_ResultPathTooLong :: u32 where "res_ResultPathTooLong = DECLARE_RESULT 6 4"

definition res_ResultFileSharingViolation :: u32 where "res_ResultFileSharingViolation = DECLARE_RESULT 6 5"

definition res_ResultFileLockViolation :: u32 where "res_ResultFileLockViolation = DECLARE_RESULT 6 6"

definition res_ResultOpenFileExhaustion :: u32 where "res_ResultOpenFileExhaustion = DECLARE_RESULT 6 7"

definition res_ResultInvalidBufferSize :: u32 where "res_ResultInvalidBufferSize = DECLARE_RESULT 6 8"

definition res_ResultInvalidReadDivAlignment :: u32 where "res_ResultInvalidReadDivAlignment = DECLARE_RESULT 6 9"

definition res_ResultInvalidFileBufferSize :: u32 where "res_ResultInvalidFileBufferSize = DECLARE_RESULT 6 10"

definition res_ResultInvalidHandle :: u32 where "res_ResultInvalidHandle = DECLARE_RESULT 6 11"

definition res_ResultInvalidNullPath :: u32 where "res_ResultInvalidNullPath = DECLARE_RESULT 6 12"

definition res_ResultInvalidOpenMode :: u32 where "res_ResultInvalidOpenMode = DECLARE_RESULT 6 13"

definition res_ResultInvalidSize :: u32 where "res_ResultInvalidSize = DECLARE_RESULT 6 14"

definition res_ResultNullHandle :: u32 where "res_ResultNullHandle = DECLARE_RESULT 6 15"

definition res_ResultNullOutBuffer :: u32 where "res_ResultNullOutBuffer = DECLARE_RESULT 6 16"

definition res_ResultNullPath :: u32 where "res_ResultNullPath = DECLARE_RESULT 6 17"

definition res_ResultFileSizeRetrievalFailed :: u32 where "res_ResultFileSizeRetrievalFailed = DECLARE_RESULT 6 18"

definition res_ResultResourceAllocationFailed :: u32 where "res_ResultResourceAllocationFailed = DECLARE_RESULT 6 19"

section \<open>Module 2: trace\<close>

definition trace_ResultAssertFailed :: u32 where "trace_ResultAssertFailed = DECLARE_RESULT 2 1"

section \<open>The values\<close>

lemmas result_encoding = DECLARE_RESULT_def ModuleBits_def DescriptionBits_def

lemma ukern_result_codes [result_codes]:
  "ResultTimeout = 513"
  "ResultInvalidHandle = 1"
  "ResultWin32Error = 513"
  "ResultThreadStorageExhaustion = 2049"
  "ResultHandleExhaustion = 2561"
  "ResultInvalidThreadFunctionPointer = 2049"
  "ResultInvalidStackSize = 2561"
  "ResultInvalidPriority = 4097"
  "ResultInvalidAddress = 4609"
  "ResultInvalidWaitAddressValue = 4097"
  "ResultInvalidLockAddressValue = 4609"
  "ResultRequiresLock = 6145"
  "ResultValueOutOfRange = 6657"
  "ResultSamePriority = 6145"
  "ResultSameActivityLevel = 6657"
  "ResultSameCoreMask = 1"
  "ResultInvalidCoreId = 513"
  "ResultInvalidArbitrationType = 1"
  "ResultInvalidSignalType = 513"
  "ResultNoWaiters = 2049"
  by (simp_all add: result_encoding ResultTimeout_def ResultInvalidHandle_def ResultWin32Error_def ResultThreadStorageExhaustion_def ResultHandleExhaustion_def ResultInvalidThreadFunctionPointer_def ResultInvalidStackSize_def ResultInvalidPriority_def ResultInvalidAddress_def ResultInvalidWaitAddressValue_def ResultInvalidLockAddressValue_def ResultRequiresLock_def ResultValueOutOfRange_def ResultSamePriority_def ResultSameActivityLevel_def ResultSameCoreMask_def ResultInvalidCoreId_def ResultInvalidArbitrationType_def ResultInvalidSignalType_def ResultNoWaiters_def)

lemma res_result_codes [result_codes]:
  "res_ResultUnknownWin32Error = 512"
  "res_ResultFileNotFound = 0"
  "res_ResultPathNotFound = 512"
  "res_ResultPathTooLong = 2048"
  "res_ResultFileSharingViolation = 2560"
  "res_ResultFileLockViolation = 2048"
  "res_ResultOpenFileExhaustion = 2560"
  "res_ResultInvalidBufferSize = 4096"
  "res_ResultInvalidReadDivAlignment = 4608"
  "res_ResultInvalidFileBufferSize = 4096"
  "res_ResultInvalidHandle = 4608"
  "res_ResultInvalidNullPath = 6144"
  "res_ResultInvalidOpenMode = 6656"
  "res_ResultInvalidSize = 6144"
  "res_ResultNullHandle = 6656"
  "res_ResultNullOutBuffer = 0"
  "res_ResultNullPath = 512"
  "res_ResultFileSizeRetrievalFailed = 0"
  "res_ResultResourceAllocationFailed = 512"
  by (simp_all add: result_encoding res_ResultUnknownWin32Error_def res_ResultFileNotFound_def res_ResultPathNotFound_def res_ResultPathTooLong_def res_ResultFileSharingViolation_def res_ResultFileLockViolation_def res_ResultOpenFileExhaustion_def res_ResultInvalidBufferSize_def res_ResultInvalidReadDivAlignment_def res_ResultInvalidFileBufferSize_def res_ResultInvalidHandle_def res_ResultInvalidNullPath_def res_ResultInvalidOpenMode_def res_ResultInvalidSize_def res_ResultNullHandle_def res_ResultNullOutBuffer_def res_ResultNullPath_def res_ResultFileSizeRetrievalFailed_def res_ResultResourceAllocationFailed_def)

lemma ResultSuccess_code [result_codes]: "ResultSuccess = 0"
  by (simp add: ResultSuccess_def)

text \<open>
  The codes of a module, as the functions of that module may return them.
\<close>

definition ukern_results :: "u32 list" where
  "ukern_results = map (DECLARE_RESULT 1) [1, 2, 3, 4, 5, 6, 7, 8, 9, 10, 11, 12, 13, 14, 15, 16, 17,
    18, 19, 20]"

lemma DECLARE_RESULT_ukern_bit: "bit (DECLARE_RESULT 1 d) 0"
  by (simp add: result_encoding bit_or_iff)

lemma DECLARE_RESULT_ukern_nonzero [simp]: "DECLARE_RESULT 1 d \<noteq> ResultSuccess"
  using DECLARE_RESULT_ukern_bit [of d] by (auto simp: ResultSuccess_def)

text \<open>No error code of the micro kernel equals \<open>ResultSuccess\<close>, so a caller that compares
  with it never takes a micro-kernel error for success.\<close>

theorem ukern_errors_not_success: "ResultSuccess \<notin> set ukern_results"
  by (simp add: ukern_results_def ResultSuccess_def result_encoding)

text \<open>The description mask \<open>& 13\<close> drops the bits 1 and 4 of a description: two descriptions
  that agree on the other low bits are the same code, so a \<open>Timeout\<close> cannot be told from a
  \<open>Win32Error\<close>; and in the resource module \<open>FileNotFound\<close> and \<open>FileSizeRetrievalFailed\<close> are
  the code of success.\<close>

theorem result_codes_collide:
  "ResultTimeout = ResultWin32Error \<and> ResultInvalidHandle = ResultSameCoreMask \<and>
   res_ResultFileNotFound = ResultSuccess \<and> res_ResultFileSizeRetrievalFailed = ResultSuccess"
  by (simp_all add: result_codes)

end
