(* ===== verification/DD_Bits.thy ===== *)
theory DD_Bits
  imports DD_Prelude
begin

text \<open>
  Small numeric helpers of \<open>src/libraries/lib_dd/include/dd/util/\<close>: \<open>util_alignment.hpp\<close>,
  \<open>util_countbits.hpp\<close>, \<open>math/util_clamp.hpp\<close> and the character codes of
  \<open>util_charactercode.hpp\<close>.
\<close>

section \<open>Alignment\<close>

text \<open>The callers instantiate the templates at \<open>size_t\<close>, \<open>uintptr_t\<close> and pointers: 64 bits.\<close>

definition AlignUp :: "u64 \<Rightarrow> u64 \<Rightarrow> u64" where
  "AlignUp value align = (let alignment = align - 1 in (value + alignment) AND NOT alignment)"

definition AlignDown :: "u64 \<Rightarrow> u64 \<Rightarrow> u64" where
  "AlignDown value align = (let alignment = align - 1 in value AND NOT alignment)"

section \<open>Counting bits, minimum, maximum, clamping\<close>

definition CountOneBits64 :: "u64 \<Rightarrow> u32" where
  "CountOneBits64 value = of_nat (length (filter (bit value) [0..<64]))"

definition CountOneBits32 :: "u32 \<Rightarrow> u32" where
  "CountOneBits32 value = of_nat (length (filter (bit value) [0..<32]))"

definition Min_dd :: "'a::linorder \<Rightarrow> 'a \<Rightarrow> 'a" where
  "Min_dd value0 value1 = (if value0 > value1 then value1 else value0)"

definition Max_dd :: "'a::linorder \<Rightarrow> 'a \<Rightarrow> 'a" where
  "Max_dd value0 value1 = (if value0 < value1 then value1 else value0)"

definition Clamp_dd :: "'a::linorder \<Rightarrow> 'a \<Rightarrow> 'a \<Rightarrow> 'a" where
  "Clamp_dd value mn mx = (if value < mn then mn else if mx < value then mx else value)"

section \<open>Lemmas\<close>

lemma and_not_mask_unat:
  "unat (x AND NOT (mask n) :: 'a::len word) = unat x div 2 ^ n * 2 ^ n"
proof -
  have "(x AND mask n) AND (x AND NOT (mask n)) = 0" "(x AND mask n) OR (x AND NOT (mask n)) = x"
    by (auto simp: bit_eq_iff bit_simps)
  then have sum: "(x AND mask n) + (x AND NOT (mask n)) = x"
    by (simp add: disjunctive_add_eq_or)
  have "x AND mask n \<le> (x AND mask n) + (x AND NOT (mask n))"
    by (simp only: sum word_and_le2)
  then have "unat ((x AND mask n) + (x AND NOT (mask n))) = unat (x AND mask n) + unat (x AND NOT (mask n))"
    by (simp only: unat_plus_simple)
  then have "unat x = unat (x AND mask n) + unat (x AND NOT (mask n))" by (simp only: sum)
  then show ?thesis
    by (metis add_diff_cancel_left' minus_mod_eq_div_mult unat_and_mask)
qed

lemma exp_minus_1_mask: "(2 ^ n :: 'a::len word) - 1 = mask n"
  by (simp add: mask_eq_decr_exp)

lemma AlignDown_unat: "unat (AlignDown v (2 ^ n)) = unat v div 2 ^ n * 2 ^ n"
  by (simp add: AlignDown_def Let_def exp_minus_1_mask and_not_mask_unat)

lemma AlignUp_unat:
  assumes "n < 64" and "unat v + 2 ^ n - 1 < 2 ^ 64"
  shows "unat (AlignUp v (2 ^ n)) = (unat v + 2 ^ n - 1) div 2 ^ n * 2 ^ n"
proof -
  have m: "unat (mask n :: u64) = 2 ^ n - 1"
  proof -
    have "uint (mask n :: u64) = mask n" using assms(1) by (simp add: uint_mask_eq)
    then have "uint (mask n :: u64) = 2 ^ n - 1" by (simp only: mask_eq_exp_minus_1)
    then have "int (unat (mask n :: u64)) = int (2 ^ n - 1)" by simp
    then show ?thesis by (simp only: of_nat_eq_iff)
  qed
  have "unat (v + mask n) = unat v + (2 ^ n - 1)"
    using assms m by (subst unat_add_lem [THEN iffD1]) (auto simp: m)
  then show ?thesis
    by (simp add: AlignUp_def Let_def exp_minus_1_mask and_not_mask_unat)
qed

lemma CountOneBits64_le: "unat (CountOneBits64 v) \<le> 64"
proof -
  have "length (filter (bit v) [0..<64]) \<le> 64" by (metis diff_zero length_filter_le length_upt)
  then show ?thesis by (simp add: CountOneBits64_def unat_of_nat_small)
qed

section \<open>Alignment is least\<close>

text \<open>
  For a power of two and a value that leaves room, \<open>AlignUp\<close> returns the least multiple of the
  alignment that is not below the value, and \<open>AlignDown\<close> the greatest that is not above it.
\<close>

theorem align_least_greatest:
  assumes "n < 64" and "unat v + 2 ^ n - 1 < 2 ^ 64"
  shows "2 ^ n dvd unat (AlignUp v (2 ^ n)) \<and> unat v \<le> unat (AlignUp v (2 ^ n)) \<and>
    (\<forall>m. 2 ^ n dvd m \<and> unat v \<le> m \<longrightarrow> unat (AlignUp v (2 ^ n)) \<le> m) \<and>
    2 ^ n dvd unat (AlignDown v (2 ^ n)) \<and> unat (AlignDown v (2 ^ n)) \<le> unat v \<and>
    (\<forall>m. 2 ^ n dvd m \<and> m \<le> unat v \<longrightarrow> m \<le> unat (AlignDown v (2 ^ n)))"
proof -
  let ?a = "(2::nat) ^ n"
  have a: "0 < ?a" by simp
  have up: "unat v \<le> (unat v + ?a - 1) div ?a * ?a"
  proof -
    have "unat v + ?a - 1 < (unat v + ?a - 1) div ?a * ?a + ?a" using a by (metis add_less_cancel_left div_mult_mod_eq mod_less_divisor)
    then show ?thesis using a by linarith
  qed
  have least: "(unat v + ?a - 1) div ?a * ?a \<le> m" if "?a dvd m" "unat v \<le> m" for m
  proof -
    from that(1) obtain q where q: "m = ?a * q" by (rule dvdE)
    have "(unat v + ?a - 1) div ?a \<le> (m + ?a - 1) div ?a" using that(2) by (intro div_le_mono) linarith
    also have "m + ?a - 1 = (?a - 1) + ?a * q" using a q by linarith
    also have "((?a - 1) + ?a * q) div ?a = q" using a by (simp only: div_mult_self2) simp
    finally show ?thesis by (simp add: q mult.commute)
  qed
  have greatest: "m \<le> unat v div ?a * ?a" if "?a dvd m" "m \<le> unat v" for m
    using that a by (metis div_le_mono dvd_div_mult_self mult_le_mono1)
  show ?thesis unfolding AlignUp_unat [OF assms] AlignDown_unat using up least greatest by simp
qed

theorem align_least_greatest_witness:
  "2 ^ 4 dvd unat (AlignUp 0x1234 (2 ^ 4)) \<and> unat (0x1234 :: u64) \<le> unat (AlignUp 0x1234 (2 ^ 4)) \<and>
    unat (AlignUp 0x1234 (2 ^ 4)) \<le> 0x1240 \<and>
    2 ^ 4 dvd unat (AlignDown 0x1234 (2 ^ 4)) \<and> unat (AlignDown 0x1234 (2 ^ 4)) \<le> unat (0x1234 :: u64) \<and>
    0x1230 \<le> unat (AlignDown 0x1234 (2 ^ 4))"
proof -
  have "2 ^ 4 dvd (0x1240 :: nat) \<and> unat (0x1234 :: u64) \<le> 0x1240"
    "2 ^ 4 dvd (0x1230 :: nat) \<and> 0x1230 \<le> unat (0x1234 :: u64)" by simp_all
  moreover have "(4::nat) < 64" "unat (0x1234 :: u64) + 2 ^ 4 - 1 < 2 ^ 64" by simp_all
  ultimately show ?thesis using align_least_greatest [of 4 "0x1234"] by blast
qed

lemma Clamp_dd_bounds: "mn \<le> mx \<Longrightarrow> mn \<le> Clamp_dd v mn mx \<and> Clamp_dd v mn mx \<le> mx"
  by (auto simp: Clamp_dd_def)

end
