(* ===== verification/Intrusive_List.thy ===== *)
theory Intrusive_List
  imports DD_Prelude
begin

text \<open>
  The intrusive list of \<open>src/libraries/lib_dd/include/dd/util/util_intrusivelist.hpp\<close>. A node
  is an address; its two fields live in a memory of links, so that unlinking a node while a loop
  is at it does to the loop what it does in the code. The list proper is a sentinel node
  (\<open>IntrusiveList::m_list\<close>) and an iterator is a node too: the one \<^emph>\<open>after\<close> the element it
  stands for.

  Shown here: \<^emph>\<open>ring\<close> relates a sentinel to the elements reachable from it, every operation is
  described on that list, a range-based \<open>for\<close> whose body leaves the links alone visits the
  elements in order, and one that unlinks them runs past the end.
\<close>

section \<open>Nodes\<close>

record 'n links =
  m_prev :: "'n \<Rightarrow> 'n"
  m_next :: "'n \<Rightarrow> 'n"

definition set_prev :: "'n \<Rightarrow> 'n \<Rightarrow> 'n links \<Rightarrow> 'n links" where
  "set_prev a v k = k\<lparr>m_prev := (m_prev k)(a := v)\<rparr>"

definition set_next :: "'n \<Rightarrow> 'n \<Rightarrow> 'n links \<Rightarrow> 'n links" where
  "set_next a v k = k\<lparr>m_next := (m_next k)(a := v)\<rparr>"

definition IntrusiveListNode :: "'n \<Rightarrow> 'n links \<Rightarrow> 'n links" where
  "IntrusiveListNode this k = set_next this this (set_prev this this k)"

definition IsLinked :: "'n links \<Rightarrow> 'n \<Rightarrow> bool" where
  "IsLinked k this \<longleftrightarrow> this \<noteq> m_next k this"

definition LinkNext :: "'n \<Rightarrow> 'n \<Rightarrow> 'n links \<Rightarrow> 'n links" where
  "LinkNext this new_node k =
    (let new_prev = m_prev k new_node;
         k = set_prev new_node (m_prev k this) k;
         k = set_next new_prev this k;
         k = set_next (m_prev k this) new_node k
     in set_prev this new_prev k)"

definition LinkPrev :: "'n \<Rightarrow> 'n \<Rightarrow> 'n links \<Rightarrow> 'n links" where
  "LinkPrev this new_node k =
    (let new_prev = m_prev k new_node;
         k = set_prev new_node (m_prev k (m_prev k this)) k;
         k = set_next new_prev (m_prev k this) k;
         k = set_next (m_prev k (m_prev k this)) new_node k
     in set_prev (m_prev k this) new_prev k)"

definition Unlink :: "'n \<Rightarrow> 'n links \<Rightarrow> 'n links" where
  "Unlink this k =
    (let k = set_next (m_prev k this) (m_next k this) k;
         k = set_prev (m_next k this) (m_prev k this) k;
         k = set_next this this k
     in set_prev this this k)"

section \<open>Lists\<close>

definition IsEmpty :: "'n links \<Rightarrow> 'n \<Rightarrow> bool" where
  "IsEmpty k l \<longleftrightarrow> \<not> IsLinked k l"

definition Front :: "'n links \<Rightarrow> 'n \<Rightarrow> 'n" where
  "Front k l = m_next k l"

definition Back :: "'n links \<Rightarrow> 'n \<Rightarrow> 'n" where
  "Back k l = m_prev k l"

definition PushBack :: "'n \<Rightarrow> 'n \<Rightarrow> 'n links \<Rightarrow> 'n links" where
  "PushBack l n k = LinkNext l n k"

definition PushFront :: "'n \<Rightarrow> 'n \<Rightarrow> 'n links \<Rightarrow> 'n links" where
  "PushFront l n k = LinkPrev l n k"

definition PopFront :: "'n \<Rightarrow> 'n links \<Rightarrow> 'n \<times> 'n links" where
  "PopFront l k = (let front = m_next k l in (front, Unlink front k))"

definition PopBack :: "'n \<Rightarrow> 'n links \<Rightarrow> 'n \<times> 'n links" where
  "PopBack l k = (let back = m_prev k l in (back, Unlink back k))"

definition Remove :: "'n \<Rightarrow> 'n links \<Rightarrow> 'n links" where
  "Remove n k = Unlink n k"

text \<open>
  Iterators: \<open>Iterator(node)\<close> holds \<open>node->next()\<close>, \<open>operator*\<close> steps back and \<open>operator++\<close>
  forward from there.
\<close>

definition Iterator :: "'n links \<Rightarrow> 'n \<Rightarrow> 'n" where
  "Iterator k node = m_next k node"

definition it_deref :: "'n links \<Rightarrow> 'n \<Rightarrow> 'n" where
  "it_deref k it = m_prev k it"

definition it_inc :: "'n links \<Rightarrow> 'n \<Rightarrow> 'n" where
  "it_inc k it = m_next k it"

definition list_begin :: "'n links \<Rightarrow> 'n \<Rightarrow> 'n" where
  "list_begin k l = Iterator k (m_next k l)"

definition list_end :: "'n links \<Rightarrow> 'n \<Rightarrow> 'n" where
  "list_end k l = Iterator k l"

text \<open>
  The range-based \<open>for\<close>: \<open>begin()\<close> and \<open>end()\<close> are evaluated once, the element before each body
  and the increment after it, in the memory the body leaves. The body returns whether it leaves
  the loop. The state \<open>'s\<close> holds the links (\<open>lk\<close> reads them).
\<close>

fun for_loop :: "nat \<Rightarrow> ('s \<Rightarrow> 'n links) \<Rightarrow> ('n \<Rightarrow> 's \<Rightarrow> (bool \<times> 's) outcome)
    \<Rightarrow> 'n \<Rightarrow> 'n \<Rightarrow> 's \<Rightarrow> 's outcome" where
  "for_loop 0 lk body it e s = Inl Diverges"
| "for_loop (Suc fuel) lk body it e s =
    (if it = e then Inr s
     else and_then (body (it_deref (lk s) it) s) (\<lambda>(brk, s').
       if brk then Inr s' else for_loop fuel lk body (it_inc (lk s') it) e s'))"

definition for_each :: "nat \<Rightarrow> ('s \<Rightarrow> 'n links) \<Rightarrow> 'n \<Rightarrow> ('n \<Rightarrow> 's \<Rightarrow> (bool \<times> 's) outcome)
    \<Rightarrow> 's \<Rightarrow> 's outcome" where
  "for_each fuel lk l body s =
    for_loop fuel lk body (list_begin (lk s) l) (list_end (lk s) l) s"

section \<open>Effect on the link fields\<close>

lemma Unlink_links [links_simps]:
  "m_next (Unlink n k) = (m_next k)(m_prev k n := m_next k n, n := n)"
  "m_prev (Unlink n k) = (m_prev k)(m_next k n := m_prev k n, n := n)"
  by (auto simp: Unlink_def Let_def set_next_def set_prev_def fun_eq_iff)

lemma LinkNext_links [links_simps]:
  "m_next (LinkNext this n k) = (m_next k)(m_prev k n := this, m_prev k this := n)"
  "m_prev (LinkNext this n k) = (m_prev k)(n := m_prev k this, this := m_prev k n)"
  by (auto simp: LinkNext_def Let_def set_next_def set_prev_def fun_eq_iff)

lemma LinkPrev_links [links_simps]:
  assumes "this \<noteq> n"
  shows "m_next (LinkPrev this n k) =
      (m_next k)(m_prev k n := m_prev k this, m_prev k (m_prev k this) := n)"
    and "m_prev (LinkPrev this n k) =
      (m_prev k)(n := m_prev k (m_prev k this), m_prev k this := m_prev k n)"
  using assms by (auto simp: LinkPrev_def Let_def set_next_def set_prev_def fun_eq_iff)

lemma IntrusiveListNode_links [links_simps]:
  "m_next (IntrusiveListNode n k) = (m_next k)(n := n)"
  "m_prev (IntrusiveListNode n k) = (m_prev k)(n := n)"
  by (auto simp: IntrusiveListNode_def set_next_def set_prev_def)

section \<open>Rings\<close>

text \<open>
  \<open>seg k a xs b\<close>: following the links from \<open>a\<close> one meets \<open>xs\<close> and then \<open>b\<close>, and the back links
  agree. A list with sentinel \<open>l\<close> and elements \<open>xs\<close> is a segment from \<open>l\<close> back to \<open>l\<close>.
\<close>

fun seg :: "'n links \<Rightarrow> 'n \<Rightarrow> 'n list \<Rightarrow> 'n \<Rightarrow> bool" where
  "seg k a [] b \<longleftrightarrow> m_next k a = b \<and> m_prev k b = a"
| "seg k a (x # xs) b \<longleftrightarrow> m_next k a = x \<and> m_prev k x = a \<and> seg k x xs b"

definition ring :: "'n links \<Rightarrow> 'n \<Rightarrow> 'n list \<Rightarrow> bool" where
  "ring k l xs \<longleftrightarrow> distinct (l # xs) \<and> seg k l xs l"

definition unlinked :: "'n links \<Rightarrow> 'n \<Rightarrow> bool" where
  "unlinked k n \<longleftrightarrow> m_next k n = n \<and> m_prev k n = n"

lemma seg_append [simp]: "seg k a (xs @ y # ys) b \<longleftrightarrow> seg k a xs y \<and> seg k y ys b"
  by (induction xs arbitrary: a) auto

lemma seg_frame:
  assumes "\<And>x. x \<in> set (a # xs) \<Longrightarrow> m_next k' x = m_next k x"
    and "\<And>x. x \<in> set (b # xs) \<Longrightarrow> m_prev k' x = m_prev k x"
  shows "seg k' a xs b = seg k a xs b"
  using assms by (induction xs arbitrary: a) auto

lemma seg_ends: "seg k a xs b \<Longrightarrow> m_next k a = hd (xs @ [b]) \<and> m_prev k b = last (a # xs)"
  by (induction xs arbitrary: a) auto

lemma ring_frame:
  assumes "\<And>x. x \<in> set (l # xs) \<Longrightarrow> m_next k' x = m_next k x \<and> m_prev k' x = m_prev k x"
  shows "ring k' l xs = ring k l xs"
proof -
  have "seg k' l xs l = seg k l xs l" by (rule seg_frame) (simp_all add: assms)
  then show ?thesis by (simp add: ring_def)
qed

lemma ring_Nil [simp]: "ring k l [] \<longleftrightarrow> unlinked k l"
  by (auto simp: ring_def unlinked_def)

lemma ring_next: "ring k l xs \<Longrightarrow> m_next k l = hd (xs @ [l])"
  and ring_prev: "ring k l xs \<Longrightarrow> m_prev k l = last (l # xs)"
  by (auto simp: ring_def dest: seg_ends)

lemma ring_element:
  assumes "ring k l (xs @ n # ys)"
  shows "m_next k n = hd (ys @ [l])" and "m_prev k n = last (l # xs)"
  using assms by (auto simp: ring_def dest: seg_ends)

lemma ring_distinct: "ring k l xs \<Longrightarrow> distinct xs \<and> l \<notin> set xs"
  by (simp add: ring_def)

lemma IsEmpty_ring: "ring k l xs \<Longrightarrow> IsEmpty k l = (xs = [])"
  by (cases xs) (auto simp: IsEmpty_def IsLinked_def ring_def)

lemma seg_last: "seg k a (xs @ [x]) b \<Longrightarrow> m_prev k b = x"
  by (induction xs arbitrary: a) auto

lemma seg_Unlink_mid:
  assumes "seg k a xs n" and "seg k n ys b" and "distinct (a # xs @ n # ys)"
    and "b \<notin> set (xs @ n # ys)"
  shows "seg (Unlink n k) a (xs @ ys) b"
proof -
  have nx: "m_next k n = hd (ys @ [b])" and pv: "m_prev k n = last (a # xs)"
    using seg_ends [OF assms(1)] seg_ends [OF assms(2)] by auto
  show ?thesis
    using assms
  proof (induction xs arbitrary: a)
    case Nil
    then show ?case
    proof (cases ys)
      case Nil
      with Nil.prems show ?thesis by (auto simp: links_simps)
    next
      case (Cons y ys')
      have "seg (Unlink n k) y ys' b = seg k y ys' b"
        using Nil.prems Cons by (intro seg_frame) (auto simp: links_simps)
      with Nil.prems Cons show ?thesis by (auto simp: links_simps)
    qed
  next
    case (Cons x xs)
    from Cons.prems have "seg (Unlink n k) x (xs @ ys) b"
      by (intro Cons.IH) auto
    moreover have "m_prev k n = last (x # xs)" "m_next k n \<in> set (ys @ [b])"
      using seg_ends [OF Cons.prems(1)] seg_ends [OF Cons.prems(2)] by (auto simp: hd_append)
    ultimately show ?case
      using Cons.prems by (auto simp: links_simps dest: last_in_set split: if_splits)
  qed
qed

section \<open>The operations on rings\<close>

lemma ring_Unlink:
  assumes "ring k l (xs @ n # ys)"
  shows "ring (Unlink n k) l (xs @ ys)" and "unlinked (Unlink n k) n"
  using assms seg_Unlink_mid [of k l xs n ys l]
  by (auto simp: ring_def unlinked_def links_simps)

lemma ring_PushBack:
  assumes r: "ring k l xs" and u: "unlinked k n" and n: "n \<notin> set (l # xs)"
  shows "ring (PushBack l n k) l (xs @ [n])"
proof (cases xs rule: rev_cases)
  case Nil
  with assms show ?thesis
    by (auto simp: ring_def PushBack_def unlinked_def links_simps)
next
  case (snoc ys y)
  have y: "m_prev k l = y" using r snoc by (simp add: ring_prev)
  have "seg (PushBack l n k) l ys y = seg k l ys y"
    using r n u snoc y by (intro seg_frame) (auto simp: PushBack_def ring_def unlinked_def links_simps)
  with r n u snoc y show ?thesis
    by (auto simp: ring_def PushBack_def unlinked_def links_simps)
qed

lemma ring_PushFront:
  assumes r: "ring k l (xs @ [y])" and u: "unlinked k n" and n: "n \<notin> set (l # xs @ [y])"
  shows "ring (PushFront l n k) l (xs @ [n, y])"
proof -
  have y: "m_prev k l = y" using r by (simp add: ring_prev)
  have p: "m_prev k y = last (l # xs)" using ring_element(2) [of k l xs y "[]"] r by simp
  have ln: "l \<noteq> n" using n by auto
  have k': "m_next (PushFront l n k) = (m_next k)(n := y, last (l # xs) := n)"
      "m_prev (PushFront l n k) = (m_prev k)(n := last (l # xs), y := n)"
    using u ln by (simp_all add: PushFront_def links_simps y p unlinked_def)
  show ?thesis
  proof (cases xs rule: rev_cases)
    case Nil
    with r n show ?thesis by (auto simp: ring_def k')
  next
    case (snoc zs z)
    have "seg (PushFront l n k) l zs z = seg k l zs z"
      using r n snoc by (intro seg_frame) (auto simp: k' ring_def)
    with r n snoc show ?thesis by (auto simp: ring_def k')
  qed
qed

lemma ring_PushFront_empty:
  assumes "ring k l []" and "unlinked k n" and "n \<noteq> l"
  shows "ring (PushFront l n k) l [n]"
  using assms by (auto simp: ring_def PushFront_def unlinked_def links_simps)

lemma ring_PopFront:
  assumes "ring k l (x # xs)"
  shows "PopFront l k = (x, Unlink x k)" and "ring (Unlink x k) l xs"
  using assms ring_Unlink(1) [of k l "[]" x xs] by (auto simp: PopFront_def ring_next)

lemma ring_PopBack:
  assumes "ring k l (xs @ [x])"
  shows "PopBack l k = (x, Unlink x k)" and "ring (Unlink x k) l xs"
  using assms ring_Unlink(1) [of k l xs x "[]"] by (auto simp: PopBack_def ring_prev)

section \<open>Families of lists\<close>

text \<open>
  The scheduler and the heaps keep many lists over one memory. \<open>rings k H F\<close>: the sentinels are
  \<open>H\<close>, the list of \<open>h\<close> holds \<open>F h\<close>, no node is in two lists or is itself a sentinel, and every
  other node is unlinked.
\<close>

definition rings :: "'n links \<Rightarrow> 'n set \<Rightarrow> ('n \<Rightarrow> 'n list) \<Rightarrow> bool" where
  "rings k H F \<longleftrightarrow>
    (\<forall>h\<in>H. ring k h (F h)) \<and>
    (\<forall>h\<in>H. set (F h) \<inter> H = {}) \<and>
    (\<forall>h\<in>H. \<forall>g\<in>H. h \<noteq> g \<longrightarrow> set (F h) \<inter> set (F g) = {}) \<and>
    (\<forall>n. n \<notin> H \<longrightarrow> (\<forall>h\<in>H. n \<notin> set (F h)) \<longrightarrow> unlinked k n)"

definition listed :: "'n set \<Rightarrow> ('n \<Rightarrow> 'n list) \<Rightarrow> 'n set" where
  "listed H F = (\<Union>h\<in>H. set (F h))"

lemma rings_ring: "rings k H F \<Longrightarrow> h \<in> H \<Longrightarrow> ring k h (F h)"
  by (simp add: rings_def)

lemma rings_unlinked: "rings k H F \<Longrightarrow> n \<notin> H \<Longrightarrow> n \<notin> listed H F \<Longrightarrow> unlinked k n"
  by (auto simp: rings_def listed_def)

lemma rings_disjoint:
  "rings k H F \<Longrightarrow> h \<in> H \<Longrightarrow> g \<in> H \<Longrightarrow> x \<in> set (F h) \<Longrightarrow> x \<in> set (F g) \<Longrightarrow> h = g"
  unfolding rings_def by blast

lemma rings_sentinel: "rings k H F \<Longrightarrow> h \<in> H \<Longrightarrow> x \<in> set (F h) \<Longrightarrow> x \<notin> H"
  unfolding rings_def by blast

lemma PushBack_frame:
  assumes "ring k h ys" and "n \<notin> set (h # ys)" and "unlinked k n"
    and "x \<notin> set (h # ys)" and "x \<noteq> n"
  shows "m_next (PushBack h n k) x = m_next k x" and "m_prev (PushBack h n k) x = m_prev k x"
  using assms ring_prev [OF assms(1)]
  by (auto simp: PushBack_def links_simps unlinked_def dest: last_in_set split: if_splits)

lemma Unlink_frame:
  assumes "ring k h (xs @ n # ys)" and "x \<notin> set (h # xs @ n # ys)"
  shows "m_next (Unlink n k) x = m_next k x" and "m_prev (Unlink n k) x = m_prev k x"
proof -
  have "m_prev k n \<in> set (h # xs)" "m_next k n \<in> set (ys @ [h])"
    using ring_element [OF assms(1)] last_in_set [of "h # xs"] hd_in_set [of "ys @ [h]"] by auto
  with assms(2) show "m_next (Unlink n k) x = m_next k x" "m_prev (Unlink n k) x = m_prev k x"
    by (auto simp: links_simps)
qed

lemma rings_PushBack:
  assumes R: "rings k H F" and h: "h \<in> H" and n: "n \<notin> H" "n \<notin> listed H F"
  shows "rings (PushBack h n k) H (F(h := F h @ [n]))"
proof -
  let ?k = "PushBack h n k"
  have rh: "ring k h (F h)" and u: "unlinked k n" and nh: "n \<notin> set (h # F h)"
    using R h n by (auto simp: rings_ring rings_unlinked listed_def)
  have new: "ring ?k h (F h @ [n])" by (rule ring_PushBack [OF rh u nh])
  have other: "m_next ?k x = m_next k x" "m_prev ?k x = m_prev k x"
    if "x \<notin> set (h # F h)" "x \<noteq> n" for x
    using PushBack_frame [OF rh nh u that] by auto
  have rg: "ring ?k g (F g)" if g: "g \<in> H" "g \<noteq> h" for g
  proof -
    have "ring ?k g (F g) = ring k g (F g)"
    proof (rule ring_frame)
      fix x assume "x \<in> set (g # F g)"
      then have "x \<notin> set (h # F h)" "x \<noteq> n"
        using g h n rings_disjoint [OF R] rings_sentinel [OF R] by (auto simp: listed_def)
      then show "m_next ?k x = m_next k x \<and> m_prev ?k x = m_prev k x" by (simp add: other)
    qed
    with R g show ?thesis by (simp add: rings_ring)
  qed
  have un: "unlinked ?k x" if x: "x \<notin> H" "\<forall>g\<in>H. x \<notin> set ((F(h := F h @ [n])) g)" for x
  proof -
    have "x \<notin> listed H F" using x(2) by (fastforce simp: listed_def split: if_splits)
    moreover have "x \<notin> set (h # F h)" "x \<noteq> n" using x h by (auto split: if_splits)
    ultimately show ?thesis
      using other [of x] rings_unlinked [OF R x(1)] by (simp add: unlinked_def)
  qed
  show ?thesis
    using R h n new rg un
    by (auto simp: rings_def listed_def split: if_splits)
qed

lemma rings_Unlink:
  assumes R: "rings k H F" and h: "h \<in> H" and n: "n \<in> set (F h)"
  shows "rings (Unlink n k) H (F(h := remove1 n (F h)))"
proof -
  let ?k = "Unlink n k"
  obtain xs ys where F: "F h = xs @ n # ys" by (metis n split_list)
  have rh: "ring k h (xs @ n # ys)" using rings_ring [OF R h] F by simp
  then have rm: "remove1 n (F h) = xs @ ys" by (simp add: F remove1_append ring_def)
  have new: "ring ?k h (xs @ ys)" "unlinked ?k n" by (rule ring_Unlink [OF rh])+
  have other: "m_next ?k x = m_next k x" "m_prev ?k x = m_prev k x" if "x \<notin> set (h # F h)" for x
    using Unlink_frame [OF rh, of x] that F by auto
  have rg: "ring ?k g (F g)" if g: "g \<in> H" "g \<noteq> h" for g
  proof -
    have "ring ?k g (F g) = ring k g (F g)"
    proof (rule ring_frame)
      fix x assume "x \<in> set (g # F g)"
      then have "x \<notin> set (h # F h)"
        using g h rings_disjoint [OF R] rings_sentinel [OF R] by auto
      then show "m_next ?k x = m_next k x \<and> m_prev ?k x = m_prev k x" by (simp add: other)
    qed
    with R g show ?thesis by (simp add: rings_ring)
  qed
  have un: "unlinked ?k x" if x: "x \<notin> H" "\<forall>g\<in>H. x \<notin> set ((F(h := xs @ ys)) g)" for x
  proof (cases "x = n")
    case False
    have "x \<notin> listed H F" using x False F by (fastforce simp: listed_def split: if_splits)
    then show ?thesis
      using other [of x] rings_unlinked [OF R x(1)] h x(1) by (auto simp: unlinked_def listed_def)
  qed (simp add: new)
  have sub: "set (xs @ ys) \<subseteq> set (F h)" by (auto simp: F)
  have "ring ?k g ((F(h := xs @ ys)) g)" "set ((F(h := xs @ ys)) g) \<subseteq> set (F g)" if "g \<in> H" for g
    using that new rg sub by auto
  then show ?thesis
    using R un unfolding rings_def rm by blast
qed

lemma rings_Unlink_unlinked:
  assumes "rings k H F" and "n \<notin> H" and "n \<notin> listed H F"
  shows "Unlink n k = k"
proof -
  have "unlinked k n" using assms by (rule rings_unlinked)
  then show ?thesis by (intro links.equality) (auto simp: links_simps unlinked_def fun_eq_iff)
qed

text \<open>Constructing a node that is unlinked already changes nothing.\<close>

lemma IntrusiveListNode_unlinked: "unlinked k n \<Longrightarrow> IntrusiveListNode n k = k"
  by (intro links.equality) (auto simp: links_simps unlinked_def fun_eq_iff)

section \<open>Range-based loops\<close>

lemma for_loop_continue:
  assumes "it \<noteq> e" and "body (m_prev (lk s) it) s = Inr (False, s')"
  shows "for_loop (Suc fuel) lk body it e s = for_loop fuel lk body (m_next (lk s') it) e s'"
  using assms by (simp add: it_deref_def it_inc_def)

text \<open>What a loop over \<open>xs\<close> is meant to do: the body on each element in turn, until one leaves.\<close>

fun visit :: "('n \<Rightarrow> 's \<Rightarrow> (bool \<times> 's) outcome) \<Rightarrow> 'n list \<Rightarrow> 's \<Rightarrow> 's outcome" where
  "visit body [] s = Inr s"
| "visit body (x # xs) s =
    and_then (body x s) (\<lambda>(brk, s'). if brk then Inr s' else visit body xs s')"

text \<open>Where the iterator stands when \<open>zs\<close> has been visited and \<open>ys\<close> has not.\<close>

definition cursor :: "'n \<Rightarrow> 'n list \<Rightarrow> 'n list \<Rightarrow> 'n" where
  "cursor l zs ys = (case ys of [] \<Rightarrow> hd zs | y # ys' \<Rightarrow> hd (ys' @ [l]))"

lemma ring_cursor:
  assumes "ring k l (zs @ y # ys)"
  shows "it_deref k (cursor l zs (y # ys)) = y" and "cursor l zs (y # ys) \<noteq> list_end k l"
    and "it_inc k (cursor l zs (y # ys)) = cursor l (zs @ [y]) ys"
proof -
  let ?it = "hd (ys @ [l])"
  have e: "list_end k l = hd (zs @ y # ys)" using assms by (cases zs) (simp_all add: list_end_def Iterator_def ring_next)
  show "it_deref k (cursor l zs (y # ys)) = y"
  proof (cases ys)
    case Nil
    with assms show ?thesis by (simp add: cursor_def it_deref_def ring_prev)
  next
    case (Cons y' ys')
    with assms show ?thesis
      using ring_element(2) [of k l "zs @ [y]" y' ys'] by (simp add: cursor_def it_deref_def)
  qed
  show "cursor l zs (y # ys) \<noteq> list_end k l"
    unfolding e using assms by (cases zs; cases ys) (auto simp: cursor_def ring_def)
  show "it_inc k (cursor l zs (y # ys)) = cursor l (zs @ [y]) ys"
  proof (cases ys)
    case Nil
    with assms show ?thesis by (cases zs) (auto simp: cursor_def it_inc_def ring_next)
  next
    case (Cons y' ys')
    with assms show ?thesis
      using ring_element(1) [of k l "zs @ [y]" y' ys'] by (simp add: cursor_def it_inc_def)
  qed
qed

lemma cursor_begin: "ring k l (x # xs) \<Longrightarrow> list_begin k l = cursor l [] (x # xs)"
  using ring_element(1) [of k l "[]" x xs] ring_next [of k l "x # xs"]
  by (simp add: cursor_def list_begin_def Iterator_def)

lemma cursor_end: "ring k l zs \<Longrightarrow> zs \<noteq> [] \<Longrightarrow> cursor l zs [] = list_end k l"
  by (cases zs) (simp_all add: cursor_def list_end_def Iterator_def ring_next)

lemma list_end_deref: "ring k l xs \<Longrightarrow> it_deref k (list_end k l) = l"
proof (cases xs)
  case (Cons x ys)
  moreover assume "ring k l xs"
  ultimately show ?thesis
    using ring_element(2) [of k l "[]" x ys] ring_next [of k l xs] by (simp add: it_deref_def list_end_def Iterator_def)
qed (simp add: it_deref_def list_end_def Iterator_def unlinked_def)

lemma for_loop_visit:
  assumes "ring (lk s) l (zs @ ys)" and "zs @ ys \<noteq> []"
    and "\<And>n t t'. n \<in> set xs \<Longrightarrow> I t \<Longrightarrow> body n t = Inr (False, t') \<Longrightarrow> I t' \<and> lk t' = lk t"
    and "length ys < fuel" and "I s" and "set ys \<subseteq> set xs"
  shows "for_loop fuel lk body (cursor l zs ys) (list_end (lk s) l) s = visit body ys s"
  using assms(1,2,4-)
proof (induction ys arbitrary: zs s fuel)
  case Nil
  then show ?case using cursor_end [of "lk s" l zs] by (cases fuel) auto
next
  case (Cons y ys)
  from Cons.prems obtain f where f: "fuel = Suc f" by (cases fuel) auto
  note it = ring_cursor [OF Cons.prems(1)]
  show ?case
  proof (cases "body y s")
    case (Inl e)
    with f it show ?thesis by simp
  next
    case (Inr p)
    obtain b t where p: "p = (b, t)" by force
    show ?thesis
    proof (cases b)
      case True
      with f it Inr p show ?thesis by simp
    next
      case False
      then have lk: "lk t = lk s" "I t" using assms(3) [of y s t] Cons.prems(4,5) Inr p by simp_all
      have "for_loop f lk body (cursor l (zs @ [y]) ys) (list_end (lk t) l) t = visit body ys t"
        using Cons.prems f lk by (intro Cons.IH) auto
      with f it Inr p lk(1) False show ?thesis by simp
    qed
  qed
qed

text \<open>The body has to leave the links alone, except where it leaves the loop.\<close>

lemma for_each_visit_until:
  assumes r: "ring (lk s) l xs"
    and b: "\<And>n t t'. n \<in> set xs \<Longrightarrow> I t \<Longrightarrow> body n t = Inr (False, t') \<Longrightarrow> I t' \<and> lk t' = lk t"
    and f: "length xs < fuel" and I: "I s"
  shows "for_each fuel lk l body s = visit body xs s"
proof (cases xs)
  case Nil
  with r f show ?thesis
    by (cases fuel) (auto simp: for_each_def list_begin_def list_end_def Iterator_def unlinked_def)
next
  case (Cons x ys)
  have "for_loop fuel lk body (cursor l [] xs) (list_end (lk s) l) s = visit body xs s"
    using r Cons f b I by (intro for_loop_visit [where xs = xs and I = I]) auto
  then show ?thesis using r cursor_begin [of "lk s" l x ys] by (simp add: for_each_def Cons)
qed

lemma for_each_visit:
  assumes "ring (lk s) l xs"
    and "\<And>n t b t'. n \<in> set xs \<Longrightarrow> I t \<Longrightarrow> body n t = Inr (b, t') \<Longrightarrow> I t' \<and> lk t' = lk t"
    and "length xs < fuel" and "I s"
  shows "for_each fuel lk l body s = visit body xs s"
  using assms by (intro for_each_visit_until [where I = I])

text \<open>A loop that looks for the first element with a property and leaves there.\<close>

lemma for_each_find:
  assumes "ring k l (map N xs)" and "length xs < fuel"
    and "\<And>x found. x \<in> set xs \<Longrightarrow> body (N x) found = Inr (if P x then (True, Some x) else (False, found))"
  shows "for_each fuel (\<lambda>_. k) l body None = Inr (find P xs)"
proof -
  have "for_each fuel (\<lambda>_. k) l body None = visit body (map N xs) None"
    using assms(1,2) by (intro for_each_visit [where I = "\<lambda>_. True"]) simp_all
  also have "\<dots> = Inr (find P xs)" using assms(3) by (induction xs) simp_all
  finally show ?thesis .
qed

text \<open>
  The two loops of the program that unlink what they visit: \<open>unlink_body\<close> is the body of the
  second loop of \<open>ThreadManager::~ThreadManager\<close>, \<open>transfer_body d\<close> moves each node to the list
  \<open>d\<close> as \<open>ReleaseLockWaitListUnsafe\<close>, \<open>CancelWait\<close>, \<open>SignalKeyImpl\<close> and the \<open>WakeByAddress\<close>
  calls do.
\<close>

definition unlink_body :: "'n \<Rightarrow> 'n links \<Rightarrow> (bool \<times> 'n links) outcome" where
  "unlink_body n k = Inr (False, Unlink n k)"

definition transfer_body :: "'n \<Rightarrow> 'n \<Rightarrow> 'n links \<Rightarrow> (bool \<times> 'n links) outcome" where
  "transfer_body d n k = Inr (False, PushBack d n (Unlink n k))"

lemma unlink_loop_past_end:
  assumes "unlinked k l" and "e \<noteq> l"
  shows "for_loop fuel (\<lambda>k. k) unlink_body l e k = Inl Diverges"
proof (induction fuel)
  case (Suc fuel)
  have "Unlink l k = k"
    using assms by (intro links.equality) (auto simp: links_simps unlinked_def fun_eq_iff)
  with assms Suc show ?case by (simp add: unlink_body_def it_deref_def it_inc_def unlinked_def)
qed simp

lemma unlink_loop_diverges:
  assumes "ring k l (y # ys)" and "e \<notin> set (l # ys)"
  shows "for_loop fuel (\<lambda>k. k) unlink_body (hd (ys @ [l])) e k = Inl Diverges"
  using assms
proof (induction ys arbitrary: k y fuel)
  case Nil
  have "unlinked (Unlink y k) l" using ring_PopFront(2) [OF Nil.prems(1)] by simp
  then have "for_loop f (\<lambda>k. k) unlink_body (m_next (Unlink y k) l) e (Unlink y k) = Inl Diverges"
    for f
    using Nil.prems unlink_loop_past_end [of "Unlink y k" l e] by (simp add: unlinked_def)
  moreover have "unlink_body (m_prev k l) k = Inr (False, Unlink y k)"
    using Nil.prems by (simp add: unlink_body_def ring_prev)
  ultimately show ?case
    using Nil.prems for_loop_continue [of l e unlink_body "\<lambda>k. k" k "Unlink y k"]
    by (cases fuel) (auto simp del: for_loop.simps(2))
next
  case (Cons x ys)
  have r: "ring (Unlink y k) l (x # ys)" by (rule ring_PopFront(2) [OF Cons.prems(1)])
  have p: "m_prev k x = y" using ring_element(2) [of k l "[y]" x ys] Cons.prems(1) by simp
  have n: "m_next (Unlink y k) x = hd (ys @ [l])"
    using ring_element(1) [of "Unlink y k" l "[]" x ys] r by simp
  have "unlink_body (m_prev k x) k = Inr (False, Unlink y k)"
    by (simp add: unlink_body_def p)
  then show ?case
    using Cons.IH [OF r] Cons.prems n for_loop_continue [of x e unlink_body "\<lambda>k. k" k "Unlink y k"]
    by (cases fuel) (auto simp del: for_loop.simps(2))
qed

lemma for_each_unlink_diverges:
  assumes "ring k l xs" and "xs \<noteq> []"
  shows "for_each fuel (\<lambda>k. k) l unlink_body k = Inl Diverges"
proof -
  obtain y ys where xs: "xs = y # ys" using assms(2) by (cases xs) auto
  have "m_next k l = y" "m_next k y = hd (ys @ [l])"
    using assms xs ring_element(1) [of k l "[]" y ys] by (auto simp: ring_next)
  moreover have "y \<notin> set (l # ys)" using assms(1) xs by (auto simp: ring_def)
  ultimately show ?thesis
    using unlink_loop_diverges [of k l y ys y fuel] assms(1) xs
    by (simp add: for_each_def list_begin_def list_end_def Iterator_def)
qed

text \<open>
  Moving one element over. The destination grows at its end; the source loses its front.
\<close>

lemma transfer_step:
  assumes s: "ring k s (y # ys)" and d: "ring k d zs" and ds: "d \<noteq> s"
    and disj: "set (d # zs) \<inter> set (s # y # ys) = {}"
  defines "k' \<equiv> PushBack d y (Unlink y k)"
  shows "ring k' s ys" and "ring k' d (zs @ [y])"
proof -
  have s': "ring (Unlink y k) s ys" by (rule ring_PopFront(2) [OF s])
  have u: "unlinked (Unlink y k) y" using ring_Unlink(2) [of k s "[]" y ys] s by simp
  have "m_next (Unlink y k) x = m_next k x \<and> m_prev (Unlink y k) x = m_prev k x"
    if "x \<in> set (d # zs)" for x
    using that Unlink_frame [of k s "[]" y ys x] s disj by auto
  then have d': "ring (Unlink y k) d zs" using ring_frame [of d zs "Unlink y k" k] d by blast
  have y: "y \<notin> set (d # zs)" using disj by auto
  show "ring k' d (zs @ [y])" unfolding k'_def by (rule ring_PushBack [OF d' u y])
  have "ring k' s ys = ring (Unlink y k) s ys"
  proof (unfold k'_def, rule ring_frame)
    fix x assume "x \<in> set (s # ys)"
    then have "x \<notin> set (d # zs)" "x \<noteq> y" using disj s by (auto simp: ring_def)
    then show "m_next (PushBack d y (Unlink y k)) x = m_next (Unlink y k) x \<and>
        m_prev (PushBack d y (Unlink y k)) x = m_prev (Unlink y k) x"
      using PushBack_frame [OF d' y u] by auto
  qed
  with s' show "ring k' s ys" by simp
qed

text \<open>
  After the last element the loop stands at the sentinel \<open>s\<close> of the emptied source and takes it
  for an element: it is pushed onto \<open>d\<close>, and pushed again, before the loop meets the node at
  which it started.
\<close>

lemma transfer_loop_tail:
  assumes s: "unlinked k s" and d: "ring k d (z # zs)" and sd: "s \<notin> set (d # z # zs)"
  shows "\<exists>k'. for_loop (Suc (Suc (Suc fuel))) (\<lambda>k. k) (transfer_body d) s z k = Inr k' \<and>
    ring k' d (z # zs @ [s])"
proof -
  let ?k1 = "PushBack d s k"
  have same: "Unlink s k = k"
    using s by (intro links.equality) (auto simp: links_simps unlinked_def fun_eq_iff)
  have r1: "ring ?k1 d (z # zs @ [s])"
    using ring_PushBack [OF d s sd] by simp
  let ?k2 = "PushBack d s (Unlink s ?k1)"
  have r1': "ring ?k1 d ((z # zs) @ s # [])" using r1 by simp
  have r2: "ring ?k2 d ((z # zs) @ [s])"
    using ring_Unlink [OF r1'] sd by (intro ring_PushBack) auto
  have e: "m_next ?k1 s = d" "m_prev ?k1 d = s" "m_next ?k2 d = z"
    using ring_element(1) [OF r1'] r1 r2 by (auto simp: ring_prev ring_next)
  have "z \<noteq> s" "z \<noteq> d" using sd d by (auto simp: ring_def)
  then have "for_loop (Suc (Suc (Suc fuel))) (\<lambda>k. k) (transfer_body d) s z k = Inr ?k2"
    using s e same by (simp add: transfer_body_def it_deref_def it_inc_def unlinked_def)
  with r2 show ?thesis by auto
qed

lemma transfer_loop:
  assumes "ring k s (y # ys)" and "ring k d zs" and "d \<noteq> s"
    and "set (d # zs) \<inter> set (s # y # ys) = {}" and "e = hd (zs @ [y])"
    and "length ys + 4 \<le> fuel"
  shows "\<exists>k'. for_loop fuel (\<lambda>k. k) (transfer_body d) (hd (ys @ [s])) e k = Inr k' \<and>
    ring k' d (zs @ y # ys @ [s])"
  using assms
proof (induction ys arbitrary: k y zs fuel)
  case Nil
  let ?k = "PushBack d y (Unlink y k)"
  define f where "f = fuel - 4"
  have f: "fuel = Suc (Suc (Suc (Suc f)))" using Nil.prems(6) by (simp add: f_def)
  have st: "ring ?k s []" "ring ?k d (zs @ [y])" by (rule transfer_step [OF Nil.prems(1-4)])+
  obtain z zs' where z: "zs @ [y] = z # zs'" by (cases zs) auto
  have "set (z # zs') = insert y (set zs)" using z by (metis list.simps(15) rotate1.simps(2) set_rotate1)
  then have "s \<notin> set (d # z # zs')" using Nil.prems(1,3,4) by (auto simp: ring_def)
  then obtain k' where k': "for_loop (Suc (Suc (Suc f))) (\<lambda>k. k) (transfer_body d) s z ?k = Inr k'"
      "ring k' d (z # zs' @ [s])"
    using transfer_loop_tail [of ?k s d z zs' f] st z by auto
  have "e = z" using Nil.prems(5) z by simp
  moreover have "s \<noteq> z" using Nil.prems(1,4) z by (cases zs) (auto simp: ring_def)
  moreover have "transfer_body d (m_prev k s) k = Inr (False, ?k)"
    using Nil.prems(1) by (simp add: transfer_body_def ring_prev)
  ultimately have "for_loop fuel (\<lambda>k. k) (transfer_body d) s e k = Inr k'"
    using for_loop_continue [of s z "transfer_body d" "\<lambda>k. k" k ?k] k' st(1) f by (simp add: unlinked_def)
  moreover have "zs @ y # [] @ [s] = (zs @ [y]) @ [s]" by simp
  then have "zs @ y # [] @ [s] = z # zs' @ [s]" unfolding z by simp
  then have "ring k' d (zs @ y # [] @ [s])" using k'(2) by (simp only:)
  ultimately show ?case by auto
next
  case (Cons x ys)
  let ?k = "PushBack d y (Unlink y k)"
  from Cons.prems(6) obtain f where f: "fuel = Suc f" "length ys + 4 \<le> f" by (cases fuel) auto
  have st: "ring ?k s (x # ys)" "ring ?k d (zs @ [y])"
    by (rule transfer_step [OF Cons.prems(1-4)])+
  have p: "m_prev k x = y" using ring_element(2) [of k s "[y]" x ys] Cons.prems(1) by simp
  have n: "m_next ?k x = hd (ys @ [s])"
    using ring_element(1) [of ?k s "[]" x ys] st(1) by simp
  have ne: "x \<noteq> e" using Cons.prems(1,4,5) by (cases zs) (auto simp: ring_def)
  have "\<exists>k'. for_loop f (\<lambda>k. k) (transfer_body d) (hd (ys @ [s])) e ?k = Inr k' \<and>
      ring k' d ((zs @ [y]) @ x # ys @ [s])"
    using st Cons.prems f ne by (intro Cons.IH) (auto simp: ring_def hd_append)
  moreover have "transfer_body d (m_prev k x) k = Inr (False, ?k)"
    by (simp add: transfer_body_def p)
  ultimately show ?case
    using for_loop_continue [of x e "transfer_body d" "\<lambda>k. k" k ?k] f n ne by simp
qed

lemma for_each_transfer_empty:
  assumes s: "ring k s xs" and "xs \<noteq> []" and d: "ring k d []" and "d \<notin> set (s # xs)"
    and f: "length xs + 3 \<le> fuel"
  shows "\<exists>k'. for_each fuel (\<lambda>k. k) s (transfer_body d) k = Inr k' \<and> ring k' d (xs @ [s])"
proof -
  obtain y ys where xs: "xs = y # ys" using assms(2) by (cases xs) auto
  have "m_next k s = y" "m_next k y = hd (ys @ [s])"
    using s xs ring_element(1) [of k s "[]" y ys] by (auto simp: ring_next)
  with transfer_loop [of k s y ys d "[]" y fuel] assms xs show ?thesis
    by (auto simp: for_each_def list_begin_def list_end_def Iterator_def)
qed

section \<open>The list as its clients see it\<close>

text \<open>
  C30. A first-in-first-out queue: in a family of lists that share one type of node, \<open>PushBack\<close>
  appends a free node to its list, \<open>PopFront\<close> then returns the oldest element and takes it out,
  the popped node is free again, and neither touches another list of the family.
\<close>

theorem intrusive_list_fifo:
  assumes "rings k H F" and "h \<in> H" and "n \<notin> H" and "n \<notin> listed H F"
  shows "rings (PushBack h n k) H (F(h := F h @ [n])) \<and> Back (PushBack h n k) h = n \<and>
    \<not> IsEmpty (PushBack h n k) h \<and>
    (\<exists>k'. PopFront h (PushBack h n k) = (hd (F h @ [n]), k') \<and>
      rings k' H (F(h := tl (F h @ [n]))) \<and> unlinked k' (hd (F h @ [n])))"
proof -
  let ?k = "PushBack h n k" let ?x = "hd (F h @ [n])"
  have R: "rings ?k H (F(h := F h @ [n]))" by (rule rings_PushBack [OF assms])
  have r: "ring ?k h (F h @ [n])" using rings_ring [OF R assms(2)] by simp
  have x: "F h @ [n] = [] @ ?x # tl (F h @ [n])" by (cases "F h") auto
  then have p: "PopFront h ?k = (?x, Unlink ?x ?k)"
    using ring_PopFront(1) [of ?k h ?x "tl (F h @ [n])"] r by simp
  have "?x \<in> set ((F(h := F h @ [n])) h)" by (cases "F h") auto
  from rings_Unlink [OF R assms(2) this]
  have "rings (Unlink ?x ?k) H (F(h := remove1 ?x (F h @ [n])))" by (simp only: fun_upd_same fun_upd_upd)
  moreover have "remove1 ?x (F h @ [n]) = tl (F h @ [n])" by (cases "F h") simp_all
  ultimately have "rings (Unlink ?x ?k) H (F(h := tl (F h @ [n])))" by (simp only:)
  moreover have "ring ?k h ([] @ ?x # tl (F h @ [n]))" using r x by simp
  from ring_Unlink(2) [OF this] have "unlinked (Unlink ?x ?k) ?x" .
  moreover have "Back ?k h = n" using ring_prev [OF r] by (simp add: Back_def)
  moreover have "\<not> IsEmpty ?k h" using IsEmpty_ring [OF r] by simp
  ultimately show ?thesis using R p by blast
qed

text \<open>Three nodes, each a ring of its own; node 0 is the sentinel.\<close>

definition three_nodes :: "nat links" where
  "three_nodes = \<lparr>m_prev = (\<lambda>n. n), m_next = (\<lambda>n. n)\<rparr>"

lemma three_nodes_rings: "rings three_nodes {0} (\<lambda>_. [])"
  by (simp add: rings_def three_nodes_def unlinked_def)

theorem intrusive_list_fifo_witness:
  "rings (PushBack 0 1 three_nodes) {0} ((\<lambda>_. [])(0 := [1])) \<and> Back (PushBack 0 1 three_nodes) 0 = 1 \<and>
    \<not> IsEmpty (PushBack 0 1 three_nodes) 0 \<and>
    (\<exists>k'. PopFront 0 (PushBack 0 1 three_nodes) = (1, k') \<and>
      rings k' {0} ((\<lambda>_. [])(0 := [])) \<and> unlinked k' 1)"
  using intrusive_list_fifo [OF three_nodes_rings, of 0 1] by (simp add: listed_def)

text \<open>
  A range-based loop whose body leaves the links alone runs the body on each element once, in
  list order, until a body leaves the loop; it ends, whatever the body does to the rest of the state.
\<close>

theorem range_for_visits_in_order:
  assumes "ring (lk s) l xs" and "\<And>n t b t'. body n t = Inr (b, t') \<Longrightarrow> lk t' = lk t" and "length xs < fuel"
  shows "for_each fuel lk l body s = visit body xs s"
  by (rule for_each_visit [where I = "\<lambda>_. True"]) (use assms in auto)

theorem range_for_visits_in_order_witness:
  "for_each 3 fst 0 (\<lambda>n t. Inr (False, (fst t, snd t @ [n]))) (PushBack 0 2 (PushBack 0 1 three_nodes), []) =
    visit (\<lambda>n t. Inr (False, (fst t, snd t @ [n]))) [1, 2] (PushBack 0 2 (PushBack 0 1 three_nodes), []) \<and>
   visit (\<lambda>n t. Inr (False, (fst t, snd t @ [n]))) [1, 2] (PushBack 0 2 (PushBack 0 1 three_nodes), [] :: nat list) =
    Inr (PushBack 0 2 (PushBack 0 1 three_nodes), [1, 2])"
proof
  have "rings (PushBack 0 2 (PushBack 0 1 three_nodes)) {0} (((\<lambda>_. [])(0 := [1]))(0 := [1] @ [2]))"
    using rings_PushBack [OF rings_PushBack [OF three_nodes_rings, of 0 1], of 0 2] by (simp add: listed_def)
  then have r: "ring (fst (PushBack 0 2 (PushBack 0 1 three_nodes), [] :: nat list)) 0 [1, 2]"
    using rings_ring by fastforce
  show "for_each 3 fst 0 (\<lambda>n t. Inr (False, (fst t, snd t @ [n]))) (PushBack 0 2 (PushBack 0 1 three_nodes), []) =
    visit (\<lambda>n t. Inr (False, (fst t, snd t @ [n]))) [1, 2] (PushBack 0 2 (PushBack 0 1 three_nodes), [])"
    by (rule range_for_visits_in_order [where lk = fst, OF r]) auto
qed simp

text \<open>
  \<open>PushFront\<close> on a list with at least two elements does not put the object in front: it lands
  before the last element, and \<open>Front\<close> and the next \<open>PopFront\<close> still give the old first element.
\<close>

theorem push_front_not_in_front:
  assumes "ring k l (x # xs @ [y])" and "unlinked k n" and "n \<notin> set (l # x # xs @ [y])"
  shows "ring (PushFront l n k) l (x # xs @ [n, y]) \<and> Front (PushFront l n k) l = x \<and>
    fst (PopFront l (PushFront l n k)) = x"
proof -
  have r: "ring (PushFront l n k) l (x # xs @ [n, y])"
    using ring_PushFront [of k l "x # xs" y n] assms by simp
  then show ?thesis using ring_next [OF r] by (simp add: Front_def PopFront_def)
qed

theorem push_front_not_in_front_witness:
  "ring (PushFront 0 3 (PushBack 0 2 (PushBack 0 1 three_nodes))) 0 [1, 3, 2] \<and>
    Front (PushFront 0 3 (PushBack 0 2 (PushBack 0 1 three_nodes))) 0 = 1 \<and>
    fst (PopFront 0 (PushFront 0 3 (PushBack 0 2 (PushBack 0 1 three_nodes)))) = 1"
proof -
  let ?k = "PushBack 0 2 (PushBack 0 1 three_nodes)"
  have "rings ?k {0} (((\<lambda>_. [])(0 := [1]))(0 := [1] @ [2]))"
    using rings_PushBack [OF rings_PushBack [OF three_nodes_rings, of 0 1], of 0 2] by (simp add: listed_def)
  then have "ring ?k 0 (1 # [] @ [2])" "unlinked ?k 3"
    using rings_ring rings_unlinked [of ?k "{0}" _ 3] by (fastforce simp: listed_def)+
  from push_front_not_in_front [OF this] show ?thesis by simp
qed

text \<open>
  C40. A range-based loop that unlinks each element it visits never ends: once the element is unlinked
  its links point to itself, and the loop does not find the end of the list any more.
\<close>

theorem unlinking_loop_never_ends:
  assumes "ring k l xs" and "xs \<noteq> []"
  shows "for_each fuel (\<lambda>k. k) l unlink_body k = Inl Diverges"
  by (rule for_each_unlink_diverges [OF assms])

theorem unlinking_loop_never_ends_witness:
  "for_each 1000 (\<lambda>k. k) 0 unlink_body (PushBack 0 1 three_nodes) = Inl Diverges"
proof -
  have "ring (PushBack 0 1 three_nodes) 0 ([] @ [1])"
    by (rule ring_PushBack) (simp_all add: three_nodes_def unlinked_def)
  then show ?thesis by (intro unlinking_loop_never_ends) auto
qed

end
