(* ===== verification/Handle_Table.thy ===== *)
theory Handle_Table
  imports DD_Prelude
begin

text \<open>
  The handle table of the micro kernel,
  \<open>src/libraries/lib_dd/include/dd/ukern/ukern_handletable.hpp\<close>. A slot is either reserved (its
  counter is the one in the handle) or on a free list threaded through \<open>m_counters\<close>. Each call
  runs under \<open>m_table_mutex\<close> (theory \<open>Busy_Mutex\<close>), so each is one step here.

  Shown here: the table is a map from handles to objects. A locale states that contract; the
  table interprets it.
\<close>

section \<open>State and operations\<close>

record 'o handle_table =
  m_counters :: "s16 list"
  m_objects :: "'o option list"
  m_indice_iter :: s32
  m_active_handles :: u16
  m_counter_value :: u16

definition MaxHandles :: nat where "MaxHandles = 256"

definition CounterBitOffset :: nat where "CounterBitOffset = 0xf"

definition HandleTable :: "'o handle_table" where
  "HandleTable = \<lparr>m_counters = replicate MaxHandles 0, m_objects = replicate MaxHandles None,
    m_indice_iter = - 1, m_active_handles = 0, m_counter_value = 1\<rparr>"

definition Initialize_slot :: "nat \<Rightarrow> 'o handle_table \<Rightarrow> 'o handle_table" where
  "Initialize_slot i t = t\<lparr>m_objects := (m_objects t)[i := None],
    m_counters := (m_counters t)[i := of_nat i - 1], m_indice_iter := of_nat i\<rparr>"

definition Initialize :: "'o handle_table \<Rightarrow> 'o handle_table" where
  "Initialize t = fold Initialize_slot [0..<MaxHandles] (t\<lparr>m_active_handles := 0, m_counter_value := 1\<rparr>)"

definition next_counter :: "u16 \<Rightarrow> u16" where
  "next_counter v = (if - 1 <s v + 1 then v + 1 else 1)"

text \<open>The result is the handle, or \<open>None\<close> where the code returns false.\<close>

definition ReserveHandle :: "'o option \<Rightarrow> 'o handle_table \<Rightarrow> (u32 option \<times> 'o handle_table) outcome" where
  "ReserveHandle object t =
    (if MaxHandles \<le> unat (m_active_handles t) then Inr (None, t)
     else
       let index = ucast (m_indice_iter t) :: u16
       in if length (m_counters t) \<le> unat index then Inl OutOfBounds
       else
         let counter = m_counter_value t
         in Inr (Some ((ucast index AND 0x7fff) OR push_bit CounterBitOffset (ucast counter)),
              t\<lparr>m_indice_iter := scast (m_counters t ! unat index),
                m_counters := (m_counters t)[unat index := counter],
                m_objects := (m_objects t)[unat index := object],
                m_active_handles := m_active_handles t + 1,
                m_counter_value := next_counter (m_counter_value t)\<rparr>))"

text \<open>
  The index checks of the next two calls are \<open>MaxHandles < index\<close>, one too far: index 256 goes on
  to read \<open>m_objects[256]\<close> and \<open>m_counters[256]\<close>.
\<close>

definition FreeHandle :: "u32 \<Rightarrow> 'o handle_table \<Rightarrow> (bool \<times> 'o handle_table) outcome" where
  "FreeHandle handle t =
    (if handle = 0 \<or> drop_bit CounterBitOffset handle = 0 then Inr (False, t)
     else
       let index = unat (handle AND 0x7fff)
       in if MaxHandles < index then Inr (False, t)
       else if MaxHandles \<le> index then Inl OutOfBounds
       else if m_objects t ! index = None \<or>
            drop_bit CounterBitOffset handle \<noteq> scast (m_counters t ! index) then Inr (False, t)
       else Inr (True, t\<lparr>m_objects := (m_objects t)[index := None],
                m_counters := (m_counters t)[index := ucast (m_indice_iter t)],
                m_indice_iter := of_nat index,
                m_active_handles := m_active_handles t - 1\<rparr>))"

definition GetObjectByHandle :: "u32 \<Rightarrow> 'o handle_table \<Rightarrow> 'o option outcome" where
  "GetObjectByHandle handle t =
    (if drop_bit 0x1e handle \<noteq> 0 \<or> handle = 0 \<or> drop_bit 0xf handle = 0 then Inr None
     else
       let index = unat (handle AND 0x7fff)
       in if MaxHandles < index then Inr None
       else if MaxHandles \<le> index then Inl OutOfBounds
       else if drop_bit 0xf handle \<noteq> scast (m_counters t ! index) then Inr None
       else Inr (m_objects t ! index))"

section \<open>Handles\<close>

text \<open>The two fields of a handle and how they come apart.\<close>

definition mk_handle :: "nat \<Rightarrow> u16 \<Rightarrow> u32" where
  "mk_handle i c = (of_nat i AND 0x7fff) OR push_bit 15 (ucast c)"

lemma mask15: "(0x7fff :: u32) = mask 15"
  by (simp add: mask_eq_decr_exp)

lemma unat_mk_handle:
  assumes "i < 256" and "unat c < 32768"
  shows "unat (mk_handle i c) = i + unat c * 32768"
proof -
  have i: "unat (of_nat i AND mask 15 :: u32) = i"
    using assms(1) by (simp add: unat_and_mask unat_of_nat)
  have c: "unat (push_bit 15 (ucast c :: u32)) = unat c * 32768"
    using assms(2) by (simp add: push_bit_eq_mult unat_word_ariths unat_ucast_up)
  have "(of_nat i AND mask 15 :: u32) AND push_bit 15 (ucast c) = 0"
    by (auto simp: bit_eq_iff bit_simps)
  then have "mk_handle i c = (of_nat i AND mask 15) + push_bit 15 (ucast c)"
    by (simp add: mk_handle_def mask15 disjunctive_add_eq_or)
  then show ?thesis using i c assms by (simp add: unat_word_ariths)
qed

lemma mk_handle_fields:
  assumes "i < 256" and "unat c < 32768"
  shows "unat (mk_handle i c AND 0x7fff) = i"
    and "unat (drop_bit 15 (mk_handle i c)) = unat c"
    and "drop_bit 30 (mk_handle i c) = 0"
  using assms by (auto simp: mask15 unat_and_mask unat_mk_handle unat_drop_bit_div word_unat_eq_iff)

lemma handle_split:
  "unat (h :: u32) = unat (h AND 0x7fff) + unat (drop_bit 15 h) * 32768"
  by (simp add: mask15 unat_and_mask unat_drop_bit_div)

lemma scast_counter: "unat (c :: s16) < 32768 \<Longrightarrow> (scast c :: u32) = ucast c"
  by (rule scast_small) simp

section \<open>The contract\<close>

text \<open>
  A registry of objects under handles: what the scheduler relies on when it turns the handle of a
  thread into the fiber. Operations are outcomes; the laws say that on a well-formed registry a
  reservation succeeds or reports that the registry is full, and what every lookup returns
  afterwards.
\<close>

locale object_registry =
  fixes wf :: "'t \<Rightarrow> bool"
    and lookup :: "'h \<Rightarrow> 't \<Rightarrow> 'o option outcome"
    and reserve :: "'o \<Rightarrow> 't \<Rightarrow> ('h option \<times> 't) outcome"
    and release :: "'h \<Rightarrow> 't \<Rightarrow> (bool \<times> 't) outcome"
  assumes reserve_total: "wf t \<Longrightarrow> \<exists>r t'. reserve x t = Inr (r, t') \<and> wf t'"
    and reserve_None: "wf t \<Longrightarrow> reserve x t = Inr (None, t') \<Longrightarrow> t' = t"
    and reserve_fresh: "wf t \<Longrightarrow> reserve x t = Inr (Some h, t') \<Longrightarrow> lookup h t = Inr None"
    and reserve_lookup: "wf t \<Longrightarrow> reserve x t = Inr (Some h, t') \<Longrightarrow>
      lookup g t' = (if g = h then Inr (Some x) else lookup g t)"
    and release_ok: "wf t \<Longrightarrow> lookup h t = Inr (Some x) \<Longrightarrow> \<exists>t'. release h t = Inr (True, t') \<and> wf t'"
    and release_lookup: "wf t \<Longrightarrow> lookup h t = Inr (Some x) \<Longrightarrow> release h t = Inr (b, t') \<Longrightarrow>
      lookup g t' = (if g = h then Inr None else lookup g t)"
begin

lemma reserve_wf: "wf t \<Longrightarrow> reserve x t = Inr (r, t') \<Longrightarrow> wf t'"
  using reserve_total [of t x] by auto

lemma reserve_keeps:
  assumes "wf t" and "reserve x t = Inr (r, t')" and "lookup g t = Inr (Some y)"
  shows "lookup g t' = Inr (Some y)"
proof (cases r)
  case None
  with assms reserve_None show ?thesis by blast
next
  case (Some h)
  with assms reserve_fresh reserve_lookup [of t x h t' g] show ?thesis by auto
qed

lemma reserve_distinct:
  assumes "wf t" and "reserve x t = Inr (Some h, t')" and "reserve y t' = Inr (Some g, t'')"
  shows "g \<noteq> h"
  using assms reserve_wf reserve_fresh [of t' y g t''] reserve_lookup [of t x h t' h] by auto

lemma reserve_release:
  assumes "wf t" and "reserve x t = Inr (Some h, t')"
  shows "\<exists>t''. release h t' = Inr (True, t'') \<and> wf t'' \<and> (\<forall>g. lookup g t'' = lookup g t)"
proof -
  have t': "wf t'" "lookup h t' = Inr (Some x)"
    using assms reserve_wf reserve_lookup [of t x h t' h] by auto
  obtain t'' where t'': "release h t' = Inr (True, t'')" "wf t''"
    using release_ok [OF t'] by auto
  have "lookup g t'' = lookup g t" for g
    using release_lookup [OF t' t''(1)] reserve_lookup [OF assms, of g] reserve_fresh [OF assms] by simp
  with t'' show ?thesis by auto
qed

end

section \<open>Well-formed tables\<close>

text \<open>
  \<open>chain cs p fl\<close>: from \<open>m_indice_iter = p\<close> the counters of the free slots lead through \<open>fl\<close> to -1.
\<close>

fun chain :: "s16 list \<Rightarrow> s32 \<Rightarrow> nat list \<Rightarrow> bool" where
  "chain cs p [] \<longleftrightarrow> p = - 1"
| "chain cs p (i # fl) \<longleftrightarrow> i < length cs \<and> p = of_nat i \<and> chain cs (scast (cs ! i)) fl"

definition table_inv :: "'o handle_table \<Rightarrow> nat list \<Rightarrow> bool" where
  "table_inv t fl \<longleftrightarrow>
    length (m_counters t) = MaxHandles \<and> length (m_objects t) = MaxHandles \<and>
    distinct fl \<and> chain (m_counters t) (m_indice_iter t) fl \<and>
    unat (m_active_handles t) + length fl = MaxHandles \<and>
    0 < unat (m_counter_value t) \<and> unat (m_counter_value t) < 32768 \<and>
    (\<forall>i<MaxHandles. (m_objects t ! i = None) = (i \<in> set fl)) \<and>
    (\<forall>i<MaxHandles. i \<notin> set fl \<longrightarrow> 0 < unat (m_counters t ! i) \<and> unat (m_counters t ! i) < 32768)"

definition table_wf :: "'o handle_table \<Rightarrow> bool" where
  "table_wf t \<longleftrightarrow> (\<exists>fl. table_inv t fl)"

lemma chain_update: "i \<notin> set fl \<Longrightarrow> chain (cs[i := v]) p fl = chain cs p fl"
  by (induction fl arbitrary: p) (auto simp: nth_list_update)

lemma chain_bound: "chain cs p fl \<Longrightarrow> x \<in> set fl \<Longrightarrow> x < length cs"
  by (induction fl arbitrary: p) auto

lemma next_counter_range:
  assumes "0 < unat v" and "unat v < 32768"
  shows "0 < unat (next_counter v) \<and> unat (next_counter v) < 32768"
proof (cases "unat v = 32767")
  case True
  then have "v = 32767" by (simp add: word_unat_eq_iff)
  then show ?thesis by (simp add: next_counter_def word_sless_alt)
next
  case False
  with assms have v: "unat (v + 1) = unat v + 1" "unat v + 1 < 32768"
    by (simp_all add: unat_word_ariths)
  then have "sint (v + 1) = int (unat v + 1)" by (subst sint_small) simp_all
  then have "- 1 < sint (v + 1)" by linarith
  then have "- 1 <s v + 1" by (simp add: word_sless_alt)
  with v show ?thesis by (simp add: next_counter_def)
qed

subsection \<open>Initialization\<close>

lemma Initialize_slots:
  assumes "length (m_counters t) = MaxHandles" and "length (m_objects t) = MaxHandles"
    and "n \<le> MaxHandles" and "m_indice_iter t = - 1"
  shows "fold Initialize_slot [0..<n] t = t\<lparr>
    m_objects := replicate n None @ drop n (m_objects t),
    m_counters := map (\<lambda>i. of_nat i - 1) [0..<n] @ drop n (m_counters t),
    m_indice_iter := of_nat n - 1\<rparr>"
  using assms(3)
proof (induction n)
  case 0
  show ?case using assms(4) by simp
next
  case (Suc n)
  have "drop n (m_objects t) = m_objects t ! n # drop (Suc n) (m_objects t)"
      "drop n (m_counters t) = m_counters t ! n # drop (Suc n) (m_counters t)"
    using Suc.prems assms by (simp_all add: Cons_nth_drop_Suc)
  with Suc show ?case
    by (simp add: Initialize_slot_def assms(1,2) list_update_append replicate_app_Cons_same)
qed

lemma chain_initial:
  assumes "n \<le> length cs" and "\<And>i. i < n \<Longrightarrow> cs ! i = of_nat i - 1" and "n \<le> 256"
  shows "chain cs (of_nat n - 1) (rev [0..<n])"
  using assms
proof (induction n)
  case (Suc n)
  have "scast (of_nat n - 1 :: s16) = (of_nat n - 1 :: s32)"
  proof (cases n)
    case (Suc m)
    then have "(of_nat n - 1 :: s16) = of_nat m" "unat (of_nat m :: s16) = m"
      using Suc.prems(3) by (simp_all add: unat_of_nat_small)
    moreover from this have "(scast (of_nat m :: s16) :: s32) = ucast (of_nat m :: s16)"
      using Suc Suc.prems(3) by (intro scast_small) simp
    moreover have "(ucast (of_nat m :: s16) :: s32) = of_nat m"
      using calculation(2) Suc Suc.prems(3)
      by (simp add: word_unat_eq_iff unat_ucast_up unat_of_nat_small)
    ultimately show ?thesis using Suc by simp
  qed simp
  with Suc show ?case by simp
qed simp

lemma Initialize_eq:
  assumes "length (m_counters t) = MaxHandles" and "length (m_objects t) = MaxHandles"
    and "m_indice_iter t = - 1"
  shows "Initialize t = t\<lparr>m_active_handles := 0, m_counter_value := 1,
    m_objects := replicate MaxHandles None,
    m_counters := map (\<lambda>i. of_nat i - 1) [0..<MaxHandles],
    m_indice_iter := of_nat MaxHandles - 1\<rparr>"
  using assms Initialize_slots [of "t\<lparr>m_active_handles := 0, m_counter_value := 1\<rparr>" MaxHandles]
  by (simp add: Initialize_def)

lemma Initialize_inv:
  assumes "length (m_counters t) = MaxHandles" and "length (m_objects t) = MaxHandles"
    and "m_indice_iter t = - 1"
  shows "table_inv (Initialize t) (rev [0..<MaxHandles])"
proof -
  have "chain (map (\<lambda>i. of_nat i - 1) [0..<MaxHandles]) (of_nat MaxHandles - 1) (rev [0..<MaxHandles])"
    by (intro chain_initial) (simp_all add: MaxHandles_def)
  then show ?thesis by (simp add: table_inv_def Initialize_eq [OF assms])
qed

lemma HandleTable_fresh:
  "length (m_counters HandleTable) = MaxHandles" "length (m_objects HandleTable) = MaxHandles"
  "m_indice_iter HandleTable = - 1"
  by (simp_all add: HandleTable_def)

subsection \<open>Lookup\<close>

lemma handle_eqI:
  assumes "unat (g AND 0x7fff) = i" and "unat (drop_bit 15 g) = unat c"
    and "i < 256" and "unat c < 32768"
  shows "g = mk_handle i c"
proof -
  have "unat g = unat (mk_handle i c)"
    using assms handle_split [of g] unat_mk_handle [of i c] by simp
  then show ?thesis by (simp add: word_unat_eq_iff)
qed

lemma lookup_mk_handle:
  assumes "length (m_counters t) = MaxHandles" and "i < MaxHandles" and "m_counters t ! i = c"
    and "0 < unat c" and "unat c < 32768"
  shows "GetObjectByHandle (mk_handle i c) t = Inr (m_objects t ! i)"
proof -
  have i: "i < 256" using assms(2) by (simp add: MaxHandles_def)
  note f = mk_handle_fields [OF i assms(5)]
  have "mk_handle i c \<noteq> 0" "drop_bit 15 (mk_handle i c) \<noteq> 0"
    using f(2) assms(4) by auto
  moreover have "drop_bit 15 (mk_handle i c) = scast c"
    using f(2) assms(5) by (simp add: scast_counter word_unat_eq_iff unat_ucast_up)
  ultimately show ?thesis
    using assms f by (simp add: GetObjectByHandle_def MaxHandles_def)
qed

text \<open>
  Where two tables differ in slot \<open>i\<close> only, a handle of another slot finds the same in both; a
  handle of slot \<open>i\<close> finds nothing in a table where the slot is empty or its counter is another.
\<close>

lemma lookup_other_slot:
  assumes "unat (g AND 0x7fff) \<noteq> i"
    and "\<And>j. j < MaxHandles \<Longrightarrow> j \<noteq> i \<Longrightarrow> m_counters t' ! j = m_counters t ! j"
    and "\<And>j. j < MaxHandles \<Longrightarrow> j \<noteq> i \<Longrightarrow> m_objects t' ! j = m_objects t ! j"
  shows "GetObjectByHandle g t' = GetObjectByHandle g t"
  using assms by (simp add: GetObjectByHandle_def Let_def)

lemma lookup_empty_slot:
  assumes "unat (g AND 0x7fff) = i" and "i < MaxHandles" and "m_objects t ! i = None"
  shows "GetObjectByHandle g t = Inr None"
  using assms by (simp add: GetObjectByHandle_def)

lemma lookup_wrong_counter:
  assumes "unat (g AND 0x7fff) = i" and "i < MaxHandles" and "m_counters t ! i = c"
    and "unat c < 32768" and "g \<noteq> mk_handle i c"
  shows "GetObjectByHandle g t = Inr None"
proof -
  have "unat (drop_bit 15 g) \<noteq> unat c"
    using assms handle_eqI [of g i c] by (auto simp: MaxHandles_def)
  then have "drop_bit 15 g \<noteq> scast c"
    using assms(4) by (auto simp: scast_counter unat_ucast_up)
  with assms show ?thesis by (simp add: GetObjectByHandle_def)
qed

lemma lookup_Some:
  assumes t: "table_inv t fl" and g: "GetObjectByHandle g t = Inr (Some x)"
  obtains i where "i < MaxHandles" and "i \<notin> set fl" and "m_objects t ! i = Some x"
    and "unat (g AND 0x7fff) = i" and "g = mk_handle i (m_counters t ! i)"
proof -
  let ?i = "unat (g AND 0x7fff)"
  have i: "?i < MaxHandles" "m_objects t ! ?i = Some x"
    using g by (auto simp: GetObjectByHandle_def Let_def split: if_splits)
  then have nf: "?i \<notin> set fl" and c: "unat (m_counters t ! ?i) < 32768"
    using t by (auto simp: table_inv_def)
  have "g = mk_handle ?i (m_counters t ! ?i)"
    using lookup_wrong_counter [OF refl i(1) refl c] g by auto
  with i nf show thesis by (intro that [of ?i]) auto
qed

subsection \<open>Reserving\<close>

lemma reserve_step:
  assumes t: "table_inv t (i # fl)"
  defines "c \<equiv> m_counter_value t"
  shows "\<exists>t'. ReserveHandle (Some x) t = Inr (Some (mk_handle i c), t') \<and> table_inv t' fl \<and>
    (\<forall>g. GetObjectByHandle g t' =
      (if g = mk_handle i c then Inr (Some x) else GetObjectByHandle g t))"
proof -
  let ?t = "t\<lparr>m_indice_iter := scast (m_counters t ! i), m_counters := (m_counters t)[i := c],
    m_objects := (m_objects t)[i := Some x], m_active_handles := m_active_handles t + 1,
    m_counter_value := next_counter c\<rparr>"
  have i: "i < 256" "m_indice_iter t = of_nat i" and len: "length (m_counters t) = 256"
      "length (m_objects t) = 256" and c: "0 < unat c" "unat c < 32768"
    using t by (auto simp: table_inv_def MaxHandles_def c_def)
  have act: "unat (m_active_handles t) < 256" "unat (m_active_handles t) = 255 - length fl"
    using t by (auto simp: table_inv_def MaxHandles_def)
  have ix: "unat (ucast (of_nat i :: s32) :: u16) = i"
    using i(1) by (simp add: unat_ucast_mod unat_of_nat_small)
  have h: "(ucast (ucast (of_nat i :: s32) :: u16) AND 0x7fff) OR push_bit CounterBitOffset (ucast c)
      = mk_handle i c"
  proof -
    have "(ucast (ucast (of_nat i :: s32) :: u16) :: u32) = of_nat i"
      using i(1) ix by (simp add: word_unat_eq_iff unat_ucast_up unat_of_nat_small)
    then show ?thesis by (simp add: mk_handle_def CounterBitOffset_def)
  qed
  have R: "ReserveHandle (Some x) t = Inr (Some (mk_handle i c), ?t)"
    using i len act ix h by (simp add: ReserveHandle_def Let_def MaxHandles_def c_def)
  have nfl: "i \<notin> set fl" and ch: "chain (m_counters t) (scast (m_counters t ! i)) fl"
    using t by (auto simp: table_inv_def)
  have "unat (m_active_handles t + 1) = unat (m_active_handles t) + 1"
    using act by (simp add: unat_word_ariths)
  then have inv: "table_inv ?t fl"
    using t nfl ch chain_update [OF nfl] next_counter_range [OF c] c
    by (auto simp: table_inv_def nth_list_update MaxHandles_def)
  have "GetObjectByHandle g ?t = GetObjectByHandle g t" if "g \<noteq> mk_handle i c" for g
  proof (cases "unat (g AND 0x7fff) = i")
    case True
    have "GetObjectByHandle g t = Inr None"
      using True i t by (intro lookup_empty_slot) (auto simp: table_inv_def MaxHandles_def)
    moreover have "GetObjectByHandle g ?t = Inr None"
      using True i len c that by (intro lookup_wrong_counter) (auto simp: MaxHandles_def)
    ultimately show ?thesis by simp
  next
    case False
    then show ?thesis by (rule lookup_other_slot) auto
  qed
  moreover have "GetObjectByHandle (mk_handle i c) ?t = Inr (Some x)"
    using lookup_mk_handle [of ?t i c] i len c by (simp add: MaxHandles_def)
  ultimately show ?thesis using R inv by auto
qed

lemma reserve_full:
  assumes "table_inv t []"
  shows "ReserveHandle (Some x) t = Inr (None, t)"
  using assms by (simp add: table_inv_def ReserveHandle_def)

subsection \<open>Freeing\<close>

lemma free_step:
  assumes t: "table_inv t fl" and g: "GetObjectByHandle h t = Inr (Some x)"
  shows "\<exists>t' i. FreeHandle h t = Inr (True, t') \<and> table_inv t' (i # fl) \<and>
    (\<forall>g. GetObjectByHandle g t' = (if g = h then Inr None else GetObjectByHandle g t))"
proof -
  obtain i where i: "i < MaxHandles" "i \<notin> set fl" "m_objects t ! i = Some x"
      "unat (h AND 0x7fff) = i" "h = mk_handle i (m_counters t ! i)"
    by (rule lookup_Some [OF t g])
  let ?c = "m_counters t ! i"
  let ?t = "t\<lparr>m_objects := (m_objects t)[i := None],
    m_counters := (m_counters t)[i := ucast (m_indice_iter t)], m_indice_iter := of_nat i,
    m_active_handles := m_active_handles t - 1\<rparr>"
  have c: "0 < unat ?c" "unat ?c < 32768" and len: "length (m_counters t) = MaxHandles"
      "length (m_objects t) = MaxHandles"
    using t i by (auto simp: table_inv_def)
  have F: "FreeHandle h t = Inr (True, ?t)"
    using g i by (auto simp: GetObjectByHandle_def FreeHandle_def CounterBitOffset_def Let_def
        split: if_splits)
  have "\<exists>j<MaxHandles. j \<notin> set fl" using i by blast
  then have "length fl < MaxHandles"
    using t chain_bound distinct_card [of fl] card_subset_eq [of "{..<MaxHandles}" "set fl"]
      card_mono [of "{..<MaxHandles}" "set fl"]
    by (fastforce simp: table_inv_def)
  then have pos: "0 < unat (m_active_handles t)" using t by (auto simp: table_inv_def)
  then have act: "unat (m_active_handles t - 1) = unat (m_active_handles t) - 1"
    by (intro unat_minus_one) auto
  have it: "chain (m_counters t) (m_indice_iter t) fl" using t by (simp add: table_inv_def)
  have "scast (ucast (m_indice_iter t) :: s16) = m_indice_iter t"
  proof (cases fl)
    case Nil
    have "(ucast (- 1 :: s32) :: s16) = - 1" by (simp add: bit_eq_iff bit_simps)
    with Nil it show ?thesis by simp
  next
    case (Cons j fl')
    with it len have j: "m_indice_iter t = of_nat j" "j < 256" by (auto simp: MaxHandles_def)
    then have u: "unat (ucast (m_indice_iter t) :: s16) = j" "unat (m_indice_iter t) = j"
      by (auto simp: unat_ucast_mod unat_of_nat_small)
    then have "(scast (ucast (m_indice_iter t) :: s16) :: s32) = ucast (ucast (m_indice_iter t) :: s16)"
      using j by (intro scast_small) simp
    with u show ?thesis by (simp add: word_unat_eq_iff unat_ucast_up)
  qed
  then have inv: "table_inv ?t (i # fl)"
    using t i c act pos len chain_update [OF i(2)]
    by (auto simp: table_inv_def nth_list_update MaxHandles_def)
  have "GetObjectByHandle g ?t = GetObjectByHandle g t" if "g \<noteq> h" for g
  proof (cases "unat (g AND 0x7fff) = i")
    case True
    have "GetObjectByHandle g ?t = Inr None"
      using True i len by (intro lookup_empty_slot [of g i]) auto
    moreover have "GetObjectByHandle g t = Inr None"
      using True i c that by (intro lookup_wrong_counter) auto
    ultimately show ?thesis by simp
  next
    case False
    then show ?thesis by (rule lookup_other_slot) auto
  qed
  moreover have "GetObjectByHandle h ?t = Inr None"
    using i len by (intro lookup_empty_slot [of h i]) auto
  ultimately show ?thesis using F inv by auto
qed

section \<open>The table is a registry\<close>

lemma reserve_cases:
  assumes "table_wf t"
  obtains "ReserveHandle (Some x) t = Inr (None, t)" and "unat (m_active_handles t) = MaxHandles"
  | h t' where "ReserveHandle (Some x) t = Inr (Some h, t')" and "table_wf t'"
    and "GetObjectByHandle h t = Inr None" and "unat (m_active_handles t) < MaxHandles"
    and "\<And>g. GetObjectByHandle g t' = (if g = h then Inr (Some x) else GetObjectByHandle g t)"
proof -
  obtain fl where fl: "table_inv t fl" using assms by (auto simp: table_wf_def)
  show thesis
  proof (cases fl)
    case Nil
    with fl reserve_full [of t x] show thesis by (intro that(1)) (auto simp: table_inv_def)
  next
    case (Cons i fl')
    then obtain t' where t': "ReserveHandle (Some x) t = Inr (Some (mk_handle i (m_counter_value t)), t')"
        "table_inv t' fl'" "\<And>g. GetObjectByHandle g t' =
          (if g = mk_handle i (m_counter_value t) then Inr (Some x) else GetObjectByHandle g t)"
      using reserve_step [of t i fl' x] fl by auto
    have "GetObjectByHandle (mk_handle i (m_counter_value t)) t = Inr None"
      using fl Cons mk_handle_fields(1) [of i "m_counter_value t"]
      by (intro lookup_empty_slot [of _ i]) (auto simp: table_inv_def MaxHandles_def)
    with t' fl Cons show thesis
      by (intro that(2) [of "mk_handle i (m_counter_value t)" t'])
        (auto simp: table_wf_def table_inv_def)
  qed
qed

interpretation ht: object_registry table_wf GetObjectByHandle "\<lambda>x. ReserveHandle (Some x)" FreeHandle
proof unfold_locales
  fix t :: "'a handle_table" and x
  assume "table_wf t"
  then show "\<exists>r t'. ReserveHandle (Some x) t = Inr (r, t') \<and> table_wf t'"
    by (rule reserve_cases [of t x]) (use \<open>table_wf t\<close> in auto)
next
  fix t t' :: "'a handle_table" and x
  assume "table_wf t" and "ReserveHandle (Some x) t = Inr (None, t')"
  then show "t' = t" by - (rule reserve_cases [of t x], auto)
next
  fix t t' :: "'a handle_table" and x h
  assume "table_wf t" and "ReserveHandle (Some x) t = Inr (Some h, t')"
  then show "GetObjectByHandle h t = Inr None" by - (rule reserve_cases [of t x], auto)
next
  fix t t' :: "'a handle_table" and x h g
  assume "table_wf t" and "ReserveHandle (Some x) t = Inr (Some h, t')"
  then show "GetObjectByHandle g t' = (if g = h then Inr (Some x) else GetObjectByHandle g t)"
    by - (rule reserve_cases [of t x], auto)
next
  fix t :: "'a handle_table" and h x
  assume "table_wf t" and "GetObjectByHandle h t = Inr (Some x)"
  then show "\<exists>t'. FreeHandle h t = Inr (True, t') \<and> table_wf t'"
    using free_step [of t _ h x] by (fastforce simp: table_wf_def)
next
  fix t t' :: "'a handle_table" and h x b g
  assume "table_wf t" and "GetObjectByHandle h t = Inr (Some x)" and "FreeHandle h t = Inr (b, t')"
  then show "GetObjectByHandle g t' = (if g = h then Inr None else GetObjectByHandle g t)"
    using free_step [of t _ h x] by (fastforce simp: table_wf_def)
qed

section \<open>Properties\<close>

text \<open>C11. On a well-formed table \<open>ReserveHandle\<close> fails exactly when all 256 slots are in use;
  otherwise it returns a handle that was not in use, the table stays well-formed, the handle finds
  the object and every other handle finds what it found before.\<close>

theorem reserve_handle_spec:
  assumes "table_wf t"
  shows "(ReserveHandle (Some x) t = Inr (None, t) \<and> unat (m_active_handles t) = MaxHandles) \<or>
    (\<exists>h t'. ReserveHandle (Some x) t = Inr (Some h, t') \<and> table_wf t' \<and>
      unat (m_active_handles t) < MaxHandles \<and> GetObjectByHandle h t = Inr None \<and>
      (\<forall>g. GetObjectByHandle g t' = (if g = h then Inr (Some x) else GetObjectByHandle g t)))"
  by (rule reserve_cases [OF assms, of x]) auto

lemma initial_table_wf: "table_wf (Initialize HandleTable)"
  using Initialize_inv [OF HandleTable_fresh] by (auto simp: table_wf_def)

text \<open>The first handle of a fresh table is slot 255 with counter 1.\<close>

lemma first_reservation:
  "\<exists>t'. ReserveHandle (Some x) (Initialize HandleTable) = Inr (Some 0x80FF, t')"
proof -
  have "rev [0..<MaxHandles] = 255 # rev [0..<255]" using upt_Suc_append [of 0 255] by (simp add: MaxHandles_def)
  moreover have "mk_handle 255 (m_counter_value (Initialize HandleTable :: 'a handle_table)) = 0x80FF"
    by (simp add: Initialize_eq [OF HandleTable_fresh] mk_handle_def)
  ultimately show ?thesis
    using reserve_step [of "Initialize HandleTable" 255 "rev [0..<255]" x]
      Initialize_inv [OF HandleTable_fresh, where 'a = 'a] by metis
qed

theorem reserve_handle_spec_witness:
  "\<exists>t'. ReserveHandle (Some (7::nat)) (Initialize HandleTable) = Inr (Some 0x80FF, t') \<and> table_wf t' \<and>
    GetObjectByHandle 0x80FF t' = Inr (Some 7)"
  using reserve_handle_spec [OF initial_table_wf, of "7::nat"] first_reservation [of "7::nat"] by auto

text \<open>Reserving a handle and freeing it again succeeds and leaves every lookup as it was: a
  freed handle finds nothing.\<close>

theorem reserve_free_roundtrip:
  assumes "table_wf t" and "ReserveHandle (Some x) t = Inr (Some h, t')"
  shows "\<exists>t''. FreeHandle h t' = Inr (True, t'') \<and> table_wf t'' \<and>
    GetObjectByHandle h t'' = Inr None \<and> (\<forall>g. GetObjectByHandle g t'' = GetObjectByHandle g t)"
  using ht.reserve_release [OF assms] ht.reserve_fresh [OF assms] by auto

theorem reserve_free_roundtrip_witness:
  "\<exists>t' t''. ReserveHandle (Some (7::nat)) (Initialize HandleTable) = Inr (Some 0x80FF, t') \<and>
    FreeHandle 0x80FF t' = Inr (True, t'') \<and> GetObjectByHandle 0x80FF t'' = Inr None"
  using first_reservation [of "7::nat"] reserve_free_roundtrip [OF initial_table_wf, of "7::nat"]
  by blast

text \<open>Index 256 passes the range check of both calls: a handle with that index makes them read
  past the end of the arrays, whatever the table holds.\<close>

theorem handle_index_256_out_of_bounds:
  "GetObjectByHandle 0x8100 t = Inl OutOfBounds \<and> FreeHandle 0x8100 t = Inl OutOfBounds"
  by (simp add: GetObjectByHandle_def FreeHandle_def MaxHandles_def CounterBitOffset_def Let_def)

end
