(* ===== verification/Busy_Mutex.thy ===== *)
theory Busy_Mutex
  imports DD_Prelude
begin

text \<open>
  The spin lock that guards the handle table,
  \<open>src/libraries/lib_dd/include/dd/ukern/ukern_busymutex.hpp\<close>: a ticket counter that is a union
  of two 16-bit halves and one 32-bit word. Any number of threads below $2^{16}$ run it; a step is
  one interlocked operation of one thread.

  Shown here: at most one thread is inside, and a thread that once had to wait never gets in,
  because the waiting loop compares the release count with the \<^emph>\<open>current\<close> lock count, to which the
  waiting thread itself has added.
\<close>

section \<open>State and operations\<close>

record busy_mutex =
  m_release_count :: u16
  m_lock_count :: u16

definition BusyMutex :: busy_mutex where
  "BusyMutex = \<lparr>m_release_count = 0, m_lock_count = 0\<rparr>"

text \<open>The 32-bit view of the union: the release count is the low half.\<close>

definition m_counter :: "busy_mutex \<Rightarrow> u32" where
  "m_counter m = push_bit 16 (ucast (m_lock_count m)) OR ucast (m_release_count m)"

definition of_counter :: "u32 \<Rightarrow> busy_mutex" where
  "of_counter c = \<lparr>m_release_count = ucast c, m_lock_count = ucast (drop_bit 16 c)\<rparr>"

definition counts_match :: "u32 \<Rightarrow> bool" where
  "counts_match wait \<longleftrightarrow> wait AND 0xffff = drop_bit 16 wait AND 0xffff"

text \<open>
  \<open>Enter\<close> up to the first test of its loop, one round of the loop, and \<open>Leave\<close>. The first two return
  whether the loop is left.
\<close>

definition Enter_first :: "busy_mutex \<Rightarrow> bool \<times> busy_mutex" where
  "Enter_first m =
    (let wait = m_counter m in (counts_match wait, of_counter (m_counter m + 0x10000)))"

definition Enter_again :: "busy_mutex \<Rightarrow> bool \<times> busy_mutex" where
  "Enter_again m =
    (let m = of_counter (m_counter m + 0); wait = m_counter m in (counts_match wait, m))"

definition Leave :: "busy_mutex \<Rightarrow> busy_mutex" where
  "Leave m = m\<lparr>m_release_count := m_release_count m + 1\<rparr>"

section \<open>The two halves\<close>

lemma unat_m_counter: "unat (m_counter m) = unat (m_lock_count m) * 65536 + unat (m_release_count m)"
proof -
  have r: "unat (ucast (m_release_count m) :: u32) = unat (m_release_count m)"
    by (simp add: unat_ucast_up)
  have b: "unat (m_lock_count m) < 65536" "unat (m_release_count m) < 65536"
    using unsigned_less [of "m_lock_count m", where 'a = nat]
      unsigned_less [of "m_release_count m", where 'a = nat] by simp_all
  have l: "unat (push_bit 16 (ucast (m_lock_count m) :: u32)) = unat (m_lock_count m) * 65536"
    using b(1) by (simp add: push_bit_eq_mult unat_word_ariths unat_ucast_up)
  have "push_bit 16 (ucast (m_lock_count m)) AND (ucast (m_release_count m) :: u32) = 0"
    by (auto simp: bit_eq_iff bit_simps dest: bit_imp_le_length)
  then have "m_counter m = push_bit 16 (ucast (m_lock_count m)) + ucast (m_release_count m)"
    by (simp add: m_counter_def disjunctive_add_eq_or)
  with l r b show ?thesis by (simp add: unat_word_ariths)
qed

lemma mask16: "(0xffff :: u32) = mask 16"
  by (simp add: mask_eq_decr_exp)

lemma counts_match_iff: "counts_match (m_counter m) \<longleftrightarrow> m_lock_count m = m_release_count m"
proof -
  have "unat (m_release_count m) < 65536" "unat (m_lock_count m) < 65536"
    using unsigned_less [of "m_lock_count m", where 'a = nat]
      unsigned_less [of "m_release_count m", where 'a = nat] by simp_all
  then show ?thesis
    by (auto simp: counts_match_def word_unat_eq_iff mask16 unat_and_mask unat_drop_bit_div unat_m_counter)
qed

lemma of_counter_m_counter: "of_counter (m_counter m) = m"
proof -
  have "unat (m_release_count m) < 65536" "unat (m_lock_count m) < 65536"
    using unsigned_less [of "m_lock_count m", where 'a = nat]
      unsigned_less [of "m_release_count m", where 'a = nat] by simp_all
  then show ?thesis
    by (intro busy_mutex.equality)
      (auto simp: of_counter_def word_unat_eq_iff unat_ucast_mod unat_drop_bit_div unat_m_counter)
qed

lemma of_counter_add: "of_counter (m_counter m + 0x10000) = m\<lparr>m_lock_count := m_lock_count m + 1\<rparr>"
proof -
  have b: "unat (m_release_count m) < 65536" "unat (m_lock_count m) < 65536"
    using unsigned_less [of "m_lock_count m", where 'a = nat]
      unsigned_less [of "m_release_count m", where 'a = nat] by simp_all
  have "unat (m_counter m + 0x10000) =
      ((unat (m_lock_count m) + 1) mod 65536) * 65536 + unat (m_release_count m)"
    using b by (cases "unat (m_lock_count m) = 65535")
      (auto simp: unat_word_ariths unat_m_counter)
  with b show ?thesis
    by (intro busy_mutex.equality)
      (auto simp: of_counter_def word_unat_eq_iff unat_ucast_mod unat_drop_bit_div unat_word_ariths)
qed

lemma Enter_first_eq:
  "Enter_first m = (m_lock_count m = m_release_count m, m\<lparr>m_lock_count := m_lock_count m + 1\<rparr>)"
  by (simp add: Enter_first_def counts_match_iff of_counter_add)

lemma Enter_again_eq: "Enter_again m = (m_lock_count m = m_release_count m, m)"
  by (simp add: Enter_again_def counts_match_iff of_counter_m_counter)

section \<open>Threads\<close>

datatype bm_pc = Outside | Spinning | Inside

record bm_sys =
  bm :: busy_mutex
  pc :: "nat \<Rightarrow> bm_pc"

definition bm_init :: bm_sys where
  "bm_init = \<lparr>bm = BusyMutex, pc = (\<lambda>_. Outside)\<rparr>"

definition after_test :: "bool \<Rightarrow> bm_pc" where
  "after_test ok = (if ok then Inside else Spinning)"

inductive bm_step :: "nat \<Rightarrow> bm_sys \<Rightarrow> bm_sys \<Rightarrow> bool" for N where
  enter: "i < N \<Longrightarrow> pc s i = Outside \<Longrightarrow> Enter_first (bm s) = (ok, m) \<Longrightarrow>
    bm_step N s (s\<lparr>bm := m, pc := (pc s)(i := after_test ok)\<rparr>)"
| again: "i < N \<Longrightarrow> pc s i = Spinning \<Longrightarrow> Enter_again (bm s) = (ok, m) \<Longrightarrow>
    bm_step N s (s\<lparr>bm := m, pc := (pc s)(i := after_test ok)\<rparr>)"
| leave: "i < N \<Longrightarrow> pc s i = Inside \<Longrightarrow>
    bm_step N s (s\<lparr>bm := Leave (bm s), pc := (pc s)(i := Outside)\<rparr>)"

abbreviation bm_reachable :: "nat \<Rightarrow> bm_sys \<Rightarrow> bool" where
  "bm_reachable N s \<equiv> (bm_step N)\<^sup>*\<^sup>* bm_init s"

inductive_cases bm_stepE: "bm_step N s t"

section \<open>Invariant\<close>

text \<open>
  The distance of the two counts is the number of threads that have taken a ticket and not given
  it back: those inside and those spinning.
\<close>

definition ticket_holders :: "nat \<Rightarrow> bm_sys \<Rightarrow> nat set" where
  "ticket_holders N s = {i. i < N \<and> pc s i \<noteq> Outside}"

definition bm_inv :: "nat \<Rightarrow> bm_sys \<Rightarrow> bool" where
  "bm_inv N s \<longleftrightarrow>
    m_lock_count (bm s) = m_release_count (bm s) + of_nat (card (ticket_holders N s)) \<and>
    (\<forall>i j. i < N \<longrightarrow> j < N \<longrightarrow> pc s i = Inside \<longrightarrow> pc s j = Inside \<longrightarrow> i = j)"

lemma ticket_holders_finite [simp]: "finite (ticket_holders N s)"
  by (simp add: ticket_holders_def)

lemma card_ticket_holders_le: "card (ticket_holders N s) \<le> N"
proof -
  have "card (ticket_holders N s) \<le> card {..<N}"
    by (rule card_mono) (auto simp: ticket_holders_def)
  then show ?thesis by simp
qed

lemma ticket_holders_add:
  assumes "i < N" and "pc s i = Outside" and "p \<noteq> Outside"
  shows "card (ticket_holders N (s\<lparr>bm := m, pc := (pc s)(i := p)\<rparr>)) = Suc (card (ticket_holders N s))"
proof -
  have "ticket_holders N (s\<lparr>bm := m, pc := (pc s)(i := p)\<rparr>) = insert i (ticket_holders N s)"
    using assms by (auto simp: ticket_holders_def)
  moreover have "i \<notin> ticket_holders N s" using assms by (simp add: ticket_holders_def)
  ultimately show ?thesis by simp
qed

lemma ticket_holders_remove:
  assumes "i < N" and "pc s i \<noteq> Outside"
  shows "card (ticket_holders N s) = Suc (card (ticket_holders N (s\<lparr>bm := m, pc := (pc s)(i := Outside)\<rparr>)))"
proof -
  let ?t = "s\<lparr>bm := m, pc := (pc s)(i := Outside)\<rparr>"
  have "ticket_holders N s = insert i (ticket_holders N ?t)" "i \<notin> ticket_holders N ?t"
    using assms by (auto simp: ticket_holders_def)
  then show ?thesis by simp
qed

lemma bm_inv_match:
  assumes "bm_inv N s" and "N < 65536" and "m_lock_count (bm s) = m_release_count (bm s)"
  shows "ticket_holders N s = {}"
proof -
  have "(of_nat (card (ticket_holders N s)) :: u16) = 0" using assms by (simp add: bm_inv_def)
  then have "unat (of_nat (card (ticket_holders N s)) :: u16) = 0" by simp
  then have "card (ticket_holders N s) = 0"
    using card_ticket_holders_le [of N s] assms(2) by (simp add: unat_of_nat)
  then show ?thesis by simp
qed

lemma bm_inv_spinning:
  assumes "bm_inv N s" and "N < 65536" and "i < N" and "pc s i \<noteq> Outside"
  shows "m_lock_count (bm s) \<noteq> m_release_count (bm s)"
  using bm_inv_match [OF assms(1,2)] assms(3,4) by (auto simp: ticket_holders_def)

lemma bm_step_inv:
  assumes "bm_step N s t" and "bm_inv N s" and "N < 65536"
  shows "bm_inv N t"
  using assms(1)
proof cases
  case (enter i ok m)
  have m: "m = (bm s)\<lparr>m_lock_count := m_lock_count (bm s) + 1\<rparr>"
      "ok = (m_lock_count (bm s) = m_release_count (bm s))"
    using enter by (auto simp: Enter_first_eq)
  have none: "pc s j \<noteq> Inside" if "ok" "j < N" for j
    using bm_inv_match [OF assms(2,3)] m(2) that by (auto simp: ticket_holders_def)
  show ?thesis
    using enter assms(2) m none ticket_holders_add [of i N s "after_test ok" m]
    by (auto simp: bm_inv_def after_test_def algebra_simps split: if_splits)
next
  case (again i ok m)
  have "\<not> ok" "m = bm s"
    using again bm_inv_spinning [OF assms(2,3), of i] by (auto simp: Enter_again_eq)
  moreover have "(pc s)(i := Spinning) = pc s" using again by auto
  ultimately have "t = s" using again by (simp add: after_test_def)
  then show ?thesis using assms(2) by simp
next
  case (leave i)
  have "m_lock_count (bm s) = m_release_count (bm s) + 1 + of_nat (card (ticket_holders N t))"
    using assms(2) leave ticket_holders_remove [of i N s "Leave (bm s)"] by (simp add: bm_inv_def)
  with assms(2) leave show ?thesis by (auto simp: bm_inv_def Leave_def)
qed

interpretation busy: one_owner "\<lambda>s. s = bm_init \<and> N < 65536" "bm_step N" "\<lambda>s. bm_inv N s \<and> N < 65536"
  "\<lambda>s i. i < N \<and> pc s i = Inside" for N
proof unfold_locales
  show "s = bm_init \<and> N < 65536 \<Longrightarrow> bm_inv N s \<and> N < 65536" for s
    by (simp add: bm_inv_def bm_init_def BusyMutex_def ticket_holders_def)
qed (auto simp: bm_step_inv, simp add: bm_inv_def)

lemma bm_reachable_inv: "bm_reachable N s \<Longrightarrow> N < 65536 \<Longrightarrow> bm_inv N s"
  using busy.run_inv by blast

section \<open>Properties\<close>

text \<open>C21. With fewer than $2^{16}$ threads at most one of them is between \<open>Enter\<close> and \<open>Leave\<close>.\<close>

theorem busy_mutex_exclusion:
  assumes "bm_reachable N s" and "N < 65536" and "i < N" and "j < N"
    and "pc s i = Inside" and "pc s j = Inside"
  shows "i = j"
  using busy.run_exclusive [OF _ assms(1)] assms(2-6) by blast

text \<open>A thread that fails the first test of \<open>Enter\<close> never enters: no step from a reachable
  state takes a spinning thread inside, whatever the other threads do.\<close>

theorem busy_mutex_waiter_starves:
  assumes "bm_reachable N s" and "N < 65536" and "i < N" and "pc s i = Spinning" and "bm_step N s t"
  shows "pc t i = Spinning"
  using assms(5)
proof cases
  case (again j ok m)
  then show ?thesis
    using bm_inv_spinning [OF bm_reachable_inv [OF assms(1,2)] assms(2), of j] assms(4)
    by (auto simp: Enter_again_eq after_test_def)
qed (use assms(4) in auto)

text \<open>A run in which thread 0 is inside and thread 1 waits.\<close>

definition contended :: bm_sys where
  "contended = \<lparr>bm = \<lparr>m_release_count = 0, m_lock_count = 2\<rparr>,
    pc = (\<lambda>_. Outside)(0 := Inside, 1 := Spinning)\<rparr>"

lemma contended_reachable: "bm_reachable 2 contended"
proof -
  let ?s = "\<lparr>bm = \<lparr>m_release_count = 0, m_lock_count = 1\<rparr>, pc = (\<lambda>_. Outside)(0 := Inside)\<rparr>"
  have "bm_step 2 bm_init ?s"
    using bm_step.enter [of 0 2 bm_init True "\<lparr>m_release_count = 0, m_lock_count = 1\<rparr>"]
    by (simp add: bm_init_def BusyMutex_def Enter_first_eq after_test_def)
  moreover have "bm_step 2 ?s contended"
    using bm_step.enter [of 1 2 ?s False "\<lparr>m_release_count = 0, m_lock_count = 2\<rparr>"]
    by (simp add: contended_def Enter_first_eq after_test_def)
  ultimately show ?thesis
    by (auto intro: rtranclp_trans)
qed

theorem busy_mutex_exclusion_witness:
  "bm_reachable 2 contended \<and> pc contended 0 = Inside \<and>
    {j. j < 2 \<and> pc contended j = Inside} = {0}"
  using busy_mutex_exclusion [OF contended_reachable, of 0] contended_reachable
  by (auto simp: contended_def)

theorem busy_mutex_waiter_starves_witness:
  "\<exists>t. bm_step 2 contended t \<and> pc t 0 = Outside \<and> pc t 1 = Spinning"
proof -
  have "bm_step 2 contended (contended\<lparr>bm := Leave (bm contended), pc := (pc contended)(0 := Outside)\<rparr>)"
    by (rule bm_step.leave) (simp_all add: contended_def)
  with busy_mutex_waiter_starves [OF contended_reachable, of 1] show ?thesis
    by (fastforce simp: contended_def)
qed

end
