(* ===== verification/Message_Queue.thy ===== *)
theory Message_Queue
  imports DD_Prelude
begin

text \<open>
  The two message queues, \<open>src/libraries/lib_dd/include/dd/util/util_messagequeue.hpp\<close> and
  \<open>src/libraries/lib_dd/include/dd/sys/sys_messagequeue.hpp\<close>: a ring buffer of \<open>size_t\<close> messages
  with one lock and two condition variables. The classes have the same text but for the lock they
  use and a second \<open>Initialize\<close>; both are modelled.

  Shown here: the buffer is a bounded FIFO queue (a locale states what that means and derives the
  conservation of messages from it; both classes interpret it), and with the condition variables
  no thread sleeps while it could go on.
\<close>

section \<open>State\<close>

record message_queue =
  m_message_buffer :: "u64 list"
  m_max_messages :: int
  m_pending_messages :: int
  m_current_message :: int

text \<open>The condition variable calls a method makes while it holds the lock.\<close>

datatype cv_signal = MessageSent | BufferFull

section \<open>\<open>util::MessageQueue\<close>\<close>

definition SendMessageImpl :: "u64 \<Rightarrow> message_queue \<Rightarrow> (cv_signal \<times> message_queue) outcome" where
  "SendMessageImpl message q =
    and_then (s32_val (m_pending_messages q + m_current_message q)) (\<lambda>index.
    and_then (if m_max_messages q \<le> index then s32_val (index - m_max_messages q) else Inr index) (\<lambda>index.
    if index < 0 \<or> int (length (m_message_buffer q)) \<le> index then Inl OutOfBounds
    else and_then (s32_val (m_pending_messages q + 1)) (\<lambda>pending.
      Inr (MessageSent, q\<lparr>m_message_buffer := (m_message_buffer q)[nat index := message],
        m_pending_messages := pending\<rparr>))))"

definition RecieveMessageImpl :: "message_queue \<Rightarrow> (u64 \<times> cv_signal \<times> message_queue) outcome" where
  "RecieveMessageImpl q =
    (let current = m_current_message q
     in if current < 0 \<or> int (length (m_message_buffer q)) \<le> current then Inl OutOfBounds
     else
       let out_message = m_message_buffer q ! nat current
       in and_then (s32_val (current + 1)) (\<lambda>current.
          and_then (s32_val (m_pending_messages q - 1)) (\<lambda>pending.
          let offset = (if m_max_messages q \<le> current then m_max_messages q else 0)
          in Inr (out_message, BufferFull, q\<lparr>m_current_message := s32_wrap (current - offset),
               m_pending_messages := pending\<rparr>))))"

text \<open>
  \<open>Initialize\<close> writes the buffer and the capacity only; the two counters keep what the memory held,
  since the constructor sets nothing. The contents of the new buffer are arbitrary (\<open>mem\<close>).
\<close>

definition MessageQueue_Initialize :: "u64 list \<Rightarrow> int \<Rightarrow> message_queue \<Rightarrow> message_queue" where
  "MessageQueue_Initialize mem max_message_count q =
    q\<lparr>m_message_buffer := mem, m_max_messages := max_message_count\<rparr>"

definition MessageQueue_Finalize :: "message_queue \<Rightarrow> message_queue" where
  "MessageQueue_Finalize q = q\<lparr>m_message_buffer := []\<rparr>"

definition TryReceiveMessage :: "message_queue \<Rightarrow> ((u64 \<times> cv_signal) option \<times> message_queue) outcome" where
  "TryReceiveMessage q =
    (if m_pending_messages q = 0 then Inr (None, q)
     else and_then (RecieveMessageImpl q) (\<lambda>(m, c, q). Inr (Some (m, c), q)))"

definition TrySendMessage :: "u64 \<Rightarrow> message_queue \<Rightarrow> (cv_signal option \<times> message_queue) outcome" where
  "TrySendMessage message q =
    (if m_max_messages q \<le> m_pending_messages q then Inr (None, q)
     else and_then (SendMessageImpl message q) (\<lambda>(c, q). Inr (Some c, q)))"

text \<open>
  The blocking calls: under the lock they test the loop condition of \<open>WaitForMessage\<close> or
  \<open>WaitForMessageClear\<close> and either go to sleep on a condition variable (\<open>None\<close>) or do the work.
\<close>

definition ReceiveMessage_attempt :: "message_queue \<Rightarrow> ((u64 \<times> cv_signal) option \<times> message_queue) outcome" where
  "ReceiveMessage_attempt q =
    (if m_pending_messages q = 0 then Inr (None, q)
     else and_then (RecieveMessageImpl q) (\<lambda>(m, c, q). Inr (Some (m, c), q)))"

definition SendMessage_attempt :: "u64 \<Rightarrow> message_queue \<Rightarrow> (cv_signal option \<times> message_queue) outcome" where
  "SendMessage_attempt message q =
    (if m_max_messages q \<le> m_pending_messages q then Inr (None, q)
     else and_then (SendMessageImpl message q) (\<lambda>(c, q). Inr (Some c, q)))"

section \<open>\<open>sys::MessageQueue\<close>\<close>

definition sys_SendMessageImpl :: "u64 \<Rightarrow> message_queue \<Rightarrow> (cv_signal \<times> message_queue) outcome" where
  "sys_SendMessageImpl message q =
    and_then (s32_val (m_pending_messages q + m_current_message q)) (\<lambda>index.
    and_then (if m_max_messages q \<le> index then s32_val (index - m_max_messages q) else Inr index) (\<lambda>index.
    if index < 0 \<or> int (length (m_message_buffer q)) \<le> index then Inl OutOfBounds
    else and_then (s32_val (m_pending_messages q + 1)) (\<lambda>pending.
      Inr (MessageSent, q\<lparr>m_message_buffer := (m_message_buffer q)[nat index := message],
        m_pending_messages := pending\<rparr>))))"

definition sys_RecieveMessageImpl :: "message_queue \<Rightarrow> (u64 \<times> cv_signal \<times> message_queue) outcome" where
  "sys_RecieveMessageImpl q =
    (let current = m_current_message q
     in if current < 0 \<or> int (length (m_message_buffer q)) \<le> current then Inl OutOfBounds
     else
       let out_message = m_message_buffer q ! nat current
       in and_then (s32_val (current + 1)) (\<lambda>current.
          and_then (s32_val (m_pending_messages q - 1)) (\<lambda>pending.
          let offset = (if m_max_messages q \<le> current then m_max_messages q else 0)
          in Inr (out_message, BufferFull, q\<lparr>m_current_message := s32_wrap (current - offset),
               m_pending_messages := pending\<rparr>))))"

definition sys_TryReceiveMessage :: "message_queue \<Rightarrow> ((u64 \<times> cv_signal) option \<times> message_queue) outcome" where
  "sys_TryReceiveMessage q =
    (if m_pending_messages q = 0 then Inr (None, q)
     else and_then (sys_RecieveMessageImpl q) (\<lambda>(m, c, q). Inr (Some (m, c), q)))"

definition sys_TrySendMessage :: "u64 \<Rightarrow> message_queue \<Rightarrow> (cv_signal option \<times> message_queue) outcome" where
  "sys_TrySendMessage message q =
    (if m_max_messages q \<le> m_pending_messages q then Inr (None, q)
     else and_then (sys_SendMessageImpl message q) (\<lambda>(c, q). Inr (Some c, q)))"

section \<open>Runs\<close>

text \<open>
  A sequence of calls on one queue, for any pair of send and receive operations: the messages that
  were accepted and those that were received, in order.
\<close>

datatype mq_call = Send u64 | Receive

fun run_calls :: "(u64 \<Rightarrow> 'q \<Rightarrow> (cv_signal option \<times> 'q) outcome) \<Rightarrow>
    ('q \<Rightarrow> ((u64 \<times> cv_signal) option \<times> 'q) outcome) \<Rightarrow> mq_call list \<Rightarrow> 'q \<Rightarrow>
    (u64 list \<times> u64 list \<times> 'q) outcome" where
  "run_calls snd_op rcv_op [] q = Inr ([], [], q)"
| "run_calls snd_op rcv_op (Send m # cs) q =
    and_then (snd_op m q) (\<lambda>(r, q).
    and_then (run_calls snd_op rcv_op cs q) (\<lambda>(accepted, received, q).
      Inr ((if r = None then accepted else m # accepted), received, q)))"
| "run_calls snd_op rcv_op (Receive # cs) q =
    and_then (rcv_op q) (\<lambda>(r, q).
    and_then (run_calls snd_op rcv_op cs q) (\<lambda>(accepted, received, q).
      Inr (accepted, (case r of None \<Rightarrow> received | Some (m, _) \<Rightarrow> m # received), q)))"

text \<open>
  The same with the result of every call: whether a message was accepted, and what was received. \<open>fifo_calls\<close> is what
  a first-in-first-out queue of \<open>n\<close> messages answers: it refuses a message exactly when it is full, has none exactly when it is empty,
  and gives the oldest one otherwise.
\<close>

datatype mq_result = Accepted bool | Received "u64 option"

fun run_results :: "(u64 \<Rightarrow> 'q \<Rightarrow> (cv_signal option \<times> 'q) outcome) \<Rightarrow>
    ('q \<Rightarrow> ((u64 \<times> cv_signal) option \<times> 'q) outcome) \<Rightarrow> mq_call list \<Rightarrow> 'q \<Rightarrow> (mq_result list \<times> 'q) outcome" where
  "run_results snd_op rcv_op [] q = Inr ([], q)"
| "run_results snd_op rcv_op (Send m # cs) q =
    and_then (snd_op m q) (\<lambda>(r, q). and_then (run_results snd_op rcv_op cs q) (\<lambda>(rs, q). Inr (Accepted (r \<noteq> None) # rs, q)))"
| "run_results snd_op rcv_op (Receive # cs) q =
    and_then (rcv_op q) (\<lambda>(r, q). and_then (run_results snd_op rcv_op cs q) (\<lambda>(rs, q). Inr (Received (map_option fst r) # rs, q)))"

fun fifo_calls :: "nat \<Rightarrow> mq_call list \<Rightarrow> u64 list \<Rightarrow> mq_result list \<times> u64 list" where
  "fifo_calls n [] ms = ([], ms)"
| "fifo_calls n (Send m # cs) ms =
    (if length ms < n then map_prod (Cons (Accepted True)) id (fifo_calls n cs (ms @ [m]))
     else map_prod (Cons (Accepted False)) id (fifo_calls n cs ms))"
| "fifo_calls n (Receive # cs) ms =
    (case ms of [] \<Rightarrow> map_prod (Cons (Received None)) id (fifo_calls n cs [])
     | m # ms \<Rightarrow> map_prod (Cons (Received (Some m))) id (fifo_calls n cs ms))"

section \<open>The contract of a bounded queue\<close>

locale bounded_fifo =
  fixes wf :: "'q \<Rightarrow> bool"
    and contents :: "'q \<Rightarrow> u64 list"
    and capacity :: "'q \<Rightarrow> nat"
    and try_send :: "u64 \<Rightarrow> 'q \<Rightarrow> (cv_signal option \<times> 'q) outcome"
    and try_receive :: "'q \<Rightarrow> ((u64 \<times> cv_signal) option \<times> 'q) outcome"
  assumes capacity_bound: "wf q \<Longrightarrow> length (contents q) \<le> capacity q"
    and send_space: "wf q \<Longrightarrow> length (contents q) < capacity q \<Longrightarrow>
      \<exists>q'. try_send m q = Inr (Some MessageSent, q') \<and> wf q' \<and> contents q' = contents q @ [m] \<and>
        capacity q' = capacity q"
    and send_full: "wf q \<Longrightarrow> length (contents q) = capacity q \<Longrightarrow> try_send m q = Inr (None, q)"
    and receive_some: "wf q \<Longrightarrow> contents q = m # ms \<Longrightarrow>
      \<exists>q'. try_receive q = Inr (Some (m, BufferFull), q') \<and> wf q' \<and> contents q' = ms \<and>
        capacity q' = capacity q"
    and receive_none: "wf q \<Longrightarrow> contents q = [] \<Longrightarrow> try_receive q = Inr (None, q)"
begin

lemma run_is_fifo:
  assumes "wf q"
  shows "\<exists>q'. run_results try_send try_receive cs q = Inr (fst (fifo_calls (capacity q) cs (contents q)), q') \<and>
    wf q' \<and> capacity q' = capacity q \<and> contents q' = snd (fifo_calls (capacity q) cs (contents q))"
  using assms
proof (induction cs arbitrary: q)
  case (Cons c cs)
  show ?case
  proof (cases c)
    case (Send m)
    show ?thesis
    proof (cases "length (contents q) < capacity q")
      case True
      obtain q' where q': "try_send m q = Inr (Some MessageSent, q')" "wf q'"
          "contents q' = contents q @ [m]" "capacity q' = capacity q"
        using send_space [OF Cons.prems True] by blast
      with Cons.IH [OF q'(2)] True show ?thesis by (auto simp: Send)
    next
      case False
      with capacity_bound [OF Cons.prems] send_full [OF Cons.prems]
      have "try_send m q = Inr (None, q)" by simp
      with Cons.IH [OF Cons.prems] False show ?thesis by (auto simp: Send)
    qed
  next
    case Receive
    show ?thesis
    proof (cases "contents q")
      case Nil
      with receive_none [OF Cons.prems] Cons.IH [OF Cons.prems] show ?thesis by (auto simp: Receive)
    next
      case C: (Cons m ms)
      obtain q' where q': "try_receive q = Inr (Some (m, BufferFull), q')" "wf q'"
          "contents q' = ms" "capacity q' = capacity q"
        using receive_some [OF Cons.prems C] by blast
      with Cons.IH [OF q'(2)] C show ?thesis by (auto simp: Receive)
    qed
  qed
qed simp

lemma run_conserves:
  assumes "wf q"
  shows "\<exists>accepted received q'. run_calls try_send try_receive cs q = Inr (accepted, received, q') \<and>
    wf q' \<and> capacity q' = capacity q \<and> contents q @ accepted = received @ contents q'"
  using assms
proof (induction cs arbitrary: q)
  case (Cons c cs)
  show ?case
  proof (cases c)
    case (Send m)
    show ?thesis
    proof (cases "length (contents q) < capacity q")
      case True
      obtain q' where q': "try_send m q = Inr (Some MessageSent, q')" "wf q'"
          "contents q' = contents q @ [m]" "capacity q' = capacity q"
        using send_space [OF Cons.prems True] by blast
      with Cons.IH [OF q'(2)] show ?thesis by (fastforce simp: Send)
    next
      case False
      with capacity_bound [OF Cons.prems] send_full [OF Cons.prems]
      have "try_send m q = Inr (None, q)" by simp
      with Cons.IH [OF Cons.prems] show ?thesis by (fastforce simp: Send)
    qed
  next
    case Receive
    show ?thesis
    proof (cases "contents q")
      case Nil
      with receive_none [OF Cons.prems] Cons.IH [OF Cons.prems] show ?thesis
        by (fastforce simp: Receive)
    next
      case C: (Cons m ms)
      obtain q' where q': "try_receive q = Inr (Some (m, BufferFull), q')" "wf q'"
          "contents q' = ms" "capacity q' = capacity q"
        using receive_some [OF Cons.prems C] by blast
      with Cons.IH [OF q'(2)] C show ?thesis by (fastforce simp: Receive)
    qed
  qed
qed simp

lemma send_all:
  assumes "wf q" and "length (contents q) + length ms \<le> capacity q"
  shows "\<exists>q'. run_calls try_send try_receive (map Send ms) q = Inr (ms, [], q') \<and> wf q' \<and>
    contents q' = contents q @ ms \<and> capacity q' = capacity q"
  using assms
proof (induction ms arbitrary: q)
  case (Cons m ms)
  obtain q' where q': "try_send m q = Inr (Some MessageSent, q')" "wf q'"
      "contents q' = contents q @ [m]" "capacity q' = capacity q"
    using send_space [of q m] Cons.prems by auto
  with Cons.IH [of q'] Cons.prems show ?case by fastforce
qed simp

lemma receive_all:
  assumes "wf q"
  shows "\<exists>q'. run_calls try_send try_receive (replicate (length (contents q)) Receive) q =
    Inr ([], contents q, q') \<and> wf q' \<and> contents q' = [] \<and> capacity q' = capacity q"
  using assms
proof (induction "contents q" arbitrary: q)
  case Nil
  then show ?case by (simp flip: Nil(1))
next
  case (Cons m ms)
  obtain q' where q': "try_receive q = Inr (Some (m, BufferFull), q')" "wf q'"
      "contents q' = ms" "capacity q' = capacity q"
    using receive_some [OF Cons.prems] Cons.hyps(2) by metis
  with Cons.hyps(1) [of q'] show ?case by (fastforce simp flip: Cons.hyps(2))
qed

end

section \<open>The ring buffer is a bounded queue\<close>

definition mq_wf :: "message_queue \<Rightarrow> bool" where
  "mq_wf q \<longleftrightarrow> 0 < m_max_messages q \<and> m_max_messages q \<le> 2 ^ 30 \<and>
    int (length (m_message_buffer q)) = m_max_messages q \<and>
    0 \<le> m_current_message q \<and> m_current_message q < m_max_messages q \<and>
    0 \<le> m_pending_messages q \<and> m_pending_messages q \<le> m_max_messages q"

definition mq_contents :: "message_queue \<Rightarrow> u64 list" where
  "mq_contents q = map (\<lambda>k. m_message_buffer q !
      nat ((m_current_message q + int k) mod m_max_messages q)) [0..<nat (m_pending_messages q)]"

definition mq_capacity :: "message_queue \<Rightarrow> nat" where
  "mq_capacity q = nat (m_max_messages q)"

lemma length_mq_contents [simp]: "length (mq_contents q) = nat (m_pending_messages q)"
  by (simp add: mq_contents_def)

lemma s32_ok_queue: "- (2 ^ 31) \<le> i \<Longrightarrow> i < 2 ^ 31 \<Longrightarrow> s32_ok i"
  by (simp add: s32_ok_def)

lemma ring_index:
  assumes "0 \<le> c" and "c < m" and "0 \<le> p" and "p < (m :: int)"
  shows "(if m \<le> p + c then p + c - m else p + c) = (c + p) mod m"
proof (cases "m \<le> p + c")
  case True
  have "(c + p) mod m = (c + p - m) mod m" by simp
  also have "\<dots> = c + p - m" using assms True by (intro mod_pos_pos_trivial) auto
  finally show ?thesis using True by (simp add: add.commute)
next
  case False
  then have "(c + p) mod m = c + p" using assms by (intro mod_pos_pos_trivial) auto
  with False show ?thesis by (simp add: add.commute)
qed

lemma ring_index_inj:
  assumes "0 < (m :: int)" and "(c + int k) mod m = (c + p) mod m" and "int k < p" and "p < m"
  shows False
proof -
  have "m dvd (c + p) - (c + int k)" using assms(2) by (metis mod_eq_dvd_iff)
  then have "m dvd p - int k" by simp
  with assms show False by (auto dest: zdvd_imp_le)
qed

lemma mq_send_space:
  assumes "mq_wf q" and "m_pending_messages q < m_max_messages q"
  shows "\<exists>q'. TrySendMessage m q = Inr (Some MessageSent, q') \<and> mq_wf q' \<and>
    mq_contents q' = mq_contents q @ [m] \<and> mq_capacity q' = mq_capacity q"
proof -
  let ?p = "m_pending_messages q" and ?c = "m_current_message q" and ?m = "m_max_messages q"
  let ?i = "(?c + ?p) mod ?m"
  let ?q = "q\<lparr>m_message_buffer := (m_message_buffer q)[nat ?i := m], m_pending_messages := ?p + 1\<rparr>"
  note w = assms(1) [unfolded mq_wf_def]
  have ok: "s32_ok (?p + ?c)" "s32_ok (?p + ?c - ?m)" "s32_ok (?p + 1)"
    using w assms(2) by (auto simp: s32_ok_def)
  have i: "0 \<le> ?i" "?i < int (length (m_message_buffer q))" using w by simp_all
  have "and_then (if ?m \<le> ?p + ?c then s32_val (?p + ?c - ?m) else Inr (?p + ?c)) f = f ?i"
    for f :: "int \<Rightarrow> (cv_signal \<times> message_queue) outcome"
    using ring_index [of ?c ?m ?p] w assms(2) ok by (auto split: if_splits)
  then have S: "TrySendMessage m q = Inr (Some MessageSent, ?q)"
    using assms(2) ok i by (simp add: TrySendMessage_def SendMessageImpl_def)
  have idx: "nat ?i \<noteq> nat ((?c + int k) mod ?m)" if "k < nat ?p" for k
  proof -
    have "int k < ?p" using that by linarith
    then have "(?c + int k) mod ?m \<noteq> ?i" using ring_index_inj [of ?m ?c k ?p] w assms(2) by auto
    then show ?thesis using w by (metis eq_nat_nat_iff pos_mod_sign)
  qed
  have "nat ?i < length (m_message_buffer q)" using i by linarith
  moreover have "nat (?p + 1) = Suc (nat ?p)" using w by (simp add: nat_add_distrib)
  moreover have "0 \<le> ?p" using w by simp
  ultimately have "mq_contents ?q = mq_contents q @ [m]"
    using idx by (auto simp: mq_contents_def)
  with S w assms(2) show ?thesis by (auto simp: mq_wf_def mq_capacity_def)
qed

lemma mq_receive_some:
  assumes "mq_wf q" and "mq_contents q = m # ms"
  shows "\<exists>q'. TryReceiveMessage q = Inr (Some (m, BufferFull), q') \<and> mq_wf q' \<and>
    mq_contents q' = ms \<and> mq_capacity q' = mq_capacity q"
proof -
  let ?p = "m_pending_messages q" and ?c = "m_current_message q" and ?m = "m_max_messages q"
  let ?q = "q\<lparr>m_current_message := (?c + 1) mod ?m, m_pending_messages := ?p - 1\<rparr>"
  note w = assms(1) [unfolded mq_wf_def]
  have "0 < length (mq_contents q)" using assms(2) by simp
  then have p: "0 < ?p" by simp
  have ok: "s32_ok (?c + 1)" "s32_ok (?p - 1)" "s32_ok (?c + 1 - ?m)" using w by (auto simp: s32_ok_def)
  have c': "(if ?m \<le> ?c + 1 then ?c + 1 - ?m else ?c + 1) = (?c + 1) mod ?m"
  proof (cases "?m \<le> ?c + 1")
    case True
    with w have "?c + 1 = ?m" by linarith
    then show ?thesis by simp
  qed (use w in auto)
  have n: "nat ?p = Suc (nat (?p - 1))" using p by simp
  have cons: "mq_contents q = m_message_buffer q ! nat ?c # mq_contents ?q"
  proof -
    have "[0..<nat ?p] = 0 # map Suc [0..<nat (?p - 1)]" by (simp add: n map_Suc_upt upt_conv_Cons)
    moreover have "(?c + int (Suc k)) mod ?m = ((?c + 1) mod ?m + int k) mod ?m" for k
      by (simp add: mod_simps algebra_simps)
    ultimately show ?thesis using w by (simp add: mq_contents_def comp_def)
  qed
  have "TryReceiveMessage q = Inr (Some (m_message_buffer q ! nat ?c, BufferFull), ?q)"
    using w p ok c' by (auto simp: TryReceiveMessage_def RecieveMessageImpl_def Let_def split: if_splits)
  with cons assms(2) w p show ?thesis
    by (auto simp: mq_wf_def mq_capacity_def)
qed

interpretation mq: bounded_fifo mq_wf mq_contents mq_capacity TrySendMessage TryReceiveMessage
proof unfold_locales
  fix q m ms
  assume w: "mq_wf q"
  show "length (mq_contents q) \<le> mq_capacity q" using w by (auto simp: mq_wf_def mq_capacity_def intro: nat_mono)
  show "\<exists>q'. TrySendMessage m q = Inr (Some MessageSent, q') \<and> mq_wf q' \<and>
      mq_contents q' = mq_contents q @ [m] \<and> mq_capacity q' = mq_capacity q"
    if "length (mq_contents q) < mq_capacity q"
    using that w by (intro mq_send_space) (simp_all add: mq_capacity_def)
  show "TrySendMessage m q = Inr (None, q)" if "length (mq_contents q) = mq_capacity q"
    using that w by (simp add: TrySendMessage_def mq_capacity_def mq_wf_def eq_nat_nat_iff)
  show "\<exists>q'. TryReceiveMessage q = Inr (Some (m, BufferFull), q') \<and> mq_wf q' \<and>
      mq_contents q' = ms \<and> mq_capacity q' = mq_capacity q" if "mq_contents q = m # ms"
    using that w by (rule mq_receive_some [rotated])
  show "TryReceiveMessage q = Inr (None, q)" if "mq_contents q = []"
  proof -
    have "nat (m_pending_messages q) = 0" using that length_mq_contents [of q] by simp
    with w show ?thesis by (simp add: TryReceiveMessage_def mq_wf_def)
  qed
qed

text \<open>The queue of the \<open>sys\<close> library computes the same and so is the same queue.\<close>

lemma sys_TrySendMessage_eq: "sys_TrySendMessage = TrySendMessage"
  by (intro ext) (simp add: sys_TrySendMessage_def TrySendMessage_def sys_SendMessageImpl_def
      SendMessageImpl_def)

lemma sys_TryReceiveMessage_eq: "sys_TryReceiveMessage = TryReceiveMessage"
  by (intro ext) (simp add: sys_TryReceiveMessage_def TryReceiveMessage_def sys_RecieveMessageImpl_def
      RecieveMessageImpl_def)

interpretation sys_mq: bounded_fifo mq_wf mq_contents mq_capacity sys_TrySendMessage sys_TryReceiveMessage
  unfolding sys_TrySendMessage_eq sys_TryReceiveMessage_eq by (rule mq.bounded_fifo_axioms)

section \<open>Sleeping threads\<close>

text \<open>
  Threads that call \<open>SendMessage\<close> and \<open>ReceiveMessage\<close>: one that finds the queue full or empty sleeps
  on a condition variable, and each completed call broadcasts the other one.
\<close>

record mq_sys =
  mq_queue :: message_queue
  asleep_sent :: "nat set"
  asleep_full :: "nat set"

definition Broadcast :: "cv_signal \<Rightarrow> mq_sys \<Rightarrow> mq_sys" where
  "Broadcast c s = (case c of MessageSent \<Rightarrow> s\<lparr>asleep_sent := {}\<rparr> | BufferFull \<Rightarrow> s\<lparr>asleep_full := {}\<rparr>)"

inductive mq_step :: "mq_sys \<Rightarrow> mq_sys \<Rightarrow> bool" where
  received: "i \<notin> asleep_sent s \<union> asleep_full s \<Longrightarrow>
    ReceiveMessage_attempt (mq_queue s) = Inr (Some (m, c), q) \<Longrightarrow>
    mq_step s (Broadcast c (s\<lparr>mq_queue := q\<rparr>))"
| receive_sleeps: "i \<notin> asleep_sent s \<union> asleep_full s \<Longrightarrow>
    ReceiveMessage_attempt (mq_queue s) = Inr (None, q) \<Longrightarrow>
    mq_step s (s\<lparr>mq_queue := q, asleep_sent := insert i (asleep_sent s)\<rparr>)"
| sent: "i \<notin> asleep_sent s \<union> asleep_full s \<Longrightarrow>
    SendMessage_attempt m (mq_queue s) = Inr (Some c, q) \<Longrightarrow>
    mq_step s (Broadcast c (s\<lparr>mq_queue := q\<rparr>))"
| send_sleeps: "i \<notin> asleep_sent s \<union> asleep_full s \<Longrightarrow>
    SendMessage_attempt m (mq_queue s) = Inr (None, q) \<Longrightarrow>
    mq_step s (s\<lparr>mq_queue := q, asleep_full := insert i (asleep_full s)\<rparr>)"

definition mq_sys_inv :: "mq_sys \<Rightarrow> bool" where
  "mq_sys_inv s \<longleftrightarrow> mq_wf (mq_queue s) \<and>
    (asleep_sent s \<noteq> {} \<longrightarrow> mq_contents (mq_queue s) = []) \<and>
    (asleep_full s \<noteq> {} \<longrightarrow> length (mq_contents (mq_queue s)) = mq_capacity (mq_queue s))"

lemma attempts_are_tries:
  "ReceiveMessage_attempt = TryReceiveMessage" "SendMessage_attempt = TrySendMessage"
  by (intro ext, simp add: ReceiveMessage_attempt_def TryReceiveMessage_def)
    (intro ext, simp add: SendMessage_attempt_def TrySendMessage_def)

lemma receive_cases:
  assumes "mq_wf q" and "TryReceiveMessage q = Inr (r, q')"
  obtains "r = None" and "q' = q" and "mq_contents q = []"
  | m ms where "r = Some (m, BufferFull)" and "mq_wf q'" and "mq_contents q = m # ms"
    and "mq_contents q' = ms" and "mq_capacity q' = mq_capacity q"
  using assms mq.receive_some [of q] mq.receive_none [of q] by (cases "mq_contents q") fastforce+

lemma send_cases:
  assumes "mq_wf q" and "TrySendMessage m q = Inr (r, q')"
  obtains "r = None" and "q' = q" and "length (mq_contents q) = mq_capacity q"
  | "r = Some MessageSent" and "mq_wf q'" and "mq_contents q' = mq_contents q @ [m]"
    and "mq_capacity q' = mq_capacity q" and "length (mq_contents q) < mq_capacity q"
proof (cases "length (mq_contents q) < mq_capacity q")
  case True
  with assms mq.send_space [of q m] that(2) show thesis by fastforce
next
  case False
  then have "length (mq_contents q) = mq_capacity q" using mq.capacity_bound [OF assms(1)] by simp
  with assms mq.send_full [of q m] that(1) show thesis by fastforce
qed

lemma mq_step_inv: "mq_step s t \<Longrightarrow> mq_sys_inv s \<Longrightarrow> mq_sys_inv t"
proof (induction rule: mq_step.induct)
  case (received i s m c q)
  have w: "mq_wf (mq_queue s)" using received by (simp add: mq_sys_inv_def)
  show ?case
    by (rule receive_cases [OF w received(2) [unfolded attempts_are_tries]])
      (use received in \<open>auto simp: mq_sys_inv_def Broadcast_def\<close>)
next
  case (receive_sleeps i s q)
  have w: "mq_wf (mq_queue s)" using receive_sleeps by (simp add: mq_sys_inv_def)
  show ?case
    by (rule receive_cases [OF w receive_sleeps(2) [unfolded attempts_are_tries]])
      (use receive_sleeps in \<open>auto simp: mq_sys_inv_def\<close>)
next
  case (sent i s m c q)
  have w: "mq_wf (mq_queue s)" using sent by (simp add: mq_sys_inv_def)
  show ?case
    by (rule send_cases [OF w sent(2) [unfolded attempts_are_tries]])
      (use sent in \<open>auto simp: mq_sys_inv_def Broadcast_def\<close>)
next
  case (send_sleeps i s m q)
  have w: "mq_wf (mq_queue s)" using send_sleeps by (simp add: mq_sys_inv_def)
  show ?case
    by (rule send_cases [OF w send_sleeps(2) [unfolded attempts_are_tries]])
      (use send_sleeps in \<open>auto simp: mq_sys_inv_def\<close>)
qed

interpretation mq_threads: kept_invariant mq_sys_inv mq_step mq_sys_inv
  by unfold_locales (auto intro: mq_step_inv)

section \<open>Properties\<close>

text \<open>The queue of \<open>n\<close> messages that \<open>Initialize\<close> makes in memory whose counters are zero.\<close>

definition fresh_queue :: "nat \<Rightarrow> message_queue" where
  "fresh_queue n = MessageQueue_Initialize (replicate n 0) (int n)
    \<lparr>m_message_buffer = [], m_max_messages = 0, m_pending_messages = 0, m_current_message = 0\<rparr>"

lemma fresh_queue_wf:
  assumes "0 < n" and "n \<le> 2 ^ 30"
  shows "mq_wf (fresh_queue n)"
proof -
  have "int n \<le> 2 ^ 30" using assms(2) by (metis of_nat_le_iff of_nat_numeral of_nat_power)
  with assms(1) show ?thesis by (simp add: fresh_queue_def MessageQueue_Initialize_def mq_wf_def)
qed

lemma fresh_queue_contents: "mq_contents (fresh_queue n) = []" "mq_capacity (fresh_queue n) = n"
  by (simp_all add: fresh_queue_def MessageQueue_Initialize_def mq_contents_def mq_capacity_def)

text \<open>The messages received are the first ones of those that were in the queue or accepted, in that order; the rest is still in the queue.\<close>

lemma message_queue_conserves:
  assumes "mq_wf q"
  shows "\<exists>accepted received q'. run_calls TrySendMessage TryReceiveMessage cs q =
      Inr (accepted, received, q') \<and>
    mq_wf q' \<and> mq_capacity q' = mq_capacity q \<and> mq_contents q @ accepted = received @ mq_contents q'"
  using assms by (rule mq.run_conserves)

text \<open>C19. Any sequence of \<open>TrySendMessage\<close> and \<open>TryReceiveMessage\<close> calls on a well-formed queue runs
  without a fault, and every call returns what a first-in-first-out queue of the same capacity and contents returns: a message is
  refused exactly when the queue is full, none is received exactly when it is empty, and otherwise the oldest one is;
  what is in the queue afterwards is what that queue holds.\<close>

theorem message_queue_is_fifo:
  assumes "mq_wf q"
  shows "\<exists>q'. run_results TrySendMessage TryReceiveMessage cs q = Inr (fst (fifo_calls (mq_capacity q) cs (mq_contents q)), q') \<and>
    mq_wf q' \<and> mq_capacity q' = mq_capacity q \<and> mq_contents q' = snd (fifo_calls (mq_capacity q) cs (mq_contents q))"
  using assms by (rule mq.run_is_fifo)

theorem message_queue_is_fifo_witness:
  "\<exists>q'. run_results TrySendMessage TryReceiveMessage [Receive, Send 5, Send 6, Send 7, Receive, Send 8] (fresh_queue 2) =
      Inr ([Received None, Accepted True, Accepted True, Accepted False, Received (Some 5), Accepted True], q') \<and> mq_contents q' = [6, 8]"
  using message_queue_is_fifo [OF fresh_queue_wf, of 2 "[Receive, Send 5, Send 6, Send 7, Receive, Send 8]"]
  by (auto simp: fresh_queue_contents)

text \<open>The same for \<open>sys::MessageQueue\<close>: messages sent into an empty queue, as many as it holds,
  come out in order.\<close>

theorem sys_message_queue_roundtrip:
  assumes "mq_wf q" and "mq_contents q = []" and "length ms \<le> mq_capacity q"
  shows "\<exists>q' q''. run_calls sys_TrySendMessage sys_TryReceiveMessage (map Send ms) q = Inr (ms, [], q') \<and>
    run_calls sys_TrySendMessage sys_TryReceiveMessage (replicate (length ms) Receive) q' = Inr ([], ms, q'') \<and>
    mq_contents q'' = []"
proof -
  obtain q' where q': "run_calls sys_TrySendMessage sys_TryReceiveMessage (map Send ms) q = Inr (ms, [], q')"
      "mq_wf q'" "mq_contents q' = ms"
    using sys_mq.send_all [of q ms] assms by auto
  with sys_mq.receive_all [OF q'(2)] show ?thesis by fastforce
qed

theorem sys_message_queue_roundtrip_witness:
  "\<exists>q' q''. run_calls sys_TrySendMessage sys_TryReceiveMessage (map Send [5, 6]) (fresh_queue 2) =
      Inr ([5, 6], [], q') \<and>
    run_calls sys_TrySendMessage sys_TryReceiveMessage (replicate (length [5, 6 :: u64]) Receive) q' =
      Inr ([], [5, 6], q'') \<and> mq_contents q'' = []"
  by (rule sys_message_queue_roundtrip [OF fresh_queue_wf])
    (simp_all add: fresh_queue_contents)

text \<open>C20. No lost wake-up: in every state that threads calling \<open>SendMessage\<close> and \<open>ReceiveMessage\<close>
  reach, a thread sleeps for a message only while the queue is empty, and for space only while
  it is full.\<close>

theorem no_lost_wakeup:
  assumes "mq_step\<^sup>*\<^sup>* \<lparr>mq_queue = q, asleep_sent = {}, asleep_full = {}\<rparr> s" and "mq_wf q"
  shows "(i \<in> asleep_sent s \<longrightarrow> mq_contents (mq_queue s) = []) \<and>
    (i \<in> asleep_full s \<longrightarrow> length (mq_contents (mq_queue s)) = mq_capacity (mq_queue s))"
  using mq_threads.steps_inv [OF assms(1)] assms(2) by (auto simp: mq_sys_inv_def)

theorem no_lost_wakeup_witness:
  "\<exists>s. mq_step\<^sup>*\<^sup>* \<lparr>mq_queue = fresh_queue 2, asleep_sent = {}, asleep_full = {}\<rparr> s \<and>
    3 \<in> asleep_sent s \<and> mq_contents (mq_queue s) = []"
proof -
  let ?s = "\<lparr>mq_queue = fresh_queue 2, asleep_sent = {}, asleep_full = {}\<rparr>"
  have "mq_step ?s (?s\<lparr>mq_queue := fresh_queue 2, asleep_sent := insert 3 (asleep_sent ?s)\<rparr>)"
    by (rule mq_step.receive_sleeps [where q = "fresh_queue 2"])
      (simp_all add: attempts_are_tries mq.receive_none fresh_queue_wf fresh_queue_contents)
  then have step: "mq_step\<^sup>*\<^sup>* ?s (?s\<lparr>asleep_sent := {3}\<rparr>)" by simp
  show ?thesis
    using no_lost_wakeup [OF step fresh_queue_wf, of 3] step by (intro exI [of _ "?s\<lparr>asleep_sent := {3}\<rparr>"]) simp
qed

end
