(* ===== verification/Object_Allocator.thy ===== *)
theory Object_Allocator
  imports DD_Prelude
begin

text \<open>
  The two object allocators, \<open>util_fixedobjectallocator.hpp\<close> and \<open>util_heapobjectallocator.hpp\<close>
  under \<open>src/libraries/lib_dd/include/dd/util/\<close>. Both keep the free slots of an array on a list
  threaded through the slots themselves; a pointer into the array is its index.

  Shown here: a slot is never handed out twice, an allocation fails exactly when every slot is in
  use, and a freed slot can be allocated again. A locale states that contract and both allocators
  interpret it; slot 0 of the fixed allocator is outside it, because \<open>Free\<close> rejects it.
\<close>

section \<open>State and operations\<close>

text \<open>A slot of the union of \<open>m_object_array\<close> and \<open>m_free_node_array\<close>.\<close>

datatype 'o slot = FreeNode "nat option" | Object 'o

record 'o object_allocator =
  m_free_list :: "nat option"
  m_slots :: "'o slot list"

text \<open>\<open>m_free_node_array{}\<close> leaves every \<open>next\<close> null, and the loop sets all but the last.\<close>

definition link_nodes :: "nat \<Rightarrow> 'o slot list \<Rightarrow> 'o slot list" where
  "link_nodes count xs = fold (\<lambda>i ys. ys[i := FreeNode (Some (i + 1))]) [0..<count - 1] xs"

definition FixedObjectAllocator :: "nat \<Rightarrow> 'o object_allocator" where
  "FixedObjectAllocator count =
    \<lparr>m_free_list = Some 0, m_slots = link_nodes count (replicate count (FreeNode None))\<rparr>"

text \<open>\<open>constr\<close> is the default constructor of \<open>T\<close>. A free list that leads to an object (or out
  of the array) has been overwritten.\<close>

definition Allocate :: "'o \<Rightarrow> 'o object_allocator \<Rightarrow> (nat option \<times> 'o object_allocator) outcome" where
  "Allocate constr a =
    (case m_free_list a of
       None \<Rightarrow> Inr (None, a)
     | Some i \<Rightarrow>
         if length (m_slots a) \<le> i then Inl OutOfBounds
         else (case m_slots a ! i of
             Object _ \<Rightarrow> Inl BadObject
           | FreeNode nxt \<Rightarrow>
               Inr (Some i, a\<lparr>m_free_list := nxt, m_slots := (m_slots a)[i := Object constr]\<rparr>)))"

definition push_free :: "nat \<Rightarrow> 'o object_allocator \<Rightarrow> 'o object_allocator" where
  "push_free i a =
    a\<lparr>m_free_list := Some i, m_slots := (m_slots a)[i := FreeNode (m_free_list a)]\<rparr>"

text \<open>The assertion compares with a strict \<open><\<close> on both sides.\<close>

definition Free :: "nat \<Rightarrow> 'o object_allocator \<Rightarrow> 'o object_allocator outcome" where
  "Free i a = and_then (dd_assert (0 < i \<and> i < length (m_slots a)) a) (\<lambda>a. Inr (push_free i a))"

text \<open>
  The heap allocator: \<open>memory\<close> is what the heap (or the caller) returned for the array, \<open>None\<close>
  when it had none. Its \<open>next\<close> fields hold whatever the memory held before.
\<close>

definition HeapObjectAllocator :: "'o object_allocator" where
  "HeapObjectAllocator = \<lparr>m_free_list = None, m_slots = []\<rparr>"

definition heap_Initialize ::
  "nat option list option \<Rightarrow> nat \<Rightarrow> 'o object_allocator \<Rightarrow> bool \<times> 'o object_allocator" where
  "heap_Initialize memory element_count a =
    (if element_count = 0 then (False, a)
     else (case memory of
         None \<Rightarrow> (False, a)
       | Some raw \<Rightarrow>
           (True, \<lparr>m_free_list = Some 0, m_slots = link_nodes element_count (map FreeNode raw)\<rparr>)))"

definition heap_Initialize_buffer ::
  "nat option list option \<Rightarrow> nat \<Rightarrow> 'o object_allocator \<Rightarrow> bool \<times> 'o object_allocator" where
  "heap_Initialize_buffer preallocated_buffer element_count a =
    (if element_count = 0 \<or> preallocated_buffer = None then (False, a)
     else (True, \<lparr>m_free_list = Some 0,
       m_slots = link_nodes element_count (map FreeNode (the preallocated_buffer))\<rparr>))"

definition heap_Allocate :: "'o \<Rightarrow> 'o object_allocator \<Rightarrow> (nat option \<times> 'o object_allocator) outcome" where
  "heap_Allocate constr a =
    (case m_free_list a of
       None \<Rightarrow> Inr (None, a)
     | Some i \<Rightarrow>
         if length (m_slots a) \<le> i then Inl OutOfBounds
         else (case m_slots a ! i of
             Object _ \<Rightarrow> Inl BadObject
           | FreeNode nxt \<Rightarrow>
               Inr (Some i, a\<lparr>m_free_list := nxt, m_slots := (m_slots a)[i := Object constr]\<rparr>)))"

definition heap_Free :: "nat \<Rightarrow> 'o object_allocator \<Rightarrow> 'o object_allocator outcome" where
  "heap_Free i a = (if length (m_slots a) \<le> i then Inl OutOfBounds else Inr (push_free i a))"

section \<open>The contract of a slot allocator\<close>

locale slot_allocator =
  fixes wf :: "'a \<Rightarrow> bool"
    and live :: "'a \<Rightarrow> nat set"
    and capacity :: "'a \<Rightarrow> nat"
    and alloc :: "'a \<Rightarrow> (nat option \<times> 'a) outcome"
    and release :: "nat \<Rightarrow> 'a \<Rightarrow> 'a outcome"
    and releasable :: "nat \<Rightarrow> bool"
  assumes live_bounded: "wf a \<Longrightarrow> live a \<subseteq> {..<capacity a}"
    and alloc_full: "wf a \<Longrightarrow> live a = {..<capacity a} \<Longrightarrow> alloc a = Inr (None, a)"
    and alloc_slot: "wf a \<Longrightarrow> live a \<noteq> {..<capacity a} \<Longrightarrow>
      \<exists>i b. alloc a = Inr (Some i, b) \<and> wf b \<and> i \<notin> live a \<and> live b = insert i (live a) \<and>
        capacity b = capacity a"
    and release_slot: "wf a \<Longrightarrow> i \<in> live a \<Longrightarrow> releasable i \<Longrightarrow>
      \<exists>b. release i a = Inr b \<and> wf b \<and> live b = live a - {i} \<and> capacity b = capacity a"
begin

text \<open>Any number of allocations: they hand out fresh slots until none is left.\<close>

primrec alloc_many :: "nat \<Rightarrow> 'a \<Rightarrow> (nat list \<times> 'a) outcome" where
  "alloc_many 0 a = Inr ([], a)"
| "alloc_many (Suc n) a = and_then (alloc a) (\<lambda>(r, b).
    and_then (alloc_many n b) (\<lambda>(js, c). Inr ((case r of None \<Rightarrow> js | Some i \<Rightarrow> i # js), c)))"

lemma finite_live: "wf a \<Longrightarrow> finite (live a)"
  using live_bounded finite_subset by blast

lemma alloc_many_fresh:
  assumes "wf a" and "n \<le> capacity a - card (live a)"
  shows "\<exists>js b. alloc_many n a = Inr (js, b) \<and> length js = n \<and> distinct js \<and>
    set js \<inter> live a = {} \<and> live b = live a \<union> set js \<and> wf b \<and> capacity b = capacity a"
  using assms
proof (induction n arbitrary: a)
  case (Suc n)
  have "live a \<noteq> {..<capacity a}" using Suc.prems(2) by (metis card_lessThan diff_self_eq_0 not_less_eq_eq le0)
  then obtain i b where b: "alloc a = Inr (Some i, b)" "wf b" "i \<notin> live a"
      "live b = insert i (live a)" "capacity b = capacity a"
    using alloc_slot [OF Suc.prems(1)] by blast
  have "card (live b) = Suc (card (live a))" using b(3,4) finite_live [OF Suc.prems(1)] by simp
  with Suc.prems(2) b(5) have "n \<le> capacity b - card (live b)" by simp
  from Suc.IH [OF b(2) this] obtain js c where
    c: "alloc_many n b = Inr (js, c)" "length js = n" "distinct js" "set js \<inter> live b = {}"
    "live c = live b \<union> set js" "wf c" "capacity c = capacity b" by blast
  have "alloc_many (Suc n) a = Inr (i # js, c)" using b(1) c(1) by simp
  moreover have "live c = live a \<union> set (i # js)" "set (i # js) \<inter> live a = {}"
    "distinct (i # js)" using b(3,4) c(3-5) by auto
  ultimately show ?case using b(5) c(2,6,7) by (intro exI [of _ "i # js"] exI [of _ c]) simp
qed auto

lemma alloc_release:
  assumes "wf a" and "alloc a = Inr (Some i, b)" and "releasable i"
  shows "\<exists>c. release i b = Inr c \<and> wf c \<and> live c = live a \<and> capacity c = capacity a"
proof -
  have "live a \<noteq> {..<capacity a}" using alloc_full [OF assms(1)] assms(2) by auto
  then have b: "wf b" "i \<notin> live a" "live b = insert i (live a)" "capacity b = capacity a"
    using alloc_slot [OF assms(1)] assms(2) by auto
  then obtain c where c: "release i b = Inr c" "wf c" "live c = live b - {i}"
      "capacity c = capacity b"
    using release_slot [of b i] assms(3) by auto
  have "live c = live a" using b c by auto
  with b c show ?thesis by auto
qed

end

section \<open>The free list\<close>

fun free_chain :: "'o slot list \<Rightarrow> nat option \<Rightarrow> nat list \<Rightarrow> bool" where
  "free_chain xs p [] \<longleftrightarrow> p = None"
| "free_chain xs p (i # fl) \<longleftrightarrow>
    p = Some i \<and> i < length xs \<and> (\<exists>nxt. xs ! i = FreeNode nxt \<and> free_chain xs nxt fl)"

definition live_slots :: "'o object_allocator \<Rightarrow> nat set" where
  "live_slots a = {i. i < length (m_slots a) \<and> (\<exists>x. m_slots a ! i = Object x)}"

definition slot_count :: "'o object_allocator \<Rightarrow> nat" where
  "slot_count a = length (m_slots a)"

definition allocator_wf :: "'o object_allocator \<Rightarrow> bool" where
  "allocator_wf a \<longleftrightarrow> (\<exists>fl. free_chain (m_slots a) (m_free_list a) fl \<and> distinct fl \<and>
    set fl = {..<length (m_slots a)} - live_slots a)"

lemma free_chain_update: "i \<notin> set fl \<Longrightarrow> free_chain (xs[i := v]) p fl = free_chain xs p fl"
  by (induction fl arbitrary: p) auto

lemma live_slots_update:
  assumes "i < length (m_slots a)"
  shows "live_slots (a\<lparr>m_free_list := p, m_slots := (m_slots a)[i := Object x]\<rparr>) = insert i (live_slots a)"
    and "live_slots (a\<lparr>m_free_list := p, m_slots := (m_slots a)[i := FreeNode q]\<rparr>) = live_slots a - {i}"
  using assms by (auto simp: live_slots_def nth_list_update)

lemma Allocate_full:
  assumes "allocator_wf a" and "live_slots a = {..<slot_count a}"
  shows "Allocate c a = Inr (None, a)"
  using assms by (auto simp: allocator_wf_def slot_count_def Allocate_def)

lemma Allocate_slot:
  assumes "allocator_wf a" and "live_slots a \<noteq> {..<slot_count a}"
  shows "\<exists>i b. Allocate c a = Inr (Some i, b) \<and> allocator_wf b \<and> i \<notin> live_slots a \<and>
    live_slots b = insert i (live_slots a) \<and> slot_count b = slot_count a"
proof -
  obtain fl where fl: "free_chain (m_slots a) (m_free_list a) fl" "distinct fl"
      "set fl = {..<length (m_slots a)} - live_slots a"
    using assms(1) by (auto simp: allocator_wf_def)
  have "live_slots a \<subseteq> {..<slot_count a}" by (auto simp: live_slots_def slot_count_def)
  then have "fl \<noteq> []" using assms(2) fl(3) by (auto simp: slot_count_def)
  then obtain i fl' where i: "fl = i # fl'" by (cases fl) auto
  then obtain nxt where nxt: "m_free_list a = Some i" "i < length (m_slots a)"
      "m_slots a ! i = FreeNode nxt" "free_chain (m_slots a) nxt fl'"
    using fl(1) by auto
  let ?b = "a\<lparr>m_free_list := nxt, m_slots := (m_slots a)[i := Object c]\<rparr>"
  have lv: "live_slots ?b = insert i (live_slots a)" by (rule live_slots_update(1) [OF nxt(2)])
  have "set fl' = {..<length (m_slots a)} - insert i (live_slots a)" using fl(2,3) i by auto
  then have "allocator_wf ?b"
    using nxt fl(2) i lv unfolding allocator_wf_def
    by (intro exI [of _ fl']) (simp add: free_chain_update)
  moreover have "i \<notin> live_slots a" using fl(3) i by auto
  ultimately show ?thesis using nxt lv by (simp add: Allocate_def slot_count_def)
qed

lemma push_free_slot:
  assumes "allocator_wf a" and "i \<in> live_slots a"
  shows "allocator_wf (push_free i a) \<and> live_slots (push_free i a) = live_slots a - {i} \<and>
    slot_count (push_free i a) = slot_count a"
proof -
  obtain fl where fl: "free_chain (m_slots a) (m_free_list a) fl" "distinct fl"
      "set fl = {..<length (m_slots a)} - live_slots a"
    using assms(1) by (auto simp: allocator_wf_def)
  have i: "i < length (m_slots a)" "i \<notin> set fl" using assms(2) fl(3) by (auto simp: live_slots_def)
  have lv: "live_slots (push_free i a) = live_slots a - {i}"
    unfolding push_free_def by (rule live_slots_update(2) [OF i(1)])
  have "free_chain (m_slots (push_free i a)) (m_free_list (push_free i a)) (i # fl)"
    using fl(1) i by (simp add: push_free_def free_chain_update)
  moreover have "set (i # fl) = {..<length (m_slots (push_free i a))} - live_slots (push_free i a)"
    using fl(3) i lv by (auto simp: push_free_def)
  ultimately have "allocator_wf (push_free i a)"
    unfolding allocator_wf_def using fl(2) i(2) by (intro exI [of _ "i # fl"]) simp
  with lv show ?thesis by (simp add: slot_count_def push_free_def)
qed

lemma live_slots_bounded: "x \<in> live_slots a \<Longrightarrow> x < slot_count a"
  by (auto simp: live_slots_def slot_count_def)

lemma heap_Allocate_eq: "heap_Allocate c a = Allocate c a"
  by (simp add: heap_Allocate_def Allocate_def)

interpretation fixed: slot_allocator allocator_wf live_slots slot_count "Allocate c" Free "\<lambda>i. 0 < i"
  for c :: 'o
proof unfold_locales
  fix a :: "'o object_allocator" and i
  assume "allocator_wf a" "i \<in> live_slots a" "0 < i"
  with push_free_slot [of a i] live_slots_bounded [of i a]
  show "\<exists>b. Free i a = Inr b \<and> allocator_wf b \<and> live_slots b = live_slots a - {i} \<and>
      slot_count b = slot_count a"
    by (auto simp: Free_def slot_count_def)
qed (use live_slots_bounded in \<open>auto simp: Allocate_full Allocate_slot\<close>)

interpretation heap: slot_allocator allocator_wf live_slots slot_count "heap_Allocate c" heap_Free
  "\<lambda>i. True"
  for c :: 'o
proof unfold_locales
  fix a :: "'o object_allocator" and i
  assume "allocator_wf a" "i \<in> live_slots a"
  with push_free_slot [of a i] live_slots_bounded [of i a]
  show "\<exists>b. heap_Free i a = Inr b \<and> allocator_wf b \<and> live_slots b = live_slots a - {i} \<and>
      slot_count b = slot_count a"
    by (auto simp: heap_Free_def slot_count_def)
qed (use live_slots_bounded in \<open>auto simp: heap_Allocate_eq Allocate_full Allocate_slot\<close>)

section \<open>Initial states\<close>

lemma link_nodes_nth:
  assumes "count \<le> length xs" and "i < length xs"
  shows "link_nodes count xs ! i = (if i < count - 1 then FreeNode (Some (i + 1)) else xs ! i)"
proof -
  have "fold (\<lambda>i ys. ys[i := FreeNode (Some (i + 1))]) [0..<n] xs ! i =
      (if i < n then FreeNode (Some (i + 1)) else xs ! i) \<and>
    length (fold (\<lambda>i ys. ys[i := FreeNode (Some (i + 1))]) [0..<n] xs) = length xs"
    if "n \<le> length xs" for n
    using that assms(2) by (induction n) (auto simp: nth_list_update)
  from this [of "count - 1"] assms show ?thesis by (auto simp: link_nodes_def)
qed

lemma length_link_nodes [simp]: "length (link_nodes count xs) = length xs"
proof -
  have "length (fold (\<lambda>i ys. ys[i := FreeNode (Some (i + 1))]) [0..<n] xs) = length xs" for n
    by (induction n) auto
  then show ?thesis by (simp add: link_nodes_def)
qed

lemma link_nodes_chain:
  assumes "\<And>i. i < length xs \<Longrightarrow> \<exists>p. xs ! i = FreeNode p" and "xs \<noteq> []" and "last xs = FreeNode None"
  shows "k < length xs \<Longrightarrow>
    free_chain (link_nodes (length xs) xs) (Some k) [k..<length xs]"
proof (induction "length xs - k" arbitrary: k)
  case (Suc d)
  show ?case
  proof (cases "Suc k = length xs")
    case True
    then have k: "k = length xs - 1" by simp
    then have "xs ! k = FreeNode None" using assms(2,3) by (simp add: last_conv_nth)
    moreover have "[k..<length xs] = [k]" using True by (metis lessI upt_conv_Cons upt_eq_Nil_conv order_refl)
    ultimately show ?thesis using k Suc.prems by (simp add: link_nodes_nth)
  next
    case False
    then have "free_chain (link_nodes (length xs) xs) (Some (Suc k)) [Suc k..<length xs]"
      using Suc by simp
    moreover have "k < length xs - 1" using False Suc.prems by simp
    ultimately show ?thesis using Suc.prems by (simp add: upt_conv_Cons link_nodes_nth)
  qed
qed simp

lemma link_nodes_wf:
  assumes "\<And>i. i < length xs \<Longrightarrow> \<exists>p. xs ! i = FreeNode p" and "xs \<noteq> []" and "last xs = FreeNode None"
  defines "a \<equiv> \<lparr>m_free_list = Some 0, m_slots = link_nodes (length xs) xs\<rparr>"
  shows "allocator_wf a" and "live_slots a = {}" and "slot_count a = length xs"
proof -
  have "\<nexists>x. link_nodes (length xs) xs ! i = Object x" if "i < length xs" for i
    using assms(1) [OF that] that by (auto simp: link_nodes_nth)
  then show live: "live_slots a = {}" by (auto simp: live_slots_def a_def)
  have "free_chain (m_slots a) (m_free_list a) [0..<length xs]"
    using link_nodes_chain [OF assms(1-3), of 0] assms(2) by (simp add: a_def)
  with live show "allocator_wf a"
    unfolding allocator_wf_def by (intro exI [of _ "[0..<length xs]"]) (auto simp: a_def)
  show "slot_count a = length xs" by (simp add: slot_count_def a_def)
qed

lemma FixedObjectAllocator_wf:
  assumes "0 < count"
  shows "allocator_wf (FixedObjectAllocator count :: 'o object_allocator)"
    and "live_slots (FixedObjectAllocator count :: 'o object_allocator) = {}"
    and "slot_count (FixedObjectAllocator count :: 'o object_allocator) = count"
  using assms link_nodes_wf [of "replicate count (FreeNode None)"]
  by (simp_all add: FixedObjectAllocator_def)

lemma heap_Initialize_wf:
  fixes a :: "'o object_allocator"
  assumes "0 < length raw" and "last raw = None"
  defines "a' \<equiv> snd (heap_Initialize (Some raw) (length raw) a)"
  shows "allocator_wf a'" and "live_slots a' = {}" and "slot_count a' = length raw"
  using assms link_nodes_wf [of "map FreeNode raw"]
  by (simp_all add: a'_def heap_Initialize_def last_map)

section \<open>Properties\<close>

text \<open>
  From a fresh allocator of \<open>count\<close> slots, the first \<open>count\<close> calls of \<open>Allocate\<close> hand out every
  slot exactly once, and the next call returns null and changes nothing.
\<close>

theorem fixed_allocator_exhaustive:
  fixes constr :: 'o
  assumes "0 < count"
  shows "\<exists>js a. fixed.alloc_many constr count (FixedObjectAllocator count) = Inr (js, a) \<and>
    distinct js \<and> set js = {..<count} \<and> Allocate constr a = Inr (None, a)"
proof -
  obtain js a where a: "fixed.alloc_many constr count (FixedObjectAllocator count) = Inr (js, a)"
      "length js = count" "distinct js" "live_slots a = set js" "allocator_wf a" "slot_count a = count"
    using fixed.alloc_many_fresh [of "FixedObjectAllocator count" count constr]
      FixedObjectAllocator_wf [OF assms, where 'o = 'o] by auto
  have "set js \<subseteq> {..<count}" using fixed.live_bounded [OF a(5)] a(4,6) by simp
  moreover have "card (set js) = card {..<count}" using a(2,3) by (simp add: distinct_card)
  ultimately have "set js = {..<count}" by (simp add: card_subset_eq)
  with a show ?thesis using Allocate_full [OF a(5)] by simp
qed

theorem fixed_allocator_exhaustive_witness:
  "\<exists>js a. fixed.alloc_many () 3 (FixedObjectAllocator 3) = Inr (js, a) \<and>
    distinct js \<and> set js = {..<3} \<and> Allocate () a = Inr (None, a)"
  using fixed_allocator_exhaustive [of 3] by simp

text \<open>
  In every well-formed state an allocation either fails with all slots in use or returns a slot
  that was not in use; giving that slot back restores the set of slots in use. Slot 0 cannot be
  given back: the assertion of \<open>Free\<close> stops the program.
\<close>

theorem fixed_allocator_roundtrip:
  assumes "allocator_wf a" and "live_slots a \<noteq> {..<slot_count a}"
  shows "\<exists>i b. Allocate constr a = Inr (Some i, b) \<and> i \<notin> live_slots a \<and> i < slot_count a \<and>
    live_slots b = insert i (live_slots a) \<and>
    (if i = 0 then Free i b = Inl AssertFailed
     else \<exists>c. Free i b = Inr c \<and> allocator_wf c \<and> live_slots c = live_slots a)"
proof -
  obtain i b where b: "Allocate constr a = Inr (Some i, b)" "allocator_wf b" "i \<notin> live_slots a"
      "live_slots b = insert i (live_slots a)" "slot_count b = slot_count a"
    using Allocate_slot [OF assms] by blast
  then have "i < slot_count a" using live_slots_bounded [of i b] by simp
  moreover have "Free 0 b = Inl AssertFailed" by (simp add: Free_def)
  ultimately show ?thesis using b fixed.alloc_release [OF assms(1) b(1)] by auto
qed

definition two_slots :: "unit object_allocator" where
  "two_slots = FixedObjectAllocator 2"

theorem fixed_allocator_roundtrip_witness:
  "\<exists>i b. Allocate () two_slots = Inr (Some i, b) \<and> i \<notin> live_slots two_slots \<and>
    i < slot_count two_slots \<and> live_slots b = insert i (live_slots two_slots) \<and>
    (if i = 0 then Free i b = Inl AssertFailed
     else \<exists>c. Free i b = Inr c \<and> allocator_wf c \<and> live_slots c = live_slots two_slots)"
proof (rule fixed_allocator_roundtrip)
  show "allocator_wf two_slots" by (simp add: two_slots_def FixedObjectAllocator_wf)
  show "live_slots two_slots \<noteq> {..<slot_count two_slots}"
    using FixedObjectAllocator_wf(2,3) [of 2, where 'o = unit]
    by (metis empty_iff lessThan_iff two_slots_def zero_less_numeral)
qed

text \<open>
  \<open>HeapObjectAllocator::Initialize\<close> never sets the \<open>next\<close> of the last slot. On memory that held
  a pointer there, the call after the last slot returns that pointer instead of null: here two
  slots, and a third allocation that leaves the array.
\<close>

theorem heap_allocator_stale_tail:
  "fst (heap_Initialize (Some [None, Some 77]) 2 HeapObjectAllocator) \<and>
   and_then (heap.alloc_many () 2 (snd (heap_Initialize (Some [None, Some 77]) 2 HeapObjectAllocator)))
     (\<lambda>(js, a). heap_Allocate () a) = Inl OutOfBounds"
  by (simp add: heap_Initialize_def link_nodes_def heap_Allocate_def numeral_2_eq_2)

end
