(* ===== verification/Time_Span.thy ===== *)
theory Time_Span
  imports DD_Prelude
begin

text \<open>
  Time: \<open>util_timespan.hpp\<close>, \<open>util_timestamp.x64.cpp\<close>, \<open>util_time.cpp\<close> and the wake-up time of
  \<open>ukern_scheduler.cpp\<close>. The performance counter of the system is a parameter (\<open>now\<close>, the tick a
  call reads; \<open>qpf\<close>, the frequency it reports). All arithmetic is on \<open>s64\<close>, so each sum and
  product is checked for overflow.

  Shown here: \<open>FromTick\<close> is the exact conversion rounded down and \<open>GetTick\<close> rounded up, neither
  overflows within its limits, a wake-up time is never early, and \<open>GetTimeLeftOnTarget\<close> is always
  zero.
\<close>

section \<open>The system clock\<close>

definition MaxTime :: int where "MaxTime = 2 ^ 63 - 1"

definition MinTime :: int where "MinTime = - (2 ^ 63)"

record timestamp =
  sSystemFrequency :: int
  sMaxTickToTimeSpan :: int

definition initial_timestamp :: timestamp where
  "initial_timestamp = \<lparr>sSystemFrequency = 0, sMaxTickToTimeSpan = MaxTime\<rparr>"

text \<open>\<open>qpf\<close>: what \<open>QueryPerformanceFrequency\<close> reports, \<open>None\<close> when it fails.\<close>

definition InitializeTimeStamp :: "int option \<Rightarrow> timestamp \<Rightarrow> timestamp outcome" where
  "InitializeTimeStamp qpf t =
    (case qpf of
       None \<Rightarrow> Inl AssertFailed
     | Some f \<Rightarrow>
         and_then (s64_rem MaxTime f) (\<lambda>r.
         and_then (s64_val (MaxTime - r)) (\<lambda>d.
         and_then (s64_div d 1000000000) (\<lambda>q.
         and_then (s64_val (q * f)) (\<lambda>m.
         Inr \<lparr>sSystemFrequency = f, sMaxTickToTimeSpan = m\<rparr>)))))"

definition GetSystemTickFrequency :: "timestamp \<Rightarrow> int" where
  "GetSystemTickFrequency t = s32_wrap (sSystemFrequency t)"

definition GetMaxTickToTimeSpan :: "timestamp \<Rightarrow> int" where
  "GetMaxTickToTimeSpan t = sMaxTickToTimeSpan t"

section \<open>Time spans\<close>

text \<open>A \<open>TimeSpan\<close> is its \<open>m_time_ns\<close>.\<close>

definition FromTick :: "timestamp \<Rightarrow> int \<Rightarrow> int outcome" where
  "FromTick t tick =
    (let frequency = GetSystemTickFrequency t;
         max_tick_to_timespan = GetMaxTickToTimeSpan t
     in if max_tick_to_timespan < tick then Inr MaxTime
        else and_then (s64_val (- max_tick_to_timespan)) (\<lambda>m.
          if tick < m then Inr MinTime
          else
            and_then (s64_rem tick frequency) (\<lambda>r.
            and_then (s64_val (r * 1000000000)) (\<lambda>r.
            and_then (s64_div r frequency) (\<lambda>residual.
            and_then (s64_div tick frequency) (\<lambda>q.
            and_then (s64_val (q * 1000000000)) (\<lambda>quotient.
            s64_val (residual + quotient))))))))"

definition FromMicroSeconds :: "int \<Rightarrow> int outcome" where
  "FromMicroSeconds time_us = s64_val (time_us * 1000)"

definition FromMilliSeconds :: "int \<Rightarrow> int outcome" where
  "FromMilliSeconds time_ms = s64_val (time_ms * 1000000)"

definition FromSeconds :: "int \<Rightarrow> int outcome" where
  "FromSeconds time_sec = s64_val (time_sec * 1000000000)"

definition GetTimeLeftOnTarget :: "timestamp \<Rightarrow> int \<Rightarrow> int \<Rightarrow> int outcome" where
  "GetTimeLeftOnTarget t now tick =
    (if tick = 0 then Inr 0
     else and_then (s64_val (tick - now)) (\<lambda>tick_left.
       if tick_left = 0 \<or> tick_left < tick then Inr 0 else FromTick t tick_left))"

definition GetTick :: "timestamp \<Rightarrow> int \<Rightarrow> int outcome" where
  "GetTick t m_time_ns =
    (if m_time_ns = MinTime then Inr MinTime
     else
       let frequency = GetSystemTickFrequency t;
           r = rem_c m_time_ns 1000000000;
           r_coeff = (if - 1 \<ge> m_time_ns then - r else r);
           p = quot_c m_time_ns 1000000000;
           p_coeff = (if - 1 \<ge> m_time_ns then - p else p)
       in and_then (s64_val (r_coeff * frequency)) (\<lambda>rf.
          and_then (s64_val (rf + 999999999)) (\<lambda>rf.
          and_then (s64_div rf 1000000000) (\<lambda>residual.
          and_then (s64_val (p_coeff * frequency)) (\<lambda>product.
          and_then (s64_val (residual + product)) (\<lambda>result.
          if - 1 \<ge> result then s64_val (- result) else Inr result))))))"

definition GetMicroSeconds :: "int \<Rightarrow> int" where
  "GetMicroSeconds m_time_ns = quot_c m_time_ns 1000"

definition GetMilliSeconds :: "int \<Rightarrow> int" where
  "GetMilliSeconds m_time_ns = quot_c m_time_ns 1000000"

definition GetSeconds :: "int \<Rightarrow> int" where
  "GetSeconds m_time_ns = quot_c m_time_ns 1000000000"

text \<open>\<open>util_time.cpp\<close>. The quotient of two doubles is the parameter \<open>fdiv\<close>.\<close>

definition GetMillisecondsFromTick :: "timestamp \<Rightarrow> int \<Rightarrow> int outcome" where
  "GetMillisecondsFromTick t tick =
    (let frequency = GetSystemTickFrequency t in
      and_then (s64_rem tick frequency) (\<lambda>r.
      and_then (s64_val (r * 1000)) (\<lambda>r.
      and_then (s64_div r frequency) (\<lambda>residual.
      and_then (s64_div tick frequency) (\<lambda>q.
      and_then (s64_val (q * 1000)) (\<lambda>quotient.
      s64_val (residual + quotient)))))))"

record 'd frame_time =
  sLastFrameTime :: int
  sDeltaTick :: int
  sDeltaTime :: 'd

definition BeginFrame :: "(int \<Rightarrow> int \<Rightarrow> 'd) \<Rightarrow> timestamp \<Rightarrow> int \<Rightarrow> 'd frame_time \<Rightarrow> 'd frame_time outcome" where
  "BeginFrame fdiv t now s =
    (let last_last_frame = sLastFrameTime s in
      and_then (s64_val (now - last_last_frame)) (\<lambda>delta.
      Inr (s\<lparr>sLastFrameTime := now, sDeltaTick := delta,
        sDeltaTime := fdiv delta (GetSystemTickFrequency t)\<rparr>)))"

definition GetDeltaTime :: "'d frame_time \<Rightarrow> 'd" where
  "GetDeltaTime s = sDeltaTime s"

definition CalcFps :: "(int \<Rightarrow> int \<Rightarrow> 'd) \<Rightarrow> timestamp \<Rightarrow> 'd frame_time \<Rightarrow> 'd" where
  "CalcFps fdiv t s = fdiv (GetSystemTickFrequency t) (sDeltaTick s)"

text \<open>The scheduler's conversion of a timeout into the tick at which to wake up.\<close>

definition GetAbsoluteTimeToWakeup :: "timestamp \<Rightarrow> int \<Rightarrow> int \<Rightarrow> int outcome" where
  "GetAbsoluteTimeToWakeup t now timeout_ns =
    and_then (GetTick t timeout_ns) (\<lambda>timeout_tick.
      if 0 \<ge> timeout_tick then Inr MaxTime
      else and_then (s64_val (timeout_tick + now)) (\<lambda>absolute_time.
        and_then (s64_val (absolute_time + 1)) (\<lambda>a.
          if a \<le> 1 then Inr MaxTime else s64_val (absolute_time + 2))))"

section \<open>Conversion lemmas\<close>

text \<open>A clock the program can work with: at most one tick per nanosecond.\<close>

definition clock :: "int \<Rightarrow> timestamp" where
  "clock f = \<lparr>sSystemFrequency = f,
    sMaxTickToTimeSpan = ((MaxTime - MaxTime mod f) div 1000000000) * f\<rparr>"

lemma MaxTime_mod:
  assumes "0 < f" and "f \<le> 1000000000"
  shows "0 \<le> MaxTime - MaxTime mod f"
proof -
  have "MaxTime mod f < f" using assms by simp
  moreover have "1000000000 \<le> MaxTime" by (simp add: MaxTime_def)
  ultimately show ?thesis using assms(2) by linarith
qed

lemma InitializeTimeStamp_clock:
  assumes "0 < f" and "f \<le> 1000000000"
  shows "InitializeTimeStamp (Some f) t = Inr (clock f)"
proof -
  let ?q = "(MaxTime - MaxTime mod f) div 1000000000"
  have m: "0 \<le> MaxTime mod f" "MaxTime mod f < f" using assms by simp_all
  have "?q \<le> MaxTime div 1000000000" using m by (intro zdiv_mono1) simp_all
  moreover have "0 div 1000000000 \<le> ?q"
    using MaxTime_mod [OF assms] by (intro zdiv_mono1) simp_all
  ultimately have q: "0 \<le> ?q" "?q \<le> 9223372036" by (simp_all add: MaxTime_def)
  have "?q * f \<le> 9223372036 * 1000000000" "0 \<le> ?q * f"
    using assms q mult_mono [of ?q 9223372036 f 1000000000] by auto
  then have o4: "s64_ok (?q * f)" by (simp add: s64_ok_def)
  have "0 \<le> MaxTime div f" "MaxTime div f \<le> MaxTime"
    using assms zdiv_mono2 [of MaxTime 1 f] by (auto simp: MaxTime_def pos_imp_zdiv_nonneg_iff)
  then have o1: "s64_ok (MaxTime div f)" unfolding s64_ok_def MaxTime_def by linarith
  have o2: "s64_ok (MaxTime - MaxTime mod f)"
    using MaxTime_mod [OF assms] m unfolding s64_ok_def MaxTime_def by linarith
  have o3: "s64_ok ?q" using q by (simp add: s64_ok_def)
  have "0 \<le> MaxTime" by (simp add: MaxTime_def)
  with o1 o2 o3 o4 assms MaxTime_mod [OF assms] show ?thesis
    by (simp add: InitializeTimeStamp_def s64_rem_def s64_div_def clock_def)
qed

lemma clock_frequency:
  assumes "0 < f" and "f \<le> 1000000000"
  shows "GetSystemTickFrequency (clock f) = f"
  using assms by (simp add: GetSystemTickFrequency_def clock_def s32_ok_def)

lemma mul_div_split:
  fixes f :: int
  assumes "0 < f" and "0 \<le> t"
  shows "(t mod f) * c div f + (t div f) * c = t * c div f"
proof -
  have "t * c = (t mod f) * c + (t div f) * c * f"
    using div_mult_mod_eq [of t f] by (metis add.commute distrib_right mult.assoc mult.commute)
  then show ?thesis using assms by simp
qed

lemma FromTick_limit:
  assumes f: "0 < f" "f \<le> 1000000000" and t: "0 \<le> t" "t \<le> sMaxTickToTimeSpan (clock f)"
  shows "t * 1000000000 div f \<le> MaxTime"
proof -
  let ?q = "(MaxTime - MaxTime mod f) div 1000000000"
  have "t * 1000000000 \<le> ?q * f * 1000000000" using t(2) by (simp add: clock_def)
  then have "t * 1000000000 div f \<le> (?q * 1000000000) * f div f"
    using f by (intro zdiv_mono1) (simp_all add: mult_ac)
  also have "\<dots> = ?q * 1000000000" using f by simp
  also have "\<dots> \<le> MaxTime - MaxTime mod f"
    using minus_mod_eq_div_mult [of "MaxTime - MaxTime mod f" 1000000000] by simp
  also have "\<dots> \<le> MaxTime" using f by simp
  finally show ?thesis .
qed

lemma clock_limit:
  assumes "0 < f" and "f \<le> 1000000000"
  shows "0 \<le> sMaxTickToTimeSpan (clock f)" and "sMaxTickToTimeSpan (clock f) \<le> MaxTime"
proof -
  let ?q = "(MaxTime - MaxTime mod f) div 1000000000"
  have m: "0 \<le> MaxTime mod f" "MaxTime mod f < f" using assms by simp_all
  have q0: "0 div 1000000000 \<le> ?q" using MaxTime_mod [OF assms] by (intro zdiv_mono1) simp_all
  then show "0 \<le> sMaxTickToTimeSpan (clock f)" using assms by (simp add: clock_def)
  have "?q * f \<le> ?q * 1000000000" using q0 assms by (intro mult_left_mono) simp_all
  also have "\<dots> \<le> MaxTime - MaxTime mod f"
    using minus_mod_eq_div_mult [of "MaxTime - MaxTime mod f" 1000000000] by simp
  finally show "sMaxTickToTimeSpan (clock f) \<le> MaxTime" using m by (simp add: clock_def)
qed

lemma FromTick_exact:
  assumes f: "0 < f" "f \<le> 1000000000" and t: "0 \<le> t" "t \<le> sMaxTickToTimeSpan (clock f)"
  shows "FromTick (clock f) t = Inr (t * 1000000000 div f)"
proof -
  have bound: "t * 1000000000 div f \<le> MaxTime" by (rule FromTick_limit [OF assms])
  have split: "(t mod f) * 1000000000 div f + (t div f) * 1000000000 = t * 1000000000 div f"
    by (rule mul_div_split [OF f(1) t(1)])
  have m: "0 \<le> t mod f" "t mod f < f" using f by simp_all
  then have r: "0 \<le> (t mod f) * 1000000000" "(t mod f) * 1000000000 < 1000000000000000000"
    using f by linarith+
  then have r': "0 \<le> (t mod f) * 1000000000 div f" "(t mod f) * 1000000000 div f \<le> (t mod f) * 1000000000"
    using f zdiv_mono2 [of "(t mod f) * 1000000000" 1 f] by (simp_all add: pos_imp_zdiv_nonneg_iff)
  have q: "0 \<le> t div f" using f t by (simp add: pos_imp_zdiv_nonneg_iff)
  then have p: "0 \<le> t div f * 1000000000" "t div f * 1000000000 \<le> MaxTime" using bound split r' by linarith+
  have tm: "t \<le> MaxTime" using clock_limit(2) [OF f] t(2) by simp
  have td: "t div f \<le> t" using f t zdiv_mono2 [of t 1 f] by simp
  have MT: "MaxTime = 9223372036854775807" by (simp add: MaxTime_def)
  have oks: "s64_ok (- sMaxTickToTimeSpan (clock f))" "s64_ok (t div f)" "s64_ok (t mod f * 1000000000)"
    "s64_ok (t mod f * 1000000000 div f)" "s64_ok (t div f * 1000000000)"
    "s64_ok (t * 1000000000 div f)"
    using q p r r' td tm bound split clock_limit [OF f] t unfolding MT by (simp_all add: s64_ok_def)
  have "\<not> sMaxTickToTimeSpan (clock f) < t" "\<not> t < - sMaxTickToTimeSpan (clock f)"
    using t clock_limit(1) [OF f] by auto
  with oks r(1) f t split show ?thesis
    by (simp add: FromTick_def clock_frequency GetMaxTickToTimeSpan_def s64_rem_def s64_div_def)
qed

lemma mul_add_split:
  "(p * 1000000000 + r) * f + 999999999 = (r * f + 999999999) + p * f * (1000000000::int)"
  by (simp add: algebra_simps)

text \<open>\<open>GetTick\<close> of a span that is not negative: the least number of ticks that covers it.\<close>

definition ticks_of :: "int \<Rightarrow> int \<Rightarrow> int" where
  "ticks_of f ns = (ns * f + 999999999) div 1000000000"

lemma GetTick_nonneg:
  assumes "GetSystemTickFrequency t = f" and "0 \<le> n"
    and "s64_ok (n mod 1000000000 * f)" "s64_ok (n mod 1000000000 * f + 999999999)"
    and "s64_ok ((n mod 1000000000 * f + 999999999) div 1000000000)" "s64_ok (n div 1000000000 * f)"
    and "0 \<le> n mod 1000000000 * f + 999999999"
    and "s64_ok ((n mod 1000000000 * f + 999999999) div 1000000000 + n div 1000000000 * f)"
    and "0 \<le> (n mod 1000000000 * f + 999999999) div 1000000000 + n div 1000000000 * f"
  shows "GetTick t n =
    Inr ((n mod 1000000000 * f + 999999999) div 1000000000 + n div 1000000000 * f)"
proof -
  have "n \<noteq> MinTime" "\<not> - 1 \<ge> n" using assms(2) by (simp_all add: MinTime_def)
  moreover have "\<not> - 1 \<ge> (n mod 1000000000 * f + 999999999) div 1000000000 + n div 1000000000 * f"
    using assms(9) by linarith
  ultimately show ?thesis
    unfolding GetTick_def Let_def assms(1) rem_c_nonneg [OF assms(2) zero_less_numeral]
      quot_c_nonneg [OF assms(2) zero_less_numeral] if_not_P [OF \<open>n \<noteq> MinTime\<close>]
      if_not_P [OF \<open>\<not> - 1 \<ge> n\<close>] s64_val_ok [OF assms(3)] and_then.simps s64_val_ok [OF assms(4)]
      s64_div_def quot_c_nonneg [OF assms(7) zero_less_numeral] s64_val_ok [OF assms(5)]
      s64_val_ok [OF assms(6)] s64_val_ok [OF assms(8)]
    by (simp only: if_False zero_neq_numeral [symmetric] refl and_then.simps s64_val_ok [OF assms(5)]
        s64_val_ok [OF assms(8)] simp_thms)
qed

lemma GetTick_exact:
  assumes f: "0 < f" "f \<le> 1000000000" and n: "0 \<le> n" "n \<le> MaxTime"
  shows "GetTick (clock f) n = Inr (ticks_of f n)"
proof -
  define r where "r = n mod 1000000000"
  define p where "p = n div 1000000000"
  have r: "0 \<le> r" "r < 1000000000" by (simp_all add: r_def)
  have np: "p * 1000000000 + r = n" by (simp add: r_def p_def)
  have rf: "0 \<le> r * f" "r * f \<le> 1000000000 * 1000000000"
    using f r mult_mono [of r 1000000000 f 1000000000] by simp_all
  have p: "0 \<le> p" "p \<le> 9223372036" using n by (simp_all add: MaxTime_def p_def)
  have pf: "0 \<le> p * f" "p * f \<le> 9223372036 * 1000000000"
    using f p mult_mono [of p 9223372036 f 1000000000] by simp_all
  define d where "d = (r * f + 999999999) div 1000000000"
  have sp: "ticks_of f n = d + p * f"
    using mul_add_split [of p r f] unfolding ticks_of_def d_def np by simp
  have "r * f \<le> r * 1000000000" using r f by (intro mult_left_mono) simp_all
  then have "d \<le> (r * 1000000000 + 999999999) div 1000000000"
    unfolding d_def by (intro zdiv_mono1) simp_all
  then have d: "0 \<le> d" "d \<le> r" using rf by (simp_all add: d_def)
  have "p * f \<le> p * 1000000000" using p f by (intro mult_left_mono) simp_all
  then have "d + p * f \<le> MaxTime" using d n np by linarith
  then have "s64_ok (r * f)" "s64_ok (r * f + 999999999)" "s64_ok d"
    "s64_ok (p * f)" "s64_ok (d + p * f)" "0 \<le> r * f + 999999999" "0 \<le> d + p * f"
    using rf d pf r unfolding s64_ok_def MaxTime_def by simp_all
  then show ?thesis
    unfolding sp d_def r_def p_def by (intro GetTick_nonneg clock_frequency f n)
qed

section \<open>Properties\<close>

text \<open>
  With the clock initialised from a frequency of at most one tick per nanosecond, converting a
  tick count within \<open>GetMaxTickToTimeSpan\<close> overflows nowhere and gives its nanoseconds rounded
  down; a larger count gives \<open>MaxTime\<close>.
\<close>

theorem FromTick_spec:
  assumes "0 < f" and "f \<le> 1000000000" and "InitializeTimeStamp (Some f) t0 = Inr t" and "0 \<le> tick"
  shows "FromTick t tick =
    Inr (if tick \<le> GetMaxTickToTimeSpan t then tick * 1000000000 div f else MaxTime)"
proof (cases "tick \<le> GetMaxTickToTimeSpan t")
  case True
  then show ?thesis
    using assms FromTick_exact [of f tick] by (simp add: InitializeTimeStamp_clock GetMaxTickToTimeSpan_def)
next
  case False
  then show ?thesis by (simp add: FromTick_def)
qed

theorem FromTick_spec_witness:
  "FromTick (clock 10000000) 25 =
    Inr (if 25 \<le> GetMaxTickToTimeSpan (clock 10000000) then 25 * 1000000000 div 10000000 else MaxTime)"
  using FromTick_spec [of 10000000 initial_timestamp "clock 10000000" 25]
    InitializeTimeStamp_clock [of 10000000 initial_timestamp] by simp

text \<open>
  C38. A span that is not negative becomes the least number of ticks that covers it, so that
  converting it back loses nothing and gains less than one tick; the conversion overflows nowhere.
\<close>

theorem GetTick_roundtrip:
  assumes "0 < f" and "f \<le> 1000000000" and "0 \<le> ns" and "ns \<le> MaxTime"
  shows "\<exists>tick. GetTick (clock f) ns = Inr tick \<and> 0 \<le> tick \<and>
    ns * f \<le> tick * 1000000000 \<and> tick * 1000000000 < ns * f + 1000000000 \<and>
    (tick \<le> GetMaxTickToTimeSpan (clock f) \<longrightarrow> (\<exists>ns'. FromTick (clock f) tick = Inr ns' \<and> ns \<le> ns'))"
proof -
  define x where "x = ns * f + 999999999"
  define tick where "tick = x div 1000000000"
  have x: "0 \<le> x" using assms by (simp add: x_def)
  have "tick * 1000000000 + x mod 1000000000 = x" by (simp add: tick_def)
  moreover have "0 \<le> x mod 1000000000" "x mod 1000000000 < 1000000000" by simp_all
  ultimately have b: "ns * f \<le> tick * 1000000000" "tick * 1000000000 < ns * f + 1000000000"
    unfolding x_def by linarith+
  have t0: "0 \<le> tick" using x by (simp add: tick_def)
  have "ns \<le> tick * 1000000000 div f"
    using b(1) zdiv_mono1 [of "ns * f" "tick * 1000000000" f] assms(1) by simp
  then have "tick \<le> GetMaxTickToTimeSpan (clock f) \<longrightarrow>
      (\<exists>ns'. FromTick (clock f) tick = Inr ns' \<and> ns \<le> ns')"
    using FromTick_exact [OF assms(1,2) t0] by (simp add: GetMaxTickToTimeSpan_def)
  moreover have "GetTick (clock f) ns = Inr tick"
    using GetTick_exact [OF assms] by (simp add: ticks_of_def tick_def x_def)
  ultimately show ?thesis using b t0 by blast
qed

theorem GetTick_roundtrip_witness:
  "\<exists>tick. GetTick (clock 10000000) 150 = Inr tick \<and> 0 \<le> tick \<and>
    150 * 10000000 \<le> tick * 1000000000 \<and> tick * 1000000000 < 150 * 10000000 + (1000000000::int) \<and>
    (tick \<le> GetMaxTickToTimeSpan (clock 10000000) \<longrightarrow>
      (\<exists>ns'. FromTick (clock 10000000) tick = Inr ns' \<and> 150 \<le> ns'))"
  by (rule GetTick_roundtrip) (simp_all add: MaxTime_def)

lemma wakeup_exact:
  assumes "0 < f" and "f \<le> 1000000000" and "0 < ns" and "ns \<le> MaxTime" and "0 \<le> now" and "ticks_of f ns + now + 2 \<le> MaxTime"
  shows "GetAbsoluteTimeToWakeup (clock f) now ns = Inr (ticks_of f ns + now + 2)"
proof -
  have "0 < ns * f" using assms by simp
  then have "0 < ticks_of f ns" by (simp add: ticks_of_def pos_imp_zdiv_pos_iff)
  then show ?thesis
    using GetTick_exact [of f ns] assms by (simp add: GetAbsoluteTimeToWakeup_def s64_ok_def MaxTime_def)
qed

text \<open>
  A timeout never ends early: for a positive span the wake-up tick is at least the current tick
  plus the span (two ticks later, in fact), as long as it fits; a zero span means the end of time.
\<close>

theorem wakeup_not_early:
  assumes "0 < f" and "f \<le> 1000000000" and "0 \<le> ns" and "0 \<le> now"
    and "ns \<le> MaxTime" and "ticks_of f ns + now + 2 \<le> MaxTime"
  shows "\<exists>w. GetAbsoluteTimeToWakeup (clock f) now ns = Inr w \<and>
    (if ns = 0 then w = MaxTime else ns * f < (w - now) * 1000000000)"
proof (cases "ns = 0")
  case True
  have "ticks_of f 0 = 0" by (simp add: ticks_of_def)
  with True show ?thesis
    using GetTick_exact [OF assms(1,2), of 0] by (simp add: GetAbsoluteTimeToWakeup_def MaxTime_def)
next
  case False
  have "GetAbsoluteTimeToWakeup (clock f) now ns = Inr (ticks_of f ns + now + 2)"
    using False assms by (intro wakeup_exact) simp_all
  moreover have "ns * f \<le> ticks_of f ns * 1000000000" unfolding ticks_of_def by linarith
  then have "ns * f < (ticks_of f ns + now + 2 - now) * 1000000000" by (simp add: algebra_simps)
  ultimately show ?thesis using False by auto
qed

theorem wakeup_not_early_witness:
  "\<exists>w. GetAbsoluteTimeToWakeup (clock 10000000) 5000 150 = Inr w \<and>
    (if (150::int) = 0 then w = MaxTime else 150 * 10000000 < (w - 5000) * 1000000000)"
  by (rule wakeup_not_early) (simp_all add: MaxTime_def ticks_of_def)

text \<open>
  \<open>GetTimeLeftOnTarget\<close> compares the ticks left with the target instead of with zero, so it is
  zero for every target once the clock has started: a core that rests never sleeps.
\<close>

theorem time_left_always_zero:
  assumes "0 < now" and "now \<le> MaxTime" and "MinTime + now \<le> tick" and "tick \<le> MaxTime"
  shows "GetTimeLeftOnTarget t now tick = Inr 0"
  using assms by (simp add: GetTimeLeftOnTarget_def s64_ok_def MaxTime_def MinTime_def)

theorem time_left_always_zero_witness:
  "GetTimeLeftOnTarget (clock 10000000) 1000 900000000 = Inr 0"
  by (rule time_left_always_zero) (simp_all add: MaxTime_def MinTime_def)

end
