(* ===== verification/Fiber_State.thy ===== *)
theory Fiber_State
  imports Intrusive_List Handle_Table Object_Allocator DD_Result DD_Bits
begin

text \<open>
  The state of the user-mode scheduler and the operations its calls share:
  \<open>ukern_fiberlocalstorage.h/.cpp\<close>, \<open>ukern_waitableobject.hpp\<close> and the small methods of
  \<open>ukern_scheduler.hpp\<close>. A fiber is the index of its slot in \<open>UserFiberLocalAllocator\<close>. The list
  nodes embedded in the fibers and in the scheduler are addresses of one memory of links, so that
  a loop that moves nodes while it runs over them behaves as in the code. Words of user memory
  (locks, condition variable keys, wait addresses) are a function of their address; address 0 is
  the null pointer.
\<close>

section \<open>Fibers\<close>

datatype fiber_state = Scheduled | Running | Exiting | Waiting | Suspended

text \<open>
  What \<open>waitable_object\<close> points to: an arbiter in the frame of the call the fiber is in, or a
  frame that has returned since (\<open>Dangling\<close>). The arbiters of \<open>WaitKeyImpl\<close> and of the
  \<open>WaitForAddress\<close> calls are locals of a block that ends before the fiber switches; their storage
  is taken to last as long as the frame does.
\<close>

datatype waitable_object = LockArbiter | KeyArbiter | WaitAddressArbiter | Dangling

type_synonym address = u64

definition nullptr :: address where "nullptr = 0"

record fiber_local_storage =
  priority :: int
  current_core :: u32
  core_mask :: u64
  stack_size :: u64
  user_arg :: u64
  user_function :: address
  ukern_fiber_handle :: u32
  win32_fiber_handle :: address
  activity_level :: u16
  wait_tag :: u32
  lock_address :: address
  wait_address :: address
  waitable :: "waitable_object option"
  timeout :: u64
  last_result :: u32
  fiber_state :: fiber_state
  fiber_name :: string
  fiber_name_storage :: string

definition ActivityLevel_Suspended :: u16 where "ActivityLevel_Suspended = 0"

definition ActivityLevel_Schedulable :: u16 where "ActivityLevel_Schedulable = 1"

definition HasChildWaitersBit :: u32 where "HasChildWaitersBit = 0x40000000"

definition WindowsToUKernPriorityOffset :: int where "WindowsToUKernPriorityOffset = 2"

definition MaxCoreCount :: nat where "MaxCoreCount = 32"

definition MaxThreadCount :: nat where "MaxThreadCount = 256"

definition MaxFiberNameLength :: nat where "MaxFiberNameLength = 32"

section \<open>The scheduler\<close>

text \<open>
  Every list node: the two nodes and the list head in each fiber, and the heads in the scheduler.
\<close>

datatype node = SchedulerNode nat | WaitNode nat | WaitList nat
  | HighPriorityList | AboveNormalPriorityList | NormalPriorityList | BelowNormalPriorityList
  | LowPriorityList | SuspendList | SchedulerWaitList

record user_scheduler =
  m_scheduler_lock :: bool
  m_scheduler_thread_table :: "address list"
  m_scheduler_fiber_table :: "address list"
  m_links :: "node links"
  m_fibers :: "nat \<Rightarrow> fiber_local_storage"
  m_words :: "address \<Rightarrow> u32"
  m_core_mask :: u64
  m_core_count :: u32
  m_active_cores :: u32
  m_runnable_fibers :: u32
  m_handle_table :: "nat handle_table"
  UserFiberLocalAllocator :: "unit object_allocator"

text \<open>Fields of a fiber, links and words, updated in place.\<close>

definition fiber_update :: "nat \<Rightarrow> (fiber_local_storage \<Rightarrow> fiber_local_storage) \<Rightarrow> user_scheduler \<Rightarrow> user_scheduler" where
  "fiber_update f g s = s\<lparr>m_fibers := (m_fibers s)(f := g (m_fibers s f))\<rparr>"

definition links_update :: "(node links \<Rightarrow> node links) \<Rightarrow> user_scheduler \<Rightarrow> user_scheduler" where
  "links_update g s = s\<lparr>m_links := g (m_links s)\<rparr>"

definition load :: "address \<Rightarrow> user_scheduler \<Rightarrow> u32 outcome" where
  "load a s = (if a = nullptr then Inl NullPointer else Inr (m_words s a))"

definition store :: "address \<Rightarrow> u32 \<Rightarrow> user_scheduler \<Rightarrow> user_scheduler outcome" where
  "store a v s = (if a = nullptr then Inl NullPointer else Inr (s\<lparr>m_words := (m_words s)(a := v)\<rparr>))"

text \<open>
  \<open>GetParentReference\<close>: the fiber a node is embedded in. A node of another kind gives a pointer
  to something that is no fiber.
\<close>

fun scheduler_parent :: "node \<Rightarrow> nat outcome" where
  "scheduler_parent (SchedulerNode f) = Inr f"
| "scheduler_parent _ = Inl BadObject"

fun wait_parent :: "node \<Rightarrow> nat outcome" where
  "wait_parent (WaitNode f) = Inr f"
| "wait_parent _ = Inl BadObject"

text \<open>
  A range-based \<open>for\<close> over a list of fibers linked by \<open>scheduler_list_node\<close>. No list is longer
  than the \<open>MaxThreadCount\<close> fibers, and the loops that move nodes take at most four steps more.
\<close>

definition loop_fuel :: nat where "loop_fuel = 1024"

definition for_fibers :: "('s \<Rightarrow> user_scheduler) \<Rightarrow> node \<Rightarrow> (nat \<Rightarrow> 's \<Rightarrow> (bool \<times> 's) outcome) \<Rightarrow> 's \<Rightarrow> 's outcome" where
  "for_fibers st l body = for_each loop_fuel (\<lambda>s. m_links (st s)) l
    (\<lambda>n s. and_then (scheduler_parent n) (\<lambda>f. body f s))"

text \<open>
  Over the fibers linked by \<open>wait_list_node\<close> the body gets the node: some of these loops unlink
  what they visit and reach a node that is no fiber, which matters once they use it as one.
\<close>

definition for_wait_nodes :: "('s \<Rightarrow> user_scheduler) \<Rightarrow> nat \<Rightarrow> (node \<Rightarrow> 's \<Rightarrow> (bool \<times> 's) outcome) \<Rightarrow> 's \<Rightarrow> 's outcome" where
  "for_wait_nodes st f body = for_each loop_fuel (\<lambda>s. m_links (st s)) (WaitList f) body"

text \<open>\<open>1 << core\<close> is a shift of an \<open>int\<close>, widened to 64 bits with its sign.\<close>

definition core_flag :: "u32 \<Rightarrow> u64" where
  "core_flag core = scast (push_bit (unat core) (1 :: 32 word))"

definition core_bit :: "u32 \<Rightarrow> u64 outcome" where
  "core_bit core = (if unat core < 32 then Inr (core_flag core) else Inl ShiftRange)"

section \<open>Methods of the scheduler\<close>

definition GetFiberByHandle :: "u32 \<Rightarrow> user_scheduler \<Rightarrow> nat option outcome" where
  "GetFiberByHandle handle s = GetObjectByHandle handle (m_handle_table s)"

text \<open>The core whose scheduler fiber the calling fiber switches to.\<close>

definition GetSchedulerFiber :: "nat \<Rightarrow> user_scheduler \<Rightarrow> u32 outcome" where
  "GetSchedulerFiber f s =
    and_then (dd_assert (m_core_count s > current_core (m_fibers s f)) s) (\<lambda>s.
    if unat (current_core (m_fibers s f)) < length (m_scheduler_fiber_table s)
    then Inr (current_core (m_fibers s f)) else Inl OutOfBounds)"

definition AddToSchedulerUnsafe :: "nat \<Rightarrow> user_scheduler \<Rightarrow> user_scheduler" where
  "AddToSchedulerUnsafe f s =
    (let fiber = m_fibers s f; n = SchedulerNode f in
     if activity_level fiber = ActivityLevel_Suspended then
       links_update (PushBack SuspendList n) (fiber_update f (fiber_state_update (\<lambda>_. Suspended)) s)
     else
       let s = (if priority fiber = 0 + WindowsToUKernPriorityOffset
                then links_update (PushBack NormalPriorityList n) s
                else if priority fiber = 1 + WindowsToUKernPriorityOffset
                then links_update (PushBack AboveNormalPriorityList n) s
                else if priority fiber = - 1 + WindowsToUKernPriorityOffset
                then links_update (PushBack BelowNormalPriorityList n) s
                else if priority fiber = 2 + WindowsToUKernPriorityOffset
                then links_update (PushBack HighPriorityList n) s
                else if priority fiber = - 2 + WindowsToUKernPriorityOffset
                then links_update (PushBack LowPriorityList n) s
                else s);
           s = fiber_update f (fiber_state_update (\<lambda>_. Scheduled)) s
       in s\<lparr>m_runnable_fibers := m_runnable_fibers s + 1\<rparr>)"

section \<open>Waitable objects\<close>

definition EndFiberWaitImpl :: "nat \<Rightarrow> u32 \<Rightarrow> user_scheduler \<Rightarrow> user_scheduler" where
  "EndFiberWaitImpl f wait_result s =
    (let s = links_update (Unlink (SchedulerNode f)) s;
         s = fiber_update f (fiber_state_update (\<lambda>_. Scheduled)) s;
         s = fiber_update f (last_result_update (\<lambda>_. wait_result)) s
     in AddToSchedulerUnsafe f s)"

fun EndWait :: "waitable_object \<Rightarrow> nat \<Rightarrow> u32 \<Rightarrow> user_scheduler \<Rightarrow> user_scheduler outcome" where
  "EndWait LockArbiter f r s = Inr (EndFiberWaitImpl f r s)"
| "EndWait KeyArbiter f r s = Inr (EndFiberWaitImpl f r s)"
| "EndWait WaitAddressArbiter f r s = Inr (EndFiberWaitImpl f r s)"
| "EndWait Dangling f r s = Inl BadObject"

text \<open>Moving every waiter of one fiber to another: the loop that three calls and two waitable
  objects contain.\<close>

definition transfer_waiters :: "nat \<Rightarrow> nat \<Rightarrow> user_scheduler \<Rightarrow> user_scheduler outcome" where
  "transfer_waiters from to = for_wait_nodes (\<lambda>s. s) from
    (\<lambda>n s. Inr (False, links_update (PushBack (WaitList to) n) (links_update (Unlink n) s)))"

definition pop_waiter :: "nat \<Rightarrow> user_scheduler \<Rightarrow> (nat \<times> user_scheduler) outcome" where
  "pop_waiter f s =
    (let (n, k) = PopFront (WaitList f) (m_links s)
     in and_then (wait_parent n) (\<lambda>g. Inr (g, s\<lparr>m_links := k\<rparr>)))"

definition KeyArbiter_CancelWait :: "nat \<Rightarrow> u32 \<Rightarrow> user_scheduler \<Rightarrow> user_scheduler outcome" where
  "KeyArbiter_CancelWait f wait_result s =
    (let retake = (\<lambda>s.
       and_then (load (lock_address (m_fibers s f)) s) (\<lambda>prev_tag.
       let tag = (if prev_tag \<noteq> 0 then wait_tag (m_fibers s f) OR HasChildWaitersBit
                  else wait_tag (m_fibers s f)) in
       and_then (store (lock_address (m_fibers s f)) tag s) (\<lambda>s.
       if prev_tag \<noteq> 0 then
         and_then (GetFiberByHandle (prev_tag AND NOT HasChildWaitersBit) s) (\<lambda>p.
         and_then (deref p) (\<lambda>lock_fiber.
         let s = links_update (PushBack (WaitList lock_fiber) (WaitNode f)) s;
             s = links_update (Unlink (SchedulerNode lock_fiber)) s
         in Inr (links_update (PushBack SuspendList (SchedulerNode lock_fiber)) s)))
       else Inr (EndFiberWaitImpl f wait_result s))))
     in
     if \<not> IsEmpty (m_links s) (WaitList f) then
       and_then (pop_waiter f s) (\<lambda>(next_cv_parent, s).
       and_then (transfer_waiters f next_cv_parent s) retake)
     else if IsLinked (m_links s) (WaitNode f) then retake (links_update (Unlink (WaitNode f)) s)
     else Inr (EndFiberWaitImpl f wait_result s))"

text \<open>\<open>LockArbiter::CancelWait\<close> starts with \<open>DD_ASSERT(false)\<close>.\<close>

fun CancelWait :: "waitable_object \<Rightarrow> nat \<Rightarrow> u32 \<Rightarrow> user_scheduler \<Rightarrow> user_scheduler outcome" where
  "CancelWait LockArbiter f r s = Inl AssertFailed"
| "CancelWait KeyArbiter f r s = KeyArbiter_CancelWait f r s"
| "CancelWait WaitAddressArbiter f r s = Inr (EndFiberWaitImpl f r s)"
| "CancelWait Dangling f r s = Inl BadObject"

section \<open>Methods of a fiber\<close>

definition IsSchedulable :: "nat \<Rightarrow> u32 \<Rightarrow> u64 \<Rightarrow> user_scheduler \<Rightarrow> (bool \<times> user_scheduler) outcome" where
  "IsSchedulable f core_number time s =
    (let fiber = m_fibers s f in
     if fiber_state fiber \<noteq> Scheduled then Inr (False, s)
     else and_then (core_bit core_number) (\<lambda>b.
       if core_mask fiber AND b = 0 then Inr (False, s)
       else (case waitable fiber of
           Some w \<Rightarrow>
             if timeout fiber < time
             then and_then (CancelWait w f ResultTimeout s) (\<lambda>s. Inr (True, s))
             else Inr (False, s)
         | None \<Rightarrow> Inr (timeout fiber < time, s))))"

definition ReleaseLockWaitListUnsafe :: "nat \<Rightarrow> user_scheduler \<Rightarrow> user_scheduler outcome" where
  "ReleaseLockWaitListUnsafe this s =
    and_then (dd_assert (\<not> IsEmpty (m_links s) (WaitList this)) s) (\<lambda>s.
    and_then (pop_waiter this s) (\<lambda>(next_owner, s).
    let tag = (if IsEmpty (m_links s) (WaitList this) then wait_tag (m_fibers s next_owner)
               else wait_tag (m_fibers s next_owner) OR HasChildWaitersBit) in
    and_then (store (lock_address (m_fibers s next_owner)) tag s) (\<lambda>s.
    let s = fiber_update next_owner (lock_address_update (\<lambda>_. nullptr)) s;
        s = fiber_update next_owner (wait_tag_update (\<lambda>_. 0)) s in
    and_then (transfer_waiters this next_owner s) (\<lambda>s.
    and_then (deref (waitable (m_fibers s next_owner))) (\<lambda>w.
    and_then (EndWait w next_owner ResultSuccess s) (\<lambda>s.
    Inr (fiber_update next_owner (waitable_update (\<lambda>_. None)) s)))))))"

section \<open>The lists of the scheduler\<close>

text \<open>
  \<open>sched_lists s L W\<close>: the links hold, for each list head \<open>h\<close> of the scheduler, the fibers \<open>L h\<close> in
  order, and for each fiber \<open>f\<close> the waiters \<open>W f\<close>; no node is in two lists and every other node is
  unlinked.
\<close>

fun is_head :: "node \<Rightarrow> bool" where
  "is_head (SchedulerNode f) = False"
| "is_head (WaitNode f) = False"
| "is_head _ = True"

fun is_scheduler_head :: "node \<Rightarrow> bool" where
  "is_scheduler_head (SchedulerNode f) = False"
| "is_scheduler_head (WaitNode f) = False"
| "is_scheduler_head (WaitList f) = False"
| "is_scheduler_head _ = True"

definition list_view :: "(node \<Rightarrow> nat list) \<Rightarrow> (nat \<Rightarrow> nat list) \<Rightarrow> node \<Rightarrow> node list" where
  "list_view L W h = (case h of WaitList f \<Rightarrow> map WaitNode (W f) | _ \<Rightarrow> map SchedulerNode (L h))"

definition sched_lists :: "user_scheduler \<Rightarrow> (node \<Rightarrow> nat list) \<Rightarrow> (nat \<Rightarrow> nat list) \<Rightarrow> bool" where
  "sched_lists s L W \<longleftrightarrow> rings (m_links s) {h. is_head h} (list_view L W)"

definition enlisted :: "(node \<Rightarrow> nat list) \<Rightarrow> nat set" where
  "enlisted L = {f. \<exists>h. is_scheduler_head h \<and> f \<in> set (L h)}"

definition waiters :: "(nat \<Rightarrow> nat list) \<Rightarrow> nat set" where
  "waiters W = {f. \<exists>g. f \<in> set (W g)}"

lemma is_scheduler_headE:
  assumes "is_head h"
  obtains f where "h = WaitList f" | "is_scheduler_head h"
  using assms by (cases h) auto

lemma scheduler_head_is_head [simp]: "is_scheduler_head h \<Longrightarrow> is_head h"
  by (cases h) auto

lemma list_view_scheduler [simp]:
  "is_scheduler_head h \<Longrightarrow> list_view L W h = map SchedulerNode (L h)"
  by (cases h) (simp_all add: list_view_def)

lemma list_view_wait [simp]: "list_view L W (WaitList f) = map WaitNode (W f)"
  by (simp add: list_view_def)

lemma list_view_cong:
  assumes "\<And>h. is_scheduler_head h \<Longrightarrow> L h = L' h" and "is_head h"
  shows "list_view L W h = list_view L' W h"
  using assms by (cases h) (simp_all add: list_view_def)

lemma listed_SchedulerNode [simp]:
  "SchedulerNode f \<in> listed {h. is_head h} (list_view L W) \<longleftrightarrow> f \<in> enlisted L"
proof -
  have "SchedulerNode f \<in> set (list_view L W h) \<longleftrightarrow> is_scheduler_head h \<and> f \<in> set (L h)" if "is_head h" for h
    using that by (cases h) (auto simp: list_view_def)
  then have "(\<exists>h. is_head h \<and> SchedulerNode f \<in> set (list_view L W h)) \<longleftrightarrow>
      (\<exists>h. is_scheduler_head h \<and> f \<in> set (L h))"
    using scheduler_head_is_head by blast
  then show ?thesis by (simp add: listed_def enlisted_def)
qed

lemma listed_WaitNode [simp]:
  "WaitNode f \<in> listed {h. is_head h} (list_view L W) \<longleftrightarrow> f \<in> waiters W"
proof -
  have "WaitNode f \<in> set (list_view L W h) \<longleftrightarrow> (\<exists>g. h = WaitList g \<and> f \<in> set (W g))" if "is_head h" for h
    using that by (cases h) (auto simp: list_view_def)
  then have "(\<exists>h. is_head h \<and> WaitNode f \<in> set (list_view L W h)) \<longleftrightarrow> (\<exists>g. f \<in> set (W g))"
    using is_head.simps(3) by metis
  then show ?thesis by (simp add: listed_def waiters_def)
qed

lemma rings_cong:
  assumes "\<And>h. h \<in> H \<Longrightarrow> F h = G h"
  shows "rings k H F = rings k H G"
  using assms unfolding rings_def by (simp cong: ball_cong)

lemma links_update_links [simp]: "m_links (links_update g s) = g (m_links s)"
  by (simp add: links_update_def)

lemma fiber_update_links [simp]: "m_links (fiber_update f g s) = m_links s"
  by (simp add: fiber_update_def)

lemma lists_ring: "sched_lists s L W \<Longrightarrow> is_scheduler_head h \<Longrightarrow> ring (m_links s) h (map SchedulerNode (L h))"
  using rings_ring [of "m_links s" "{h. is_head h}" "list_view L W" h] by (simp add: sched_lists_def)

lemma lists_wait_ring: "sched_lists s L W \<Longrightarrow> ring (m_links s) (WaitList f) (map WaitNode (W f))"
  using rings_ring [of "m_links s" "{h. is_head h}" "list_view L W" "WaitList f"] by (simp add: sched_lists_def)

lemma lists_distinct: "sched_lists s L W \<Longrightarrow> is_scheduler_head h \<Longrightarrow> distinct (L h)"
  using lists_ring [of s L W h] ring_distinct by (fastforce simp: distinct_map)

lemma lists_one_list:
  assumes "sched_lists s L W" "is_scheduler_head h" "is_scheduler_head g" "f \<in> set (L h)" "f \<in> set (L g)"
  shows "h = g"
  using assms rings_disjoint [of "m_links s" "{h. is_head h}" "list_view L W" h g "SchedulerNode f"]
  by (simp add: sched_lists_def)

lemma lists_links_cong: "m_links s' = m_links s \<Longrightarrow> sched_lists s' L W = sched_lists s L W"
  by (simp add: sched_lists_def)

lemma lists_push_scheduler:
  assumes "sched_lists s L W" and "is_scheduler_head h" and "f \<notin> enlisted L"
  shows "sched_lists (links_update (PushBack h (SchedulerNode f)) s) (L(h := L h @ [f])) W"
proof -
  have "rings (PushBack h (SchedulerNode f) (m_links s)) {h. is_head h}
      ((list_view L W)(h := list_view L W h @ [SchedulerNode f]))"
    using assms by (intro rings_PushBack) (simp_all add: sched_lists_def)
  also have "?this = rings (PushBack h (SchedulerNode f) (m_links s)) {h. is_head h} (list_view (L(h := L h @ [f])) W)"
  proof (rule rings_cong)
    fix g assume "g \<in> {h. is_head h}"
    then show "((list_view L W)(h := list_view L W h @ [SchedulerNode f])) g = list_view (L(h := L h @ [f])) W g"
      using assms(2) by (cases g; cases h) (auto simp: list_view_def)
  qed
  finally show ?thesis by (simp add: sched_lists_def)
qed

lemma lists_push_waiter:
  assumes "sched_lists s L W" and "f \<notin> waiters W"
  shows "sched_lists (links_update (PushBack (WaitList g) (WaitNode f)) s) L (W(g := W g @ [f]))"
proof -
  have "rings (PushBack (WaitList g) (WaitNode f) (m_links s)) {h. is_head h}
      ((list_view L W)(WaitList g := list_view L W (WaitList g) @ [WaitNode f]))"
    using assms by (intro rings_PushBack) (simp_all add: sched_lists_def)
  also have "?this = rings (PushBack (WaitList g) (WaitNode f) (m_links s)) {h. is_head h} (list_view L (W(g := W g @ [f])))"
    by (rule rings_cong) (auto simp: list_view_def split: node.splits)
  finally show ?thesis by (simp add: sched_lists_def)
qed

lemma lists_unlink_scheduler:
  assumes "sched_lists s L W"
  shows "sched_lists (links_update (Unlink (SchedulerNode f)) s) (\<lambda>h. remove1 f (L h)) W"
proof (cases "f \<in> enlisted L")
  case True
  then obtain h where h: "is_scheduler_head h" "f \<in> set (L h)" by (auto simp: enlisted_def)
  have rm: "remove1 (SchedulerNode f) (map SchedulerNode xs) = map SchedulerNode (remove1 f xs)" for xs
    by (induction xs) auto
  have "rings (Unlink (SchedulerNode f) (m_links s)) {h. is_head h}
      ((list_view L W)(h := remove1 (SchedulerNode f) (list_view L W h)))"
    using assms h by (intro rings_Unlink) (simp_all add: sched_lists_def)
  also have "?this = rings (Unlink (SchedulerNode f) (m_links s)) {h. is_head h} (list_view (\<lambda>h. remove1 f (L h)) W)"
  proof (rule rings_cong)
    fix g assume g: "g \<in> {h. is_head h}"
    have "f \<notin> set (L g)" if "is_scheduler_head g" "g \<noteq> h"
      using lists_one_list [OF assms that(1) h(1)] h(2) that(2) by auto
    then show "((list_view L W)(h := remove1 (SchedulerNode f) (list_view L W h))) g = list_view (\<lambda>h. remove1 f (L h)) W g"
      using g h(1) by (cases g; cases h) (auto simp: list_view_def rm remove1_idem)
  qed
  finally show ?thesis by (simp add: sched_lists_def)
next
  case False
  then have "Unlink (SchedulerNode f) (m_links s) = m_links s"
    using assms rings_Unlink_unlinked [of "m_links s" "{h. is_head h}" "list_view L W" "SchedulerNode f"]
    by (simp add: sched_lists_def)
  moreover have "rings (m_links s) {h. is_head h} (list_view (\<lambda>h. remove1 f (L h)) W) =
      rings (m_links s) {h. is_head h} (list_view L W)"
    using False by (intro rings_cong list_view_cong) (auto simp: enlisted_def remove1_idem)
  ultimately show ?thesis using assms by (simp add: sched_lists_def)
qed

lemma lists_unlink_waiter:
  assumes "sched_lists s L W"
  shows "sched_lists (links_update (Unlink (WaitNode f)) s) L (\<lambda>g. remove1 f (W g))"
proof (cases "f \<in> waiters W")
  case True
  then obtain g where g: "f \<in> set (W g)" by (auto simp: waiters_def)
  have rm: "remove1 (WaitNode f) (map WaitNode xs) = map WaitNode (remove1 f xs)" for xs
    by (induction xs) auto
  have one: "h = g" if "f \<in> set (W h)" for h
    using that g assms rings_disjoint [of "m_links s" "{h. is_head h}" "list_view L W" "WaitList h" "WaitList g" "WaitNode f"]
    by (simp add: sched_lists_def)
  have "rings (Unlink (WaitNode f) (m_links s)) {h. is_head h}
      ((list_view L W)(WaitList g := remove1 (WaitNode f) (list_view L W (WaitList g))))"
    using assms g by (intro rings_Unlink) (simp_all add: sched_lists_def)
  also have "?this = rings (Unlink (WaitNode f) (m_links s)) {h. is_head h} (list_view L (\<lambda>g. remove1 f (W g)))"
  proof (rule rings_cong)
    fix h assume "h \<in> {h. is_head h}"
    moreover have "remove1 f (W x) = W x" if "x \<noteq> g" for x using one that by (auto intro!: remove1_idem)
    ultimately show "((list_view L W)(WaitList g := remove1 (WaitNode f) (list_view L W (WaitList g)))) h =
        list_view L (\<lambda>g. remove1 f (W g)) h"
      by (cases h) (auto simp: list_view_def rm)
  qed
  finally show ?thesis by (simp add: sched_lists_def)
next
  case False
  then have "Unlink (WaitNode f) (m_links s) = m_links s"
    using assms rings_Unlink_unlinked [of "m_links s" "{h. is_head h}" "list_view L W" "WaitNode f"]
    by (simp add: sched_lists_def)
  moreover have "remove1 f (W g) = W g" for g using False by (auto simp: waiters_def intro!: remove1_idem)
  ultimately show ?thesis using assms by (simp add: sched_lists_def)
qed

section \<open>Adding a fiber to its list\<close>

text \<open>The list a fiber belongs to; a priority outside the five levels has none.\<close>

definition list_for :: "fiber_local_storage \<Rightarrow> node option" where
  "list_for x =
    (if activity_level x = ActivityLevel_Suspended then Some SuspendList
     else if priority x = 0 then Some LowPriorityList
     else if priority x = 1 then Some BelowNormalPriorityList
     else if priority x = 2 then Some NormalPriorityList
     else if priority x = 3 then Some AboveNormalPriorityList
     else if priority x = 4 then Some HighPriorityList
     else None)"

definition state_for :: "fiber_local_storage \<Rightarrow> fiber_state" where
  "state_for x = (if activity_level x = ActivityLevel_Suspended then Suspended else Scheduled)"

lemma list_for_head: "list_for x = Some h \<Longrightarrow> is_scheduler_head h"
  by (auto simp: list_for_def split: if_splits)

text \<open>Only the activity level and the priority matter.\<close>

lemma list_for_cong:
  "activity_level y = activity_level x \<Longrightarrow> priority y = priority x \<Longrightarrow> list_for y = list_for x"
  "activity_level y = activity_level x \<Longrightarrow> state_for y = state_for x"
  by (simp_all add: list_for_def state_for_def)

lemma list_for_update [simp]:
  "list_for (x\<lparr>fiber_state := v\<rparr>) = list_for x" "state_for (x\<lparr>fiber_state := v\<rparr>) = state_for x"
  "list_for (x\<lparr>last_result := r\<rparr>) = list_for x" "state_for (x\<lparr>last_result := r\<rparr>) = state_for x"
  "list_for (x\<lparr>waitable := w\<rparr>) = list_for x" "state_for (x\<lparr>waitable := w\<rparr>) = state_for x"
  "list_for (x\<lparr>wait_tag := t\<rparr>) = list_for x" "state_for (x\<lparr>wait_tag := t\<rparr>) = state_for x"
  "list_for (x\<lparr>lock_address := a\<rparr>) = list_for x" "state_for (x\<lparr>lock_address := a\<rparr>) = state_for x"
  "list_for (x\<lparr>wait_address := a\<rparr>) = list_for x" "state_for (x\<lparr>wait_address := a\<rparr>) = state_for x"
  "list_for (x\<lparr>timeout := n\<rparr>) = list_for x" "state_for (x\<lparr>timeout := n\<rparr>) = state_for x"
  "list_for (x\<lparr>current_core := c\<rparr>) = list_for x" "state_for (x\<lparr>current_core := c\<rparr>) = state_for x"
  by (auto intro!: list_for_cong)

lemma fiber_update_fibers [simp]: "m_fibers (fiber_update f g s) = (m_fibers s)(f := g (m_fibers s f))"
  by (simp add: fiber_update_def)

lemma links_update_fibers [simp]: "m_fibers (links_update g s) = m_fibers s"
  by (simp add: links_update_def)

text \<open>What an update of links or of a fiber leaves alone.\<close>

lemma fiber_update_frame [simp]:
  "m_words (fiber_update f g s) = m_words s"
  "m_scheduler_lock (fiber_update f g s) = m_scheduler_lock s"
  "m_handle_table (fiber_update f g s) = m_handle_table s"
  "m_core_count (fiber_update f g s) = m_core_count s"
  "m_core_mask (fiber_update f g s) = m_core_mask s"
  "m_active_cores (fiber_update f g s) = m_active_cores s"
  "m_runnable_fibers (fiber_update f g s) = m_runnable_fibers s"
  "m_scheduler_fiber_table (fiber_update f g s) = m_scheduler_fiber_table s"
  "m_scheduler_thread_table (fiber_update f g s) = m_scheduler_thread_table s"
  "UserFiberLocalAllocator (fiber_update f g s) = UserFiberLocalAllocator s"
  by (simp_all add: fiber_update_def)

lemma links_update_frame [simp]:
  "m_words (links_update g s) = m_words s"
  "m_scheduler_lock (links_update g s) = m_scheduler_lock s"
  "m_handle_table (links_update g s) = m_handle_table s"
  "m_core_count (links_update g s) = m_core_count s"
  "m_core_mask (links_update g s) = m_core_mask s"
  "m_active_cores (links_update g s) = m_active_cores s"
  "m_runnable_fibers (links_update g s) = m_runnable_fibers s"
  "m_scheduler_fiber_table (links_update g s) = m_scheduler_fiber_table s"
  "m_scheduler_thread_table (links_update g s) = m_scheduler_thread_table s"
  "UserFiberLocalAllocator (links_update g s) = UserFiberLocalAllocator s"
  by (simp_all add: links_update_def)

lemma AddToSchedulerUnsafe_fibers [simp]:
  "m_fibers (AddToSchedulerUnsafe f s) =
    (m_fibers s)(f := (m_fibers s f)\<lparr>fiber_state := state_for (m_fibers s f)\<rparr>)"
  by (simp add: AddToSchedulerUnsafe_def state_for_def Let_def)

lemma AddToSchedulerUnsafe_frame [simp]:
  "m_words (AddToSchedulerUnsafe f s) = m_words s"
  "m_scheduler_lock (AddToSchedulerUnsafe f s) = m_scheduler_lock s"
  "m_handle_table (AddToSchedulerUnsafe f s) = m_handle_table s"
  "m_core_count (AddToSchedulerUnsafe f s) = m_core_count s"
  "m_core_mask (AddToSchedulerUnsafe f s) = m_core_mask s"
  "m_active_cores (AddToSchedulerUnsafe f s) = m_active_cores s"
  "m_scheduler_fiber_table (AddToSchedulerUnsafe f s) = m_scheduler_fiber_table s"
  "m_scheduler_thread_table (AddToSchedulerUnsafe f s) = m_scheduler_thread_table s"
  "UserFiberLocalAllocator (AddToSchedulerUnsafe f s) = UserFiberLocalAllocator s"
  by (simp_all add: AddToSchedulerUnsafe_def Let_def)

lemma AddToSchedulerUnsafe_runnable:
  "m_runnable_fibers (AddToSchedulerUnsafe f s) =
    m_runnable_fibers s + (if activity_level (m_fibers s f) = ActivityLevel_Suspended then 0 else 1)"
  by (simp add: AddToSchedulerUnsafe_def Let_def)

lemma AddToSchedulerUnsafe_links:
  "m_links (AddToSchedulerUnsafe f s) =
    (case list_for (m_fibers s f) of None \<Rightarrow> m_links s
     | Some h \<Rightarrow> PushBack h (SchedulerNode f) (m_links s))"
  by (auto simp: AddToSchedulerUnsafe_def list_for_def WindowsToUKernPriorityOffset_def Let_def)

lemma AddToSchedulerUnsafe_lists:
  assumes "sched_lists s L W" and "f \<notin> enlisted L" and "list_for (m_fibers s f) = Some h"
  shows "sched_lists (AddToSchedulerUnsafe f s) (L(h := L h @ [f])) W"
proof -
  have "sched_lists (links_update (PushBack h (SchedulerNode f)) s) (L(h := L h @ [f])) W"
    using assms list_for_head by (intro lists_push_scheduler) auto
  then show ?thesis
    using assms(3) by (simp add: sched_lists_def AddToSchedulerUnsafe_links)
qed

text \<open>Ending a wait: the fiber leaves whatever scheduler list it is in and joins its own.\<close>

definition relist :: "nat \<Rightarrow> node \<Rightarrow> (node \<Rightarrow> nat list) \<Rightarrow> node \<Rightarrow> nat list" where
  "relist f h L = (\<lambda>g. remove1 f (L g))(h := remove1 f (L h) @ [f])"

lemma remove1_not_enlisted:
  assumes "sched_lists s L W"
  shows "f \<notin> enlisted (\<lambda>h. remove1 f (L h))"
  using lists_distinct [OF assms] by (auto simp: enlisted_def)

lemma unlink_add_lists:
  assumes "sched_lists s L W" and "list_for (m_fibers s f) = Some h"
  shows "sched_lists (AddToSchedulerUnsafe f (links_update (Unlink (SchedulerNode f)) s)) (relist f h L) W"
  unfolding relist_def
  using assms remove1_not_enlisted [OF assms(1)] lists_unlink_scheduler [OF assms(1)]
  by (intro AddToSchedulerUnsafe_lists) simp_all

lemma EndFiberWaitImpl_eq:
  "EndFiberWaitImpl f r s = AddToSchedulerUnsafe f (fiber_update f
    (\<lambda>x. x\<lparr>fiber_state := Scheduled, last_result := r\<rparr>) (links_update (Unlink (SchedulerNode f)) s))"
  by (simp add: EndFiberWaitImpl_def Let_def fiber_update_def links_update_def)

lemma EndFiberWaitImpl_lists:
  assumes "sched_lists s L W" and "list_for (m_fibers s f) = Some h"
  shows "sched_lists (EndFiberWaitImpl f r s) (relist f h L) W"
proof -
  let ?s = "fiber_update f (\<lambda>x. x\<lparr>fiber_state := Scheduled, last_result := r\<rparr>) s"
  have "m_links (EndFiberWaitImpl f r s) =
      m_links (AddToSchedulerUnsafe f (links_update (Unlink (SchedulerNode f)) ?s))"
    by (simp add: EndFiberWaitImpl_eq AddToSchedulerUnsafe_links split: option.split)
  moreover have "sched_lists ?s L W" "list_for (m_fibers ?s f) = Some h"
    using assms by (simp_all add: sched_lists_def)
  ultimately show ?thesis using unlink_add_lists [of ?s L W f h] lists_links_cong by blast
qed

lemma EndFiberWaitImpl_fibers [simp]:
  "m_fibers (EndFiberWaitImpl f r s) =
    (m_fibers s)(f := (m_fibers s f)\<lparr>last_result := r, fiber_state := state_for (m_fibers s f)\<rparr>)"
  by (simp add: EndFiberWaitImpl_eq)

lemma EndFiberWaitImpl_frame [simp]:
  "m_words (EndFiberWaitImpl f r s) = m_words s"
  "m_scheduler_lock (EndFiberWaitImpl f r s) = m_scheduler_lock s"
  "m_handle_table (EndFiberWaitImpl f r s) = m_handle_table s"
  "m_core_count (EndFiberWaitImpl f r s) = m_core_count s"
  "m_core_mask (EndFiberWaitImpl f r s) = m_core_mask s"
  "m_active_cores (EndFiberWaitImpl f r s) = m_active_cores s"
  "m_scheduler_fiber_table (EndFiberWaitImpl f r s) = m_scheduler_fiber_table s"
  "m_scheduler_thread_table (EndFiberWaitImpl f r s) = m_scheduler_thread_table s"
  "UserFiberLocalAllocator (EndFiberWaitImpl f r s) = UserFiberLocalAllocator s"
  by (simp_all add: EndFiberWaitImpl_eq)

section \<open>Loops over fibers\<close>

text \<open>A loop whose body leaves the links alone runs over the fibers of its list in order.\<close>

fun visit_fibers :: "(nat \<Rightarrow> 's \<Rightarrow> (bool \<times> 's) outcome) \<Rightarrow> nat list \<Rightarrow> 's \<Rightarrow> 's outcome" where
  "visit_fibers body [] s = Inr s"
| "visit_fibers body (f # fs) s =
    and_then (body f s) (\<lambda>(brk, s'). if brk then Inr s' else visit_fibers body fs s')"

lemma visit_scheduler_nodes:
  "visit (\<lambda>n s. and_then (scheduler_parent n) (\<lambda>f. body f s)) (map SchedulerNode fs) s =
    visit_fibers body fs s"
proof (induction fs arbitrary: s)
  case (Cons f fs)
  then show ?case by (cases "body f s") auto
qed simp

lemma visit_wait_nodes:
  assumes "\<And>f s. body (WaitNode f) s = body' f s"
  shows "visit body (map WaitNode fs) s = visit_fibers body' fs s"
proof (induction fs arbitrary: s)
  case (Cons f fs)
  then show ?case by (cases "body' f s") (auto simp: assms)
qed simp

text \<open>The loop fuel covers every list of distinct fibers of the allocator.\<close>

lemma fibers_fuel:
  assumes "distinct fs" and "set fs \<subseteq> {..<MaxThreadCount}"
  shows "length fs + 4 \<le> loop_fuel"
proof -
  have "length fs = card (set fs)" using assms(1) by (simp add: distinct_card)
  also have "\<dots> \<le> card {..<MaxThreadCount}" using assms(2) by (intro card_mono) auto
  finally show ?thesis by (simp add: MaxThreadCount_def loop_fuel_def)
qed

lemma for_fibers_visit_until:
  assumes l: "sched_lists (st s) L W" "is_scheduler_head h" "set (L h) \<subseteq> {..<MaxThreadCount}"
    and b: "\<And>f t t'. f \<in> set (L h) \<Longrightarrow> I t \<Longrightarrow> body f t = Inr (False, t') \<Longrightarrow>
      I t' \<and> m_links (st t') = m_links (st t)"
    and I: "I s"
  shows "for_fibers st h body s = visit_fibers body (L h) s"
proof -
  let ?body = "\<lambda>n s. and_then (scheduler_parent n) (\<lambda>f. body f s)"
  have "for_each loop_fuel (\<lambda>s. m_links (st s)) h ?body s = visit ?body (map SchedulerNode (L h)) s"
  proof (rule for_each_visit_until [where I = I])
    show "ring (m_links (st s)) h (map SchedulerNode (L h))" by (rule lists_ring [OF l(1,2)])
    show "length (map SchedulerNode (L h)) < loop_fuel"
      using fibers_fuel [OF lists_distinct [OF l(1,2)] l(3)] by simp
    fix n t t'
    assume "n \<in> set (map SchedulerNode (L h))" "I t" "?body n t = Inr (False, t')"
    then show "I t' \<and> m_links (st t') = m_links (st t)" using b by auto
  qed (rule I)
  then show ?thesis by (simp add: for_fibers_def visit_scheduler_nodes)
qed

lemma for_fibers_visit:
  assumes "sched_lists (st s) L W" "is_scheduler_head h" "set (L h) \<subseteq> {..<MaxThreadCount}"
    and "\<And>f t b t'. f \<in> set (L h) \<Longrightarrow> I t \<Longrightarrow> body f t = Inr (b, t') \<Longrightarrow>
      I t' \<and> m_links (st t') = m_links (st t)"
    and "I s"
  shows "for_fibers st h body s = visit_fibers body (L h) s"
  using assms by (intro for_fibers_visit_until [where I = I and W = W])

text \<open>Looking for the first fiber with a property, and a minimum over the fibers.\<close>

lemma visit_fibers_find:
  assumes "\<And>f. f \<in> set fs \<Longrightarrow> body f (None, s) = Inr (if P f then (True, (Some f, s)) else (False, (None, s)))"
  shows "visit_fibers body fs (None, s) = Inr (find P fs, s)"
  using assms by (induction fs) auto

lemma visit_fibers_until:
  assumes "\<And>f. f \<in> set fs \<Longrightarrow> body f (None, s) = (if P f then and_then (g f) (\<lambda>s. Inr (True, (Some f, s))) else Inr (False, (None, s)))"
  shows "visit_fibers body fs (None, s) =
    (case find P fs of None \<Rightarrow> Inr (None, s) | Some f \<Rightarrow> and_then (g f) (\<lambda>s. Inr (Some f, s)))"
  using assms
proof (induction fs)
  case (Cons f fs)
  then show ?case by (cases "g f") auto
qed simp

lemma visit_fibers_fold:
  assumes "\<And>f x. f \<in> set fs \<Longrightarrow> body f (x, s) = Inr (False, (g f x, s))"
  shows "visit_fibers body fs (x, s) = Inr (fold g fs x, s)"
  using assms by (induction fs arbitrary: x) auto

lemma visit_fibers_skip:
  assumes "\<And>f. f \<in> set fs \<Longrightarrow> body f s = Inr (False, s)"
  shows "visit_fibers body fs s = Inr s"
  using assms by (induction fs) auto

end
