(* ===== verification/Scheduler.thy ===== *)
theory Scheduler
  imports Fiber_State Time_Span
begin

text \<open>
  The scheduler proper: \<open>ukern_scheduler.cpp\<close> (\<open>SchedulerFiberMain\<close>, \<open>Dispatch\<close>, \<open>Initialize\<close>
  and the thread calls), the fiber entry points of \<open>ukern_scheduler.hpp\<close>, and the wrappers of
  \<open>ukern_threadapi.cpp\<close> and \<open>ukern_init.cpp\<close>. A call is cut where it switches fibers: it either
  returns, with \<open>m_scheduler_lock\<close> released, or hands the core and the lock to the scheduler fiber
  of its core and goes on in \<open>resume_call\<close> when it is dispatched again.

  Results of the operating system (new fibers and threads, the tick) are arguments.
\<close>

section \<open>Calls, switches and the scheduler lock\<close>

text \<open>
  What is left of a call after its switch: a result computed before it (\<open>ResultSuccess\<close> stands
  for \<open>last_result\<close>), nothing, or the end of the fiber.
\<close>

datatype continuation = ReturnResult u32 | ReturnVoid | NeverResumed

datatype 'r call = Returned 'r | Switched u32 continuation

definition AcquireSRWLockExclusive :: "user_scheduler \<Rightarrow> user_scheduler" where
  "AcquireSRWLockExclusive s = s\<lparr>m_scheduler_lock := True\<rparr>"

definition ReleaseSRWLockExclusive :: "user_scheduler \<Rightarrow> user_scheduler" where
  "ReleaseSRWLockExclusive s = s\<lparr>m_scheduler_lock := False\<rparr>"

text \<open>Leaving a scope guarded by \<open>ScopedSchedulerLock\<close>.\<close>

definition return_locked :: "'r \<Rightarrow> user_scheduler \<Rightarrow> ('r call \<times> user_scheduler) outcome" where
  "return_locked r s = Inr (Returned r, ReleaseSRWLockExclusive s)"

definition switch_to_scheduler :: "nat \<Rightarrow> continuation \<Rightarrow> user_scheduler \<Rightarrow> ('r call \<times> user_scheduler) outcome" where
  "switch_to_scheduler f c s = and_then (GetSchedulerFiber f s) (\<lambda>core. Inr (Switched core c, s))"

text \<open>
  After the switch back: the result is read, the frame goes away (and with it the arbiter a
  \<open>waitable_object\<close> may still point to) and the guard releases the lock.
\<close>

definition resume_call :: "nat \<Rightarrow> continuation \<Rightarrow> user_scheduler \<Rightarrow> u32 option \<times> user_scheduler" where
  "resume_call f c s =
    (let r = (case c of ReturnResult r \<Rightarrow> Some (if r = ResultSuccess then last_result (m_fibers s f) else r)
              | _ \<Rightarrow> None);
         s = fiber_update f (waitable_update (map_option (\<lambda>_. Dangling))) s
     in (r, ReleaseSRWLockExclusive s))"

section \<open>Choosing a fiber\<close>

text \<open>
  The loop over \<open>m_wait_list\<close> that cancels waits, and the five loops that look for a fiber to
  run: the first schedulable one leaves the loop and is dispatched.
\<close>

definition cancel_timeouts :: "u32 \<Rightarrow> u64 \<Rightarrow> user_scheduler \<Rightarrow> user_scheduler outcome" where
  "cancel_timeouts core_number tick = for_fibers (\<lambda>s. s) SchedulerWaitList (\<lambda>waiting_fiber s.
    and_then (IsSchedulable waiting_fiber core_number tick s) (\<lambda>(b, s).
    if \<not> b then Inr (False, s)
    else and_then (deref (waitable (m_fibers s waiting_fiber))) (\<lambda>w.
      and_then (CancelWait w waiting_fiber ResultTimeout s) (\<lambda>s. Inr (False, s)))))"

definition find_runnable :: "u32 \<Rightarrow> u64 \<Rightarrow> node \<Rightarrow> nat option \<times> user_scheduler \<Rightarrow> (nat option \<times> user_scheduler) outcome" where
  "find_runnable core_number tick l fs =
    (case fst fs of Some f \<Rightarrow> Inr fs
     | None \<Rightarrow> for_fibers snd l (\<lambda>runnable_fiber (r, s).
         and_then (IsSchedulable runnable_fiber core_number tick s) (\<lambda>(b, s).
         Inr (b, if b then (Some runnable_fiber, s) else (None, s)))) fs)"

definition priority_lists :: "node list" where
  "priority_lists = [HighPriorityList, AboveNormalPriorityList, NormalPriorityList,
    BelowNormalPriorityList, LowPriorityList]"

fun find_first :: "u32 \<Rightarrow> u64 \<Rightarrow> node list \<Rightarrow> nat option \<times> user_scheduler \<Rightarrow> (nat option \<times> user_scheduler) outcome" where
  "find_first core_number tick [] fs = Inr fs"
| "find_first core_number tick (l # ls) fs =
    and_then (find_runnable core_number tick l fs) (find_first core_number tick ls)"

text \<open>\<open>Dispatch\<close> up to the switch, and from the switch back.\<close>

definition Dispatch_begin :: "nat \<Rightarrow> u32 \<Rightarrow> user_scheduler \<Rightarrow> user_scheduler outcome" where
  "Dispatch_begin f core_number s =
    (let s = fiber_update f (fiber_state_update (\<lambda>_. Running)) s;
         s = fiber_update f (current_core_update (\<lambda>_. core_number)) s in
     and_then (dd_assert (m_core_count s > current_core (m_fibers s f)) s) (\<lambda>s.
     Inr (links_update (Unlink (SchedulerNode f)) s)))"

definition Dispatch_end :: "nat \<Rightarrow> u32 \<Rightarrow> user_scheduler \<Rightarrow> user_scheduler outcome" where
  "Dispatch_end f core_number s =
    and_then (dd_assert (core_number = current_core (m_fibers s f)) s) (\<lambda>s.
    case fiber_state (m_fibers s f) of
      Running \<Rightarrow> Inr (AddToSchedulerUnsafe f s)
    | Exiting \<Rightarrow> and_then (Free f (UserFiberLocalAllocator s)) (\<lambda>a. Inr (s\<lparr>UserFiberLocalAllocator := a\<rparr>))
    | Waiting \<Rightarrow> Inr s
    | _ \<Rightarrow> Inl AssertFailed)"

text \<open>One pass of \<open>SchedulerFiberMain\<close> from its label: the fiber switched to, if there is one.\<close>

definition scheduler_pass :: "u32 \<Rightarrow> u64 \<Rightarrow> user_scheduler \<Rightarrow> (nat option \<times> user_scheduler) outcome" where
  "scheduler_pass core_number tick s =
    and_then (cancel_timeouts core_number tick s) (\<lambda>s.
    and_then (find_first core_number tick priority_lists (None, s)) (\<lambda>(r, s).
    case r of None \<Rightarrow> Inr (None, s)
    | Some f \<Rightarrow> and_then (Dispatch_begin f core_number s) (\<lambda>s. Inr (Some f, s))))"

section \<open>Resting\<close>

text \<open>The next time a fiber of this core has to wake up, over the six lists of the \<open>do\<close> loop.\<close>

definition earliest :: "u32 \<Rightarrow> node \<Rightarrow> u64 \<times> user_scheduler \<Rightarrow> (u64 \<times> user_scheduler) outcome" where
  "earliest core_number l = for_fibers snd l (\<lambda>fiber (timeout_tick, s).
    and_then (core_bit core_number) (\<lambda>b.
    Inr (False, if core_mask (m_fibers s fiber) AND b \<noteq> 0 \<and> timeout (m_fibers s fiber) < timeout_tick
                then (timeout (m_fibers s fiber), s) else (timeout_tick, s))))"

fun earliest_of :: "u32 \<Rightarrow> node list \<Rightarrow> u64 \<times> user_scheduler \<Rightarrow> (u64 \<times> user_scheduler) outcome" where
  "earliest_of core_number [] ts = Inr ts"
| "earliest_of core_number (l # ls) ts =
    and_then (earliest core_number l ts) (earliest_of core_number ls)"

definition next_wakeup :: "u32 \<Rightarrow> user_scheduler \<Rightarrow> u64 outcome" where
  "next_wakeup core_number s =
    and_then (earliest_of core_number (SchedulerWaitList # priority_lists) (0xffffffffffffffff, s))
      (\<lambda>(t, _). Inr t)"

text \<open>
  From \<open>--m_active_cores\<close> to the release of the lock. When no core is active and no fiber is
  runnable the process is killed.
\<close>

definition rest_begin :: "u32 \<Rightarrow> user_scheduler \<Rightarrow> (u64 \<times> user_scheduler) outcome" where
  "rest_begin core_number s =
    (let s = s\<lparr>m_active_cores := m_active_cores s - 1\<rparr> in
     and_then (dd_assert (\<not> (m_runnable_fibers s = 0 \<and> m_active_cores s = 0)) s) (\<lambda>s.
     and_then (next_wakeup core_number s) (\<lambda>t. Inr (t, ReleaseSRWLockExclusive s))))"

text \<open>
  The rest of the \<open>do\<close> loop. \<open>time_left\<close> converts the tick to \<open>s64\<close> and the milliseconds to
  \<open>u32\<close>; a core that has no time left goes back to its pass, the others sleep in \<open>WaitOnAddress\<close>
  (which may return at any time) and either leave the loop or rest again.
\<close>

definition rest_time_left :: "timestamp \<Rightarrow> int \<Rightarrow> u64 \<Rightarrow> u32 outcome" where
  "rest_time_left t now timeout_tick =
    and_then (GetTimeLeftOnTarget t now (sint timeout_tick)) (\<lambda>ns.
    Inr (word_of_int (GetMilliSeconds ns)))"

datatype rest = Leave_rest | Rest_again u64

definition rest_no_time :: "user_scheduler \<Rightarrow> user_scheduler" where
  "rest_no_time s =
    (let s = AcquireSRWLockExclusive s in s\<lparr>m_active_cores := m_active_cores s + 1\<rparr>)"

definition rest_woken :: "u32 \<Rightarrow> user_scheduler \<Rightarrow> (rest \<times> user_scheduler) outcome" where
  "rest_woken core_number s =
    (let s = AcquireSRWLockExclusive s in
     if m_runnable_fibers s = 0
     then and_then (next_wakeup core_number s) (\<lambda>t. Inr (Rest_again t, ReleaseSRWLockExclusive s))
     else Inr (Leave_rest, s\<lparr>m_active_cores := m_active_cores s + 1\<rparr>))"

section \<open>Entry points\<close>

definition InternalSchedulerFiberMain :: "u32 \<Rightarrow> address \<Rightarrow> user_scheduler \<Rightarrow> user_scheduler outcome" where
  "InternalSchedulerFiberMain core_number converted s =
    (if length (m_scheduler_fiber_table s) \<le> unat core_number then Inl OutOfBounds
     else
       let s = s\<lparr>m_scheduler_fiber_table := (m_scheduler_fiber_table s)[unat core_number := converted]\<rparr> in
       and_then (dd_assert (converted \<noteq> 0) s) (\<lambda>s. Inr (AcquireSRWLockExclusive s)))"

definition InternalSchedulerMainThreadFiberMain :: "nat \<Rightarrow> user_scheduler \<Rightarrow> user_scheduler" where
  "InternalSchedulerMainThreadFiberMain main_fiber s = AddToSchedulerUnsafe main_fiber s"

definition ExitFiberImpl :: "nat \<Rightarrow> user_scheduler \<Rightarrow> (unit call \<times> user_scheduler) outcome" where
  "ExitFiberImpl this s =
    (let s = AcquireSRWLockExclusive s;
         s = fiber_update this (fiber_state_update (\<lambda>_. Exiting)) s
     in switch_to_scheduler this NeverResumed s)"

text \<open>\<open>UserFiberMain\<close>: before and after the thread function.\<close>

definition UserFiberMain_begin :: "user_scheduler \<Rightarrow> user_scheduler" where
  "UserFiberMain_begin s = ReleaseSRWLockExclusive s"

definition UserFiberMain_end :: "nat \<Rightarrow> user_scheduler \<Rightarrow> (unit call \<times> user_scheduler) outcome" where
  "UserFiberMain_end this s = ExitFiberImpl this s"

section \<open>Names\<close>

text \<open>
  \<open>strncpy\<close> into the 32 bytes of \<open>fiber_name_storage\<close>: at most 32 characters, padded with zeros.
\<close>

definition zero_char :: char where "zero_char = CHR 0x00"

definition strncpy :: "string \<Rightarrow> nat \<Rightarrow> string" where
  "strncpy src n = take n (takeWhile (\<lambda>c. c \<noteq> zero_char) src @ replicate n zero_char)"

definition hex_digit :: "nat \<Rightarrow> char" where
  "hex_digit d = (if d < 10 then char_of (48 + d) else char_of (87 + d))"

text \<open>\<open>%08x\<close> of the low 32 bits of the argument.\<close>

definition hex8 :: "u64 \<Rightarrow> string" where
  "hex8 v = map (\<lambda>i. hex_digit (unat v div 16 ^ i mod 16)) [7, 6, 5, 4, 3, 2, 1, 0]"

text \<open>\<open>snprintf\<close> writes the text and one zero; here 16 characters of 32.\<close>

definition snprintf_name :: "string \<Rightarrow> string \<Rightarrow> string" where
  "snprintf_name text old =
    (let w = take (MaxFiberNameLength - 1) text @ [zero_char] in w @ drop (length w) old)"

definition SetInitialFiberNameUnsafe :: "nat \<Rightarrow> user_scheduler \<Rightarrow> user_scheduler" where
  "SetInitialFiberNameUnsafe f s =
    (if user_function (m_fibers s f) = nullptr
     then fiber_update f (fiber_name_storage_update (\<lambda>_. strncpy ''MainThread'' MaxFiberNameLength)) s
     else fiber_update f (fiber_name_storage_update
       (snprintf_name (''Thread0x'' @ hex8 (user_function (m_fibers s f))))) s)"

section \<open>Initialisation\<close>

definition UserScheduler :: "(nat \<Rightarrow> fiber_local_storage) \<Rightarrow> (address \<Rightarrow> u32) \<Rightarrow> user_scheduler" where
  "UserScheduler fibers words =
    \<lparr>m_scheduler_lock = False, m_scheduler_thread_table = replicate MaxCoreCount 0,
     m_scheduler_fiber_table = replicate MaxCoreCount 0,
     m_links = \<lparr>m_prev = (\<lambda>n. n), m_next = (\<lambda>n. n)\<rparr>, m_fibers = fibers, m_words = words,
     m_core_mask = 0, m_core_count = 0, m_active_cores = 0, m_runnable_fibers = 0,
     m_handle_table = HandleTable, UserFiberLocalAllocator = FixedObjectAllocator MaxThreadCount\<rparr>"

text \<open>
  \<open>Allocate\<close> and the constructor of \<open>FiberLocalStorage\<close>, which sets up the two nodes and the list
  head and leaves the other fields as the memory had them.
\<close>

definition allocate_fiber :: "user_scheduler \<Rightarrow> (nat option \<times> user_scheduler) outcome" where
  "allocate_fiber s =
    and_then (Allocate () (UserFiberLocalAllocator s)) (\<lambda>(r, a).
    let s = s\<lparr>UserFiberLocalAllocator := a\<rparr> in
    case r of None \<Rightarrow> Inr (None, s)
    | Some f \<Rightarrow> Inr (Some f, links_update (IntrusiveListNode (WaitList f))
        (links_update (IntrusiveListNode (WaitNode f))
        (links_update (IntrusiveListNode (SchedulerNode f)) s))))"

text \<open>\<open>new_thread i\<close>: the handle \<open>CreateThread\<close> returns for core \<open>i\<close>.\<close>

definition create_worker :: "(nat \<Rightarrow> address) \<Rightarrow> nat \<Rightarrow> user_scheduler outcome \<Rightarrow> user_scheduler outcome" where
  "create_worker new_thread i r = and_then r (\<lambda>s.
    if length (m_scheduler_thread_table s) \<le> i then Inl OutOfBounds
    else
      let s = s\<lparr>m_scheduler_thread_table := (m_scheduler_thread_table s)[i := new_thread i]\<rparr> in
      and_then (dd_assert (new_thread i \<noteq> - 1) s) (\<lambda>s.
      and_then (core_bit (of_nat i)) (\<lambda>secondary_mask. Inr s)))"

definition UserScheduler_Initialize ::
  "u64 \<Rightarrow> address option \<Rightarrow> address \<Rightarrow> address \<Rightarrow> (nat \<Rightarrow> address) \<Rightarrow> user_scheduler \<Rightarrow> user_scheduler outcome" where
  "UserScheduler_Initialize cores main_thread_handle main_fiber scheduler_fiber new_thread s =
    (let core_count = CountOneBits64 cores;
         s = s\<lparr>m_active_cores := core_count, m_core_count := core_count, m_core_mask := cores,
               m_handle_table := Initialize (m_handle_table s)\<rparr> in
     and_then (case main_thread_handle of None \<Rightarrow> Inl AssertFailed | Some h \<Rightarrow> Inr h) (\<lambda>h.
     let s = s\<lparr>m_scheduler_thread_table := (m_scheduler_thread_table s)[0 := h]\<rparr> in
     and_then (allocate_fiber s) (\<lambda>(p, s).
     and_then (deref p) (\<lambda>f.
     let s = fiber_update f (\<lambda>x. x\<lparr>priority := 2, current_core := 0, core_mask := 1,
               fiber_state := Running, activity_level := ActivityLevel_Schedulable,
               win32_fiber_handle := main_fiber\<rparr>) s in
     and_then (dd_assert (main_fiber \<noteq> 0) s) (\<lambda>s.
     let s = s\<lparr>m_scheduler_fiber_table := (m_scheduler_fiber_table s)[0 := scheduler_fiber]\<rparr> in
     and_then (dd_assert (scheduler_fiber \<noteq> 0) s) (\<lambda>s.
     and_then (ReserveHandle (Some f) (m_handle_table s)) (\<lambda>(h, t).
     and_then (case h of None \<Rightarrow> Inl AssertFailed | Some h \<Rightarrow> Inr h) (\<lambda>h.
     let s = fiber_update f (ukern_fiber_handle_update (\<lambda>_. h)) (s\<lparr>m_handle_table := t\<rparr>);
         s = SetInitialFiberNameUnsafe f s
     in fold (create_worker new_thread) [1..<unat core_count] (Inr s)))))))))"

definition InitializeUKern ::
  "u64 \<Rightarrow> address option \<Rightarrow> address \<Rightarrow> address \<Rightarrow> (nat \<Rightarrow> address) \<Rightarrow> user_scheduler \<Rightarrow> user_scheduler outcome" where
  "InitializeUKern cores main_thread_handle main_fiber scheduler_fiber new_thread s =
    UserScheduler_Initialize cores main_thread_handle main_fiber scheduler_fiber new_thread s"

section \<open>Thread calls\<close>

text \<open>\<open>new_fiber\<close>: what \<open>CreateFiber\<close> returns. The handle is returned with the result code.\<close>

definition CreateThreadImpl ::
  "address \<Rightarrow> u64 \<Rightarrow> u64 \<Rightarrow> int \<Rightarrow> u32 \<Rightarrow> address \<Rightarrow> user_scheduler
    \<Rightarrow> ((u32 \<times> u32 option) call \<times> user_scheduler) outcome" where
  "CreateThreadImpl thread_func arg bytes prio core_id new_fiber s =
    (if thread_func = nullptr then Inr (Returned (ResultInvalidThreadFunctionPointer, None), s)
     else if bytes = 0 then Inr (Returned (ResultInvalidStackSize, None), s)
     else if \<not> (- 2 \<le> prio \<and> prio \<le> 2) then Inr (Returned (ResultInvalidPriority, None), s)
     else and_then (core_bit core_id) (\<lambda>flag.
     if flag AND m_core_mask s = 0 then Inr (Returned (ResultInvalidCoreId, None), s)
     else
       let s = AcquireSRWLockExclusive s in
       and_then (allocate_fiber s) (\<lambda>(p, s).
       case p of None \<Rightarrow> return_locked (ResultThreadStorageExhaustion, None) s
       | Some f \<Rightarrow>
         and_then (ReserveHandle (Some f) (m_handle_table s)) (\<lambda>(h, t).
         let s = s\<lparr>m_handle_table := t\<rparr> in
         case h of None \<Rightarrow> return_locked (ResultHandleExhaustion, None) s
         | Some h \<Rightarrow>
           let s = fiber_update f (\<lambda>x. x\<lparr>ukern_fiber_handle := h,
                 priority := prio + WindowsToUKernPriorityOffset, stack_size := bytes,
                 core_mask := flag, user_arg := arg, user_function := thread_func,
                 fiber_state := Suspended, activity_level := ActivityLevel_Suspended\<rparr>) s;
               s = SetInitialFiberNameUnsafe f s;
               s = fiber_update f (win32_fiber_handle_update (\<lambda>_. new_fiber)) s in
           and_then (dd_assert (new_fiber \<noteq> 0) s) (\<lambda>s.
           let s = links_update (PushBack SuspendList (SchedulerNode f)) s in
           return_locked (ResultSuccess, Some (ukern_fiber_handle (m_fibers s f))) s)))))"

definition SetPriorityImpl :: "u32 \<Rightarrow> int \<Rightarrow> user_scheduler \<Rightarrow> (u32 call \<times> user_scheduler) outcome" where
  "SetPriorityImpl handle prio s =
    (if - 2 \<le> prio \<and> prio \<le> 2 then Inr (Returned ResultInvalidPriority, s)
     else and_then (GetFiberByHandle handle s) (\<lambda>p.
     case p of None \<Rightarrow> Inr (Returned ResultInvalidHandle, s)
     | Some f \<Rightarrow>
       let s = AcquireSRWLockExclusive s in
       if priority (m_fibers s f) = prio then return_locked ResultSamePriority s
       else
         let s = fiber_update f (priority_update (\<lambda>_. prio)) s;
             s = (if fiber_state (m_fibers s f) = Scheduled
                  then AddToSchedulerUnsafe f (links_update (Unlink (SchedulerNode f)) s) else s)
         in return_locked ResultSuccess s))"

definition SetCoreMaskImpl :: "u32 \<Rightarrow> u64 \<Rightarrow> user_scheduler \<Rightarrow> (u32 call \<times> user_scheduler) outcome" where
  "SetCoreMaskImpl handle new_mask s =
    and_then (GetFiberByHandle handle s) (\<lambda>p.
    case p of None \<Rightarrow> Inr (Returned ResultInvalidHandle, s)
    | Some f \<Rightarrow>
      let s = AcquireSRWLockExclusive s in
      if core_mask (m_fibers s f) = new_mask then return_locked ResultSameCoreMask s
      else
        let s = fiber_update f (core_mask_update (\<lambda>_. new_mask)) s;
            s = (if fiber_state (m_fibers s f) = Scheduled
                 then AddToSchedulerUnsafe f (links_update (Unlink (SchedulerNode f)) s) else s)
        in return_locked ResultSuccess s)"

definition SetActivityImpl :: "u32 \<Rightarrow> u16 \<Rightarrow> user_scheduler \<Rightarrow> (u32 call \<times> user_scheduler) outcome" where
  "SetActivityImpl handle level s =
    and_then (GetFiberByHandle handle s) (\<lambda>p.
    case p of None \<Rightarrow> Inr (Returned ResultInvalidHandle, s)
    | Some f \<Rightarrow>
      let s = AcquireSRWLockExclusive s in
      if activity_level (m_fibers s f) = level then return_locked ResultSameActivityLevel s
      else
        let s = fiber_update f (activity_level_update (\<lambda>_. level)) s;
            s = (if fiber_state (m_fibers s f) = Scheduled \<or> fiber_state (m_fibers s f) = Suspended
                 then AddToSchedulerUnsafe f (links_update (Unlink (SchedulerNode f)) s) else s)
        in return_locked ResultSuccess s)"

definition SleepThreadImpl :: "nat \<Rightarrow> u64 \<Rightarrow> user_scheduler \<Rightarrow> (unit call \<times> user_scheduler) outcome" where
  "SleepThreadImpl this absolute_timeout s =
    (let s = AcquireSRWLockExclusive s;
         s = (if absolute_timeout \<noteq> 0
              then fiber_update this (timeout_update (\<lambda>_. absolute_timeout)) s else s)
     in switch_to_scheduler this ReturnVoid s)"

text \<open>One turn of the loop of \<open>ExitThreadImpl\<close>: it ends when the handle has become invalid.\<close>

definition ExitThreadImpl_turn :: "nat \<Rightarrow> u32 \<Rightarrow> user_scheduler \<Rightarrow> (unit call \<times> user_scheduler) outcome" where
  "ExitThreadImpl_turn this handle s =
    and_then (GetFiberByHandle handle s) (\<lambda>exit_fiber.
    case exit_fiber of None \<Rightarrow> Inr (Returned (), s)
    | Some f \<Rightarrow> SleepThreadImpl this 0 s)"

section \<open>The thread interface\<close>

text \<open>\<open>ukern_threadapi.cpp\<close>. The \<open>u32\<close> priorities are read as \<open>s32\<close> by the calls.\<close>

definition CreateThread ::
  "address \<Rightarrow> u64 \<Rightarrow> u64 \<Rightarrow> u32 \<Rightarrow> u32 \<Rightarrow> address \<Rightarrow> user_scheduler
    \<Rightarrow> ((u32 \<times> u32 option) call \<times> user_scheduler) outcome" where
  "CreateThread thread_func arg bytes prio core_id new_fiber s =
    CreateThreadImpl thread_func arg bytes (sint prio) core_id new_fiber s"

definition ExitThread_turn :: "nat \<Rightarrow> u32 \<Rightarrow> user_scheduler \<Rightarrow> (unit call \<times> user_scheduler) outcome" where
  "ExitThread_turn this handle s = ExitThreadImpl_turn this handle s"

definition StartThread :: "u32 \<Rightarrow> user_scheduler \<Rightarrow> (u32 call \<times> user_scheduler) outcome" where
  "StartThread handle s = SetActivityImpl handle ActivityLevel_Schedulable s"

definition ResumeThread :: "u32 \<Rightarrow> user_scheduler \<Rightarrow> (u32 call \<times> user_scheduler) outcome" where
  "ResumeThread handle s = SetActivityImpl handle ActivityLevel_Schedulable s"

definition SuspendThread :: "u32 \<Rightarrow> user_scheduler \<Rightarrow> (u32 call \<times> user_scheduler) outcome" where
  "SuspendThread handle s = SetActivityImpl handle ActivityLevel_Suspended s"

definition SetThreadName :: "u32 \<Rightarrow> string option \<Rightarrow> user_scheduler \<Rightarrow> user_scheduler outcome" where
  "SetThreadName handle name s =
    and_then (GetFiberByHandle handle s) (\<lambda>p.
    case p of None \<Rightarrow> Inl AssertFailed
    | Some f \<Rightarrow> (case name of None \<Rightarrow> Inr (SetInitialFiberNameUnsafe f s)
      | Some n \<Rightarrow> Inr (fiber_update f (fiber_name_storage_update (\<lambda>_. strncpy n MaxFiberNameLength)) s)))"

definition SetThreadNamePointer :: "u32 \<Rightarrow> string option \<Rightarrow> user_scheduler \<Rightarrow> user_scheduler outcome" where
  "SetThreadNamePointer handle name s =
    and_then (GetFiberByHandle handle s) (\<lambda>p.
    case p of None \<Rightarrow> Inl AssertFailed
    | Some f \<Rightarrow> (case name of None \<Rightarrow> Inr (SetInitialFiberNameUnsafe f s)
      | Some n \<Rightarrow> Inr (fiber_update f (fiber_name_update (\<lambda>_. n)) s)))"

definition SetThreadPriority :: "u32 \<Rightarrow> u32 \<Rightarrow> user_scheduler \<Rightarrow> (u32 call \<times> user_scheduler) outcome" where
  "SetThreadPriority handle prio s = SetPriorityImpl handle (sint prio) s"

definition SetThreadCoreMask :: "u32 \<Rightarrow> u64 \<Rightarrow> user_scheduler \<Rightarrow> (u32 call \<times> user_scheduler) outcome" where
  "SetThreadCoreMask handle new_mask s = SetCoreMaskImpl handle new_mask s"

definition Sleep :: "timestamp \<Rightarrow> int \<Rightarrow> nat \<Rightarrow> int \<Rightarrow> user_scheduler \<Rightarrow> (unit call \<times> user_scheduler) outcome" where
  "Sleep t now this timeout_span s =
    and_then (GetAbsoluteTimeToWakeup t now timeout_span) (\<lambda>w. SleepThreadImpl this (word_of_int w) s)"

definition YieldThread :: "nat \<Rightarrow> user_scheduler \<Rightarrow> (unit call \<times> user_scheduler) outcome" where
  "YieldThread this s = SleepThreadImpl this 0 s"

end
