(* ===== verification/Scheduler_Wait.thy ===== *)
theory Scheduler_Wait
  imports Scheduler
begin

text \<open>
  The waiting and waking calls of \<open>ukern_scheduler.cpp\<close> (locks, condition variable keys and wait
  addresses) and the interface \<open>ukern_synchronizationapi.cpp\<close> over them. \<open>this\<close> is the calling
  fiber. Arbitrating a lock, the waiters hang on \<open>wait_list\<close> of the fiber that owns it; waiting on
  a key or an address, the first waiter hangs on \<open>m_wait_list\<close> and the others on its
  \<open>wait_list\<close>.
\<close>

section \<open>Locks\<close>

definition ArbitrateLockImpl :: "nat \<Rightarrow> u32 \<Rightarrow> address \<Rightarrow> u32 \<Rightarrow> user_scheduler \<Rightarrow> (u32 call \<times> user_scheduler) outcome" where
  "ArbitrateLockImpl this handle lock tag s =
    (if lock = nullptr then Inr (Returned ResultInvalidAddress, s)
     else
       let s = AcquireSRWLockExclusive s in
       and_then (GetFiberByHandle handle s) (\<lambda>p.
       if p = None \<or> p = Some this then return_locked ResultInvalidHandle s
       else and_then (load lock s) (\<lambda>address_tag.
       if address_tag \<noteq> handle OR HasChildWaitersBit then return_locked ResultInvalidLockAddressValue s
       else
         let s = fiber_update this (\<lambda>x. x\<lparr>waitable := Some LockArbiter, lock_address := lock,
               wait_tag := tag, fiber_state := Waiting\<rparr>) s;
             s = links_update (PushBack (WaitList (the p)) (WaitNode this)) s;
             s = links_update (Unlink (SchedulerNode this)) s;
             s = links_update (PushBack SuspendList (SchedulerNode this)) s
         in switch_to_scheduler this (ReturnResult ResultSuccess) s)))"

definition ArbitrateUnlockImpl :: "nat \<Rightarrow> address \<Rightarrow> user_scheduler \<Rightarrow> (u32 call \<times> user_scheduler) outcome" where
  "ArbitrateUnlockImpl this lock s =
    (if lock = nullptr then Inr (Returned ResultInvalidAddress, s)
     else
       let s = AcquireSRWLockExclusive s in
       if IsEmpty (m_links s) (WaitList this) then return_locked ResultRequiresLock s
       else and_then (load lock s) (\<lambda>v.
       if ukern_fiber_handle (m_fibers s this) \<noteq> v AND NOT HasChildWaitersBit
       then return_locked ResultInvalidLockAddressValue s
       else and_then (ReleaseLockWaitListUnsafe this s) (\<lambda>s. return_locked ResultSuccess s)))"

section \<open>Condition variable keys\<close>

text \<open>The search for the fiber at the head of a key or an address in \<open>m_wait_list\<close>.\<close>

definition find_waiter :: "address \<Rightarrow> user_scheduler \<Rightarrow> (nat option \<times> user_scheduler) outcome" where
  "find_waiter a s = for_fibers snd SchedulerWaitList (\<lambda>waiting_fiber (r, s).
    Inr (if wait_address (m_fibers s waiting_fiber) = a then (True, (Some waiting_fiber, s))
         else (False, (r, s)))) (None, s)"

definition WaitKeyImpl :: "nat \<Rightarrow> address \<Rightarrow> address \<Rightarrow> u32 \<Rightarrow> int \<Rightarrow> user_scheduler \<Rightarrow> (u32 call \<times> user_scheduler) outcome" where
  "WaitKeyImpl this lock cv_key tag absolute_timeout s =
    (if lock = nullptr then Inr (Returned ResultInvalidAddress, s)
     else if cv_key = nullptr then Inr (Returned ResultInvalidAddress, s)
     else
       let s = AcquireSRWLockExclusive s in
       if IsEmpty (m_links s) (WaitList this) then return_locked ResultRequiresLock s
       else and_then (load lock s) (\<lambda>v.
       if ukern_fiber_handle (m_fibers s this) \<noteq> v then return_locked ResultInvalidLockAddressValue s
       else
         and_then (ReleaseLockWaitListUnsafe this s) (\<lambda>s.
         and_then (store cv_key 1 s) (\<lambda>s.
         let (result, s) =
               (if absolute_timeout = 0 then (ResultTimeout, s)
                else (ResultSuccess, fiber_update this (\<lambda>x. x\<lparr>waitable := Some KeyArbiter,
                  wait_address := cv_key, lock_address := lock, wait_tag := tag,
                  fiber_state := Waiting, timeout := word_of_int absolute_timeout\<rparr>) s)) in
         and_then (find_waiter cv_key s) (\<lambda>(p, s).
         let s = (case p of None \<Rightarrow> s
               | Some parent \<Rightarrow> links_update (PushBack (WaitList parent) (WaitNode this)) s);
             s = (if IsLinked (m_links s) (WaitNode this)
                  then links_update (PushBack SchedulerWaitList (SchedulerNode this))
                    (links_update (Unlink (SchedulerNode this)) s)
                  else s)
         in switch_to_scheduler this (ReturnResult result) s)))))"

text \<open>\<open>GetFiberByHandle\<close> is called with the mask instead of the handle in the lock word.\<close>

definition SwapLockForSignalKey :: "nat \<Rightarrow> user_scheduler \<Rightarrow> user_scheduler outcome" where
  "SwapLockForSignalKey waiting_fiber s =
    and_then (load (lock_address (m_fibers s waiting_fiber)) s) (\<lambda>prev_tag.
    let tag = (if prev_tag \<noteq> 0 then wait_tag (m_fibers s waiting_fiber) OR HasChildWaitersBit
               else wait_tag (m_fibers s waiting_fiber)) in
    and_then (store (lock_address (m_fibers s waiting_fiber)) tag s) (\<lambda>s.
    if prev_tag \<noteq> 0 then
      and_then (GetFiberByHandle (NOT HasChildWaitersBit) s) (\<lambda>p.
      and_then (deref p) (\<lambda>lock_fiber.
      Inr (links_update (PushBack (WaitList lock_fiber) (WaitNode waiting_fiber)) s)))
    else
      and_then (deref (waitable (m_fibers s waiting_fiber))) (\<lambda>w.
      EndWait w waiting_fiber ResultSuccess s)))"

text \<open>
  \<open>hand_over\<close> is the end of \<open>SignalKeyImpl\<close> and of the three \<open>WakeByAddress\<close> calls: the first
  waiter left becomes the head of the key or address.
\<close>

definition hand_over :: "nat \<Rightarrow> user_scheduler \<Rightarrow> user_scheduler outcome" where
  "hand_over parent s =
    (if IsEmpty (m_links s) (WaitList parent) then Inr s
     else and_then (pop_waiter parent s) (\<lambda>(next_parent, s).
       and_then (transfer_waiters parent next_parent s) (\<lambda>s.
       Inr (links_update (PushBack SchedulerWaitList (SchedulerNode next_parent))
         (links_update (Unlink (SchedulerNode parent)) s)))))"

definition SignalKeyImpl :: "address \<Rightarrow> u32 \<Rightarrow> user_scheduler \<Rightarrow> (u32 call \<times> user_scheduler) outcome" where
  "SignalKeyImpl cv_key signal_count s =
    (if cv_key = nullptr then Inr (Returned ResultInvalidAddress, s)
     else
       let s = AcquireSRWLockExclusive s in
       if signal_count = 0 then
         and_then (store cv_key 0 s) (\<lambda>s. return_locked ResultSuccess s)
       else and_then (find_waiter cv_key s) (\<lambda>(p, s).
       case p of None \<Rightarrow> return_locked ResultInvalidAddress s
       | Some cv_fiber \<Rightarrow>
         and_then (SwapLockForSignalKey cv_fiber s) (\<lambda>s.
         and_then (for_wait_nodes snd cv_fiber (\<lambda>n (i, s).
             if signal_count \<le> i then Inr (True, (i, s))
             else
               let s = links_update (Unlink n) s in
               and_then (wait_parent n) (\<lambda>waiting_fiber.
               and_then (SwapLockForSignalKey waiting_fiber s) (\<lambda>s. Inr (False, (i + 1, s)))))
           (1, s)) (\<lambda>(i, s).
         and_then (hand_over cv_fiber s) (\<lambda>s.
         and_then (store cv_key 0 s) (\<lambda>s. return_locked ResultSuccess s))))))"

section \<open>Wait addresses\<close>

text \<open>The part the two waiting calls share: register the fiber under the address.\<close>

definition wait_on :: "nat \<Rightarrow> address \<Rightarrow> int \<Rightarrow> user_scheduler \<Rightarrow> user_scheduler outcome" where
  "wait_on this a absolute_timeout s =
    (let s = fiber_update this (\<lambda>x. x\<lparr>waitable := Some WaitAddressArbiter, wait_address := a,
           fiber_state := Waiting, timeout := word_of_int absolute_timeout\<rparr>) s in
     and_then (find_waiter a s) (\<lambda>(p, s).
     case p of None \<Rightarrow> Inr (links_update (PushBack SchedulerWaitList (SchedulerNode this)) s)
     | Some address_fiber \<Rightarrow>
         Inr (links_update (PushBack (WaitList address_fiber) (WaitNode this)) s)))"

definition WaitForAddressIfEqualImpl :: "nat \<Rightarrow> address \<Rightarrow> u32 \<Rightarrow> int \<Rightarrow> user_scheduler \<Rightarrow> (u32 call \<times> user_scheduler) outcome" where
  "WaitForAddressIfEqualImpl this a v absolute_timeout s =
    (if a = nullptr then Inr (Returned ResultInvalidAddress, s)
     else
       let s = AcquireSRWLockExclusive s in
       and_then (load a s) (\<lambda>w.
       and_then (if w \<noteq> v then Inr (ResultInvalidWaitAddressValue, s)
                 else if absolute_timeout \<le> 0 then Inr (ResultTimeout, s)
                 else and_then (wait_on this a absolute_timeout s) (\<lambda>s. Inr (ResultSuccess, s)))
         (\<lambda>(result, s). switch_to_scheduler this (ReturnResult result) s)))"

definition WaitForAddressIfLessThanImpl ::
  "nat \<Rightarrow> address \<Rightarrow> u32 \<Rightarrow> int \<Rightarrow> bool \<Rightarrow> user_scheduler \<Rightarrow> (u32 call \<times> user_scheduler) outcome" where
  "WaitForAddressIfLessThanImpl this a v absolute_timeout do_decrement s =
    (if a = nullptr then Inr (Returned ResultInvalidAddress, s)
     else
       let s = AcquireSRWLockExclusive s in
       and_then (load a s) (\<lambda>wait_value.
       and_then (if do_decrement then store a (wait_value - 1) s else Inr s) (\<lambda>s.
       and_then (if v \<le> wait_value then Inr (ResultInvalidWaitAddressValue, s)
                 else if absolute_timeout \<le> 0 then Inr (ResultTimeout, s)
                 else and_then (wait_on this a absolute_timeout s) (\<lambda>s. Inr (ResultSuccess, s)))
         (\<lambda>(result, s). switch_to_scheduler this (ReturnResult result) s))))"

text \<open>
  The end of the three waking calls: the head of the address, then \<open>count\<close> more (the comparison
  is \<open>count < i\<close>, so one more than asked for), then the hand-over.
\<close>

definition end_wait :: "nat \<Rightarrow> user_scheduler \<Rightarrow> user_scheduler outcome" where
  "end_wait f s = and_then (deref (waitable (m_fibers s f))) (\<lambda>w. EndWait w f ResultSuccess s)"

definition wake_waiters :: "nat \<Rightarrow> u32 \<Rightarrow> user_scheduler \<Rightarrow> user_scheduler outcome" where
  "wake_waiters address_fiber cnt s =
    and_then (end_wait address_fiber s) (\<lambda>s.
    and_then (for_wait_nodes snd address_fiber (\<lambda>n (i, s).
        if cnt < i then Inr (True, (i, s))
        else and_then (wait_parent n) (\<lambda>waiting_fiber.
          and_then (end_wait waiting_fiber s) (\<lambda>s.
          Inr (False, (i + 1, links_update (Unlink n) s)))))
      (1, s)) (\<lambda>(i, s).
    hand_over address_fiber s))"

definition WakeByAddressImpl :: "address \<Rightarrow> u32 \<Rightarrow> user_scheduler \<Rightarrow> (u32 call \<times> user_scheduler) outcome" where
  "WakeByAddressImpl a cnt s =
    (if a = nullptr then Inr (Returned ResultInvalidAddress, s)
     else
       let s = AcquireSRWLockExclusive s in
       if cnt = 0 then return_locked ResultSuccess s
       else and_then (find_waiter a s) (\<lambda>(p, s).
       case p of None \<Rightarrow> return_locked ResultNoWaiters s
       | Some address_fiber \<Rightarrow>
         and_then (wake_waiters address_fiber cnt s) (\<lambda>s. return_locked ResultSuccess s)))"

definition WakeByAddressIncrementEqualImpl ::
  "address \<Rightarrow> u32 \<Rightarrow> u32 \<Rightarrow> user_scheduler \<Rightarrow> (u32 call \<times> user_scheduler) outcome" where
  "WakeByAddressIncrementEqualImpl a v cnt s =
    (if a = nullptr then Inr (Returned ResultInvalidAddress, s)
     else
       let s = AcquireSRWLockExclusive s in
       and_then (load a s) (\<lambda>w.
       if w \<noteq> v then return_locked ResultValueOutOfRange s
       else and_then (store a (v + 1) s) (\<lambda>s.
       and_then (find_waiter a s) (\<lambda>(p, s).
       and_then (deref p) (\<lambda>address_fiber.
       and_then (wake_waiters address_fiber cnt s) (\<lambda>s. return_locked ResultSuccess s))))))"

text \<open>The number of waiters under the head, plus one.\<close>

definition count_waiters :: "nat \<Rightarrow> user_scheduler \<Rightarrow> (u32 \<times> user_scheduler) outcome" where
  "count_waiters address_fiber s =
    for_wait_nodes snd address_fiber (\<lambda>n (i, s). Inr (False, (i + 1, s))) (1, s)"

definition WakeByAddressModifyLessThanImpl ::
  "address \<Rightarrow> u32 \<Rightarrow> u32 \<Rightarrow> user_scheduler \<Rightarrow> (u32 call \<times> user_scheduler) outcome" where
  "WakeByAddressModifyLessThanImpl a v cnt s =
    (if a = nullptr then Inr (Returned ResultInvalidAddress, s)
     else
       let s = AcquireSRWLockExclusive s in
       and_then (load a s) (\<lambda>w.
       if w \<noteq> v then return_locked ResultValueOutOfRange s
       else and_then (find_waiter a s) (\<lambda>(p, s).
       and_then (case p of None \<Rightarrow> Inr 1
                 | Some address_fiber \<Rightarrow>
                     if 0 < cnt then and_then (count_waiters address_fiber s) (\<lambda>(i, s).
                       Inr (if i < cnt then - 1 else 0))
                     else Inr (- 1)) (\<lambda>signal.
       and_then (if signal \<noteq> 0 then store a (v + signal) s else Inr s) (\<lambda>s.
       and_then (deref p) (\<lambda>address_fiber.
       and_then (wake_waiters address_fiber cnt s) (\<lambda>s. return_locked ResultSuccess s)))))))"

section \<open>The synchronisation interface\<close>

definition ArbitrationType_WaitIfLessThan :: u32 where "ArbitrationType_WaitIfLessThan = 0"

definition ArbitrationType_DecrementWaitIfLessThan :: u32 where
  "ArbitrationType_DecrementWaitIfLessThan = 1"

definition ArbitrationType_WaitIfEqual :: u32 where "ArbitrationType_WaitIfEqual = 2"

definition SignalType_Signal :: u32 where "SignalType_Signal = 0"

definition SignalType_SignalAndIncrementIfEqual :: u32 where
  "SignalType_SignalAndIncrementIfEqual = 1"

definition SignalType_SignalAndModifyByWaiterCountIfEqual :: u32 where
  "SignalType_SignalAndModifyByWaiterCountIfEqual = 2"

definition ArbitrateLock :: "nat \<Rightarrow> u32 \<Rightarrow> address \<Rightarrow> u32 \<Rightarrow> user_scheduler \<Rightarrow> (u32 call \<times> user_scheduler) outcome" where
  "ArbitrateLock this handle a tag s = ArbitrateLockImpl this handle a tag s"

definition ArbitrateUnlock :: "nat \<Rightarrow> address \<Rightarrow> user_scheduler \<Rightarrow> (u32 call \<times> user_scheduler) outcome" where
  "ArbitrateUnlock this a s = ArbitrateUnlockImpl this a s"

definition WaitKey :: "timestamp \<Rightarrow> int \<Rightarrow> nat \<Rightarrow> address \<Rightarrow> address \<Rightarrow> u32 \<Rightarrow> int \<Rightarrow> user_scheduler \<Rightarrow> (u32 call \<times> user_scheduler) outcome" where
  "WaitKey t now this a cv_key tag timeout_ns s =
    and_then (GetAbsoluteTimeToWakeup t now timeout_ns) (\<lambda>w. WaitKeyImpl this a cv_key tag w s)"

definition SignalKey :: "address \<Rightarrow> u32 \<Rightarrow> user_scheduler \<Rightarrow> (u32 call \<times> user_scheduler) outcome" where
  "SignalKey cv_key cnt s = SignalKeyImpl cv_key cnt s"

definition WaitOnAddress :: "timestamp \<Rightarrow> int \<Rightarrow> nat \<Rightarrow> address \<Rightarrow> u32 \<Rightarrow> u32 \<Rightarrow> int \<Rightarrow> user_scheduler \<Rightarrow> (u32 call \<times> user_scheduler) outcome" where
  "WaitOnAddress t now this a arbitration_type v timeout_ns s =
    and_then (GetAbsoluteTimeToWakeup t now timeout_ns) (\<lambda>w.
    if arbitration_type = ArbitrationType_WaitIfEqual then WaitForAddressIfEqualImpl this a v w s
    else if arbitration_type = ArbitrationType_DecrementWaitIfLessThan
    then WaitForAddressIfLessThanImpl this a v w True s
    else if arbitration_type = ArbitrationType_WaitIfLessThan
    then WaitForAddressIfLessThanImpl this a v w False s
    else Inr (Returned ResultInvalidArbitrationType, s))"

definition WakeByAddress :: "address \<Rightarrow> u32 \<Rightarrow> u32 \<Rightarrow> u32 \<Rightarrow> user_scheduler \<Rightarrow> (u32 call \<times> user_scheduler) outcome" where
  "WakeByAddress a signal_type v cnt s =
    (if signal_type = SignalType_Signal then WakeByAddressImpl a cnt s
     else if signal_type = SignalType_SignalAndIncrementIfEqual
     then WakeByAddressIncrementEqualImpl a v cnt s
     else if signal_type = SignalType_SignalAndModifyByWaiterCountIfEqual
     then WakeByAddressModifyLessThanImpl a v cnt s
     else Inr (Returned ResultInvalidSignalType, s))"

end
