(* ===== verification/Scheduler_Props.thy ===== *)
theory Scheduler_Props
  imports Scheduler
begin

text \<open>
  The behaviour of the scheduler and of the thread calls (definitions in \<open>Fiber_State\<close> and
  \<open>Scheduler\<close>): which fiber a pass runs, when a resting core wakes up, what creating, starting,
  suspending and ending a thread do to the lists, and where the code does not do what it means to.
\<close>

section \<open>The scheduler lock\<close>

lemma lock_frame [simp]:
  "m_links (AcquireSRWLockExclusive s) = m_links s" "m_links (ReleaseSRWLockExclusive s) = m_links s"
  "m_fibers (AcquireSRWLockExclusive s) = m_fibers s" "m_fibers (ReleaseSRWLockExclusive s) = m_fibers s"
  "m_words (AcquireSRWLockExclusive s) = m_words s" "m_words (ReleaseSRWLockExclusive s) = m_words s"
  "m_handle_table (AcquireSRWLockExclusive s) = m_handle_table s"
  "m_handle_table (ReleaseSRWLockExclusive s) = m_handle_table s"
  "m_core_count (AcquireSRWLockExclusive s) = m_core_count s"
  "m_core_count (ReleaseSRWLockExclusive s) = m_core_count s"
  "m_core_mask (AcquireSRWLockExclusive s) = m_core_mask s"
  "m_core_mask (ReleaseSRWLockExclusive s) = m_core_mask s"
  "m_runnable_fibers (AcquireSRWLockExclusive s) = m_runnable_fibers s"
  "m_runnable_fibers (ReleaseSRWLockExclusive s) = m_runnable_fibers s"
  "m_active_cores (AcquireSRWLockExclusive s) = m_active_cores s"
  "m_active_cores (ReleaseSRWLockExclusive s) = m_active_cores s"
  "m_scheduler_fiber_table (AcquireSRWLockExclusive s) = m_scheduler_fiber_table s"
  "m_scheduler_fiber_table (ReleaseSRWLockExclusive s) = m_scheduler_fiber_table s"
  "UserFiberLocalAllocator (AcquireSRWLockExclusive s) = UserFiberLocalAllocator s"
  "UserFiberLocalAllocator (ReleaseSRWLockExclusive s) = UserFiberLocalAllocator s"
  "m_scheduler_lock (AcquireSRWLockExclusive s)" "\<not> m_scheduler_lock (ReleaseSRWLockExclusive s)"
  by (simp_all add: AcquireSRWLockExclusive_def ReleaseSRWLockExclusive_def)

lemma lock_lists [simp]:
  "sched_lists (AcquireSRWLockExclusive s) L W = sched_lists s L W"
  "sched_lists (ReleaseSRWLockExclusive s) L W = sched_lists s L W"
  "GetFiberByHandle h (AcquireSRWLockExclusive s) = GetFiberByHandle h s"
  "GetFiberByHandle h (ReleaseSRWLockExclusive s) = GetFiberByHandle h s"
  by (simp_all add: sched_lists_def GetFiberByHandle_def)

section \<open>Choosing a fiber\<close>

text \<open>When a fiber that is not waiting for anything may run on a core.\<close>

definition can_run :: "u64 \<Rightarrow> u64 \<Rightarrow> fiber_local_storage \<Rightarrow> bool" where
  "can_run flag time x \<longleftrightarrow>
    fiber_state x = Scheduled \<and> core_mask x AND flag \<noteq> 0 \<and> timeout x < time"

text \<open>
  A fiber that has been woken still has its \<open>waitable_object\<close> (only \<open>ReleaseLockWaitListUnsafe\<close>
  resets it), so a pass that picks it first cancels a wait that is over already. \<open>wait_over\<close>: for
  the arbiter that is left, cancelling only ends the wait once more.
\<close>

definition wait_over :: "user_scheduler \<Rightarrow> (nat \<Rightarrow> nat list) \<Rightarrow> nat \<Rightarrow> bool" where
  "wait_over s W f \<longleftrightarrow> waitable (m_fibers s f) \<in> {None, Some WaitAddressArbiter} \<or>
    waitable (m_fibers s f) = Some KeyArbiter \<and> W f = [] \<and> f \<notin> waiters W"

definition cancel_over :: "nat \<Rightarrow> user_scheduler \<Rightarrow> user_scheduler" where
  "cancel_over f s = (if waitable (m_fibers s f) = None then s else EndFiberWaitImpl f ResultTimeout s)"

lemma CancelWait_over:
  assumes "sched_lists s L W" and "wait_over s W f" and "waitable (m_fibers s f) = Some w"
  shows "CancelWait w f r s = Inr (EndFiberWaitImpl f r s)"
proof (cases "w = WaitAddressArbiter")
  case False
  then have w: "w = KeyArbiter" "W f = []" "f \<notin> waiters W" using assms(2,3) by (auto simp: wait_over_def)
  have "IsEmpty (m_links s) (WaitList f)"
    using IsEmpty_ring [OF lists_wait_ring [OF assms(1), of f]] w(2) by simp
  moreover have "unlinked (m_links s) (WaitNode f)"
    using rings_unlinked [OF assms(1) [unfolded sched_lists_def], of "WaitNode f"] w(3) by simp
  then have "\<not> IsLinked (m_links s) (WaitNode f)" by (simp add: IsLinked_def unlinked_def)
  ultimately show ?thesis using w(1) by (simp add: KeyArbiter_CancelWait_def Let_def)
qed simp

lemma IsSchedulable_over:
  assumes "sched_lists s L W" and "wait_over s W f" and "core_bit core = Inr b"
  shows "IsSchedulable f core time s =
    (if can_run b time (m_fibers s f) then Inr (True, cancel_over f s) else Inr (False, s))"
  using assms(3) CancelWait_over [OF assms(1,2)]
  by (auto simp: IsSchedulable_def can_run_def cancel_over_def Let_def split: option.split)

lemma IsSchedulable_not_scheduled:
  "fiber_state (m_fibers s f) \<noteq> Scheduled \<Longrightarrow> IsSchedulable f core time s = Inr (False, s)"
  by (simp add: IsSchedulable_def Let_def)

lemma cancel_timeouts_skip:
  assumes "sched_lists s L W" and "set (L SchedulerWaitList) \<subseteq> {..<MaxThreadCount}"
    and "\<And>f. f \<in> set (L SchedulerWaitList) \<Longrightarrow> fiber_state (m_fibers s f) \<noteq> Scheduled"
  shows "cancel_timeouts core tick s = Inr s"
proof -
  let ?body = "\<lambda>waiting_fiber s. and_then (IsSchedulable waiting_fiber core tick s) (\<lambda>(b, s).
    if \<not> b then Inr (False, s)
    else and_then (deref (waitable (m_fibers s waiting_fiber))) (\<lambda>w.
      and_then (CancelWait w waiting_fiber ResultTimeout s) (\<lambda>s. Inr (False, s))))"
  have skip: "?body f s = Inr (False, s)" if "f \<in> set (L SchedulerWaitList)" for f
    using IsSchedulable_not_scheduled [of s f core tick] assms(3) [OF that] by simp
  have "for_fibers (\<lambda>s. s) SchedulerWaitList ?body s = visit_fibers ?body (L SchedulerWaitList) s"
    using skip by (intro for_fibers_visit [where I = "\<lambda>t. t = s" and W = W]) (auto simp: assms(1,2))
  then show ?thesis using visit_fibers_skip [of "L SchedulerWaitList" ?body s] skip by (simp add: cancel_timeouts_def)
qed

lemma find_runnable_found [simp]: "find_runnable core tick l (Some f, s) = Inr (Some f, s)"
  by (simp add: find_runnable_def)

lemma find_first_found [simp]: "find_first core tick ls (Some f, s) = Inr (Some f, s)"
  by (induction ls) simp_all

text \<open>What the five loops find, and the state they leave.\<close>

definition found :: "nat option \<Rightarrow> user_scheduler \<Rightarrow> nat option \<times> user_scheduler" where
  "found r s = (r, case r of None \<Rightarrow> s | Some f \<Rightarrow> cancel_over f s)"

lemma find_runnable_spec:
  assumes "sched_lists s L W" and "is_scheduler_head h" and "set (L h) \<subseteq> {..<MaxThreadCount}"
    and "core_bit core = Inr b" and "\<And>f. f \<in> set (L h) \<Longrightarrow> wait_over s W f"
  shows "find_runnable core tick h (None, s) =
    Inr (found (find (\<lambda>f. can_run b tick (m_fibers s f)) (L h)) s)"
proof -
  let ?body = "\<lambda>runnable_fiber (r, s).
    and_then (IsSchedulable runnable_fiber core tick s) (\<lambda>(b, s).
    Inr (b, if b then (Some runnable_fiber, s) else (None, s)))"
  have step: "?body f (r, s) = (if can_run b tick (m_fibers s f)
      then and_then (Inr (cancel_over f s)) (\<lambda>s. Inr (True, (Some f, s))) else Inr (False, (None, s)))"
    if "f \<in> set (L h)" for f r
    using IsSchedulable_over [OF assms(1) assms(5) [OF that] assms(4), of tick] by simp
  have "for_fibers snd h ?body (None, s) = visit_fibers ?body (L h) (None, s)"
  proof (rule for_fibers_visit_until [where I = "\<lambda>t. snd t = s"])
    fix f t t'
    assume *: "f \<in> set (L h)" "snd t = s" "?body f t = Inr (False, t')"
    then show "snd t' = s \<and> m_links (snd t') = m_links (snd t)"
      using step [of f "fst t"] by (cases t) (auto split: if_splits)
  qed (use assms in auto)
  then show ?thesis
    using visit_fibers_until [of "L h" ?body s "\<lambda>f. can_run b tick (m_fibers s f)" "\<lambda>f. Inr (cancel_over f s)"] step
    by (simp add: find_runnable_def found_def split: option.split)
qed

lemma find_append: "find P (xs @ ys) = (case find P xs of None \<Rightarrow> find P ys | Some x \<Rightarrow> Some x)"
  by (induction xs) auto

lemma find_first_spec:
  assumes "sched_lists s L W" and "core_bit core = Inr b"
    and "\<forall>h\<in>set ls. is_scheduler_head h \<and> set (L h) \<subseteq> {..<MaxThreadCount} \<and> (\<forall>f\<in>set (L h). wait_over s W f)"
  shows "find_first core tick ls (None, s) =
    Inr (found (find (\<lambda>f. can_run b tick (m_fibers s f)) (concat (map L ls))) s)"
  using assms(3)
proof (induction ls)
  case (Cons h ls)
  have "find_runnable core tick h (None, s) =
      Inr (found (find (\<lambda>f. can_run b tick (m_fibers s f)) (L h)) s)"
    using Cons.prems by (intro find_runnable_spec [OF assms(1) _ _ assms(2)]) auto
  with Cons show ?case
    by (cases "find (\<lambda>f. can_run b tick (m_fibers s f)) (L h)") (simp_all add: find_append found_def)
qed (simp add: found_def)

text \<open>
  What the scheduler's lists hold for a pass: fibers of the allocator, in \<open>m_wait_list\<close> none in
  state Scheduled, and in the five lists none whose \<open>waitable_object\<close> is the arbiter of a lock, of a
  key others still wait on, or of a call that has returned. \<open>quiet\<close>: no fiber queued to run has a
  \<open>waitable_object\<close> at all.
\<close>

definition queued :: "(node \<Rightarrow> nat list) \<Rightarrow> nat list" where
  "queued L = concat (map L priority_lists)"

definition pass_ready :: "user_scheduler \<Rightarrow> (node \<Rightarrow> nat list) \<Rightarrow> (nat \<Rightarrow> nat list) \<Rightarrow> bool" where
  "pass_ready s L W \<longleftrightarrow> sched_lists s L W \<and> set (queued L) \<union> set (L SchedulerWaitList) \<subseteq> {..<MaxThreadCount} \<and>
    (\<forall>f\<in>set (queued L). wait_over s W f) \<and>
    (\<forall>f\<in>set (L SchedulerWaitList). fiber_state (m_fibers s f) \<noteq> Scheduled)"

definition quiet :: "user_scheduler \<Rightarrow> (node \<Rightarrow> nat list) \<Rightarrow> (nat \<Rightarrow> nat list) \<Rightarrow> bool" where
  "quiet s L W \<longleftrightarrow> sched_lists s L W \<and> set (queued L) \<union> set (L SchedulerWaitList) \<subseteq> {..<MaxThreadCount} \<and>
    (\<forall>f\<in>set (queued L). waitable (m_fibers s f) = None) \<and>
    (\<forall>f\<in>set (L SchedulerWaitList). fiber_state (m_fibers s f) \<noteq> Scheduled)"

lemma quiet_pass_ready: "quiet s L W \<Longrightarrow> pass_ready s L W"
  by (auto simp: quiet_def pass_ready_def wait_over_def)

lemma priority_lists_heads: "h \<in> set priority_lists \<Longrightarrow> is_scheduler_head h"
  by (auto simp: priority_lists_def)

lemma pass_chooses:
  assumes "pass_ready s L W" and "core_bit core = Inr b"
  shows "and_then (cancel_timeouts core tick s) (\<lambda>s. find_first core tick priority_lists (None, s)) =
    Inr (found (find (\<lambda>f. can_run b tick (m_fibers s f)) (queued L)) s)"
proof -
  have "cancel_timeouts core tick s = Inr s"
    using assms(1) by (intro cancel_timeouts_skip) (auto simp: pass_ready_def)
  moreover have "find_first core tick priority_lists (None, s) =
      Inr (found (find (\<lambda>f. can_run b tick (m_fibers s f)) (concat (map L priority_lists))) s)"
    using assms by (intro find_first_spec) (auto simp: pass_ready_def queued_def priority_lists_heads)
  ultimately show ?thesis by (simp add: queued_def)
qed

lemma scheduler_pass_ready:
  assumes "pass_ready s L W" and "core_bit core = Inr b"
  shows "scheduler_pass core tick s =
    (case find (\<lambda>f. can_run b tick (m_fibers s f)) (queued L) of
       None \<Rightarrow> Inr (None, s)
     | Some f \<Rightarrow> and_then (Dispatch_begin f core (cancel_over f s)) (\<lambda>s. Inr (Some f, s)))"
proof -
  have "scheduler_pass core tick s =
      and_then (and_then (cancel_timeouts core tick s) (\<lambda>s. find_first core tick priority_lists (None, s)))
        (\<lambda>(r, s). case r of None \<Rightarrow> Inr (None, s)
          | Some f \<Rightarrow> and_then (Dispatch_begin f core s) (\<lambda>s. Inr (Some f, s)))"
    by (simp add: scheduler_pass_def)
  also have "\<dots> = (case find (\<lambda>f. can_run b tick (m_fibers s f)) (queued L) of
       None \<Rightarrow> Inr (None, s)
     | Some f \<Rightarrow> and_then (Dispatch_begin f core (cancel_over f s)) (\<lambda>s. Inr (Some f, s)))"
    unfolding pass_chooses [OF assms] by (simp add: found_def split: option.split)
  finally show ?thesis .
qed

lemma find_in: "find P xs = Some x \<Longrightarrow> x \<in> set xs \<and> P x"
  by (auto simp: find_Some_iff)

lemma scheduler_pass_eq:
  assumes "quiet s L W" and "core_bit core = Inr b"
  shows "scheduler_pass core tick s =
    (case find (\<lambda>f. can_run b tick (m_fibers s f)) (queued L) of
       None \<Rightarrow> Inr (None, s)
     | Some f \<Rightarrow> and_then (Dispatch_begin f core s) (\<lambda>s. Inr (Some f, s)))"
proof -
  have "cancel_over f s = s" if "find P (queued L) = Some f" for f P
    using find_in [OF that] assms(1) by (auto simp: cancel_over_def quiet_def)
  then show ?thesis
    using scheduler_pass_ready [OF quiet_pass_ready [OF assms(1)] assms(2), of tick]
    by (simp split: option.split)
qed

lemma Dispatch_begin_spec:
  assumes "sched_lists s L W" and "core < m_core_count s"
  shows "\<exists>s'. Dispatch_begin f core s = Inr s' \<and> sched_lists s' (\<lambda>h. remove1 f (L h)) W \<and>
    m_fibers s' = (m_fibers s)(f := (m_fibers s f)\<lparr>fiber_state := Running, current_core := core\<rparr>) \<and>
    m_words s' = m_words s \<and> m_handle_table s' = m_handle_table s \<and> m_core_count s' = m_core_count s \<and>
    m_runnable_fibers s' = m_runnable_fibers s \<and> UserFiberLocalAllocator s' = UserFiberLocalAllocator s \<and>
    m_scheduler_lock s' = m_scheduler_lock s"
proof -
  let ?s = "fiber_update f (\<lambda>x. x\<lparr>fiber_state := Running, current_core := core\<rparr>) s"
  have "Dispatch_begin f core s = Inr (links_update (Unlink (SchedulerNode f)) ?s)"
    using assms(2) by (simp add: Dispatch_begin_def Let_def fiber_update_def)
  moreover have "sched_lists ?s L W" using assms(1) by (simp add: sched_lists_def)
  ultimately show ?thesis using lists_unlink_scheduler [of ?s L W f] by simp
qed

text \<open>Cancelling a wait that is over and dispatching the fiber: it only moves within the lists.\<close>

definition dispatched :: "u32 \<Rightarrow> fiber_local_storage \<Rightarrow> fiber_local_storage" where
  "dispatched core x = (if waitable x = None then x else x\<lparr>last_result := ResultTimeout\<rparr>)
    \<lparr>fiber_state := Running, current_core := core\<rparr>"

lemma sched_lists_cong:
  assumes "\<And>h. is_scheduler_head h \<Longrightarrow> L h = L' h" and "sched_lists s L W"
  shows "sched_lists s L' W"
proof -
  have "rings (m_links s) {h. is_head h} (list_view L W) = rings (m_links s) {h. is_head h} (list_view L' W)"
    by (rule rings_cong, rule list_view_cong) (use assms(1) in simp_all)
  then show ?thesis using assms(2) by (simp only: sched_lists_def)
qed

lemma cancel_over_lists:
  assumes "sched_lists s L W"
  shows "sched_lists (links_update (Unlink (SchedulerNode f)) (cancel_over f s)) (\<lambda>h. remove1 f (L h)) W"
proof -
  have same: "remove1 f (remove1 f (L h)) = remove1 f (L h)" if "is_scheduler_head h" for h
    using lists_distinct [OF assms that] by (intro remove1_idem) simp
  have "\<exists>L'. sched_lists (EndFiberWaitImpl f ResultTimeout s) L' W \<and>
      (\<forall>h. is_scheduler_head h \<longrightarrow> remove1 f (L' h) = remove1 f (L h))"
  proof (cases "list_for (m_fibers s f)")
    case None
    then have "m_links (EndFiberWaitImpl f ResultTimeout s) = m_links (links_update (Unlink (SchedulerNode f)) s)"
      by (simp add: EndFiberWaitImpl_eq AddToSchedulerUnsafe_links)
    then have "sched_lists (EndFiberWaitImpl f ResultTimeout s) (\<lambda>h. remove1 f (L h)) W"
      using lists_unlink_scheduler [OF assms, of f] lists_links_cong by blast
    then show ?thesis using same by blast
  next
    case (Some g)
    have "remove1 f (relist f g L h) = remove1 f (L h)" if "is_scheduler_head h" for h
      using same [OF that] lists_distinct [OF assms that]
      by (cases "h = g") (simp_all add: relist_def remove1_append)
    then show ?thesis using EndFiberWaitImpl_lists [OF assms Some] by blast
  qed
  then obtain L' where L': "sched_lists (EndFiberWaitImpl f ResultTimeout s) L' W"
    "\<And>h. is_scheduler_head h \<Longrightarrow> remove1 f (L' h) = remove1 f (L h)" by blast
  show ?thesis
  proof (cases "waitable (m_fibers s f) = None")
    case True
    then show ?thesis using lists_unlink_scheduler [OF assms, of f] by (simp add: cancel_over_def)
  next
    case False
    then show ?thesis
      using sched_lists_cong [OF L'(2) lists_unlink_scheduler [OF L'(1), of f]]
      by (simp only: cancel_over_def if_False)
  qed
qed

lemma dispatch_over:
  assumes "sched_lists s L W" and "core < m_core_count s"
  shows "\<exists>s'. Dispatch_begin f core (cancel_over f s) = Inr s' \<and> sched_lists s' (\<lambda>h. remove1 f (L h)) W \<and>
    s' = s\<lparr>m_links := m_links s', m_fibers := (m_fibers s)(f := dispatched core (m_fibers s f)),
      m_runnable_fibers := m_runnable_fibers s + (if waitable (m_fibers s f) = None \<or>
        activity_level (m_fibers s f) = ActivityLevel_Suspended then 0 else 1)\<rparr>"
proof -
  let ?s = "links_update (Unlink (SchedulerNode f))
    (fiber_update f (\<lambda>x. x\<lparr>fiber_state := Running, current_core := core\<rparr>) (cancel_over f s))"
  have "Dispatch_begin f core (cancel_over f s) = Inr ?s"
    using assms(2) by (simp add: Dispatch_begin_def Let_def fiber_update_def cancel_over_def)
  moreover have "sched_lists ?s (\<lambda>h. remove1 f (L h)) W"
    using cancel_over_lists [OF assms(1), of f] by (simp add: sched_lists_def)
  moreover have "?s = s\<lparr>m_links := m_links ?s, m_fibers := (m_fibers s)(f := dispatched core (m_fibers s f)),
      m_runnable_fibers := m_runnable_fibers s + (if waitable (m_fibers s f) = None \<or>
        activity_level (m_fibers s f) = ActivityLevel_Suspended then 0 else 1)\<rparr>"
    by (rule user_scheduler.equality)
      (simp_all add: cancel_over_def dispatched_def EndFiberWaitImpl_eq AddToSchedulerUnsafe_runnable)
  ultimately show ?thesis by blast
qed

section \<open>Resting\<close>

lemma earliest_spec:
  assumes "sched_lists s L W" and "is_scheduler_head h" and "set (L h) \<subseteq> {..<MaxThreadCount}"
    and "core_bit core = Inr b"
  shows "earliest core h (t, s) = Inr (fold (\<lambda>f m.
    if core_mask (m_fibers s f) AND b \<noteq> 0 \<and> timeout (m_fibers s f) < m then timeout (m_fibers s f) else m) (L h) t, s)"
proof -
  let ?body = "\<lambda>fiber (timeout_tick, s). and_then (core_bit core) (\<lambda>b.
    Inr (False, if core_mask (m_fibers s fiber) AND b \<noteq> 0 \<and> timeout (m_fibers s fiber) < timeout_tick
                then (timeout (m_fibers s fiber), s) else (timeout_tick, s)))"
  have "for_fibers snd h ?body (t, s) = visit_fibers ?body (L h) (t, s)"
    using assms by (intro for_fibers_visit [where I = "\<lambda>t. snd t = s" and W = W]) (auto split: if_splits)
  then show ?thesis
    using visit_fibers_fold [of "L h" ?body s "\<lambda>f m. if core_mask (m_fibers s f) AND b \<noteq> 0 \<and>
      timeout (m_fibers s f) < m then timeout (m_fibers s f) else m"] assms(4)
    by (simp add: earliest_def)
qed

lemma Min_insert2: "finite A \<Longrightarrow> Min (insert a (insert b A)) = Min (insert (min a b) A)"
  by (cases "A = {}") (simp_all add: min.assoc)

lemma fold_min:
  "fold (\<lambda>f m. if P f \<and> g f < m then g f else m) fs (t::'a::linorder) =
    Min (insert t {g f | f. f \<in> set fs \<and> P f})"
proof (induction fs arbitrary: t)
  case (Cons f fs)
  let ?A = "{g x | x. x \<in> set fs \<and> P x}"
  have A: "{g x | x. x \<in> set (f # fs) \<and> P x} = (if P f then insert (g f) ?A else ?A)" by auto
  have "finite ?A" by simp
  then have "Min (insert t {g x | x. x \<in> set (f # fs) \<and> P x}) =
      Min (insert (if P f then min t (g f) else t) ?A)"
    unfolding A using Min_insert2 [of ?A t "g f"] by (simp only: if_split) simp
  also have "(if P f then min t (g f) else t) = (if P f \<and> g f < t then g f else t)"
    by (auto simp: min_def not_less)
  finally show ?case using Cons.IH [of "if P f \<and> g f < t then g f else t"] by simp
qed simp

lemma earliest_of_spec:
  assumes "sched_lists s L W" and "core_bit core = Inr b"
    and "\<forall>h\<in>set ls. is_scheduler_head h \<and> set (L h) \<subseteq> {..<MaxThreadCount}"
  shows "earliest_of core ls (t, s) = Inr (fold (\<lambda>f m.
    if core_mask (m_fibers s f) AND b \<noteq> 0 \<and> timeout (m_fibers s f) < m then timeout (m_fibers s f) else m)
      (concat (map L ls)) t, s)"
  using assms(3)
proof (induction ls arbitrary: t)
  case (Cons h ls)
  then show ?case using earliest_spec [OF assms(1) _ _ assms(2), of h t] by simp
qed simp

section \<open>Properties of a pass\<close>

text \<open>
  C2. A pass of \<open>SchedulerFiberMain\<close> runs the first fiber that may run on this core in the order of
  the priorities, high to low, and first come first served within one: that fiber is taken off
  its list and is now running on this core. When there is none the pass changes nothing, and
  otherwise it changes the fiber, the links of the lists and \<open>m_runnable_fibers\<close> only. A fiber that
  was woken from a wait is picked by the same rule, but the pass sets its result to \<open>ResultTimeout\<close>
  and counts it as runnable again. \<open>pass_ready\<close> is what the lists must hold: no waiting fiber in
  state Scheduled, and no queued fiber whose \<open>waitable_object\<close> is a lock's arbiter, the arbiter of
  a key others wait on, or an object of a call that has returned.
\<close>

theorem scheduler_pass_spec:
  assumes "pass_ready s L W" and "unat core < 32" and "core < m_core_count s"
  shows "let choice = find (\<lambda>f. can_run (core_flag core) tick (m_fibers s f)) (queued L)
    in \<exists>s'. scheduler_pass core tick s = Inr (choice, s') \<and>
      (case choice of None \<Rightarrow> s' = s
       | Some f \<Rightarrow> sched_lists s' (\<lambda>h. remove1 f (L h)) W \<and>
           s' = s\<lparr>m_links := m_links s', m_fibers := (m_fibers s)(f := dispatched core (m_fibers s f)),
             m_runnable_fibers := m_runnable_fibers s + (if waitable (m_fibers s f) = None \<or>
               activity_level (m_fibers s f) = ActivityLevel_Suspended then 0 else 1)\<rparr>)"
proof -
  have b: "core_bit core = Inr (core_flag core)"
    using assms(2) by (simp add: core_bit_def)
  have l: "sched_lists s L W" using assms(1) by (simp add: pass_ready_def)
  show ?thesis
  proof (cases "find (\<lambda>f. can_run (core_flag core) tick (m_fibers s f)) (queued L)")
    case None
    then show ?thesis by (simp add: scheduler_pass_ready [OF assms(1) b])
  next
    case (Some f)
    obtain s' where "Dispatch_begin f core (cancel_over f s) = Inr s'" "sched_lists s' (\<lambda>h. remove1 f (L h)) W"
        "s' = s\<lparr>m_links := m_links s', m_fibers := (m_fibers s)(f := dispatched core (m_fibers s f)),
          m_runnable_fibers := m_runnable_fibers s + (if waitable (m_fibers s f) = None \<or>
            activity_level (m_fibers s f) = ActivityLevel_Suspended then 0 else 1)\<rparr>"
      using dispatch_over [OF l assms(3), of f] by blast
    then show ?thesis
      unfolding Let_def scheduler_pass_ready [OF assms(1) b] Some by (intro exI [of _ s']) simp
  qed
qed

text \<open>
  The tick at which a resting core next has to look for work is the least timeout of the fibers
  that may run on it, in the wait list and the five priority lists, or \<open>0xffffffffffffffff\<close>.
\<close>

theorem next_wakeup_spec:
  assumes "sched_lists s L W" and "unat core < 32"
    and "set (L SchedulerWaitList @ queued L) \<subseteq> {..<MaxThreadCount}"
  shows "next_wakeup core s = Inr (Min (insert 0xffffffffffffffff
    {timeout (m_fibers s f) | f. f \<in> set (L SchedulerWaitList @ queued L) \<and>
      core_mask (m_fibers s f) AND core_flag core \<noteq> 0}))"
proof -
  let ?b = "core_flag core"
  have "core_bit core = Inr ?b" using assms(2) by (simp add: core_bit_def)
  moreover have "\<forall>h\<in>set (SchedulerWaitList # priority_lists). is_scheduler_head h \<and> set (L h) \<subseteq> {..<MaxThreadCount}"
    using assms(3) by (auto simp: queued_def priority_lists_heads)
  ultimately have "earliest_of core (SchedulerWaitList # priority_lists) (0xffffffffffffffff, s) =
    Inr (fold (\<lambda>f m. if core_mask (m_fibers s f) AND ?b \<noteq> 0 \<and> timeout (m_fibers s f) < m
      then timeout (m_fibers s f) else m) (L SchedulerWaitList @ queued L) 0xffffffffffffffff, s)"
    using earliest_of_spec [OF assms(1), of core ?b "SchedulerWaitList # priority_lists"]
    by (simp add: queued_def del: earliest_of.simps)
  then show ?thesis
    unfolding next_wakeup_def
    using fold_min [of "\<lambda>f. core_mask (m_fibers s f) AND ?b \<noteq> 0" "\<lambda>f. timeout (m_fibers s f)"
      "L SchedulerWaitList @ queued L"] by simp
qed

section \<open>A running example\<close>

text \<open>
  Zeroed fiber storage and three fibers for core 0: two of normal priority and one of high
  priority, which came last.
\<close>

definition zero_fiber :: fiber_local_storage where
  "zero_fiber = \<lparr>priority = 0, current_core = 0, core_mask = 0, stack_size = 0, user_arg = 0,
    user_function = nullptr, ukern_fiber_handle = 0, win32_fiber_handle = 0, activity_level = 0,
    wait_tag = 0, lock_address = nullptr, wait_address = nullptr, waitable = None, timeout = 0,
    last_result = 0, fiber_state = Scheduled, fiber_name = [], fiber_name_storage = []\<rparr>"

definition blank :: user_scheduler where
  "blank = UserScheduler (\<lambda>_. zero_fiber) (\<lambda>_. 0)"

definition example_fiber :: "int \<Rightarrow> fiber_local_storage" where
  "example_fiber p = zero_fiber\<lparr>priority := p, core_mask := 1, activity_level := ActivityLevel_Schedulable\<rparr>"

definition example :: user_scheduler where
  "example = AddToSchedulerUnsafe 3 (AddToSchedulerUnsafe 2 (AddToSchedulerUnsafe 1
    (fiber_update 3 (\<lambda>_. example_fiber 4) (fiber_update 2 (\<lambda>_. example_fiber 2)
    (fiber_update 1 (\<lambda>_. example_fiber 2)
      (blank\<lparr>m_core_count := 4, m_active_cores := 4, m_core_mask := 15\<rparr>))))))"

definition example_lists :: "node \<Rightarrow> nat list" where
  "example_lists = (\<lambda>_. [])(NormalPriorityList := [1, 2], HighPriorityList := [3])"

lemma unlinked_lists:
  assumes "m_links s = \<lparr>m_prev = (\<lambda>n. n), m_next = (\<lambda>n. n)\<rparr>"
  shows "sched_lists s (\<lambda>_. []) (\<lambda>_. [])"
proof -
  have "list_view (\<lambda>_. []) (\<lambda>_. []) h = []" for h by (simp add: list_view_def split: node.split)
  then show ?thesis using assms by (simp add: sched_lists_def rings_def unlinked_def)
qed

lemma enlisted_upd: "is_scheduler_head h \<Longrightarrow> enlisted (L(h := xs)) \<subseteq> enlisted L \<union> set xs"
  by (auto simp: enlisted_def split: if_splits)

lemma enlisted_Nil [simp]: "enlisted (\<lambda>_. []) = {}"
  by (simp add: enlisted_def)

lemma example_sched_lists: "sched_lists example example_lists (\<lambda>_. [])"
proof -
  let ?b = "fiber_update 3 (\<lambda>_. example_fiber 4) (fiber_update 2 (\<lambda>_. example_fiber 2)
    (fiber_update 1 (\<lambda>_. example_fiber 2)
      (blank\<lparr>m_core_count := 4, m_active_cores := 4, m_core_mask := 15\<rparr>)))"
  have lf: "list_for (example_fiber 2) = Some NormalPriorityList"
    "list_for (example_fiber 4) = Some HighPriorityList"
    by (simp_all add: list_for_def example_fiber_def ActivityLevel_Suspended_def ActivityLevel_Schedulable_def)
  have "sched_lists ?b (\<lambda>_. []) (\<lambda>_. [])"
    by (rule unlinked_lists) (simp add: blank_def UserScheduler_def)
  then have "sched_lists (AddToSchedulerUnsafe 1 ?b) ((\<lambda>_. [])(NormalPriorityList := [] @ [1])) (\<lambda>_. [])"
    using lf by (intro AddToSchedulerUnsafe_lists) simp_all
  then have "sched_lists (AddToSchedulerUnsafe 2 (AddToSchedulerUnsafe 1 ?b))
      ((\<lambda>_. [])(NormalPriorityList := [] @ [1], NormalPriorityList := [1] @ [2])) (\<lambda>_. [])"
    using lf AddToSchedulerUnsafe_lists [of "AddToSchedulerUnsafe 1 ?b" "(\<lambda>_. [])(NormalPriorityList := [] @ [1])" "\<lambda>_. []" 2 NormalPriorityList]
    by (auto simp: enlisted_def)
  then show ?thesis
    using lf AddToSchedulerUnsafe_lists [of "AddToSchedulerUnsafe 2 (AddToSchedulerUnsafe 1 ?b)"
      "(\<lambda>_. [])(NormalPriorityList := [1, 2])" "\<lambda>_. []" 3 HighPriorityList]
    by (auto simp: enlisted_def example_def example_lists_def split: if_splits)
qed

lemma example_fibers:
  "m_fibers example f = (if f = 3 then (example_fiber 4) else if f = 1 \<or> f = 2 then (example_fiber 2) else zero_fiber)"
  by (simp add: example_def state_for_def blank_def UserScheduler_def example_fiber_def zero_fiber_def
      ActivityLevel_Suspended_def ActivityLevel_Schedulable_def)

text \<open>
  The same fibers with fiber 3 woken from a wait on an address: it is still picked first, and its
  wait ends with \<open>ResultTimeout\<close>.
\<close>

definition woken_example :: user_scheduler where
  "woken_example = fiber_update 3 (waitable_update (\<lambda>_. Some WaitAddressArbiter)) example"

lemma woken_pass_ready: "pass_ready woken_example example_lists (\<lambda>_. [])"
proof -
  have "sched_lists woken_example example_lists (\<lambda>_. [])"
    using example_sched_lists by (simp add: sched_lists_def woken_example_def)
  then show ?thesis
    by (auto simp: pass_ready_def wait_over_def woken_example_def queued_def priority_lists_def example_lists_def
        example_fibers example_fiber_def zero_fiber_def MaxThreadCount_def)
qed

theorem scheduler_pass_spec_witness:
  "\<exists>s'. scheduler_pass 0 100 woken_example = Inr (Some 3, s') \<and>
    sched_lists s' (\<lambda>h. remove1 3 (example_lists h)) (\<lambda>_. []) \<and>
    s' = woken_example\<lparr>m_links := m_links s',
      m_fibers := (m_fibers woken_example)(3 := dispatched 0 (m_fibers woken_example 3)),
      m_runnable_fibers := 4\<rparr> \<and> last_result (m_fibers s' 3) = ResultTimeout"
proof -
  have find: "find (\<lambda>f. can_run (core_flag 0) 100 (m_fibers woken_example f)) (queued example_lists) = Some 3"
    by (simp add: queued_def priority_lists_def example_lists_def woken_example_def example_fibers can_run_def
        example_fiber_def zero_fiber_def core_flag_def)
  have c: "0 < m_core_count woken_example" by (simp add: woken_example_def example_def)
  have f: "waitable (m_fibers woken_example 3) \<noteq> None"
    "activity_level (m_fibers woken_example 3) \<noteq> ActivityLevel_Suspended" "m_runnable_fibers woken_example = 3"
    by (simp_all add: woken_example_def example_fibers example_fiber_def ActivityLevel_Suspended_def
        ActivityLevel_Schedulable_def) (simp add: example_def AddToSchedulerUnsafe_runnable blank_def UserScheduler_def
        example_fiber_def ActivityLevel_Suspended_def ActivityLevel_Schedulable_def)
  obtain s' where s': "scheduler_pass 0 100 woken_example = Inr (Some 3, s')"
      "sched_lists s' (\<lambda>h. remove1 3 (example_lists h)) (\<lambda>_. [])"
      "s' = woken_example\<lparr>m_links := m_links s',
        m_fibers := (m_fibers woken_example)(3 := dispatched 0 (m_fibers woken_example 3)), m_runnable_fibers := 4\<rparr>"
    using scheduler_pass_spec [OF woken_pass_ready, of 0 100] c f unfolding Let_def find by auto
  have "m_fibers s' 3 = dispatched 0 (m_fibers woken_example 3)" by (subst s'(3)) simp
  then show ?thesis using s' f(1) by (intro exI [of _ s']) (auto simp: dispatched_def)
qed

theorem next_wakeup_spec_witness:
  "next_wakeup 0 example = Inr (Min (insert 0xffffffffffffffff
    {timeout (m_fibers example f) | f. f \<in> set (example_lists SchedulerWaitList @ queued example_lists) \<and>
      core_mask (m_fibers example f) AND core_flag 0 \<noteq> 0}))"
  by (rule next_wakeup_spec [OF example_sched_lists])
    (auto simp: queued_def priority_lists_def example_lists_def MaxThreadCount_def)

end
