(* ===== verification/Scheduler_Wait_Props.thy ===== *)
theory Scheduler_Wait_Props
  imports Scheduler_Wait Scheduler_Props
begin

text \<open>
  Waiting and waking (definitions in \<open>Scheduler_Wait\<close>). With one waiter a lock is handed over; a
  waiter on an address is woken, but runs only after its timeout and with the result of a timeout.
  With more waiters the loops that move or unlink them take their sentinel for a fiber.
\<close>

section \<open>The steps the calls share\<close>

lemma lists_unlink_head:
  assumes "sched_lists s L W" and "W f = w # ws"
  shows "sched_lists (links_update (Unlink (WaitNode w)) s) L (W(f := ws))"
proof -
  have one: "g = f" if "w \<in> set (W g)" for g
    using that assms rings_disjoint [of "m_links s" "{h. is_head h}" "list_view L W" "WaitList g" "WaitList f" "WaitNode w"]
    by (simp add: sched_lists_def)
  have "(\<lambda>g. remove1 w (W g)) = W(f := ws)"
  proof
    fix g show "remove1 w (W g) = (W(f := ws)) g"
      using one [of g] assms(2) by (cases "g = f") (auto intro!: remove1_idem)
  qed
  with lists_unlink_waiter [OF assms(1), of w] show ?thesis by simp
qed

lemma pop_waiter_spec:
  assumes "sched_lists s L W" and "W f = w # ws"
  shows "pop_waiter f s = Inr (w, links_update (Unlink (WaitNode w)) s)"
    and "sched_lists (links_update (Unlink (WaitNode w)) s) L (W(f := ws))"
proof -
  have "ring (m_links s) (WaitList f) (WaitNode w # map WaitNode ws)"
    using lists_wait_ring [OF assms(1), of f] assms(2) by simp
  then show "pop_waiter f s = Inr (w, links_update (Unlink (WaitNode w)) s)"
    using ring_PopFront(1) by (fastforce simp: pop_waiter_def links_update_def)
qed (rule lists_unlink_head [OF assms])

lemma IsEmpty_wait:
  assumes "sched_lists s L W"
  shows "IsEmpty (m_links s) (WaitList f) = (W f = [])"
  using IsEmpty_ring [OF lists_wait_ring [OF assms, of f]] by simp

lemma transfer_none:
  assumes "sched_lists s L W" and "W f = []"
  shows "transfer_waiters f g s = Inr s"
proof -
  have "ring (m_links s) (WaitList f) []" using lists_wait_ring [OF assms(1), of f] assms(2) by simp
  then have "for_each loop_fuel (\<lambda>s. m_links s) (WaitList f)
      (\<lambda>n s. Inr (False, links_update (PushBack (WaitList g) n) (links_update (Unlink n) s))) s =
    visit (\<lambda>n s. Inr (False, links_update (PushBack (WaitList g) n) (links_update (Unlink n) s))) [] s"
    by (intro for_each_visit [where I = "\<lambda>_. True"]) (auto simp: loop_fuel_def)
  then show ?thesis by (simp add: transfer_waiters_def for_wait_nodes_def)
qed

text \<open>A loop that only changes links is a loop on the links.\<close>

lemma for_loop_links:
  "for_loop fuel (\<lambda>s. m_links s) (\<lambda>n s. Inr (False, links_update (g n) s)) it e s =
    and_then (for_loop fuel (\<lambda>k. k) (\<lambda>n k. Inr (False, g n k)) it e (m_links s))
      (\<lambda>k. Inr (s\<lparr>m_links := k\<rparr>))"
proof (induction fuel arbitrary: it s)
  case (Suc fuel)
  show ?case
  proof (cases "it = e")
    case False
    then show ?thesis using Suc.IH by (simp add: links_update_def)
  qed simp
qed simp

lemma transfer_waiters_links:
  "transfer_waiters f g s = and_then (for_each loop_fuel (\<lambda>k. k) (WaitList f) (transfer_body (WaitList g)) (m_links s))
    (\<lambda>k. Inr (s\<lparr>m_links := k\<rparr>))"
proof -
  have "(\<lambda>n s. Inr (False, links_update (PushBack (WaitList g) n) (links_update (Unlink n) s))) =
      (\<lambda>n s. Inr (False, links_update (\<lambda>k. PushBack (WaitList g) n (Unlink n k)) s) :: (bool \<times> user_scheduler) outcome)"
    by (simp add: fun_eq_iff links_update_def)
  moreover have "transfer_body (WaitList g) = (\<lambda>n k. Inr (False, PushBack (WaitList g) n (Unlink n k)))"
    by (simp add: fun_eq_iff transfer_body_def)
  ultimately show ?thesis
    using for_loop_links [of loop_fuel "\<lambda>n k. PushBack (WaitList g) n (Unlink n k)"]
    by (simp add: transfer_waiters_def for_wait_nodes_def for_each_def)
qed

lemma transfer_corrupts:
  assumes "sched_lists s L W" and "W f = ws" and "ws \<noteq> []" and "W g = []" and "f \<noteq> g"
    and "set ws \<subseteq> {..<MaxThreadCount}"
  shows "\<exists>k. transfer_waiters f g s = Inr (s\<lparr>m_links := k\<rparr>) \<and>
    ring k (WaitList g) (map WaitNode ws @ [WaitList f])"
proof -
  have r: "ring (m_links s) (WaitList f) (map WaitNode ws)" "ring (m_links s) (WaitList g) []"
    using lists_wait_ring [OF assms(1), of f] lists_wait_ring [OF assms(1), of g] assms(2,4) by simp_all
  have "distinct ws" using r(1) by (auto simp: ring_def distinct_map)
  then have "length (map WaitNode ws) + 3 \<le> loop_fuel" using fibers_fuel [OF _ assms(6)] by simp
  then show ?thesis
    using for_each_transfer_empty [OF r(1) _ r(2)] assms(3,5) by (fastforce simp: transfer_waiters_links)
qed

lemma find_waiter_spec:
  assumes "sched_lists s L W" and "set (L SchedulerWaitList) \<subseteq> {..<MaxThreadCount}"
  shows "find_waiter a s = Inr (find (\<lambda>f. wait_address (m_fibers s f) = a) (L SchedulerWaitList), s)"
proof -
  let ?body = "\<lambda>waiting_fiber (r, s).
    Inr (if wait_address (m_fibers s waiting_fiber) = a then (True, (Some waiting_fiber, s)) else (False, (r, s)))"
  have "for_fibers snd SchedulerWaitList ?body (None, s) = visit_fibers ?body (L SchedulerWaitList) (None, s)"
    using assms by (intro for_fibers_visit [where I = "\<lambda>t. snd t = s" and W = W]) (auto split: if_splits)
  then show ?thesis
    using visit_fibers_find [of "L SchedulerWaitList" ?body s "\<lambda>f. wait_address (m_fibers s f) = a"]
    by (simp add: find_waiter_def)
qed

section \<open>Locks\<close>

text \<open>A handle the table knows has its two top bits clear, so the bit that marks waiters can be
  added and taken away.\<close>

lemma known_handle_bit:
  assumes "GetFiberByHandle h s = Inr (Some f)"
  shows "(h OR HasChildWaitersBit) AND NOT HasChildWaitersBit = h"
proof -
  have "drop_bit 30 h = 0"
  proof (rule ccontr)
    assume "drop_bit 30 h \<noteq> 0"
    then have "GetFiberByHandle h s = Inr None" by (simp add: GetFiberByHandle_def GetObjectByHandle_def)
    with assms show False by simp
  qed
  then have "\<not> bit (drop_bit 30 h) 0" by simp
  then have h30: "\<not> bit h 30" by (simp add: bit_drop_bit_eq)
  have b: "bit HasChildWaitersBit n \<longleftrightarrow> n = 30" for n
  proof -
    have e: "HasChildWaitersBit = push_bit 30 1" by (simp add: HasChildWaitersBit_def)
    show ?thesis unfolding e bit_push_bit_iff by (auto simp: bit_1_iff)
  qed
  show ?thesis
  proof (rule bit_word_eqI)
    fix n assume "n < LENGTH(32)"
    then show "bit ((h OR HasChildWaitersBit) AND NOT HasChildWaitersBit) n = bit h n"
      using h30 by (cases "n = 30") (simp_all add: bit_and_iff bit_or_iff bit_not_iff b)
  qed
qed

lemma ReleaseLock_one:
  assumes l: "sched_lists s L W" "W this = [w]"
    and w: "waitable (m_fibers s w) = Some LockArbiter" "lock_address (m_fibers s w) \<noteq> nullptr"
      "list_for (m_fibers s w) = Some h"
  shows "\<exists>s'. ReleaseLockWaitListUnsafe this s = Inr s' \<and> sched_lists s' (relist w h L) (W(this := [])) \<and>
    m_words s' = (m_words s)(lock_address (m_fibers s w) := wait_tag (m_fibers s w)) \<and>
    m_fibers s' = (m_fibers s)(w := (m_fibers s w)\<lparr>lock_address := nullptr, wait_tag := 0,
      last_result := ResultSuccess, fiber_state := state_for (m_fibers s w), waitable := None\<rparr>) \<and>
    m_handle_table s' = m_handle_table s \<and> m_core_count s' = m_core_count s \<and> m_scheduler_lock s' = m_scheduler_lock s"
proof -
  let ?a = "lock_address (m_fibers s w)" and ?t = "wait_tag (m_fibers s w)"
  let ?s1 = "links_update (Unlink (WaitNode w)) s"
  have pop: "pop_waiter this s = Inr (w, ?s1)" "sched_lists ?s1 L (W(this := []))"
    using pop_waiter_spec [OF l] by simp_all
  let ?s2 = "?s1\<lparr>m_words := (m_words ?s1)(?a := ?t)\<rparr>"
  let ?s3 = "fiber_update w (wait_tag_update (\<lambda>_. 0)) (fiber_update w (lock_address_update (\<lambda>_. nullptr)) ?s2)"
  have l3: "sched_lists ?s3 L (W(this := []))" using pop(2) by (simp add: sched_lists_def)
  let ?s4 = "EndFiberWaitImpl w ResultSuccess ?s3"
  have l4: "sched_lists ?s4 (relist w h L) (W(this := []))"
    by (rule EndFiberWaitImpl_lists [OF l3]) (simp add: w(3))
  have "ReleaseLockWaitListUnsafe this s = Inr (fiber_update w (waitable_update (\<lambda>_. None)) ?s4)"
    using IsEmpty_wait [OF l(1), of this] IsEmpty_wait [OF pop(2), of this] l(2) pop(1) w(1,2)
      transfer_none [OF l3, of this w]
    by (simp add: ReleaseLockWaitListUnsafe_def Let_def store_def)
  moreover have "sched_lists (fiber_update w (waitable_update (\<lambda>_. None)) ?s4) (relist w h L) (W(this := []))"
    using l4 by (simp add: sched_lists_def)
  ultimately show ?thesis by simp
qed

text \<open>Blocking on the lock of another fiber.\<close>

lemma ArbitrateLock_blocks:
  assumes l: "sched_lists s L W" "W own = []" "w \<notin> waiters W"
    and h: "GetFiberByHandle handle s = Inr (Some own)" "own \<noteq> w"
    and a: "lock \<noteq> nullptr" "m_words s lock = handle OR HasChildWaitersBit"
    and c: "current_core (m_fibers s w) < m_core_count s"
      "unat (current_core (m_fibers s w)) < length (m_scheduler_fiber_table s)"
  shows "\<exists>s'. ArbitrateLockImpl w handle lock tag s =
      Inr (Switched (current_core (m_fibers s w)) (ReturnResult ResultSuccess), s') \<and>
    sched_lists s' (relist w SuspendList L) (W(own := [w])) \<and> m_words s' = m_words s \<and>
    m_handle_table s' = m_handle_table s \<and> m_core_count s' = m_core_count s \<and> m_scheduler_lock s' \<and>
    m_fibers s' = (m_fibers s)(w := (m_fibers s w)\<lparr>waitable := Some LockArbiter, lock_address := lock,
      wait_tag := tag, fiber_state := Waiting\<rparr>)"
proof -
  let ?s1 = "fiber_update w (\<lambda>x. x\<lparr>waitable := Some LockArbiter, lock_address := lock,
    wait_tag := tag, fiber_state := Waiting\<rparr>) (AcquireSRWLockExclusive s)"
  let ?s2 = "links_update (PushBack (WaitList own) (WaitNode w)) ?s1"
  let ?s3 = "links_update (PushBack SuspendList (SchedulerNode w)) (links_update (Unlink (SchedulerNode w)) ?s2)"
  have "sched_lists ?s1 L W" using l(1) by (simp add: sched_lists_def)
  then have l2: "sched_lists ?s2 L (W(own := [w]))" using lists_push_waiter [of ?s1 L W w own] l(2,3) by simp
  have "sched_lists ?s3 (relist w SuspendList L) (W(own := [w]))"
    unfolding relist_def
    using lists_push_scheduler [OF lists_unlink_scheduler [OF l2], of SuspendList w w] remove1_not_enlisted [OF l2]
    by simp
  moreover have "ArbitrateLockImpl w handle lock tag s =
      Inr (Switched (current_core (m_fibers s w)) (ReturnResult ResultSuccess), ?s3)"
    using h a c by (simp add: ArbitrateLockImpl_def Let_def load_def switch_to_scheduler_def GetSchedulerFiber_def)
  ultimately show ?thesis by auto
qed

lemma ArbitrateUnlock_one:
  assumes l: "sched_lists s L W" "W own = [w]"
    and w: "waitable (m_fibers s w) = Some LockArbiter" "lock_address (m_fibers s w) = lock"
      "list_for (m_fibers s w) = Some h"
    and a: "lock \<noteq> nullptr" "ukern_fiber_handle (m_fibers s own) = m_words s lock AND NOT HasChildWaitersBit"
  shows "\<exists>s'. ArbitrateUnlockImpl own lock s = Inr (Returned ResultSuccess, s') \<and> \<not> m_scheduler_lock s' \<and>
    m_handle_table s' = m_handle_table s \<and> m_core_count s' = m_core_count s \<and>
    sched_lists s' (relist w h L) (W(own := [])) \<and> m_words s' = (m_words s)(lock := wait_tag (m_fibers s w)) \<and>
    m_fibers s' = (m_fibers s)(w := (m_fibers s w)\<lparr>lock_address := nullptr, wait_tag := 0,
      last_result := ResultSuccess, fiber_state := state_for (m_fibers s w), waitable := None\<rparr>)"
proof -
  let ?s = "AcquireSRWLockExclusive s"
  have "sched_lists ?s L W" using l(1) by simp
  then obtain s' where "ReleaseLockWaitListUnsafe own ?s = Inr s'" "sched_lists s' (relist w h L) (W(own := []))"
      "m_words s' = (m_words s)(lock := wait_tag (m_fibers s w))"
      "m_fibers s' = (m_fibers s)(w := (m_fibers s w)\<lparr>lock_address := nullptr, wait_tag := 0,
        last_result := ResultSuccess, fiber_state := state_for (m_fibers s w), waitable := None\<rparr>)"
      "m_handle_table s' = m_handle_table s" "m_core_count s' = m_core_count s"
    using ReleaseLock_one [of ?s L W own w h] l(2) w a(1) by auto
  then show ?thesis
    using a IsEmpty_wait [OF l(1), of own] l(2)
    by (simp add: ArbitrateUnlockImpl_def Let_def load_def return_locked_def)
qed

section \<open>Properties\<close>

text \<open>
  C6. Handing a contended lock over: fiber \<open>w\<close> arbitrates a lock that \<open>own\<close> holds, and switches away
  in state Waiting; when \<open>own\<close> unlocks, the lock word becomes the tag \<open>w\<close> left, \<open>w\<close> is in the list
  of its priority and no longer waiting, and its call returns \<open>ResultSuccess\<close>.
\<close>

theorem lock_handover:
  assumes "sched_lists s L W" and "W own = []" and "w \<notin> waiters W"
    and "GetFiberByHandle handle s = Inr (Some own)" and "own \<noteq> w"
    and "ukern_fiber_handle (m_fibers s own) = handle"
    and "lock \<noteq> nullptr" and "m_words s lock = handle OR HasChildWaitersBit"
    and "current_core (m_fibers s w) < m_core_count s"
    and "unat (current_core (m_fibers s w)) < length (m_scheduler_fiber_table s)"
    and "list_for (m_fibers s w) = Some h"
  shows "\<exists>s1 s2. ArbitrateLockImpl w handle lock tag s =
      Inr (Switched (current_core (m_fibers s w)) (ReturnResult ResultSuccess), s1) \<and>
    fiber_state (m_fibers s1 w) = Waiting \<and>
    ArbitrateUnlockImpl own lock (ReleaseSRWLockExclusive s1) = Inr (Returned ResultSuccess, s2) \<and>
    m_words s2 = (m_words s)(lock := tag) \<and>
    sched_lists s2 (relist w h (relist w SuspendList L)) W \<and>
    fiber_state (m_fibers s2 w) = state_for (m_fibers s w) \<and>
    fst (resume_call w (ReturnResult ResultSuccess) s2) = Some ResultSuccess"
proof -
  obtain s1 where s1: "ArbitrateLockImpl w handle lock tag s =
      Inr (Switched (current_core (m_fibers s w)) (ReturnResult ResultSuccess), s1)"
    "sched_lists s1 (relist w SuspendList L) (W(own := [w]))" "m_words s1 = m_words s"
    "m_fibers s1 = (m_fibers s)(w := (m_fibers s w)\<lparr>waitable := Some LockArbiter, lock_address := lock,
      wait_tag := tag, fiber_state := Waiting\<rparr>)"
    using ArbitrateLock_blocks [OF assms(1-5,7-10)] by blast
  have "ukern_fiber_handle (m_fibers s own) = m_words s lock AND NOT HasChildWaitersBit"
    using known_handle_bit [OF assms(4)] assms(6,8) by simp
  then obtain s2 where "ArbitrateUnlockImpl own lock (ReleaseSRWLockExclusive s1) = Inr (Returned ResultSuccess, s2)"
      "sched_lists s2 (relist w h (relist w SuspendList L)) (W(own := [w], own := []))"
      "m_words s2 = (m_words s)(lock := tag)" "last_result (m_fibers s2 w) = ResultSuccess"
      "fiber_state (m_fibers s2 w) = state_for (m_fibers s w)"
    using ArbitrateUnlock_one [of "ReleaseSRWLockExclusive s1" "relist w SuspendList L" "W(own := [w])" own w lock h]
      s1 assms(5,7,11) by auto
  moreover have "W(own := [w], own := []) = W" using assms(2) by auto
  ultimately show ?thesis using s1 by (auto simp: resume_call_def Let_def)
qed

text \<open>Fiber 1 of the example holds the lock at address 16 and has the first handle of the table.\<close>

definition example_table :: "nat handle_table" where
  "example_table = snd (projr (ReserveHandle (Some 1) (Initialize HandleTable)))"

lemma example_table_lookup: "GetObjectByHandle 0x80FF example_table = Inr (Some 1)"
proof -
  obtain t where t: "ReserveHandle (Some (1::nat)) (Initialize HandleTable) = Inr (Some 0x80FF, t)"
    using first_reservation [of "1::nat"] by blast
  then show ?thesis
    using ht.reserve_lookup [OF initial_table_wf t] by (simp add: example_table_def)
qed

definition locked_example :: user_scheduler where
  "locked_example = (fiber_update 1 (ukern_fiber_handle_update (\<lambda>_. 0x80FF)) example)\<lparr>
    m_handle_table := example_table, m_words := (\<lambda>_. 0)(16 := 0x80FF OR HasChildWaitersBit)\<rparr>"

lemma locked_example_lists: "sched_lists locked_example example_lists (\<lambda>_. [])"
  using example_sched_lists by (simp add: sched_lists_def locked_example_def)

lemma example_list_for: "list_for (m_fibers locked_example 2) = Some NormalPriorityList"
  by (simp add: locked_example_def example_fibers list_for_def example_fiber_def
      ActivityLevel_Suspended_def ActivityLevel_Schedulable_def)

lemma example_core:
  "current_core (m_fibers locked_example 2) < m_core_count locked_example"
  "unat (current_core (m_fibers locked_example 2)) < length (m_scheduler_fiber_table locked_example)"
  by (simp_all add: locked_example_def example_fibers example_fiber_def zero_fiber_def example_def
      blank_def UserScheduler_def MaxCoreCount_def)

theorem lock_handover_witness:
  "\<exists>s1 s2. ArbitrateLockImpl 2 0x80FF 16 7 locked_example =
      Inr (Switched (current_core (m_fibers locked_example 2)) (ReturnResult ResultSuccess), s1) \<and>
    fiber_state (m_fibers s1 2) = Waiting \<and>
    ArbitrateUnlockImpl 1 16 (ReleaseSRWLockExclusive s1) = Inr (Returned ResultSuccess, s2) \<and>
    m_words s2 = (m_words locked_example)(16 := 7) \<and>
    sched_lists s2 (relist 2 NormalPriorityList (relist 2 SuspendList example_lists)) (\<lambda>_. []) \<and>
    fiber_state (m_fibers s2 2) = state_for (m_fibers locked_example 2) \<and>
    fst (resume_call 2 (ReturnResult ResultSuccess) s2) = Some ResultSuccess"
  by (rule lock_handover [OF locked_example_lists])
    (use example_list_for example_core in \<open>simp_all add: waiters_def nullptr_def GetFiberByHandle_def
      locked_example_def example_table_lookup\<close>)

text \<open>
  Moving the waiters of one fiber to another goes wrong whenever there is one to move: the loop
  runs over the sentinel of the emptied list as well, so the new owner's list ends with the old
  list's sentinel, which is no fiber. (Releasing a lock with two or more waiters does this.)
\<close>

theorem transfer_waiters_links_sentinel:
  assumes "sched_lists s L W" and "W from \<noteq> []" and "W to = []" and "from \<noteq> to"
    and "set (W from) \<subseteq> {..<MaxThreadCount}"
  shows "\<exists>s'. transfer_waiters from to s = Inr s' \<and>
    ring (m_links s') (WaitList to) (map WaitNode (W from) @ [WaitList from]) \<and>
    wait_parent (Back (m_links s') (WaitList to)) = Inl BadObject"
proof -
  obtain k where k: "transfer_waiters from to s = Inr (s\<lparr>m_links := k\<rparr>)"
      "ring k (WaitList to) (map WaitNode (W from) @ [WaitList from])"
    using transfer_corrupts [OF assms(1) refl assms(2-5)] by blast
  have "Back k (WaitList to) = WaitList from" using ring_prev [OF k(2)] by (simp add: Back_def)
  with k show ?thesis by simp
qed

definition contended_example :: user_scheduler where
  "contended_example = links_update (PushBack (WaitList 1) (WaitNode 2)) example"

lemma contended_lists: "sched_lists contended_example example_lists ((\<lambda>_. [])(1 := [2]))"
  using lists_push_waiter [OF example_sched_lists, of 2 1]
  by (simp add: contended_example_def waiters_def)

theorem transfer_waiters_links_sentinel_witness:
  "\<exists>s'. transfer_waiters 1 3 contended_example = Inr s' \<and>
    ring (m_links s') (WaitList 3) (map WaitNode (((\<lambda>_. [])(1 := [2])) (1::nat)) @ [WaitList 1]) \<and>
    wait_parent (Back (m_links s') (WaitList 3)) = Inl BadObject"
  by (rule transfer_waiters_links_sentinel [OF contended_lists]) (simp_all add: MaxThreadCount_def)

section \<open>Wait addresses\<close>

lemma wait_loop_none:
  assumes "sched_lists s L W" and "W f = []"
  shows "for_wait_nodes snd f body (i, s) = Inr (i, s)"
proof -
  have "ring (m_links (snd (i, s))) (WaitList f) []" using lists_wait_ring [OF assms(1), of f] assms(2) by simp
  then have "for_each loop_fuel (\<lambda>p. m_links (snd p)) (WaitList f) body (i, s) = visit body [] (i, s)"
    by (intro for_each_visit [where I = "\<lambda>_. True"]) (auto simp: loop_fuel_def)
  then show ?thesis by (simp add: for_wait_nodes_def)
qed

lemma hand_over_none:
  assumes "sched_lists s L W" and "W f = []"
  shows "hand_over f s = Inr s"
  using IsEmpty_wait [OF assms(1), of f] assms(2) by (simp add: hand_over_def)

lemma wake_single:
  assumes "sched_lists s L W" and "W f = []" and "waitable (m_fibers s f) = Some WaitAddressArbiter"
    and "list_for (m_fibers s f) = Some h"
  shows "wake_waiters f cnt s = Inr (EndFiberWaitImpl f ResultSuccess s)"
proof -
  have l: "sched_lists (EndFiberWaitImpl f ResultSuccess s) (relist f h L) W"
    by (rule EndFiberWaitImpl_lists [OF assms(1,4)])
  then show ?thesis
    using assms(3) hand_over_none [OF l assms(2)]
    by (simp add: wake_waiters_def end_wait_def wait_loop_none [OF l assms(2)])
qed

lemma wait_then_wake:
  assumes "sched_lists s L W" and "set (f # L SchedulerWaitList) \<subseteq> {..<MaxThreadCount}"
    and "f \<notin> enlisted L" and "W f = []" and "list_for (m_fibers s f) = Some h"
    and "\<forall>g\<in>set (L SchedulerWaitList). wait_address (m_fibers s g) \<noteq> a"
    and "a \<noteq> nullptr" and "m_words s a = v" and "0 < absolute_timeout" and "0 < cnt"
    and "current_core (m_fibers s f) < m_core_count s"
    and "unat (current_core (m_fibers s f)) < length (m_scheduler_fiber_table s)"
  shows "\<exists>s1 s2. WaitForAddressIfEqualImpl f a v absolute_timeout s =
      Inr (Switched (current_core (m_fibers s f)) (ReturnResult ResultSuccess), s1) \<and>
    fiber_state (m_fibers s1 f) = Waiting \<and>
    WakeByAddressImpl a cnt (ReleaseSRWLockExclusive s1) = Inr (Returned ResultSuccess, s2) \<and>
    sched_lists s2 (relist f h (L(SchedulerWaitList := L SchedulerWaitList @ [f]))) W \<and>
    m_fibers s2 = (m_fibers s)(f := (m_fibers s f)\<lparr>waitable := Some WaitAddressArbiter, wait_address := a,
      timeout := word_of_int absolute_timeout, last_result := ResultSuccess, fiber_state := state_for (m_fibers s f)\<rparr>) \<and>
    m_core_count s2 = m_core_count s"
proof -
  let ?s1 = "fiber_update f (\<lambda>x. x\<lparr>waitable := Some WaitAddressArbiter, wait_address := a,
    fiber_state := Waiting, timeout := word_of_int absolute_timeout\<rparr>) (AcquireSRWLockExclusive s)"
  let ?s2 = "links_update (PushBack SchedulerWaitList (SchedulerNode f)) ?s1"
  let ?L = "L(SchedulerWaitList := L SchedulerWaitList @ [f])"
  have l1: "sched_lists ?s1 L W" using assms(1) by (simp add: sched_lists_def)
  have notf: "f \<notin> set (L SchedulerWaitList)" using assms(3) by (auto simp: enlisted_def)
  have "find (\<lambda>g. wait_address (m_fibers ?s1 g) = a) (L SchedulerWaitList) = None"
    using assms(6) notf by (auto simp: find_None_iff)
  then have "find_waiter a ?s1 = Inr (None, ?s1)" using find_waiter_spec [OF l1] assms(2) by simp
  then have wait: "WaitForAddressIfEqualImpl f a v absolute_timeout s =
      Inr (Switched (current_core (m_fibers s f)) (ReturnResult ResultSuccess), ?s2)"
    using assms(7-9,11,12)
    by (simp add: WaitForAddressIfEqualImpl_def wait_on_def Let_def load_def switch_to_scheduler_def GetSchedulerFiber_def)
  let ?s3 = "AcquireSRWLockExclusive (ReleaseSRWLockExclusive ?s2)"
  have l3: "sched_lists ?s3 ?L W" using lists_push_scheduler [OF l1 _ assms(3), of SchedulerWaitList] by simp
  have "find (\<lambda>g. wait_address (m_fibers ?s3 g) = a) (?L SchedulerWaitList) = Some f"
    using \<open>find (\<lambda>g. wait_address (m_fibers ?s1 g) = a) (L SchedulerWaitList) = None\<close> by (simp add: find_append)
  then have fw: "find_waiter a ?s3 = Inr (Some f, ?s3)" using find_waiter_spec [OF l3, of a] assms(2) by simp
  have wake: "WakeByAddressImpl a cnt (ReleaseSRWLockExclusive ?s2) =
      Inr (Returned ResultSuccess, ReleaseSRWLockExclusive (EndFiberWaitImpl f ResultSuccess ?s3))"
    using fw wake_single [OF l3 assms(4), of h cnt] assms(5,7,10)
    by (simp add: WakeByAddressImpl_def Let_def return_locked_def word_neq_0_conv)
  have l4: "sched_lists (ReleaseSRWLockExclusive (EndFiberWaitImpl f ResultSuccess ?s3)) (relist f h ?L) W"
    using EndFiberWaitImpl_lists [OF l3, of f h] assms(5) by simp
  show ?thesis
    by (rule exI [of _ ?s2], rule exI [of _ "ReleaseSRWLockExclusive (EndFiberWaitImpl f ResultSuccess ?s3)"])
      (use wait wake l4 in simp)
qed

text \<open>A running fiber that has been put into list \<open>h\<close>: it comes after those that were queued.\<close>

lemma relist_waiting:
  assumes "f \<notin> enlisted L" and "h \<noteq> SchedulerWaitList"
  defines "L' \<equiv> relist f h (L(SchedulerWaitList := L SchedulerWaitList @ [f]))"
  shows "L' SchedulerWaitList = L SchedulerWaitList"
    and "set (queued L') = (if h \<in> set priority_lists then insert f (set (queued L)) else set (queued L))"
proof -
  have n: "remove1 f (L g) = L g" if "is_scheduler_head g" for g
    using assms(1) that by (intro remove1_idem) (auto simp: enlisted_def)
  have "f \<notin> set (L SchedulerWaitList)" using assms(1) by (auto simp: enlisted_def)
  then show "L' SchedulerWaitList = L SchedulerWaitList"
    using assms(2) n [of SchedulerWaitList] by (simp add: L'_def relist_def remove1_append)
  have p: "SchedulerWaitList \<notin> set priority_lists" by (simp add: priority_lists_def)
  then have "set (L' g) = (if g = h then insert f (set (L g)) else set (L g))" if "g \<in> set priority_lists" for g
    using that n [of g] priority_lists_heads [OF that] by (auto simp: L'_def relist_def)
  then show "set (queued L') = (if h \<in> set priority_lists then insert f (set (queued L)) else set (queued L))"
    by (auto simp: queued_def)
qed

text \<open>
  C7. A fiber waits on an address and another fiber wakes it. The wait registers it under the address
  and switches away; a wake-up of that address with any positive count returns \<open>ResultSuccess\<close>,
  puts the fiber into the list of its priority and stores \<open>ResultSuccess\<close> for it. The wake-up does
  not reset \<open>waitable_object\<close>, though: no pass runs the fiber until the timeout of its wait has
  passed, and the pass that then runs it makes its call return \<open>ResultTimeout\<close>. Such a pass takes
  place as soon as no fiber queued before may run. (One waiter, no other fiber registered under
  that address, and lists a pass can handle.)
\<close>

theorem woken_wait_times_out:
  assumes "pass_ready s L W" and "f < MaxThreadCount" and "f \<notin> enlisted L" and "W f = []"
    and "list_for (m_fibers s f) = Some h"
    and "\<forall>g\<in>set (L SchedulerWaitList). wait_address (m_fibers s g) \<noteq> a"
    and "a \<noteq> nullptr" and "m_words s a = v" and "0 < absolute_timeout" and "0 < cnt"
    and "current_core (m_fibers s f) < m_core_count s"
    and "unat (current_core (m_fibers s f)) < length (m_scheduler_fiber_table s)"
  shows "\<exists>s1 s2. WaitForAddressIfEqualImpl f a v absolute_timeout s =
      Inr (Switched (current_core (m_fibers s f)) (ReturnResult ResultSuccess), s1) \<and>
    fiber_state (m_fibers s1 f) = Waiting \<and>
    WakeByAddressImpl a cnt (ReleaseSRWLockExclusive s1) = Inr (Returned ResultSuccess, s2) \<and>
    sched_lists s2 (relist f h (L(SchedulerWaitList := L SchedulerWaitList @ [f]))) W \<and>
    fiber_state (m_fibers s2 f) = state_for (m_fibers s f) \<and> last_result (m_fibers s2 f) = ResultSuccess \<and>
    (\<forall>core tick. unat core < 32 \<and> core < m_core_count s \<longrightarrow>
      (\<exists>r s3. scheduler_pass core tick (AcquireSRWLockExclusive s2) = Inr (r, s3) \<and>
        (r = Some f \<longrightarrow> word_of_int absolute_timeout < tick \<and>
          fst (resume_call f (ReturnResult ResultSuccess) s3) = Some ResultTimeout) \<and>
        (word_of_int absolute_timeout < tick \<and> h \<noteq> SuspendList \<and> core_mask (m_fibers s f) AND core_flag core \<noteq> 0 \<and>
          (\<forall>g\<in>set (queued L). \<not> can_run (core_flag core) tick (m_fibers s g)) \<longrightarrow> r = Some f)))"
proof -
  have ready: "sched_lists s L W" "set (f # L SchedulerWaitList) \<subseteq> {..<MaxThreadCount}"
    using assms(1,2) by (auto simp: pass_ready_def)
  let ?L = "relist f h (L(SchedulerWaitList := L SchedulerWaitList @ [f]))"
  obtain s1 s2 where s1: "WaitForAddressIfEqualImpl f a v absolute_timeout s =
      Inr (Switched (current_core (m_fibers s f)) (ReturnResult ResultSuccess), s1)"
    "fiber_state (m_fibers s1 f) = Waiting"
    "WakeByAddressImpl a cnt (ReleaseSRWLockExclusive s1) = Inr (Returned ResultSuccess, s2)"
    and l2: "sched_lists s2 ?L W"
    and m2: "m_fibers s2 = (m_fibers s)(f := (m_fibers s f)\<lparr>waitable := Some WaitAddressArbiter, wait_address := a,
      timeout := word_of_int absolute_timeout, last_result := ResultSuccess, fiber_state := state_for (m_fibers s f)\<rparr>)"
    and c2: "m_core_count s2 = m_core_count s"
    using wait_then_wake [OF ready assms(3-12)] by blast
  have h: "h \<noteq> SchedulerWaitList" "h \<noteq> SuspendList \<Longrightarrow> h \<in> set priority_lists"
    using assms(5) by (auto simp: list_for_def priority_lists_def split: if_splits)
  note L = relist_waiting [OF assms(3) h(1)]
  let ?s = "AcquireSRWLockExclusive s2"
  have f: "f \<notin> set (L SchedulerWaitList)" using assms(3) by (auto simp: enlisted_def)
  have r: "pass_ready ?s ?L W"
    using assms(1,2) f l2 L m2 by (auto simp: pass_ready_def wait_over_def split: if_splits)
  have pass: "\<exists>r s3. scheduler_pass core tick ?s = Inr (r, s3) \<and>
        (r = Some f \<longrightarrow> word_of_int absolute_timeout < tick \<and>
          fst (resume_call f (ReturnResult ResultSuccess) s3) = Some ResultTimeout) \<and>
        (word_of_int absolute_timeout < tick \<and> h \<noteq> SuspendList \<and> core_mask (m_fibers s f) AND core_flag core \<noteq> 0 \<and>
          (\<forall>g\<in>set (queued L). \<not> can_run (core_flag core) tick (m_fibers s g)) \<longrightarrow> r = Some f)"
    if core: "unat core < 32" "core < m_core_count s" for core tick
  proof -
    let ?P = "\<lambda>g. can_run (core_flag core) tick (m_fibers ?s g)"
    have b: "core_bit core = Inr (core_flag core)" using core(1) by (simp add: core_bit_def)
    note eq = scheduler_pass_ready [OF r b, of tick]
    have runs: "find ?P (queued ?L) = Some f"
      if "word_of_int absolute_timeout < tick" "h \<noteq> SuspendList" "core_mask (m_fibers s f) AND core_flag core \<noteq> 0"
        "\<forall>g\<in>set (queued L). \<not> can_run (core_flag core) tick (m_fibers s g)"
    proof -
      have "state_for (m_fibers s f) = Scheduled"
        using assms(5) that(2) by (auto simp: list_for_def state_for_def split: if_splits)
      then have P: "?P f" using that(1,3) m2 by (simp add: can_run_def)
      have q: "set (queued ?L) = insert f (set (queued L))" using L(2) h(2) [OF that(2)] by simp
      then obtain g where g: "find ?P (queued ?L) = Some g" using P by (cases "find ?P (queued ?L)") (auto simp: find_None_iff)
      have "g = f" using find_in [OF g] q that(4) m2 by (cases "g = f") auto
      with g show ?thesis by simp
    qed
    show ?thesis
    proof (cases "find ?P (queued ?L)")
      case None
      then show ?thesis using eq runs by (intro exI [of _ None] exI [of _ ?s]) auto
    next
      case (Some g)
      obtain s3 where s3: "Dispatch_begin g core (cancel_over g ?s) = Inr s3"
          "s3 = ?s\<lparr>m_links := m_links s3, m_fibers := (m_fibers ?s)(g := dispatched core (m_fibers ?s g)),
            m_runnable_fibers := m_runnable_fibers ?s + (if waitable (m_fibers ?s g) = None \<or>
              activity_level (m_fibers ?s g) = ActivityLevel_Suspended then 0 else 1)\<rparr>"
        using dispatch_over [of ?s ?L W core g] l2 c2 core(2) by auto
      have m3: "m_fibers s3 = (m_fibers ?s)(g := dispatched core (m_fibers ?s g))" by (subst s3(2)) simp
      have "word_of_int absolute_timeout < tick \<and> fst (resume_call f (ReturnResult ResultSuccess) s3) = Some ResultTimeout"
        if "g = f"
        using that find_in [OF Some] m2 m3 by (simp add: can_run_def dispatched_def resume_call_def Let_def)
      then show ?thesis using eq Some s3(1) runs by (intro exI [of _ "Some g"] exI [of _ s3]) auto
    qed
  qed
  show ?thesis
    by (rule exI [of _ s1], rule exI [of _ s2]) (use s1 l2 m2 pass in simp)
qed

text \<open>Fiber 5 alone on a machine with four cores, waiting until tick 1000 and woken at once.\<close>

definition caller_example :: user_scheduler where
  "caller_example = fiber_update 5 (\<lambda>_. example_fiber 2)
    (blank\<lparr>m_core_count := 4, m_active_cores := 4, m_core_mask := 15\<rparr>)"

lemma caller_pass_ready: "pass_ready caller_example (\<lambda>_. []) (\<lambda>_. [])"
proof -
  have "sched_lists caller_example (\<lambda>_. []) (\<lambda>_. [])"
    by (rule unlinked_lists) (simp add: caller_example_def blank_def UserScheduler_def)
  then show ?thesis by (simp add: pass_ready_def queued_def)
qed

lemma caller_fields:
  "m_fibers caller_example 5 = example_fiber 2" "list_for (example_fiber 2) = Some NormalPriorityList"
  "m_words caller_example 16 = 0" "m_core_count caller_example = 4"
  "length (m_scheduler_fiber_table caller_example) = 32" "current_core (example_fiber 2) = 0" "core_mask (example_fiber 2) = 1"
  by (simp_all add: caller_example_def example_fiber_def zero_fiber_def list_for_def ActivityLevel_Suspended_def
      ActivityLevel_Schedulable_def blank_def UserScheduler_def MaxCoreCount_def)

theorem woken_wait_times_out_witness:
  "\<exists>s1 s2. WaitForAddressIfEqualImpl 5 16 0 1000 caller_example =
      Inr (Switched 0 (ReturnResult ResultSuccess), s1) \<and>
    WakeByAddressImpl 16 1 (ReleaseSRWLockExclusive s1) = Inr (Returned ResultSuccess, s2) \<and>
    last_result (m_fibers s2 5) = ResultSuccess \<and>
    (\<exists>r s3. scheduler_pass 0 1000 (AcquireSRWLockExclusive s2) = Inr (r, s3) \<and> r \<noteq> Some 5) \<and>
    (\<exists>s3. scheduler_pass 0 1001 (AcquireSRWLockExclusive s2) = Inr (Some 5, s3) \<and>
      fst (resume_call 5 (ReturnResult ResultSuccess) s3) = Some ResultTimeout)"
proof -
  obtain s1 s2 where s: "WaitForAddressIfEqualImpl 5 16 0 1000 caller_example =
      Inr (Switched 0 (ReturnResult ResultSuccess), s1)"
    "WakeByAddressImpl 16 1 (ReleaseSRWLockExclusive s1) = Inr (Returned ResultSuccess, s2)"
    "last_result (m_fibers s2 5) = ResultSuccess"
    and pass: "\<And>core tick. unat core < 32 \<and> core < 4 \<Longrightarrow>
      \<exists>r s3. scheduler_pass core tick (AcquireSRWLockExclusive s2) = Inr (r, s3) \<and>
        (r = Some 5 \<longrightarrow> word_of_int 1000 < tick \<and>
          fst (resume_call 5 (ReturnResult ResultSuccess) s3) = Some ResultTimeout) \<and>
        (word_of_int 1000 < tick \<and> 1 AND core_flag core \<noteq> 0 \<longrightarrow> r = Some 5)"
    using woken_wait_times_out [where f = 5 and a = 16 and v = 0 and absolute_timeout = 1000 and cnt = 1
        and h = NormalPriorityList, OF caller_pass_ready]
    by (auto simp: caller_fields MaxThreadCount_def nullptr_def queued_def)
  have c: "unat (0::u32) < 32 \<and> (0::u32) < 4" "1 AND core_flag 0 \<noteq> 0" by (simp_all add: core_flag_def)
  show ?thesis
    by (rule exI [of _ s1], rule exI [of _ s2])
      (use s pass [OF c(1), of 1000] pass [OF c(1), of 1001] c(2) in auto)
qed

text \<open>One step of the loop that wakes the waiters under the head of an address.\<close>

lemma wake_first:
  assumes l: "sched_lists s L W" and w: "waitable (m_fibers s w) = Some WaitAddressArbiter"
    "list_for (m_fibers s w) = Some h" and Wp: "W p = w # ws"
  defines "s' \<equiv> links_update (Unlink (WaitNode w)) (EndFiberWaitImpl w ResultSuccess s)"
  shows "end_wait w s = Inr (EndFiberWaitImpl w ResultSuccess s)"
    and "sched_lists s' (relist w h L) (W(p := ws))"
    and "m_fibers s' = (m_fibers s)(w := (m_fibers s w)\<lparr>last_result := ResultSuccess, fiber_state := state_for (m_fibers s w)\<rparr>)"
proof -
  show "end_wait w s = Inr (EndFiberWaitImpl w ResultSuccess s)" using w(1) by (simp add: end_wait_def)
  show "sched_lists s' (relist w h L) (W(p := ws))"
    unfolding s'_def by (rule lists_unlink_head [OF EndFiberWaitImpl_lists [OF l w(2)] Wp])
qed (simp add: s'_def)

lemma for_each_two:
  assumes "ring (lk s) l (x # xs)" and "body x s = Inr (False, s')" and "ring (lk s') l xs"
    and "body (last (l # xs)) s' = r" and "length xs \<le> 1" and "\<And>b s. r = Inr (b, s) \<Longrightarrow> b"
  shows "for_each (Suc (Suc fuel)) lk l body s = (case r of Inl e \<Rightarrow> Inl e | Inr (b, s) \<Rightarrow> Inr s)"
proof -
  have n: "m_next (lk s) l = x" "m_next (lk s) x = hd (xs @ [l])"
    using assms(1) ring_element(1) [of "lk s" l "[]" x xs] by (auto simp: ring_next)
  have d: "x \<noteq> l" "x \<notin> set xs" "l \<notin> set xs" using assms(1) by (auto simp: ring_def)
  have ne: "hd (xs @ [l]) \<noteq> x" using d by (cases xs) auto
  have p: "m_prev (lk s) (hd (xs @ [l])) = x"
    using assms(1) ring_element(2) [of "lk s" l "[x]" "hd xs" "tl xs"] by (cases xs) (auto simp: ring_prev)
  have it: "m_next (lk s') (hd (xs @ [l])) = l"
  proof (cases xs)
    case Nil
    then show ?thesis using assms(3) by (simp add: unlinked_def)
  next
    case (Cons y ys)
    then show ?thesis using assms(3,5) ring_element(1) [of "lk s'" l "[]" y "[]"] by simp
  qed
  define z where "z = last (l # xs)"
  have z: "m_prev (lk s') l = z" and r: "body z s' = r"
    using ring_prev [OF assms(3)] assms(4) by (simp_all only: z_def)
  have "body (m_prev (lk s) (hd (xs @ [l]))) s = Inr (False, s')" using p assms(2) by simp
  from for_loop_continue [where lk = lk and body = body and fuel = "Suc fuel", OF ne this]
  have "for_loop (Suc (Suc fuel)) lk body (hd (xs @ [l])) x s = for_loop (Suc fuel) lk body l x s'"
    unfolding it .
  also have "\<dots> = and_then (body z s')
      (\<lambda>(brk, t). if brk then Inr t else for_loop fuel lk body (it_inc (lk t) l) x t)"
    using d(1) z by (simp add: it_deref_def)
  also have "\<dots> = (case r of Inl e \<Rightarrow> Inl e | Inr (b, s) \<Rightarrow> Inr s)"
  proof (cases r)
    case (Inr q)
    obtain b t where q: "q = (b, t)" by force
    then have b using assms(6) Inr by blast
    with Inr q r show ?thesis by simp
  qed (simp add: r)
  finally show ?thesis by (simp add: for_each_def list_begin_def list_end_def Iterator_def n)
qed

text \<open>
  The fibers under one address: \<open>p\<close> is registered in the scheduler's wait list, \<open>ws\<close> wait under
  it, and all of them are in a call of \<open>WaitForAddress\<close>.
\<close>

definition address_waiters :: "user_scheduler \<Rightarrow> (node \<Rightarrow> nat list) \<Rightarrow> (nat \<Rightarrow> nat list) \<Rightarrow> address \<Rightarrow> nat \<Rightarrow> nat list \<Rightarrow> bool" where
  "address_waiters s L W a p ws \<longleftrightarrow> sched_lists s L W \<and> set (L SchedulerWaitList) \<subseteq> {..<MaxThreadCount} \<and>
    find (\<lambda>f. wait_address (m_fibers s f) = a) (L SchedulerWaitList) = Some p \<and> W p = ws \<and>
    distinct (p # ws) \<and> a \<noteq> nullptr \<and>
    (\<forall>f\<in>set (p # ws). waitable (m_fibers s f) = Some WaitAddressArbiter \<and>
      activity_level (m_fibers s f) = ActivityLevel_Schedulable \<and> priority (m_fibers s f) = 2)"

lemma address_waiters_list:
  assumes "address_waiters s L W a p ws" and "f \<in> set (p # ws)"
  shows "list_for (m_fibers s f) = Some NormalPriorityList" "state_for (m_fibers s f) = Scheduled"
  using assms by (auto simp: address_waiters_def list_for_def state_for_def ActivityLevel_Suspended_def
      ActivityLevel_Schedulable_def)

lemma address_waiters_head:
  assumes aw: "address_waiters s L W a p ws"
  defines "s1 \<equiv> EndFiberWaitImpl p ResultSuccess (AcquireSRWLockExclusive s)"
  shows "find_waiter a (AcquireSRWLockExclusive s) = Inr (Some p, AcquireSRWLockExclusive s)"
    and "end_wait p (AcquireSRWLockExclusive s) = Inr s1"
    and "sched_lists s1 (relist p NormalPriorityList L) W"
    and "\<And>f. f \<in> set ws \<Longrightarrow> waitable (m_fibers s1 f) = Some WaitAddressArbiter \<and>
      list_for (m_fibers s1 f) = Some NormalPriorityList \<and> state_for (m_fibers s1 f) = Scheduled"
    and "fiber_state (m_fibers s1 p) = Scheduled"
proof -
  let ?s = "AcquireSRWLockExclusive s"
  have l: "sched_lists ?s L W" "set (L SchedulerWaitList) \<subseteq> {..<MaxThreadCount}" and
    w: "waitable (m_fibers ?s p) = Some WaitAddressArbiter"
    using aw by (auto simp: address_waiters_def)
  show "find_waiter a ?s = Inr (Some p, ?s)"
    using find_waiter_spec [OF l, of a] aw by (simp add: address_waiters_def)
  show "end_wait p ?s = Inr s1" using w by (simp add: end_wait_def s1_def)
  show "sched_lists s1 (relist p NormalPriorityList L) W"
    unfolding s1_def using l(1) address_waiters_list(1) [OF aw, of p] by (intro EndFiberWaitImpl_lists) simp_all
  show "fiber_state (m_fibers s1 p) = Scheduled"
    using address_waiters_list(2) [OF aw, of p] by (simp add: s1_def)
  fix f assume f: "f \<in> set ws"
  then have "f \<noteq> p" using aw by (auto simp: address_waiters_def)
  then show "waitable (m_fibers s1 f) = Some WaitAddressArbiter \<and>
      list_for (m_fibers s1 f) = Some NormalPriorityList \<and> state_for (m_fibers s1 f) = Scheduled"
    using f aw address_waiters_list [OF aw, of f] by (auto simp: s1_def address_waiters_def)
qed

lemma u32_positive:
  assumes "0 < (cnt :: u32)"
  shows "\<not> cnt < 1" and "cnt \<noteq> 1 \<Longrightarrow> \<not> cnt < 2"
  using assms by unat_arith+

text \<open>The loop of a wake-up over one or two waiters: the first is woken, and the second turn finds
  the remaining waiter, or the sentinel.\<close>

lemma wake_loop:
  fixes cnt :: u32
  assumes aw: "address_waiters s L W a p (w # ws)" and "length ws \<le> 1" and "0 < cnt" and "ws \<noteq> [] \<longrightarrow> cnt = 1"
  defines "s1 \<equiv> EndFiberWaitImpl p ResultSuccess (AcquireSRWLockExclusive s)"
  defines "s2 \<equiv> links_update (Unlink (WaitNode w)) (EndFiberWaitImpl w ResultSuccess s1)"
  shows "for_wait_nodes snd p (\<lambda>n (i, s).
        if cnt < i then Inr (True, (i, s))
        else and_then (wait_parent n) (\<lambda>waiting_fiber.
          and_then (end_wait waiting_fiber s) (\<lambda>s. Inr (False, (i + 1, links_update (Unlink n) s))))) (1, s1) =
      (if cnt = 1 then Inr (2, s2) else Inl BadObject)"
    and "sched_lists s2 (relist w NormalPriorityList (relist p NormalPriorityList L)) (W(p := ws))"
    and "fiber_state (m_fibers s2 w) = Scheduled" "fiber_state (m_fibers s2 p) = Scheduled"
proof -
  note head = address_waiters_head [OF aw, folded s1_def]
  have Wp: "W p = w # ws" and pw: "w \<noteq> p" using aw by (auto simp: address_waiters_def)
  have w: "waitable (m_fibers s1 w) = Some WaitAddressArbiter" "list_for (m_fibers s1 w) = Some NormalPriorityList"
    "state_for (m_fibers s1 w) = Scheduled"
    using head(4) [of w] by simp_all
  note first = wake_first [OF head(3) w(1,2) Wp, folded s2_def]
  show l2: "sched_lists s2 (relist w NormalPriorityList (relist p NormalPriorityList L)) (W(p := ws))"
    by (rule first(2))
  show "fiber_state (m_fibers s2 w) = Scheduled" "fiber_state (m_fibers s2 p) = Scheduled"
    using first(3) w(3) head(5) pw by simp_all
  let ?body = "\<lambda>n (i, s). if cnt < i then Inr (True, (i, s))
        else and_then (wait_parent n) (\<lambda>waiting_fiber.
          and_then (end_wait waiting_fiber s) (\<lambda>s. Inr (False, (i + 1, links_update (Unlink n) s))))"
  let ?last = "last (WaitList p # map WaitNode ws)"
  have step1: "?body (WaitNode w) (1, s1) = Inr (False, (2, s2))"
    using u32_positive(1) [OF assms(3)] first(1) by (simp add: s2_def)
  have step2: "?body ?last (2, s2) = (if cnt = 1 then Inr (True, (2, s2)) else Inl BadObject)"
  proof (cases "cnt = 1")
    case False
    then have "ws = []" "\<not> cnt < 2" using assms(4) u32_positive(2) [OF assms(3)] by auto
    then show ?thesis using False by simp
  qed simp
  have r1: "ring (m_links (snd (1 :: u32, s1))) (WaitList p) (WaitNode w # map WaitNode ws)"
    using lists_wait_ring [OF head(3), of p] Wp by simp
  have r2: "ring (m_links (snd (2 :: u32, s2))) (WaitList p) (map WaitNode ws)"
    using lists_wait_ring [OF l2, of p] by simp
  have "for_each (Suc (Suc 1022)) (\<lambda>q. m_links (snd q)) (WaitList p) ?body (1, s1) =
      (case (if cnt = 1 then Inr (True, (2, s2)) else Inl BadObject) of Inl e \<Rightarrow> Inl e | Inr (b, s) \<Rightarrow> Inr s)"
    by (rule for_each_two [where lk = "\<lambda>q. m_links (snd q)", OF r1 step1 r2 step2])
      (use assms(2) in \<open>auto split: if_splits\<close>)
  then show "for_wait_nodes snd p ?body (1, s1) = (if cnt = 1 then Inr (2, s2) else Inl BadObject)"
    by (auto simp: for_wait_nodes_def loop_fuel_def split: if_splits)
qed

lemma wake_waiters_two:
  assumes aw: "address_waiters s L W a p [w]" and "0 < (cnt :: u32)"
  shows "if cnt = 1 then \<exists>s'. wake_waiters p cnt (AcquireSRWLockExclusive s) = Inr s' \<and>
      sched_lists s' (relist w NormalPriorityList (relist p NormalPriorityList L)) (W(p := [])) \<and>
      fiber_state (m_fibers s' w) = Scheduled \<and> fiber_state (m_fibers s' p) = Scheduled
    else wake_waiters p cnt (AcquireSRWLockExclusive s) = Inl BadObject"
proof -
  note loop = wake_loop [OF aw _ assms(2)]
  have l: "sched_lists (links_update (Unlink (WaitNode w)) (EndFiberWaitImpl w ResultSuccess
      (EndFiberWaitImpl p ResultSuccess (AcquireSRWLockExclusive s))))
      (relist w NormalPriorityList (relist p NormalPriorityList L)) (W(p := []))"
    using loop(2) by simp
  show ?thesis
    using loop(1,3,4) address_waiters_head(2) [OF aw] hand_over_none [OF l, of p] l
    by (auto simp: wake_waiters_def)
qed

text \<open>
  Waking one fiber of an address that two are waiting on wakes both; waking two or more of them
  (a broadcast) goes on to the list's sentinel as if it were a fiber. The comparison of the loop is
  \<open>count < i\<close>, and it unlinks the nodes it runs over.
\<close>

theorem wake_count_off:
  assumes "address_waiters s L W a p [w]" and "0 < cnt"
  shows "if cnt = 1 then \<exists>s'. WakeByAddressImpl a cnt s = Inr (Returned ResultSuccess, s') \<and>
      fiber_state (m_fibers s' p) = Scheduled \<and> fiber_state (m_fibers s' w) = Scheduled \<and>
      sched_lists s' (relist w NormalPriorityList (relist p NormalPriorityList L)) (W(p := []))
    else WakeByAddressImpl a cnt s = Inl BadObject"
proof -
  have "cnt \<noteq> 0" "a \<noteq> nullptr" using assms by (auto simp: address_waiters_def word_neq_0_conv)
  then have "WakeByAddressImpl a cnt s = and_then (wake_waiters p cnt (AcquireSRWLockExclusive s))
      (\<lambda>s. return_locked ResultSuccess s)"
    using address_waiters_head(1) [OF assms(1)] by (simp add: WakeByAddressImpl_def Let_def)
  then show ?thesis using wake_waiters_two [OF assms] by (auto simp: return_locked_def split: if_splits)
qed

text \<open>
  Three waiters, one woken: the head of the address is first put into the list of its priority
  and then taken off it again by the hand-over to the next head, so it is Scheduled and in no
  list; no pass of the scheduler will ever run it.
\<close>

theorem wake_loses_head:
  assumes "address_waiters s L W a p [w, x]" and "x \<notin> enlisted L"
  shows "\<exists>s' L'. WakeByAddressImpl a 1 s = Inr (Returned ResultSuccess, s') \<and>
    sched_lists s' L' (W(p := [])) \<and> fiber_state (m_fibers s' p) = Scheduled \<and> p \<notin> enlisted L' \<and>
    x \<in> set (L' SchedulerWaitList)"
proof -
  let ?s1 = "EndFiberWaitImpl p ResultSuccess (AcquireSRWLockExclusive s)"
  let ?s2 = "links_update (Unlink (WaitNode w)) (EndFiberWaitImpl w ResultSuccess ?s1)"
  let ?L2 = "relist w NormalPriorityList (relist p NormalPriorityList L)"
  note aw = assms(1)
  note loop = wake_loop [OF aw, of 1]
  have l2: "sched_lists ?s2 ?L2 (W(p := [x]))" using loop(2) by simp
  have d: "p \<noteq> x" "w \<noteq> x" "p \<noteq> w" "a \<noteq> nullptr" using aw by (auto simp: address_waiters_def)
  let ?s3 = "links_update (Unlink (WaitNode x)) ?s2"
  have pop: "pop_waiter p ?s2 = Inr (x, ?s3)" "sched_lists ?s3 ?L2 (W(p := []))"
    using pop_waiter_spec [OF l2, of p x "[]"] by simp_all
  let ?s4 = "links_update (Unlink (SchedulerNode p)) ?s3"
  let ?L4 = "\<lambda>h. remove1 p (?L2 h)"
  have l4: "sched_lists ?s4 ?L4 (W(p := []))" by (rule lists_unlink_scheduler [OF pop(2)])
  have "x \<notin> enlisted ?L2"
    using assms(2) d by (auto simp: relist_def enlisted_def split: if_splits dest: set_remove1_subset [THEN subsetD])
  then have x4: "x \<notin> enlisted ?L4"
    by (auto simp: enlisted_def dest: set_remove1_subset [THEN subsetD])
  let ?s5 = "links_update (PushBack SchedulerWaitList (SchedulerNode x)) ?s4"
  let ?L5 = "?L4(SchedulerWaitList := ?L4 SchedulerWaitList @ [x])"
  have l5: "sched_lists ?s5 ?L5 (W(p := []))" by (rule lists_push_scheduler [OF l4 _ x4]) simp
  have "hand_over p ?s2 = Inr ?s5"
    using IsEmpty_wait [OF l2, of p] pop transfer_none [OF pop(2), of p x] by (simp add: hand_over_def)
  then have "wake_waiters p 1 (AcquireSRWLockExclusive s) = Inr ?s5"
    using loop(1) address_waiters_head(2) [OF aw] by (simp add: wake_waiters_def)
  then have "WakeByAddressImpl a 1 s = Inr (Returned ResultSuccess, ReleaseSRWLockExclusive ?s5)"
    using address_waiters_head(1) [OF aw] d(4) by (simp add: WakeByAddressImpl_def Let_def return_locked_def)
  moreover have "p \<notin> enlisted ?L4" by (rule remove1_not_enlisted [OF pop(2)])
  then have "p \<notin> enlisted ?L5" using d(1) by (auto simp: enlisted_def split: if_splits)
  moreover have "fiber_state (m_fibers ?s5 p) = Scheduled" using loop(4) by simp
  ultimately show ?thesis using l5 by (intro exI [of _ "ReleaseSRWLockExclusive ?s5"] exI [of _ ?L5]) simp
qed

text \<open>
  Waking an address nobody waits on: \<open>WakeByAddressImpl\<close> reports \<open>ResultNoWaiters\<close> and changes
  nothing; the two calls that also change the word go on with a null pointer.
\<close>

theorem wake_without_waiters:
  assumes "sched_lists s L W" and "set (L SchedulerWaitList) \<subseteq> {..<MaxThreadCount}"
    and "\<forall>g\<in>set (L SchedulerWaitList). wait_address (m_fibers s g) \<noteq> a"
    and "a \<noteq> nullptr" and "0 < cnt"
  shows "(\<exists>s'. WakeByAddressImpl a cnt s = Inr (Returned ResultNoWaiters, s') \<and> \<not> m_scheduler_lock s' \<and>
      m_fibers s' = m_fibers s \<and> m_links s' = m_links s \<and> m_words s' = m_words s) \<and>
    WakeByAddressIncrementEqualImpl a (m_words s a) cnt s = Inl NullPointer \<and>
    WakeByAddressModifyLessThanImpl a (m_words s a) cnt s = Inl NullPointer"
proof -
  have none: "find_waiter a s' = Inr (None, s')" if "m_links s' = m_links s" "m_fibers s' = m_fibers s" for s'
  proof -
    have "sched_lists s' L W" using assms(1) that by (simp add: sched_lists_def)
    moreover have "find (\<lambda>f. wait_address (m_fibers s' f) = a) (L SchedulerWaitList) = None"
      using assms(3) that by (simp add: find_None_iff)
    ultimately show ?thesis using find_waiter_spec [of s' L W a] assms(2) by simp
  qed
  have "cnt \<noteq> 0" using assms(5) by (simp add: word_neq_0_conv)
  then show ?thesis
    using assms(4) none
    by (simp add: WakeByAddressImpl_def WakeByAddressIncrementEqualImpl_def WakeByAddressModifyLessThanImpl_def
        Let_def load_def store_def return_locked_def)
qed

text \<open>
  Signalling a key whose waiter finds its lock taken dereferences a null pointer: the owner is
  looked up under the mask \<open>0xbfffffff\<close> instead of the handle in the lock word.
\<close>

theorem signal_key_taken_lock:
  assumes "lock_address (m_fibers s f) \<noteq> nullptr" and "m_words s (lock_address (m_fibers s f)) \<noteq> 0"
  shows "SwapLockForSignalKey f s = Inl NullPointer"
proof -
  have "GetFiberByHandle (NOT HasChildWaitersBit) s' = Inr None" for s'
    by (simp add: GetFiberByHandle_def GetObjectByHandle_def HasChildWaitersBit_def)
  then show ?thesis
    using assms by (simp add: SwapLockForSignalKey_def load_def store_def Let_def)
qed

section \<open>Concrete waiters\<close>

text \<open>Fibers 1, 2 and 3 wait on address 16 in this order (or the first two of them).\<close>

definition address_fiber :: fiber_local_storage where
  "address_fiber = (example_fiber 2)\<lparr>waitable := Some WaitAddressArbiter, wait_address := 16, fiber_state := Waiting\<rparr>"

definition two_waiting :: user_scheduler where
  "two_waiting = links_update (PushBack (WaitList 1) (WaitNode 2))
    (links_update (PushBack SchedulerWaitList (SchedulerNode 1)) (blank\<lparr>m_fibers := (\<lambda>_. address_fiber)\<rparr>))"

definition three_waiting :: user_scheduler where
  "three_waiting = links_update (PushBack (WaitList 1) (WaitNode 3)) two_waiting"

definition one_registered :: "node \<Rightarrow> nat list" where
  "one_registered = (\<lambda>_. [])(SchedulerWaitList := [1])"

lemma two_waiting_lists: "sched_lists two_waiting one_registered ((\<lambda>_. [])(1 := [2]))"
proof -
  let ?s = "blank\<lparr>m_fibers := (\<lambda>_. address_fiber)\<rparr>"
  have "sched_lists ?s (\<lambda>_. []) (\<lambda>_. [])" by (rule unlinked_lists) (simp add: blank_def UserScheduler_def)
  then have "sched_lists (links_update (PushBack SchedulerWaitList (SchedulerNode 1)) ?s) one_registered (\<lambda>_. [])"
    using lists_push_scheduler [of ?s "\<lambda>_. []" "\<lambda>_. []" SchedulerWaitList 1] by (simp add: one_registered_def)
  from lists_push_waiter [OF this, of 2 1] show ?thesis by (simp add: two_waiting_def waiters_def)
qed

lemma three_waiting_lists: "sched_lists three_waiting one_registered ((\<lambda>_. [])(1 := [2, 3]))"
  using lists_push_waiter [OF two_waiting_lists, of 3 1] by (simp add: three_waiting_def waiters_def)

lemma address_fiber_fields:
  "waitable address_fiber = Some WaitAddressArbiter" "wait_address address_fiber = 16"
  "activity_level address_fiber = ActivityLevel_Schedulable" "priority address_fiber = 2"
  by (simp_all add: address_fiber_def example_fiber_def)

lemma two_address_waiters: "address_waiters two_waiting one_registered ((\<lambda>_. [])(1 := [2])) 16 1 [2]"
  using two_waiting_lists
  by (simp add: address_waiters_def one_registered_def MaxThreadCount_def nullptr_def two_waiting_def address_fiber_fields)

lemma three_address_waiters: "address_waiters three_waiting one_registered ((\<lambda>_. [])(1 := [2, 3])) 16 1 [2, 3]"
  using three_waiting_lists
  by (simp add: address_waiters_def one_registered_def MaxThreadCount_def nullptr_def three_waiting_def
      two_waiting_def address_fiber_fields)

theorem wake_count_off_witness:
  "(\<exists>s'. WakeByAddressImpl 16 1 two_waiting = Inr (Returned ResultSuccess, s') \<and>
      fiber_state (m_fibers s' 1) = Scheduled \<and> fiber_state (m_fibers s' 2) = Scheduled) \<and>
   WakeByAddressImpl 16 0xffffffff two_waiting = Inl BadObject"
  using wake_count_off [where cnt = 1, OF two_address_waiters] wake_count_off [where cnt = "0xffffffff", OF two_address_waiters]
  by auto

theorem wake_loses_head_witness:
  "\<exists>s' L'. WakeByAddressImpl 16 1 three_waiting = Inr (Returned ResultSuccess, s') \<and>
    sched_lists s' L' (((\<lambda>_. [])(1 := [2, 3]))(1 := [])) \<and> fiber_state (m_fibers s' 1) = Scheduled \<and>
    1 \<notin> enlisted L' \<and> 3 \<in> set (L' SchedulerWaitList)"
  by (rule wake_loses_head [OF three_address_waiters]) (auto simp: enlisted_def one_registered_def split: if_splits)

theorem wake_without_waiters_witness:
  "(\<exists>s'. WakeByAddressImpl 32 1 two_waiting = Inr (Returned ResultNoWaiters, s') \<and> \<not> m_scheduler_lock s' \<and>
      m_fibers s' = m_fibers two_waiting \<and> m_links s' = m_links two_waiting \<and> m_words s' = m_words two_waiting) \<and>
    WakeByAddressIncrementEqualImpl 32 (m_words two_waiting 32) 1 two_waiting = Inl NullPointer \<and>
    WakeByAddressModifyLessThanImpl 32 (m_words two_waiting 32) 1 two_waiting = Inl NullPointer"
  by (rule wake_without_waiters [OF two_waiting_lists])
    (simp_all add: one_registered_def MaxThreadCount_def two_waiting_def address_fiber_fields nullptr_def)

theorem signal_key_taken_lock_witness:
  "SwapLockForSignalKey 1 ((fiber_update 1 (lock_address_update (\<lambda>_. 8)) blank)\<lparr>m_words := (\<lambda>_. 5)\<rparr>) = Inl NullPointer"
  by (rule signal_key_taken_lock) (simp_all add: nullptr_def)

end
