(* ===== verification/Thread_Lifecycle.thy ===== *)
theory Thread_Lifecycle
  imports Scheduler_Props
begin

text \<open>
  The life of threads as a state machine: cores that run the scheduler, run a fiber or rest, and
  the thread calls a running fiber may make (create, start, suspend, resume, change the core mask,
  the priority or the name, sleep, exit). Each step is one of the definitions of \<open>Scheduler\<close>, cut
  where the code switches fibers or releases \<open>m_scheduler_lock\<close>.

  Shown here, for every reachable state: each thread is on exactly one core or in exactly one
  list, the list its priority and activity level ask for, and at most one core is inside the
  scheduler. \<open>SetThreadPriority\<close> with a value no list stands for and the waiting calls are not
  among the steps: they break this (\<open>set_priority_inverted\<close> below, \<open>Scheduler_Wait_Props\<close>).
\<close>

section \<open>Where every thread is\<close>

text \<open>
  \<open>placed s L R K\<close>: the lists are \<open>L\<close>, the fibers of \<open>R\<close> are on a core, and every other thread is
  in its list.
\<close>

definition placed :: "user_scheduler \<Rightarrow> (node \<Rightarrow> nat list) \<Rightarrow> nat set \<Rightarrow> nat set \<Rightarrow> bool" where
  "placed s L R K \<longleftrightarrow>
    sched_lists s L (\<lambda>_. []) \<and> allocator_wf (UserFiberLocalAllocator s) \<and>
    slot_count (UserFiberLocalAllocator s) = MaxThreadCount \<and> table_wf (m_handle_table s) \<and>
    (\<forall>f. waitable (m_fibers s f) = None) \<and>
    (\<forall>f\<in>live_slots (UserFiberLocalAllocator s) - K. priority (m_fibers s f) \<in> {0..4}) \<and>
    (\<forall>h f. is_scheduler_head h \<longrightarrow> f \<in> set (L h) \<longrightarrow>
      list_for (m_fibers s f) = Some h \<and> fiber_state (m_fibers s f) = state_for (m_fibers s f)) \<and>
    enlisted L = live_slots (UserFiberLocalAllocator s) - R - K \<and>
    K \<subseteq> live_slots (UserFiberLocalAllocator s) \<and> R \<subseteq> live_slots (UserFiberLocalAllocator s) - K \<and> (\<forall>f\<in>R. fiber_state (m_fibers s f) = Running) \<and>
    (\<forall>h f. GetFiberByHandle h s = Inr (Some f) \<longrightarrow>
      f \<in> live_slots (UserFiberLocalAllocator s) - K \<or> fiber_state (m_fibers s f) = Exiting)"

lemma list_for_exists: "priority x \<in> {0..4} \<Longrightarrow> \<exists>h. list_for x = Some h"
proof -
  assume "priority x \<in> {0..4}"
  then have "priority x = 0 \<or> priority x = 1 \<or> priority x = 2 \<or> priority x = 3 \<or> priority x = 4" by auto
  then show ?thesis by (auto simp: list_for_def)
qed

lemma placedD:
  assumes "placed s L R K"
  shows "sched_lists s L (\<lambda>_. [])" "enlisted L = live_slots (UserFiberLocalAllocator s) - R - K"
    and "is_scheduler_head h \<Longrightarrow> f \<in> set (L h) \<Longrightarrow> list_for (m_fibers s f) = Some h"
    and "is_scheduler_head h \<Longrightarrow> f \<in> set (L h) \<Longrightarrow> fiber_state (m_fibers s f) = state_for (m_fibers s f)"
    and "f \<in> live_slots (UserFiberLocalAllocator s) - K \<Longrightarrow> priority (m_fibers s f) \<in> {0..4}"
    and "waitable (m_fibers s f) = None"
    and "f \<in> R \<Longrightarrow> f \<in> live_slots (UserFiberLocalAllocator s) - K \<and> fiber_state (m_fibers s f) = Running"
    and "GetFiberByHandle g s = Inr (Some f) \<Longrightarrow>
      f \<in> live_slots (UserFiberLocalAllocator s) - K \<or> fiber_state (m_fibers s f) = Exiting"
  using assms by (auto simp: placed_def)

lemma placed_in_list:
  assumes "placed s L R K" and "f \<in> enlisted L" and "list_for (m_fibers s f) = Some h"
  shows "f \<in> set (L h)"
  using assms placedD(3) [OF assms(1)] by (auto simp: enlisted_def)

lemma placed_wait_list_empty:
  assumes "placed s L R K"
  shows "L SchedulerWaitList = []"
proof (rule ccontr)
  assume "L SchedulerWaitList \<noteq> []"
  then obtain f where "f \<in> set (L SchedulerWaitList)" by (meson last_in_set)
  then have "list_for (m_fibers s f) = Some SchedulerWaitList" using placedD(3) [OF assms] by simp
  then show False by (auto simp: list_for_def split: if_splits)
qed

lemma queued_enlisted: "set (queued L) \<subseteq> enlisted L"
  using priority_lists_heads by (auto simp: queued_def enlisted_def)

lemma placed_quiet:
  assumes "placed s L R K"
  shows "quiet s L (\<lambda>_. [])"
proof -
  have "live_slots (UserFiberLocalAllocator s) \<subseteq> {..<MaxThreadCount}"
    using assms live_slots_bounded by (fastforce simp: placed_def)
  then have "set (queued L) \<subseteq> {..<MaxThreadCount}"
    using queued_enlisted [of L] placedD(2) [OF assms] by blast
  then show ?thesis
    using assms placed_wait_list_empty [OF assms] by (simp add: quiet_def placed_def)
qed

lemma enlisted_push:
  "is_scheduler_head h \<Longrightarrow> enlisted (L(h := L h @ [f])) = insert f (enlisted L)"
  by (auto simp: enlisted_def split: if_splits)

lemma enlisted_remove:
  assumes "sched_lists s L W"
  shows "enlisted (\<lambda>h. remove1 f (L h)) = enlisted L - {f}"
  using lists_distinct [OF assms] by (auto simp: enlisted_def)

lemma enlisted_relist:
  assumes "sched_lists s L W" and "is_scheduler_head h"
  shows "enlisted (relist f h L) = insert f (enlisted L)"
  using enlisted_push [OF assms(2), of "\<lambda>h. remove1 f (L h)" f] enlisted_remove [OF assms(1), of f]
  by (auto simp: relist_def)

section \<open>How the operations move a thread\<close>

lemma placed_add:
  assumes "placed s L R K" and "f \<in> R"
  shows "\<exists>L'. placed (AddToSchedulerUnsafe f s) L' (R - {f}) K"
proof -
  have f: "f \<in> live_slots (UserFiberLocalAllocator s) - K" using assms placedD(7) by blast
  then obtain h where h: "list_for (m_fibers s f) = Some h"
    using list_for_exists [OF placedD(5) [OF assms(1)]] by auto
  have "f \<notin> enlisted L" using assms placedD(2) by blast
  then have l: "sched_lists (AddToSchedulerUnsafe f s) (L(h := L h @ [f])) (\<lambda>_. [])"
    using AddToSchedulerUnsafe_lists [OF placedD(1) [OF assms(1)] _ h] by simp
  have hh: "is_scheduler_head h" using h by (rule list_for_head)
  have notin: "f \<notin> set (L g)" if "is_scheduler_head g" for g
    using \<open>f \<notin> enlisted L\<close> that by (auto simp: enlisted_def)
  have "placed (AddToSchedulerUnsafe f s) (L(h := L h @ [f])) (R - {f}) K"
    using assms l h hh notin enlisted_push [OF hh, of L f] f
    unfolding placed_def GetFiberByHandle_def by (auto split: if_splits)
  then show ?thesis by blast
qed

lemma placed_take:
  assumes "placed s L R K" and "f \<in> enlisted L"
    and "sched_lists s' (\<lambda>h. remove1 f (L h)) (\<lambda>_. [])"
    and "m_fibers s' = (m_fibers s)(f := (m_fibers s f)\<lparr>fiber_state := Running, current_core := core\<rparr>)"
    and "m_handle_table s' = m_handle_table s" "UserFiberLocalAllocator s' = UserFiberLocalAllocator s"
  shows "placed s' (\<lambda>h. remove1 f (L h)) (insert f R) K"
proof -
  have "f \<notin> set (remove1 f (L h))" if "is_scheduler_head h" for h
    using lists_distinct [OF placedD(1) [OF assms(1)] that] by simp
  then show ?thesis
    using assms enlisted_remove [OF placedD(1) [OF assms(1)], of f]
    unfolding placed_def GetFiberByHandle_def by (auto dest: set_remove1_subset [THEN subsetD])
qed

text \<open>Changing a field of a fiber that leaves its list and its state as they are.\<close>

lemma placed_keep:
  assumes "placed s L R K" and "list_for (g (m_fibers s f)) = list_for (m_fibers s f)"
    and "state_for (g (m_fibers s f)) = state_for (m_fibers s f)"
    and "priority (m_fibers s f) \<in> {0..4} \<Longrightarrow> priority (g (m_fibers s f)) \<in> {0..4}"
    and "fiber_state (g (m_fibers s f)) = fiber_state (m_fibers s f)"
    and "waitable (g (m_fibers s f)) = None"
  shows "placed (fiber_update f g s) L R K"
proof -
  have "sched_lists (fiber_update f g s) L (\<lambda>_. [])"
    using placedD(1) [OF assms(1)] by (simp add: sched_lists_def)
  then show ?thesis
    using assms unfolding placed_def GetFiberByHandle_def by auto
qed

lemma placed_field:
  assumes "placed s L R K" and "activity_level (g (m_fibers s f)) = activity_level (m_fibers s f)"
    and "priority (g (m_fibers s f)) = priority (m_fibers s f)"
    and "fiber_state (g (m_fibers s f)) = fiber_state (m_fibers s f)"
    and "waitable (g (m_fibers s f)) = None"
  shows "placed (fiber_update f g s) L R K"
  using assms list_for_cong [OF assms(2)] by (intro placed_keep) simp_all

text \<open>The lock and the counters do not matter here.\<close>

lemma placed_cong:
  assumes "m_links s' = m_links s" "m_fibers s' = m_fibers s" "m_handle_table s' = m_handle_table s"
    "UserFiberLocalAllocator s' = UserFiberLocalAllocator s"
  shows "placed s' L R K = placed s L R K"
  using assms by (simp add: placed_def sched_lists_def GetFiberByHandle_def)

lemma placed_lock [simp]:
  "placed (AcquireSRWLockExclusive s) L R K = placed s L R K"
  "placed (ReleaseSRWLockExclusive s) L R K = placed s L R K"
  by (rule placed_cong; simp)+

text \<open>Changing the activity level, the priority or the core mask of a fiber in a list, and listing
  it again.\<close>

lemma placed_relist:
  assumes "placed s L R K" and "f \<in> enlisted L"
    and "priority (m_fibers s f) \<in> {0..4} \<Longrightarrow> priority (g (m_fibers s f)) \<in> {0..4}"
    and "waitable (g (m_fibers s f)) = None"
  shows "\<exists>L'. placed (AddToSchedulerUnsafe f (links_update (Unlink (SchedulerNode f)) (fiber_update f g s))) L' R K"
proof -
  let ?s = "fiber_update f g s"
  have f: "f \<in> live_slots (UserFiberLocalAllocator s) - K" "f \<notin> R" using assms(1,2) placedD(2) by blast+
  then obtain h where h: "list_for (g (m_fibers s f)) = Some h"
    using list_for_exists [OF assms(3) [OF placedD(5) [OF assms(1)]]] by blast
  have hh: "is_scheduler_head h" using h by (rule list_for_head)
  have s: "sched_lists ?s L (\<lambda>_. [])" using placedD(1) [OF assms(1)] by (simp add: sched_lists_def)
  have l: "sched_lists (AddToSchedulerUnsafe f (links_update (Unlink (SchedulerNode f)) ?s)) (relist f h L) (\<lambda>_. [])"
    using unlink_add_lists [OF s, of f h] h by simp
  have e: "enlisted (relist f h L) = enlisted L" using enlisted_relist [OF s hh, of f] assms(2) by auto
  have other: "x \<in> set (L g) \<and> x \<noteq> f \<or> x = f \<and> g = h" if "x \<in> set (relist f h L g)" "is_scheduler_head g" for x g
    using that lists_distinct [OF s that(2)] by (auto simp: relist_def split: if_splits dest: set_remove1_subset [THEN subsetD])
  have "placed (AddToSchedulerUnsafe f (links_update (Unlink (SchedulerNode f)) ?s)) (relist f h L) R K"
    unfolding placed_def GetFiberByHandle_def e
  proof (intro conjI allI impI)
    show "sched_lists (AddToSchedulerUnsafe f (links_update (Unlink (SchedulerNode f)) ?s)) (relist f h L) (\<lambda>_. [])"
      by (rule l)
    show "\<forall>x\<in>live_slots (UserFiberLocalAllocator (AddToSchedulerUnsafe f (links_update (Unlink (SchedulerNode f)) ?s))) - K.
        priority (m_fibers (AddToSchedulerUnsafe f (links_update (Unlink (SchedulerNode f)) ?s)) x) \<in> {0..4}"
      using placedD(5) [OF assms(1)] assms(3) by simp
  next
    fix g x assume gx: "is_scheduler_head g" "x \<in> set (relist f h L g)"
    then show "list_for (m_fibers (AddToSchedulerUnsafe f (links_update (Unlink (SchedulerNode f)) ?s)) x) = Some g"
      using other [OF gx(2,1)] h placedD(3) [OF assms(1)] by auto
    show "fiber_state (m_fibers (AddToSchedulerUnsafe f (links_update (Unlink (SchedulerNode f)) ?s)) x) =
        state_for (m_fibers (AddToSchedulerUnsafe f (links_update (Unlink (SchedulerNode f)) ?s)) x)"
      using other [OF gx(2,1)] gx(1) placedD(4) [OF assms(1)] by auto
  qed (use assms f in \<open>auto simp: placed_def GetFiberByHandle_def\<close>)
  then show ?thesis by blast
qed

text \<open>The three calls that change a field and list the fiber again.\<close>

lemma placed_set_field:
  assumes "placed s L R K" and "GetFiberByHandle handle s = Inr (Some f)"
    and "priority (m_fibers s f) \<in> {0..4} \<Longrightarrow> priority (g (m_fibers s f)) \<in> {0..4}"
    and "fiber_state (g (m_fibers s f)) = fiber_state (m_fibers s f)"
    and "waitable (g (m_fibers s f)) = None"
    and "fiber_state (m_fibers s f) = Suspended \<Longrightarrow> \<not> again \<Longrightarrow>
      activity_level (g (m_fibers s f)) = activity_level (m_fibers s f)"
  shows "\<exists>L'. placed (if fiber_state (m_fibers (fiber_update f g s) f) = Scheduled \<or>
        (again \<and> fiber_state (m_fibers (fiber_update f g s) f) = Suspended)
      then AddToSchedulerUnsafe f (links_update (Unlink (SchedulerNode f)) (fiber_update f g s))
      else fiber_update f g s) L' R K"
proof (cases "f \<in> enlisted L")
  case True
  then obtain h where h: "is_scheduler_head h" "f \<in> set (L h)" by (auto simp: enlisted_def)
  then have st: "fiber_state (m_fibers s f) = state_for (m_fibers s f)" by (rule placedD(4) [OF assms(1)])
  show ?thesis
  proof (cases "fiber_state (m_fibers s f) = Scheduled \<or> again")
    case True
    then have "fiber_state (m_fibers s f) = Scheduled \<or> (again \<and> fiber_state (m_fibers s f) = Suspended)"
      using st by (auto simp: state_for_def split: if_splits)
    then show ?thesis using placed_relist [where g = g, OF assms(1) \<open>f \<in> enlisted L\<close> assms(3,5)] assms(4) by simp
  next
    case False
    then have sus: "fiber_state (m_fibers s f) = Suspended" using st by (auto simp: state_for_def split: if_splits)
    then have "activity_level (m_fibers s f) = ActivityLevel_Suspended" using st by (simp add: state_for_def split: if_splits)
    then have "list_for (g (m_fibers s f)) = list_for (m_fibers s f)" "state_for (g (m_fibers s f)) = state_for (m_fibers s f)"
      using assms(6) [OF sus] False by (simp_all add: list_for_def state_for_def)
    from placed_keep [where g = g, OF assms(1) this assms(3,4,5)] show ?thesis
      using assms(4) False sus by auto
  qed
next
  case False
  then have st: "fiber_state (m_fibers s f) = Running \<or> fiber_state (m_fibers s f) = Exiting"
    using placedD(2,7,8) [OF assms(1)] assms(2) by auto
  have "f \<notin> set (L h)" if "is_scheduler_head h" for h using False that by (auto simp: enlisted_def)
  moreover have "sched_lists (fiber_update f g s) L (\<lambda>_. [])"
    using placedD(1) [OF assms(1)] by (simp add: sched_lists_def)
  ultimately have "placed (fiber_update f g s) L R K"
    using assms(1,3,4,5) unfolding placed_def GetFiberByHandle_def by auto
  then show ?thesis using st assms(4) by auto
qed

lemma allocate_fiber_spec:
  assumes "placed s L R K" and "allocate_fiber s = Inr (p, s')"
  shows "case p of None \<Rightarrow> s' = s
    | Some f \<Rightarrow> f \<notin> live_slots (UserFiberLocalAllocator s) \<and>
        (\<exists>a. s' = s\<lparr>UserFiberLocalAllocator := a\<rparr> \<and> allocator_wf a \<and> slot_count a = MaxThreadCount \<and>
          live_slots a = insert f (live_slots (UserFiberLocalAllocator s)))"
proof (cases "live_slots (UserFiberLocalAllocator s) = {..<slot_count (UserFiberLocalAllocator s)}")
  case True
  then have "Allocate () (UserFiberLocalAllocator s) = Inr (None, UserFiberLocalAllocator s)"
    using assms(1) by (intro Allocate_full) (simp_all add: placed_def)
  then show ?thesis using assms(2) by (auto simp: allocate_fiber_def)
next
  case False
  then obtain f a where a: "Allocate () (UserFiberLocalAllocator s) = Inr (Some f, a)" "allocator_wf a"
      "f \<notin> live_slots (UserFiberLocalAllocator s)"
      "live_slots a = insert f (live_slots (UserFiberLocalAllocator s))" "slot_count a = MaxThreadCount"
    using assms(1) Allocate_slot [of "UserFiberLocalAllocator s" "()"] by (auto simp: placed_def)
  have l: "rings (m_links s) {h. is_head h} (list_view L (\<lambda>_. []))"
    using placedD(1) [OF assms(1)] by (simp add: sched_lists_def)
  have "f \<notin> enlisted L" using a(3) placedD(2) [OF assms(1)] by blast
  then have u: "unlinked (m_links s) (SchedulerNode f)" "unlinked (m_links s) (WaitNode f)"
    using rings_unlinked [OF l, of "SchedulerNode f"] rings_unlinked [OF l, of "WaitNode f"]
    by (simp_all add: waiters_def)
  have "unlinked (m_links s) (WaitList f)"
    using rings_ring [OF l, of "WaitList f"] by simp
  with u a assms(2) show ?thesis
    by (auto simp: allocate_fiber_def links_update_def IntrusiveListNode_unlinked)
qed

lemma placed_new:
  assumes "placed s L R K" and "f \<notin> live_slots (UserFiberLocalAllocator s)"
    and "allocator_wf a" "slot_count a = MaxThreadCount"
    and "live_slots a = insert f (live_slots (UserFiberLocalAllocator s))"
    and "ReserveHandle (Some f) (m_handle_table s) = Inr (Some h, t)"
    and "m_links s' = PushBack SuspendList (SchedulerNode f) (m_links s)"
    and "m_fibers s' = (m_fibers s)(f := x)" and "m_handle_table s' = t" and "UserFiberLocalAllocator s' = a"
    and "activity_level x = ActivityLevel_Suspended" "priority x \<in> {0..4}" "fiber_state x = Suspended" "waitable x = None"
  shows "placed s' (L(SuspendList := L SuspendList @ [f])) R K"
proof -
  have f: "f \<notin> enlisted L" "f \<notin> R" "f \<notin> K"
    using assms(1,2) by (auto simp: placed_def)
  have l: "sched_lists s' (L(SuspendList := L SuspendList @ [f])) (\<lambda>_. [])"
    using lists_push_scheduler [OF placedD(1) [OF assms(1)] _ f(1), of SuspendList] assms(7)
    by (simp add: sched_lists_def)
  have x: "list_for x = Some SuspendList" "state_for x = Suspended"
    using assms(11) by (simp_all add: list_for_def state_for_def)
  have t: "table_wf t" "GetObjectByHandle g t = (if g = h then Inr (Some f) else GetObjectByHandle g (m_handle_table s))" for g
    using assms(1,6) ht.reserve_wf [of "m_handle_table s" f "Some h" t] ht.reserve_lookup [of "m_handle_table s" f h t g]
    by (simp_all add: placed_def)
  have notin: "f \<notin> set (L g)" if "is_scheduler_head g" for g
    using f(1) that by (auto simp: enlisted_def)
  have e: "enlisted (L(SuspendList := L SuspendList @ [f])) = insert f (enlisted L)"
    by (rule enlisted_push) simp
  show ?thesis
    unfolding placed_def GetFiberByHandle_def e assms(8-10) t(2) assms(5)
  proof (intro conjI)
    show "\<forall>h g. is_scheduler_head h \<longrightarrow> g \<in> set ((L(SuspendList := L SuspendList @ [f])) h) \<longrightarrow>
        list_for (((m_fibers s)(f := x)) g) = Some h \<and>
        fiber_state (((m_fibers s)(f := x)) g) = state_for (((m_fibers s)(f := x)) g)"
      using x assms(13) placedD(3,4) [OF assms(1)] placedD(4) [OF assms(1), of SuspendList]
        placedD(3) [OF assms(1), of SuspendList] notin by (auto split: if_splits)
    show "insert f (enlisted L) = insert f (live_slots (UserFiberLocalAllocator s)) - R - K"
      using placedD(2) [OF assms(1)] f by auto
  qed (use assms f l t(1) in \<open>auto simp: placed_def GetFiberByHandle_def\<close>)
qed

lemma placed_leak:
  assumes "placed s L R K" and "f \<notin> live_slots (UserFiberLocalAllocator s)"
    and "allocator_wf a" "slot_count a = MaxThreadCount"
    and "live_slots a = insert f (live_slots (UserFiberLocalAllocator s))"
  shows "placed (s\<lparr>UserFiberLocalAllocator := a\<rparr>) L R (insert f K)"
  using assms unfolding placed_def GetFiberByHandle_def sched_lists_def by auto

lemma priority_range: "- 2 \<le> p \<Longrightarrow> p \<le> 2 \<Longrightarrow> p + WindowsToUKernPriorityOffset \<in> {0..4}"
  by (simp add: WindowsToUKernPriorityOffset_def)

lemma SetInitialFiberNameUnsafe_eq:
  "SetInitialFiberNameUnsafe f s = fiber_update f (\<lambda>x. if user_function x = nullptr
     then x\<lparr>fiber_name_storage := strncpy ''MainThread'' MaxFiberNameLength\<rparr>
     else fiber_name_storage_update (snprintf_name (''Thread0x'' @ hex8 (user_function x))) x) s"
  by (simp add: SetInitialFiberNameUnsafe_def fiber_update_def)

definition created_fiber :: "u32 \<Rightarrow> int \<Rightarrow> u64 \<Rightarrow> u32 \<Rightarrow> u64 \<Rightarrow> address \<Rightarrow> address \<Rightarrow> fiber_local_storage \<Rightarrow> fiber_local_storage" where
  "created_fiber h prio bytes core arg fn new_fiber = (\<lambda>x. win32_fiber_handle_update (\<lambda>_. new_fiber) ((\<lambda>x. if user_function x = nullptr
     then x\<lparr>fiber_name_storage := strncpy ''MainThread'' MaxFiberNameLength\<rparr>
     else fiber_name_storage_update (snprintf_name (''Thread0x'' @ hex8 (user_function x))) x)
    (x\<lparr>ukern_fiber_handle := h, priority := prio + WindowsToUKernPriorityOffset, stack_size := bytes,
       core_mask := core_flag core, user_arg := arg, user_function := fn,
       fiber_state := Suspended, activity_level := ActivityLevel_Suspended\<rparr>)))"

lemma created_fiber_fields:
  "activity_level (created_fiber h prio bytes core arg fn new_fiber x) = ActivityLevel_Suspended"
  "priority (created_fiber h prio bytes core arg fn new_fiber x) = prio + WindowsToUKernPriorityOffset"
  "fiber_state (created_fiber h prio bytes core arg fn new_fiber x) = Suspended"
  "waitable (created_fiber h prio bytes core arg fn new_fiber x) = waitable x"
  "ukern_fiber_handle (created_fiber h prio bytes core arg fn new_fiber x) = h"
  "core_mask (created_fiber h prio bytes core arg fn new_fiber x) = core_flag core"
  "user_function (created_fiber h prio bytes core arg fn new_fiber x) = fn"
  by (simp_all add: created_fiber_def)

lemma fiber_update_twice: "fiber_update f g (fiber_update f g' s) = fiber_update f (g \<circ> g') s"
  by (simp add: fiber_update_def)

lemma placed_create:
  assumes "placed s L R K" and "CreateThreadImpl fn arg bytes prio core new_fiber s = Inr (r, s')"
  shows "\<exists>L' K'. placed s' L' R K' \<and> (\<exists>v. r = Returned v) \<and> (\<not> m_scheduler_lock s \<longrightarrow> \<not> m_scheduler_lock s')"
proof -
  let ?s = "AcquireSRWLockExclusive s"
  have p: "placed ?s L R K" using assms(1) by simp
  consider (fail) v where "s' = s" "r = Returned v"
    | (run) q s1 where "allocate_fiber ?s = Inr (q, s1)" "- 2 \<le> prio" "prio \<le> 2"
      "(case q of None \<Rightarrow> return_locked (ResultThreadStorageExhaustion, None) s1
       | Some f \<Rightarrow>
         and_then (ReserveHandle (Some f) (m_handle_table s1)) (\<lambda>(h, t).
         let s = s1\<lparr>m_handle_table := t\<rparr> in
         case h of None \<Rightarrow> return_locked (ResultHandleExhaustion, None) s
         | Some h \<Rightarrow>
           let s = fiber_update f (\<lambda>x. x\<lparr>ukern_fiber_handle := h,
                 priority := prio + WindowsToUKernPriorityOffset, stack_size := bytes,
                 core_mask := core_flag core, user_arg := arg, user_function := fn,
                 fiber_state := Suspended, activity_level := ActivityLevel_Suspended\<rparr>) s;
               s = SetInitialFiberNameUnsafe f s;
               s = fiber_update f (win32_fiber_handle_update (\<lambda>_. new_fiber)) s in
           and_then (dd_assert (new_fiber \<noteq> 0) s) (\<lambda>s.
           let s = links_update (PushBack SuspendList (SchedulerNode f)) s in
           return_locked (ResultSuccess, Some (ukern_fiber_handle (m_fibers s f))) s))) = Inr (r, s')"
    using assms(2) unfolding CreateThreadImpl_def core_bit_def Let_def
    by (auto simp: and_then_Inr_iff split: if_splits)
  then show ?thesis
  proof cases
    case fail
    then show ?thesis using assms(1) by blast
  next
    case run
    note alloc = allocate_fiber_spec [OF p run(1)]
    show ?thesis
    proof (cases q)
      case None
      then have "placed s' L R K \<and> (\<exists>v. r = Returned v) \<and> \<not> m_scheduler_lock s'"
        using run(4) alloc p by (auto simp: return_locked_def)
      then show ?thesis by blast
    next
      case (Some f)
      then obtain a where a: "f \<notin> live_slots (UserFiberLocalAllocator ?s)" "s1 = ?s\<lparr>UserFiberLocalAllocator := a\<rparr>"
          "allocator_wf a" "slot_count a = MaxThreadCount"
          "live_slots a = insert f (live_slots (UserFiberLocalAllocator ?s))"
        using alloc by auto
      obtain h t where ht: "ReserveHandle (Some f) (m_handle_table ?s) = Inr (h, t)"
        using run(4) Some a(2) by (auto simp: and_then_Inr_iff)
      show ?thesis
      proof (cases h)
        case None
        then have "t = m_handle_table ?s"
          using ht p ht.reserve_None [of "m_handle_table ?s" f t] by (simp add: placed_def)
        then have "s' = ReleaseSRWLockExclusive s1" "\<exists>v. r = Returned v"
          using run(4) Some None ht a(2)
          by (auto simp: return_locked_def intro!: arg_cong [where f = ReleaseSRWLockExclusive] user_scheduler.equality)
        then have "placed s' L R (insert f K) \<and> (\<exists>v. r = Returned v) \<and> \<not> m_scheduler_lock s'"
          using placed_leak [OF p a(1,3,4,5)] a(2) by simp
        then show ?thesis by blast
      next
        case (Some h')
        let ?s2 = "?s\<lparr>UserFiberLocalAllocator := a, m_handle_table := t\<rparr>"
        let ?s3 = "links_update (PushBack SuspendList (SchedulerNode f)) (fiber_update f
          (created_fiber h' prio bytes core arg fn new_fiber) ?s2)"
        have e: "s' = ReleaseSRWLockExclusive ?s3" "\<exists>v. r = Returned v"
          using run(4) \<open>q = Some f\<close> Some ht a(2)
          by (auto simp: return_locked_def dd_assert_def SetInitialFiberNameUnsafe_eq Let_def
              fiber_update_twice created_fiber_def comp_def split: if_splits)
        have "placed ?s3 (L(SuspendList := L SuspendList @ [f])) R K"
        proof (rule placed_new [OF p a(1,3,4,5)])
          show "ReserveHandle (Some f) (m_handle_table ?s) = Inr (Some h', t)" using ht Some by simp
          show "m_fibers ?s3 = (m_fibers ?s)(f := created_fiber h' prio bytes core arg fn new_fiber (m_fibers ?s f))"
            by simp
        qed (use created_fiber_fields placedD(6) [OF p] priority_range [OF run(2,3)] in simp_all)
        with e show ?thesis by auto
      qed
    qed
  qed
qed

lemma placed_exit:
  assumes "placed s L R K" and "f \<in> R" and "0 < f"
    and "Free f (UserFiberLocalAllocator s) = Inr a"
  shows "placed ((fiber_update f (fiber_state_update (\<lambda>_. Exiting)) s)\<lparr>UserFiberLocalAllocator := a\<rparr>) L (R - {f}) K"
proof -
  have f: "f \<in> live_slots (UserFiberLocalAllocator s)" "f \<notin> K" "f \<notin> enlisted L"
    using placedD(2,7) [OF assms(1)] assms(2) by blast+
  have a: "allocator_wf a" "live_slots a = live_slots (UserFiberLocalAllocator s) - {f}"
      "slot_count a = slot_count (UserFiberLocalAllocator s)"
    using fixed.release_slot [of "UserFiberLocalAllocator s" f] f(1) assms by (auto simp: placed_def)
  have "f \<notin> set (L g)" if "is_scheduler_head g" for g using f(3) that by (auto simp: enlisted_def)
  then show ?thesis
    using assms(1,2) a f unfolding placed_def GetFiberByHandle_def sched_lists_def by auto
qed

section \<open>The machine\<close>

datatype core_pc = Starting | Scheduling | InFiber nat | Resting

text \<open>
  \<open>saved f\<close>: what is left of the call in which fiber \<open>f\<close> last switched away (\<open>None\<close>: it has not
  run yet). \<open>main_loop\<close>: the scheduler fiber of core 0 has been entered; the first switch of the
  main thread enters it at \<open>InternalSchedulerMainThreadFiberMain\<close>.
\<close>

record machine =
  ukernel :: user_scheduler
  cores :: "nat \<Rightarrow> core_pc"
  saved :: "nat \<Rightarrow> continuation option"
  main_loop :: bool

datatype thread_call = Create address u64 u64 u32 u32 address | Activity u32 u16 | CoreMask u32 u64
  | Priority u32 u32 | Name u32 "string option" | NamePointer u32 "string option" | SleepUntil u64 | ExitTurn u32

text \<open>
  A priority one of the five lists stands for, or one that is refused. (The others are accepted and
  lose the thread: \<open>set_priority_inverted\<close>.)
\<close>

fun usable_call :: "thread_call \<Rightarrow> bool" where
  "usable_call (Priority handle prio) \<longleftrightarrow> - 2 \<le> sint prio \<and> sint prio \<le> 4"
| "usable_call _ \<longleftrightarrow> True"

text \<open>A call made by fiber \<open>this\<close>: what it leaves to do when it switches, \<open>None\<close> when it returns.\<close>

definition leaves :: "('r call \<times> user_scheduler) outcome \<Rightarrow> (continuation option \<times> user_scheduler) outcome" where
  "leaves m = and_then m (\<lambda>(r, s). case r of Returned _ \<Rightarrow> Inr (None, s) | Switched _ k \<Rightarrow> Inr (Some k, s))"

lemma leaves_Inr:
  "leaves m = Inr (r, s') \<longleftrightarrow>
    (\<exists>q. m = Inr (q, s') \<and> r = (case q of Returned _ \<Rightarrow> None | Switched _ k \<Rightarrow> Some k))"
proof (cases m)
  case (Inr p)
  obtain q s where "p = (q, s)" by force
  with Inr show ?thesis by (cases q) (auto simp: leaves_def)
qed (simp add: leaves_def)

fun exec :: "thread_call \<Rightarrow> nat \<Rightarrow> user_scheduler \<Rightarrow> (continuation option \<times> user_scheduler) outcome" where
  "exec (Create fn arg bytes prio core new_fiber) this s = leaves (CreateThread fn arg bytes prio core new_fiber s)"
| "exec (Activity handle level) this s = leaves (SetActivityImpl handle level s)"
| "exec (CoreMask handle new_mask) this s = leaves (SetThreadCoreMask handle new_mask s)"
| "exec (Priority handle prio) this s = leaves (SetThreadPriority handle prio s)"
| "exec (Name handle name) this s = and_then (SetThreadName handle name s) (\<lambda>s. Inr (None, s))"
| "exec (NamePointer handle name) this s = and_then (SetThreadNamePointer handle name s) (\<lambda>s. Inr (None, s))"
| "exec (SleepUntil t) this s = leaves (SleepThreadImpl this t s)"
| "exec (ExitTurn handle) this s = leaves (ExitThread_turn this handle s)"

definition enter_fiber :: "nat \<Rightarrow> continuation option \<Rightarrow> user_scheduler \<Rightarrow> user_scheduler" where
  "enter_fiber f c s = (case c of None \<Rightarrow> UserFiberMain_begin s | Some k \<Rightarrow> snd (resume_call f k s))"

text \<open>Core \<open>c\<close> is back in the scheduler after fiber \<open>f\<close> switched to it.\<close>

definition after_switch :: "machine \<Rightarrow> nat \<Rightarrow> nat \<Rightarrow> continuation option \<Rightarrow> user_scheduler \<Rightarrow> machine" where
  "after_switch m c f k s = m\<lparr>ukernel := s, cores := (cores m)(c := Scheduling),
    saved := (saved m)(f := k), main_loop := (main_loop m \<or> c = 0)\<rparr>"

inductive machine_step :: "machine \<Rightarrow> machine \<Rightarrow> bool" where
  start: "cores m c = Starting \<Longrightarrow> c < MaxCoreCount \<Longrightarrow> \<not> m_scheduler_lock (ukernel m) \<Longrightarrow>
    InternalSchedulerFiberMain (of_nat c) converted (ukernel m) = Inr s \<Longrightarrow>
    machine_step m (m\<lparr>ukernel := s, cores := (cores m)(c := Scheduling)\<rparr>)"
| dispatch: "cores m c = Scheduling \<Longrightarrow> scheduler_pass (of_nat c) tick (ukernel m) = Inr (Some f, s) \<Longrightarrow>
    machine_step m (m\<lparr>ukernel := enter_fiber f (saved m f) s, cores := (cores m)(c := InFiber f)\<rparr>)"
| rest: "cores m c = Scheduling \<Longrightarrow> scheduler_pass (of_nat c) tick (ukernel m) = Inr (None, s) \<Longrightarrow>
    rest_begin (of_nat c) s = Inr (t, s') \<Longrightarrow>
    machine_step m (m\<lparr>ukernel := s', cores := (cores m)(c := Resting)\<rparr>)"
| rest_over: "cores m c = Resting \<Longrightarrow> \<not> m_scheduler_lock (ukernel m) \<Longrightarrow>
    machine_step m (m\<lparr>ukernel := rest_no_time (ukernel m), cores := (cores m)(c := Scheduling)\<rparr>)"
| woken: "cores m c = Resting \<Longrightarrow> \<not> m_scheduler_lock (ukernel m) \<Longrightarrow>
    rest_woken (of_nat c) (ukernel m) = Inr (Leave_rest, s) \<Longrightarrow>
    machine_step m (m\<lparr>ukernel := s, cores := (cores m)(c := Scheduling)\<rparr>)"
| woken_again: "cores m c = Resting \<Longrightarrow> \<not> m_scheduler_lock (ukernel m) \<Longrightarrow>
    rest_woken (of_nat c) (ukernel m) = Inr (Rest_again t, s) \<Longrightarrow> machine_step m (m\<lparr>ukernel := s\<rparr>)"
| returns: "cores m c = InFiber f \<Longrightarrow> \<not> m_scheduler_lock (ukernel m) \<Longrightarrow>
    exec call f (ukernel m) = Inr (None, s) \<Longrightarrow> usable_call call \<Longrightarrow> machine_step m (m\<lparr>ukernel := s\<rparr>)"
| switches: "cores m c = InFiber f \<Longrightarrow> \<not> m_scheduler_lock (ukernel m) \<Longrightarrow>
    exec call f (ukernel m) = Inr (Some k, s) \<Longrightarrow> c \<noteq> 0 \<or> main_loop m \<Longrightarrow>
    Dispatch_end f (of_nat c) s = Inr s' \<Longrightarrow> usable_call call \<Longrightarrow> machine_step m (after_switch m c f (Some k) s')"
| first_switch: "cores m 0 = InFiber f \<Longrightarrow> \<not> m_scheduler_lock (ukernel m) \<Longrightarrow> \<not> main_loop m \<Longrightarrow>
    exec call f (ukernel m) = Inr (Some k, s) \<Longrightarrow> usable_call call \<Longrightarrow>
    machine_step m (after_switch m 0 f (Some k) (InternalSchedulerMainThreadFiberMain f s))"
| exits: "cores m c = InFiber f \<Longrightarrow> \<not> m_scheduler_lock (ukernel m) \<Longrightarrow> 0 < f \<Longrightarrow>
    UserFiberMain_end f (ukernel m) = Inr (Switched k NeverResumed, s) \<Longrightarrow>
    Dispatch_end f (of_nat c) s = Inr s' \<Longrightarrow> machine_step m (after_switch m c f None s')"

inductive_cases machine_stepE: "machine_step m m'"

text \<open>
  The start: \<open>InitializeUKern\<close> on zeroed memory has made the main thread (the slot the allocator
  hands out first) run on core 0 and started the other cores.
\<close>

definition booted :: "machine \<Rightarrow> bool" where
  "booted m \<longleftrightarrow> (\<exists>mask h main_fiber scheduler_fiber new_thread.
    InitializeUKern mask h main_fiber scheduler_fiber new_thread blank = Inr (ukernel m) \<and>
    cores m = (\<lambda>c. Starting)(0 := InFiber 0) \<and> saved m = (\<lambda>_. None) \<and> \<not> main_loop m)"

definition reachable :: "machine \<Rightarrow> bool" where
  "reachable m \<longleftrightarrow> (\<exists>m0. booted m0 \<and> machine_step\<^sup>*\<^sup>* m0 m)"

section \<open>The invariant of the machine\<close>

definition in_cores :: "(nat \<Rightarrow> core_pc) \<Rightarrow> nat set" where
  "in_cores cs = {f. \<exists>c. cs c = InFiber f}"

definition cores_ok :: "bool \<Rightarrow> (nat \<Rightarrow> core_pc) \<Rightarrow> bool" where
  "cores_ok lock cs \<longleftrightarrow>
    (\<forall>c d f. cs c = InFiber f \<longrightarrow> cs d = InFiber f \<longrightarrow> c = d) \<and>
    (\<forall>c d. cs c = Scheduling \<longrightarrow> cs d = Scheduling \<longrightarrow> c = d) \<and>
    (lock \<longleftrightarrow> (\<exists>c. cs c = Scheduling)) \<and> (\<forall>c. cs c \<noteq> Starting \<longrightarrow> c < MaxCoreCount)"

definition machine_inv :: "machine \<Rightarrow> bool" where
  "machine_inv m \<longleftrightarrow> (\<exists>L K. placed (ukernel m) L (in_cores (cores m)) K) \<and>
    cores_ok (m_scheduler_lock (ukernel m)) (cores m)"

lemma placed_release_dangling:
  assumes "placed s L R K"
  shows "placed (enter_fiber f k s) L R K \<and> \<not> m_scheduler_lock (enter_fiber f k s)"
proof (cases k)
  case (Some c)
  have "placed (fiber_update f (waitable_update (map_option (\<lambda>_. Dangling))) s) L R K"
    using placed_field [OF assms, of "waitable_update (map_option (\<lambda>_. Dangling))" f] placedD(6) [OF assms] by simp
  then show ?thesis using Some by (simp add: enter_fiber_def resume_call_def Let_def)
qed (use assms in \<open>simp add: enter_fiber_def UserFiberMain_begin_def\<close>)

lemma placed_pass:
  assumes "placed s L R K" and "scheduler_pass core tick s = Inr (p, s')" and "unat core < 32"
  shows "case p of None \<Rightarrow> s' = s
    | Some f \<Rightarrow> f \<notin> R \<and> placed s' (\<lambda>h. remove1 f (L h)) (insert f R) K \<and>
        m_scheduler_lock s' = m_scheduler_lock s"
proof -
  have b: "core_bit core = Inr (core_flag core)" using assms(3) by (simp add: core_bit_def)
  note eq = scheduler_pass_eq [OF placed_quiet [OF assms(1)] b, of tick]
  let ?P = "\<lambda>f. can_run (core_flag core) tick (m_fibers s f)"
  show ?thesis
  proof (cases "find ?P (queued L)")
    case None
    then show ?thesis using eq assms(2) by simp
  next
    case (Some f)
    then have f: "f \<in> enlisted L" using queued_enlisted by (metis (no_types, lifting) find_Some_iff nth_mem subsetD)
    have "and_then (Dispatch_begin f core s) (\<lambda>s. Inr (Some f, s)) = Inr (p, s')"
      using eq Some assms(2) by simp
    then have p: "p = Some f" "Dispatch_begin f core s = Inr s'" by (auto simp: and_then_Inr_iff)
    have "core < m_core_count s"
      using p(2) by (simp add: Dispatch_begin_def Let_def dd_assert_def split: if_splits)
    then have "placed s' (\<lambda>h. remove1 f (L h)) (insert f R) K \<and> m_scheduler_lock s' = m_scheduler_lock s"
      using Dispatch_begin_spec [OF placedD(1) [OF assms(1)], of core f] p(2)
        placed_take [OF assms(1) f, of s' core] by auto
    then show ?thesis using p(1) f placedD(2) [OF assms(1)] by auto
  qed
qed

text \<open>A call of the machine: threads stay in place, and the lock is released or still held.\<close>

lemma placed_set_call:
  assumes "placed s L R K" and "GetFiberByHandle handle s = Inr (Some f)"
    and "priority (m_fibers s f) \<in> {0..4} \<Longrightarrow> priority (g (m_fibers s f)) \<in> {0..4}"
    and "fiber_state (g (m_fibers s f)) = fiber_state (m_fibers s f)"
    and "waitable (g (m_fibers s f)) = None"
    and "fiber_state (m_fibers s f) = Suspended \<Longrightarrow> \<not> again \<Longrightarrow>
      activity_level (g (m_fibers s f)) = activity_level (m_fibers s f)"
    and "s' = ReleaseSRWLockExclusive (let s = fiber_update f g (AcquireSRWLockExclusive s) in
      if fiber_state (m_fibers s f) = Scheduled \<or> (again \<and> fiber_state (m_fibers s f) = Suspended)
      then AddToSchedulerUnsafe f (links_update (Unlink (SchedulerNode f)) s) else s)"
  shows "\<exists>L'. placed s' L' R K \<and> \<not> m_scheduler_lock s'"
proof -
  have p: "placed (AcquireSRWLockExclusive s) L R K" using assms(1) by simp
  show ?thesis
    unfolding assms(7) Let_def using placed_set_field [OF p, of handle f g again] assms(2-6) by simp
qed

lemma sleep_placed:
  assumes "placed s L R K" and "leaves (SleepThreadImpl f t s) = Inr (r, s')"
  shows "placed s' L R K \<and> m_scheduler_lock s' \<and> r \<noteq> None"
proof -
  let ?s = "if t \<noteq> 0 then fiber_update f (timeout_update (\<lambda>_. t)) (AcquireSRWLockExclusive s)
    else AcquireSRWLockExclusive s"
  have "placed ?s L R K"
    using assms(1) placedD(6) [OF assms(1)] by (auto intro: placed_field)
  moreover have "s' = ?s" "r \<noteq> None"
    using assms(2) by (auto simp: leaves_Inr SleepThreadImpl_def switch_to_scheduler_def Let_def and_then_Inr_iff)
  ultimately show ?thesis by simp
qed

text \<open>The shape the three calls share that change a field and list the fiber again.\<close>

definition set_call :: "u32 \<Rightarrow> (fiber_local_storage \<Rightarrow> bool) \<Rightarrow> u32 \<Rightarrow> (fiber_local_storage \<Rightarrow> fiber_local_storage) \<Rightarrow> bool
    \<Rightarrow> user_scheduler \<Rightarrow> (u32 call \<times> user_scheduler) outcome" where
  "set_call handle same refused g again s =
    and_then (GetFiberByHandle handle s) (\<lambda>p.
    case p of None \<Rightarrow> Inr (Returned ResultInvalidHandle, s)
    | Some f \<Rightarrow>
      let s = AcquireSRWLockExclusive s in
      if same (m_fibers s f) then return_locked refused s
      else return_locked ResultSuccess (let s = fiber_update f g s in
        if fiber_state (m_fibers s f) = Scheduled \<or> (again \<and> fiber_state (m_fibers s f) = Suspended)
        then AddToSchedulerUnsafe f (links_update (Unlink (SchedulerNode f)) s) else s))"

lemma set_calls:
  "SetActivityImpl handle level s =
    set_call handle (\<lambda>x. activity_level x = level) ResultSameActivityLevel (activity_level_update (\<lambda>_. level)) True s"
  "SetCoreMaskImpl handle new_mask s =
    set_call handle (\<lambda>x. core_mask x = new_mask) ResultSameCoreMask (core_mask_update (\<lambda>_. new_mask)) False s"
  "SetPriorityImpl handle prio s = (if - 2 \<le> prio \<and> prio \<le> 2 then Inr (Returned ResultInvalidPriority, s)
    else set_call handle (\<lambda>x. priority x = prio) ResultSamePriority (priority_update (\<lambda>_. prio)) False s)"
  by (simp_all only: SetActivityImpl_def SetCoreMaskImpl_def SetPriorityImpl_def set_call_def Let_def simp_thms)

lemma set_call_placed:
  assumes "placed s L R K" and "leaves (set_call handle same refused g again s) = Inr (r, s')" and "\<not> m_scheduler_lock s"
    and "\<And>x. priority x \<in> {0..4} \<Longrightarrow> priority (g x) \<in> {0..4}" "\<And>x. fiber_state (g x) = fiber_state x"
      "\<And>x. waitable (g x) = waitable x" "\<And>x. \<not> again \<Longrightarrow> activity_level (g x) = activity_level x"
  shows "\<exists>L'. placed s' L' R K \<and> \<not> m_scheduler_lock s' \<and> r = None"
proof -
  obtain q where q: "set_call handle same refused g again s = Inr (q, s')"
      "r = (case q of Returned _ \<Rightarrow> None | Switched _ k \<Rightarrow> Some k)"
    using assms(2) by (auto simp: leaves_Inr)
  then obtain p where p: "GetFiberByHandle handle s = Inr p"
    by (cases "GetFiberByHandle handle s") (simp_all add: set_call_def)
  show ?thesis
  proof (cases p)
    case None
    then show ?thesis using q p assms(1,3) by (auto simp: set_call_def)
  next
    case (Some f)
    show ?thesis
    proof (cases "same (m_fibers s f)")
      case True
      then have "s' = ReleaseSRWLockExclusive (AcquireSRWLockExclusive s)" "r = None"
        using q p Some by (auto simp: set_call_def return_locked_def)
      then show ?thesis using assms(1) by auto
    next
      case False
      then have "s' = ReleaseSRWLockExclusive (let s = fiber_update f g (AcquireSRWLockExclusive s) in
          if fiber_state (m_fibers s f) = Scheduled \<or> (again \<and> fiber_state (m_fibers s f) = Suspended)
          then AddToSchedulerUnsafe f (links_update (Unlink (SchedulerNode f)) s) else s)" "r = None"
        using q(2) q(1) [symmetric] p Some by (simp_all add: set_call_def return_locked_def Let_def)
      then show ?thesis
        using placed_set_call [OF assms(1), of handle f g again s'] p Some placedD(6) [OF assms(1), of f] assms(4-7)
        by simp
    qed
  qed
qed

lemma name_placed:
  assumes "placed s L R K" and "SetThreadName handle name s = Inr s' \<or> SetThreadNamePointer handle name s = Inr s'"
  shows "placed s' L R K \<and> m_scheduler_lock s' = m_scheduler_lock s"
proof -
  obtain p where p: "GetFiberByHandle handle s = Inr p"
    using assms(2) by (auto simp: SetThreadName_def SetThreadNamePointer_def and_then_Inr_iff)
  obtain f where "s' = SetInitialFiberNameUnsafe f s \<or> (\<exists>n. s' = fiber_update f (fiber_name_storage_update (\<lambda>_. n)) s) \<or>
      (\<exists>n. s' = fiber_update f (fiber_name_update (\<lambda>_. n)) s)"
    using assms(2) p by (cases p; cases name) (auto simp: SetThreadName_def SetThreadNamePointer_def)
  then obtain g where "s' = fiber_update f g s" "\<And>x. activity_level (g x) = activity_level x \<and> priority (g x) = priority x \<and>
      fiber_state (g x) = fiber_state x \<and> waitable (g x) = waitable x"
    unfolding SetInitialFiberNameUnsafe_eq by fastforce
  then show ?thesis using placed_field [OF assms(1), of g f] placedD(6) [OF assms(1)] by simp
qed

lemma exec_placed:
  assumes "placed s L R K" and "exec call f s = Inr (r, s')" and "\<not> m_scheduler_lock s"
    and "usable_call call"
  shows "\<exists>L' K'. placed s' L' R K' \<and> (m_scheduler_lock s' \<longleftrightarrow> r \<noteq> None)"
proof (cases call)
  case (Create fn arg bytes prio core new_fiber)
  then obtain q where "CreateThreadImpl fn arg bytes (sint prio) core new_fiber s = Inr (q, s')"
      "r = (case q of Returned _ \<Rightarrow> None | Switched _ k \<Rightarrow> Some k)"
    using assms(2) by (auto simp: leaves_Inr CreateThread_def)
  then show ?thesis using placed_create [OF assms(1)] assms(3) by fastforce
next
  case (Activity handle level)
  then show ?thesis using set_call_placed [OF assms(1) _ assms(3)] assms(2) by (fastforce simp: set_calls)
next
  case (CoreMask handle new_mask)
  then show ?thesis
    using set_call_placed [OF assms(1) _ assms(3)] assms(2) by (fastforce simp: SetThreadCoreMask_def set_calls)
next
  case (Priority handle prio)
  show ?thesis
  proof (cases "sint prio \<le> 2 \<and> - 2 \<le> sint prio")
    case True
    then show ?thesis
      using assms(1-3) Priority by (auto simp: SetThreadPriority_def set_calls leaves_Inr)
  next
    case False
    then have "- 2 \<le> sint prio \<and> sint prio \<le> 4 \<Longrightarrow> sint prio \<in> {0..4}" by auto
    then show ?thesis
      using set_call_placed [OF assms(1) _ assms(3), of handle "\<lambda>x. priority x = sint prio" ResultSamePriority
          "priority_update (\<lambda>_. sint prio)" False r s'] assms(2,4) Priority False
      by (auto simp: SetThreadPriority_def set_calls)
  qed
next
  case (Name handle name)
  then show ?thesis using name_placed [OF assms(1), of handle name s'] assms(2,3) by (auto simp: and_then_Inr_iff)
next
  case (NamePointer handle name)
  then show ?thesis using name_placed [OF assms(1), of handle name s'] assms(2,3) by (auto simp: and_then_Inr_iff)
next
  case (SleepUntil t)
  then show ?thesis using sleep_placed [OF assms(1)] assms(2) by fastforce
next
  case (ExitTurn handle)
  show ?thesis
  proof (cases "leaves (SleepThreadImpl f 0 s) = Inr (r, s')")
    case True
    then show ?thesis using sleep_placed [OF assms(1)] by fastforce
  next
    case False
    then have "s' = s \<and> r = None"
      using assms(2) ExitTurn
      by (auto simp: ExitThread_turn_def ExitThreadImpl_turn_def leaves_Inr and_then_Inr_iff split: option.splits)
    then show ?thesis using assms by auto
  qed
qed

lemma Dispatch_end_placed:
  assumes "placed s L R K" and "f \<in> R" and "Dispatch_end f core s = Inr s'"
  shows "\<exists>L'. placed s' L' (R - {f}) K \<and> m_scheduler_lock s' = m_scheduler_lock s"
proof -
  have "fiber_state (m_fibers s f) = Running" using placedD(7) [OF assms(1,2)] by simp
  then have "s' = AddToSchedulerUnsafe f s"
    using assms(3) by (auto simp: Dispatch_end_def and_then_Inr_iff)
  then show ?thesis using placed_add [OF assms(1,2)] by auto
qed

lemma exit_placed:
  assumes "placed s L R K" and "f \<in> R" and "0 < f"
    and "UserFiberMain_end f s = Inr (r, s1)" and "Dispatch_end f core s1 = Inr s'"
  shows "placed s' L (R - {f}) K \<and> m_scheduler_lock s'"
proof -
  let ?s = "AcquireSRWLockExclusive s"
  have s1: "s1 = fiber_update f (fiber_state_update (\<lambda>_. Exiting)) ?s"
    using assms(4) by (auto simp: UserFiberMain_end_def ExitFiberImpl_def switch_to_scheduler_def Let_def and_then_Inr_iff)
  then obtain a where a: "Free f (UserFiberLocalAllocator ?s) = Inr a" "s' = s1\<lparr>UserFiberLocalAllocator := a\<rparr>"
    using assms(5) by (auto simp: Dispatch_end_def and_then_Inr_iff)
  have "placed ?s L R K" using assms(1) by simp
  from placed_exit [OF this assms(2,3) a(1)] show ?thesis by (simp add: a(2) s1)
qed

text \<open>Cores change one at a time.\<close>

lemma in_cores_enter:
  assumes "\<forall>g. cs c \<noteq> InFiber g"
  shows "in_cores (cs(c := InFiber f)) = insert f (in_cores cs)"
  using assms unfolding in_cores_def by (auto split: if_splits)

lemma in_cores_stay:
  assumes "\<forall>g. cs c \<noteq> InFiber g" and "\<forall>g. pc \<noteq> InFiber g"
  shows "in_cores (cs(c := pc)) = in_cores cs"
proof -
  have "(cs(c := pc)) d = InFiber f \<longleftrightarrow> cs d = InFiber f" for d f using assms by simp
  then show ?thesis by (simp add: in_cores_def)
qed

lemma in_cores_leave:
  assumes "cores_ok lock cs" and "cs c = InFiber f" and "\<forall>g. pc \<noteq> InFiber g"
  shows "in_cores (cs(c := pc)) = in_cores cs - {f}"
proof -
  have "(cs(c := pc)) d = InFiber g \<longleftrightarrow> d \<noteq> c \<and> cs d = InFiber g" for d g using assms(3) by simp
  moreover have "cs d = InFiber f \<longleftrightarrow> d = c" for d
    using assms(1,2) unfolding cores_ok_def by blast
  ultimately have "in_cores (cs(c := pc)) = {g. \<exists>d. d \<noteq> c \<and> cs d = InFiber g}"
    "\<And>g. g \<noteq> f \<Longrightarrow> (\<exists>d. d \<noteq> c \<and> cs d = InFiber g) \<longleftrightarrow> (\<exists>d. cs d = InFiber g)"
    "\<not> (\<exists>d. d \<noteq> c \<and> cs d = InFiber f)"
    using assms(2) by (simp_all add: in_cores_def) (metis core_pc.inject)
  then show ?thesis by (auto simp: in_cores_def)
qed

lemma cores_ok_acquire:
  "cores_ok False cs \<Longrightarrow> c < MaxCoreCount \<Longrightarrow> cores_ok True (cs(c := Scheduling))"
  by (auto simp: cores_ok_def)

lemma cores_ok_release:
  assumes "cores_ok True cs" and "cs c = Scheduling"
  shows "f \<notin> in_cores cs \<Longrightarrow> cores_ok False (cs(c := InFiber f))" and "cores_ok False (cs(c := Resting))"
  using assms by (auto simp: cores_ok_def in_cores_def)

lemma unat_core: "c < MaxCoreCount \<Longrightarrow> unat (of_nat c :: u32) < 32"
  by (simp add: MaxCoreCount_def unat_of_nat_small)

lemma rest_begin_placed:
  assumes "placed s L R K" and "rest_begin core s = Inr (t, s')"
  shows "placed s' L R K \<and> \<not> m_scheduler_lock s'"
proof -
  have "placed (s\<lparr>m_active_cores := m_active_cores s - 1\<rparr>) L R K"
    using assms(1) by (subst placed_cong [of _ s]) simp_all
  then show ?thesis using assms(2) by (auto simp: rest_begin_def Let_def and_then_Inr_iff)
qed

lemma rest_over_placed:
  assumes "placed s L R K"
  shows "placed (rest_no_time s) L R K \<and> m_scheduler_lock (rest_no_time s)"
    and "rest_woken core s = Inr (w, s') \<Longrightarrow> placed s' L R K \<and> (m_scheduler_lock s' \<longleftrightarrow> w = Leave_rest)"
proof -
  let ?s = "AcquireSRWLockExclusive s"
  have "placed (?s\<lparr>m_active_cores := m_active_cores ?s + 1\<rparr>) L R K"
    using assms by (subst placed_cong [of _ s]) simp_all
  then show "placed (rest_no_time s) L R K \<and> m_scheduler_lock (rest_no_time s)"
    by (simp add: rest_no_time_def Let_def)
  assume "rest_woken core s = Inr (w, s')"
  then show "placed s' L R K \<and> (m_scheduler_lock s' \<longleftrightarrow> w = Leave_rest)"
    using assms \<open>placed (?s\<lparr>m_active_cores := m_active_cores ?s + 1\<rparr>) L R K\<close>
    by (auto simp: rest_woken_def Let_def and_then_Inr_iff split: if_splits)
qed

lemma machine_invI:
  assumes "placed (ukernel m) L (in_cores (cores m)) K" and "m_scheduler_lock (ukernel m) = b" and "cores_ok b (cores m)"
  shows "machine_inv m"
  using assms by (auto simp: machine_inv_def)

lemma InternalSchedulerFiberMain_placed:
  assumes "placed s L R K" and "InternalSchedulerFiberMain core converted s = Inr s'"
  shows "placed s' L R K \<and> m_scheduler_lock s'"
proof -
  have "placed (s\<lparr>m_scheduler_fiber_table := t\<rparr>) L R K" for t
    using assms(1) by (subst placed_cong [of _ s]) simp_all
  then show ?thesis
    using assms(2) by (auto simp: InternalSchedulerFiberMain_def Let_def and_then_Inr_iff split: if_splits)
qed

text \<open>A core enters the scheduler, leaves it, or stays where it is.\<close>

lemma inv_acquired:
  assumes "cores_ok (m_scheduler_lock (ukernel m)) (cores m)" and "\<not> m_scheduler_lock (ukernel m)" and "c < MaxCoreCount"
    and "ukernel m' = s'" and "cores m' = (cores m)(c := Scheduling)"
    and "placed s' L (in_cores ((cores m)(c := Scheduling))) K" and "m_scheduler_lock s'"
  shows "machine_inv m'"
  using assms cores_ok_acquire [of "cores m" c] by (auto simp: machine_inv_def)

lemma inv_released:
  assumes "ukernel m' = s'" and "cores m' = (cores m)(c := pc)"
    and "placed s' L (in_cores ((cores m)(c := pc))) K" and "\<not> m_scheduler_lock s'"
    and "cores_ok False ((cores m)(c := pc))"
  shows "machine_inv m'"
  using assms by (auto simp: machine_inv_def)

lemma inv_stays:
  assumes "cores_ok (m_scheduler_lock (ukernel m)) (cores m)" and "\<not> m_scheduler_lock (ukernel m)"
    and "placed s' L (in_cores (cores m)) K" and "\<not> m_scheduler_lock s'"
  shows "machine_inv (m\<lparr>ukernel := s'\<rparr>)"
  using assms by (auto simp: machine_inv_def)

lemma machine_step_inv:
  assumes "machine_step m m'" and "machine_inv m"
  shows "machine_inv m'"
proof -
  obtain L K where p: "placed (ukernel m) L (in_cores (cores m)) K"
    and ok: "cores_ok (m_scheduler_lock (ukernel m)) (cores m)"
    using assms(2) by (auto simp: machine_inv_def)
  have small: "c < MaxCoreCount" if "cores m c \<noteq> Starting" for c using ok that by (auto simp: cores_ok_def)
  have locked: "cores_ok True (cores m)" if "cores m c = Scheduling" for c
    using ok that by (auto simp: cores_ok_def)
  have stay: "in_cores ((cores m)(c := pc)) = in_cores (cores m)"
    if "cores m c \<in> {Starting, Scheduling, Resting}" "pc \<in> {Scheduling, Resting}" for c pc
    using that by (intro in_cores_stay) auto
  have leave: "in_cores ((cores m)(c := Scheduling)) = in_cores (cores m) - {f}" "f \<in> in_cores (cores m)"
    if "cores m c = InFiber f" for c f
    using that in_cores_leave [OF ok that, of Scheduling] by (auto simp: in_cores_def)
  show ?thesis
    using assms(1)
  proof (cases rule: machine_step.cases)
    case (start c converted s)
    have "placed s L (in_cores ((cores m)(c := Scheduling))) K \<and> m_scheduler_lock s"
      using InternalSchedulerFiberMain_placed [OF p start(5)] stay [of c Scheduling] start(2) by simp
    then show ?thesis using start(1) by (auto intro: inv_acquired [OF ok start(4,3)])
  next
    case (dispatch c tick f s)
    have c: "cores m c \<noteq> Starting" using dispatch(2) by simp
    have f: "f \<notin> in_cores (cores m)" "placed s (\<lambda>h. remove1 f (L h)) (insert f (in_cores (cores m))) K"
      using placed_pass [OF p dispatch(3) unat_core [OF small [OF c]]] by simp_all
    have "in_cores ((cores m)(c := InFiber f)) = insert f (in_cores (cores m))"
      using dispatch(2) by (intro in_cores_enter) simp
    then have "placed (enter_fiber f (saved m f) s) (\<lambda>h. remove1 f (L h)) (in_cores ((cores m)(c := InFiber f))) K \<and>
        \<not> m_scheduler_lock (enter_fiber f (saved m f) s)"
      using placed_release_dangling [OF f(2), of f "saved m f"] by simp
    then show ?thesis
      using cores_ok_release(1) [OF locked [OF dispatch(2)] dispatch(2) f(1)] dispatch(1)
      by (auto intro: inv_released [of _ _ m c "InFiber f"])
  next
    case (rest c tick s t s')
    have c: "cores m c \<noteq> Starting" using rest(2) by simp
    have "s = ukernel m" using placed_pass [OF p rest(3) unat_core [OF small [OF c]]] by simp
    then have "placed s' L (in_cores ((cores m)(c := Resting))) K \<and> \<not> m_scheduler_lock s'"
      using rest_begin_placed [OF p, of "of_nat c" t s'] rest(2,4) stay [of c Resting] by simp
    then show ?thesis
      using cores_ok_release(2) [OF locked [OF rest(2)] rest(2)] rest(1)
      by (auto intro: inv_released [of _ _ m c Resting])
  next
    case (rest_over c)
    have "placed (rest_no_time (ukernel m)) L (in_cores ((cores m)(c := Scheduling))) K \<and>
        m_scheduler_lock (rest_no_time (ukernel m))"
      using rest_over_placed(1) [OF p] stay [of c Scheduling] rest_over(2) by simp
    then show ?thesis using rest_over(1,2) by (auto intro: inv_acquired [OF ok rest_over(3) small [of c]])
  next
    case (woken c s)
    have "placed s L (in_cores ((cores m)(c := Scheduling))) K \<and> m_scheduler_lock s"
      using rest_over_placed(2) [OF p woken(4)] stay [of c Scheduling] woken(2) by simp
    then show ?thesis using woken(1,2) by (auto intro: inv_acquired [OF ok woken(3) small [of c]])
  next
    case (woken_again c t s)
    then show ?thesis
      using rest_over_placed(2) [OF p woken_again(4)] by (auto intro: inv_stays [OF ok woken_again(3)])
  next
    case (returns c f call s)
    then show ?thesis
      using exec_placed [OF p returns(4,3,5)] by (auto intro: inv_stays [OF ok returns(3)])
  next
    case (switches c f call k s s')
    obtain L' K' where s: "placed s L' (in_cores (cores m)) K'" "m_scheduler_lock s"
      using exec_placed [OF p switches(4,3,7)] by auto
    then obtain L'' where "placed s' L'' (in_cores ((cores m)(c := Scheduling))) K'" "m_scheduler_lock s'"
      using Dispatch_end_placed [OF s(1) leave(2) [OF switches(2)] switches(6)] leave(1) [OF switches(2)] by auto
    then show ?thesis
      using switches(1,2) by (auto simp: after_switch_def intro: inv_acquired [OF ok switches(3) small [of c]])
  next
    case (first_switch f call k s)
    obtain L' K' where s: "placed s L' (in_cores (cores m)) K'" "m_scheduler_lock s"
      using exec_placed [OF p first_switch(5,3,6)] by auto
    then obtain L'' where "placed (AddToSchedulerUnsafe f s) L'' (in_cores ((cores m)(0 := Scheduling))) K'"
        "m_scheduler_lock (AddToSchedulerUnsafe f s)"
      using placed_add [OF s(1) leave(2) [OF first_switch(2)]] leave(1) [OF first_switch(2)] by auto
    then show ?thesis
      using first_switch(1,2)
      by (auto simp: after_switch_def InternalSchedulerMainThreadFiberMain_def
          intro: inv_acquired [OF ok first_switch(3) small [of 0]])
  next
    case (exits c f k s s')
    have "placed s' L (in_cores ((cores m)(c := Scheduling))) K \<and> m_scheduler_lock s'"
      using exit_placed [OF p leave(2) [OF exits(2)] exits(4,5,6)] leave(1) [OF exits(2)] by simp
    then show ?thesis
      using exits(1,2) by (auto simp: after_switch_def intro: inv_acquired [OF ok exits(3) small [of c]])
  qed
qed

section \<open>Boot\<close>

lemma initial_lookup: "GetObjectByHandle g (Initialize HandleTable) \<noteq> Inr (Some x)"
proof
  assume "GetObjectByHandle g (Initialize HandleTable) = Inr (Some x)"
  then show False
    using lookup_Some [OF Initialize_inv [OF HandleTable_fresh], of g x]
    by (auto simp: Initialize_eq [OF HandleTable_fresh])
qed

lemma blank_placed:
  assumes "m_links s = m_links blank" "m_fibers s = m_fibers blank"
    "UserFiberLocalAllocator s = UserFiberLocalAllocator blank" "m_handle_table s = Initialize HandleTable"
  shows "placed s (\<lambda>_. []) {} {}"
proof -
  have "sched_lists s (\<lambda>_. []) (\<lambda>_. [])"
    by (rule unlinked_lists) (simp add: assms(1) blank_def UserScheduler_def)
  moreover have "allocator_wf (UserFiberLocalAllocator s)" "live_slots (UserFiberLocalAllocator s) = {}"
    "slot_count (UserFiberLocalAllocator s) = MaxThreadCount"
    using FixedObjectAllocator_wf [of MaxThreadCount, where 'o = unit]
    by (simp_all add: assms(3) blank_def UserScheduler_def MaxThreadCount_def)
  ultimately show ?thesis
    by (auto simp: placed_def GetFiberByHandle_def assms blank_def UserScheduler_def zero_fiber_def
        initial_table_wf initial_lookup)
qed

lemma create_worker_frame:
  assumes "create_worker new_thread i (Inr s) = Inr s'"
  shows "\<exists>x. s' = s\<lparr>m_scheduler_thread_table := x\<rparr>"
  using assms by (auto simp: create_worker_def Let_def and_then_Inr_iff split: if_splits)

lemma create_workers_frame:
  assumes "fold (create_worker new_thread) js (Inr s) = Inr s'"
  shows "\<exists>x. s' = s\<lparr>m_scheduler_thread_table := x\<rparr>"
  using assms
proof (induction js arbitrary: s)
  case Nil
  then show ?case by (intro exI [of _ "m_scheduler_thread_table s"]) simp
next
  case (Cons i js)
  show ?case
  proof (cases "create_worker new_thread i (Inr s)")
    case (Inl e)
    have "fold (create_worker new_thread) js (Inl e) = Inl e"
      by (induction js) (simp_all add: create_worker_def)
    then show ?thesis using Cons.prems Inl by simp
  next
    case (Inr t)
    then obtain x where "t = s\<lparr>m_scheduler_thread_table := x\<rparr>"
      using create_worker_frame by blast
    then show ?thesis using Cons Inr by fastforce
  qed
qed

text \<open>After \<open>InitializeUKern\<close> the main thread runs and is the only one.\<close>

definition main_thread :: "address \<Rightarrow> fiber_local_storage \<Rightarrow> fiber_local_storage" where
  "main_thread main_fiber x = x\<lparr>priority := 2, current_core := 0, core_mask := 1,
    fiber_state := Running, activity_level := ActivityLevel_Schedulable, win32_fiber_handle := main_fiber\<rparr>"

lemma Initialize_cases:
  assumes "InitializeUKern mk (Some h) main_fiber scheduler_fiber new_thread blank = Inr s"
  defines "s0 \<equiv> blank\<lparr>m_active_cores := CountOneBits64 mk, m_core_count := CountOneBits64 mk,
    m_core_mask := mk, m_handle_table := Initialize (m_handle_table blank),
    m_scheduler_thread_table := (m_scheduler_thread_table blank)[0 := h]\<rparr>"
  obtains s1 f g t s2 where "allocate_fiber s0 = Inr (Some f, s1)"
    and "ReserveHandle (Some f) (m_handle_table s1) = Inr (Some g, t)"
    and "s2 = SetInitialFiberNameUnsafe f (fiber_update f (ukern_fiber_handle_update (\<lambda>_. g))
      ((fiber_update f (main_thread main_fiber) s1)\<lparr>
        m_scheduler_fiber_table := (m_scheduler_fiber_table s1)[0 := scheduler_fiber], m_handle_table := t\<rparr>))"
    and "\<exists>x. s = s2\<lparr>m_scheduler_thread_table := x\<rparr>"
proof -
  obtain p s1 where a: "allocate_fiber s0 = Inr (p, s1)"
    using assms by (cases "allocate_fiber s0") (auto simp: InitializeUKern_def UserScheduler_Initialize_def Let_def)
  obtain f where f: "p = Some f"
    using assms a by (cases p) (auto simp: InitializeUKern_def UserScheduler_Initialize_def Let_def)
  obtain g t where r: "ReserveHandle (Some f) (m_handle_table s1) = Inr (g, t)"
    using assms a f by (cases "ReserveHandle (Some f) (m_handle_table s1)")
      (auto simp: InitializeUKern_def UserScheduler_Initialize_def Let_def dd_assert_def split: if_splits)
  obtain g' where g: "g = Some g'"
    using assms a f r by (cases g)
      (auto simp: InitializeUKern_def UserScheduler_Initialize_def Let_def dd_assert_def split: if_splits)
  let ?s2 = "SetInitialFiberNameUnsafe f (fiber_update f (ukern_fiber_handle_update (\<lambda>_. g'))
      ((fiber_update f (main_thread main_fiber) s1)\<lparr>
        m_scheduler_fiber_table := (m_scheduler_fiber_table s1)[0 := scheduler_fiber], m_handle_table := t\<rparr>))"
  have "fold (create_worker new_thread) [1..<unat (CountOneBits64 mk)] (Inr ?s2) = Inr s"
    using assms a f r g
    by (simp add: InitializeUKern_def UserScheduler_Initialize_def Let_def dd_assert_def main_thread_def [abs_def] split: if_splits)
  then show thesis using that [of f s1 g' t ?s2] a f r g create_workers_frame by blast
qed

lemma Initialize_placed:
  assumes "InitializeUKern mk h main_fiber scheduler_fiber new_thread blank = Inr s"
  shows "placed s (\<lambda>_. []) {0} {} \<and> \<not> m_scheduler_lock s"
proof -
  obtain h' where h: "h = Some h'"
    using assms by (cases h) (auto simp: InitializeUKern_def UserScheduler_Initialize_def Let_def)
  define s0 where "s0 = blank\<lparr>m_active_cores := CountOneBits64 mk, m_core_count := CountOneBits64 mk,
    m_core_mask := mk, m_handle_table := Initialize (m_handle_table blank),
    m_scheduler_thread_table := (m_scheduler_thread_table blank)[0 := h']\<rparr>"
  obtain s1 f g t s2 where a: "allocate_fiber s0 = Inr (Some f, s1)"
    and r: "ReserveHandle (Some f) (m_handle_table s1) = Inr (Some g, t)"
    and s2: "s2 = SetInitialFiberNameUnsafe f (fiber_update f (ukern_fiber_handle_update (\<lambda>_. g))
      ((fiber_update f (main_thread main_fiber) s1)\<lparr>
        m_scheduler_fiber_table := (m_scheduler_fiber_table s1)[0 := scheduler_fiber], m_handle_table := t\<rparr>))"
    and s: "\<exists>x. s = s2\<lparr>m_scheduler_thread_table := x\<rparr>"
    using Initialize_cases [OF assms [unfolded h], folded s0_def] by metis
  obtain x where x: "s = s2\<lparr>m_scheduler_thread_table := x\<rparr>" using s by blast
  have p0: "placed s0 (\<lambda>_. []) {} {}"
    by (rule blank_placed) (simp_all add: s0_def blank_def UserScheduler_def)
  have "m_free_list (UserFiberLocalAllocator s0) = Some 0"
    by (simp add: s0_def blank_def UserScheduler_def FixedObjectAllocator_def)
  then have f: "f = 0"
    using a by (auto simp: allocate_fiber_def Allocate_def and_then_Inr_iff split: if_splits slot.splits)
  obtain al where al: "s1 = s0\<lparr>UserFiberLocalAllocator := al\<rparr>" "allocator_wf al"
      "slot_count al = MaxThreadCount" "live_slots al = {0}"
    using allocate_fiber_spec [OF p0 a] f placedD(2) [OF p0] by auto
  let ?x = "fiber_name_storage_update (\<lambda>_. strncpy ''MainThread'' MaxFiberNameLength)
    (ukern_fiber_handle_update (\<lambda>_. g) (main_thread main_fiber zero_fiber))"
  have t: "table_wf t" "GetObjectByHandle k t = (if k = g then Inr (Some 0) else GetObjectByHandle k (m_handle_table s0))" for k
    using ht.reserve_wf [of "m_handle_table s0" 0 "Some g" t] ht.reserve_lookup [of "m_handle_table s0" 0 g t k]
      p0 r f al(1) by (simp_all add: placed_def)
  have fields: "m_links s = m_links s0" "UserFiberLocalAllocator s = al" "m_handle_table s = t"
    "m_fibers s = (\<lambda>_. zero_fiber)(0 := ?x)" "m_scheduler_lock s = False"
    by (simp_all add: x s2 f al(1) SetInitialFiberNameUnsafe_eq s0_def blank_def UserScheduler_def
        main_thread_def zero_fiber_def fun_eq_iff)
  have "placed s (\<lambda>_. []) {0} {}"
    using p0 al t initial_lookup placedD(1) [OF p0]
    unfolding placed_def GetFiberByHandle_def sched_lists_def fields
    by (auto simp: main_thread_def zero_fiber_def s0_def blank_def UserScheduler_def)
  with fields show ?thesis by simp
qed

lemma booted_inv: "booted m \<Longrightarrow> machine_inv m"
proof -
  assume b: "booted m"
  then have "placed (ukernel m) (\<lambda>_. []) {0} {}" "\<not> m_scheduler_lock (ukernel m)"
    using Initialize_placed by (auto simp: booted_def)
  moreover have "in_cores (cores m) = {0}" "cores_ok False (cores m)"
    using b by (auto simp: booted_def in_cores_def cores_ok_def MaxCoreCount_def split: if_splits)
  ultimately show ?thesis by (auto simp: machine_inv_def)
qed

interpretation ukern: kept_invariant booted machine_step machine_inv
  by unfold_locales (auto simp: booted_inv machine_step_inv)

lemma reachable_inv: "reachable m \<Longrightarrow> machine_inv m"
  by (auto simp: reachable_def intro: ukern.run_inv)

section \<open>Properties\<close>


text \<open>A machine with one core that has just started.\<close>

lemma boot_one_core: "\<exists>s. InitializeUKern 1 (Some 1) 1 1 (\<lambda>_. 1) blank = Inr s"
proof -
  define s0 where "s0 = blank\<lparr>m_active_cores := CountOneBits64 1, m_core_count := CountOneBits64 1,
    m_core_mask := 1, m_handle_table := Initialize (m_handle_table blank),
    m_scheduler_thread_table := (m_scheduler_thread_table blank)[0 := 1]\<rparr>"
  have p0: "placed s0 (\<lambda>_. []) {} {}"
    by (rule blank_placed) (simp_all add: s0_def blank_def UserScheduler_def)
  obtain f s1 where a: "allocate_fiber s0 = Inr (Some f, s1)"
  proof -
    have "live_slots (UserFiberLocalAllocator s0) \<noteq> {..<slot_count (UserFiberLocalAllocator s0)}"
      using p0 zero_less_numeral [of "num.Bit0 num.One", where 'a = nat]
      by (metis (no_types, lifting) Diff_empty MaxThreadCount_def empty_iff enlisted_Nil lessThan_iff placedD(2) placed_def zero_less_numeral)
    then show ?thesis
      using that Allocate_slot [of "UserFiberLocalAllocator s0" "()"] p0 by (auto simp: placed_def allocate_fiber_def)
  qed
  obtain t where r: "ReserveHandle (Some f) (m_handle_table s1) = Inr (Some 0x80FF, t)"
    using first_reservation [of f] allocate_fiber_spec [OF p0 a] by (auto simp: s0_def blank_def UserScheduler_def)
  have c: "CountOneBits64 1 = 1" by code_simp
  show ?thesis
    using a [unfolded s0_def c] r by (simp add: InitializeUKern_def UserScheduler_Initialize_def Let_def c)
qed

definition one_core :: machine where
  "one_core = \<lparr>ukernel = projr (InitializeUKern 1 (Some 1) 1 1 (\<lambda>_. 1) blank),
    cores = (\<lambda>c. Starting)(0 := InFiber 0), saved = (\<lambda>_. None), main_loop = False\<rparr>"

lemma one_core_reachable: "reachable one_core"
proof -
  obtain s where "InitializeUKern 1 (Some 1) 1 1 (\<lambda>_. 1) blank = Inr s" using boot_one_core by blast
  then have "booted one_core"
    unfolding booted_def one_core_def by (intro exI [of _ 1] exI [of _ "Some 1"] exI [of _ "\<lambda>_. 1"]) auto
  then show ?thesis by (auto simp: reachable_def)
qed

section \<open>Creating and starting a thread\<close>

lemma Create_success:
  assumes "placed s L R K" and "fn \<noteq> nullptr" "bytes \<noteq> 0" "- 2 \<le> prio" "prio \<le> 2" "unat core < 32"
    "core_flag core AND m_core_mask s \<noteq> 0" "new_fiber \<noteq> 0"
    and "live_slots (UserFiberLocalAllocator s) \<noteq> {..<MaxThreadCount}"
    and "unat (m_active_handles (m_handle_table s)) < MaxHandles"
  shows "\<exists>f h s'. CreateThreadImpl fn arg bytes prio core new_fiber s = Inr (Returned (ResultSuccess, Some h), s') \<and>
    f \<notin> live_slots (UserFiberLocalAllocator s) \<and> GetFiberByHandle h s' = Inr (Some f) \<and>
    sched_lists s' (L(SuspendList := L SuspendList @ [f])) (\<lambda>_. []) \<and>
    m_fibers s' f = created_fiber h prio bytes core arg fn new_fiber (m_fibers s f) \<and> \<not> m_scheduler_lock s'"
proof -
  let ?s = "AcquireSRWLockExclusive s"
  have p: "placed ?s L R K" using assms(1) by simp
  obtain f s1 where a: "allocate_fiber ?s = Inr (Some f, s1)"
    using assms(1,9) Allocate_slot [of "UserFiberLocalAllocator s" "()"] by (auto simp: allocate_fiber_def placed_def)
  then obtain al where al: "f \<notin> live_slots (UserFiberLocalAllocator s)" "s1 = ?s\<lparr>UserFiberLocalAllocator := al\<rparr>"
    using allocate_fiber_spec [OF p a] by auto
  have t: "table_wf (m_handle_table s)" using assms(1) by (simp add: placed_def)
  obtain h t' where r: "ReserveHandle (Some f) (m_handle_table s) = Inr (Some h, t')"
    by (rule reserve_cases [OF t, of f]) (use assms(10) in auto)
  let ?s3 = "links_update (PushBack SuspendList (SchedulerNode f)) (fiber_update f
    (created_fiber h prio bytes core arg fn new_fiber) (?s\<lparr>UserFiberLocalAllocator := al, m_handle_table := t'\<rparr>))"
  have "core_bit core = Inr (core_flag core)" using assms(6) by (simp add: core_bit_def)
  then have c: "CreateThreadImpl fn arg bytes prio core new_fiber s =
      Inr (Returned (ResultSuccess, Some h), ReleaseSRWLockExclusive ?s3)"
    using assms(2-5,7,8) a al(2) r
    by (simp add: CreateThreadImpl_def return_locked_def SetInitialFiberNameUnsafe_eq Let_def
        fiber_update_twice created_fiber_def comp_def)
  have "f \<notin> enlisted L" using al(1) placedD(2) [OF assms(1)] by blast
  then have "sched_lists ?s3 (L(SuspendList := L SuspendList @ [f])) (\<lambda>_. [])"
    using lists_push_scheduler [OF placedD(1) [OF p], of SuspendList f] by (simp add: sched_lists_def)
  moreover have "GetFiberByHandle h ?s3 = Inr (Some f)"
    using ht.reserve_lookup [OF t r, of h] by (simp add: GetFiberByHandle_def)
  ultimately show ?thesis using c al(1) by (intro exI [of _ f] exI [of _ h]) auto
qed

text \<open>The machine with one core after its main thread has created a second thread.\<close>

lemma one_core_creates:
  "\<exists>m handle f. machine_step one_core m \<and> f \<noteq> 0 \<and> GetFiberByHandle handle (ukernel m) = Inr (Some f) \<and>
    fiber_state (m_fibers (ukernel m) f) = Suspended \<and> cores m = cores one_core"
proof -
  obtain s where init: "InitializeUKern 1 (Some 1) 1 1 (\<lambda>_. 1) blank = Inr s" using boot_one_core by blast
  have p: "placed s (\<lambda>_. []) {0} {}" "\<not> m_scheduler_lock s" using Initialize_placed [OF init] by simp_all
  have one: "CountOneBits64 1 = 1" by code_simp
  have l: "live_slots (UserFiberLocalAllocator s) = {0}" using placedD(2) [OF p(1)] placedD(7) [OF p(1)] by auto
  moreover have "1 \<in> {..<MaxThreadCount}" by (simp add: MaxThreadCount_def)
  ultimately have room: "live_slots (UserFiberLocalAllocator s) \<noteq> {..<MaxThreadCount}" by auto
  define s0 where "s0 = blank\<lparr>m_active_cores := 1, m_core_count := 1, m_core_mask := 1,
    m_handle_table := Initialize (m_handle_table blank), m_scheduler_thread_table := (m_scheduler_thread_table blank)[0 := 1]\<rparr>"
  obtain s1 g k t s2 where boot: "allocate_fiber s0 = Inr (Some g, s1)" "ReserveHandle (Some g) (m_handle_table s1) = Inr (Some k, t)"
      "s2 = SetInitialFiberNameUnsafe g (fiber_update g (ukern_fiber_handle_update (\<lambda>_. k))
        ((fiber_update g (main_thread 1) s1)\<lparr>m_scheduler_fiber_table := (m_scheduler_fiber_table s1)[0 := 1], m_handle_table := t\<rparr>))"
      "\<exists>x. s = s2\<lparr>m_scheduler_thread_table := x\<rparr>"
    using Initialize_cases [OF init] unfolding one s0_def by metis
  have "placed s0 (\<lambda>_. []) {} {}" by (rule blank_placed) (simp_all add: s0_def blank_def UserScheduler_def)
  from allocate_fiber_spec [OF this boot(1)] obtain al where al: "s1 = s0\<lparr>UserFiberLocalAllocator := al\<rparr>" by auto
  have "m_active_handles t = m_active_handles (m_handle_table s0) + 1"
    using boot(2) al by (auto simp: ReserveHandle_def Let_def split: if_splits)
  then have fields: "m_core_mask s = 1" "unat (m_active_handles (m_handle_table s)) < MaxHandles"
    using boot(3,4) al
    by (auto simp: s0_def blank_def UserScheduler_def SetInitialFiberNameUnsafe_eq Initialize_eq [OF HandleTable_fresh] MaxHandles_def)
  obtain f h s' where c: "CreateThreadImpl 4096 0 8192 0 0 1 s = Inr (Returned (ResultSuccess, Some h), s')"
      "f \<notin> live_slots (UserFiberLocalAllocator s)" "GetFiberByHandle h s' = Inr (Some f)"
      "m_fibers s' f = created_fiber h 0 8192 0 0 4096 1 (m_fibers s f)"
    using Create_success [OF p(1), of 4096 8192 0 0 1 0] room fields by (auto simp: nullptr_def core_flag_def)
  have k: "ukernel one_core = s" using init by (simp add: one_core_def)
  have "exec (Create 4096 0 8192 0 0 1) 0 (ukernel one_core) = Inr (None, s')"
    using c(1) by (simp add: k leaves_def CreateThread_def)
  moreover have "cores one_core 0 = InFiber 0" by (simp add: one_core_def)
  ultimately have "machine_step one_core (one_core\<lparr>ukernel := s'\<rparr>)"
    using p(2) k by (intro machine_step.returns [where call = "Create 4096 0 8192 0 0 1"]) simp_all
  then show ?thesis
    using c(2-4) l by (intro exI [of _ "one_core\<lparr>ukernel := s'\<rparr>"] exI [of _ h] exI [of _ f]) (simp add: created_fiber_fields)
qed


text \<open>
  C10. Creating a thread with valid arguments, with a slot and a handle left, succeeds: the handle finds
  a fiber that was not in use, suspended. Starting it then puts it at the end of the list of its
  priority, changes no other list, and makes it Scheduled.
\<close>

theorem create_then_start:
  assumes "placed s L R K" and "fn \<noteq> nullptr" and "bytes \<noteq> 0" and "- 2 \<le> prio" and "prio \<le> 2"
    and "unat core < 32" and "core_flag core AND m_core_mask s \<noteq> 0" and "new_fiber \<noteq> 0"
    and "live_slots (UserFiberLocalAllocator s) \<noteq> {..<MaxThreadCount}"
    and "unat (m_active_handles (m_handle_table s)) < MaxHandles"
  shows "\<exists>f handle s1 s2 h L'. CreateThreadImpl fn arg bytes prio core new_fiber s =
      Inr (Returned (ResultSuccess, Some handle), s1) \<and>
    f \<notin> live_slots (UserFiberLocalAllocator s) \<and> GetFiberByHandle handle s1 = Inr (Some f) \<and>
    fiber_state (m_fibers s1 f) = Suspended \<and> user_function (m_fibers s1 f) = fn \<and>
    StartThread handle s1 = Inr (Returned ResultSuccess, s2) \<and> fiber_state (m_fibers s2 f) = Scheduled \<and>
    h = [LowPriorityList, BelowNormalPriorityList, NormalPriorityList, AboveNormalPriorityList,
      HighPriorityList] ! nat (prio + 2) \<and>
    sched_lists s2 L' (\<lambda>_. []) \<and> L' h = L h @ [f] \<and> (\<forall>g. is_scheduler_head g \<and> g \<noteq> h \<longrightarrow> L' g = L g)"
proof -
  obtain f handle s1 where c: "CreateThreadImpl fn arg bytes prio core new_fiber s =
      Inr (Returned (ResultSuccess, Some handle), s1)" "f \<notin> live_slots (UserFiberLocalAllocator s)"
    "GetFiberByHandle handle s1 = Inr (Some f)" "sched_lists s1 (L(SuspendList := L SuspendList @ [f])) (\<lambda>_. [])"
    "m_fibers s1 f = created_fiber handle prio bytes core arg fn new_fiber (m_fibers s f)"
    using Create_success [OF assms] by blast
  let ?x = "(m_fibers s1 f)\<lparr>activity_level := ActivityLevel_Schedulable\<rparr>"
  let ?s2 = "fiber_update f (activity_level_update (\<lambda>_. ActivityLevel_Schedulable)) (AcquireSRWLockExclusive s1)"
  let ?h = "[LowPriorityList, BelowNormalPriorityList, NormalPriorityList, AboveNormalPriorityList,
      HighPriorityList] ! nat (prio + 2)"
  have "prio = - 2 \<or> prio = - 1 \<or> prio = 0 \<or> prio = 1 \<or> prio = 2" using assms(4,5) by auto
  then have h: "list_for ?x = Some ?h" "?h \<noteq> SuspendList"
    by (auto simp: c(5) list_for_def created_fiber_fields WindowsToUKernPriorityOffset_def
        ActivityLevel_Schedulable_def ActivityLevel_Suspended_def)
  have s2: "StartThread handle s1 = Inr (Returned ResultSuccess, ReleaseSRWLockExclusive
      (AddToSchedulerUnsafe f (links_update (Unlink (SchedulerNode f)) ?s2)))"
    using c(3,5) by (simp add: StartThread_def SetActivityImpl_def return_locked_def Let_def created_fiber_fields
        ActivityLevel_Schedulable_def ActivityLevel_Suspended_def)
  let ?L = "relist f ?h (L(SuspendList := L SuspendList @ [f]))"
  have "sched_lists ?s2 (L(SuspendList := L SuspendList @ [f])) (\<lambda>_. [])"
    using c(4) by (simp add: sched_lists_def)
  from unlink_add_lists [OF this, of f ?h] h(1)
  have l: "sched_lists (AddToSchedulerUnsafe f (links_update (Unlink (SchedulerNode f)) ?s2)) ?L (\<lambda>_. [])" by simp
  have nf: "f \<notin> set (L g)" if "is_scheduler_head g" for g
    using c(2) placedD(2) [OF assms(1)] that by (auto simp: enlisted_def)
  have hh: "is_scheduler_head ?h" using h(1) by (rule list_for_head)
  have L: "?L ?h = L ?h @ [f]" "is_scheduler_head g \<Longrightarrow> g \<noteq> ?h \<Longrightarrow> ?L g = L g" for g
    using nf [of g] nf [OF hh] nf [of SuspendList] h(2) by (auto simp: relist_def remove1_idem remove1_append)
  have "state_for ?x = Scheduled"
    by (simp add: state_for_def ActivityLevel_Schedulable_def ActivityLevel_Suspended_def)
  then show ?thesis
    using c s2 l L
    by (intro exI [of _ f] exI [of _ handle] exI [of _ s1] exI [of _ ?h] exI [of _ ?L] exI
        [of _ "ReleaseSRWLockExclusive (AddToSchedulerUnsafe f (links_update (Unlink (SchedulerNode f)) ?s2))"])
      (simp add: created_fiber_fields)
qed

definition fresh_kernel :: user_scheduler where
  "fresh_kernel = blank\<lparr>m_handle_table := Initialize HandleTable, m_core_mask := 15, m_core_count := 4\<rparr>"

lemma fresh_kernel_placed: "placed fresh_kernel (\<lambda>_. []) {} {}"
  by (rule blank_placed) (simp_all add: fresh_kernel_def)

lemma fresh_kernel_room:
  "live_slots (UserFiberLocalAllocator fresh_kernel) \<noteq> {..<MaxThreadCount}"
  "unat (m_active_handles (m_handle_table fresh_kernel)) < MaxHandles"
proof -
  have "live_slots (UserFiberLocalAllocator fresh_kernel) = {}" using placedD(2) [OF fresh_kernel_placed] by simp
  moreover have "0 \<in> {..<MaxThreadCount}" by (simp add: MaxThreadCount_def)
  ultimately show "live_slots (UserFiberLocalAllocator fresh_kernel) \<noteq> {..<MaxThreadCount}" by blast
  show "unat (m_active_handles (m_handle_table fresh_kernel)) < MaxHandles"
    by (simp add: fresh_kernel_def Initialize_eq [OF HandleTable_fresh] MaxHandles_def)
qed

theorem create_then_start_witness:
  "\<exists>f handle s1 s2 h L'. CreateThreadImpl 4096 0 8192 1 2 1 fresh_kernel =
      Inr (Returned (ResultSuccess, Some handle), s1) \<and>
    f \<notin> live_slots (UserFiberLocalAllocator fresh_kernel) \<and> GetFiberByHandle handle s1 = Inr (Some f) \<and>
    fiber_state (m_fibers s1 f) = Suspended \<and> user_function (m_fibers s1 f) = 4096 \<and>
    StartThread handle s1 = Inr (Returned ResultSuccess, s2) \<and> fiber_state (m_fibers s2 f) = Scheduled \<and>
    h = [LowPriorityList, BelowNormalPriorityList, NormalPriorityList, AboveNormalPriorityList,
      HighPriorityList] ! nat (1 + 2) \<and>
    sched_lists s2 L' (\<lambda>_. []) \<and> L' h = [] @ [f] \<and> (\<forall>g. is_scheduler_head g \<and> g \<noteq> h \<longrightarrow> L' g = [])"
  by (rule create_then_start [OF fresh_kernel_placed])
    (use fresh_kernel_room in \<open>simp_all add: nullptr_def core_flag_def fresh_kernel_def\<close>)

section \<open>Ending a thread\<close>

lemma switch_not_returned: "switch_to_scheduler g c s \<noteq> Inr (Returned r, s')"
  by (auto simp: switch_to_scheduler_def and_then_Inr_iff)

lemma exit_turn_waits:
  assumes "GetFiberByHandle handle s = Inr (Some f)"
  shows "ExitThread_turn g handle s \<noteq> Inr (Returned (), s')"
  using assms by (simp add: ExitThread_turn_def ExitThreadImpl_turn_def SleepThreadImpl_def switch_not_returned)

text \<open>
  A thread that ends gives its slot back but not its handle: the handle still finds the freed
  fiber, so every turn of the loop in \<open>ExitThreadImpl\<close>, which waits for the handle to become
  invalid, sleeps again and the call never returns.
\<close>

theorem exit_keeps_handle:
  assumes "placed s L R K" and "f \<in> R" and "0 < f" and "GetFiberByHandle handle s = Inr (Some f)"
    and "current_core (m_fibers s f) < m_core_count s"
    and "unat (current_core (m_fibers s f)) < length (m_scheduler_fiber_table s)"
  shows "\<exists>s1 s2. UserFiberMain_end f s = Inr (Switched (current_core (m_fibers s f)) NeverResumed, s1) \<and>
    Dispatch_end f (current_core (m_fibers s f)) s1 = Inr s2 \<and>
    f \<notin> live_slots (UserFiberLocalAllocator s2) \<and> GetFiberByHandle handle s2 = Inr (Some f) \<and>
    (\<forall>g s3. ExitThread_turn g handle s2 \<noteq> Inr (Returned (), s3))"
proof -
  let ?s1 = "fiber_update f (fiber_state_update (\<lambda>_. Exiting)) (AcquireSRWLockExclusive s)"
  have e: "UserFiberMain_end f s = Inr (Switched (current_core (m_fibers s f)) NeverResumed, ?s1)"
    using assms(5,6) by (simp add: UserFiberMain_end_def ExitFiberImpl_def switch_to_scheduler_def GetSchedulerFiber_def)
  have "f \<in> live_slots (UserFiberLocalAllocator s)" "allocator_wf (UserFiberLocalAllocator s)"
    using placedD(7) [OF assms(1,2)] assms(1) by (simp_all only: placed_def Diff_iff simp_thms)
  then obtain a where a: "Free f (UserFiberLocalAllocator s) = Inr a" "live_slots a = live_slots (UserFiberLocalAllocator s) - {f}"
    using fixed.release_slot [of "UserFiberLocalAllocator s" f] assms(3) by auto
  let ?s2 = "?s1\<lparr>UserFiberLocalAllocator := a\<rparr>"
  have d: "Dispatch_end f (current_core (m_fibers s f)) ?s1 = Inr ?s2" using a(1) by (simp add: Dispatch_end_def)
  have h: "GetFiberByHandle handle ?s2 = Inr (Some f)" using assms(4) by (simp add: GetFiberByHandle_def)
  have n: "f \<notin> live_slots (UserFiberLocalAllocator ?s2)" using a(2) by simp
  show ?thesis
    using exit_turn_waits [OF h]
    by (intro exI [of _ ?s1] exI [of _ ?s2] conjI e d n h allI)
qed

text \<open>Fiber 1 runs and has the first handle; fiber 0 waits in its list.\<close>

definition running_kernel :: user_scheduler where
  "running_kernel = blank\<lparr>m_core_count := 4, m_handle_table := snd (projr (ReserveHandle (Some 1) (Initialize HandleTable))),
    m_fibers := (\<lambda>_. (example_fiber 2)\<lparr>fiber_state := Running\<rparr>),
    UserFiberLocalAllocator := snd (projr (fixed.alloc_many () 2 (FixedObjectAllocator MaxThreadCount)))\<rparr>"

lemma running_kernel_allocator:
  "allocator_wf (UserFiberLocalAllocator running_kernel)" "slot_count (UserFiberLocalAllocator running_kernel) = MaxThreadCount"
  "live_slots (UserFiberLocalAllocator running_kernel) = {0, 1}"
proof -
  let ?a = "FixedObjectAllocator MaxThreadCount :: unit object_allocator"
  have wf: "allocator_wf ?a" "live_slots ?a = {}" "slot_count ?a = MaxThreadCount"
    by (rule FixedObjectAllocator_wf; simp add: MaxThreadCount_def)+
  obtain js b where b: "fixed.alloc_many () 2 ?a = Inr (js, b)" "length js = 2" "live_slots b = set js"
      "allocator_wf b" "slot_count b = MaxThreadCount"
    using fixed.alloc_many_fresh [of ?a 2 "()"] wf by (auto simp: MaxThreadCount_def)
  have "m_slots ?a ! 0 = FreeNode (Some 1)" "m_slots ?a ! 1 = FreeNode (Some 2)" "length (m_slots ?a) = 256"
    by (simp_all add: FixedObjectAllocator_def MaxThreadCount_def link_nodes_nth)
  moreover have "m_free_list ?a = Some 0" by (simp add: FixedObjectAllocator_def)
  ultimately have "js = [0, 1]"
    using b(1) by (simp add: numeral_2_eq_2 Allocate_def)
  with b show "allocator_wf (UserFiberLocalAllocator running_kernel)" "slot_count (UserFiberLocalAllocator running_kernel) = MaxThreadCount"
    "live_slots (UserFiberLocalAllocator running_kernel) = {0, 1}"
    by (simp_all add: running_kernel_def)
qed

lemma running_kernel_handles:
  "GetFiberByHandle 0x80FF running_kernel = Inr (Some 1)" "table_wf (m_handle_table running_kernel)"
  "GetFiberByHandle g running_kernel = Inr (Some f) \<Longrightarrow> f = 1"
proof -
  obtain t where t: "ReserveHandle (Some (1::nat)) (Initialize HandleTable) = Inr (Some 0x80FF, t)"
    using first_reservation [of "1::nat"] by blast
  have l: "GetObjectByHandle g t = (if g = 0x80FF then Inr (Some 1) else GetObjectByHandle g (Initialize HandleTable))" for g
    using ht.reserve_lookup [OF initial_table_wf t] by simp
  have k: "m_handle_table running_kernel = t" using t by (simp add: running_kernel_def del: One_nat_def)
  show "GetFiberByHandle 0x80FF running_kernel = Inr (Some 1)" by (simp add: GetFiberByHandle_def k l)
  show "table_wf (m_handle_table running_kernel)" using ht.reserve_wf [OF initial_table_wf t] by (simp add: k)
  show "f = 1" if "GetFiberByHandle g running_kernel = Inr (Some f)"
    using that by (simp add: GetFiberByHandle_def k l initial_lookup split: if_splits)
qed

lemma running_kernel_placed: "placed running_kernel (\<lambda>_. []) {0, 1} {}"
proof -
  have "sched_lists running_kernel (\<lambda>_. []) (\<lambda>_. [])"
    by (rule unlinked_lists) (simp add: running_kernel_def blank_def UserScheduler_def)
  moreover have "waitable (m_fibers running_kernel f) = None" "priority (m_fibers running_kernel f) \<in> {0..4}"
    "fiber_state (m_fibers running_kernel f) = Running" for f
    by (simp_all add: running_kernel_def example_fiber_def zero_fiber_def)
  moreover have "f \<in> {0, 1}" if "GetFiberByHandle h running_kernel = Inr (Some f)" for h f
    using running_kernel_handles(3) [OF that] by simp
  moreover have "enlisted (\<lambda>_. []) = {}" by (simp add: enlisted_def)
  ultimately show ?thesis
    unfolding placed_def running_kernel_allocator(2,3)
    using running_kernel_allocator(1) running_kernel_handles(2)
    by (intro conjI) simp_all
qed

theorem exit_keeps_handle_witness:
  "\<exists>s1 s2. UserFiberMain_end 1 running_kernel = Inr (Switched (current_core (m_fibers running_kernel 1)) NeverResumed, s1) \<and>
    Dispatch_end 1 (current_core (m_fibers running_kernel 1)) s1 = Inr s2 \<and>
    1 \<notin> live_slots (UserFiberLocalAllocator s2) \<and> GetFiberByHandle 0x80FF s2 = Inr (Some 1) \<and>
    (\<forall>g s3. ExitThread_turn g 0x80FF s2 \<noteq> Inr (Returned (), s3))"
  by (rule exit_keeps_handle [OF running_kernel_placed _ _ running_kernel_handles(1)])
    (simp_all add: running_kernel_def example_fiber_def zero_fiber_def blank_def UserScheduler_def MaxCoreCount_def)

section \<open>Changing a priority\<close>

text \<open>
  \<open>SetPriorityImpl\<close> refuses every priority \<open>CreateThread\<close> accepts, and accepts one outside that
  range, without the offset: a scheduled thread whose priority is set to a value no list stands
  for reports success, is still marked as scheduled and is in no list any more, so no core
  ever runs it again.
\<close>

theorem set_priority_inverted:
  assumes "sched_lists s L W" and "GetFiberByHandle handle s = Inr (Some f)"
    and "fiber_state (m_fibers s f) = Scheduled" and "activity_level (m_fibers s f) = ActivityLevel_Schedulable"
    and "priority (m_fibers s f) \<noteq> p" and "p < - 2 \<or> 4 < p"
  shows "(\<forall>q. - 2 \<le> q \<and> q \<le> 2 \<longrightarrow> SetPriorityImpl handle q s = Inr (Returned ResultInvalidPriority, s)) \<and>
    (\<exists>s' L'. SetPriorityImpl handle p s = Inr (Returned ResultSuccess, s') \<and>
      fiber_state (m_fibers s' f) = Scheduled \<and> sched_lists s' L' W \<and> f \<notin> enlisted L')"
proof -
  let ?g = "priority_update (\<lambda>_. p)"
  let ?s = "links_update (Unlink (SchedulerNode f)) (fiber_update f ?g (AcquireSRWLockExclusive s))"
  let ?s' = "ReleaseSRWLockExclusive (AddToSchedulerUnsafe f ?s)"
  have lf: "list_for (?g (m_fibers s f)) = None" and sf: "state_for (?g (m_fibers s f)) = Scheduled"
    using assms(4,6) by (auto simp: list_for_def state_for_def ActivityLevel_Suspended_def ActivityLevel_Schedulable_def)
  have "(- 2 \<le> p \<and> p \<le> 2) = False" using assms(6) by auto
  then have "SetPriorityImpl handle p s = Inr (Returned ResultSuccess, ?s')"
    using assms(2,3,5) by (simp only: SetPriorityImpl_def if_False) (simp add: return_locked_def)
  moreover have "fiber_state (m_fibers ?s' f) = Scheduled" using sf by simp
  moreover have "m_links ?s' = m_links (links_update (Unlink (SchedulerNode f)) s)"
    using lf by (simp add: AddToSchedulerUnsafe_links)
  then have "sched_lists ?s' (\<lambda>h. remove1 f (L h)) W"
    using lists_unlink_scheduler [OF assms(1), of f] by (simp only: sched_lists_def)
  ultimately show ?thesis
    using remove1_not_enlisted [OF assms(1), of f] by (auto simp: SetPriorityImpl_def)
qed

theorem set_priority_inverted_witness:
  "\<exists>s s' L'. s = example\<lparr>m_handle_table := snd (projr (ReserveHandle (Some 3) (Initialize HandleTable)))\<rparr> \<and>
    (\<forall>q. - 2 \<le> q \<and> q \<le> 2 \<longrightarrow> SetPriorityImpl 0x80FF q s = Inr (Returned ResultInvalidPriority, s)) \<and>
    SetPriorityImpl 0x80FF 7 s = Inr (Returned ResultSuccess, s') \<and>
    fiber_state (m_fibers s' 3) = Scheduled \<and> sched_lists s' L' (\<lambda>_. []) \<and> 3 \<notin> enlisted L'"
proof -
  obtain t where t: "ReserveHandle (Some (3::nat)) (Initialize HandleTable) = Inr (Some 0x80FF, t)"
    using first_reservation [of "3::nat"] by blast
  let ?s = "example\<lparr>m_handle_table := t\<rparr>"
  have "GetFiberByHandle 0x80FF ?s = Inr (Some 3)"
    using ht.reserve_lookup [OF initial_table_wf t] by (simp add: GetFiberByHandle_def)
  moreover have "sched_lists ?s example_lists (\<lambda>_. [])" using example_sched_lists by (simp add: sched_lists_def)
  moreover have "fiber_state (m_fibers ?s 3) = Scheduled" "activity_level (m_fibers ?s 3) = ActivityLevel_Schedulable"
    "priority (m_fibers ?s 3) \<noteq> 7"
    by (simp_all add: example_fibers example_fiber_def zero_fiber_def)
  ultimately show ?thesis
    using set_priority_inverted [where s = ?s and L = example_lists and handle = "0x80FF" and f = 3 and p = 7] t by auto
qed

end
