(* ===== verification/Fixed_String.thy ===== *)
theory Fixed_String
  imports DD_Prelude
begin

text \<open>
  Character buffers: the constant-evaluation string functions of \<open>util_tstring.hpp\<close>, the
  character codes of \<open>util_charactercode.hpp\<close>, and \<open>FixedString\<close> and \<open>HeapString\<close> of
  \<open>util_bufferstring.hpp\<close>.

  A pointer to characters is the list of the characters from it to the end of its array, so that
  reading past the array is the fault \<open>OutOfBounds\<close>. Where the code asks
  \<open>std::is_constant_evaluated()\<close> the model is the branch that runs in the program.
\<close>

section \<open>The C library\<close>

definition nul_char :: char where
  "nul_char = CHR 0x00"

fun strlen :: "string \<Rightarrow> nat outcome" where
  "strlen [] = Inl OutOfBounds"
| "strlen (c # cs) = (if c = nul_char then Inr 0 else and_then (strlen cs) (\<lambda>n. Inr (Suc n)))"

fun strnlen :: "string \<Rightarrow> nat \<Rightarrow> nat outcome" where
  "strnlen cs 0 = Inr 0"
| "strnlen [] (Suc n) = Inl OutOfBounds"
| "strnlen (c # cs) (Suc n) = (if c = nul_char then Inr 0 else and_then (strnlen cs n) (\<lambda>k. Inr (Suc k)))"

definition write_at :: "nat \<Rightarrow> string \<Rightarrow> string \<Rightarrow> string outcome" where
  "write_at off cs buf =
    (if off + length cs \<le> length buf then Inr (take off buf @ cs @ drop (off + length cs) buf)
     else Inl OutOfBounds)"

text \<open>\<open>strncpy(buf + off, src, n)\<close> writes \<open>n\<close> characters: the text of \<open>src\<close>, then zeros.\<close>

definition strncpy_at :: "nat \<Rightarrow> string \<Rightarrow> nat \<Rightarrow> string \<Rightarrow> string outcome" where
  "strncpy_at off src n buf =
    and_then (strnlen src n) (\<lambda>k. write_at off (take k src @ replicate (n - k) nul_char) buf)"

text \<open>\<open>vsnprintf(buf + off, n, ...)\<close> for a format that expands to \<open>chars\<close>.\<close>

definition vsnprintf_at :: "nat \<Rightarrow> nat \<Rightarrow> string \<Rightarrow> string \<Rightarrow> string outcome" where
  "vsnprintf_at off n chars buf =
    (if n = 0 then Inr buf else write_at off (take (n - 1) chars @ [nul_char]) buf)"

section \<open>util_tstring.hpp\<close>

text \<open>The loops test \<open>string[len]\<close> and \<open>len < max_size\<close> with \<open>&\<close>, so both are evaluated.\<close>

fun TStringLength :: "string \<Rightarrow> nat \<Rightarrow> nat outcome" where
  "TStringLength [] max_size = Inl OutOfBounds"
| "TStringLength (c # cs) max_size =
    (if c \<noteq> nul_char \<and> 0 < max_size
     then and_then (TStringLength cs (max_size - 1)) (\<lambda>len. Inr (Suc len)) else Inr 0)"

fun TStringCopy :: "string \<Rightarrow> string \<Rightarrow> nat \<Rightarrow> (nat \<times> string) outcome" where
  "TStringCopy dst [] max_size = Inl OutOfBounds"
| "TStringCopy [] (c # src) max_size = Inl OutOfBounds"
| "TStringCopy (d # dst) (c # src) max_size =
    (if c \<noteq> nul_char \<and> 0 < max_size
     then and_then (TStringCopy dst src (max_size - 1)) (\<lambda>(len, out). Inr (Suc len, c # out))
     else Inr (0, nul_char # dst))"

fun TStringCompare :: "string \<Rightarrow> string \<Rightarrow> nat \<Rightarrow> bool outcome" where
  "TStringCompare lhs rhs 0 = Inr True"
| "TStringCompare (a # lhs) (b # rhs) (Suc max_size) =
    (if a \<noteq> b then Inr False else if a = nul_char then Inr True else TStringCompare lhs rhs max_size)"
| "TStringCompare lhs rhs (Suc max_size) = Inl OutOfBounds"

section \<open>util_charactercode.hpp\<close>

text \<open>A \<open>char\<close> is signed.\<close>

definition char_code :: "char \<Rightarrow> 'a::len word" where
  "char_code c = scast (of_nat (of_char c) :: u8)"

text \<open>The bytes of a text, the first one lowest; \<open>_consteval_fail\<close> is a failed assertion.\<close>

fun pack_bytes :: "string \<Rightarrow> 'a::len word" where
  "pack_bytes [] = 0"
| "pack_bytes (c # cs) = char_code c OR push_bit 8 (pack_bytes cs)"

definition char_code_of :: "nat \<Rightarrow> string \<Rightarrow> 'a::len word outcome" where
  "char_code_of n chars =
    and_then (TStringLength chars (Suc n)) (\<lambda>sz.
    if sz \<noteq> n then Inl AssertFailed else Inr (pack_bytes (take n chars)))"

definition TCharCode16 :: "string \<Rightarrow> u16 outcome" where
  "TCharCode16 chars = char_code_of 2 chars"

definition TCharCode32 :: "string \<Rightarrow> u32 outcome" where
  "TCharCode32 chars = char_code_of 4 chars"

definition TCharCode64 :: "string \<Rightarrow> u64 outcome" where
  "TCharCode64 chars = char_code_of 8 chars"

text \<open>The static assertions of the file.\<close>

lemma char_code_asserts:
  "TCharCode16 (''BY'' @ [nul_char]) = Inr 0x5942"
  "TCharCode32 (''BNSH'' @ [nul_char]) = Inr 0x48534e42"
  "TCharCode64 (''FRES    '' @ [nul_char]) = Inr 0x2020202053455246"
  by (simp_all add: TCharCode16_def TCharCode32_def TCharCode64_def char_code_of_def nul_char_def char_code_def)

section \<open>FixedString\<close>

record fixed_string =
  m_string_array :: string
  m_length :: u32

text \<open>\<open>Size\<close> is the length of the array. The default constructor leaves \<open>m_length\<close> unset.\<close>

definition FixedString :: "nat \<Rightarrow> u32 \<Rightarrow> fixed_string" where
  "FixedString sz junk = \<lparr>m_string_array = replicate sz nul_char, m_length = junk\<rparr>"

definition AssureTermination :: "fixed_string \<Rightarrow> fixed_string outcome" where
  "AssureTermination fs =
    and_then (write_at (length (m_string_array fs) - 1) [nul_char] (m_string_array fs))
      (\<lambda>a. Inr (fs\<lparr>m_string_array := a\<rparr>))"

definition FixedString_from :: "nat \<Rightarrow> string \<Rightarrow> fixed_string outcome" where
  "FixedString_from sz chars =
    and_then (strnlen chars sz) (\<lambda>len.
    and_then (strncpy_at 0 chars (len + 1) (replicate sz nul_char)) (\<lambda>a.
    AssureTermination \<lparr>m_string_array = a, m_length = of_nat len\<rparr>))"

definition assign_FixedString :: "fixed_string \<Rightarrow> fixed_string \<Rightarrow> fixed_string outcome" where
  "assign_FixedString rhs fs =
    (let sz = length (m_string_array fs);
         len = (if unat (m_length rhs) < sz - 1 then unat (m_length rhs) else sz - 1)
     in and_then (strncpy_at 0 (m_string_array rhs) len (m_string_array fs)) (\<lambda>a.
        AssureTermination \<lparr>m_string_array = a, m_length = of_nat len\<rparr>))"

definition assign_chars :: "string \<Rightarrow> fixed_string \<Rightarrow> fixed_string outcome" where
  "assign_chars rhs fs =
    (let sz = length (m_string_array fs)
     in and_then (strnlen rhs (sz - 1)) (\<lambda>len.
        and_then (strncpy_at 0 rhs len (m_string_array fs)) (\<lambda>a.
        AssureTermination \<lparr>m_string_array = a, m_length = of_nat len\<rparr>)))"

text \<open>The expansion of the format is the argument \<open>chars\<close>; \<open>vsnprintf\<close> returns its length.\<close>

definition Format :: "string \<Rightarrow> fixed_string \<Rightarrow> (u64 \<times> fixed_string) outcome" where
  "Format chars fs =
    and_then (vsnprintf_at 0 (length (m_string_array fs)) chars (m_string_array fs)) (\<lambda>a.
    and_then (AssureTermination \<lparr>m_string_array = a, m_length = of_nat (length chars)\<rparr>) (\<lambda>fs.
    Inr (ucast (m_length fs), fs)))"

definition AppendFormat :: "string \<Rightarrow> fixed_string \<Rightarrow> (u64 \<times> fixed_string) outcome" where
  "AppendFormat chars fs =
    (let off = unat (m_length fs);
         room = unat (of_nat (length (m_string_array fs)) - (ucast (m_length fs) :: u64))
     in and_then (vsnprintf_at off room chars (m_string_array fs)) (\<lambda>a.
        and_then (AssureTermination \<lparr>m_string_array = a, m_length = m_length fs + of_nat (length chars)\<rparr>)
        (\<lambda>fs. Inr (ucast (m_length fs), fs))))"

definition Append :: "string \<Rightarrow> fixed_string \<Rightarrow> (u64 \<times> fixed_string) outcome" where
  "Append chars fs =
    (let room = unat (of_nat (length (m_string_array fs)) - (ucast (m_length fs) :: u64) - 1)
     in and_then (strnlen chars room) (\<lambda>append_length.
        and_then (strncpy_at (unat (m_length fs)) chars append_length (m_string_array fs)) (\<lambda>a.
        and_then (AssureTermination \<lparr>m_string_array = a, m_length = m_length fs + of_nat append_length\<rparr>)
        (\<lambda>fs. Inr (ucast (m_length fs), fs)))))"

text \<open>
  \<open>HeapString\<close>: \<open>memory\<close> is what \<open>operator new\<close> returned for \<open>length + 1\<close> characters, with what it
  held, or None for null.
\<close>

definition HeapString :: "string option \<Rightarrow> string \<Rightarrow> string outcome" where
  "HeapString memory chars =
    and_then (strlen chars) (\<lambda>len.
    and_then (deref memory) (\<lambda>m. strncpy_at 0 chars len m))"

section \<open>What a reader of the buffer sees\<close>

definition c_text :: "string \<Rightarrow> string" where
  "c_text buf = takeWhile (\<lambda>c. c \<noteq> nul_char) buf"

definition is_c_string :: "string \<Rightarrow> bool" where
  "is_c_string buf \<longleftrightarrow> nul_char \<in> set buf"

text \<open>A buffer that holds its text, the length of it, and zeros behind it.\<close>

definition fs_wf :: "fixed_string \<Rightarrow> bool" where
  "fs_wf fs \<longleftrightarrow>
    length (m_string_array fs) < 0xffff \<and>
    (\<exists>chars. nul_char \<notin> set chars \<and> length chars < length (m_string_array fs) \<and> unat (m_length fs) = length chars \<and>
      m_string_array fs = chars @ replicate (length (m_string_array fs) - length chars) nul_char)"

section \<open>Lemmas\<close>

lemma c_text_le: "length (c_text buf) \<le> length buf"
  by (simp add: c_text_def length_takeWhile_le)

lemma c_text_append: "nul_char \<notin> set chars \<Longrightarrow> c_text (chars @ rest) = chars @ c_text rest"
  by (auto simp: c_text_def takeWhile_append)

lemma c_text_nul [simp]: "c_text (nul_char # rest) = []" "c_text [] = []"
  "nul_char \<notin> set (c_text buf)"
  by (auto simp: c_text_def dest: set_takeWhileD)

lemma c_text_prefix: "take (length (c_text buf)) buf = c_text buf"
  unfolding c_text_def by (rule takeWhile_eq_take [symmetric])

lemma c_string_split:
  assumes "is_c_string buf"
  obtains rest where "buf = c_text buf @ nul_char # rest"
proof -
  obtain ys zs where "buf = ys @ nul_char # zs" "nul_char \<notin> set ys"
    using assms by (auto simp: is_c_string_def dest: split_list_first)
  then show thesis using that [of zs] by (simp add: c_text_append)
qed

lemma strlen_eq: "strlen buf = (if is_c_string buf then Inr (length (c_text buf)) else Inl OutOfBounds)"
  by (induction buf) (auto simp: is_c_string_def c_text_def)

lemma strnlen_eq:
  "strnlen buf n = (if n \<le> length (c_text buf) then Inr n
    else if is_c_string buf then Inr (length (c_text buf)) else Inl OutOfBounds)"
  by (induction buf n rule: strnlen.induct) (auto simp: is_c_string_def c_text_def)

lemma strnlen_c_string: "is_c_string buf \<Longrightarrow> strnlen buf n = Inr (min n (length (c_text buf)))"
  by (simp add: strnlen_eq min_def)

lemma take_min_c_text: "n \<le> length (c_text buf) \<Longrightarrow> take n buf = take n (c_text buf)"
  by (metis c_text_prefix min.absorb1 take_take)

lemma strncpy_text:
  assumes "n \<le> length (c_text src)"
  shows "strncpy_at off src n buf = write_at off (take n (c_text src)) buf"
  using assms take_min_c_text [OF assms] by (simp add: strncpy_at_def strnlen_eq)

lemma write_last:
  assumes "buf = pre @ [nul_char]"
  shows "write_at (length buf - 1) [nul_char] buf = Inr buf"
  using assms by (simp add: write_at_def)

text \<open>A text with zeros behind it.\<close>

abbreviation padded :: "nat \<Rightarrow> string \<Rightarrow> string" where
  "padded sz chars \<equiv> chars @ replicate (sz - length chars) nul_char"

lemma padded_last: "length chars < sz \<Longrightarrow> \<exists>pre. padded sz chars = pre @ [nul_char]"
  by (rule exI [of _ "chars @ replicate (sz - length chars - 1) nul_char"])
    (metis Suc_diff_1 append.assoc replicate_Suc replicate_append_same zero_less_diff)

lemma write_text:
  assumes "length chars + length new < sz"
  shows "write_at (length chars) new (padded sz chars) = Inr (padded sz (chars @ new))"
  using assms by (simp add: write_at_def)

lemma AssureTermination_padded:
  assumes "length chars < sz"
  shows "AssureTermination \<lparr>m_string_array = padded sz chars, m_length = l\<rparr> =
    Inr \<lparr>m_string_array = padded sz chars, m_length = l\<rparr>"
proof -
  obtain pre where "padded sz chars = pre @ [nul_char]" using padded_last [OF assms] by blast
  moreover have "length (padded sz chars) = sz" using assms by simp
  ultimately show ?thesis
    using write_last [of "padded sz chars" pre] by (simp add: AssureTermination_def del: length_append)
qed

lemma fs_wf_padded:
  "fs_wf \<lparr>m_string_array = padded sz chars, m_length = of_nat (length chars)\<rparr> \<longleftrightarrow> True"
  if "nul_char \<notin> set chars" "length chars < sz" "sz < 0xffff"
  using that by (auto simp: fs_wf_def unat_of_nat_small intro!: exI [of _ "chars"])

lemma fs_wfE:
  assumes "fs_wf fs"
  obtains chars sz where "fs = \<lparr>m_string_array = padded sz chars, m_length = of_nat (length chars)\<rparr>"
    "nul_char \<notin> set chars" "length chars < sz" "sz < 0xffff"
proof -
  define sz where "sz = length (m_string_array fs)"
  obtain chars where t: "nul_char \<notin> set chars" "length chars < sz" "unat (m_length fs) = length chars"
    "m_string_array fs = padded sz chars" "sz < 0xffff"
    using assms unfolding fs_wf_def sz_def [symmetric] by blast
  have "m_length fs = of_nat (length chars)" by (simp flip: t(3))
  then have "fs = \<lparr>m_string_array = padded sz chars, m_length = of_nat (length chars)\<rparr>"
    using t(4) by simp
  with t show thesis by (intro that)
qed

lemma ucast_small: "n < 2 ^ 32 \<Longrightarrow> (ucast (of_nat n :: u32) :: u64) = of_nat n"
  by (simp add: unsigned_of_nat take_bit_nat_eq_self)

lemma room_left:
  assumes "l < sz" and "sz < 0xffff"
  shows "unat (of_nat sz - (ucast (of_nat l :: u32) :: u64) - 1) = sz - l - 1"
proof -
  have "(ucast (of_nat l :: u32) :: u64) = of_nat l"
    using assms by (intro ucast_small) simp
  then have "of_nat sz - (ucast (of_nat l :: u32) :: u64) - 1 = of_nat (sz - l - 1)"
    using assms(1) by (simp add: of_nat_diff)
  then have "unat (of_nat sz - (ucast (of_nat l :: u32) :: u64) - 1) = unat (of_nat (sz - l - 1) :: u64)"
    by (simp only:)
  also have "\<dots> = sz - l - 1" using assms by (intro unat_of_nat_small) simp
  finally show ?thesis .
qed

lemma c_text_padded: "nul_char \<notin> set chars \<Longrightarrow> c_text (padded sz chars) = chars"
  using c_text_append [of chars "[]"] by (cases "sz - length chars") (simp_all add: c_text_append)

section \<open>Appending and assigning\<close>

text \<open>
  \<open>Append\<close> to a well-formed string keeps it well-formed and its text becomes the old text followed
  by the new one, cut off at the capacity; the length returned is the length of the text.
\<close>

theorem fixed_string_append:
  assumes "fs_wf fs" and "is_c_string src"
  shows "\<exists>fs'. Append src fs = Inr (of_nat (length (c_text (m_string_array fs'))), fs') \<and> fs_wf fs' \<and>
    length (m_string_array fs') = length (m_string_array fs) \<and>
    c_text (m_string_array fs') =
      take (length (m_string_array fs) - 1) (c_text (m_string_array fs) @ c_text src)"
proof -
  obtain chars sz where fs: "fs = \<lparr>m_string_array = padded sz chars, m_length = of_nat (length chars)\<rparr>"
    and z: "nul_char \<notin> set chars" and l: "length chars < sz" and sz: "sz < 0xffff"
    using assms(1) by (rule fs_wfE)
  define n where "n = min (sz - length chars - 1) (length (c_text src))"
  define new where "new = take n (c_text src)"
  have ln: "length new = n" and nl: "length chars + n < sz" using l by (auto simp: new_def n_def)
  have zn: "nul_char \<notin> set (chars @ new)" using z by (auto simp: new_def dest: in_set_takeD)
  have u: "unat (of_nat (length chars) :: u32) = length chars" using l sz by (simp add: unat_of_nat_small)
  have len: "length (padded sz chars) = sz" using l by simp
  have "strnlen src (sz - length chars - 1) = Inr n" using strnlen_c_string [OF assms(2)] by (simp add: n_def)
  moreover have "strncpy_at (length chars) src n (padded sz chars) = Inr (padded sz (chars @ new))"
    using strncpy_text [of n src "length chars" "padded sz chars"] write_text [of chars new sz] nl ln
    by (simp add: n_def new_def)
  moreover have "(of_nat (length chars) :: u32) + of_nat n = of_nat (length (chars @ new))" by (simp add: ln)
  moreover have "AssureTermination \<lparr>m_string_array = padded sz (chars @ new), m_length = of_nat (length (chars @ new))\<rparr> =
      Inr \<lparr>m_string_array = padded sz (chars @ new), m_length = of_nat (length (chars @ new))\<rparr>"
    using nl ln by (intro AssureTermination_padded) simp
  moreover have "(ucast (of_nat (length (chars @ new)) :: u32) :: u64) = of_nat (length (chars @ new))"
    using nl ln sz by (intro ucast_small) simp
  ultimately have "Append src fs = Inr (of_nat (length (chars @ new)),
      \<lparr>m_string_array = padded sz (chars @ new), m_length = of_nat (length (chars @ new))\<rparr>)"
    unfolding Append_def fs fixed_string.simps len room_left [OF l sz] u Let_def by simp
  moreover have "take (sz - 1) (chars @ c_text src) = chars @ new"
    using l by (simp add: new_def n_def min_def)
  moreover have "fs_wf \<lparr>m_string_array = padded sz (chars @ new), m_length = of_nat (length (chars @ new))\<rparr>"
    using fs_wf_padded [OF zn, of sz] nl ln sz by simp
  ultimately show ?thesis
    using c_text_padded [OF zn] c_text_padded [OF z, of sz] nl ln len unfolding fs fixed_string.simps by auto
qed

text \<open>
  Assigning a text leaves what was behind it: after an assignment of a shorter text the length is
  that of the new text, but the characters still spell the new text followed by the tail of the old.
\<close>

theorem fixed_string_assign_keeps_tail:
  assumes "fs_wf fs" and "is_c_string rhs" and "length (c_text rhs) < length (m_string_array fs)"
  shows "\<exists>fs'. assign_chars rhs fs = Inr fs' \<and> unat (m_length fs') = length (c_text rhs) \<and>
    c_text (m_string_array fs') = c_text rhs @ drop (length (c_text rhs)) (c_text (m_string_array fs))"
proof -
  obtain chars sz where fs: "fs = \<lparr>m_string_array = padded sz chars, m_length = of_nat (length chars)\<rparr>"
    and z: "nul_char \<notin> set chars" and l: "length chars < sz" and sz: "sz < 0xffff"
    using assms(1) by (rule fs_wfE)
  define r where "r = c_text rhs"
  define out where "out = r @ drop (length r) chars"
  have len: "length (padded sz chars) = sz" using l by simp
  have rl: "length r < sz" using assms(3) unfolding fs fixed_string.simps len r_def .
  have zo: "nul_char \<notin> set out" and lo: "length out < sz"
    using z l rl by (auto simp: out_def r_def dest: in_set_dropD)
  have "strnlen rhs (sz - 1) = Inr (length r)"
    using strnlen_c_string [OF assms(2), of "sz - 1"] rl by (simp add: r_def min_absorb2)
  moreover have "drop (length r) (padded sz chars) = drop (length r) chars @ replicate (sz - length out) nul_char"
    using l rl by (cases "length r \<le> length chars") (simp_all add: out_def)
  then have "strncpy_at 0 rhs (length r) (padded sz chars) = Inr (padded sz out)"
    using strncpy_text [of "length r" rhs 0 "padded sz chars"] rl l by (simp add: r_def write_at_def out_def)
  moreover note AssureTermination_padded [OF lo, of "of_nat (length r)"]
  ultimately have "assign_chars rhs fs = Inr \<lparr>m_string_array = padded sz out, m_length = of_nat (length r)\<rparr>"
    unfolding assign_chars_def fs fixed_string.simps len Let_def by simp
  then show ?thesis
    using c_text_padded [OF zo, of sz] c_text_padded [OF z, of sz] rl sz
    unfolding fs fixed_string.simps by (auto simp: r_def out_def unat_of_nat_small)
qed

definition hello :: fixed_string where
  "hello = \<lparr>m_string_array = padded 8 ''hello'', m_length = 5\<rparr>"

lemma hello_wf: "fs_wf hello"
  using fs_wf_padded [of "''hello''" 8] by (simp add: hello_def nul_char_def)

theorem fixed_string_append_witness:
  "\<exists>fs'. Append (''world'' @ [nul_char]) hello = Inr (of_nat (length (c_text (m_string_array fs'))), fs') \<and> fs_wf fs' \<and>
    length (m_string_array fs') = 8 \<and> c_text (m_string_array fs') = ''hellowo''"
  using fixed_string_append [OF hello_wf, of "''world'' @ [nul_char]"]
  by (simp add: is_c_string_def hello_def c_text_def nul_char_def)

theorem fixed_string_assign_keeps_tail_witness:
  "\<exists>fs'. assign_chars (''ab'' @ [nul_char]) hello = Inr fs' \<and> unat (m_length fs') = 2 \<and>
    c_text (m_string_array fs') = ''abllo''"
  using fixed_string_assign_keeps_tail [OF hello_wf, of "''ab'' @ [nul_char]"]
  by (simp add: is_c_string_def hello_def c_text_def nul_char_def numeral_2_eq_2)

section \<open>The type of a fixed string\<close>

lemma write_at_length: "write_at off new buf = Inr buf' \<Longrightarrow> length buf' = length buf"
  by (auto simp: write_at_def split: if_splits)

lemma strncpy_at_length: "strncpy_at off src n buf = Inr buf' \<Longrightarrow> length buf' = length buf"
  by (auto simp: strncpy_at_def and_then_Inr_iff dest: write_at_length)

lemma vsnprintf_at_length: "vsnprintf_at off n chars buf = Inr buf' \<Longrightarrow> length buf' = length buf"
  by (auto simp: vsnprintf_at_def dest: write_at_length split: if_splits)

definition terminated :: "nat \<Rightarrow> fixed_string \<Rightarrow> bool" where
  "terminated sz fs \<longleftrightarrow> length (m_string_array fs) = sz \<and> 0 < sz \<and> last (m_string_array fs) = nul_char"

lemma AssureTermination_terminated:
  assumes "AssureTermination fs = Inr fs'" and "m_string_array fs \<noteq> []"
  shows "terminated (length (m_string_array fs)) fs'"
  using assms by (auto simp: AssureTermination_def terminated_def write_at_def and_then_Inr_iff split: if_splits)

text \<open>C34. Every operation that returns keeps the size of the buffer and ends it with a zero, whatever it held before.\<close>

theorem fixed_string_stays_terminated:
  assumes "0 < length (m_string_array fs)"
  shows "(assign_FixedString rhs fs = Inr fs' \<longrightarrow> terminated (length (m_string_array fs)) fs') \<and>
    (assign_chars src fs = Inr fs' \<longrightarrow> terminated (length (m_string_array fs)) fs') \<and>
    (Format src fs = Inr (n, fs') \<longrightarrow> terminated (length (m_string_array fs)) fs') \<and>
    (AppendFormat src fs = Inr (n, fs') \<longrightarrow> terminated (length (m_string_array fs)) fs') \<and>
    (Append src fs = Inr (n, fs') \<longrightarrow> terminated (length (m_string_array fs)) fs')"
proof -
  have t: "terminated (length (m_string_array fs)) fs'"
    if "AssureTermination \<lparr>m_string_array = a, m_length = l\<rparr> = Inr fs'" "length a = length (m_string_array fs)" for a l
  proof -
    have "a \<noteq> []" using that(2) assms by auto
    then show ?thesis using AssureTermination_terminated [OF that(1)] that(2) by simp
  qed
  show ?thesis
    by (intro conjI impI)
      (auto simp: assign_FixedString_def assign_chars_def Format_def AppendFormat_def Append_def Let_def and_then_Inr_iff
        dest!: strncpy_at_length vsnprintf_at_length intro: t)
qed

theorem fixed_string_stays_terminated_witness:
  "\<exists>fs'. assign_chars (''ab'' @ [nul_char]) hello = Inr fs' \<and> terminated 8 fs'"
proof -
  let ?fs = "\<lparr>m_string_array = ''abllo'' @ [nul_char, nul_char, nul_char], m_length = 2\<rparr>"
  have a: "assign_chars (''ab'' @ [nul_char]) hello = Inr ?fs"
    by (simp add: assign_chars_def hello_def strncpy_at_def write_at_def AssureTermination_def nul_char_def
        eval_nat_numeral)
  have "length (m_string_array hello) = 8" by (simp add: hello_def)
  then show ?thesis using fixed_string_stays_terminated [of hello hello ?fs "''ab'' @ [nul_char]" 0] a by auto
qed

end
