(* ===== verification/Path_Util.thy ===== *)
theory Path_Util
  imports Fixed_String
begin

text \<open>
  \<open>util_pathutil.hpp\<close>: splitting a path at its last directory or drive delimiter. Offsets and
  sizes are \<open>u32\<close>. A path is a character buffer; each function has an overload that measures it
  with \<open>strlen\<close> and one that reads the length a \<open>FixedString\<close> carries.
\<close>

section \<open>Delimiters\<close>

text \<open>
  The loops run down from the terminator and stop at offset 0 without looking at it. (At
  \<open>path_len = 0\<close>, which every caller rules out, the offset would wrap and leave the buffer.)
\<close>

fun find_back :: "char \<Rightarrow> string \<Rightarrow> nat \<Rightarrow> nat outcome" where
  "find_back c path 0 =
    (case path of [] \<Rightarrow> Inl OutOfBounds | p # _ \<Rightarrow> if p = c then Inr 0 else Inl OutOfBounds)"
| "find_back c path (Suc offset) =
    (if length path \<le> Suc offset then Inl OutOfBounds
     else if path ! Suc offset = c then Inr (Suc offset)
     else if offset = 0 then Inr 0 else find_back c path offset)"

definition FindDriveDelimiter :: "string \<Rightarrow> u32 \<Rightarrow> u32 outcome" where
  "FindDriveDelimiter path path_len =
    and_then (find_back CHR '':'' path (unat path_len)) (\<lambda>drive_offset. Inr (of_nat drive_offset))"

definition FindDirectoryDelimiter :: "string \<Rightarrow> u32 \<Rightarrow> u32 outcome" where
  "FindDirectoryDelimiter path path_len =
    and_then (find_back CHR 0x5C path (unat path_len)) (\<lambda>back_slash_offset.
    and_then (find_back CHR ''/'' path (unat path_len)) (\<lambda>forward_slash_offset.
    Inr (if forward_slash_offset < back_slash_offset then of_nat back_slash_offset
         else of_nat forward_slash_offset)))"

text \<open>It looks for a slash, too.\<close>

definition FindExtensionDelimiter :: "string \<Rightarrow> u32 \<Rightarrow> u32 outcome" where
  "FindExtensionDelimiter path path_len =
    and_then (find_back CHR ''/'' path (unat path_len)) (\<lambda>dot_offset. Inr (of_nat dot_offset))"

definition MaxPath :: nat where "MaxPath = 256"
definition MaxDrive :: nat where "MaxDrive = 32"

section \<open>Copying a part out\<close>

text \<open>
  \<open>memcpy(out->m_string_array, path + start, (size < max) ? size : (max - 1))\<close>, setting \<open>m_length\<close>
  to the whole size, and \<open>AssureTermination\<close>.
\<close>

definition copy_out :: "nat \<Rightarrow> string \<Rightarrow> u32 \<Rightarrow> u32 \<Rightarrow> fixed_string \<Rightarrow> fixed_string outcome" where
  "copy_out mx path start sz out =
    (let n = (if unat sz < mx then unat sz else mx - 1)
     in if length path < unat start + n then Inl OutOfBounds
        else and_then (write_at 0 (take n (drop (unat start) path)) (m_string_array out)) (\<lambda>a.
          AssureTermination \<lparr>m_string_array = a, m_length = sz\<rparr>))"

text \<open>The overload on characters: nothing for an empty path, else \<open>f\<close> with its length.\<close>

definition with_chars :: "(string \<Rightarrow> u32 \<Rightarrow> fixed_string \<Rightarrow> fixed_string outcome) \<Rightarrow> string option
    \<Rightarrow> fixed_string option \<Rightarrow> fixed_string option outcome" where
  "with_chars f path out =
    (case (out, path) of
       (Some fs, Some p) \<Rightarrow> and_then (strlen p) (\<lambda>len.
         if (of_nat len :: u32) = 0 then Inr (Some fs)
         else and_then (f p (of_nat len) fs) (\<lambda>fs. Inr (Some fs)))
     | _ \<Rightarrow> Inr out)"

definition with_string :: "(string \<Rightarrow> u32 \<Rightarrow> fixed_string \<Rightarrow> fixed_string outcome) \<Rightarrow> fixed_string option
    \<Rightarrow> fixed_string option \<Rightarrow> fixed_string option outcome" where
  "with_string f path out =
    (case (out, path) of
       (Some fs, Some p) \<Rightarrow>
         if m_length p = 0 then Inr (Some fs)
         else and_then (f (m_string_array p) (m_length p) fs) (\<lambda>fs. Inr (Some fs))
     | _ \<Rightarrow> Inr out)"

section \<open>The parts of a path\<close>

definition drive_part :: "string \<Rightarrow> u32 \<Rightarrow> fixed_string \<Rightarrow> fixed_string outcome" where
  "drive_part path path_len out =
    and_then (FindDriveDelimiter path path_len) (\<lambda>drive_start_offset.
    copy_out MaxDrive path 0 drive_start_offset out)"

definition without_drive_part :: "string \<Rightarrow> u32 \<Rightarrow> fixed_string \<Rightarrow> fixed_string outcome" where
  "without_drive_part path path_len out =
    and_then (FindDriveDelimiter path path_len) (\<lambda>drive_start_offset.
    copy_out MaxPath path drive_start_offset (path_len - drive_start_offset) out)"

definition directory_part :: "string \<Rightarrow> u32 \<Rightarrow> fixed_string \<Rightarrow> fixed_string outcome" where
  "directory_part path path_len out =
    and_then (FindDirectoryDelimiter path path_len) (\<lambda>name_start_offset.
    copy_out MaxPath path 0 name_start_offset out)"

definition directory_without_drive_part :: "string \<Rightarrow> u32 \<Rightarrow> fixed_string \<Rightarrow> fixed_string outcome" where
  "directory_without_drive_part path path_len out =
    and_then (FindDriveDelimiter path path_len) (\<lambda>dir_start_offset.
    and_then (FindDirectoryDelimiter path path_len) (\<lambda>name_start_offset.
    copy_out MaxPath path dir_start_offset (name_start_offset - dir_start_offset - name_start_offset) out))"

definition file_name_part :: "string \<Rightarrow> u32 \<Rightarrow> fixed_string \<Rightarrow> fixed_string outcome" where
  "file_name_part path path_len out =
    and_then (FindDirectoryDelimiter path path_len) (\<lambda>name_start_offset.
    copy_out MaxPath path name_start_offset (path_len - name_start_offset) out)"

definition file_name_no_extension_part :: "string \<Rightarrow> u32 \<Rightarrow> fixed_string \<Rightarrow> fixed_string outcome" where
  "file_name_no_extension_part path path_len out =
    and_then (FindExtensionDelimiter path path_len) (\<lambda>ext_start_offset.
    and_then (FindDirectoryDelimiter path path_len) (\<lambda>name_start_offset.
    copy_out MaxPath path name_start_offset (path_len - name_start_offset - ext_start_offset) out))"

definition extension_part :: "string \<Rightarrow> u32 \<Rightarrow> fixed_string \<Rightarrow> fixed_string outcome" where
  "extension_part path path_len out =
    and_then (FindDirectoryDelimiter path path_len) (\<lambda>name_start_offset.
    copy_out MaxPath path 0 name_start_offset out)"

text \<open>The two overloads of each; a null argument does nothing.\<close>

type_synonym path_function = "string option \<Rightarrow> fixed_string option \<Rightarrow> fixed_string option outcome"
type_synonym fixed_path_function = "fixed_string option \<Rightarrow> fixed_string option \<Rightarrow> fixed_string option outcome"

definition GetDriveFromPath :: path_function where
  "GetDriveFromPath = with_chars drive_part"
definition GetDriveFromPath_fixed :: fixed_path_function where
  "GetDriveFromPath_fixed = with_string drive_part"
definition GetPathWithoutDrive :: path_function where
  "GetPathWithoutDrive = with_chars without_drive_part"
definition GetPathWithoutDrive_fixed :: fixed_path_function where
  "GetPathWithoutDrive_fixed = with_string without_drive_part"
definition GetDirectory :: path_function where
  "GetDirectory = with_chars directory_part"
definition GetDirectory_fixed :: fixed_path_function where
  "GetDirectory_fixed = with_string directory_part"
definition GetDirectoryWithoutDrive :: path_function where
  "GetDirectoryWithoutDrive = with_chars directory_without_drive_part"
definition GetDirectoryWithoutDrive_fixed :: fixed_path_function where
  "GetDirectoryWithoutDrive_fixed = with_string directory_without_drive_part"
definition GetFileNameFromPath :: path_function where
  "GetFileNameFromPath = with_chars file_name_part"
definition GetFileNameFromPath_fixed :: fixed_path_function where
  "GetFileNameFromPath_fixed = with_string file_name_part"
definition GetFileNameFromPathNoExtension :: path_function where
  "GetFileNameFromPathNoExtension = with_chars file_name_no_extension_part"
definition GetFileNameFromPathNoExtension_fixed :: fixed_path_function where
  "GetFileNameFromPathNoExtension_fixed = with_string file_name_no_extension_part"
definition GetExtensionFromPath :: path_function where
  "GetExtensionFromPath = with_chars extension_part"
definition GetExtensionFromPath_fixed :: fixed_path_function where
  "GetExtensionFromPath_fixed = with_string extension_part"

text \<open>\<open>ChangeDirectoryDelimiter\<close>: from the last delimiter down to offset 1.\<close>

fun change_down :: "char \<Rightarrow> nat \<Rightarrow> string \<Rightarrow> string outcome" where
  "change_down d 0 path = Inr path"
| "change_down d (Suc offset) path =
    (if length path \<le> Suc offset then Inl OutOfBounds
     else change_down d offset
       (if path ! Suc offset = CHR ''/'' \<or> path ! Suc offset = CHR 0x5C then path[Suc offset := d] else path))"

definition ChangeDirectoryDelimiter :: "char \<Rightarrow> fixed_string option \<Rightarrow> fixed_string option outcome" where
  "ChangeDirectoryDelimiter new_delimiter in_out_path =
    (case in_out_path of None \<Rightarrow> Inr None
     | Some p \<Rightarrow>
       if m_length p = 0 then Inr (Some p)
       else and_then (FindDirectoryDelimiter (m_string_array p) (m_length p)) (\<lambda>start_offset.
         and_then (change_down new_delimiter (unat start_offset) (m_string_array p)) (\<lambda>a.
         Inr (Some (p\<lparr>m_string_array := a\<rparr>)))))"

section \<open>Lemmas\<close>

lemma find_back_spec:
  assumes "0 < n" and "n < length path"
  shows "\<exists>m\<le>n. find_back c path n = Inr m \<and> (0 < m \<longrightarrow> path ! m = c) \<and> (\<forall>i. m < i \<and> i \<le> n \<longrightarrow> path ! i \<noteq> c)"
  using assms
proof (induction n)
  case (Suc n)
  show ?case
  proof (cases "path ! Suc n = c \<or> n = 0")
    case True
    then show ?thesis using Suc.prems by (auto simp: le_Suc_eq)
  next
    case False
    then obtain m where m: "m \<le> n" "find_back c path n = Inr m" "0 < m \<longrightarrow> path ! m = c" "\<forall>i. m < i \<and> i \<le> n \<longrightarrow> path ! i \<noteq> c"
      using Suc.IH Suc.prems by auto
    then have "\<forall>i. m < i \<and> i \<le> Suc n \<longrightarrow> path ! i \<noteq> c" using False by (auto simp: le_Suc_eq)
    with m False Suc.prems show ?thesis by (intro exI [of _ m]) auto
  qed
qed simp

lemma FindDirectoryDelimiter_spec:
  assumes "0 < n" and "n < length path" and "n < 2 ^ 32"
  shows "\<exists>m\<le>n. FindDirectoryDelimiter path (of_nat n) = Inr (of_nat m) \<and> (0 < m \<longrightarrow> path ! m \<in> {CHR ''/'', CHR 0x5C}) \<and>
    (\<forall>i. m < i \<and> i \<le> n \<longrightarrow> path ! i \<noteq> CHR ''/'' \<and> path ! i \<noteq> CHR 0x5C)"
proof -
  obtain a where a: "a \<le> n" "find_back CHR 0x5C path n = Inr a" "0 < a \<longrightarrow> path ! a = CHR 0x5C" "\<forall>i. a < i \<and> i \<le> n \<longrightarrow> path ! i \<noteq> CHR 0x5C"
    using find_back_spec [OF assms(1,2)] by blast
  obtain b where b: "b \<le> n" "find_back CHR ''/'' path n = Inr b" "0 < b \<longrightarrow> path ! b = CHR ''/''" "\<forall>i. b < i \<and> i \<le> n \<longrightarrow> path ! i \<noteq> CHR ''/''"
    using find_back_spec [OF assms(1,2)] by blast
  have "unat (of_nat n :: u32) = n" using assms(3) by (simp add: unat_of_nat_small)
  then have "FindDirectoryDelimiter path (of_nat n) = Inr (of_nat (max a b))"
    using a(2) b(2) by (simp add: FindDirectoryDelimiter_def max_def not_less)
  with a b show ?thesis by (intro exI [of _ "max a b"]) (auto simp: max_def)
qed

lemma FindDriveDelimiter_spec:
  assumes "0 < n" and "n < length path" and "n < 2 ^ 32"
  shows "\<exists>m\<le>n. FindDriveDelimiter path (of_nat n) = Inr (of_nat m) \<and>
    (\<forall>i. m < i \<and> i \<le> n \<longrightarrow> path ! i \<noteq> CHR '':'')"
proof -
  have "unat (of_nat n :: u32) = n" using assms(3) by (simp add: unat_of_nat_small)
  with find_back_spec [OF assms(1,2), of "CHR '':''"] show ?thesis by (auto simp: FindDriveDelimiter_def)
qed

text \<open>Copying within the text of a path that fits, into a fresh string.\<close>

lemma copy_out_text:
  assumes "a + n \<le> length (c_text path)" and "n < mx" and "a + n < 2 ^ 32" and "mx < 2 ^ 32"
  shows "copy_out mx path (of_nat a) (of_nat n) (FixedString mx junk) =
    Inr \<lparr>m_string_array = padded mx (take n (drop a (c_text path))), m_length = of_nat n\<rparr>"
proof -
  have u: "unat (of_nat a :: u32) = a" "unat (of_nat n :: u32) = n"
    using assms(3) by (simp_all add: unat_of_nat_small)
  have t: "take n (drop a path) = take n (drop a (c_text path))"
    using take_min_c_text [OF assms(1)] by (metis add.commute take_drop)
  have l: "length (take n (drop a (c_text path))) = n" using assms(1) by simp
  have "a + n \<le> length path" using assms(1) c_text_le [of path] by linarith
  moreover have "write_at 0 (take n (drop a path)) (replicate mx nul_char) = Inr (padded mx (take n (drop a (c_text path))))"
    using write_text [of "[]" "take n (drop a (c_text path))" mx] assms(2) l by (simp add: t)
  moreover note AssureTermination_padded [of "take n (drop a (c_text path))" mx "of_nat n"]
  ultimately show ?thesis
    using assms(2) l by (simp add: copy_out_def FixedString_def u)
qed

lemma with_chars_text:
  assumes "is_c_string path" and "0 < length (c_text path)" and "length (c_text path) < 2 ^ 32"
    and "f path (of_nat (length (c_text path))) fs = Inr fs'"
  shows "with_chars f (Some path) (Some fs) = Inr (Some fs')"
proof -
  have "unat (of_nat (length (c_text path)) :: u32) = length (c_text path)"
    using assms(3) by (simp add: unat_of_nat_small)
  then have "(of_nat (length (c_text path)) :: u32) \<noteq> 0" using assms(2) by (metis less_irrefl unat_0)
  then show ?thesis using assms by (simp add: with_chars_def strlen_eq)
qed

lemma c_text_drop: "nul_char \<notin> set (take n (drop a (c_text path)))"
  using c_text_nul(3) [of path] by (meson in_set_takeD in_set_dropD)

lemma c_text_length_less: "is_c_string path \<Longrightarrow> length (c_text path) < length path"
  by (metis c_string_split length_append length_Cons less_add_Suc1 add_Suc_right)

lemma nth_c_text: "i < length (c_text path) \<Longrightarrow> c_text path ! i = path ! i"
  by (metis c_text_prefix nth_take)

section \<open>Splitting a path\<close>

text \<open>
  C33. \<open>GetDirectory\<close> and \<open>GetFileNameFromPath\<close> split a path that fits at its last delimiter: the two texts one after the
  other spell the path; the second one is not empty, starts with a delimiter unless the directory is empty, and has no delimiter after its first character.
\<close>

theorem path_split:
  assumes "is_c_string path" and "0 < length (c_text path)" and "length (c_text path) < MaxPath"
  shows "\<exists>d n. GetDirectory (Some path) (Some (FixedString MaxPath j)) = Inr (Some d) \<and>
    GetFileNameFromPath (Some path) (Some (FixedString MaxPath j)) = Inr (Some n) \<and>
    c_text (m_string_array d) @ c_text (m_string_array n) = c_text path \<and>
    unat (m_length d) = length (c_text (m_string_array d)) \<and> unat (m_length n) = length (c_text (m_string_array n)) \<and>
    c_text (m_string_array n) \<noteq> [] \<and> (c_text (m_string_array d) \<noteq> [] \<longrightarrow> hd (c_text (m_string_array n)) \<in> {CHR ''/'', CHR 0x5C}) \<and>
    CHR ''/'' \<notin> set (tl (c_text (m_string_array n))) \<and> CHR 0x5C \<notin> set (tl (c_text (m_string_array n)))"
proof -
  let ?t = "c_text path" let ?l = "length (c_text path)"
  have big: "?l < 2 ^ 32" using assms(3) by (simp add: MaxPath_def)
  obtain m where m: "m \<le> ?l" "FindDirectoryDelimiter path (of_nat ?l) = Inr (of_nat m)"
    and at: "0 < m \<longrightarrow> path ! m \<in> {CHR ''/'', CHR 0x5C}"
    and none: "\<forall>i. m < i \<and> i \<le> ?l \<longrightarrow> path ! i \<noteq> CHR ''/'' \<and> path ! i \<noteq> CHR 0x5C"
    using FindDirectoryDelimiter_spec [OF assms(2) c_text_length_less [OF assms(1)] big] by blast
  have sub: "(of_nat ?l :: u32) - of_nat m = of_nat (?l - m)" using m(1) by (simp add: of_nat_diff)
  let ?d = "\<lparr>m_string_array = padded MaxPath (take m ?t), m_length = of_nat m\<rparr>"
  let ?n = "\<lparr>m_string_array = padded MaxPath (drop m ?t), m_length = of_nat (?l - m)\<rparr>"
  have fits: "m < MaxPath" "?l - m < MaxPath" "MaxPath < 2 ^ 32" "0 + m \<le> ?l" "m + (?l - m) \<le> ?l"
      "0 + m < 2 ^ 32" "m + (?l - m) < 2 ^ 32"
    using m(1) assms(3) big by (simp_all add: MaxPath_def)
  have "directory_part path (of_nat ?l) (FixedString MaxPath j) = Inr ?d"
    unfolding directory_part_def m(2)
    using copy_out_text [OF fits(4,1,6,3), of j] by simp
  then have d: "GetDirectory (Some path) (Some (FixedString MaxPath j)) = Inr (Some ?d)"
    unfolding GetDirectory_def by (rule with_chars_text [OF assms(1,2) big])
  have "file_name_part path (of_nat ?l) (FixedString MaxPath j) = Inr ?n"
    unfolding file_name_part_def m(2)
    using copy_out_text [OF fits(5,2,7,3), of j] by (simp add: sub)
  then have n: "GetFileNameFromPath (Some path) (Some (FixedString MaxPath j)) = Inr (Some ?n)"
    unfolding GetFileNameFromPath_def by (rule with_chars_text [OF assms(1,2) big])
  have td: "c_text (m_string_array ?d) = take m ?t" "c_text (m_string_array ?n) = drop m ?t"
    using c_text_padded [of "take m ?t" MaxPath] c_text_padded [of "drop m ?t" MaxPath]
      c_text_drop [of m 0 path] c_text_drop [of "?l - m" m path] by simp_all
  have "path ! ?l = nul_char" using c_string_split [OF assms(1)] by (metis nth_append_length)
  then have "m \<noteq> ?l" using at assms(2) by (auto simp: nul_char_def)
  then have less: "m < ?l" using m(1) by simp
  then have first: "drop m ?t \<noteq> []" "take m ?t \<noteq> [] \<longrightarrow> hd (drop m ?t) \<in> {CHR ''/'', CHR 0x5C}"
    using at nth_c_text [OF less] by (auto simp: hd_drop_conv_nth)
  have "x \<noteq> CHR ''/'' \<and> x \<noteq> CHR 0x5C" if "x \<in> set (tl (drop m ?t))" for x
  proof -
    from that obtain i where "i < length (tl (drop m ?t))" "x = tl (drop m ?t) ! i" unfolding in_set_conv_nth by blast
    then have "Suc (m + i) < ?l" "x = ?t ! (Suc (m + i))" by (simp_all add: nth_tl)
    then show ?thesis using none nth_c_text [of "Suc (m + i)" path] by auto
  qed
  then have "CHR ''/'' \<notin> set (tl (drop m ?t)) \<and> CHR 0x5C \<notin> set (tl (drop m ?t))" by blast
  moreover have "unat (of_nat m :: u32) = m" "unat (of_nat (?l - m) :: u32) = ?l - m"
    by (rule unat_of_nat_small; use m(1) big in simp)+
  then have "unat (m_length ?d) = length (take m ?t)" "unat (m_length ?n) = length (drop m ?t)"
    using m(1) by (simp_all only: fixed_string.simps length_take length_drop min_absorb2)
  ultimately show ?thesis using d n td first by - (rule exI [of _ ?d], rule exI [of _ ?n], simp only: td append_take_drop_id simp_thms)
qed

theorem path_split_witness:
  "\<exists>d n. GetDirectory (Some (''data/maps/a.bin'' @ [nul_char])) (Some (FixedString MaxPath 0)) = Inr (Some d) \<and>
    GetFileNameFromPath (Some (''data/maps/a.bin'' @ [nul_char])) (Some (FixedString MaxPath 0)) = Inr (Some n) \<and>
    c_text (m_string_array d) @ c_text (m_string_array n) = ''data/maps/a.bin'' \<and>
    unat (m_length d) = length (c_text (m_string_array d)) \<and> unat (m_length n) = length (c_text (m_string_array n)) \<and>
    c_text (m_string_array n) \<noteq> [] \<and> (c_text (m_string_array d) \<noteq> [] \<longrightarrow> hd (c_text (m_string_array n)) \<in> {CHR ''/'', CHR 0x5C}) \<and>
    CHR ''/'' \<notin> set (tl (c_text (m_string_array n))) \<and> CHR 0x5C \<notin> set (tl (c_text (m_string_array n)))"
proof -
  let ?p = "''data/maps/a.bin'' @ [nul_char]"
  have t: "c_text ?p = ''data/maps/a.bin''" by (simp add: c_text_def nul_char_def)
  have "is_c_string ?p" by (simp add: is_c_string_def)
  moreover have "0 < length (c_text ?p)" "length (c_text ?p) < MaxPath" unfolding t by (simp_all add: MaxPath_def)
  ultimately have "is_c_string ?p" "0 < length (c_text ?p)" "length (c_text ?p) < MaxPath" by blast+
  from path_split [OF this, of 0] show ?thesis by (simp only: t)
qed

text \<open>
  The directory without its drive: the size is the negated offset of the colon, so for a path with a
  drive the length stored is over four billion and 255 characters are copied, which for a shorter
  path reads past its end.
\<close>

theorem directory_without_drive_overruns:
  assumes "is_c_string path" and "length path = Suc (length (c_text path))" and "Suc (length (c_text path)) < MaxPath"
    and "0 < i" and "i < length (c_text path)" and "c_text path ! i = CHR '':''"
  shows "GetDirectoryWithoutDrive (Some path) (Some (FixedString MaxPath j)) = Inl OutOfBounds"
proof -
  let ?l = "length (c_text path)"
  have big: "?l < 2 ^ 32" using assms(3) by (simp add: MaxPath_def)
  have pos: "0 < ?l" using assms(5) by linarith
  obtain c where c: "c \<le> ?l" "FindDriveDelimiter path (of_nat ?l) = Inr (of_nat c)"
    and none: "\<forall>i. c < i \<and> i \<le> ?l \<longrightarrow> path ! i \<noteq> CHR '':''"
    using FindDriveDelimiter_spec [OF pos c_text_length_less [OF assms(1)] big] by blast
  have "i \<le> c" using none assms(5,6) nth_c_text [OF assms(5)] by (metis less_imp_le_nat linorder_not_less)
  then have c0: "0 < c" using assms(4) by simp
  obtain m where m: "FindDirectoryDelimiter path (of_nat ?l) = Inr (of_nat m)"
    using FindDirectoryDelimiter_spec [OF pos c_text_length_less [OF assms(1)] big] by blast
  let ?sz = "(of_nat m :: u32) - of_nat c - of_nat m"
  have uc: "unat (of_nat c :: u32) = c" using c(1) big by (simp add: unat_of_nat_small)
  have "?sz = - of_nat c" by simp
  moreover have "(- of_nat c :: u32) = of_nat (2 ^ 32 - c)" using c(1) big by (simp add: of_nat_diff)
  moreover have "unat (of_nat (2 ^ 32 - c) :: u32) = 2 ^ 32 - c" by (rule unat_of_nat_small) (use c0 in simp)
  ultimately have "\<not> unat ?sz < MaxPath" using c(1) assms(3) by (simp only:) (simp add: MaxPath_def)
  then have "copy_out MaxPath path (of_nat c) ?sz (FixedString MaxPath j) = Inl OutOfBounds"
    using assms(2,3) c0 uc by (simp add: copy_out_def MaxPath_def)
  then have "directory_without_drive_part path (of_nat ?l) (FixedString MaxPath j) = Inl OutOfBounds"
    by (simp only: directory_without_drive_part_def c(2) m and_then.simps)
  moreover have "unat (of_nat ?l :: u32) \<noteq> 0" using pos big by (simp add: unat_of_nat_small)
  then have "(of_nat ?l :: u32) \<noteq> 0" by (metis unat_0)
  ultimately show ?thesis
    using assms(1) by (simp add: GetDirectoryWithoutDrive_def with_chars_def strlen_eq)
qed

theorem directory_without_drive_overruns_witness:
  "GetDirectoryWithoutDrive (Some (''host:dir/a'' @ [nul_char])) (Some (FixedString MaxPath 0)) = Inl OutOfBounds"
proof -
  let ?p = "''host:dir/a'' @ [nul_char]"
  have t: "c_text ?p = ''host:dir/a''" by (simp add: c_text_def nul_char_def)
  have "is_c_string ?p" by (simp add: is_c_string_def)
  moreover have "length ?p = Suc (length (c_text ?p))" "Suc (length (c_text ?p)) < MaxPath" "4 < length (c_text ?p)"
    "c_text ?p ! 4 = CHR '':''" unfolding t by (simp_all add: MaxPath_def)
  ultimately show ?thesis by (intro directory_without_drive_overruns [where i = 4]) simp_all
qed

end
