(* ===== verification/Exp_Heap.thy ===== *)
theory Exp_Heap
  imports Intrusive_List DD_Bits Fixed_String
begin

text \<open>
  Heaps: \<open>Heap\<close> and its one subclass in the build, \<open>ExpHeap\<close> (\<open>mem_heap.hpp\<close>, \<open>mem_expheap.hpp\<close>,
  \<open>mem_expheap.cpp\<close>).

  Memory is the header of the block at each address, the heap object at each address, the links
  of the block lists and those of the child lists. Addresses are 64-bit words; 0 is null. A list
  node is the block it is in or the list (its sentinel) of a heap: a sentinel used as a block is
  the fault \<open>BadObject\<close>. Headers at different addresses are taken not to overlap. The heap lock
  (\<open>ScopedHeapLock\<close>) makes a call one step.
\<close>

section \<open>Data\<close>

datatype block_node = BlockNode u64 | FreeList u64 | AllocatedList u64

datatype heap_node = HeapNode u64 | ChildList u64

record exp_block =
  alloc_magic :: u16
  alignment :: u8
  block_size :: u64

datatype allocation_mode = AllocationMode_FirstFit | AllocationMode_BestFit

record exp_heap =
  m_start_address :: u64
  m_end_address :: u64
  m_parent_heap :: u64
  m_name :: string
  m_is_thread_safe :: bool
  m_allocation_mode :: allocation_mode

record heap_memory =
  hm_block :: "u64 \<Rightarrow> exp_block"
  hm_heap :: "u64 \<Rightarrow> exp_heap"
  hm_links :: "block_node links"
  hm_children :: "heap_node links"

text \<open>\<open>sizeof\<close> on x64, and the constants of the class.\<close>

definition sizeof_ExpHeapMemoryBlock :: u64 where "sizeof_ExpHeapMemoryBlock = 32"
definition sizeof_ExpHeap :: u64 where "sizeof_ExpHeap = 152"
definition MinimumAlignment :: int where "MinimumAlignment = 4"
definition MinimumAllocationGranularity :: u64 where "MinimumAllocationGranularity = 4"

definition FreeMagic :: u16 where "FreeMagic = projr (TCharCode16 (''FR'' @ [nul_char]))"
definition AllocMagic :: u16 where "AllocMagic = projr (TCharCode16 (''UD'' @ [nul_char]))"

text \<open>A list of distinct addresses is never longer than this.\<close>

definition heap_fuel :: nat where "heap_fuel = 2 ^ 64 + 4"

definition block_links :: "(block_node links \<Rightarrow> block_node links) \<Rightarrow> heap_memory \<Rightarrow> heap_memory" where
  "block_links f s = s\<lparr>hm_links := f (hm_links s)\<rparr>"

definition block_update :: "u64 \<Rightarrow> (exp_block \<Rightarrow> exp_block) \<Rightarrow> heap_memory \<Rightarrow> heap_memory" where
  "block_update a f s = s\<lparr>hm_block := (hm_block s)(a := f (hm_block s a))\<rparr>"

text \<open>\<open>Traits::GetParentReference\<close>, for a node that is in a block.\<close>

fun block_parent :: "block_node \<Rightarrow> u64 outcome" where
  "block_parent (BlockNode a) = Inr a"
| "block_parent n = Inl BadObject"

text \<open>\<open>std::construct_at\<close> on a block sets its node only: the constructor leaves the other fields.\<close>

definition construct_block :: "u64 \<Rightarrow> heap_memory \<Rightarrow> heap_memory" where
  "construct_block a s = block_links (IntrusiveListNode (BlockNode a)) s"

section \<open>Blocks\<close>

text \<open>The search of \<open>AddFreeBlock\<close>: the blocks before and after the range, 0 for none.\<close>

definition neighbour_step :: "u64 \<Rightarrow> block_node \<Rightarrow> u64 \<times> u64 \<Rightarrow> (bool \<times> u64 \<times> u64) outcome" where
  "neighbour_step new_start n found =
    and_then (block_parent n) (\<lambda>free_block.
      if new_start \<le> free_block then Inr (True, fst found, free_block)
      else Inr (False, free_block, free_block))"

definition find_neighbours :: "u64 \<Rightarrow> u64 \<Rightarrow> heap_memory \<Rightarrow> (u64 \<times> u64) outcome" where
  "find_neighbours this new_start s =
    for_each heap_fuel (\<lambda>_. hm_links s) (FreeList this) (neighbour_step new_start) (0, 0)"

definition AddFreeBlock :: "u64 \<Rightarrow> u64 \<Rightarrow> u64 \<Rightarrow> heap_memory \<Rightarrow> (bool \<times> heap_memory) outcome" where
  "AddFreeBlock this range_start range_end s =
    and_then (find_neighbours this range_start s) (\<lambda>(prev_block, next_block).
    let (new_end, s) =
          (if next_block \<noteq> 0 \<and> range_end = next_block
           then (next_block + block_size (hm_block s next_block) + sizeof_ExpHeapMemoryBlock,
                 block_links (Unlink (BlockNode next_block)) s)
           else (range_end, s))
    in if prev_block = 0 then Inl NullPointer
    else
      let (new_start, link_node, s) =
            (if range_start = prev_block + block_size (hm_block s prev_block) + sizeof_ExpHeapMemoryBlock
             then (prev_block, m_prev (hm_links s) (BlockNode prev_block),
                   block_links (Unlink (BlockNode prev_block)) s)
             else (range_start, BlockNode prev_block, s));
          new_size = new_end - new_start
      in if new_size < sizeof_ExpHeapMemoryBlock then Inr (False, s)
      else
        let s = construct_block new_start s;
            s = block_update new_start (\<lambda>b. b\<lparr>alloc_magic := FreeMagic,
                  block_size := new_size - sizeof_ExpHeapMemoryBlock\<rparr>) s;
            s = block_links (LinkPrev (m_next (hm_links s) link_node) (BlockNode new_start)) s;
            s = block_links (LinkNext link_node (BlockNode new_start)) s
        in Inr (True, s))"

text \<open>A free block constructed at \<open>a\<close> and appended to the free list.\<close>

definition push_free_block :: "u64 \<Rightarrow> u64 \<Rightarrow> u64 \<Rightarrow> heap_memory \<Rightarrow> heap_memory" where
  "push_free_block this a size_with_header s =
    (let s = construct_block a s;
         s = block_update a (\<lambda>b. b\<lparr>alloc_magic := FreeMagic, alignment := 0,
               block_size := size_with_header - sizeof_ExpHeapMemoryBlock\<rparr>) s
     in block_links (PushBack (FreeList this) (BlockNode a)) s)"

definition AddUsedBlock :: "u64 \<Rightarrow> u64 \<Rightarrow> u64 \<Rightarrow> u64 \<Rightarrow> heap_memory \<Rightarrow> heap_memory" where
  "AddUsedBlock this free_block allocation_address sz s =
    (let s = block_links (Unlink (BlockNode free_block)) s;
         new_free_address = allocation_address + sz;
         new_free_end_address = free_block + block_size (hm_block s free_block);
         new_free_total_size = new_free_end_address - new_free_address;
         orig_start_address = free_block - ucast (alignment (hm_block s free_block));
         used_start_address = allocation_address - sizeof_ExpHeapMemoryBlock;
         used_alignment = used_start_address - orig_start_address;
         (used_alignment, s) =
           (if sizeof_ExpHeapMemoryBlock + MinimumAllocationGranularity < used_alignment
            then (0, push_free_block this orig_start_address used_alignment s) else (used_alignment, s));
         (new_free_total_size, s) =
           (if sizeof_ExpHeapMemoryBlock + MinimumAllocationGranularity < new_free_total_size
            then (0, push_free_block this orig_start_address new_free_total_size s)
            else (new_free_total_size, s));
         s = construct_block used_start_address s;
         s = block_update used_start_address (\<lambda>b. b\<lparr>alloc_magic := AllocMagic,
               alignment := ucast used_alignment, block_size := sz + new_free_total_size\<rparr>) s
     in block_links (PushBack (AllocatedList this) (BlockNode used_start_address)) s)"

section \<open>Construction\<close>

text \<open>\<open>Heap::Heap\<close> and \<open>ExpHeap::ExpHeap\<close>; \<open>m_allocation_mode\<close> is not set.\<close>

definition Heap :: "string \<Rightarrow> u64 \<Rightarrow> u64 \<Rightarrow> u64 \<Rightarrow> bool \<Rightarrow> exp_heap \<Rightarrow> exp_heap" where
  "Heap name parent_heap start_address sz is_thread_safe h =
    h\<lparr>m_start_address := start_address, m_end_address := start_address + sz, m_parent_heap := parent_heap,
      m_name := name, m_is_thread_safe := is_thread_safe\<rparr>"

definition ExpHeap :: "u64 \<Rightarrow> string \<Rightarrow> u64 \<Rightarrow> u64 \<Rightarrow> u64 \<Rightarrow> bool \<Rightarrow> heap_memory \<Rightarrow> heap_memory" where
  "ExpHeap this name parent_heap start_address sz is_thread_safe s =
    s\<lparr>hm_heap := (hm_heap s)(this := Heap name parent_heap (start_address + sizeof_ExpHeap) sz is_thread_safe (hm_heap s this)),
      hm_links := IntrusiveListNode (AllocatedList this) (IntrusiveListNode (FreeList this) (hm_links s)),
      hm_children := IntrusiveListNode (ChildList this) (IntrusiveListNode (HeapNode this) (hm_children s))\<rparr>"

text \<open>The free block that spans a new heap.\<close>

definition first_block :: "u64 \<Rightarrow> u64 \<Rightarrow> heap_memory \<Rightarrow> heap_memory" where
  "first_block new_heap sz s =
    (let first = new_heap + sizeof_ExpHeap;
         s = construct_block first s;
         s = block_update first (\<lambda>b. b\<lparr>alloc_magic := FreeMagic,
               block_size := sz - sizeof_ExpHeap - sizeof_ExpHeapMemoryBlock\<rparr>) s
     in block_links (PushBack (FreeList new_heap) (BlockNode first)) s)"

definition minimum_heap_size :: u64 where
  "minimum_heap_size = sizeof_ExpHeap + sizeof_ExpHeapMemoryBlock + MinimumAllocationGranularity"

definition TryCreate_at :: "u64 \<Rightarrow> u64 \<Rightarrow> string \<Rightarrow> bool \<Rightarrow> heap_memory \<Rightarrow> u64 \<times> heap_memory" where
  "TryCreate_at addr sz name is_thread_safe s =
    (if addr = 0 \<or> sz < minimum_heap_size then (0, s)
     else (addr, first_block addr sz (ExpHeap addr name 0 addr sz is_thread_safe s)))"

definition PushBackChild :: "u64 \<Rightarrow> u64 \<Rightarrow> heap_memory \<Rightarrow> heap_memory" where
  "PushBackChild this child s = s\<lparr>hm_children := PushBack (ChildList this) (HeapNode child) (hm_children s)\<rparr>"

section \<open>Sizes\<close>

definition GetTotalFreeSize :: "u64 \<Rightarrow> heap_memory \<Rightarrow> u64 outcome" where
  "GetTotalFreeSize this s =
    for_each heap_fuel (\<lambda>_. hm_links s) (FreeList this)
      (\<lambda>n free_size. and_then (block_parent n) (\<lambda>b. Inr (False, free_size + block_size (hm_block s b)))) 0"

definition GetMaximumAllocatableSize :: "u64 \<Rightarrow> int \<Rightarrow> heap_memory \<Rightarrow> u64 outcome" where
  "GetMaximumAllocatableSize this align s =
    for_each heap_fuel (\<lambda>_. hm_links s) (FreeList this)
      (\<lambda>n max_free_size. and_then (block_parent n) (\<lambda>b.
        let start_address = b + sizeof_ExpHeapMemoryBlock;
            end_address = start_address + block_size (hm_block s b);
            sz = end_address - AlignUp start_address (of_int align)
        in Inr (False, if max_free_size < sz then sz else max_free_size))) 0"

definition GetAllocationSize :: "u64 \<Rightarrow> heap_memory \<Rightarrow> u64" where
  "GetAllocationSize addr s = block_size (hm_block s (addr - sizeof_ExpHeapMemoryBlock))"

section \<open>Allocation\<close>

text \<open>
  The first-fit walk: the iterator where it stops and the last address computed. Then the best-fit
  walk: \<open>smaller_size\<close>, the node and the address of \<open>smaller_block\<close>, and \<open>allocation_address\<close>.
\<close>

fun first_fit :: "nat \<Rightarrow> heap_memory \<Rightarrow> u64 \<Rightarrow> u64 \<Rightarrow> u64 \<Rightarrow> block_node \<Rightarrow> u64 \<Rightarrow> (block_node \<times> u64) outcome" where
  "first_fit 0 s this sz align it addr = Inl Diverges"
| "first_fit (Suc fuel) s this sz align it addr =
    (if it = list_end (hm_links s) (FreeList this) then Inr (it, addr)
     else and_then (block_parent (it_deref (hm_links s) it)) (\<lambda>b.
       let addr = AlignUp (b + sizeof_ExpHeapMemoryBlock) align
       in if addr + sz - b \<le> block_size (hm_block s b) then Inr (it, addr)
          else first_fit fuel s this sz align (it_inc (hm_links s) it) addr))"

fun best_fit :: "nat \<Rightarrow> heap_memory \<Rightarrow> u64 \<Rightarrow> u64 \<Rightarrow> u64 \<Rightarrow> block_node \<Rightarrow> u64 \<Rightarrow> block_node \<Rightarrow> u64 \<Rightarrow> u64
    \<Rightarrow> (block_node \<times> u64) outcome" where
  "best_fit 0 s this sz align it smaller_size smaller smaller_address addr = Inl Diverges"
| "best_fit (Suc fuel) s this sz align it smaller_size smaller smaller_address addr =
    (if it = list_end (hm_links s) (FreeList this) then Inr (smaller, addr)
     else and_then (block_parent (it_deref (hm_links s) it)) (\<lambda>b.
       let addr = AlignUp (b + sizeof_ExpHeapMemoryBlock) align;
           bs = block_size (hm_block s b);
           fits = bs < smaller_size \<and> addr + sz - b \<le> bs
       in if fits \<and> bs = sz then Inr (it_deref (hm_links s) it, addr)
          else let (smaller_size, smaller, smaller_address) =
                 (if fits then (bs, it_deref (hm_links s) it, addr) else (smaller_size, smaller, smaller_address))
               in best_fit fuel s this sz align (it_inc (hm_links s) it) smaller_size smaller smaller_address
                 smaller_address))"

definition find_block :: "heap_memory \<Rightarrow> u64 \<Rightarrow> u64 \<Rightarrow> u64 \<Rightarrow> (block_node \<times> u64) outcome" where
  "find_block s this sz align =
    (let k = hm_links s; it = list_begin k (FreeList this)
     in case m_allocation_mode (hm_heap s this) of
          AllocationMode_FirstFit \<Rightarrow> first_fit heap_fuel s this sz align it 0
        | AllocationMode_BestFit \<Rightarrow>
            and_then (best_fit heap_fuel s this sz align it 0xffffffffffffffff
              (it_deref k (list_end k (FreeList this))) 0 0)
              (\<lambda>(smaller_block, addr). Inr (Iterator k smaller_block, addr)))"

definition TryAllocate :: "u64 \<Rightarrow> u64 \<Rightarrow> int \<Rightarrow> heap_memory \<Rightarrow> (u64 \<times> heap_memory) outcome" where
  "TryAllocate this sz align s =
    (if IsEmpty (hm_links s) (FreeList this) then Inr (0, s)
     else
       let align = (if align < MinimumAlignment then MinimumAlignment else align);
           sz = AlignUp sz MinimumAllocationGranularity
       in and_then (find_block s this sz (of_int align)) (\<lambda>(free_block, allocation_address).
          if free_block \<noteq> list_end (hm_links s) (FreeList this) then Inr (0, s)
          else and_then (block_parent (it_deref (hm_links s) free_block)) (\<lambda>b.
            Inr (allocation_address, AddUsedBlock this b allocation_address sz s))))"

definition ExpHeap_Free :: "u64 \<Rightarrow> u64 \<Rightarrow> heap_memory \<Rightarrow> heap_memory outcome" where
  "ExpHeap_Free this addr s =
    (let block = addr - sizeof_ExpHeapMemoryBlock;
         s = block_links (Unlink (BlockNode block)) s;
         range_start = block - ucast (alignment (hm_block s block));
         range_end = addr + block_size (hm_block s block)
     in and_then (AddFreeBlock this range_start range_end s) (\<lambda>(_, s). Inr s))"

definition TryCreate :: "u64 \<Rightarrow> u64 \<Rightarrow> int \<Rightarrow> string \<Rightarrow> u64 \<Rightarrow> bool \<Rightarrow> heap_memory \<Rightarrow> (u64 \<times> heap_memory) outcome" where
  "TryCreate current_heap sz align name parent_heap is_thread_safe s =
    (let parent_heap = (if parent_heap = 0 then current_heap else parent_heap)
     in if parent_heap = 0 \<and> (sz = 0 \<or> minimum_heap_size \<le> sz) then Inl NullPointer
     else and_then (if sz = 0 then GetMaximumAllocatableSize parent_heap (uint MinimumAllocationGranularity) s else Inr sz) (\<lambda>sz.
       if sz < minimum_heap_size then Inr (0, s)
       else and_then (TryAllocate parent_heap sz align s) (\<lambda>(new_heap, s).
         if new_heap = 0 then Inr (0, s)
         else
           let s = ExpHeap new_heap name parent_heap new_heap sz is_thread_safe s;
               s = first_block new_heap sz s
           in Inr (new_heap, PushBackChild parent_heap new_heap s))))"

section \<open>Adjusting\<close>

text \<open>The walk of \<open>AdjustAllocation\<close> to the free block at \<open>end_address\<close>.\<close>

fun find_block_at :: "nat \<Rightarrow> heap_memory \<Rightarrow> u64 \<Rightarrow> u64 \<Rightarrow> block_node \<Rightarrow> block_node outcome" where
  "find_block_at 0 s this end_address it = Inl Diverges"
| "find_block_at (Suc fuel) s this end_address it =
    (if it = list_end (hm_links s) (FreeList this) then Inr it
     else if it_deref (hm_links s) it = BlockNode end_address then Inr it
     else find_block_at fuel s this end_address (it_inc (hm_links s) it))"

definition AdjustAllocation :: "u64 \<Rightarrow> u64 \<Rightarrow> u64 \<Rightarrow> heap_memory \<Rightarrow> (u64 \<times> heap_memory) outcome" where
  "AdjustAllocation this addr new_size s =
    (let block = addr - sizeof_ExpHeapMemoryBlock;
         new_size = AlignUp new_size MinimumAllocationGranularity;
         old_size = block_size (hm_block s block)
     in if old_size = new_size then Inr (new_size, s)
     else if new_size < old_size
     then and_then (AddFreeBlock this (addr + new_size) (addr + old_size) s) (\<lambda>(_, s).
       Inr (new_size, block_update block (\<lambda>b. b\<lparr>block_size := new_size\<rparr>) s))
     else
       and_then (find_block_at heap_fuel s this (addr + old_size) (list_begin (hm_links s) (FreeList this))) (\<lambda>free_block.
       and_then (block_parent (it_deref (hm_links s) free_block)) (\<lambda>block_after.
       let after_size = block_size (hm_block s block_after) + sizeof_ExpHeapMemoryBlock
       in if free_block \<noteq> list_end (hm_links s) (FreeList this) \<and> new_size < after_size + old_size
          then Inr (old_size, s)
          else
            let s = block_links (Unlink (BlockNode block_after)) s;
                new_end_address = block_after + after_size;
                new_free = addr + new_size + sizeof_ExpHeapMemoryBlock;
                new_free_size = new_end_address - new_free;
                new_free = (if sizeof_ExpHeapMemoryBlock \<le> new_free_size then new_free - new_free_size else new_free);
                s = block_update block (\<lambda>b. b\<lparr>block_size := new_free - addr\<rparr>) s;
                s = (if sizeof_ExpHeapMemoryBlock \<le> new_free_size
                     then push_free_block this new_free (new_free_size + sizeof_ExpHeapMemoryBlock) s else s)
            in Inr (new_size, s))))"

definition AdjustHeap :: "u64 \<Rightarrow> heap_memory \<Rightarrow> ((u64 \<times> u64) \<times> heap_memory) outcome" where
  "AdjustHeap this s =
    (let end_address = m_end_address (hm_heap s this)
     in if IsEmpty (hm_links s) (FreeList this) then Inr ((end_address, 0), s)
     else and_then (block_parent (Back (hm_links s) (FreeList this))) (\<lambda>last_block.
       let trimmed_size = sizeof_ExpHeapMemoryBlock + block_size (hm_block s last_block)
       in if last_block + trimmed_size \<noteq> end_address then Inr ((end_address, 0), s)
       else
         let s = block_links (Remove (BlockNode last_block)) s;
             new_end_address = end_address - trimmed_size;
             s = s\<lparr>hm_heap := (hm_heap s)(this := (hm_heap s this)\<lparr>m_end_address := new_end_address\<rparr>)\<rparr>;
             parent = m_parent_heap (hm_heap s this)
         in if parent = 0 then Inr ((new_end_address, trimmed_size), s)
            else and_then (AdjustAllocation parent (m_start_address (hm_heap s this)) trimmed_size s) (\<lambda>(_, s).
              Inr ((new_end_address, trimmed_size), s))))"

section \<open>The tree of heaps\<close>

definition IsAddressInHeap :: "u64 \<Rightarrow> u64 \<Rightarrow> heap_memory \<Rightarrow> bool" where
  "IsAddressInHeap this addr s \<longleftrightarrow>
    m_start_address (hm_heap s this) \<le> addr \<and> addr < m_end_address (hm_heap s this)"

definition GetTotalSize :: "u64 \<Rightarrow> heap_memory \<Rightarrow> u64" where
  "GetTotalSize this s = m_end_address (hm_heap s this) - m_start_address (hm_heap s this)"

definition HasChldren :: "u64 \<Rightarrow> heap_memory \<Rightarrow> bool" where
  "HasChldren this s \<longleftrightarrow> IsEmpty (hm_children s) (ChildList this)"

fun heap_parent :: "heap_node \<Rightarrow> u64 outcome" where
  "heap_parent (HeapNode a) = Inr a"
| "heap_parent n = Inl BadObject"

text \<open>The fuel bounds the depth of the tree. The child whose range has the address ends the loop.\<close>

fun FindHeapFromAddress :: "nat \<Rightarrow> u64 \<Rightarrow> u64 \<Rightarrow> heap_memory \<Rightarrow> u64 outcome" where
  "FindHeapFromAddress 0 this addr s = Inl Diverges"
| "FindHeapFromAddress (Suc depth) this addr s =
    (if \<not> IsAddressInHeap this addr s then Inr 0
     else and_then (for_each heap_fuel (\<lambda>_. hm_children s) (ChildList this)
       (\<lambda>n found. and_then (heap_parent n) (\<lambda>child.
         if IsAddressInHeap child addr s then Inr (True, Some child) else Inr (False, found))) None)
       (\<lambda>found. case found of None \<Rightarrow> Inr this
         | Some child \<Rightarrow> FindHeapFromAddress depth child addr s))"

fun FindHeapByNameImpl :: "nat \<Rightarrow> u64 \<Rightarrow> string \<Rightarrow> heap_memory \<Rightarrow> u64 outcome" where
  "FindHeapByNameImpl 0 parent_heap heap_name s = Inl Diverges"
| "FindHeapByNameImpl (Suc depth) parent_heap heap_name s =
    for_each heap_fuel (\<lambda>_. hm_children s) (ChildList parent_heap)
      (\<lambda>n found. and_then (heap_parent n) (\<lambda>h.
        if m_name (hm_heap s h) = heap_name then Inr (True, h)
        else if \<not> IsEmpty (hm_children s) (ChildList h)
        then and_then (FindHeapByNameImpl depth h heap_name s) (\<lambda>candidate.
          Inr (candidate \<noteq> 0, candidate))
        else Inr (False, found))) 0"

end
