(* ===== verification/Exp_Heap_Props.thy ===== *)
theory Exp_Heap_Props
  imports Exp_Heap
begin

text \<open>
  What the heaps do: a new heap and its free size, the outcome of an allocation and of a free, the
  address ranges, and the search for the heap an address belongs to.
\<close>

section \<open>Lists of blocks\<close>

lemma word_list_fuel: "distinct (bs :: u64 list) \<Longrightarrow> length bs < heap_fuel"
proof -
  assume "distinct bs"
  then have "length bs = card (set bs)" by (simp add: distinct_card)
  also have "\<dots> \<le> card (UNIV :: u64 set)" by (intro card_mono) auto
  also have "\<dots> = 2 ^ 64" by (simp add: card_word)
  finally show ?thesis by (simp add: heap_fuel_def)
qed

abbreviation free_blocks :: "heap_memory \<Rightarrow> u64 \<Rightarrow> u64 list \<Rightarrow> bool" where
  "free_blocks s h bs \<equiv> ring (hm_links s) (FreeList h) (map BlockNode bs)"

lemma free_blocks_fuel: "free_blocks s h bs \<Longrightarrow> length bs < heap_fuel"
  using ring_distinct word_list_fuel by (fastforce simp: distinct_map)

lemma visit_blocks:
  assumes "\<And>b t. b \<in> set bs \<Longrightarrow> body (BlockNode b) t = Inr (False, g b t)"
  shows "visit body (map BlockNode bs) t = Inr (fold g bs t)"
  using assms by (induction bs arbitrary: t) auto

lemma for_free_blocks:
  assumes "free_blocks s h bs" and "\<And>b t. b \<in> set bs \<Longrightarrow> body (BlockNode b) t = Inr (False, g b t)"
  shows "for_each heap_fuel (\<lambda>_. hm_links s) (FreeList h) body t = Inr (fold g bs t)"
proof -
  have "for_each heap_fuel (\<lambda>_. hm_links s) (FreeList h) body t = visit body (map BlockNode bs) t"
    by (rule for_each_visit [where I = "\<lambda>_. True"]) (use assms free_blocks_fuel in auto)
  then show ?thesis using visit_blocks [of bs body g t] assms(2) by simp
qed

section \<open>A new heap\<close>

lemma fold_sum: "fold (\<lambda>b t. t + f b) bs (x :: 'a::comm_monoid_add) = x + sum_list (map f bs)"
  by (induction bs arbitrary: x) (auto simp: algebra_simps)

lemma total_free_size:
  assumes "free_blocks s h bs"
  shows "GetTotalFreeSize h s = Inr (sum_list (map (\<lambda>b. block_size (hm_block s b)) bs))"
  unfolding GetTotalFreeSize_def
  using for_free_blocks [OF assms, where t = 0 and g = "\<lambda>b t. t + block_size (hm_block s b)"]
  by (simp add: fold_sum)

lemma heap_created:
  "if addr = 0 \<or> sz < 188 then TryCreate_at addr sz name ts s = (0, s)
   else \<exists>s'. TryCreate_at addr sz name ts s = (addr, s') \<and>
     ring (hm_links s') (FreeList addr) [BlockNode (addr + 152)] \<and> ring (hm_links s') (AllocatedList addr) [] \<and>
     GetTotalFreeSize addr s' = Inr (sz - 184) \<and> GetAllocationSize (addr + 184) s' = sz - 184 \<and>
     GetTotalSize addr s' = sz"
proof (cases "addr = 0 \<or> sz < 188")
  case True
  then show ?thesis
    by (auto simp: TryCreate_at_def minimum_heap_size_def sizeof_ExpHeap_def sizeof_ExpHeapMemoryBlock_def
        MinimumAllocationGranularity_def)
next
  case False
  let ?s = "first_block addr sz (ExpHeap addr name 0 addr sz ts s)"
  have c: "TryCreate_at addr sz name ts s = (addr, ?s)"
    using False by (simp add: TryCreate_at_def minimum_heap_size_def sizeof_ExpHeap_def
        sizeof_ExpHeapMemoryBlock_def MinimumAllocationGranularity_def)
  note defs = first_block_def ExpHeap_def Let_def block_links_def construct_block_def block_update_def sizeof_ExpHeap_def
  have r: "free_blocks ?s addr [addr + 152]" and a: "ring (hm_links ?s) (AllocatedList addr) []"
    by (auto simp: defs ring_def unlinked_def PushBack_def links_simps)
  have b: "block_size (hm_block ?s (addr + 152)) = sz - 184" and t: "GetTotalSize addr ?s = sz"
    by (simp_all add: defs sizeof_ExpHeapMemoryBlock_def GetTotalSize_def Heap_def)
  have "GetTotalFreeSize addr ?s = Inr (sz - 184)" using total_free_size [OF r] b by simp
  moreover have "addr + 184 - sizeof_ExpHeapMemoryBlock = addr + 152" by (simp add: sizeof_ExpHeapMemoryBlock_def)
  then have "GetAllocationSize (addr + 184) ?s = sz - 184"
    unfolding GetAllocationSize_def using b by (simp only:)
  ultimately show ?thesis using c r a t False by simp
qed

text \<open>
  A heap created in \<open>sz\<close> bytes has one free block, all of the memory but the heap object and the
  header of that block, and nothing allocated; a null address or too small a size creates nothing.
\<close>

theorem heap_create_spec:
  "if addr = 0 \<or> sz < 188 then TryCreate_at addr sz name ts s = (0, s)
   else \<exists>s'. TryCreate_at addr sz name ts s = (addr, s') \<and>
     ring (hm_links s') (FreeList addr) [BlockNode (addr + 152)] \<and> ring (hm_links s') (AllocatedList addr) [] \<and>
     GetTotalFreeSize addr s' = Inr (sz - 184) \<and> GetAllocationSize (addr + 184) s' = sz - 184 \<and>
     GetTotalSize addr s' = sz"
  by (rule heap_created)

section \<open>Allocating\<close>

definition fits :: "heap_memory \<Rightarrow> u64 \<Rightarrow> u64 \<Rightarrow> u64 \<Rightarrow> bool" where
  "fits s sz align b \<longleftrightarrow> AlignUp (b + sizeof_ExpHeapMemoryBlock) align + sz - b \<le> block_size (hm_block s b)"

lemma first_fit_spec:
  assumes "free_blocks s h (zs @ ys)" and "zs @ ys \<noteq> []" and "length ys < fuel"
  shows "\<exists>it a. first_fit fuel s h sz align (cursor (FreeList h) (map BlockNode zs) (map BlockNode ys)) a0 = Inr (it, a) \<and>
    (it \<noteq> list_end (hm_links s) (FreeList h) \<longleftrightarrow> (\<exists>b\<in>set ys. fits s sz align b))"
  using assms
proof (induction ys arbitrary: zs fuel a0)
  case Nil
  then show ?case
    using cursor_end [of "hm_links s" "FreeList h" "map BlockNode zs"] by (cases fuel) simp_all
next
  case (Cons y ys)
  from Cons.prems obtain f where f: "fuel = Suc f" by (cases fuel) auto
  have r: "ring (hm_links s) (FreeList h) (map BlockNode zs @ BlockNode y # map BlockNode ys)" using Cons.prems(1) by simp
  note it = ring_cursor [OF r]
  have "\<exists>it a. first_fit f s h sz align (cursor (FreeList h) (map BlockNode (zs @ [y])) (map BlockNode ys)) a1 = Inr (it, a) \<and>
      (it \<noteq> list_end (hm_links s) (FreeList h) \<longleftrightarrow> (\<exists>b\<in>set ys. fits s sz align b))" for a1
    using Cons.prems f by (intro Cons.IH) auto
  then show ?case using f it by (cases "fits s sz align y") (simp_all add: Let_def fits_def)
qed

lemma best_fit_spec:
  assumes "free_blocks s h (zs @ ys)" and "zs @ ys \<noteq> []" and "length ys < fuel"
  shows "\<exists>n a. best_fit fuel s h sz align (cursor (FreeList h) (map BlockNode zs) (map BlockNode ys)) ss n0 sa a0 = Inr (n, a) \<and>
    (n = n0 \<and> \<not> (\<exists>b\<in>set ys. fits s sz align b \<and> block_size (hm_block s b) < ss) \<or>
     n \<in> BlockNode ` set ys \<and> (\<exists>b\<in>set ys. fits s sz align b \<and> block_size (hm_block s b) < ss))"
  using assms
proof (induction ys arbitrary: zs fuel ss n0 sa a0)
  case Nil
  then show ?case
    using cursor_end [of "hm_links s" "FreeList h" "map BlockNode zs"] by (cases fuel) simp_all
next
  case (Cons y ys)
  from Cons.prems obtain f where f: "fuel = Suc f" by (cases fuel) auto
  have r: "ring (hm_links s) (FreeList h) (map BlockNode zs @ BlockNode y # map BlockNode ys)" using Cons.prems(1) by simp
  note it = ring_cursor [OF r]
  let ?bs = "\<lambda>b. block_size (hm_block s b)"
  let ?c = "cursor (FreeList h) (map BlockNode (zs @ [y])) (map BlockNode ys)"
  have IH: "\<exists>n a. best_fit f s h sz align ?c ss n0 sa a1 = Inr (n, a) \<and>
    (n = n0 \<and> \<not> (\<exists>b\<in>set ys. fits s sz align b \<and> ?bs b < ss) \<or>
     n \<in> BlockNode ` set ys \<and> (\<exists>b\<in>set ys. fits s sz align b \<and> ?bs b < ss))" for ss n0 sa a1
    using Cons.prems f by (intro Cons.IH) auto
  let ?a = "AlignUp (y + sizeof_ExpHeapMemoryBlock) align"
  have eq: "best_fit fuel s h sz align (cursor (FreeList h) (map BlockNode zs) (map BlockNode (y # ys))) ss n0 sa a0 =
      (if fits s sz align y \<and> ?bs y < ss
       then if ?bs y = sz then Inr (BlockNode y, ?a) else best_fit f s h sz align ?c (?bs y) (BlockNode y) ?a ?a
       else best_fit f s h sz align ?c ss n0 sa sa)"
    using f it by (auto simp: Let_def fits_def)
  show ?case
  proof (cases "fits s sz align y \<and> ?bs y < ss")
    case True
    then show ?thesis unfolding eq using IH [of "?bs y" "BlockNode y" ?a ?a] by (cases "?bs y = sz") force+
  next
    case False
    then show ?thesis unfolding eq using IH [of ss n0 sa sa] by auto
  qed
qed

lemma ring_iterator_end:
  assumes "ring k l xs" and "n \<in> set xs"
  shows "Iterator k n \<noteq> list_end k l"
proof -
  obtain zs ys where "xs = zs @ n # ys" using assms(2) by (meson split_list)
  with assms(1) show ?thesis
    using ring_cursor(2) [of k l zs n ys] ring_element(1) [of k l zs n ys] by (simp add: cursor_def Iterator_def)
qed

definition suitable :: "heap_memory \<Rightarrow> u64 \<Rightarrow> u64 \<Rightarrow> int \<Rightarrow> u64 \<Rightarrow> bool" where
  "suitable s h sz align b \<longleftrightarrow> fits s (AlignUp sz 4) (of_int (max 4 align)) b \<and>
    (m_allocation_mode (hm_heap s h) = AllocationMode_BestFit \<longrightarrow> block_size (hm_block s b) \<noteq> 0xffffffffffffffff)"

lemma find_block_spec:
  assumes "free_blocks s h bs" and "bs \<noteq> []"
  shows "\<exists>it a. find_block s h sz align = Inr (it, a) \<and>
    (it \<noteq> list_end (hm_links s) (FreeList h) \<longleftrightarrow> (\<exists>b\<in>set bs. fits s sz align b \<and>
      (m_allocation_mode (hm_heap s h) = AllocationMode_BestFit \<longrightarrow> block_size (hm_block s b) < 0xffffffffffffffff)))"
proof -
  let ?k = "hm_links s" let ?l = "FreeList h"
  obtain x xs where x: "bs = x # xs" using assms(2) by (cases bs) auto
  have r: "free_blocks s h ([] @ bs)" and ne: "[] @ bs \<noteq> []" using assms by simp_all
  have b: "list_begin ?k ?l = cursor ?l (map BlockNode []) (map BlockNode bs)"
    using cursor_begin [of ?k ?l "BlockNode x" "map BlockNode xs"] assms(1) x by simp
  note fuel = free_blocks_fuel [OF assms(1)]
  show ?thesis
  proof (cases "m_allocation_mode (hm_heap s h)")
    case AllocationMode_FirstFit
    then show ?thesis using first_fit_spec [OF r ne fuel, of sz align 0] by (simp add: find_block_def b)
  next
    case AllocationMode_BestFit
    obtain n a where n0: "best_fit heap_fuel s h sz align (cursor ?l (map BlockNode []) (map BlockNode bs)) 0xffffffffffffffff ?l 0 0 = Inr (n, a)"
      and n2: "n = ?l \<and> \<not> (\<exists>b\<in>set bs. fits s sz align b \<and> block_size (hm_block s b) < 0xffffffffffffffff) \<or>
       n \<in> BlockNode ` set bs \<and> (\<exists>b\<in>set bs. fits s sz align b \<and> block_size (hm_block s b) < 0xffffffffffffffff)"
      using best_fit_spec [OF r ne fuel, of sz align "0xffffffffffffffff" ?l 0 0] by (elim exE conjE) (rule that)
    have n: "best_fit heap_fuel s h sz align (list_begin ?k ?l) 0xffffffffffffffff ?l 0 0 = Inr (n, a)" using n0 by (simp only: b)
    have "Iterator ?k n \<noteq> list_end ?k ?l \<longleftrightarrow> (\<exists>b\<in>set bs. fits s sz align b \<and> block_size (hm_block s b) < 0xffffffffffffffff)"
      using n2
    proof
      assume "n = ?l \<and> \<not> (\<exists>b\<in>set bs. fits s sz align b \<and> block_size (hm_block s b) < 0xffffffffffffffff)"
      then show ?thesis by (simp add: list_end_def)
    next
      assume "n \<in> BlockNode ` set bs \<and> (\<exists>b\<in>set bs. fits s sz align b \<and> block_size (hm_block s b) < 0xffffffffffffffff)"
      then show ?thesis using ring_iterator_end [OF assms(1), of n] by simp
    qed
    moreover have "find_block s h sz align = Inr (Iterator ?k n, a)"
      using n AllocationMode_BestFit by (simp add: find_block_def list_end_deref [OF assms(1)])
    ultimately show ?thesis using AllocationMode_BestFit by simp
  qed
qed

lemma allocate_never_succeeds:
  assumes "ring (hm_links s) (FreeList h) (map BlockNode bs)"
  shows "TryAllocate h sz align s =
    (if bs = [] \<or> (\<exists>b\<in>set bs. suitable s h sz align b) then Inr (0, s) else Inl BadObject)"
proof (cases "bs = []")
  case True
  then show ?thesis using assms IsEmpty_ring [OF assms] by (simp add: TryAllocate_def)
next
  case False
  have e: "\<not> IsEmpty (hm_links s) (FreeList h)" using IsEmpty_ring [OF assms] False by simp
  have al: "(if align < MinimumAlignment then MinimumAlignment else align) = max 4 align"
    by (simp add: MinimumAlignment_def max_def)
  have lt: "block_size (b :: exp_block) < 0xffffffffffffffff \<longleftrightarrow> block_size b \<noteq> 0xffffffffffffffff" for b
  proof -
    have "(0xffffffffffffffff :: u64) = - 1" by simp
    then show ?thesis using word_order.not_eq_extremum [of "block_size b"] by (simp only:)
  qed
  obtain it a where it: "find_block s h (AlignUp sz 4) (of_int (max 4 align)) = Inr (it, a)"
    "it \<noteq> list_end (hm_links s) (FreeList h) \<longleftrightarrow> (\<exists>b\<in>set bs. suitable s h sz align b)"
    unfolding suitable_def using find_block_spec [OF assms False, of "AlignUp sz 4" "of_int (max 4 align)"]
    by (auto simp: lt)
  show ?thesis
    using e it list_end_deref [OF assms] False
    by (auto simp: TryAllocate_def Let_def al MinimumAllocationGranularity_def)
qed

text \<open>
  C39. \<open>TryAllocate\<close> never returns memory. It returns null when there is no free block and also when it
  has found a suitable one; when no block is suitable it goes on to use the sentinel of the free
  list as a block. The final test of the search is inverted.
\<close>

theorem try_allocate_never_succeeds:
  assumes "ring (hm_links s) (FreeList h) (map BlockNode bs)"
  shows "TryAllocate h sz align s =
    (if bs = [] \<or> (\<exists>b\<in>set bs. suitable s h sz align b) then Inr (0, s) else Inl BadObject)"
  by (rule allocate_never_succeeds [OF assms])

theorem try_allocate_never_succeeds_witness:
  "\<exists>s :: heap_memory. ring (hm_links s) (FreeList 0x1000) [BlockNode 0x1098] \<and>
    TryAllocate 0x1000 64 8 s =
      (if [0x1098 :: u64] = [] \<or> (\<exists>b\<in>set [0x1098]. suitable s 0x1000 64 8 b) then Inr (0, s) else Inl BadObject)"
proof -
  fix s0 :: heap_memory
  obtain s :: heap_memory where "ring (hm_links s) (FreeList 0x1000) [BlockNode 0x1098]"
    using heap_created [of "0x1000" "0x10000" "''root''" False s0] by auto
  then show ?thesis using try_allocate_never_succeeds [of s "0x1000" "[0x1098]" 64 8] by (intro exI [of _ s]) simp
qed

section \<open>Freeing\<close>

lemma ring_next_neighbour:
  assumes "ring k l xs" and "n \<in> set (l # xs)"
  shows "m_prev k (m_next k n) = n" and "m_next k n \<in> set (l # xs)"
proof -
  consider "n = l" | zs ys where "xs = zs @ n # ys" using assms(2) by (metis set_ConsD split_list)
  then have "m_prev k (m_next k n) = n \<and> m_next k n \<in> set (l # xs)"
  proof cases
    case 1
    then show ?thesis
      using list_end_deref [OF assms(1)] ring_next [OF assms(1)]
      by (cases xs) (auto simp: list_end_def it_deref_def Iterator_def)
  next
    case 2
    with assms(1) show ?thesis
      using ring_cursor(1) [of k l zs n ys] ring_element(1) [of k l zs n ys]
      by (cases ys) (auto simp: cursor_def it_deref_def)
  qed
  then show "m_prev k (m_next k n) = n" and "m_next k n \<in> set (l # xs)" by simp_all
qed

lemma ring_prev_neighbour:
  assumes "ring k l xs" and "n \<in> set (l # xs)"
  shows "m_next k (m_prev k n) = n" and "m_prev k n \<in> set (l # xs)"
proof -
  obtain zs ys where n: "n = l \<and> zs = xs \<or> xs = zs @ n # ys" using assms(2) by (metis set_ConsD split_list)
  have p: "m_prev k n = last (l # zs)"
    using n ring_prev [OF assms(1)] ring_element(2) [of k l zs n ys] assms(1) by auto
  have "m_next k (last (l # zs)) = n"
  proof (cases zs rule: rev_cases)
    case Nil
    then show ?thesis using n ring_next [OF assms(1)] by auto
  next
    case (snoc ws w)
    then show ?thesis
      using n assms(1) ring_element(1) [of k l ws w "n # ys"] ring_element(1) [of k l ws w "[]"] by auto
  qed
  moreover have "last (l # zs) \<in> set (l # xs)" using n last_in_set [of "l # zs"] by (auto split: if_splits)
  ultimately show "m_next k (m_prev k n) = n" and "m_prev k n \<in> set (l # xs)" by (simp_all only: p)
qed

lemmas ring_neighbours = ring_next_neighbour ring_prev_neighbour

text \<open>
  \<open>AddFreeBlock\<close> links its block twice: \<open>LinkPrev\<close> puts it before the neighbour, and the
  \<open>LinkNext\<close> that follows takes it out again.
\<close>

lemma link_twice:
  assumes "ring k l xs" and "n \<in> set (l # xs)" and "new \<notin> set (l # xs)" and "unlinked k new"
  shows "LinkNext n new (LinkPrev (m_next k n) new k) = k"
proof -
  note nb = ring_neighbours [OF assms(1,2)]
  have d: "m_next k n \<noteq> new" "m_prev k n \<noteq> new" "n \<noteq> new" using nb assms(2,3) by auto
  show ?thesis
  proof (rule links.equality)
    show "m_next (LinkNext n new (LinkPrev (m_next k n) new k)) = m_next k"
      using d nb assms(4) by (auto simp: fun_eq_iff links_simps unlinked_def)
    show "m_prev (LinkNext n new (LinkPrev (m_next k n) new k)) = m_prev k"
      using d nb assms(4) by (auto simp: fun_eq_iff links_simps unlinked_def)
  qed simp
qed

lemma ring_construct:
  assumes "ring k l xs" and "new \<notin> set (l # xs)"
  shows "ring (IntrusiveListNode new k) l xs" and "unlinked (IntrusiveListNode new k) new"
proof -
  show "ring (IntrusiveListNode new k) l xs"
    using assms by (subst ring_frame [where k = k]) (auto simp: links_simps)
qed (simp add: unlinked_def links_simps)

lemma add_block_lost:
  assumes "ring k l xs" and "n \<in> set (l # xs)" and "new \<notin> set (l # xs)"
  shows "ring (LinkNext n new (LinkPrev (m_next (IntrusiveListNode new k) n) new (IntrusiveListNode new k))) l xs"
  using link_twice [OF ring_construct(1) [OF assms(1,3)] assms(2,3) ring_construct(2) [OF assms(1,3)]]
    ring_construct(1) [OF assms(1,3)] by simp

lemma neighbours_visit:
  "visit (neighbour_step st) (map BlockNode bs) (p, q) = Inr (case dropWhile (\<lambda>b. b < st) bs of
      [] \<Rightarrow> (last (p # bs), last (q # bs)) | b # _ \<Rightarrow> (last (p # takeWhile (\<lambda>b. b < st) bs), b))"
proof (induction bs arbitrary: p q)
  case (Cons b bs)
  show ?case
  proof (cases "b < st")
    case True
    then have "neighbour_step st (BlockNode b) (p, q) = Inr (False, b, b)" by (simp add: neighbour_step_def)
    then show ?thesis using True Cons.IH [of b b] by (cases "dropWhile (\<lambda>b. b < st) bs") (simp_all del: dropWhile_eq_Nil_conv)
  next
    case False
    moreover from this have "st \<le> b" by simp
    ultimately show ?thesis by (simp add: neighbour_step_def)
  qed
qed simp

lemma find_neighbours_spec:
  assumes "free_blocks s h bs" and "0 \<notin> set bs"
  shows "if bs = [] \<or> st \<le> hd bs then \<exists>q. find_neighbours h st s = Inr (0, q) \<and> (q = 0 \<or> q \<in> set bs)
    else \<exists>p q. find_neighbours h st s = Inr (p, q) \<and> p \<in> set bs \<and> q \<in> set bs \<and> p < st \<and> (q = p \<or> st \<le> q)"
proof -
  have eq: "find_neighbours h st s = Inr (case dropWhile (\<lambda>b. b < st) bs of
      [] \<Rightarrow> (last (0 # bs), last (0 # bs)) | b # _ \<Rightarrow> (last (0 # takeWhile (\<lambda>b. b < st) bs), b))"
    unfolding find_neighbours_def neighbours_visit [symmetric]
    by (rule for_each_visit [where I = "\<lambda>_. True"]) (use assms(1) free_blocks_fuel [OF assms(1)] in simp_all)
  show ?thesis
  proof (cases "bs = [] \<or> st \<le> hd bs")
    case True
    then show ?thesis using eq by (cases bs) auto
  next
    case False
    let ?T = "takeWhile (\<lambda>b. b < st) bs"
    have ne: "?T \<noteq> []" using False by (cases bs) auto
    have t: "last ?T < st" "last ?T \<in> set bs" using last_in_set [OF ne] by (auto dest: set_takeWhileD)
    show ?thesis
    proof (cases "dropWhile (\<lambda>b. b < st) bs")
      case Nil
      then have "?T = bs" by (metis append_Nil2 takeWhile_dropWhile_id)
      then show ?thesis using eq Nil False t by simp
    next
      case (Cons c r)
      then have "st \<le> c" "c \<in> set bs"
        using hd_dropWhile [of "\<lambda>b. b < st" bs] set_dropWhileD [of c "\<lambda>b. b < st" bs] by simp_all
      then show ?thesis using eq Cons False t ne by simp
    qed
  qed
qed

lemma free_blocks_unlink:
  assumes "free_blocks s h bs" and "b \<in> set bs"
  shows "free_blocks (block_links (Unlink (BlockNode b)) s) h (remove1 b bs)"
proof -
  obtain xs ys where bs: "bs = xs @ b # ys" "b \<notin> set xs" using assms(2) by (meson split_list_first)
  then show ?thesis
    using ring_Unlink(1) [of "hm_links s" "FreeList h" "map BlockNode xs" "BlockNode b" "map BlockNode ys"] assms(1)
    by (simp add: block_links_def remove1_append)
qed

lemma ring_prev_other: "ring k l xs \<Longrightarrow> n \<in> set xs \<Longrightarrow> m_prev k n \<noteq> n"
proof -
  assume r: "ring k l xs" and n: "n \<in> set xs"
  obtain zs ys where xs: "xs = zs @ n # ys" using n by (meson split_list)
  then have "m_prev k n = last (l # zs)" using r ring_element(2) [of k l zs n ys] by simp
  moreover have "n \<notin> set (l # zs)" using ring_distinct [OF r] xs by auto
  ultimately show ?thesis using last_in_set [of "l # zs"] by force
qed

text \<open>The last part of \<open>AddFreeBlock\<close>.\<close>

definition added_block :: "u64 \<Rightarrow> block_node \<Rightarrow> u64 \<Rightarrow> heap_memory \<Rightarrow> heap_memory" where
  "added_block a link_node sz s =
    (let s = block_update a (\<lambda>b. b\<lparr>alloc_magic := FreeMagic, block_size := sz - sizeof_ExpHeapMemoryBlock\<rparr>)
           (construct_block a s)
     in block_links (LinkNext link_node (BlockNode a))
       (block_links (LinkPrev (m_next (hm_links s) link_node) (BlockNode a)) s))"

text \<open>
  Freeing memory never makes it available again. With no free block before the range the call
  dereferences a null pointer; otherwise it returns, and every block of the free list was there
  before: the freed range is not, and the neighbours it was merged with are gone.
\<close>

theorem freed_block_is_lost:
  assumes "ring (hm_links s) (FreeList h) (map BlockNode bs)" and "0 \<notin> set bs" and "st \<notin> set bs" and "st \<le> en"
  shows "if bs = [] \<or> st \<le> hd bs then AddFreeBlock h st en s = Inl NullPointer
    else \<exists>b s' bs'. AddFreeBlock h st en s = Inr (b, s') \<and>
      ring (hm_links s') (FreeList h) (map BlockNode bs') \<and> set bs' \<subseteq> set bs"
proof (cases "bs = [] \<or> st \<le> hd bs")
  case True
  then obtain q where "find_neighbours h st s = Inr (0, q)" using find_neighbours_spec [OF assms(1,2), of st] by auto
  then show ?thesis using True by (simp add: AddFreeBlock_def split_def)
next
  case False
  then obtain p q where n: "find_neighbours h st s = Inr (p, q)" and pq: "p \<in> set bs" "q \<in> set bs" "p < st" "q = p \<or> st \<le> q"
    using find_neighbours_spec [OF assms(1,2), of st] by auto
  define c where "c \<longleftrightarrow> q \<noteq> 0 \<and> en = q"
  define s1 where "s1 = (if c then block_links (Unlink (BlockNode q)) s else s)"
  define e1 where "e1 = (if c then q + block_size (hm_block s q) + sizeof_ExpHeapMemoryBlock else en)"
  define bs1 where "bs1 = (if c then remove1 q bs else bs)"
  have r1: "free_blocks s1 h bs1"
    using free_blocks_unlink [OF assms(1) pq(2)] assms(1) by (auto simp: s1_def bs1_def block_links_def)
  have d: "distinct bs" using ring_distinct [OF assms(1)] by (simp add: distinct_map)
  have "c \<Longrightarrow> q \<noteq> p" using pq(3,4) assms(4) by (auto simp: c_def)
  then have p1: "p \<in> set bs1" using pq(1) d by (auto simp: bs1_def)
  have sub1: "set bs1 \<subseteq> set bs" using set_remove1_subset [of q bs] by (simp add: bs1_def)
  have p0: "p \<noteq> 0" using pq(1) assms(2) by auto
  define f where "f \<longleftrightarrow> st = p + block_size (hm_block s1 p) + sizeof_ExpHeapMemoryBlock"
  define s2 where "s2 = (if f then block_links (Unlink (BlockNode p)) s1 else s1)"
  define bs2 where "bs2 = (if f then remove1 p bs1 else bs1)"
  define a where "a = (if f then p else st)"
  define l where "l = (if f then m_prev (hm_links s1) (BlockNode p) else BlockNode p)"
  have r2: "free_blocks s2 h bs2"
    using free_blocks_unlink [OF r1 p1] r1 by (auto simp: s2_def bs2_def block_links_def)
  have d1: "distinct bs1" using d by (simp add: bs1_def)
  have "BlockNode p \<noteq> m_prev (hm_links s1) (BlockNode p)" using ring_prev_other [OF r1, of "BlockNode p"] p1 by auto
  then have l2: "l \<in> set (FreeList h # map BlockNode bs2)"
    using ring_prev_neighbour(2) [OF r1, of "BlockNode p"] p1 d1 by (auto simp: l_def bs2_def)
  have a2: "BlockNode a \<notin> set (FreeList h # map BlockNode bs2)"
    using assms(3) sub1 d1 by (auto simp: a_def bs2_def)
  have sub2: "set bs2 \<subseteq> set bs" using sub1 set_remove1_subset [of p bs1] by (auto simp: bs2_def)
  have eq: "AddFreeBlock h st en s =
      (if e1 - a < sizeof_ExpHeapMemoryBlock then Inr (False, s2)
       else Inr (True, added_block a l (e1 - a) s2))"
    using p0 by (simp add: AddFreeBlock_def n Let_def c_def s1_def e1_def f_def s2_def a_def l_def added_block_def)
  moreover have "free_blocks (added_block a l (e1 - a) s2) h bs2"
    using add_block_lost [OF r2 l2 a2] by (simp add: added_block_def block_links_def construct_block_def block_update_def Let_def)
  ultimately show ?thesis using False r2 sub2 by (auto split: if_splits)
qed

theorem freed_block_is_lost_witness:
  "\<exists>(s :: heap_memory) b s' bs'. ring (hm_links s) (FreeList 0x1000) [BlockNode 0x1098] \<and>
    AddFreeBlock 0x1000 0x2000 0x2040 s = Inr (b, s') \<and>
    ring (hm_links s') (FreeList 0x1000) (map BlockNode bs') \<and> set bs' \<subseteq> set [0x1098 :: u64]"
proof -
  fix s0 :: heap_memory
  obtain s :: heap_memory where r: "ring (hm_links s) (FreeList 0x1000) [BlockNode 0x1098]"
    using heap_created [of "0x1000" "0x10000" "''root''" False s0] by auto
  then have "ring (hm_links s) (FreeList 0x1000) (map BlockNode [0x1098])" by simp
  from freed_block_is_lost [OF this, of "0x2000" "0x2040"] r show ?thesis by auto
qed

section \<open>The heap of an address\<close>

text \<open>
  A tree of heaps as the child lists hold it: each heap's children are in its list, lie within
  its range and do not overlap.
\<close>

datatype heap_tree = HeapTree (root: u64) "heap_tree list"

definition heap_range :: "heap_memory \<Rightarrow> u64 \<Rightarrow> u64 set" where
  "heap_range s h = {a. IsAddressInHeap h a s}"

primrec heaps_of :: "heap_tree \<Rightarrow> u64 set" where
  "heaps_of (HeapTree h ts) = insert h (\<Union> (set (map heaps_of ts)))"

primrec tree_depth :: "heap_tree \<Rightarrow> nat" where
  "tree_depth (HeapTree h ts) = Suc (Max (set (0 # map tree_depth ts)))"

primrec tree_ok :: "heap_memory \<Rightarrow> heap_tree \<Rightarrow> bool" where
  "tree_ok s (HeapTree h ts) \<longleftrightarrow>
    ring (hm_children s) (ChildList h) (map (\<lambda>t. HeapNode (root t)) ts) \<and>
    (\<forall>t\<in>set ts. heap_range s (root t) \<subseteq> heap_range s h) \<and>
    (\<forall>t\<in>set ts. \<forall>u\<in>set ts. t \<noteq> u \<longrightarrow> heap_range s (root t) \<inter> heap_range s (root u) = {}) \<and>
    list_all (tree_ok s) ts"

lemma tree_ok_child: "tree_ok s (HeapTree h ts) \<Longrightarrow> t \<in> set ts \<Longrightarrow> tree_ok s t"
  by (simp add: list_all_iff)

lemma subtree_range: "tree_ok s t \<Longrightarrow> g \<in> heaps_of t \<Longrightarrow> heap_range s g \<subseteq> heap_range s (root t)"
proof (induction t)
  case (HeapTree h ts)
  show ?case
  proof (cases "g = h")
    case False
    then obtain t where t: "t \<in> set ts" "g \<in> heaps_of t" using HeapTree.prems(2) by auto
    then have "heap_range s g \<subseteq> heap_range s (root t)"
      using HeapTree.IH [of t] tree_ok_child [OF HeapTree.prems(1)] by blast
    also have "\<dots> \<subseteq> heap_range s h" using HeapTree.prems(1) t(1) by simp
    finally show ?thesis by simp
  qed simp
qed

lemma child_search:
  assumes "tree_ok s (HeapTree h ts)"
  shows "for_each heap_fuel (\<lambda>_. hm_children s) (ChildList h)
    (\<lambda>n found. and_then (heap_parent n) (\<lambda>child.
      if IsAddressInHeap child a s then Inr (True, Some child) else Inr (False, found))) None =
    Inr (map_option root (find (\<lambda>t. IsAddressInHeap (root t) a s) ts))"
proof -
  let ?body = "\<lambda>n found. and_then (heap_parent n) (\<lambda>child.
      if IsAddressInHeap child a s then Inr (True, Some child) else Inr (False, found))"
  let ?ns = "map (\<lambda>t. HeapNode (root t)) ts"
  have r: "ring (hm_children s) (ChildList h) ?ns" using assms by simp
  have "distinct (map root ts)" using ring_distinct [OF r] by (simp add: distinct_map inj_on_def)
  from word_list_fuel [OF this] have "length ?ns < heap_fuel" by simp
  then have "for_each heap_fuel (\<lambda>_. hm_children s) (ChildList h) ?body None = visit ?body ?ns None"
    by (intro for_each_visit [where I = "\<lambda>_. True"]) (use r in simp_all)
  also have "\<dots> = Inr (map_option root (find (\<lambda>t. IsAddressInHeap (root t) a s) ts))" by (induction ts) auto
  finally show ?thesis .
qed

text \<open>
  C32. \<open>FindHeapFromAddress\<close> finds the innermost heap that has the address: it ends, the heap it
  returns is one of the tree and has the address, and its range lies within that of every heap of
  the tree that has the address.
\<close>

theorem find_heap_innermost:
  assumes "tree_ok s t" and "IsAddressInHeap (root t) a s" and "tree_depth t \<le> depth"
  shows "\<exists>h\<in>heaps_of t. FindHeapFromAddress depth (root t) a s = Inr h \<and> IsAddressInHeap h a s \<and>
    (\<forall>g\<in>heaps_of t. IsAddressInHeap g a s \<longrightarrow> heap_range s h \<subseteq> heap_range s g)"
  using assms
proof (induction t arbitrary: depth)
  case (HeapTree h ts)
  obtain d where d: "depth = Suc d" using HeapTree.prems(3) by (cases depth) auto
  have inr: "IsAddressInHeap g a s \<longleftrightarrow> a \<in> heap_range s g" for g by (simp add: heap_range_def)
  have eq: "FindHeapFromAddress depth h a s = (case find (\<lambda>t. IsAddressInHeap (root t) a s) ts of
      None \<Rightarrow> Inr h | Some t \<Rightarrow> FindHeapFromAddress d (root t) a s)"
    using HeapTree.prems(2) d child_search [OF HeapTree.prems(1), of a] by (simp split: option.split)
  show ?case
  proof (cases "find (\<lambda>t. IsAddressInHeap (root t) a s) ts")
    case None
    then have no: "\<forall>t\<in>set ts. a \<notin> heap_range s (root t)" by (auto simp: find_None_iff inr)
    have "g = h" if g: "g \<in> heaps_of (HeapTree h ts)" "a \<in> heap_range s g" for g
    proof (rule ccontr)
      assume "g \<noteq> h"
      then obtain t where t: "t \<in> set ts" "g \<in> heaps_of t" using g(1) by auto
      with subtree_range [OF tree_ok_child [OF HeapTree.prems(1) t(1)]] no g(2) show False by blast
    qed
    then show ?thesis using eq None HeapTree.prems(2) by (auto simp: inr)
  next
    case (Some t)
    then have t: "t \<in> set ts" "a \<in> heap_range s (root t)" by (auto simp: find_Some_iff inr)
    have "tree_depth t \<in> set (0 # map tree_depth ts)" using t(1) by simp
    then have "tree_depth t \<le> Max (set (0 # map tree_depth ts))" by (intro Max_ge) simp_all
    then have "tree_depth t \<le> d" using HeapTree.prems(3) d t(1) by simp
    then obtain h' where h': "h' \<in> heaps_of t" "FindHeapFromAddress d (root t) a s = Inr h'" "a \<in> heap_range s h'"
      "\<forall>g\<in>heaps_of t. a \<in> heap_range s g \<longrightarrow> heap_range s h' \<subseteq> heap_range s g"
      using HeapTree.IH [OF t(1) tree_ok_child [OF HeapTree.prems(1) t(1)], of d] t(2) by (auto simp: inr)
    have "heap_range s h' \<subseteq> heap_range s g" if g: "g \<in> heaps_of (HeapTree h ts)" "a \<in> heap_range s g" for g
    proof (cases "g = h")
      case True
      have "heap_range s h' \<subseteq> heap_range s (root t)"
        using subtree_range [OF tree_ok_child [OF HeapTree.prems(1) t(1)] h'(1)] .
      also have "\<dots> \<subseteq> heap_range s h" using HeapTree.prems(1) t(1) by simp
      finally show ?thesis using True by simp
    next
      case False
      then obtain u where u: "u \<in> set ts" "g \<in> heaps_of u" using g(1) by auto
      have "a \<in> heap_range s (root u)" using subtree_range [OF tree_ok_child [OF HeapTree.prems(1) u(1)] u(2)] g(2) by blast
      then have "heap_range s (root u) \<inter> heap_range s (root t) \<noteq> {}" using t(2) by blast
      then have "u = t" using HeapTree.prems(1) t(1) u(1) unfolding tree_ok.simps by blast
      with u h'(4) g(2) show ?thesis by simp
    qed
    then show ?thesis using eq Some h' t(1) by (auto simp: inr)
  qed
qed

text \<open>A root heap with one child.\<close>

definition two_heaps :: heap_memory where
  "two_heaps = \<lparr>hm_block = (\<lambda>_. \<lparr>alloc_magic = 0, alignment = 0, block_size = 0\<rparr>),
    hm_heap = (\<lambda>h. \<lparr>m_start_address = (if h = 1 then 0x1000 else 0x2000),
      m_end_address = (if h = 1 then 0x9000 else 0x3000), m_parent_heap = (if h = 1 then 0 else 1),
      m_name = ''heap'', m_is_thread_safe = False, m_allocation_mode = AllocationMode_FirstFit\<rparr>),
    hm_links = \<lparr>m_prev = (\<lambda>n. n), m_next = (\<lambda>n. n)\<rparr>,
    hm_children = PushBack (ChildList 1) (HeapNode 2) \<lparr>m_prev = (\<lambda>n. n), m_next = (\<lambda>n. n)\<rparr>\<rparr>"

lemma two_heaps_tree: "tree_ok two_heaps (HeapTree 1 [HeapTree 2 []])"
proof -
  have "ring (hm_children two_heaps) (ChildList 1) [HeapNode 2]" "unlinked (hm_children two_heaps) (ChildList 2)"
    by (auto simp: two_heaps_def ring_def unlinked_def PushBack_def links_simps)
  moreover have "heap_range two_heaps 2 \<subseteq> heap_range two_heaps 1"
    by (auto simp: heap_range_def IsAddressInHeap_def two_heaps_def word_le_nat_alt word_less_nat_alt)
  ultimately show ?thesis by simp
qed

theorem find_heap_innermost_witness:
  "\<exists>h\<in>{1, 2}. FindHeapFromAddress 2 1 0x2800 two_heaps = Inr h \<and> IsAddressInHeap h 0x2800 two_heaps \<and>
    heap_range two_heaps h \<subseteq> heap_range two_heaps 2"
proof -
  have "IsAddressInHeap (root (HeapTree 1 [HeapTree 2 []])) 0x2800 two_heaps" "IsAddressInHeap 2 0x2800 two_heaps"
    by (simp_all add: IsAddressInHeap_def two_heaps_def)
  with find_heap_innermost [OF two_heaps_tree, of "0x2800" 2] show ?thesis by auto
qed

end
