(* ===== verification/Critical_Section.thy ===== *)
theory Critical_Section
  imports Scheduler_Wait_Props
begin

text \<open>
  The locks built on the scheduler: \<open>InternalCriticalSection\<close> and \<open>InternalConditionVariable\<close>
  (\<open>ukern_internalcriticalsection.hpp\<close>, \<open>ukern_internalconditionvariable.hpp\<close>). A critical section is
  its word \<open>m_handle\<close>, known by its address \<open>cs\<close>; a condition variable is its word \<open>m_cv\<close>.

  \<open>Enter\<close> and \<open>Leave\<close> run on several cores at once, so they are cut into their atomic steps: each
  interlocked operation, each load of the word and each call of the scheduler (which takes the
  scheduler lock) is one step. The property that matters is exclusion in every interleaving of two
  threads; the rest of the theory shows where the two functions race with each other.
\<close>

section \<open>Interlocked operations\<close>

definition InterlockedCompareExchange :: "address \<Rightarrow> u32 \<Rightarrow> u32 \<Rightarrow> user_scheduler \<Rightarrow> (u32 \<times> user_scheduler) outcome" where
  "InterlockedCompareExchange a new expected s = and_then (load a s) (\<lambda>v.
    if v = expected then and_then (store a new s) (\<lambda>s. Inr (v, s)) else Inr (v, s))"

definition InterlockedOr :: "address \<Rightarrow> u32 \<Rightarrow> user_scheduler \<Rightarrow> (u32 \<times> user_scheduler) outcome" where
  "InterlockedOr a x s = and_then (load a s) (\<lambda>v. and_then (store a (v OR x) s) (\<lambda>s. Inr (v, s)))"

definition InterlockedExchange :: "address \<Rightarrow> u32 \<Rightarrow> user_scheduler \<Rightarrow> (u32 \<times> user_scheduler) outcome" where
  "InterlockedExchange a x s = and_then (load a s) (\<lambda>v. and_then (store a x s) (\<lambda>s. Inr (v, s)))"

section \<open>InternalCriticalSection\<close>

definition InternalCriticalSection :: "address \<Rightarrow> user_scheduler \<Rightarrow> user_scheduler outcome" where
  "InternalCriticalSection cs s = store cs 0 s"

definition has_waiters :: "u32 \<Rightarrow> bool" where
  "has_waiters v \<longleftrightarrow> drop_bit 0x1e v AND 1 = 1"

text \<open>
  \<open>RESULT_ABORT_UNLESS\<close> on a call of the scheduler: \<open>k\<close> goes on after success, and after the switch
  when the call switches.
\<close>

definition abort_unless_success :: "u32 \<Rightarrow> 'a \<Rightarrow> 'a outcome" where
  "abort_unless_success r x = (if r = ResultSuccess then Inr x else Inl AssertFailed)"

text \<open>Where a thread is in \<open>Enter\<close>: \<open>SetTag\<close> and \<open>Arbitrate\<close> hold \<open>other_waiter\<close>.\<close>

datatype enter_pc = Acquire | SetTag u32 | Arbitrate u32 | Blocked continuation | Recheck | Entered

fun Enter_step :: "nat \<Rightarrow> address \<Rightarrow> enter_pc \<Rightarrow> user_scheduler \<Rightarrow> (enter_pc \<times> user_scheduler) outcome" where
  "Enter_step this cs Acquire s =
    and_then (InterlockedCompareExchange cs (ukern_fiber_handle (m_fibers s this)) 0 s) (\<lambda>(other_waiter, s).
    Inr (if other_waiter = 0 then Entered
         else if \<not> has_waiters other_waiter then SetTag other_waiter else Arbitrate other_waiter, s))"
| "Enter_step this cs (SetTag other_waiter) s =
    and_then (InterlockedOr cs HasChildWaitersBit s) (\<lambda>(prev_value, s).
    Inr (if prev_value \<noteq> other_waiter then Acquire else Arbitrate other_waiter, s))"
| "Enter_step this cs (Arbitrate other_waiter) s =
    and_then (ArbitrateLockImpl this (other_waiter AND NOT HasChildWaitersBit) cs
        (ukern_fiber_handle (m_fibers s this)) s) (\<lambda>(r, s).
    case r of Returned r \<Rightarrow> abort_unless_success r (Recheck, s)
    | Switched core c \<Rightarrow>
        and_then (Dispatch_end this core s) (\<lambda>s. Inr (Blocked c, ReleaseSRWLockExclusive s)))"
| "Enter_step this cs Recheck s =
    and_then (load cs s) (\<lambda>v.
    Inr (if v AND NOT HasChildWaitersBit = ukern_fiber_handle (m_fibers s this) then Entered else Acquire, s))"
| "Enter_step this cs (Blocked c) s = Inr (Blocked c, s)"
| "Enter_step this cs Entered s = Inr (Entered, s)"

text \<open>A blocked thread goes on when a core has dispatched it again.\<close>

definition Enter_resume :: "nat \<Rightarrow> u32 \<Rightarrow> continuation \<Rightarrow> user_scheduler \<Rightarrow> (enter_pc \<times> user_scheduler) outcome" where
  "Enter_resume this core c s =
    and_then (Dispatch_begin this core s) (\<lambda>s.
    case resume_call this c s of
      (Some r, s) \<Rightarrow> abort_unless_success r (Recheck, s)
    | (None, s) \<Rightarrow> Inl AssertFailed)"

text \<open>\<open>Enter\<close> without interference of other threads, up to its return or its switch.\<close>

fun run_enter :: "nat \<Rightarrow> nat \<Rightarrow> address \<Rightarrow> enter_pc \<Rightarrow> user_scheduler \<Rightarrow> (continuation option \<times> user_scheduler) outcome" where
  "run_enter fuel this cs Entered s = Inr (None, s)"
| "run_enter fuel this cs (Blocked c) s = Inr (Some c, s)"
| "run_enter 0 this cs e s = Inl Diverges"
| "run_enter (Suc fuel) this cs e s = and_then (Enter_step this cs e s) (\<lambda>(e, s). run_enter fuel this cs e s)"

definition cs_Enter :: "nat \<Rightarrow> address \<Rightarrow> user_scheduler \<Rightarrow> (continuation option \<times> user_scheduler) outcome" where
  "cs_Enter this cs s = run_enter 3 this cs Acquire s"

definition cs_TryEnter :: "nat \<Rightarrow> address \<Rightarrow> user_scheduler \<Rightarrow> (bool \<times> user_scheduler) outcome" where
  "cs_TryEnter this cs s =
    and_then (InterlockedCompareExchange cs (ukern_fiber_handle (m_fibers s this)) 0 s) (\<lambda>(other_waiter, s).
    Inr (other_waiter = 0, s))"

datatype leave_pc = CheckTag | Unlock | Clear | Left

fun Leave_step :: "nat \<Rightarrow> address \<Rightarrow> leave_pc \<Rightarrow> user_scheduler \<Rightarrow> (leave_pc \<times> user_scheduler) outcome" where
  "Leave_step this cs CheckTag s = and_then (load cs s) (\<lambda>v. Inr (if has_waiters v then Unlock else Clear, s))"
| "Leave_step this cs Unlock s =
    and_then (ArbitrateUnlockImpl this cs s) (\<lambda>(r, s).
    case r of Returned r \<Rightarrow> abort_unless_success r (Left, s) | Switched core c \<Rightarrow> Inl AssertFailed)"
| "Leave_step this cs Clear s = and_then (InterlockedExchange cs 0 s) (\<lambda>(_, s). Inr (Left, s))"
| "Leave_step this cs Left s = Inr (Left, s)"

definition cs_Leave :: "nat \<Rightarrow> address \<Rightarrow> user_scheduler \<Rightarrow> user_scheduler outcome" where
  "cs_Leave this cs s =
    and_then (Leave_step this cs CheckTag s) (\<lambda>(l, s). and_then (Leave_step this cs l s) (\<lambda>(l, s). Inr s))"

definition IsLockedByCurrentThread :: "nat \<Rightarrow> address \<Rightarrow> user_scheduler \<Rightarrow> bool outcome" where
  "IsLockedByCurrentThread this cs s = and_then (load cs s) (\<lambda>v.
    Inr (v AND NOT HasChildWaitersBit = ukern_fiber_handle (m_fibers s this)))"

section \<open>InternalConditionVariable\<close>

text \<open>The result of \<open>WaitKeyImpl\<close> and of \<open>SignalKeyImpl\<close> is not looked at.\<close>

definition ignore_result :: "(u32 call \<times> user_scheduler) outcome \<Rightarrow> (continuation option \<times> user_scheduler) outcome" where
  "ignore_result m = and_then m (\<lambda>(r, s).
    case r of Returned _ \<Rightarrow> Inr (None, s) | Switched core c \<Rightarrow> Inr (Some c, s))"

definition cv_Wait :: "nat \<Rightarrow> address \<Rightarrow> address \<Rightarrow> user_scheduler \<Rightarrow> (continuation option \<times> user_scheduler) outcome" where
  "cv_Wait this cs cv s =
    and_then (IsLockedByCurrentThread this cs s) (\<lambda>b.
    and_then (dd_assert b s) (\<lambda>s.
    ignore_result (WaitKeyImpl this cs cv (ukern_fiber_handle (m_fibers s this)) (- 1) s)))"

definition cv_TimedWait ::
  "timestamp \<Rightarrow> int \<Rightarrow> nat \<Rightarrow> address \<Rightarrow> address \<Rightarrow> int \<Rightarrow> user_scheduler \<Rightarrow> (continuation option \<times> user_scheduler) outcome" where
  "cv_TimedWait t now this cs cv timeout_ns s =
    and_then (IsLockedByCurrentThread this cs s) (\<lambda>b.
    and_then (dd_assert b s) (\<lambda>s.
    and_then (GetAbsoluteTimeToWakeup t now timeout_ns) (\<lambda>w.
    ignore_result (WaitKeyImpl this cs cv (ukern_fiber_handle (m_fibers s this)) w s))))"

definition cv_Signal :: "u32 \<Rightarrow> address \<Rightarrow> user_scheduler \<Rightarrow> (continuation option \<times> user_scheduler) outcome" where
  "cv_Signal cnt cv s = and_then (load cv s) (\<lambda>v.
    if v \<noteq> 0 then ignore_result (SignalKeyImpl cv cnt s) else Inr (None, s))"

definition cv_Broadcast :: "address \<Rightarrow> user_scheduler \<Rightarrow> (continuation option \<times> user_scheduler) outcome" where
  "cv_Broadcast cv s = cv_Signal (- 1) cv s"

section \<open>Threads that enter and leave one critical section\<close>

datatype cs_pc = Outside | Entering enter_pc | Inside | Leaving leave_pc

record cs_machine =
  kernel :: user_scheduler
  at :: "nat \<Rightarrow> cs_pc"

text \<open>One step of one thread of \<open>T\<close>; a step that aborts or faults is none.\<close>

inductive cs_step :: "address \<Rightarrow> nat set \<Rightarrow> cs_machine \<Rightarrow> cs_machine \<Rightarrow> bool" for cs T where
  call_enter: "f \<in> T \<Longrightarrow> at m f = Outside \<Longrightarrow> cs_step cs T m (m\<lparr>at := (at m)(f := Entering Acquire)\<rparr>)"
| enter: "f \<in> T \<Longrightarrow> at m f = Entering e \<Longrightarrow> Enter_step f cs e (kernel m) = Inr (e', s) \<Longrightarrow>
    cs_step cs T m \<lparr>kernel = s, at = (at m)(f := Entering e')\<rparr>"
| resume: "f \<in> T \<Longrightarrow> at m f = Entering (Blocked c) \<Longrightarrow> fiber_state (m_fibers (kernel m) f) = Scheduled \<Longrightarrow>
    Enter_resume f core c (kernel m) = Inr (e, s) \<Longrightarrow>
    cs_step cs T m \<lparr>kernel = s, at = (at m)(f := Entering e)\<rparr>"
| entered: "f \<in> T \<Longrightarrow> at m f = Entering Entered \<Longrightarrow> cs_step cs T m (m\<lparr>at := (at m)(f := Inside)\<rparr>)"
| call_leave: "f \<in> T \<Longrightarrow> at m f = Inside \<Longrightarrow> cs_step cs T m (m\<lparr>at := (at m)(f := Leaving CheckTag)\<rparr>)"
| leave: "f \<in> T \<Longrightarrow> at m f = Leaving l \<Longrightarrow> Leave_step f cs l (kernel m) = Inr (l', s) \<Longrightarrow>
    cs_step cs T m \<lparr>kernel = s, at = (at m)(f := Leaving l')\<rparr>"
| left: "f \<in> T \<Longrightarrow> at m f = Leaving Left \<Longrightarrow> cs_step cs T m (m\<lparr>at := (at m)(f := Outside)\<rparr>)"

inductive_cases cs_stepE: "cs_step cs T m m'"

text \<open>Between the return of \<open>Enter\<close> and the call of \<open>Leave\<close>.\<close>

definition inside :: "cs_machine \<Rightarrow> nat \<Rightarrow> bool" where
  "inside m f \<longleftrightarrow> at m f \<in> {Entering Entered, Inside, Leaving CheckTag}"


section \<open>The invariant of two threads\<close>

fun waits :: "fiber_state \<Rightarrow> cs_pc \<Rightarrow> bool" where
  "waits st (Entering (Blocked c)) = (st = Waiting)"
| "waits st p = False"

fun owns :: "fiber_state \<Rightarrow> cs_pc \<Rightarrow> bool" where
  "owns st Outside = False"
| "owns st (Entering Acquire) = False"
| "owns st (Entering (SetTag v)) = False"
| "owns st (Entering (Arbitrate v)) = False"
| "owns st (Entering (Blocked c)) = (st \<noteq> Waiting)"
| "owns st (Leaving Left) = False"
| "owns st p = True"

definition cs_thread :: "address \<Rightarrow> user_scheduler \<Rightarrow> nat \<Rightarrow> cs_pc \<Rightarrow> bool" where
  "cs_thread cs s f p \<longleftrightarrow>
    (let x = m_fibers s f; h = ukern_fiber_handle x in
     GetFiberByHandle h s = Inr (Some f) \<and> list_for x \<noteq> None \<and>
     (m_words s cs AND NOT HasChildWaitersBit = h \<longleftrightarrow> owns (fiber_state x) p) \<and>
     (waits (fiber_state x) p \<longrightarrow> waitable x = Some LockArbiter \<and> lock_address x = cs \<and> wait_tag x = h))"

definition waiters_of :: "user_scheduler \<Rightarrow> nat \<Rightarrow> cs_pc \<Rightarrow> nat \<Rightarrow> cs_pc \<Rightarrow> nat \<Rightarrow> nat list" where
  "waiters_of s a pa b pb = (\<lambda>_. [])
    (a := (if waits (fiber_state (m_fibers s b)) pb then [b] else []),
     b := (if waits (fiber_state (m_fibers s a)) pa then [a] else []))"

definition cs_inv :: "address \<Rightarrow> user_scheduler \<Rightarrow> nat \<Rightarrow> cs_pc \<Rightarrow> nat \<Rightarrow> cs_pc \<Rightarrow> bool" where
  "cs_inv cs s a pa b pb \<longleftrightarrow> cs \<noteq> nullptr \<and> a \<noteq> b \<and> GetFiberByHandle 0 s = Inr None \<and>
    (\<exists>L. sched_lists s L (waiters_of s a pa b pb)) \<and> cs_thread cs s a pa \<and> cs_thread cs s b pb \<and>
    m_words s cs AND NOT HasChildWaitersBit \<in>
      {0, ukern_fiber_handle (m_fibers s a), ukern_fiber_handle (m_fibers s b)}"

lemma cs_inv_sym: "cs_inv cs s a pa b pb \<Longrightarrow> cs_inv cs s b pb a pa"
  by (auto simp: cs_inv_def waiters_of_def fun_upd_twist)

lemma or_and_not: "(v OR x) AND NOT x = v AND NOT (x :: 'a::len word)"
  by (rule bit_word_eqI) (auto simp: bit_simps)

lemma cs_handles:
  assumes "cs_inv cs s a pa b pb"
  shows "ukern_fiber_handle (m_fibers s a) \<noteq> ukern_fiber_handle (m_fibers s b)"
    "ukern_fiber_handle (m_fibers s a) \<noteq> 0" "ukern_fiber_handle (m_fibers s b) \<noteq> 0"
  using assms by (auto simp: cs_inv_def cs_thread_def Let_def)

lemma handle_and_not: 
  assumes "GetFiberByHandle h s = Inr (Some f)"
  shows "h AND NOT HasChildWaitersBit = h"
  using known_handle_bit [OF assms] or_and_not [of h HasChildWaitersBit] by simp

lemma cs_inv_exclusive:
  assumes "cs_inv cs s a pa b pb"
  shows "\<not> (owns (fiber_state (m_fibers s a)) pa \<and> owns (fiber_state (m_fibers s b)) pb)"
  using assms cs_handles(1) [OF assms] by (auto simp: cs_inv_def cs_thread_def Let_def)

lemma inside_owns: "inside m f \<Longrightarrow> owns st (at m f)"
  by (auto simp: inside_def)

text \<open>A step that changes neither the kernel nor who waits or owns.\<close>

lemma cs_inv_pc:
  assumes "cs_inv cs s a pa b pb" and "\<And>st. owns st pa' = owns st pa" and "\<And>st. waits st pa' = waits st pa"
  shows "cs_inv cs s a pa' b pb"
  using assms by (auto simp: cs_inv_def cs_thread_def waiters_of_def Let_def)

text \<open>The lock word is written, and nothing else.\<close>

lemma cs_inv_word:
  assumes "cs_inv cs s a pa b pb" and "\<not> waits (fiber_state (m_fibers s a)) pa" "\<not> waits (fiber_state (m_fibers s a)) pa'"
    and "owns (fiber_state (m_fibers s a)) pa' \<longleftrightarrow> v AND NOT HasChildWaitersBit = ukern_fiber_handle (m_fibers s a)"
    and "owns (fiber_state (m_fibers s b)) pb \<longleftrightarrow> v AND NOT HasChildWaitersBit = ukern_fiber_handle (m_fibers s b)"
    and "v AND NOT HasChildWaitersBit \<in>
      {0, ukern_fiber_handle (m_fibers s a), ukern_fiber_handle (m_fibers s b)}"
  shows "cs_inv cs (s\<lparr>m_words := (m_words s)(cs := v)\<rparr>) a pa' b pb"
proof -
  have "waiters_of (s\<lparr>m_words := (m_words s)(cs := v)\<rparr>) a pa' b pb = waiters_of s a pa b pb"
    using assms(2,3) by (simp add: waiters_of_def)
  then show ?thesis
    using assms by (auto simp: cs_inv_def cs_thread_def Let_def sched_lists_def GetFiberByHandle_def)
qed

lemma acquire_inv:
  assumes "cs_inv cs s a (Entering Acquire) b pb" and "Enter_step a cs Acquire s = Inr (e, s')"
  shows "cs_inv cs s' a (Entering e) b pb"
proof -
  have n: "cs \<noteq> nullptr" using assms(1) by (simp add: cs_inv_def)
  show ?thesis
  proof (cases "m_words s cs = 0")
    case True
    let ?h = "ukern_fiber_handle (m_fibers s a)"
    have e: "e = Entered" "s' = s\<lparr>m_words := (m_words s)(cs := ?h)\<rparr>"
      using assms(2) True n by (simp_all add: InterlockedCompareExchange_def load_def store_def)
    have g: "GetFiberByHandle ?h s = Inr (Some a)" using assms(1) by (simp add: cs_inv_def cs_thread_def Let_def)
    have "\<not> owns (fiber_state (m_fibers s b)) pb"
      using assms(1) cs_handles(3) [OF assms(1)] True by (auto simp: cs_inv_def cs_thread_def Let_def)
    then show ?thesis
      unfolding e using handle_and_not [OF g] cs_handles [OF assms(1)]
      by (intro cs_inv_word [OF assms(1)]) simp_all
  next
    case False
    then have "s' = s" "e = SetTag (m_words s cs) \<or> e = Arbitrate (m_words s cs)"
      using assms(2) n by (auto simp: InterlockedCompareExchange_def load_def split: if_splits)
    then show ?thesis by (auto intro: cs_inv_pc [OF assms(1)])
  qed
qed

lemma settag_inv:
  assumes "cs_inv cs s a (Entering (SetTag v)) b pb" and "Enter_step a cs (SetTag v) s = Inr (e, s')"
  shows "cs_inv cs s' a (Entering e) b pb"
proof -
  have n: "cs \<noteq> nullptr" using assms(1) by (simp add: cs_inv_def)
  then have e: "s' = s\<lparr>m_words := (m_words s)(cs := m_words s cs OR HasChildWaitersBit)\<rparr>"
      "e = Acquire \<or> e = Arbitrate v"
    using assms(2) by (auto simp: InterlockedOr_def load_def store_def split: if_splits)
  have "\<not> owns st (Entering e)" "\<not> waits st (Entering e)" for st using e(2) by auto
  then show ?thesis
    unfolding e(1) using assms(1)
    by (intro cs_inv_word [OF assms(1)]) (auto simp: or_and_not cs_inv_def cs_thread_def Let_def)
qed

lemma recheck_inv:
  assumes "cs_inv cs s a (Entering Recheck) b pb" and "Enter_step a cs Recheck s = Inr (e, s')"
  shows "cs_inv cs s' a (Entering e) b pb" "e = Entered"
proof -
  have n: "cs \<noteq> nullptr" "m_words s cs AND NOT HasChildWaitersBit = ukern_fiber_handle (m_fibers s a)"
    using assms(1) by (simp_all add: cs_inv_def cs_thread_def Let_def)
  then have e: "s' = s" "e = Entered" using assms(2) by (simp_all add: load_def)
  then show "e = Entered" "cs_inv cs s' a (Entering e) b pb" by (auto intro: cs_inv_pc [OF assms(1)])
qed

lemma check_inv:
  assumes "cs_inv cs s a (Leaving CheckTag) b pb" and "Leave_step a cs CheckTag s = Inr (l, s')"
  shows "cs_inv cs s' a (Leaving l) b pb"
proof -
  have n: "cs \<noteq> nullptr" using assms(1) by (simp add: cs_inv_def)
  then have e: "s' = s" "l = Unlock \<or> l = Clear" using assms(2) by (auto simp: load_def split: if_splits)
  then show ?thesis by (auto intro: cs_inv_pc [OF assms(1)])
qed

lemma clear_inv:
  assumes "cs_inv cs s a (Leaving Clear) b pb" and "Leave_step a cs Clear s = Inr (l, s')"
  shows "cs_inv cs s' a (Leaving l) b pb"
proof -
  have n: "cs \<noteq> nullptr" using assms(1) by (simp add: cs_inv_def)
  then have e: "l = Left" "s' = s\<lparr>m_words := (m_words s)(cs := 0)\<rparr>"
    using assms(2) by (auto simp: InterlockedExchange_def load_def store_def)
  have "\<not> owns (fiber_state (m_fibers s b)) pb"
    using assms(1) cs_handles(1) [OF assms(1)] by (auto simp: cs_inv_def cs_thread_def Let_def)
  then show ?thesis
    unfolding e using cs_handles [OF assms(1)] by (intro cs_inv_word [OF assms(1)]) simp_all
qed


lemma known_fiber:
  assumes "cs_inv cs s a pa b pb" and "GetFiberByHandle (m_words s cs AND NOT HasChildWaitersBit) s = Inr (Some own)"
    and "own \<noteq> a"
  shows "own = b" "m_words s cs AND NOT HasChildWaitersBit = ukern_fiber_handle (m_fibers s b)"
  using assms by (auto simp: cs_inv_def cs_thread_def Let_def)

lemma arbitrate_blocks:
  assumes "ArbitrateLockImpl f h cs tag s = Inr (Switched core c, s')" and "cs \<noteq> nullptr"
  shows "\<exists>own. GetFiberByHandle h s = Inr (Some own) \<and> own \<noteq> f \<and> m_words s cs = h OR HasChildWaitersBit \<and>
    current_core (m_fibers s f) < m_core_count s \<and>
    unat (current_core (m_fibers s f)) < length (m_scheduler_fiber_table s)"
  using assms
  by (auto simp: ArbitrateLockImpl_def Let_def and_then_Inr_iff return_locked_def load_def
      switch_to_scheduler_def GetSchedulerFiber_def split: if_splits)

lemma arbitrate_inv:
  assumes i: "cs_inv cs s a (Entering (Arbitrate v)) b pb" and "Enter_step a cs (Arbitrate v) s = Inr (e, s')"
  shows "cs_inv cs s' a (Entering e) b pb"
proof -
  let ?h = "v AND NOT HasChildWaitersBit" and ?tag = "ukern_fiber_handle (m_fibers s a)"
  have n: "cs \<noteq> nullptr" "a \<noteq> b" using i by (simp_all add: cs_inv_def)
  obtain r s1 where r: "ArbitrateLockImpl a ?h cs ?tag s = Inr (r, s1)"
    using assms(2) by (auto simp: and_then_Inr_iff)
  show ?thesis
  proof (cases r)
    case (Returned q)
    have "q \<noteq> ResultSuccess"
      using r Returned n by (auto simp: ArbitrateLockImpl_def Let_def and_then_Inr_iff return_locked_def
        switch_to_scheduler_def result_codes split: if_splits)
    with assms(2) r Returned show ?thesis by (simp add: abort_unless_success_def)
  next
    case (Switched core c)
    from arbitrate_blocks [OF r [unfolded Switched] n(1)] obtain own where own:
      "GetFiberByHandle ?h s = Inr (Some own)" "own \<noteq> a" "m_words s cs = ?h OR HasChildWaitersBit"
      "current_core (m_fibers s a) < m_core_count s"
      "unat (current_core (m_fibers s a)) < length (m_scheduler_fiber_table s)" by blast
    have w: "m_words s cs AND NOT HasChildWaitersBit = ?h" unfolding own(3) by (rule known_handle_bit [OF own(1)])
    have b: "own = b" "ukern_fiber_handle (m_fibers s b) = ?h"
      using known_fiber [OF i, of own] own(1,2) w by simp_all
    have ob: "owns (fiber_state (m_fibers s b)) pb" using i b(2) w by (simp add: cs_inv_def cs_thread_def Let_def)
    then have nb: "\<not> waits (fiber_state (m_fibers s b)) pb" by (cases "(fiber_state (m_fibers s b), pb)" rule: waits.cases) auto
    from i obtain L where L: "sched_lists s L (waiters_of s a (Entering (Arbitrate v)) b pb)"
      by (auto simp: cs_inv_def)
    have e: "waiters_of s a (Entering (Arbitrate v)) b pb = (\<lambda>_. [])" using nb by (auto simp: waiters_of_def)
    obtain s2 where s2: "ArbitrateLockImpl a ?h cs ?tag s =
        Inr (Switched (current_core (m_fibers s a)) (ReturnResult ResultSuccess), s2)"
      "sched_lists s2 (relist a SuspendList L) ((\<lambda>_. [])(b := [a]))" "m_words s2 = m_words s"
      "m_handle_table s2 = m_handle_table s"
      "m_fibers s2 = (m_fibers s)(a := (m_fibers s a)\<lparr>waitable := Some LockArbiter, lock_address := cs,
        wait_tag := ?tag, fiber_state := Waiting\<rparr>)"
      using ArbitrateLock_blocks [of s L "\<lambda>_. []" b a ?h cs ?tag] L own n unfolding e b(1)
      by (auto simp: waiters_def)
    have s': "e = Blocked (ReturnResult ResultSuccess)" "s' = ReleaseSRWLockExclusive s2"
      using assms(2) s2(1,5) by (simp_all add: Dispatch_end_def)
    have "waiters_of s' a (Entering e) b pb = (\<lambda>_. [])(b := [a])"
      using nb n(2) by (auto simp: waiters_of_def s' s2(5))
    moreover have "sched_lists s' (relist a SuspendList L) ((\<lambda>_. [])(b := [a]))" using s2(2) by (simp add: s')
    ultimately show ?thesis
      using i n(2) ob b w cs_handles(1) [OF i]
      by (auto simp: cs_inv_def cs_thread_def Let_def GetFiberByHandle_def s' s2(3-5))
  qed
qed

lemma unlock_inv:
  assumes i: "cs_inv cs s a (Leaving Unlock) b pb" and "Leave_step a cs Unlock s = Inr (l, s')"
  shows "cs_inv cs s' a (Leaving l) b pb"
proof -
  have n: "cs \<noteq> nullptr" "a \<noteq> b" using i by (simp_all add: cs_inv_def)
  from i obtain L where L: "sched_lists s L (waiters_of s a (Leaving Unlock) b pb)" by (auto simp: cs_inv_def)
  have own: "ukern_fiber_handle (m_fibers s a) = m_words s cs AND NOT HasChildWaitersBit"
    using i by (simp add: cs_inv_def cs_thread_def Let_def)
  have wb: "waits (fiber_state (m_fibers s b)) pb"
  proof (rule ccontr)
    assume "\<not> waits (fiber_state (m_fibers s b)) pb"
    then have "waiters_of s a (Leaving Unlock) b pb a = []" using n(2) by (simp add: waiters_of_def)
    then have "IsEmpty (m_links s) (WaitList a)" using IsEmpty_wait [OF L, of a] by simp
    then have "ArbitrateUnlockImpl a cs s = return_locked ResultRequiresLock (AcquireSRWLockExclusive s)"
      using n by (simp add: ArbitrateUnlockImpl_def Let_def)
    with assms(2) show False by (simp add: return_locked_def abort_unless_success_def result_codes)
  qed
  let ?b = "m_fibers s b"
  have W: "waiters_of s a (Leaving Unlock) b pb = (\<lambda>_. [])(a := [b])"
    using wb n(2) by (auto simp: waiters_of_def)
  have bf: "waitable ?b = Some LockArbiter" "lock_address ?b = cs" "wait_tag ?b = ukern_fiber_handle ?b"
    and gb: "GetFiberByHandle (ukern_fiber_handle ?b) s = Inr (Some b)"
    using i wb by (simp_all add: cs_inv_def cs_thread_def Let_def)
  obtain h where h: "list_for ?b = Some h" using i by (auto simp: cs_inv_def cs_thread_def Let_def)
  have "((\<lambda>_. [])(a := [b])) a = [b]" by simp
  then obtain s1 where s1: "ArbitrateUnlockImpl a cs s = Inr (Returned ResultSuccess, s1)"
      "m_handle_table s1 = m_handle_table s" "sched_lists s1 (relist b h L) ((\<lambda>_. [])(a := [b], a := []))"
      "m_words s1 = (m_words s)(cs := ukern_fiber_handle ?b)"
      "m_fibers s1 = (m_fibers s)(b := ?b\<lparr>lock_address := nullptr, wait_tag := 0,
        last_result := ResultSuccess, fiber_state := state_for ?b, waitable := None\<rparr>)"
    using ArbitrateUnlock_one [OF L [unfolded W] _ bf(1,2) h n(1) own] unfolding bf(3) by blast
  have s': "l = Left" "s' = s1" using assms(2) s1(1) by (simp_all add: abort_unless_success_def)
  have st: "state_for ?b \<noteq> Waiting" by (simp add: state_for_def)
  obtain c where pb: "pb = Entering (Blocked c)" using wb by (cases "(fiber_state ?b, pb)" rule: waits.cases) auto
  have "waiters_of s1 a (Leaving Left) b pb = (\<lambda>_. [])(a := [b], a := [])"
    using n(2) st by (auto simp: waiters_of_def s1(5) pb)
  moreover have "list_for (?b\<lparr>lock_address := nullptr, wait_tag := 0, last_result := ResultSuccess,
      fiber_state := state_for ?b, waitable := None\<rparr>) = list_for ?b" by (simp add: list_for_def)
  ultimately show ?thesis
    using i n(2) st s1(3) cs_handles(1) [OF i] handle_and_not [OF gb]
    by (auto simp: cs_inv_def cs_thread_def Let_def GetFiberByHandle_def s' s1(2,4,5) pb)
qed

lemma list_for_waitable [simp]: "list_for (waitable_update g x) = list_for x"
  by (rule list_for_cong) simp_all

lemma resume_inv:
  assumes i: "cs_inv cs s a (Entering (Blocked c)) b pb" and st: "fiber_state (m_fibers s a) = Scheduled"
    and r: "Enter_resume a core c s = Inr (e, s')"
  shows "cs_inv cs s' a (Entering e) b pb"
proof -
  from i obtain L where L: "sched_lists s L (waiters_of s a (Entering (Blocked c)) b pb)" by (auto simp: cs_inv_def)
  obtain s1 where d: "Dispatch_begin a core s = Inr s1" using r by (auto simp: Enter_resume_def and_then_Inr_iff)
  then have "core < m_core_count s" by (simp add: Dispatch_begin_def Let_def dd_assert_def split: if_splits)
  from Dispatch_begin_spec [OF L this, of a] d
  have s1: "sched_lists s1 (\<lambda>h. remove1 a (L h)) (waiters_of s a (Entering (Blocked c)) b pb)"
      "m_fibers s1 = (m_fibers s)(a := (m_fibers s a)\<lparr>fiber_state := Running, current_core := core\<rparr>)"
      "m_words s1 = m_words s" "m_handle_table s1 = m_handle_table s" by auto
  have s': "e = Recheck"
      "s' = ReleaseSRWLockExclusive (fiber_update a (waitable_update (map_option (\<lambda>_. Dangling))) s1)"
    using r d by (auto simp: Enter_resume_def resume_call_def Let_def abort_unless_success_def
        split: option.splits if_splits)
  have "waiters_of s' a (Entering e) b pb = waiters_of s a (Entering (Blocked c)) b pb"
    using i st by (auto simp: waiters_of_def s' s1(2) cs_inv_def)
  moreover have "sched_lists s' (\<lambda>h. remove1 a (L h)) (waiters_of s a (Entering (Blocked c)) b pb)"
    using s1(1) by (simp add: s' sched_lists_def)
  ultimately show ?thesis
    using i st by (auto simp: cs_inv_def cs_thread_def Let_def GetFiberByHandle_def s' s1(2-4))
qed


lemma enter_inv:
  assumes "cs_inv cs s a (Entering e) b pb" and "Enter_step a cs e s = Inr (e', s')"
  shows "cs_inv cs s' a (Entering e') b pb"
proof (cases e)
  case Acquire
  show ?thesis using acquire_inv assms unfolding Acquire .
next
  case (SetTag v)
  show ?thesis using settag_inv assms unfolding SetTag .
next
  case (Arbitrate v)
  show ?thesis using arbitrate_inv assms unfolding Arbitrate .
next
  case Recheck
  show ?thesis using recheck_inv(1) assms unfolding Recheck .
qed (use assms in simp_all)

lemma leave_inv:
  assumes "cs_inv cs s a (Leaving l) b pb" and "Leave_step a cs l s = Inr (l', s')"
  shows "cs_inv cs s' a (Leaving l') b pb"
proof (cases l)
  case CheckTag
  show ?thesis using check_inv assms unfolding CheckTag .
next
  case Unlock
  show ?thesis using unlock_inv assms unfolding Unlock .
next
  case Clear
  show ?thesis using clear_inv assms unfolding Clear .
qed (use assms in simp_all)

lemma cs_step_inv_first:
  assumes "cs_inv cs (kernel m) a (at m a) b (at m b)" and "cs_step cs {a} m m'"
  shows "cs_inv cs (kernel m') a (at m' a) b (at m' b)"
proof -
  have ab: "a \<noteq> b" using assms(1) by (simp add: cs_inv_def)
  show ?thesis
    using assms(2)
  proof cases
    case (enter f e e' s)
    then have i: "cs_inv cs (kernel m) a (Entering e) b (at m b)" "Enter_step a cs e (kernel m) = Inr (e', s)"
      using assms(1) by simp_all
    have "cs_inv cs s a (Entering e') b (at m b)"
      by (rule enter_inv [OF i])
    then show ?thesis using enter(1,2) ab by simp
  next
    case (resume f c core e s)
    then show ?thesis using resume_inv [of cs "kernel m" a c b "at m b" core e s] assms(1) ab by simp
  next
    case (leave f l l' s)
    then have i: "cs_inv cs (kernel m) a (Leaving l) b (at m b)" "Leave_step a cs l (kernel m) = Inr (l', s)"
      using assms(1) by simp_all
    have "cs_inv cs s a (Leaving l') b (at m b)"
      by (rule leave_inv [OF i])
    then show ?thesis using leave(1,2) ab by simp
  qed (use ab in \<open>auto intro: cs_inv_pc [OF assms(1)]\<close>)
qed

lemma cs_step_inv:
  assumes "cs_inv cs (kernel m) a (at m a) b (at m b)" and "cs_step cs {a, b} m m'"
  shows "cs_inv cs (kernel m') a (at m' a) b (at m' b)"
proof -
  have "cs_step cs {a} m m' \<or> cs_step cs {b} m m'"
    using assms(2) by cases (auto intro: cs_step.intros)
  then show ?thesis using cs_step_inv_first cs_inv_sym assms(1) by blast
qed

text \<open>A kernel in which nobody waits and the two threads are known by their handles.\<close>

definition cs_ready :: "address \<Rightarrow> nat \<Rightarrow> nat \<Rightarrow> user_scheduler \<Rightarrow> bool" where
  "cs_ready cs a b s \<longleftrightarrow> cs \<noteq> nullptr \<and> a \<noteq> b \<and> GetFiberByHandle 0 s = Inr None \<and>
    (\<exists>L. sched_lists s L (\<lambda>_. [])) \<and>
    (\<forall>f\<in>{a, b}. GetFiberByHandle (ukern_fiber_handle (m_fibers s f)) s = Inr (Some f) \<and>
      list_for (m_fibers s f) \<noteq> None)"

lemma cs_ready_inv:
  assumes "cs_ready cs a b s" and "m_words s cs = 0" 
  shows "cs_inv cs s a Outside b Outside"
proof -
  have "ukern_fiber_handle (m_fibers s a) \<noteq> 0" "ukern_fiber_handle (m_fibers s b) \<noteq> 0"
    using assms(1) by (auto simp: cs_ready_def)
  moreover have "waiters_of s a Outside b Outside = (\<lambda>_. [])" by (auto simp: waiters_of_def)
  ultimately show ?thesis using assms by (auto simp: cs_inv_def cs_ready_def cs_thread_def Let_def)
qed

section \<open>Properties\<close>

definition cs_start :: "address \<Rightarrow> nat \<Rightarrow> nat \<Rightarrow> cs_machine \<Rightarrow> bool" where
  "cs_start cs a b m \<longleftrightarrow>
    cs_ready cs a b (kernel m) \<and> m_words (kernel m) cs = 0 \<and> at m a = Outside \<and> at m b = Outside"

interpretation internal_cs: one_owner "cs_start cs a b" "cs_step cs {a, b}"
  "\<lambda>m. cs_inv cs (kernel m) a (at m a) b (at m b)" "\<lambda>m f. f \<in> {a, b} \<and> inside m f" for cs a b
proof unfold_locales
  show "cs_start cs a b m \<Longrightarrow> cs_inv cs (kernel m) a (at m a) b (at m b)" for m
    using cs_ready_inv by (simp add: cs_start_def)
  show "cs_inv cs (kernel m) a (at m a) b (at m b) \<Longrightarrow> cs_step cs {a, b} m m' \<Longrightarrow>
      cs_inv cs (kernel m') a (at m' a) b (at m' b)" for m m'
    by (rule cs_step_inv)
  show "cs_inv cs (kernel m) a (at m a) b (at m b) \<Longrightarrow> t \<in> {a, b} \<and> inside m t \<Longrightarrow>
      u \<in> {a, b} \<and> inside m u \<Longrightarrow> t = u" for m t u
    using cs_inv_exclusive inside_owns by blast
qed

text \<open>
  C3. Exclusion: of two threads that enter and leave a free critical section any number of times, in
  any interleaving of their steps and of the dispatches between them, at most one is inside. (The
  lock word names the owner; a hand-over names the waiter before it is made runnable.)
\<close>

theorem critical_section_exclusion:
  assumes "cs_ready cs a b (kernel m)" and "m_words (kernel m) cs = 0"
    and "at m a = Outside" and "at m b = Outside" and "(cs_step cs {a, b})\<^sup>*\<^sup>* m m'"
  shows "\<not> (inside m' a \<and> inside m' b)"
  using internal_cs.run_exclusive [of cs a b m m' a b] assms by (auto simp: cs_start_def cs_ready_def)


text \<open>Two threads, 1 and 2, of a kernel in which nobody waits, and a free critical section at 16.\<close>

definition pair_table :: "nat handle_table" where
  "pair_table = HandleTable\<lparr>m_counters := (replicate MaxHandles 0)[255 := 1, 254 := 2],
    m_objects := (replicate MaxHandles None)[255 := Some 1, 254 := Some 2]\<rparr>"

definition pair_kernel :: "u32 \<Rightarrow> user_scheduler" where
  "pair_kernel v = (fiber_update 2 (ukern_fiber_handle_update (\<lambda>_. 0x100FE))
    (fiber_update 1 (ukern_fiber_handle_update (\<lambda>_. 0x80FF)) example))\<lparr>
    m_handle_table := pair_table, m_words := (\<lambda>_. 0)(16 := v)\<rparr>"

lemma pair_lookup:
  "GetObjectByHandle 0x80FF pair_table = Inr (Some 1)" "GetObjectByHandle 0x100FE pair_table = Inr (Some 2)"
  "GetObjectByHandle 0 pair_table = Inr None"
  by (simp_all add: GetObjectByHandle_def pair_table_def MaxHandles_def HandleTable_def)

lemma pair_lists: "sched_lists (pair_kernel v) example_lists (\<lambda>_. [])"
  using example_sched_lists by (simp add: sched_lists_def pair_kernel_def)

lemma pair_words [simp]: "m_words (pair_kernel v) 16 = v"
  by (simp add: pair_kernel_def)

lemma pair_handles [simp]:
  "ukern_fiber_handle (m_fibers (pair_kernel v) (Suc 0)) = 0x80FF"
  "ukern_fiber_handle (m_fibers (pair_kernel v) 2) = 0x100FE"
  by (simp_all add: pair_kernel_def)

lemma pair_core:
  "current_core (m_fibers (pair_kernel v) 2) < m_core_count (pair_kernel v)"
  "unat (current_core (m_fibers (pair_kernel v) 2)) < length (m_scheduler_fiber_table (pair_kernel v))"
  by (simp_all add: pair_kernel_def example_fibers example_fiber_def zero_fiber_def example_def
      blank_def UserScheduler_def MaxCoreCount_def)

lemma pair_ready: "cs_ready 16 1 2 (pair_kernel v)"
proof -
  have "list_for (m_fibers (pair_kernel v) 1) \<noteq> None" "list_for (m_fibers (pair_kernel v) 2) \<noteq> None"
    by (simp_all add: pair_kernel_def example_fibers list_for_def example_fiber_def
      ActivityLevel_Suspended_def ActivityLevel_Schedulable_def)
  moreover have "\<exists>L. sched_lists (pair_kernel v) L (\<lambda>_. [])" using pair_lists by blast
  moreover have "GetFiberByHandle h (pair_kernel v) = GetObjectByHandle h pair_table" for h
    by (simp add: GetFiberByHandle_def pair_kernel_def)
  ultimately show ?thesis by (simp add: cs_ready_def nullptr_def pair_lookup)
qed

definition pair_machine :: cs_machine where
  "pair_machine = \<lparr>kernel = pair_kernel 0, at = (\<lambda>_. Outside)\<rparr>"

lemma pair_first_enters:
  "(cs_step 16 {1, 2})\<^sup>*\<^sup>* pair_machine
    \<lparr>kernel = (pair_kernel 0)\<lparr>m_words := (m_words (pair_kernel 0))(16 := 0x80FF)\<rparr>,
     at = ((\<lambda>_. Outside)(1 := Entering Entered))\<rparr>"
proof -
  let ?m = "pair_machine\<lparr>at := (at pair_machine)(1 := Entering Acquire)\<rparr>"
  have "cs_step 16 {1, 2} pair_machine ?m" by (rule call_enter) (simp_all add: pair_machine_def)
  moreover have "cs_step 16 {1, 2} ?m \<lparr>kernel = (kernel ?m)\<lparr>m_words := (m_words (kernel ?m))(16 := 0x80FF)\<rparr>,
      at = (at ?m)(1 := Entering Entered)\<rparr>"
    by (rule enter [where e = Acquire])
      (simp_all add: pair_machine_def InterlockedCompareExchange_def load_def store_def nullptr_def)
  ultimately show ?thesis by (auto simp: pair_machine_def intro: rtranclp_trans)
qed

theorem critical_section_exclusion_witness:
  "\<exists>m'. (cs_step 16 {1, 2})\<^sup>*\<^sup>* pair_machine m' \<and> inside m' 1 \<and> \<not> (inside m' 1 \<and> inside m' 2)"
proof -
  obtain m' where m': "(cs_step 16 {1, 2})\<^sup>*\<^sup>* pair_machine m'" "inside m' 1"
    using pair_first_enters by (auto simp: inside_def)
  then show ?thesis
    using critical_section_exclusion [of 16 1 2 pair_machine m'] pair_ready [of 0]
    by (auto simp: pair_machine_def)
qed

lemma has_waiters_bit: "has_waiters v \<longleftrightarrow> bit v 30"
proof -
  have "drop_bit 30 v AND 1 = of_bool (odd (drop_bit 30 v))" by (simp add: and_one_eq mod_2_eq_odd)
  then show ?thesis by (simp add: has_waiters_def bit_iff_odd_drop_bit)
qed

lemma HasChildWaitersBit_bit: "bit HasChildWaitersBit n \<longleftrightarrow> n = 30"
proof -
  have e: "HasChildWaitersBit = push_bit 30 1" by (simp add: HasChildWaitersBit_def)
  show ?thesis unfolding e bit_push_bit_iff by (auto simp: bit_1_iff)
qed

lemma has_waiters_simps [simp]:
  "has_waiters (v OR HasChildWaitersBit)" "\<not> has_waiters (v AND NOT HasChildWaitersBit)" "has_waiters HasChildWaitersBit"
  by (simp_all add: has_waiters_bit bit_or_iff bit_and_iff bit_not_iff HasChildWaitersBit_bit)

lemma known_handle_no_waiters:
  assumes "GetFiberByHandle h s = Inr (Some f)"
  shows "\<not> has_waiters h" "h \<noteq> 0 \<or> GetFiberByHandle 0 s = Inr (Some f)"
proof -
  show "\<not> has_waiters h" using has_waiters_simps(2) [of h] handle_and_not [OF assms] by simp
qed (use assms in auto)

lemma free_Enter:
  assumes "cs_ready cs a b s" and "m_words s cs = 0"
  shows "cs_Enter a cs s = Inr (None, s\<lparr>m_words := (m_words s)(cs := ukern_fiber_handle (m_fibers s a))\<rparr>)"
    "cs_Leave a cs (s\<lparr>m_words := (m_words s)(cs := ukern_fiber_handle (m_fibers s a))\<rparr>) = Inr s"
proof -
  let ?h = "ukern_fiber_handle (m_fibers s a)"
  have k: "cs \<noteq> nullptr" "GetFiberByHandle ?h s = Inr (Some a)" using assms(1) by (simp_all add: cs_ready_def)
  have r: "(m_words s)(cs := 0) = m_words s" using assms(2) by (simp add: fun_upd_idem)
  show "cs_Enter a cs s = Inr (None, s\<lparr>m_words := (m_words s)(cs := ?h)\<rparr>)"
    using k(1) assms(2) by (simp add: cs_Enter_def numeral_3_eq_3 InterlockedCompareExchange_def load_def store_def)
  show "cs_Leave a cs (s\<lparr>m_words := (m_words s)(cs := ?h)\<rparr>) = Inr s"
    using k r known_handle_no_waiters(1) [OF k(2)]
    by (simp add: cs_Leave_def InterlockedExchange_def load_def store_def)
qed

text \<open>Without contention: \<open>Enter\<close> returns at once and the section is held by the caller, for whom
  it was free; \<open>TryEnter\<close> of another thread fails and changes nothing; \<open>Leave\<close> restores the kernel.\<close>

theorem critical_section_uncontended:
  assumes "cs_ready cs a b s" and "m_words s cs = 0"
  shows "\<exists>s'. cs_Enter a cs s = Inr (None, s') \<and> IsLockedByCurrentThread a cs s' = Inr True \<and>
    IsLockedByCurrentThread b cs s' = Inr False \<and> cs_TryEnter b cs s' = Inr (False, s') \<and> cs_Leave a cs s' = Inr s"
proof -
  let ?h = "\<lambda>f. ukern_fiber_handle (m_fibers s f)"
  have k: "cs \<noteq> nullptr" "GetFiberByHandle (?h a) s = Inr (Some a)" "?h a \<noteq> 0" "?h a \<noteq> ?h b"
    using assms(1) by (auto simp: cs_ready_def)
  show ?thesis
    using free_Enter [OF assms] k handle_and_not [OF k(2)]
    by (simp add: IsLockedByCurrentThread_def cs_TryEnter_def InterlockedCompareExchange_def load_def)
qed

theorem critical_section_uncontended_witness:
  "\<exists>s'. cs_Enter 1 16 (pair_kernel 0) = Inr (None, s') \<and> IsLockedByCurrentThread 1 16 s' = Inr True \<and>
    IsLockedByCurrentThread 2 16 s' = Inr False \<and> cs_TryEnter 2 16 s' = Inr (False, s') \<and>
    cs_Leave 1 16 s' = Inr (pair_kernel 0)"
  by (rule critical_section_uncontended [OF pair_ready]) simp

text \<open>The steps of a thread that finds the section held by another.\<close>

lemma held_acquire:
  assumes "cs \<noteq> nullptr" and "m_words s cs = v" and "v \<noteq> 0"
  shows "Enter_step f cs Acquire s = Inr (if has_waiters v then Arbitrate v else SetTag v, s)"
  using assms by (simp add: InterlockedCompareExchange_def load_def)

lemma held_set_tag:
  assumes "cs \<noteq> nullptr" and "m_words s cs = v"
  shows "Enter_step f cs (SetTag v) s =
    Inr (Arbitrate v, s\<lparr>m_words := (m_words s)(cs := v OR HasChildWaitersBit)\<rparr>)"
  using assms by (simp add: InterlockedOr_def load_def store_def)

lemma held_arbitrate:
  assumes l: "sched_lists s L (\<lambda>_. [])"
    and h: "GetFiberByHandle v s = Inr (Some a)" "a \<noteq> b"
    and c: "cs \<noteq> nullptr" "m_words s cs = v OR HasChildWaitersBit" "current_core (m_fibers s b) < m_core_count s"
      "unat (current_core (m_fibers s b)) < length (m_scheduler_fiber_table s)"
  shows "\<exists>s'. Enter_step b cs (Arbitrate v) s = Inr (Blocked (ReturnResult ResultSuccess), s') \<and>
    sched_lists s' (relist b SuspendList L) ((\<lambda>_. [])(a := [b])) \<and> m_words s' = m_words s \<and>
    m_handle_table s' = m_handle_table s \<and> m_core_count s' = m_core_count s \<and>
    m_fibers s' = (m_fibers s)(b := (m_fibers s b)\<lparr>waitable := Some LockArbiter, lock_address := cs,
      wait_tag := ukern_fiber_handle (m_fibers s b), fiber_state := Waiting\<rparr>)"
proof -
  obtain s' where s': "ArbitrateLockImpl b v cs (ukern_fiber_handle (m_fibers s b)) s =
      Inr (Switched (current_core (m_fibers s b)) (ReturnResult ResultSuccess), s')"
    "sched_lists s' (relist b SuspendList L) ((\<lambda>_. [])(a := [b]))" "m_words s' = m_words s"
    "m_handle_table s' = m_handle_table s" "m_core_count s' = m_core_count s"
    "m_fibers s' = (m_fibers s)(b := (m_fibers s b)\<lparr>waitable := Some LockArbiter, lock_address := cs,
      wait_tag := ukern_fiber_handle (m_fibers s b), fiber_state := Waiting\<rparr>)"
    using ArbitrateLock_blocks [OF l _ _ h c] by (auto simp: waiters_def)
  have "Enter_step b cs (Arbitrate v) s =
      Inr (Blocked (ReturnResult ResultSuccess), ReleaseSRWLockExclusive s')"
    using s'(1,6) handle_and_not [OF h(1)] by (simp add: Dispatch_end_def)
  then show ?thesis using s'(2-6) by auto
qed

lemma held_unlock:
  assumes l: "sched_lists s L ((\<lambda>_. [])(a := [b]))"
    and b: "waitable (m_fibers s b) = Some LockArbiter" "lock_address (m_fibers s b) = cs" "list_for (m_fibers s b) = Some h"
    and c: "cs \<noteq> nullptr" "ukern_fiber_handle (m_fibers s a) = m_words s cs AND NOT HasChildWaitersBit"
  shows "\<exists>s' L'. Leave_step a cs Unlock s = Inr (Left, s') \<and> sched_lists s' L' (\<lambda>_. []) \<and>
    m_words s' = (m_words s)(cs := wait_tag (m_fibers s b)) \<and> m_core_count s' = m_core_count s \<and>
    fiber_state (m_fibers s' b) = state_for (m_fibers s b) \<and> last_result (m_fibers s' b) = ResultSuccess \<and>
    ukern_fiber_handle (m_fibers s' b) = ukern_fiber_handle (m_fibers s b)"
proof -
  have "(\<lambda>_. [])(a := [b], a := []) = (\<lambda>_. [] :: nat list)" by auto
  then show ?thesis
    using ArbitrateUnlock_one [OF l _ b c] by (auto simp: abort_unless_success_def)
qed

lemma held_enter:
  assumes "cs_ready cs a b s" and "m_words s cs = ukern_fiber_handle (m_fibers s a)"
    and "current_core (m_fibers s b) < m_core_count s"
    and "unat (current_core (m_fibers s b)) < length (m_scheduler_fiber_table s)"
    and "sched_lists s L (\<lambda>_. [])"
  shows "\<exists>s1. cs_Enter b cs s = Inr (Some (ReturnResult ResultSuccess), s1) \<and>
    sched_lists s1 (relist b SuspendList L) ((\<lambda>_. [])(a := [b])) \<and>
    m_words s1 = (m_words s)(cs := ukern_fiber_handle (m_fibers s a) OR HasChildWaitersBit) \<and>
    m_core_count s1 = m_core_count s \<and>
    m_fibers s1 = (m_fibers s)(b := (m_fibers s b)\<lparr>waitable := Some LockArbiter, lock_address := cs,
      wait_tag := ukern_fiber_handle (m_fibers s b), fiber_state := Waiting\<rparr>)"
proof -
  let ?h = "ukern_fiber_handle (m_fibers s a)"
  let ?s = "s\<lparr>m_words := (m_words s)(cs := ?h OR HasChildWaitersBit)\<rparr>"
  have k: "cs \<noteq> nullptr" "a \<noteq> b" "GetFiberByHandle ?h s = Inr (Some a)" "?h \<noteq> 0"
    using assms(1) by (auto simp: cs_ready_def)
  have "sched_lists ?s L (\<lambda>_. [])" using assms(5) by (simp add: sched_lists_def)
  then have "\<exists>s1. Enter_step b cs (Arbitrate ?h) ?s = Inr (Blocked (ReturnResult ResultSuccess), s1) \<and>
      sched_lists s1 (relist b SuspendList L) ((\<lambda>_. [])(a := [b])) \<and> m_words s1 = m_words ?s \<and>
      m_handle_table s1 = m_handle_table ?s \<and> m_core_count s1 = m_core_count ?s \<and>
      m_fibers s1 = (m_fibers ?s)(b := (m_fibers ?s b)\<lparr>waitable := Some LockArbiter, lock_address := cs,
        wait_tag := ukern_fiber_handle (m_fibers ?s b), fiber_state := Waiting\<rparr>)"
    by (rule held_arbitrate) (use k assms(3,4) in \<open>simp_all add: GetFiberByHandle_def\<close>)
  then show ?thesis
    using held_acquire [OF k(1) assms(2) k(4), of b] held_set_tag [OF k(1) assms(2), of b]
      known_handle_no_waiters(1) [OF k(3)]
    by (auto simp: cs_Enter_def numeral_3_eq_3 simp del: Enter_step.simps)
qed

text \<open>C4. Contention: a thread that enters a held section blocks, in state Waiting; when the owner
  leaves, the section belongs to the waiter, which is made runnable, and once a core dispatches it
  its \<open>Enter\<close> returns.\<close>

theorem critical_section_handover:
  assumes "cs_ready cs a b s" and "m_words s cs = ukern_fiber_handle (m_fibers s a)"
    and "current_core (m_fibers s b) < m_core_count s"
    and "unat (current_core (m_fibers s b)) < length (m_scheduler_fiber_table s)"
    and "core < m_core_count s"
  shows "\<exists>s1 s2 s3. cs_Enter b cs s = Inr (Some (ReturnResult ResultSuccess), s1) \<and>
    fiber_state (m_fibers s1 b) = Waiting \<and>
    cs_Leave a cs s1 = Inr s2 \<and> m_words s2 cs = ukern_fiber_handle (m_fibers s b) \<and>
    fiber_state (m_fibers s2 b) = state_for (m_fibers s b) \<and>
    Enter_resume b core (ReturnResult ResultSuccess) s2 = Inr (Recheck, s3) \<and>
    run_enter 1 b cs Recheck s3 = Inr (None, s3)"
proof -
  let ?h = "\<lambda>f. ukern_fiber_handle (m_fibers s f)"
  have k: "cs \<noteq> nullptr" "a \<noteq> b" "GetFiberByHandle (?h a) s = Inr (Some a)" "GetFiberByHandle (?h b) s = Inr (Some b)"
    using assms(1) by (simp_all add: cs_ready_def)
  obtain L hd where L: "sched_lists s L (\<lambda>_. [])" "list_for (m_fibers s b) = Some hd"
    using assms(1) by (auto simp: cs_ready_def)
  obtain s1 where e: "cs_Enter b cs s = Inr (Some (ReturnResult ResultSuccess), s1)"
    and s1: "sched_lists s1 (relist b SuspendList L) ((\<lambda>_. [])(a := [b]))"
      "m_words s1 = (m_words s)(cs := ?h a OR HasChildWaitersBit)" "m_core_count s1 = m_core_count s"
      "m_fibers s1 = (m_fibers s)(b := (m_fibers s b)\<lparr>waitable := Some LockArbiter, lock_address := cs,
        wait_tag := ?h b, fiber_state := Waiting\<rparr>)"
    using held_enter [OF assms(1-4) L(1)] by blast
  obtain s2 L2 where s2: "Leave_step a cs Unlock s1 = Inr (Left, s2)" "sched_lists s2 L2 (\<lambda>_. [])"
      "m_words s2 = (m_words s1)(cs := ?h b)" "m_core_count s2 = m_core_count s"
      "fiber_state (m_fibers s2 b) = state_for (m_fibers s b)" "last_result (m_fibers s2 b) = ResultSuccess"
      "ukern_fiber_handle (m_fibers s2 b) = ?h b"
    using held_unlock [OF s1(1), of cs hd] k s1(2-4) L(2) known_handle_bit [OF k(3)] by auto
  have l: "cs_Leave a cs s1 = Inr s2"
    using s2(1) k(1) s1(2) by (simp add: cs_Leave_def load_def del: Leave_step.simps(2))
  obtain s3 where s3: "Dispatch_begin b core s2 = Inr s3" "m_words s3 = m_words s2"
      "m_fibers s3 = (m_fibers s2)(b := (m_fibers s2 b)\<lparr>fiber_state := Running, current_core := core\<rparr>)"
    using Dispatch_begin_spec [OF s2(2), of core b] assms(5) s2(4) by auto
  let ?s3 = "ReleaseSRWLockExclusive (fiber_update b (waitable_update (map_option (\<lambda>_. Dangling))) s3)"
  have "Enter_resume b core (ReturnResult ResultSuccess) s2 = Inr (Recheck, ?s3)"
    using s3 s2(6) by (simp add: Enter_resume_def resume_call_def Let_def abort_unless_success_def)
  moreover have "run_enter 1 b cs Recheck ?s3 = Inr (None, ?s3)"
    using k(1) s3 s2(3,7) handle_and_not [OF k(4)] by (simp add: load_def)
  ultimately show ?thesis using e l s1(4) s2(3,5) by auto
qed

theorem critical_section_handover_witness:
  "\<exists>s1 s2 s3. cs_Enter 2 16 (pair_kernel 0x80FF) = Inr (Some (ReturnResult ResultSuccess), s1) \<and>
    fiber_state (m_fibers s1 2) = Waiting \<and>
    cs_Leave 1 16 s1 = Inr s2 \<and> m_words s2 16 = ukern_fiber_handle (m_fibers (pair_kernel 0x80FF) 2) \<and>
    fiber_state (m_fibers s2 2) = state_for (m_fibers (pair_kernel 0x80FF) 2) \<and>
    Enter_resume 2 (current_core (m_fibers (pair_kernel 0x80FF) 2)) (ReturnResult ResultSuccess) s2 = Inr (Recheck, s3) \<and>
    run_enter 1 2 16 Recheck s3 = Inr (None, s3)"
  by (rule critical_section_handover [OF pair_ready]) (use pair_core in simp_all)

lemma poisoned_section:
  assumes "cs \<noteq> nullptr" and "m_words s cs = HasChildWaitersBit" and "GetFiberByHandle 0 s = Inr None"
  shows "cs_Enter f cs s = Inl AssertFailed"
proof -
  have b: "HasChildWaitersBit \<noteq> 0" by (simp add: HasChildWaitersBit_def)
  have "GetFiberByHandle 0 (AcquireSRWLockExclusive s) = Inr None" using assms(3) by (simp add: GetFiberByHandle_def)
  then have "ArbitrateLockImpl f (HasChildWaitersBit AND NOT HasChildWaitersBit) cs t s =
      return_locked ResultInvalidHandle (AcquireSRWLockExclusive s)" for t
    using assms(1) by (simp add: ArbitrateLockImpl_def Let_def)
  then show ?thesis
    using held_acquire [OF assms(1,2) b, of f]
    by (simp add: cs_Enter_def numeral_3_eq_3 return_locked_def abort_unless_success_def result_codes
        del: Enter_step.simps(1))
qed

text \<open>Three ways in which \<open>Leave\<close> on one core races with \<open>Enter\<close> on another. Where thread \<open>a\<close> holds the
  section and \<open>b\<close> has seen that: if \<open>a\<close> leaves after \<open>b\<close> has set the tag bit and before it is in the
  list of waiters, \<open>Leave\<close> aborts; if \<open>b\<close> comes in after \<open>a\<close> has read the word and before it has
  cleared it, \<open>b\<close> waits for a section that is free; if \<open>a\<close> has left before \<open>b\<close> sets the tag bit, the word
  is the bit alone and every later \<open>Enter\<close> aborts.\<close>

theorem enter_leave_races:
  assumes "cs_ready cs a b s" and "m_words s cs = ukern_fiber_handle (m_fibers s a)"
    and "current_core (m_fibers s b) < m_core_count s"
    and "unat (current_core (m_fibers s b)) < length (m_scheduler_fiber_table s)"
  shows "Enter_step b cs Acquire s = Inr (SetTag (m_words s cs), s) \<and>
    (\<exists>s1. Enter_step b cs (SetTag (m_words s cs)) s = Inr (Arbitrate (m_words s cs), s1) \<and>
      cs_Leave a cs s1 = Inl AssertFailed) \<and>
    (\<exists>s1 s2. Leave_step a cs CheckTag s = Inr (Clear, s) \<and>
      cs_Enter b cs s = Inr (Some (ReturnResult ResultSuccess), s1) \<and>
      Leave_step a cs Clear s1 = Inr (Left, s2) \<and> m_words s2 cs = 0 \<and> fiber_state (m_fibers s2 b) = Waiting) \<and>
    (\<exists>s1 s2. cs_Leave a cs s = Inr s1 \<and> m_words s1 cs = 0 \<and>
      Enter_step b cs (SetTag (m_words s cs)) s1 = Inr (Acquire, s2) \<and>
      (\<forall>f. cs_Enter f cs s2 = Inl AssertFailed))"
proof (intro conjI)
  let ?h = "ukern_fiber_handle (m_fibers s a)"
  have k: "cs \<noteq> nullptr" "a \<noteq> b" "GetFiberByHandle ?h s = Inr (Some a)" "GetFiberByHandle 0 s = Inr None"
    using assms(1) by (simp_all add: cs_ready_def)
  obtain L where L: "sched_lists s L (\<lambda>_. [])" using assms(1) by (auto simp: cs_ready_def)
  have h: "?h \<noteq> 0" "\<not> has_waiters ?h" using assms(1) known_handle_no_waiters(1) [OF k(3)] by (auto simp: cs_ready_def)
  show "Enter_step b cs Acquire s = Inr (SetTag (m_words s cs), s)"
    using held_acquire [OF k(1) assms(2) h(1)] h(2) assms(2) by simp
  let ?s = "s\<lparr>m_words := (m_words s)(cs := ?h OR HasChildWaitersBit)\<rparr>"
  have "IsEmpty (m_links ?s) (WaitList a)" using IsEmpty_wait [OF L, of a] by simp
  then have "cs_Leave a cs ?s = Inl AssertFailed"
    using k(1) by (simp add: cs_Leave_def load_def ArbitrateUnlockImpl_def Let_def return_locked_def
        abort_unless_success_def result_codes)
  then show "\<exists>s1. Enter_step b cs (SetTag (m_words s cs)) s = Inr (Arbitrate (m_words s cs), s1) \<and>
      cs_Leave a cs s1 = Inl AssertFailed"
    using held_set_tag [OF k(1) assms(2), of b] assms(2) by simp
  obtain s1 where s1: "cs_Enter b cs s = Inr (Some (ReturnResult ResultSuccess), s1)" "fiber_state (m_fibers s1 b) = Waiting"
    using held_enter [OF assms(1-4) L] by auto
  then show "\<exists>s1 s2. Leave_step a cs CheckTag s = Inr (Clear, s) \<and>
      cs_Enter b cs s = Inr (Some (ReturnResult ResultSuccess), s1) \<and>
      Leave_step a cs Clear s1 = Inr (Left, s2) \<and> m_words s2 cs = 0 \<and> fiber_state (m_fibers s2 b) = Waiting"
    using k(1) h(2) assms(2) by (simp add: load_def store_def InterlockedExchange_def)
  let ?t = "s\<lparr>m_words := (m_words s)(cs := 0)\<rparr>"
  have "cs_Leave a cs s = Inr ?t"
    using k(1) h(2) assms(2) by (simp add: cs_Leave_def load_def store_def InterlockedExchange_def)
  moreover have "Enter_step b cs (SetTag (m_words s cs)) ?t =
      Inr (Acquire, s\<lparr>m_words := (m_words s)(cs := HasChildWaitersBit)\<rparr>)"
    using k(1) h(1) assms(2) by (simp add: InterlockedOr_def load_def store_def)
  ultimately show "\<exists>s1 s2. cs_Leave a cs s = Inr s1 \<and> m_words s1 cs = 0 \<and>
      Enter_step b cs (SetTag (m_words s cs)) s1 = Inr (Acquire, s2) \<and>
      (\<forall>f. cs_Enter f cs s2 = Inl AssertFailed)"
    using poisoned_section [of cs "s\<lparr>m_words := (m_words s)(cs := HasChildWaitersBit)\<rparr>"] k(1,4)
    by (simp add: GetFiberByHandle_def)
qed

lemma cv_Wait_returns:
  assumes "sched_lists s L W" and "cs \<noteq> nullptr" and "cv \<noteq> nullptr" and "\<not> m_scheduler_lock s"
    and "GetFiberByHandle (ukern_fiber_handle (m_fibers s f)) s = Inr (Some f)"
    and "m_words s cs = (if W f = [] then ukern_fiber_handle (m_fibers s f)
      else ukern_fiber_handle (m_fibers s f) OR HasChildWaitersBit)"
  shows "cv_Wait f cs cv s = Inr (None, s)"
proof -
  let ?h = "ukern_fiber_handle (m_fibers s f)"
  have r: "ReleaseSRWLockExclusive (AcquireSRWLockExclusive s) = s"
    using assms(4) by (simp add: ReleaseSRWLockExclusive_def AcquireSRWLockExclusive_def)
  have ne: "?h \<noteq> ?h OR HasChildWaitersBit"
    using has_waiters_simps(1) [of ?h] known_handle_no_waiters(1) [OF assms(5)] by metis
  have e: "IsEmpty (m_links s) (WaitList f) = (W f = [])" by (rule IsEmpty_wait [OF assms(1)])
  have "WaitKeyImpl f cs cv ?h (- 1) s = return_locked
      (if W f = [] then ResultRequiresLock else ResultInvalidLockAddressValue) (AcquireSRWLockExclusive s)"
    using assms(2,3,6) ne e by (simp add: WaitKeyImpl_def Let_def load_def)
  moreover have "m_words s cs AND NOT HasChildWaitersBit = ?h"
    using assms(6) handle_and_not [OF assms(5)] known_handle_bit [OF assms(5)] by simp
  ultimately show ?thesis
    using assms(2) r by (simp add: cv_Wait_def IsLockedByCurrentThread_def load_def ignore_result_def return_locked_def)
qed

text \<open>Waiting on a condition variable never waits: whether or not other threads wait for the section,
  \<open>WaitKeyImpl\<close> refuses (it wants waiters on the lock and at the same time a lock word without the bit
  that says so), its result is dropped, and \<open>Wait\<close> returns with the section held and the kernel as it was.\<close>

theorem condition_wait_never_waits:
  assumes "sched_lists s L W" and "cs \<noteq> nullptr" and "cv \<noteq> nullptr" and "\<not> m_scheduler_lock s"
    and "GetFiberByHandle (ukern_fiber_handle (m_fibers s f)) s = Inr (Some f)"
    and "m_words s cs = (if W f = [] then ukern_fiber_handle (m_fibers s f)
      else ukern_fiber_handle (m_fibers s f) OR HasChildWaitersBit)"
  shows "cv_Wait f cs cv s = Inr (None, s)"
  by (rule cv_Wait_returns [OF assms])

theorem enter_leave_races_witness:
  "\<exists>s1 s2. cs_Leave 1 16 (pair_kernel 0x80FF) = Inr s1 \<and> m_words s1 16 = 0 \<and>
    Enter_step 2 16 (SetTag 0x80FF) s1 = Inr (Acquire, s2) \<and> (\<forall>f. cs_Enter f 16 s2 = Inl AssertFailed)"
  using enter_leave_races [OF pair_ready, of "0x80FF"] pair_core by simp

theorem condition_wait_never_waits_witness: "cv_Wait 1 16 24 (pair_kernel 0x80FF) = Inr (None, pair_kernel 0x80FF)"
  by (rule condition_wait_never_waits [OF pair_lists])
    (simp_all add: nullptr_def GetFiberByHandle_def pair_lookup pair_kernel_def example_def blank_def UserScheduler_def)

end
