(* ===== verification/Sys_Sync.thy ===== *)
theory Sys_Sync
  imports Critical_Section
begin

text \<open>
  The synchronisation objects of the \<open>sys\<close> module over the critical section and the wait calls of
  the micro kernel: \<open>Mutex\<close> (\<open>sys_mutex.hpp\<close>), \<open>Event\<close> (\<open>sys_event.hpp\<close>), \<open>ServiceCriticalSection\<close>
  (\<open>sys_servicecriticalsection.hpp\<close>), \<open>ServiceEvent\<close> (\<open>sys_serviceevent.hpp\<close>).

  A call runs without interference up to its return or up to the switch of a call it makes
  (\<open>Some c\<close>). The Win32 lock and event of the service objects are a flag each, as documented: a
  try-acquire succeeds exactly on a free lock.
\<close>

section \<open>Mutex\<close>

record sys_mutex =
  m_cs :: address
  m_lock_count :: u32

definition Mutex :: "address \<Rightarrow> user_scheduler \<Rightarrow> (sys_mutex \<times> user_scheduler) outcome" where
  "Mutex a s = and_then (InternalCriticalSection a s) (\<lambda>s. Inr (\<lparr>m_cs = a, m_lock_count = 0\<rparr>, s))"

definition count_up :: "sys_mutex \<Rightarrow> sys_mutex" where
  "count_up x = x\<lparr>m_lock_count := m_lock_count x + 1\<rparr>"

text \<open>\<open>Enter\<close> up to the switch of the critical section; after it, \<open>count_up\<close> is what is left.\<close>

definition Mutex_Enter :: "nat \<Rightarrow> sys_mutex \<Rightarrow> user_scheduler \<Rightarrow> (continuation option \<times> sys_mutex \<times> user_scheduler) outcome" where
  "Mutex_Enter this x s =
    and_then (IsLockedByCurrentThread this (m_cs x) s) (\<lambda>locked.
    if m_lock_count x = 0 \<and> \<not> locked then
      and_then (cs_Enter this (m_cs x) s) (\<lambda>(r, s).
      case r of None \<Rightarrow> Inr (None, count_up x, s) | Some c \<Rightarrow> Inr (Some c, x, s))
    else Inr (None, count_up x, s))"

definition Mutex_TryEnter :: "nat \<Rightarrow> sys_mutex \<Rightarrow> user_scheduler \<Rightarrow> (bool \<times> sys_mutex \<times> user_scheduler) outcome" where
  "Mutex_TryEnter this x s =
    (if m_lock_count x = 0 then Inr (False, x, s)
     else and_then (IsLockedByCurrentThread this (m_cs x) s) (\<lambda>locked.
     if \<not> locked then Inr (False, x, s)
     else and_then (cs_TryEnter this (m_cs x) s) (\<lambda>(b, s).
     if \<not> b then Inr (False, x, s) else Inr (True, count_up x, s))))"

definition Mutex_Leave :: "nat \<Rightarrow> sys_mutex \<Rightarrow> user_scheduler \<Rightarrow> (sys_mutex \<times> user_scheduler) outcome" where
  "Mutex_Leave this x s =
    (let x = x\<lparr>m_lock_count := m_lock_count x - 1\<rparr> in
     if m_lock_count x \<noteq> 0 then Inr (x, s)
     else and_then (cs_Leave this (m_cs x) s) (\<lambda>s. Inr (x, s)))"

definition Mutex_IsLockedByCurrentThread :: "nat \<Rightarrow> sys_mutex \<Rightarrow> user_scheduler \<Rightarrow> bool outcome" where
  "Mutex_IsLockedByCurrentThread this x s = IsLockedByCurrentThread this (m_cs x) s"

section \<open>Event\<close>

record sys_event =
  m_signal_state :: u16
  m_auto_reset_mode :: u16
  m_wake_id :: u32
  event_cs :: address
  event_cv :: address

text \<open>\<open>m_cv\<close> keeps what its memory held, and the second constructor leaves \<open>m_wake_id\<close> as well.\<close>

definition Event :: "address \<Rightarrow> address \<Rightarrow> user_scheduler \<Rightarrow> (sys_event \<times> user_scheduler) outcome" where
  "Event cs cv s = and_then (InternalCriticalSection cs s) (\<lambda>s.
    Inr (\<lparr>m_signal_state = 0, m_auto_reset_mode = 0, m_wake_id = 0, event_cs = cs, event_cv = cv\<rparr>, s))"

definition Event_create :: "bool \<Rightarrow> bool \<Rightarrow> u32 \<Rightarrow> address \<Rightarrow> address \<Rightarrow> user_scheduler \<Rightarrow> (sys_event \<times> user_scheduler) outcome" where
  "Event_create create_signaled auto_reset held cs cv s = and_then (InternalCriticalSection cs s) (\<lambda>s.
    Inr (\<lparr>m_signal_state = of_bool create_signaled, m_auto_reset_mode = of_bool auto_reset,
      m_wake_id = held, event_cs = cs, event_cv = cv\<rparr>, s))"

text \<open>
  The three calls hold \<open>m_cs\<close> by a \<open>scoped_lock\<close>: \<open>with_lock\<close> enters, runs the body and leaves.
  \<open>Some c\<close> is a switch on the way.
\<close>

definition with_lock :: "nat \<Rightarrow> address \<Rightarrow> (user_scheduler \<Rightarrow> (continuation option \<times> 'e \<times> user_scheduler) outcome) \<Rightarrow>
    'e \<Rightarrow> user_scheduler \<Rightarrow> (continuation option \<times> 'e \<times> user_scheduler) outcome" where
  "with_lock this cs body e s =
    and_then (cs_Enter this cs s) (\<lambda>(r, s).
    case r of Some c \<Rightarrow> Inr (Some c, e, s)
    | None \<Rightarrow> and_then (body s) (\<lambda>(r, e, s).
      case r of Some c \<Rightarrow> Inr (Some c, e, s)
      | None \<Rightarrow> and_then (cs_Leave this cs s) (\<lambda>s. Inr (None, e, s))))"

definition Event_Signal :: "nat \<Rightarrow> sys_event \<Rightarrow> user_scheduler \<Rightarrow> (continuation option \<times> sys_event \<times> user_scheduler) outcome" where
  "Event_Signal this e = with_lock this (event_cs e) (\<lambda>s.
    if m_auto_reset_mode e = 1 then and_then (cv_Signal 1 (event_cv e) s) (\<lambda>(r, s). Inr (r, e, s))
    else
      let e = e\<lparr>m_wake_id := m_wake_id e + 1\<rparr> in
      and_then (cv_Broadcast (event_cv e) s) (\<lambda>(r, s). Inr (r, e, s))) e"

definition Event_Clear :: "nat \<Rightarrow> sys_event \<Rightarrow> user_scheduler \<Rightarrow> (continuation option \<times> sys_event \<times> user_scheduler) outcome" where
  "Event_Clear this e = with_lock this (event_cs e) (\<lambda>s. Inr (None, e\<lparr>m_signal_state := 0\<rparr>, s)) e"

text \<open>
  The \<open>do\<close> loop of \<open>Wait\<close>. As long as \<open>m_cv.Wait\<close> returns without a switch, the caller holds \<open>m_cs\<close>
  and nobody else changes the event: the condition is read from the same \<open>e\<close>.
\<close>

fun wait_loop :: "nat \<Rightarrow> nat \<Rightarrow> u32 \<Rightarrow> sys_event \<Rightarrow> user_scheduler \<Rightarrow> (continuation option \<times> sys_event \<times> user_scheduler) outcome" where
  "wait_loop 0 this wake_id e s = Inl Diverges"
| "wait_loop (Suc fuel) this wake_id e s =
    and_then (cv_Wait this (event_cs e) (event_cv e) s) (\<lambda>(r, s).
    case r of Some c \<Rightarrow> Inr (Some c, e, s)
    | None \<Rightarrow> if wake_id = m_wake_id e \<and> m_signal_state e = 0 then wait_loop fuel this wake_id e s
      else Inr (None, e, s))"

definition Event_Wait :: "nat \<Rightarrow> nat \<Rightarrow> sys_event \<Rightarrow> user_scheduler \<Rightarrow> (continuation option \<times> sys_event \<times> user_scheduler) outcome" where
  "Event_Wait fuel this e = with_lock this (event_cs e) (\<lambda>s.
    if m_signal_state e = 1 then Inr (None, e, s)
    else and_then (wait_loop fuel this (m_wake_id e) e s) (\<lambda>(r, e, s).
    case r of Some c \<Rightarrow> Inr (Some c, e, s)
    | None \<Rightarrow> Inr (None, if m_auto_reset_mode e = 1 then e\<lparr>m_signal_state := 0\<rparr> else e, s))) e"

section \<open>ServiceCriticalSection\<close>

record service_cs =
  m_wait_value :: address
  m_win32_lock :: bool

definition ServiceCriticalSection :: "address \<Rightarrow> user_scheduler \<Rightarrow> (service_cs \<times> user_scheduler) outcome" where
  "ServiceCriticalSection a s = and_then (store a 0 s) (\<lambda>s. Inr (\<lparr>m_wait_value = a, m_win32_lock = False\<rparr>, s))"

text \<open>A thread that is no fiber blocks in the operating system while the lock is taken.\<close>

datatype service_enter = EnterReturned | EnterWaits "u32 call" | EnterBlocked

definition TryAcquireSRWLockExclusive :: "service_cs \<Rightarrow> bool \<times> service_cs" where
  "TryAcquireSRWLockExclusive x = (\<not> m_win32_lock x, x\<lparr>m_win32_lock := True\<rparr>)"

text \<open>One turn of the loop of \<open>Enter\<close>: after a wait that returns, the loop goes on.\<close>

definition Service_Enter_turn :: "timestamp \<Rightarrow> int \<Rightarrow> nat option \<Rightarrow> service_cs \<Rightarrow> user_scheduler \<Rightarrow> (service_enter \<times> service_cs \<times> user_scheduler) outcome" where
  "Service_Enter_turn t now current x s =
    (case current of
       None \<Rightarrow> Inr (if m_win32_lock x then EnterBlocked else EnterReturned, x\<lparr>m_win32_lock := True\<rparr>, s)
     | Some this \<Rightarrow>
         let (result0, x) = TryAcquireSRWLockExclusive x in
         if \<not> result0 then Inr (EnterReturned, x, s)
         else and_then (WaitOnAddress t now this (m_wait_value x) ArbitrationType_WaitIfEqual 0 (- 1) s) (\<lambda>(r, s).
         Inr (EnterWaits r, x, s)))"

definition Service_Leave :: "service_cs \<Rightarrow> user_scheduler \<Rightarrow> (u32 call \<times> service_cs \<times> user_scheduler) outcome" where
  "Service_Leave x s =
    (let x = x\<lparr>m_win32_lock := False\<rparr> in
     and_then (WakeByAddress (m_wait_value x) SignalType_Signal 0 1 s) (\<lambda>(r, s). Inr (r, x, s)))"

section \<open>ServiceEvent\<close>

record service_event =
  m_signal_address :: address
  m_win32_event :: bool

definition ServiceEvent_Initialize :: "service_event \<Rightarrow> service_event" where
  "ServiceEvent_Initialize e = e\<lparr>m_win32_event := False\<rparr>"

text \<open>\<open>None\<close>: the call returned (a signalled event, or a Win32 event that is set); \<open>Some\<close>: the result of
  the wait of a fiber, or a Win32 thread that blocks.\<close>

definition ServiceEvent_Wait ::
  "timestamp \<Rightarrow> int \<Rightarrow> nat option \<Rightarrow> service_event \<Rightarrow> user_scheduler \<Rightarrow> (service_enter \<times> user_scheduler) outcome" where
  "ServiceEvent_Wait t now current e s =
    and_then (load (m_signal_address e) s) (\<lambda>v.
    if v = 1 then Inr (EnterReturned, s)
    else case current of
        Some this \<Rightarrow>
          and_then (WaitOnAddress t now this (m_signal_address e) ArbitrationType_WaitIfLessThan 1 (- 1) s) (\<lambda>(r, s).
          Inr (EnterWaits r, s))
      | None \<Rightarrow> Inr (if m_win32_event e then EnterReturned else EnterBlocked, s))"

definition ServiceEvent_Signal :: "service_event \<Rightarrow> user_scheduler \<Rightarrow> (service_event \<times> user_scheduler) outcome" where
  "ServiceEvent_Signal e s =
    and_then (store (m_signal_address e) 1 s) (\<lambda>s.
    and_then (WakeByAddress (m_signal_address e) SignalType_Signal 1 (- 1) s) (\<lambda>(_, s).
    Inr (e\<lparr>m_win32_event := True\<rparr>, s)))"

definition ServiceEvent_Reset :: "service_event \<Rightarrow> user_scheduler \<Rightarrow> (service_event \<times> user_scheduler) outcome" where
  "ServiceEvent_Reset e s =
    and_then (store (m_signal_address e) 0 s) (\<lambda>s. Inr (e\<lparr>m_win32_event := False\<rparr>, s))"

section \<open>Properties\<close>

primrec enter_times :: "nat \<Rightarrow> nat \<Rightarrow> sys_mutex \<Rightarrow> user_scheduler \<Rightarrow> (sys_mutex \<times> user_scheduler) outcome" where
  "enter_times 0 this x s = Inr (x, s)"
| "enter_times (Suc n) this x s = and_then (enter_times n this x s) (\<lambda>(x, s).
    and_then (Mutex_Enter this x s) (\<lambda>(r, x, s). case r of None \<Rightarrow> Inr (x, s) | Some c \<Rightarrow> Inl AssertFailed))"

primrec leave_times :: "nat \<Rightarrow> nat \<Rightarrow> sys_mutex \<Rightarrow> user_scheduler \<Rightarrow> (sys_mutex \<times> user_scheduler) outcome" where
  "leave_times 0 this x s = Inr (x, s)"
| "leave_times (Suc n) this x s = and_then (Mutex_Leave this x s) (\<lambda>(x, s). leave_times n this x s)"

lemma free_not_locked:
  assumes "cs_ready cs a b s" and "m_words s cs = 0"
  shows "IsLockedByCurrentThread a cs s = Inr False" "IsLockedByCurrentThread b cs s = Inr False"
  using assms by (auto simp: cs_ready_def IsLockedByCurrentThread_def load_def)

lemma counted_Enter:
  assumes "m_lock_count x \<noteq> 0" and "m_cs x \<noteq> nullptr"
  shows "Mutex_Enter f x s = Inr (None, count_up x, s)"
  using assms by (simp add: Mutex_Enter_def IsLockedByCurrentThread_def load_def)

lemma enter_times_spec:
  assumes "cs_ready cs a b s" and "cs_Enter a cs s = Inr (None, s')" and "m_words s cs = 0" and "Suc n < 2 ^ 32"
  shows "enter_times (Suc n) a \<lparr>m_cs = cs, m_lock_count = 0\<rparr> s = Inr (\<lparr>m_cs = cs, m_lock_count = of_nat (Suc n)\<rparr>, s')"
  using assms(4)
proof (induction n)
  case 0
  show ?case
    using assms(2) free_not_locked(1) [OF assms(1,3)] by (simp add: Mutex_Enter_def count_up_def)
next
  case (Suc n)
  have "(of_nat (Suc n) :: u32) \<noteq> 0"
    using unat_of_nat_small [of "Suc n", where 'a = 32] Suc.prems by auto
  moreover have "cs \<noteq> nullptr" using assms(1) by (simp add: cs_ready_def)
  ultimately show ?case
    using Suc counted_Enter [of "\<lparr>m_cs = cs, m_lock_count = of_nat (Suc n)\<rparr>" a]
    by (simp add: count_up_def add.commute del: of_nat_Suc) (simp add: add.commute)
qed

lemma leave_times_spec:
  assumes "cs_Leave a cs s' = Inr s" and "Suc n < 2 ^ 32"
  shows "leave_times (Suc n) a \<lparr>m_cs = cs, m_lock_count = of_nat (Suc n)\<rparr> s' = Inr (\<lparr>m_cs = cs, m_lock_count = 0\<rparr>, s)"
  using assms(2)
proof (induction n)
  case 0
  show ?case using assms(1) by (simp add: Mutex_Leave_def)
next
  case (Suc n)
  have "(of_nat (Suc n) :: u32) \<noteq> 0"
    using unat_of_nat_small [of "Suc n", where 'a = 32] Suc.prems by auto
  then have "Mutex_Leave a \<lparr>m_cs = cs, m_lock_count = of_nat (Suc (Suc n))\<rparr> t =
      Inr (\<lparr>m_cs = cs, m_lock_count = of_nat (Suc n)\<rparr>, t)" for t
    by (simp add: Mutex_Leave_def)
  moreover have "Suc n < 2 ^ 32" using Suc.prems by simp
  ultimately show ?case
    using Suc.IH leave_times.simps(2) [of "Suc n" a] by (simp del: of_nat_Suc leave_times.simps)
qed

text \<open>A mutex can be taken again by the thread that holds it: any number of calls of \<open>Enter\<close> that the
  32 bit counter can count return without a switch and the same number of calls of \<open>Leave\<close>
  restores the mutex and the kernel.\<close>

theorem mutex_recursive:
  assumes "cs_ready cs a b s" and "m_words s cs = 0" and "0 < n" and "n < 2 ^ 32"
  shows "\<exists>x s'. enter_times n a \<lparr>m_cs = cs, m_lock_count = 0\<rparr> s = Inr (x, s') \<and>
    Mutex_IsLockedByCurrentThread a x s' = Inr True \<and> unat (m_lock_count x) = n \<and>
    leave_times n a x s' = Inr (\<lparr>m_cs = cs, m_lock_count = 0\<rparr>, s)"
proof -
  obtain k where n: "n = Suc k" using assms(3) by (cases n) auto
  have g: "cs \<noteq> nullptr" "GetFiberByHandle (ukern_fiber_handle (m_fibers s a)) s = Inr (Some a)"
    using assms(1) by (simp_all add: cs_ready_def)
  then show ?thesis
    using enter_times_spec [OF assms(1) free_Enter(1) [OF assms(1,2)] assms(2), of k]
      leave_times_spec [OF free_Enter(2) [OF assms(1,2)], of k] assms(4)
      handle_and_not [OF g(2)] unat_of_nat_small [of n, where 'a = 32]
    by (simp add: n Mutex_IsLockedByCurrentThread_def IsLockedByCurrentThread_def load_def
        del: enter_times.simps leave_times.simps of_nat_Suc)
qed

theorem mutex_recursive_witness:
  "\<exists>x s'. enter_times 3 1 \<lparr>m_cs = 16, m_lock_count = 0\<rparr> (pair_kernel 0) = Inr (x, s') \<and>
    Mutex_IsLockedByCurrentThread 1 x s' = Inr True \<and> unat (m_lock_count x) = 3 \<and>
    leave_times 3 1 x s' = Inr (\<lparr>m_cs = 16, m_lock_count = 0\<rparr>, pair_kernel 0)"
  by (rule mutex_recursive [OF pair_ready]) simp_all

text \<open>The mutex does not exclude: while one thread holds it, \<open>Enter\<close> of every other thread returns at
  once and counts up; and \<open>TryEnter\<close> fails for every thread, also on a free mutex and for the owner.\<close>

theorem mutex_not_exclusive:
  assumes "cs_ready cs a b s" and "m_words s cs = 0"
  shows "\<exists>x s'. Mutex_Enter a \<lparr>m_cs = cs, m_lock_count = 0\<rparr> s = Inr (None, x, s') \<and>
    Mutex_IsLockedByCurrentThread a x s' = Inr True \<and>
    Mutex_Enter b x s' = Inr (None, count_up x, s') \<and>
    Mutex_TryEnter a x s' = Inr (False, x, s') \<and> Mutex_TryEnter b x s' = Inr (False, x, s') \<and>
    Mutex_TryEnter a \<lparr>m_cs = cs, m_lock_count = 0\<rparr> s = Inr (False, \<lparr>m_cs = cs, m_lock_count = 0\<rparr>, s)"
proof -
  let ?h = "\<lambda>f. ukern_fiber_handle (m_fibers s f)"
  have g: "cs \<noteq> nullptr" "GetFiberByHandle (?h a) s = Inr (Some a)" "?h a \<noteq> ?h b" "?h a \<noteq> 0"
    using assms(1) by (auto simp: cs_ready_def)
  show ?thesis
    using free_Enter(1) [OF assms] free_not_locked [OF assms] handle_and_not [OF g(2)] g
    by (simp add: Mutex_Enter_def count_up_def Mutex_TryEnter_def Mutex_IsLockedByCurrentThread_def
        IsLockedByCurrentThread_def load_def cs_TryEnter_def InterlockedCompareExchange_def)
qed

theorem mutex_not_exclusive_witness:
  "\<exists>x s'. Mutex_Enter 1 \<lparr>m_cs = 16, m_lock_count = 0\<rparr> (pair_kernel 0) = Inr (None, x, s') \<and>
    Mutex_IsLockedByCurrentThread 1 x s' = Inr True \<and>
    Mutex_Enter 2 x s' = Inr (None, count_up x, s') \<and>
    Mutex_TryEnter 1 x s' = Inr (False, x, s') \<and> Mutex_TryEnter 2 x s' = Inr (False, x, s') \<and>
    Mutex_TryEnter 1 \<lparr>m_cs = 16, m_lock_count = 0\<rparr> (pair_kernel 0) =
      Inr (False, \<lparr>m_cs = 16, m_lock_count = 0\<rparr>, pair_kernel 0)"
  by (rule mutex_not_exclusive [OF pair_ready]) simp

lemma wait_loop_spins:
  assumes "sched_lists s L (\<lambda>_. [])" and "event_cs e \<noteq> nullptr" and "event_cv e \<noteq> nullptr" and "\<not> m_scheduler_lock s"
    and "GetFiberByHandle (ukern_fiber_handle (m_fibers s f)) s = Inr (Some f)"
    and "m_words s (event_cs e) = ukern_fiber_handle (m_fibers s f)"
    and "m_signal_state e = 0"
  shows "wait_loop fuel f (m_wake_id e) e s = Inl Diverges"
proof (induction fuel)
  case (Suc fuel)
  then show ?case using cv_Wait_returns [OF assms(1-5)] assms(6,7) by simp
qed simp

text \<open>An event never wakes a thread that waits for it: \<open>Signal\<close> returns and leaves no mark, a \<open>Wait\<close> after it
  runs forever, with the critical section held.\<close>

theorem event_wait_never_returns:
  assumes "cs_ready (event_cs e) a b s" and "event_cv e \<noteq> nullptr" and "event_cv e \<noteq> event_cs e"
    and "m_words s (event_cs e) = 0" and "m_words s (event_cv e) = 0" and "\<not> m_scheduler_lock s"
    and "m_signal_state e = 0"
  shows "\<exists>e'. Event_Signal a e s = Inr (None, e', s) \<and> m_signal_state e' = 0 \<and>
    (\<forall>fuel. Event_Wait fuel a e' s = Inl Diverges)"
proof -
  let ?cs = "event_cs e"
  let ?s = "s\<lparr>m_words := (m_words s)(?cs := ukern_fiber_handle (m_fibers s a))\<rparr>"
  have k: "?cs \<noteq> nullptr" "GetFiberByHandle (ukern_fiber_handle (m_fibers s a)) s = Inr (Some a)"
    using assms(1) by (simp_all add: cs_ready_def)
  obtain L where "sched_lists s L (\<lambda>_. [])" using assms(1) by (auto simp: cs_ready_def)
  then have L: "sched_lists ?s L (\<lambda>_. [])" by (simp add: sched_lists_def)
  define e' where "e' = (if m_auto_reset_mode e = 1 then e else e\<lparr>m_wake_id := m_wake_id e + 1\<rparr>)"
  have e': "event_cs e' = ?cs" "event_cv e' = event_cv e" "m_signal_state e' = 0" using assms(7) by (simp_all add: e'_def)
  have "Event_Signal a e s = Inr (None, e', s)"
    using free_Enter [OF assms(1,4)] assms(2,3,5)
    by (simp add: Event_Signal_def with_lock_def cv_Signal_def cv_Broadcast_def load_def Let_def e'_def)
  moreover have "wait_loop fuel a (m_wake_id e') e' ?s = Inl Diverges" for fuel
    by (rule wait_loop_spins [OF L]) (use k assms e' in \<open>simp_all add: GetFiberByHandle_def\<close>)
  then have "Event_Wait fuel a e' s = Inl Diverges" for fuel
    using free_Enter(1) [OF assms(1,4)] e' by (simp add: Event_Wait_def with_lock_def)
  ultimately show ?thesis using e'(3) by auto
qed


definition plain_event :: sys_event where
  "plain_event = \<lparr>m_signal_state = 0, m_auto_reset_mode = 0, m_wake_id = 0, event_cs = 16, event_cv = 24\<rparr>"

theorem event_wait_never_returns_witness:
  "\<exists>e'. Event_Signal 1 plain_event (pair_kernel 0) = Inr (None, e', pair_kernel 0) \<and> m_signal_state e' = 0 \<and>
    (\<forall>fuel. Event_Wait fuel 1 e' (pair_kernel 0) = Inl Diverges)"
  by (rule event_wait_never_returns [where b = 2])
    (use pair_ready in \<open>simp_all add: plain_event_def nullptr_def, simp_all add: pair_kernel_def example_def
      blank_def UserScheduler_def\<close>)

text \<open>\<open>ServiceCriticalSection::Enter\<close> has its test inverted: a fiber's turn returns exactly when the lock is taken
  by someone else; on a free lock it takes the lock and waits.\<close>

theorem service_enter_inverted:
  "Service_Enter_turn t now (Some f) x s = Inr (EnterReturned, x', s') \<longleftrightarrow> m_win32_lock x \<and> x' = x \<and> s' = s"
  by (cases x) (auto simp: Service_Enter_turn_def TryAcquireSRWLockExclusive_def Let_def and_then_Inr_iff)

text \<open>A service event: after \<open>Signal\<close> with nobody waiting, \<open>Wait\<close> returns at once for a fiber and for a Win32
  thread alike; after \<open>Reset\<close> a Win32 thread blocks.\<close>

theorem service_event_roundtrip:
  assumes "sched_lists s L W" and "set (L SchedulerWaitList) \<subseteq> {..<MaxThreadCount}"
    and "\<forall>f\<in>set (L SchedulerWaitList). wait_address (m_fibers s f) \<noteq> m_signal_address e"
    and "m_signal_address e \<noteq> nullptr"
  shows "\<exists>e1 s1 e2 s2. ServiceEvent_Signal e s = Inr (e1, s1) \<and>
    ServiceEvent_Wait t now current e1 s1 = Inr (EnterReturned, s1) \<and>
    ServiceEvent_Reset e1 s1 = Inr (e2, s2) \<and> ServiceEvent_Wait t now None e2 s2 = Inr (EnterBlocked, s2)"
proof -
  let ?a = "m_signal_address e"
  let ?s = "AcquireSRWLockExclusive (s\<lparr>m_words := (m_words s)(?a := 1)\<rparr>)"
  have "sched_lists ?s L W" using assms(1) by (simp add: sched_lists_def AcquireSRWLockExclusive_def)
  moreover have "find (\<lambda>f. wait_address (m_fibers s f) = ?a) (L SchedulerWaitList) = None"
    using assms(3) by (simp add: find_None_iff)
  ultimately have "find_waiter ?a ?s = Inr (None, ?s)"
    using find_waiter_spec [of ?s L W ?a] assms(2) by (simp add: AcquireSRWLockExclusive_def)
  then have "ServiceEvent_Signal e s = Inr (e\<lparr>m_win32_event := True\<rparr>, ReleaseSRWLockExclusive ?s)"
    using assms(4) by (simp add: ServiceEvent_Signal_def store_def WakeByAddress_def SignalType_Signal_def
        WakeByAddressImpl_def Let_def return_locked_def)
  then show ?thesis
    using assms(4)
    by (simp add: ServiceEvent_Wait_def load_def ServiceEvent_Reset_def store_def ReleaseSRWLockExclusive_def
        AcquireSRWLockExclusive_def)
qed

theorem service_event_roundtrip_witness:
  "\<exists>e1 s1 e2 s2. ServiceEvent_Signal \<lparr>m_signal_address = 32, m_win32_event = False\<rparr> (pair_kernel 0) = Inr (e1, s1) \<and>
    ServiceEvent_Wait (clock 1) 0 (Some 1) e1 s1 = Inr (EnterReturned, s1) \<and>
    ServiceEvent_Reset e1 s1 = Inr (e2, s2) \<and> ServiceEvent_Wait (clock 1) 0 None e2 s2 = Inr (EnterBlocked, s2)"
  by (rule service_event_roundtrip [OF pair_lists]) (simp_all add: example_lists_def nullptr_def)

end
