(* ===== verification/Util_Lock.thy ===== *)
theory Util_Lock
  imports DD_Prelude
begin

text \<open>
  The lock of the operating system threads: \<open>util::CriticalSection\<close> (\<open>util_critsec.hpp\<close>) and
  \<open>util::ConditionVariable\<close> (\<open>util_condvar.hpp\<close>). The Win32 slim lock is a flag with its documented
  behaviour: acquiring takes it when it is free and blocks otherwise, a try-acquire reports whether
  it took it, sleeping on a condition variable releases it and takes it again before returning.

  Between the slim lock and the id of its owner, \<open>lock\<close>, \<open>unlock\<close> and \<open>Wait\<close> are interrupted: they are
  cut at these points. Thread ids are not zero.
\<close>

section \<open>CriticalSection\<close>

record critical_section =
  m_srwlock :: bool
  m_locked_thread_id :: u64

definition CriticalSection :: critical_section where
  "CriticalSection = \<lparr>m_srwlock = False, m_locked_thread_id = 0\<rparr>"

definition SetId :: "u64 \<Rightarrow> critical_section \<Rightarrow> critical_section" where
  "SetId manual_id c = c\<lparr>m_locked_thread_id := manual_id\<rparr>"

definition UnsetId :: "critical_section \<Rightarrow> u64 \<times> critical_section" where
  "UnsetId c = (m_locked_thread_id c, c\<lparr>m_locked_thread_id := 0\<rparr>)"

text \<open>The compare-exchange stores the value it read, so it only reads.\<close>

definition util_IsLockedByCurrentThread :: "u64 \<Rightarrow> critical_section \<Rightarrow> bool" where
  "util_IsLockedByCurrentThread thread_id c \<longleftrightarrow> thread_id = m_locked_thread_id c"

text \<open>\<open>None\<close>: the thread blocks.\<close>

definition lock_acquire :: "u64 \<Rightarrow> critical_section \<Rightarrow> critical_section option outcome" where
  "lock_acquire thread_id c =
    and_then (dd_assert (\<not> util_IsLockedByCurrentThread thread_id c) c) (\<lambda>c.
    Inr (if m_srwlock c then None else Some (c\<lparr>m_srwlock := True\<rparr>)))"

definition util_lock :: "u64 \<Rightarrow> critical_section \<Rightarrow> critical_section option outcome" where
  "util_lock thread_id c = and_then (lock_acquire thread_id c) (\<lambda>r. Inr (map_option (SetId thread_id) r))"

definition unlock_begin :: "u64 \<Rightarrow> critical_section \<Rightarrow> critical_section outcome" where
  "unlock_begin thread_id c =
    and_then (dd_assert (util_IsLockedByCurrentThread thread_id c) c) (\<lambda>c. Inr (SetId 0 c))"

definition unlock_end :: "critical_section \<Rightarrow> critical_section" where
  "unlock_end c = c\<lparr>m_srwlock := False\<rparr>"

definition util_unlock :: "u64 \<Rightarrow> critical_section \<Rightarrow> critical_section outcome" where
  "util_unlock thread_id c = and_then (unlock_begin thread_id c) (\<lambda>c. Inr (unlock_end c))"

definition try_acquire :: "critical_section \<Rightarrow> bool \<times> critical_section" where
  "try_acquire c = (\<not> m_srwlock c, c\<lparr>m_srwlock := True\<rparr>)"

definition util_try_lock :: "u64 \<Rightarrow> critical_section \<Rightarrow> bool \<times> critical_section" where
  "util_try_lock thread_id c =
    (let (result, c) = try_acquire c in (result, if result then SetId thread_id c else c))"

section \<open>ConditionVariable\<close>

text \<open>\<open>Wait\<close> up to the sleep, and after it: the sleep has taken the slim lock again.\<close>

definition cond_wait_begin :: "critical_section \<Rightarrow> u64 \<times> critical_section" where
  "cond_wait_begin c = (let (thread_id, c) = UnsetId c in (thread_id, c\<lparr>m_srwlock := False\<rparr>))"

definition cond_wait_end :: "u64 \<Rightarrow> critical_section \<Rightarrow> critical_section option" where
  "cond_wait_end thread_id c = (if m_srwlock c then None else Some (SetId thread_id (c\<lparr>m_srwlock := True\<rparr>)))"

section \<open>Threads that use one critical section\<close>

datatype lock_pc = Free_running | Locking | Holding | Unlocking | Sleeping u64

record lock_machine =
  crit :: critical_section
  where_at :: "u64 \<Rightarrow> lock_pc"

inductive lock_step :: "lock_machine \<Rightarrow> lock_machine \<Rightarrow> bool" where
  acquire: "t \<noteq> 0 \<Longrightarrow> where_at m t = Free_running \<Longrightarrow> lock_acquire t (crit m) = Inr (Some c) \<Longrightarrow>
    lock_step m \<lparr>crit = c, where_at = (where_at m)(t := Locking)\<rparr>"
| set_id: "where_at m t = Locking \<Longrightarrow>
    lock_step m \<lparr>crit = SetId t (crit m), where_at = (where_at m)(t := Holding)\<rparr>"
| try_lock: "t \<noteq> 0 \<Longrightarrow> where_at m t = Free_running \<Longrightarrow> try_acquire (crit m) = (b, c) \<Longrightarrow>
    lock_step m \<lparr>crit = c, where_at = (where_at m)(t := if b then Locking else Free_running)\<rparr>"
| unlock: "where_at m t = Holding \<Longrightarrow> unlock_begin t (crit m) = Inr c \<Longrightarrow>
    lock_step m \<lparr>crit = c, where_at = (where_at m)(t := Unlocking)\<rparr>"
| unlocked: "where_at m t = Unlocking \<Longrightarrow>
    lock_step m \<lparr>crit = unlock_end (crit m), where_at = (where_at m)(t := Free_running)\<rparr>"
| wait: "where_at m t = Holding \<Longrightarrow> cond_wait_begin (crit m) = (i, c) \<Longrightarrow>
    lock_step m \<lparr>crit = c, where_at = (where_at m)(t := Sleeping i)\<rparr>"
| wake: "where_at m t = Sleeping i \<Longrightarrow> cond_wait_end i (crit m) = Some c \<Longrightarrow>
    lock_step m \<lparr>crit = c, where_at = (where_at m)(t := Holding)\<rparr>"

definition lock_start :: lock_machine where
  "lock_start = \<lparr>crit = CriticalSection, where_at = (\<lambda>_. Free_running)\<rparr>"

text \<open>The threads between the slim lock and its release.\<close>

definition owning :: "lock_machine \<Rightarrow> u64 set" where
  "owning m = {t. where_at m t \<in> {Locking, Holding, Unlocking}}"

definition lock_inv :: "lock_machine \<Rightarrow> bool" where
  "lock_inv m \<longleftrightarrow>
    (\<forall>t u. t \<in> owning m \<longrightarrow> u \<in> owning m \<longrightarrow> t = u) \<and>
    (m_srwlock (crit m) \<longleftrightarrow> (\<exists>t. t \<in> owning m)) \<and>
    (\<forall>t. t \<noteq> 0 \<longrightarrow> (m_locked_thread_id (crit m) = t \<longleftrightarrow> where_at m t = Holding)) \<and>
    (\<forall>t i. where_at m t = Sleeping i \<longrightarrow> i = t) \<and> where_at m 0 = Free_running"

lemmas lock_defs = lock_acquire_def unlock_begin_def unlock_end_def try_acquire_def cond_wait_begin_def
  cond_wait_end_def SetId_def UnsetId_def util_IsLockedByCurrentThread_def and_then_Inr_iff

lemma lock_invD:
  assumes "lock_inv m"
  shows "t \<in> owning m \<Longrightarrow> u \<in> owning m \<Longrightarrow> t = u"
    and "m_srwlock (crit m) \<longleftrightarrow> (\<exists>t. t \<in> owning m)"
    and "t \<noteq> 0 \<Longrightarrow> (m_locked_thread_id (crit m) = t \<longleftrightarrow> where_at m t = Holding)"
    and "where_at m t = Sleeping i \<Longrightarrow> i = t"
    and "where_at m 0 = Free_running"
  using assms unfolding lock_inv_def by blast+

lemma owning_update:
  "owning \<lparr>crit = c, where_at = (where_at m)(t := p)\<rparr> =
    (if p \<in> {Locking, Holding, Unlocking} then insert t (owning m) else owning m - {t})"
  by (auto simp: owning_def)

text \<open>A step of thread \<open>t\<close>: from the outside it needs the slim lock free, from the inside it has it.\<close>

lemma lock_inv_enter:
  assumes "lock_inv m" and "\<not> m_srwlock (crit m)" and "t \<noteq> 0" and "p \<in> {Locking, Holding}"
    and "i = (if p = Holding then t else m_locked_thread_id (crit m))"
  shows "lock_inv \<lparr>crit = \<lparr>m_srwlock = True, m_locked_thread_id = i\<rparr>, where_at = (where_at m)(t := p)\<rparr>"
proof -
  note I = lock_invD [OF assms(1)]
  have none: "owning m = {}" using I(2) assms(2) by auto
  have nh: "where_at m u \<noteq> Holding" for u using none by (auto simp: owning_def)
  show ?thesis
    unfolding lock_inv_def owning_update
    using none nh I(3-5) assms(3-5) by (auto split: if_splits)
qed

lemma lock_inv_move:
  assumes "lock_inv m" and "where_at m t \<in> {Locking, Holding, Unlocking}" and "p \<in> {Holding, Unlocking}"
    and "i = (if p = Holding then t else 0)"
  shows "lock_inv \<lparr>crit = (crit m)\<lparr>m_locked_thread_id := i\<rparr>, where_at = (where_at m)(t := p)\<rparr>"
proof -
  note I = lock_invD [OF assms(1)]
  have t: "t \<in> owning m" "t \<noteq> 0" using assms(2) I(5) by (auto simp: owning_def)
  then have own: "owning m = {t}" using I(1) by blast
  have nh: "where_at m u \<noteq> Holding" if "u \<noteq> t" for u using that own by (auto simp: owning_def)
  show ?thesis
    unfolding lock_inv_def owning_update
    using own t nh I(2,4,5) assms(3,4) by (auto split: if_splits)
qed

lemma lock_inv_exit:
  assumes "lock_inv m" and "where_at m t \<in> {Holding, Unlocking}" and "p = Free_running \<or> p = Sleeping t"
    and "i = 0 \<or> where_at m t = Unlocking \<and> i = m_locked_thread_id (crit m)"
  shows "lock_inv \<lparr>crit = \<lparr>m_srwlock = False, m_locked_thread_id = i\<rparr>, where_at = (where_at m)(t := p)\<rparr>"
proof -
  note I = lock_invD [OF assms(1)]
  have t: "t \<in> owning m" "t \<noteq> 0" using assms(2) I(5) by (auto simp: owning_def)
  then have own: "owning m = {t}" using I(1) by blast
  have nh: "where_at m u \<noteq> Holding" if "u \<noteq> t" for u using that own by (auto simp: owning_def)
  have "m_locked_thread_id (crit m) = 0" if "where_at m t = Unlocking"
    using I(3) [of "m_locked_thread_id (crit m)"] nh [of "m_locked_thread_id (crit m)"] that by force
  then have "i = 0" using assms(4) by blast
  then show ?thesis
    unfolding lock_inv_def owning_update
    using own t nh I(4,5) assms(3) by (auto split: if_splits)
qed

lemma lock_step_inv:
  assumes "lock_inv m" and "lock_step m m'"
  shows "lock_inv m'"
  using assms(2)
proof cases
  case (acquire t c)
  then show ?thesis
    using lock_inv_enter [OF assms(1), of t Locking] by (cases "crit m") (auto simp: lock_defs split: if_splits)
next
  case (set_id t)
  then show ?thesis using lock_inv_move [OF assms(1), of t Holding t] by (simp add: lock_defs)
next
  case (try_lock t b c)
  show ?thesis
  proof (cases "m_srwlock (crit m)")
    case True
    then have "c = crit m" "\<not> b" using try_lock by (auto simp: lock_defs)
    moreover have "(where_at m)(t := Free_running) = where_at m" using try_lock by (simp add: fun_upd_idem)
    ultimately show ?thesis using assms(1) try_lock(1) by (cases m) (simp add: lock_inv_def owning_def)
  next
    case False
    then show ?thesis
      using try_lock lock_inv_enter [OF assms(1), of t Locking] by (cases "crit m") (auto simp: lock_defs)
  qed
next
  case (unlock t c)
  then show ?thesis using lock_inv_move [OF assms(1), of t Unlocking 0] by (simp add: lock_defs)
next
  case (unlocked t)
  then show ?thesis
    using lock_inv_exit [OF assms(1), of t Free_running "m_locked_thread_id (crit m)"]
    by (cases "crit m") (simp add: lock_defs)
next
  case (wait t i c)
  have "t \<noteq> 0" using wait(2) lock_invD(5) [OF assms(1)] by auto
  then have "i = t" using wait lock_invD(3) [OF assms(1), of t] by (auto simp: lock_defs)
  then show ?thesis
    using wait lock_inv_exit [OF assms(1), of t "Sleeping t" 0] by (cases "crit m") (auto simp: lock_defs)
next
  case (wake t i c)
  have "i = t" using wake(2) lock_invD(4) [OF assms(1)] by blast
  moreover have "t \<noteq> 0" using wake(2) lock_invD(5) [OF assms(1)] by auto
  ultimately show ?thesis
    using wake lock_inv_enter [OF assms(1), of t Holding t] by (cases "crit m") (auto simp: lock_defs split: if_splits)
qed

interpretation util_cs: one_owner "\<lambda>m. m = lock_start" lock_step lock_inv "\<lambda>m t. t \<in> owning m"
proof unfold_locales
  show "m = lock_start \<Longrightarrow> lock_inv m" for m
    by (auto simp: lock_inv_def lock_start_def CriticalSection_def owning_def)
qed (auto intro: lock_step_inv lock_invD(1))

section \<open>Properties\<close>

text \<open>
  C22. Exclusion and ownership: in every state that any number of threads can reach by locking, trying
  to lock, unlocking and waiting, at most one holds the critical section, and
  \<open>IsLockedByCurrentThread\<close> answers true exactly for that thread.
\<close>

theorem util_lock_exclusion:
  assumes "lock_step\<^sup>*\<^sup>* lock_start m" and "t \<noteq> 0"
  shows "(util_IsLockedByCurrentThread t (crit m) \<longleftrightarrow> where_at m t = Holding) \<and>
    (\<exists>u. {t. where_at m t = Holding} \<subseteq> {u})"
proof -
  have "\<exists>u. {t. where_at m t = Holding} \<subseteq> {u}" using util_cs.run_owner [OF refl assms(1)] by (force simp: owning_def)
  then show ?thesis
    using lock_invD(3) [OF util_cs.run_inv [OF refl assms(1)] assms(2)] by (auto simp: util_IsLockedByCurrentThread_def)
qed

lemma lock_once:
  "lock_step\<^sup>*\<^sup>* lock_start \<lparr>crit = \<lparr>m_srwlock = True, m_locked_thread_id = 7\<rparr>,
    where_at = (\<lambda>_. Free_running)(7 := Holding)\<rparr>"
proof -
  let ?m = "\<lparr>crit = \<lparr>m_srwlock = True, m_locked_thread_id = 0\<rparr>, where_at = (where_at lock_start)(7 := Locking)\<rparr>"
  have "lock_step lock_start ?m"
    by (rule acquire) (simp_all add: lock_defs lock_start_def CriticalSection_def)
  moreover have "lock_step ?m \<lparr>crit = SetId 7 (crit ?m), where_at = (where_at ?m)(7 := Holding)\<rparr>"
    by (rule set_id) simp
  ultimately show ?thesis by (auto simp: SetId_def lock_start_def intro: rtranclp_trans)
qed

theorem util_lock_exclusion_witness:
  "\<exists>m. lock_step\<^sup>*\<^sup>* lock_start m \<and> (util_IsLockedByCurrentThread 7 (crit m) \<longleftrightarrow> where_at m 7 = Holding) \<and>
    (\<exists>u. {t. where_at m t = Holding} \<subseteq> {u}) \<and> where_at m 7 = Holding"
  using util_lock_exclusion [OF lock_once, of 7] lock_once by fastforce

end
