(* ===== verification/Intrusive_Tree.thy ===== *)
theory Intrusive_Tree
  imports DD_Prelude
begin

text \<open>
  The intrusive tree of \<open>util_intrusivetreenode.hpp\<close>. As for the lists, the nodes live in memory
  and the model keeps their four pointers as functions: parent, first child, next and previous
  sibling. The siblings of a node are chained from the first child by \<open>m_sibling_next\<close>; the
  \<open>m_sibling_prev\<close> of the first child is the last one.

  The abstraction of the pointers is the function that gives the list of children of every node;
  each operation is shown to be the evident operation on these lists.
\<close>

record 'n tree_links =
  m_parent :: "'n \<Rightarrow> 'n option"
  m_child :: "'n \<Rightarrow> 'n option"
  m_sibling_next :: "'n \<Rightarrow> 'n option"
  m_sibling_prev :: "'n \<Rightarrow> 'n option"

definition set_parent :: "'n \<Rightarrow> 'n option \<Rightarrow> 'n tree_links \<Rightarrow> 'n tree_links" where
  "set_parent n v t = t\<lparr>m_parent := (m_parent t)(n := v)\<rparr>"

definition set_child :: "'n \<Rightarrow> 'n option \<Rightarrow> 'n tree_links \<Rightarrow> 'n tree_links" where
  "set_child n v t = t\<lparr>m_child := (m_child t)(n := v)\<rparr>"

definition set_sibling_next :: "'n \<Rightarrow> 'n option \<Rightarrow> 'n tree_links \<Rightarrow> 'n tree_links" where
  "set_sibling_next n v t = t\<lparr>m_sibling_next := (m_sibling_next t)(n := v)\<rparr>"

definition set_sibling_prev :: "'n \<Rightarrow> 'n option \<Rightarrow> 'n tree_links \<Rightarrow> 'n tree_links" where
  "set_sibling_prev n v t = t\<lparr>m_sibling_prev := (m_sibling_prev t)(n := v)\<rparr>"

lemmas link_defs = set_parent_def set_child_def set_sibling_next_def set_sibling_prev_def

section \<open>Operations\<close>

text \<open>The constructor and \<open>Clear\<close> set the same fields.\<close>

definition Clear_node :: "'n \<Rightarrow> 'n tree_links \<Rightarrow> 'n tree_links" where
  "Clear_node this t = set_sibling_prev this None (set_sibling_next this None (set_child this None (set_parent this None t)))"

definition IntrusiveTreeNode :: "'n \<Rightarrow> 'n tree_links \<Rightarrow> 'n tree_links" where
  "IntrusiveTreeNode this t = Clear_node this t"

text \<open>
  \<open>DetachSubTree\<close>: the two outcomes of its first test, then the two fields it clears in any case.
\<close>

definition detach_other :: "'n \<Rightarrow> 'n tree_links \<Rightarrow> 'n tree_links outcome" where
  "detach_other this t =
    (let t = (case m_sibling_prev t this of None \<Rightarrow> t | Some q \<Rightarrow> set_sibling_next q (m_sibling_next t this) t) in
     case m_sibling_next t this of
       None \<Rightarrow> (case m_parent t this of None \<Rightarrow> Inr t
         | Some p \<Rightarrow> and_then (deref (m_child t p)) (\<lambda>first. Inr (set_sibling_prev first (m_sibling_prev t this) t)))
     | Some q \<Rightarrow> Inr (set_sibling_next this None (set_sibling_prev q (m_sibling_prev t this) t)))"

definition detach_first :: "'n \<Rightarrow> 'n \<Rightarrow> 'n tree_links \<Rightarrow> 'n tree_links" where
  "detach_first this p t =
    (let t = set_child p (m_sibling_next t this) t in
     case m_sibling_next t this of None \<Rightarrow> t
     | Some q \<Rightarrow> set_sibling_next this None (set_sibling_prev q (m_sibling_prev t this) t))"

definition DetachSubTree :: "'n \<Rightarrow> 'n tree_links \<Rightarrow> 'n tree_links outcome" where
  "DetachSubTree this t =
    and_then (case m_parent t this of
        None \<Rightarrow> detach_other this t
      | Some p \<Rightarrow> if m_child t p \<noteq> Some this then detach_other this t else Inr (detach_first this p t)) (\<lambda>t.
    Inr (set_parent this None (set_sibling_prev this None t)))"

text \<open>
  \<open>ClearChildrenRecursive\<close>: \<open>iter\<close> moves on, but what is cleared is \<open>m_child\<close> each time. The fuel bounds
  the depth and the number of siblings together.
\<close>

fun clear_children :: "nat \<Rightarrow> 'n \<Rightarrow> 'n option \<Rightarrow> 'n tree_links \<Rightarrow> 'n tree_links outcome" where
  "clear_children fuel this None t = Inr t"
| "clear_children 0 this (Some iter) t = Inl Diverges"
| "clear_children (Suc fuel) this (Some iter) t =
    (let next = m_sibling_next t iter in
     and_then (deref (m_child t this)) (\<lambda>c.
     and_then (clear_children fuel c (m_child t c) t) (\<lambda>t.
     and_then (deref (m_child t this)) (\<lambda>c.
     clear_children fuel this next (Clear_node c t)))))"

definition ClearChildrenRecursive :: "nat \<Rightarrow> 'n \<Rightarrow> 'n tree_links \<Rightarrow> 'n tree_links outcome" where
  "ClearChildrenRecursive fuel this t = clear_children fuel this (m_child t this) t"

definition DetachAll :: "nat \<Rightarrow> 'n \<Rightarrow> 'n tree_links \<Rightarrow> 'n tree_links outcome" where
  "DetachAll fuel this t =
    and_then (DetachSubTree this t) (\<lambda>t.
    and_then (ClearChildrenRecursive fuel this t) (\<lambda>t. Inr (Clear_node this t)))"

text \<open>A node that becomes the only child of \<open>this\<close>.\<close>

definition only_child :: "'n \<Rightarrow> 'n \<Rightarrow> 'n tree_links \<Rightarrow> 'n tree_links" where
  "only_child this c t = set_sibling_prev c (Some c) (set_parent c (Some this) (set_child this (Some c) t))"

definition PushBackChild_node :: "'n \<Rightarrow> 'n \<Rightarrow> 'n tree_links \<Rightarrow> 'n tree_links outcome" where
  "PushBackChild_node this new_child t =
    and_then (DetachSubTree new_child t) (\<lambda>t.
    case m_child t this of None \<Rightarrow> Inr (only_child this new_child t)
    | Some first \<Rightarrow>
        and_then (deref (m_sibling_prev t first)) (\<lambda>sibling_end.
        let t = set_sibling_next sibling_end (Some new_child) t;
            t = set_sibling_prev new_child (Some sibling_end) t;
            t = set_parent new_child (m_parent t sibling_end) t in
        and_then (deref (m_child t this)) (\<lambda>first. Inr (set_sibling_prev first (Some new_child) t))))"

definition PushFrontChild :: "'n \<Rightarrow> 'n \<Rightarrow> 'n tree_links \<Rightarrow> 'n tree_links outcome" where
  "PushFrontChild this new_child t =
    and_then (DetachSubTree new_child t) (\<lambda>t.
    case m_child t this of None \<Rightarrow> Inr (only_child this new_child t)
    | Some first \<Rightarrow>
        let t = set_sibling_next new_child (Some first) t;
            t = set_sibling_prev new_child (m_sibling_prev t first) t;
            t = set_sibling_prev first (Some new_child) t;
            t = set_child this (Some new_child) t in
        Inr (set_parent new_child (Some this) t))"

fun last_sibling :: "nat \<Rightarrow> 'n \<Rightarrow> 'n tree_links \<Rightarrow> 'n outcome" where
  "last_sibling 0 n t = Inl Diverges"
| "last_sibling (Suc fuel) n t = (case m_sibling_next t n of None \<Rightarrow> Inr n | Some q \<Rightarrow> last_sibling fuel q t)"

definition PushBackSibling :: "nat \<Rightarrow> 'n \<Rightarrow> 'n \<Rightarrow> 'n tree_links \<Rightarrow> 'n tree_links outcome" where
  "PushBackSibling fuel this new_sibling t =
    and_then (DetachSubTree new_sibling t) (\<lambda>t.
    and_then (case Option.bind (m_parent t this) (m_child t) of
        Some first \<Rightarrow> and_then (deref (m_sibling_prev t first)) (\<lambda>q. Inr (q, set_sibling_prev first (Some new_sibling) t))
      | None \<Rightarrow> and_then (last_sibling fuel this t) (\<lambda>q. Inr (q, t))) (\<lambda>(sibling_list_end, t).
    let t = set_sibling_next sibling_list_end (Some new_sibling) t;
        t = set_sibling_prev new_sibling (Some sibling_list_end) t in
    Inr (set_parent new_sibling (m_parent t sibling_list_end) t)))"

fun FindRoot :: "nat \<Rightarrow> 'n \<Rightarrow> 'n tree_links \<Rightarrow> 'n outcome" where
  "FindRoot 0 this t = Inl Diverges"
| "FindRoot (Suc fuel) this t = (case m_parent t this of None \<Rightarrow> Inr this | Some p \<Rightarrow> FindRoot fuel p t)"

section \<open>The lists of children\<close>

definition kids_ok :: "'n tree_links \<Rightarrow> 'n \<Rightarrow> 'n list \<Rightarrow> bool" where
  "kids_ok t p xs \<longleftrightarrow> distinct xs \<and> m_child t p = (if xs = [] then None else Some (hd xs)) \<and>
    (\<forall>i<length xs. m_parent t (xs ! i) = Some p \<and>
      m_sibling_next t (xs ! i) = (if Suc i < length xs then Some (xs ! Suc i) else None) \<and>
      m_sibling_prev t (xs ! i) = Some (if i = 0 then last xs else xs ! (i - 1)))"

definition forest :: "'n tree_links \<Rightarrow> ('n \<Rightarrow> 'n list) \<Rightarrow> bool" where
  "forest t K \<longleftrightarrow> (\<forall>p. kids_ok t p (K p)) \<and> (\<forall>c p. m_parent t c = Some p \<longrightarrow> c \<in> set (K p)) \<and>
    (\<forall>c. m_parent t c = None \<longrightarrow> m_sibling_next t c = None \<and> m_sibling_prev t c = None)"

lemma kids_parent: "kids_ok t p xs \<Longrightarrow> c \<in> set xs \<Longrightarrow> m_parent t c = Some p"
  by (auto simp: kids_ok_def in_set_conv_nth)

lemma forest_parent: "forest t K \<Longrightarrow> m_parent t c = Some p \<longleftrightarrow> c \<in> set (K p)"
  using kids_parent by (fastforce simp: forest_def)

lemma forest_disjoint: "forest t K \<Longrightarrow> c \<in> set (K p) \<Longrightarrow> c \<in> set (K q) \<Longrightarrow> p = q"
  using forest_parent [of t K c] by (metis option.inject)

text \<open>Two states that agree on the nodes of a list of children.\<close>

lemma kids_ok_cong:
  assumes "kids_ok t p xs" and "m_child t' p = m_child t p"
    and "\<And>c. c \<in> set xs \<Longrightarrow> m_parent t' c = m_parent t c \<and> m_sibling_next t' c = m_sibling_next t c \<and>
      m_sibling_prev t' c = m_sibling_prev t c"
  shows "kids_ok t' p xs"
  using assms by (simp add: kids_ok_def)

text \<open>The same for a list that is cut in two: what the fields of a node are.\<close>

lemma kids_ok_split:
  assumes "kids_ok t p (us @ c # vs)"
  shows "m_parent t c = Some p" "m_sibling_next t c = (if vs = [] then None else Some (hd vs))"
    "m_sibling_prev t c = Some (if us = [] then last (c # vs) else last us)"
    "m_child t p = Some (hd (us @ [c]))"
proof -
  let ?i = "length us"
  have "?i < length (us @ c # vs)" by simp
  then have f: "m_parent t ((us @ c # vs) ! ?i) = Some p"
      "m_sibling_next t ((us @ c # vs) ! ?i) = (if Suc ?i < length (us @ c # vs) then Some ((us @ c # vs) ! Suc ?i) else None)"
      "m_sibling_prev t ((us @ c # vs) ! ?i) = Some (if ?i = 0 then last (us @ c # vs) else (us @ c # vs) ! (?i - 1))"
    using assms unfolding kids_ok_def by blast+
  show "m_parent t c = Some p" using f(1) by simp
  show "m_sibling_next t c = (if vs = [] then None else Some (hd vs))"
    using f(2) by (auto simp: nth_append hd_conv_nth)
  show "m_sibling_prev t c = Some (if us = [] then last (c # vs) else last us)"
    using f(3) by (auto simp: nth_append last_conv_nth)
  show "m_child t p = Some (hd (us @ [c]))" using assms by (cases us) (simp_all add: kids_ok_def)
qed

lemma kids_okI:
  assumes "distinct xs" and "m_child t p = (if xs = [] then None else Some (hd xs))"
    and "\<And>us c vs. xs = us @ c # vs \<Longrightarrow> m_parent t c = Some p \<and>
      m_sibling_next t c = (if vs = [] then None else Some (hd vs)) \<and>
      m_sibling_prev t c = Some (if us = [] then last (c # vs) else last us)"
  shows "kids_ok t p xs"
  unfolding kids_ok_def
proof (intro conjI allI impI)
  fix i assume i: "i < length xs"
  have e: "xs = take i xs @ xs ! i # drop (Suc i) xs" by (rule id_take_nth_drop [OF i])
  have "drop (Suc i) xs \<noteq> [] \<Longrightarrow> hd (drop (Suc i) xs) = xs ! Suc i" by (simp add: hd_drop_conv_nth)
  moreover have "drop (Suc i) xs = [] \<longleftrightarrow> \<not> Suc i < length xs" by auto
  moreover have "take i xs = [] \<longleftrightarrow> i = 0" using i by auto
  moreover have "i \<noteq> 0 \<Longrightarrow> last (take i xs) = xs ! (i - 1)"
    using i by (cases "take i xs = []") (auto simp: last_conv_nth)
  moreover have "i = 0 \<Longrightarrow> last (xs ! i # drop (Suc i) xs) = last xs" using e by (metis append_Nil take0)
  ultimately show "m_parent t (xs ! i) = Some p"
      "m_sibling_next t (xs ! i) = (if Suc i < length xs then Some (xs ! Suc i) else None)"
      "m_sibling_prev t (xs ! i) = Some (if i = 0 then last xs else xs ! (i - 1))"
    using assms(3) [OF e] by auto
qed (rule assms(1,2))+

lemma forest_kids: "forest t K \<Longrightarrow> kids_ok t p (K p)"
  by (simp add: forest_def)

lemma split_append:
  assumes "us @ vs = ys @ d # zs"
  obtains us' where "us = ys @ d # us'" "zs = us' @ vs" | vs' where "vs = vs' @ d # zs" "ys = us @ vs'"
  using assms by (auto simp: append_eq_append_conv2 append_eq_Cons_conv)

lemma detach_first_kids:
  assumes k: "kids_ok t p (c # vs)" and t': "DetachSubTree c t = Inr t'"
  shows "kids_ok t' p vs"
proof (rule kids_okI)
  have f: "m_parent t c = Some p" "m_sibling_next t c = (if vs = [] then None else Some (hd vs))"
      "m_sibling_prev t c = Some (last (c # vs))" "m_child t p = Some c"
    using kids_ok_split [of t p "[]" c vs] k by simp_all
  have d: "distinct (c # vs)" using k by (simp add: kids_ok_def)
  show "distinct vs" using d by simp
  show "m_child t' p = (if vs = [] then None else Some (hd vs))"
    using t' f by (auto simp: DetachSubTree_def detach_first_def Let_def link_defs split: if_splits)
  fix ys e zs assume vs: "vs = ys @ e # zs"
  then have g: "m_parent t e = Some p" "m_sibling_next t e = (if zs = [] then None else Some (hd zs))"
      "m_sibling_prev t e = Some (last (c # ys))"
    using kids_ok_split [of t p "c # ys" e zs] k by simp_all
  have "c \<noteq> e" using d vs by auto
  moreover have "e = hd vs \<longleftrightarrow> ys = []" using vs d by (cases ys) auto
  ultimately show "m_parent t' e = Some p \<and> m_sibling_next t' e = (if zs = [] then None else Some (hd zs)) \<and>
      m_sibling_prev t' e = Some (if ys = [] then last (e # zs) else last ys)"
    using t' f g vs by (auto simp: DetachSubTree_def detach_first_def Let_def link_defs split: if_splits)
qed

lemma detach_other_kids:
  assumes k: "kids_ok t p (us @ c # vs)" and us: "us \<noteq> []" and t': "DetachSubTree c t = Inr t'"
  shows "kids_ok t' p (us @ vs)"
proof (rule kids_okI)
  have f: "m_parent t c = Some p" "m_sibling_next t c = (if vs = [] then None else Some (hd vs))"
      "m_sibling_prev t c = Some (last us)" "m_child t p = Some (hd us)"
    using kids_ok_split [OF k] us by simp_all
  have d: "distinct (us @ c # vs)" using k by (simp add: kids_ok_def)
  then have n: "hd us \<noteq> c" "last us \<noteq> c" using us by auto
  have e: "t' = set_parent c None (set_sibling_prev c None (if vs = []
      then set_sibling_prev (hd us) (Some (last us)) (set_sibling_next (last us) None t)
      else set_sibling_next c None (set_sibling_prev (hd vs) (Some (last us)) (set_sibling_next (last us) (Some (hd vs)) t))))"
    using t' f n by (simp add: DetachSubTree_def detach_other_def link_defs split: if_splits)
  have pa: "m_parent t' x = (if x = c then None else m_parent t x)" for x by (simp add: e link_defs)
  have nx: "x \<noteq> c \<Longrightarrow> m_sibling_next t' x = (if x = last us then if vs = [] then None else Some (hd vs) else m_sibling_next t x)" for x
    by (simp add: e link_defs)
  have pv: "x \<noteq> c \<Longrightarrow> m_sibling_prev t' x = (if x = (if vs = [] then hd us else hd vs) then Some (last us) else m_sibling_prev t x)" for x
    by (simp add: e link_defs)
  show "distinct (us @ vs)" using d by simp
  show "m_child t' p = (if us @ vs = [] then None else Some (hd (us @ vs)))"
    using f(4) us by (simp add: e link_defs)
  fix ys x zs assume xs: "us @ vs = ys @ x # zs"
  show "m_parent t' x = Some p \<and> m_sibling_next t' x = (if zs = [] then None else Some (hd zs)) \<and>
      m_sibling_prev t' x = Some (if ys = [] then last (x # zs) else last ys)"
    using xs
  proof (cases rule: split_append)
    case (1 us')
    have k': "kids_ok t p (ys @ x # us' @ c # vs)" using k 1 by simp
    note g = kids_ok_split [OF k']
    have x: "x \<noteq> c" "vs \<noteq> [] \<Longrightarrow> x \<noteq> hd vs" using d 1 by auto
    have l: "x = last us \<longleftrightarrow> us' = []" using 1 d by (cases us' rule: rev_cases) auto
    have h: "x = hd us \<longleftrightarrow> ys = []" using 1 d by (cases ys) auto
    have "m_sibling_next t' x = (if zs = [] then None else Some (hd zs))"
      using nx [OF x(1)] g(2) l 1(2) by (cases us') simp_all
    moreover have "m_sibling_prev t' x = Some (if ys = [] then last (x # zs) else last ys)"
      using pv [OF x(1)] g(3) x(2) h 1 by (cases "vs = []") simp_all
    ultimately show ?thesis using pa [of x] x(1) g(1) by simp
  next
    case (2 vs')
    have k': "kids_ok t p ((us @ c # vs') @ x # zs)" using k 2 by simp
    note g = kids_ok_split [OF k']
    have x: "x \<noteq> c" "x \<noteq> last us" "vs \<noteq> []" using d 2 us by auto
    have h: "x = hd vs \<longleftrightarrow> vs' = []" using 2 d by (cases vs') auto
    have "m_sibling_next t' x = (if zs = [] then None else Some (hd zs))"
      using nx [OF x(1)] g(2) x(2) by simp
    moreover have "m_sibling_prev t' x = Some (if ys = [] then last (x # zs) else last ys)"
      using pv [OF x(1)] g(3) x(3) h 2(2) us by simp
    ultimately show ?thesis using pa [of x] x(1) g(1) by simp
  qed
qed

text \<open>What detaching leaves alone: every field of a node outside the list, and the first child of
  every other node.\<close>

lemma detach_total:
  assumes "forest t K"
  shows "\<exists>t'. DetachSubTree c t = Inr t' \<and> m_parent t' c = None \<and> m_sibling_next t' c = None \<and> m_sibling_prev t' c = None \<and>
    (\<forall>p. m_parent t c \<noteq> Some p \<longrightarrow> m_child t' p = m_child t p) \<and>
    (\<forall>d. d \<noteq> c \<longrightarrow> m_parent t' d = m_parent t d) \<and>
    (\<forall>d. m_parent t d \<noteq> m_parent t c \<or> m_parent t d = None \<longrightarrow>
      m_sibling_next t' d = m_sibling_next t d \<and> m_sibling_prev t' d = m_sibling_prev t d)"
proof (cases "m_parent t c")
  case None
  then have "m_sibling_next t c = None" "m_sibling_prev t c = None" using assms by (auto simp: forest_def)
  then show ?thesis using None by (auto simp: DetachSubTree_def detach_other_def link_defs)
next
  case (Some p)
  then have "c \<in> set (K p)" using forest_parent [OF assms] by blast
  then obtain us vs where K: "K p = us @ c # vs" by (auto simp: in_set_conv_decomp)
  have k: "kids_ok t p (us @ c # vs)" using forest_kids [OF assms, of p] K by simp
  note f = kids_ok_split [OF k]
  have par: "d \<in> set (us @ c # vs) \<Longrightarrow> m_parent t d = Some p" for d using kids_parent [OF k] by blast
  have d: "distinct (us @ c # vs)" using k by (simp add: kids_ok_def)
  show ?thesis
  proof (cases "us = []")
    case True
    then show ?thesis
      using f par [of "hd vs"] par [of c]
      by (cases "vs = []") (auto simp: DetachSubTree_def detach_first_def Let_def link_defs)
  next
    case False
    then have "hd us \<noteq> c" "last us \<noteq> c" using d by auto
    then show ?thesis
      using f False par [of "hd vs"] par [of "last us"] par [of "hd us"] par [of c]
      by (cases "vs = []") (auto simp: DetachSubTree_def detach_other_def Let_def link_defs)
  qed
qed

lemma detach_forest:
  assumes "forest t K"
  shows "\<exists>t'. DetachSubTree c t = Inr t' \<and> forest t' (\<lambda>p. remove1 c (K p)) \<and> m_parent t' c = None"
proof -
  obtain t' where t': "DetachSubTree c t = Inr t'" "m_parent t' c = None" "m_sibling_next t' c = None" "m_sibling_prev t' c = None"
    and ch: "\<And>p. m_parent t c \<noteq> Some p \<Longrightarrow> m_child t' p = m_child t p"
    and pa: "\<And>d. d \<noteq> c \<Longrightarrow> m_parent t' d = m_parent t d"
    and si: "\<And>d. m_parent t d \<noteq> m_parent t c \<or> m_parent t d = None \<Longrightarrow>
      m_sibling_next t' d = m_sibling_next t d \<and> m_sibling_prev t' d = m_sibling_prev t d"
    using detach_total [OF assms, of c] by blast
  have kids: "kids_ok t' p (remove1 c (K p))" for p
  proof (cases "m_parent t c = Some p")
    case True
    then have "c \<in> set (K p)" using forest_parent [OF assms] by blast
    then obtain us vs where K: "K p = us @ c # vs" "c \<notin> set us" by (metis split_list_first)
    have k: "kids_ok t p (us @ c # vs)" using forest_kids [OF assms, of p] K by simp
    show ?thesis
      using detach_first_kids [OF _ t'(1), of p vs] detach_other_kids [OF k _ t'(1)] k K
      by (cases "us = []") (simp_all add: remove1_append)
  next
    case False
    then have "c \<notin> set (K p)" using forest_parent [OF assms] by blast
    moreover have "kids_ok t' p (K p)"
    proof (rule kids_ok_cong)
      show "kids_ok t p (K p)" using assms by (simp add: forest_def)
      fix d assume "d \<in> set (K p)"
      then have "m_parent t d = Some p" "d \<noteq> c" using forest_parent [OF assms] calculation by blast+
      then show "m_parent t' d = m_parent t d \<and> m_sibling_next t' d = m_sibling_next t d \<and>
          m_sibling_prev t' d = m_sibling_prev t d"
        using pa si False by auto
    qed (rule ch [OF False])
    ultimately show ?thesis by (simp add: remove1_idem)
  qed
  have "d \<in> set (remove1 c (K p))" if "m_parent t' d = Some p" for d p
    using that pa [of d] t'(2) forest_parent [OF assms, of d p] by (cases "d = c") auto
  moreover have "m_sibling_next t' d = None \<and> m_sibling_prev t' d = None" if "m_parent t' d = None" for d
    using that pa [of d] si [of d] t'(3,4) assms by (cases "d = c") (auto simp: forest_def)
  ultimately have "forest t' (\<lambda>p. remove1 c (K p))" using kids by (simp add: forest_def)
  with t' show ?thesis by blast
qed

text \<open>Inserting a detached node into one list.\<close>

lemma forest_insert:
  assumes f: "forest t K" and c: "m_parent t c = None" and k: "kids_ok t' p xs" "set xs = insert c (set (K p))"
    and ch: "\<And>q. q \<noteq> p \<Longrightarrow> m_child t' q = m_child t q"
    and pa: "\<And>d. m_parent t' d = (if d = c then Some p else m_parent t d)"
    and si: "\<And>d. d \<notin> set xs \<Longrightarrow> m_sibling_next t' d = m_sibling_next t d \<and> m_sibling_prev t' d = m_sibling_prev t d"
  shows "forest t' (K(p := xs))"
proof -
  have "kids_ok t' q ((K(p := xs)) q)" for q
  proof (cases "q = p")
    case False
    have "kids_ok t' q (K q)"
    proof (rule kids_ok_cong [OF forest_kids [OF f] ch [OF False]])
      fix d assume d: "d \<in> set (K q)"
      then have "m_parent t d = Some q" using forest_parent [OF f] by blast
      then have "d \<noteq> c" "d \<notin> set xs" using c k(2) False forest_parent [OF f, of d p] by auto
      then show "m_parent t' d = m_parent t d \<and> m_sibling_next t' d = m_sibling_next t d \<and>
          m_sibling_prev t' d = m_sibling_prev t d"
        using pa si by simp
    qed
    with False show ?thesis by simp
  qed (use k(1) in simp)
  moreover have "d \<in> set ((K(p := xs)) q)" if "m_parent t' d = Some q" for d q
    using that pa [of d] k(2) forest_parent [OF f, of d q] by (cases "d = c") auto
  moreover have "m_sibling_next t' d = None \<and> m_sibling_prev t' d = None" if "m_parent t' d = None" for d
  proof -
    have "d \<noteq> c" "m_parent t d = None" using that pa [of d] by (auto split: if_splits)
    moreover have "d \<notin> set xs" using kids_parent [OF k(1), of d] that by auto
    ultimately show ?thesis using si f by (simp add: forest_def)
  qed
  ultimately show ?thesis by (simp add: forest_def)
qed

lemma detached_kids: "forest t K \<Longrightarrow> m_parent t c = None \<Longrightarrow> c \<notin> set (K p)"
  using forest_parent [of t K c p] by auto

lemma only_child_forest:
  assumes f: "forest t K" and c: "m_parent t c = None" and e: "K p = []"
  shows "forest (only_child p c t) (K(p := [c]))"
proof (rule forest_insert [OF f c])
  have "m_sibling_next t c = None" using f c by (simp add: forest_def)
  then show "kids_ok (only_child p c t) p [c]" by (simp add: kids_ok_def only_child_def link_defs)
qed (simp_all add: e only_child_def link_defs)

lemma append_kids:
  assumes k: "kids_ok t p xs" and c: "c \<notin> set xs" and n: "xs \<noteq> []" "m_sibling_next t c = None"
  defines "t' \<equiv> set_sibling_prev (hd xs) (Some c) (set_parent c (Some p) (set_sibling_prev c (Some (last xs)) (set_sibling_next (last xs) (Some c) t)))"
  shows "kids_ok t' p (xs @ [c])"
proof (rule kids_okI)
  have d: "distinct xs" "m_child t p = Some (hd xs)" using k n by (simp_all add: kids_ok_def)
  have ne: "hd xs \<noteq> c" "last xs \<noteq> c" using c n by auto
  show "distinct (xs @ [c])" using d c by simp
  show "m_child t' p = (if xs @ [c] = [] then None else Some (hd (xs @ [c])))"
    using d(2) n by (simp add: t'_def link_defs)
  fix ys x zs assume "xs @ [c] = ys @ x # zs"
  then show "m_parent t' x = Some p \<and> m_sibling_next t' x = (if zs = [] then None else Some (hd zs)) \<and>
      m_sibling_prev t' x = Some (if ys = [] then last (x # zs) else last ys)"
  proof (cases rule: split_append)
    case (1 us')
    have k': "kids_ok t p (ys @ x # us')" using k 1 by simp
    note g = kids_ok_split [OF k']
    have x: "x \<noteq> c" "x = last xs \<longleftrightarrow> us' = []" "x = hd xs \<longleftrightarrow> ys = []"
      using 1 c d by (auto simp: hd_append split: list.splits)
    then show ?thesis using g 1(2) by (simp add: t'_def link_defs)
  next
    case (2 vs')
    then have "x = c" "zs = []" "ys = xs" by (auto simp: append_eq_Cons_conv Cons_eq_append_conv)
    then show ?thesis using n ne by (simp add: t'_def link_defs)
  qed
qed

lemma prepend_kids:
  assumes k: "kids_ok t p xs" and c: "c \<notin> set xs" and n: "xs \<noteq> []"
  defines "t' \<equiv> set_parent c (Some p) (set_child p (Some c) (set_sibling_prev (hd xs) (Some c)
    (set_sibling_prev c (Some (last xs)) (set_sibling_next c (Some (hd xs)) t))))"
  shows "kids_ok t' p (c # xs)"
proof (rule kids_okI)
  have d: "distinct xs" "m_child t p = Some (hd xs)" using k n by (simp_all add: kids_ok_def)
  have ne: "hd xs \<noteq> c" "last xs \<noteq> c" using c n by auto
  show "distinct (c # xs)" using d c by simp
  show "m_child t' p = (if c # xs = [] then None else Some (hd (c # xs)))" by (simp add: t'_def link_defs)
  fix ys x zs assume e: "c # xs = ys @ x # zs"
  show "m_parent t' x = Some p \<and> m_sibling_next t' x = (if zs = [] then None else Some (hd zs)) \<and>
      m_sibling_prev t' x = Some (if ys = [] then last (x # zs) else last ys)"
  proof (cases ys)
    case Nil
    then show ?thesis using e n ne by (auto simp: t'_def link_defs)
  next
    case (Cons y ys')
    then have xs: "y = c" "xs = ys' @ x # zs" using e by auto
    have k': "kids_ok t p (ys' @ x # zs)" using k xs by simp
    note g = kids_ok_split [OF k']
    have "x \<noteq> c" "x = hd xs \<longleftrightarrow> ys' = []" using c d(1) xs(2) by (cases ys'; auto)+
    then show ?thesis using g xs Cons by (simp add: t'_def link_defs)
  qed
qed

lemma append_forest:
  assumes f: "forest t K" and c: "m_parent t c = None" and n: "K p \<noteq> []"
  shows "forest (set_sibling_prev (hd (K p)) (Some c) (set_parent c (Some p) (set_sibling_prev c (Some (last (K p)))
    (set_sibling_next (last (K p)) (Some c) t)))) (K(p := K p @ [c]))"
proof (rule forest_insert [OF f c])
  have "m_sibling_next t c = None" using f c by (simp add: forest_def)
  then show "kids_ok (set_sibling_prev (hd (K p)) (Some c) (set_parent c (Some p) (set_sibling_prev c (Some (last (K p)))
    (set_sibling_next (last (K p)) (Some c) t)))) p (K p @ [c])"
    by (intro append_kids forest_kids [OF f] detached_kids [OF f c] n)
qed (use n in \<open>auto simp: link_defs\<close>)

lemma prepend_forest:
  assumes f: "forest t K" and c: "m_parent t c = None" and n: "K p \<noteq> []"
  shows "forest (set_parent c (Some p) (set_child p (Some c) (set_sibling_prev (hd (K p)) (Some c)
    (set_sibling_prev c (Some (last (K p))) (set_sibling_next c (Some (hd (K p))) t))))) (K(p := c # K p))"
proof (rule forest_insert [OF f c])
  show "kids_ok (set_parent c (Some p) (set_child p (Some c) (set_sibling_prev (hd (K p)) (Some c)
    (set_sibling_prev c (Some (last (K p))) (set_sibling_next c (Some (hd (K p))) t))))) p (c # K p)"
    by (intro prepend_kids forest_kids [OF f] detached_kids [OF f c] n)
qed (use n in \<open>auto simp: link_defs\<close>)

text \<open>The first child of a node and the last one.\<close>

lemma forest_ends:
  assumes "forest t K" and "K p \<noteq> []"
  shows "m_child t p = Some (hd (K p))" "m_sibling_prev t (hd (K p)) = Some (last (K p))"
    "m_parent t (last (K p)) = Some p"
proof -
  have k: "kids_ok t p (K p)" by (rule forest_kids [OF assms(1)])
  show "m_child t p = Some (hd (K p))" using k assms(2) by (simp add: kids_ok_def)
  show "m_sibling_prev t (hd (K p)) = Some (last (K p))"
    using kids_ok_split(3) [of t p "[]" "hd (K p)" "tl (K p)"] k assms(2) by simp
  show "m_parent t (last (K p)) = Some p" using kids_parent [OF k] assms(2) by simp
qed

lemma forest_leaf: "forest t K \<Longrightarrow> K p = [] \<longleftrightarrow> m_child t p = None"
  using forest_kids [of t K p] by (simp add: kids_ok_def)

section \<open>Properties\<close>

lemma detach_root:
  assumes "forest t K" and "m_parent t c = None"
  shows "DetachSubTree c t = Inr t"
proof -
  have n: "m_sibling_next t c = None" "m_sibling_prev t c = None" using assms by (auto simp: forest_def)
  then have "(m_sibling_prev t)(c := None) = m_sibling_prev t" "(m_parent t)(c := None) = m_parent t"
    using assms(2) by (simp_all add: fun_upd_idem)
  then show ?thesis using assms(2) n by (simp add: DetachSubTree_def detach_other_def link_defs)
qed

lemma push_back_detached:
  assumes f: "forest t K" and c: "m_parent t c = None"
  shows "\<exists>t'. (case m_child t p of None \<Rightarrow> Inr (only_child p c t)
    | Some first \<Rightarrow>
        and_then (deref (m_sibling_prev t first)) (\<lambda>sibling_end.
        let t = set_sibling_next sibling_end (Some c) t;
            t = set_sibling_prev c (Some sibling_end) t;
            t = set_parent c (m_parent t sibling_end) t in
        and_then (deref (m_child t p)) (\<lambda>first. Inr (set_sibling_prev first (Some c) t)))) = Inr t' \<and>
    forest t' (K(p := K p @ [c])) \<and> (\<forall>d. m_parent t' d = (if d = c then Some p else m_parent t d))"
proof (cases "K p = []")
  case True
  then have "m_child t p = None" using forest_leaf [OF f] by simp
  then show ?thesis using only_child_forest [OF f c True] True by (simp add: only_child_def link_defs)
next
  case False
  note e = forest_ends [OF f False]
  show ?thesis using append_forest [OF f c False] e by (simp add: Let_def link_defs)
qed

lemma push_back_child:
  assumes "forest t K"
  shows "\<exists>t'. PushBackChild_node p c t = Inr t' \<and> forest t' ((\<lambda>q. remove1 c (K q))(p := remove1 c (K p) @ [c]))"
proof -
  obtain t1 where t1: "DetachSubTree c t = Inr t1" "forest t1 (\<lambda>p. remove1 c (K p))" "m_parent t1 c = None"
    using detach_forest [OF assms] by blast
  show ?thesis using push_back_detached [OF t1(2,3), of p] t1(1) by (auto simp: PushBackChild_node_def)
qed

lemma push_front_child:
  assumes "forest t K"
  shows "\<exists>t'. PushFrontChild p c t = Inr t' \<and> forest t' ((\<lambda>q. remove1 c (K q))(p := c # remove1 c (K p)))"
proof -
  obtain t1 where t1: "DetachSubTree c t = Inr t1" "forest t1 (\<lambda>p. remove1 c (K p))" "m_parent t1 c = None"
    using detach_forest [OF assms] by blast
  show ?thesis
  proof (cases "remove1 c (K p) = []")
    case True
    then have "m_child t1 p = None" using forest_leaf [OF t1(2), of p] by simp
    then show ?thesis using only_child_forest [OF t1(2,3), of p] True t1(1) by (simp add: PushFrontChild_def)
  next
    case False
    have "hd (remove1 c (K p)) \<noteq> c"
      using detached_kids [OF t1(2,3), of p] False hd_in_set by metis
    then show ?thesis
      using prepend_forest [OF t1(2,3), of p] forest_ends [OF t1(2), of p] False t1(1)
      by (simp add: PushFrontChild_def Let_def link_defs)
  qed
qed

lemma push_back_sibling:
  assumes "forest t K" and "n \<in> set (K p)" and "n \<noteq> c"
  shows "\<exists>t'. PushBackSibling fuel n c t = Inr t' \<and> forest t' ((\<lambda>q. remove1 c (K q))(p := remove1 c (K p) @ [c]))"
proof -
  obtain t1 where t1: "DetachSubTree c t = Inr t1" "forest t1 (\<lambda>p. remove1 c (K p))" "m_parent t1 c = None"
    using detach_forest [OF assms(1)] by blast
  have n: "n \<in> set (remove1 c (K p))" using assms(2,3) by (simp add: in_set_remove1)
  then have ne: "remove1 c (K p) \<noteq> []" by auto
  have "m_parent t1 n = Some p" using forest_parent [OF t1(2), of n p] n by simp
  moreover note e = forest_ends [OF t1(2) ne]
  moreover have "set_parent c (Some p) (set_sibling_prev c (Some (last (remove1 c (K p)))) (set_sibling_next (last (remove1 c (K p))) (Some c)
      (set_sibling_prev (hd (remove1 c (K p))) (Some c) t1))) =
    set_sibling_prev (hd (remove1 c (K p))) (Some c) (set_parent c (Some p) (set_sibling_prev c (Some (last (remove1 c (K p))))
      (set_sibling_next (last (remove1 c (K p))) (Some c) t1)))"
  proof -
    have "hd (remove1 c (K p)) \<noteq> c" using detached_kids [OF t1(2,3), of p] ne hd_in_set by metis
    then show ?thesis by (simp add: link_defs fun_upd_twist)
  qed
  ultimately show ?thesis
    using append_forest [OF t1(2,3) ne] t1(1) by (simp add: PushBackSibling_def Let_def) (simp add: link_defs)
qed

text \<open>C29. The four operations on the links are the evident ones on the lists of children: the node leaves the list
  it is in, and is put in front or at the back of the new one. None of them dereferences null.\<close>

theorem tree_operations_refine:
  assumes "forest t K"
  shows "(\<exists>t'. DetachSubTree c t = Inr t' \<and> forest t' (\<lambda>q. remove1 c (K q)) \<and> m_parent t' c = None) \<and>
    (\<exists>t'. PushBackChild_node p c t = Inr t' \<and> forest t' ((\<lambda>q. remove1 c (K q))(p := remove1 c (K p) @ [c]))) \<and>
    (\<exists>t'. PushFrontChild p c t = Inr t' \<and> forest t' ((\<lambda>q. remove1 c (K q))(p := c # remove1 c (K p)))) \<and>
    (n \<in> set (K p) \<and> n \<noteq> c \<longrightarrow> (\<exists>t'. PushBackSibling fuel n c t = Inr t' \<and>
      forest t' ((\<lambda>q. remove1 c (K q))(p := remove1 c (K p) @ [c]))))"
  using detach_forest [OF assms] push_back_child [OF assms] push_front_child [OF assms] push_back_sibling [OF assms]
  by blast

definition no_links :: "nat tree_links" where
  "no_links = \<lparr>m_parent = (\<lambda>_. None), m_child = (\<lambda>_. None), m_sibling_next = (\<lambda>_. None), m_sibling_prev = (\<lambda>_. None)\<rparr>"

lemma no_links_forest: "forest no_links (\<lambda>_. [])"
  by (simp add: forest_def kids_ok_def no_links_def)

theorem tree_operations_refine_witness:
  "\<exists>t1 t2. PushBackChild_node 0 1 no_links = Inr t1 \<and> forest t1 ((\<lambda>_. [])(0 := [1])) \<and>
    PushFrontChild 0 2 t1 = Inr t2 \<and> forest t2 ((\<lambda>_. [])(0 := [2, 1]))"
proof -
  obtain t1 where t1: "PushBackChild_node 0 1 no_links = Inr t1" "forest t1 ((\<lambda>_. [])(0 := [1]))"
    using tree_operations_refine [OF no_links_forest, of 1 0 0] by auto
  have "(\<lambda>q. remove1 2 (((\<lambda>_. [])(0 := [1::nat])) q))(0 := 2 # remove1 2 (((\<lambda>_. [])(0 := [1])) 0)) =
      (\<lambda>_::nat. [])(0 := [2, 1])" by (simp add: fun_eq_iff)
  then obtain t2 where "PushFrontChild 0 2 t1 = Inr t2" "forest t2 ((\<lambda>_. [])(0 := [2, 1]))"
    using tree_operations_refine [OF t1(2), of 2 0] by auto
  with t1 show ?thesis by blast
qed

lemma FindRoot_parent:
  assumes "FindRoot fuel n t = Inr r"
  shows "m_parent t r = None"
  using assms by (induction fuel n t rule: FindRoot.induct) (auto split: option.splits)

lemma FindRoot_cong:
  assumes "FindRoot fuel n t = Inr r" and "r \<noteq> c" and "m_parent t c = None"
    and "\<And>d. d \<noteq> c \<Longrightarrow> m_parent t' d = m_parent t d"
  shows "FindRoot fuel n t' = Inr r"
  using assms
proof (induction fuel n t rule: FindRoot.induct)
  case (2 fuel this t)
  have "this \<noteq> c" using 2(2-4) by auto
  then show ?case using 2 by (auto split: option.splits)
qed simp

text \<open>The root of a node: a root that is put under node \<open>p\<close> of another tree has the root of \<open>p\<close> from then on.\<close>

theorem find_root_after_push:
  assumes "forest t K" and "m_parent t c = None" and "FindRoot fuel p t = Inr r" and "r \<noteq> c"
  shows "\<exists>t'. PushBackChild_node p c t = Inr t' \<and> FindRoot (Suc fuel) c t' = Inr r \<and> m_parent t' r = None"
proof -
  have "DetachSubTree c t = Inr t" by (rule detach_root [OF assms(1,2)])
  then obtain t' where t': "PushBackChild_node p c t = Inr t'" "\<And>d. m_parent t' d = (if d = c then Some p else m_parent t d)"
    using push_back_detached [OF assms(1,2), of p] by (auto simp: PushBackChild_node_def)
  have "FindRoot fuel p t' = Inr r" by (rule FindRoot_cong [OF assms(3,4,2)]) (simp add: t'(2))
  then show ?thesis using t' FindRoot_parent [OF assms(3)] assms(4) by simp
qed

theorem find_root_after_push_witness:
  "\<exists>t'. PushBackChild_node 0 1 no_links = Inr t' \<and> FindRoot 2 1 t' = Inr 0 \<and> m_parent t' 0 = None"
  using find_root_after_push [OF no_links_forest, of 1 1 0 0] by (simp add: no_links_def numeral_2_eq_2)

text \<open>Clearing the first child over and over: what the loop of \<open>ClearChildrenRecursive\<close> does when that
  child has no children itself.\<close>

lemma Clear_node_idem: "Clear_node c (Clear_node c t) = Clear_node c t"
  by (simp add: Clear_node_def link_defs)

lemma clear_children_first:
  assumes "length ys < fuel" and "distinct ys" and "c \<notin> set ys"
    and "\<And>i. i < length ys \<Longrightarrow> m_sibling_next t (ys ! i) = (if Suc i < length ys then Some (ys ! Suc i) else None)"
    and "m_child t this = Some c" and "m_child t c = None" and "this \<noteq> c" and "Clear_node c t = t"
  shows "clear_children fuel this (if ys = [] then None else Some (hd ys)) t = Inr t"
  using assms(1-4)
proof (induction ys arbitrary: fuel)
  case (Cons y ys)
  obtain f where f: "fuel = Suc f" using Cons.prems(1) by (cases fuel) auto
  have n: "m_sibling_next t y = (if ys = [] then None else Some (hd ys))"
    using Cons.prems(4) [of 0] by (auto simp: hd_conv_nth)
  have "clear_children f this (if ys = [] then None else Some (hd ys)) t = Inr t"
  proof (rule Cons.IH)
    fix i assume "i < length ys"
    then show "m_sibling_next t (ys ! i) = (if Suc i < length ys then Some (ys ! Suc i) else None)"
      using Cons.prems(4) [of "Suc i"] by simp
  qed (use Cons.prems f in simp_all)
  then show ?case using f n assms(5-8) by simp
qed simp

text \<open>\<open>DetachAll\<close> of a root whose first child is a leaf clears only that child: every other child keeps its
  pointer to the parent, which has no children any more.\<close>

theorem detach_all_forgets_children:
  assumes f: "forest t K" and p: "m_parent t p = None" and K: "K p = c # ys" "K c = []" and y: "y \<in> set ys"
    and fuel: "Suc (length ys) < fuel"
  shows "\<exists>t'. DetachAll fuel p t = Inr t' \<and> m_child t' p = None \<and> m_parent t' y = Some p \<and> m_parent t' c = None"
proof -
  have k: "kids_ok t p (c # ys)" using forest_kids [OF f, of p] K by simp
  have d: "distinct (c # ys)" "p \<noteq> c" "p \<notin> set ys" using k kids_parent [OF k, of p] p by (auto simp: kids_ok_def)
  have det: "DetachSubTree p t = Inr t" by (rule detach_root [OF f p])
  let ?t = "Clear_node c t"
  have ch: "m_child t p = Some c" "m_child t c = None"
    using forest_ends(1) [OF f, of p] forest_leaf [OF f, of c] K by simp_all
  have nx: "m_sibling_next t c = (if ys = [] then None else Some (hd ys))" using kids_ok_split(2) [of t p "[]" c ys] k by simp
  obtain g where g: "fuel = Suc g" "length ys < g" using fuel by (cases fuel) auto
  have "clear_children g p (if ys = [] then None else Some (hd ys)) ?t = Inr ?t"
  proof (rule clear_children_first [OF g(2)])
    fix i assume i: "i < length ys"
    have "m_sibling_next t ((c # ys) ! Suc i) = (if Suc (Suc i) < length (c # ys) then Some ((c # ys) ! Suc (Suc i)) else None)"
      using k i unfolding kids_ok_def by (metis Suc_less_eq length_Cons)
    moreover have "ys ! i \<noteq> c" using d(1) i by (auto simp: in_set_conv_nth)
    ultimately show "m_sibling_next ?t (ys ! i) = (if Suc i < length ys then Some (ys ! Suc i) else None)"
      by (simp add: Clear_node_def link_defs)
  qed (use d ch in \<open>simp_all add: Clear_node_idem, simp_all add: Clear_node_def link_defs\<close>)
  then have "DetachAll fuel p t = Inr (Clear_node p ?t)"
    using det ch nx g(1) by (simp add: DetachAll_def ClearChildrenRecursive_def)
  moreover have "m_parent t y = Some p" "y \<noteq> c" "y \<noteq> p" using kids_parent [OF k] y d by auto
  ultimately show ?thesis by (simp add: Clear_node_def link_defs)
qed


definition two_children :: "nat tree_links" where
  "two_children = \<lparr>m_parent = [1 \<mapsto> 0, 2 \<mapsto> 0], m_child = [0 \<mapsto> 1], m_sibling_next = [1 \<mapsto> 2], m_sibling_prev = [1 \<mapsto> 2, 2 \<mapsto> 1]\<rparr>"

lemma two_children_forest: "forest two_children ((\<lambda>_. [])(0 := [1, 2]))"
  by (auto simp: forest_def kids_ok_def two_children_def less_Suc_eq nth_Cons' split: if_splits)

theorem detach_all_forgets_children_witness:
  "\<exists>t'. DetachAll 3 0 two_children = Inr t' \<and> m_child t' 0 = None \<and> m_parent t' 2 = Some 0 \<and> m_parent t' 1 = None"
  by (rule detach_all_forgets_children [OF two_children_forest, where ys = "[2]"]) (simp_all add: two_children_def)

end
