(* ===== verification/Containers.thy ===== *)
theory Containers
  imports DD_Prelude
begin

text \<open>
  Small containers of the \<open>util\<close> module: \<open>PointerArray\<close> (\<open>util_pointerarray.hpp\<close>), \<open>HeapArray\<close>
  (\<open>util_heaparray.hpp\<close>), the run-time type check (\<open>util_runtimetypeinfo.hpp\<close>) and the singleton
  macro (\<open>util_singleton.h\<close>). The memory a heap returns is an argument.
\<close>

section \<open>PointerArray\<close>

text \<open>\<open>None\<close> as array is the null pointer; a cell holds a pointer or null.\<close>

record 'p pointer_array =
  m_max_pointers :: u32
  m_used_pointers :: u32
  m_pointer_array :: "'p option list option"

definition PointerArray_Initialize :: "'p option list option \<Rightarrow> u32 \<Rightarrow> 'p pointer_array \<Rightarrow> 'p pointer_array outcome" where
  "PointerArray_Initialize memory pointer_count a =
    and_then (dd_assert (pointer_count \<noteq> 0) a) (\<lambda>a.
    let a = a\<lparr>m_pointer_array := memory\<rparr> in
    and_then (dd_assert (m_pointer_array a \<noteq> None) a) (\<lambda>a.
    Inr (a\<lparr>m_used_pointers := 0, m_max_pointers := pointer_count\<rparr>)))"

definition PointerArray_Finalize :: "'p pointer_array \<Rightarrow> 'p pointer_array" where
  "PointerArray_Finalize a = (if m_pointer_array a \<noteq> None
    then a\<lparr>m_used_pointers := 0, m_max_pointers := 0, m_pointer_array := None\<rparr> else a)"

definition read_cell :: "'p pointer_array \<Rightarrow> u32 \<Rightarrow> 'p option outcome" where
  "read_cell a i = and_then (deref (m_pointer_array a)) (\<lambda>xs.
    if unat i < length xs then Inr (xs ! unat i) else Inl OutOfBounds)"

definition write_cell :: "'p pointer_array \<Rightarrow> u32 \<Rightarrow> 'p option \<Rightarrow> 'p pointer_array outcome" where
  "write_cell a i v = and_then (deref (m_pointer_array a)) (\<lambda>xs.
    if unat i < length xs then Inr (a\<lparr>m_pointer_array := Some (xs[unat i := v])\<rparr>) else Inl OutOfBounds)"

definition PointerArray_at :: "u32 \<Rightarrow> 'p pointer_array \<Rightarrow> 'p option outcome" where
  "PointerArray_at index a = and_then (dd_assert (index < m_used_pointers a) a) (\<lambda>a. read_cell a index)"

definition PushPointer :: "'p option \<Rightarrow> 'p pointer_array \<Rightarrow> 'p pointer_array outcome" where
  "PushPointer pointer a =
    and_then (dd_assert (m_used_pointers a \<le> m_max_pointers a) a) (\<lambda>a.
    and_then (write_cell a (m_used_pointers a) pointer) (\<lambda>a.
    Inr (a\<lparr>m_used_pointers := m_used_pointers a + 1\<rparr>)))"

definition PopPointer :: "'p pointer_array \<Rightarrow> ('p option \<times> 'p pointer_array) outcome" where
  "PopPointer a =
    and_then (read_cell a (m_used_pointers a - 1)) (\<lambda>ret.
    and_then (write_cell a (m_used_pointers a - 1) None) (\<lambda>a.
    Inr (ret, a\<lparr>m_used_pointers := m_used_pointers a - 1\<rparr>)))"

text \<open>The stack a pointer array holds.\<close>

definition pa_wf :: "'p pointer_array \<Rightarrow> bool" where
  "pa_wf a \<longleftrightarrow> (case m_pointer_array a of None \<Rightarrow> False
    | Some xs \<Rightarrow> length xs = unat (m_max_pointers a) \<and> m_used_pointers a \<le> m_max_pointers a)"

definition pa_list :: "'p pointer_array \<Rightarrow> 'p option list" where
  "pa_list a = (case m_pointer_array a of None \<Rightarrow> [] | Some xs \<Rightarrow> take (unat (m_used_pointers a)) xs)"

section \<open>HeapArray\<close>

text \<open>The array is known by its address; \<open>objects\<close> holds the elements, \<open>live\<close> the allocations not yet freed.\<close>

record 'x heap_array =
  m_object_array :: "u64 option"
  m_array_count :: u32

record 'x array_memory =
  objects :: "'x list"
  live :: "u64 set"

definition HeapArray :: "'x heap_array" where
  "HeapArray = \<lparr>m_object_array = None, m_array_count = 0\<rparr>"

text \<open>\<open>std::construct_at\<close> on the first \<open>n\<close> elements.\<close>

definition construct_all :: "'x \<Rightarrow> nat \<Rightarrow> 'x list \<Rightarrow> 'x list" where
  "construct_all fresh n xs = replicate (min n (length xs)) fresh @ drop n xs"

definition InitializeArray ::
  "(u64 \<times> 'x list) option \<Rightarrow> 'x \<Rightarrow> u32 \<Rightarrow> 'x heap_array \<Rightarrow> 'x array_memory \<Rightarrow> bool \<times> 'x heap_array \<times> 'x array_memory" where
  "InitializeArray new_memory fresh element_count a m =
    (if element_count = 0 then (False, a, m)
     else case new_memory of
       None \<Rightarrow> (False, a\<lparr>m_object_array := None\<rparr>, m)
     | Some (p, raw) \<Rightarrow>
         let a = a\<lparr>m_object_array := Some p, m_array_count := element_count\<rparr> in
         (True, a, m\<lparr>objects := construct_all fresh (unat element_count) raw, live := insert p (live m)\<rparr>))"

text \<open>\<open>Finalize\<close> constructs the elements once more where its comment says destruct, and keeps the pointer.\<close>

definition HeapArray_Finalize :: "'x \<Rightarrow> 'x heap_array \<Rightarrow> 'x array_memory \<Rightarrow> ('x heap_array \<times> 'x array_memory) outcome" where
  "HeapArray_Finalize fresh a m =
    (case m_object_array a of None \<Rightarrow> Inr (a, m)
     | Some p \<Rightarrow>
         if p \<notin> live m then Inl BadObject
         else Inr (a, m\<lparr>objects := construct_all fresh (unat (m_array_count a)) (objects m), live := live m - {p}\<rparr>))"

definition HeapArray_at :: "u32 \<Rightarrow> 'x heap_array \<Rightarrow> 'x array_memory \<Rightarrow> 'x outcome" where
  "HeapArray_at index a m =
    and_then (dd_assert (m_array_count a > index) a) (\<lambda>a.
    and_then (deref (m_object_array a)) (\<lambda>p.
    if p \<in> live m \<and> unat index < length (objects m) then Inr (objects m ! unat index) else Inl OutOfBounds))"

section \<open>Run-time type information\<close>

text \<open>
  The type information of a class points to that of its base class (\<open>m_next\<close>, null for a root). The
  loop of \<open>CheckRuntimeTypeInfo\<close> is bounded by the number of base classes.
\<close>

fun check_loop :: "nat \<Rightarrow> ('c \<Rightarrow> 'c option) \<Rightarrow> 'c \<Rightarrow> 'c \<Rightarrow> bool outcome" where
  "check_loop 0 m_next class_info target = Inl Diverges"
| "check_loop (Suc fuel) m_next class_info target =
    (if class_info \<noteq> target then Inr True
     else case m_next class_info of
         None \<Rightarrow> Inr False
       | Some c \<Rightarrow> check_loop fuel m_next c target)"

definition CheckRuntimeTypeInfo :: "nat \<Rightarrow> ('c \<Rightarrow> 'c option) \<Rightarrow> 'c \<Rightarrow> 'c \<Rightarrow> bool outcome" where
  "CheckRuntimeTypeInfo fuel m_next this_class object_class = check_loop fuel m_next this_class object_class"

section \<open>Singleton\<close>

text \<open>
  The static pointers of a singleton class, and the objects that exist: \<open>created\<close> counts the
  constructions of the instance, \<open>destroyed\<close> its destructions.
\<close>

record singleton =
  sInstance :: "u64 option"
  sDisposer :: "u64 option"
  created :: nat
  destroyed :: nat

text \<open>The new instance is at \<open>memory\<close>, and its member \<open>m_singleton_disposer\<close> at \<open>disposer\<close>.\<close>

definition CreateInstance :: "u64 \<Rightarrow> u64 \<Rightarrow> singleton \<Rightarrow> u64 option \<times> singleton" where
  "CreateInstance memory disposer g =
    (if sInstance g \<noteq> None then (sInstance g, g)
     else
       let g = g\<lparr>sInstance := Some memory, created := created g + 1\<rparr>;
           g = g\<lparr>sDisposer := Some disposer\<rparr>
       in (sInstance g, g))"

text \<open>The destructor of the disposer, which the heap runs when it is destroyed.\<close>

definition destroy_disposer :: "u64 \<Rightarrow> singleton \<Rightarrow> singleton" where
  "destroy_disposer this g =
    (if sDisposer g = Some this then g\<lparr>sDisposer := None, destroyed := destroyed g + 1, sInstance := None\<rparr> else g)"

definition FinalizeInstance :: "singleton \<Rightarrow> singleton" where
  "FinalizeInstance g =
    (case sDisposer g of None \<Rightarrow> g
     | Some disposer \<Rightarrow>
         let g = destroy_disposer disposer (g\<lparr>sDisposer := None\<rparr>);
             g = (if sInstance g \<noteq> None then g\<lparr>destroyed := destroyed g + 1\<rparr> else g)
         in g\<lparr>sInstance := None\<rparr>)"

section \<open>Properties\<close>

lemma pa_cells:
  assumes "pa_wf a" and "m_used_pointers a < m_max_pointers a"
  shows "\<exists>xs. m_pointer_array a = Some xs \<and> length xs = unat (m_max_pointers a) \<and>
    unat (m_used_pointers a) < length xs \<and> unat (m_used_pointers a + 1) = Suc (unat (m_used_pointers a))"
proof -
  obtain xs where xs: "m_pointer_array a = Some xs" "length xs = unat (m_max_pointers a)"
    using assms(1) by (auto simp: pa_wf_def split: option.splits)
  have l: "unat (m_used_pointers a) < unat (m_max_pointers a)" using assms(2) by (simp add: word_less_nat_alt)
  have "unat (m_used_pointers a) + 1 < 2 ^ 32" using l unsigned_less [of "m_max_pointers a", where 'a = nat] by simp
  then have "unat (m_used_pointers a + 1) = Suc (unat (m_used_pointers a))" by (simp add: unat_word_ariths)
  with xs l show ?thesis by simp
qed

text \<open>A pointer array with room is a stack: a push appends the pointer, keeps the array well-formed, and the
  pop after it returns that pointer and the stack as it was.\<close>

theorem pointer_array_stack:
  assumes "pa_wf a" and "m_used_pointers a < m_max_pointers a"
  shows "\<exists>a1 a2. PushPointer p a = Inr a1 \<and> pa_wf a1 \<and> pa_list a1 = pa_list a @ [p] \<and>
    PopPointer a1 = Inr (p, a2) \<and> pa_wf a2 \<and> pa_list a2 = pa_list a"
proof -
  obtain xs where xs: "m_pointer_array a = Some xs" "length xs = unat (m_max_pointers a)"
      "unat (m_used_pointers a) < length xs" "unat (m_used_pointers a + 1) = Suc (unat (m_used_pointers a))"
    using pa_cells [OF assms] by blast
  let ?u = "unat (m_used_pointers a)"
  let ?a1 = "a\<lparr>m_pointer_array := Some (xs[?u := p]), m_used_pointers := m_used_pointers a + 1\<rparr>"
  let ?a2 = "a\<lparr>m_pointer_array := Some (xs[?u := p, ?u := None]), m_used_pointers := m_used_pointers a\<rparr>"
  have le: "m_used_pointers a \<le> m_max_pointers a" "m_used_pointers a + 1 \<le> m_max_pointers a"
    using assms(2) xs(2-4) by (simp_all add: word_le_nat_alt)
  have push: "PushPointer p a = Inr ?a1" using xs le(1) by (simp add: PushPointer_def write_cell_def)
  have pop: "PopPointer ?a1 = Inr (p, ?a2)"
    using xs(3) by (simp add: PopPointer_def read_cell_def write_cell_def)
  have "pa_list ?a1 = pa_list a @ [p]"
    using xs by (simp add: pa_list_def take_Suc_conv_app_nth)
  moreover have "pa_wf ?a1" "pa_wf ?a2" using xs(2) le by (simp_all add: pa_wf_def)
  moreover have "pa_list ?a2 = pa_list a" using xs(1) by (simp add: pa_list_def)
  ultimately show ?thesis using push pop by blast
qed

theorem pointer_array_stack_witness:
  "\<exists>a1 a2. PushPointer (Some (5::nat)) \<lparr>m_max_pointers = 2, m_used_pointers = 0, m_pointer_array = Some [None, None]\<rparr> = Inr a1 \<and>
    pa_wf a1 \<and> pa_list a1 = [Some 5] \<and> PopPointer a1 = Inr (Some 5, a2) \<and> pa_list a2 = []"
  using pointer_array_stack [of "\<lparr>m_max_pointers = 2, m_used_pointers = 0, m_pointer_array = Some [None, None]\<rparr>" "Some (5::nat)"]
  by (auto simp: pa_wf_def pa_list_def)

text \<open>A push onto a full array passes the assertion and writes one cell past the end.\<close>

theorem push_pointer_overruns:
  assumes "pa_wf a" and "m_used_pointers a = m_max_pointers a"
  shows "PushPointer p a = Inl OutOfBounds"
  using assms by (auto simp: PushPointer_def write_cell_def pa_wf_def split: option.splits)

theorem push_pointer_overruns_witness:
  "PushPointer (Some (5::nat)) \<lparr>m_max_pointers = 1, m_used_pointers = 1, m_pointer_array = Some [None]\<rparr> = Inl OutOfBounds"
  by (rule push_pointer_overruns) (simp_all add: pa_wf_def)

text \<open>A heap array that was initialised and finalised cannot be destroyed: \<open>Finalize\<close> keeps the pointer, so the
  destructor frees the memory a second time.\<close>

theorem heap_array_double_free:
  assumes "InitializeArray new_memory fresh n a m = (True, a1, m1)" and "HeapArray_Finalize fresh a1 m1 = Inr (a2, m2)"
  shows "HeapArray_Finalize fresh a2 m2 = Inl BadObject"
  using assms
  by (auto simp: InitializeArray_def HeapArray_Finalize_def Let_def split: if_splits option.splits)

theorem heap_array_double_free_witness:
  "\<exists>a1 m1 a2 m2. InitializeArray (Some (64, [9, 9])) (0::nat) 2 HeapArray \<lparr>objects = [], live = {}\<rparr> = (True, a1, m1) \<and>
    HeapArray_Finalize 0 a1 m1 = Inr (a2, m2) \<and> HeapArray_Finalize 0 a2 m2 = Inl BadObject"
proof -
  let ?a = "\<lparr>m_object_array = Some 64, m_array_count = 2\<rparr>"
  let ?m1 = "\<lparr>objects = [0, 0], live = {64}\<rparr>" and ?m2 = "\<lparr>objects = [0, 0::nat], live = {}\<rparr>"
  have r: "replicate 2 (0::nat) = [0, 0]" by (simp add: numeral_2_eq_2)
  have i: "InitializeArray (Some (64, [9, 9])) (0::nat) 2 HeapArray \<lparr>objects = [], live = {}\<rparr> = (True, ?a, ?m1)"
    by (simp add: InitializeArray_def HeapArray_def construct_all_def r)
  have f: "HeapArray_Finalize 0 ?a ?m1 = Inr (?a, ?m2)"
    by (simp add: HeapArray_Finalize_def construct_all_def r)
  show ?thesis using i f heap_array_double_free [OF i f] by blast
qed

text \<open>The type check of a derived class accepts every object: it answers true for the class itself as well as for
  classes that have nothing to do with it.\<close>

theorem rtti_check_accepts_all:
  assumes "m_next this_class = Some base" and "base \<noteq> this_class" and "2 \<le> fuel"
  shows "CheckRuntimeTypeInfo fuel m_next this_class object_class = Inr True"
proof -
  obtain f where "fuel = Suc (Suc f)" using assms(3) by (metis Suc_le_D numeral_2_eq_2 Suc_le_mono)
  then show ?thesis using assms(1,2) by (auto simp: CheckRuntimeTypeInfo_def)
qed

theorem rtti_check_accepts_all_witness: "CheckRuntimeTypeInfo 2 [1 \<mapsto> 0, 2 \<mapsto> 0] (1::nat) 2 = Inr True"
  by (rule rtti_check_accepts_all) auto

text \<open>A singleton: creating returns the same instance until it is finalised, and however it ends, by
  \<open>FinalizeInstance\<close> or by the disposer, the instance is destroyed exactly once.\<close>

theorem singleton_lifecycle:
  assumes "sInstance g = None" and "sDisposer g = None"
  shows "\<exists>g1. CreateInstance memory disposer g = (Some memory, g1) \<and> created g1 = created g + 1 \<and>
    CreateInstance other d g1 = (Some memory, g1) \<and>
    sInstance (FinalizeInstance g1) = None \<and> destroyed (FinalizeInstance g1) = destroyed g + 1 \<and>
    FinalizeInstance (FinalizeInstance g1) = FinalizeInstance g1 \<and>
    destroy_disposer disposer g1 = FinalizeInstance g1"
  using assms by (simp add: CreateInstance_def FinalizeInstance_def destroy_disposer_def Let_def)

theorem singleton_lifecycle_witness:
  "\<exists>g1. CreateInstance 64 72 \<lparr>sInstance = None, sDisposer = None, created = 0, destroyed = 0\<rparr> = (Some 64, g1) \<and>
    created g1 = 1 \<and> CreateInstance 128 136 g1 = (Some 64, g1) \<and> destroyed (FinalizeInstance g1) = 1"
  using singleton_lifecycle [of "\<lparr>sInstance = None, sDisposer = None, created = 0, destroyed = 0\<rparr>" 64 72 128 136] by auto

end
