(* ===== verification/Sys_Thread.thy ===== *)
theory Sys_Thread
  imports Sys_Sync Message_Queue
begin

text \<open>
  The threads of the \<open>sys\<close> module: the blocking calls of \<open>sys::MessageQueue\<close> (\<open>sys_messagequeue.hpp\<close>), the
  message loop and the calls of \<open>ThreadBase\<close>, \<open>Thread\<close> and \<open>DelegateThread\<close> (\<open>sys_threadbase.h\<close>,
  \<open>sys_thread.hpp\<close>, \<open>sys_delegatethread.hpp\<close>), the loop of \<open>util::DelegateThread\<close>, the list of threads
  (\<open>sys_threadmanager.hpp\<close>) and the system information (\<open>sys_systemmanager.cpp\<close>).

  The virtual \<open>ThreadCalc\<close> and the delegates are the user's code; the model records the messages they are
  called with.
\<close>

section \<open>The blocking calls of the message queue\<close>

record sys_queue =
  sq_queue :: message_queue
  m_message_mutex :: address
  m_message_sent_cv :: address
  m_buffer_full_cv :: address

text \<open>\<open>WaitForMessage\<close> and \<open>WaitForMessageClear\<close>, with the mutex held: \<open>Some c\<close> is a switch in \<open>Wait\<close>.\<close>

fun wait_while :: "nat \<Rightarrow> nat \<Rightarrow> (message_queue \<Rightarrow> bool) \<Rightarrow> address \<Rightarrow> sys_queue \<Rightarrow> user_scheduler \<Rightarrow> (continuation option \<times> user_scheduler) outcome" where
  "wait_while fuel this P cv q s =
    (if \<not> P (sq_queue q) then Inr (None, s)
     else case fuel of 0 \<Rightarrow> Inl Diverges
       | Suc n \<Rightarrow> and_then (cv_Wait this (m_message_mutex q) cv s) (\<lambda>(r, s).
           case r of Some c \<Rightarrow> Inr (Some c, s) | None \<Rightarrow> wait_while n this P cv q s))"

declare wait_while.simps [simp del]

definition WaitForMessage :: "nat \<Rightarrow> nat \<Rightarrow> sys_queue \<Rightarrow> user_scheduler \<Rightarrow> (continuation option \<times> user_scheduler) outcome" where
  "WaitForMessage fuel this q s =
    wait_while fuel this (\<lambda>x. m_pending_messages x = 0) (m_message_sent_cv q) q s"

definition WaitForMessageClear :: "nat \<Rightarrow> nat \<Rightarrow> sys_queue \<Rightarrow> user_scheduler \<Rightarrow> (continuation option \<times> user_scheduler) outcome" where
  "WaitForMessageClear fuel this q s =
    wait_while fuel this (\<lambda>x. m_max_messages x \<le> m_pending_messages x) (m_buffer_full_cv q) q s"

definition sys_ReceiveMessage ::
  "nat \<Rightarrow> nat \<Rightarrow> sys_queue \<Rightarrow> user_scheduler \<Rightarrow> (continuation option \<times> (u64 option \<times> sys_queue) \<times> user_scheduler) outcome" where
  "sys_ReceiveMessage fuel this q = with_lock this (m_message_mutex q) (\<lambda>s.
    and_then (WaitForMessage fuel this q s) (\<lambda>(r, s).
    case r of Some c \<Rightarrow> Inr (Some c, (None, q), s)
    | None \<Rightarrow>
      and_then (sys_RecieveMessageImpl (sq_queue q)) (\<lambda>(m, _, x).
      and_then (cv_Broadcast (m_buffer_full_cv q) s) (\<lambda>(r, s).
      Inr (r, (Some m, q\<lparr>sq_queue := x\<rparr>), s))))) (None, q)"

definition sys_SendMessage ::
  "nat \<Rightarrow> nat \<Rightarrow> u64 \<Rightarrow> sys_queue \<Rightarrow> user_scheduler \<Rightarrow> (continuation option \<times> sys_queue \<times> user_scheduler) outcome" where
  "sys_SendMessage fuel this message q = with_lock this (m_message_mutex q) (\<lambda>s.
    and_then (WaitForMessageClear fuel this q s) (\<lambda>(r, s).
    case r of Some c \<Rightarrow> Inr (Some c, q, s)
    | None \<Rightarrow>
      and_then (sys_SendMessageImpl message (sq_queue q)) (\<lambda>(_, x).
      and_then (cv_Broadcast (m_message_sent_cv q) s) (\<lambda>(r, s).
      Inr (r, q\<lparr>sq_queue := x\<rparr>, s))))) q"

definition sys_TryReceive_locked ::
  "nat \<Rightarrow> sys_queue \<Rightarrow> user_scheduler \<Rightarrow> (continuation option \<times> (u64 option \<times> sys_queue) \<times> user_scheduler) outcome" where
  "sys_TryReceive_locked this q = with_lock this (m_message_mutex q) (\<lambda>s.
    and_then (sys_TryReceiveMessage (sq_queue q)) (\<lambda>(m, x).
    case m of None \<Rightarrow> Inr (None, (None, q), s)
    | Some (m, _) \<Rightarrow>
      and_then (cv_Broadcast (m_buffer_full_cv q) s) (\<lambda>(r, s).
      Inr (r, (Some m, q\<lparr>sq_queue := x\<rparr>), s)))) (None, q)"

section \<open>The message loop\<close>

datatype ThreadRunMode = ThreadRunMode_WaitForMessage | ThreadRunMode_Looping

record thread_base =
  m_message_queue :: sys_queue
  m_exit_message :: u64
  m_stack_size :: u32
  m_priority :: u32
  m_thread_core_mask :: u64
  m_run_mode :: ThreadRunMode

definition next_message ::
  "nat \<Rightarrow> nat \<Rightarrow> thread_base \<Rightarrow> user_scheduler \<Rightarrow> (continuation option \<times> (u64 option \<times> sys_queue) \<times> user_scheduler) outcome" where
  "next_message fuel this th s =
    (case m_run_mode th of
       ThreadRunMode_WaitForMessage \<Rightarrow> sys_ReceiveMessage fuel this (m_message_queue th) s
     | ThreadRunMode_Looping \<Rightarrow>
         and_then (sys_TryReceive_locked this (m_message_queue th) s) (\<lambda>(r, (m, q), s).
         Inr (r, (Some (case m of None \<Rightarrow> 0 | Some v \<Rightarrow> v), q), s)))"

text \<open>The \<open>while\<close> loop of \<open>Run\<close>: \<open>calls\<close> are the messages \<open>ThreadCalc\<close> was called with so far.\<close>

fun run_loop ::
  "nat \<Rightarrow> nat \<Rightarrow> u64 \<Rightarrow> u64 list \<Rightarrow> thread_base \<Rightarrow> user_scheduler \<Rightarrow> (continuation option \<times> u64 list \<times> thread_base \<times> user_scheduler) outcome" where
  "run_loop fuel this current_message calls th s =
    (if current_message = m_exit_message th then Inr (None, calls, th, s)
     else case fuel of 0 \<Rightarrow> Inl Diverges
       | Suc n \<Rightarrow>
         and_then (next_message n this th s) (\<lambda>(r, (m, q), s).
         let th = th\<lparr>m_message_queue := q\<rparr>; calls = calls @ [current_message] in
         case (r, m) of
           (None, Some m) \<Rightarrow> run_loop n this m calls th s
         | (c, _) \<Rightarrow> Inr (c, calls, th, s)))"

declare run_loop.simps [simp del]

definition Run ::
  "nat \<Rightarrow> nat \<Rightarrow> thread_base \<Rightarrow> user_scheduler \<Rightarrow> (continuation option \<times> u64 list \<times> thread_base \<times> user_scheduler) outcome" where
  "Run fuel this th s =
    (if m_run_mode th = ThreadRunMode_WaitForMessage then
       and_then (sys_ReceiveMessage fuel this (m_message_queue th) s) (\<lambda>(r, (m, q), s).
       let th = th\<lparr>m_message_queue := q\<rparr> in
       case (r, m) of (None, Some m) \<Rightarrow> run_loop fuel this m [] th s | (c, _) \<Rightarrow> Inr (c, [], th, s))
     else run_loop fuel this (- 1) [] th s)"

definition ThreadBase_SendMessage ::
  "nat \<Rightarrow> nat \<Rightarrow> u64 \<Rightarrow> thread_base \<Rightarrow> user_scheduler \<Rightarrow> (continuation option \<times> thread_base \<times> user_scheduler) outcome" where
  "ThreadBase_SendMessage fuel this message th s =
    and_then (sys_SendMessage fuel this message (m_message_queue th) s) (\<lambda>(r, q, s).
    Inr (r, th\<lparr>m_message_queue := q\<rparr>, s))"

text \<open>The loop of \<open>util::DelegateThread\<close>: its queue gives the messages \<open>ms\<close>, in order.\<close>

fun DelegateThreadMain :: "u64 \<Rightarrow> u64 list \<Rightarrow> u64 list \<times> u64 list option" where
  "DelegateThreadMain exit_code [] = ([], None)"
| "DelegateThreadMain exit_code (m # ms) =
    (if m = exit_code then ([], Some ms) else let (calls, r) = DelegateThreadMain exit_code ms in (m # calls, r))"

section \<open>Threads of the micro kernel\<close>

record sys_thread =
  base :: thread_base
  m_thread_handle :: u32

text \<open>A call of the micro kernel whose result is asserted to be success.\<close>

definition assert_success :: "(u32 call \<times> user_scheduler) outcome \<Rightarrow> user_scheduler outcome" where
  "assert_success m = and_then m (\<lambda>(r, s). case r of
     Returned r \<Rightarrow> dd_assert (r = ResultSuccess) s | Switched core c \<Rightarrow> Inl AssertFailed)"

text \<open>The constructor; the thread is to run on core -1. \<open>self\<close> is the address of the object, \<open>thread_main\<close> that
  of \<open>InternalThreadMain\<close>.\<close>

definition Thread ::
  "string option \<Rightarrow> address \<Rightarrow> address \<Rightarrow> address \<Rightarrow> thread_base \<Rightarrow> user_scheduler \<Rightarrow> (sys_thread \<times> user_scheduler) outcome" where
  "Thread name self thread_main new_fiber th s =
    and_then (CreateThread thread_main self (ucast (m_stack_size th)) (m_priority th) (- 1) new_fiber s) (\<lambda>(r, s).
    case r of
      Returned (result0, Some h) \<Rightarrow>
        and_then (dd_assert (result0 = ResultSuccess) s) (\<lambda>s.
        and_then (SetThreadName h name s) (\<lambda>s. Inr (\<lparr>base = th, m_thread_handle = h\<rparr>, s)))
    | _ \<Rightarrow> Inl AssertFailed)"

definition Thread_StartThread :: "sys_thread \<Rightarrow> user_scheduler \<Rightarrow> user_scheduler outcome" where
  "Thread_StartThread x s = assert_success (StartThread (m_thread_handle x) s)"

definition Thread_WaitForThreadExit_turn :: "nat \<Rightarrow> sys_thread \<Rightarrow> user_scheduler \<Rightarrow> (unit call \<times> user_scheduler) outcome" where
  "Thread_WaitForThreadExit_turn this x s = ExitThread_turn this (m_thread_handle x) s"

definition Thread_ResumeThread :: "sys_thread \<Rightarrow> user_scheduler \<Rightarrow> user_scheduler outcome" where
  "Thread_ResumeThread x s = assert_success (ResumeThread (m_thread_handle x) s)"

definition Thread_SuspendThread :: "sys_thread \<Rightarrow> user_scheduler \<Rightarrow> user_scheduler outcome" where
  "Thread_SuspendThread x s = assert_success (SuspendThread (m_thread_handle x) s)"

definition Thread_SetPriority :: "u32 \<Rightarrow> sys_thread \<Rightarrow> user_scheduler \<Rightarrow> (sys_thread \<times> user_scheduler) outcome" where
  "Thread_SetPriority prio x s =
    and_then (assert_success (SetThreadPriority (m_thread_handle x) prio s)) (\<lambda>s.
    Inr (x\<lparr>base := (base x)\<lparr>m_priority := prio\<rparr>\<rparr>, s))"

definition Thread_SetCoreMask :: "u64 \<Rightarrow> sys_thread \<Rightarrow> user_scheduler \<Rightarrow> (sys_thread \<times> user_scheduler) outcome" where
  "Thread_SetCoreMask new_mask x s =
    and_then (assert_success (SetThreadCoreMask (m_thread_handle x) new_mask s)) (\<lambda>s.
    Inr (x\<lparr>base := (base x)\<lparr>m_thread_core_mask := new_mask\<rparr>\<rparr>, s))"

section \<open>The list of threads\<close>

text \<open>The list is linked through \<open>m_thread_manager_list_node\<close>; the head is \<open>None\<close>, a thread \<open>Some t\<close>.\<close>

definition PushBackThread :: "nat \<Rightarrow> nat option links \<Rightarrow> nat option links" where
  "PushBackThread t k = PushBack None (Some t) k"

definition RemoveThreadUnsafe :: "nat \<Rightarrow> nat option links \<Rightarrow> nat option links" where
  "RemoveThreadUnsafe t k = Unlink (Some t) k"

text \<open>The two loops of the destructor: \<open>exited t\<close> says whether \<open>WaitForThreadExit\<close> of \<open>t\<close> returns.\<close>

definition ThreadManager_destroy :: "nat \<Rightarrow> (nat \<Rightarrow> bool) \<Rightarrow> nat option links \<Rightarrow> nat option links outcome" where
  "ThreadManager_destroy fuel exited k =
    and_then (for_each fuel (\<lambda>k. k) None (\<lambda>n k. and_then (deref n) (\<lambda>t.
      if exited t then Inr (False, k) else Inl Diverges)) k) (\<lambda>k.
    for_each fuel (\<lambda>k. k) None unlink_body k)"

text \<open>\<open>GetCurrentThread\<close>: the argument of the current fiber, or the slot of a service thread.\<close>

definition ThreadManager_GetCurrentThread :: "nat option \<Rightarrow> address \<Rightarrow> user_scheduler \<Rightarrow> u64" where
  "ThreadManager_GetCurrentThread current tls_value s =
    (case current of None \<Rightarrow> tls_value | Some f \<Rightarrow> user_arg (m_fibers s f))"

definition IsMainThread :: "address \<Rightarrow> nat option \<Rightarrow> address \<Rightarrow> user_scheduler \<Rightarrow> bool" where
  "IsMainThread main_thread current tls_value s \<longleftrightarrow> ThreadManager_GetCurrentThread current tls_value s = main_thread"

section \<open>System information\<close>

text \<open>What the operating system reports is an argument: architecture, page size, processors, affinity masks.\<close>

record system_manager =
  active_processor_count :: u32
  process_core_count :: u32
  process_core_mask :: u64
  system_core_mask :: u64

definition InitializeSystemManager :: "bool \<Rightarrow> u32 \<Rightarrow> u32 \<Rightarrow> (u64 \<times> u64) option \<Rightarrow> system_manager outcome" where
  "InitializeSystemManager is_amd64 page_bytes active affinity =
    and_then (dd_assert is_amd64 ()) (\<lambda>_.
    and_then (dd_assert (page_bytes = 0x1000) ()) (\<lambda>_.
    and_then (dd_assert (active \<noteq> 0) ()) (\<lambda>_.
    case affinity of None \<Rightarrow> Inl AssertFailed
    | Some (process, system) \<Rightarrow>
      and_then (dd_assert (process \<noteq> 0 \<and> system \<noteq> 0) ()) (\<lambda>_.
      Inr \<lparr>active_processor_count = active, process_core_count = CountOneBits64 process,
        process_core_mask = process, system_core_mask = system\<rparr>))))"

definition GetProcessProcessorCount :: "system_manager \<Rightarrow> u32" where
  "GetProcessProcessorCount g = process_core_count g"

section \<open>Properties\<close>

text \<open>A kernel and a queue on which nothing is in the way: the mutex is free and nobody waits on the condition
  variables.\<close>

definition queue_idle :: "nat \<Rightarrow> nat \<Rightarrow> sys_queue \<Rightarrow> user_scheduler \<Rightarrow> bool" where
  "queue_idle a b q s \<longleftrightarrow> cs_ready (m_message_mutex q) a b s \<and> m_words s (m_message_mutex q) = 0 \<and>
    (\<forall>cv\<in>{m_message_sent_cv q, m_buffer_full_cv q}. cv \<noteq> nullptr \<and> cv \<noteq> m_message_mutex q \<and> m_words s cv = 0) \<and>
    \<not> m_scheduler_lock s"

lemma queue_idleD:
  assumes "queue_idle a b q s"
  shows "cs_ready (m_message_mutex q) a b s" "m_words s (m_message_mutex q) = 0" "\<not> m_scheduler_lock s"
    and "cv \<in> {m_message_sent_cv q, m_buffer_full_cv q} \<Longrightarrow> cv \<noteq> nullptr \<and> cv \<noteq> m_message_mutex q \<and> m_words s cv = 0"
  using assms unfolding queue_idle_def by blast+

lemma queue_idle_cong [simp]: "queue_idle a b (q\<lparr>sq_queue := x\<rparr>) s = queue_idle a b q s"
  by (simp add: queue_idle_def)

lemma receive_pending:
  assumes i: "queue_idle a b q s" and w: "mq_wf (sq_queue q)" "mq_contents (sq_queue q) = m # ms"
  shows "\<exists>x. sys_ReceiveMessage fuel a q s = Inr (None, (Some m, q\<lparr>sq_queue := x\<rparr>), s) \<and> mq_wf x \<and>
    mq_contents x = ms"
proof -
  obtain x where x: "sys_TryReceiveMessage (sq_queue q) = Inr (Some (m, BufferFull), x)" "mq_wf x" "mq_contents x = ms"
    using sys_mq.receive_some [OF w] by blast
  have p: "m_pending_messages (sq_queue q) \<noteq> 0" using w(2) length_mq_contents [of "sq_queue q"] by auto
  then have r: "sys_RecieveMessageImpl (sq_queue q) = Inr (m, BufferFull, x)"
    using x(1) by (auto simp: sys_TryReceiveMessage_def and_then_Inr_iff)
  note f = free_Enter [OF queue_idleD(1,2) [OF i]]
  show ?thesis
    using f p r x(2,3) queue_idleD(4) [OF i, of "m_buffer_full_cv q"]
    by (intro exI [of _ x]) (simp add: sys_ReceiveMessage_def with_lock_def WaitForMessage_def wait_while.simps
        cv_Broadcast_def cv_Signal_def load_def)
qed

lemma run_loop_dispatches:
  assumes "queue_idle a b (m_message_queue th) s" and "m_run_mode th = ThreadRunMode_WaitForMessage"
    and "mq_wf (sq_queue (m_message_queue th))" and "m_exit_message th \<notin> set ms" and "length ms < fuel"
    and "m # mq_contents (sq_queue (m_message_queue th)) = ms @ m_exit_message th # rest"
  shows "\<exists>th'. run_loop fuel a m calls th s = Inr (None, calls @ ms, th', s) \<and>
    mq_contents (sq_queue (m_message_queue th')) = rest"
  using assms
proof (induction ms arbitrary: m fuel calls th)
  case Nil
  then show ?case by (simp add: run_loop.simps [of fuel])
next
  case (Cons y ys)
  obtain n where n: "fuel = Suc n" using Cons.prems(5) by (cases fuel) auto
  have m: "m = y" "m \<noteq> m_exit_message th" "mq_contents (sq_queue (m_message_queue th)) = ys @ m_exit_message th # rest"
    using Cons.prems(4,6) by auto
  obtain z zs where z: "ys @ m_exit_message th # rest = z # zs" by (cases ys) auto
  obtain x where x: "sys_ReceiveMessage n a (m_message_queue th) s =
      Inr (None, (Some z, (m_message_queue th)\<lparr>sq_queue := x\<rparr>), s)" "mq_wf x" "mq_contents x = zs"
    using receive_pending [OF Cons.prems(1,3)] m(3) z by metis
  let ?th = "th\<lparr>m_message_queue := (m_message_queue th)\<lparr>sq_queue := x\<rparr>\<rparr>"
  have "\<exists>th'. run_loop n a z (calls @ [m]) ?th s = Inr (None, (calls @ [m]) @ ys, th', s) \<and>
      mq_contents (sq_queue (m_message_queue th')) = rest"
    by (rule Cons.IH) (use Cons.prems n x z in simp_all)
  then show ?case using n m x(1) Cons.prems(2) by (simp add: run_loop.simps [of "Suc n"] next_message_def Let_def)
qed

text \<open>C31. A thread that waits for messages handles the messages that are in its queue one by one and in order, stops at
  the exit message and leaves the ones after it in the queue.\<close>

theorem run_handles_messages:
  assumes "queue_idle a b (m_message_queue th) s" and "m_run_mode th = ThreadRunMode_WaitForMessage"
    and "mq_wf (sq_queue (m_message_queue th))"
    and "mq_contents (sq_queue (m_message_queue th)) = ms @ m_exit_message th # rest"
    and "m_exit_message th \<notin> set ms" and "length ms < fuel"
  shows "\<exists>th'. Run fuel a th s = Inr (None, ms, th', s) \<and> mq_contents (sq_queue (m_message_queue th')) = rest"
proof -
  obtain z zs where z: "ms @ m_exit_message th # rest = z # zs" by (cases ms) auto
  obtain x where x: "sys_ReceiveMessage fuel a (m_message_queue th) s =
      Inr (None, (Some z, (m_message_queue th)\<lparr>sq_queue := x\<rparr>), s)" "mq_wf x" "mq_contents x = zs"
    using receive_pending [OF assms(1,3)] assms(4) z by metis
  let ?th = "th\<lparr>m_message_queue := (m_message_queue th)\<lparr>sq_queue := x\<rparr>\<rparr>"
  have "\<exists>th'. run_loop fuel a z [] ?th s = Inr (None, [] @ ms, th', s) \<and>
      mq_contents (sq_queue (m_message_queue th')) = rest"
    by (rule run_loop_dispatches) (use assms x z in simp_all)
  then show ?thesis using assms(2) x(1) by (simp add: Run_def)
qed

lemma wait_while_diverges:
  assumes "cv_Wait a (m_message_mutex q) cv t = Inr (None, t)" and "P (sq_queue q)"
  shows "wait_while fuel a P cv q t = Inl Diverges"
  using assms by (induction fuel) (simp_all add: wait_while.simps)

lemma wait_while_spins:
  assumes i: "queue_idle a b q s" and cv: "cv \<in> {m_message_sent_cv q, m_buffer_full_cv q}" and P: "P (sq_queue q)"
  shows "wait_while fuel a P cv q (s\<lparr>m_words := (m_words s)(m_message_mutex q := ukern_fiber_handle (m_fibers s a))\<rparr>) = Inl Diverges"
proof (rule wait_while_diverges)
  let ?s = "s\<lparr>m_words := (m_words s)(m_message_mutex q := ukern_fiber_handle (m_fibers s a))\<rparr>"
  note r = queue_idleD(1) [OF i]
  obtain L where "sched_lists s L (\<lambda>_. [])" using r by (auto simp: cs_ready_def)
  then have "sched_lists ?s L (\<lambda>_. [])" by (simp add: sched_lists_def)
  moreover have "GetFiberByHandle (ukern_fiber_handle (m_fibers ?s a)) ?s = Inr (Some a)" "m_message_mutex q \<noteq> nullptr"
    using r by (simp_all add: cs_ready_def GetFiberByHandle_def)
  ultimately show "cv_Wait a (m_message_mutex q) cv ?s = Inr (None, ?s)"
    using queue_idleD(3,4) [OF i] cv by (intro cv_Wait_returns) auto
qed (rule P)

text \<open>On an empty queue \<open>ReceiveMessage\<close>, and on a full one \<open>SendMessage\<close>, runs forever with the mutex held, since
  waiting on the condition variable does not wait; a thread that starts with an empty queue never gets a message.\<close>

theorem blocking_queue_calls_spin:
  assumes "queue_idle a b q s" and "mq_wf (sq_queue q)"
  shows "if mq_contents (sq_queue q) = [] then sys_ReceiveMessage fuel a q s = Inl Diverges
    else if length (mq_contents (sq_queue q)) = mq_capacity (sq_queue q) then sys_SendMessage fuel a m q s = Inl Diverges
    else True"
proof -
  note f = free_Enter(1) [OF queue_idleD(1,2) [OF assms(1)]]
  have e: "m_pending_messages (sq_queue q) = 0" if "mq_contents (sq_queue q) = []"
    using that length_mq_contents [of "sq_queue q"] assms(2) by (simp add: mq_wf_def)
  have g: "m_max_messages (sq_queue q) \<le> m_pending_messages (sq_queue q)"
    if "length (mq_contents (sq_queue q)) = mq_capacity (sq_queue q)"
    using that assms(2) by (simp add: mq_wf_def mq_capacity_def eq_nat_nat_iff)
  have "sys_ReceiveMessage fuel a q s = Inl Diverges" if "mq_contents (sq_queue q) = []"
    using f wait_while_spins [OF assms(1), of "m_message_sent_cv q" "\<lambda>x. m_pending_messages x = 0"] e [OF that]
    by (simp add: sys_ReceiveMessage_def with_lock_def WaitForMessage_def)
  moreover have "sys_SendMessage fuel a m q s = Inl Diverges" if "length (mq_contents (sq_queue q)) = mq_capacity (sq_queue q)"
    using f wait_while_spins [OF assms(1), of "m_buffer_full_cv q" "\<lambda>x. m_max_messages x \<le> m_pending_messages x"] g [OF that]
    by (simp add: sys_SendMessage_def with_lock_def WaitForMessageClear_def)
  ultimately show ?thesis by simp
qed

text \<open>No \<open>sys::Thread\<close> can be made: its constructor asks for core -1, and whatever the other arguments are it shifts
  by that number (which is undefined) or fails its assertion.\<close>

theorem sys_thread_never_created: "isl (Thread name self thread_main new_fiber th s)"
proof -
  have c: "core_bit (- 1) = Inl ShiftRange"
    by (simp add: core_bit_def unsigned_minus_1_eq_mask mask_eq_exp_minus_1)
  show ?thesis
    using c by (auto simp: Thread_def CreateThread_def CreateThreadImpl_def result_codes dd_assert_def)
qed


text \<open>The destructor of the thread manager does not end while there is a thread in its list, even when every thread has
  ended.\<close>

theorem thread_manager_destroy_never_ends:
  assumes "ring k None (map Some ts)" and "ts \<noteq> []" and "length ts < fuel" and "list_all exited ts"
  shows "ThreadManager_destroy fuel exited k = Inl Diverges"
proof -
  let ?body = "\<lambda>n k. and_then (deref n) (\<lambda>t. if exited t then Inr (False, k) else Inl Diverges)"
  have "for_each fuel (\<lambda>k. k) None ?body k = visit ?body (map Some ts) k"
    using assms(1,3)
    by (intro for_each_visit [where I = "\<lambda>_. True"]) (auto simp: and_then_Inr_iff split: if_splits)
  also have "\<dots> = Inr k" using assms(4) by (induction ts) simp_all
  finally show ?thesis
    using for_each_unlink_diverges [OF assms(1)] assms(2) by (simp add: ThreadManager_destroy_def)
qed

text \<open>The loop of \<open>util::DelegateThread\<close> invokes the delegate for the messages before the first exit code.\<close>

theorem delegate_thread_handles_messages:
  "DelegateThreadMain exit_code ms = (takeWhile (\<lambda>m. m \<noteq> exit_code) ms,
    case dropWhile (\<lambda>m. m \<noteq> exit_code) ms of [] \<Rightarrow> None | _ # rest \<Rightarrow> Some rest)"
  by (induction ms) (simp_all split: prod.splits)

text \<open>The number of cores of the process is between 1 and 64, and it is the number of bits of its mask.\<close>

theorem process_core_count_bounds:
  assumes "InitializeSystemManager is_amd64 page_bytes active affinity = Inr g"
  shows "1 \<le> unat (GetProcessProcessorCount g) \<and> unat (GetProcessProcessorCount g) \<le> 64 \<and>
    unat (GetProcessProcessorCount g) = card {i. bit (process_core_mask g) i}"
proof -
  obtain m where g: "process_core_count g = CountOneBits64 m" "process_core_mask g = m" "m \<noteq> 0"
    using assms by (auto simp: InitializeSystemManager_def and_then_Inr_iff split: option.splits prod.splits)
  have len: "length (filter (bit m) [0..<64]) = card {i. bit m i}"
  proof -
    have "{i. bit m i} = set (filter (bit m) [0..<64])" using bit_imp_le_length [of m] by auto
    then show ?thesis using distinct_card [of "filter (bit m) [0..<64]"] by simp
  qed
  have "card {i. bit m i} \<le> 64"
    using length_filter_le [of "bit m" "[0..<64]"] len by simp
  then have c: "unat (CountOneBits64 m) = card {i. bit m i}"
    by (simp add: CountOneBits64_def len unat_of_nat_small)
  have "{i. bit m i} \<subseteq> {..<64}" using bit_imp_le_length [of m] by auto
  then have "finite {i. bit m i}" by (rule finite_subset) simp
  moreover have "{i. bit m i} \<noteq> {}" 
  proof
    assume e: "{i. bit m i} = {}"
    have "m = 0" by (rule bit_eqI) (use e in auto)
    with g(3) show False by simp
  qed
  ultimately have "1 \<le> card {i. bit m i}" by (simp add: Suc_le_eq card_gt_0_iff)
  then show ?thesis using c g CountOneBits64_le [of m] by (simp add: GetProcessProcessorCount_def)
qed

theorem process_core_count_bounds_witness:
  "1 \<le> unat (CountOneBits64 0xF) \<and> unat (CountOneBits64 0xF) \<le> 64 \<and> unat (CountOneBits64 0xF) = card {i. bit (0xF :: u64) i}"
  using process_core_count_bounds [of True "0x1000" 4 "Some (0xF, 0xFF)"
    "\<lparr>active_processor_count = 4, process_core_count = CountOneBits64 0xF, process_core_mask = 0xF, system_core_mask = 0xFF\<rparr>"]
  by (simp add: InitializeSystemManager_def GetProcessProcessorCount_def)


definition idle_thread :: "u64 list \<Rightarrow> thread_base" where
  "idle_thread ms = \<lparr>m_message_queue = \<lparr>sq_queue = \<lparr>m_message_buffer = ms, m_max_messages = int (length ms),
      m_pending_messages = int (length ms), m_current_message = 0\<rparr>,
    m_message_mutex = 16, m_message_sent_cv = 24, m_buffer_full_cv = 32\<rparr>, m_exit_message = 9, m_stack_size = 0x4000,
    m_priority = 0, m_thread_core_mask = 0, m_run_mode = ThreadRunMode_WaitForMessage\<rparr>"

lemma idle_thread_idle: "queue_idle 1 2 (m_message_queue (idle_thread ms)) (pair_kernel 0)"
proof -
  have "m_words (pair_kernel 0) a = 0" for a by (simp add: pair_kernel_def)
  moreover have "\<not> m_scheduler_lock (pair_kernel 0)"
    by (simp add: pair_kernel_def example_def blank_def UserScheduler_def)
  ultimately show ?thesis using pair_ready [of 0] by (simp add: queue_idle_def idle_thread_def nullptr_def)
qed

theorem run_handles_messages_witness:
  "\<exists>th'. Run 5 1 (idle_thread [3, 4, 9, 5]) (pair_kernel 0) = Inr (None, [3, 4], th', pair_kernel 0) \<and>
    mq_contents (sq_queue (m_message_queue th')) = [5]"
  by (rule run_handles_messages [OF idle_thread_idle])
    (simp_all add: idle_thread_def mq_wf_def mq_contents_def upt_rec)

theorem blocking_queue_calls_spin_witness:
  "sys_SendMessage 100 1 7 (m_message_queue (idle_thread [3])) (pair_kernel 0) = Inl Diverges"
proof -
  have "mq_wf (sq_queue (m_message_queue (idle_thread [3])))" by (simp add: idle_thread_def mq_wf_def)
  from blocking_queue_calls_spin [OF idle_thread_idle this, of 100 7] show ?thesis
    by (simp add: idle_thread_def mq_contents_def mq_capacity_def upt_rec)
qed

theorem thread_manager_destroy_never_ends_witness:
  "\<exists>k. ThreadManager_destroy 10 (\<lambda>_. True) k = Inl Diverges \<and> ring k None [Some 4]"
proof -
  let ?k = "PushBackThread 4 \<lparr>m_prev = (\<lambda>n. n), m_next = (\<lambda>n. n)\<rparr>"
  have "ring ?k None ([] @ [Some 4])"
    unfolding PushBackThread_def by (rule ring_PushBack) (simp_all add: unlinked_def)
  then have r: "ring ?k None (map Some [4])" by simp
  from thread_manager_destroy_never_ends [OF r, of 10 "\<lambda>_. True"] r show ?thesis by auto
qed

end
