(* ===== verification/Heap_Manager.thy ===== *)
theory Heap_Manager
  imports Exp_Heap_Props
begin

text \<open>
  The heap manager (\<open>mem_heapmanager.cpp\<close>), the operators \<open>new\<close> and \<open>delete\<close> over it (\<open>mem_new.hpp\<close>) and the
  disposers that heaps list (\<open>mem_idisposer.hpp\<close>, \<open>mem_heap.hpp\<close>). Memory of the operating system
  (\<open>VirtualAlloc\<close>, \<open>_aligned_malloc\<close>) is an argument. Threads are the \<open>ThreadBase\<close> objects, of which only the
  current heap matters here; \<open>None\<close> is a null pointer.
\<close>

section \<open>State\<close>

datatype disposer_node = DisposerNode u64 | DisposerList u64

record heap_manager =
  heaps :: heap_memory
  manager_memory :: u64
  manager_memory_size :: u64
  sRootHeap :: u64
  sIsHeapManagerInitialized :: bool
  m_thread_heap :: "nat \<Rightarrow> u64"
  m_contained_heap :: "u64 \<Rightarrow> u64"
  disposer_links :: "disposer_node links"

definition root_heap_name :: string where
  "root_heap_name = ''HeapManager::sRootHeap''"

section \<open>The heap manager\<close>

definition InitializeHeapManager :: "u64 \<Rightarrow> u64 \<Rightarrow> u64 \<Rightarrow> heap_manager \<Rightarrow> heap_manager outcome" where
  "InitializeHeapManager sz allocation_granularity virtual_memory g =
    and_then (dd_assert (virtual_memory \<noteq> 0) (g\<lparr>manager_memory := virtual_memory\<rparr>)) (\<lambda>g.
    let g = g\<lparr>manager_memory_size := AlignUp sz allocation_granularity\<rparr>;
        (h, s) = TryCreate_at (manager_memory g) (manager_memory_size g) root_heap_name False (heaps g)
    in Inr (g\<lparr>heaps := s, sRootHeap := h, sIsHeapManagerInitialized := True\<rparr>))"

text \<open>\<open>Finalize\<close> of the root heap is empty, but it is a call on the object.\<close>

definition FinalizeHeapManager :: "bool \<Rightarrow> heap_manager \<Rightarrow> heap_manager outcome" where
  "FinalizeHeapManager freed g =
    (if sRootHeap g = 0 then Inl NullPointer
     else and_then (dd_assert freed g) (\<lambda>g. Inr (g\<lparr>manager_memory := 0, manager_memory_size := 0\<rparr>)))"

definition FindHeapByName :: "nat \<Rightarrow> string \<Rightarrow> heap_manager \<Rightarrow> u64 outcome" where
  "FindHeapByName depth heap_name g =
    (if sRootHeap g = 0 then Inl NullPointer
     else and_then (FindHeapByNameImpl depth (sRootHeap g) heap_name (heaps g)) (\<lambda>h.
       Inr (if h = 0 \<and> heap_name = m_name (hm_heap (heaps g) (sRootHeap g)) then sRootHeap g else h)))"

definition GetCurrentThreadHeap :: "nat option \<Rightarrow> heap_manager \<Rightarrow> u64" where
  "GetCurrentThreadHeap thread g = (case thread of Some t \<Rightarrow> m_thread_heap g t | None \<Rightarrow> sRootHeap g)"

definition IsHeapManagerInitialized :: "heap_manager \<Rightarrow> bool" where
  "IsHeapManagerInitialized g = sIsHeapManagerInitialized g"

definition GetRootHeap :: "heap_manager \<Rightarrow> u64" where
  "GetRootHeap g = sRootHeap g"

definition SetCurrentThreadHeap :: "nat option \<Rightarrow> u64 \<Rightarrow> heap_manager \<Rightarrow> heap_manager" where
  "SetCurrentThreadHeap thread heap g =
    (case thread of Some t \<Rightarrow> g\<lparr>m_thread_heap := (m_thread_heap g)(t := heap)\<rparr> | None \<Rightarrow> g)"

definition IsAddressFromAnyHeap :: "u64 \<Rightarrow> heap_manager \<Rightarrow> bool outcome" where
  "IsAddressFromAnyHeap addr g =
    (if sRootHeap g = 0 then Inl NullPointer else Inr (IsAddressInHeap (sRootHeap g) addr (heaps g)))"

section \<open>The operators\<close>

definition DefaultNewAlignment :: u32 where "DefaultNewAlignment = 8"

text \<open>\<open>malloc_result\<close>: what \<open>_aligned_malloc\<close> would return. The \<open>u32\<close> alignment becomes the \<open>s32\<close> of the heap.\<close>

definition NewImpl_heap :: "u64 \<Rightarrow> nat option \<Rightarrow> u64 \<Rightarrow> u32 \<Rightarrow> u64 \<Rightarrow> heap_manager \<Rightarrow> (u64 \<times> heap_manager) outcome" where
  "NewImpl_heap malloc_result thread sz align heap g =
    (if \<not> IsHeapManagerInitialized g then Inr (malloc_result, g)
     else
       let current_heap = (if heap \<noteq> 0 then heap else GetCurrentThreadHeap thread g) in
       if current_heap = 0 then Inr (0, g)
       else and_then (TryAllocate current_heap sz (sint align) (heaps g)) (\<lambda>(p, s). Inr (p, g\<lparr>heaps := s\<rparr>)))"

definition NewImpl :: "u64 \<Rightarrow> nat option \<Rightarrow> u64 \<Rightarrow> u32 \<Rightarrow> heap_manager \<Rightarrow> (u64 \<times> heap_manager) outcome" where
  "NewImpl malloc_result thread sz align g =
    (if \<not> IsHeapManagerInitialized g then Inr (malloc_result, g)
     else
       let current_heap = GetCurrentThreadHeap thread g in
       if current_heap = 0 then Inr (0, g)
       else and_then (TryAllocate current_heap sz (sint align) (heaps g)) (\<lambda>(p, s). Inr (p, g\<lparr>heaps := s\<rparr>)))"

definition DeleteImpl :: "nat option \<Rightarrow> u64 \<Rightarrow> heap_manager \<Rightarrow> heap_manager outcome" where
  "DeleteImpl thread addr g =
    (if \<not> IsHeapManagerInitialized g then Inr g
     else
       let current_heap = GetCurrentThreadHeap thread g in
       if current_heap = 0 then Inr g
       else and_then (ExpHeap_Free current_heap addr (heaps g)) (\<lambda>s. Inr (g\<lparr>heaps := s\<rparr>)))"

definition operator_new :: "u64 \<Rightarrow> nat option \<Rightarrow> u64 \<Rightarrow> heap_manager \<Rightarrow> (u64 \<times> heap_manager) outcome" where
  "operator_new malloc_result thread sz g = NewImpl malloc_result thread sz DefaultNewAlignment g"

definition operator_new_aligned :: "u64 \<Rightarrow> nat option \<Rightarrow> u64 \<Rightarrow> u64 \<Rightarrow> heap_manager \<Rightarrow> (u64 \<times> heap_manager) outcome" where
  "operator_new_aligned malloc_result thread sz align g = NewImpl malloc_result thread sz (ucast align) g"

definition operator_new_heap :: "u64 \<Rightarrow> nat option \<Rightarrow> u64 \<Rightarrow> u64 \<Rightarrow> u32 \<Rightarrow> heap_manager \<Rightarrow> (u64 \<times> heap_manager) outcome" where
  "operator_new_heap malloc_result thread sz heap align g = NewImpl_heap malloc_result thread sz align heap g"

definition operator_delete :: "nat option \<Rightarrow> u64 \<Rightarrow> heap_manager \<Rightarrow> heap_manager outcome" where
  "operator_delete thread addr g = DeleteImpl thread addr g"

section \<open>Disposers\<close>

definition AppendDisposer :: "u64 \<Rightarrow> u64 \<Rightarrow> heap_manager \<Rightarrow> heap_manager" where
  "AppendDisposer heap d g = g\<lparr>disposer_links := PushBack (DisposerList heap) (DisposerNode d) (disposer_links g)\<rparr>"

definition RemoveDisposer :: "u64 \<Rightarrow> u64 \<Rightarrow> heap_manager \<Rightarrow> heap_manager" where
  "RemoveDisposer heap d g = g\<lparr>disposer_links := Remove (DisposerNode d) (disposer_links g)\<rparr>"

text \<open>
  The constructor with a heap; \<open>found_heap\<close> is what \<open>FindContainedHeap\<close> returns when the heap is null. The node of
  the object is constructed first.
\<close>

definition IDisposer :: "u64 \<Rightarrow> u64 \<Rightarrow> u64 \<Rightarrow> heap_manager \<Rightarrow> heap_manager" where
  "IDisposer found_heap this heap g =
    (let g = g\<lparr>disposer_links := IntrusiveListNode (DisposerNode this) (disposer_links g)\<rparr>;
         h = (if heap = 0 then found_heap else heap);
         g = g\<lparr>m_contained_heap := (m_contained_heap g)(this := h)\<rparr>
     in if h \<noteq> 0 then AppendDisposer h this g else g)"

definition destroy_IDisposer :: "u64 \<Rightarrow> heap_manager \<Rightarrow> heap_manager" where
  "destroy_IDisposer this g =
    (if m_contained_heap g this \<noteq> 0
     then (RemoveDisposer (m_contained_heap g this) this g)\<lparr>m_contained_heap := (m_contained_heap g)(this := 0)\<rparr>
     else g)"

section \<open>Properties\<close>

text \<open>Initialising in \<open>sz\<close> bytes makes the root heap at the start of the memory, with everything but the two headers
  free, and finalising frees the memory but keeps the manager marked as initialised, with its root heap.\<close>

theorem heap_manager_lifecycle:
  assumes "p \<noteq> 0" and "188 \<le> AlignUp sz gran"
  shows "\<exists>g1 g2. InitializeHeapManager sz gran p g = Inr g1 \<and> IsHeapManagerInitialized g1 \<and> GetRootHeap g1 = p \<and>
    GetTotalFreeSize p (heaps g1) = Inr (AlignUp sz gran - 184) \<and>
    FinalizeHeapManager True g1 = Inr g2 \<and> manager_memory g2 = 0 \<and>
    IsHeapManagerInitialized g2 \<and> GetRootHeap g2 = p"
proof -
  have "\<not> (p = 0 \<or> AlignUp sz gran < 188)" using assms by (simp add: not_less)
  then obtain s' where "TryCreate_at p (AlignUp sz gran) root_heap_name False (heaps g) = (p, s')"
      "GetTotalFreeSize p s' = Inr (AlignUp sz gran - 184)"
    using heap_created [of p "AlignUp sz gran" root_heap_name False "heaps g"] by auto
  then show ?thesis
    using assms(1) by (simp add: InitializeHeapManager_def FinalizeHeapManager_def IsHeapManagerInitialized_def GetRootHeap_def)
qed

text \<open>The root heap claims the addresses from behind its header to as far behind the end of its memory: an address
  within 152 bytes after the memory counts as one of the heap.\<close>

theorem root_heap_range:
  assumes "p \<noteq> 0" and "188 \<le> AlignUp sz gran" and "unat p + unat (AlignUp sz gran) + 152 < 2 ^ 64"
  shows "\<exists>g1. InitializeHeapManager sz gran p g = Inr g1 \<and>
    IsAddressFromAnyHeap a g1 = Inr (p + 152 \<le> a \<and> a < p + AlignUp sz gran + 152) \<and>
    IsAddressFromAnyHeap (p + AlignUp sz gran) g1 = Inr True"
proof -
  let ?n = "AlignUp sz gran"
  have c: "TryCreate_at p ?n root_heap_name False (heaps g) =
      (p, first_block p ?n (ExpHeap p root_heap_name 0 p ?n False (heaps g)))"
    using assms(1,2) by (simp add: TryCreate_at_def minimum_heap_size_def sizeof_ExpHeap_def
        sizeof_ExpHeapMemoryBlock_def MinimumAllocationGranularity_def not_less)
  let ?s = "first_block p ?n (ExpHeap p root_heap_name 0 p ?n False (heaps g))"
  have h: "m_start_address (hm_heap ?s p) = p + 152" "m_end_address (hm_heap ?s p) = p + 152 + ?n"
    by (simp_all add: first_block_def ExpHeap_def Let_def block_links_def construct_block_def block_update_def
        sizeof_ExpHeap_def Heap_def)
  have u: "unat (p + 152) = unat p + 152" "unat (p + ?n) = unat p + unat ?n" "unat (p + ?n + 152) = unat p + unat ?n + 152"
    using assms(3) by (simp_all add: unat_word_ariths)
  have "152 \<le> unat ?n" using assms(2) by (simp add: word_le_nat_alt)
  then have "p + 152 \<le> p + ?n" "p + ?n < p + ?n + 152" using u by (simp_all add: word_le_nat_alt word_less_nat_alt)
  moreover have "p + 152 + ?n = p + ?n + 152" by (simp add: algebra_simps)
  ultimately show ?thesis
    using c h(1) h(2) [unfolded \<open>p + 152 + ?n = p + ?n + 152\<close>] assms(1) by (simp add: InitializeHeapManager_def IsAddressFromAnyHeap_def IsAddressInHeap_def)
qed

lemma allocate_cases:
  assumes "free_blocks s h bs"
  shows "TryAllocate h sz align s \<in> {Inr (0, s), Inl BadObject}"
  using allocate_never_succeeds [OF assms, of sz align] by simp

text \<open>\<open>operator new\<close>: before the manager is initialised it returns what \<open>malloc\<close> does; afterwards it never returns
  memory, since the heap never does (a null pointer, or the sentinel of the free list taken for a block).\<close>

theorem operator_new_spec:
  "if \<not> IsHeapManagerInitialized g then operator_new p thread sz g = Inr (p, g)
   else if GetCurrentThreadHeap thread g = 0 then operator_new p thread sz g = Inr (0, g)
   else \<forall>bs. free_blocks (heaps g) (GetCurrentThreadHeap thread g) bs \<longrightarrow>
     operator_new p thread sz g \<in> {Inr (0, g), Inl BadObject}"
proof -
  have "operator_new p thread sz g \<in> {Inr (0, g), Inl BadObject}"
    if "free_blocks (heaps g) (GetCurrentThreadHeap thread g) bs" "IsHeapManagerInitialized g" "GetCurrentThreadHeap thread g \<noteq> 0" for bs
    using that allocate_cases [OF that(1), of sz "sint DefaultNewAlignment"]
    by (auto simp: operator_new_def NewImpl_def Let_def)
  then show ?thesis by (simp add: operator_new_def NewImpl_def)
qed

text \<open>A disposer is in the list of its heap from its construction to its destruction.\<close>

theorem disposer_lifecycle:
  assumes "ring (disposer_links g) (DisposerList h) (map DisposerNode ds)" and "d \<notin> set ds" and "h \<noteq> 0"
  shows "\<exists>g1. IDisposer c d h g = g1 \<and> ring (disposer_links g1) (DisposerList h) (map DisposerNode (ds @ [d])) \<and>
    ring (disposer_links (destroy_IDisposer d g1)) (DisposerList h) (map DisposerNode ds) \<and>
    m_contained_heap (destroy_IDisposer d g1) d = 0"
proof -
  let ?k = "IntrusiveListNode (DisposerNode d) (disposer_links g)"
  have fresh: "DisposerNode d \<notin> set (map DisposerNode ds)" using assms(2) by auto
  have "ring ?k (DisposerList h) (map DisposerNode ds) = ring (disposer_links g) (DisposerList h) (map DisposerNode ds)"
    by (rule ring_frame) (use fresh in \<open>auto simp: links_simps\<close>)
  then have r: "ring ?k (DisposerList h) (map DisposerNode ds)" using assms(1) by simp
  have u: "unlinked ?k (DisposerNode d)" by (simp add: unlinked_def links_simps)
  have p: "ring (PushBack (DisposerList h) (DisposerNode d) ?k) (DisposerList h) (map DisposerNode ds @ [DisposerNode d])"
    using r u fresh by (intro ring_PushBack) auto
  have q: "ring (Remove (DisposerNode d) (PushBack (DisposerList h) (DisposerNode d) ?k)) (DisposerList h) (map DisposerNode ds)"
    using ring_Unlink [of _ "DisposerList h" "map DisposerNode ds" "DisposerNode d" "[]"] p by (simp add: Remove_def)
  show ?thesis
    using p q assms(3) by (simp add: IDisposer_def Let_def AppendDisposer_def destroy_IDisposer_def RemoveDisposer_def)
qed


definition blank_heaps :: heap_memory where
  "blank_heaps = \<lparr>hm_block = (\<lambda>_. \<lparr>alloc_magic = 0, alignment = 0, block_size = 0\<rparr>),
    hm_heap = (\<lambda>_. \<lparr>m_start_address = 0, m_end_address = 0, m_parent_heap = 0, m_name = [], m_is_thread_safe = False,
      m_allocation_mode = AllocationMode_FirstFit\<rparr>),
    hm_links = \<lparr>m_prev = (\<lambda>n. n), m_next = (\<lambda>n. n)\<rparr>, hm_children = \<lparr>m_prev = (\<lambda>n. n), m_next = (\<lambda>n. n)\<rparr>\<rparr>"

definition no_heaps :: heap_manager where
  "no_heaps = \<lparr>heaps = blank_heaps, manager_memory = 0, manager_memory_size = 0, sRootHeap = 0, sIsHeapManagerInitialized = False,
    m_thread_heap = (\<lambda>_. 0), m_contained_heap = (\<lambda>_. 0), disposer_links = \<lparr>m_prev = (\<lambda>n. n), m_next = (\<lambda>n. n)\<rparr>\<rparr>"

lemma example_align: "AlignUp 0x10000 0x1000 = 0x10000"
  by (simp add: AlignUp_def)

theorem heap_manager_lifecycle_witness:
  "\<exists>g1 g2. InitializeHeapManager 0x10000 0x1000 0x20000 no_heaps = Inr g1 \<and> IsHeapManagerInitialized g1 \<and>
    GetRootHeap g1 = 0x20000 \<and> GetTotalFreeSize 0x20000 (heaps g1) = Inr (0x10000 - 184) \<and>
    FinalizeHeapManager True g1 = Inr g2 \<and> manager_memory g2 = 0 \<and>
    IsHeapManagerInitialized g2 \<and> GetRootHeap g2 = 0x20000"
  using heap_manager_lifecycle [of "0x20000" "0x10000" "0x1000" no_heaps] by (simp add: example_align)

theorem root_heap_range_witness:
  "\<exists>g1. InitializeHeapManager 0x10000 0x1000 0x20000 no_heaps = Inr g1 \<and> IsAddressFromAnyHeap 0x30000 g1 = Inr True"
  using root_heap_range [of "0x20000" "0x10000" "0x1000" no_heaps 0] by (auto simp: example_align)

theorem disposer_lifecycle_witness:
  "\<exists>g1. IDisposer 0 7 9 no_heaps = g1 \<and> ring (disposer_links g1) (DisposerList 9) [DisposerNode 7] \<and>
    m_contained_heap (destroy_IDisposer 7 g1) 7 = 0"
  using disposer_lifecycle [of no_heaps 9 "[]" 7 0] by (simp add: no_heaps_def unlinked_def)


theorem operator_new_spec_witness:
  "operator_new 0x500 None 16 no_heaps = Inr (0x500, no_heaps)"
  using operator_new_spec [of no_heaps "0x500" None 16] by (simp add: IsHeapManagerInitialized_def no_heaps_def)

end
