(* ===== verification/File_Device.thy ===== *)
theory File_Device
  imports DD_Result DD_Bits Intrusive_List Path_Util Heap_Manager
begin

text \<open>
  The file devices of the \<open>res\<close> module: \<open>res_filedevicebase.hpp\<close>, \<open>res_systemfiledevice.win32.hpp\<close> and
  \<open>res_filedevicemanager.hpp\<close>. The calls into Win32 are an argument, a record of functions over a state of
  the operating system; the code is translated around them, with the results it makes of theirs.

  Shown here: what opening, sizing and loading a file return on every answer of the operating
  system, the path a device makes of a name, and which device the manager finds.
\<close>

section \<open>The operating system\<close>

text \<open>\<open>GetFileSizeEx\<close> and \<open>SetFilePointerEx\<close> return a \<open>BOOL\<close> that the code compares as a number; \<open>ReadFile\<close>
  also says how many bytes it has stored at the address it was given.\<close>

record 'w win32 =
  CreateFile :: "string \<Rightarrow> 'w \<Rightarrow> u64 \<times> 'w"
  GetFileSizeEx :: "u64 \<Rightarrow> 'w \<Rightarrow> (u32 \<times> u64 option) \<times> 'w"
  CloseHandle :: "u64 \<Rightarrow> 'w \<Rightarrow> bool \<times> 'w"
  SetFilePointerEx :: "u64 \<Rightarrow> u64 \<Rightarrow> 'w \<Rightarrow> u32 \<times> 'w"
  ReadFile :: "u64 \<Rightarrow> u32 \<Rightarrow> 'w \<Rightarrow> (bool \<times> u32) \<times> 'w"
  FlushFileBuffers :: "u64 \<Rightarrow> 'w \<Rightarrow> bool \<times> 'w"
  GetFileAttributesA :: "string \<Rightarrow> 'w \<Rightarrow> u32 \<times> 'w"
  GetLastError :: "'w \<Rightarrow> u32"

definition INVALID_HANDLE_VALUE :: u64 where "INVALID_HANDLE_VALUE = - 1"
definition INVALID_FILE_ATTRIBUTES :: u32 where "INVALID_FILE_ATTRIBUTES = - 1"
definition sizeof_pointer :: nat where "sizeof_pointer = 8"

definition ConvertWin32ErrorToResult :: "'w win32 \<Rightarrow> 'w \<Rightarrow> u32" where
  "ConvertWin32ErrorToResult os w =
    (let last_error = GetLastError os w in
     if last_error = 2 then res_ResultFileNotFound
     else if last_error = 3 then res_ResultPathNotFound
     else if last_error = 32 then res_ResultFileSharingViolation
     else if last_error = 33 then res_ResultFileLockViolation
     else if last_error = 4 then res_ResultOpenFileExhaustion
     else res_ResultUnknownWin32Error)"

section \<open>Files\<close>

definition OpenMode_Read :: u32 where "OpenMode_Read = 0x80000000"
definition OpenMode_Write :: u32 where "OpenMode_Write = 0x40000000"
definition OpenMode_ReadWrite :: u32 where "OpenMode_ReadWrite = OpenMode_Read OR OpenMode_Write"
definition OpenMode_ReadWriteAppend :: u32 where "OpenMode_ReadWriteAppend = OpenMode_ReadWrite OR 1"

record file_handle =
  win32_handle :: u64
  file_offset :: u64
  fh_file_size :: u64
  fh_open_mode :: u32

record file_load_context =
  out_file :: u64
  lc_heap :: u64
  file_path :: "string option"
  lc_file_size :: u64
  read_div :: u32
  lc_alignment :: u32
  is_heap_allocated :: bool

definition null_handle :: file_handle where
  "null_handle = \<lparr>win32_handle = 0, file_offset = 0, fh_file_size = 0, fh_open_mode = 0\<rparr>"

text \<open>The two devices and their \<open>FormatPath\<close>. The object passed for \<open>%s\<close> is read at its address, where
  its characters are.\<close>

datatype device_kind = ContentFileDevice | SaveFileDevice

record file_device =
  m_device_name :: fixed_string
  m_kind :: device_kind

fun device_prefix :: "device_kind \<Rightarrow> string" where
  "device_prefix ContentFileDevice = ''content/''"
| "device_prefix SaveFileDevice = ''save/''"

fun device_name :: "device_kind \<Rightarrow> string" where
  "device_name ContentFileDevice = ''resource'' @ [nul_char]"
| "device_name SaveFileDevice = ''save'' @ [nul_char]"

definition FileDevice :: "device_kind \<Rightarrow> file_device outcome" where
  "FileDevice kind =
    and_then (FixedString_from MaxDrive (device_name kind)) (\<lambda>n. Inr \<lparr>m_device_name = n, m_kind = kind\<rparr>)"

definition FormatPath :: "device_kind \<Rightarrow> u32 \<Rightarrow> string option \<Rightarrow> fixed_string \<Rightarrow> (u32 \<times> fixed_string) outcome" where
  "FormatPath kind junk path out_formatted_path =
    and_then (GetPathWithoutDrive path (Some (FixedString MaxPath junk))) (\<lambda>p.
    and_then (deref p) (\<lambda>path_no_drive.
    and_then (Format (device_prefix kind @ c_text (m_string_array path_no_drive)) out_formatted_path) (\<lambda>(n, out).
    Inr (if n \<noteq> of_nat MaxPath then ResultSuccess else res_ResultPathTooLong, out))))"

definition valid_handle :: "file_handle \<Rightarrow> bool" where
  "valid_handle h \<longleftrightarrow> win32_handle h \<noteq> 0 \<and> win32_handle h \<noteq> INVALID_HANDLE_VALUE"

definition OpenFileImpl :: "'w win32 \<Rightarrow> device_kind \<Rightarrow> u32 \<Rightarrow> file_handle option \<Rightarrow> string option \<Rightarrow> u32 \<Rightarrow> 'w
    \<Rightarrow> (u32 \<times> file_handle option \<times> 'w) outcome" where
  "OpenFileImpl os kind junk out_file_handle path mode w =
    (case out_file_handle of None \<Rightarrow> Inr (res_ResultNullHandle, None, w)
     | Some h \<Rightarrow>
    (case path of None \<Rightarrow> Inr (res_ResultNullPath, Some h, w)
     | Some p \<Rightarrow>
       if mode AND OpenMode_ReadWriteAppend = 0 then Inr (res_ResultInvalidOpenMode, Some h, w)
       else and_then (FormatPath kind junk (Some p) (FixedString MaxPath junk)) (\<lambda>(format_result, formatted_path).
         if format_result \<noteq> ResultSuccess then Inr (format_result, Some h, w)
         else
           let (v, w) = CreateFile os (c_text p) w; h = h\<lparr>win32_handle := v\<rparr> in
           if v = INVALID_HANDLE_VALUE then Inr (ConvertWin32ErrorToResult os w, Some h, w)
           else
             let ((b, sz), w) = GetFileSizeEx os v w;
                 h = (case sz of None \<Rightarrow> h | Some n \<Rightarrow> h\<lparr>fh_file_size := n\<rparr>) in
             Inr (if b = 1 then res_ResultFileSizeRetrievalFailed else ResultSuccess, Some h, w))))"

definition CloseFileImpl :: "'w win32 \<Rightarrow> file_handle option \<Rightarrow> 'w \<Rightarrow> u32 \<times> file_handle option \<times> 'w" where
  "CloseFileImpl os handle w =
    (case handle of None \<Rightarrow> (res_ResultNullHandle, None, w)
     | Some h \<Rightarrow>
       if \<not> valid_handle h then (res_ResultInvalidHandle, Some h, w)
       else
         let (close_result, w) = CloseHandle os (win32_handle h) w in
         if \<not> close_result then (ConvertWin32ErrorToResult os w, Some h, w)
         else (ResultSuccess, Some (h\<lparr>win32_handle := 0, file_offset := 0, fh_file_size := 0\<rparr>), w))"

text \<open>The bytes are stored at the address of the parameter \<open>out_read_buffer\<close>, which has room for a pointer.\<close>

definition ReadFileImpl :: "'w win32 \<Rightarrow> file_handle option \<Rightarrow> u32 \<Rightarrow> 'w \<Rightarrow> (u32 \<times> 'w) outcome" where
  "ReadFileImpl os handle read_size w =
    (case handle of None \<Rightarrow> Inr (res_ResultNullHandle, w)
     | Some h \<Rightarrow>
       if \<not> valid_handle h then Inr (res_ResultInvalidHandle, w)
       else
         let (set_result, w) = SetFilePointerEx os (win32_handle h) (file_offset h) w in
         if set_result \<noteq> 0 then Inr (ConvertWin32ErrorToResult os w, w)
         else
           let ((read_result, stored), w) = ReadFile os (win32_handle h) read_size w in
           if sizeof_pointer < unat stored then Inl OutOfBounds
           else Inr (if read_result then ResultSuccess else ConvertWin32ErrorToResult os w, w))"

definition FlushFileImpl :: "'w win32 \<Rightarrow> file_handle option \<Rightarrow> 'w \<Rightarrow> u32 \<times> 'w" where
  "FlushFileImpl os handle w =
    (case handle of None \<Rightarrow> (res_ResultNullHandle, w)
     | Some h \<Rightarrow>
       if \<not> valid_handle h then (res_ResultInvalidHandle, w)
       else
         let (flush_result, w) = FlushFileBuffers os (win32_handle h) w in
         (if flush_result then ResultSuccess else ConvertWin32ErrorToResult os w, w))"

text \<open>The two overloads; without a result \<open>*out_size\<close> is left alone.\<close>

definition GetFileSizeImpl :: "file_handle option \<Rightarrow> u32 \<times> u64 option" where
  "GetFileSizeImpl handle =
    (case handle of None \<Rightarrow> (res_ResultNullHandle, None)
     | Some h \<Rightarrow> if \<not> valid_handle h then (res_ResultInvalidHandle, None) else (ResultSuccess, Some (fh_file_size h)))"

definition GetFileSizeImpl_path :: "'w win32 \<Rightarrow> device_kind \<Rightarrow> u32 \<Rightarrow> string option \<Rightarrow> 'w
    \<Rightarrow> (u32 \<times> u64 option \<times> 'w) outcome" where
  "GetFileSizeImpl_path os kind junk path w =
    (case path of None \<Rightarrow> Inr (res_ResultNullPath, None, w)
     | Some p \<Rightarrow>
       and_then (FormatPath kind junk (Some p) (FixedString MaxPath junk)) (\<lambda>(format_result, formatted_path).
       if format_result \<noteq> ResultSuccess then Inr (format_result, None, w)
       else
         and_then (OpenFileImpl os kind junk (Some null_handle) (Some (m_string_array formatted_path)) OpenMode_Read w)
         (\<lambda>(open_result, h, w).
         if open_result \<noteq> ResultSuccess then Inr (open_result, None, w)
         else
           let (close_result, _, w) = CloseFileImpl os h w in
           Inr (close_result, map_option fh_file_size h, w))))"

definition CheckFileExistsImpl :: "'w win32 \<Rightarrow> device_kind \<Rightarrow> u32 \<Rightarrow> string option \<Rightarrow> 'w \<Rightarrow> (u32 \<times> 'w) outcome" where
  "CheckFileExistsImpl os kind junk path w =
    (case path of None \<Rightarrow> Inr (res_ResultNullPath, w)
     | Some p \<Rightarrow>
       and_then (FormatPath kind junk (Some p) (FixedString MaxPath junk)) (\<lambda>(format_result, formatted_path).
       if format_result \<noteq> ResultSuccess then Inr (format_result, w)
       else
         let (check_result, w) = GetFileAttributesA os (c_text (m_string_array formatted_path)) w in
         Inr (if check_result = INVALID_FILE_ATTRIBUTES then ConvertWin32ErrorToResult os w else ResultSuccess, w)))"

section \<open>Loading\<close>

fun read_loop :: "nat \<Rightarrow> 'w win32 \<Rightarrow> file_handle option \<Rightarrow> u32 \<Rightarrow> u64 \<Rightarrow> u64 \<Rightarrow> 'w \<Rightarrow> 'w outcome" where
  "read_loop 0 os h div_size remaining offset w = Inl Diverges"
| "read_loop (Suc fuel) os h div_size remaining offset w =
    (if offset = remaining then Inr w
     else and_then (ReadFileImpl os h div_size w) (\<lambda>(_, w).
       read_loop fuel os h div_size remaining (offset + ucast div_size) w))"

definition file_buffer :: "u64 \<Rightarrow> nat option \<Rightarrow> u64 \<Rightarrow> file_load_context \<Rightarrow> heap_manager
    \<Rightarrow> (bool \<times> file_load_context \<times> heap_manager) outcome" where
  "file_buffer malloc_result thread sz ctx g =
    (if out_file ctx = 0 then
       and_then (operator_new_heap malloc_result thread sz (lc_heap ctx) (lc_alignment ctx) g) (\<lambda>(p, g).
       Inr (True, ctx\<lparr>out_file := p, lc_file_size := sz, is_heap_allocated := True\<rparr>, g))
     else Inr (sz \<le> lc_file_size ctx, ctx, g))"

definition LoadFileImpl :: "nat \<Rightarrow> 'w win32 \<Rightarrow> u64 \<Rightarrow> nat option \<Rightarrow> device_kind \<Rightarrow> u32 \<Rightarrow> file_load_context \<Rightarrow> 'w \<Rightarrow> heap_manager
    \<Rightarrow> (u32 \<times> file_load_context \<times> 'w \<times> heap_manager) outcome" where
  "LoadFileImpl fuel os malloc_result thread kind junk ctx w g =
    (if \<not> (out_file ctx \<noteq> 0 \<and> lc_file_size ctx = 0) then Inr (res_ResultInvalidFileBufferSize, ctx, w, g)
     else if read_div ctx AND 0x1f = 0 then Inr (res_ResultInvalidReadDivAlignment, ctx, w, g)
     else
       and_then (OpenFileImpl os kind junk (Some null_handle) (file_path ctx) OpenMode_Read w) (\<lambda>(open_result, h, w).
       if open_result \<noteq> ResultSuccess then Inr (open_result, ctx, w, g)
       else
         let (size_result, sz) = GetFileSizeImpl h; file_size = (case sz of None \<Rightarrow> 0 | Some n \<Rightarrow> n) in
         if size_result \<noteq> ResultSuccess then Inr (size_result, ctx, w, g)
         else
           and_then (file_buffer malloc_result thread file_size ctx g) (\<lambda>(fits, ctx, g).
           if \<not> fits then Inr (res_ResultInvalidFileBufferSize, ctx, w, g)
           else
             let remaining = AlignDown file_size (ucast (read_div ctx)) in
             and_then (read_loop fuel os h (read_div ctx) remaining 0 w) (\<lambda>w.
             and_then (ReadFileImpl os h (ucast (file_size - remaining)) w) (\<lambda>(_, w).
             let (close_result, _, w) = CloseFileImpl os h w in
             Inr (close_result, ctx, w, g))))))"

section \<open>The manager\<close>

datatype device_node = DeviceList | DeviceNode nat

record device_manager =
  m_mounted_file_device_list :: "device_node links"
  devices :: "nat \<Rightarrow> file_device"
  m_main_file_device :: "nat option"

text \<open>\<open>new_device\<close> is what \<open>new\<close> returns, with the object its constructor makes there; the device is not mounted.\<close>

definition FileDeviceManager_Initialize :: "nat option \<Rightarrow> device_manager \<Rightarrow> device_manager outcome" where
  "FileDeviceManager_Initialize new_device m =
    and_then (dd_assert (new_device \<noteq> None) m) (\<lambda>m.
    and_then (deref new_device) (\<lambda>d.
    and_then (FileDevice ContentFileDevice) (\<lambda>x.
    Inr (m\<lparr>devices := (devices m)(d := x),
      m_mounted_file_device_list := IntrusiveListNode (DeviceNode d) (m_mounted_file_device_list m),
      m_main_file_device := Some d\<rparr>))))"

definition AddFileDevice :: "nat option \<Rightarrow> device_manager \<Rightarrow> device_manager outcome" where
  "AddFileDevice file_device m =
    and_then (dd_assert (file_device \<noteq> None) m) (\<lambda>m.
    and_then (deref file_device) (\<lambda>d.
    Inr (m\<lparr>m_mounted_file_device_list := PushBack DeviceList (DeviceNode d) (m_mounted_file_device_list m)\<rparr>)))"

text \<open>Whether \<open>strncmp\<close> returns zero.\<close>

fun strncmp_equal :: "string \<Rightarrow> string \<Rightarrow> nat \<Rightarrow> bool outcome" where
  "strncmp_equal a b 0 = Inr True"
| "strncmp_equal (x # a) (y # b) (Suc n) =
    (if x \<noteq> y then Inr False else if x = nul_char then Inr True else strncmp_equal a b n)"
| "strncmp_equal _ _ (Suc n) = Inl OutOfBounds"

fun device_parent :: "device_node \<Rightarrow> nat outcome" where
  "device_parent DeviceList = Inl BadObject"
| "device_parent (DeviceNode d) = Inr d"

definition GetFileDeviceByName :: "nat \<Rightarrow> string \<Rightarrow> device_manager \<Rightarrow> nat option outcome" where
  "GetFileDeviceByName fuel name m =
    for_each fuel (\<lambda>_. m_mounted_file_device_list m) DeviceList
      (\<lambda>n found. and_then (device_parent n) (\<lambda>d.
        and_then (strncmp_equal (m_string_array (m_device_name (devices m d))) name MaxDrive) (\<lambda>eq.
        Inr (if eq then (True, Some d) else (False, found))))) None"

definition manager_TryLoadFile :: "nat \<Rightarrow> 'w win32 \<Rightarrow> u64 \<Rightarrow> nat option \<Rightarrow> u32 \<Rightarrow> file_load_context \<Rightarrow> device_manager \<Rightarrow> 'w
    \<Rightarrow> heap_manager \<Rightarrow> (u32 \<times> file_load_context \<times> 'w \<times> heap_manager) outcome" where
  "manager_TryLoadFile fuel os malloc_result thread junk ctx m w g =
    and_then (GetDriveFromPath (file_path ctx) (Some (FixedString MaxDrive junk))) (\<lambda>p.
    and_then (deref p) (\<lambda>drive.
    and_then (GetFileDeviceByName fuel (m_string_array drive) m) (\<lambda>device.
    and_then (GetPathWithoutDrive (file_path ctx) (Some (FixedString MaxPath junk))) (\<lambda>path.
    and_then (deref device) (\<lambda>d.
    LoadFileImpl fuel os malloc_result thread (m_kind (devices m d)) junk ctx w g)))))"

section \<open>Lemmas\<close>

lemma find_back_hit:
  assumes "0 < m" and "m \<le> n" and "n < length path" and "path ! m = c" and "\<And>i. m < i \<Longrightarrow> i \<le> n \<Longrightarrow> path ! i \<noteq> c"
  shows "find_back c path n = Inr m"
  using assms
proof (induction n)
  case (Suc n)
  show ?case
  proof (cases "m = Suc n")
    case False
    then have "find_back c path n = Inr m" using Suc by simp
    moreover have "path ! Suc n \<noteq> c" "n \<noteq> 0" using Suc.prems False by auto
    ultimately show ?thesis using Suc.prems by simp
  qed (use Suc.prems in auto)
qed simp

lemma Format_fresh:
  assumes "nul_char \<notin> set chars" and "length chars < 2 ^ 32" and "0 < sz"
  shows "Format chars (FixedString sz junk) =
    Inr (of_nat (length chars), \<lparr>m_string_array = padded sz (take (sz - 1) chars), m_length = of_nat (length chars)\<rparr>)"
proof -
  let ?t = "take (sz - 1) chars"
  have l: "length ?t < sz" using assms(3) by simp
  have n: "sz - length ?t = Suc (sz - Suc (length ?t))" using l by linarith
  have "vsnprintf_at 0 sz chars (replicate sz nul_char) = Inr (?t @ nul_char # replicate (sz - Suc (length ?t)) nul_char)"
    using l assms(3) by (simp add: vsnprintf_at_def write_at_def)
  also have "?t @ nul_char # replicate (sz - Suc (length ?t)) nul_char = padded sz ?t" by (simp only: n replicate_Suc)
  finally show ?thesis
    using AssureTermination_padded [OF l, of "of_nat (length chars)"] assms(2)
    by (simp add: Format_def FixedString_def ucast_small)
qed

text \<open>A path with a drive.\<close>

definition drive_path :: "string \<Rightarrow> string \<Rightarrow> string \<Rightarrow> bool" where
  "drive_path path drive rest \<longleftrightarrow> is_c_string path \<and> c_text path = drive @ CHR '':'' # rest \<and> drive \<noteq> [] \<and>
    CHR '':'' \<notin> set rest \<and> length (c_text path) < MaxPath"

lemma drive_path_nth:
  assumes "drive_path path drive rest"
  shows "path ! length drive = CHR '':''"
    and "length drive < i \<Longrightarrow> i \<le> length (c_text path) \<Longrightarrow> path ! i \<noteq> CHR '':''"
proof -
  have t: "c_text path = drive @ CHR '':'' # rest" "CHR '':'' \<notin> set rest" "is_c_string path"
    using assms by (auto simp: drive_path_def)
  have in_text: "path ! j = (drive @ CHR '':'' # rest) ! j" if "j < length (c_text path)" for j
    using nth_c_text [OF that] by (simp add: t(1))
  then show "path ! length drive = CHR '':''" by (simp add: t(1))
  assume i: "length drive < i" "i \<le> length (c_text path)"
  show "path ! i \<noteq> CHR '':''"
  proof (cases "i < length (c_text path)")
    case True
    then have "i - Suc (length drive) < length rest" using i(1) by (simp add: t(1))
    then have "rest ! (i - Suc (length drive)) \<noteq> CHR '':''" using t(2) nth_mem by metis
    then show ?thesis using in_text [OF True] i(1) by (simp add: nth_append)
  next
    case False
    then have "i = length (takeWhile (\<lambda>c. c \<noteq> nul_char) path)" using i(2) by (simp add: c_text_def)
    then have "path ! i = nul_char"
      using nth_length_takeWhile [of "\<lambda>c. c \<noteq> nul_char" path] c_text_length_less [OF t(3)] by (simp add: c_text_def)
    then show ?thesis by (simp add: nul_char_def)
  qed
qed

lemma drive_pathD:
  assumes "drive_path path drive rest"
  shows "is_c_string path" "0 < length (c_text path)" "length (c_text path) < 2 ^ 32"
    "FindDriveDelimiter path (of_nat (length (c_text path))) = Inr (of_nat (length drive))"
proof -
  let ?n = "length (c_text path)"
  from assms show c: "is_c_string path" "0 < ?n" "?n < 2 ^ 32" by (auto simp: drive_path_def MaxPath_def)
  have "0 < length drive" "length drive \<le> ?n" using assms by (auto simp: drive_path_def)
  then have "find_back CHR '':'' path ?n = Inr (length drive)"
    using drive_path_nth [OF assms] c_text_length_less [OF c(1)] by (intro find_back_hit)
  then show "FindDriveDelimiter path (of_nat ?n) = Inr (of_nat (length drive))"
    using c(3) by (simp add: FindDriveDelimiter_def unat_of_nat_small)
qed

lemma drive_parts:
  assumes "drive_path path drive rest" and "length drive < MaxDrive"
  shows "GetDriveFromPath (Some path) (Some (FixedString MaxDrive junk)) =
      Inr (Some \<lparr>m_string_array = padded MaxDrive drive, m_length = of_nat (length drive)\<rparr>)"
proof -
  note D = drive_pathD [OF assms(1)]
  have t: "c_text path = drive @ CHR '':'' # rest" using assms(1) by (simp add: drive_path_def)
  have "copy_out MaxDrive path 0 (of_nat (length drive)) (FixedString MaxDrive junk) =
      Inr \<lparr>m_string_array = padded MaxDrive drive, m_length = of_nat (length drive)\<rparr>"
    using copy_out_text [of 0 "length drive" path MaxDrive junk] assms(2) by (simp add: t MaxDrive_def)
  then have "drive_part path (of_nat (length (c_text path))) (FixedString MaxDrive junk) =
      Inr \<lparr>m_string_array = padded MaxDrive drive, m_length = of_nat (length drive)\<rparr>"
    by (simp add: drive_part_def D(4))
  then show ?thesis using with_chars_text [OF D(1-3), of drive_part] by (simp add: GetDriveFromPath_def)
qed

lemma path_without_drive:
  assumes "drive_path path drive rest"
  shows "GetPathWithoutDrive (Some path) (Some (FixedString MaxPath junk)) =
      Inr (Some \<lparr>m_string_array = padded MaxPath (CHR '':'' # rest), m_length = of_nat (length (CHR '':'' # rest))\<rparr>)"
proof -
  note D = drive_pathD [OF assms(1)]
  have t: "c_text path = drive @ CHR '':'' # rest" "length (c_text path) < MaxPath" using assms(1) by (auto simp: drive_path_def)
  have n: "(of_nat (length (c_text path)) - of_nat (length drive) :: u32) = of_nat (length (CHR '':'' # rest))"
    by (simp add: t)
  have "copy_out MaxPath path (of_nat (length drive)) (of_nat (length (CHR '':'' # rest))) (FixedString MaxPath junk) =
      Inr \<lparr>m_string_array = padded MaxPath (CHR '':'' # rest), m_length = of_nat (length (CHR '':'' # rest))\<rparr>"
    using copy_out_text [of "length drive" "length (CHR '':'' # rest)" path MaxPath junk] t(2)
    by (simp add: t(1) MaxPath_def del: of_nat_Suc)
  then have "without_drive_part path (of_nat (length (c_text path))) (FixedString MaxPath junk) =
      Inr \<lparr>m_string_array = padded MaxPath (CHR '':'' # rest), m_length = of_nat (length (CHR '':'' # rest))\<rparr>"
    by (simp only: without_drive_part_def D(4) and_then.simps n)
  then show ?thesis using with_chars_text [OF D(1-3), of without_drive_part] by (simp add: GetPathWithoutDrive_def)
qed

section \<open>Properties\<close>

text \<open>The path that a device makes of a name with a drive: its directory, then the name from the colon on,
  cut off at 255 characters. It is refused as too long when it has exactly 256 characters, and only then.\<close>

theorem device_path:
  assumes "drive_path path drive rest"
  shows "\<exists>out. FormatPath kind junk (Some path) (FixedString MaxPath junk) =
      Inr (if length (device_prefix kind @ CHR '':'' # rest) = 256 then res_ResultPathTooLong else ResultSuccess, out) \<and>
    c_text (m_string_array out) = take 255 (device_prefix kind @ CHR '':'' # rest)"
proof -
  let ?chars = "device_prefix kind @ CHR '':'' # rest"
  have r: "nul_char \<notin> set (CHR '':'' # rest)" "length rest < 256"
    using assms c_text_drop [of "length (c_text path)" "length drive" path] by (auto simp: drive_path_def MaxPath_def)
  have p: "nul_char \<notin> set (device_prefix kind)" "length (device_prefix kind) < 10"
    by (cases kind; simp add: nul_char_def)+
  have l: "length ?chars < 300" using r p by simp
  have c: "nul_char \<notin> set ?chars" using r p by simp
  have "(of_nat (length ?chars) = (of_nat MaxPath :: u64)) = (length ?chars = 256)"
    using l unat_of_nat_small [of "length ?chars", where 'a = 64] unat_of_nat_small [of MaxPath, where 'a = 64]
    by (auto simp: MaxPath_def simp del: length_append) 
  moreover have "c_text (padded MaxPath (CHR '':'' # rest)) = CHR '':'' # rest" by (rule c_text_padded [OF r(1)])
  ultimately have "FormatPath kind junk (Some path) (FixedString MaxPath junk) =
      Inr (if length ?chars = 256 then res_ResultPathTooLong else ResultSuccess,
        \<lparr>m_string_array = padded MaxPath (take (MaxPath - 1) ?chars), m_length = of_nat (length ?chars)\<rparr>)"
    using Format_fresh [of ?chars MaxPath junk] l c path_without_drive [OF assms, of junk]
    by (simp add: FormatPath_def MaxPath_def)
  moreover have "nul_char \<notin> set (take 255 ?chars)" using c by (meson in_set_takeD)
  ultimately show ?thesis using c_text_padded [of "take 255 ?chars" MaxPath] by (simp add: MaxPath_def)
qed

lemma open_accepted:
  assumes "drive_path path drive rest" and "length (device_prefix kind @ CHR '':'' # rest) \<noteq> 256"
    and "mode AND OpenMode_ReadWriteAppend \<noteq> 0" and "CreateFile os (c_text path) w = (v, w1)"
    and "GetFileSizeEx os v w1 = ((b, sz), w2)"
  shows "OpenFileImpl os kind junk (Some h) (Some path) mode w =
    (if v = INVALID_HANDLE_VALUE then Inr (ConvertWin32ErrorToResult os w1, Some (h\<lparr>win32_handle := v\<rparr>), w1)
     else Inr (ResultSuccess, Some (h\<lparr>win32_handle := v,
       fh_file_size := case sz of None \<Rightarrow> fh_file_size h | Some n \<Rightarrow> n\<rparr>), w2))"
proof -
  obtain out where "FormatPath kind junk (Some path) (FixedString MaxPath junk) = Inr (ResultSuccess, out)"
    using device_path [OF assms(1), of kind junk] assms(2) by auto
  moreover have "res_ResultFileSizeRetrievalFailed = ResultSuccess" by (simp add: result_codes)
  ultimately show ?thesis
    using assms(3-5) by (cases sz) (simp_all add: OpenFileImpl_def)
qed

lemma convert_success: "ConvertWin32ErrorToResult os w = ResultSuccess \<longleftrightarrow> GetLastError os w = 2"
  by (auto simp: ConvertWin32ErrorToResult_def result_codes Let_def)

text \<open>What \<open>OpenFileImpl\<close> returns for a path that is accepted: success in any case when the operating system
  has opened the file, whether it could tell the size or not, and success too, with the invalid
  handle, when the file does not exist. The other errors are errors.\<close>

theorem open_file_outcome:
  assumes "drive_path path drive rest" and "length (device_prefix kind @ CHR '':'' # rest) \<noteq> 256"
    and "mode AND OpenMode_ReadWriteAppend \<noteq> 0" and "CreateFile os (c_text path) w = (v, w1)"
    and "GetFileSizeEx os v w1 = ((b, sz), w2)"
  shows "\<exists>r h' w'. OpenFileImpl os kind junk (Some h) (Some path) mode w = Inr (r, Some h', w') \<and>
    win32_handle h' = v \<and>
    (if v = INVALID_HANDLE_VALUE then w' = w1 \<and> (r = ResultSuccess \<longleftrightarrow> GetLastError os w1 = 2)
     else w' = w2 \<and> r = ResultSuccess \<and> fh_file_size h' = (case sz of None \<Rightarrow> fh_file_size h | Some n \<Rightarrow> n))"
  using open_accepted [OF assms, of junk h] convert_success [of os w1] by (cases "v = INVALID_HANDLE_VALUE") simp_all

text \<open>No file with contents is ever loaded: \<open>LoadFileImpl\<close> wants a buffer together with the size zero and
  then refuses every file that does not fit into zero bytes, leaving it open; the branch that
  would allocate a buffer is never taken.\<close>

theorem load_refuses_contents:
  assumes "drive_path path drive rest" and "length (device_prefix kind @ CHR '':'' # rest) \<noteq> 256"
    and "CreateFile os (c_text path) w = (v, w1)" and "v \<noteq> 0" and "v \<noteq> INVALID_HANDLE_VALUE"
    and "GetFileSizeEx os v w1 = ((b, Some n), w2)" and "n \<noteq> 0" and "file_path ctx = Some path"
  shows "LoadFileImpl fuel os malloc_result thread kind junk ctx w g =
    (if out_file ctx = 0 \<or> lc_file_size ctx \<noteq> 0 then Inr (res_ResultInvalidFileBufferSize, ctx, w, g)
     else if read_div ctx AND 0x1f = 0 then Inr (res_ResultInvalidReadDivAlignment, ctx, w, g)
     else Inr (res_ResultInvalidFileBufferSize, ctx, w2, g))"
proof -
  have m: "OpenMode_Read AND OpenMode_ReadWriteAppend \<noteq> 0"
    by (simp add: OpenMode_Read_def OpenMode_ReadWriteAppend_def OpenMode_ReadWrite_def OpenMode_Write_def)
  have o: "OpenFileImpl os kind junk (Some null_handle) (file_path ctx) OpenMode_Read w =
      Inr (ResultSuccess, Some (null_handle\<lparr>win32_handle := v, fh_file_size := n\<rparr>), w2)"
    using open_accepted [OF assms(1,2) m assms(3,6), of junk null_handle] assms(5,8) by simp
  have z: "GetFileSizeImpl (Some (null_handle\<lparr>win32_handle := v, fh_file_size := n\<rparr>)) = (ResultSuccess, Some n)"
    using assms(4,5) by (simp add: GetFileSizeImpl_def valid_handle_def)
  show ?thesis
    using assms(7) by (auto simp: LoadFileImpl_def o z file_buffer_def)
qed

section \<open>Finding a device\<close>

lemma strncmp_equal_text:
  assumes "is_c_string a" and "is_c_string b"
  shows "strncmp_equal a b n = Inr (take n (c_text a) = take n (c_text b))"
  using assms
proof (induction a b n rule: strncmp_equal.induct)
  case (2 x a y b n)
  then show ?case by (auto simp: is_c_string_def c_text_def)
qed (auto simp: is_c_string_def)

definition names_device :: "device_manager \<Rightarrow> string \<Rightarrow> nat \<Rightarrow> bool" where
  "names_device m name d \<longleftrightarrow>
    take MaxDrive (c_text (m_string_array (m_device_name (devices m d)))) = take MaxDrive (c_text name)"

lemma find_device:
  assumes "ring (m_mounted_file_device_list m) DeviceList (map DeviceNode ds)" and "length ds < fuel"
    and "\<And>d. d \<in> set ds \<Longrightarrow> is_c_string (m_string_array (m_device_name (devices m d)))" and "is_c_string name"
  shows "GetFileDeviceByName fuel name m = Inr (find (names_device m name) ds)"
  unfolding GetFileDeviceByName_def
  by (rule for_each_find [OF assms(1,2)]) (use assms(3,4) in \<open>simp add: strncmp_equal_text names_device_def\<close>)

text \<open>The manager hands a file to the device that was mounted first of those whose name is the drive of the
  path; when there is none it dereferences null. The path goes on with its drive.\<close>

theorem manager_picks_device:
  assumes "ring (m_mounted_file_device_list m) DeviceList (map DeviceNode ds)" and "length ds < fuel"
    and "\<And>d. d \<in> set ds \<Longrightarrow> is_c_string (m_string_array (m_device_name (devices m d)))"
    and "file_path ctx = Some path" and "drive_path path drive rest" and "length drive < MaxDrive"
  shows "manager_TryLoadFile fuel os malloc_result thread junk ctx m w g =
    (case find (\<lambda>d. take MaxDrive (c_text (m_string_array (m_device_name (devices m d)))) = drive) ds of
       None \<Rightarrow> Inl NullPointer
     | Some d \<Rightarrow> LoadFileImpl fuel os malloc_result thread (m_kind (devices m d)) junk ctx w g)"
proof -
  have n: "nul_char \<notin> set drive"
    using c_text_drop [of "length drive" 0 path] assms(5) by (simp add: drive_path_def)
  have c: "is_c_string (padded MaxDrive drive)" using assms(6) by (simp add: is_c_string_def)
  have "names_device m (padded MaxDrive drive) =
      (\<lambda>d. take MaxDrive (c_text (m_string_array (m_device_name (devices m d)))) = drive)"
    using c_text_padded [OF n, of MaxDrive] assms(6) by (simp add: names_device_def fun_eq_iff)
  then show ?thesis
    using find_device [OF assms(1-3) c] drive_parts [OF assms(5,6), of junk] path_without_drive [OF assms(5), of junk]
    by (simp add: manager_TryLoadFile_def assms(4) split: option.split)
qed

section \<open>Examples\<close>

text \<open>An operating system that has the one file \<open>resource:/a\<close>, of five bytes.\<close>

definition one_file :: "unit win32" where
  "one_file = \<lparr>CreateFile = (\<lambda>p w. (if p = ''resource:/a'' then 7 else INVALID_HANDLE_VALUE, w)),
    GetFileSizeEx = (\<lambda>h w. ((1, Some 5), w)), CloseHandle = (\<lambda>h w. (True, w)),
    SetFilePointerEx = (\<lambda>h n w. (1, w)), ReadFile = (\<lambda>h n w. ((True, n), w)),
    FlushFileBuffers = (\<lambda>h w. (True, w)), GetFileAttributesA = (\<lambda>p w. (0, w)), GetLastError = (\<lambda>w. 2)\<rparr>"

definition file_a :: string where "file_a = ''resource:/a'' @ [nul_char]"
definition file_b :: string where "file_b = ''resource:/b'' @ [nul_char]"

lemma example_paths:
  "drive_path file_a ''resource'' ''/a''" "drive_path file_b ''resource'' ''/b''"
  "c_text file_a = ''resource:/a''" "c_text file_b = ''resource:/b''"
  by (simp_all add: drive_path_def file_a_def file_b_def is_c_string_def c_text_def nul_char_def MaxPath_def)

definition example_load :: file_load_context where
  "example_load = \<lparr>out_file = 0x1000, lc_heap = 0, file_path = Some file_a, lc_file_size = 0, read_div = 16,
    lc_alignment = 8, is_heap_allocated = False\<rparr>"

theorem device_path_witness:
  "\<exists>out. FormatPath ContentFileDevice 0 (Some file_a) (FixedString MaxPath 0) = Inr (ResultSuccess, out) \<and>
    c_text (m_string_array out) = ''content/:/a''"
  using device_path [OF example_paths(1), of ContentFileDevice 0] by simp

text \<open>A file that does not exist is opened successfully.\<close>

theorem open_file_outcome_witness:
  "\<exists>h'. OpenFileImpl one_file ContentFileDevice 0 (Some null_handle) (Some file_b) OpenMode_Read () =
      Inr (ResultSuccess, Some h', ()) \<and> win32_handle h' = INVALID_HANDLE_VALUE"
  using open_file_outcome [OF example_paths(2), of ContentFileDevice OpenMode_Read one_file "()" INVALID_HANDLE_VALUE "()" 1 "Some 5" "()" 0 null_handle]
  by (auto simp: one_file_def example_paths OpenMode_Read_def OpenMode_ReadWriteAppend_def OpenMode_ReadWrite_def OpenMode_Write_def)

theorem load_refuses_contents_witness:
  "LoadFileImpl 10 one_file 0 None ContentFileDevice 0 example_load () no_heaps =
    Inr (res_ResultInvalidFileBufferSize, example_load, (), no_heaps)"
  using load_refuses_contents [OF example_paths(1), of ContentFileDevice one_file "()" 7 "()" 1 5 "()" example_load 10 0 None 0 no_heaps]
  by (simp add: one_file_def example_paths example_load_def INVALID_HANDLE_VALUE_def)

definition no_devices :: device_manager where
  "no_devices = \<lparr>m_mounted_file_device_list = \<lparr>m_prev = (\<lambda>n. n), m_next = (\<lambda>n. n)\<rparr>,
    devices = (\<lambda>_. projr (FileDevice ContentFileDevice)), m_main_file_device = None\<rparr>"

theorem manager_picks_device_witness:
  "\<exists>m. AddFileDevice (Some 3) no_devices = Inr m \<and>
    manager_TryLoadFile 10 one_file 0 None 0 example_load m () no_heaps =
      LoadFileImpl 10 one_file 0 None ContentFileDevice 0 example_load () no_heaps \<and>
    manager_TryLoadFile 10 one_file 0 None 0 example_load no_devices () no_heaps = Inl NullPointer"
proof -
  have d: "FileDevice ContentFileDevice = Inr \<lparr>m_device_name = \<lparr>m_string_array = padded 32 ''resource'', m_length = 8\<rparr>,
      m_kind = ContentFileDevice\<rparr>"
    by code_simp
  let ?m = "no_devices\<lparr>m_mounted_file_device_list := PushBack DeviceList (DeviceNode 3) (m_mounted_file_device_list no_devices)\<rparr>"
  have a: "AddFileDevice (Some 3) no_devices = Inr ?m" by (simp add: AddFileDevice_def)
  have "ring (PushBack DeviceList (DeviceNode 3) (m_mounted_file_device_list no_devices)) DeviceList ([] @ [DeviceNode 3])"
    by (rule ring_PushBack) (simp_all add: no_devices_def unlinked_def)
  then have r: "ring (m_mounted_file_device_list ?m) DeviceList (map DeviceNode [3])" by simp
  have t: "c_text (padded 32 ''resource'') = ''resource''" by (rule c_text_padded) (simp add: nul_char_def)
  have "manager_TryLoadFile 10 one_file 0 None 0 example_load ?m () no_heaps =
      LoadFileImpl 10 one_file 0 None ContentFileDevice 0 example_load () no_heaps"
    using manager_picks_device [OF r, of 10 example_load file_a "''resource''" "''/a''" one_file 0 None 0 "()" no_heaps] example_paths(1) d t
    by (simp add: example_load_def no_devices_def MaxDrive_def is_c_string_def)
  moreover have "manager_TryLoadFile 10 one_file 0 None 0 example_load no_devices () no_heaps = Inl NullPointer"
    using manager_picks_device [of no_devices "[]" 10 example_load file_a "''resource''" "''/a''" one_file 0 None 0 "()" no_heaps] example_paths(1)
    by (simp add: example_load_def no_devices_def MaxDrive_def unlinked_def)
  ultimately show ?thesis using a by blast
qed

end
