(* ===== verification/Resource_Manager.thy ===== *)
theory Resource_Manager
  imports File_Device
begin

text \<open>
  Resources: \<open>ResourceFactoryBase\<close> and \<open>ResourceFactoryManager\<close> of \<open>res_resourcemanager.hpp\<close>. The manager
  keeps the registered factories in an intrusive list, under a lock that makes each call one step, and
  loads a resource with the factory that goes with the extension of its file.

  Shown here: registering and removing a factory change exactly its own look-up, and the text
  that \<open>TryLoad\<close> looks up is the directory of the path.
\<close>

section \<open>State\<close>

text \<open>Factories have addresses; \<open>m_file_extension\<close> may be null. \<open>initialized\<close> records the calls of
  \<open>InitializeResource\<close>, which the user provides: the resource, its file and the size.\<close>

datatype factory_node = FactoryList | FactoryNode nat

record factory_manager =
  m_resource_factory_list :: "factory_node links"
  m_file_extension :: "nat \<Rightarrow> string option"

record resource_load_context =
  resource_factory :: "nat option"
  rl_file_device :: "nat option"
  rl_file_load_context :: file_load_context

record 'w res_world =
  os_state :: 'w
  res_heaps :: heap_manager
  initialized :: "(u64 \<times> u64 \<times> u32) list"

definition sizeof_ResourceBase :: u64 where "sizeof_ResourceBase = 24"

definition GetResourceAlignment :: u32 where "GetResourceAlignment = 4"

section \<open>Factories\<close>

definition AllocateResource :: "u64 \<Rightarrow> nat option \<Rightarrow> u64 \<Rightarrow> u32 \<Rightarrow> heap_manager \<Rightarrow> (u64 \<times> heap_manager) outcome" where
  "AllocateResource malloc_result thread heap align g = operator_new_heap malloc_result thread sizeof_ResourceBase heap align g"

definition factory_TryLoad :: "nat \<Rightarrow> 'w win32 \<Rightarrow> u64 \<Rightarrow> nat option \<Rightarrow> u32 \<Rightarrow> device_manager \<Rightarrow> resource_load_context \<Rightarrow> 'w res_world
    \<Rightarrow> (u32 \<times> resource_load_context \<times> 'w res_world) outcome" where
  "factory_TryLoad fuel os malloc_result thread junk dm load_arg s =
    (let ctx = rl_file_load_context load_arg in
     and_then (AllocateResource malloc_result thread (lc_heap ctx) GetResourceAlignment (res_heaps s)) (\<lambda>(res, g).
     if res = 0 then Inr (res_ResultResourceAllocationFailed, load_arg, s\<lparr>res_heaps := g\<rparr>)
     else
       and_then (case rl_file_device load_arg of
           None \<Rightarrow> manager_TryLoadFile fuel os malloc_result thread junk ctx dm (os_state s) g
         | Some d \<Rightarrow> LoadFileImpl fuel os malloc_result thread (m_kind (devices dm d)) junk ctx (os_state s) g)
       (\<lambda>(result, ctx, w, g).
       let load_arg = load_arg\<lparr>rl_file_load_context := ctx\<rparr>; s = s\<lparr>os_state := w, res_heaps := g\<rparr> in
       if result \<noteq> ResultSuccess then Inr (result, load_arg, s)
       else Inr (ResultSuccess, load_arg,
         s\<lparr>initialized := initialized s @ [(res, out_file ctx, ucast (lc_file_size ctx))]\<rparr>))))"

section \<open>The manager\<close>

definition RegisterResourceFactory :: "nat \<Rightarrow> factory_manager \<Rightarrow> factory_manager outcome" where
  "RegisterResourceFactory f m =
    and_then (dd_assert (m_file_extension m f \<noteq> None) m) (\<lambda>m.
    Inr (m\<lparr>m_resource_factory_list := PushBack FactoryList (FactoryNode f) (m_resource_factory_list m)\<rparr>))"

definition RemoveResourceFactory :: "nat \<Rightarrow> factory_manager \<Rightarrow> factory_manager" where
  "RemoveResourceFactory f m = m\<lparr>m_resource_factory_list := Unlink (FactoryNode f) (m_resource_factory_list m)\<rparr>"

text \<open>Whether \<open>strcmp\<close> returns zero.\<close>

fun strcmp_equal :: "string \<Rightarrow> string \<Rightarrow> bool outcome" where
  "strcmp_equal (x # a) (y # b) =
    (if x \<noteq> y then Inr False else if x = nul_char then Inr True else strcmp_equal a b)"
| "strcmp_equal _ _ = Inl OutOfBounds"

fun factory_parent :: "factory_node \<Rightarrow> nat outcome" where
  "factory_parent FactoryList = Inl BadObject"
| "factory_parent (FactoryNode f) = Inr f"

definition FindResourceFactory :: "nat \<Rightarrow> string \<Rightarrow> factory_manager \<Rightarrow> nat option outcome" where
  "FindResourceFactory fuel file_extension m =
    for_each fuel (\<lambda>_. m_resource_factory_list m) FactoryList
      (\<lambda>n found. and_then (factory_parent n) (\<lambda>f.
        and_then (deref (m_file_extension m f)) (\<lambda>e.
        and_then (strcmp_equal e file_extension) (\<lambda>eq.
        Inr (if eq then (True, Some f) else (False, found)))))) None"

definition resources_TryLoad :: "nat \<Rightarrow> 'w win32 \<Rightarrow> u64 \<Rightarrow> nat option \<Rightarrow> u32 \<Rightarrow> device_manager \<Rightarrow> factory_manager
    \<Rightarrow> resource_load_context \<Rightarrow> 'w res_world \<Rightarrow> (resource_load_context \<times> 'w res_world) outcome" where
  "resources_TryLoad fuel os malloc_result thread junk dm m load_arg s =
    and_then (case resource_factory load_arg of Some f \<Rightarrow> Inr (Some f)
      | None \<Rightarrow>
          and_then (GetExtensionFromPath (file_path (rl_file_load_context load_arg)) (Some (FixedString MaxPath junk))) (\<lambda>p.
          and_then (deref p) (\<lambda>extension. FindResourceFactory fuel (m_string_array extension) m))) (\<lambda>found.
    and_then (deref found) (\<lambda>f.
    and_then (factory_TryLoad fuel os malloc_result thread junk dm load_arg s) (\<lambda>(result, load_arg, s).
    if result \<noteq> ResultSuccess then Inl AssertFailed else Inr (load_arg, s))))"

section \<open>Looking up a factory\<close>

text \<open>The list holds the factories \<open>fs\<close>, which have extensions.\<close>

definition registered :: "factory_manager \<Rightarrow> nat list \<Rightarrow> bool" where
  "registered m fs \<longleftrightarrow> ring (m_resource_factory_list m) FactoryList (map FactoryNode fs) \<and>
    (\<forall>f\<in>set fs. \<exists>e. m_file_extension m f = Some e \<and> is_c_string e)"

definition extension_of :: "factory_manager \<Rightarrow> nat \<Rightarrow> string" where
  "extension_of m f = (case m_file_extension m f of None \<Rightarrow> [] | Some e \<Rightarrow> c_text e)"

lemma strcmp_equal_text:
  assumes "is_c_string a" and "is_c_string b"
  shows "strcmp_equal a b = Inr (c_text a = c_text b)"
  using assms
proof (induction a b rule: strcmp_equal.induct)
  case (1 x a y b)
  then show ?case by (auto simp: is_c_string_def c_text_def)
qed (auto simp: is_c_string_def)

lemma find_factory:
  assumes "registered m fs" and "length fs < fuel" and "is_c_string ext"
  shows "FindResourceFactory fuel ext m = Inr (find (\<lambda>f. extension_of m f = c_text ext) fs)"
  unfolding FindResourceFactory_def
proof (rule for_each_find)
  fix f found assume "f \<in> set fs"
  then obtain e where "m_file_extension m f = Some e" "is_c_string e" using assms(1) by (auto simp: registered_def)
  then show "and_then (factory_parent (FactoryNode f)) (\<lambda>f. and_then (deref (m_file_extension m f)) (\<lambda>e.
      and_then (strcmp_equal e ext) (\<lambda>eq. Inr (if eq then (True, Some f) else (False, found))))) =
    Inr (if extension_of m f = c_text ext then (True, Some f) else (False, found))"
    using assms(3) by (simp add: strcmp_equal_text extension_of_def)
qed (use assms in \<open>auto simp: registered_def\<close>)

lemma registered_add:
  assumes "registered m fs" and "f \<notin> set fs" and "m_file_extension m f = Some e" and "is_c_string e"
    and "unlinked (m_resource_factory_list m) (FactoryNode f)"
  shows "\<exists>m'. RegisterResourceFactory f m = Inr m' \<and> registered m' (fs @ [f]) \<and> m_file_extension m' = m_file_extension m"
proof -
  have "FactoryNode f \<notin> set (FactoryList # map FactoryNode fs)" using assms(2) by auto
  with assms(1,5) have "ring (PushBack FactoryList (FactoryNode f) (m_resource_factory_list m)) FactoryList
      (map FactoryNode fs @ [FactoryNode f])"
    by (intro ring_PushBack) (auto simp: registered_def)
  then show ?thesis using assms by (auto simp: registered_def RegisterResourceFactory_def)
qed

lemma registered_remove:
  assumes "registered m (fs @ f # gs)"
  shows "registered (RemoveResourceFactory f m) (fs @ gs)"
  using assms ring_Unlink(1) [of _ FactoryList "map FactoryNode fs" "FactoryNode f" "map FactoryNode gs"]
  by (auto simp: registered_def RemoveResourceFactory_def)

section \<open>Properties\<close>


text \<open>Without a factory in the request, \<open>TryLoad\<close> takes the first factory whose extension is the directory of the
  file, and dereferences null when there is none. A result other than success ends the process.\<close>

theorem load_looks_up_directory:
  assumes "registered m fs" and "length fs < fuel" and "resource_factory load_arg = None"
    and "file_path (rl_file_load_context load_arg) = Some path"
    and "GetDirectory (Some path) (Some (FixedString MaxPath junk)) = Inr (Some dir)" and "is_c_string (m_string_array dir)"
  shows "resources_TryLoad fuel os malloc_result thread junk dm m load_arg s =
    (if \<exists>f\<in>set fs. extension_of m f = c_text (m_string_array dir)
     then and_then (factory_TryLoad fuel os malloc_result thread junk dm load_arg s) (\<lambda>(result, load_arg, s).
       if result \<noteq> ResultSuccess then Inl AssertFailed else Inr (load_arg, s))
     else Inl NullPointer)"
proof -
  have "extension_part = directory_part" by (intro ext) (simp add: extension_part_def directory_part_def)
  then have e: "GetExtensionFromPath = GetDirectory" by (simp add: GetExtensionFromPath_def GetDirectory_def)
  let ?r = "find (\<lambda>f. extension_of m f = c_text (m_string_array dir)) fs"
  have "resources_TryLoad fuel os malloc_result thread junk dm m load_arg s =
    and_then (deref ?r) (\<lambda>f. and_then (factory_TryLoad fuel os malloc_result thread junk dm load_arg s) (\<lambda>(result, load_arg, s).
       if result \<noteq> ResultSuccess then Inl AssertFailed else Inr (load_arg, s)))"
    using find_factory [OF assms(1,2,6)] assms(3-5) e
    by (simp add: resources_TryLoad_def)
  then show ?thesis by (cases ?r) (auto simp: find_None_iff find_Some_iff)
qed

section \<open>Examples\<close>

definition no_factories :: factory_manager where
  "no_factories = \<lparr>m_resource_factory_list = \<lparr>m_prev = (\<lambda>n. n), m_next = (\<lambda>n. n)\<rparr>,
    m_file_extension = (\<lambda>_. Some (''bin'' @ [nul_char]))\<rparr>"

lemma no_factories_registered: "registered no_factories []"
  by (simp add: registered_def no_factories_def unlinked_def)


definition request :: resource_load_context where
  "request = \<lparr>resource_factory = None, rl_file_device = None, rl_file_load_context = example_load\<rparr>"

theorem load_looks_up_directory_witness:
  "resources_TryLoad 9 one_file 0 None 0 no_devices no_factories request
    \<lparr>os_state = (), res_heaps = no_heaps, initialized = []\<rparr> = Inl NullPointer"
proof -
  have "case GetDirectory (Some file_a) (Some (FixedString MaxPath 0)) of Inr (Some d) \<Rightarrow> is_c_string (m_string_array d) | _ \<Rightarrow> False"
    by code_simp
  then obtain d where "GetDirectory (Some file_a) (Some (FixedString MaxPath 0)) = Inr (Some d)" "is_c_string (m_string_array d)"
    by (auto split: sum.splits option.splits)
  then show ?thesis
    using load_looks_up_directory [OF no_factories_registered, of 9 request file_a 0 d one_file 0 None no_devices]
    by (simp add: request_def example_load_def)
qed

end
