(* ===== verification/Raw_Input.thy ===== *)
theory Raw_Input
  imports DD_Prelude
begin

text \<open>
  Keyboard and mouse: \<open>hid_rawinput.h\<close> and \<open>hid_rawinput.cpp\<close>. The input thread hands in the raw reports of
  Win32 (\<open>SetLastRawInput\<close>), and once a frame \<open>BeginFrame\<close> turns what has been gathered into the state the
  program reads. Reports are arguments; each function holds a critical section while it runs, so
  a call is one step.

  Shown here: setting and reading a key, the life of a key from frame to frame, the keys that
  the shift of an \<open>int\<close> does not reach, the movements of the mouse, and that no button of the
  mouse is ever reported.
\<close>

section \<open>Keys\<close>

text \<open>The codes, and the bit-fields over the array with their widths and the codes their comments give.\<close>

definition VirtualKey :: "(string \<times> u8) list" where
  "VirtualKey = [
   (''LButton'', 0x01), (''RButton'', 0x02), (''Cancel'', 0x03), (''MButton'', 0x04), (''XButton1'', 0x05),
   (''XButton2'', 0x06), (''Backspace'', 0x08), (''Tab'', 0x09), (''Clear'', 0x0C), (''Enter'', 0x0D),
   (''Shift'', 0x10), (''Ctrl'', 0x11), (''Alt'', 0x12), (''Pause'', 0x13), (''CapsLock'', 0x14),
   (''KanaMode'', 0x15), (''HanguelMode'', 0x15), (''HangulMode'', 0x15), (''IMEOn'', 0x16),
   (''JunjaMode'', 0x17), (''FinalMode'', 0x18), (''KanjiMode'', 0x19), (''IMEOff'', 0x1A),
   (''Escape'', 0x1B), (''Convert'', 0x1C), (''NonConvert'', 0x1D), (''Accept'', 0x1E),
   (''ModeChange'', 0x1F), (''Space'', 0x20), (''PageUp'', 0x21), (''PageDown'', 0x22), (''End'', 0x23),
   (''Home'', 0x24), (''Left'', 0x25), (''Up'', 0x26), (''Right'', 0x27), (''Down'', 0x28),
   (''Select'', 0x29), (''Print'', 0x2A), (''Execute'', 0x2B), (''PrintScreen'', 0x2C), (''Insert'', 0x2D),
   (''Delete'', 0x2E), (''Help'', 0x2F), (''0'', 0x30), (''1'', 0x31), (''2'', 0x32), (''3'', 0x33),
   (''4'', 0x34), (''5'', 0x35), (''6'', 0x36), (''7'', 0x37), (''8'', 0x38), (''9'', 0x39), (''A'', 0x41),
   (''B'', 0x42), (''C'', 0x43), (''D'', 0x44), (''E'', 0x45), (''F'', 0x46), (''G'', 0x47), (''H'', 0x48),
   (''I'', 0x49), (''J'', 0x4A), (''K'', 0x4B), (''L'', 0x4C), (''M'', 0x4D), (''N'', 0x4E), (''O'', 0x4F),
   (''P'', 0x50), (''Q'', 0x51), (''R'', 0x52), (''S'', 0x53), (''T'', 0x54), (''U'', 0x55), (''V'', 0x56),
   (''W'', 0x57), (''X'', 0x58), (''Y'', 0x59), (''Z'', 0x5A), (''LeftWin'', 0x5B), (''RightWin'', 0x5C),
   (''Apps'', 0x5D), (''Sleep'', 0x5F), (''Numpad0'', 0x60), (''Numpad1'', 0x61), (''Numpad2'', 0x62),
   (''Numpad3'', 0x63), (''Numpad4'', 0x64), (''Numpad5'', 0x65), (''Numpad6'', 0x66), (''Numpad7'', 0x67),
   (''Numpad8'', 0x68), (''Numpad9'', 0x69), (''Multiply'', 0x6A), (''Add'', 0x6B), (''Seperator'', 0x6C),
   (''Subtract'', 0x6D), (''Decimal'', 0x6E), (''Divide'', 0x6F), (''F1'', 0x70), (''F2'', 0x71),
   (''F3'', 0x72), (''F4'', 0x73), (''F5'', 0x74), (''F6'', 0x75), (''F7'', 0x76), (''F8'', 0x77),
   (''F9'', 0x78), (''F10'', 0x79), (''F11'', 0x7A), (''F12'', 0x7B), (''F13'', 0x7C), (''F14'', 0x7D),
   (''F15'', 0x7E), (''F16'', 0x7F), (''F17'', 0x80), (''F18'', 0x81), (''F19'', 0x82), (''F20'', 0x83),
   (''F21'', 0x84), (''F22'', 0x85), (''F23'', 0x86), (''F24'', 0x87), (''NumLock'', 0x90),
   (''ScrollLock'', 0x91), (''LeftShift'', 0xA0), (''RightShift'', 0xA1), (''LeftControl'', 0xA2),
   (''RightControl'', 0xA3), (''LeftMenu'', 0xA4), (''RightMenu'', 0xA5), (''BrowserBack'', 0xA6),
   (''BrowserForward'', 0xA7), (''BrowserRefresh'', 0xA8), (''BrowserStop'', 0xA9),
   (''BrowserSearch'', 0xAA), (''BrowserFavorites'', 0xAB), (''BrowserHome'', 0xAC), (''VolumeMute'', 0xAD),
   (''VolumeDown'', 0xAE), (''VolumeUp'', 0xAF), (''MediaNext'', 0xB0), (''MediaPrev'', 0xB1),
   (''MediaStop'', 0xB2), (''MediaPlayPause'', 0xB3), (''LaunchMail'', 0xB4), (''LaunchMedia'', 0xB5),
   (''LaunchApp1'', 0xB6), (''LaunchApp2'', 0xB7), (''Oem1'', 0xBA), (''OemPlus'', 0xBB),
   (''OemComma'', 0xBC), (''OemMinus'', 0xBD), (''OemPeriod'', 0xBE), (''Oem2'', 0xBF), (''Oem3'', 0xC0),
   (''Oem4'', 0xDB), (''Oem5'', 0xDC), (''Oem6'', 0xDD), (''Oem7'', 0xDE), (''Oem8'', 0xDF),
   (''Oem102'', 0xE2), (''ProcessKey'', 0xE5), (''Packet'', 0xE7), (''Attn'', 0xF6), (''CrSel'', 0xF7),
   (''ExSel'', 0xF8), (''EraseEof'', 0xF9), (''Play'', 0xFA), (''Zoom'', 0xFB), (''NoName'', 0xFC),
   (''Pa1'', 0xFD), (''OemClear'', 0xFE)]"

definition key_fields :: "(string \<times> nat \<times> nat) list" where
  "key_fields = [
   (''reserve17'', 1, 0x00), (''vk_lbutton'', 1, 0x01), (''vk_rbutton'', 1, 0x02), (''vk_cancel'', 1, 0x03),
   (''vk_mbutton'', 1, 0x04), (''vk_xbutton1'', 1, 0x05), (''vk_xbutton2'', 1, 0x06),
   (''reserve0'', 1, 0x07), (''vk_backspace'', 1, 0x08), (''vk_tab'', 1, 0x09), (''reserve1'', 2, 0x0A),
   (''vk_clear'', 1, 0x0C), (''vk_enter'', 1, 0x0D), (''reserve2'', 2, 0x0E), (''vk_shift'', 1, 0x10),
   (''vk_ctrl'', 1, 0x11), (''vk_alt'', 1, 0x12), (''vk_pause'', 1, 0x13), (''vk_caps_lock'', 1, 0x14),
   (''vk_kana_mode'', 1, 0x15), (''vk_ime_enable'', 1, 0x16), (''vk_junja_mode'', 1, 0x17),
   (''vk_final_mode'', 1, 0x18), (''vk_kanji_mode'', 1, 0x19), (''vk_ime_disable'', 1, 0x1A),
   (''vk_esc'', 1, 0x1B), (''vk_convert'', 1, 0x1C), (''vk_nonconvert'', 1, 0x1D), (''vk_accept'', 1, 0x1E),
   (''vk_mode_change'', 1, 0x1F), (''vk_space'', 1, 0x20), (''vk_page_up'', 1, 0x21),
   (''vk_page_down'', 1, 0x22), (''vk_end'', 1, 0x23), (''vk_home'', 1, 0x24), (''vk_left'', 1, 0x25),
   (''vk_up'', 1, 0x26), (''vk_right'', 1, 0x27), (''vk_down'', 1, 0x28), (''vk_select'', 1, 0x29),
   (''vk_print'', 1, 0x2A), (''vk_execute'', 1, 0x2B), (''vk_print_screen'', 1, 0x2C),
   (''vk_insert'', 1, 0x2D), (''vk_delete'', 1, 0x2E), (''vk_help'', 1, 0x2F), (''vk_0'', 1, 0x30),
   (''vk_1'', 1, 0x31), (''vk_2'', 1, 0x32), (''vk_3'', 1, 0x33), (''vk_4'', 1, 0x34), (''vk_5'', 1, 0x35),
   (''vk_6'', 1, 0x36), (''vk_7'', 1, 0x37), (''vk_8'', 1, 0x38), (''vk_9'', 1, 0x39),
   (''reserve3'', 6, 0x3A), (''vk_a'', 1, 0x41), (''vk_b'', 1, 0x42), (''vk_c'', 1, 0x43),
   (''vk_d'', 1, 0x44), (''vk_e'', 1, 0x45), (''vk_f'', 1, 0x46), (''vk_g'', 1, 0x47), (''vk_h'', 1, 0x48),
   (''vk_i'', 1, 0x49), (''vk_j'', 1, 0x4A), (''vk_k'', 1, 0x4B), (''vk_l'', 1, 0x4C), (''vk_m'', 1, 0x4D),
   (''vk_n'', 1, 0x4E), (''vk_o'', 1, 0x4F), (''vk_p'', 1, 0x50), (''vk_q'', 1, 0x51), (''vk_r'', 1, 0x52),
   (''vk_s'', 1, 0x53), (''vk_t'', 1, 0x54), (''vk_u'', 1, 0x55), (''vk_v'', 1, 0x56), (''vk_w'', 1, 0x57),
   (''vk_x'', 1, 0x58), (''vk_y'', 1, 0x59), (''vk_z'', 1, 0x5A), (''vk_lwin'', 1, 0x5B),
   (''vk_rwin'', 1, 0x5C), (''vk_apps'', 1, 0x5D), (''reserve4'', 1, 0x5E), (''vk_sleep'', 1, 0x5F),
   (''vk_numpad_0'', 1, 0x60), (''vk_numpad_1'', 1, 0x61), (''vk_numpad_2'', 1, 0x62),
   (''vk_numpad_3'', 1, 0x63), (''vk_numpad_4'', 1, 0x64), (''vk_numpad_5'', 1, 0x65),
   (''vk_numpad_6'', 1, 0x66), (''vk_numpad_7'', 1, 0x67), (''vk_numpad_8'', 1, 0x68),
   (''vk_numpad_9'', 1, 0x69), (''vk_multiply'', 1, 0x6A), (''vk_add'', 1, 0x6B),
   (''vk_seperator'', 1, 0x6C), (''vk_subtract'', 1, 0x6D), (''vk_decimal'', 1, 0x6E),
   (''vk_divide'', 1, 0x6F), (''vk_f1'', 1, 0x70), (''vk_f2'', 1, 0x71), (''vk_f3'', 1, 0x72),
   (''vk_f4'', 1, 0x73), (''vk_f5'', 1, 0x74), (''vk_f6'', 1, 0x75), (''vk_f7'', 1, 0x76),
   (''vk_f8'', 1, 0x77), (''vk_f9'', 1, 0x78), (''vk_f10'', 1, 0x79), (''vk_f11'', 1, 0x7A),
   (''vk_f12'', 1, 0x7B), (''vk_f13'', 1, 0x7C), (''vk_f14'', 1, 0x7D), (''vk_f15'', 1, 0x7E),
   (''vk_f16'', 1, 0x7F), (''vk_f17'', 1, 0x80), (''vk_f18'', 1, 0x81), (''vk_f19'', 1, 0x82),
   (''vk_f20'', 1, 0x83), (''vk_f21'', 1, 0x84), (''vk_f22'', 1, 0x85), (''vk_f23'', 1, 0x86),
   (''vk_f24'', 1, 0x87), (''reserve5'', 7, 0x88), (''vk_num_lock'', 1, 0x90),
   (''vk_scroll_lock'', 1, 0x91), (''vk_oem_specific'', 4, 0x92), (''reserve6'', 8, 0x97),
   (''vk_lshift'', 1, 0xA0), (''vk_rshift'', 1, 0xA1), (''vk_lcontrol'', 1, 0xA2),
   (''vk_rcontrol'', 1, 0xA3), (''vk_lmenu'', 1, 0xA4), (''vk_rmenu'', 1, 0xA5),
   (''vk_browser_back'', 1, 0xA6), (''vk_browser_forward'', 1, 0xA7), (''vk_browser_refresh'', 1, 0xA8),
   (''vk_browser_stop'', 1, 0xA9), (''vk_browser_search'', 1, 0xAA), (''vk_browser_favorites'', 1, 0xAB),
   (''vk_browser_home'', 1, 0xAC), (''vk_volume_mute'', 1, 0xAD), (''vk_volume_down'', 1, 0xAE),
   (''vk_volume_up'', 1, 0xAF), (''vk_media_next'', 1, 0xB0), (''vk_media_prev'', 1, 0xB1),
   (''vk_media_stop'', 1, 0xB2), (''vk_media_play_pause'', 1, 0xB3), (''vk_launch_mail'', 1, 0xB4),
   (''vk_launch_media'', 1, 0xB5), (''vk_launch_app1'', 1, 0xB6), (''vk_launch_app2'', 1, 0xB7),
   (''reserve7'', 2, 0xB8), (''vk_oem_1'', 1, 0xBA), (''vk_oem_plus'', 1, 0xBB),
   (''vk_oem_comma'', 1, 0xBC), (''vk_oem_minus'', 1, 0xBD), (''vk_oem_period'', 1, 0xBE),
   (''vk_oem_2'', 1, 0xBF), (''vk_oem_3'', 1, 0xC0), (''reserve8'', 16, 0xC1), (''reserve9'', 2, 0xD8),
   (''vk_oem_4'', 1, 0xDB), (''vk_oem_5'', 1, 0xDC), (''vk_oem_6'', 1, 0xDD), (''vk_oem_7'', 1, 0xDE),
   (''vk_oem_8'', 1, 0xDF), (''reserve10'', 1, 0xE0), (''reserve11'', 1, 0xE1), (''vk_oem_102'', 1, 0xE2),
   (''reserve12'', 2, 0xE3), (''vk_process_key'', 1, 0xE5), (''reserve13'', 1, 0xE6),
   (''vk_packet'', 1, 0xE7), (''reserve14'', 1, 0xE8), (''reserve15'', 12, 0xE9), (''vk_attn'', 1, 0xF6),
   (''vk_crsel'', 1, 0xF7), (''vk_exsel'', 1, 0xF8), (''vk_erase_eof'', 1, 0xF9), (''vk_play'', 1, 0xFA),
   (''vk_zoom'', 1, 0xFB), (''vk_noname'', 1, 0xFC), (''vk_pa1'', 1, 0xFD), (''vk_oem_clear'', 1, 0xFE),
   (''reserve16'', 1, 0xFF)]"

text \<open>Where the compiler puts bit-fields of a 64 bit type: one after the other, and none across two units.\<close>

fun field_offsets :: "nat \<Rightarrow> (string \<times> nat \<times> nat) list \<Rightarrow> (string \<times> nat) list" where
  "field_offsets off [] = []"
| "field_offsets off ((n, w, c) # fs) =
    (let off = (if off div 64 = (off + w - 1) div 64 then off else (off div 64 + 1) * 64)
     in (n, off) # field_offsets (off + w) fs)"

record KeyState =
  state_array :: "u64 list"

definition no_keys :: KeyState where "no_keys = \<lparr>state_array = replicate 4 0\<rparr>"

definition key_or :: "KeyState \<Rightarrow> KeyState \<Rightarrow> KeyState" where
  "key_or this rhs = \<lparr>state_array = map2 (OR) (state_array this) (state_array rhs)\<rparr>"

definition key_and :: "KeyState \<Rightarrow> KeyState \<Rightarrow> KeyState" where
  "key_and this rhs = \<lparr>state_array = map2 (AND) (state_array this) (state_array rhs)\<rparr>"

definition key_not :: "KeyState \<Rightarrow> KeyState" where
  "key_not this = \<lparr>state_array = map NOT (state_array this)\<rparr>"

text \<open>\<open>1 << (vk_code % 64)\<close> shifts an \<open>int\<close>, and the result becomes a \<open>u64\<close>.\<close>

definition key_pos :: "u8 \<Rightarrow> u64 outcome" where
  "key_pos vk_code =
    (if 32 \<le> unat vk_code mod 64 then Inl ShiftRange else Inr (scast (push_bit (unat vk_code mod 64) (1 :: s32))))"

definition key_index :: "u8 \<Rightarrow> nat" where
  "key_index vk_code = unat (drop_bit 6 vk_code)"

definition GetKeyState :: "u8 \<Rightarrow> KeyState \<Rightarrow> bool outcome" where
  "GetKeyState vk_code this =
    and_then (key_pos vk_code) (\<lambda>p. Inr (state_array this ! key_index vk_code AND p = p))"

definition SetKeyState :: "u8 \<Rightarrow> KeyState \<Rightarrow> KeyState outcome" where
  "SetKeyState vk_code this =
    and_then (key_pos vk_code) (\<lambda>p. Inr \<lparr>state_array =
      (state_array this)[key_index vk_code := state_array this ! key_index vk_code OR p]\<rparr>)"

definition ClearKeyState :: "u8 \<Rightarrow> KeyState \<Rightarrow> KeyState outcome" where
  "ClearKeyState vk_code this =
    and_then (key_pos vk_code) (\<lambda>p. Inr \<lparr>state_array =
      (state_array this)[key_index vk_code := state_array this ! key_index vk_code AND NOT p]\<rparr>)"

section \<open>Keyboard\<close>

record KeyboardState =
  pressed_keys :: KeyState
  held_keys :: KeyState
  released_keys :: KeyState

definition IsKeyPressed :: "u8 \<Rightarrow> KeyboardState \<Rightarrow> bool outcome" where
  "IsKeyPressed vk s = GetKeyState vk (pressed_keys s)"
definition IsKeyHeld :: "u8 \<Rightarrow> KeyboardState \<Rightarrow> bool outcome" where
  "IsKeyHeld vk s = GetKeyState vk (held_keys s)"
definition IsKeyUp :: "u8 \<Rightarrow> KeyboardState \<Rightarrow> bool outcome" where
  "IsKeyUp vk s = GetKeyState vk (released_keys s)"

record keyboard =
  frame_keyboard_state :: KeyboardState
  pressed_state :: KeyState
  pressed_state_last :: KeyState
  released_state :: KeyState
  released_state_last :: KeyState
  aheld_state :: KeyState

definition initial_keyboard :: keyboard where
  "initial_keyboard = \<lparr>frame_keyboard_state = \<lparr>pressed_keys = no_keys, held_keys = no_keys, released_keys = no_keys\<rparr>,
    pressed_state = no_keys, pressed_state_last = no_keys, released_state = no_keys,
    released_state_last = no_keys, aheld_state = no_keys\<rparr>"

text \<open>A report of the keyboard: its flags (0 is \<open>RI_KEY_MAKE\<close>, 1 is \<open>RI_KEY_BREAK\<close>) and the code, of which
  the calls take the low byte.\<close>

definition SetKeyboardState :: "u16 \<Rightarrow> u16 \<Rightarrow> keyboard \<Rightarrow> keyboard outcome" where
  "SetKeyboardState flags VKey k =
    (if flags = 0 then
       and_then (SetKeyState (ucast VKey) (pressed_state k)) (\<lambda>p. Inr (k\<lparr>pressed_state := p\<rparr>))
     else if flags = 1 then
       and_then (SetKeyState (ucast VKey) (released_state k)) (\<lambda>r.
       and_then (ClearKeyState (ucast VKey) (pressed_state k)) (\<lambda>p.
       and_then (ClearKeyState (ucast VKey) p) (\<lambda>p. Inr (k\<lparr>released_state := r, pressed_state := p\<rparr>))))
     else Inr k)"

definition BeginFrame_keyboard :: "keyboard \<Rightarrow> keyboard" where
  "BeginFrame_keyboard k =
    (let k = k\<lparr>aheld_state := key_or (aheld_state k) (key_and (pressed_state k) (key_not (released_state k)))\<rparr>;
         k = k\<lparr>frame_keyboard_state := \<lparr>
               pressed_keys = key_and (pressed_state k) (key_not (pressed_state_last k)),
               held_keys = key_or (pressed_state k) (key_and (pressed_state_last k) (key_not (released_state_last k))),
               released_keys = released_state k\<rparr>\<rparr>
     in k\<lparr>pressed_state_last := pressed_state k, released_state_last := released_state k, released_state := no_keys\<rparr>)"

definition GetKeyboardState :: "keyboard \<Rightarrow> KeyboardState" where
  "GetKeyboardState k = frame_keyboard_state k"

section \<open>Mouse\<close>

definition MouseButton_Left :: u16 where "MouseButton_Left = 0x01"
definition MouseButton_Right :: u16 where "MouseButton_Right = 0x04"
definition MouseButton_Middle :: u16 where "MouseButton_Middle = 0x10"
definition MouseButton_X1 :: u16 where "MouseButton_X1 = 0x40"
definition MouseButton_X2 :: u16 where "MouseButton_X2 = 0x100"

record MouseState =
  absolute_x :: int
  absolute_y :: int
  delta_x :: int
  delta_y :: int
  delta_vwheel :: int
  delta_hwheel :: int
  button_state :: u16
  button_held :: u16

definition ButtonDownMask :: u16 where
  "ButtonDownMask = MouseButton_Left OR MouseButton_Right OR MouseButton_Middle OR MouseButton_X1 OR MouseButton_X2"

definition GetButtonDown :: "u16 \<Rightarrow> MouseState \<Rightarrow> bool" where
  "GetButtonDown mouse_button s \<longleftrightarrow> button_state s AND mouse_button \<noteq> 0"
definition GetButtonHeld :: "u16 \<Rightarrow> MouseState \<Rightarrow> bool" where
  "GetButtonHeld mouse_button s \<longleftrightarrow> button_held s AND mouse_button \<noteq> 0"
definition GetButtonUp :: "u16 \<Rightarrow> MouseState \<Rightarrow> bool" where
  "GetButtonUp mouse_button s \<longleftrightarrow> (ucast (button_state s) :: u32) AND push_bit 1 (ucast mouse_button) \<noteq> 0"

definition no_mouse :: MouseState where
  "no_mouse = \<lparr>absolute_x = 0, absolute_y = 0, delta_x = 0, delta_y = 0, delta_vwheel = 0, delta_hwheel = 0,
    button_state = 0, button_held = 0\<rparr>"

text \<open>A report of the mouse, the fields the code reads.\<close>

record raw_mouse =
  usFlags :: u16
  usButtonFlags :: u16
  usButtonData :: u16
  lLastX :: int
  lLastY :: int

record mouse =
  last_raw_mouse :: raw_mouse
  interim_mouse_state :: MouseState
  frame_mouse_state :: MouseState

definition initial_mouse :: mouse where
  "initial_mouse = \<lparr>last_raw_mouse = \<lparr>usFlags = 0, usButtonFlags = 0, usButtonData = 0, lLastX = 0, lLastY = 0\<rparr>,
    interim_mouse_state = no_mouse, frame_mouse_state = no_mouse\<rparr>"

definition add_s32 :: "int \<Rightarrow> int \<Rightarrow> (int \<Rightarrow> MouseState \<Rightarrow> MouseState) \<Rightarrow> MouseState \<Rightarrow> MouseState outcome" where
  "add_s32 a b store m = and_then (s32_val (a + b)) (\<lambda>v. Inr (store v m))"

text \<open>The movement: an absolute position is scaled to the width and height of the screen (the argument;
  the rounding of the \<open>float\<close> is not modelled), and the difference is taken; the test for a
  relative one is on a mask of no bits.\<close>

definition move_mouse :: "(int \<times> int) \<Rightarrow> raw_mouse \<Rightarrow> raw_mouse \<Rightarrow> MouseState \<Rightarrow> MouseState outcome" where
  "move_mouse screen prev r m =
    (if usFlags prev AND 1 = 1 then
       let m = m\<lparr>absolute_x := quot_c (lLastX r * fst screen) 65535, absolute_y := quot_c (lLastY r * snd screen) 65535\<rparr> in
       and_then (s32_val (lLastX r - lLastX prev)) (\<lambda>dx.
       and_then (add_s32 (delta_x m) dx (\<lambda>v. delta_x_update (\<lambda>_. v)) m) (\<lambda>m.
       and_then (s32_val (lLastY r - lLastY prev)) (\<lambda>dy.
       add_s32 (delta_y m) dy (\<lambda>v. delta_y_update (\<lambda>_. v)) m)))
     else if usFlags prev AND 0 = 0 then
       and_then (add_s32 (delta_x m) (lLastX r) (\<lambda>v. delta_x_update (\<lambda>_. v)) m) (\<lambda>m.
       add_s32 (delta_y m) (lLastY r) (\<lambda>v. delta_y_update (\<lambda>_. v)) m)
     else Inr m)"

definition SetMouseState :: "(int \<times> int) \<Rightarrow> raw_mouse \<Rightarrow> mouse \<Rightarrow> mouse outcome" where
  "SetMouseState screen r s =
    and_then (move_mouse screen (last_raw_mouse s) r (interim_mouse_state s)) (\<lambda>m.
    and_then (if usButtonFlags r AND 0x400 = 0x400
      then add_s32 (delta_vwheel m) (uint (usButtonData r)) (\<lambda>v. delta_vwheel_update (\<lambda>_. v)) m else Inr m) (\<lambda>m.
    and_then (if usButtonFlags r AND 0x800 = 0x800
      then add_s32 (delta_hwheel m) (uint (usButtonData r)) (\<lambda>v. delta_hwheel_update (\<lambda>_. v)) m else Inr m) (\<lambda>m.
    Inr (s\<lparr>interim_mouse_state := m\<lparr>button_held := button_held m OR usButtonFlags r\<rparr>, last_raw_mouse := r\<rparr>))))"

text \<open>\<open>cursor\<close>: what \<open>GetCursorPos\<close> stores, if it succeeds.\<close>

definition BeginFrame_mouse :: "(int \<times> int) option \<Rightarrow> mouse \<Rightarrow> mouse outcome" where
  "BeginFrame_mouse cursor s =
    (let i = interim_mouse_state s;
         held_state = (button_held (frame_mouse_state s) OR (button_state i AND ButtonDownMask)) AND
           NOT (drop_bit 1 (button_state i) AND ButtonDownMask) in
     and_then (dd_assert (cursor \<noteq> None) s) (\<lambda>s.
     and_then (deref cursor) (\<lambda>(x, y).
     Inr (s\<lparr>frame_mouse_state := i\<lparr>absolute_x := x, absolute_y := y, button_held := held_state\<rparr>,
       interim_mouse_state := no_mouse\<rparr>))))"

definition GetMouseState :: "mouse \<Rightarrow> MouseState" where
  "GetMouseState s = frame_mouse_state s"

section \<open>Reports\<close>

text \<open>\<open>SetLastRawInput\<close>: the two calls of \<open>GetRawInputData\<close> return \<open>got_header\<close> and \<open>got_data\<close> bytes, and the second one
  stores the report.\<close>

datatype raw_report = MouseReport raw_mouse | KeyboardReport u16 u16 | OtherReport

definition sizeof_RAWINPUTHEADER :: u32 where "sizeof_RAWINPUTHEADER = 24"
definition sizeof_RAWMOUSE :: u32 where "sizeof_RAWMOUSE = 24"
definition sizeof_RAWKEYBOARD :: u32 where "sizeof_RAWKEYBOARD = 16"
definition sizeof_MouseData :: u32 where "sizeof_MouseData = 0x100"

definition SetLastRawInput :: "(int \<times> int) \<Rightarrow> u32 \<Rightarrow> u32 \<Rightarrow> raw_report \<Rightarrow> keyboard \<times> mouse \<Rightarrow> (keyboard \<times> mouse) outcome" where
  "SetLastRawInput screen got_header got_data report s =
    and_then (dd_assert (got_header = sizeof_RAWINPUTHEADER) s) (\<lambda>(k, m).
    case report of
      MouseReport r \<Rightarrow>
        and_then (dd_assert (sizeof_RAWMOUSE \<le> got_data \<and> got_data \<le> sizeof_MouseData) m) (\<lambda>m.
        and_then (SetMouseState screen r m) (\<lambda>m. Inr (k, m)))
    | KeyboardReport flags VKey \<Rightarrow>
        and_then (dd_assert (sizeof_RAWKEYBOARD \<le> got_data \<and> got_data \<le> sizeof_MouseData) k) (\<lambda>k.
        and_then (SetKeyboardState flags VKey k) (\<lambda>k. Inr (k, m)))
    | OtherReport \<Rightarrow> Inr (k, m))"

section \<open>Bits of a key\<close>

definition usable_key :: "u8 \<Rightarrow> bool" where
  "usable_key vk \<longleftrightarrow> unat vk mod 64 < 31"

definition key_bit :: "KeyState \<Rightarrow> u8 \<Rightarrow> bool" where
  "key_bit ks vk \<longleftrightarrow> bit (state_array ks ! key_index vk) (unat vk mod 64)"

definition keys_ok :: "KeyState \<Rightarrow> bool" where
  "keys_ok ks \<longleftrightarrow> length (state_array ks) = 4"

lemma key_index_div: "key_index vk = unat vk div 64"
  using unat_drop_bit_div [of 6 vk] by (simp add: key_index_def)

lemma key_index_less [simp]: "key_index vk < 4"
  using unsigned_less [of vk, where 'a = nat] by (simp add: key_index_div)

lemma key_eqI: "key_index u = key_index v \<Longrightarrow> unat u mod 64 = unat v mod 64 \<Longrightarrow> u = v"
  by (metis key_index_div div_mult_mod_eq word_unat_eq_iff)

lemma scast_one_bit: "n < 31 \<Longrightarrow> (scast ((2 :: s32) ^ n) :: u64) = 2 ^ n"
  by (rule bit_word_eqI) (auto simp: bit_signed_iff bit_exp_iff min_def)

lemma key_pos_usable: "usable_key vk \<Longrightarrow> key_pos vk = Inr (2 ^ (unat vk mod 64))"
  by (simp add: key_pos_def usable_key_def scast_one_bit)

lemma bit_one_shifted: "n < 64 \<Longrightarrow> bit ((2 :: u64) ^ n) m \<longleftrightarrow> m = n"
  by (auto simp: bit_exp_iff)

lemma one_bit_test: "n < 64 \<Longrightarrow> (w AND 2 ^ n = 2 ^ n) = bit w n" for w :: u64
proof
  assume "w AND 2 ^ n = 2 ^ n" and n: "n < 64"
  then have "bit (w AND 2 ^ n) n = bit (2 ^ n :: u64) n" by simp
  then show "bit w n" using n by (simp add: bit_and_iff bit_one_shifted)
next
  assume "n < 64" and "bit w n"
  then show "w AND 2 ^ n = 2 ^ n" by (intro bit_word_eqI) (auto simp: bit_and_iff bit_one_shifted)
qed

lemma GetKeyState_bit: "usable_key vk \<Longrightarrow> GetKeyState vk ks = Inr (key_bit ks vk)"
  by (simp add: GetKeyState_def key_pos_usable key_bit_def one_bit_test)

lemma SetKeyState_bit:
  assumes "usable_key vk" and "keys_ok ks"
  shows "\<exists>ks'. SetKeyState vk ks = Inr ks' \<and> keys_ok ks' \<and> (\<forall>u. key_bit ks' u \<longleftrightarrow> u = vk \<or> key_bit ks u)"
  using assms(2)
  by (auto simp: SetKeyState_def key_pos_usable [OF assms(1)] keys_ok_def key_bit_def nth_list_update
      bit_or_iff bit_and_iff bit_not_iff bit_one_shifted intro: key_eqI dest: sym [THEN key_eqI])

lemma ClearKeyState_bit:
  assumes "usable_key vk" and "keys_ok ks"
  shows "\<exists>ks'. ClearKeyState vk ks = Inr ks' \<and> keys_ok ks' \<and> (\<forall>u. key_bit ks' u \<longleftrightarrow> u \<noteq> vk \<and> key_bit ks u)"
  using assms(2)
  by (auto simp: ClearKeyState_def key_pos_usable [OF assms(1)] keys_ok_def key_bit_def nth_list_update
      bit_or_iff bit_and_iff bit_not_iff bit_one_shifted intro: key_eqI dest: sym [THEN key_eqI])

lemma key_ops_bit [simp]:
  "keys_ok a \<Longrightarrow> keys_ok b \<Longrightarrow> key_bit (key_or a b) u \<longleftrightarrow> key_bit a u \<or> key_bit b u"
  "keys_ok a \<Longrightarrow> keys_ok b \<Longrightarrow> key_bit (key_and a b) u \<longleftrightarrow> key_bit a u \<and> key_bit b u"
  "keys_ok a \<Longrightarrow> key_bit (key_not a) u \<longleftrightarrow> \<not> key_bit a u"
  "key_bit no_keys u \<longleftrightarrow> False"
  by (simp_all add: key_or_def key_and_def key_not_def no_keys_def key_bit_def keys_ok_def bit_simps)

lemma key_ops_ok [simp]:
  "keys_ok a \<Longrightarrow> keys_ok b \<Longrightarrow> keys_ok (key_or a b)" "keys_ok a \<Longrightarrow> keys_ok b \<Longrightarrow> keys_ok (key_and a b)"
  "keys_ok a \<Longrightarrow> keys_ok (key_not a)" "keys_ok no_keys"
  by (simp_all add: key_or_def key_and_def key_not_def no_keys_def keys_ok_def)

section \<open>Properties of the keyboard\<close>

text \<open>Setting and clearing a key changes what is read for that key and for no other, as long as the shift
  reaches the keys.\<close>

theorem key_state_roundtrip:
  assumes "keys_ok ks" and "usable_key vk" and "usable_key u"
  shows "\<exists>ks1 ks2 b. GetKeyState u ks = Inr b \<and> SetKeyState vk ks = Inr ks1 \<and> GetKeyState u ks1 = Inr (u = vk \<or> b) \<and>
    ClearKeyState vk ks1 = Inr ks2 \<and> GetKeyState u ks2 = Inr (u \<noteq> vk \<and> b)"
proof -
  obtain ks1 where k1: "SetKeyState vk ks = Inr ks1" "keys_ok ks1" "\<forall>u. key_bit ks1 u \<longleftrightarrow> u = vk \<or> key_bit ks u"
    using SetKeyState_bit [OF assms(2,1)] by blast
  obtain ks2 where k2: "ClearKeyState vk ks1 = Inr ks2" "\<forall>u. key_bit ks2 u \<longleftrightarrow> u \<noteq> vk \<and> key_bit ks1 u"
    using ClearKeyState_bit [OF assms(2) k1(2)] by blast
  show ?thesis
    by (intro exI [of _ ks1] exI [of _ ks2] exI [of _ "key_bit ks u"]) (auto simp: GetKeyState_bit assms(3) k1 k2)
qed

definition keyboard_ok :: "keyboard \<Rightarrow> bool" where
  "keyboard_ok k \<longleftrightarrow> keys_ok (pressed_state k) \<and> keys_ok (pressed_state_last k) \<and> keys_ok (released_state k) \<and>
    keys_ok (released_state_last k) \<and> keys_ok (aheld_state k)"

definition idle_key :: "u8 \<Rightarrow> keyboard \<Rightarrow> bool" where
  "idle_key vk k \<longleftrightarrow> \<not> key_bit (pressed_state k) vk \<and> \<not> key_bit (pressed_state_last k) vk \<and>
    \<not> key_bit (released_state k) vk \<and> \<not> key_bit (released_state_last k) vk"

text \<open>What the program reads of a key.\<close>

definition reads :: "u8 \<Rightarrow> keyboard \<Rightarrow> bool \<Rightarrow> bool \<Rightarrow> bool \<Rightarrow> bool" where
  "reads vk k pressed held up \<longleftrightarrow> IsKeyPressed vk (GetKeyboardState k) = Inr pressed \<and>
    IsKeyHeld vk (GetKeyboardState k) = Inr held \<and> IsKeyUp vk (GetKeyboardState k) = Inr up"

lemma BeginFrame_reads:
  assumes "keyboard_ok k" and "usable_key vk"
  shows "reads vk (BeginFrame_keyboard k) (key_bit (pressed_state k) vk \<and> \<not> key_bit (pressed_state_last k) vk)
    (key_bit (pressed_state k) vk \<or> key_bit (pressed_state_last k) vk \<and> \<not> key_bit (released_state_last k) vk)
    (key_bit (released_state k) vk)"
  using assms by (simp add: reads_def IsKeyPressed_def IsKeyHeld_def IsKeyUp_def GetKeyboardState_def BeginFrame_keyboard_def
      keyboard_ok_def GetKeyState_bit)

lemma BeginFrame_keeps:
  assumes "keyboard_ok k"
  shows "keyboard_ok (BeginFrame_keyboard k)" "pressed_state (BeginFrame_keyboard k) = pressed_state k"
    "pressed_state_last (BeginFrame_keyboard k) = pressed_state k" "released_state (BeginFrame_keyboard k) = no_keys"
    "released_state_last (BeginFrame_keyboard k) = released_state k"
  using assms by (simp_all add: BeginFrame_keyboard_def keyboard_ok_def)

lemma low_byte: "(ucast (ucast vk :: u16) :: u8) = vk"
  by (rule bit_word_eqI) (simp add: bit_simps)

lemma press_key:
  assumes "keyboard_ok k" and "usable_key vk"
  shows "\<exists>k'. SetKeyboardState 0 (ucast vk) k = Inr k' \<and> keyboard_ok k' \<and> key_bit (pressed_state k') vk \<and>
    pressed_state_last k' = pressed_state_last k \<and> released_state k' = released_state k \<and>
    released_state_last k' = released_state_last k"
proof -
  obtain p where p: "SetKeyState vk (pressed_state k) = Inr p" "keys_ok p" "key_bit p vk"
    using SetKeyState_bit [OF assms(2), of "pressed_state k"] assms(1) by (auto simp: keyboard_ok_def)
  then show ?thesis using assms(1) by (auto simp: SetKeyboardState_def keyboard_ok_def low_byte)
qed

lemma release_key:
  assumes "keyboard_ok k" and "usable_key vk"
  shows "\<exists>k'. SetKeyboardState 1 (ucast vk) k = Inr k' \<and> keyboard_ok k' \<and> \<not> key_bit (pressed_state k') vk \<and>
    key_bit (released_state k') vk \<and> pressed_state_last k' = pressed_state_last k \<and>
    released_state_last k' = released_state_last k"
proof -
  obtain r where r: "SetKeyState vk (released_state k) = Inr r" "keys_ok r" "key_bit r vk"
    using SetKeyState_bit [OF assms(2), of "released_state k"] assms(1) by (auto simp: keyboard_ok_def)
  obtain p where p: "ClearKeyState vk (pressed_state k) = Inr p" "keys_ok p"
    using ClearKeyState_bit [OF assms(2), of "pressed_state k"] assms(1) by (auto simp: keyboard_ok_def)
  obtain q where q: "ClearKeyState vk p = Inr q" "keys_ok q" "\<not> key_bit q vk"
    using ClearKeyState_bit [OF assms(2) p(2)] by auto
  show ?thesis using r p q assms(1) by (auto simp: SetKeyboardState_def keyboard_ok_def low_byte)
qed

text \<open>C36. The life of a key: in the frame after it goes down it is pressed and held, in the frames after that only
  held; in the frame after it goes up it is up and still held, and then nothing. This is for the keys whose code modulo 64
  is below 31; for the others the shift of the code is undefined (\<open>keys_out_of_reach\<close>).\<close>

theorem key_life:
  assumes "keyboard_ok k" and "usable_key vk" and "idle_key vk k"
  shows "\<exists>k1 k2. SetKeyboardState 0 (ucast vk) k = Inr k1 \<and>
    reads vk (BeginFrame_keyboard k1) True True False \<and>
    reads vk (BeginFrame_keyboard (BeginFrame_keyboard k1)) False True False \<and>
    SetKeyboardState 1 (ucast vk) (BeginFrame_keyboard (BeginFrame_keyboard k1)) = Inr k2 \<and>
    reads vk (BeginFrame_keyboard k2) False True True \<and>
    reads vk (BeginFrame_keyboard (BeginFrame_keyboard k2)) False False False"
proof -
  obtain k1 where k1: "SetKeyboardState 0 (ucast vk) k = Inr k1" "keyboard_ok k1" "key_bit (pressed_state k1) vk"
      "pressed_state_last k1 = pressed_state_last k" "released_state k1 = released_state k"
      "released_state_last k1 = released_state_last k"
    using press_key [OF assms(1,2)] by blast
  let ?f1 = "BeginFrame_keyboard k1" let ?f2 = "BeginFrame_keyboard ?f1"
  note f1 = BeginFrame_keeps [OF k1(2)] and f2 = BeginFrame_keeps [OF BeginFrame_keeps(1) [OF k1(2)]]
  obtain k2 where k2: "SetKeyboardState 1 (ucast vk) ?f2 = Inr k2" "keyboard_ok k2" "\<not> key_bit (pressed_state k2) vk"
      "key_bit (released_state k2) vk" "pressed_state_last k2 = pressed_state_last ?f2"
      "released_state_last k2 = released_state_last ?f2"
    using release_key [OF f2(1) assms(2)] by blast
  note f3 = BeginFrame_keeps [OF k2(2)]
  have i: "\<not> key_bit (pressed_state_last k) vk" "\<not> key_bit (released_state k) vk" using assms(3) by (simp_all add: idle_key_def)
  have "reads vk ?f1 True True False" using BeginFrame_reads [OF k1(2) assms(2)] i by (simp add: k1)
  moreover have "reads vk ?f2 False True False" using BeginFrame_reads [OF f1(1) assms(2)] by (simp add: f1 k1)
  moreover have "reads vk (BeginFrame_keyboard k2) False True True"
    using BeginFrame_reads [OF k2(2) assms(2)] by (simp add: k2 f1 f2 k1)
  moreover have "reads vk (BeginFrame_keyboard (BeginFrame_keyboard k2)) False False False"
    using BeginFrame_reads [OF f3(1) assms(2)] by (simp add: f3 k2)
  ultimately show ?thesis using k1(1) k2(1) by blast
qed

text \<open>For 100 of the 174 key codes of the enumeration, each of the
  three calls shifts an \<open>int\<close> by its width or more.\<close>

theorem keys_out_of_reach:
  "(\<forall>vk ks. 32 \<le> unat vk mod 64 \<longleftrightarrow> GetKeyState vk ks = Inl ShiftRange) \<and>
   (\<forall>vk ks. 32 \<le> unat vk mod 64 \<longleftrightarrow> SetKeyState vk ks = Inl ShiftRange) \<and>
   length VirtualKey = 174 \<and> length (filter (\<lambda>(n, vk). 32 \<le> unat vk mod 64) VirtualKey) = 100"
proof (intro conjI)
  show "\<forall>vk ks. 32 \<le> unat vk mod 64 \<longleftrightarrow> GetKeyState vk ks = Inl ShiftRange"
    by (simp add: GetKeyState_def key_pos_def)
  show "\<forall>vk ks. 32 \<le> unat vk mod 64 \<longleftrightarrow> SetKeyState vk ks = Inl ShiftRange"
    by (simp add: SetKeyState_def key_pos_def)
  show "length VirtualKey = 174" by code_simp
  show "length (filter (\<lambda>(n, vk). 32 \<le> unat vk mod 64) VirtualKey) = 100" by code_simp
qed

text \<open>The bit-fields do not lie at the codes their comments give, from \<open>vk_a\<close> on: 134 of the 191 fields are
  elsewhere. \<open>vk_a\<close> is the bit 0x40, while \<open>VirtualKey_A\<close> is 0x41.\<close>

theorem key_fields_misplaced:
  "length key_fields = 191 \<and>
   length (filter (\<lambda>((n, w, c), (_, off)). c \<noteq> off) (zip key_fields (field_offsets 0 key_fields))) = 134 \<and>
   map_of (field_offsets 0 key_fields) ''vk_a'' = Some 0x40 \<and> map_of VirtualKey ''A'' = Some 0x41"
proof (intro conjI)
  show "length key_fields = 191" by code_simp
  show "length (filter (\<lambda>((n, w, c), (_, off)). c \<noteq> off) (zip key_fields (field_offsets 0 key_fields))) = 134" by code_simp
  show "map_of (field_offsets 0 key_fields) ''vk_a'' = Some 0x40" by code_simp
  show "map_of VirtualKey ''A'' = Some 0x41" by code_simp
qed

section \<open>Properties of the mouse\<close>

inductive mouse_step :: "mouse \<Rightarrow> mouse \<Rightarrow> bool" where
  report: "SetMouseState screen r s = Inr s' \<Longrightarrow> mouse_step s s'"
| frame: "BeginFrame_mouse cursor s = Inr s' \<Longrightarrow> mouse_step s s'"

definition buttons_off :: "mouse \<Rightarrow> bool" where
  "buttons_off s \<longleftrightarrow> button_state (interim_mouse_state s) = 0 \<and> button_state (frame_mouse_state s) = 0 \<and>
    button_held (frame_mouse_state s) = 0"

lemma add_s32_Inr: "add_s32 a b store m = Inr m' \<longleftrightarrow> s32_ok (a + b) \<and> m' = store (a + b) m"
  by (auto simp: add_s32_def s32_val_def)

lemma move_mouse_buttons:
  "move_mouse screen prev r m = Inr m' \<Longrightarrow> button_state m' = button_state m \<and> button_held m' = button_held m"
  by (auto simp: move_mouse_def Let_def and_then_Inr_iff add_s32_Inr split: if_splits)

lemma SetMouseState_buttons:
  assumes "SetMouseState screen r s = Inr s'"
  shows "button_state (interim_mouse_state s') = button_state (interim_mouse_state s)" "frame_mouse_state s' = frame_mouse_state s"
  using assms by (auto simp: SetMouseState_def and_then_Inr_iff add_s32_Inr dest!: move_mouse_buttons split: if_splits)

lemma BeginFrame_mouse_Inr:
  "BeginFrame_mouse cursor s = Inr s' \<longleftrightarrow> (\<exists>x y. cursor = Some (x, y) \<and>
    s' = s\<lparr>frame_mouse_state := (interim_mouse_state s)\<lparr>absolute_x := x, absolute_y := y,
        button_held := (button_held (frame_mouse_state s) OR (button_state (interim_mouse_state s) AND ButtonDownMask)) AND
          NOT (drop_bit 1 (button_state (interim_mouse_state s)) AND ButtonDownMask)\<rparr>, interim_mouse_state := no_mouse\<rparr>)"
  by (cases cursor) (auto simp: BeginFrame_mouse_def Let_def)

interpretation hid_mouse: kept_invariant "\<lambda>s. s = initial_mouse" mouse_step buttons_off
proof unfold_locales
  show "s = initial_mouse \<Longrightarrow> buttons_off s" for s by (simp add: buttons_off_def initial_mouse_def no_mouse_def)
  show "buttons_off s \<Longrightarrow> mouse_step s t \<Longrightarrow> buttons_off t" for s t
    by (erule mouse_step.cases)
      (auto simp: buttons_off_def BeginFrame_mouse_Inr no_mouse_def dest: SetMouseState_buttons)
qed

text \<open>No button of the mouse is ever seen, down, held or up, whatever reports arrive and whenever frames begin:
  the reports are added to \<open>button_held\<close> of the state in the making, which \<open>BeginFrame\<close> overwrites.\<close>

theorem mouse_buttons_never_seen:
  assumes "mouse_step\<^sup>*\<^sup>* initial_mouse s"
  shows "\<not> GetButtonDown b (GetMouseState s) \<and> \<not> GetButtonHeld b (GetMouseState s) \<and> \<not> GetButtonUp b (GetMouseState s)"
  using hid_mouse.run_inv [OF refl assms]
  by (simp add: buttons_off_def GetButtonDown_def GetButtonHeld_def GetButtonUp_def GetMouseState_def)

text \<open>The reports of a frame, one after the other.\<close>

fun reports :: "(int \<times> int) \<Rightarrow> raw_mouse list \<Rightarrow> mouse \<Rightarrow> mouse outcome" where
  "reports screen [] s = Inr s"
| "reports screen (r # rs) s = and_then (SetMouseState screen r s) (reports screen rs)"

definition plain_report :: "raw_mouse \<Rightarrow> bool" where
  "plain_report r \<longleftrightarrow> usFlags r AND 1 = 0 \<and> usButtonFlags r AND 0x400 = 0 \<and> usButtonFlags r AND 0x800 = 0"

lemma plain_SetMouseState:
  assumes "usFlags (last_raw_mouse s) AND 1 = 0" and "plain_report r"
    and "s32_ok (delta_x (interim_mouse_state s) + lLastX r)" and "s32_ok (delta_y (interim_mouse_state s) + lLastY r)"
  shows "\<exists>s'. SetMouseState screen r s = Inr s' \<and> last_raw_mouse s' = r \<and> frame_mouse_state s' = frame_mouse_state s \<and>
    delta_x (interim_mouse_state s') = delta_x (interim_mouse_state s) + lLastX r \<and>
    delta_y (interim_mouse_state s') = delta_y (interim_mouse_state s) + lLastY r \<and>
    delta_vwheel (interim_mouse_state s') = delta_vwheel (interim_mouse_state s)"
  using assms by (simp add: SetMouseState_def move_mouse_def add_s32_def s32_val_def plain_report_def)

lemma reports_sum:
  assumes "usFlags (last_raw_mouse s) AND 1 = 0" and "list_all plain_report rs"
    and "\<And>i. i \<le> length rs \<Longrightarrow> s32_ok (delta_x (interim_mouse_state s) + sum_list (map lLastX (take i rs)))"
    and "\<And>i. i \<le> length rs \<Longrightarrow> s32_ok (delta_y (interim_mouse_state s) + sum_list (map lLastY (take i rs)))"
  shows "\<exists>s'. reports screen rs s = Inr s' \<and>
    delta_x (interim_mouse_state s') = delta_x (interim_mouse_state s) + sum_list (map lLastX rs) \<and>
    delta_y (interim_mouse_state s') = delta_y (interim_mouse_state s) + sum_list (map lLastY rs)"
  using assms
proof (induction rs arbitrary: s)
  case (Cons r rs)
  have p: "plain_report r" "list_all plain_report rs" using Cons.prems(2) by simp_all
  have "s32_ok (delta_x (interim_mouse_state s) + lLastX r)" "s32_ok (delta_y (interim_mouse_state s) + lLastY r)"
    using Cons.prems(3,4) [of 1] by simp_all
  then obtain s1 where s1: "SetMouseState screen r s = Inr s1" "last_raw_mouse s1 = r"
      "delta_x (interim_mouse_state s1) = delta_x (interim_mouse_state s) + lLastX r"
      "delta_y (interim_mouse_state s1) = delta_y (interim_mouse_state s) + lLastY r"
    using plain_SetMouseState [OF Cons.prems(1) p(1)] by blast
  have "s32_ok (delta_x (interim_mouse_state s1) + sum_list (map lLastX (take i rs)))"
    and "s32_ok (delta_y (interim_mouse_state s1) + sum_list (map lLastY (take i rs)))" if "i \<le> length rs" for i
    using Cons.prems(3,4) [of "Suc i"] that s1(3,4) by (simp_all add: add.assoc)
  moreover have "usFlags (last_raw_mouse s1) AND 1 = 0" using p(1) by (simp add: s1(2) plain_report_def)
  ultimately obtain s' where "reports screen rs s1 = Inr s'"
      "delta_x (interim_mouse_state s') = delta_x (interim_mouse_state s1) + sum_list (map lLastX rs)"
      "delta_y (interim_mouse_state s') = delta_y (interim_mouse_state s1) + sum_list (map lLastY rs)"
    using Cons.IH [of s1] p(2) by blast
  then show ?case by (simp add: s1)
qed simp

text \<open>The movement the program sees in a frame is the sum of the relative movements reported since the frame
  before, if no partial sum leaves the range of an \<open>s32\<close>.\<close>

theorem mouse_movement_summed:
  assumes "usFlags (last_raw_mouse s) AND 1 = 0" and "interim_mouse_state s = no_mouse" and "list_all plain_report rs"
    and "\<forall>i\<le>length rs. s32_ok (sum_list (map lLastX (take i rs))) \<and> s32_ok (sum_list (map lLastY (take i rs)))"
  shows "\<exists>s1 s2. reports screen rs s = Inr s1 \<and> BeginFrame_mouse (Some (x, y)) s1 = Inr s2 \<and>
    delta_x (GetMouseState s2) = sum_list (map lLastX rs) \<and> delta_y (GetMouseState s2) = sum_list (map lLastY rs) \<and>
    absolute_x (GetMouseState s2) = x \<and> absolute_y (GetMouseState s2) = y \<and> interim_mouse_state s2 = no_mouse"
proof -
  have "\<exists>s1. reports screen rs s = Inr s1 \<and>
    delta_x (interim_mouse_state s1) = delta_x (interim_mouse_state s) + sum_list (map lLastX rs) \<and>
    delta_y (interim_mouse_state s1) = delta_y (interim_mouse_state s) + sum_list (map lLastY rs)"
    by (rule reports_sum [OF assms(1,3)]) (use assms(2,4) in \<open>auto simp: no_mouse_def\<close>)
  then show ?thesis using assms(2) by (auto simp: BeginFrame_mouse_Inr GetMouseState_def no_mouse_def)
qed

section \<open>Examples\<close>

theorem key_state_roundtrip_witness:
  "\<exists>ks1 ks2. SetKeyState 0x57 no_keys = Inr ks1 \<and> GetKeyState 0x57 ks1 = Inr True \<and>
    ClearKeyState 0x57 ks1 = Inr ks2 \<and> GetKeyState 0x57 ks2 = Inr False"
  using key_state_roundtrip [of no_keys "0x57" "0x57"] by (auto simp: usable_key_def)

theorem key_life_witness:
  "\<exists>k1 k2. SetKeyboardState 0 0x57 initial_keyboard = Inr k1 \<and>
    reads 0x57 (BeginFrame_keyboard k1) True True False \<and>
    reads 0x57 (BeginFrame_keyboard (BeginFrame_keyboard k1)) False True False \<and>
    SetKeyboardState 1 0x57 (BeginFrame_keyboard (BeginFrame_keyboard k1)) = Inr k2 \<and>
    reads 0x57 (BeginFrame_keyboard k2) False True True \<and>
    reads 0x57 (BeginFrame_keyboard (BeginFrame_keyboard k2)) False False False"
  using key_life [of initial_keyboard "0x57"]
  by (simp add: keyboard_ok_def idle_key_def initial_keyboard_def usable_key_def)

definition left_down :: raw_mouse where
  "left_down = \<lparr>usFlags = 0, usButtonFlags = 1, usButtonData = 0, lLastX = 3, lLastY = - 2\<rparr>"

theorem mouse_buttons_never_seen_witness:
  "\<exists>s1 s2. SetMouseState (100, 100) left_down initial_mouse = Inr s1 \<and> BeginFrame_mouse (Some (0, 0)) s1 = Inr s2 \<and>
    \<not> GetButtonDown MouseButton_Left (GetMouseState s2)"
proof -
  obtain s1 where s1: "SetMouseState (100, 100) left_down initial_mouse = Inr s1"
    using plain_SetMouseState [of initial_mouse left_down]
    by (auto simp: initial_mouse_def left_down_def plain_report_def no_mouse_def s32_ok_def)
  obtain s2 where s2: "BeginFrame_mouse (Some (0, 0)) s1 = Inr s2" by (simp add: BeginFrame_mouse_Inr)
  have "mouse_step\<^sup>*\<^sup>* initial_mouse s2" using report [OF s1] frame [OF s2] by auto
  then show ?thesis using s1 s2 mouse_buttons_never_seen by blast
qed

theorem mouse_movement_summed_witness:
  "\<exists>s1 s2. reports (100, 100) [left_down, left_down] initial_mouse = Inr s1 \<and> BeginFrame_mouse (Some (0, 0)) s1 = Inr s2 \<and>
    delta_x (GetMouseState s2) = 6 \<and> delta_y (GetMouseState s2) = - 4"
proof -
  have "\<forall>i\<le>length [left_down, left_down]. s32_ok (sum_list (map lLastX (take i [left_down, left_down]))) \<and>
      s32_ok (sum_list (map lLastY (take i [left_down, left_down])))"
    by (auto simp: left_down_def s32_ok_def take_Cons' numeral_2_eq_2)
  from mouse_movement_summed [OF _ _ _ this, of initial_mouse "(100, 100)" 0 0] show ?thesis
    by (auto simp: initial_mouse_def left_down_def plain_report_def)
qed

end
