(* ===== verification/Vector_Math.thy ===== *)
theory Vector_Math
  imports Complex_Main DD_Prelude
begin

text \<open>
  Vectors, matrices, cameras and projections: \<open>util/math/\<close>, \<open>util_camera.hpp\<close>, \<open>util_projection.hpp\<close>. A
  \<open>float\<close> or \<open>double\<close> is a real number here: what is shown is what the formulas compute, not
  how they round. The vector instructions are on four lanes, as in the code; the sines come from the
  table the code generates.

  Shown here: the cross product of the shuffles, the camera matrix (its axes are orthonormal, it takes
  the camera to the origin, and the position can be read back from it), the depth and the field of view of
  the projection, its cache, the table of sines, and what the rotations do.
\<close>

section \<open>Lanes\<close>

record v4 =
  lane0 :: real
  lane1 :: real
  lane2 :: real
  lane3 :: real

fun lane :: "v4 \<Rightarrow> nat \<Rightarrow> real" where
  "lane v i = (if i = 0 then lane0 v else if i = 1 then lane1 v else if i = 2 then lane2 v else lane3 v)"

definition addps :: "v4 \<Rightarrow> v4 \<Rightarrow> v4" where
  "addps a b = \<lparr>lane0 = lane0 a + lane0 b, lane1 = lane1 a + lane1 b, lane2 = lane2 a + lane2 b, lane3 = lane3 a + lane3 b\<rparr>"

definition subps :: "v4 \<Rightarrow> v4 \<Rightarrow> v4" where
  "subps a b = \<lparr>lane0 = lane0 a - lane0 b, lane1 = lane1 a - lane1 b, lane2 = lane2 a - lane2 b, lane3 = lane3 a - lane3 b\<rparr>"

definition mulps :: "v4 \<Rightarrow> v4 \<Rightarrow> v4" where
  "mulps a b = \<lparr>lane0 = lane0 a * lane0 b, lane1 = lane1 a * lane1 b, lane2 = lane2 a * lane2 b, lane3 = lane3 a * lane3 b\<rparr>"

text \<open>The shuffle takes two lanes of each operand, selected by two bits of the mask each.\<close>

definition shufps :: "v4 \<Rightarrow> v4 \<Rightarrow> nat \<Rightarrow> v4" where
  "shufps a b shuffle_mask = \<lparr>lane0 = lane a (shuffle_mask mod 4), lane1 = lane a (shuffle_mask div 4 mod 4),
    lane2 = lane b (shuffle_mask div 16 mod 4), lane3 = lane b (shuffle_mask div 64 mod 4)\<rparr>"

definition ShuffleToOrder :: "nat \<Rightarrow> nat \<Rightarrow> nat \<Rightarrow> nat \<Rightarrow> nat" where
  "ShuffleToOrder x0 y0 z0 w0 = (x0 OR push_bit 2 y0 OR push_bit 4 z0 OR push_bit 6 w0) AND 255"

section \<open>Vectors\<close>

record Vector3 =
  v_x :: real
  v_y :: real
  v_z :: real

definition Vector3Type :: "real \<Rightarrow> real \<Rightarrow> real \<Rightarrow> Vector3" where
  "Vector3Type a b c = \<lparr>v_x = a, v_y = b, v_z = c\<rparr>"

definition of_lanes :: "v4 \<Rightarrow> Vector3" where
  "of_lanes copy = \<lparr>v_x = lane0 copy, v_y = lane1 copy, v_z = lane2 copy\<rparr>"

definition GetVectorType :: "Vector3 \<Rightarrow> v4" where
  "GetVectorType v = \<lparr>lane0 = v_x v, lane1 = v_y v, lane2 = v_z v, lane3 = 0\<rparr>"

definition v3_add :: "Vector3 \<Rightarrow> Vector3 \<Rightarrow> Vector3" where
  "v3_add v rhs = of_lanes (addps (GetVectorType v) (GetVectorType rhs))"

definition v3_sub :: "Vector3 \<Rightarrow> Vector3 \<Rightarrow> Vector3" where
  "v3_sub v rhs = of_lanes (subps (GetVectorType v) (GetVectorType rhs))"

definition v3_scale :: "Vector3 \<Rightarrow> real \<Rightarrow> Vector3" where
  "v3_scale v scalar = \<lparr>v_x = v_x v * scalar, v_y = v_y v * scalar, v_z = v_z v * scalar\<rparr>"

definition v3_eq :: "Vector3 \<Rightarrow> Vector3 \<Rightarrow> bool" where
  "v3_eq v rhs \<longleftrightarrow> v_x v = v_x rhs \<and> v_y v = v_y rhs \<and> v_z v = v_z rhs"

definition Cross :: "Vector3 \<Rightarrow> Vector3 \<Rightarrow> Vector3" where
  "Cross v rhs =
    (let a = shufps (GetVectorType v) (GetVectorType v) (ShuffleToOrder 1 2 0 3);
         b = shufps (GetVectorType rhs) (GetVectorType rhs) (ShuffleToOrder 2 0 1 3);
         c = mulps a (GetVectorType rhs);
         d = mulps a b;
         e = shufps c c (ShuffleToOrder 1 2 0 3)
     in of_lanes (subps d e))"

definition Dot :: "Vector3 \<Rightarrow> Vector3 \<Rightarrow> real" where
  "Dot v rhs = (let temp = mulps (GetVectorType v) (GetVectorType rhs) in lane0 temp + lane1 temp + lane2 temp)"

definition Magnitude :: "Vector3 \<Rightarrow> real" where
  "Magnitude v = sqrt (v_x v * v_x v + v_y v * v_y v + v_z v * v_z v)"

definition Normalize :: "Vector3 \<Rightarrow> Vector3" where
  "Normalize v =
    (let mag = Magnitude v in
     if 0 < mag then let reciprocal_mag = 1 / mag in v3_scale v reciprocal_mag else v)"

record Vector4 =
  q_x :: real
  q_y :: real
  q_z :: real
  q_w :: real

section \<open>Matrices\<close>

record Matrix33 =
  m_r1 :: Vector3
  m_r2 :: Vector3
  m_r3 :: Vector3

definition Determinent :: "Matrix33 \<Rightarrow> real" where
  "Determinent m =
    (let d_eifh = v_y (m_r2 m) * v_z (m_r3 m) - v_z (m_r2 m) * v_y (m_r3 m);
         d_fgid = v_z (m_r2 m) * v_x (m_r3 m) - v_x (m_r2 m) * v_z (m_r3 m);
         d_dheg = v_x (m_r2 m) * v_y (m_r3 m) - v_y (m_r2 m) * v_z (m_r1 m)
     in v_x (m_r1 m) * d_eifh + v_y (m_r1 m) * d_fgid + v_z (m_r1 m) * d_dheg)"

record Matrix34 =
  m_row1 :: Vector4
  m_row2 :: Vector4
  m_row3 :: Vector4

definition IdentityMatrix34 :: Matrix34 where
  "IdentityMatrix34 = \<lparr>m_row1 = \<lparr>q_x = 1, q_y = 0, q_z = 0, q_w = 0\<rparr>, m_row2 = \<lparr>q_x = 0, q_y = 1, q_z = 0, q_w = 0\<rparr>,
    m_row3 = \<lparr>q_x = 0, q_y = 0, q_z = 1, q_w = 0\<rparr>\<rparr>"

definition FloatPi :: real where "FloatPi = 3.1415927"
definition FloatUlp :: real where "FloatUlp = 1.1920929 / 10 ^ 7"

definition MakeVectorRotation :: "Vector3 \<Rightarrow> Vector3 \<Rightarrow> bool \<times> Matrix34" where
  "MakeVectorRotation align base =
    (let dot = Dot base align + 1 in
     if dot \<le> FloatUlp then (False, IdentityMatrix34)
     else
       let sqrt2dot = sqrt (dot + dot); k = 1 / sqrt2dot; kcross = v3_scale (Cross base align) k;
           kcross2x = v_x kcross + v_x kcross;
           kcross2y_kcrossy = v_y kcross * (v_y kcross + v_y kcross);
           kcross2z_kcrossz = v_z kcross * (v_z kcross + v_z kcross);
           kcross2y_kcrossz = v_z kcross * (v_y kcross + v_y kcross);
           oproj_kcross2x_kcrossx = 1 - (v_x kcross * kcross2x)
       in (True, \<lparr>
         m_row1 = \<lparr>q_x = (1 - kcross2y_kcrossy) - kcross2y_kcrossz, q_y = (v_y kcross * kcross2x) - (v_z kcross * sqrt2dot),
           q_z = (v_y kcross * sqrt2dot) + (v_z kcross * kcross2x), q_w = 0\<rparr>,
         m_row2 = \<lparr>q_x = (v_z kcross * sqrt2dot) + (v_y kcross * kcross2x), q_y = oproj_kcross2x_kcrossx - kcross2z_kcrossz,
           q_z = kcross2z_kcrossz - (v_x kcross * sqrt2dot), q_w = 0\<rparr>,
         m_row3 = \<lparr>q_x = (v_z kcross * kcross2x) - (v_y kcross - sqrt2dot), q_y = (v_x kcross * sqrt2dot) + kcross2y_kcrossz,
           q_z = oproj_kcross2x_kcrossx - kcross2y_kcrossy, q_w = 0\<rparr>\<rparr>))"

section \<open>Sines\<close>

text \<open>The partial sums of the two series, as they are written out in the code.\<close>

definition PreciseSin :: "real \<Rightarrow> real" where
  "PreciseSin v = sum_list (map (\<lambda>k. (- 1) ^ k * (v ^ (2 * k + 1) / fact (2 * k + 1))) [0..<18])"

definition PreciseCos :: "real \<Rightarrow> real" where
  "PreciseCos v = sum_list (map (\<lambda>k. (- 1) ^ k * (v ^ (2 * k) / fact (2 * k))) [0..<18])"

definition snap :: "real \<Rightarrow> real" where
  "snap v = (if - FloatUlp < v \<and> v < FloatUlp then 0 else v)"

definition table_angle :: "nat \<Rightarrow> real" where
  "table_angle i = (2 * 3.141592653589) * (real i + 1) / 256"

text \<open>The loop from step \<open>i\<close> on, \<open>n\<close> steps before the last one: four values a step, then the last two differences.\<close>

fun table_loop :: "nat \<Rightarrow> nat \<Rightarrow> real \<Rightarrow> real \<Rightarrow> real list" where
  "table_loop 0 i last_cos last_sin = [1 - last_cos, 0 - last_sin]"
| "table_loop (Suc n) i last_cos last_sin =
    (let a = table_angle i; cos_value = PreciseCos a; sin_value = PreciseSin a;
         cos_diff = cos_value - last_cos; sin_diff = sin_value - last_sin;
         cos_value = snap cos_value; sin_value = snap sin_value
     in [cos_diff, sin_diff, cos_value, sin_value] @ table_loop n (Suc i) cos_value sin_value)"

definition GenerateSinCosTable :: "real list" where
  "GenerateSinCosTable = [1, 0] @ table_loop 255 0 1 0"

definition AngleIndexHalfRound :: u32 where "AngleIndexHalfRound = 0x80000000"

text \<open>\<open>static_cast<unsigned long long>\<close> of a number that does not fit is undefined.\<close>

definition angle_index :: "real \<Rightarrow> u64 outcome" where
  "angle_index v = (if - 1 < v \<and> v < 2 ^ 64 then Inr (word_of_int \<lfloor>max 0 v\<rfloor>) else Inl SignedOverflow)"

definition sample_index :: "u64 \<Rightarrow> nat" where
  "sample_index a = unat (drop_bit 24 a AND 0xFF)"

definition variance :: "u64 \<Rightarrow> real" where
  "variance a = real (unat (a AND 0xFFFFFF)) * (5.9604644775390625 / 10 ^ 8)"

definition SampleSin :: "real \<Rightarrow> real outcome" where
  "SampleSin v = and_then (angle_index v) (\<lambda>a. let i = sample_index a in
    Inr (GenerateSinCosTable ! (i * 4 + 1) + GenerateSinCosTable ! (i * 4 + 3) * variance a))"

definition SampleCos :: "real \<Rightarrow> real outcome" where
  "SampleCos v = and_then (angle_index v) (\<lambda>a. let i = sample_index a in
    Inr (GenerateSinCosTable ! (i * 4) + GenerateSinCosTable ! (i * 4 + 2) * variance a))"

definition AngleHalfRound :: "real \<Rightarrow> real" where
  "AngleHalfRound rad = rad * (real (unat AngleIndexHalfRound) / FloatPi)"

section \<open>Rotations\<close>

text \<open>Each row of the matrix turns in the same way.\<close>

definition turn_x :: "real \<Rightarrow> real \<Rightarrow> Vector4 \<Rightarrow> Vector4" where
  "turn_x sn cs r = r\<lparr>q_y := q_y r * cs + q_z r * sn, q_z := q_z r * cs - q_y r * sn\<rparr>"
definition turn_y :: "real \<Rightarrow> real \<Rightarrow> Vector4 \<Rightarrow> Vector4" where
  "turn_y sn cs r = r\<lparr>q_x := q_x r * cs - q_z r * sn, q_z := q_z r * cs + q_x r * sn\<rparr>"
definition turn_z :: "real \<Rightarrow> real \<Rightarrow> Vector4 \<Rightarrow> Vector4" where
  "turn_z sn cs r = r\<lparr>q_x := q_x r * cs + q_y r * sn, q_y := q_y r * cs - q_x r * sn\<rparr>"

definition turn_rows :: "(real \<Rightarrow> real \<Rightarrow> Vector4 \<Rightarrow> Vector4) \<Rightarrow> Matrix34 \<Rightarrow> real \<Rightarrow> Matrix34 outcome" where
  "turn_rows turn m theta =
    and_then (SampleSin (AngleHalfRound theta)) (\<lambda>sn.
    and_then (SampleCos (AngleHalfRound theta)) (\<lambda>cs.
    Inr \<lparr>m_row1 = turn sn cs (m_row1 m), m_row2 = turn sn cs (m_row2 m), m_row3 = turn sn cs (m_row3 m)\<rparr>))"

definition RotateLocalX :: "Matrix34 \<Rightarrow> real \<Rightarrow> Matrix34 outcome" where "RotateLocalX = turn_rows turn_x"
definition RotateLocalY :: "Matrix34 \<Rightarrow> real \<Rightarrow> Matrix34 outcome" where "RotateLocalY = turn_rows turn_y"
definition RotateLocalZ :: "Matrix34 \<Rightarrow> real \<Rightarrow> Matrix34 outcome" where "RotateLocalZ = turn_rows turn_z"

definition RotateVectorAxisX :: "Vector3 \<Rightarrow> real \<Rightarrow> Vector3 outcome" where
  "RotateVectorAxisX v ang =
    and_then (SampleSin (AngleHalfRound ang)) (\<lambda>sn. and_then (SampleCos (AngleHalfRound ang)) (\<lambda>cs.
    Inr \<lparr>v_x = v_x v, v_y = (v_y v * sn) - (cs * v_z v), v_z = (v_y v * cs) + (sn * v_z v)\<rparr>))"
definition RotateVectorAxisY :: "Vector3 \<Rightarrow> real \<Rightarrow> Vector3 outcome" where
  "RotateVectorAxisY v ang =
    and_then (SampleSin (AngleHalfRound ang)) (\<lambda>sn. and_then (SampleCos (AngleHalfRound ang)) (\<lambda>cs.
    Inr \<lparr>v_x = (v_z v * cs) + (sn * v_x v), v_y = v_y v, v_z = (v_z v * sn) - (cs * v_x v)\<rparr>))"
definition RotateVectorAxisZ :: "Vector3 \<Rightarrow> real \<Rightarrow> Vector3 outcome" where
  "RotateVectorAxisZ v ang =
    and_then (SampleSin (AngleHalfRound ang)) (\<lambda>sn. and_then (SampleCos (AngleHalfRound ang)) (\<lambda>cs.
    Inr \<lparr>v_x = (v_z v * sn) + (cs * v_x v), v_y = v_y v, v_z = (v_z v * cs) - (sn * v_x v)\<rparr>))"

definition Parallelize :: "Vector3 \<Rightarrow> Vector3 \<Rightarrow> Vector3" where
  "Parallelize base to_parallelize =
    (let dot = Dot base to_parallelize in
     \<lparr>v_x = v_x to_parallelize * dot, v_y = v_y to_parallelize * dot, v_z = v_z to_parallelize * dot\<rparr>)"

section \<open>Camera\<close>

record LookAtCamera =
  m_camera_mtx :: Matrix34
  m_pos :: Vector3
  m_at :: Vector3
  m_up :: Vector3

definition view_row :: "Vector3 \<Rightarrow> Vector3 \<Rightarrow> Vector4" where
  "view_row a pos = \<lparr>q_x = v_x a, q_y = v_y a, q_z = v_z a,
    q_w = - (v_x a * v_x pos + v_y a * v_y pos + v_z a * v_z pos)\<rparr>"

definition UpdateCameraMatrix :: "LookAtCamera \<Rightarrow> Matrix34" where
  "UpdateCameraMatrix c =
    (let dir = v3_sub (m_pos c) (m_at c);
         dir_mag = Magnitude dir;
         dir = (if 0 < dir_mag then let dir_norm = 1 / dir_mag in v3_scale dir dir_norm else dir);
         right = Cross (m_up c) dir;
         right_mag = Magnitude right;
         right = (if 0 < right_mag then let right_norm = 1 / right_mag in v3_scale right right_norm else right);
         up = Cross dir right
     in \<lparr>m_row1 = view_row right (m_pos c), m_row2 = view_row up (m_pos c), m_row3 = view_row dir (m_pos c)\<rparr>)"

definition UpdateCameraMatrixSelf :: "LookAtCamera \<Rightarrow> LookAtCamera" where
  "UpdateCameraMatrixSelf c = c\<lparr>m_camera_mtx := UpdateCameraMatrix c\<rparr>"

definition SetPos :: "Vector3 \<Rightarrow> LookAtCamera \<Rightarrow> LookAtCamera" where "SetPos v c = c\<lparr>m_pos := v\<rparr>"
definition SetAt :: "Vector3 \<Rightarrow> LookAtCamera \<Rightarrow> LookAtCamera" where "SetAt v c = c\<lparr>m_at := v\<rparr>"
definition SetUp :: "Vector3 \<Rightarrow> LookAtCamera \<Rightarrow> LookAtCamera" where "SetUp v c = c\<lparr>m_up := v\<rparr>"

text \<open>The readers index the pointer they are given, not the vector it points to: each number becomes a vector of
  an array, in its first component.\<close>

definition store_vectors :: "real list \<Rightarrow> Vector3 list \<Rightarrow> Vector3 list outcome" where
  "store_vectors xs out =
    (if length out < length xs then Inl OutOfBounds else Inr (map (\<lambda>a. Vector3Type a 0 0) xs @ drop (length xs) out))"

definition GetRightVectorByMatrix :: "LookAtCamera \<Rightarrow> Vector3 list \<Rightarrow> Vector3 list outcome" where
  "GetRightVectorByMatrix c out = (let r = m_row1 (m_camera_mtx c) in store_vectors [q_x r, q_y r, q_z r] out)"
definition GetLookDirVectorByMatrix :: "LookAtCamera \<Rightarrow> Vector3 list \<Rightarrow> Vector3 list outcome" where
  "GetLookDirVectorByMatrix c out = (let r = m_row2 (m_camera_mtx c) in store_vectors [q_x r, q_y r, q_z r] out)"
definition GetUpVectorByMatrix :: "LookAtCamera \<Rightarrow> Vector3 list \<Rightarrow> Vector3 list outcome" where
  "GetUpVectorByMatrix c out = (let r = m_row3 (m_camera_mtx c) in store_vectors [q_x r, q_y r, q_z r] out)"

definition world_pos :: "Matrix34 \<Rightarrow> (Vector4 \<Rightarrow> real) \<Rightarrow> real" where
  "world_pos m col = (- (col (m_row1 m) * q_w (m_row1 m)) - (col (m_row2 m) * q_w (m_row2 m))) - (col (m_row3 m) * q_w (m_row3 m))"

definition GetWorldPosByMatrix :: "LookAtCamera \<Rightarrow> Vector3 list \<Rightarrow> Vector3 list outcome" where
  "GetWorldPosByMatrix c out = (let m = m_camera_mtx c in
    store_vectors [world_pos m q_x, world_pos m q_y, world_pos m q_z] out)"

definition CameraPositionToWorldPositionByMatrix :: "LookAtCamera \<Rightarrow> Vector3 \<Rightarrow> Vector3 list \<Rightarrow> Vector3 list outcome" where
  "CameraPositionToWorldPositionByMatrix c camera_pos out =
    (let m = m_camera_mtx c; t = v_x camera_pos + v_y camera_pos + v_z camera_pos in
     store_vectors [t + world_pos m q_x, t + world_pos m q_y, t + world_pos m q_z] out)"

section \<open>Projection\<close>

record Matrix44 =
  p_row1 :: Vector4
  p_row2 :: Vector4
  p_row3 :: Vector4
  p_row4 :: Vector4

record FrustumProjection =
  m_projection_matrix :: Matrix44
  m_need_update :: bool
  m_near :: real
  m_far :: real
  m_top :: real
  m_bottom :: real
  m_left :: real
  m_right :: real

record PerspectiveProjection = FrustumProjection +
  m_fov_x :: real

definition depth_row :: "real \<Rightarrow> real \<Rightarrow> Vector4" where
  "depth_row near far = (let reciprocal_c = 1 / (far - near) in
    \<lparr>q_x = 0, q_y = 0, q_z = - ((near + far) * reciprocal_c), q_w = - ((far + far) * near * reciprocal_c)\<rparr>)"

definition w_row :: Vector4 where "w_row = \<lparr>q_x = 0, q_y = 0, q_z = - 1, q_w = 0\<rparr>"

definition Frustum_UpdateMatrix :: "'a FrustumProjection_scheme \<Rightarrow> Matrix44" where
  "Frustum_UpdateMatrix p =
    (let reciprocal_a = 1 / (m_right p + m_left p); reciprocal_b = 1 / (m_top p - m_bottom p) in
     \<lparr>p_row1 = \<lparr>q_x = (m_near p + m_near p) * reciprocal_a, q_y = 0, q_z = (m_left p + m_right p) * reciprocal_a, q_w = 0\<rparr>,
      p_row2 = \<lparr>q_x = 0, q_y = (m_near p + m_near p) * reciprocal_b, q_z = (m_top p + m_bottom p) * reciprocal_b, q_w = 0\<rparr>,
      p_row3 = depth_row (m_near p) (m_far p), p_row4 = w_row\<rparr>)"

text \<open>The constructor: the four bounds are the angle, the sine, the cosine and the tangent of its half.\<close>

definition PerspectiveProjection :: "Matrix44 \<Rightarrow> real \<Rightarrow> real \<Rightarrow> real \<Rightarrow> real \<Rightarrow> PerspectiveProjection" where
  "PerspectiveProjection junk near_1 far_2 fovy aspect = \<lparr>m_projection_matrix = junk, m_need_update = True,
    m_near = near_1, m_far = far_2, m_top = fovy, m_bottom = sin (fovy / 2), m_left = cos (fovy / 2),
    m_right = tan (fovy / 2), m_fov_x = aspect\<rparr>"

definition Perspective_UpdateMatrix :: "PerspectiveProjection \<Rightarrow> Matrix44" where
  "Perspective_UpdateMatrix p =
    \<lparr>p_row1 = \<lparr>q_x = 1 / (m_right p * m_fov_x p), q_y = 0, q_z = 0, q_w = 0\<rparr>,
     p_row2 = \<lparr>q_x = 0, q_y = 1 / m_right p, q_z = 0, q_w = 0\<rparr>,
     p_row3 = depth_row (m_near p) (m_far p), p_row4 = w_row\<rparr>"

definition UpdateProjectionMatrixSelf :: "PerspectiveProjection \<Rightarrow> PerspectiveProjection" where
  "UpdateProjectionMatrixSelf p = p\<lparr>m_projection_matrix := Perspective_UpdateMatrix p, m_need_update := False\<rparr>"

definition GetProjectionMatrix :: "PerspectiveProjection \<Rightarrow> Matrix44 \<times> PerspectiveProjection" where
  "GetProjectionMatrix p =
    (let p = (if m_need_update p then UpdateProjectionMatrixSelf p else p) in (m_projection_matrix p, p))"

definition SetAspect :: "real \<Rightarrow> PerspectiveProjection \<Rightarrow> PerspectiveProjection" where
  "SetAspect new_aspect p = p\<lparr>m_fov_x := new_aspect, m_need_update := True\<rparr>"

definition SetFovX :: "real \<Rightarrow> PerspectiveProjection \<Rightarrow> PerspectiveProjection" where
  "SetFovX new_fov_x p = p\<lparr>m_fov_x := tan (new_fov_x * 0.5) / m_right p, m_need_update := True\<rparr>"

section \<open>Vector algebra\<close>

lemma shuffle_orders [simp]: "ShuffleToOrder 1 2 0 3 = 201" "ShuffleToOrder 2 0 1 3 = 210"
  by (code_simp, code_simp)

lemma shuffles:
  "shufps a b 201 = \<lparr>lane0 = lane1 a, lane1 = lane2 a, lane2 = lane0 b, lane3 = lane3 b\<rparr>"
  "shufps a b 210 = \<lparr>lane0 = lane2 a, lane1 = lane0 a, lane2 = lane1 b, lane3 = lane3 b\<rparr>"
  by (simp_all add: shufps_def)

lemma Cross_eq:
  "Cross v r = \<lparr>v_x = v_y v * v_z r - v_z v * v_y r, v_y = v_z v * v_x r - v_x v * v_z r, v_z = v_x v * v_y r - v_y v * v_x r\<rparr>"
  unfolding Cross_def Let_def shuffle_orders shuffles
  by (simp add: mulps_def subps_def of_lanes_def GetVectorType_def)

lemma Cross_fields [simp]:
  "v_x (Cross v r) = v_y v * v_z r - v_z v * v_y r" "v_y (Cross v r) = v_z v * v_x r - v_x v * v_z r"
  "v_z (Cross v r) = v_x v * v_y r - v_y v * v_x r"
  by (simp_all add: Cross_eq)

lemma Dot_eq: "Dot v r = v_x v * v_x r + v_y v * v_y r + v_z v * v_z r"
  by (simp add: Dot_def mulps_def GetVectorType_def)

lemma v3_sub_fields [simp]: "v_x (v3_sub a b) = v_x a - v_x b" "v_y (v3_sub a b) = v_y a - v_y b" "v_z (v3_sub a b) = v_z a - v_z b"
  by (simp_all add: v3_sub_def of_lanes_def subps_def GetVectorType_def)

lemma Cross_orthogonal: "Dot (Cross a b) a = 0" "Dot (Cross a b) b = 0"
  by (simp_all add: Dot_eq algebra_simps)

lemma Cross_length: "Dot (Cross a b) (Cross a b) = Dot a a * Dot b b - Dot a b * Dot a b"
  by (simp add: Dot_eq algebra_simps)

lemma Dot_commute: "Dot a b = Dot b a"
  by (simp add: Dot_eq algebra_simps)

lemma Dot_scale: "Dot (v3_scale a k) b = k * Dot a b" "Dot b (v3_scale a k) = k * Dot b a"
  by (simp_all add: Dot_eq v3_scale_def algebra_simps)

lemma Magnitude_Dot: "Magnitude v = sqrt (Dot v v)"
  by (simp add: Magnitude_def Dot_eq)

lemma Dot_self_nonneg: "0 \<le> Dot v v"
  by (simp add: Dot_eq)

lemma Magnitude_pos: "0 < Magnitude v \<longleftrightarrow> Dot v v \<noteq> 0"
  using Dot_self_nonneg [of v] by (simp add: Magnitude_Dot less_le)

lemma Normalize_unit:
  assumes "Dot v v \<noteq> 0"
  shows "Dot (Normalize v) (Normalize v) = 1" "Dot (Normalize v) w = Dot v w / Magnitude v"
proof -
  have m: "Magnitude v * Magnitude v = Dot v v" using Dot_self_nonneg [of v] by (simp add: Magnitude_Dot)
  have p: "0 < Magnitude v" using assms by (simp add: Magnitude_pos)
  then have n: "Normalize v = v3_scale v (1 / Magnitude v)" by (simp add: Normalize_def)
  show "Dot (Normalize v) w = Dot v w / Magnitude v" by (simp add: n Dot_scale)
  have "Dot (Normalize v) (Normalize v) = Dot v v / (Magnitude v * Magnitude v)" by (simp add: n Dot_scale)
  then show "Dot (Normalize v) (Normalize v) = 1" using m assms by simp
qed

text \<open>Three orthonormal axes: every vector is the sum of its components along them.\<close>

lemma frame_components:
  assumes "Dot a a = 1" and "Dot b b = 1" and "Dot a b = 0"
  shows "v_x p = v_x b * Dot b p + v_x (Cross a b) * Dot (Cross a b) p + v_x a * Dot a p"
    "v_y p = v_y b * Dot b p + v_y (Cross a b) * Dot (Cross a b) p + v_y a * Dot a p"
    "v_z p = v_z b * Dot b p + v_z (Cross a b) * Dot (Cross a b) p + v_z a * Dot a p"
proof -
  obtain a1 a2 a3 b1 b2 b3 p1 p2 p3 where
    e: "v_x a = a1" "v_y a = a2" "v_z a = a3" "v_x b = b1" "v_y b = b2" "v_z b = b3" "v_x p = p1" "v_y p = p2" "v_z p = p3" by simp
  have h: "a1*a1 + a2*a2 + a3*a3 = 1" "b1*b1 + b2*b2 + b3*b3 = 1" "a1*b1 + a2*b2 + a3*b3 = 0"
    using assms by (simp_all add: Dot_eq e)
  show "v_x p = v_x b * Dot b p + v_x (Cross a b) * Dot (Cross a b) p + v_x a * Dot a p"
    unfolding Dot_eq Cross_fields e using h by algebra
  show "v_y p = v_y b * Dot b p + v_y (Cross a b) * Dot (Cross a b) p + v_y a * Dot a p"
    unfolding Dot_eq Cross_fields e using h by algebra
  show "v_z p = v_z b * Dot b p + v_z (Cross a b) * Dot (Cross a b) p + v_z a * Dot a p"
    unfolding Dot_eq Cross_fields e using h by algebra
qed

section \<open>The camera\<close>

definition axis_dot :: "Vector4 \<Rightarrow> Vector4 \<Rightarrow> real" where
  "axis_dot r s = q_x r * q_x s + q_y r * q_y s + q_z r * q_z s"

definition to_camera :: "Vector4 \<Rightarrow> Vector3 \<Rightarrow> real" where
  "to_camera r p = q_x r * v_x p + q_y r * v_y p + q_z r * v_z p + q_w r"

definition sees :: "LookAtCamera \<Rightarrow> bool" where
  "sees c \<longleftrightarrow> (let d = v3_sub (m_pos c) (m_at c) in Dot d d \<noteq> 0 \<and> Dot (Cross (m_up c) d) (Cross (m_up c) d) \<noteq> 0)"

lemma Cross_scale: "Cross a (v3_scale b k) = v3_scale (Cross a b) k"
  by (simp add: Cross_eq v3_scale_def algebra_simps)

lemma view_rows:
  "axis_dot (view_row a p) (view_row b q) = Dot a b" "to_camera (view_row a p) v = Dot a v - Dot a p"
  by (simp_all add: axis_dot_def to_camera_def view_row_def Dot_eq)

lemma UpdateCameraMatrix_eq:
  "UpdateCameraMatrix c =
    (let dir = Normalize (v3_sub (m_pos c) (m_at c)); right = Normalize (Cross (m_up c) dir)
     in \<lparr>m_row1 = view_row right (m_pos c), m_row2 = view_row (Cross dir right) (m_pos c), m_row3 = view_row dir (m_pos c)\<rparr>)"
  by (simp add: UpdateCameraMatrix_def Normalize_def Let_def)

lemma camera_axes:
  assumes "sees c"
  defines "dir \<equiv> Normalize (v3_sub (m_pos c) (m_at c))"
  defines "right \<equiv> Normalize (Cross (m_up c) dir)"
  shows "Dot dir dir = 1" "Dot right right = 1" "Dot dir right = 0"
proof -
  let ?d = "v3_sub (m_pos c) (m_at c)"
  have d: "Dot ?d ?d \<noteq> 0" "Dot (Cross (m_up c) ?d) (Cross (m_up c) ?d) \<noteq> 0" using assms(1) by (simp_all add: sees_def Let_def)
  show "Dot dir dir = 1" unfolding dir_def by (rule Normalize_unit(1) [OF d(1)])
  have m: "0 < Magnitude ?d" using d(1) by (simp add: Magnitude_pos)
  then have "dir = v3_scale ?d (1 / Magnitude ?d)" by (simp add: dir_def Normalize_def)
  then have "Dot (Cross (m_up c) dir) (Cross (m_up c) dir) =
      Dot (Cross (m_up c) ?d) (Cross (m_up c) ?d) * ((1 / Magnitude ?d) * (1 / Magnitude ?d))"
    by (simp add: Cross_scale Dot_scale)
  then have r: "Dot (Cross (m_up c) dir) (Cross (m_up c) dir) \<noteq> 0" using d(2) m by simp
  show "Dot right right = 1" unfolding right_def by (rule Normalize_unit(1) [OF r])
  have "Dot right dir = Dot (Cross (m_up c) dir) dir / Magnitude (Cross (m_up c) dir)"
    unfolding right_def by (rule Normalize_unit(2) [OF r])
  then show "Dot dir right = 0" using Dot_commute [of dir right] by (simp add: Cross_orthogonal)
qed

text \<open>
  The matrix of a camera that sees something (it is not at the point it looks at, and does not look along its up
  vector): its three axes are orthonormal, it takes the position of the camera to the origin, and
  \<open>GetWorldPosByMatrix\<close> reads the position back.
\<close>

theorem look_at_camera:
  assumes "sees c"
  shows "let m = UpdateCameraMatrix c in
    axis_dot (m_row1 m) (m_row1 m) = 1 \<and> axis_dot (m_row2 m) (m_row2 m) = 1 \<and> axis_dot (m_row3 m) (m_row3 m) = 1 \<and>
    axis_dot (m_row1 m) (m_row2 m) = 0 \<and> axis_dot (m_row1 m) (m_row3 m) = 0 \<and> axis_dot (m_row2 m) (m_row3 m) = 0 \<and>
    to_camera (m_row1 m) (m_pos c) = 0 \<and> to_camera (m_row2 m) (m_pos c) = 0 \<and> to_camera (m_row3 m) (m_pos c) = 0 \<and>
    GetWorldPosByMatrix (UpdateCameraMatrixSelf c) [a, b, d] =
      Inr [Vector3Type (v_x (m_pos c)) 0 0, Vector3Type (v_y (m_pos c)) 0 0, Vector3Type (v_z (m_pos c)) 0 0]"
proof -
  define dir where "dir = Normalize (v3_sub (m_pos c) (m_at c))"
  define right where "right = Normalize (Cross (m_up c) dir)"
  have o: "Dot dir dir = 1" "Dot right right = 1" "Dot dir right = 0"
    using camera_axes [OF assms] by (simp_all add: dir_def right_def)
  have u: "Dot (Cross dir right) (Cross dir right) = 1" using o by (simp add: Cross_length)
  have m: "UpdateCameraMatrix c = \<lparr>m_row1 = view_row right (m_pos c), m_row2 = view_row (Cross dir right) (m_pos c),
      m_row3 = view_row dir (m_pos c)\<rparr>"
    by (simp add: UpdateCameraMatrix_eq Let_def dir_def right_def)
  have w: "q_w (view_row x (m_pos c)) = - Dot x (m_pos c)" "q_x (view_row x (m_pos c)) = v_x x"
      "q_y (view_row x (m_pos c)) = v_y x" "q_z (view_row x (m_pos c)) = v_z x" for x
    by (simp_all add: view_row_def Dot_eq)
  have p: "world_pos (UpdateCameraMatrix c) q_x = v_x (m_pos c)" "world_pos (UpdateCameraMatrix c) q_y = v_y (m_pos c)"
      "world_pos (UpdateCameraMatrix c) q_z = v_z (m_pos c)"
    using frame_components [OF o, of "m_pos c"] unfolding world_pos_def m by (simp_all only: w Matrix34.simps)
  have g: "GetWorldPosByMatrix (UpdateCameraMatrixSelf c) [a, b, d] =
      Inr [Vector3Type (v_x (m_pos c)) 0 0, Vector3Type (v_y (m_pos c)) 0 0, Vector3Type (v_z (m_pos c)) 0 0]"
    by (simp add: GetWorldPosByMatrix_def UpdateCameraMatrixSelf_def store_vectors_def p)
  have z: "Dot right (Cross dir right) = 0" "Dot right dir = 0" "Dot (Cross dir right) dir = 0"
    using o(3) Cross_orthogonal [of dir right] Dot_commute [of right dir] Dot_commute [of right "Cross dir right"] by simp_all
  show ?thesis unfolding Let_def using g by (simp add: m view_rows o(1,2) u z)
qed

text \<open>The readers of the axes give the second row for the direction and the third one for the up vector, and into
  a single vector they write past its end.\<close>

theorem camera_readers_swapped:
  assumes "sees c"
  shows "(\<exists>x y z. GetLookDirVectorByMatrix (UpdateCameraMatrixSelf c) [a, b, d] = Inr [Vector3Type x 0 0, Vector3Type y 0 0, Vector3Type z 0 0] \<and>
      x * (v_x (m_pos c) - v_x (m_at c)) + y * (v_y (m_pos c) - v_y (m_at c)) + z * (v_z (m_pos c) - v_z (m_at c)) = 0) \<and>
    GetLookDirVectorByMatrix (UpdateCameraMatrixSelf c) [a] = Inl OutOfBounds"
proof -
  define dir where "dir = Normalize (v3_sub (m_pos c) (m_at c))"
  define up where "up = Cross dir (Normalize (Cross (m_up c) dir))"
  let ?d = "v3_sub (m_pos c) (m_at c)"
  have d: "Dot ?d ?d \<noteq> 0" using assms by (simp add: sees_def Let_def)
  have "Dot up dir = 0" by (simp add: up_def Cross_orthogonal)
  then have "Dot dir up = 0" using Dot_commute [of dir up] by simp
  then have "Dot ?d up = 0" using Normalize_unit(2) [OF d, of up] d by (simp add: dir_def Magnitude_pos [THEN iffD2] Magnitude_Dot)
  then have "v_x up * (v_x (m_pos c) - v_x (m_at c)) + v_y up * (v_y (m_pos c) - v_y (m_at c)) + v_z up * (v_z (m_pos c) - v_z (m_at c)) = 0"
    by (simp add: Dot_eq algebra_simps)
  moreover have "GetLookDirVectorByMatrix (UpdateCameraMatrixSelf c) [a, b, d] =
      Inr [Vector3Type (v_x up) 0 0, Vector3Type (v_y up) 0 0, Vector3Type (v_z up) 0 0]" for d
    by (simp add: GetLookDirVectorByMatrix_def UpdateCameraMatrixSelf_def UpdateCameraMatrix_eq Let_def store_vectors_def view_row_def up_def dir_def)
  moreover have "GetLookDirVectorByMatrix (UpdateCameraMatrixSelf c) [a] = Inl OutOfBounds"
    by (simp add: GetLookDirVectorByMatrix_def store_vectors_def Let_def)
  ultimately show ?thesis by blast
qed

definition example_camera :: LookAtCamera where
  "example_camera = \<lparr>m_camera_mtx = IdentityMatrix34, m_pos = Vector3Type 1 2 3, m_at = Vector3Type 1 2 0, m_up = Vector3Type 0 1 0\<rparr>"

lemma example_camera_sees: "sees example_camera"
  by (simp add: sees_def example_camera_def Dot_eq Vector3Type_def)

theorem look_at_camera_witness:
  "GetWorldPosByMatrix (UpdateCameraMatrixSelf example_camera) (replicate 3 (Vector3Type 0 0 0)) =
    Inr [Vector3Type 1 0 0, Vector3Type 2 0 0, Vector3Type 3 0 0]"
  using look_at_camera [OF example_camera_sees, of "Vector3Type 0 0 0" "Vector3Type 0 0 0" "Vector3Type 0 0 0"]
  by (simp add: Let_def numeral_3_eq_3 example_camera_def Vector3Type_def)

theorem camera_readers_swapped_witness:
  "GetLookDirVectorByMatrix (UpdateCameraMatrixSelf example_camera) [Vector3Type 0 0 0] = Inl OutOfBounds"
  using camera_readers_swapped [OF example_camera_sees] by blast

section \<open>The projection\<close>

definition project :: "Vector4 \<Rightarrow> Vector3 \<Rightarrow> real" where
  "project r p = q_x r * v_x p + q_y r * v_y p + q_z r * v_z p + q_w r"

lemma depth_formula:
  assumes "far \<noteq> near" and "d \<noteq> 0"
  shows "project (depth_row near far) \<lparr>v_x = a, v_y = b, v_z = - d\<rparr> / d = ((near + far) - 2 * far * near / d) / (far - near)"
proof -
  have f: "far - near \<noteq> 0" using assms(1) by simp
  have "project (depth_row near far) \<lparr>v_x = a, v_y = b, v_z = - d\<rparr> = ((near + far) * d - 2 * far * near) / (far - near)"
    by (simp add: project_def depth_row_def Let_def diff_divide_distrib)
  also have "\<dots> / d = ((near + far) * d - 2 * far * near) / d / (far - near)" by simp
  also have "((near + far) * d - 2 * far * near) / d = (near + far) - 2 * far * near / d"
    using assms(2) by (simp add: diff_divide_distrib)
  finally show ?thesis .
qed

lemma depth_range:
  fixes near far d :: real
  assumes "0 < near" and "near < far" and "near \<le> d" and "d \<le> far"
  shows "- 1 \<le> ((near + far) - 2 * far * near / d) / (far - near)" "((near + far) - 2 * far * near / d) / (far - near) \<le> 1"
proof -
  have p: "0 < d" using assms by linarith
  have q: "0 < far - near" using assms by linarith
  note d = p q
  have "far * near \<le> d * far" "far * near \<le> d * far \<and> d * near \<le> far * near" using assms by (simp_all add: mult.commute)
  then have "2 * far * near / d \<le> 2 * far" "2 * near \<le> 2 * far * near / d" using d by (simp_all add: field_simps)
  then show "- 1 \<le> ((near + far) - 2 * far * near / d) / (far - near)" "((near + far) - 2 * far * near / d) / (far - near) \<le> 1"
    using d by (simp_all add: field_simps)
qed

text \<open>
  What the perspective projection makes of a point at distance \<open>d\<close> in front of the camera, after the division
  by the last coordinate: between the near and the far plane the depth is within -1 and 1, with these
  values at the planes, and the point is within the picture exactly if it is within the angle of view.
\<close>

theorem perspective_view:
  assumes "0 < near" and "near < far" and "near \<le> d" and "d \<le> far" and "0 < aspect" and "0 < tan (fovy / 2)"
  shows "let m = fst (GetProjectionMatrix (PerspectiveProjection junk near far fovy aspect));
             p = \<lparr>v_x = a, v_y = b, v_z = - d\<rparr>; w = project (p_row4 m) p in
    w = d \<and> - 1 \<le> project (p_row3 m) p / w \<and> project (p_row3 m) p / w \<le> 1 \<and>
    (d = near \<longrightarrow> project (p_row3 m) p / w = - 1) \<and> (d = far \<longrightarrow> project (p_row3 m) p / w = 1) \<and>
    (\<bar>project (p_row1 m) p / w\<bar> \<le> 1 \<longleftrightarrow> \<bar>a\<bar> \<le> d * tan (fovy / 2) * aspect) \<and>
    (\<bar>project (p_row2 m) p / w\<bar> \<le> 1 \<longleftrightarrow> \<bar>b\<bar> \<le> d * tan (fovy / 2))"
proof -
  let ?t = "tan (fovy / 2)"
  have d: "0 < d" using assms by linarith
  have m: "fst (GetProjectionMatrix (PerspectiveProjection junk near far fovy aspect)) =
      \<lparr>p_row1 = \<lparr>q_x = 1 / (?t * aspect), q_y = 0, q_z = 0, q_w = 0\<rparr>, p_row2 = \<lparr>q_x = 0, q_y = 1 / ?t, q_z = 0, q_w = 0\<rparr>,
       p_row3 = depth_row near far, p_row4 = w_row\<rparr>"
    by (simp add: GetProjectionMatrix_def PerspectiveProjection_def UpdateProjectionMatrixSelf_def Perspective_UpdateMatrix_def)
  have w: "project w_row \<lparr>v_x = a, v_y = b, v_z = - d\<rparr> = d" by (simp add: project_def w_row_def)
  have z: "project (depth_row near far) \<lparr>v_x = a, v_y = b, v_z = - d\<rparr> / d = ((near + far) - 2 * far * near / d) / (far - near)"
    by (rule depth_formula) (use assms d in auto)
  have n: "d = near \<longrightarrow> ((near + far) - 2 * far * near / d) / (far - near) = - 1"
    and f: "d = far \<longrightarrow> ((near + far) - 2 * far * near / d) / (far - near) = 1"
    using assms by (auto simp: field_simps)
  have x: "\<bar>project \<lparr>q_x = 1 / (?t * aspect), q_y = 0, q_z = 0, q_w = 0\<rparr> \<lparr>v_x = a, v_y = b, v_z = - d\<rparr> / d\<bar> \<le> 1 \<longleftrightarrow>
      \<bar>a\<bar> \<le> d * ?t * aspect"
    using d assms(5,6) by (simp add: project_def abs_mult abs_divide divide_le_eq mult_ac)
  have y: "\<bar>project \<lparr>q_x = 0, q_y = 1 / ?t, q_z = 0, q_w = 0\<rparr> \<lparr>v_x = a, v_y = b, v_z = - d\<rparr> / d\<bar> \<le> 1 \<longleftrightarrow> \<bar>b\<bar> \<le> d * ?t"
    using d assms(6) by (simp add: project_def abs_mult abs_divide divide_le_eq mult_ac)
  show ?thesis
    unfolding Let_def m Matrix44.simps fst_conv w z using depth_range [OF assms(1-4)] n f x y by blast
qed

text \<open>Uses of a projection, and that the matrix it has stored is the one of its parameters unless it is
  marked for an update.\<close>

inductive projection_step :: "PerspectiveProjection \<Rightarrow> PerspectiveProjection \<Rightarrow> bool" where
  aspect: "projection_step p (SetAspect v p)"
| fov: "projection_step p (SetFovX v p)"
| get: "projection_step p (snd (GetProjectionMatrix p))"

definition stored_ok :: "PerspectiveProjection \<Rightarrow> bool" where
  "stored_ok p \<longleftrightarrow> m_need_update p \<or> m_projection_matrix p = Perspective_UpdateMatrix p"

lemma stored_after_get: "stored_ok (snd (GetProjectionMatrix p))" if "stored_ok p"
  using that by (auto simp: stored_ok_def GetProjectionMatrix_def UpdateProjectionMatrixSelf_def Perspective_UpdateMatrix_def)

interpretation projection: kept_invariant "\<lambda>p. \<exists>junk n f v a. p = PerspectiveProjection junk n f v a" projection_step stored_ok
proof unfold_locales
  show "\<exists>junk n f v a. p = PerspectiveProjection junk n f v a \<Longrightarrow> stored_ok p" for p
    by (auto simp: stored_ok_def PerspectiveProjection_def)
  show "stored_ok p \<Longrightarrow> projection_step p q \<Longrightarrow> stored_ok q" for p q
    by (erule projection_step.cases) (auto simp: stored_after_get, auto simp: stored_ok_def SetAspect_def SetFovX_def)
qed

text \<open>Whatever is set in between, \<open>GetProjectionMatrix\<close> returns the matrix of the present parameters.\<close>

theorem projection_up_to_date:
  assumes "projection_step\<^sup>*\<^sup>* (PerspectiveProjection junk near far fovy aspect) p"
  shows "fst (GetProjectionMatrix p) = Perspective_UpdateMatrix p"
proof -
  have "stored_ok p" using projection.run_inv [OF _ assms] by blast
  then show ?thesis
    by (auto simp: stored_ok_def GetProjectionMatrix_def UpdateProjectionMatrixSelf_def)
qed

section \<open>The table of sines\<close>

text \<open>The values the table has at the 257 angles of a period, the last one being the first.\<close>

definition cos_entry :: "nat \<Rightarrow> real" where
  "cos_entry i = (if i = 0 \<or> i = 256 then 1 else snap (PreciseCos (table_angle (i - 1))))"

definition sin_entry :: "nat \<Rightarrow> real" where
  "sin_entry i = (if i = 0 \<or> i = 256 then 0 else snap (PreciseSin (table_angle (i - 1))))"

lemma snap_close: "\<bar>v - snap v\<bar> < FloatUlp"
  by (auto simp: snap_def FloatUlp_def)

lemma table_loop_length: "length (table_loop n i c s) = 4 * n + 2"
  by (induction n arbitrary: i c s) (simp_all add: Let_def)

text \<open>What the loop writes at its step \<open>k\<close>, given the values before it.\<close>

lemma table_loop_nth:
  assumes "k < n"
  shows "table_loop n i c s ! (4 * k) =
      PreciseCos (table_angle (i + k)) - (if k = 0 then c else snap (PreciseCos (table_angle (i + k - 1)))) \<and>
    table_loop n i c s ! (4 * k + 1) =
      PreciseSin (table_angle (i + k)) - (if k = 0 then s else snap (PreciseSin (table_angle (i + k - 1)))) \<and>
    table_loop n i c s ! (4 * k + 2) = snap (PreciseCos (table_angle (i + k))) \<and>
    table_loop n i c s ! (4 * k + 3) = snap (PreciseSin (table_angle (i + k)))"
  using assms
proof (induction n arbitrary: i c s k)
  case (Suc n)
  show ?case
  proof (cases k)
    case 0
    then show ?thesis by (simp add: Let_def numeral_3_eq_3 numeral_2_eq_2)
  next
    case (Suc j)
    let ?c = "snap (PreciseCos (table_angle i))" and ?s = "snap (PreciseSin (table_angle i))"
    have "table_loop (Suc n) i c s ! (4 * k + m) = table_loop n (Suc i) ?c ?s ! (4 * j + m)" for m
      by (simp add: Suc Let_def)
    note step = this [of 0] this [of 1] this [of 2] this [of 3]
    have "j < n" using Suc.prems(1) Suc by simp
    from Suc.IH [OF this, of "Suc i" ?c ?s] show ?thesis
      using step by (cases j) (simp_all add: Suc)
  qed
qed simp

lemma table_loop_end:
  "table_loop n i c s ! (4 * n) = 1 - (if n = 0 then c else snap (PreciseCos (table_angle (i + n - 1)))) \<and>
   table_loop n i c s ! (4 * n + 1) = 0 - (if n = 0 then s else snap (PreciseSin (table_angle (i + n - 1))))"
proof (induction n arbitrary: i c s)
  case (Suc n)
  show ?case using Suc [of "Suc i" "snap (PreciseCos (table_angle i))" "snap (PreciseSin (table_angle i))"]
    by (cases n) (simp_all add: Let_def)
qed simp

lemma table_entries:
  assumes "i < 256"
  shows "GenerateSinCosTable ! (i * 4) = cos_entry i \<and> GenerateSinCosTable ! (i * 4 + 1) = sin_entry i \<and>
    GenerateSinCosTable ! (i * 4 + 2) = (if i = 255 then 1 else PreciseCos (table_angle i)) - cos_entry i \<and>
    GenerateSinCosTable ! (i * 4 + 3) = (if i = 255 then 0 else PreciseSin (table_angle i)) - sin_entry i"
proof -
  have g: "GenerateSinCosTable ! (m + 2) = table_loop 255 0 1 0 ! m" for m
    by (simp add: GenerateSinCosTable_def)
  have vals: "GenerateSinCosTable ! (i * 4) = cos_entry i \<and> GenerateSinCosTable ! (i * 4 + 1) = sin_entry i"
  proof (cases i)
    case 0
    then show ?thesis by (simp add: GenerateSinCosTable_def cos_entry_def sin_entry_def)
  next
    case (Suc k)
    have e: "i * 4 = (4 * k + 2) + 2" "i * 4 + 1 = (4 * k + 3) + 2" using Suc by simp_all
    have k: "k < 255" using assms Suc by simp
    have "cos_entry i = snap (PreciseCos (table_angle k))" "sin_entry i = snap (PreciseSin (table_angle k))"
      using assms Suc by (simp_all add: cos_entry_def sin_entry_def)
    moreover have "GenerateSinCosTable ! (i * 4) = table_loop 255 0 1 0 ! (4 * k + 2)" unfolding e(1) by (rule g)
    moreover have "GenerateSinCosTable ! (i * 4 + 1) = table_loop 255 0 1 0 ! (4 * k + 3)" unfolding e(2) by (rule g)
    ultimately show ?thesis using table_loop_nth [OF k, of 0 1 0] by simp
  qed
  have "GenerateSinCosTable ! (i * 4 + 2) = (if i = 255 then 1 else PreciseCos (table_angle i)) - cos_entry i \<and>
    GenerateSinCosTable ! (i * 4 + 3) = (if i = 255 then 0 else PreciseSin (table_angle i)) - sin_entry i"
  proof (cases "i = 255")
    case True
    then show ?thesis using table_loop_end [of 255 0 1 0] g [of "4 * 255"] g [of "4 * 255 + 1"]
      by (simp add: cos_entry_def sin_entry_def)
  next
    case False
    then have "i < 255" using assms by simp
    note t = table_loop_nth [OF this, of 0 1 0]
    have "i * 4 + 2 = 4 * i + 2" "i * 4 + 3 = (4 * i + 1) + 2" by simp_all
    then have "GenerateSinCosTable ! (i * 4 + 2) = table_loop 255 0 1 0 ! (4 * i)"
      "GenerateSinCosTable ! (i * 4 + 3) = table_loop 255 0 1 0 ! (4 * i + 1)"
      using g [of "4 * i"] g [of "4 * i + 1"] by (simp_all only:)
    then show ?thesis using t False assms by (simp add: cos_entry_def sin_entry_def)
  qed
  with vals show ?thesis by blast
qed

lemma index_less: "sample_index a < 256"
proof -
  have "(0xFF :: u64) = mask 8" by (simp add: mask_eq_decr_exp)
  then show ?thesis using unat_and_mask [of "drop_bit 24 a" 8] by (simp add: sample_index_def)
qed

lemma variance_range: "0 \<le> variance a" "variance a < 1"
proof -
  have "(0xFFFFFF :: u64) = mask 24" by (simp add: mask_eq_decr_exp)
  then have "unat (a AND 0xFFFFFF) < 2 ^ 24" using unat_and_mask [of a 24] by simp
  then have "real (unat (a AND 0xFFFFFF)) < 2 ^ 24" by (metis of_nat_less_iff of_nat_numeral of_nat_power)
  then show "variance a < 1" by (simp add: variance_def)
  show "0 \<le> variance a" unfolding variance_def by (rule mult_nonneg_nonneg) (rule of_nat_0_le_iff, simp)
qed

lemma interpolation_error:
  assumes "0 \<le> v" and "v < 1"
  shows "\<bar>(e + (t - e) * v) - ((1 - v) * e + v * snap t)\<bar> < FloatUlp"
proof -
  have "(e + (t - e) * v) - ((1 - v) * e + v * snap t) = v * (t - snap t)" by (simp add: algebra_simps)
  moreover have "\<bar>v * (t - snap t)\<bar> \<le> \<bar>t - snap t\<bar>" using assms by (simp add: abs_mult mult_left_le_one_le)
  ultimately show ?thesis using snap_close [of t] by linarith
qed

text \<open>
  \<open>SampleSin\<close> and \<open>SampleCos\<close> interpolate: between two of the 256 angles of the table they are, up to the unit of
  least precision, the straight line between the values the table has there. They return for every
  angle index that fits 64 bits.
\<close>

theorem sample_interpolates:
  assumes "angle_index v = Inr a"
  shows "\<exists>sn cs. SampleSin v = Inr sn \<and> SampleCos v = Inr cs \<and> sample_index a < 256 \<and> 0 \<le> variance a \<and> variance a < 1 \<and>
    \<bar>sn - ((1 - variance a) * sin_entry (sample_index a) + variance a * sin_entry (sample_index a + 1))\<bar> < FloatUlp \<and>
    \<bar>cs - ((1 - variance a) * cos_entry (sample_index a) + variance a * cos_entry (sample_index a + 1))\<bar> < FloatUlp"
proof -
  let ?i = "sample_index a" and ?v = "variance a"
  note i = index_less [of a] and v = variance_range [of a] and t = table_entries [OF index_less, of a]
  let ?s = "if ?i = 255 then 0 else PreciseSin (table_angle ?i)" and ?c = "if ?i = 255 then 1 else PreciseCos (table_angle ?i)"
  have n: "sin_entry (?i + 1) = snap ?s" "cos_entry (?i + 1) = snap ?c"
    using i by (auto simp: sin_entry_def cos_entry_def snap_def FloatUlp_def)
  have "SampleSin v = Inr (sin_entry ?i + (?s - sin_entry ?i) * ?v)" "SampleCos v = Inr (cos_entry ?i + (?c - cos_entry ?i) * ?v)"
    using assms t by (simp_all add: SampleSin_def SampleCos_def Let_def)
  then show ?thesis unfolding n using interpolation_error [OF v] i v by blast
qed

lemma sample_zero: "SampleSin 0 = Inr 0" "SampleCos 0 = Inr 1"
proof -
  have "angle_index 0 = Inr 0" "sample_index 0 = 0" "variance 0 = 0"
    by (simp_all add: angle_index_def sample_index_def variance_def)
  then show "SampleSin 0 = Inr 0" "SampleCos 0 = Inr 1"
    using table_entries [of 0] by (simp_all add: SampleSin_def SampleCos_def cos_entry_def sin_entry_def)
qed

section \<open>Rotations\<close>

text \<open>A local rotation multiplies the part of every scalar product of rows that lies in its plane by the sum of the
  squares of the sampled sine and cosine, and keeps the rest: as far as the samples lie on the unit circle,
  it keeps lengths and angles.\<close>

theorem local_rotations_scale:
  assumes "SampleSin (AngleHalfRound theta) = Inr sn" and "SampleCos (AngleHalfRound theta) = Inr cs"
  shows "\<exists>mx my mz. RotateLocalX m theta = Inr mx \<and> RotateLocalY m theta = Inr my \<and> RotateLocalZ m theta = Inr mz \<and>
    (\<forall>(r, s) \<in> {(m_row1, m_row1), (m_row2, m_row2), (m_row3, m_row3), (m_row1, m_row2), (m_row1, m_row3), (m_row2, m_row3)}.
      axis_dot (r mx) (s mx) = q_x (r m) * q_x (s m) + (sn * sn + cs * cs) * (q_y (r m) * q_y (s m) + q_z (r m) * q_z (s m)) \<and>
      axis_dot (r my) (s my) = q_y (r m) * q_y (s m) + (sn * sn + cs * cs) * (q_x (r m) * q_x (s m) + q_z (r m) * q_z (s m)) \<and>
      axis_dot (r mz) (s mz) = q_z (r m) * q_z (s m) + (sn * sn + cs * cs) * (q_x (r m) * q_x (s m) + q_y (r m) * q_y (s m)))"
proof -
  have turns:
    "axis_dot (turn_x sn cs r) (turn_x sn cs s) = q_x r * q_x s + (sn * sn + cs * cs) * (q_y r * q_y s + q_z r * q_z s)"
    "axis_dot (turn_y sn cs r) (turn_y sn cs s) = q_y r * q_y s + (sn * sn + cs * cs) * (q_x r * q_x s + q_z r * q_z s)"
    "axis_dot (turn_z sn cs r) (turn_z sn cs s) = q_z r * q_z s + (sn * sn + cs * cs) * (q_x r * q_x s + q_y r * q_y s)" for r s
    by (simp_all add: axis_dot_def turn_x_def turn_y_def turn_z_def algebra_simps)
  show ?thesis
    unfolding RotateLocalX_def RotateLocalY_def RotateLocalZ_def turn_rows_def assms and_then.simps
    by (simp add: turns)
qed

text \<open>\<open>RotateVectorAxisX\<close> and \<open>RotateVectorAxisY\<close> have sine and cosine exchanged: by the angle zero they turn a
  vector by a quarter. \<open>RotateVectorAxisZ\<close> turns about the y axis: it never changes the second coordinate.\<close>

theorem vector_rotations_wrong:
  "RotateVectorAxisX (Vector3Type a b c) 0 = Inr (Vector3Type a (- c) b) \<and>
   RotateVectorAxisY (Vector3Type a b c) 0 = Inr (Vector3Type c b (- a)) \<and>
   (\<forall>v ang w. RotateVectorAxisZ v ang = Inr w \<longrightarrow> v_y w = v_y v)"
  by (auto simp: RotateVectorAxisX_def RotateVectorAxisY_def RotateVectorAxisZ_def AngleHalfRound_def sample_zero Vector3Type_def
      and_then_Inr_iff)

text \<open>\<open>Parallelize\<close> scales the vector it should make parallel to the base; \<open>Determinent\<close> takes one element from the wrong
  place; \<open>MakeVectorRotation\<close> does not turn the x axis to the y axis.\<close>

theorem vector_formulas_wrong:
  "Cross (Parallelize base v) v = Vector3Type 0 0 0 \<and>
   Determinent m = Dot (m_r1 m) (Cross (m_r2 m) (m_r3 m)) + v_z (m_r1 m) * v_y (m_r2 m) * (v_x (m_r3 m) - v_z (m_r1 m)) \<and>
   fst (MakeVectorRotation (Vector3Type 0 1 0) (Vector3Type 1 0 0)) \<and>
   q_x (m_row1 (snd (MakeVectorRotation (Vector3Type 0 1 0) (Vector3Type 1 0 0)))) = 1"
proof (intro conjI)
  show "Cross (Parallelize base v) v = Vector3Type 0 0 0"
    by (simp add: Cross_eq Parallelize_def Let_def Vector3Type_def)
  show "Determinent m = Dot (m_r1 m) (Cross (m_r2 m) (m_r3 m)) + v_z (m_r1 m) * v_y (m_r2 m) * (v_x (m_r3 m) - v_z (m_r1 m))"
    by (simp add: Determinent_def Dot_eq algebra_simps)
  have c: "Cross (Vector3Type 1 0 0) (Vector3Type 0 1 0) = Vector3Type 0 0 1" "Dot (Vector3Type 1 0 0) (Vector3Type 0 1 0) = 0"
    by (simp_all add: Cross_eq Dot_eq Vector3Type_def)
  show "fst (MakeVectorRotation (Vector3Type 0 1 0) (Vector3Type 1 0 0))"
    by (simp add: MakeVectorRotation_def c Let_def FloatUlp_def)
  show "q_x (m_row1 (snd (MakeVectorRotation (Vector3Type 0 1 0) (Vector3Type 1 0 0)))) = 1"
    by (simp add: MakeVectorRotation_def c Let_def FloatUlp_def v3_scale_def) (simp add: Vector3Type_def)
qed

section \<open>Examples\<close>

definition blank_matrix :: Matrix44 where
  "blank_matrix = \<lparr>p_row1 = w_row, p_row2 = w_row, p_row3 = w_row, p_row4 = w_row\<rparr>"

theorem perspective_view_witness:
  "project (p_row4 (fst (GetProjectionMatrix (PerspectiveProjection blank_matrix 1 100 (pi / 2) 2)))) \<lparr>v_x = 0, v_y = 3, v_z = - 5\<rparr> = 5 \<and>
   \<bar>project (p_row2 (fst (GetProjectionMatrix (PerspectiveProjection blank_matrix 1 100 (pi / 2) 2)))) \<lparr>v_x = 0, v_y = 3, v_z = - 5\<rparr> / 5\<bar> \<le> 1"
  using perspective_view [of 1 100 5 2 "pi / 2" blank_matrix 0 3] unfolding Let_def by (auto simp: tan_45)

theorem projection_up_to_date_witness:
  "fst (GetProjectionMatrix (SetAspect 3 (snd (GetProjectionMatrix (PerspectiveProjection blank_matrix 1 100 1 2))))) =
    Perspective_UpdateMatrix (SetAspect 3 (snd (GetProjectionMatrix (PerspectiveProjection blank_matrix 1 100 1 2))))"
proof -
  let ?p = "PerspectiveProjection blank_matrix 1 100 1 2"
  have "projection_step\<^sup>*\<^sup>* ?p (SetAspect 3 (snd (GetProjectionMatrix ?p)))"
    using projection_step.get [of ?p] projection_step.aspect [of "snd (GetProjectionMatrix ?p)" 3] by auto
  then show ?thesis by (rule projection_up_to_date)
qed

theorem sample_interpolates_witness:
  "\<exists>sn cs. SampleSin 0 = Inr sn \<and> SampleCos 0 = Inr cs \<and> \<bar>sn - sin_entry 0\<bar> < FloatUlp \<and> \<bar>cs - cos_entry 0\<bar> < FloatUlp"
proof -
  have "angle_index 0 = Inr 0" "sample_index 0 = 0" "variance 0 = 0"
    by (simp_all add: angle_index_def sample_index_def variance_def)
  then show ?thesis using sample_interpolates [of 0 0] by auto
qed

theorem local_rotations_scale_witness:
  "\<exists>mx. RotateLocalX IdentityMatrix34 0 = Inr mx \<and> axis_dot (m_row2 mx) (m_row2 mx) = 1"
proof -
  have "SampleSin (AngleHalfRound 0) = Inr 0" "SampleCos (AngleHalfRound 0) = Inr 1" by (simp_all add: AngleHalfRound_def sample_zero)
  from local_rotations_scale [OF this, of IdentityMatrix34] show ?thesis by (auto simp: IdentityMatrix34_def)
qed

end
