(* ===== verification/Vk_Driver.thy ===== *)
theory Vk_Driver
  imports DD_Prelude "HOL-Library.Multiset" Complex_Main
begin

text \<open>
  What the Vulkan layer (\<open>include/dd/vk\<close>, \<open>source/vk\<close>) says to the driver, and what the driver says back.
  The driver is not part of the repository: it is an argument, a function from everything that was called before
  and the present call to an answer. The code is translated into definitions that append their calls to a log.

  Over the log stand the rules of the Vulkan specification that the layer has to keep: which objects exist
  (\<open>vk_objects\<close>), that only existing objects are destroyed (\<open>valid_use\<close>), and the contract of a class that owns
  objects of the driver (locale \<open>vk_owner\<close>), which the theories of the layer interpret for each class.

  Names and values of the enumerants are those of the Vulkan specification. The field \<open>sType\<close> of a structure is the
  type of the record here, and fields the code leaves zero are left out.
\<close>

section \<open>Enumerants\<close>

definition VK_SUCCESS :: u32 where "VK_SUCCESS = 0"
definition VK_TRUE :: u32 where "VK_TRUE = 1"
definition VK_WHOLE_SIZE :: u64 where "VK_WHOLE_SIZE = - 1"
definition UINT64_MAX :: u64 where "UINT64_MAX = - 1"

definition VK_MEMORY_PROPERTY_DEVICE_LOCAL_BIT :: u32 where "VK_MEMORY_PROPERTY_DEVICE_LOCAL_BIT = 1"
definition VK_MEMORY_PROPERTY_HOST_VISIBLE_BIT :: u32 where "VK_MEMORY_PROPERTY_HOST_VISIBLE_BIT = 2"
definition VK_MEMORY_PROPERTY_HOST_COHERENT_BIT :: u32 where "VK_MEMORY_PROPERTY_HOST_COHERENT_BIT = 4"

definition VK_BUFFER_USAGE_TRANSFER_SRC_BIT :: u32 where "VK_BUFFER_USAGE_TRANSFER_SRC_BIT = 1"
definition VK_BUFFER_USAGE_TRANSFER_DST_BIT :: u32 where "VK_BUFFER_USAGE_TRANSFER_DST_BIT = 2"
definition VK_BUFFER_USAGE_SHADER_DEVICE_ADDRESS_BIT :: u32 where "VK_BUFFER_USAGE_SHADER_DEVICE_ADDRESS_BIT = 0x20000"

definition VK_IMAGE_USAGE_TRANSFER_DST_BIT :: u32 where "VK_IMAGE_USAGE_TRANSFER_DST_BIT = 2"
definition VK_IMAGE_USAGE_COLOR_ATTACHMENT_BIT :: u32 where "VK_IMAGE_USAGE_COLOR_ATTACHMENT_BIT = 0x10"
definition VK_IMAGE_USAGE_DEPTH_STENCIL_ATTACHMENT_BIT :: u32 where "VK_IMAGE_USAGE_DEPTH_STENCIL_ATTACHMENT_BIT = 0x20"

definition VK_IMAGE_ASPECT_COLOR_BIT :: u32 where "VK_IMAGE_ASPECT_COLOR_BIT = 1"
definition VK_IMAGE_ASPECT_DEPTH_BIT :: u32 where "VK_IMAGE_ASPECT_DEPTH_BIT = 2"
definition VK_IMAGE_ASPECT_STENCIL_BIT :: u32 where "VK_IMAGE_ASPECT_STENCIL_BIT = 4"

definition VK_IMAGE_LAYOUT_UNDEFINED :: u32 where "VK_IMAGE_LAYOUT_UNDEFINED = 0"
definition VK_IMAGE_LAYOUT_GENERAL :: u32 where "VK_IMAGE_LAYOUT_GENERAL = 1"
definition VK_IMAGE_LAYOUT_ATTACHMENT_OPTIMAL_KHR :: u32 where "VK_IMAGE_LAYOUT_ATTACHMENT_OPTIMAL_KHR = 1000314001"

definition VK_FORMAT_UNDEFINED :: u32 where "VK_FORMAT_UNDEFINED = 0"
definition VK_FORMAT_B8G8R8A8_SRGB :: u32 where "VK_FORMAT_B8G8R8A8_SRGB = 50"
definition VK_FORMAT_D24_UNORM_S8_UINT :: u32 where "VK_FORMAT_D24_UNORM_S8_UINT = 129"

definition VK_SHADER_STAGE_VERTEX_BIT :: u32 where "VK_SHADER_STAGE_VERTEX_BIT = 1"
definition VK_SHADER_STAGE_TESSELLATION_CONTROL_BIT :: u32 where "VK_SHADER_STAGE_TESSELLATION_CONTROL_BIT = 2"
definition VK_SHADER_STAGE_TESSELLATION_EVALUATION_BIT :: u32 where "VK_SHADER_STAGE_TESSELLATION_EVALUATION_BIT = 4"
definition VK_SHADER_STAGE_GEOMETRY_BIT :: u32 where "VK_SHADER_STAGE_GEOMETRY_BIT = 8"
definition VK_SHADER_STAGE_FRAGMENT_BIT :: u32 where "VK_SHADER_STAGE_FRAGMENT_BIT = 0x10"
definition VK_SHADER_STAGE_COMPUTE_BIT :: u32 where "VK_SHADER_STAGE_COMPUTE_BIT = 0x20"
definition VK_SHADER_STAGE_TASK_BIT_EXT :: u32 where "VK_SHADER_STAGE_TASK_BIT_EXT = 0x40"
definition VK_SHADER_STAGE_MESH_BIT_EXT :: u32 where "VK_SHADER_STAGE_MESH_BIT_EXT = 0x80"
definition VK_SHADER_STAGE_ALL :: u32 where "VK_SHADER_STAGE_ALL = 0x7FFFFFFF"

definition VK_PIPELINE_STAGE_EARLY_FRAGMENT_TESTS_BIT :: u64 where "VK_PIPELINE_STAGE_EARLY_FRAGMENT_TESTS_BIT = 0x100"
definition VK_PIPELINE_STAGE_LATE_FRAGMENT_TESTS_BIT :: u64 where "VK_PIPELINE_STAGE_LATE_FRAGMENT_TESTS_BIT = 0x200"
definition VK_PIPELINE_STAGE_COLOR_ATTACHMENT_OUTPUT_BIT :: u64 where "VK_PIPELINE_STAGE_COLOR_ATTACHMENT_OUTPUT_BIT = 0x400"
definition VK_PIPELINE_STAGE_TRANSFER_BIT :: u64 where "VK_PIPELINE_STAGE_TRANSFER_BIT = 0x1000"
definition VK_PIPELINE_STAGE_BOTTOM_OF_PIPE_BIT :: u64 where "VK_PIPELINE_STAGE_BOTTOM_OF_PIPE_BIT = 0x2000"
definition VK_PIPELINE_STAGE_2_ALL_COMMANDS_BIT :: u64 where "VK_PIPELINE_STAGE_2_ALL_COMMANDS_BIT = 0x10000"

definition VK_ACCESS_NONE :: u64 where "VK_ACCESS_NONE = 0"
definition VK_ACCESS_SHADER_READ_BIT :: u64 where "VK_ACCESS_SHADER_READ_BIT = 0x20"
definition VK_ACCESS_COLOR_ATTACHMENT_WRITE_BIT :: u64 where "VK_ACCESS_COLOR_ATTACHMENT_WRITE_BIT = 0x100"
definition VK_ACCESS_DEPTH_STENCIL_ATTACHMENT_WRITE_BIT :: u64 where "VK_ACCESS_DEPTH_STENCIL_ATTACHMENT_WRITE_BIT = 0x400"
definition VK_ACCESS_TRANSFER_WRITE_BIT :: u64 where "VK_ACCESS_TRANSFER_WRITE_BIT = 0x1000"

definition VK_DESCRIPTOR_TYPE_SAMPLER :: u32 where "VK_DESCRIPTOR_TYPE_SAMPLER = 0"
definition VK_DESCRIPTOR_TYPE_SAMPLED_IMAGE :: u32 where "VK_DESCRIPTOR_TYPE_SAMPLED_IMAGE = 2"

datatype VkAttachmentLoadOp = VK_ATTACHMENT_LOAD_OP_CLEAR | VK_ATTACHMENT_LOAD_OP_DONT_CARE
datatype VkPipelineBindPoint = VK_PIPELINE_BIND_POINT_GRAPHICS | VK_PIPELINE_BIND_POINT_COMPUTE
  | VK_PIPELINE_BIND_POINT_RAY_TRACING_KHR

datatype (plugins only: code) VkDynamicState =
    VK_DYNAMIC_STATE_VIEWPORT_WITH_COUNT | VK_DYNAMIC_STATE_SCISSOR_WITH_COUNT | VK_DYNAMIC_STATE_LINE_WIDTH
  | VK_DYNAMIC_STATE_DEPTH_BIAS | VK_DYNAMIC_STATE_BLEND_CONSTANTS | VK_DYNAMIC_STATE_DEPTH_BOUNDS
  | VK_DYNAMIC_STATE_STENCIL_COMPARE_MASK | VK_DYNAMIC_STATE_STENCIL_WRITE_MASK | VK_DYNAMIC_STATE_STENCIL_REFERENCE
  | VK_DYNAMIC_STATE_CULL_MODE | VK_DYNAMIC_STATE_FRONT_FACE | VK_DYNAMIC_STATE_PRIMITIVE_TOPOLOGY
  | VK_DYNAMIC_STATE_VERTEX_INPUT_BINDING_STRIDE | VK_DYNAMIC_STATE_DEPTH_TEST_ENABLE | VK_DYNAMIC_STATE_DEPTH_WRITE_ENABLE
  | VK_DYNAMIC_STATE_DEPTH_COMPARE_OP | VK_DYNAMIC_STATE_DEPTH_BOUNDS_TEST_ENABLE | VK_DYNAMIC_STATE_STENCIL_TEST_ENABLE
  | VK_DYNAMIC_STATE_STENCIL_OP | VK_DYNAMIC_STATE_RASTERIZER_DISCARD_ENABLE | VK_DYNAMIC_STATE_DEPTH_BIAS_ENABLE
  | VK_DYNAMIC_STATE_PRIMITIVE_RESTART_ENABLE | VK_DYNAMIC_STATE_VERTEX_INPUT_EXT | VK_DYNAMIC_STATE_LOGIC_OP_EXT
  | VK_DYNAMIC_STATE_COLOR_BLEND_ENABLE_EXT | VK_DYNAMIC_STATE_COLOR_BLEND_EQUATION_EXT | VK_DYNAMIC_STATE_COLOR_WRITE_MASK_EXT
  | VK_DYNAMIC_STATE_DEPTH_CLAMP_ENABLE_EXT | VK_DYNAMIC_STATE_LOGIC_OP_ENABLE_EXT | VK_DYNAMIC_STATE_POLYGON_MODE_EXT

section \<open>Structures\<close>

record VkBufferCreateInfo =
  external_host :: bool
  buffer_size :: u64
  buffer_usage :: u32
  buffer_family :: u32

record VkMemoryAllocateInfo =
  device_address :: bool
  host_pointer :: "u64 option"
  allocationSize :: u64
  memoryTypeIndex :: u32

record VkImageCreateInfo =
  image_flags :: u32
  imageType :: u8
  image_format :: u32
  image_extent :: "u32 \<times> u32 \<times> u32"
  mipLevels :: u16
  arrayLayers :: u8
  image_samples :: u8
  image_tiling :: u8
  image_usage :: u16
  image_family :: u32
  initialLayout :: u32

record VkImageViewCreateInfo =
  view_image :: u64
  viewType :: u16
  view_format :: u32
  view_components :: "u8 \<times> u8 \<times> u8 \<times> u8"
  aspectMask :: u32
  baseMipLevel :: u32
  levelCount :: u32
  baseArrayLayer :: u32
  layerCount :: u32

record VkSamplerCreateInfo =
  magFilter :: u32
  minFilter :: u32
  mipmapMode :: u8
  addressModes :: "u8 \<times> u8 \<times> u8"
  mipLodBias :: real
  anisotropyEnable :: bool
  maxAnisotropy :: real
  compareEnable :: bool
  compareOp :: u32
  minLod :: real
  maxLod :: real
  borderColor :: u32

record VkGraphicsPipelineCreateInfo =
  colorAttachmentCount :: u32
  colorAttachmentFormats :: "u32 list"
  depthStencilFormat :: u32
  pipeline_stages :: "(u32 \<times> u64) list"
  has_input_assembly :: bool
  dynamic_states :: "VkDynamicState list"
  pipeline_layout :: u64

record VkSwapchainCreateInfoKHR =
  swapchain_surface :: u64
  minImageCount :: u32
  swapchain_format :: u32
  swapchain_extent :: "u32 \<times> u32"
  swapchain_usage :: u32
  swapchain_family :: u32
  oldSwapchain :: u64

record VkDescriptorSetLayoutBinding =
  layout_binding :: u32
  layout_type :: u32
  layout_count :: u32
  layout_stages :: u32

record VkPushConstantRange =
  range_stages :: u32
  range_offset :: u32
  range_size :: u32

record VkWriteDescriptorSet =
  dstSet :: u64
  dstBinding :: u32
  dstArrayElement :: u32
  write_type :: u32
  write_view :: u64
  write_sampler :: u64

datatype VkClearValue = ClearColor real real real real | ClearDepthStencil real u32

record VkRenderingAttachmentInfo =
  imageView :: u64
  imageLayout :: u32
  loadOp :: VkAttachmentLoadOp
  clearValue :: VkClearValue

record VkRenderingInfo =
  renderArea :: "u32 \<times> u32"
  pColorAttachments :: "VkRenderingAttachmentInfo list"
  pDepthStencilAttachment :: "VkRenderingAttachmentInfo option"

record VkMemoryBarrier2 =
  srcStageMask :: u64
  srcAccessMask :: u64
  dstStageMask :: u64
  dstAccessMask :: u64

text \<open>\<open>VkStencilOpState\<close>, \<open>VkColorBlendEquationEXT\<close>, \<open>VkVertexInputBindingDescription2EXT\<close> and so on, as tuples of their
  fields in order.\<close>

type_synonym stencil_ops = "u32 \<times> u32 \<times> u32 \<times> u32"
type_synonym blend_equation = "u32 \<times> u32 \<times> u32 \<times> u32 \<times> u32 \<times> u32"
type_synonym vertex_binding = "u32 \<times> u32 \<times> u32 \<times> u32"
type_synonym vertex_attribute = "u32 \<times> u32 \<times> u32 \<times> u32"
type_synonym subresource_range = "u32 \<times> u32 \<times> u32 \<times> u32 \<times> u32"
type_synonym viewport_rect = "real \<times> real \<times> real \<times> real \<times> real \<times> real"
type_synonym scissor_rect = "int \<times> int \<times> u32 \<times> u32"

datatype stencil_face = VK_STENCIL_FACE_FRONT_BIT | VK_STENCIL_FACE_BACK_BIT

section \<open>Calls\<close>

text \<open>The commands that set one part of the state of the pipeline.\<close>

datatype (plugins only: code) vk_state =
    vkCmdSetLogicOpEnableEXT bool
  | vkCmdSetLogicOpEXT u32
  | vkCmdSetBlendConstants "real \<times> real \<times> real \<times> real"
  | vkCmdSetColorBlendEnableEXT "bool list"
  | vkCmdSetColorBlendEquationEXT "blend_equation list"
  | vkCmdSetColorWriteMaskEXT "u32 list"
  | vkCmdSetDepthTestEnable bool
  | vkCmdSetDepthWriteEnable bool
  | vkCmdSetDepthBoundsTestEnable bool
  | vkCmdSetDepthBounds real real
  | vkCmdSetDepthCompareOp u32
  | vkCmdSetStencilTestEnable bool
  | vkCmdSetStencilCompareMask stencil_face u32
  | vkCmdSetStencilWriteMask stencil_face u32
  | vkCmdSetStencilReference stencil_face u32
  | vkCmdSetStencilOp stencil_face stencil_ops
  | vkCmdSetRasterizerDiscardEnable bool
  | vkCmdSetPrimitiveRestartEnable bool
  | vkCmdSetDepthBiasEnable bool
  | vkCmdSetDepthBias real real real
  | vkCmdSetLineWidth real
  | vkCmdSetCullMode u32
  | vkCmdSetFrontFace u32
  | vkCmdSetDepthClampEnableEXT bool
  | vkCmdSetPolygonModeEXT u32
  | vkCmdSetVertexInputEXT "vertex_binding list" "vertex_attribute list"
  | vkCmdSetViewportWithCount "viewport_rect list"
  | vkCmdSetScissorWithCount "scissor_rect list"
  | vkCmdSetPrimitiveTopology u32

text \<open>The commands that are recorded in a command buffer.\<close>

datatype (plugins only: code) vk_cmd =
    vkCmdBeginRendering VkRenderingInfo
  | vkCmdEndRendering
  | vkCmdPushConstants u32 u32 u64
  | vkCmdClearColorImage u64 u32 VkClearValue subresource_range
  | vkCmdClearDepthStencilImage u64 u32 VkClearValue subresource_range
  | vkCmdCopyBuffer u64 u64 u64
  | vkCmdPipelineBarrier2_buffer u64 VkMemoryBarrier2
  | vkCmdPipelineBarrier2_image u64 VkMemoryBarrier2 u32 u32 u32
  | vkCmdDraw u32 u32 u32 u32
  | vkCmdDrawIndexed u32 u32 u32 u32 u32
  | vkCmdBindIndexBuffer u64 u64 u32
  | vkCmdBindVertexBuffers2 u32 u64 u64 u64 u64
  | vkCmdBindPipeline VkPipelineBindPoint u64
  | vkCmdBindDescriptorSets u32 u64
  | vkCmdSet vk_state

text \<open>The kinds of objects, and the calls. \<open>vkDestroy\<close> stands for the functions that destroy or free an object,
  one for each kind.\<close>

datatype (plugins only: code) vk_kind = VkInstance | VkDebugUtilsMessengerEXT | VkDevice | VkCommandPool | VkCommandBuffer | VkDescriptorSetLayout
  | VkPipelineLayout | VkBuffer | VkDeviceMemory | VkImage | VkImageView | VkSampler | VkShaderModule | VkPipeline
  | VkDescriptorPool | VkSwapchainKHR | VkSemaphore | VkFence

datatype (plugins only: code) vk_call =
    vkEnumerateInstanceVersion
  | vkCreateInstance u32 "string list" "string list"
  | vkCreateDebugUtilsMessengerEXT
  | vkEnumeratePhysicalDevices bool
  | vkGetPhysicalDeviceWin32PresentationSupportKHR u64 u32
  | vkCreateDevice u64 u32 "string list" "string list"
  | vkGetDeviceQueue u64 u32
  | vkCreateCommandPool u32
  | vkCreateDescriptorSetLayout VkDescriptorSetLayoutBinding
  | vkCreatePipelineLayout "u64 list" "VkPushConstantRange list"
  | vkQueueWaitIdle u64
  | vkDeviceWaitIdle u64
  | vkAllocateCommandBuffers u64
  | vkAllocateMemory VkMemoryAllocateInfo
  | vkGetMemoryHostPointerPropertiesEXT u64
  | vkMapMemory u64
  | vkUnmapMemory u64
  | vkCreateBuffer VkBufferCreateInfo
  | vkBindBufferMemory u64 u64 u64
  | vkGetBufferDeviceAddress u64
  | vkGetDeviceBufferMemoryRequirements VkBufferCreateInfo
  | vkCreateImage VkImageCreateInfo
  | vkBindImageMemory u64 u64 u64
  | vkGetDeviceImageMemoryRequirements VkImageCreateInfo
  | vkCreateImageView VkImageViewCreateInfo
  | vkCreateSampler VkSamplerCreateInfo
  | vkCreateShaderModule u64 u64
  | vkCreateGraphicsPipelines VkGraphicsPipelineCreateInfo
  | vkCreateComputePipelines u64 u64
  | vkCreateDescriptorPool u32 u32
  | vkAllocateDescriptorSets u64 u64
  | vkUpdateDescriptorSets VkWriteDescriptorSet
  | vkCreateSwapchainKHR VkSwapchainCreateInfoKHR
  | vkGetSwapchainImagesKHR u64 u32
  | vkCreateSemaphore
  | vkCreateFence bool
  | vkAcquireNextImageKHR u64 u64 u64
  | vkWaitForFences u64 u64
  | vkResetFences u64
  | vkQueuePresentKHR u64 u64 u64 u32
  | vkBeginCommandBuffer u64
  | vkEndCommandBuffer u64
  | vkCmd u64 vk_cmd
  | vkDestroy vk_kind u64

section \<open>The log\<close>

text \<open>An answer is the returned number (a \<open>VkResult\<close> where the function returns one), what the driver writes to the variable
  whose address was passed (a handle, an address, an index, a size), and what it writes to an array.\<close>

record vk_answer =
  vk_result :: u32
  vk_value :: u64
  vk_values :: "u64 list"

type_synonym vk_log = "(vk_call \<times> vk_answer) list"
type_synonym vk_driver = "vk_log \<Rightarrow> vk_call \<Rightarrow> vk_answer"

definition ask :: "vk_driver \<Rightarrow> vk_call \<Rightarrow> vk_log \<Rightarrow> vk_answer \<times> vk_log" where
  "ask drv c w = (drv w c, w @ [(c, drv w c)])"

text \<open>A call whose answer does not matter, one whose result is asserted to be \<open>VK_SUCCESS\<close>, and one of these that
  creates an object.\<close>

definition tell :: "vk_driver \<Rightarrow> vk_call \<Rightarrow> vk_log \<Rightarrow> vk_log" where
  "tell drv c w = snd (ask drv c w)"

definition checked :: "vk_driver \<Rightarrow> vk_call \<Rightarrow> vk_log \<Rightarrow> (vk_answer \<times> vk_log) outcome" where
  "checked drv c w = (case ask drv c w of (a, w) \<Rightarrow> dd_assert (vk_result a = VK_SUCCESS) (a, w))"

definition create :: "vk_driver \<Rightarrow> vk_call \<Rightarrow> vk_log \<Rightarrow> (u64 \<times> vk_log) outcome" where
  "create drv c w = and_then (checked drv c w) (\<lambda>(a, w). Inr (vk_value a, w))"

lemma create_Inr_iff:
  "create drv c w = Inr (h, w') \<longleftrightarrow> vk_result (drv w c) = VK_SUCCESS \<and> h = vk_value (drv w c) \<and> w' = w @ [(c, drv w c)]"
  by (auto simp: create_def checked_def ask_def and_then_Inr_iff)

lemma checked_Inr_iff:
  "checked drv c w = Inr (a, w') \<longleftrightarrow> vk_result (drv w c) = VK_SUCCESS \<and> a = drv w c \<and> w' = w @ [(c, drv w c)]"
  by (auto simp: checked_def ask_def)

lemma tell_eq: "tell drv c w = w @ [(c, drv w c)]"
  by (simp add: tell_def ask_def)

lemma ask_eq: "ask drv c w = (a, w') \<longleftrightarrow> a = drv w c \<and> w' = w @ [(c, drv w c)]"
  by (auto simp: ask_def)

lemmas vk_simps = create_Inr_iff checked_Inr_iff tell_eq ask_eq and_then_Inr_iff

text \<open>A driver that answers every call with success and numbers the handles it gives out, for the examples.\<close>

definition counting_driver :: vk_driver where
  "counting_driver w c = \<lparr>vk_result = VK_SUCCESS, vk_value = of_nat (length w + 1), vk_values = []\<rparr>"

section \<open>Objects of the driver\<close>

text \<open>The kind of object a call creates. Descriptor sets belong to
  their pool, images of a swapchain to the swapchain, and the null handle is no object.\<close>

fun creates :: "vk_call \<Rightarrow> vk_kind option" where
  "creates (vkCreateInstance v l e) = Some VkInstance"
| "creates vkCreateDebugUtilsMessengerEXT = Some VkDebugUtilsMessengerEXT"
| "creates (vkCreateDevice p q e f) = Some VkDevice"
| "creates (vkCreateCommandPool q) = Some VkCommandPool"
| "creates (vkAllocateCommandBuffers p) = Some VkCommandBuffer"
| "creates (vkCreateDescriptorSetLayout b) = Some VkDescriptorSetLayout"
| "creates (vkCreatePipelineLayout l r) = Some VkPipelineLayout"
| "creates (vkCreateBuffer i) = Some VkBuffer"
| "creates (vkAllocateMemory m) = Some VkDeviceMemory"
| "creates (vkCreateImage i) = Some VkImage"
| "creates (vkCreateImageView i) = Some VkImageView"
| "creates (vkCreateSampler i) = Some VkSampler"
| "creates (vkCreateShaderModule n p) = Some VkShaderModule"
| "creates (vkCreateGraphicsPipelines i) = Some VkPipeline"
| "creates (vkCreateComputePipelines m l) = Some VkPipeline"
| "creates (vkCreateDescriptorPool t n) = Some VkDescriptorPool"
| "creates (vkCreateSwapchainKHR i) = Some VkSwapchainKHR"
| "creates vkCreateSemaphore = Some VkSemaphore"
| "creates (vkCreateFence s) = Some VkFence"
| "creates c = None"

definition object :: "vk_kind \<Rightarrow> u64 \<Rightarrow> (vk_kind \<times> u64) multiset" where
  "object k h = (if h = 0 then {#} else {#(k, h)#})"

definition new_object :: "vk_call \<Rightarrow> vk_answer \<Rightarrow> (vk_kind \<times> u64) multiset" where
  "new_object c a = (case creates c of None \<Rightarrow> {#}
    | Some k \<Rightarrow> if vk_result a = VK_SUCCESS then object k (vk_value a) else {#})"

fun old_object :: "vk_call \<Rightarrow> (vk_kind \<times> u64) multiset" where
  "old_object (vkDestroy k h) = object k h"
| "old_object c = {#}"

definition object_step :: "vk_call \<times> vk_answer \<Rightarrow> (vk_kind \<times> u64) multiset \<Rightarrow> (vk_kind \<times> u64) multiset" where
  "object_step e m = m - old_object (fst e) + new_object (fst e) (snd e)"

definition vk_objects :: "vk_log \<Rightarrow> (vk_kind \<times> u64) multiset" where
  "vk_objects w = fold object_step w {#}"

text \<open>Only objects that exist are destroyed, and the device and the instance only when nothing that was made
  from them is left.\<close>

definition outlives :: "vk_kind \<Rightarrow> vk_kind \<Rightarrow> bool" where
  "outlives k k' \<longleftrightarrow> k' = VkInstance \<and> k \<noteq> VkInstance \<or> k' = VkDevice \<and> k \<notin> {VkInstance, VkDebugUtilsMessengerEXT, VkDevice}"

fun valid_call :: "vk_call \<Rightarrow> (vk_kind \<times> u64) multiset \<Rightarrow> bool" where
  "valid_call (vkDestroy k h) m \<longleftrightarrow> h = 0 \<or> (k, h) \<in># m \<and> (\<forall>x\<in>#m. \<not> outlives (fst x) k)"
| "valid_call c m \<longleftrightarrow> True"

fun valid_from :: "(vk_kind \<times> u64) multiset \<Rightarrow> vk_log \<Rightarrow> bool" where
  "valid_from m [] \<longleftrightarrow> True"
| "valid_from m (e # w) \<longleftrightarrow> valid_call (fst e) m \<and> valid_from (object_step e m) w"

definition valid_use :: "vk_log \<Rightarrow> bool" where
  "valid_use w = valid_from {#} w"

lemma vk_objects_Nil [simp]: "vk_objects [] = {#}"
  by (simp add: vk_objects_def)

lemma vk_objects_append [simp]: "vk_objects (w @ w') = fold object_step w' (vk_objects w)"
  by (simp add: vk_objects_def)

lemma valid_from_append: "valid_from m (w @ w') \<longleftrightarrow> valid_from m w \<and> valid_from (fold object_step w m) w'"
  by (induction w arbitrary: m) auto

lemma valid_use_append [simp]: "valid_use (w @ w') \<longleftrightarrow> valid_use w \<and> valid_from (vk_objects w) w'"
  by (simp add: valid_use_def valid_from_append vk_objects_def)

lemma object_0 [simp]: "object k 0 = {#}"
  by (simp add: object_def)

text \<open>Creating an object adds it, destroying it removes it, other calls change nothing; what \<open>valid_use\<close> asks of each.\<close>

lemma creates_old_object: "creates c = Some k \<Longrightarrow> old_object c = {#}"
  by (cases c) simp_all

lemma valid_call_other: "old_object c = {#} \<Longrightarrow> valid_call c m"
  by (cases c) (simp_all add: object_def split: if_splits)

lemma objects_create:
  assumes "create drv c w = Inr (h, w')" and "creates c = Some k"
  shows "vk_objects w' = vk_objects w + object k h" "valid_use w' \<longleftrightarrow> valid_use w"
  using assms creates_old_object [OF assms(2)] valid_call_other
  by (auto simp: create_Inr_iff object_step_def new_object_def)

lemma objects_other:
  assumes "creates c = None" and "old_object c = {#}"
  shows "object_step (c, a) m = m" "valid_call c m"
  using assms valid_call_other by (simp_all add: object_step_def new_object_def)

lemma other_calls [simp]:
  "object_step (vkBindBufferMemory x1 x2 x3, a) M = M" "object_step (vkBindImageMemory x4 x5 x6, a) M = M"
  "object_step (vkCmd x7 x8, a) M = M" "object_step (vkGetMemoryHostPointerPropertiesEXT x9, a) M = M"
  "object_step (vkMapMemory x10, a) M = M" "object_step (vkUnmapMemory x11, a) M = M"
  "object_step (vkGetBufferDeviceAddress x12, a) M = M" "object_step (vkAllocateDescriptorSets x13 x14, a) M = M"
  "object_step (vkUpdateDescriptorSets x15, a) M = M" "object_step (vkQueueWaitIdle x16, a) M = M"
  "object_step (vkDeviceWaitIdle x17, a) M = M" "object_step (vkAcquireNextImageKHR x18 x19 x20, a) M = M"
  "object_step (vkWaitForFences x21 x22, a) M = M" "object_step (vkResetFences x23, a) M = M"
  "object_step (vkGetSwapchainImagesKHR x24 x25, a) M = M" "object_step (vkGetDeviceImageMemoryRequirements x26, a) M = M"
  "object_step (vkQueuePresentKHR x27 x28 x29 x30, a) M = M" "object_step (vkEnumeratePhysicalDevices x31, a) M = M"
  "object_step (vkEnumerateInstanceVersion, a) M = M" "object_step (vkGetDeviceQueue x32 x33, a) M = M"
  "object_step (vkGetPhysicalDeviceWin32PresentationSupportKHR x34 x35, a) M = M"
  by (simp_all add: objects_other)

lemma create_call: "creates c = Some k \<Longrightarrow> vk_result a = VK_SUCCESS \<Longrightarrow> object_step (c, a) M = M + object k (vk_value a)"
  by (simp add: object_step_def new_object_def creates_old_object)

lemma destroy_call [simp]: "object_step (vkDestroy k h, a) M = M - object k h"
  by (simp add: object_step_def new_object_def)

text \<open>For objects that are made from the device nothing outlives them.\<close>

lemma valid_destroy:
  assumes "object k h \<subseteq># m" and "k \<noteq> VkDevice" and "k \<noteq> VkInstance"
  shows "valid_call (vkDestroy k h) m"
  using assms by (auto simp: outlives_def object_def split: if_splits)

declare valid_call.simps(1) [simp del]

lemmas owner_simps = vk_simps create_call

section \<open>Classes that own objects\<close>

text \<open>Loops that initialise or finalise the elements of an array one after the other.\<close>

fun each_init :: "('i \<Rightarrow> 's \<Rightarrow> vk_log \<Rightarrow> ('s \<times> vk_log) outcome) \<Rightarrow> ('i \<times> 's) list \<Rightarrow> vk_log \<Rightarrow> ('s list \<times> vk_log) outcome" where
  "each_init f [] w = Inr ([], w)"
| "each_init f ((i, s) # xs) w = and_then (f i s w) (\<lambda>(s, w). and_then (each_init f xs w) (\<lambda>(ss, w). Inr (s # ss, w)))"

fun each_fin :: "('s \<Rightarrow> vk_log \<Rightarrow> 's \<times> vk_log) \<Rightarrow> 's list \<Rightarrow> vk_log \<Rightarrow> 's list \<times> vk_log" where
  "each_fin f [] w = ([], w)"
| "each_fin f (s # ss) w = (let (s, w) = f s w; (ss, w) = each_fin f ss w in (s # ss, w))"

text \<open>The contract of the pair \<open>Initialize\<close>, \<open>Finalize\<close>: the first creates what the object owns afterwards, the second
  destroys what it owns. \<open>ready\<close> is what the first relies on in an object whose constructor sets no field.\<close>

locale vk_owner =
  fixes init :: "'i \<Rightarrow> 's \<Rightarrow> vk_log \<Rightarrow> ('s \<times> vk_log) outcome" and fin :: "'s \<Rightarrow> vk_log \<Rightarrow> 's \<times> vk_log"
    and ready :: "'s \<Rightarrow> bool" and owned :: "'s \<Rightarrow> (vk_kind \<times> u64) multiset"
  assumes init_owns: "ready s \<Longrightarrow> init i s w = Inr (s', w') \<Longrightarrow> vk_objects w' = vk_objects w + owned s'"
    and init_valid: "ready s \<Longrightarrow> init i s w = Inr (s', w') \<Longrightarrow> valid_use w \<Longrightarrow> valid_use w'"
    and fin_frees: "fin s w = (s', w') \<Longrightarrow> vk_objects w' = vk_objects w - owned s"
    and fin_valid: "fin s w = (s', w') \<Longrightarrow> valid_use w \<Longrightarrow> owned s \<subseteq># vk_objects w \<Longrightarrow> valid_use w'"
begin

lemma create_destroy:
  assumes "ready s" and "init i s w = Inr (s', w')" and "fin s' w' = (s'', w'')"
  shows "vk_objects w'' = vk_objects w" "valid_use w \<Longrightarrow> valid_use w''"
  using init_owns [OF assms(1,2)] init_valid [OF assms(1,2)] fin_frees [OF assms(3)] fin_valid [OF assms(3)] by simp_all

lemma each_init_owns:
  assumes "each_init init xs w = Inr (ss, w')" and "\<forall>x\<in>set xs. ready (snd x)"
  shows "vk_objects w' = vk_objects w + (\<Sum>s\<leftarrow>ss. owned s) \<and> (valid_use w \<longrightarrow> valid_use w') \<and> length ss = length xs"
  using assms
proof (induction xs arbitrary: w ss w')
  case (Cons x xs)
  then obtain i s s' w1 ss' where x: "x = (i, s)" "init i s w = Inr (s', w1)" "each_init init xs w1 = Inr (ss', w')" "ss = s' # ss'"
    by (cases x) (auto simp: and_then_Inr_iff)
  have r: "ready s" using Cons.prems(2) x(1) by simp
  show ?case
    using Cons.IH [OF x(3)] Cons.prems(2) init_owns [OF r x(2)] init_valid [OF r x(2)] x(4) by (simp add: add.assoc)
qed simp

lemma each_fin_frees:
  assumes "each_fin fin ss w = (ss', w')" and "(\<Sum>s\<leftarrow>ss. owned s) \<subseteq># vk_objects w"
  shows "vk_objects w' = vk_objects w - (\<Sum>s\<leftarrow>ss. owned s) \<and> (valid_use w \<longrightarrow> valid_use w')"
  using assms
proof (induction ss arbitrary: w ss' w')
  case (Cons s ss)
  then obtain s' w1 ss1 where x: "fin s w = (s', w1)" "each_fin fin ss w1 = (ss1, w')"
    by (auto simp: Let_def split: prod.splits)
  have a: "owned s + (\<Sum>s\<leftarrow>ss. owned s) \<subseteq># vk_objects w" using Cons.prems(2) by simp
  then have o: "owned s \<subseteq># vk_objects w" using mset_subset_eq_add_left subset_mset.order_trans by blast
  then have f: "vk_objects w1 = vk_objects w - owned s" "valid_use w \<longrightarrow> valid_use w1"
    using fin_frees [OF x(1)] fin_valid [OF x(1)] by blast+
  have "(\<Sum>s\<leftarrow>ss. owned s) \<subseteq># vk_objects w1"
    using a unfolding f(1) by (metis add_diff_cancel_left' mset_subset_eq_add_left mset_subset_eq_exists_conv add.assoc)
  from Cons.IH [OF x(2) this] f show ?case by (simp add: union_commute)
qed simp

text \<open>Whatever a loop has created, finalising each element again leaves nothing behind.\<close>

lemma each_create_destroy:
  assumes "each_init init xs w = Inr (ss, w')" and "\<forall>x\<in>set xs. ready (snd x)" and "each_fin fin ss w' = (ss', w'')"
  shows "vk_objects w'' = vk_objects w" "valid_use w \<Longrightarrow> valid_use w''"
  using each_init_owns [OF assms(1,2)] each_fin_frees [OF assms(3)] by simp_all

end

end
