(* ===== verification/Vk_Memory.thy ===== *)
theory Vk_Memory
  imports Vk_Driver
begin

text \<open>
  The objects of the Vulkan layer that hold memory or describe it: \<open>vk_memorypool.hpp\<close>, \<open>vk_buffer.hpp\<close>,
  \<open>vk_texture.hpp\<close>, \<open>vk_colortargetview.hpp\<close>, \<open>vk_depthstenciltargetview.hpp\<close>, \<open>vk_textureview.hpp\<close> and
  \<open>vk_sampler.hpp\<close>, and what they read of the \<open>Context\<close>. The constructors of these classes set no field, so
  \<open>Initialize\<close> is a function of the object as it was.

  Each class is an instance of \<open>vk_owner\<close>: what \<open>Initialize\<close> creates, \<open>Finalize\<close> destroys. Memory pools are followed
  through the relocation of host memory to the device.
\<close>

section \<open>The context\<close>

text \<open>The fields of \<open>Context\<close> that are read through its getters; \<open>memory_types\<close> holds the property flags of
  \<open>m_vk_physical_device_memory_properties.memoryTypes\<close>.\<close>

record vk_context =
  m_vk_instance :: u64
  m_vk_physical_device :: u64
  m_vk_device :: u64
  m_vk_graphics_queue :: u64
  m_graphics_queue_family_index :: u32
  m_vk_graphics_command_pool :: u64
  m_vk_texture_descriptor_set_layout :: u64
  m_vk_sampler_descriptor_set_layout :: u64
  m_vk_pipeline_layout :: u64
  m_physical_device_index :: u32
  memory_types :: "u32 list"
  m_debug_messenger :: u64

fun heap_index_loop :: "u32 list \<Rightarrow> u32 \<Rightarrow> u32 \<Rightarrow> u32" where
  "heap_index_loop [] memory_properties i = - 1"
| "heap_index_loop (f # fs) memory_properties i =
    (if f AND memory_properties = memory_properties then i else heap_index_loop fs memory_properties (i + 1))"

definition FindMemoryHeapIndex :: "vk_context \<Rightarrow> u32 \<Rightarrow> u32" where
  "FindMemoryHeapIndex context memory_properties = heap_index_loop (memory_types context) memory_properties 0"

section \<open>Memory pools\<close>

record MemoryPoolInfo =
  pool_size :: u64
  vk_memory_property_flags :: u32
  import_memory :: u64

record memory_pool =
  m_vk_memory :: u64
  m_vk_staging_memory :: u64
  m_vk_staging_host_buffer :: u64
  m_vk_staging_device_buffer :: u64
  m_vk_memory_property_flags :: u32
  mp_requires_relocation :: bool
  m_is_device_memory :: bool
  m_is_import :: bool
  m_size :: u64
  m_mapped_memory :: u64

definition host_memory :: u32 where
  "host_memory = VK_MEMORY_PROPERTY_HOST_VISIBLE_BIT OR VK_MEMORY_PROPERTY_HOST_COHERENT_BIT"

definition allocate_info :: "u64 option \<Rightarrow> u64 \<Rightarrow> u32 \<Rightarrow> VkMemoryAllocateInfo" where
  "allocate_info host n t = \<lparr>device_address = True, host_pointer = host, allocationSize = n, memoryTypeIndex = t\<rparr>"

text \<open>Whether the host pointer needs a staging buffer, and the memory on the device if it does.\<close>

definition choose_host_memory :: "vk_driver \<Rightarrow> vk_context \<Rightarrow> MemoryPoolInfo \<Rightarrow> u32 \<Rightarrow> memory_pool \<Rightarrow> vk_log
    \<Rightarrow> (u32 \<times> memory_pool \<times> vk_log) outcome" where
  "choose_host_memory drv context pool_info memoryTypeBits p w =
    (let pool_properties = vk_memory_property_flags pool_info in
     if memoryTypeBits AND pool_properties = pool_properties then
       Inr (FindMemoryHeapIndex context pool_properties, p\<lparr>mp_requires_relocation := False, m_is_device_memory := False\<rparr>, w)
     else
       let host_memory_type = FindMemoryHeapIndex context host_memory;
           device_memory_type = FindMemoryHeapIndex context pool_properties in
       and_then (dd_assert (device_memory_type \<noteq> - 1) ()) (\<lambda>_.
       and_then (create drv (vkAllocateMemory (allocate_info None (pool_size pool_info) device_memory_type)) w) (\<lambda>(h, w).
       Inr (host_memory_type, p\<lparr>mp_requires_relocation := True, m_is_device_memory := True, m_vk_memory := h\<rparr>, w))))"

definition MemoryPool_Initialize :: "vk_driver \<Rightarrow> vk_context \<Rightarrow> MemoryPoolInfo \<Rightarrow> memory_pool \<Rightarrow> vk_log \<Rightarrow> (memory_pool \<times> vk_log) outcome" where
  "MemoryPool_Initialize drv context pool_info p w =
    and_then (dd_assert (import_memory pool_info \<noteq> 0) ()) (\<lambda>_.
    and_then (checked drv (vkGetMemoryHostPointerPropertiesEXT (import_memory pool_info)) w) (\<lambda>(a, w).
    and_then (choose_host_memory drv context pool_info (ucast (vk_value a))
        (p\<lparr>m_size := pool_size pool_info, m_vk_memory_property_flags := vk_memory_property_flags pool_info\<rparr>) w)
      (\<lambda>(host_memory_type, p, w).
    and_then (dd_assert (host_memory_type \<noteq> - 1) ()) (\<lambda>_.
    and_then (create drv (vkAllocateMemory (allocate_info (Some (import_memory pool_info)) (pool_size pool_info) host_memory_type)) w)
      (\<lambda>(h, w).
    Inr (if mp_requires_relocation p then p\<lparr>m_vk_staging_memory := h\<rparr> else p\<lparr>m_vk_memory := h\<rparr>, w))))))"

definition MemoryPool_ImportExisting :: "u64 \<Rightarrow> bool \<Rightarrow> memory_pool \<Rightarrow> memory_pool" where
  "MemoryPool_ImportExisting memory is_device_local p =
    p\<lparr>m_vk_memory := memory, m_is_device_memory := is_device_local, m_is_import := True\<rparr>"

text \<open>A handle is destroyed if it is not null.\<close>

definition destroy_nonzero :: "vk_driver \<Rightarrow> vk_kind \<Rightarrow> u64 \<Rightarrow> vk_log \<Rightarrow> vk_log" where
  "destroy_nonzero drv k h w = (if h \<noteq> 0 then tell drv (vkDestroy k h) w else w)"

definition MemoryPool_Finalize :: "vk_driver \<Rightarrow> memory_pool \<Rightarrow> vk_log \<Rightarrow> memory_pool \<times> vk_log" where
  "MemoryPool_Finalize drv p w =
    (if m_is_import p then (p, w)
     else
       let w = destroy_nonzero drv VkBuffer (m_vk_staging_device_buffer p) w; p = p\<lparr>m_vk_staging_device_buffer := 0\<rparr>;
           w = destroy_nonzero drv VkDeviceMemory (m_vk_memory p) w; p = p\<lparr>m_vk_memory := 0\<rparr>;
           w = destroy_nonzero drv VkBuffer (m_vk_staging_host_buffer p) w;
           p = (if m_vk_staging_host_buffer p \<noteq> 0 then p\<lparr>m_vk_staging_device_buffer := 0\<rparr> else p);
           w = destroy_nonzero drv VkDeviceMemory (m_vk_staging_memory p) w; p = p\<lparr>m_vk_staging_memory := 0\<rparr> in
       (p, w))"

definition MemoryPool_Map :: "vk_driver \<Rightarrow> memory_pool \<Rightarrow> vk_log \<Rightarrow> (u64 \<times> memory_pool \<times> vk_log) outcome" where
  "MemoryPool_Map drv p w =
    (if m_mapped_memory p = 0 then
       and_then (create drv (vkMapMemory (m_vk_memory p)) w) (\<lambda>(h, w). Inr (h, p\<lparr>m_mapped_memory := h\<rparr>, w))
     else Inr (m_mapped_memory p, p, w))"

definition staging_buffer :: "vk_driver \<Rightarrow> vk_context \<Rightarrow> bool \<Rightarrow> u32 \<Rightarrow> u64 \<Rightarrow> u64 \<Rightarrow> vk_log \<Rightarrow> (u64 \<times> vk_log) outcome" where
  "staging_buffer drv context host usage n memory w =
    and_then (create drv (vkCreateBuffer \<lparr>external_host = host, buffer_size = n, buffer_usage = usage,
        buffer_family = m_graphics_queue_family_index context\<rparr>) w) (\<lambda>(b, w).
    and_then (checked drv (vkBindBufferMemory b memory 0) w) (\<lambda>(_, w). Inr (b, w)))"

definition copy_barrier :: VkMemoryBarrier2 where
  "copy_barrier = \<lparr>srcStageMask = 0, srcAccessMask = 0, dstStageMask = VK_PIPELINE_STAGE_2_ALL_COMMANDS_BIT,
    dstAccessMask = VK_ACCESS_SHADER_READ_BIT\<rparr>"

definition RelocateHostMemoryToDevice :: "vk_driver \<Rightarrow> vk_context \<Rightarrow> u64 \<Rightarrow> memory_pool \<Rightarrow> vk_log \<Rightarrow> (memory_pool \<times> vk_log) outcome" where
  "RelocateHostMemoryToDevice drv context vk_command_buffer p w =
    (if \<not> mp_requires_relocation p then Inr (p, w)
     else
       and_then (staging_buffer drv context True VK_BUFFER_USAGE_TRANSFER_SRC_BIT (m_size p) (m_vk_staging_memory p) w) (\<lambda>(src, w).
       and_then (staging_buffer drv context False VK_BUFFER_USAGE_TRANSFER_DST_BIT (m_size p) (m_vk_memory p) w) (\<lambda>(dst, w).
       let w = tell drv (vkCmd vk_command_buffer (vkCmdCopyBuffer src dst (m_size p))) w;
           w = tell drv (vkCmd vk_command_buffer (vkCmdPipelineBarrier2_buffer dst copy_barrier)) w in
       Inr (p\<lparr>m_vk_staging_host_buffer := src, m_vk_staging_device_buffer := dst, mp_requires_relocation := False\<rparr>, w))))"

section \<open>Buffers\<close>

record BufferInfo =
  bi_size :: u64
  bi_offset :: u64
  bi_vk_usage :: u32

record vk_buffer =
  b_bound_memory_pool :: u64
  m_vk_buffer :: u64
  m_memory_offset :: u64
  b_requires_relocation :: bool

definition IsHostMemory :: "memory_pool \<Rightarrow> bool" where
  "IsHostMemory p \<longleftrightarrow> \<not> m_is_device_memory p"

text \<open>The pool is given by its address and by what is there.\<close>

definition Buffer_Initialize :: "vk_driver \<Rightarrow> vk_context \<Rightarrow> BufferInfo \<times> u64 \<times> memory_pool \<Rightarrow> vk_buffer \<Rightarrow> vk_log \<Rightarrow> (vk_buffer \<times> vk_log) outcome" where
  "Buffer_Initialize drv context i b w =
    (case i of (buffer_info, pool_address, p) \<Rightarrow>
    and_then (create drv (vkCreateBuffer \<lparr>external_host = IsHostMemory p, buffer_size = bi_size buffer_info,
        buffer_usage = bi_vk_usage buffer_info OR VK_BUFFER_USAGE_SHADER_DEVICE_ADDRESS_BIT,
        buffer_family = m_graphics_queue_family_index context\<rparr>) w) (\<lambda>(h, w).
    and_then (checked drv (vkBindBufferMemory h (m_vk_memory p) (bi_offset buffer_info)) w) (\<lambda>(_, w).
    Inr (\<lparr>b_bound_memory_pool = pool_address, m_vk_buffer = h, m_memory_offset = bi_offset buffer_info,
      b_requires_relocation = mp_requires_relocation p\<rparr>, w))))"

definition Buffer_Finalize :: "vk_driver \<Rightarrow> vk_buffer \<Rightarrow> vk_log \<Rightarrow> vk_buffer \<times> vk_log" where
  "Buffer_Finalize drv b w = (b\<lparr>m_vk_buffer := 0\<rparr>, tell drv (vkDestroy VkBuffer (m_vk_buffer b)) w)"

definition Buffer_Map :: "vk_driver \<Rightarrow> vk_buffer \<Rightarrow> memory_pool \<Rightarrow> vk_log \<Rightarrow> (u64 \<times> memory_pool \<times> vk_log) outcome" where
  "Buffer_Map drv b p w = and_then (MemoryPool_Map drv p w) (\<lambda>(address, p, w). Inr (address + m_memory_offset b, p, w))"

definition Buffer_GetGpuAddress :: "vk_driver \<Rightarrow> vk_buffer \<Rightarrow> vk_log \<Rightarrow> u64 \<times> vk_log" where
  "Buffer_GetGpuAddress drv b w = (case ask drv (vkGetBufferDeviceAddress (m_vk_buffer b)) w of (a, w) \<Rightarrow> (vk_value a, w))"

definition Buffer_Relocate :: "vk_driver \<Rightarrow> vk_context \<Rightarrow> u64 \<Rightarrow> vk_buffer \<Rightarrow> memory_pool \<Rightarrow> vk_log \<Rightarrow> (vk_buffer \<times> memory_pool \<times> vk_log) outcome" where
  "Buffer_Relocate drv context vk_command_buffer b p w =
    and_then (if mp_requires_relocation p then RelocateHostMemoryToDevice drv context vk_command_buffer p w else Inr (p, w)) (\<lambda>(p, w).
    Inr (b\<lparr>b_requires_relocation := True\<rparr>, p, w))"

definition Buffer_GetAlignment :: "vk_driver \<Rightarrow> vk_context \<Rightarrow> BufferInfo \<Rightarrow> vk_log \<Rightarrow> u64 \<times> vk_log" where
  "Buffer_GetAlignment drv context buffer_info w =
    (case ask drv (vkGetDeviceBufferMemoryRequirements \<lparr>external_host = False, buffer_size = bi_size buffer_info,
        buffer_usage = bi_vk_usage buffer_info, buffer_family = m_graphics_queue_family_index context\<rparr>) w of
     (a, w) \<Rightarrow> (vk_value a, w))"

section \<open>Textures\<close>

record TextureInfo =
  vk_create_flags :: u32
  vk_usage_flags :: u16
  ti_mip_levels :: u16
  ti_width :: u32
  ti_height :: u32
  ti_depth :: u32
  ti_vk_format :: u32
  ti_vk_image_layout :: u32
  vk_image_type :: u8
  vk_sample_count_flag :: u8
  vk_tiling :: u8
  array_layers :: u8
  memory_offset :: u32

record texture =
  m_vk_image :: u64
  t_bound_memory_pool :: u64
  m_vk_image_layout :: u32
  m_import :: bool
  t_requires_relocation :: bool

definition image_info :: "vk_context \<Rightarrow> TextureInfo \<Rightarrow> VkImageCreateInfo" where
  "image_info context texture_info =
    \<lparr>image_flags = vk_create_flags texture_info, imageType = vk_image_type texture_info, image_format = ti_vk_format texture_info,
     image_extent = (ti_width texture_info, ti_height texture_info, ti_depth texture_info), mipLevels = ti_mip_levels texture_info,
     arrayLayers = array_layers texture_info, image_samples = vk_sample_count_flag texture_info, image_tiling = vk_tiling texture_info,
     image_usage = vk_usage_flags texture_info, image_family = m_graphics_queue_family_index context,
     initialLayout = ti_vk_image_layout texture_info\<rparr>"

definition Texture_Initialize :: "vk_driver \<Rightarrow> vk_context \<Rightarrow> TextureInfo \<times> u64 \<times> memory_pool \<Rightarrow> texture \<Rightarrow> vk_log \<Rightarrow> (texture \<times> vk_log) outcome" where
  "Texture_Initialize drv context i t w =
    (case i of (texture_info, pool_address, p) \<Rightarrow>
    and_then (create drv (vkCreateImage (image_info context texture_info)) w) (\<lambda>(h, w).
    and_then (checked drv (vkBindImageMemory h (m_vk_memory p) (ucast (memory_offset texture_info))) w) (\<lambda>(_, w).
    Inr (t\<lparr>m_vk_image := h, t_requires_relocation := mp_requires_relocation p, t_bound_memory_pool := pool_address,
      m_vk_image_layout := ti_vk_image_layout texture_info\<rparr>, w))))"

definition Texture_Initialize_unbound :: "vk_driver \<Rightarrow> vk_context \<Rightarrow> TextureInfo \<Rightarrow> texture \<Rightarrow> vk_log \<Rightarrow> (texture \<times> vk_log) outcome" where
  "Texture_Initialize_unbound drv context texture_info t w =
    and_then (create drv (vkCreateImage (image_info context texture_info)) w) (\<lambda>(h, w).
    Inr (t\<lparr>m_vk_image := h, m_vk_image_layout := ti_vk_image_layout texture_info\<rparr>, w))"

definition Texture_ImportExisting :: "u64 \<Rightarrow> texture \<Rightarrow> texture" where
  "Texture_ImportExisting img t = t\<lparr>m_vk_image := img, m_import := True\<rparr>"

definition Texture_Finalize :: "vk_driver \<Rightarrow> texture \<Rightarrow> vk_log \<Rightarrow> texture \<times> vk_log" where
  "Texture_Finalize drv t w = (t, if \<not> m_import t then tell drv (vkDestroy VkImage (m_vk_image t)) w else w)"

definition Texture_Relocate :: "vk_driver \<Rightarrow> vk_context \<Rightarrow> u64 \<Rightarrow> texture \<Rightarrow> memory_pool \<Rightarrow> vk_log \<Rightarrow> (texture \<times> memory_pool \<times> vk_log) outcome" where
  "Texture_Relocate drv context vk_command_buffer t p w =
    and_then (if mp_requires_relocation p then RelocateHostMemoryToDevice drv context vk_command_buffer p w else Inr (p, w)) (\<lambda>(p, w).
    Inr (t\<lparr>t_requires_relocation := True\<rparr>, p, w))"

definition SetImageLayout :: "u32 \<Rightarrow> texture \<Rightarrow> texture" where
  "SetImageLayout new_layout t = t\<lparr>m_vk_image_layout := new_layout\<rparr>"

text \<open>The size and the alignment of \<open>VkMemoryRequirements\<close>.\<close>

definition GetMemoryRequirements :: "vk_driver \<Rightarrow> vk_context \<Rightarrow> TextureInfo \<Rightarrow> vk_log \<Rightarrow> (u64 \<times> u64) \<times> vk_log" where
  "GetMemoryRequirements drv context texture_info w =
    (case ask drv (vkGetDeviceImageMemoryRequirements (image_info context texture_info)) w of
     (a, w) \<Rightarrow> ((vk_value a, hd (vk_values a @ [0])), w))"

definition GetRequiredMemorySize :: "vk_driver \<Rightarrow> vk_context \<Rightarrow> TextureInfo \<Rightarrow> vk_log \<Rightarrow> u64 \<times> vk_log" where
  "GetRequiredMemorySize drv context texture_info w =
    (case GetMemoryRequirements drv context texture_info w of (r, w) \<Rightarrow> (fst r, w))"

definition GetRequiredMemoryAlignment :: "vk_driver \<Rightarrow> vk_context \<Rightarrow> TextureInfo \<Rightarrow> vk_log \<Rightarrow> u64 \<times> vk_log" where
  "GetRequiredMemoryAlignment drv context texture_info w =
    (case GetMemoryRequirements drv context texture_info w of (r, w) \<Rightarrow> (snd r, w))"

section \<open>Views and samplers\<close>

definition dd_deref :: "u64 \<Rightarrow> unit outcome" where
  "dd_deref p = (if p = 0 then Inl NullPointer else Inr ())"

text \<open>\<open>ColorTargetInfo\<close> and \<open>DepthStencilTargetInfo\<close> have the same fields, and so have the two views. The image is the
  one of the texture at the address in the structure.\<close>

record TargetInfo =
  vk_image_view_type :: u8
  tg_vk_format :: u32
  base_layer :: u32
  tg_layers :: u32
  base_mip_level :: u32
  tg_mip_levels :: u32
  tg_swizzle :: "u8 \<times> u8 \<times> u8 \<times> u8"
  target_attachment :: u64

record target_view =
  m_texture :: u64
  m_vk_target_image_view :: u64

definition target_view_info :: "u32 \<Rightarrow> (u64 \<Rightarrow> texture) \<Rightarrow> TargetInfo \<Rightarrow> VkImageViewCreateInfo" where
  "target_view_info aspect tex target_info =
    \<lparr>view_image = m_vk_image (tex (target_attachment target_info)), viewType = ucast (vk_image_view_type target_info),
     view_format = tg_vk_format target_info, view_components = tg_swizzle target_info, aspectMask = aspect,
     baseMipLevel = base_mip_level target_info, levelCount = tg_mip_levels target_info,
     baseArrayLayer = base_layer target_info, layerCount = tg_layers target_info\<rparr>"

definition ColorTargetView_Initialize :: "vk_driver \<Rightarrow> (u64 \<Rightarrow> texture) \<Rightarrow> TargetInfo \<Rightarrow> target_view \<Rightarrow> vk_log \<Rightarrow> (target_view \<times> vk_log) outcome" where
  "ColorTargetView_Initialize drv tex target_info v w =
    and_then (dd_deref (target_attachment target_info)) (\<lambda>_.
    and_then (create drv (vkCreateImageView (target_view_info VK_IMAGE_ASPECT_COLOR_BIT tex target_info)) w) (\<lambda>(h, w).
    Inr (\<lparr>m_texture = target_attachment target_info, m_vk_target_image_view = h\<rparr>, w)))"

definition DepthStencilTargetView_Initialize :: "vk_driver \<Rightarrow> (u64 \<Rightarrow> texture) \<Rightarrow> TargetInfo \<Rightarrow> target_view \<Rightarrow> vk_log \<Rightarrow> (target_view \<times> vk_log) outcome" where
  "DepthStencilTargetView_Initialize drv tex target_info v w =
    and_then (dd_deref (target_attachment target_info)) (\<lambda>_.
    and_then (create drv (vkCreateImageView (target_view_info (VK_IMAGE_ASPECT_DEPTH_BIT OR VK_IMAGE_ASPECT_STENCIL_BIT) tex target_info)) w)
      (\<lambda>(h, w).
    Inr (\<lparr>m_texture = target_attachment target_info, m_vk_target_image_view = h\<rparr>, w)))"

definition TargetView_Finalize :: "vk_driver \<Rightarrow> target_view \<Rightarrow> vk_log \<Rightarrow> target_view \<times> vk_log" where
  "TargetView_Finalize drv v w = (v\<lparr>m_vk_target_image_view := 0\<rparr>, tell drv (vkDestroy VkImageView (m_vk_target_image_view v)) w)"

record TextureViewInfo =
  tv_swizzle :: "u8 \<times> u8 \<times> u8 \<times> u8"
  vk_aspect_mask :: u16
  vk_view_type :: u16
  base_mip :: u16
  tv_mip_levels :: u16
  base_array :: u16
  array_levels :: u16
  tv_vk_format :: u32
  tv_texture :: u64

record texture_view =
  m_vk_image_view :: u64
  m_parent_texture :: u64

definition TextureViewInfo_SetDefaults :: TextureViewInfo where
  "TextureViewInfo_SetDefaults = \<lparr>tv_swizzle = (0, 0, 0, 0), vk_aspect_mask = ucast VK_IMAGE_ASPECT_COLOR_BIT, vk_view_type = 1,
    base_mip = 0, tv_mip_levels = 1, base_array = 0, array_levels = 1, tv_vk_format = VK_FORMAT_UNDEFINED, tv_texture = 0\<rparr>"

definition TextureView_Initialize :: "vk_driver \<Rightarrow> (u64 \<Rightarrow> texture) \<Rightarrow> TextureViewInfo \<Rightarrow> texture_view \<Rightarrow> vk_log \<Rightarrow> (texture_view \<times> vk_log) outcome" where
  "TextureView_Initialize drv tex i v w =
    and_then (dd_deref (tv_texture i)) (\<lambda>_.
    and_then (create drv (vkCreateImageView \<lparr>view_image = m_vk_image (tex (tv_texture i)), viewType = vk_view_type i,
        view_format = tv_vk_format i, view_components = tv_swizzle i, aspectMask = ucast (vk_aspect_mask i),
        baseMipLevel = ucast (base_mip i), levelCount = ucast (tv_mip_levels i),
        baseArrayLayer = ucast (base_array i), layerCount = ucast (array_levels i)\<rparr>) w) (\<lambda>(h, w).
    Inr (\<lparr>m_vk_image_view = h, m_parent_texture = tv_texture i\<rparr>, w)))"

definition TextureView_Finalize :: "vk_driver \<Rightarrow> texture_view \<Rightarrow> vk_log \<Rightarrow> texture_view \<times> vk_log" where
  "TextureView_Finalize drv v w = (v, tell drv (vkDestroy VkImageView (m_vk_image_view v)) w)"

record SamplerInfo =
  vk_filter_min :: u32
  vk_filter_mag :: u32
  vk_mip_map_mode :: u8
  vk_address_modes :: "u8 \<times> u8 \<times> u8"
  lod_bias :: real
  min_lod_clamp :: real
  max_lod_clamp :: real
  max_anisotropy_clamp :: real
  vk_compare_op :: u32
  vk_border_color :: u32

definition SamplerInfo_SetDefaults :: SamplerInfo where
  "SamplerInfo_SetDefaults = \<lparr>vk_filter_min = 0, vk_filter_mag = 0, vk_mip_map_mode = 0, vk_address_modes = (0, 0, 0), lod_bias = 1,
    min_lod_clamp = 0, max_lod_clamp = 1, max_anisotropy_clamp = 1, vk_compare_op = 0, vk_border_color = 0\<rparr>"

definition Sampler_Initialize :: "vk_driver \<Rightarrow> SamplerInfo \<Rightarrow> u64 \<Rightarrow> vk_log \<Rightarrow> (u64 \<times> vk_log) outcome" where
  "Sampler_Initialize drv i m_vk_sampler w =
    create drv (vkCreateSampler \<lparr>magFilter = vk_filter_mag i, minFilter = vk_filter_min i, mipmapMode = vk_mip_map_mode i,
      addressModes = vk_address_modes i, mipLodBias = lod_bias i, anisotropyEnable = True, maxAnisotropy = max_anisotropy_clamp i,
      compareEnable = True, compareOp = vk_compare_op i, minLod = min_lod_clamp i, maxLod = max_lod_clamp i,
      borderColor = vk_border_color i\<rparr>) w"

definition Sampler_Finalize :: "vk_driver \<Rightarrow> u64 \<Rightarrow> vk_log \<Rightarrow> u64 \<times> vk_log" where
  "Sampler_Finalize drv m_vk_sampler w = (m_vk_sampler, tell drv (vkDestroy VkSampler m_vk_sampler) w)"

section \<open>Memory types\<close>

lemma heap_index_loop_spec:
  assumes "unat i + length fs < 2 ^ 32"
  shows "(\<forall>f\<in>set fs. f AND q \<noteq> q) \<and> heap_index_loop fs q i = - 1 \<or>
    (\<exists>n<length fs. heap_index_loop fs q i = i + of_nat n \<and> fs ! n AND q = q \<and> (\<forall>m<n. fs ! m AND q \<noteq> q))"
  using assms
proof (induction fs arbitrary: i)
  case (Cons f fs)
  show ?case
  proof (cases "f AND q = q")
    case False
    have "unat (i + 1) = unat i + 1" using Cons.prems by (simp add: unat_word_ariths)
    then have "unat (i + 1) + length fs < 2 ^ 32" using Cons.prems by simp
    from Cons.IH [OF this] show ?thesis
    proof (elim disjE exE conjE)
      fix n assume n: "n < length fs" "heap_index_loop fs q (i + 1) = i + 1 + of_nat n" "fs ! n AND q = q" "\<forall>m<n. fs ! m AND q \<noteq> q"
      then have "\<forall>m<Suc n. (f # fs) ! m AND q \<noteq> q" using False by (simp add: nth_Cons split: nat.split)
      then show ?thesis using n False by (intro disjI2 exI [of _ "Suc n"]) simp
    qed (use False in simp)
  qed (auto intro!: exI [of _ 0])
qed simp

text \<open>
  \<open>FindMemoryHeapIndex\<close> returns the first memory type that has all the properties, and -1, which the callers assert against, exactly
  if there is none (a device has at most 32 memory types).
\<close>

theorem find_memory_type:
  assumes "length (memory_types ctx) \<le> 32"
  shows "(FindMemoryHeapIndex ctx q = - 1 \<longleftrightarrow> (\<forall>f\<in>set (memory_types ctx). f AND q \<noteq> q)) \<and>
    (FindMemoryHeapIndex ctx q \<noteq> - 1 \<longrightarrow> unat (FindMemoryHeapIndex ctx q) < length (memory_types ctx) \<and>
      memory_types ctx ! unat (FindMemoryHeapIndex ctx q) AND q = q \<and>
      (\<forall>m<unat (FindMemoryHeapIndex ctx q). memory_types ctx ! m AND q \<noteq> q))"
proof -
  let ?r = "FindMemoryHeapIndex ctx q" and ?fs = "memory_types ctx"
  have b: "unat (0 :: u32) + length ?fs < 2 ^ 32" using assms by simp
  have "(\<forall>f\<in>set ?fs. f AND q \<noteq> q) \<and> ?r = - 1 \<or>
      (\<exists>n<length ?fs. unat ?r = n \<and> ?r \<noteq> - 1 \<and> ?fs ! n AND q = q \<and> (\<forall>m<n. ?fs ! m AND q \<noteq> q))"
    using heap_index_loop_spec [OF b, of q]
  proof (elim disjE exE conjE)
    fix n assume n: "n < length ?fs" "heap_index_loop ?fs q 0 = 0 + of_nat n" "?fs ! n AND q = q" "\<forall>m<n. ?fs ! m AND q \<noteq> q"
    have u: "unat ?r = n" using n(1,2) assms by (simp add: FindMemoryHeapIndex_def unat_of_nat_small)
    moreover have "?r \<noteq> - 1"
    proof
      assume "?r = - 1"
      then show False using u n(1) assms by (simp add: unsigned_minus_1_eq_mask mask_eq_exp_minus_1)
    qed
    ultimately show ?thesis using n by blast
  qed (auto simp: FindMemoryHeapIndex_def)
  then show ?thesis using nth_mem [of "unat ?r" ?fs] by auto
qed

section \<open>What the classes own\<close>

definition owned_buffer :: "vk_buffer \<Rightarrow> (vk_kind \<times> u64) multiset" where
  "owned_buffer b = object VkBuffer (m_vk_buffer b)"

definition owned_texture :: "texture \<Rightarrow> (vk_kind \<times> u64) multiset" where
  "owned_texture t = (if m_import t then {#} else object VkImage (m_vk_image t))"

definition owned_target :: "target_view \<Rightarrow> (vk_kind \<times> u64) multiset" where
  "owned_target v = object VkImageView (m_vk_target_image_view v)"

definition owned_texture_view :: "texture_view \<Rightarrow> (vk_kind \<times> u64) multiset" where
  "owned_texture_view v = object VkImageView (m_vk_image_view v)"

definition owned_pool :: "memory_pool \<Rightarrow> (vk_kind \<times> u64) multiset" where
  "owned_pool p = (if m_is_import p then {#} else object VkBuffer (m_vk_staging_device_buffer p) + object VkDeviceMemory (m_vk_memory p) +
    object VkBuffer (m_vk_staging_host_buffer p) + object VkDeviceMemory (m_vk_staging_memory p))"

text \<open>What \<open>MemoryPool::Initialize\<close> relies on: no field says that the memory was imported or staged.\<close>

definition fresh_pool :: "memory_pool \<Rightarrow> bool" where
  "fresh_pool p \<longleftrightarrow> \<not> m_is_import p \<and> m_vk_staging_memory p = 0 \<and> m_vk_staging_host_buffer p = 0 \<and> m_vk_staging_device_buffer p = 0"

interpretation buffer: vk_owner "Buffer_Initialize drv ctx" "Buffer_Finalize drv" "\<lambda>_. True" owned_buffer for drv ctx
  by unfold_locales
    (auto simp: Buffer_Initialize_def Buffer_Finalize_def owned_buffer_def owner_simps intro!: valid_destroy)

interpretation texture: vk_owner "Texture_Initialize drv ctx" "Texture_Finalize drv" "\<lambda>t. \<not> m_import t" owned_texture for drv ctx
  by unfold_locales
    (auto simp: Texture_Initialize_def Texture_Finalize_def owned_texture_def owner_simps intro!: valid_destroy split: if_splits)

interpretation color_target: vk_owner "ColorTargetView_Initialize drv tex" "TargetView_Finalize drv" "\<lambda>_. True" owned_target for drv tex
  by unfold_locales
    (auto simp: ColorTargetView_Initialize_def TargetView_Finalize_def owned_target_def owner_simps intro!: valid_destroy)

interpretation depth_target: vk_owner "DepthStencilTargetView_Initialize drv tex" "TargetView_Finalize drv" "\<lambda>_. True" owned_target for drv tex
  by unfold_locales
    (auto simp: DepthStencilTargetView_Initialize_def TargetView_Finalize_def owned_target_def owner_simps intro!: valid_destroy)

interpretation texture_view: vk_owner "TextureView_Initialize drv tex" "TextureView_Finalize drv" "\<lambda>_. True" owned_texture_view for drv tex
  by unfold_locales
    (auto simp: TextureView_Initialize_def TextureView_Finalize_def owned_texture_view_def owner_simps intro!: valid_destroy)

interpretation sampler: vk_owner "Sampler_Initialize drv" "Sampler_Finalize drv" "\<lambda>_. True" "object VkSampler" for drv
  by unfold_locales (auto simp: Sampler_Initialize_def Sampler_Finalize_def owner_simps intro!: valid_destroy)

subsection \<open>Memory pools\<close>

lemma destroy_nonzero_objects:
  "vk_objects (destroy_nonzero drv k h w) = vk_objects w - object k h"
  "k \<noteq> VkDevice \<Longrightarrow> k \<noteq> VkInstance \<Longrightarrow> valid_use w \<Longrightarrow> object k h \<subseteq># vk_objects w \<Longrightarrow> valid_use (destroy_nonzero drv k h w)"
  by (auto simp: destroy_nonzero_def tell_eq intro: valid_destroy)

lemma pool_Finalize_objects:
  assumes "MemoryPool_Finalize drv p w = (p', w')"
  shows "vk_objects w' = vk_objects w - owned_pool p"
    and "valid_use w \<Longrightarrow> owned_pool p \<subseteq># vk_objects w \<Longrightarrow> valid_use w'"
proof -
  show "vk_objects w' = vk_objects w - owned_pool p"
    using assms by (auto simp: MemoryPool_Finalize_def owned_pool_def Let_def destroy_nonzero_objects split: if_splits)
  assume v: "valid_use w" and "owned_pool p \<subseteq># vk_objects w"
  then obtain m where "m_is_import p \<or> vk_objects w = object VkBuffer (m_vk_staging_device_buffer p) + object VkDeviceMemory (m_vk_memory p) +
      object VkBuffer (m_vk_staging_host_buffer p) + object VkDeviceMemory (m_vk_staging_memory p) + m"
    by (cases "m_is_import p") (auto simp: owned_pool_def mset_subset_eq_exists_conv)
  then show "valid_use w'"
    using assms v
    by (auto simp: MemoryPool_Finalize_def Let_def destroy_nonzero_objects union_assoc intro!: destroy_nonzero_objects(2) split: if_splits)
qed

lemma choose_host_memory_objects:
  assumes "choose_host_memory drv ctx info bits p w = Inr (t, p', w')"
  shows "vk_objects w' = vk_objects w + (if mp_requires_relocation p' then object VkDeviceMemory (m_vk_memory p') else {#})"
    and "valid_use w' \<longleftrightarrow> valid_use w"
    and "m_is_import p' = m_is_import p" "m_vk_staging_memory p' = m_vk_staging_memory p"
      "m_vk_staging_host_buffer p' = m_vk_staging_host_buffer p" "m_vk_staging_device_buffer p' = m_vk_staging_device_buffer p"
  using assms by (auto simp: choose_host_memory_def owner_simps Let_def split: if_splits)

interpretation pool: vk_owner "MemoryPool_Initialize drv ctx" "MemoryPool_Finalize drv" fresh_pool owned_pool for drv ctx
proof unfold_locales
  fix s i w s' w' assume r: "fresh_pool s" and "MemoryPool_Initialize drv ctx i s w = Inr (s', w')"
  then obtain bits t p w1 h where p: "choose_host_memory drv ctx i bits
        (s\<lparr>m_size := pool_size i, m_vk_memory_property_flags := vk_memory_property_flags i\<rparr>)
        (w @ [(vkGetMemoryHostPointerPropertiesEXT (import_memory i), drv w (vkGetMemoryHostPointerPropertiesEXT (import_memory i)))]) = Inr (t, p, w1)"
      "create drv (vkAllocateMemory (allocate_info (Some (import_memory i)) (pool_size i) t)) w1 = Inr (h, w')"
      "s' = (if mp_requires_relocation p then p\<lparr>m_vk_staging_memory := h\<rparr> else p\<lparr>m_vk_memory := h\<rparr>)"
    by (auto simp: MemoryPool_Initialize_def and_then_Inr_iff checked_Inr_iff)
  note c = choose_host_memory_objects [OF p(1)]
  show "vk_objects w' = vk_objects w + owned_pool s'"
    using objects_create(1) [OF p(2)] r c by (auto simp: owned_pool_def fresh_pool_def p(3))
  show "valid_use w \<Longrightarrow> valid_use w'" using objects_create(2) [OF p(2)] c(2) by simp
qed (use pool_Finalize_objects in blast)+

text \<open>
  Relocating the contents of a pool adds the two staging buffers to what it owns, records one copy of the whole pool to the device
  followed by a barrier, and is done at most once.
\<close>

lemma relocate_spec:
  assumes "RelocateHostMemoryToDevice drv ctx cb p w = Inr (p', w')"
  shows "\<not> mp_requires_relocation p'" and "\<not> mp_requires_relocation p \<Longrightarrow> p' = p \<and> w' = w"
    and "mp_requires_relocation p \<Longrightarrow> vk_objects w' = vk_objects w + object VkBuffer (m_vk_staging_host_buffer p') +
      object VkBuffer (m_vk_staging_device_buffer p')"
    and "valid_use w' \<longleftrightarrow> valid_use w"
    and "mp_requires_relocation p \<Longrightarrow> p' = p\<lparr>m_vk_staging_host_buffer := m_vk_staging_host_buffer p',
      m_vk_staging_device_buffer := m_vk_staging_device_buffer p', mp_requires_relocation := False\<rparr>"
  using assms by (auto simp: RelocateHostMemoryToDevice_def staging_buffer_def owner_simps Let_def split: if_splits)

section \<open>The life of a pool\<close>

text \<open>A program that makes a pool and buffers in it, relocates the pool while it records a command buffer, and
  finalises the buffers and the pool.\<close>

definition pool_lifetime :: "vk_driver \<Rightarrow> vk_context \<Rightarrow> MemoryPoolInfo \<Rightarrow> memory_pool \<Rightarrow> u64 \<Rightarrow> (BufferInfo \<times> vk_buffer) list \<Rightarrow> u64 \<Rightarrow> vk_log
    \<Rightarrow> (memory_pool \<times> vk_log) outcome" where
  "pool_lifetime drv ctx info p address buffers cb w =
    and_then (MemoryPool_Initialize drv ctx info p w) (\<lambda>(p, w).
    and_then (each_init (Buffer_Initialize drv ctx) (map (\<lambda>(i, b). ((i, address, p), b)) buffers) w) (\<lambda>(bs, w).
    and_then (RelocateHostMemoryToDevice drv ctx cb p w) (\<lambda>(p, w).
    Inr (MemoryPool_Finalize drv p (snd (each_fin (Buffer_Finalize drv) bs w))))))"

lemma relocate_owned:
  assumes "RelocateHostMemoryToDevice drv ctx cb p w = Inr (p', w')" and "\<not> m_is_import p"
    and "m_vk_staging_host_buffer p = 0" and "m_vk_staging_device_buffer p = 0"
  shows "vk_objects w' + owned_pool p = vk_objects w + owned_pool p'"
proof (cases "mp_requires_relocation p")
  case True
  note m = relocate_spec(3) [OF assms(1) True] and e = relocate_spec(5) [OF assms(1) True]
  have "m_vk_memory p' = m_vk_memory p \<and> m_vk_staging_memory p' = m_vk_staging_memory p \<and> \<not> m_is_import p'"
    using assms(2) by (subst e, subst (2) e, subst (3) e) simp
  then show ?thesis using assms by (simp add: m owned_pool_def)
next
  case False
  then show ?thesis using relocate_spec(2) [OF assms(1)] by simp
qed

lemma fresh_pool_Initialize:
  assumes "MemoryPool_Initialize drv ctx i p w = Inr (p', w')" and "fresh_pool p"
  shows "\<not> m_is_import p'" "m_vk_staging_host_buffer p' = 0" "m_vk_staging_device_buffer p' = 0"
  using assms by (auto simp: MemoryPool_Initialize_def choose_host_memory_def and_then_Inr_iff Let_def fresh_pool_def split: if_splits)

text \<open>
  C23. Whatever the driver answers, a program that makes a pool and any number of buffers, relocates the pool and finalises
  everything has destroyed exactly what it has created, and each object once. The pool has to start with null handles and
  its import flag cleared, which its constructor does not see to.
\<close>

theorem pool_lifetime_balanced:
  assumes "pool_lifetime drv ctx info p address buffers cb w = Inr (p', w')" and "fresh_pool p"
  shows "vk_objects w' = vk_objects w \<and> (valid_use w \<longrightarrow> valid_use w')"
proof -
  let ?xs = "\<lambda>p. map (\<lambda>(i, b). ((i, address, p), b)) buffers"
  obtain p1 w1 bs w2 p3 w3 bs' w4 where
    a: "MemoryPool_Initialize drv ctx info p w = Inr (p1, w1)" and b: "each_init (Buffer_Initialize drv ctx) (?xs p1) w1 = Inr (bs, w2)" and
    c: "RelocateHostMemoryToDevice drv ctx cb p1 w2 = Inr (p3, w3)" and d: "(bs', w4) = each_fin (Buffer_Finalize drv) bs w3" and
    e: "MemoryPool_Finalize drv p3 w4 = (p', w')"
    using assms(1) by (fastforce simp: pool_lifetime_def and_then_Inr_iff prod_eq_iff)
  note f = fresh_pool_Initialize [OF a assms(2)]
  let ?B = "\<Sum>s\<leftarrow>bs. owned_buffer s"
  have 1: "vk_objects w1 = vk_objects w + owned_pool p1" "valid_use w \<longrightarrow> valid_use w1"
    using pool.init_owns [OF assms(2) a] pool.init_valid [OF assms(2) a] by blast+
  have 2: "vk_objects w2 = vk_objects w1 + ?B" "valid_use w1 \<longrightarrow> valid_use w2"
    using buffer.each_init_owns [OF b] by auto
  have "vk_objects w3 + owned_pool p1 = vk_objects w + ?B + owned_pool p3 + owned_pool p1"
    using relocate_owned [OF c f(1) f(2) f(3)] 1 2 by simp
  then have 3: "vk_objects w3 = vk_objects w + ?B + owned_pool p3" by simp
  have 4: "vk_objects w4 = vk_objects w + owned_pool p3" "valid_use w3 \<longrightarrow> valid_use w4"
    using buffer.each_fin_frees [OF d [symmetric]] 3 by (simp_all add: union_commute)
  have 5: "vk_objects w' = vk_objects w" "valid_use w4 \<Longrightarrow> valid_use w'"
    using pool.fin_frees [OF e] pool.fin_valid [OF e] 4(1) by simp_all
  show ?thesis using 1(2) 2(2) relocate_spec(4) [OF c] 4(2) 5 by blast
qed

text \<open>
  \<open>MemoryPool::Finalize\<close> clears the handle of the device's staging buffer a second time in place of the host's: finalising a pool
  that was relocated once more destroys that buffer again.
\<close>

theorem pool_finalized_twice:
  assumes "MemoryPool_Finalize drv p w = (p', w')" and "\<not> m_is_import p" and "m_vk_staging_host_buffer p \<noteq> 0"
    and "m_vk_staging_host_buffer p \<noteq> m_vk_staging_device_buffer p"
    and "count (vk_objects w) (VkBuffer, m_vk_staging_host_buffer p) = 1"
  shows "m_vk_staging_host_buffer p' = m_vk_staging_host_buffer p \<and> \<not> valid_use (snd (MemoryPool_Finalize drv p' w'))"
proof -
  have p': "m_vk_staging_host_buffer p' = m_vk_staging_host_buffer p" "m_vk_staging_device_buffer p' = 0" "m_vk_memory p' = 0"
      "m_vk_staging_memory p' = 0" "\<not> m_is_import p'"
    using assms(1-3) by (auto simp: MemoryPool_Finalize_def Let_def)
  have "count (vk_objects w') (VkBuffer, m_vk_staging_host_buffer p) = 0"
    using pool_Finalize_objects(1) [OF assms(1)] assms(2-5) by (simp add: owned_pool_def object_def)
  then have "(VkBuffer, m_vk_staging_host_buffer p) \<notin># vk_objects w'" by (simp add: not_in_iff)
  then show ?thesis
    using p' assms(3) by (simp add: MemoryPool_Finalize_def Let_def destroy_nonzero_def tell_eq valid_call.simps(1))
qed

section \<open>Examples\<close>

definition example_context :: vk_context where
  "example_context = \<lparr>m_vk_instance = 1, m_vk_physical_device = 2, m_vk_device = 3, m_vk_graphics_queue = 4,
    m_graphics_queue_family_index = 0, m_vk_graphics_command_pool = 5, m_vk_texture_descriptor_set_layout = 6,
    m_vk_sampler_descriptor_set_layout = 7, m_vk_pipeline_layout = 8, m_physical_device_index = 0,
    memory_types = [1, 6, 7], m_debug_messenger = 9\<rparr>"

definition blank_pool :: memory_pool where
  "blank_pool = \<lparr>m_vk_memory = 0, m_vk_staging_memory = 0, m_vk_staging_host_buffer = 0, m_vk_staging_device_buffer = 0,
    m_vk_memory_property_flags = 0, mp_requires_relocation = False, m_is_device_memory = False, m_is_import = False, m_size = 0,
    m_mapped_memory = 0\<rparr>"

definition blank_buffer :: vk_buffer where
  "blank_buffer = \<lparr>b_bound_memory_pool = 0, m_vk_buffer = 0, m_memory_offset = 0, b_requires_relocation = False\<rparr>"

definition example_pool_info :: MemoryPoolInfo where
  "example_pool_info = \<lparr>pool_size = 0x1000, vk_memory_property_flags = 6, import_memory = 0x8000\<rparr>"

definition example_lifetime :: "(memory_pool \<times> vk_log) outcome" where
  "example_lifetime = pool_lifetime counting_driver example_context example_pool_info blank_pool 0x100
    [(\<lparr>bi_size = 64, bi_offset = 0, bi_vk_usage = 1\<rparr>, blank_buffer)] 77 []"

theorem find_memory_type_witness: "FindMemoryHeapIndex example_context 6 = 1 \<and> FindMemoryHeapIndex example_context 8 = - 1"
  using find_memory_type [of example_context 8] by (simp add: example_context_def FindMemoryHeapIndex_def)

lemma example_lifetime_runs: "case example_lifetime of Inl e \<Rightarrow> False | Inr x \<Rightarrow> length (snd x) = 16"
  by code_simp

theorem pool_lifetime_balanced_witness:
  "\<exists>p w. example_lifetime = Inr (p, w) \<and> length w = 16 \<and> vk_objects w = {#} \<and> valid_use w"
proof -
  obtain p w where r: "example_lifetime = Inr (p, w)" "length w = 16"
    using example_lifetime_runs by (auto split: sum.splits)
  moreover have "fresh_pool blank_pool" by (simp add: fresh_pool_def blank_pool_def)
  ultimately show ?thesis
    using pool_lifetime_balanced [OF r(1) [unfolded example_lifetime_def]] by (auto simp: valid_use_def)
qed

definition example_relocated :: memory_pool where
  "example_relocated = blank_pool\<lparr>m_vk_memory := 5, m_vk_staging_host_buffer := 1, m_vk_staging_device_buffer := 2\<rparr>"

theorem pool_finalized_twice_witness:
  "let w = snd (ask counting_driver (vkCreateBuffer \<lparr>external_host = True, buffer_size = 8, buffer_usage = 1, buffer_family = 0\<rparr>) []);
       (p', w') = MemoryPool_Finalize counting_driver example_relocated w
   in \<not> valid_use (snd (MemoryPool_Finalize counting_driver p' w'))"
  using pool_finalized_twice [of counting_driver example_relocated
      "snd (ask counting_driver (vkCreateBuffer \<lparr>external_host = True, buffer_size = 8, buffer_usage = 1, buffer_family = 0\<rparr>) [])"]
  by (auto simp: Let_def example_relocated_def blank_pool_def ask_def counting_driver_def create_call object_def vk_objects_def
      split: prod.splits)

end
