(* ===== verification/Vk_Shader.thy ===== *)
theory Vk_Shader
  imports Vk_Memory
begin

text \<open>
  Shaders and descriptor pools: \<open>vk_shader.hpp\<close> and \<open>vk_descriptorpool.hpp\<close>. Shown here: a shader creates a module for
  each stage that has code, makes a pipeline of exactly these stages in order and destroys the modules again; a
  descriptor pool never hands out a slot that is in use, and does not reuse the ones that are given back, except the last.
\<close>

section \<open>Shaders\<close>

datatype ShaderStage = ShaderStage_Vertex | ShaderStage_TessellationEvaluation | ShaderStage_TessellationControl | ShaderStage_Geometry
  | ShaderStage_Fragment | ShaderStage_Compute | ShaderStage_Task | ShaderStage_Mesh | ShaderStage_Ray | ShaderStage_AnyHit
  | ShaderStage_Closesthit | ShaderStage_Miss | ShaderStage_Callable

datatype PipelineType = PipelineType_Invalid | PipelineType_Primitive | PipelineType_Mesh | PipelineType_RayTracing | PipelineType_Compute

text \<open>Code is a size and an address, which is null where there is no code.\<close>

type_synonym shader_code = "u64 \<times> u64"

record PrimitiveShaderInfo =
  color_attachment_count :: u32
  vertex_code :: shader_code
  tessellation_control_code :: shader_code
  tessellation_evaluation_code :: shader_code
  geometry_code :: shader_code
  fragment_code :: shader_code

record MeshShaderInfo =
  mesh_color_attachment_count :: u32
  task_code :: shader_code
  mesh_code :: shader_code
  mesh_fragment_code :: shader_code

record shader =
  m_vk_pipeline :: u64
  m_pipeline_type :: PipelineType

definition Shader_new :: shader where
  "Shader_new = \<lparr>m_vk_pipeline = 0, m_pipeline_type = PipelineType_Invalid\<rparr>"

definition create_module :: "vk_driver \<Rightarrow> shader_code \<Rightarrow> vk_log \<Rightarrow> (u64 \<times> vk_log) outcome" where
  "create_module drv code w = (if snd code \<noteq> 0 then create drv (vkCreateShaderModule (fst code) (snd code)) w else Inr (0, w))"

fun create_modules :: "vk_driver \<Rightarrow> shader_code list \<Rightarrow> vk_log \<Rightarrow> (u64 list \<times> vk_log) outcome" where
  "create_modules drv [] w = Inr ([], w)"
| "create_modules drv (c # cs) w = and_then (create_module drv c w) (\<lambda>(h, w). and_then (create_modules drv cs w) (\<lambda>(hs, w). Inr (h # hs, w)))"

definition destroy_modules :: "vk_driver \<Rightarrow> u64 list \<Rightarrow> vk_log \<Rightarrow> vk_log" where
  "destroy_modules drv hs w = fold (destroy_nonzero drv VkShaderModule) hs w"

text \<open>The entries of \<open>shader_create_info\<close>: the stages that have a module.\<close>

definition stage_infos :: "u32 list \<Rightarrow> u64 list \<Rightarrow> (u32 \<times> u64) list" where
  "stage_infos stages modules = filter (\<lambda>(s, h). h \<noteq> 0) (zip stages modules)"

definition TargetColorAttachmentCount :: nat where "TargetColorAttachmentCount = 8"

definition color_formats :: "u32 list" where
  "color_formats = replicate TargetColorAttachmentCount VK_FORMAT_B8G8R8A8_SRGB"

definition primitive_stages :: "u32 list" where
  "primitive_stages = [VK_SHADER_STAGE_VERTEX_BIT, VK_SHADER_STAGE_TESSELLATION_CONTROL_BIT,
    VK_SHADER_STAGE_TESSELLATION_EVALUATION_BIT, VK_SHADER_STAGE_GEOMETRY_BIT, VK_SHADER_STAGE_FRAGMENT_BIT]"

definition mesh_stages :: "u32 list" where
  "mesh_stages = [VK_SHADER_STAGE_TASK_BIT_EXT, VK_SHADER_STAGE_MESH_BIT_EXT, VK_SHADER_STAGE_FRAGMENT_BIT]"

definition primitive_dynamic_states :: "VkDynamicState list" where
  "primitive_dynamic_states = [VK_DYNAMIC_STATE_VIEWPORT_WITH_COUNT, VK_DYNAMIC_STATE_SCISSOR_WITH_COUNT, VK_DYNAMIC_STATE_LINE_WIDTH, VK_DYNAMIC_STATE_DEPTH_BIAS, VK_DYNAMIC_STATE_BLEND_CONSTANTS,
    VK_DYNAMIC_STATE_DEPTH_BOUNDS, VK_DYNAMIC_STATE_STENCIL_COMPARE_MASK, VK_DYNAMIC_STATE_STENCIL_WRITE_MASK, VK_DYNAMIC_STATE_STENCIL_REFERENCE, VK_DYNAMIC_STATE_CULL_MODE, VK_DYNAMIC_STATE_FRONT_FACE,
    VK_DYNAMIC_STATE_PRIMITIVE_TOPOLOGY, VK_DYNAMIC_STATE_VERTEX_INPUT_BINDING_STRIDE, VK_DYNAMIC_STATE_DEPTH_TEST_ENABLE, VK_DYNAMIC_STATE_DEPTH_WRITE_ENABLE, VK_DYNAMIC_STATE_DEPTH_COMPARE_OP,
    VK_DYNAMIC_STATE_DEPTH_BOUNDS_TEST_ENABLE, VK_DYNAMIC_STATE_STENCIL_TEST_ENABLE, VK_DYNAMIC_STATE_STENCIL_OP, VK_DYNAMIC_STATE_RASTERIZER_DISCARD_ENABLE, VK_DYNAMIC_STATE_DEPTH_BIAS_ENABLE,
    VK_DYNAMIC_STATE_PRIMITIVE_RESTART_ENABLE, VK_DYNAMIC_STATE_VERTEX_INPUT_EXT, VK_DYNAMIC_STATE_LOGIC_OP_EXT, VK_DYNAMIC_STATE_COLOR_BLEND_ENABLE_EXT, VK_DYNAMIC_STATE_COLOR_BLEND_EQUATION_EXT,
    VK_DYNAMIC_STATE_COLOR_WRITE_MASK_EXT, VK_DYNAMIC_STATE_DEPTH_CLAMP_ENABLE_EXT, VK_DYNAMIC_STATE_LOGIC_OP_ENABLE_EXT, VK_DYNAMIC_STATE_POLYGON_MODE_EXT]"

definition mesh_dynamic_states :: "VkDynamicState list" where
  "mesh_dynamic_states = [VK_DYNAMIC_STATE_VIEWPORT_WITH_COUNT, VK_DYNAMIC_STATE_SCISSOR_WITH_COUNT, VK_DYNAMIC_STATE_LINE_WIDTH, VK_DYNAMIC_STATE_DEPTH_BIAS, VK_DYNAMIC_STATE_BLEND_CONSTANTS,
    VK_DYNAMIC_STATE_DEPTH_BOUNDS, VK_DYNAMIC_STATE_STENCIL_COMPARE_MASK, VK_DYNAMIC_STATE_STENCIL_WRITE_MASK, VK_DYNAMIC_STATE_STENCIL_REFERENCE, VK_DYNAMIC_STATE_CULL_MODE, VK_DYNAMIC_STATE_FRONT_FACE,
    VK_DYNAMIC_STATE_DEPTH_TEST_ENABLE, VK_DYNAMIC_STATE_DEPTH_WRITE_ENABLE, VK_DYNAMIC_STATE_DEPTH_COMPARE_OP, VK_DYNAMIC_STATE_DEPTH_BOUNDS_TEST_ENABLE, VK_DYNAMIC_STATE_STENCIL_TEST_ENABLE,
    VK_DYNAMIC_STATE_STENCIL_OP, VK_DYNAMIC_STATE_RASTERIZER_DISCARD_ENABLE, VK_DYNAMIC_STATE_DEPTH_BIAS_ENABLE, VK_DYNAMIC_STATE_LOGIC_OP_EXT, VK_DYNAMIC_STATE_COLOR_BLEND_ENABLE_EXT,
    VK_DYNAMIC_STATE_COLOR_BLEND_EQUATION_EXT, VK_DYNAMIC_STATE_COLOR_WRITE_MASK_EXT, VK_DYNAMIC_STATE_DEPTH_CLAMP_ENABLE_EXT, VK_DYNAMIC_STATE_LOGIC_OP_ENABLE_EXT, VK_DYNAMIC_STATE_POLYGON_MODE_EXT]"

definition pipeline_info :: "vk_context \<Rightarrow> u32 \<Rightarrow> (u32 \<times> u64) list \<Rightarrow> bool \<Rightarrow> VkDynamicState list \<Rightarrow> VkGraphicsPipelineCreateInfo" where
  "pipeline_info context n stages input_assembly states = \<lparr>colorAttachmentCount = n, colorAttachmentFormats = color_formats,
    depthStencilFormat = VK_FORMAT_D24_UNORM_S8_UINT, pipeline_stages = stages, has_input_assembly = input_assembly,
    dynamic_states = states, pipeline_layout = m_vk_pipeline_layout context\<rparr>"

definition primitive_code :: "PrimitiveShaderInfo \<Rightarrow> shader_code list" where
  "primitive_code i = [vertex_code i, tessellation_control_code i, tessellation_evaluation_code i, geometry_code i, fragment_code i]"

text \<open>The three overloads of \<open>Initialize\<close> create the modules, create the pipeline from them, and destroy the modules.\<close>

definition make_pipeline :: "vk_driver \<Rightarrow> shader_code list \<Rightarrow> (u64 list \<Rightarrow> vk_call) \<Rightarrow> PipelineType \<Rightarrow> vk_log \<Rightarrow> (shader \<times> vk_log) outcome" where
  "make_pipeline drv code pipeline type w =
    and_then (create_modules drv code w) (\<lambda>(modules, w).
    and_then (create drv (pipeline modules) w) (\<lambda>(h, w).
    Inr (\<lparr>m_vk_pipeline = h, m_pipeline_type = type\<rparr>, destroy_modules drv modules w)))"

definition primitive_pipeline :: "vk_context \<Rightarrow> PrimitiveShaderInfo \<Rightarrow> u64 list \<Rightarrow> vk_call" where
  "primitive_pipeline context i modules = vkCreateGraphicsPipelines (pipeline_info context (color_attachment_count i)
    (stage_infos primitive_stages modules) True primitive_dynamic_states)"

definition mesh_pipeline :: "vk_context \<Rightarrow> MeshShaderInfo \<Rightarrow> u64 list \<Rightarrow> vk_call" where
  "mesh_pipeline context i modules = vkCreateGraphicsPipelines (pipeline_info context (mesh_color_attachment_count i)
    (stage_infos mesh_stages modules) False mesh_dynamic_states)"

definition compute_pipeline :: "vk_context \<Rightarrow> u64 list \<Rightarrow> vk_call" where
  "compute_pipeline context modules = vkCreateComputePipelines (hd modules) (m_vk_pipeline_layout context)"

definition Shader_Initialize_primitive :: "vk_driver \<Rightarrow> vk_context \<Rightarrow> PrimitiveShaderInfo \<Rightarrow> shader \<Rightarrow> vk_log \<Rightarrow> (shader \<times> vk_log) outcome" where
  "Shader_Initialize_primitive drv context shader_info s w =
    make_pipeline drv (primitive_code shader_info) (primitive_pipeline context shader_info) PipelineType_Primitive w"

definition Shader_Initialize_compute :: "vk_driver \<Rightarrow> vk_context \<Rightarrow> shader_code \<Rightarrow> shader \<Rightarrow> vk_log \<Rightarrow> (shader \<times> vk_log) outcome" where
  "Shader_Initialize_compute drv context compute_code s w =
    make_pipeline drv [compute_code] (compute_pipeline context) PipelineType_Compute w"

definition Shader_Initialize_mesh :: "vk_driver \<Rightarrow> vk_context \<Rightarrow> MeshShaderInfo \<Rightarrow> shader \<Rightarrow> vk_log \<Rightarrow> (shader \<times> vk_log) outcome" where
  "Shader_Initialize_mesh drv context shader_info s w =
    make_pipeline drv [task_code shader_info, mesh_code shader_info, mesh_fragment_code shader_info]
      (mesh_pipeline context shader_info) PipelineType_Mesh w"

definition Shader_Finalize :: "vk_driver \<Rightarrow> shader \<Rightarrow> vk_log \<Rightarrow> shader \<times> vk_log" where
  "Shader_Finalize drv s w =
    (\<lparr>m_vk_pipeline = 0, m_pipeline_type = PipelineType_Invalid\<rparr>, destroy_nonzero drv VkPipeline (m_vk_pipeline s) w)"

definition GetPipelineBindPoint :: "shader \<Rightarrow> VkPipelineBindPoint" where
  "GetPipelineBindPoint s = (case m_pipeline_type s of
      PipelineType_Primitive \<Rightarrow> VK_PIPELINE_BIND_POINT_GRAPHICS
    | PipelineType_Mesh \<Rightarrow> VK_PIPELINE_BIND_POINT_GRAPHICS
    | PipelineType_RayTracing \<Rightarrow> VK_PIPELINE_BIND_POINT_RAY_TRACING_KHR
    | PipelineType_Compute \<Rightarrow> VK_PIPELINE_BIND_POINT_COMPUTE
    | PipelineType_Invalid \<Rightarrow> VK_PIPELINE_BIND_POINT_GRAPHICS)"

section \<open>Descriptor pools\<close>

definition FreeListDefaultSize :: nat where "FreeListDefaultSize = 64"

text \<open>\<open>m_free_id_stack\<close> is the allocated array; \<open>m_free_id_stack_size\<close> is the field that should be its length.\<close>

record descriptor_pool =
  m_vk_descriptor_pool :: u64
  m_vk_descriptor_set :: u64
  m_vk_pool_type :: u32
  m_max_slot_ids :: u32
  m_texture_id_count :: u32
  m_free_id_stack_size :: u32
  m_free_id_stack_count :: u32
  m_free_id_stack :: "u32 list"

definition GetNewDescriptorId :: "descriptor_pool \<Rightarrow> (u32 \<times> descriptor_pool) outcome" where
  "GetNewDescriptorId p =
    (if m_free_id_stack_count p \<noteq> 0 then
       let p = p\<lparr>m_free_id_stack_count := m_free_id_stack_count p - 1\<rparr> in
       if unat (m_free_id_stack_count p) < length (m_free_id_stack p)
       then Inr (m_free_id_stack p ! unat (m_free_id_stack_count p), p) else Inl OutOfBounds
     else
       and_then (dd_assert (m_texture_id_count p \<noteq> m_max_slot_ids p) ()) (\<lambda>_.
       Inr (m_texture_id_count p, p\<lparr>m_texture_id_count := m_texture_id_count p + 1\<rparr>)))"

text \<open>\<open>junk\<close> is what the new array holds.\<close>

definition DescriptorPool_Initialize :: "vk_driver \<Rightarrow> vk_context \<Rightarrow> u32 \<times> u32 \<times> u32 list \<Rightarrow> descriptor_pool \<Rightarrow> vk_log \<Rightarrow> (descriptor_pool \<times> vk_log) outcome" where
  "DescriptorPool_Initialize drv context i p w =
    (case i of (descriptor_type, max_descriptor_slots, junk) \<Rightarrow>
    and_then (dd_assert (descriptor_type = VK_DESCRIPTOR_TYPE_SAMPLED_IMAGE \<or> descriptor_type = VK_DESCRIPTOR_TYPE_SAMPLER) ()) (\<lambda>_.
    and_then (create drv (vkCreateDescriptorPool descriptor_type max_descriptor_slots) w) (\<lambda>(pool, w).
    let layout = (if descriptor_type = VK_DESCRIPTOR_TYPE_SAMPLED_IMAGE then m_vk_texture_descriptor_set_layout context
        else m_vk_sampler_descriptor_set_layout context) in
    and_then (create drv (vkAllocateDescriptorSets pool layout) w) (\<lambda>(set, w).
    Inr (p\<lparr>m_vk_descriptor_pool := pool, m_vk_descriptor_set := set, m_free_id_stack := take FreeListDefaultSize (junk @ replicate FreeListDefaultSize 0),
      m_free_id_stack_size := of_nat FreeListDefaultSize, m_vk_pool_type := descriptor_type, m_max_slot_ids := max_descriptor_slots,
      m_texture_id_count := 0\<rparr>, w)))))"

definition DescriptorPool_Finalize :: "vk_driver \<Rightarrow> descriptor_pool \<Rightarrow> vk_log \<Rightarrow> descriptor_pool \<times> vk_log" where
  "DescriptorPool_Finalize drv p w = (p, tell drv (vkDestroy VkDescriptorPool (m_vk_descriptor_pool p)) w)"

definition RegisterTexture :: "vk_driver \<Rightarrow> texture_view \<Rightarrow> descriptor_pool \<Rightarrow> vk_log \<Rightarrow> (u32 \<times> descriptor_pool \<times> vk_log) outcome" where
  "RegisterTexture drv v p w =
    and_then (dd_assert (m_vk_pool_type p = VK_DESCRIPTOR_TYPE_SAMPLED_IMAGE) ()) (\<lambda>_.
    and_then (GetNewDescriptorId p) (\<lambda>(new_id, p).
    Inr (new_id, p, tell drv (vkUpdateDescriptorSets \<lparr>dstSet = m_vk_descriptor_set p, dstBinding = 0, dstArrayElement = new_id,
      write_type = VK_DESCRIPTOR_TYPE_SAMPLED_IMAGE, write_view = m_vk_image_view v, write_sampler = 0\<rparr>) w)))"

definition RegisterSampler :: "vk_driver \<Rightarrow> u64 \<Rightarrow> descriptor_pool \<Rightarrow> vk_log \<Rightarrow> (u32 \<times> descriptor_pool \<times> vk_log) outcome" where
  "RegisterSampler drv m_vk_sampler p w =
    and_then (dd_assert (m_vk_pool_type p = VK_DESCRIPTOR_TYPE_SAMPLER) ()) (\<lambda>_.
    and_then (GetNewDescriptorId p) (\<lambda>(new_id, p).
    Inr (new_id, p, tell drv (vkUpdateDescriptorSets \<lparr>dstSet = m_vk_descriptor_set p, dstBinding = 0, dstArrayElement = new_id,
      write_type = VK_DESCRIPTOR_TYPE_SAMPLER, write_view = 0, write_sampler = m_vk_sampler\<rparr>) w)))"

text \<open>The resized array is \<open>m_free_id_stack_count\<close> old entries and what the new memory holds.\<close>

definition UnregisterResourceBySlot :: "u32 list \<Rightarrow> u32 \<Rightarrow> descriptor_pool \<Rightarrow> descriptor_pool outcome" where
  "UnregisterResourceBySlot junk slot p =
    (if m_texture_id_count p - 1 = slot then Inr (p\<lparr>m_texture_id_count := m_texture_id_count p - 1\<rparr>)
     else
       let p = (if m_free_id_stack_size p = m_free_id_stack_count p then
           let n = unat (m_free_id_stack_size p * 2) in
           p\<lparr>m_free_id_stack_size := m_free_id_stack_size p * 2,
             m_free_id_stack := take n (take (unat (m_free_id_stack_count p)) (m_free_id_stack p) @ junk @ replicate n 0)\<rparr>
         else p) in
       if unat (m_free_id_stack_count p) < length (m_free_id_stack p) then
         Inr (p\<lparr>m_free_id_stack := (m_free_id_stack p)[unat (m_free_id_stack_count p) := slot],
           m_free_id_stack_size := m_free_id_stack_size p + 1\<rparr>)
       else Inl OutOfBounds)"

section \<open>Modules are destroyed again\<close>

lemma create_modules_objects:
  assumes "create_modules drv cs w = Inr (hs, w')"
  shows "vk_objects w' = vk_objects w + (\<Sum>h\<leftarrow>hs. object VkShaderModule h)" "valid_use w' \<longleftrightarrow> valid_use w" "length hs = length cs"
proof -
  have "vk_objects w' = vk_objects w + (\<Sum>h\<leftarrow>hs. object VkShaderModule h) \<and> (valid_use w' \<longleftrightarrow> valid_use w) \<and> length hs = length cs"
    using assms
  proof (induction cs arbitrary: w hs)
    case (Cons c cs)
    then obtain h w1 hs' where h: "create_module drv c w = Inr (h, w1)" "create_modules drv cs w1 = Inr (hs', w')" "hs = h # hs'"
      by (auto simp: and_then_Inr_iff)
    have "vk_objects w1 = vk_objects w + object VkShaderModule h \<and> (valid_use w1 \<longleftrightarrow> valid_use w)"
      using h(1) by (auto simp: create_module_def owner_simps split: if_splits)
    then show ?case using Cons.IH [OF h(2)] h(3) by (simp add: union_assoc)
  qed simp
  then show "vk_objects w' = vk_objects w + (\<Sum>h\<leftarrow>hs. object VkShaderModule h)" "valid_use w' \<longleftrightarrow> valid_use w" "length hs = length cs"
    by blast+
qed

lemma destroy_modules_objects:
  assumes "(\<Sum>h\<leftarrow>hs. object VkShaderModule h) \<subseteq># vk_objects w"
  shows "vk_objects (destroy_modules drv hs w) = vk_objects w - (\<Sum>h\<leftarrow>hs. object VkShaderModule h) \<and>
    (valid_use w \<longrightarrow> valid_use (destroy_modules drv hs w))"
  using assms
proof (induction hs arbitrary: w)
  case (Cons h hs)
  let ?w = "destroy_nonzero drv VkShaderModule h w"
  obtain m where m: "vk_objects w = object VkShaderModule h + (\<Sum>h\<leftarrow>hs. object VkShaderModule h) + m"
    using Cons.prems by (auto simp: mset_subset_eq_exists_conv)
  have w: "vk_objects ?w = (\<Sum>h\<leftarrow>hs. object VkShaderModule h) + m" "valid_use w \<Longrightarrow> valid_use ?w"
    using m by (simp_all add: destroy_nonzero_objects union_assoc)
  have "(\<Sum>h\<leftarrow>hs. object VkShaderModule h) \<subseteq># vk_objects ?w" by (simp add: w(1))
  from Cons.IH [OF this] show ?case using w m by (simp add: destroy_modules_def union_assoc)
qed (simp add: destroy_modules_def)

definition owned_shader :: "shader \<Rightarrow> (vk_kind \<times> u64) multiset" where
  "owned_shader s = object VkPipeline (m_vk_pipeline s)"

lemma make_pipeline_owns:
  assumes "make_pipeline drv cs f t w = Inr (s', w')" and "\<And>ms. creates (f ms) = Some VkPipeline"
  shows "vk_objects w' = vk_objects w + owned_shader s'" "valid_use w \<Longrightarrow> valid_use w'"
proof -
  obtain ms w1 h w2 where m: "create_modules drv cs w = Inr (ms, w1)" "create drv (f ms) w1 = Inr (h, w2)"
      "s' = \<lparr>m_vk_pipeline = h, m_pipeline_type = t\<rparr>" "w' = destroy_modules drv ms w2"
    using assms(1) by (auto simp: make_pipeline_def and_then_Inr_iff)
  note c = create_modules_objects [OF m(1)] and p = objects_create [OF m(2) assms(2)]
  have "(\<Sum>h\<leftarrow>ms. object VkShaderModule h) \<subseteq># vk_objects w2"
    unfolding p(1) c(1) using mset_subset_eq_add_left mset_subset_eq_add_right subset_mset.order_trans by blast
  note d = destroy_modules_objects [OF this, of drv]
  show "vk_objects w' = vk_objects w + owned_shader s'" using d p(1) c(1) m by (simp add: owned_shader_def)
  show "valid_use w \<Longrightarrow> valid_use w'" using d p(2) c(2) m by simp
qed

lemma shader_Finalize_frees:
  assumes "Shader_Finalize drv s w = (s', w')"
  shows "vk_objects w' = vk_objects w - owned_shader s" "valid_use w \<Longrightarrow> owned_shader s \<subseteq># vk_objects w \<Longrightarrow> valid_use w'"
  using assms by (auto simp: Shader_Finalize_def owned_shader_def destroy_nonzero_objects)

interpretation primitive_shader: vk_owner "Shader_Initialize_primitive drv ctx" "Shader_Finalize drv" "\<lambda>_. True" owned_shader for drv ctx
  by unfold_locales
    (auto simp: Shader_Initialize_primitive_def primitive_pipeline_def dest: make_pipeline_owns shader_Finalize_frees)

interpretation mesh_shader: vk_owner "Shader_Initialize_mesh drv ctx" "Shader_Finalize drv" "\<lambda>_. True" owned_shader for drv ctx
  by unfold_locales
    (auto simp: Shader_Initialize_mesh_def mesh_pipeline_def dest: make_pipeline_owns shader_Finalize_frees)

interpretation compute_shader: vk_owner "Shader_Initialize_compute drv ctx" "Shader_Finalize drv" "\<lambda>_. True" owned_shader for drv ctx
  by unfold_locales
    (auto simp: Shader_Initialize_compute_def compute_pipeline_def dest: make_pipeline_owns shader_Finalize_frees)

interpretation descriptor_pool: vk_owner "DescriptorPool_Initialize drv ctx" "DescriptorPool_Finalize drv" "\<lambda>_. True"
    "\<lambda>p. object VkDescriptorPool (m_vk_descriptor_pool p)" for drv ctx
  by unfold_locales
    (auto simp: DescriptorPool_Initialize_def DescriptorPool_Finalize_def owner_simps Let_def intro!: valid_destroy)

section \<open>The stages of a pipeline\<close>

text \<open>A driver that gives no null handle for an object it has created.\<close>

definition gives_handles :: "vk_driver \<Rightarrow> bool" where
  "gives_handles drv \<longleftrightarrow> (\<forall>w c. creates c \<noteq> None \<longrightarrow> vk_value (drv w c) \<noteq> 0)"

lemma create_modules_stages:
  assumes "create_modules drv cs w = Inr (hs, w')" and "gives_handles drv" and "length ss = length cs"
  shows "map fst (stage_infos ss hs) = map fst (filter (\<lambda>(s, c). snd c \<noteq> 0) (zip ss cs))"
  using assms(1,3)
proof (induction cs arbitrary: w hs ss)
  case (Cons c cs)
  then obtain h w1 hs' where h: "create_module drv c w = Inr (h, w1)" "create_modules drv cs w1 = Inr (hs', w')" "hs = h # hs'"
    by (auto simp: and_then_Inr_iff)
  obtain s ss' where s: "ss = s # ss'" "length ss' = length cs" using Cons.prems(2) by (cases ss) auto
  have "h = 0 \<longleftrightarrow> snd c = 0"
    using h(1) assms(2) by (auto simp: create_module_def create_Inr_iff gives_handles_def split: if_splits)
  then show ?case using Cons.IH [OF h(2) s(2)] h(3) s(1) by (simp add: stage_infos_def)
qed (simp add: stage_infos_def)

lemma create_modules_prefix: "create_modules drv cs w = Inr (hs, w') \<Longrightarrow> \<exists>v. w' = w @ v"
proof (induction cs arbitrary: w hs)
  case (Cons c cs)
  then obtain h w1 hs' where h: "create_module drv c w = Inr (h, w1)" "create_modules drv cs w1 = Inr (hs', w')"
    by (auto simp: and_then_Inr_iff)
  have "\<exists>v. w1 = w @ v" using h(1) by (auto simp: create_module_def create_Inr_iff split: if_splits)
  then show ?case using Cons.IH [OF h(2)] by auto
qed simp

lemma destroy_modules_prefix: "\<exists>v. destroy_modules drv hs w = w @ v \<and> (\<forall>e\<in>set v. \<exists>h. fst e = vkDestroy VkShaderModule h)"
proof (induction hs arbitrary: w)
  case (Cons h hs)
  obtain v where "destroy_modules drv hs (destroy_nonzero drv VkShaderModule h w) = destroy_nonzero drv VkShaderModule h w @ v"
      "\<forall>e\<in>set v. \<exists>h. fst e = vkDestroy VkShaderModule h"
    using Cons.IH by blast
  then show ?case by (auto simp: destroy_modules_def destroy_nonzero_def tell_eq)
qed (simp add: destroy_modules_def)

text \<open>
  C27. Initialising a primitive shader creates one pipeline, whose stages are those that have code, in the order of the pipeline, with the
  layout of the context. Everything else it creates is destroyed before it returns.
\<close>

theorem shader_pipeline:
  assumes "Shader_Initialize_primitive drv ctx i s w = Inr (s', w')" and "gives_handles drv"
  shows "\<exists>u v a stages. w' = w @ u @ (vkCreateGraphicsPipelines (pipeline_info ctx (color_attachment_count i) stages True primitive_dynamic_states), a) # v \<and>
    m_vk_pipeline s' = vk_value a \<and> GetPipelineBindPoint s' = VK_PIPELINE_BIND_POINT_GRAPHICS \<and>
    map fst stages = map fst (filter (\<lambda>(s, c). snd c \<noteq> 0) (zip primitive_stages (primitive_code i))) \<and>
    vk_objects w' = vk_objects w + object VkPipeline (m_vk_pipeline s')"
proof -
  obtain ms w1 h w2 where m: "create_modules drv (primitive_code i) w = Inr (ms, w1)" "create drv (primitive_pipeline ctx i ms) w1 = Inr (h, w2)"
      "s' = \<lparr>m_vk_pipeline = h, m_pipeline_type = PipelineType_Primitive\<rparr>" "w' = destroy_modules drv ms w2"
    using assms(1) by (auto simp: Shader_Initialize_primitive_def make_pipeline_def and_then_Inr_iff)
  obtain u where u: "w1 = w @ u" using create_modules_prefix [OF m(1)] by blast
  obtain v where v: "w' = w2 @ v" using destroy_modules_prefix m(4) by metis
  have "vk_objects w' = vk_objects w + object VkPipeline (m_vk_pipeline s')"
    using primitive_shader.init_owns [OF TrueI assms(1)] by (simp add: owned_shader_def)
  moreover have "map fst (stage_infos primitive_stages ms) = map fst (filter (\<lambda>(s, c). snd c \<noteq> 0) (zip primitive_stages (primitive_code i)))"
    by (rule create_modules_stages [OF m(1) assms(2)]) (simp add: primitive_stages_def primitive_code_def)
  ultimately show ?thesis
    using m(2,3) u v by (auto simp: create_Inr_iff primitive_pipeline_def GetPipelineBindPoint_def)
qed

section \<open>Descriptor slots\<close>

text \<open>The pool with the set of slots that are in use: registering a texture or a sampler takes one, and a slot that is in use
  can be given back.\<close>

inductive slot_step :: "descriptor_pool \<times> u32 set \<Rightarrow> descriptor_pool \<times> u32 set \<Rightarrow> bool" where
  register: "GetNewDescriptorId p = Inr (new_id, p') \<Longrightarrow> slot_step (p, L) (p', insert new_id L)"
| unregister: "slot \<in> L \<Longrightarrow> UnregisterResourceBySlot junk slot p = Inr p' \<Longrightarrow> slot_step (p, L) (p', L - {slot})"

definition slots_ok :: "descriptor_pool \<times> u32 set \<Rightarrow> bool" where
  "slots_ok x \<longleftrightarrow> m_free_id_stack_count (fst x) = 0 \<and> m_texture_id_count (fst x) \<le> m_max_slot_ids (fst x) \<and>
    (\<forall>i\<in>snd x. i < m_texture_id_count (fst x))"

lemma GetNewDescriptorId_ok:
  assumes "slots_ok (p, L)" and "GetNewDescriptorId p = Inr (new_id, p')"
  shows "new_id = m_texture_id_count p" "m_texture_id_count p' = m_texture_id_count p + 1" "m_texture_id_count p < m_max_slot_ids p"
    "m_max_slot_ids p' = m_max_slot_ids p" "m_free_id_stack_count p' = 0"
  using assms by (auto simp: slots_ok_def GetNewDescriptorId_def and_then_Inr_iff)

lemma Unregister_ok:
  assumes "slots_ok (p, L)" and "slot \<in> L" and "UnregisterResourceBySlot junk slot p = Inr p'"
  shows "m_texture_id_count p' = (if slot = m_texture_id_count p - 1 then m_texture_id_count p - 1 else m_texture_id_count p)"
    "m_max_slot_ids p' = m_max_slot_ids p" "m_free_id_stack_count p' = 0"
  using assms by (auto simp: slots_ok_def UnregisterResourceBySlot_def Let_def split: if_splits)

lemma slot_step_ok:
  assumes "slots_ok x" and "slot_step x y"
  shows "slots_ok y"
  using assms(2,1)
proof cases
  case (register p new_id p' L)
  note g = GetNewDescriptorId_ok [OF assms(1) [unfolded register(1)] register(3)]
  have a: "m_texture_id_count p < m_texture_id_count p + 1" "m_texture_id_count p + 1 \<le> m_max_slot_ids p"
    using g(3) by unat_arith+
  then have "m_texture_id_count p' \<le> m_max_slot_ids p'" using g(2,4) by simp
  moreover have "\<forall>i\<in>L. i < m_texture_id_count p + 1" using assms(1) register(1) a(1) by (auto simp: slots_ok_def)
  ultimately show ?thesis using g a by (simp add: register(2) slots_ok_def)
next
  case (unregister slot L junk p p')
  note g = Unregister_ok [OF assms(1) [unfolded unregister(1)] unregister(3,4)]
  have l: "\<forall>i\<in>L. i < m_texture_id_count p" and m: "m_texture_id_count p \<le> m_max_slot_ids p"
    using assms(1) unregister(1) by (auto simp: slots_ok_def)
  show ?thesis
  proof (cases "slot = m_texture_id_count p - 1")
    case True
    have "slot < m_texture_id_count p" using l unregister(3) by blast
    then have "m_texture_id_count p \<noteq> 0" by auto
    then have d: "m_texture_id_count p - 1 < m_texture_id_count p" and e: "\<And>i. i < m_texture_id_count p \<Longrightarrow> i \<noteq> m_texture_id_count p - 1 \<Longrightarrow> i < m_texture_id_count p - 1"
      by (unat_arith)+
    have "\<forall>i\<in>L - {slot}. i < m_texture_id_count p - 1" using l e True by blast
    then show ?thesis using g True d m by (auto simp: unregister(2) slots_ok_def)
  qed (use g l m in \<open>auto simp: unregister(2) slots_ok_def\<close>)
qed

interpretation slots: kept_invariant "\<lambda>x. m_texture_id_count (fst x) = 0 \<and> m_free_id_stack_count (fst x) = 0 \<and> snd x = {}" slot_step slots_ok
  by unfold_locales (simp add: slots_ok_def, rule slot_step_ok)

text \<open>
  However textures or samplers are registered and unregistered, the slot a descriptor pool hands out is not in use, and lies below the
  number of slots the pool was made for. (The count of free slots has to start at zero, which \<open>Initialize\<close> does not see to.)
\<close>

theorem descriptor_slot_unused:
  assumes "slot_step\<^sup>*\<^sup>* (p, {}) (p', L)" and "m_texture_id_count p = 0" and "m_free_id_stack_count p = 0"
    and "GetNewDescriptorId p' = Inr (new_id, p'')"
  shows "new_id \<notin> L \<and> new_id < m_max_slot_ids p'"
proof -
  have ok: "slots_ok (p', L)" by (rule slots.run_inv [OF _ assms(1)]) (use assms(2,3) in simp)
  then show ?thesis using GetNewDescriptorId_ok [OF ok assms(4)] by (auto simp: slots_ok_def)
qed

lemma lost_slot_step:
  assumes "slots_ok x" and "slot \<notin> snd x" and "slot < m_texture_id_count (fst x)" and "slot_step x y"
  shows "slot \<notin> snd y \<and> slot < m_texture_id_count (fst y)"
  using assms(4,1,2,3)
proof cases
  case (register p new_id p' L)
  note g = GetNewDescriptorId_ok [OF assms(1) [unfolded register(1)] register(3)]
  have "slot < m_texture_id_count p" using assms(3) register(1) by simp
  moreover from this g(3) have "slot < m_texture_id_count p + 1" by unat_arith
  ultimately show ?thesis using assms(2) register(1,2) g by auto
next
  case (unregister s L junk p p')
  note g = Unregister_ok [OF assms(1) [unfolded unregister(1)] unregister(3,4)]
  have a: "slot < m_texture_id_count p" "slot \<noteq> s" using assms(2,3) unregister(1,3) by auto
  have "s = m_texture_id_count p - 1 \<Longrightarrow> slot < m_texture_id_count p - 1" using a by unat_arith
  then show ?thesis using assms(2) unregister(1,2) g a by auto
qed

text \<open>
  A slot that is given back while a later one is in use is lost: \<open>UnregisterResourceBySlot\<close> enlarges the size of the free list in place of
  its count, so the slot is never handed out again.
\<close>

theorem descriptor_slot_lost:
  assumes "slots_ok (p, L)" and "slot \<in> L" and "slot \<noteq> m_texture_id_count p - 1"
    and "UnregisterResourceBySlot junk slot p = Inr p'" and "slot_step\<^sup>*\<^sup>* (p', L - {slot}) (p'', L'')"
    and "GetNewDescriptorId p'' = Inr (new_id, q)"
  shows "new_id \<noteq> slot"
proof -
  have "slot_step (p, L) (p', L - {slot})" using slot_step.unregister [OF assms(2,4)] .
  then have ok: "slots_ok (p', L - {slot})" using slot_step_ok [OF assms(1)] by blast
  have "slot < m_texture_id_count p'" using Unregister_ok(1) [OF assms(1,2,4)] assms(1-3) by (auto simp: slots_ok_def)
  have "slots_ok (p'', L'') \<and> slot \<notin> L'' \<and> slot < m_texture_id_count p''"
    using assms(5)
  proof (induction "(p'', L'')" arbitrary: p'' L'' rule: rtranclp_induct)
    case base
    then show ?case using ok \<open>slot < m_texture_id_count p'\<close> by simp
  next
    case (step y)
    then show ?case using lost_slot_step [of y slot "(p'', L'')"] slot_step_ok [of y "(p'', L'')"] by (cases y) auto
  qed
  then show ?thesis using GetNewDescriptorId_ok(1) [OF _ assms(6)] by blast
qed

section \<open>Examples\<close>

definition example_shader_info :: PrimitiveShaderInfo where
  "example_shader_info = \<lparr>color_attachment_count = 1, vertex_code = (64, 0x1000), tessellation_control_code = (0, 0),
    tessellation_evaluation_code = (0, 0), geometry_code = (0, 0), fragment_code = (32, 0x2000)\<rparr>"

text \<open>The driver of the examples for logs of any length: a number that is never zero.\<close>

definition steady_driver :: vk_driver where
  "steady_driver w c = \<lparr>vk_result = VK_SUCCESS, vk_value = 7, vk_values = []\<rparr>"

lemma example_shader_runs: "case Shader_Initialize_primitive steady_driver example_context example_shader_info Shader_new [] of
    Inl e \<Rightarrow> False | Inr x \<Rightarrow> length (snd x) = 5"
  by code_simp

theorem shader_pipeline_witness:
  "\<exists>s w stages a u v. Shader_Initialize_primitive steady_driver example_context example_shader_info Shader_new [] = Inr (s, w) \<and>
    w = u @ (vkCreateGraphicsPipelines (pipeline_info example_context 1 stages True primitive_dynamic_states), a) # v \<and>
    map fst stages = [VK_SHADER_STAGE_VERTEX_BIT, VK_SHADER_STAGE_FRAGMENT_BIT]"
proof -
  obtain s w where r: "Shader_Initialize_primitive steady_driver example_context example_shader_info Shader_new [] = Inr (s, w)"
    using example_shader_runs by (auto split: sum.splits)
  have g: "gives_handles steady_driver" by (simp add: gives_handles_def steady_driver_def)
  have c: "color_attachment_count example_shader_info = 1"
    and l: "map fst (filter (\<lambda>(s, c). snd c \<noteq> 0) (zip primitive_stages (primitive_code example_shader_info))) =
      [VK_SHADER_STAGE_VERTEX_BIT, VK_SHADER_STAGE_FRAGMENT_BIT]"
    by (simp_all add: example_shader_info_def primitive_stages_def primitive_code_def)
  from shader_pipeline [OF r g, unfolded c l append_Nil] r show ?thesis by (elim exE conjE) (intro exI conjI)
qed

definition example_descriptors :: descriptor_pool where
  "example_descriptors = \<lparr>m_vk_descriptor_pool = 1, m_vk_descriptor_set = 2, m_vk_pool_type = VK_DESCRIPTOR_TYPE_SAMPLED_IMAGE, m_max_slot_ids = 4,
    m_texture_id_count = 0, m_free_id_stack_size = 64, m_free_id_stack_count = 0, m_free_id_stack = replicate 64 0\<rparr>"

definition example_two_slots :: descriptor_pool where
  "example_two_slots = example_descriptors\<lparr>m_texture_id_count := 2\<rparr>"

theorem descriptor_slot_unused_witness:
  "slot_step\<^sup>*\<^sup>* (example_descriptors, {}) (example_descriptors\<lparr>m_texture_id_count := 1\<rparr>, {0}) \<and>
   (1 :: u32) \<notin> {0} \<and> (1 :: u32) < m_max_slot_ids (example_descriptors\<lparr>m_texture_id_count := 1\<rparr>)"
proof -
  have "slot_step (example_descriptors, {}) (example_descriptors\<lparr>m_texture_id_count := 1\<rparr>, insert 0 {})"
    by (rule slot_step.register) (simp add: GetNewDescriptorId_def example_descriptors_def)
  then have s: "slot_step\<^sup>*\<^sup>* (example_descriptors, {}) (example_descriptors\<lparr>m_texture_id_count := 1\<rparr>, {0})" by simp
  have "GetNewDescriptorId (example_descriptors\<lparr>m_texture_id_count := 1\<rparr>) = Inr (1, example_two_slots)"
    by (simp add: GetNewDescriptorId_def example_descriptors_def example_two_slots_def)
  from descriptor_slot_unused [OF s _ _ this] s show ?thesis by (simp add: example_descriptors_def)
qed

theorem descriptor_slot_lost_witness:
  "\<exists>p'. UnregisterResourceBySlot [] 0 example_two_slots = Inr p' \<and> (\<exists>q. GetNewDescriptorId p' = Inr (2, q)) \<and> (2 :: u32) \<noteq> 0"
proof -
  let ?p = "example_two_slots\<lparr>m_free_id_stack := (replicate 64 0)[0 := 0], m_free_id_stack_size := 65\<rparr>"
  have u: "UnregisterResourceBySlot [] 0 example_two_slots = Inr ?p"
    by (simp add: UnregisterResourceBySlot_def example_two_slots_def example_descriptors_def)
  have g: "GetNewDescriptorId ?p = Inr (2, ?p\<lparr>m_texture_id_count := 3\<rparr>)"
    by (simp add: GetNewDescriptorId_def example_two_slots_def example_descriptors_def)
  have "slots_ok (example_two_slots, {0, 1})" by (simp add: slots_ok_def example_two_slots_def example_descriptors_def)
  from descriptor_slot_lost [OF this _ _ u rtranclp.rtrancl_refl g] u g show ?thesis
    by (auto simp: example_two_slots_def)
qed

end
