(* ===== verification/Vk_Command.thy ===== *)
theory Vk_Command
  imports Vk_Shader DD_Bits
begin

text \<open>
  Recording commands: \<open>vk_commandbuffer.hpp\<close> and \<open>vk_commandbuffer.vulkan.cpp\<close>. A \<open>CommandBuffer\<close> begins and ends rendering by itself
  when a draw or a copy needs it, and keeps the resources of each shader stage, which it copies to mapped memory
  before a draw. Shown in \<open>Vk_Command_Props\<close>: what is recorded is a stream of commands the specification allows, and every draw finds the resources that
  were set for it.

  The objects a program passes by pointer (buffers, memory pools, textures, target views) are kept by address.
\<close>

section \<open>Structures of the pipeline state\<close>

definition VK_LOGIC_OP_COPY :: u32 where "VK_LOGIC_OP_COPY = 3"
definition VK_COLOR_COMPONENT_RGBA_BITS :: u32 where "VK_COLOR_COMPONENT_RGBA_BITS = 1 OR 2 OR 4 OR 8"
definition VK_STENCIL_OP_KEEP :: u32 where "VK_STENCIL_OP_KEEP = 0"
definition VK_COMPARE_OP_GREATER :: u32 where "VK_COMPARE_OP_GREATER = 4"
definition VK_COMPARE_OP_ALWAYS :: u32 where "VK_COMPARE_OP_ALWAYS = 7"
definition VK_CULL_MODE_NONE :: u32 where "VK_CULL_MODE_NONE = 0"
definition VK_FRONT_FACE_CLOCKWISE :: u32 where "VK_FRONT_FACE_CLOCKWISE = 1"
definition VK_POLYGON_MODE_FILL :: u32 where "VK_POLYGON_MODE_FILL = 0"

record ColorBlendCmdState =
  color_blend_count :: u32
  color_blend_enables :: "bool list"
  vk_color_blend_equations :: "blend_equation list"
  vk_color_blend_write_masks :: "u32 list"
  logic_op_enable :: bool
  vk_logic_op :: u32
  blend_constants :: "real \<times> real \<times> real \<times> real"

definition ColorBlendCmdState_SetDefaults :: "ColorBlendCmdState \<Rightarrow> ColorBlendCmdState" where
  "ColorBlendCmdState_SetDefaults s = s\<lparr>vk_logic_op := VK_LOGIC_OP_COPY, blend_constants := (0, 0, 0, 1),
    color_blend_enables := replicate TargetColorAttachmentCount False,
    vk_color_blend_write_masks := replicate TargetColorAttachmentCount VK_COLOR_COMPONENT_RGBA_BITS, color_blend_count := 1\<rparr>"

record VkStencilOpState =
  failOp :: u32
  passOp :: u32
  depthFailOp :: u32
  stencil_compareOp :: u32
  compareMask :: u32
  writeMask :: u32
  reference :: u32

record DepthStencilCmdState =
  depth_test_enable :: bool
  depth_write_enable :: bool
  depth_bounds_test_enable :: bool
  stencil_test_enable :: bool
  vk_op_state_front :: VkStencilOpState
  vk_op_state_back :: VkStencilOpState
  vk_depth_compare_op :: u32
  min_depth_bounds :: real
  max_depth_bounds :: real

definition stencil_keep :: VkStencilOpState where
  "stencil_keep = \<lparr>failOp = VK_STENCIL_OP_KEEP, passOp = VK_STENCIL_OP_KEEP, depthFailOp = VK_STENCIL_OP_KEEP,
    stencil_compareOp = VK_COMPARE_OP_ALWAYS, compareMask = 0, writeMask = 0, reference = 0\<rparr>"

definition DepthStencilCmdState_SetDefaults :: "DepthStencilCmdState" where
  "DepthStencilCmdState_SetDefaults = \<lparr>depth_test_enable = True, depth_write_enable = True, depth_bounds_test_enable = False,
    stencil_test_enable = False, vk_op_state_front = stencil_keep, vk_op_state_back = stencil_keep,
    vk_depth_compare_op = VK_COMPARE_OP_GREATER, min_depth_bounds = 0, max_depth_bounds = 1\<rparr>"

record RasterizerCmdState =
  vk_cull_mode :: u32
  vk_front_face :: u32
  vk_polygon_mode :: u32
  rasterizer_discard_enable :: bool
  primitive_restart_enable :: bool
  depth_bias_enable :: bool
  depth_clamp_enable :: bool
  depth_bias_constant_factor :: real
  depth_bias_clamp :: real
  depth_bias_slope_factor :: real
  line_width :: real

definition RasterizerCmdState_SetDefaults :: RasterizerCmdState where
  "RasterizerCmdState_SetDefaults = \<lparr>vk_cull_mode = VK_CULL_MODE_NONE, vk_front_face = VK_FRONT_FACE_CLOCKWISE,
    vk_polygon_mode = VK_POLYGON_MODE_FILL, rasterizer_discard_enable = False, primitive_restart_enable = False,
    depth_bias_enable = False, depth_clamp_enable = False, depth_bias_constant_factor = 0, depth_bias_clamp = 0,
    depth_bias_slope_factor = 0, line_width = 1\<rparr>"

record VertexCmdState =
  vertex_binding_count :: u32
  vertex_attribute_count :: u32
  vertex_binding_array :: "vertex_binding list"
  vertex_attribute_array :: "vertex_attribute list"

definition VertexCmdState_SetDefaults :: VertexCmdState where
  "VertexCmdState_SetDefaults = \<lparr>vertex_binding_count = 0, vertex_attribute_count = 0, vertex_binding_array = [], vertex_attribute_array = []\<rparr>"

record PipelineCmdState =
  color_blend_state :: ColorBlendCmdState
  depth_stencil_state :: DepthStencilCmdState
  rasterizer_state :: RasterizerCmdState
  vertex_state :: VertexCmdState

definition PipelineCmdState_SetDefaults :: "PipelineCmdState \<Rightarrow> PipelineCmdState" where
  "PipelineCmdState_SetDefaults s =
    (let s = s\<lparr>color_blend_state := ColorBlendCmdState_SetDefaults (color_blend_state s)\<rparr>;
         s = s\<lparr>depth_stencil_state := DepthStencilCmdState_SetDefaults\<rparr>;
         s = s\<lparr>rasterizer_state := RasterizerCmdState_SetDefaults\<rparr> in
     s\<lparr>color_blend_state := ColorBlendCmdState_SetDefaults (color_blend_state s)\<rparr>)"

definition BufferBarrierCmdState_SetDefaults :: VkMemoryBarrier2 where
  "BufferBarrierCmdState_SetDefaults = \<lparr>srcStageMask = VK_ACCESS_NONE, srcAccessMask = VK_ACCESS_NONE,
    dstStageMask = VK_ACCESS_NONE, dstAccessMask = VK_ACCESS_NONE\<rparr>"

record TextureBarrierCmdState =
  barrier_masks :: VkMemoryBarrier2
  vk_src_layout :: u32
  vk_dst_layout :: u32

definition TextureBarrierCmdState_SetDefaults :: TextureBarrierCmdState where
  "TextureBarrierCmdState_SetDefaults = \<lparr>barrier_masks = \<lparr>srcStageMask = VK_ACCESS_NONE, srcAccessMask = VK_ACCESS_NONE,
      dstStageMask = VK_ACCESS_NONE, dstAccessMask = VK_ACCESS_NONE\<rparr>,
    vk_src_layout = VK_IMAGE_LAYOUT_UNDEFINED, vk_dst_layout = VK_IMAGE_LAYOUT_UNDEFINED\<rparr>"

section \<open>The command buffer\<close>

record ResourceBuffer =
  uniform_buffers :: "u64 list"
  storage_buffers :: "u64 list"
  texture_ids :: "u32 list"
  sampler_ids :: "u32 list"
  reserve0 :: u64
  reserve1 :: u64

definition TargetMaxPerStageUniformBufferCount :: nat where "TargetMaxPerStageUniformBufferCount = 14"
definition TargetMaxPerStageStorageBufferCount :: nat where "TargetMaxPerStageStorageBufferCount = 16"
definition TargetMaxPerStageTextureCount :: nat where "TargetMaxPerStageTextureCount = 32"

definition sizeof_ResourceBuffer :: nat where
  "sizeof_ResourceBuffer = 8 * TargetMaxPerStageUniformBufferCount + 8 * TargetMaxPerStageStorageBufferCount +
    4 * TargetMaxPerStageTextureCount + 4 * TargetMaxPerStageTextureCount + 8 + 8"

definition ResourceBuffer_SetDefaults :: ResourceBuffer where
  "ResourceBuffer_SetDefaults = \<lparr>uniform_buffers = replicate TargetMaxPerStageUniformBufferCount 0,
    storage_buffers = replicate TargetMaxPerStageStorageBufferCount 0, texture_ids = replicate TargetMaxPerStageTextureCount 0,
    sampler_ids = replicate TargetMaxPerStageTextureCount 0, reserve0 = 0, reserve1 = 0\<rparr>"

definition TargetMaxResourceUpdatesPerSubmission :: nat where "TargetMaxResourceUpdatesPerSubmission = 120"

definition TargetConstantBufferAlignment :: u64 where "TargetConstantBufferAlignment = 0x100"

definition TargetResourceBufferPerStageSize :: u64 where
  "TargetResourceBufferPerStageSize = AlignUp (of_nat (sizeof_ResourceBuffer * TargetMaxResourceUpdatesPerSubmission)) TargetConstantBufferAlignment"

text \<open>The numbers of the first six stages; the others have no resources.\<close>

fun stage_index :: "ShaderStage \<Rightarrow> nat" where
  "stage_index ShaderStage_Vertex = 0"
| "stage_index ShaderStage_TessellationEvaluation = 1"
| "stage_index ShaderStage_TessellationControl = 2"
| "stage_index ShaderStage_Geometry = 3"
| "stage_index ShaderStage_Fragment = 4"
| "stage_index ShaderStage_Compute = 5"
| "stage_index ShaderStage_Task = 6"
| "stage_index ShaderStage_Mesh = 7"
| "stage_index ShaderStage_Ray = 8"
| "stage_index ShaderStage_AnyHit = 9"
| "stage_index ShaderStage_Closesthit = 10"
| "stage_index ShaderStage_Miss = 11"
| "stage_index ShaderStage_Callable = 12"

definition TargetShaderStages :: nat where "TargetShaderStages = 6"

text \<open>\<open>m_need_resource_update\<close> are the six flags \<open>m_need_vertex_resource_update\<close> to \<open>m_need_compute_resource_update\<close> in the order in which
  they are declared, which is the order of the stages: \<open>SetUniformBuffer\<close> and the like index them from the first.
  \<open>resource_memory\<close> is what \<open>m_resource_buffer_mapped_address\<close> points to, in pieces of the size of a \<open>ResourceBuffer\<close>.\<close>

record command_buffer =
  m_vk_command_buffer :: u64
  m_resource_buffer_per_stage_array :: "ResourceBuffer list"
  m_resource_buffer_mapped_address :: u64
  resource_memory :: "ResourceBuffer list"
  m_vk_resource_buffer_memory :: u64
  m_vk_resource_buffer :: u64
  m_vk_resource_buffer_address :: u64
  m_color_targets :: "u64 list"
  m_depth_stencil_target :: u64
  m_vk_clear_color :: "real \<times> real \<times> real \<times> real"
  m_vk_clear_depth_stencil :: "real \<times> u32"
  m_is_rendering :: bool
  m_are_new_targets :: bool
  m_need_resource_update :: "bool list"
  m_resource_update_count :: u32
  m_render_width :: u16
  m_render_height :: u16
  m_fast_clear_color :: bool
  m_fast_clear_depth_stencil :: bool

record cmd_world =
  calls :: vk_log
  pools :: "u64 \<Rightarrow> memory_pool"
  buffers :: "u64 \<Rightarrow> vk_buffer"
  textures :: "u64 \<Rightarrow> texture"
  views :: "u64 \<Rightarrow> target_view"

type_synonym recording = "command_buffer \<times> cmd_world"

text \<open>A command recorded in the command buffer.\<close>

definition put :: "vk_driver \<Rightarrow> vk_cmd \<Rightarrow> recording \<Rightarrow> recording" where
  "put drv c s = (case s of (cb, w) \<Rightarrow> (cb, w\<lparr>calls := tell drv (vkCmd (m_vk_command_buffer cb) c) (calls w)\<rparr>))"

definition first_n :: "u32 \<Rightarrow> 'a list \<Rightarrow> 'a list outcome" where
  "first_n n xs = (if unat n \<le> length xs then Inr (take (unat n) xs) else Inl OutOfBounds)"

subsection \<open>Private operations\<close>

definition EndRenderingIfRendering :: "vk_driver \<Rightarrow> recording \<Rightarrow> recording" where
  "EndRenderingIfRendering drv s =
    (if m_is_rendering (fst s) then put drv vkCmdEndRendering ((fst s)\<lparr>m_is_rendering := False\<rparr>, snd s) else s)"

definition color_attachment :: "command_buffer \<Rightarrow> cmd_world \<Rightarrow> u64 \<Rightarrow> VkRenderingAttachmentInfo" where
  "color_attachment cb w color_target =
    \<lparr>imageView = m_vk_target_image_view (views w color_target), imageLayout = VK_IMAGE_LAYOUT_ATTACHMENT_OPTIMAL_KHR,
     loadOp = (if m_fast_clear_color cb then VK_ATTACHMENT_LOAD_OP_CLEAR else VK_ATTACHMENT_LOAD_OP_DONT_CARE),
     clearValue = (case m_vk_clear_color cb of (r, g, b, a) \<Rightarrow> ClearColor r g b a)\<rparr>"

definition depth_stencil_attachment :: "command_buffer \<Rightarrow> cmd_world \<Rightarrow> VkRenderingAttachmentInfo" where
  "depth_stencil_attachment cb w =
    \<lparr>imageView = (if m_depth_stencil_target cb \<noteq> 0 then m_vk_target_image_view (views w (m_depth_stencil_target cb)) else 0),
     imageLayout = VK_IMAGE_LAYOUT_GENERAL,
     loadOp = (if m_fast_clear_depth_stencil cb then VK_ATTACHMENT_LOAD_OP_CLEAR else VK_ATTACHMENT_LOAD_OP_DONT_CARE),
     clearValue = (case m_vk_clear_depth_stencil cb of (d, s) \<Rightarrow> ClearDepthStencil d s)\<rparr>"

definition rendering_info :: "command_buffer \<Rightarrow> cmd_world \<Rightarrow> VkRenderingInfo" where
  "rendering_info cb w =
    \<lparr>renderArea = (ucast (m_render_width cb), ucast (m_render_height cb)),
     pColorAttachments = map (color_attachment cb w) (takeWhile (\<lambda>a. a \<noteq> 0) (m_color_targets cb)),
     pDepthStencilAttachment = (if m_depth_stencil_target cb \<noteq> 0 then Some (depth_stencil_attachment cb w) else None)\<rparr>"

definition start_rendering :: "vk_driver \<Rightarrow> recording \<Rightarrow> recording" where
  "start_rendering drv s =
    (case put drv (vkCmdBeginRendering (rendering_info (fst s) (snd s))) s of (cb, w) \<Rightarrow> (cb\<lparr>m_is_rendering := True\<rparr>, w))"

definition BeginRenderingIfNotRendering :: "vk_driver \<Rightarrow> recording \<Rightarrow> recording" where
  "BeginRenderingIfNotRendering drv s =
    (if m_are_new_targets (fst s) then
       start_rendering drv (EndRenderingIfRendering drv ((fst s)\<lparr>m_are_new_targets := False\<rparr>, snd s))
     else if m_is_rendering (fst s) then s
     else start_rendering drv s)"

text \<open>One of the six blocks of \<open>UpdateResourceBufferIfNecessary\<close>: the number of the stage, its bit, and the offset of its push constant.\<close>

definition update_stage :: "vk_driver \<Rightarrow> nat \<times> u32 \<times> u32 \<Rightarrow> recording \<Rightarrow> recording outcome" where
  "update_stage drv st s =
    (case (st, s) of ((i, stage_bit, offset), (cb, w)) \<Rightarrow>
     if m_need_resource_update cb ! i then
       let n = unat (m_resource_update_count cb) in
       if n < length (resource_memory cb) then
         let cb = cb\<lparr>resource_memory := (resource_memory cb)[n := m_resource_buffer_per_stage_array cb ! i]\<rparr>;
             offset_address = m_vk_resource_buffer_address cb + of_nat (sizeof_ResourceBuffer * n);
             (cb, w) = put drv (vkCmdPushConstants stage_bit offset offset_address) (cb, w) in
         Inr (cb\<lparr>m_resource_update_count := m_resource_update_count cb + 1,
           m_need_resource_update := (m_need_resource_update cb)[i := False]\<rparr>, w)
       else Inl OutOfBounds
     else Inr (cb, w))"

definition resource_stages :: "(nat \<times> u32 \<times> u32) list" where
  "resource_stages = [(0, VK_SHADER_STAGE_VERTEX_BIT, 8 * 0), (2, VK_SHADER_STAGE_TESSELLATION_CONTROL_BIT, 8 * 1),
    (1, VK_SHADER_STAGE_TESSELLATION_EVALUATION_BIT, 8 * 2), (3, VK_SHADER_STAGE_GEOMETRY_BIT, 8 * 3),
    (4, VK_SHADER_STAGE_FRAGMENT_BIT, 8 * 4), (5, VK_SHADER_STAGE_COMPUTE_BIT, 8 * 5)]"

fun update_stages :: "vk_driver \<Rightarrow> (nat \<times> u32 \<times> u32) list \<Rightarrow> recording \<Rightarrow> recording outcome" where
  "update_stages drv [] s = Inr s"
| "update_stages drv (st # sts) s = and_then (update_stage drv st s) (update_stages drv sts)"

definition UpdateResourceBufferIfNecessary :: "vk_driver \<Rightarrow> recording \<Rightarrow> recording outcome" where
  "UpdateResourceBufferIfNecessary drv s =
    and_then (dd_assert (m_resource_buffer_mapped_address (fst s) \<noteq> 0) ()) (\<lambda>_. update_stages drv resource_stages s)"

subsection \<open>Life of the command buffer\<close>

text \<open>\<open>junk\<close> is what the allocated memory holds.\<close>

definition CommandBuffer_Initialize :: "vk_driver \<Rightarrow> vk_context \<Rightarrow> u64 \<times> (nat \<Rightarrow> ResourceBuffer) \<Rightarrow> command_buffer \<Rightarrow> vk_log \<Rightarrow> (command_buffer \<times> vk_log) outcome" where
  "CommandBuffer_Initialize drv context i cb w =
    (case i of (draw_memory_size, junk) \<Rightarrow>
    and_then (create drv (vkAllocateCommandBuffers (m_vk_graphics_command_pool context)) w) (\<lambda>(h, w).
    let device_memory_type = FindMemoryHeapIndex context (VK_MEMORY_PROPERTY_DEVICE_LOCAL_BIT OR VK_MEMORY_PROPERTY_HOST_VISIBLE_BIT OR
        VK_MEMORY_PROPERTY_HOST_COHERENT_BIT) in
    and_then (dd_assert (device_memory_type \<noteq> - 1) ()) (\<lambda>_.
    and_then (create drv (vkAllocateMemory (allocate_info None draw_memory_size device_memory_type)) w) (\<lambda>(memory, w).
    and_then (create drv (vkCreateBuffer \<lparr>external_host = False, buffer_size = draw_memory_size,
        buffer_usage = VK_BUFFER_USAGE_SHADER_DEVICE_ADDRESS_BIT, buffer_family = m_graphics_queue_family_index context\<rparr>) w) (\<lambda>(b, w).
    and_then (checked drv (vkBindBufferMemory b memory 0) w) (\<lambda>(_, w).
    and_then (create drv (vkMapMemory memory) w) (\<lambda>(address, w).
    case ask drv (vkGetBufferDeviceAddress b) w of (a, w) \<Rightarrow>
    Inr (cb\<lparr>m_vk_command_buffer := h, m_vk_resource_buffer_memory := memory, m_vk_resource_buffer := b,
      m_resource_buffer_mapped_address := address, resource_memory := map junk [0..<unat draw_memory_size div sizeof_ResourceBuffer],
      m_vk_resource_buffer_address := vk_value a\<rparr>, w))))))))"

definition CommandBuffer_Finalize :: "vk_driver \<Rightarrow> command_buffer \<Rightarrow> vk_log \<Rightarrow> command_buffer \<times> vk_log" where
  "CommandBuffer_Finalize drv cb w =
    (let w = tell drv (vkDestroy VkCommandBuffer (m_vk_command_buffer cb)) w;
         w = tell drv (vkDestroy VkBuffer (m_vk_resource_buffer cb)) w;
         w = (if m_resource_buffer_mapped_address cb \<noteq> 0 then tell drv (vkUnmapMemory (m_vk_resource_buffer_memory cb)) w else w);
         cb = cb\<lparr>m_resource_buffer_mapped_address := 0\<rparr>;
         w = tell drv (vkDestroy VkDeviceMemory (m_vk_resource_buffer_memory cb)) w in
     (cb, w))"

definition GetDrawMemorySize :: "u32 \<Rightarrow> u32 \<Rightarrow> u64" where
  "GetDrawMemorySize max_shader_stages max_draws = ucast (max_shader_stages * max_draws) * TargetResourceBufferPerStageSize"

definition CommandBuffer_Begin :: "vk_driver \<Rightarrow> recording \<Rightarrow> recording outcome" where
  "CommandBuffer_Begin drv s =
    (case s of (cb, w) \<Rightarrow>
    and_then (checked drv (vkBeginCommandBuffer (m_vk_command_buffer cb)) (calls w)) (\<lambda>(_, l).
    Inr (cb\<lparr>m_resource_buffer_per_stage_array := replicate TargetShaderStages ResourceBuffer_SetDefaults, m_resource_update_count := 0\<rparr>,
      w\<lparr>calls := l\<rparr>)))"

definition CommandBuffer_End :: "vk_driver \<Rightarrow> recording \<Rightarrow> recording outcome" where
  "CommandBuffer_End drv s =
    (case EndRenderingIfRendering drv s of (cb, w) \<Rightarrow>
    and_then (checked drv (vkEndCommandBuffer (m_vk_command_buffer cb)) (calls w)) (\<lambda>(_, l). Inr (cb, w\<lparr>calls := l\<rparr>)))"

subsection \<open>Transitions and clears\<close>

definition relocate_if_required :: "vk_driver \<Rightarrow> vk_context \<Rightarrow> u64 \<Rightarrow> recording \<Rightarrow> recording outcome" where
  "relocate_if_required drv context a s =
    and_then (dd_deref a) (\<lambda>_.
    if b_requires_relocation (buffers (snd s) a) then
      (case EndRenderingIfRendering drv s of (cb, w) \<Rightarrow>
      let b = buffers w a; pa = b_bound_memory_pool b in
      and_then (dd_deref pa) (\<lambda>_.
      and_then (Buffer_Relocate drv context (m_vk_command_buffer cb) b (pools w pa) (calls w)) (\<lambda>(b, p, l).
      Inr (cb, w\<lparr>calls := l, buffers := (buffers w)(a := b), pools := (pools w)(pa := p)\<rparr>))))
    else Inr s)"

definition SetBufferStateTransition :: "vk_driver \<Rightarrow> vk_context \<Rightarrow> u64 \<Rightarrow> VkMemoryBarrier2 \<Rightarrow> recording \<Rightarrow> recording outcome" where
  "SetBufferStateTransition drv context buffer barrier_state s =
    and_then (relocate_if_required drv context buffer s) (\<lambda>s.
    Inr (put drv (vkCmdPipelineBarrier2_buffer (m_vk_buffer (buffers (snd s) buffer)) barrier_state) s))"

definition SetTextureStateTransition :: "vk_driver \<Rightarrow> u64 \<Rightarrow> TextureBarrierCmdState \<Rightarrow> u32 \<Rightarrow> recording \<Rightarrow> recording outcome" where
  "SetTextureStateTransition drv tex barrier_state aspect_mask s =
    (let s = (if dstStageMask (barrier_masks barrier_state) = VK_PIPELINE_STAGE_BOTTOM_OF_PIPE_BIT then EndRenderingIfRendering drv s else s) in
    and_then (dd_deref tex) (\<lambda>_.
    case put drv (vkCmdPipelineBarrier2_image (m_vk_image (textures (snd s) tex)) (barrier_masks barrier_state)
        (vk_src_layout barrier_state) (vk_dst_layout barrier_state) aspect_mask) s of (cb, w) \<Rightarrow>
    Inr (cb, w\<lparr>textures := (textures w)(tex := SetImageLayout (vk_dst_layout barrier_state) (textures w tex))\<rparr>)))"

definition clear_barrier :: "u64 \<Rightarrow> u64 \<Rightarrow> TextureBarrierCmdState" where
  "clear_barrier stage access = \<lparr>barrier_masks = \<lparr>srcStageMask = VK_PIPELINE_STAGE_TRANSFER_BIT, srcAccessMask = VK_ACCESS_TRANSFER_WRITE_BIT,
      dstStageMask = stage, dstAccessMask = access\<rparr>, vk_src_layout = VK_IMAGE_LAYOUT_GENERAL, vk_dst_layout = VK_IMAGE_LAYOUT_GENERAL\<rparr>"

definition ClearColorTarget :: "vk_driver \<Rightarrow> u64 \<Rightarrow> VkClearValue \<Rightarrow> subresource_range \<Rightarrow> recording \<Rightarrow> recording outcome" where
  "ClearColorTarget drv color_target color sub_range s =
    (let s = EndRenderingIfRendering drv s in
    and_then (dd_deref color_target) (\<lambda>_.
    let t = m_texture (views (snd s) color_target) in
    and_then (dd_deref t) (\<lambda>_.
    let s = put drv (vkCmdClearColorImage (m_vk_image (textures (snd s) t)) VK_IMAGE_LAYOUT_GENERAL color sub_range) s in
    SetTextureStateTransition drv t
      (clear_barrier VK_PIPELINE_STAGE_COLOR_ATTACHMENT_OUTPUT_BIT VK_ACCESS_COLOR_ATTACHMENT_WRITE_BIT) VK_IMAGE_ASPECT_COLOR_BIT s)))"

definition ClearDepthStencilTarget :: "vk_driver \<Rightarrow> u64 \<Rightarrow> VkClearValue \<Rightarrow> subresource_range \<Rightarrow> recording \<Rightarrow> recording outcome" where
  "ClearDepthStencilTarget drv depth_stencil_target clear_value sub_range s =
    (let s = EndRenderingIfRendering drv s in
    and_then (dd_deref depth_stencil_target) (\<lambda>_.
    let t = m_texture (views (snd s) depth_stencil_target) in
    and_then (dd_deref t) (\<lambda>_.
    let s = put drv (vkCmdClearDepthStencilImage (m_vk_image (textures (snd s) t)) VK_IMAGE_LAYOUT_GENERAL clear_value sub_range) s in
    SetTextureStateTransition drv t
      (clear_barrier (VK_PIPELINE_STAGE_EARLY_FRAGMENT_TESTS_BIT OR VK_PIPELINE_STAGE_LATE_FRAGMENT_TESTS_BIT)
        VK_ACCESS_DEPTH_STENCIL_ATTACHMENT_WRITE_BIT) (VK_IMAGE_ASPECT_DEPTH_BIT OR VK_IMAGE_ASPECT_STENCIL_BIT) s)))"

definition RegisterFastClearColor :: "real \<times> real \<times> real \<times> real \<Rightarrow> recording \<Rightarrow> recording" where
  "RegisterFastClearColor color_value s = ((fst s)\<lparr>m_vk_clear_color := color_value, m_fast_clear_color := True\<rparr>, snd s)"

definition RegisterFastClearDepthStencil :: "real \<times> u32 \<Rightarrow> recording \<Rightarrow> recording" where
  "RegisterFastClearDepthStencil depth_stencil_value s =
    ((fst s)\<lparr>m_vk_clear_depth_stencil := depth_stencil_value, m_fast_clear_depth_stencil := True\<rparr>, snd s)"

subsection \<open>Draws\<close>

definition DrawInstanced :: "vk_driver \<Rightarrow> u32 \<Rightarrow> u32 \<Rightarrow> u32 \<Rightarrow> u32 \<Rightarrow> u32 \<Rightarrow> recording \<Rightarrow> recording outcome" where
  "DrawInstanced drv vk_primitive_topology vertex_count base_vertex instance_count base_instance s =
    and_then (UpdateResourceBufferIfNecessary drv s) (\<lambda>s.
    let s = BeginRenderingIfNotRendering drv s;
        s = put drv (vkCmdSet (vkCmdSetPrimitiveTopology vk_primitive_topology)) s in
    Inr (put drv (vkCmdDraw vertex_count instance_count base_vertex base_instance) s))"

definition Draw :: "vk_driver \<Rightarrow> u32 \<Rightarrow> u32 \<Rightarrow> u32 \<Rightarrow> recording \<Rightarrow> recording outcome" where
  "Draw drv vk_primitive_topology vertex_count base_vertex s =
    and_then (UpdateResourceBufferIfNecessary drv s) (\<lambda>s.
    let s = BeginRenderingIfNotRendering drv s;
        s = put drv (vkCmdSet (vkCmdSetPrimitiveTopology vk_primitive_topology)) s in
    Inr (put drv (vkCmdDraw vertex_count 1 base_vertex 0) s))"

definition DrawInstancedIndexed :: "vk_driver \<Rightarrow> vk_context \<Rightarrow> u32 \<Rightarrow> u32 \<Rightarrow> u64 \<Rightarrow> u32 \<Rightarrow> u32 \<Rightarrow> u32 \<Rightarrow> u32 \<Rightarrow> recording \<Rightarrow> recording outcome" where
  "DrawInstancedIndexed drv context vk_primitive_topology index_format index_buffer index_count base_index instance_count base_instance s =
    and_then (relocate_if_required drv context index_buffer s) (\<lambda>s.
    and_then (UpdateResourceBufferIfNecessary drv s) (\<lambda>s.
    let s = BeginRenderingIfNotRendering drv s;
        s = put drv (vkCmdBindIndexBuffer (m_vk_buffer (buffers (snd s) index_buffer)) 0 index_format) s;
        s = put drv (vkCmdSet (vkCmdSetPrimitiveTopology vk_primitive_topology)) s in
    Inr (put drv (vkCmdDrawIndexed index_count instance_count base_index 0 base_instance) s)))"

definition DrawIndexed :: "vk_driver \<Rightarrow> vk_context \<Rightarrow> u32 \<Rightarrow> u32 \<Rightarrow> u64 \<Rightarrow> u32 \<Rightarrow> u32 \<Rightarrow> recording \<Rightarrow> recording outcome" where
  "DrawIndexed drv context vk_primitive_topology index_format index_buffer index_count base_index s =
    and_then (relocate_if_required drv context index_buffer s) (\<lambda>s.
    and_then (UpdateResourceBufferIfNecessary drv s) (\<lambda>s.
    let s = BeginRenderingIfNotRendering drv s;
        s = put drv (vkCmdBindIndexBuffer (m_vk_buffer (buffers (snd s) index_buffer)) 0 index_format) s;
        s = put drv (vkCmdSet (vkCmdSetPrimitiveTopology vk_primitive_topology)) s in
    Inr (put drv (vkCmdDrawIndexed index_count 1 base_index 0 0) s)))"

subsection \<open>State of the pipeline\<close>

definition put_all :: "vk_driver \<Rightarrow> vk_state list \<Rightarrow> recording \<Rightarrow> recording" where
  "put_all drv cs s = fold (\<lambda>c. put drv (vkCmdSet c)) cs s"

definition SetShader :: "vk_driver \<Rightarrow> shader \<Rightarrow> recording \<Rightarrow> recording" where
  "SetShader drv sh s = put drv (vkCmdBindPipeline (GetPipelineBindPoint sh) (m_vk_pipeline sh)) s"

definition SetColorBlendState :: "vk_driver \<Rightarrow> ColorBlendCmdState \<Rightarrow> recording \<Rightarrow> recording outcome" where
  "SetColorBlendState drv st s =
    and_then (first_n (color_blend_count st) (color_blend_enables st)) (\<lambda>enables.
    and_then (first_n (color_blend_count st) (vk_color_blend_equations st)) (\<lambda>equations.
    and_then (first_n (color_blend_count st) (vk_color_blend_write_masks st)) (\<lambda>write_masks.
    Inr (put_all drv [vkCmdSetLogicOpEnableEXT (logic_op_enable st), vkCmdSetLogicOpEXT (vk_logic_op st),
      vkCmdSetBlendConstants (blend_constants st), vkCmdSetColorBlendEnableEXT enables, vkCmdSetColorBlendEquationEXT equations,
      vkCmdSetColorWriteMaskEXT write_masks] s))))"

definition stencil_op :: "VkStencilOpState \<Rightarrow> stencil_ops" where
  "stencil_op st = (failOp st, passOp st, depthFailOp st, stencil_compareOp st)"

definition SetDepthStencilState :: "vk_driver \<Rightarrow> DepthStencilCmdState \<Rightarrow> recording \<Rightarrow> recording" where
  "SetDepthStencilState drv st s = put_all drv [vkCmdSetDepthTestEnable (depth_test_enable st), vkCmdSetDepthWriteEnable (depth_write_enable st),
    vkCmdSetDepthBoundsTestEnable (depth_bounds_test_enable st), vkCmdSetDepthBounds (min_depth_bounds st) (max_depth_bounds st),
    vkCmdSetDepthCompareOp (vk_depth_compare_op st), vkCmdSetStencilTestEnable (stencil_test_enable st),
    vkCmdSetStencilCompareMask VK_STENCIL_FACE_FRONT_BIT (compareMask (vk_op_state_front st)),
    vkCmdSetStencilCompareMask VK_STENCIL_FACE_BACK_BIT (compareMask (vk_op_state_back st)),
    vkCmdSetStencilWriteMask VK_STENCIL_FACE_FRONT_BIT (writeMask (vk_op_state_front st)),
    vkCmdSetStencilWriteMask VK_STENCIL_FACE_BACK_BIT (writeMask (vk_op_state_back st)),
    vkCmdSetStencilReference VK_STENCIL_FACE_FRONT_BIT (reference (vk_op_state_front st)),
    vkCmdSetStencilReference VK_STENCIL_FACE_BACK_BIT (reference (vk_op_state_back st)),
    vkCmdSetStencilOp VK_STENCIL_FACE_FRONT_BIT (stencil_op (vk_op_state_front st)),
    vkCmdSetStencilOp VK_STENCIL_FACE_BACK_BIT (stencil_op (vk_op_state_back st))] s"

definition SetRasterizerState :: "vk_driver \<Rightarrow> RasterizerCmdState \<Rightarrow> recording \<Rightarrow> recording" where
  "SetRasterizerState drv st s = put_all drv [vkCmdSetRasterizerDiscardEnable (rasterizer_discard_enable st),
    vkCmdSetPrimitiveRestartEnable (primitive_restart_enable st), vkCmdSetDepthBiasEnable (depth_bias_enable st),
    vkCmdSetDepthBias (depth_bias_constant_factor st) (depth_bias_clamp st) (depth_bias_slope_factor st),
    vkCmdSetLineWidth (line_width st), vkCmdSetCullMode (vk_cull_mode st), vkCmdSetFrontFace (vk_front_face st),
    vkCmdSetDepthClampEnableEXT (depth_clamp_enable st), vkCmdSetPolygonModeEXT (vk_polygon_mode st)] s"

definition SetVertexState :: "vk_driver \<Rightarrow> VertexCmdState \<Rightarrow> recording \<Rightarrow> recording outcome" where
  "SetVertexState drv st s =
    and_then (first_n (vertex_binding_count st) (vertex_binding_array st)) (\<lambda>bindings.
    and_then (first_n (vertex_attribute_count st) (vertex_attribute_array st)) (\<lambda>attributes.
    Inr (put_all drv [vkCmdSetVertexInputEXT bindings attributes] s)))"

definition SetPipelineState :: "vk_driver \<Rightarrow> PipelineCmdState \<Rightarrow> recording \<Rightarrow> recording outcome" where
  "SetPipelineState drv st s =
    and_then (SetColorBlendState drv (color_blend_state st) s) (\<lambda>s.
    let s = SetDepthStencilState drv (depth_stencil_state st) s;
        s = SetRasterizerState drv (rasterizer_state st) s in
    SetVertexState drv (vertex_state st) s)"

definition SetViewports :: "vk_driver \<Rightarrow> viewport_rect list \<Rightarrow> recording \<Rightarrow> recording" where
  "SetViewports drv viewports s = put_all drv [vkCmdSetViewportWithCount viewports] s"

definition SetScissors :: "vk_driver \<Rightarrow> scissor_rect list \<Rightarrow> recording \<Rightarrow> recording" where
  "SetScissors drv scissors s = put_all drv [vkCmdSetScissorWithCount scissors] s"

definition SetViewportScissors :: "vk_driver \<Rightarrow> viewport_rect list \<Rightarrow> scissor_rect list \<Rightarrow> recording \<Rightarrow> recording" where
  "SetViewportScissors drv viewports scissors s = put_all drv [vkCmdSetViewportWithCount viewports, vkCmdSetScissorWithCount scissors] s"

text \<open>\<open>color_targets\<close> holds what the array of pointers holds; the count is asserted after the copy.\<close>

definition SetRenderTargets :: "int \<Rightarrow> u64 list \<Rightarrow> u64 \<Rightarrow> recording \<Rightarrow> recording outcome" where
  "SetRenderTargets color_target_count color_targets depth_stencil_target s =
    (let n = nat color_target_count; cb = fst s in
    if n \<le> length (m_color_targets cb) \<and> n \<le> length color_targets then
      let cb = cb\<lparr>m_color_targets := take n color_targets @ drop n (m_color_targets cb), m_depth_stencil_target := depth_stencil_target\<rparr> in
      and_then (dd_assert (0 < color_target_count \<and> color_target_count \<le> 8) ()) (\<lambda>_.
      Inr (cb\<lparr>m_are_new_targets := True\<rparr>, snd s))
    else Inl OutOfBounds)"

definition SetVertexBuffer :: "vk_driver \<Rightarrow> vk_context \<Rightarrow> u32 \<Rightarrow> u64 \<Rightarrow> u64 \<Rightarrow> u64 \<Rightarrow> recording \<Rightarrow> recording outcome" where
  "SetVertexBuffer drv context binding vertex_buffer stride n s =
    and_then (relocate_if_required drv context vertex_buffer s) (\<lambda>s.
    Inr (put drv (vkCmdBindVertexBuffers2 binding (m_vk_buffer (buffers (snd s) vertex_buffer)) 0 n stride) s))"

definition SetDescriptorPool :: "vk_driver \<Rightarrow> descriptor_pool \<Rightarrow> recording \<Rightarrow> recording outcome" where
  "SetDescriptorPool drv pool s =
    and_then (if m_vk_pool_type pool = VK_DESCRIPTOR_TYPE_SAMPLED_IMAGE then Inr 0
      else if m_vk_pool_type pool = VK_DESCRIPTOR_TYPE_SAMPLER then Inr 1 else Inl AssertFailed) (\<lambda>n.
    Inr (put drv (vkCmdBindDescriptorSets n (m_vk_descriptor_set pool)) s))"

subsection \<open>Resources of the stages\<close>

definition change_resource :: "ShaderStage \<Rightarrow> (ResourceBuffer \<Rightarrow> ResourceBuffer) \<Rightarrow> recording \<Rightarrow> recording" where
  "change_resource shader_stage f s =
    (let i = stage_index shader_stage; cb = fst s in
    (cb\<lparr>m_resource_buffer_per_stage_array := (m_resource_buffer_per_stage_array cb)[i := f (m_resource_buffer_per_stage_array cb ! i)],
      m_need_resource_update := (m_need_resource_update cb)[i := True]\<rparr>, snd s))"

text \<open>The resources of a stage, where the location is in range.\<close>

definition stage_resources :: "ShaderStage \<Rightarrow> (ResourceBuffer \<Rightarrow> nat) \<Rightarrow> u32 \<Rightarrow> recording \<Rightarrow> ResourceBuffer outcome" where
  "stage_resources shader_stage len location s =
    (let i = stage_index shader_stage in
    if i < length (m_resource_buffer_per_stage_array (fst s)) \<and> unat location < len (m_resource_buffer_per_stage_array (fst s) ! i)
    then Inr (m_resource_buffer_per_stage_array (fst s) ! i) else Inl OutOfBounds)"

definition SetUniformBuffer :: "u32 \<Rightarrow> ShaderStage \<Rightarrow> u64 \<Rightarrow> recording \<Rightarrow> recording outcome" where
  "SetUniformBuffer location shader_stage gpu_address s =
    and_then (stage_resources shader_stage (\<lambda>r. length (uniform_buffers r)) location s) (\<lambda>r.
    if uniform_buffers r ! unat location = gpu_address then Inr s
    else Inr (change_resource shader_stage (\<lambda>r. r\<lparr>uniform_buffers := (uniform_buffers r)[unat location := gpu_address]\<rparr>) s))"

definition SetStorageBuffer :: "u32 \<Rightarrow> ShaderStage \<Rightarrow> u64 \<Rightarrow> recording \<Rightarrow> recording outcome" where
  "SetStorageBuffer location shader_stage gpu_address s =
    and_then (stage_resources shader_stage (\<lambda>r. length (storage_buffers r)) location s) (\<lambda>r.
    if storage_buffers r ! unat location = gpu_address then Inr s
    else Inr (change_resource shader_stage (\<lambda>r. r\<lparr>storage_buffers := (storage_buffers r)[unat location := gpu_address]\<rparr>) s))"

definition SetTextureAndSampler :: "u32 \<Rightarrow> ShaderStage \<Rightarrow> u32 \<Rightarrow> u32 \<Rightarrow> recording \<Rightarrow> recording outcome" where
  "SetTextureAndSampler location shader_stage texture_slot sampler_slot s =
    and_then (stage_resources shader_stage (\<lambda>r. min (length (texture_ids r)) (length (sampler_ids r))) location s) (\<lambda>r.
    if texture_ids r ! unat location = texture_slot \<and> sampler_ids r ! unat location = sampler_slot then Inr s
    else Inr (change_resource shader_stage (\<lambda>r. r\<lparr>texture_ids := (texture_ids r)[unat location := texture_slot],
      sampler_ids := (sampler_ids r)[unat location := sampler_slot]\<rparr>) s))"

definition SetRenderDimensions :: "u32 \<Rightarrow> u32 \<Rightarrow> recording \<Rightarrow> recording" where
  "SetRenderDimensions width height s = ((fst s)\<lparr>m_render_width := ucast width, m_render_height := ucast height\<rparr>, snd s)"

section \<open>The calls of a program\<close>

datatype (plugins only: code) cmd_op =
    OpBegin | OpEnd
  | OpClearColor u64 VkClearValue subresource_range
  | OpClearDepthStencil u64 VkClearValue subresource_range
  | OpFastClearColor "real \<times> real \<times> real \<times> real"
  | OpFastClearDepthStencil "real \<times> u32"
  | OpDraw u32 u32 u32
  | OpDrawIndexed u32 u32 u64 u32 u32
  | OpDrawInstanced u32 u32 u32 u32 u32
  | OpDrawInstancedIndexed u32 u32 u64 u32 u32 u32 u32
  | OpShader shader
  | OpPipelineState PipelineCmdState
  | OpColorBlend ColorBlendCmdState
  | OpDepthStencil DepthStencilCmdState
  | OpRasterizer RasterizerCmdState
  | OpVertex VertexCmdState
  | OpViewports "viewport_rect list"
  | OpScissors "scissor_rect list"
  | OpViewportScissors "viewport_rect list" "scissor_rect list"
  | OpRenderTargets int "u64 list" u64
  | OpVertexBuffer u32 u64 u64 u64
  | OpBufferTransition u64 VkMemoryBarrier2
  | OpTextureTransition u64 TextureBarrierCmdState u32
  | OpDescriptorPool descriptor_pool
  | OpUniformBuffer u32 ShaderStage u64
  | OpStorageBuffer u32 ShaderStage u64
  | OpTextureAndSampler u32 ShaderStage u32 u32
  | OpRenderDimensions u32 u32

fun run_op :: "vk_driver \<Rightarrow> vk_context \<Rightarrow> cmd_op \<Rightarrow> recording \<Rightarrow> recording outcome" where
  "run_op drv ctx OpBegin s = CommandBuffer_Begin drv s"
| "run_op drv ctx OpEnd s = CommandBuffer_End drv s"
| "run_op drv ctx (OpClearColor t c r) s = ClearColorTarget drv t c r s"
| "run_op drv ctx (OpClearDepthStencil t c r) s = ClearDepthStencilTarget drv t c r s"
| "run_op drv ctx (OpFastClearColor c) s = Inr (RegisterFastClearColor c s)"
| "run_op drv ctx (OpFastClearDepthStencil c) s = Inr (RegisterFastClearDepthStencil c s)"
| "run_op drv ctx (OpDraw t n b) s = Draw drv t n b s"
| "run_op drv ctx (OpDrawIndexed t f i n b) s = DrawIndexed drv ctx t f i n b s"
| "run_op drv ctx (OpDrawInstanced t n b k j) s = DrawInstanced drv t n b k j s"
| "run_op drv ctx (OpDrawInstancedIndexed t f i n b k j) s = DrawInstancedIndexed drv ctx t f i n b k j s"
| "run_op drv ctx (OpShader sh) s = Inr (SetShader drv sh s)"
| "run_op drv ctx (OpPipelineState st) s = SetPipelineState drv st s"
| "run_op drv ctx (OpColorBlend st) s = SetColorBlendState drv st s"
| "run_op drv ctx (OpDepthStencil st) s = Inr (SetDepthStencilState drv st s)"
| "run_op drv ctx (OpRasterizer st) s = Inr (SetRasterizerState drv st s)"
| "run_op drv ctx (OpVertex st) s = SetVertexState drv st s"
| "run_op drv ctx (OpViewports v) s = Inr (SetViewports drv v s)"
| "run_op drv ctx (OpScissors r) s = Inr (SetScissors drv r s)"
| "run_op drv ctx (OpViewportScissors v r) s = Inr (SetViewportScissors drv v r s)"
| "run_op drv ctx (OpRenderTargets n c d) s = SetRenderTargets n c d s"
| "run_op drv ctx (OpVertexBuffer b v st n) s = SetVertexBuffer drv ctx b v st n s"
| "run_op drv ctx (OpBufferTransition b m) s = SetBufferStateTransition drv ctx b m s"
| "run_op drv ctx (OpTextureTransition t m a) s = SetTextureStateTransition drv t m a s"
| "run_op drv ctx (OpDescriptorPool p) s = SetDescriptorPool drv p s"
| "run_op drv ctx (OpUniformBuffer l st a) s = SetUniformBuffer l st a s"
| "run_op drv ctx (OpStorageBuffer l st a) s = SetStorageBuffer l st a s"
| "run_op drv ctx (OpTextureAndSampler l st t k) s = SetTextureAndSampler l st t k s"
| "run_op drv ctx (OpRenderDimensions x y) s = Inr (SetRenderDimensions x y s)"

fun run_ops :: "vk_driver \<Rightarrow> vk_context \<Rightarrow> cmd_op list \<Rightarrow> recording \<Rightarrow> recording outcome" where
  "run_ops drv ctx [] s = Inr s"
| "run_ops drv ctx (x # xs) s = and_then (run_op drv ctx x s) (run_ops drv ctx xs)"

end
