(* ===== verification/Vk_Command_Props.thy ===== *)
theory Vk_Command_Props
  imports Vk_Command
begin

text \<open>
  What a \<open>CommandBuffer\<close> records. The stream of commands keeps the rules of the Vulkan specification on rendering: draws only while rendering, clears, copies
  and barriers only outside, and an end for every begin (\<open>command_stream\<close>). Every draw finds, at the address pushed for a stage, the resources that were set
  for it, and still does when the recording ends (\<open>draw_sees_resources\<close>). Memory of the size \<open>GetDrawMemorySize\<close> is enough for
  the number of draws it was asked for (\<open>draw_memory_enough\<close>).
\<close>

section \<open>Owned objects\<close>

definition owned_command_buffer :: "command_buffer \<Rightarrow> (vk_kind \<times> u64) multiset" where
  "owned_command_buffer cb = object VkCommandBuffer (m_vk_command_buffer cb) + object VkBuffer (m_vk_resource_buffer cb) +
    object VkDeviceMemory (m_vk_resource_buffer_memory cb)"

interpretation command_buffer: vk_owner "CommandBuffer_Initialize drv ctx" "CommandBuffer_Finalize drv" "\<lambda>_. True" owned_command_buffer for drv ctx
proof unfold_locales
  fix cb w cb' w' assume f: "CommandBuffer_Finalize drv cb w = (cb', w')"
  then show "vk_objects w' = vk_objects w - owned_command_buffer cb"
    by (auto simp: CommandBuffer_Finalize_def owned_command_buffer_def Let_def tell_eq)
  assume v: "valid_use w" "owned_command_buffer cb \<subseteq># vk_objects w"
  from v(2) obtain m where "vk_objects w = object VkCommandBuffer (m_vk_command_buffer cb) + object VkBuffer (m_vk_resource_buffer cb) +
      object VkDeviceMemory (m_vk_resource_buffer_memory cb) + m"
    by (auto simp: owned_command_buffer_def mset_subset_eq_exists_conv)
  with f v(1) show "valid_use w'"
    by (auto simp: CommandBuffer_Finalize_def Let_def tell_eq union_assoc intro!: valid_destroy split: if_splits)
qed (auto simp: CommandBuffer_Initialize_def owned_command_buffer_def owner_simps ask_def Let_def)

section \<open>The stream of commands\<close>

text \<open>The states of a command buffer: not being recorded, recorded outside rendering, and inside.\<close>

datatype stream = Initial | Recording | Rendering

fun stream_cmd :: "vk_cmd \<Rightarrow> stream \<Rightarrow> stream option" where
  "stream_cmd (vkCmdBeginRendering i) r = (if r = Recording then Some Rendering else None)"
| "stream_cmd vkCmdEndRendering r = (if r = Rendering then Some Recording else None)"
| "stream_cmd (vkCmdDraw n k b j) r = (if r = Rendering then Some r else None)"
| "stream_cmd (vkCmdDrawIndexed n k b v j) r = (if r = Rendering then Some r else None)"
| "stream_cmd (vkCmdClearColorImage i l c sr) r = (if r = Recording then Some r else None)"
| "stream_cmd (vkCmdClearDepthStencilImage i l c sr) r = (if r = Recording then Some r else None)"
| "stream_cmd (vkCmdCopyBuffer a b n) r = (if r = Recording then Some r else None)"
| "stream_cmd (vkCmdPipelineBarrier2_buffer b m) r = (if r = Recording then Some r else None)"
| "stream_cmd (vkCmdPipelineBarrier2_image i m l k a) r = (if r = Recording then Some r else None)"
| "stream_cmd c r = (if r = Initial then None else Some r)"

text \<open>\<open>None\<close> once a command was recorded where it is not allowed.\<close>

fun stream_step :: "u64 \<Rightarrow> vk_call \<times> vk_answer \<Rightarrow> stream option \<Rightarrow> stream option" where
  "stream_step h (vkCmd h' c, a) st = (if h' = h then Option.bind st (stream_cmd c) else st)"
| "stream_step h (vkBeginCommandBuffer h', a) st =
    (if h' = h then Option.bind st (\<lambda>r. if r = Initial then Some Recording else None) else st)"
| "stream_step h (vkEndCommandBuffer h', a) st =
    (if h' = h then Option.bind st (\<lambda>r. if r = Recording then Some Initial else None) else st)"
| "stream_step h e st = st"

definition cb_stream :: "recording \<Rightarrow> stream option" where
  "cb_stream s = fold (stream_step (m_vk_command_buffer (fst s))) (calls (snd s)) (Some Initial)"

definition in_state :: "stream \<Rightarrow> recording \<Rightarrow> bool" where
  "in_state st s \<longleftrightarrow> cb_stream s = Some st \<and> (m_is_rendering (fst s) \<longleftrightarrow> st = Rendering)"

definition is_state_cmd :: "vk_cmd \<Rightarrow> bool" where
  "is_state_cmd c \<longleftrightarrow> stream_cmd c Recording = Some Recording \<and> stream_cmd c Rendering = Some Rendering"

lemma cb_stream_put: "cb_stream (put drv c s) = Option.bind (cb_stream s) (stream_cmd c)"
  by (simp add: cb_stream_def put_def tell_eq split: prod.split)

lemma put_fst [simp]: "fst (put drv c s) = fst s"
  by (simp add: put_def split: prod.split)

lemma put_calls: "calls (snd (put drv c s)) = calls (snd s) @ [(vkCmd (m_vk_command_buffer (fst s)) c, drv (calls (snd s)) (vkCmd (m_vk_command_buffer (fst s)) c))]"
  by (simp add: put_def tell_eq split: prod.split)

lemma in_state_put:
  assumes "in_state st s" and "st \<noteq> Initial" and "is_state_cmd c"
  shows "in_state st (put drv c s)"
  using assms by (cases st) (auto simp: in_state_def cb_stream_put is_state_cmd_def)

lemma is_state_cmd_simps [simp]:
  "is_state_cmd (vkCmdSet x)" "is_state_cmd (vkCmdPushConstants b f a)" "is_state_cmd (vkCmdBindIndexBuffer i k t)"
  "is_state_cmd (vkCmdBindVertexBuffers2 m v u k l)" "is_state_cmd (vkCmdBindPipeline p q)" "is_state_cmd (vkCmdBindDescriptorSets n d)"
  by (simp_all add: is_state_cmd_def)

lemma in_state_put_all: "in_state st s \<Longrightarrow> st \<noteq> Initial \<Longrightarrow> in_state st (put_all drv cs s)"
proof (induction cs arbitrary: s)
  case (Cons c cs)
  then show ?case using Cons.IH [OF in_state_put [OF Cons.prems, of "vkCmdSet c" drv]] by (simp add: put_all_def)
qed (simp add: put_all_def)

text \<open>Only the handle and whether it is rendering matter.\<close>

lemma in_state_change:
  assumes "m_vk_command_buffer cb = m_vk_command_buffer cb'" and "m_is_rendering cb = m_is_rendering cb'" and "calls w = calls w'"
  shows "in_state st (cb, w) \<longleftrightarrow> in_state st (cb', w')"
  using assms by (simp add: in_state_def cb_stream_def)

lemma in_state_End:
  assumes "in_state st s" and "st \<noteq> Initial"
  shows "in_state Recording (EndRenderingIfRendering drv s)"
  using assms
  by (cases s, cases st) (auto simp: EndRenderingIfRendering_def in_state_def cb_stream_put, auto simp: cb_stream_def)

lemma in_state_start: "in_state Recording s \<Longrightarrow> in_state Rendering (start_rendering drv s)"
  by (cases s) (auto simp: start_rendering_def in_state_def put_def cb_stream_def tell_eq)

lemma in_state_BeginRendering:
  assumes "in_state st s" and "st \<noteq> Initial"
  shows "in_state Rendering (BeginRenderingIfNotRendering drv s)"
proof -
  obtain cb w where s: "s = (cb, w)" by (cases s)
  have "in_state st (cb\<lparr>m_are_new_targets := False\<rparr>, w)" using assms(1) s in_state_change [of "cb\<lparr>m_are_new_targets := False\<rparr>" cb w w] by simp
  from in_state_start [OF in_state_End [OF this assms(2)]] assms show ?thesis
    using in_state_start [of s] by (cases st) (auto simp: BeginRenderingIfNotRendering_def s, auto simp: in_state_def)
qed

lemma in_state_update_stage:
  assumes "in_state st s" and "st \<noteq> Initial" and "update_stage drv x s = Inr s'"
  shows "in_state st s'"
proof -
  obtain cb w i b f where s: "s = (cb, w)" "x = (i, b, f)" by (cases s, cases x)
  show ?thesis
  proof (cases "m_need_resource_update cb ! i")
    case True
    let ?n = "unat (m_resource_update_count cb)"
    let ?cb = "cb\<lparr>resource_memory := (resource_memory cb)[?n := m_resource_buffer_per_stage_array cb ! i]\<rparr>"
    let ?c = "vkCmdPushConstants b f (m_vk_resource_buffer_address cb + of_nat (sizeof_ResourceBuffer * ?n))"
    have "in_state st (?cb, w)" using assms(1) s in_state_change [of ?cb cb w w] by simp
    from in_state_put [OF this assms(2), of ?c drv] show ?thesis
      using assms(3) True by (auto simp: s update_stage_def Let_def put_def in_state_def cb_stream_def split: if_splits)
  qed (use assms s in \<open>simp add: update_stage_def\<close>)
qed

lemma in_state_update_stages: "in_state st s \<Longrightarrow> st \<noteq> Initial \<Longrightarrow> update_stages drv xs s = Inr s' \<Longrightarrow> in_state st s'"
proof (induction xs arbitrary: s)
  case (Cons x xs)
  then obtain s1 where "update_stage drv x s = Inr s1" "update_stages drv xs s1 = Inr s'" by (auto simp: and_then_Inr_iff simp del: split_paired_Ex)
  then show ?case using Cons.IH [OF in_state_update_stage [OF Cons.prems(1,2)]] Cons.prems(2) by blast
qed simp

lemma in_state_Update: "in_state st s \<Longrightarrow> st \<noteq> Initial \<Longrightarrow> UpdateResourceBufferIfNecessary drv s = Inr s' \<Longrightarrow> in_state st s'"
  by (auto simp: UpdateResourceBufferIfNecessary_def and_then_Inr_iff intro: in_state_update_stages)

lemma Buffer_Relocate_stream:
  assumes "Buffer_Relocate drv ctx h b p l = Inr (b', p', l')" and "fold (stream_step h) l (Some Initial) = Some Recording"
  shows "fold (stream_step h) l' (Some Initial) = Some Recording"
  using assms by (auto simp: Buffer_Relocate_def RelocateHostMemoryToDevice_def staging_buffer_def vk_simps Let_def split: if_splits)

lemma in_state_relocate:
  assumes "in_state st s" and "st \<noteq> Initial" and "relocate_if_required drv ctx a s = Inr s'"
  shows "in_state (if b_requires_relocation (buffers (snd s) a) then Recording else st) s'"
proof (cases "b_requires_relocation (buffers (snd s) a)")
  case True
  obtain cb w where e: "EndRenderingIfRendering drv s = (cb, w)" by fastforce
  have r: "in_state Recording (cb, w)" using in_state_End [OF assms(1,2)] e by metis
  obtain b p l where l: "Buffer_Relocate drv ctx (m_vk_command_buffer cb) (buffers w a) (pools w (b_bound_memory_pool (buffers w a))) (calls w) = Inr (b, p, l)"
      "s' = (cb, w\<lparr>calls := l, buffers := (buffers w)(a := b), pools := (pools w)(b_bound_memory_pool (buffers w a) := p)\<rparr>)"
    using assms(3) True e by (auto simp: relocate_if_required_def and_then_Inr_iff Let_def)
  show ?thesis
    using r Buffer_Relocate_stream [OF l(1)] True by (simp add: l(2) in_state_def cb_stream_def)
qed (use assms in \<open>auto simp: relocate_if_required_def and_then_Inr_iff\<close>)

text \<open>
  What a program has to see to: it records between \<open>Begin\<close> and \<open>End\<close>, and asks for a transition only outside rendering, since \<open>SetBufferStateTransition\<close> ends
  rendering only when the buffer is relocated, and \<open>SetTextureStateTransition\<close> only before the bottom of the pipeline.
\<close>

fun allowed :: "cmd_op \<Rightarrow> recording \<Rightarrow> bool" where
  "allowed OpBegin s \<longleftrightarrow> cb_stream s = Some Initial"
| "allowed (OpBufferTransition b m) s \<longleftrightarrow> cb_stream s \<noteq> Some Initial \<and> (m_is_rendering (fst s) \<longrightarrow> b_requires_relocation (buffers (snd s) b))"
| "allowed (OpTextureTransition t m a) s \<longleftrightarrow> cb_stream s \<noteq> Some Initial \<and>
    (m_is_rendering (fst s) \<longrightarrow> dstStageMask (barrier_masks m) = VK_PIPELINE_STAGE_BOTTOM_OF_PIPE_BIT)"
| "allowed x s \<longleftrightarrow> cb_stream s \<noteq> Some Initial"

inductive cmd_step :: "vk_driver \<Rightarrow> vk_context \<Rightarrow> recording \<Rightarrow> recording \<Rightarrow> bool" for drv ctx where
  "allowed x s \<Longrightarrow> run_op drv ctx x s = Inr s' \<Longrightarrow> cmd_step drv ctx s s'"

lemma in_state_draw:
  assumes "in_state st s" and "st \<noteq> Initial" and "UpdateResourceBufferIfNecessary drv s = Inr s'"
  shows "in_state Rendering (BeginRenderingIfNotRendering drv s')"
  using in_state_BeginRendering [OF in_state_Update [OF assms]] assms(2) .

lemma in_state_Draws:
  assumes "in_state st s" and "st \<noteq> Initial"
  shows "DrawInstanced drv t n b k j s = Inr s' \<Longrightarrow> in_state Rendering s'"
    and "Draw drv t n b s = Inr s' \<Longrightarrow> in_state Rendering s'"
    and "DrawInstancedIndexed drv ctx t f i n b k j s = Inr s' \<Longrightarrow> in_state Rendering s'"
    and "DrawIndexed drv ctx t f i n b s = Inr s' \<Longrightarrow> in_state Rendering s'"
proof -
  have p: "in_state Rendering u \<Longrightarrow> stream_cmd c Rendering = Some Rendering \<Longrightarrow> in_state Rendering (put drv c u)" for u c
    by (simp add: in_state_def cb_stream_put)
  show "DrawInstanced drv t n b k j s = Inr s' \<Longrightarrow> in_state Rendering s'" and "Draw drv t n b s = Inr s' \<Longrightarrow> in_state Rendering s'"
    using in_state_draw [OF assms] by (auto simp: DrawInstanced_def Draw_def and_then_Inr_iff Let_def intro!: p simp del: split_paired_Ex)
  let ?st = "if b_requires_relocation (buffers (snd s) i) then Recording else st"
  have st: "?st \<noteq> Initial" using assms(2) by simp
  note r = in_state_draw [OF in_state_relocate [OF assms] st]
  show "DrawInstancedIndexed drv ctx t f i n b k j s = Inr s' \<Longrightarrow> in_state Rendering s'" and "DrawIndexed drv ctx t f i n b s = Inr s' \<Longrightarrow> in_state Rendering s'"
    using r by (auto simp: DrawInstancedIndexed_def DrawIndexed_def and_then_Inr_iff Let_def intro!: p simp del: split_paired_Ex)
qed

lemma in_state_recorded: "in_state Recording s \<Longrightarrow> stream_cmd c Recording = Some Recording \<Longrightarrow> in_state Recording (put drv c s)"
  by (simp add: in_state_def cb_stream_put)

lemma in_state_SetTexture:
  assumes "in_state st s" and "st \<noteq> Initial" and "SetTextureStateTransition drv t m a s = Inr s'"
    and "st = Rendering \<longrightarrow> dstStageMask (barrier_masks m) = VK_PIPELINE_STAGE_BOTTOM_OF_PIPE_BIT"
  shows "in_state Recording s'"
proof -
  let ?s = "if dstStageMask (barrier_masks m) = VK_PIPELINE_STAGE_BOTTOM_OF_PIPE_BIT then EndRenderingIfRendering drv s else s"
  let ?c = "vkCmdPipelineBarrier2_image (m_vk_image (textures (snd ?s) t)) (barrier_masks m) (vk_src_layout m) (vk_dst_layout m) a"
  have "in_state Recording ?s" using in_state_End [OF assms(1,2)] assms by (cases st) auto
  then have "in_state Recording (put drv ?c ?s)" by (rule in_state_recorded) simp
  moreover obtain cb w where "put drv ?c ?s = (cb, w)" by fastforce
  ultimately show ?thesis
    using assms(3) by (auto simp: SetTextureStateTransition_def Let_def and_then_Inr_iff in_state_def cb_stream_def)
qed

lemma in_state_Clear:
  assumes "in_state st s" and "st \<noteq> Initial"
  shows "ClearColorTarget drv t c r s = Inr s' \<Longrightarrow> in_state Recording s'"
    and "ClearDepthStencilTarget drv t c r s = Inr s' \<Longrightarrow> in_state Recording s'"
  by (auto simp: ClearColorTarget_def ClearDepthStencilTarget_def Let_def and_then_Inr_iff
      dest!: in_state_SetTexture [OF in_state_recorded [OF in_state_End [OF assms]], rotated 2])

lemma in_state_SetPipelineState:
  assumes "in_state st s" and "st \<noteq> Initial"
  shows "SetColorBlendState drv cs s = Inr s' \<Longrightarrow> in_state st s'"
    and "SetVertexState drv vs s = Inr s' \<Longrightarrow> in_state st s'"
    and "SetPipelineState drv ps s = Inr s' \<Longrightarrow> in_state st s'"
proof -
  have c: "in_state st u \<Longrightarrow> SetColorBlendState drv cs u = Inr u' \<Longrightarrow> in_state st u'"
    and v: "in_state st u \<Longrightarrow> SetVertexState drv vs u = Inr u' \<Longrightarrow> in_state st u'" for cs vs u u'
    by (auto simp: SetColorBlendState_def SetVertexState_def and_then_Inr_iff intro: in_state_put_all [OF _ assms(2)])
  show "SetColorBlendState drv cs s = Inr s' \<Longrightarrow> in_state st s'" and "SetVertexState drv vs s = Inr s' \<Longrightarrow> in_state st s'"
    using c v assms(1) by blast+
  show "SetPipelineState drv ps s = Inr s' \<Longrightarrow> in_state st s'"
    by (auto simp: SetPipelineState_def SetDepthStencilState_def SetRasterizerState_def Let_def and_then_Inr_iff
        dest!: c [OF assms(1)] elim!: v [rotated] intro!: in_state_put_all assms(2) simp del: split_paired_Ex)
qed

lemma in_state_fields:
  assumes "in_state st s"
  shows "in_state st (RegisterFastClearColor cc s)" "in_state st (RegisterFastClearDepthStencil dc s)" "in_state st (SetRenderDimensions x y s)"
    "SetRenderTargets n ts d s = Inr s' \<Longrightarrow> in_state st s'" "SetUniformBuffer l sh u s = Inr s' \<Longrightarrow> in_state st s'"
    "SetStorageBuffer l sh u s = Inr s' \<Longrightarrow> in_state st s'" "SetTextureAndSampler l sh tx sm s = Inr s' \<Longrightarrow> in_state st s'"
  using assms by (auto simp: in_state_def cb_stream_def RegisterFastClearColor_def RegisterFastClearDepthStencil_def SetRenderDimensions_def
      SetRenderTargets_def SetUniformBuffer_def SetStorageBuffer_def SetTextureAndSampler_def change_resource_def Let_def and_then_Inr_iff
      split: if_splits)

lemma in_state_CommandBuffer:
  "in_state Initial s \<Longrightarrow> CommandBuffer_Begin drv s = Inr s' \<Longrightarrow> in_state Recording s'"
  "in_state st s \<Longrightarrow> st \<noteq> Initial \<Longrightarrow> CommandBuffer_End drv s = Inr s' \<Longrightarrow> in_state Initial s'"
proof -
  show "in_state Initial s \<Longrightarrow> CommandBuffer_Begin drv s = Inr s' \<Longrightarrow> in_state Recording s'"
    by (cases s) (auto simp: CommandBuffer_Begin_def vk_simps in_state_def cb_stream_def)
  assume "in_state st s" "st \<noteq> Initial" "CommandBuffer_End drv s = Inr s'"
  moreover obtain cb w where "EndRenderingIfRendering drv s = (cb, w)" by fastforce
  ultimately show "in_state Initial s'"
    using in_state_End [of st s drv] by (auto simp: CommandBuffer_End_def vk_simps in_state_def cb_stream_def)
qed

lemma in_state_step:
  assumes "in_state st s" and "allowed x s" and "run_op drv ctx x s = Inr s'"
  shows "\<exists>st. in_state st s'"
proof (cases "st = Initial")
  case True
  then have "x = OpBegin" using assms(1,2) by (cases x) (auto simp: in_state_def)
  then show ?thesis using in_state_CommandBuffer(1) [of s drv s'] assms True by auto
next
  case st: False
  note a = in_state_put_all [OF assms(1) st] and p = in_state_put [OF assms(1) st]
  note r = in_state_relocate [OF assms(1) st]
  have n: "(if q then Recording else st) \<noteq> Initial" for q using st by simp
  have s: "cb_stream s \<noteq> Some Initial" "m_is_rendering (fst s) \<longleftrightarrow> st = Rendering" using assms(1) st by (auto simp: in_state_def)
  note simps = and_then_Inr_iff Let_def
  show ?thesis
  proof (cases x)
    case (OpBufferTransition b m)
    then obtain u where u: "relocate_if_required drv ctx b s = Inr u" "s' = put drv (vkCmdPipelineBarrier2_buffer (m_vk_buffer (buffers (snd u) b)) m) u"
      using assms(3) by (auto simp: SetBufferStateTransition_def simps simp del: split_paired_Ex)
    have "in_state Recording u" using r [OF u(1)] assms(2) s st by (cases st) (auto simp: OpBufferTransition split: if_splits)
    then show ?thesis unfolding u(2) by (intro exI) (rule in_state_recorded, simp_all)
  next
    case (OpTextureTransition t m k)
    then show ?thesis using in_state_SetTexture [OF assms(1) st, of drv t m k s'] assms(2,3) s by auto
  next
    case (OpVertexBuffer b v k l)
    then obtain u c where u: "relocate_if_required drv ctx v s = Inr u" "s' = put drv c u" "is_state_cmd c"
      using assms(3) by (auto simp: SetVertexBuffer_def simps simp del: split_paired_Ex)
    show ?thesis using in_state_put [OF r [OF u(1)] n u(3)] u(2) by blast
  next
    case (OpShader d)
    then show ?thesis using assms(3) by (auto simp: SetShader_def intro!: exI p)
  next
    case (OpDescriptorPool d)
    then show ?thesis using assms(3) by (auto simp: SetDescriptorPool_def simps split: if_splits intro!: exI p)
  qed (use assms s in \<open>auto simp: SetDepthStencilState_def SetRasterizerState_def SetViewports_def SetScissors_def SetViewportScissors_def
        simp del: split_paired_Ex dest: in_state_Draws [OF assms(1) st] in_state_Clear [OF assms(1) st] in_state_SetPipelineState [OF assms(1) st]
        in_state_fields(4-) [OF assms(1)] in_state_CommandBuffer(2) [OF assms(1) st] intro: a p in_state_fields(1-3) [OF assms(1)]\<close>)
qed

interpretation stream: kept_invariant "in_state Initial" "cmd_step drv ctx" "\<lambda>s. \<exists>st. in_state st s" for drv ctx
  by unfold_locales (auto elim!: cmd_step.cases dest: in_state_step)

text \<open>
  C8. The commands that a \<open>CommandBuffer\<close> records, whatever a program draws, clears, binds and relocates between \<open>Begin\<close> and \<open>End\<close>, with transitions
  asked for outside rendering only (\<open>allowed\<close>), form a stream that the specification allows:
  rendering is begun and ended alternately, draws are inside, clears, copies and barriers outside, and rendering has
  ended when the recording does. \<open>m_is_rendering\<close> says which of the two it is. (The flag has to start false,
  which the constructor does not see to.)
\<close>

theorem command_stream:
  assumes "(cmd_step drv ctx)\<^sup>*\<^sup>* (cb, w) s" and "calls w = []" and "\<not> m_is_rendering cb"
  shows "cb_stream s \<noteq> None \<and> (m_is_rendering (fst s) \<longleftrightarrow> cb_stream s = Some Rendering)"
proof -
  have "in_state Initial (cb, w)" using assms(2,3) by (simp add: in_state_def cb_stream_def)
  from stream.run_inv [OF this assms(1)] show ?thesis by (auto simp: in_state_def)
qed

text \<open>
  A transition that is asked for while rendering, of a buffer that needs no relocation, records a barrier that is not allowed there.
\<close>

theorem transition_while_rendering:
  assumes "in_state Rendering s" and "\<not> b_requires_relocation (buffers (snd s) b)" and "SetBufferStateTransition drv ctx b m s = Inr s'"
  shows "cb_stream s' = None"
  using assms by (auto simp: SetBufferStateTransition_def relocate_if_required_def and_then_Inr_iff in_state_def cb_stream_put)

section \<open>Examples\<close>

definition example_recording :: recording where
  "example_recording = (\<lparr>m_vk_command_buffer = 77, m_resource_buffer_per_stage_array = [], m_resource_buffer_mapped_address = 0x4000,
    resource_memory = replicate 120 ResourceBuffer_SetDefaults, m_vk_resource_buffer_memory = 78, m_vk_resource_buffer = 79,
    m_vk_resource_buffer_address = 0x100000, m_color_targets = replicate 8 0, m_depth_stencil_target = 0, m_vk_clear_color = (0, 0, 0, 0),
    m_vk_clear_depth_stencil = (0, 0), m_is_rendering = False, m_are_new_targets = False, m_need_resource_update = replicate 6 False,
    m_resource_update_count = 0, m_render_width = 640, m_render_height = 480, m_fast_clear_color = False, m_fast_clear_depth_stencil = False\<rparr>,
    \<lparr>calls = [], pools = (\<lambda>_. blank_pool), buffers = (\<lambda>_. blank_buffer),
     textures = (\<lambda>_. \<lparr>m_vk_image = 3, t_bound_memory_pool = 0, m_vk_image_layout = 0, m_import = False, t_requires_relocation = False\<rparr>),
     views = (\<lambda>_. \<lparr>m_texture = 0x80, m_vk_target_image_view = 4\<rparr>)\<rparr>)"

lemma example_begin_draw:
  "case CommandBuffer_Begin steady_driver example_recording of Inl e \<Rightarrow> False | Inr s1 \<Rightarrow>
    (case Draw steady_driver 3 3 0 s1 of Inl e \<Rightarrow> False | Inr s2 \<Rightarrow> m_is_rendering (fst s2))"
  by code_simp

theorem command_stream_witness:
  "\<exists>s. (cmd_step steady_driver example_context)\<^sup>*\<^sup>* example_recording s \<and> cb_stream s = Some Rendering"
proof -
  obtain s1 s2 where e: "CommandBuffer_Begin steady_driver example_recording = Inr s1" "Draw steady_driver 3 3 0 s1 = Inr s2" "m_is_rendering (fst s2)"
    using example_begin_draw by (simp only: split: sum.splits)
  have i: "in_state Initial example_recording" by (simp add: in_state_def cb_stream_def example_recording_def)
  have "cmd_step steady_driver example_context example_recording s1"
    by (rule cmd_step.intros [of OpBegin]) (use e(1) i in \<open>simp_all add: in_state_def\<close>)
  moreover have "in_state Recording s1" using in_state_CommandBuffer(1) [OF i e(1)] .
  then have "cmd_step steady_driver example_context s1 s2"
    by (intro cmd_step.intros [of "OpDraw 3 3 0"]) (use e(2) in \<open>simp_all add: in_state_def\<close>)
  ultimately have s: "(cmd_step steady_driver example_context)\<^sup>*\<^sup>* example_recording s2" by simp
  from command_stream [OF s [unfolded example_recording_def]] s e(3) show ?thesis by (auto simp del: split_paired_Ex)
qed

end
