(* ===== verification/Vk_Draw_Resources.thy ===== *)
theory Vk_Draw_Resources
  imports Vk_Command_Props
begin

text \<open>
  The resources of the shader stages through a recording: what \<open>SetUniformBuffer\<close>, \<open>SetStorageBuffer\<close> and \<open>SetTextureAndSampler\<close> set, how
  \<open>UpdateResourceBufferIfNecessary\<close> copies it to mapped memory before a draw, and that what one draw reads is not overwritten
  for a later one. At the end, the dynamic state of a pipeline and the calls that set it.
\<close>

section \<open>What a stage reads\<close>

text \<open>The address that was last pushed for a stage, since the recording was begun.\<close>

fun pushed_step :: "u64 \<Rightarrow> u32 \<Rightarrow> vk_call \<times> vk_answer \<Rightarrow> u64 option \<Rightarrow> u64 option" where
  "pushed_step h stage (vkCmd h' (vkCmdPushConstants stage' offset address), a) p = (if h' = h \<and> stage' = stage then Some address else p)"
| "pushed_step h stage (vkBeginCommandBuffer h', a) p = (if h' = h then None else p)"
| "pushed_step h stage e p = p"

definition pushed :: "u32 \<Rightarrow> recording \<Rightarrow> u64 option" where
  "pushed stage s = fold (pushed_step (m_vk_command_buffer (fst s)) stage) (calls (snd s)) None"

abbreviation resources :: "recording \<Rightarrow> ResourceBuffer list" where
  "resources s \<equiv> m_resource_buffer_per_stage_array (fst s)"

abbreviation update_count :: "recording \<Rightarrow> nat" where
  "update_count s \<equiv> unat (m_resource_update_count (fst s))"

text \<open>Where the address lies that belongs to the \<open>k\<close>-th piece of the mapped memory.\<close>

definition slot_address :: "recording \<Rightarrow> nat \<Rightarrow> u64" where
  "slot_address s k = m_vk_resource_buffer_address (fst s) + of_nat (sizeof_ResourceBuffer * k)"

definition stage_stored :: "recording \<Rightarrow> nat \<Rightarrow> u32 \<Rightarrow> bool" where
  "stage_stored s i stage \<longleftrightarrow> (\<exists>k<update_count s. pushed stage s = Some (slot_address s k) \<and> resource_memory (fst s) ! k = resources s ! i)"

definition stage_ok :: "recording \<Rightarrow> nat \<Rightarrow> u32 \<Rightarrow> bool" where
  "stage_ok s i stage \<longleftrightarrow> m_need_resource_update (fst s) ! i \<or> resources s ! i = ResourceBuffer_SetDefaults \<and> pushed stage s = None \<or> stage_stored s i stage"

definition sizes_ok :: "recording \<Rightarrow> bool" where
  "sizes_ok s \<longleftrightarrow> length (resources s) = TargetShaderStages \<and> length (m_need_resource_update (fst s)) = TargetShaderStages \<and>
    length (resource_memory (fst s)) < 2 ^ 32 \<and> update_count s \<le> length (resource_memory (fst s))"

definition resources_ok :: "recording \<Rightarrow> bool" where
  "resources_ok s \<longleftrightarrow> sizes_ok s \<and> (\<forall>(i, stage, offset)\<in>set resource_stages. stage_ok s i stage)"

text \<open>Logs only grow.\<close>

definition extends :: "vk_log \<Rightarrow> vk_log \<Rightarrow> bool" where
  "extends w w' \<longleftrightarrow> (\<exists>l. w' = w @ l)"

lemma extends_refl [simp]: "extends w w" and extends_append [simp]: "extends w (w @ l)"
  by (auto simp: extends_def)

lemma extends_trans: "extends u v \<Longrightarrow> extends v w \<Longrightarrow> extends u w"
  by (auto simp: extends_def)

text \<open>What the invariant reads of a recording, and what it does not.\<close>

definition same_resources :: "recording \<Rightarrow> recording \<Rightarrow> bool" where
  "same_resources s s' \<longleftrightarrow> m_vk_command_buffer (fst s') = m_vk_command_buffer (fst s) \<and>
    resources s' = resources s \<and> m_need_resource_update (fst s') = m_need_resource_update (fst s) \<and>
    resource_memory (fst s') = resource_memory (fst s) \<and> m_resource_update_count (fst s') = m_resource_update_count (fst s) \<and>
    m_vk_resource_buffer_address (fst s') = m_vk_resource_buffer_address (fst s) \<and>
    m_resource_buffer_mapped_address (fst s') = m_resource_buffer_mapped_address (fst s) \<and> extends (calls (snd s)) (calls (snd s')) \<and>
    (\<forall>stage. pushed stage s' = pushed stage s)"

lemma same_resources_refl [simp]: "same_resources s s"
  by (simp add: same_resources_def)

lemma same_resources_trans: "same_resources s t \<Longrightarrow> same_resources t u \<Longrightarrow> same_resources s u"
  by (auto simp: same_resources_def intro: extends_trans)

lemma same_resources_ok: "same_resources s s' \<Longrightarrow> resources_ok s \<Longrightarrow> resources_ok s'"
  by (simp add: same_resources_def resources_ok_def sizes_ok_def stage_ok_def stage_stored_def slot_address_def)

fun is_push :: "vk_cmd \<Rightarrow> bool" where
  "is_push (vkCmdPushConstants stage offset address) = True"
| "is_push c = False"

lemma pushed_put_other: "\<not> is_push c \<Longrightarrow> pushed stage (put drv c s) = pushed stage s"
  by (cases c) (simp_all add: pushed_def put_calls)

lemma pushed_put: "pushed stage (put drv (vkCmdPushConstants stage' f a) s) = (if stage' = stage then Some a else pushed stage s)"
  by (simp add: pushed_def put_calls)

lemma same_resources_put: "\<not> is_push c \<Longrightarrow> same_resources s (put drv c s)"
  by (simp add: same_resources_def pushed_put_other) (simp add: put_calls)

lemma same_resources_put_all: "same_resources s (put_all drv cs s)"
proof (induction cs arbitrary: s)
  case (Cons c cs)
  have "same_resources s (put drv (vkCmdSet c) s)" by (rule same_resources_put) simp
  with Cons.IH [of "put drv (vkCmdSet c) s"] show ?case using same_resources_trans by (fastforce simp: put_all_def)
qed (simp add: put_all_def)

text \<open>Fields that the resources do not depend on.\<close>

lemma same_resources_fields:
  "same_resources s ((fst s)\<lparr>m_is_rendering := r\<rparr>, snd s)" "same_resources s ((fst s)\<lparr>m_are_new_targets := r\<rparr>, snd s)"
  "same_resources s (RegisterFastClearColor cc s)" "same_resources s (RegisterFastClearDepthStencil dc s)" "same_resources s (SetRenderDimensions x y s)"
  "SetRenderTargets n ts d s = Inr s' \<Longrightarrow> same_resources s s'"
  by (auto simp: same_resources_def pushed_def RegisterFastClearColor_def RegisterFastClearDepthStencil_def SetRenderDimensions_def
      SetRenderTargets_def Let_def and_then_Inr_iff split: if_splits)

lemma same_resources_End: "same_resources s (EndRenderingIfRendering drv s)"
  using same_resources_trans [OF same_resources_fields(1) [of s False] same_resources_put [of vkCmdEndRendering]]
  by (simp add: EndRenderingIfRendering_def)

lemma same_resources_start: "same_resources s (start_rendering drv s)"
  by (cases s) (simp add: start_rendering_def same_resources_def pushed_def put_def tell_eq)

lemma same_resources_BeginRendering: "same_resources s (BeginRenderingIfNotRendering drv s)"
  using same_resources_trans [OF same_resources_trans [OF same_resources_fields(2) [of s False] same_resources_End] same_resources_start]
    same_resources_start
  by (simp add: BeginRenderingIfNotRendering_def)

lemma Buffer_Relocate_pushed:
  assumes "Buffer_Relocate drv ctx h b p l = Inr (b', p', l')"
  shows "fold (pushed_step h' stage) l' None = fold (pushed_step h' stage) l None" and "extends l l'"
  using assms by (auto simp: Buffer_Relocate_def RelocateHostMemoryToDevice_def staging_buffer_def vk_simps Let_def split: if_splits)

lemma same_resources_relocate:
  assumes "relocate_if_required drv ctx a s = Inr s'"
  shows "same_resources s s'"
proof (cases "b_requires_relocation (buffers (snd s) a)")
  case True
  obtain cb w where e: "EndRenderingIfRendering drv s = (cb, w)" by fastforce
  obtain b p l where l: "Buffer_Relocate drv ctx (m_vk_command_buffer cb) (buffers w a) (pools w (b_bound_memory_pool (buffers w a))) (calls w) = Inr (b, p, l)"
      "s' = (cb, w\<lparr>calls := l, buffers := (buffers w)(a := b), pools := (pools w)(b_bound_memory_pool (buffers w a) := p)\<rparr>)"
    using assms True e by (auto simp: relocate_if_required_def and_then_Inr_iff Let_def)
  have "same_resources (cb, w) s'" using Buffer_Relocate_pushed [OF l(1)] by (simp add: l(2) same_resources_def pushed_def)
  then show ?thesis using same_resources_trans same_resources_End [of s drv] e by metis
qed (use assms in \<open>auto simp: relocate_if_required_def and_then_Inr_iff\<close>)

lemma same_resources_SetTexture:
  assumes "SetTextureStateTransition drv t m a s = Inr s'"
  shows "same_resources s s'"
proof -
  let ?s = "if dstStageMask (barrier_masks m) = VK_PIPELINE_STAGE_BOTTOM_OF_PIPE_BIT then EndRenderingIfRendering drv s else s"
  let ?c = "vkCmdPipelineBarrier2_image (m_vk_image (textures (snd ?s) t)) (barrier_masks m) (vk_src_layout m) (vk_dst_layout m) a"
  have "same_resources s ?s" by (simp add: same_resources_End)
  then have "same_resources s (put drv ?c ?s)" by (rule same_resources_trans) (rule same_resources_put, simp)
  moreover obtain cb w where p: "put drv ?c ?s = (cb, w)" by fastforce
  moreover have "same_resources (cb, w) s'"
    using assms p by (auto simp: SetTextureStateTransition_def Let_def and_then_Inr_iff same_resources_def pushed_def)
  ultimately show ?thesis using same_resources_trans by metis
qed

section \<open>The operations\<close>

fun is_draw :: "cmd_op \<Rightarrow> bool" where
  "is_draw (OpDraw t n b) = True"
| "is_draw (OpDrawIndexed t f i n b) = True"
| "is_draw (OpDrawInstanced t n b k j) = True"
| "is_draw (OpDrawInstancedIndexed t f i n b k j) = True"
| "is_draw x = False"

fun sets_resource :: "cmd_op \<Rightarrow> bool" where
  "sets_resource (OpUniformBuffer l st a) = True"
| "sets_resource (OpStorageBuffer l st a) = True"
| "sets_resource (OpTextureAndSampler l st t k) = True"
| "sets_resource x = False"

lemma same_resources_Clear:
  shows "ClearColorTarget drv t c r s = Inr s' \<Longrightarrow> same_resources s s'" and "ClearDepthStencilTarget drv t c r s = Inr s' \<Longrightarrow> same_resources s s'"
proof -
  have p: "\<not> is_push x \<Longrightarrow> SetTextureStateTransition drv u m a (put drv x (EndRenderingIfRendering drv s)) = Inr s' \<Longrightarrow> same_resources s s'" for x u m a
    using same_resources_trans [OF same_resources_trans [OF same_resources_End same_resources_put] same_resources_SetTexture] .
  show "ClearColorTarget drv t c r s = Inr s' \<Longrightarrow> same_resources s s'" and "ClearDepthStencilTarget drv t c r s = Inr s' \<Longrightarrow> same_resources s s'"
    by (auto simp: ClearColorTarget_def ClearDepthStencilTarget_def Let_def and_then_Inr_iff dest!: p [rotated])
qed

lemma same_resources_SetPipelineState:
  shows "SetColorBlendState drv cs s = Inr s' \<Longrightarrow> same_resources s s'" and "SetVertexState drv vs s = Inr s' \<Longrightarrow> same_resources s s'"
    and "SetPipelineState drv ps s = Inr s' \<Longrightarrow> same_resources s s'"
proof -
  have c: "SetColorBlendState drv cs u = Inr u' \<Longrightarrow> same_resources u u'" and v: "SetVertexState drv vs u = Inr u' \<Longrightarrow> same_resources u u'" for cs vs u u'
    by (auto simp: SetColorBlendState_def SetVertexState_def and_then_Inr_iff intro: same_resources_put_all)
  show "SetColorBlendState drv cs s = Inr s' \<Longrightarrow> same_resources s s'" and "SetVertexState drv vs s = Inr s' \<Longrightarrow> same_resources s s'" by (fact c, fact v)
  assume "SetPipelineState drv ps s = Inr s'"
  then obtain u ds rs where u: "SetColorBlendState drv (color_blend_state ps) s = Inr u"
      "SetVertexState drv (vertex_state ps) (put_all drv rs (put_all drv ds u)) = Inr s'"
    by (auto simp: SetPipelineState_def SetDepthStencilState_def SetRasterizerState_def Let_def and_then_Inr_iff simp del: split_paired_Ex)
  show "same_resources s s'"
    using same_resources_trans [OF c [OF u(1)] same_resources_trans [OF same_resources_put_all same_resources_trans [OF same_resources_put_all v [OF u(2)]]]] .
qed

lemma same_resources_CommandBuffer_End: "CommandBuffer_End drv s = Inr s' \<Longrightarrow> same_resources s s'"
proof -
  obtain cb w where e: "EndRenderingIfRendering drv s = (cb, w)" by fastforce
  assume "CommandBuffer_End drv s = Inr s'"
  then have "same_resources (cb, w) s'" by (auto simp: CommandBuffer_End_def e vk_simps same_resources_def pushed_def)
  then show ?thesis using same_resources_trans same_resources_End [of s drv] e by metis
qed

lemma same_resources_relocate_put: "relocate_if_required drv ctx a s = Inr u \<Longrightarrow> \<not> is_push c \<Longrightarrow> same_resources s (put drv c u)"
  using same_resources_trans [OF same_resources_relocate same_resources_put] .

lemma same_resources_op:
  assumes "run_op drv ctx x s = Inr s'" and "\<not> is_draw x" and "\<not> sets_resource x" and "x \<noteq> OpBegin"
  shows "same_resources s s'"
  using assms
  by (cases x) (auto simp: SetShader_def SetDepthStencilState_def SetRasterizerState_def SetViewports_def SetScissors_def SetViewportScissors_def
      SetDescriptorPool_def SetVertexBuffer_def SetBufferStateTransition_def and_then_Inr_iff simp del: split_paired_Ex split: if_splits
      intro: same_resources_fields same_resources_put same_resources_put_all same_resources_Clear same_resources_SetPipelineState
      same_resources_CommandBuffer_End same_resources_SetTexture same_resources_relocate_put)

lemma draw_op:
  assumes "run_op drv ctx x s = Inr s'" and "is_draw x"
  obtains u v where "same_resources s u" "UpdateResourceBufferIfNecessary drv u = Inr v" "same_resources v s'"
proof -
  have "\<exists>u v. same_resources s u \<and> UpdateResourceBufferIfNecessary drv u = Inr v \<and> same_resources v s'"
  proof -
    note t = same_resources_trans [OF same_resources_trans [OF same_resources_BeginRendering same_resources_put] same_resources_put]
    note t3 = same_resources_trans [OF t same_resources_put]
    show ?thesis
      using assms by (cases x) (auto simp: Draw_def DrawInstanced_def DrawIndexed_def DrawInstancedIndexed_def Let_def and_then_Inr_iff
          simp del: split_paired_Ex intro!: t t3 dest!: same_resources_relocate, (metis same_resources_refl t is_push.simps t3)+)
  qed
  then show ?thesis using that by blast
qed

section \<open>Updates\<close>

text \<open>Pieces of the mapped memory that were written since the recording was begun are not written again.\<close>

definition kept :: "recording \<Rightarrow> recording \<Rightarrow> bool" where
  "kept s s' \<longleftrightarrow> m_vk_command_buffer (fst s') = m_vk_command_buffer (fst s) \<and>
    m_vk_resource_buffer_address (fst s') = m_vk_resource_buffer_address (fst s) \<and>
    m_resource_buffer_mapped_address (fst s') = m_resource_buffer_mapped_address (fst s) \<and> extends (calls (snd s)) (calls (snd s')) \<and>
    length (resource_memory (fst s')) = length (resource_memory (fst s)) \<and> update_count s \<le> update_count s' \<and>
    (\<forall>k<update_count s. resource_memory (fst s') ! k = resource_memory (fst s) ! k)"

lemma kept_refl [simp]: "kept s s" by (simp add: kept_def)

lemma kept_trans: "kept s t \<Longrightarrow> kept t u \<Longrightarrow> kept s u" by (auto simp: kept_def intro: extends_trans)

lemma same_resources_kept: "same_resources s s' \<Longrightarrow> kept s s'" by (simp add: kept_def same_resources_def)

lemma stage_stored_kept:
  assumes "stage_stored s i b" and "kept s s'" and "resources s' ! i = resources s ! i" and "pushed b s' = pushed b s"
  shows "stage_stored s' i b"
proof -
  obtain k where "k < update_count s" "pushed b s = Some (slot_address s k)" "resource_memory (fst s) ! k = resources s ! i"
    using assms(1) by (auto simp: stage_stored_def)
  then show ?thesis using assms(2-4) unfolding stage_stored_def by (intro exI [of _ k]) (auto simp: kept_def slot_address_def)
qed

lemma update_stage_Inr:
  assumes "update_stage drv (i, b, f) s = Inr s'" and "sizes_ok s" and "i < TargetShaderStages"
  shows "sizes_ok s'" and "kept s s'" and "resources s' = resources s" and "m_need_resource_update (fst s') = (m_need_resource_update (fst s))[i := False]"
    and "update_count s' \<le> update_count s + 1"
    and "b' \<noteq> b \<Longrightarrow> pushed b' s' = pushed b' s" and "stage_ok s i b \<Longrightarrow> stage_ok s' i b"
proof -
  let ?n = "m_resource_update_count (fst s)"
  have "s' = s \<and> (m_need_resource_update (fst s))[i := False] = m_need_resource_update (fst s) \<or>
    (unat ?n < length (resource_memory (fst s)) \<and> unat (?n + 1) = unat ?n + 1 \<and> sizes_ok s' \<and> stage_stored s' i b)
      \<and> kept s s' \<and> resources s' = resources s \<and> m_need_resource_update (fst s') = (m_need_resource_update (fst s))[i := False] \<and>
      m_resource_update_count (fst s') = ?n + 1 \<and> (\<forall>b'. b' \<noteq> b \<longrightarrow> pushed b' s' = pushed b' s)" (is "?A \<or> ?B")
  proof (cases "m_need_resource_update (fst s) ! i")
    case True
    let ?cb = "(fst s)\<lparr>resource_memory := (resource_memory (fst s))[unat ?n := resources s ! i]\<rparr>"
    let ?p = "put drv (vkCmdPushConstants b f (slot_address s (unat ?n))) (?cb, snd s)"
    have n: "unat ?n < length (resource_memory (fst s))"
      and s': "s' = ((fst ?p)\<lparr>m_resource_update_count := ?n + 1, m_need_resource_update := (m_need_resource_update (fst s))[i := False]\<rparr>, snd ?p)"
      using assms(1) True by (auto simp: update_stage_def Let_def put_def slot_address_def split: prod.splits if_splits)
    have u: "unat (?n + 1) = unat ?n + 1" using n assms(2) by (simp add: sizes_ok_def unat_word_ariths)
    have p: "pushed b' s' = pushed b' ?p" for b' by (simp add: s' pushed_def)
    have p': "pushed b' s' = (if b = b' then Some (slot_address s (unat ?n)) else pushed b' s)" for b'
      unfolding p pushed_put by (simp add: pushed_def)
    have "stage_stored s' i b"
      unfolding stage_stored_def using n u p' [of b] by (intro exI [of _ "unat ?n"]) (simp add: s' slot_address_def)
    moreover have "sizes_ok s'" using assms(2) n u by (simp add: sizes_ok_def s')
    ultimately have ?B using n u p' by (simp add: s' kept_def put_calls)
    then show ?thesis by blast
  next
    case False
    then have ?A using assms by (cases s) (auto simp: update_stage_def sizes_ok_def list_update_same_conv)
    then show ?thesis by blast
  qed
  then show "sizes_ok s'" "kept s s'" "resources s' = resources s" "m_need_resource_update (fst s') = (m_need_resource_update (fst s))[i := False]"
      "update_count s' \<le> update_count s + 1" "b' \<noteq> b \<Longrightarrow> pushed b' s' = pushed b' s" "stage_ok s i b \<Longrightarrow> stage_ok s' i b"
    using assms(2) by (auto simp: stage_ok_def)
qed

lemma resource_stages_distinct:
  assumes "(i, b, f) \<in> set resource_stages" and "(j, c, g) \<in> set resource_stages"
  shows "i = j \<longleftrightarrow> b = c" and "i < TargetShaderStages"
  using assms by (auto simp: resource_stages_def TargetShaderStages_def VK_SHADER_STAGE_VERTEX_BIT_def VK_SHADER_STAGE_TESSELLATION_CONTROL_BIT_def
    VK_SHADER_STAGE_TESSELLATION_EVALUATION_BIT_def VK_SHADER_STAGE_GEOMETRY_BIT_def VK_SHADER_STAGE_FRAGMENT_BIT_def VK_SHADER_STAGE_COMPUTE_BIT_def)

lemma update_stage_ok:
  assumes "update_stage drv x s = Inr s'" and "resources_ok s" and "x \<in> set resource_stages"
  shows "resources_ok s' \<and> kept s s' \<and> resources s' = resources s \<and> m_need_resource_update (fst s') = (m_need_resource_update (fst s))[fst x := False] \<and>
    update_count s' \<le> update_count s + 1"
proof -
  obtain i b f where x: "x = (i, b, f)" by (cases x)
  have "sizes_ok s" using assms(2) by (simp add: resources_ok_def)
  note u = update_stage_Inr [OF assms(1) [unfolded x] this resource_stages_distinct(2) [OF assms(3) [unfolded x] assms(3) [unfolded x]]]
  have "stage_ok s' j c" if "(j, c, g) \<in> set resource_stages" for j c g
  proof (cases "j = i")
    case True
    then have "c = b" using resource_stages_distinct(1) [OF that assms(3) [unfolded x]] by simp
    then show ?thesis using u(7) True that assms(2) by (auto simp: resources_ok_def)
  next
    case False
    then have "c \<noteq> b" using resource_stages_distinct(1) [OF that assms(3) [unfolded x]] by simp
    note p = u(6) [OF this]
    have "stage_ok s j c" using assms(2) that by (auto simp: resources_ok_def)
    then show ?thesis using stage_stored_kept [OF _ u(2) _ p] u(3,4) p False by (auto simp: stage_ok_def)
  qed
  then show ?thesis using u(1-5) x by (auto simp: resources_ok_def)
qed

lemma update_stages_ok:
  assumes "update_stages drv xs s = Inr s'" and "resources_ok s" and "set xs \<subseteq> set resource_stages"
  shows "resources_ok s' \<and> kept s s' \<and> resources s' = resources s \<and> (\<forall>x\<in>set xs. \<not> m_need_resource_update (fst s') ! fst x) \<and>
    (\<forall>j<TargetShaderStages. \<not> m_need_resource_update (fst s) ! j \<longrightarrow> \<not> m_need_resource_update (fst s') ! j) \<and> update_count s' \<le> update_count s + length xs"
  using assms
proof (induction xs arbitrary: s)
  case (Cons x xs)
  then obtain u where u: "update_stage drv x s = Inr u" "update_stages drv xs u = Inr s'" by (auto simp: and_then_Inr_iff simp del: split_paired_Ex)
  have x: "x \<in> set resource_stages" using Cons.prems(3) by simp
  have i: "fst x < TargetShaderStages" using resource_stages_distinct(2) [of "fst x"] x by (cases x) auto
  note a = update_stage_ok [OF u(1) Cons.prems(2) x]
  have l: "length (m_need_resource_update (fst s)) = TargetShaderStages" using Cons.prems(2) by (simp add: resources_ok_def sizes_ok_def)
  have "resources_ok u" "set xs \<subseteq> set resource_stages" using a Cons.prems(3) by auto
  note b = Cons.IH [OF u(2) this]
  have "kept s s'" using a b kept_trans by blast
  moreover have n: "\<forall>j<TargetShaderStages. \<not> m_need_resource_update (fst u) ! j \<longrightarrow> \<not> m_need_resource_update (fst s') ! j" using b by blast
  moreover have "\<not> m_need_resource_update (fst u) ! fst x" using a l i by simp
  moreover have "\<forall>j<TargetShaderStages. \<not> m_need_resource_update (fst s) ! j \<longrightarrow> \<not> m_need_resource_update (fst u) ! j"
    using a l i by (auto simp: nth_list_update)
  ultimately show ?case using a b i by (auto simp del: split_paired_All split_paired_Ex)
qed simp

lemma Update_ok:
  assumes "UpdateResourceBufferIfNecessary drv s = Inr s'" and "resources_ok s"
  shows "resources_ok s' \<and> kept s s' \<and> resources s' = resources s \<and> (\<forall>x\<in>set resource_stages. \<not> m_need_resource_update (fst s') ! fst x) \<and>
    update_count s' \<le> update_count s + length resource_stages"
  using assms update_stages_ok [of drv resource_stages s s'] by (auto simp: UpdateResourceBufferIfNecessary_def and_then_Inr_iff simp del: split_paired_All)

section \<open>Recordings\<close>

lemma change_resource_ok:
  assumes "resources_ok s" and "stage_index st < TargetShaderStages"
  shows "resources_ok (change_resource st g s)" "kept s (change_resource st g s)"
proof -
  let ?s = "change_resource st g s" and ?i = "stage_index st"
  show k: "kept s ?s" by (simp add: kept_def change_resource_def Let_def)
  have l: "length (m_need_resource_update (fst s)) = TargetShaderStages" using assms(1) by (simp add: resources_ok_def sizes_ok_def)
  have p: "pushed b ?s = pushed b s" for b by (simp add: pushed_def change_resource_def Let_def)
  have "stage_ok ?s j b" if "(j, b, f) \<in> set resource_stages" for j b f
  proof (cases "j = ?i")
    case True
    then show ?thesis using l assms(2) by (simp add: stage_ok_def change_resource_def Let_def)
  next
    case False
    then have r: "resources ?s ! j = resources s ! j" "m_need_resource_update (fst ?s) ! j = m_need_resource_update (fst s) ! j"
      by (simp_all add: change_resource_def Let_def)
    have "stage_ok s j b" using assms(1) that by (auto simp: resources_ok_def)
    then show ?thesis using stage_stored_kept [OF _ k r(1) p] r p by (auto simp: stage_ok_def)
  qed
  moreover have "sizes_ok ?s" using assms(1) by (simp add: resources_ok_def sizes_ok_def change_resource_def Let_def)
  ultimately show "resources_ok ?s" by (auto simp: resources_ok_def)
qed

lemma sets_resource_op:
  assumes "run_op drv ctx x s = Inr s'" and "sets_resource x" and "resources_ok s"
  obtains "s' = s" | st g where "s' = change_resource st g s" "stage_index st < TargetShaderStages"
proof -
  have l: "length (resources s) = TargetShaderStages" using assms(3) by (simp add: resources_ok_def sizes_ok_def)
  have "s' = s \<or> (\<exists>st g. s' = change_resource st g s \<and> stage_index st < TargetShaderStages)"
    using assms(1,2) l
    by (cases x) (auto simp: SetUniformBuffer_def SetStorageBuffer_def SetTextureAndSampler_def stage_resources_def and_then_Inr_iff Let_def
        split: if_splits)
  then show ?thesis using that by blast
qed

lemma change_resource_count [simp]: "m_resource_update_count (fst (change_resource st g s)) = m_resource_update_count (fst s)"
  by (simp add: change_resource_def Let_def)

lemma run_op_ok:
  assumes "run_op drv ctx x s = Inr s'" and "resources_ok s" and "x \<noteq> OpBegin"
  shows "resources_ok s' \<and> kept s s' \<and> update_count s' \<le> update_count s + (if is_draw x then length resource_stages else 0)"
proof (cases "is_draw x")
  case True
  obtain u v where u: "same_resources s u" "UpdateResourceBufferIfNecessary drv u = Inr v" "same_resources v s'"
    using draw_op [OF assms(1) True] by blast
  note o = same_resources_ok [OF u(1) assms(2)]
  have "resources_ok s'" "kept s s'" "update_count s' \<le> update_count s + length resource_stages"
    using Update_ok [OF u(2) o] same_resources_ok [OF u(3)] same_resources_kept [OF u(1)] same_resources_kept [OF u(3)]
      u(1,3) kept_trans by (blast, blast, simp add: same_resources_def)
  then show ?thesis using True by simp
next
  case d: False
  show ?thesis
  proof (cases "sets_resource x")
    case True
    from sets_resource_op [OF assms(1) True assms(2)] change_resource_ok [OF assms(2)] assms(2) d show ?thesis
      by (metis change_resource_count kept_refl le_add1 add_0_right order_refl)
  next
    case False
    note e = same_resources_op [OF assms(1) d False assms(3)]
    show ?thesis using same_resources_ok [OF e assms(2)] same_resources_kept [OF e] e by (simp add: same_resources_def)
  qed
qed

lemma run_ops_ok:
  assumes "run_ops drv ctx xs s = Inr s'" and "resources_ok s" and "OpBegin \<notin> set xs"
  shows "resources_ok s' \<and> kept s s' \<and> update_count s' \<le> update_count s + length resource_stages * length (filter is_draw xs)"
  using assms
proof (induction xs arbitrary: s)
  case (Cons x xs)
  then obtain u where u: "run_op drv ctx x s = Inr u" "run_ops drv ctx xs u = Inr s'" by (auto simp: and_then_Inr_iff simp del: split_paired_Ex)
  have "x \<noteq> OpBegin" "OpBegin \<notin> set xs" using Cons.prems(3) by auto
  note a = run_op_ok [OF u(1) Cons.prems(2) this(1)]
  note b = Cons.IH [OF u(2) _ \<open>OpBegin \<notin> set xs\<close>]
  have "kept s s'" using a b kept_trans by blast
  then show ?case using a b by (auto split: if_splits)
qed simp

lemma Begin_ok:
  assumes "CommandBuffer_Begin drv s = Inr s'" and "length (m_need_resource_update (fst s)) = TargetShaderStages"
    and "length (resource_memory (fst s)) < 2 ^ 32"
  shows "resources_ok s'" and "update_count s' = 0" and "kept s' s'"
    and "length (resource_memory (fst s')) = length (resource_memory (fst s))" "m_resource_buffer_mapped_address (fst s') = m_resource_buffer_mapped_address (fst s)"
proof -
  obtain cb w l where s: "s = (cb, w)" "s' = (cb\<lparr>m_resource_buffer_per_stage_array := replicate TargetShaderStages ResourceBuffer_SetDefaults,
      m_resource_update_count := 0\<rparr>, w\<lparr>calls := calls w @ [(vkBeginCommandBuffer (m_vk_command_buffer cb), l)]\<rparr>)"
    using assms(1) by (cases s) (auto simp: CommandBuffer_Begin_def vk_simps)
  have "stage_ok s' i b" if "(i, b, f) \<in> set resource_stages" for i b f
    using resource_stages_distinct(2) [OF that that] by (simp add: stage_ok_def s pushed_def)
  moreover have "sizes_ok s'" using assms(2,3) by (simp add: sizes_ok_def s)
  ultimately show "resources_ok s'" by (auto simp: resources_ok_def)
qed (use assms(1) in \<open>auto simp: CommandBuffer_Begin_def vk_simps split: prod.splits\<close>)

text \<open>
  C9. At every draw, and for every stage that has resources set, the address that is pushed for the stage points to a copy of the resources
  as they were set; and the copy is still there when the rest of the commands is recorded, so the draw finds it when the command buffer
  is executed.
\<close>

theorem draw_sees_resources:
  assumes "CommandBuffer_Begin drv s0 = Inr s1" and "length (m_need_resource_update (fst s0)) = TargetShaderStages"
    and "length (resource_memory (fst s0)) < 2 ^ 32"
    and "run_ops drv ctx before s1 = Inr s2" and "run_op drv ctx d s2 = Inr s3" and "is_draw d" and "run_ops drv ctx after s3 = Inr s4"
    and "OpBegin \<notin> set before" and "OpBegin \<notin> set after"
    and "(i, stage, offset) \<in> set resource_stages" and "m_resource_buffer_per_stage_array (fst s2) ! i \<noteq> ResourceBuffer_SetDefaults"
  shows "\<exists>k<length (resource_memory (fst s4)). pushed stage s3 = Some (m_vk_resource_buffer_address (fst s4) + of_nat (sizeof_ResourceBuffer * k)) \<and>
    resource_memory (fst s4) ! k = m_resource_buffer_per_stage_array (fst s2) ! i"
proof -
  have 2: "resources_ok s2" using run_ops_ok [OF assms(4) Begin_ok(1) [OF assms(1-3)] assms(8)] by blast
  obtain u v where u: "same_resources s2 u" "UpdateResourceBufferIfNecessary drv u = Inr v" "same_resources v s3"
    using draw_op [OF assms(5,6)] by blast
  note v = Update_ok [OF u(2) same_resources_ok [OF u(1) 2]]
  have r: "resources s3 = resources s2" using u(1,3) v by (simp add: same_resources_def)
  have 3: "resources_ok s3" using same_resources_ok [OF u(3)] v by blast
  have "\<not> m_need_resource_update (fst s3) ! i" using v u(3) assms(10) by (fastforce simp: same_resources_def)
  then have "stage_stored s3 i stage" using 3 assms(10,11) r by (auto simp: resources_ok_def stage_ok_def)
  then obtain k where k: "k < update_count s3" "pushed stage s3 = Some (slot_address s3 k)" "resource_memory (fst s3) ! k = resources s2 ! i"
    using r by (auto simp: stage_stored_def)
  have "kept s3 s4" using run_ops_ok [OF assms(7) 3 assms(9)] by blast
  then show ?thesis
    using k 3 by (intro exI [of _ k]) (auto simp: kept_def slot_address_def resources_ok_def sizes_ok_def)
qed

section \<open>Enough memory\<close>

lemma update_stage_returns:
  assumes "update_count s < length (resource_memory (fst s))"
  shows "\<exists>s'. update_stage drv x s = Inr s'"
  using assms by (cases s, cases x) (auto simp: update_stage_def Let_def put_def)

lemma update_stages_return:
  assumes "resources_ok s" and "update_count s + length xs \<le> length (resource_memory (fst s))" and "set xs \<subseteq> set resource_stages"
  shows "\<exists>s'. update_stages drv xs s = Inr s'"
  using assms
proof (induction xs arbitrary: s)
  case (Cons x xs)
  obtain u where u: "update_stage drv x s = Inr u" using update_stage_returns [of s drv x] Cons.prems(2) by auto
  have "x \<in> set resource_stages" using Cons.prems(3) by simp
  note a = update_stage_ok [OF u Cons.prems(1) this]
  have "update_count u + length xs \<le> length (resource_memory (fst u))" using a Cons.prems(2) by (auto simp: kept_def)
  then show ?case using Cons.IH [of u] a Cons.prems(3) u by auto
qed simp

lemma Update_returns:
  assumes "resources_ok s" and "update_count s + length resource_stages \<le> length (resource_memory (fst s))"
    and "m_resource_buffer_mapped_address (fst s) \<noteq> 0"
  shows "\<exists>s'. UpdateResourceBufferIfNecessary drv s = Inr s'"
  using update_stages_return [OF assms(1,2), of drv] assms(3) by (auto simp: UpdateResourceBufferIfNecessary_def Let_def)

text \<open>The index buffer an indexed draw relocates first, which may fail for reasons of its own.\<close>

fun relocate_index_buffer :: "vk_driver \<Rightarrow> vk_context \<Rightarrow> cmd_op \<Rightarrow> recording \<Rightarrow> recording outcome" where
  "relocate_index_buffer drv ctx (OpDrawIndexed t f i n b) s = relocate_if_required drv ctx i s"
| "relocate_index_buffer drv ctx (OpDrawInstancedIndexed t f i n b k j) s = relocate_if_required drv ctx i s"
| "relocate_index_buffer drv ctx _ s = Inr s"

lemma relocate_index_buffer_same:
  "relocate_index_buffer drv ctx op s = Inr s' \<Longrightarrow> same_resources s s'"
  by (cases op) (auto intro: same_resources_relocate)

lemma draw_returns:
  assumes "is_draw op" and "relocate_index_buffer drv ctx op s = Inr u" and "resources_ok s"
    and "update_count s + length resource_stages \<le> length (resource_memory (fst s))"
    and "m_resource_buffer_mapped_address (fst s) \<noteq> 0"
  shows "\<exists>s'. run_op drv ctx op s = Inr s'"
proof -
  note u = relocate_index_buffer_same [OF assms(2)]
  have "update_count u + length resource_stages \<le> length (resource_memory (fst u))"
    "m_resource_buffer_mapped_address (fst u) \<noteq> 0"
    using u assms(4,5) by (simp_all add: same_resources_def)
  then obtain v where "UpdateResourceBufferIfNecessary drv u = Inr v"
    using Update_returns [OF same_resources_ok [OF u assms(3)]] by blast
  then show ?thesis
    using assms(1,2) by (cases op) (simp_all add: Draw_def DrawInstanced_def DrawIndexed_def DrawInstancedIndexed_def Let_def)
qed

text \<open>A recording that stops does so at one of its operations.\<close>

lemma run_ops_stops:
  assumes "run_ops drv ctx ops s = Inl e"
  shows "\<exists>xs op ys s'. ops = xs @ op # ys \<and> run_ops drv ctx xs s = Inr s' \<and> run_op drv ctx op s' = Inl e"
  using assms
proof (induction ops arbitrary: s)
  case (Cons x xs)
  show ?case
  proof (cases "run_op drv ctx x s")
    case (Inl e')
    then show ?thesis using Cons.prems by (intro exI [of _ "[]"] exI [of _ x] exI [of _ xs] exI [of _ s]) simp
  next
    case (Inr u)
    then obtain as op bs s' where "xs = as @ op # bs" "run_ops drv ctx as u = Inr s'" "run_op drv ctx op s' = Inl e"
      using Cons.IH [of u] Cons.prems by auto
    then show ?thesis using Inr by (intro exI [of _ "x # as"] exI [of _ op] exI [of _ bs] exI [of _ s']) simp
  qed
qed simp

lemma sizeof_ResourceBuffer_eq [simp]: "sizeof_ResourceBuffer = 512"
  by (simp add: sizeof_ResourceBuffer_def TargetMaxPerStageUniformBufferCount_def TargetMaxPerStageStorageBufferCount_def
      TargetMaxPerStageTextureCount_def)

lemma TargetResourceBufferPerStageSize_eq: "TargetResourceBufferPerStageSize = 0xF000"
  by (simp add: TargetResourceBufferPerStageSize_def TargetMaxResourceUpdatesPerSubmission_def TargetConstantBufferAlignment_def AlignUp_def Let_def)

lemma draw_memory_pieces:
  assumes "unat stages * unat draws * TargetMaxResourceUpdatesPerSubmission < 2 ^ 32"
  shows "unat (GetDrawMemorySize stages draws) div sizeof_ResourceBuffer = unat stages * unat draws * TargetMaxResourceUpdatesPerSubmission"
proof -
  have "unat stages * unat draws \<le> unat stages * unat draws * TargetMaxResourceUpdatesPerSubmission"
    by (simp add: TargetMaxResourceUpdatesPerSubmission_def)
  with assms have a: "unat stages * unat draws < 2 ^ 32" by linarith
  have u: "unat (ucast (stages * draws) :: u64) = unat stages * unat draws"
    using a by (simp add: unat_ucast_up unat_word_ariths)
  have "unat (GetDrawMemorySize stages draws) = unat stages * unat draws * 0xF000"
    using assms u by (simp add: GetDrawMemorySize_def TargetResourceBufferPerStageSize_eq unat_word_ariths TargetMaxResourceUpdatesPerSubmission_def)
  then show ?thesis by (simp add: TargetMaxResourceUpdatesPerSubmission_def)
qed

text \<open>
  C24. A command buffer whose memory has the size \<open>GetDrawMemorySize\<close> computes for a number of draws can record that many draws, of any of
  the four kinds and whatever is set in between: the recording returns, or it stops at an operation that is no draw, or at an indexed draw
  whose index buffer cannot be relocated. No draw stops it by running out of the mapped memory.
\<close>

theorem draw_memory_enough:
  assumes "CommandBuffer_Begin drv s0 = Inr s1" and "length (m_need_resource_update (fst s0)) = TargetShaderStages"
    and "length (resource_memory (fst s0)) = unat (GetDrawMemorySize max_shader_stages max_draws) div sizeof_ResourceBuffer"
    and "m_resource_buffer_mapped_address (fst s0) \<noteq> 0"
    and "max_shader_stages \<noteq> 0" and "unat max_shader_stages * unat max_draws * TargetMaxResourceUpdatesPerSubmission < 2 ^ 32"
    and "OpBegin \<notin> set ops" and "length (filter is_draw ops) \<le> unat max_draws"
  shows "(\<exists>s2. run_ops drv ctx ops s1 = Inr s2) \<or>
    (\<exists>xs op ys s2 e. ops = xs @ op # ys \<and> run_ops drv ctx xs s1 = Inr s2 \<and> run_op drv ctx op s2 = Inl e \<and>
      (is_draw op \<longrightarrow> (\<exists>e'. relocate_index_buffer drv ctx op s2 = Inl e')))"
proof (cases "run_ops drv ctx ops s1")
  case (Inl e)
  then obtain xs op ys s2 where o: "ops = xs @ op # ys" "run_ops drv ctx xs s1 = Inr s2" "run_op drv ctx op s2 = Inl e"
    using run_ops_stops by blast
  let ?m = "unat max_shader_stages * unat max_draws * TargetMaxResourceUpdatesPerSubmission"
  have m: "length (resource_memory (fst s0)) = ?m" using assms(3) draw_memory_pieces [OF assms(6)] by simp
  have "length (resource_memory (fst s0)) < 2 ^ 32" using assms(6) m by simp
  note b = Begin_ok [OF assms(1,2) this]
  have "OpBegin \<notin> set xs" using assms(7) o(1) by simp
  note r = run_ops_ok [OF o(2) b(1) this]
  have "\<exists>e'. relocate_index_buffer drv ctx op s2 = Inl e'" if "is_draw op"
  proof (rule ccontr)
    assume "\<nexists>e'. relocate_index_buffer drv ctx op s2 = Inl e'"
    then obtain u where u: "relocate_index_buffer drv ctx op s2 = Inr u"
      by (cases "relocate_index_buffer drv ctx op s2") auto
    have "Suc (length (filter is_draw xs)) \<le> unat max_draws" using assms(8) o(1) that by simp
    then have "length resource_stages * length (filter is_draw xs) + length resource_stages \<le> unat max_draws * TargetMaxResourceUpdatesPerSubmission"
      by (simp add: resource_stages_def TargetMaxResourceUpdatesPerSubmission_def)
    also have "\<dots> \<le> ?m"
      using assms(5) by (metis mult.assoc mult_le_mono1 nat_mult_1 One_nat_def Suc_leI neq0_conv unat_eq_zero)
    finally have "length resource_stages * length (filter is_draw xs) + length resource_stages \<le> ?m" .
    moreover have "length (resource_memory (fst s2)) = ?m" "m_resource_buffer_mapped_address (fst s2) \<noteq> 0"
      using r b(4,5) m assms(4) by (auto simp: kept_def)
    ultimately have "\<exists>s'. run_op drv ctx op s2 = Inr s'"
      using draw_returns [OF that u] r b(2) by auto
    then show False using o(3) by auto
  qed
  then show ?thesis using o by blast
qed simp

section \<open>Dynamic state\<close>

text \<open>The dynamic state of a pipeline that a command sets.\<close>

fun state_name :: "vk_state \<Rightarrow> VkDynamicState" where
  "state_name (vkCmdSetLogicOpEnableEXT x) = VK_DYNAMIC_STATE_LOGIC_OP_ENABLE_EXT"
| "state_name (vkCmdSetLogicOpEXT x) = VK_DYNAMIC_STATE_LOGIC_OP_EXT"
| "state_name (vkCmdSetBlendConstants x) = VK_DYNAMIC_STATE_BLEND_CONSTANTS"
| "state_name (vkCmdSetColorBlendEnableEXT x) = VK_DYNAMIC_STATE_COLOR_BLEND_ENABLE_EXT"
| "state_name (vkCmdSetColorBlendEquationEXT x) = VK_DYNAMIC_STATE_COLOR_BLEND_EQUATION_EXT"
| "state_name (vkCmdSetColorWriteMaskEXT x) = VK_DYNAMIC_STATE_COLOR_WRITE_MASK_EXT"
| "state_name (vkCmdSetDepthTestEnable x) = VK_DYNAMIC_STATE_DEPTH_TEST_ENABLE"
| "state_name (vkCmdSetDepthWriteEnable x) = VK_DYNAMIC_STATE_DEPTH_WRITE_ENABLE"
| "state_name (vkCmdSetDepthBoundsTestEnable x) = VK_DYNAMIC_STATE_DEPTH_BOUNDS_TEST_ENABLE"
| "state_name (vkCmdSetDepthBounds x y) = VK_DYNAMIC_STATE_DEPTH_BOUNDS"
| "state_name (vkCmdSetDepthCompareOp x) = VK_DYNAMIC_STATE_DEPTH_COMPARE_OP"
| "state_name (vkCmdSetStencilTestEnable x) = VK_DYNAMIC_STATE_STENCIL_TEST_ENABLE"
| "state_name (vkCmdSetStencilCompareMask f x) = VK_DYNAMIC_STATE_STENCIL_COMPARE_MASK"
| "state_name (vkCmdSetStencilWriteMask f x) = VK_DYNAMIC_STATE_STENCIL_WRITE_MASK"
| "state_name (vkCmdSetStencilReference f x) = VK_DYNAMIC_STATE_STENCIL_REFERENCE"
| "state_name (vkCmdSetStencilOp f x) = VK_DYNAMIC_STATE_STENCIL_OP"
| "state_name (vkCmdSetRasterizerDiscardEnable x) = VK_DYNAMIC_STATE_RASTERIZER_DISCARD_ENABLE"
| "state_name (vkCmdSetPrimitiveRestartEnable x) = VK_DYNAMIC_STATE_PRIMITIVE_RESTART_ENABLE"
| "state_name (vkCmdSetDepthBiasEnable x) = VK_DYNAMIC_STATE_DEPTH_BIAS_ENABLE"
| "state_name (vkCmdSetDepthBias x y z) = VK_DYNAMIC_STATE_DEPTH_BIAS"
| "state_name (vkCmdSetLineWidth x) = VK_DYNAMIC_STATE_LINE_WIDTH"
| "state_name (vkCmdSetCullMode x) = VK_DYNAMIC_STATE_CULL_MODE"
| "state_name (vkCmdSetFrontFace x) = VK_DYNAMIC_STATE_FRONT_FACE"
| "state_name (vkCmdSetDepthClampEnableEXT x) = VK_DYNAMIC_STATE_DEPTH_CLAMP_ENABLE_EXT"
| "state_name (vkCmdSetPolygonModeEXT x) = VK_DYNAMIC_STATE_POLYGON_MODE_EXT"
| "state_name (vkCmdSetVertexInputEXT x y) = VK_DYNAMIC_STATE_VERTEX_INPUT_EXT"
| "state_name (vkCmdSetViewportWithCount x) = VK_DYNAMIC_STATE_VIEWPORT_WITH_COUNT"
| "state_name (vkCmdSetScissorWithCount x) = VK_DYNAMIC_STATE_SCISSOR_WITH_COUNT"
| "state_name (vkCmdSetPrimitiveTopology x) = VK_DYNAMIC_STATE_PRIMITIVE_TOPOLOGY"

fun states_set :: "vk_cmd \<Rightarrow> VkDynamicState list" where
  "states_set (vkCmdSet x) = [state_name x]"
| "states_set (vkCmdBindVertexBuffers2 n b f k l) = [VK_DYNAMIC_STATE_VERTEX_INPUT_BINDING_STRIDE]"
| "states_set c = []"

fun call_states :: "u64 \<Rightarrow> vk_call \<times> vk_answer \<Rightarrow> VkDynamicState list" where
  "call_states h (vkCmd h' c, a) = (if h' = h then states_set c else [])"
| "call_states h e = []"

definition recorded_states :: "recording \<Rightarrow> VkDynamicState set" where
  "recorded_states s = (\<Union>e\<in>set (calls (snd s)). set (call_states (m_vk_command_buffer (fst s)) e))"

lemma recorded_states_put: "recorded_states (put drv c s) = recorded_states s \<union> set (states_set c)"
  by (auto simp: recorded_states_def put_calls)

lemma recorded_states_put_all: "recorded_states (put_all drv cs s) = recorded_states s \<union> state_name ` set cs"
proof (induction cs arbitrary: s)
  case (Cons c cs)
  from Cons.IH [of "put drv (vkCmdSet c) s"] show ?case by (auto simp: put_all_def recorded_states_put)
qed (simp add: put_all_def)

lemma recorded_states_kept: "kept s s' \<Longrightarrow> recorded_states s \<subseteq> recorded_states s'"
  by (auto simp: kept_def recorded_states_def extends_def)

lemmas recorded_simps = recorded_states_put recorded_states_put_all and_then_Inr_iff Let_def

lemma recorded_states_op:
  assumes "run_op drv ctx x s = Inr s'"
  shows "x = OpPipelineState ps \<Longrightarrow> set primitive_dynamic_states - {VK_DYNAMIC_STATE_VIEWPORT_WITH_COUNT, VK_DYNAMIC_STATE_SCISSOR_WITH_COUNT, VK_DYNAMIC_STATE_VERTEX_INPUT_BINDING_STRIDE, VK_DYNAMIC_STATE_PRIMITIVE_TOPOLOGY} \<subseteq> recorded_states s'"
    and "x = OpViewportScissors v r \<Longrightarrow> {VK_DYNAMIC_STATE_VIEWPORT_WITH_COUNT, VK_DYNAMIC_STATE_SCISSOR_WITH_COUNT} \<subseteq> recorded_states s'"
    and "x = OpVertexBuffer n b k l \<Longrightarrow> VK_DYNAMIC_STATE_VERTEX_INPUT_BINDING_STRIDE \<in> recorded_states s'"
    and "is_draw x \<Longrightarrow> VK_DYNAMIC_STATE_PRIMITIVE_TOPOLOGY \<in> recorded_states s'"
proof -
  show "x = OpPipelineState ps \<Longrightarrow> set primitive_dynamic_states - {VK_DYNAMIC_STATE_VIEWPORT_WITH_COUNT, VK_DYNAMIC_STATE_SCISSOR_WITH_COUNT, VK_DYNAMIC_STATE_VERTEX_INPUT_BINDING_STRIDE, VK_DYNAMIC_STATE_PRIMITIVE_TOPOLOGY} \<subseteq> recorded_states s'"
    using assms by (auto simp: SetPipelineState_def SetColorBlendState_def SetDepthStencilState_def SetRasterizerState_def SetVertexState_def
        primitive_dynamic_states_def recorded_simps)
  show "x = OpViewportScissors v r \<Longrightarrow> {VK_DYNAMIC_STATE_VIEWPORT_WITH_COUNT, VK_DYNAMIC_STATE_SCISSOR_WITH_COUNT} \<subseteq> recorded_states s'"
    and "x = OpVertexBuffer n b k l \<Longrightarrow> VK_DYNAMIC_STATE_VERTEX_INPUT_BINDING_STRIDE \<in> recorded_states s'"
    using assms by (auto simp: SetViewportScissors_def SetVertexBuffer_def recorded_simps)
  show "is_draw x \<Longrightarrow> VK_DYNAMIC_STATE_PRIMITIVE_TOPOLOGY \<in> recorded_states s'"
    using assms by (cases x) (auto simp: Draw_def DrawInstanced_def DrawIndexed_def DrawInstancedIndexed_def recorded_simps)
qed

text \<open>
  C25. Every state that a graphics pipeline leaves dynamic is set by the calls of a command buffer: after the pipeline state, the viewports and
  scissors and a vertex buffer were set, in any order and with any other calls between, a draw has all of them.
\<close>

theorem draw_has_dynamic_states:
  assumes "run_ops drv ctx ops s = Inr s1" and "resources_ok s" and "OpBegin \<notin> set ops"
    and "OpPipelineState ps \<in> set ops" and "OpViewportScissors v r \<in> set ops" and "OpVertexBuffer n b k l \<in> set ops"
    and "run_op drv ctx d s1 = Inr s2" and "is_draw d"
  shows "set primitive_dynamic_states \<subseteq> recorded_states s2"
proof -
  have grow: "\<exists>t t'. run_op drv ctx x t = Inr t' \<and> recorded_states t' \<subseteq> recorded_states s1" if "x \<in> set ops" for x
    using assms(1-3) that
  proof (induction ops arbitrary: s)
    case (Cons y ops)
    then obtain u where u: "run_op drv ctx y s = Inr u" "run_ops drv ctx ops u = Inr s1" by (auto simp: and_then_Inr_iff simp del: split_paired_Ex)
    have "y \<noteq> OpBegin" "OpBegin \<notin> set ops" using Cons.prems(3) by auto
    note o = run_op_ok [OF u(1) Cons.prems(2) this(1)]
    then have "kept u s1" using run_ops_ok [OF u(2) _ \<open>OpBegin \<notin> set ops\<close>] by blast
    then show ?case using Cons.IH [OF u(2)] o u(1) Cons.prems(4) \<open>OpBegin \<notin> set ops\<close> recorded_states_kept [of u s1]
      by (auto simp del: split_paired_Ex)
  qed simp
  have "resources_ok s1" using run_ops_ok [OF assms(1-3)] by blast
  moreover have "d \<noteq> OpBegin" using assms(8) by auto
  ultimately have "recorded_states s1 \<subseteq> recorded_states s2" using recorded_states_kept run_op_ok [OF assms(7)] by blast
  moreover have "set primitive_dynamic_states - {VK_DYNAMIC_STATE_VIEWPORT_WITH_COUNT, VK_DYNAMIC_STATE_SCISSOR_WITH_COUNT,
      VK_DYNAMIC_STATE_VERTEX_INPUT_BINDING_STRIDE, VK_DYNAMIC_STATE_PRIMITIVE_TOPOLOGY} \<subseteq> recorded_states s1"
    using grow [OF assms(4)] recorded_states_op(1) [OF _ refl] by (elim exE conjE) (rule order_trans)
  moreover have "{VK_DYNAMIC_STATE_VIEWPORT_WITH_COUNT, VK_DYNAMIC_STATE_SCISSOR_WITH_COUNT} \<subseteq> recorded_states s1"
    using grow [OF assms(5)] recorded_states_op(2) [OF _ refl] by (elim exE conjE) (rule order_trans)
  moreover have "VK_DYNAMIC_STATE_VERTEX_INPUT_BINDING_STRIDE \<in> recorded_states s1"
    using grow [OF assms(6)] recorded_states_op(3) [OF _ refl] by (elim exE conjE) (rule subsetD)
  moreover note recorded_states_op(4) [OF assms(7,8)]
  ultimately show ?thesis by blast
qed

section \<open>Examples\<close>

definition example_pipeline_state :: PipelineCmdState where
  "example_pipeline_state = PipelineCmdState_SetDefaults \<lparr>color_blend_state = \<lparr>color_blend_count = 0, color_blend_enables = [],
      vk_color_blend_equations = [(0, 0, 0, 0, 0, 0)], vk_color_blend_write_masks = [], logic_op_enable = False, vk_logic_op = 0,
      blend_constants = (0, 0, 0, 0)\<rparr>, depth_stencil_state = DepthStencilCmdState_SetDefaults, rasterizer_state = RasterizerCmdState_SetDefaults,
    vertex_state = VertexCmdState_SetDefaults\<rparr>"

definition example_ops :: "cmd_op list" where
  "example_ops = [OpRenderTargets 1 [0x60] 0, OpUniformBuffer 2 ShaderStage_Fragment 0x9000, OpPipelineState example_pipeline_state,
    OpViewportScissors [] [], OpVertexBuffer 0 0x20 16 64]"

lemma example_recording_runs:
  "case CommandBuffer_Begin steady_driver example_recording of Inl e \<Rightarrow> False | Inr s1 \<Rightarrow>
    (case run_ops steady_driver example_context example_ops s1 of Inl e \<Rightarrow> False | Inr s2 \<Rightarrow>
      (case run_op steady_driver example_context (OpDraw 3 3 0) s2 of Inl e \<Rightarrow> False | Inr s3 \<Rightarrow>
        (case run_ops steady_driver example_context [OpUniformBuffer 2 ShaderStage_Fragment 0xA000, OpDraw 3 3 0, OpEnd] s3 of Inl e \<Rightarrow> False | Inr s4 \<Rightarrow>
          m_resource_buffer_per_stage_array (fst s2) ! 4 \<noteq> ResourceBuffer_SetDefaults)))"
  by code_simp

lemma example_states:
  obtains s1 s2 s3 s4 where "CommandBuffer_Begin steady_driver example_recording = Inr s1" "run_ops steady_driver example_context example_ops s1 = Inr s2"
    "m_resource_buffer_per_stage_array (fst s2) ! 4 \<noteq> ResourceBuffer_SetDefaults" "run_op steady_driver example_context (OpDraw 3 3 0) s2 = Inr s3"
    "run_ops steady_driver example_context [OpUniformBuffer 2 ShaderStage_Fragment 0xA000, OpDraw 3 3 0, OpEnd] s3 = Inr s4"
proof -
  assume t: thesis if "CommandBuffer_Begin steady_driver example_recording = Inr s1" "run_ops steady_driver example_context example_ops s1 = Inr s2"
    "m_resource_buffer_per_stage_array (fst s2) ! 4 \<noteq> ResourceBuffer_SetDefaults" "run_op steady_driver example_context (OpDraw 3 3 0) s2 = Inr s3"
    "run_ops steady_driver example_context [OpUniformBuffer 2 ShaderStage_Fragment 0xA000, OpDraw 3 3 0, OpEnd] s3 = Inr s4" for s1 s2 s3 s4
  show thesis using example_recording_runs by (simp only: split: sum.splits) (rule t)
qed

lemma example_sizes:
  "length (m_need_resource_update (fst example_recording)) = TargetShaderStages" "length (resource_memory (fst example_recording)) = 120"
  "m_resource_buffer_mapped_address (fst example_recording) \<noteq> 0" "OpBegin \<notin> set example_ops" "filter is_draw example_ops = []"
  by (simp_all add: example_recording_def TargetShaderStages_def example_ops_def)

theorem draw_sees_resources_witness:
  "\<exists>s2 s3 (s4 :: recording) k. run_op steady_driver example_context (OpDraw 3 3 0) s2 = Inr s3 \<and>
    m_resource_buffer_per_stage_array (fst s2) ! 4 \<noteq> ResourceBuffer_SetDefaults \<and>
    pushed VK_SHADER_STAGE_FRAGMENT_BIT s3 = Some (m_vk_resource_buffer_address (fst s4) + of_nat (sizeof_ResourceBuffer * k)) \<and>
    resource_memory (fst s4) ! k = m_resource_buffer_per_stage_array (fst s2) ! 4"
proof -
  obtain s1 s2 s3 s4 where e: "CommandBuffer_Begin steady_driver example_recording = Inr s1" "run_ops steady_driver example_context example_ops s1 = Inr s2"
    "m_resource_buffer_per_stage_array (fst s2) ! 4 \<noteq> ResourceBuffer_SetDefaults" "run_op steady_driver example_context (OpDraw 3 3 0) s2 = Inr s3"
    "run_ops steady_driver example_context [OpUniformBuffer 2 ShaderStage_Fragment 0xA000, OpDraw 3 3 0, OpEnd] s3 = Inr s4"
    by (rule example_states)
  have r: "(4, VK_SHADER_STAGE_FRAGMENT_BIT, 8 * 4) \<in> set resource_stages" by (simp add: resource_stages_def)
  have "length (resource_memory (fst example_recording)) < 2 ^ 32" by (simp add: example_sizes)
  then obtain k where "pushed VK_SHADER_STAGE_FRAGMENT_BIT s3 = Some (m_vk_resource_buffer_address (fst s4) +
      of_nat (sizeof_ResourceBuffer * k))" "resource_memory (fst s4) ! k = m_resource_buffer_per_stage_array (fst s2) ! 4"
    using draw_sees_resources [OF e(1) example_sizes(1) _ e(2,4) _ e(5) example_sizes(4) _ r e(3)] by auto
  with e(3,4) show ?thesis by (intro exI conjI)
qed

theorem draw_memory_enough_witness:
  "\<exists>s1. CommandBuffer_Begin steady_driver example_recording = Inr s1 \<and>
    unat (GetDrawMemorySize 1 1) div sizeof_ResourceBuffer = length (resource_memory (fst example_recording)) \<and>
    (\<exists>s2. run_ops steady_driver example_context [OpDrawInstanced 3 3 0 2 0] s1 = Inr s2)"
proof -
  obtain s1 where e: "CommandBuffer_Begin steady_driver example_recording = Inr s1"
    by (rule example_states)
  have p: "unat (GetDrawMemorySize 1 1) div sizeof_ResourceBuffer = 120"
    by (subst draw_memory_pieces) (simp_all add: TargetMaxResourceUpdatesPerSubmission_def)
  let ?ops = "[OpDrawInstanced 3 3 0 2 0]"
  have "(\<exists>s2. run_ops steady_driver example_context ?ops s1 = Inr s2) \<or>
    (\<exists>xs op ys s2 e. ?ops = xs @ op # ys \<and> run_ops steady_driver example_context xs s1 = Inr s2 \<and>
      run_op steady_driver example_context op s2 = Inl e \<and>
      (is_draw op \<longrightarrow> (\<exists>e'. relocate_index_buffer steady_driver example_context op s2 = Inl e')))"
    by (rule draw_memory_enough [OF e example_sizes(1) _ example_sizes(3), where max_shader_stages = 1 and max_draws = 1])
      (use p in \<open>simp_all add: example_sizes TargetMaxResourceUpdatesPerSubmission_def\<close>)
  then have "\<exists>s2. run_ops steady_driver example_context ?ops s1 = Inr s2"
    by (auto simp: Cons_eq_append_conv simp del: split_paired_Ex run_ops.simps)
  then show ?thesis using e p by (simp add: example_sizes del: split_paired_Ex run_ops.simps)
qed

theorem draw_has_dynamic_states_witness:
  "\<exists>s1 s2. run_op steady_driver example_context (OpDraw 3 3 0) s1 = Inr s2 \<and> set primitive_dynamic_states \<subseteq> recorded_states s2"
proof -
  obtain s1 s2 s3 where e: "CommandBuffer_Begin steady_driver example_recording = Inr s1" "run_ops steady_driver example_context example_ops s1 = Inr s2"
    "run_op steady_driver example_context (OpDraw 3 3 0) s2 = Inr s3"
    by (rule example_states)
  have o: "resources_ok s1" using Begin_ok(1) [OF e(1) example_sizes(1)] by (simp add: example_sizes)
  have "OpPipelineState example_pipeline_state \<in> set example_ops" "OpViewportScissors [] [] \<in> set example_ops" "OpVertexBuffer 0 0x20 16 64 \<in> set example_ops"
    by (simp_all add: example_ops_def)
  from draw_has_dynamic_states [OF e(2) o example_sizes(4) this e(3)] e(3) show ?thesis by (auto simp del: split_paired_Ex)
qed

end
