(* ===== verification/Vk_Proc.thy ===== *)
theory Vk_Proc
  imports Vk_Driver
begin

text \<open>
  The pointers to the functions of the driver: \<open>vk_proc.h\<close> and \<open>vk_proc.vulkan.cpp\<close>. Three groups are declared, and loaded one after the other: from the library, from the
  instance and from the device. Shown here: every pointer that is declared is loaded, and every call of the layer goes through
  a pointer that is not null. \<open>GetProcAddress\<close> and the two functions of the driver that look up a name are arguments.
\<close>

section \<open>The pointers\<close>

definition initial_procs :: "string list" where
  "initial_procs = [
    ''vkCreateInstance'', ''vkEnumerateInstanceExtensionProperties'', ''vkEnumerateInstanceLayerProperties'',
    ''vkEnumerateInstanceVersion'', ''vkGetInstanceProcAddr'']"

definition instance_procs :: "string list" where
  "instance_procs = [
    ''vkCreateDevice'', ''vkCreateWin32SurfaceKHR'', ''vkDestroyDevice'', ''vkDestroyInstance'', ''vkDestroySurfaceKHR'',
    ''vkEnumerateDeviceExtensionProperties'', ''vkEnumerateDeviceLayerProperties'', ''vkEnumeratePhysicalDeviceGroups'',
    ''vkEnumeratePhysicalDevices'', ''vkGetDeviceProcAddr'', ''vkGetPhysicalDeviceExternalBufferProperties'',
    ''vkGetPhysicalDeviceExternalFenceProperties'', ''vkGetPhysicalDeviceExternalSemaphoreProperties'', ''vkGetPhysicalDeviceFeatures'',
    ''vkGetPhysicalDeviceFeatures2'', ''vkGetPhysicalDeviceFormatProperties'', ''vkGetPhysicalDeviceFormatProperties2'',
    ''vkGetPhysicalDeviceImageFormatProperties'', ''vkGetPhysicalDeviceImageFormatProperties2'', ''vkGetPhysicalDeviceMemoryProperties'',
    ''vkGetPhysicalDeviceMemoryProperties2'', ''vkGetPhysicalDevicePresentRectanglesKHR'', ''vkGetPhysicalDeviceProperties'',
    ''vkGetPhysicalDeviceProperties2'', ''vkGetPhysicalDeviceQueueFamilyProperties'', ''vkGetPhysicalDeviceQueueFamilyProperties2'',
    ''vkGetPhysicalDeviceSparseImageFormatProperties'', ''vkGetPhysicalDeviceSparseImageFormatProperties2'',
    ''vkGetPhysicalDeviceSurfaceCapabilities2KHR'', ''vkGetPhysicalDeviceSurfaceCapabilitiesKHR'',
    ''vkGetPhysicalDeviceSurfaceFormats2KHR'', ''vkGetPhysicalDeviceSurfaceFormatsKHR'', ''vkGetPhysicalDeviceSurfacePresentModesKHR'',
    ''vkGetPhysicalDeviceSurfaceSupportKHR'', ''vkGetPhysicalDeviceToolProperties'', ''vkGetPhysicalDeviceWin32PresentationSupportKHR'',
    ''vkCreateDebugUtilsMessengerEXT'', ''vkDestroyDebugUtilsMessengerEXT'']"

definition device_procs :: "string list" where
  "device_procs = [
    ''vkAcquireNextImage2KHR'', ''vkAcquireNextImageKHR'', ''vkAllocateCommandBuffers'', ''vkAllocateDescriptorSets'',
    ''vkAllocateMemory'', ''vkBeginCommandBuffer'', ''vkBindBufferMemory'', ''vkBindBufferMemory2'', ''vkBindImageMemory'',
    ''vkBindImageMemory2'', ''vkCmdBeginQuery'', ''vkCmdBeginRendering'', ''vkCmdBeginRenderPass'', ''vkCmdBeginRenderPass2'',
    ''vkCmdBindDescriptorSets'', ''vkCmdBindIndexBuffer'', ''vkCmdBindPipeline'', ''vkCmdBindVertexBuffers'', ''vkCmdBindVertexBuffers2'',
    ''vkCmdBlitImage'', ''vkCmdBlitImage2'', ''vkCmdClearAttachments'', ''vkCmdClearColorImage'', ''vkCmdClearDepthStencilImage'',
    ''vkCmdCopyBuffer'', ''vkCmdCopyBuffer2'', ''vkCmdCopyBufferToImage'', ''vkCmdCopyBufferToImage2'', ''vkCmdCopyImage'',
    ''vkCmdCopyImage2'', ''vkCmdCopyImageToBuffer'', ''vkCmdCopyImageToBuffer2'', ''vkCmdCopyQueryPoolResults'', ''vkCmdDispatch'',
    ''vkCmdDispatchBase'', ''vkCmdDispatchIndirect'', ''vkCmdDraw'', ''vkCmdDrawIndexed'', ''vkCmdDrawIndexedIndirect'',
    ''vkCmdDrawIndexedIndirectCount'', ''vkCmdDrawIndirect'', ''vkCmdDrawIndirectCount'', ''vkCmdEndQuery'', ''vkCmdEndRendering'',
    ''vkCmdEndRenderPass'', ''vkCmdEndRenderPass2'', ''vkCmdExecuteCommands'', ''vkCmdFillBuffer'', ''vkCmdNextSubpass'',
    ''vkCmdNextSubpass2'', ''vkCmdPipelineBarrier'', ''vkCmdPipelineBarrier2'', ''vkCmdPushConstants'', ''vkCmdResetEvent'',
    ''vkCmdResetEvent2'', ''vkCmdResetQueryPool'', ''vkCmdResolveImage'', ''vkCmdResolveImage2'', ''vkCmdSetBlendConstants'',
    ''vkCmdSetCullMode'', ''vkCmdSetDepthBias'', ''vkCmdSetDepthBiasEnable'', ''vkCmdSetDepthBounds'', ''vkCmdSetDepthBoundsTestEnable'',
    ''vkCmdSetDepthCompareOp'', ''vkCmdSetDepthTestEnable'', ''vkCmdSetDepthWriteEnable'', ''vkCmdSetDeviceMask'', ''vkCmdSetEvent'',
    ''vkCmdSetEvent2'', ''vkCmdSetFrontFace'', ''vkCmdSetLineWidth'', ''vkCmdSetPrimitiveRestartEnable'', ''vkCmdSetPrimitiveTopology'',
    ''vkCmdSetRasterizerDiscardEnable'', ''vkCmdSetScissor'', ''vkCmdSetScissorWithCount'', ''vkCmdSetStencilCompareMask'',
    ''vkCmdSetStencilOp'', ''vkCmdSetStencilReference'', ''vkCmdSetStencilTestEnable'', ''vkCmdSetStencilWriteMask'', ''vkCmdSetViewport'',
    ''vkCmdSetViewportWithCount'', ''vkCmdUpdateBuffer'', ''vkCmdWaitEvents'', ''vkCmdWaitEvents2'', ''vkCmdWriteTimestamp'',
    ''vkCmdWriteTimestamp2'', ''vkCreateBuffer'', ''vkCreateBufferView'', ''vkCreateCommandPool'', ''vkCreateComputePipelines'',
    ''vkCreateDescriptorPool'', ''vkCreateDescriptorSetLayout'', ''vkCreateDescriptorUpdateTemplate'', ''vkCreateEvent'',
    ''vkCreateFence'', ''vkCreateFramebuffer'', ''vkCreateGraphicsPipelines'', ''vkCreateImage'', ''vkCreateImageView'',
    ''vkCreatePipelineCache'', ''vkCreatePipelineLayout'', ''vkCreatePrivateDataSlot'', ''vkCreateQueryPool'', ''vkCreateRenderPass'',
    ''vkCreateRenderPass2'', ''vkCreateSampler'', ''vkCreateSamplerYcbcrConversion'', ''vkCreateSemaphore'', ''vkCreateShaderModule'',
    ''vkCreateSwapchainKHR'', ''vkDestroyBuffer'', ''vkDestroyBufferView'', ''vkDestroyCommandPool'', ''vkDestroyDescriptorPool'',
    ''vkDestroyDescriptorSetLayout'', ''vkDestroyDescriptorUpdateTemplate'', ''vkDestroyEvent'', ''vkDestroyFence'',
    ''vkDestroyFramebuffer'', ''vkDestroyImage'', ''vkDestroyImageView'', ''vkDestroyPipeline'', ''vkDestroyPipelineCache'',
    ''vkDestroyPipelineLayout'', ''vkDestroyPrivateDataSlot'', ''vkDestroyQueryPool'', ''vkDestroyRenderPass'', ''vkDestroySampler'',
    ''vkDestroySamplerYcbcrConversion'', ''vkDestroySemaphore'', ''vkDestroyShaderModule'', ''vkDestroySwapchainKHR'',
    ''vkDeviceWaitIdle'', ''vkEndCommandBuffer'', ''vkFlushMappedMemoryRanges'', ''vkFreeCommandBuffers'', ''vkFreeDescriptorSets'',
    ''vkFreeMemory'', ''vkGetBufferDeviceAddress'', ''vkGetBufferMemoryRequirements'', ''vkGetBufferMemoryRequirements2'',
    ''vkGetBufferOpaqueCaptureAddress'', ''vkGetDescriptorSetLayoutSupport'', ''vkGetDeviceBufferMemoryRequirements'',
    ''vkGetDeviceGroupPeerMemoryFeatures'', ''vkGetDeviceGroupPresentCapabilitiesKHR'', ''vkGetDeviceGroupSurfacePresentModesKHR'',
    ''vkGetDeviceImageMemoryRequirements'', ''vkGetDeviceImageSparseMemoryRequirements'', ''vkGetDeviceMemoryCommitment'',
    ''vkGetDeviceMemoryOpaqueCaptureAddress'', ''vkGetDeviceQueue'', ''vkGetDeviceQueue2'', ''vkGetEventStatus'', ''vkGetFenceStatus'',
    ''vkGetImageMemoryRequirements'', ''vkGetImageMemoryRequirements2'', ''vkGetImageSparseMemoryRequirements'',
    ''vkGetImageSparseMemoryRequirements2'', ''vkGetImageSubresourceLayout'', ''vkGetPipelineCacheData'', ''vkGetPrivateData'',
    ''vkGetQueryPoolResults'', ''vkGetRenderAreaGranularity'', ''vkGetSemaphoreCounterValue'', ''vkGetSwapchainImagesKHR'',
    ''vkInvalidateMappedMemoryRanges'', ''vkMapMemory'', ''vkMergePipelineCaches'', ''vkQueueBindSparse'', ''vkQueuePresentKHR'',
    ''vkQueueSubmit'', ''vkQueueSubmit2'', ''vkQueueWaitIdle'', ''vkResetCommandBuffer'', ''vkResetCommandPool'',
    ''vkResetDescriptorPool'', ''vkResetEvent'', ''vkResetFences'', ''vkResetQueryPool'', ''vkSetEvent'', ''vkSetPrivateData'',
    ''vkSignalSemaphore'', ''vkTrimCommandPool'', ''vkUnmapMemory'', ''vkUpdateDescriptorSets'', ''vkUpdateDescriptorSetWithTemplate'',
    ''vkWaitForFences'', ''vkWaitSemaphores'', ''vkGetMemoryHostPointerPropertiesEXT'', ''vkCmdSetLogicOpEXT'', ''vkCmdSetVertexInputEXT'',
    ''vkCmdSetColorBlendEnableEXT'', ''vkCmdSetColorBlendEquationEXT'', ''vkCmdSetColorWriteMaskEXT'', ''vkCmdSetDepthClampEnableEXT'',
    ''vkCmdSetLogicOpEnableEXT'', ''vkCmdSetPolygonModeEXT'']"

text \<open>The pointers that the header declares for the other files, in the same three groups.\<close>

definition extern_initial_procs :: "string list" where
  "extern_initial_procs = [
    ''vkCreateInstance'', ''vkEnumerateInstanceExtensionProperties'', ''vkEnumerateInstanceLayerProperties'', ''vkEnumerateInstanceVersion'',
    ''vkGetInstanceProcAddr'']"

definition extern_instance_procs :: "string list" where
  "extern_instance_procs = [
    ''vkCreateDevice'', ''vkCreateWin32SurfaceKHR'', ''vkDestroyDevice'', ''vkDestroyInstance'', ''vkDestroySurfaceKHR'',
    ''vkEnumerateDeviceExtensionProperties'', ''vkEnumerateDeviceLayerProperties'', ''vkEnumeratePhysicalDeviceGroups'', ''vkEnumeratePhysicalDevices'',
    ''vkGetDeviceProcAddr'', ''vkGetPhysicalDeviceExternalBufferProperties'', ''vkGetPhysicalDeviceExternalFenceProperties'',
    ''vkGetPhysicalDeviceExternalSemaphoreProperties'', ''vkGetPhysicalDeviceFeatures'', ''vkGetPhysicalDeviceFeatures2'',
    ''vkGetPhysicalDeviceFormatProperties'', ''vkGetPhysicalDeviceFormatProperties2'', ''vkGetPhysicalDeviceImageFormatProperties'',
    ''vkGetPhysicalDeviceImageFormatProperties2'', ''vkGetPhysicalDeviceMemoryProperties'', ''vkGetPhysicalDeviceMemoryProperties2'',
    ''vkGetPhysicalDevicePresentRectanglesKHR'', ''vkGetPhysicalDeviceProperties'', ''vkGetPhysicalDeviceProperties2'',
    ''vkGetPhysicalDeviceQueueFamilyProperties'', ''vkGetPhysicalDeviceQueueFamilyProperties2'', ''vkGetPhysicalDeviceSparseImageFormatProperties'',
    ''vkGetPhysicalDeviceSparseImageFormatProperties2'', ''vkGetPhysicalDeviceSurfaceCapabilities2KHR'', ''vkGetPhysicalDeviceSurfaceCapabilitiesKHR'',
    ''vkGetPhysicalDeviceSurfaceFormats2KHR'', ''vkGetPhysicalDeviceSurfaceFormatsKHR'', ''vkGetPhysicalDeviceSurfacePresentModesKHR'',
    ''vkGetPhysicalDeviceSurfaceSupportKHR'', ''vkGetPhysicalDeviceToolProperties'', ''vkGetPhysicalDeviceWin32PresentationSupportKHR'',
    ''vkCreateDebugUtilsMessengerEXT'', ''vkDestroyDebugUtilsMessengerEXT'']"

definition extern_device_procs :: "string list" where
  "extern_device_procs = [
    ''vkAcquireNextImage2KHR'', ''vkAcquireNextImageKHR'', ''vkAllocateCommandBuffers'', ''vkAllocateDescriptorSets'', ''vkAllocateMemory'',
    ''vkBeginCommandBuffer'', ''vkBindBufferMemory'', ''vkBindBufferMemory2'', ''vkBindImageMemory'', ''vkBindImageMemory2'', ''vkCmdBeginQuery'',
    ''vkCmdBeginRendering'', ''vkCmdBeginRenderPass'', ''vkCmdBeginRenderPass2'', ''vkCmdBindDescriptorSets'', ''vkCmdBindIndexBuffer'',
    ''vkCmdBindPipeline'', ''vkCmdBindVertexBuffers'', ''vkCmdBindVertexBuffers2'', ''vkCmdBlitImage'', ''vkCmdBlitImage2'', ''vkCmdClearAttachments'',
    ''vkCmdClearColorImage'', ''vkCmdClearDepthStencilImage'', ''vkCmdCopyBuffer'', ''vkCmdCopyBuffer2'', ''vkCmdCopyBufferToImage'',
    ''vkCmdCopyBufferToImage2'', ''vkCmdCopyImage'', ''vkCmdCopyImage2'', ''vkCmdCopyImageToBuffer'', ''vkCmdCopyImageToBuffer2'',
    ''vkCmdCopyQueryPoolResults'', ''vkCmdDispatch'', ''vkCmdDispatchBase'', ''vkCmdDispatchIndirect'', ''vkCmdDraw'', ''vkCmdDrawIndexed'',
    ''vkCmdDrawIndexedIndirect'', ''vkCmdDrawIndexedIndirectCount'', ''vkCmdDrawIndirect'', ''vkCmdDrawIndirectCount'', ''vkCmdEndQuery'',
    ''vkCmdEndRendering'', ''vkCmdEndRenderPass'', ''vkCmdEndRenderPass2'', ''vkCmdExecuteCommands'', ''vkCmdFillBuffer'', ''vkCmdNextSubpass'',
    ''vkCmdNextSubpass2'', ''vkCmdPipelineBarrier'', ''vkCmdPipelineBarrier2'', ''vkCmdPushConstants'', ''vkCmdResetEvent'', ''vkCmdResetEvent2'',
    ''vkCmdResetQueryPool'', ''vkCmdResolveImage'', ''vkCmdResolveImage2'', ''vkCmdSetBlendConstants'', ''vkCmdSetCullMode'', ''vkCmdSetDepthBias'',
    ''vkCmdSetDepthBiasEnable'', ''vkCmdSetDepthBounds'', ''vkCmdSetDepthBoundsTestEnable'', ''vkCmdSetDepthCompareOp'', ''vkCmdSetDepthTestEnable'',
    ''vkCmdSetDepthWriteEnable'', ''vkCmdSetDeviceMask'', ''vkCmdSetEvent'', ''vkCmdSetEvent2'', ''vkCmdSetFrontFace'', ''vkCmdSetLineWidth'',
    ''vkCmdSetPrimitiveRestartEnable'', ''vkCmdSetPrimitiveTopology'', ''vkCmdSetRasterizerDiscardEnable'', ''vkCmdSetScissor'',
    ''vkCmdSetScissorWithCount'', ''vkCmdSetStencilCompareMask'', ''vkCmdSetStencilOp'', ''vkCmdSetStencilReference'', ''vkCmdSetStencilTestEnable'',
    ''vkCmdSetStencilWriteMask'', ''vkCmdSetViewport'', ''vkCmdSetViewportWithCount'', ''vkCmdUpdateBuffer'', ''vkCmdWaitEvents'', ''vkCmdWaitEvents2'',
    ''vkCmdWriteTimestamp'', ''vkCmdWriteTimestamp2'', ''vkCreateBuffer'', ''vkCreateBufferView'', ''vkCreateCommandPool'', ''vkCreateComputePipelines'',
    ''vkCreateDescriptorPool'', ''vkCreateDescriptorSetLayout'', ''vkCreateDescriptorUpdateTemplate'', ''vkCreateEvent'', ''vkCreateFence'',
    ''vkCreateFramebuffer'', ''vkCreateGraphicsPipelines'', ''vkCreateImage'', ''vkCreateImageView'', ''vkCreatePipelineCache'',
    ''vkCreatePipelineLayout'', ''vkCreatePrivateDataSlot'', ''vkCreateQueryPool'', ''vkCreateRenderPass'', ''vkCreateRenderPass2'', ''vkCreateSampler'',
    ''vkCreateSamplerYcbcrConversion'', ''vkCreateSemaphore'', ''vkCreateShaderModule'', ''vkCreateSwapchainKHR'', ''vkDestroyBuffer'',
    ''vkDestroyBufferView'', ''vkDestroyCommandPool'', ''vkDestroyDescriptorPool'', ''vkDestroyDescriptorSetLayout'',
    ''vkDestroyDescriptorUpdateTemplate'', ''vkDestroyEvent'', ''vkDestroyFence'', ''vkDestroyFramebuffer'', ''vkDestroyImage'', ''vkDestroyImageView'',
    ''vkDestroyPipeline'', ''vkDestroyPipelineCache'', ''vkDestroyPipelineLayout'', ''vkDestroyPrivateDataSlot'', ''vkDestroyQueryPool'',
    ''vkDestroyRenderPass'', ''vkDestroySampler'', ''vkDestroySamplerYcbcrConversion'', ''vkDestroySemaphore'', ''vkDestroyShaderModule'',
    ''vkDestroySwapchainKHR'', ''vkDeviceWaitIdle'', ''vkEndCommandBuffer'', ''vkFlushMappedMemoryRanges'', ''vkFreeCommandBuffers'',
    ''vkFreeDescriptorSets'', ''vkFreeMemory'', ''vkGetBufferDeviceAddress'', ''vkGetBufferMemoryRequirements'', ''vkGetBufferMemoryRequirements2'',
    ''vkGetBufferOpaqueCaptureAddress'', ''vkGetDescriptorSetLayoutSupport'', ''vkGetDeviceBufferMemoryRequirements'',
    ''vkGetDeviceGroupPeerMemoryFeatures'', ''vkGetDeviceGroupPresentCapabilitiesKHR'', ''vkGetDeviceGroupSurfacePresentModesKHR'',
    ''vkGetDeviceImageMemoryRequirements'', ''vkGetDeviceImageSparseMemoryRequirements'', ''vkGetDeviceMemoryCommitment'',
    ''vkGetDeviceMemoryOpaqueCaptureAddress'', ''vkGetDeviceQueue'', ''vkGetDeviceQueue2'', ''vkGetEventStatus'', ''vkGetFenceStatus'',
    ''vkGetImageMemoryRequirements'', ''vkGetImageMemoryRequirements2'', ''vkGetImageSparseMemoryRequirements'', ''vkGetImageSparseMemoryRequirements2'',
    ''vkGetImageSubresourceLayout'', ''vkGetPipelineCacheData'', ''vkGetPrivateData'', ''vkGetQueryPoolResults'', ''vkGetRenderAreaGranularity'',
    ''vkGetSemaphoreCounterValue'', ''vkGetSwapchainImagesKHR'', ''vkInvalidateMappedMemoryRanges'', ''vkMapMemory'', ''vkMergePipelineCaches'',
    ''vkQueueBindSparse'', ''vkQueuePresentKHR'', ''vkQueueSubmit'', ''vkQueueSubmit2'', ''vkQueueWaitIdle'', ''vkResetCommandBuffer'',
    ''vkResetCommandPool'', ''vkResetDescriptorPool'', ''vkResetEvent'', ''vkResetFences'', ''vkResetQueryPool'', ''vkSetEvent'', ''vkSetPrivateData'',
    ''vkSignalSemaphore'', ''vkTrimCommandPool'', ''vkUnmapMemory'', ''vkUpdateDescriptorSets'', ''vkUpdateDescriptorSetWithTemplate'',
    ''vkWaitForFences'', ''vkWaitSemaphores'', ''vkGetMemoryHostPointerPropertiesEXT'', ''vkCmdSetLogicOpEXT'', ''vkCmdSetVertexInputEXT'',
    ''vkCmdSetColorBlendEnableEXT'', ''vkCmdSetColorBlendEquationEXT'', ''vkCmdSetColorWriteMaskEXT'', ''vkCmdSetDepthClampEnableEXT'',
    ''vkCmdSetLogicOpEnableEXT'', ''vkCmdSetPolygonModeEXT'']"

definition LoadInitialVkCProcs_names :: "string list" where
  "LoadInitialVkCProcs_names = [
    ''vkCreateInstance'', ''vkEnumerateInstanceExtensionProperties'', ''vkEnumerateInstanceLayerProperties'',
    ''vkEnumerateInstanceVersion'', ''vkGetInstanceProcAddr'']"

definition LoadCProcsInstance_names :: "string list" where
  "LoadCProcsInstance_names = [
    ''vkCreateDevice'', ''vkCreateWin32SurfaceKHR'', ''vkDestroyDevice'', ''vkDestroyInstance'', ''vkDestroySurfaceKHR'',
    ''vkEnumerateDeviceExtensionProperties'', ''vkEnumerateDeviceLayerProperties'', ''vkEnumeratePhysicalDeviceGroups'',
    ''vkEnumeratePhysicalDevices'', ''vkGetDeviceProcAddr'', ''vkGetPhysicalDeviceExternalBufferProperties'',
    ''vkGetPhysicalDeviceExternalFenceProperties'', ''vkGetPhysicalDeviceExternalSemaphoreProperties'', ''vkGetPhysicalDeviceFeatures'',
    ''vkGetPhysicalDeviceFeatures2'', ''vkGetPhysicalDeviceFormatProperties'', ''vkGetPhysicalDeviceFormatProperties2'',
    ''vkGetPhysicalDeviceImageFormatProperties'', ''vkGetPhysicalDeviceImageFormatProperties2'', ''vkGetPhysicalDeviceMemoryProperties'',
    ''vkGetPhysicalDeviceMemoryProperties2'', ''vkGetPhysicalDevicePresentRectanglesKHR'', ''vkGetPhysicalDeviceProperties'',
    ''vkGetPhysicalDeviceProperties2'', ''vkGetPhysicalDeviceQueueFamilyProperties'', ''vkGetPhysicalDeviceQueueFamilyProperties2'',
    ''vkGetPhysicalDeviceSparseImageFormatProperties'', ''vkGetPhysicalDeviceSparseImageFormatProperties2'',
    ''vkGetPhysicalDeviceSurfaceCapabilities2KHR'', ''vkGetPhysicalDeviceSurfaceCapabilitiesKHR'',
    ''vkGetPhysicalDeviceSurfaceFormats2KHR'', ''vkGetPhysicalDeviceSurfaceFormatsKHR'', ''vkGetPhysicalDeviceSurfacePresentModesKHR'',
    ''vkGetPhysicalDeviceSurfaceSupportKHR'', ''vkGetPhysicalDeviceToolProperties'', ''vkGetPhysicalDeviceWin32PresentationSupportKHR'',
    ''vkCreateDebugUtilsMessengerEXT'', ''vkDestroyDebugUtilsMessengerEXT'']"

definition LoadCProcsDevice_names :: "string list" where
  "LoadCProcsDevice_names = [
    ''vkAcquireNextImage2KHR'', ''vkAcquireNextImageKHR'', ''vkAllocateCommandBuffers'', ''vkAllocateDescriptorSets'',
    ''vkAllocateMemory'', ''vkBeginCommandBuffer'', ''vkBindBufferMemory'', ''vkBindBufferMemory2'', ''vkBindImageMemory'',
    ''vkBindImageMemory2'', ''vkCmdBeginQuery'', ''vkCmdBeginRendering'', ''vkCmdBeginRenderPass'', ''vkCmdBeginRenderPass2'',
    ''vkCmdBindDescriptorSets'', ''vkCmdBindIndexBuffer'', ''vkCmdBindPipeline'', ''vkCmdBindVertexBuffers'', ''vkCmdBindVertexBuffers2'',
    ''vkCmdBlitImage'', ''vkCmdBlitImage2'', ''vkCmdClearAttachments'', ''vkCmdClearColorImage'', ''vkCmdClearDepthStencilImage'',
    ''vkCmdCopyBuffer'', ''vkCmdCopyBuffer2'', ''vkCmdCopyBufferToImage'', ''vkCmdCopyBufferToImage2'', ''vkCmdCopyImage'',
    ''vkCmdCopyImage2'', ''vkCmdCopyImageToBuffer'', ''vkCmdCopyImageToBuffer2'', ''vkCmdCopyQueryPoolResults'', ''vkCmdDispatch'',
    ''vkCmdDispatchBase'', ''vkCmdDispatchIndirect'', ''vkCmdDraw'', ''vkCmdDrawIndexed'', ''vkCmdDrawIndexedIndirect'',
    ''vkCmdDrawIndexedIndirectCount'', ''vkCmdDrawIndirect'', ''vkCmdDrawIndirectCount'', ''vkCmdEndQuery'', ''vkCmdEndRendering'',
    ''vkCmdEndRenderPass'', ''vkCmdEndRenderPass2'', ''vkCmdExecuteCommands'', ''vkCmdFillBuffer'', ''vkCmdNextSubpass'',
    ''vkCmdNextSubpass2'', ''vkCmdPipelineBarrier'', ''vkCmdPipelineBarrier2'', ''vkCmdPushConstants'', ''vkCmdResetEvent'',
    ''vkCmdResetEvent2'', ''vkCmdResetQueryPool'', ''vkCmdResolveImage'', ''vkCmdResolveImage2'', ''vkCmdSetBlendConstants'',
    ''vkCmdSetCullMode'', ''vkCmdSetDepthBias'', ''vkCmdSetDepthBiasEnable'', ''vkCmdSetDepthBounds'', ''vkCmdSetDepthBoundsTestEnable'',
    ''vkCmdSetDepthCompareOp'', ''vkCmdSetDepthTestEnable'', ''vkCmdSetDepthWriteEnable'', ''vkCmdSetDeviceMask'', ''vkCmdSetEvent'',
    ''vkCmdSetEvent2'', ''vkCmdSetFrontFace'', ''vkCmdSetLineWidth'', ''vkCmdSetPrimitiveRestartEnable'', ''vkCmdSetPrimitiveTopology'',
    ''vkCmdSetRasterizerDiscardEnable'', ''vkCmdSetScissor'', ''vkCmdSetScissorWithCount'', ''vkCmdSetStencilCompareMask'',
    ''vkCmdSetStencilOp'', ''vkCmdSetStencilReference'', ''vkCmdSetStencilTestEnable'', ''vkCmdSetStencilWriteMask'', ''vkCmdSetViewport'',
    ''vkCmdSetViewportWithCount'', ''vkCmdUpdateBuffer'', ''vkCmdWaitEvents'', ''vkCmdWaitEvents2'', ''vkCmdWriteTimestamp'',
    ''vkCmdWriteTimestamp2'', ''vkCreateBuffer'', ''vkCreateBufferView'', ''vkCreateCommandPool'', ''vkCreateComputePipelines'',
    ''vkCreateDescriptorPool'', ''vkCreateDescriptorSetLayout'', ''vkCreateDescriptorUpdateTemplate'', ''vkCreateEvent'',
    ''vkCreateFence'', ''vkCreateFramebuffer'', ''vkCreateGraphicsPipelines'', ''vkCreateImage'', ''vkCreateImageView'',
    ''vkCreatePipelineCache'', ''vkCreatePipelineLayout'', ''vkCreatePrivateDataSlot'', ''vkCreateQueryPool'', ''vkCreateRenderPass'',
    ''vkCreateRenderPass2'', ''vkCreateSampler'', ''vkCreateSamplerYcbcrConversion'', ''vkCreateSemaphore'', ''vkCreateShaderModule'',
    ''vkCreateSwapchainKHR'', ''vkDestroyBuffer'', ''vkDestroyBufferView'', ''vkDestroyCommandPool'', ''vkDestroyDescriptorPool'',
    ''vkDestroyDescriptorSetLayout'', ''vkDestroyDescriptorUpdateTemplate'', ''vkDestroyEvent'', ''vkDestroyFence'',
    ''vkDestroyFramebuffer'', ''vkDestroyImage'', ''vkDestroyImageView'', ''vkDestroyPipeline'', ''vkDestroyPipelineCache'',
    ''vkDestroyPipelineLayout'', ''vkDestroyPrivateDataSlot'', ''vkDestroyQueryPool'', ''vkDestroyRenderPass'', ''vkDestroySampler'',
    ''vkDestroySamplerYcbcrConversion'', ''vkDestroySemaphore'', ''vkDestroyShaderModule'', ''vkDestroySwapchainKHR'',
    ''vkDeviceWaitIdle'', ''vkEndCommandBuffer'', ''vkFlushMappedMemoryRanges'', ''vkFreeCommandBuffers'', ''vkFreeDescriptorSets'',
    ''vkFreeMemory'', ''vkGetBufferDeviceAddress'', ''vkGetBufferMemoryRequirements'', ''vkGetBufferMemoryRequirements2'',
    ''vkGetBufferOpaqueCaptureAddress'', ''vkGetDescriptorSetLayoutSupport'', ''vkGetDeviceBufferMemoryRequirements'',
    ''vkGetDeviceGroupPeerMemoryFeatures'', ''vkGetDeviceGroupPresentCapabilitiesKHR'', ''vkGetDeviceGroupSurfacePresentModesKHR'',
    ''vkGetDeviceImageMemoryRequirements'', ''vkGetDeviceImageSparseMemoryRequirements'', ''vkGetDeviceMemoryCommitment'',
    ''vkGetDeviceMemoryOpaqueCaptureAddress'', ''vkGetDeviceProcAddr'', ''vkGetDeviceQueue'', ''vkGetDeviceQueue2'', ''vkGetEventStatus'',
    ''vkGetFenceStatus'', ''vkGetImageMemoryRequirements'', ''vkGetImageMemoryRequirements2'', ''vkGetImageSparseMemoryRequirements'',
    ''vkGetImageSparseMemoryRequirements2'', ''vkGetImageSubresourceLayout'', ''vkGetPipelineCacheData'', ''vkGetPrivateData'',
    ''vkGetQueryPoolResults'', ''vkGetRenderAreaGranularity'', ''vkGetSemaphoreCounterValue'', ''vkGetSwapchainImagesKHR'',
    ''vkInvalidateMappedMemoryRanges'', ''vkMapMemory'', ''vkMergePipelineCaches'', ''vkQueueBindSparse'', ''vkQueuePresentKHR'',
    ''vkQueueSubmit'', ''vkQueueSubmit2'', ''vkQueueWaitIdle'', ''vkResetCommandBuffer'', ''vkResetCommandPool'',
    ''vkResetDescriptorPool'', ''vkResetEvent'', ''vkResetFences'', ''vkResetQueryPool'', ''vkSetEvent'', ''vkSetPrivateData'',
    ''vkSignalSemaphore'', ''vkTrimCommandPool'', ''vkUnmapMemory'', ''vkUpdateDescriptorSets'', ''vkUpdateDescriptorSetWithTemplate'',
    ''vkWaitForFences'', ''vkWaitSemaphores'', ''vkGetMemoryHostPointerPropertiesEXT'', ''vkCmdSetLogicOpEXT'', ''vkCmdSetVertexInputEXT'',
    ''vkCmdSetColorBlendEnableEXT'', ''vkCmdSetColorBlendEquationEXT'', ''vkCmdSetColorWriteMaskEXT'', ''vkCmdSetDepthClampEnableEXT'',
    ''vkCmdSetLogicOpEnableEXT'', ''vkCmdSetPolygonModeEXT'']"

text \<open>The value of each pointer, null at the start.\<close>

type_synonym proc_table = "string \<Rightarrow> u64"

definition no_procs :: proc_table where "no_procs = (\<lambda>_. 0)"

fun load_procs :: "(string \<Rightarrow> u64) \<Rightarrow> string list \<Rightarrow> proc_table \<Rightarrow> proc_table outcome" where
  "load_procs look_up [] t = Inr t"
| "load_procs look_up (n # ns) t =
    (let t = t(n := look_up n) in and_then (dd_assert (t n \<noteq> 0) ()) (\<lambda>_. load_procs look_up ns t))"

text \<open>Here the function that looks up a name is itself one of the pointers: \<open>call\<close> says what the function at an address returns for
  the handle and the name.\<close>

fun load_procs_with :: "(u64 \<Rightarrow> u64 \<Rightarrow> string \<Rightarrow> u64) \<Rightarrow> string \<Rightarrow> u64 \<Rightarrow> string list \<Rightarrow> proc_table \<Rightarrow> proc_table outcome" where
  "load_procs_with call getter h [] t = Inr t"
| "load_procs_with call getter h (n # ns) t =
    (if t getter = 0 then Inl NullPointer
     else let t = t(n := call (t getter) h n) in and_then (dd_assert (t n \<noteq> 0) ()) (\<lambda>_. load_procs_with call getter h ns t))"

definition LoadInitialVkCProcs :: "u64 \<Rightarrow> (u64 \<Rightarrow> string \<Rightarrow> u64) \<Rightarrow> proc_table \<Rightarrow> proc_table outcome" where
  "LoadInitialVkCProcs vulkan_dll GetProcAddress t =
    and_then (dd_assert (vulkan_dll \<noteq> 0) ()) (\<lambda>_. load_procs (GetProcAddress vulkan_dll) LoadInitialVkCProcs_names t)"

definition LoadCProcsInstance :: "(u64 \<Rightarrow> u64 \<Rightarrow> string \<Rightarrow> u64) \<Rightarrow> u64 \<Rightarrow> proc_table \<Rightarrow> proc_table outcome" where
  "LoadCProcsInstance call instance_handle t = load_procs_with call ''vkGetInstanceProcAddr'' instance_handle LoadCProcsInstance_names t"

definition LoadCProcsDevice :: "(u64 \<Rightarrow> u64 \<Rightarrow> string \<Rightarrow> u64) \<Rightarrow> u64 \<Rightarrow> proc_table \<Rightarrow> proc_table outcome" where
  "LoadCProcsDevice call device t = load_procs_with call ''vkGetDeviceProcAddr'' device LoadCProcsDevice_names t"

section \<open>The pointer of each call\<close>

fun state_proc :: "vk_state \<Rightarrow> string" where
  "state_proc (vkCmdSetLogicOpEnableEXT x0) = ''vkCmdSetLogicOpEnableEXT''"
| "state_proc (vkCmdSetLogicOpEXT x0) = ''vkCmdSetLogicOpEXT''"
| "state_proc (vkCmdSetBlendConstants x0) = ''vkCmdSetBlendConstants''"
| "state_proc (vkCmdSetColorBlendEnableEXT x0) = ''vkCmdSetColorBlendEnableEXT''"
| "state_proc (vkCmdSetColorBlendEquationEXT x0) = ''vkCmdSetColorBlendEquationEXT''"
| "state_proc (vkCmdSetColorWriteMaskEXT x0) = ''vkCmdSetColorWriteMaskEXT''"
| "state_proc (vkCmdSetDepthTestEnable x0) = ''vkCmdSetDepthTestEnable''"
| "state_proc (vkCmdSetDepthWriteEnable x0) = ''vkCmdSetDepthWriteEnable''"
| "state_proc (vkCmdSetDepthBoundsTestEnable x0) = ''vkCmdSetDepthBoundsTestEnable''"
| "state_proc (vkCmdSetDepthBounds x0 x1) = ''vkCmdSetDepthBounds''"
| "state_proc (vkCmdSetDepthCompareOp x0) = ''vkCmdSetDepthCompareOp''"
| "state_proc (vkCmdSetStencilTestEnable x0) = ''vkCmdSetStencilTestEnable''"
| "state_proc (vkCmdSetStencilCompareMask x0 x1) = ''vkCmdSetStencilCompareMask''"
| "state_proc (vkCmdSetStencilWriteMask x0 x1) = ''vkCmdSetStencilWriteMask''"
| "state_proc (vkCmdSetStencilReference x0 x1) = ''vkCmdSetStencilReference''"
| "state_proc (vkCmdSetStencilOp x0 x1) = ''vkCmdSetStencilOp''"
| "state_proc (vkCmdSetRasterizerDiscardEnable x0) = ''vkCmdSetRasterizerDiscardEnable''"
| "state_proc (vkCmdSetPrimitiveRestartEnable x0) = ''vkCmdSetPrimitiveRestartEnable''"
| "state_proc (vkCmdSetDepthBiasEnable x0) = ''vkCmdSetDepthBiasEnable''"
| "state_proc (vkCmdSetDepthBias x0 x1 x2) = ''vkCmdSetDepthBias''"
| "state_proc (vkCmdSetLineWidth x0) = ''vkCmdSetLineWidth''"
| "state_proc (vkCmdSetCullMode x0) = ''vkCmdSetCullMode''"
| "state_proc (vkCmdSetFrontFace x0) = ''vkCmdSetFrontFace''"
| "state_proc (vkCmdSetDepthClampEnableEXT x0) = ''vkCmdSetDepthClampEnableEXT''"
| "state_proc (vkCmdSetPolygonModeEXT x0) = ''vkCmdSetPolygonModeEXT''"
| "state_proc (vkCmdSetVertexInputEXT x0 x1) = ''vkCmdSetVertexInputEXT''"
| "state_proc (vkCmdSetViewportWithCount x0) = ''vkCmdSetViewportWithCount''"
| "state_proc (vkCmdSetScissorWithCount x0) = ''vkCmdSetScissorWithCount''"
| "state_proc (vkCmdSetPrimitiveTopology x0) = ''vkCmdSetPrimitiveTopology''"

fun cmd_proc :: "vk_cmd \<Rightarrow> string" where
  "cmd_proc (vkCmdBeginRendering x0) = ''vkCmdBeginRendering''"
| "cmd_proc vkCmdEndRendering = ''vkCmdEndRendering''"
| "cmd_proc (vkCmdPushConstants x0 x1 x2) = ''vkCmdPushConstants''"
| "cmd_proc (vkCmdClearColorImage x0 x1 x2 x3) = ''vkCmdClearColorImage''"
| "cmd_proc (vkCmdClearDepthStencilImage x0 x1 x2 x3) = ''vkCmdClearDepthStencilImage''"
| "cmd_proc (vkCmdCopyBuffer x0 x1 x2) = ''vkCmdCopyBuffer''"
| "cmd_proc (vkCmdPipelineBarrier2_buffer x0 x1) = ''vkCmdPipelineBarrier2''"
| "cmd_proc (vkCmdPipelineBarrier2_image x0 x1 x2 x3 x4) = ''vkCmdPipelineBarrier2''"
| "cmd_proc (vkCmdDraw x0 x1 x2 x3) = ''vkCmdDraw''"
| "cmd_proc (vkCmdDrawIndexed x0 x1 x2 x3 x4) = ''vkCmdDrawIndexed''"
| "cmd_proc (vkCmdBindIndexBuffer x0 x1 x2) = ''vkCmdBindIndexBuffer''"
| "cmd_proc (vkCmdBindVertexBuffers2 x0 x1 x2 x3 x4) = ''vkCmdBindVertexBuffers2''"
| "cmd_proc (vkCmdBindPipeline x0 x1) = ''vkCmdBindPipeline''"
| "cmd_proc (vkCmdBindDescriptorSets x0 x1) = ''vkCmdBindDescriptorSets''"
| "cmd_proc (vkCmdSet x) = state_proc x"

fun destroy_proc :: "vk_kind \<Rightarrow> string" where
  "destroy_proc VkInstance = ''vkDestroyInstance''"
| "destroy_proc VkDebugUtilsMessengerEXT = ''vkDestroyDebugUtilsMessengerEXT''"
| "destroy_proc VkDevice = ''vkDestroyDevice''"
| "destroy_proc VkCommandPool = ''vkDestroyCommandPool''"
| "destroy_proc VkCommandBuffer = ''vkFreeCommandBuffers''"
| "destroy_proc VkDescriptorSetLayout = ''vkDestroyDescriptorSetLayout''"
| "destroy_proc VkPipelineLayout = ''vkDestroyPipelineLayout''"
| "destroy_proc VkBuffer = ''vkDestroyBuffer''"
| "destroy_proc VkDeviceMemory = ''vkFreeMemory''"
| "destroy_proc VkImage = ''vkDestroyImage''"
| "destroy_proc VkImageView = ''vkDestroyImageView''"
| "destroy_proc VkSampler = ''vkDestroySampler''"
| "destroy_proc VkShaderModule = ''vkDestroyShaderModule''"
| "destroy_proc VkPipeline = ''vkDestroyPipeline''"
| "destroy_proc VkDescriptorPool = ''vkDestroyDescriptorPool''"
| "destroy_proc VkSwapchainKHR = ''vkDestroySwapchainKHR''"
| "destroy_proc VkSemaphore = ''vkDestroySemaphore''"
| "destroy_proc VkFence = ''vkDestroyFence''"

fun call_proc :: "vk_call \<Rightarrow> string" where
  "call_proc vkEnumerateInstanceVersion = ''vkEnumerateInstanceVersion''"
| "call_proc (vkCreateInstance x0 x1 x2) = ''vkCreateInstance''"
| "call_proc vkCreateDebugUtilsMessengerEXT = ''vkCreateDebugUtilsMessengerEXT''"
| "call_proc (vkEnumeratePhysicalDevices x0) = ''vkEnumeratePhysicalDevices''"
| "call_proc (vkGetPhysicalDeviceWin32PresentationSupportKHR x0 x1) = ''vkGetPhysicalDeviceWin32PresentationSupportKHR''"
| "call_proc (vkCreateDevice x0 x1 x2 x3) = ''vkCreateDevice''"
| "call_proc (vkGetDeviceQueue x0 x1) = ''vkGetDeviceQueue''"
| "call_proc (vkCreateCommandPool x0) = ''vkCreateCommandPool''"
| "call_proc (vkCreateDescriptorSetLayout x0) = ''vkCreateDescriptorSetLayout''"
| "call_proc (vkCreatePipelineLayout x0 x1) = ''vkCreatePipelineLayout''"
| "call_proc (vkQueueWaitIdle x0) = ''vkQueueWaitIdle''"
| "call_proc (vkDeviceWaitIdle x0) = ''vkDeviceWaitIdle''"
| "call_proc (vkAllocateCommandBuffers x0) = ''vkAllocateCommandBuffers''"
| "call_proc (vkAllocateMemory x0) = ''vkAllocateMemory''"
| "call_proc (vkGetMemoryHostPointerPropertiesEXT x0) = ''vkGetMemoryHostPointerPropertiesEXT''"
| "call_proc (vkMapMemory x0) = ''vkMapMemory''"
| "call_proc (vkUnmapMemory x0) = ''vkUnmapMemory''"
| "call_proc (vkCreateBuffer x0) = ''vkCreateBuffer''"
| "call_proc (vkBindBufferMemory x0 x1 x2) = ''vkBindBufferMemory''"
| "call_proc (vkGetBufferDeviceAddress x0) = ''vkGetBufferDeviceAddress''"
| "call_proc (vkGetDeviceBufferMemoryRequirements x0) = ''vkGetDeviceBufferMemoryRequirements''"
| "call_proc (vkCreateImage x0) = ''vkCreateImage''"
| "call_proc (vkBindImageMemory x0 x1 x2) = ''vkBindImageMemory''"
| "call_proc (vkGetDeviceImageMemoryRequirements x0) = ''vkGetDeviceImageMemoryRequirements''"
| "call_proc (vkCreateImageView x0) = ''vkCreateImageView''"
| "call_proc (vkCreateSampler x0) = ''vkCreateSampler''"
| "call_proc (vkCreateShaderModule x0 x1) = ''vkCreateShaderModule''"
| "call_proc (vkCreateGraphicsPipelines x0) = ''vkCreateGraphicsPipelines''"
| "call_proc (vkCreateComputePipelines x0 x1) = ''vkCreateComputePipelines''"
| "call_proc (vkCreateDescriptorPool x0 x1) = ''vkCreateDescriptorPool''"
| "call_proc (vkAllocateDescriptorSets x0 x1) = ''vkAllocateDescriptorSets''"
| "call_proc (vkUpdateDescriptorSets x0) = ''vkUpdateDescriptorSets''"
| "call_proc (vkCreateSwapchainKHR x0) = ''vkCreateSwapchainKHR''"
| "call_proc (vkGetSwapchainImagesKHR x0 x1) = ''vkGetSwapchainImagesKHR''"
| "call_proc vkCreateSemaphore = ''vkCreateSemaphore''"
| "call_proc (vkCreateFence x0) = ''vkCreateFence''"
| "call_proc (vkAcquireNextImageKHR x0 x1 x2) = ''vkAcquireNextImageKHR''"
| "call_proc (vkWaitForFences x0 x1) = ''vkWaitForFences''"
| "call_proc (vkResetFences x0) = ''vkResetFences''"
| "call_proc (vkQueuePresentKHR x0 x1 x2 x3) = ''vkQueuePresentKHR''"
| "call_proc (vkBeginCommandBuffer x0) = ''vkBeginCommandBuffer''"
| "call_proc (vkEndCommandBuffer x0) = ''vkEndCommandBuffer''"
| "call_proc (vkCmd h c) = cmd_proc c"
| "call_proc (vkDestroy k h) = destroy_proc k"

section \<open>Loading\<close>

lemma load_procs_Inr:
  assumes "load_procs look_up ns t = Inr t'"
  shows "\<forall>n. t' n = 0 \<longrightarrow> t n = 0 \<and> n \<notin> set ns"
  using assms
proof (induction ns arbitrary: t)
  case (Cons m ns)
  have a: "look_up m \<noteq> 0" and b: "load_procs look_up ns (t(m := look_up m)) = Inr t'" using Cons.prems by (auto simp: and_then_Inr_iff)
  from Cons.IH [OF b] a show ?case by (auto split: if_splits)
qed simp

lemma load_procs_with_Inr:
  assumes "load_procs_with call g h ns t = Inr t'"
  shows "\<forall>n. t' n = 0 \<longrightarrow> t n = 0 \<and> n \<notin> set ns"
  using assms
proof (induction ns arbitrary: t)
  case (Cons m ns)
  have a: "call (t g) h m \<noteq> 0" and b: "load_procs_with call g h ns (t(m := call (t g) h m)) = Inr t'"
    using Cons.prems by (auto simp: and_then_Inr_iff split: if_splits)
  from Cons.IH [OF b] a show ?case by (auto split: if_splits)
qed simp

lemmas names_simps = LoadInitialVkCProcs_names_def LoadCProcsInstance_names_def LoadCProcsDevice_names_def list.set

lemma state_proc_loaded: "state_proc c \<in> set LoadCProcsDevice_names"
  unfolding names_simps by (cases c) (simp_all only: state_proc.simps, (rule insertI1 | rule insertI2)+)

lemma cmd_proc_loaded: "cmd_proc c \<in> set LoadCProcsDevice_names"
proof (cases "\<exists>x. c = vkCmdSet x")
  case False
  then show ?thesis unfolding names_simps by (cases c) (simp_all only: cmd_proc.simps vk_cmd.simps, ((rule insertI1 | rule insertI2)+)?, blast?)
qed (use state_proc_loaded in auto)

text \<open>
  What the context asks a physical device about its properties, features, queue families and memory. The answers are the data of the device
  (\<open>device_caps\<close> of \<open>Vk_Context\<close>), so these are not among the calls of \<open>vk_call\<close>; with the two functions that look up names, which the loaders call, they are all the others.
\<close>

definition query_procs :: "string list" where
  "query_procs = [''vkGetPhysicalDeviceProperties2'', ''vkGetPhysicalDeviceFeatures2'', ''vkGetPhysicalDeviceQueueFamilyProperties'',
    ''vkGetPhysicalDeviceMemoryProperties'']"

lemma query_procs_loaded: "set query_procs \<subseteq> set LoadCProcsInstance_names"
  unfolding query_procs_def names_simps insert_subset by (intro conjI; (rule insertI1 | rule insertI2 | rule empty_subsetI)+)

lemma look_up_procs_loaded: "''vkGetInstanceProcAddr'' \<in> set LoadInitialVkCProcs_names" "''vkGetDeviceProcAddr'' \<in> set LoadCProcsInstance_names"
  unfolding names_simps by (rule insertI1 | rule insertI2)+

text \<open>The calls that need no device, and of these the ones that need no instance.\<close>

fun needs_no_instance :: "vk_call \<Rightarrow> bool" where
  "needs_no_instance vkEnumerateInstanceVersion = True"
| "needs_no_instance (vkCreateInstance v l e) = True"
| "needs_no_instance c = False"

fun needs_no_device :: "vk_call \<Rightarrow> bool" where
  "needs_no_device vkCreateDebugUtilsMessengerEXT = True"
| "needs_no_device (vkEnumeratePhysicalDevices b) = True"
| "needs_no_device (vkGetPhysicalDeviceWin32PresentationSupportKHR p q) = True"
| "needs_no_device (vkCreateDevice p q e f) = True"
| "needs_no_device (vkDestroy k h) = (k \<in> {VkInstance, VkDebugUtilsMessengerEXT, VkDevice})"
| "needs_no_device c = needs_no_instance c"

lemma initial_proc_loaded: "needs_no_instance c \<Longrightarrow> call_proc c \<in> set LoadInitialVkCProcs_names"
  unfolding names_simps by (cases c) (simp_all only: call_proc.simps needs_no_instance.simps, (rule insertI1 | rule insertI2)+)

lemma instance_proc_loaded:
  assumes "needs_no_device c" and "\<not> needs_no_instance c"
  shows "call_proc c \<in> set LoadCProcsInstance_names"
proof (cases "\<exists>k h. c = vkDestroy k h")
  case True
  then obtain k h where "c = vkDestroy k h" by blast
  moreover from this assms have "k \<in> {VkInstance, VkDebugUtilsMessengerEXT, VkDevice}" by simp
  ultimately show ?thesis
    by (cases k) (simp_all only: call_proc.simps destroy_proc.simps names_simps vk_kind.simps insert_iff empty_iff simp_thms, ((rule disjI1 [OF refl] | rule disjI2 | rule refl)+)?)
next
  case False
  then show ?thesis
    using assms unfolding names_simps
    by (cases c) (simp_all only: call_proc.simps needs_no_device.simps needs_no_instance.simps simp_thms, ((rule insertI1 | rule insertI2)+)?, blast?)
qed

lemma device_proc_loaded:
  assumes "\<not> needs_no_device c"
  shows "call_proc c \<in> set LoadCProcsDevice_names"
proof (cases c)
  case (vkDestroy k h)
  then show ?thesis using assms unfolding names_simps
    by (cases k) (simp_all only: call_proc.simps destroy_proc.simps needs_no_device.simps insert_iff simp_thms, ((rule disjI1 [OF refl] | rule disjI2)+)?)
next
  case (vkCmd h c)
  then show ?thesis using cmd_proc_loaded by simp
qed (insert assms, simp_all only: call_proc.simps needs_no_device.simps needs_no_instance.simps simp_thms names_simps, (rule insertI1 | rule insertI2)+)

text \<open>
  C28. After the three loaders every call of the layer goes through a pointer that is not null; the calls that need no device and the queries of a physical device already after the
  second one, and the calls that need no instance after the first, which is the order in which the context makes them; and each loader finds the function that looks up its names.
\<close>

theorem calls_have_procs:
  assumes "LoadInitialVkCProcs dll GetProcAddress no_procs = Inr t1" and "LoadCProcsInstance call instance_handle t1 = Inr t2"
    and "LoadCProcsDevice call device t2 = Inr t3"
  shows "t3 (call_proc c) \<noteq> 0 \<and> (needs_no_device c \<longrightarrow> t2 (call_proc c) \<noteq> 0) \<and> (needs_no_instance c \<longrightarrow> t1 (call_proc c) \<noteq> 0) \<and>
    (\<forall>n\<in>set query_procs. t2 n \<noteq> 0 \<and> t3 n \<noteq> 0) \<and> t1 ''vkGetInstanceProcAddr'' \<noteq> 0 \<and> t2 ''vkGetDeviceProcAddr'' \<noteq> 0"
proof -
  have 1: "load_procs (GetProcAddress dll) LoadInitialVkCProcs_names no_procs = Inr t1"
    using assms(1) by (auto simp: LoadInitialVkCProcs_def and_then_Inr_iff)
  note l = load_procs_Inr [OF 1] load_procs_with_Inr [OF assms(2) [unfolded LoadCProcsInstance_def]]
    load_procs_with_Inr [OF assms(3) [unfolded LoadCProcsDevice_def]]
  have n: "needs_no_instance c \<Longrightarrow> needs_no_device c" by (cases c) simp_all
  have "t1 (call_proc c) \<noteq> 0" if "needs_no_instance c" using l(1) initial_proc_loaded [OF that] by blast
  moreover have "t2 (call_proc c) \<noteq> 0" if "needs_no_device c" using l(1,2) initial_proc_loaded [of c] instance_proc_loaded [OF that] by blast
  moreover have "t3 (call_proc c) \<noteq> 0" using l device_proc_loaded [of c] instance_proc_loaded [of c] initial_proc_loaded [of c] by blast
  moreover have "\<forall>n\<in>set query_procs. t2 n \<noteq> 0 \<and> t3 n \<noteq> 0" using l(2,3) query_procs_loaded by blast
  moreover have "t1 ''vkGetInstanceProcAddr'' \<noteq> 0" "t2 ''vkGetDeviceProcAddr'' \<noteq> 0" using l(1,2) look_up_procs_loaded by blast+
  ultimately show ?thesis by blast
qed

lemma one_more:
  "\<exists>us vs. ys = us @ vs \<and> x # ys = us @ x # vs"
  "\<exists>us vs. ys = us @ vs \<and> zs = us @ x # vs \<Longrightarrow> \<exists>us vs. y # ys = us @ vs \<and> y # zs = us @ x # vs"
  by (metis append_Nil, metis append_Cons)

text \<open>Every pointer that is declared is loaded, by the loader of its group, in the order of the declarations; \<open>vkGetDeviceProcAddr\<close> twice.\<close>

theorem declared_procs_loaded:
  "LoadInitialVkCProcs_names = initial_procs \<and> LoadCProcsInstance_names = instance_procs \<and>
   (\<exists>us vs. device_procs = us @ vs \<and> LoadCProcsDevice_names = us @ ''vkGetDeviceProcAddr'' # vs)"
proof (intro conjI)
  show "\<exists>us vs. device_procs = us @ vs \<and> LoadCProcsDevice_names = us @ ''vkGetDeviceProcAddr'' # vs"
    unfolding LoadCProcsDevice_names_def device_procs_def by (rule one_more)+
qed (simp_all only: LoadInitialVkCProcs_names_def initial_procs_def LoadCProcsInstance_names_def instance_procs_def)

text \<open>The header declares exactly the pointers that are defined, in the same order, so that no file uses one that is not loaded.\<close>

theorem extern_procs_defined: "extern_initial_procs = initial_procs \<and> extern_instance_procs = instance_procs \<and> extern_device_procs = device_procs"
  by (simp only: extern_initial_procs_def initial_procs_def extern_instance_procs_def instance_procs_def extern_device_procs_def device_procs_def simp_thms)

lemma example_procs:
  obtains t1 t2 t3 where "LoadInitialVkCProcs 1 (\<lambda>_ _. 5) no_procs = Inr t1" "LoadCProcsInstance (\<lambda>_ _ _. 6) h t1 = Inr t2"
    "LoadCProcsDevice (\<lambda>_ _ _. 6) h' t2 = Inr t3"
proof -
  have l: "\<exists>t'. load_procs (\<lambda>_. 5) ns t = Inr t'" for ns t
    by (induction ns arbitrary: t) auto
  have w: "t g \<noteq> 0 \<Longrightarrow> \<exists>t'. load_procs_with (\<lambda>_ _ _. 6) g k ns t = Inr t'" for ns t g k
    by (induction ns arbitrary: t) auto
  obtain t1 where 1: "LoadInitialVkCProcs 1 (\<lambda>_ _. 5) no_procs = Inr t1"
    using l [of LoadInitialVkCProcs_names no_procs] by (auto simp: LoadInitialVkCProcs_def)
  note m = look_up_procs_loaded
  have "t1 ''vkGetInstanceProcAddr'' \<noteq> 0"
    using load_procs_Inr [of "\<lambda>_. 5" LoadInitialVkCProcs_names no_procs t1] 1 m(1) unfolding LoadInitialVkCProcs_def by auto
  then obtain t2 where 2: "LoadCProcsInstance (\<lambda>_ _ _. 6) h t1 = Inr t2"
    unfolding LoadCProcsInstance_def using w [of t1 "''vkGetInstanceProcAddr''" h LoadCProcsInstance_names] by auto
  have "t2 ''vkGetDeviceProcAddr'' \<noteq> 0"
    using load_procs_with_Inr [OF 2 [unfolded LoadCProcsInstance_def]] m(2) by blast
  then obtain t3 where "LoadCProcsDevice (\<lambda>_ _ _. 6) h' t2 = Inr t3"
    unfolding LoadCProcsDevice_def using w [of t2 "''vkGetDeviceProcAddr''" h' LoadCProcsDevice_names] by auto
  with 1 2 that show thesis by blast
qed

theorem calls_have_procs_witness:
  "\<exists>t1 t2 t3. LoadInitialVkCProcs 1 (\<lambda>_ _. 5) no_procs = Inr t1 \<and> LoadCProcsInstance (\<lambda>_ _ _. 6) 2 t1 = Inr t2 \<and>
    LoadCProcsDevice (\<lambda>_ _ _. 6) 3 t2 = Inr t3 \<and> t3 (call_proc (vkQueueWaitIdle 4)) \<noteq> 0 \<and> t2 (call_proc (vkEnumeratePhysicalDevices True)) \<noteq> 0 \<and>
    t1 (call_proc vkEnumerateInstanceVersion) \<noteq> 0 \<and> t2 ''vkGetPhysicalDeviceProperties2'' \<noteq> 0"
proof -
  obtain t1 t2 t3 where t: "LoadInitialVkCProcs 1 (\<lambda>_ _. 5) no_procs = Inr t1" "LoadCProcsInstance (\<lambda>_ _ _. 6) 2 t1 = Inr t2"
      "LoadCProcsDevice (\<lambda>_ _ _. 6) 3 t2 = Inr t3"
    by (rule example_procs)
  have q: "''vkGetPhysicalDeviceProperties2'' \<in> set query_procs" unfolding query_procs_def list.set by (rule insertI1)
  have n: "needs_no_device (vkEnumeratePhysicalDevices True)" "needs_no_instance vkEnumerateInstanceVersion" by simp_all
  note c = calls_have_procs [OF t]
  show ?thesis
    using c [of "vkQueueWaitIdle 4"] c [of "vkEnumeratePhysicalDevices True"] c [of vkEnumerateInstanceVersion] q n t by blast
qed

end
