(* ===== verification/Vk_Context.thy ===== *)
theory Vk_Context
  imports Vk_Command Vk_Proc
begin

text \<open>
  The context: \<open>vk_context.hpp\<close> and \<open>vk_context.vulkan.cpp\<close>. It loads the driver, picks a physical device, and makes the device, the command
  pool and the layouts that the rest of the layer uses. Shown here: the device that is picked supports what the device is created with; what the
  constructor makes, the destructor destroys, provided that everything made in between is gone; and the push constants of the
  command buffer against the pipeline layout.

  What the driver says of a physical device does not change, so it is an argument of its own. \<open>malloc\<close> does not fail.
  The global pointer to the context, which \<open>SetGlobalContext\<close> sets and \<open>GetGlobalContext\<close> returns, is the argument \<open>context\<close> of the operations that read it.
\<close>

section \<open>Targets\<close>

definition TargetMinimumApiVersion :: u32 where
  "TargetMinimumApiVersion = push_bit 29 0 OR push_bit 22 1 OR push_bit 12 3 OR 0"

definition TargetMemoryPoolAlignment :: u64 where "TargetMemoryPoolAlignment = 0x1000"
definition TargetStorageBufferAlignment :: u64 where "TargetStorageBufferAlignment = 0x100"
definition TargetTexelBufferAlignment :: u64 where "TargetTexelBufferAlignment = 0x100"
definition TargetMaxUniformBufferSize :: u32 where "TargetMaxUniformBufferSize = 0x10000"
definition TargetMaxTextureDescriptors :: u32 where "TargetMaxTextureDescriptors = 0x412c"
definition TargetMaxSamplerDescriptors :: u32 where "TargetMaxSamplerDescriptors = 0x1000"
definition TargetMaxBufferDescriptors :: u32 where "TargetMaxBufferDescriptors = 6"
definition TargetDescriptors :: u32 where
  "TargetDescriptors = TargetMaxTextureDescriptors + TargetMaxSamplerDescriptors + TargetMaxBufferDescriptors"

definition DebugLayers :: "string list" where "DebugLayers = [''VK_LAYER_KHRONOS_validation'']"

definition InstanceExtensions :: "string list" where
  "InstanceExtensions = [''VK_EXT_debug_utils'', ''VK_KHR_surface'', ''VK_KHR_get_surface_capabilities2'', ''VK_KHR_win32_surface'']"

definition DeviceExtensions :: "string list" where
  "DeviceExtensions = [''VK_KHR_swapchain'', ''VK_EXT_extended_dynamic_state2'', ''VK_EXT_vertex_input_dynamic_state'',
    ''VK_EXT_external_memory_host'', ''VK_EXT_extended_dynamic_state3'']"

definition TargetDeviceExtendedDynamicState3Features :: "string list" where
  "TargetDeviceExtendedDynamicState3Features = [
    ''extendedDynamicState3DepthClampEnable'', ''extendedDynamicState3PolygonMode'', ''extendedDynamicState3LogicOpEnable'',
    ''extendedDynamicState3ColorBlendEnable'', ''extendedDynamicState3ColorBlendEquation'', ''extendedDynamicState3ColorWriteMask'']"

definition TargetDeviceExtendedDynamicState2Features :: "string list" where
  "TargetDeviceExtendedDynamicState2Features = [
    ''extendedDynamicState2LogicOp'']"

definition TargetDeviceVertexInputDynamicStateFeatures :: "string list" where
  "TargetDeviceVertexInputDynamicStateFeatures = [
    ''vertexInputDynamicState'']"

definition TargetDeviceFeatures13 :: "string list" where
  "TargetDeviceFeatures13 = [
    ''synchronization2'', ''dynamicRendering'', ''maintenance4'']"

definition TargetDeviceFeatures12 :: "string list" where
  "TargetDeviceFeatures12 = [
    ''descriptorIndexing'', ''shaderUniformBufferArrayNonUniformIndexing'', ''shaderSampledImageArrayNonUniformIndexing'',
    ''descriptorBindingSampledImageUpdateAfterBind'', ''descriptorBindingPartiallyBound'', ''descriptorBindingVariableDescriptorCount'',
    ''runtimeDescriptorArray'', ''scalarBlockLayout'', ''bufferDeviceAddress'', ''bufferDeviceAddressCaptureReplay'']"

definition TargetDeviceFeatures11 :: "string list" where
  "TargetDeviceFeatures11 = [
    ''variablePointersStorageBuffer'', ''variablePointers'']"

definition TargetDeviceFeatures10 :: "string list" where
  "TargetDeviceFeatures10 = [
    ''independentBlend'', ''geometryShader'', ''tessellationShader'', ''logicOp'', ''depthClamp'', ''depthBiasClamp'',
    ''fillModeNonSolid'', ''depthBounds'', ''wideLines'', ''largePoints'', ''multiViewport'', ''samplerAnisotropy'',
    ''textureCompressionBC'', ''fragmentStoresAndAtomics'', ''shaderStorageImageExtendedFormats'',
    ''shaderUniformBufferArrayDynamicIndexing'', ''shaderSampledImageArrayDynamicIndexing'', ''shaderStorageBufferArrayDynamicIndexing'',
    ''shaderStorageImageArrayDynamicIndexing'']"

text \<open>The chain that is passed to \<open>vkCreateDevice\<close>.\<close>

definition TargetDeviceFeatures :: "string list" where
  "TargetDeviceFeatures = TargetDeviceFeatures10 @ TargetDeviceFeatures11 @ TargetDeviceFeatures12 @ TargetDeviceFeatures13 @
    TargetDeviceVertexInputDynamicStateFeatures @ TargetDeviceExtendedDynamicState2Features @ TargetDeviceExtendedDynamicState3Features"

text \<open>The features \<open>PickValidPhysicalDevice\<close> asks for, one after the other.\<close>

definition checked_features :: "string list" where
  "checked_features = [
    ''independentBlend'', ''geometryShader'', ''tessellationShader'', ''logicOp'', ''depthClamp'', ''depthBiasClamp'',
    ''fillModeNonSolid'', ''depthBounds'', ''wideLines'', ''largePoints'', ''multiViewport'', ''samplerAnisotropy'',
    ''textureCompressionBC'', ''fragmentStoresAndAtomics'', ''shaderStorageImageExtendedFormats'',
    ''shaderUniformBufferArrayDynamicIndexing'', ''shaderSampledImageArrayDynamicIndexing'', ''shaderStorageBufferArrayDynamicIndexing'',
    ''shaderStorageImageArrayDynamicIndexing'', ''variablePointersStorageBuffer'', ''variablePointers'', ''descriptorIndexing'',
    ''shaderUniformBufferArrayNonUniformIndexing'', ''shaderSampledImageArrayNonUniformIndexing'',
    ''descriptorBindingSampledImageUpdateAfterBind'', ''descriptorBindingPartiallyBound'', ''descriptorBindingVariableDescriptorCount'',
    ''runtimeDescriptorArray'', ''scalarBlockLayout'', ''bufferDeviceAddress'', ''bufferDeviceAddressCaptureReplay'', ''synchronization2'',
    ''dynamicRendering'', ''maintenance4'', ''vertexInputDynamicState'', ''extendedDynamicState2LogicOp'',
    ''extendedDynamicState3DepthClampEnable'', ''extendedDynamicState3PolygonMode'', ''extendedDynamicState3LogicOpEnable'',
    ''extendedDynamicState3ColorBlendEnable'', ''extendedDynamicState3ColorBlendEquation'', ''extendedDynamicState3ColorWriteMask'']"

section \<open>Physical devices\<close>

text \<open>What the code reads of the properties, the features, the queue families (their flags) and the memory types of a device.\<close>

record device_caps =
  apiVersion :: u32
  maxUniformBufferRange :: u32
  minMemoryMapAlignment :: u64
  minUniformBufferOffsetAlignment :: u64
  minStorageBufferOffsetAlignment :: u64
  minTexelBufferOffsetAlignment :: u64
  maxUpdateAfterBindDescriptorsInAllPools :: u32
  maxDescriptorSetUpdateAfterBindSampledImages :: u32
  maxDescriptorSetUpdateAfterBindSamplers :: u32
  maxDescriptorSetUniformBuffers :: u32
  supported :: "string \<Rightarrow> bool"
  queueFlags :: "u32 list"
  memory_type_flags :: "u32 list"

definition VK_QUEUE_GRAPHICS_BIT :: u32 where "VK_QUEUE_GRAPHICS_BIT = 1"

fun queue_family_loop :: "u32 list \<Rightarrow> u32 \<Rightarrow> u32 option" where
  "queue_family_loop [] i = None"
| "queue_family_loop (f # fs) i =
    (if f AND VK_QUEUE_GRAPHICS_BIT \<noteq> VK_QUEUE_GRAPHICS_BIT then queue_family_loop fs (i + 1) else Some i)"

definition FindGraphicsQueueFamily :: "(u64 \<Rightarrow> device_caps) \<Rightarrow> vk_context \<Rightarrow> u32 option" where
  "FindGraphicsQueueFamily caps c = queue_family_loop (queueFlags (caps (m_vk_physical_device c))) 0"

text \<open>A check that fails says \<open>DD_ASSERT(false); continue;\<close>.\<close>

fun all_checks :: "bool outcome list \<Rightarrow> bool outcome" where
  "all_checks [] = Inr True"
| "all_checks (c # cs) = and_then c (\<lambda>ok. if ok then all_checks cs else Inr False)"

definition alignment_check :: "u64 \<Rightarrow> u64 \<Rightarrow> bool outcome" where
  "alignment_check target vk_alignment =
    (if vk_alignment = 0 then Inl DivideByZero else Inr (target mod vk_alignment = 0 \<and> 0 < target div vk_alignment))"

definition version_checks :: "device_caps \<Rightarrow> bool outcome list" where
  "version_checks d = [Inr (TargetMinimumApiVersion \<le> apiVersion d), Inr (\<not> maxUniformBufferRange d < TargetMaxUniformBufferSize)]"

definition limit_checks :: "device_caps \<Rightarrow> bool outcome list" where
  "limit_checks d = [alignment_check TargetMemoryPoolAlignment (minMemoryMapAlignment d),
    alignment_check TargetConstantBufferAlignment (minUniformBufferOffsetAlignment d),
    alignment_check TargetStorageBufferAlignment (minStorageBufferOffsetAlignment d),
    alignment_check TargetTexelBufferAlignment (minTexelBufferOffsetAlignment d),
    Inr (\<not> maxUpdateAfterBindDescriptorsInAllPools d < TargetDescriptors),
    Inr (\<not> maxDescriptorSetUpdateAfterBindSampledImages d < TargetMaxTextureDescriptors),
    Inr (\<not> maxDescriptorSetUpdateAfterBindSamplers d < TargetMaxSamplerDescriptors),
    Inr (\<not> maxDescriptorSetUniformBuffers d < TargetMaxBufferDescriptors)] @ map (\<lambda>f. Inr (supported d f)) checked_features"

text \<open>In a release build (\<open>debug\<close> is false) an assertion does nothing.\<close>

definition assert_if :: "bool \<Rightarrow> bool \<Rightarrow> unit outcome" where
  "assert_if debug b = (if debug then dd_assert b () else Inr ())"

definition VK_TRUE_answer :: "vk_answer \<Rightarrow> bool" where "VK_TRUE_answer a \<longleftrightarrow> vk_result a = VK_TRUE"

fun pick_loop :: "bool \<Rightarrow> vk_driver \<Rightarrow> (u64 \<Rightarrow> device_caps) \<Rightarrow> u64 list \<Rightarrow> u32 \<Rightarrow> vk_context \<Rightarrow> vk_log \<Rightarrow> (bool \<times> vk_context \<times> vk_log) outcome" where
  "pick_loop debug drv caps [] i c w = Inr (False, c, w)"
| "pick_loop debug drv caps (d # ds) i c w =
    and_then (all_checks (version_checks (caps d))) (\<lambda>ok.
    if ok then
      let c = c\<lparr>m_vk_physical_device := d\<rparr>; family = FindGraphicsQueueFamily caps c in
      and_then (assert_if debug (family \<noteq> None)) (\<lambda>_.
      case ask drv (vkGetPhysicalDeviceWin32PresentationSupportKHR d (case family of None \<Rightarrow> 0 | Some q \<Rightarrow> q)) w of (a, w) \<Rightarrow>
      and_then (assert_if debug (VK_TRUE_answer a)) (\<lambda>_.
      let c = c\<lparr>m_vk_physical_device := 0\<rparr> in
      and_then (all_checks (limit_checks (caps d))) (\<lambda>ok.
      if ok then Inr (True, c\<lparr>m_vk_physical_device := d, m_physical_device_index := i\<rparr>, w)
      else if debug then Inl AssertFailed else pick_loop debug drv caps ds (i + 1) c w)))
    else if debug then Inl AssertFailed else pick_loop debug drv caps ds (i + 1) c w)"

definition PickValidPhysicalDevice :: "bool \<Rightarrow> vk_driver \<Rightarrow> (u64 \<Rightarrow> device_caps) \<Rightarrow> u64 list \<Rightarrow> vk_context \<Rightarrow> vk_log \<Rightarrow> (bool \<times> vk_context \<times> vk_log) outcome" where
  "PickValidPhysicalDevice debug drv caps m_vk_physical_device_array c w = pick_loop debug drv caps m_vk_physical_device_array 0 c w"

section \<open>The constructor and the destructor\<close>

definition push_range :: "u32 \<Rightarrow> u32 \<Rightarrow> VkPushConstantRange" where
  "push_range stage n = \<lparr>range_stages = stage, range_offset = 8 * n, range_size = 8\<rparr>"

definition resource_index_push_constant_ranges :: "VkPushConstantRange list" where
  "resource_index_push_constant_ranges = [push_range VK_SHADER_STAGE_VERTEX_BIT 0, push_range VK_SHADER_STAGE_TESSELLATION_EVALUATION_BIT 1,
    push_range VK_SHADER_STAGE_TESSELLATION_CONTROL_BIT 2, push_range VK_SHADER_STAGE_GEOMETRY_BIT 3,
    push_range VK_SHADER_STAGE_FRAGMENT_BIT 4, push_range VK_SHADER_STAGE_COMPUTE_BIT 5]"

definition texture_set_binding :: VkDescriptorSetLayoutBinding where
  "texture_set_binding = \<lparr>layout_binding = 0, layout_type = VK_DESCRIPTOR_TYPE_SAMPLED_IMAGE, layout_count = TargetMaxTextureDescriptors,
    layout_stages = VK_SHADER_STAGE_ALL\<rparr>"

definition sampler_set_binding :: VkDescriptorSetLayoutBinding where
  "sampler_set_binding = \<lparr>layout_binding = 0, layout_type = VK_DESCRIPTOR_TYPE_SAMPLER, layout_count = TargetMaxSamplerDescriptors,
    layout_stages = VK_SHADER_STAGE_ALL\<rparr>"

text \<open>What the constructor finds outside: the library, the functions that look up names, and the physical devices.\<close>

record vk_system =
  vulkan_library :: u64
  get_proc_address :: "u64 \<Rightarrow> string \<Rightarrow> u64"
  look_up_proc :: "u64 \<Rightarrow> u64 \<Rightarrow> string \<Rightarrow> u64"
  physical_devices :: "u64 \<Rightarrow> device_caps"

definition create_instance :: "vk_driver \<Rightarrow> vk_system \<Rightarrow> vk_context \<times> proc_table \<Rightarrow> vk_log \<Rightarrow> ((vk_context \<times> proc_table) \<times> vk_log) outcome" where
  "create_instance drv sys s w =
    (case s of (c, t) \<Rightarrow>
    and_then (LoadInitialVkCProcs (vulkan_library sys) (get_proc_address sys) t) (\<lambda>t.
    case ask drv vkEnumerateInstanceVersion w of (a, w) \<Rightarrow>
    and_then (dd_assert (TargetMinimumApiVersion \<le> ucast (vk_value a)) ()) (\<lambda>_.
    and_then (create drv (vkCreateInstance TargetMinimumApiVersion DebugLayers InstanceExtensions) w) (\<lambda>(h, w).
    and_then (LoadCProcsInstance (look_up_proc sys) h t) (\<lambda>t.
    and_then (create drv vkCreateDebugUtilsMessengerEXT w) (\<lambda>(m, w).
    Inr ((c\<lparr>m_vk_instance := h, m_debug_messenger := m\<rparr>, t), w)))))))"

definition choose_device :: "vk_driver \<Rightarrow> vk_system \<Rightarrow> vk_context \<Rightarrow> vk_log \<Rightarrow> (vk_context \<times> vk_log) outcome" where
  "choose_device drv sys c w =
    and_then (checked drv (vkEnumeratePhysicalDevices False) w) (\<lambda>(a, w).
    and_then (dd_assert (vk_value a \<noteq> 0) ()) (\<lambda>_.
    and_then (checked drv (vkEnumeratePhysicalDevices True) w) (\<lambda>(a, w).
    and_then (PickValidPhysicalDevice True drv (physical_devices sys) (take (unat (vk_value a)) (vk_values a)) c w) (\<lambda>(found, c, w).
    and_then (dd_assert found ()) (\<lambda>_.
    case FindGraphicsQueueFamily (physical_devices sys) c of None \<Rightarrow> Inl AssertFailed
    | Some q \<Rightarrow> Inr (c\<lparr>m_graphics_queue_family_index := q\<rparr>, w))))))"

definition create_device :: "vk_driver \<Rightarrow> vk_system \<Rightarrow> vk_context \<times> proc_table \<Rightarrow> vk_log \<Rightarrow> ((vk_context \<times> proc_table) \<times> vk_log) outcome" where
  "create_device drv sys s w =
    (case s of (c, t) \<Rightarrow>
    and_then (create drv (vkCreateDevice (m_vk_physical_device c) (m_graphics_queue_family_index c) DeviceExtensions TargetDeviceFeatures) w) (\<lambda>(h, w).
    and_then (LoadCProcsDevice (look_up_proc sys) h t) (\<lambda>t.
    case ask drv (vkGetDeviceQueue h (m_graphics_queue_family_index c)) w of (a, w) \<Rightarrow>
    Inr ((c\<lparr>m_vk_device := h, m_vk_graphics_queue := vk_value a\<rparr>, t), w))))"

definition create_layouts :: "vk_driver \<Rightarrow> vk_system \<Rightarrow> vk_context \<Rightarrow> vk_log \<Rightarrow> (vk_context \<times> vk_log) outcome" where
  "create_layouts drv sys c w =
    and_then (create drv (vkCreateCommandPool (m_graphics_queue_family_index c)) w) (\<lambda>(pool, w).
    let c = c\<lparr>m_vk_graphics_command_pool := pool, memory_types := memory_type_flags (physical_devices sys (m_vk_physical_device c))\<rparr> in
    and_then (create drv (vkCreateDescriptorSetLayout texture_set_binding) w) (\<lambda>(texture_layout, w).
    and_then (create drv (vkCreateDescriptorSetLayout sampler_set_binding) w) (\<lambda>(sampler_layout, w).
    and_then (create drv (vkCreatePipelineLayout [texture_layout, sampler_layout] resource_index_push_constant_ranges) w) (\<lambda>(layout, w).
    Inr (c\<lparr>m_vk_texture_descriptor_set_layout := texture_layout, m_vk_sampler_descriptor_set_layout := sampler_layout,
      m_vk_pipeline_layout := layout\<rparr>, w)))))"

definition Context_new :: "vk_driver \<Rightarrow> vk_system \<Rightarrow> vk_context \<times> proc_table \<Rightarrow> vk_log \<Rightarrow> ((vk_context \<times> proc_table) \<times> vk_log) outcome" where
  "Context_new drv sys s w =
    and_then (create_instance drv sys s w) (\<lambda>((c, t), w).
    and_then (choose_device drv sys c w) (\<lambda>(c, w).
    and_then (create_device drv sys (c, t) w) (\<lambda>((c, t), w).
    and_then (create_layouts drv sys c w) (\<lambda>(c, w). Inr ((c, t), w)))))"

definition Context_delete :: "vk_driver \<Rightarrow> vk_context \<Rightarrow> vk_log \<Rightarrow> vk_log" where
  "Context_delete drv c w =
    fold (tell drv) [vkQueueWaitIdle (m_vk_graphics_queue c), vkDeviceWaitIdle (m_vk_device c), vkDestroy VkPipelineLayout (m_vk_pipeline_layout c),
      vkDestroy VkDescriptorSetLayout (m_vk_texture_descriptor_set_layout c), vkDestroy VkDescriptorSetLayout (m_vk_sampler_descriptor_set_layout c),
      vkDestroy VkCommandPool (m_vk_graphics_command_pool c), vkDestroy VkDevice (m_vk_device c),
      vkDestroy VkDebugUtilsMessengerEXT (m_debug_messenger c), vkDestroy VkInstance (m_vk_instance c)] w"

section \<open>The device that is picked\<close>

definition suitable_device :: "device_caps \<Rightarrow> bool" where
  "suitable_device d \<longleftrightarrow> all_checks (version_checks d) = Inr True \<and> all_checks (limit_checks d) = Inr True"

lemma features_checked: "set TargetDeviceFeatures \<subseteq> set checked_features"
  unfolding TargetDeviceFeatures_def TargetDeviceFeatures10_def TargetDeviceFeatures11_def TargetDeviceFeatures12_def TargetDeviceFeatures13_def
    TargetDeviceVertexInputDynamicStateFeatures_def TargetDeviceExtendedDynamicState2Features_def TargetDeviceExtendedDynamicState3Features_def
    checked_features_def append_Cons append_Nil list.set insert_subset
  by (intro conjI; ((rule insertI1 | rule insertI2 | rule empty_subsetI)+))

text \<open>
  What the framework needs of a device, read off its targets: the version, the size of a uniform buffer, four alignments that divide its own, four
  numbers of descriptors, and every feature the device is created with.
\<close>

definition divides :: "u64 \<Rightarrow> u64 \<Rightarrow> bool" where
  "divides vk_alignment target \<longleftrightarrow> vk_alignment \<noteq> 0 \<and> target mod vk_alignment = 0"

definition meets_targets :: "device_caps \<Rightarrow> bool" where
  "meets_targets d \<longleftrightarrow> TargetMinimumApiVersion \<le> apiVersion d \<and> TargetMaxUniformBufferSize \<le> maxUniformBufferRange d \<and>
    divides (minMemoryMapAlignment d) TargetMemoryPoolAlignment \<and> divides (minUniformBufferOffsetAlignment d) TargetConstantBufferAlignment \<and>
    divides (minStorageBufferOffsetAlignment d) TargetStorageBufferAlignment \<and> divides (minTexelBufferOffsetAlignment d) TargetTexelBufferAlignment \<and>
    TargetDescriptors \<le> maxUpdateAfterBindDescriptorsInAllPools d \<and>
    TargetMaxTextureDescriptors \<le> maxDescriptorSetUpdateAfterBindSampledImages d \<and>
    TargetMaxSamplerDescriptors \<le> maxDescriptorSetUpdateAfterBindSamplers d \<and>
    TargetMaxBufferDescriptors \<le> maxDescriptorSetUniformBuffers d \<and> (\<forall>f\<in>set TargetDeviceFeatures. supported d f)"

lemma features_wanted: "set checked_features \<subseteq> set TargetDeviceFeatures"
  unfolding TargetDeviceFeatures_def TargetDeviceFeatures10_def TargetDeviceFeatures11_def TargetDeviceFeatures12_def TargetDeviceFeatures13_def
    TargetDeviceVertexInputDynamicStateFeatures_def TargetDeviceExtendedDynamicState2Features_def TargetDeviceExtendedDynamicState3Features_def
    checked_features_def append_Cons append_Nil list.set insert_subset
  by (intro conjI; ((rule insertI1 | rule insertI2 | rule empty_subsetI)+))

lemma all_checks_iff: "all_checks cs = Inr True \<longleftrightarrow> (\<forall>c\<in>set cs. c = Inr True)"
  by (induction cs) (auto simp: and_then_Inr_iff split: if_splits)

lemma alignment_check_iff: "target \<noteq> 0 \<Longrightarrow> alignment_check target a = Inr True \<longleftrightarrow> divides a target"
  using div_mult_mod_eq [of target a] by (cases "target div a = 0") (simp_all add: alignment_check_def divides_def word_gt_0)

lemma suitable_meets: "suitable_device d \<longleftrightarrow> meets_targets d"
proof -
  have t: "TargetMemoryPoolAlignment \<noteq> 0" "TargetConstantBufferAlignment \<noteq> 0" "TargetStorageBufferAlignment \<noteq> 0" "TargetTexelBufferAlignment \<noteq> 0"
    by (simp_all add: TargetMemoryPoolAlignment_def TargetConstantBufferAlignment_def TargetStorageBufferAlignment_def TargetTexelBufferAlignment_def)
  have f: "set checked_features = set TargetDeviceFeatures" using features_checked features_wanted by (rule equalityI [rotated])
  show ?thesis
    unfolding suitable_device_def all_checks_iff version_checks_def limit_checks_def set_append list.set set_map f meets_targets_def
    by (auto simp: t [THEN alignment_check_iff] linorder_not_less)
qed

lemma pick_loop_found:
  assumes "pick_loop debug drv caps ds i c w = Inr (True, c', w')"
  shows "\<exists>n<length ds. m_physical_device_index c' = i + of_nat n \<and> m_vk_physical_device c' = ds ! n \<and> suitable_device (caps (ds ! n)) \<and>
    (\<forall>m<n. \<not> suitable_device (caps (ds ! m)))"
  using assms
proof (induction ds arbitrary: i c w)
  case (Cons d ds)
  show ?case
  proof (cases "suitable_device (caps d)")
    case True
    then have "m_physical_device_index c' = i \<and> m_vk_physical_device c' = d"
      using Cons.prems by (auto simp: suitable_device_def and_then_Inr_iff Let_def split: prod.splits)
    then show ?thesis using True by (intro exI [of _ 0]) simp
  next
    case False
    then obtain c1 w1 where "pick_loop debug drv caps ds (i + 1) c1 w1 = Inr (True, c', w')"
      using Cons.prems by (auto simp: suitable_device_def and_then_Inr_iff Let_def split: prod.splits if_splits)
    from Cons.IH [OF this] obtain n where n: "n < length ds" "m_physical_device_index c' = i + 1 + of_nat n" "m_vk_physical_device c' = ds ! n"
        "suitable_device (caps (ds ! n))" "\<forall>m<n. \<not> suitable_device (caps (ds ! m))" by blast
    have "\<forall>m<Suc n. \<not> suitable_device (caps ((d # ds) ! m))" using n(5) False by (simp add: nth_Cons split: nat.split)
    then show ?thesis using n by (intro exI [of _ "Suc n"]) simp
  qed
qed simp

text \<open>
  C13. The physical device that \<open>PickValidPhysicalDevice\<close> picks is the first one that meets all targets: the version, the size of a uniform buffer, the four alignments, the
  four numbers of descriptors and every feature that the device is then created with.
\<close>

theorem picked_device_supports:
  assumes "PickValidPhysicalDevice debug drv caps ds c w = Inr (True, c', w')" and "length ds < 2 ^ 32"
  shows "unat (m_physical_device_index c') < length ds \<and> m_vk_physical_device c' = ds ! unat (m_physical_device_index c') \<and>
    meets_targets (caps (m_vk_physical_device c')) \<and> (\<forall>m<unat (m_physical_device_index c'). \<not> meets_targets (caps (ds ! m)))"
proof -
  obtain n where n: "n < length ds" "m_physical_device_index c' = of_nat n" "m_vk_physical_device c' = ds ! n" "suitable_device (caps (ds ! n))"
      "\<forall>m<n. \<not> suitable_device (caps (ds ! m))"
    using pick_loop_found [OF assms(1) [unfolded PickValidPhysicalDevice_def]] by auto
  have "unat (m_physical_device_index c') = n" using n(1,2) assms(2) by (simp add: unat_of_nat_small)
  then show ?thesis using n by (simp add: suitable_meets)
qed

text \<open>
  In a debug build the assertion before \<open>continue\<close> ends the program at the first device that does not pass, whatever devices follow.
\<close>

theorem first_device_must_do:
  assumes "all_checks (version_checks (caps d)) = Inr False"
  shows "PickValidPhysicalDevice True drv caps (d # ds) c w = Inl AssertFailed"
  using assms by (simp add: PickValidPhysicalDevice_def)

section \<open>Life of the context\<close>

definition owned_context :: "vk_context \<Rightarrow> (vk_kind \<times> u64) multiset" where
  "owned_context c = object VkInstance (m_vk_instance c) + object VkDebugUtilsMessengerEXT (m_debug_messenger c) + object VkDevice (m_vk_device c) +
    object VkCommandPool (m_vk_graphics_command_pool c) + object VkDescriptorSetLayout (m_vk_sampler_descriptor_set_layout c) +
    object VkDescriptorSetLayout (m_vk_texture_descriptor_set_layout c) + object VkPipelineLayout (m_vk_pipeline_layout c)"

lemma pick_loop_objects:
  assumes "pick_loop debug drv caps ds i c w = Inr (b, c', w')"
  shows "vk_objects w' = vk_objects w \<and> (valid_use w' \<longleftrightarrow> valid_use w) \<and> m_vk_instance c' = m_vk_instance c \<and> m_debug_messenger c' = m_debug_messenger c"
  using assms
proof (induction ds arbitrary: debug i c w)
  case (Cons d ds)
  show ?case
    using Cons.prems by (auto simp: and_then_Inr_iff Let_def ask_def split: if_splits dest!: Cons.IH)
qed simp

lemma Context_new_objects:
  assumes "Context_new drv sys s w = Inr ((c, t), w')"
  shows "vk_objects w' = vk_objects w + owned_context c" and "valid_use w' \<longleftrightarrow> valid_use w"
proof -
  obtain c1 t1 w1 c2 w2 c3 w3 where
    1: "create_instance drv sys s w = Inr ((c1, t1), w1)" and 2: "choose_device drv sys c1 w1 = Inr (c2, w2)" and
    3: "create_device drv sys (c2, t1) w2 = Inr ((c3, t), w3)" and 4: "create_layouts drv sys c3 w3 = Inr (c, w')"
    using assms by (auto simp: Context_new_def and_then_Inr_iff)
  have a: "vk_objects w1 = vk_objects w + object VkInstance (m_vk_instance c1) + object VkDebugUtilsMessengerEXT (m_debug_messenger c1)"
      "valid_use w1 \<longleftrightarrow> valid_use w"
    using 1 by (auto simp: create_instance_def owner_simps ask_def split: prod.splits)
  have b: "vk_objects w2 = vk_objects w1" "valid_use w2 \<longleftrightarrow> valid_use w1" "m_vk_instance c2 = m_vk_instance c1" "m_debug_messenger c2 = m_debug_messenger c1"
    using 2 by (auto simp: choose_device_def PickValidPhysicalDevice_def owner_simps split: option.splits dest!: pick_loop_objects)
  have e: "vk_objects w3 = vk_objects w2 + object VkDevice (m_vk_device c3)" "valid_use w3 \<longleftrightarrow> valid_use w2" "m_vk_instance c3 = m_vk_instance c2"
      "m_debug_messenger c3 = m_debug_messenger c2"
    using 3 by (auto simp: create_device_def owner_simps ask_def)
  have "vk_objects w' = vk_objects w3 + object VkCommandPool (m_vk_graphics_command_pool c) + object VkDescriptorSetLayout (m_vk_texture_descriptor_set_layout c) +
      object VkDescriptorSetLayout (m_vk_sampler_descriptor_set_layout c) + object VkPipelineLayout (m_vk_pipeline_layout c)" and
      v: "valid_use w' \<longleftrightarrow> valid_use w3" and "m_vk_instance c = m_vk_instance c3" "m_debug_messenger c = m_debug_messenger c3" "m_vk_device c = m_vk_device c3"
    using 4 by (auto simp: create_layouts_def owner_simps Let_def)
  then show "vk_objects w' = vk_objects w + owned_context c" using a(1) b e by (simp add: owned_context_def)
  show "valid_use w' \<longleftrightarrow> valid_use w" using v a(2) b(2) e(2) by simp
qed

text \<open>
  C14. What the constructor of the context creates, its destructor destroys, and in an order that is allowed, the device and the instance last,
  if everything that was made in between has been destroyed by then.
\<close>

theorem context_lifetime:
  assumes "Context_new drv sys s [] = Inr ((c, t), w1)" and "valid_use w2" and "vk_objects w2 = vk_objects w1"
  shows "vk_objects (Context_delete drv c w2) = {#} \<and> valid_use (Context_delete drv c w2)"
proof -
  have o: "vk_objects w2 = owned_context c" using Context_new_objects(1) [OF assms(1)] assms(3) by simp
  have d: "valid_call (vkDestroy VkDevice h) (object VkInstance a + object VkDebugUtilsMessengerEXT b + object VkDevice h)" for a b h
    by (auto simp: valid_call.simps(1) object_def outlives_def)
  have i: "valid_call (vkDestroy VkInstance h) (object VkInstance h)" for h
    by (auto simp: valid_call.simps(1) object_def outlives_def)
  have "vk_objects (Context_delete drv c w2) = {#}"
    by (simp add: Context_delete_def tell_eq o owned_context_def)
  moreover have "valid_use (Context_delete drv c w2)"
    using assms(2) d i by (simp add: Context_delete_def tell_eq o owned_context_def objects_other valid_destroy)
  ultimately show ?thesis ..
qed

text \<open>
  If anything made from the device is still there, destroying the device is not allowed.
\<close>

theorem context_deleted_too_early:
  assumes "(k, h) \<in># vk_objects w" and "k \<notin> {VkInstance, VkDebugUtilsMessengerEXT, VkDevice, VkPipelineLayout, VkDescriptorSetLayout, VkCommandPool}"
    and "m_vk_device c \<noteq> 0"
  shows "\<not> valid_use (Context_delete drv c w)"
proof -
  have k: "(k, h) \<in># vk_objects w - object VkPipelineLayout a - object VkDescriptorSetLayout b - object VkDescriptorSetLayout d - object VkCommandPool e" for a b d e
    using assms(1,2) by (auto simp: object_def in_diff_count)
  have "\<not> valid_call (vkDestroy VkDevice (m_vk_device c)) m" if "(k, h) \<in># m" for m
    using that assms(2,3) by (force simp: valid_call.simps(1) outlives_def)
  then show ?thesis using k by (simp add: Context_delete_def tell_eq)
qed

section \<open>Push constants\<close>

text \<open>
  The offset at which a command buffer pushes the address of a stage is the one of the range of that stage in the pipeline layout, except for the two
  tessellation stages, whose offsets are exchanged.
\<close>

theorem push_constant_offsets:
  assumes "(i, stage, offset) \<in> set resource_stages"
  shows "(\<exists>r\<in>set resource_index_push_constant_ranges. range_stages r = stage \<and> range_offset r = offset \<and> range_size r = 8) \<longleftrightarrow>
    stage \<notin> {VK_SHADER_STAGE_TESSELLATION_CONTROL_BIT, VK_SHADER_STAGE_TESSELLATION_EVALUATION_BIT}"
  using assms by (auto simp: resource_stages_def resource_index_push_constant_ranges_def push_range_def VK_SHADER_STAGE_VERTEX_BIT_def
    VK_SHADER_STAGE_TESSELLATION_CONTROL_BIT_def VK_SHADER_STAGE_TESSELLATION_EVALUATION_BIT_def VK_SHADER_STAGE_GEOMETRY_BIT_def
    VK_SHADER_STAGE_FRAGMENT_BIT_def VK_SHADER_STAGE_COMPUTE_BIT_def)

section \<open>Examples\<close>

definition example_caps :: "u64 \<Rightarrow> device_caps" where
  "example_caps d = \<lparr>apiVersion = (if d = 11 then 0 else TargetMinimumApiVersion), maxUniformBufferRange = 0x10000, minMemoryMapAlignment = 64,
    minUniformBufferOffsetAlignment = 16, minStorageBufferOffsetAlignment = 16, minTexelBufferOffsetAlignment = 16,
    maxUpdateAfterBindDescriptorsInAllPools = 0x100000, maxDescriptorSetUpdateAfterBindSampledImages = 0x10000,
    maxDescriptorSetUpdateAfterBindSamplers = 0x1000, maxDescriptorSetUniformBuffers = 12, supported = (\<lambda>f. True), queueFlags = [2, 3],
    memory_type_flags = [1, 6, 7]\<rparr>"

definition example_driver :: vk_driver where
  "example_driver w c =
    (if c = vkEnumerateInstanceVersion then \<lparr>vk_result = VK_SUCCESS, vk_value = ucast TargetMinimumApiVersion, vk_values = []\<rparr>
     else if c = vkEnumeratePhysicalDevices False then \<lparr>vk_result = VK_SUCCESS, vk_value = 1, vk_values = []\<rparr>
     else if c = vkEnumeratePhysicalDevices True then \<lparr>vk_result = VK_SUCCESS, vk_value = 1, vk_values = [12]\<rparr>
     else if c = vkGetPhysicalDeviceWin32PresentationSupportKHR 12 1 then \<lparr>vk_result = VK_TRUE, vk_value = 0, vk_values = []\<rparr>
     else \<lparr>vk_result = VK_SUCCESS, vk_value = of_nat (length w + 1), vk_values = []\<rparr>)"

definition example_system :: vk_system where
  "example_system = \<lparr>vulkan_library = 1, get_proc_address = (\<lambda>_ _. 5), look_up_proc = (\<lambda>_ _ _. 6), physical_devices = example_caps\<rparr>"

lemma example_checks:
  "all_checks (version_checks (example_caps 11)) = Inr False" "all_checks (version_checks (example_caps 12)) = Inr True"
  "all_checks (limit_checks (example_caps d)) = Inr True"
proof -
  have m: "all_checks (map (\<lambda>f. Inr True) fs) = Inr True" for fs :: "string list" by (induction fs) simp_all
  have a: "all_checks (xs @ ys) = and_then (all_checks xs) (\<lambda>ok. if ok then all_checks ys else Inr False)" for xs ys
  proof (induction xs)
    case (Cons c cs)
    then show ?case by (cases c) simp_all
  qed simp
  show "all_checks (version_checks (example_caps 11)) = Inr False" "all_checks (version_checks (example_caps 12)) = Inr True"
    by (simp_all add: version_checks_def example_caps_def TargetMinimumApiVersion_def TargetMaxUniformBufferSize_def)
  have "alignment_check TargetMemoryPoolAlignment 64 = Inr True" "alignment_check TargetConstantBufferAlignment 16 = Inr True"
      "alignment_check TargetStorageBufferAlignment 16 = Inr True" "alignment_check TargetTexelBufferAlignment 16 = Inr True"
    by (code_simp, code_simp, code_simp, code_simp)
  then show "all_checks (limit_checks (example_caps d)) = Inr True"
    unfolding limit_checks_def a
    by (simp add: example_caps_def m TargetDescriptors_def TargetMaxTextureDescriptors_def TargetMaxSamplerDescriptors_def TargetMaxBufferDescriptors_def)
qed

theorem picked_device_supports_witness:
  "\<exists>c w. PickValidPhysicalDevice False example_driver example_caps [11, 12] example_context [] = Inr (True, c, w) \<and>
    m_physical_device_index c = 1 \<and> meets_targets (example_caps 12) \<and> \<not> meets_targets (example_caps 11)"
proof -
  obtain c w where p: "PickValidPhysicalDevice False example_driver example_caps [11, 12] example_context [] = Inr (True, c, w)" "m_physical_device_index c = 1"
    by (auto simp: PickValidPhysicalDevice_def example_checks assert_if_def Let_def ask_def)
  then show ?thesis using picked_device_supports [OF p(1)] by auto
qed

lemma example_context_runs: "\<exists>c t w. Context_new example_driver example_system (example_context, no_procs) [] = Inr ((c, t), w)"
proof -
  obtain t1 t2 t3 where t: "LoadInitialVkCProcs 1 (\<lambda>_ _. 5) no_procs = Inr t1" "LoadCProcsInstance (\<lambda>_ _ _. 6) 2 t1 = Inr t2"
      "LoadCProcsDevice (\<lambda>_ _ _. 6) 7 t2 = Inr t3"
    by (rule example_procs)
  have c: "queueFlags (example_caps d) = [2, 3]" "memory_type_flags (example_caps d) = [1, 6, 7]" for d by (simp_all add: example_caps_def)
  have v: "TargetMinimumApiVersion \<le> ucast (ucast TargetMinimumApiVersion :: u64)" by (simp add: TargetMinimumApiVersion_def)
  show ?thesis
    by (simp add: v Context_new_def create_instance_def choose_device_def create_device_def create_layouts_def example_system_def t PickValidPhysicalDevice_def
        example_checks assert_if_def VK_TRUE_answer_def create_def checked_def ask_def example_driver_def FindGraphicsQueueFamily_def c
        VK_QUEUE_GRAPHICS_BIT_def Let_def)
qed

theorem context_lifetime_witness:
  "\<exists>c t w. Context_new example_driver example_system (example_context, no_procs) [] = Inr ((c, t), w) \<and>
    vk_objects (Context_delete example_driver c w) = {#} \<and> valid_use (Context_delete example_driver c w)"
proof -
  obtain c t w where n: "Context_new example_driver example_system (example_context, no_procs) [] = Inr ((c, t), w)"
    using example_context_runs by blast
  have "valid_use w" using Context_new_objects(2) [OF n] by (simp add: valid_use_def)
  from context_lifetime [OF n this refl] n show ?thesis by blast
qed

theorem push_constant_offsets_witness:
  "\<exists>r\<in>set resource_index_push_constant_ranges. range_stages r = VK_SHADER_STAGE_FRAGMENT_BIT \<and> range_offset r = 8 * 4 \<and> range_size r = 8"
  using push_constant_offsets [of 4 VK_SHADER_STAGE_FRAGMENT_BIT "8 * 4"]
  by (auto simp: resource_stages_def VK_SHADER_STAGE_TESSELLATION_CONTROL_BIT_def VK_SHADER_STAGE_TESSELLATION_EVALUATION_BIT_def VK_SHADER_STAGE_FRAGMENT_BIT_def)

end
