(* ===== verification/Vk_Display.thy ===== *)
theory Vk_Display
  imports Vk_Context
begin

text \<open>
  The display buffer, \<open>vk_displaybuffer.hpp\<close>, with its base \<open>util_logicalframebuffer.hpp\<close> and \<open>util_viewport.hpp\<close>: a swapchain of three images with their views, a depth image, and the semaphores and
  fences of two frames in flight. Shown here: presenting goes round the frames in order; recreating the
  swapchain replaces every object and keeps none; finalising destroys everything but the swapchain, which is left behind.
\<close>

section \<open>Logical frame buffers\<close>

record LogicalFrameBuffer =
  m_virtual_size :: "real \<times> real"
  m_dimensions :: "real \<times> real"

definition SetVirtualCanvasSize :: "real \<Rightarrow> real \<Rightarrow> 'a LogicalFrameBuffer_scheme \<Rightarrow> 'a LogicalFrameBuffer_scheme" where
  "SetVirtualCanvasSize x y b = b\<lparr>m_virtual_size := (x, y)\<rparr>"

definition SetDimensions :: "real \<Rightarrow> real \<Rightarrow> 'a LogicalFrameBuffer_scheme \<Rightarrow> 'a LogicalFrameBuffer_scheme" where
  "SetDimensions x y b = b\<lparr>m_dimensions := (x, y)\<rparr>"

definition GetVirtualCanvasSize :: "'a LogicalFrameBuffer_scheme \<Rightarrow> real \<times> real" where
  "GetVirtualCanvasSize b = m_virtual_size b"

definition GetDimensions :: "'a LogicalFrameBuffer_scheme \<Rightarrow> real \<times> real" where
  "GetDimensions b = m_dimensions b"

record BoundingBox2 =
  min_x :: real
  min_y :: real
  max_x :: real
  max_y :: real

definition Viewport_of :: "'a LogicalFrameBuffer_scheme \<Rightarrow> BoundingBox2" where
  "Viewport_of framebuffer = (case GetVirtualCanvasSize framebuffer of (width, height) \<Rightarrow>
    \<lparr>min_x = Min_dd width 0, min_y = Min_dd height 0, max_x = Max_dd width 0, max_y = Max_dd height 0\<rparr>)"

section \<open>The display buffer\<close>

definition FramesInFlight :: nat where "FramesInFlight = 2"
definition BufferedFrames :: nat where "BufferedFrames = 3"

record DisplayBuffer = LogicalFrameBuffer +
  m_vk_swapchain :: u64
  m_vk_surface :: u64
  m_vk_queue_present_semaphore :: "u64 list"
  m_vk_queue_submit_fence :: "u64 list"
  m_vk_image_acquire_fence :: u64
  m_vk_swapchain_textures :: "texture list"
  m_vk_swapchain_targets :: "target_view list"
  m_vk_depth_stencil_image_memory :: u64
  m_depth_stencil_memory :: memory_pool
  m_depth_stencil_texture :: texture
  db_depth_stencil_target :: target_view
  m_current_target_index :: u32
  m_current_frame :: u32

text \<open>The addresses of the textures and the pool that are members of the display buffer.\<close>

record member_addresses =
  texture_address :: "nat \<Rightarrow> u64"
  depth_texture_address :: u64
  depth_pool_address :: u64

definition target_info :: "u32 \<Rightarrow> u64 \<Rightarrow> TargetInfo" where
  "target_info format a = \<lparr>vk_image_view_type = 1, tg_vk_format = format, base_layer = 0, tg_layers = 1, base_mip_level = 0, tg_mip_levels = 1,
    tg_swizzle = (0, 0, 0, 0), target_attachment = a\<rparr>"

definition swapchain_info :: "vk_context \<Rightarrow> u64 \<Rightarrow> u32 \<Rightarrow> u32 \<Rightarrow> u64 \<Rightarrow> VkSwapchainCreateInfoKHR" where
  "swapchain_info context surface window_width window_height old_swapchain =
    \<lparr>swapchain_surface = surface, minImageCount = of_nat BufferedFrames, swapchain_format = VK_FORMAT_B8G8R8A8_SRGB,
     swapchain_extent = (window_width, window_height), swapchain_usage = VK_IMAGE_USAGE_COLOR_ATTACHMENT_BIT OR VK_IMAGE_USAGE_TRANSFER_DST_BIT,
     swapchain_family = m_graphics_queue_family_index context, oldSwapchain = old_swapchain\<rparr>"

text \<open>A view of one swapchain image: the texture, and the information with its address.\<close>

definition image_target :: "vk_driver \<Rightarrow> texture \<times> TargetInfo \<Rightarrow> target_view \<Rightarrow> vk_log \<Rightarrow> (target_view \<times> vk_log) outcome" where
  "image_target drv i v w = ColorTargetView_Initialize drv (\<lambda>_. fst i) (snd i) v w"

definition swapchain_images :: "vk_driver \<Rightarrow> member_addresses \<Rightarrow> DisplayBuffer \<Rightarrow> vk_log \<Rightarrow> (DisplayBuffer \<times> vk_log) outcome" where
  "swapchain_images drv ma d w =
    and_then (checked drv (vkGetSwapchainImagesKHR (m_vk_swapchain d) (of_nat BufferedFrames)) w) (\<lambda>(a, w).
    let images = take BufferedFrames (vk_values a @ replicate BufferedFrames 0);
        ts = map2 Texture_ImportExisting images (m_vk_swapchain_textures d) in
    and_then (each_init (image_target drv)
      (zip (zip ts (map (\<lambda>i. target_info VK_FORMAT_B8G8R8A8_SRGB (texture_address ma i)) [0..<BufferedFrames])) (m_vk_swapchain_targets d)) w)
      (\<lambda>(vs, w). Inr (d\<lparr>m_vk_swapchain_textures := ts, m_vk_swapchain_targets := vs\<rparr>, w)))"

fun create_list :: "vk_driver \<Rightarrow> vk_call list \<Rightarrow> vk_log \<Rightarrow> (u64 list \<times> vk_log) outcome" where
  "create_list drv [] w = Inr ([], w)"
| "create_list drv (c # cs) w = and_then (create drv c w) (\<lambda>(h, w). and_then (create_list drv cs w) (\<lambda>(hs, w). Inr (h # hs, w)))"

definition acquire_image :: "vk_driver \<Rightarrow> DisplayBuffer \<Rightarrow> vk_log \<Rightarrow> (DisplayBuffer \<times> vk_log) outcome" where
  "acquire_image drv d w =
    and_then (checked drv (vkAcquireNextImageKHR (m_vk_swapchain d) 0 (m_vk_image_acquire_fence d)) w) (\<lambda>(a, w).
    Inr (d\<lparr>m_current_target_index := ucast (vk_value a)\<rparr>, w))"

definition depth_image_info :: "u32 \<Rightarrow> u32 \<Rightarrow> TextureInfo" where
  "depth_image_info window_width window_height =
    \<lparr>vk_create_flags = 0, vk_usage_flags = ucast (VK_IMAGE_USAGE_DEPTH_STENCIL_ATTACHMENT_BIT OR VK_IMAGE_USAGE_TRANSFER_DST_BIT), ti_mip_levels = 1,
     ti_width = window_width, ti_height = window_height, ti_depth = 1, ti_vk_format = VK_FORMAT_D24_UNORM_S8_UINT,
     ti_vk_image_layout = VK_IMAGE_LAYOUT_UNDEFINED, vk_image_type = 1, vk_sample_count_flag = 1, vk_tiling = 0, array_layers = 1, memory_offset = 0\<rparr>"

definition create_depth :: "vk_driver \<Rightarrow> vk_context \<Rightarrow> member_addresses \<Rightarrow> u32 \<Rightarrow> u32 \<Rightarrow> DisplayBuffer \<Rightarrow> vk_log \<Rightarrow> (DisplayBuffer \<times> vk_log) outcome" where
  "create_depth drv context ma window_width window_height d w =
    (let info = depth_image_info window_width window_height in
    case GetRequiredMemorySize drv context info w of (n, w) \<Rightarrow>
    and_then (create drv (vkAllocateMemory \<lparr>device_address = False, host_pointer = None, allocationSize = AlignUp n TargetMemoryPoolAlignment,
        memoryTypeIndex = FindMemoryHeapIndex context VK_MEMORY_PROPERTY_DEVICE_LOCAL_BIT\<rparr>) w) (\<lambda>(memory, w).
    let p = MemoryPool_ImportExisting memory True (m_depth_stencil_memory d) in
    and_then (Texture_Initialize drv context (info, depth_pool_address ma, p) (m_depth_stencil_texture d) w) (\<lambda>(t, w).
    and_then (DepthStencilTargetView_Initialize drv (\<lambda>_. t) (target_info VK_FORMAT_D24_UNORM_S8_UINT (depth_texture_address ma))
        (db_depth_stencil_target d) w) (\<lambda>(v, w).
    Inr (d\<lparr>m_vk_depth_stencil_image_memory := memory, m_depth_stencil_memory := p, m_depth_stencil_texture := t,
      db_depth_stencil_target := v\<rparr>, w)))))"

definition DisplayBuffer_Initialize :: "vk_driver \<Rightarrow> vk_context \<Rightarrow> member_addresses \<Rightarrow> u64 \<Rightarrow> u32 \<Rightarrow> u32 \<Rightarrow> DisplayBuffer \<Rightarrow> vk_log \<Rightarrow> (DisplayBuffer \<times> vk_log) outcome" where
  "DisplayBuffer_Initialize drv context ma surface window_width window_height d w =
    (let d = SetVirtualCanvasSize (real (unat window_width)) (real (unat window_height)) d;
         d = SetDimensions (real (unat window_width)) (real (unat window_height)) d;
         d = d\<lparr>m_vk_surface := surface\<rparr> in
    and_then (create drv (vkCreateSwapchainKHR (swapchain_info context surface window_width window_height 0)) w) (\<lambda>(swapchain, w).
    and_then (swapchain_images drv ma (d\<lparr>m_vk_swapchain := swapchain\<rparr>) w) (\<lambda>(d, w).
    and_then (create_list drv (replicate FramesInFlight vkCreateSemaphore) w) (\<lambda>(semaphores, w).
    and_then (create drv (vkCreateFence False) w) (\<lambda>(acquire_fence, w).
    and_then (create_list drv (replicate FramesInFlight (vkCreateFence True)) w) (\<lambda>(submit_fences, w).
    let d = d\<lparr>m_vk_queue_present_semaphore := semaphores, m_vk_image_acquire_fence := acquire_fence, m_vk_queue_submit_fence := submit_fences\<rparr> in
    and_then (acquire_image drv d w) (\<lambda>(d, w).
    and_then (checked drv (vkWaitForFences (m_vk_image_acquire_fence d) UINT64_MAX) w) (\<lambda>(_, w).
    create_depth drv context ma window_width window_height d w))))))))"

text \<open>The views and textures of the swapchain, one after the other; the textures are imported and own nothing.\<close>

fun finalize_images :: "vk_driver \<Rightarrow> (target_view \<times> texture) list \<Rightarrow> vk_log \<Rightarrow> (target_view \<times> texture) list \<times> vk_log" where
  "finalize_images drv [] w = ([], w)"
| "finalize_images drv ((v, t) # xs) w =
    (let (v, w) = TargetView_Finalize drv v w; (t, w) = Texture_Finalize drv t w; (xs, w) = finalize_images drv xs w in ((v, t) # xs, w))"

definition finalize_swapchain_images :: "vk_driver \<Rightarrow> DisplayBuffer \<Rightarrow> vk_log \<Rightarrow> DisplayBuffer \<times> vk_log" where
  "finalize_swapchain_images drv d w =
    (let (xs, w) = finalize_images drv (zip (m_vk_swapchain_targets d) (m_vk_swapchain_textures d)) w in
    (d\<lparr>m_vk_swapchain_targets := map fst xs, m_vk_swapchain_textures := map snd xs\<rparr>, w))"

definition finalize_depth :: "vk_driver \<Rightarrow> DisplayBuffer \<Rightarrow> vk_log \<Rightarrow> DisplayBuffer \<times> vk_log" where
  "finalize_depth drv d w =
    (let (v, w) = TargetView_Finalize drv (db_depth_stencil_target d) w;
         (t, w) = Texture_Finalize drv (m_depth_stencil_texture d) w;
         (p, w) = MemoryPool_Finalize drv (m_depth_stencil_memory d) w;
         w = tell drv (vkDestroy VkDeviceMemory (m_vk_depth_stencil_image_memory d)) w in
    (d\<lparr>db_depth_stencil_target := v, m_depth_stencil_texture := t, m_depth_stencil_memory := p\<rparr>, w))"

definition destroy_sync :: "vk_driver \<Rightarrow> (u64 \<times> u64) list \<Rightarrow> vk_log \<Rightarrow> vk_log" where
  "destroy_sync drv xs w = fold (\<lambda>(s, f) w. tell drv (vkDestroy VkFence f) (tell drv (vkDestroy VkSemaphore s) w)) xs w"

definition DisplayBuffer_Finalize :: "vk_driver \<Rightarrow> DisplayBuffer \<Rightarrow> vk_log \<Rightarrow> DisplayBuffer \<times> vk_log" where
  "DisplayBuffer_Finalize drv d w =
    (let w = tell drv (vkDestroy VkFence (m_vk_image_acquire_fence d)) w;
         w = destroy_sync drv (zip (m_vk_queue_present_semaphore d) (m_vk_queue_submit_fence d)) w;
         (d, w) = finalize_swapchain_images drv d w;
         (d, w) = finalize_depth drv d w in
    (d\<lparr>m_current_frame := 0, m_vk_surface := 0\<rparr>, w))"

definition DisplayBuffer_Recreate :: "vk_driver \<Rightarrow> vk_context \<Rightarrow> member_addresses \<Rightarrow> u32 \<Rightarrow> u32 \<Rightarrow> DisplayBuffer \<Rightarrow> vk_log \<Rightarrow> (DisplayBuffer \<times> vk_log) outcome" where
  "DisplayBuffer_Recreate drv context ma window_width window_height d w =
    (let old_swapchain = m_vk_swapchain d in
    and_then (create drv (vkCreateSwapchainKHR (swapchain_info context (m_vk_surface d) window_width window_height old_swapchain)) w) (\<lambda>(swapchain, w).
    let w = tell drv (vkDestroy VkSwapchainKHR old_swapchain) w;
        (d, w) = finalize_swapchain_images drv (d\<lparr>m_vk_swapchain := swapchain\<rparr>) w;
        d = d\<lparr>m_current_frame := 0\<rparr> in
    and_then (swapchain_images drv ma d w) (\<lambda>(d, w).
    and_then (checked drv (vkResetFences (m_vk_image_acquire_fence d)) w) (\<lambda>(_, w).
    and_then (acquire_image drv d w) (\<lambda>(d, w).
    let w = fold (\<lambda>s. tell drv (vkDestroy VkSemaphore s)) (m_vk_queue_present_semaphore d) w in
    and_then (create_list drv (replicate FramesInFlight vkCreateSemaphore) w) (\<lambda>(semaphores, w).
    let (d, w) = finalize_depth drv (d\<lparr>m_vk_queue_present_semaphore := semaphores\<rparr>) w in
    create_depth drv context ma window_width window_height d w))))))"

definition frame_item :: "DisplayBuffer \<Rightarrow> 'a list \<Rightarrow> 'a outcome" where
  "frame_item d xs = (if unat (m_current_frame d) < length xs then Inr (xs ! unat (m_current_frame d)) else Inl OutOfBounds)"

definition GetCurrentQueuePresentSemaphore :: "DisplayBuffer \<Rightarrow> u64 outcome" where
  "GetCurrentQueuePresentSemaphore d = frame_item d (m_vk_queue_present_semaphore d)"

definition GetCurrentQueueSubmitFence :: "DisplayBuffer \<Rightarrow> u64 outcome" where
  "GetCurrentQueueSubmitFence d = frame_item d (m_vk_queue_submit_fence d)"

definition ResetCurrentQueueSubmitFence :: "vk_driver \<Rightarrow> DisplayBuffer \<Rightarrow> vk_log \<Rightarrow> vk_log outcome" where
  "ResetCurrentQueueSubmitFence drv d w =
    and_then (frame_item d (m_vk_queue_submit_fence d)) (\<lambda>f. and_then (checked drv (vkResetFences f) w) (\<lambda>(_, w). Inr w))"

definition GetCurrentColorTarget :: "DisplayBuffer \<Rightarrow> target_view outcome" where
  "GetCurrentColorTarget d = (if unat (m_current_target_index d) < length (m_vk_swapchain_targets d)
    then Inr (m_vk_swapchain_targets d ! unat (m_current_target_index d)) else Inl OutOfBounds)"

definition PresentTextureAndAcquireNext :: "vk_driver \<Rightarrow> vk_context \<Rightarrow> DisplayBuffer \<Rightarrow> vk_log \<Rightarrow> (DisplayBuffer \<times> vk_log) outcome" where
  "PresentTextureAndAcquireNext drv context d w =
    and_then (GetCurrentQueuePresentSemaphore d) (\<lambda>current_semaphore.
    and_then (checked drv (vkQueuePresentKHR (m_vk_graphics_queue context) current_semaphore (m_vk_swapchain d) (m_current_target_index d)) w) (\<lambda>(_, w).
    and_then (checked drv (vkResetFences (m_vk_image_acquire_fence d)) w) (\<lambda>(_, w).
    and_then (acquire_image drv d w) (\<lambda>(d, w).
    Inr (d\<lparr>m_current_frame := (m_current_frame d + 1) mod of_nat FramesInFlight\<rparr>, w)))))"

section \<open>What a display buffer owns\<close>

interpretation swapchain_target: vk_owner "image_target drv" "TargetView_Finalize drv" "\<lambda>_. True" owned_target for drv
proof unfold_locales
  fix v w v' w' and i :: "texture \<times> TargetInfo" assume i: "image_target drv i v w = Inr (v', w')"
  show "vk_objects w' = vk_objects w + owned_target v'" using color_target.init_owns [OF TrueI i [unfolded image_target_def]] .
  show "valid_use w \<Longrightarrow> valid_use w'" using color_target.init_valid [OF TrueI i [unfolded image_target_def]] .
qed (blast intro: color_target.fin_frees color_target.fin_valid)+

definition owned_views :: "DisplayBuffer \<Rightarrow> (vk_kind \<times> u64) multiset" where
  "owned_views d = (\<Sum>v\<leftarrow>m_vk_swapchain_targets d. owned_target v)"

definition owned_depth :: "DisplayBuffer \<Rightarrow> (vk_kind \<times> u64) multiset" where
  "owned_depth d = owned_target (db_depth_stencil_target d) + owned_texture (m_depth_stencil_texture d) +
    object VkDeviceMemory (m_vk_depth_stencil_image_memory d)"

definition owned_semaphores :: "DisplayBuffer \<Rightarrow> (vk_kind \<times> u64) multiset" where
  "owned_semaphores d = (\<Sum>s\<leftarrow>m_vk_queue_present_semaphore d. object VkSemaphore s)"

definition owned_fences :: "DisplayBuffer \<Rightarrow> (vk_kind \<times> u64) multiset" where
  "owned_fences d = (\<Sum>f\<leftarrow>m_vk_queue_submit_fence d. object VkFence f) + object VkFence (m_vk_image_acquire_fence d)"

text \<open>The arrays have their lengths, the textures of the swapchain are imported and the one for depth is not. The last is what \<open>Initialize\<close> relies on.\<close>

definition display_sizes :: "DisplayBuffer \<Rightarrow> bool" where
  "display_sizes d \<longleftrightarrow> length (m_vk_swapchain_textures d) = BufferedFrames \<and> length (m_vk_swapchain_targets d) = BufferedFrames \<and>
    \<not> m_import (m_depth_stencil_texture d)"

definition display_ok :: "DisplayBuffer \<Rightarrow> bool" where
  "display_ok d \<longleftrightarrow> display_sizes d \<and> (\<forall>t\<in>set (m_vk_swapchain_textures d). m_import t) \<and> m_is_import (m_depth_stencil_memory d) \<and>
    length (m_vk_queue_present_semaphore d) = FramesInFlight \<and> length (m_vk_queue_submit_fence d) = FramesInFlight"

text \<open>Parts that an operation leaves as they are.\<close>

definition same_sync :: "DisplayBuffer \<Rightarrow> DisplayBuffer \<Rightarrow> bool" where
  "same_sync d d' \<longleftrightarrow> m_vk_swapchain d' = m_vk_swapchain d \<and> m_vk_surface d' = m_vk_surface d \<and> m_current_frame d' = m_current_frame d \<and>
    m_vk_queue_present_semaphore d' = m_vk_queue_present_semaphore d \<and> m_vk_queue_submit_fence d' = m_vk_queue_submit_fence d \<and>
    m_vk_image_acquire_fence d' = m_vk_image_acquire_fence d"

definition same_images :: "DisplayBuffer \<Rightarrow> DisplayBuffer \<Rightarrow> bool" where
  "same_images d d' \<longleftrightarrow> m_vk_swapchain_textures d' = m_vk_swapchain_textures d \<and> m_vk_swapchain_targets d' = m_vk_swapchain_targets d"

definition same_depth :: "DisplayBuffer \<Rightarrow> DisplayBuffer \<Rightarrow> bool" where
  "same_depth d d' \<longleftrightarrow> m_vk_depth_stencil_image_memory d' = m_vk_depth_stencil_image_memory d \<and> m_depth_stencil_memory d' = m_depth_stencil_memory d \<and>
    m_depth_stencil_texture d' = m_depth_stencil_texture d \<and> db_depth_stencil_target d' = db_depth_stencil_target d"

lemmas same_defs = same_sync_def same_images_def same_depth_def

lemma create_list_objects:
  assumes "create_list drv cs w = Inr (hs, w')" and "\<forall>c\<in>set cs. creates c = Some k"
  shows "vk_objects w' = vk_objects w + (\<Sum>h\<leftarrow>hs. object k h) \<and> (valid_use w' \<longleftrightarrow> valid_use w) \<and> length hs = length cs"
  using assms
proof (induction cs arbitrary: w hs)
  case (Cons c cs)
  then obtain h w1 hs' where h: "create drv c w = Inr (h, w1)" "create_list drv cs w1 = Inr (hs', w')" "hs = h # hs'"
    by (auto simp: and_then_Inr_iff)
  then show ?case using Cons.IH [OF h(2)] Cons.prems(2) objects_create [OF h(1), of k] by (simp add: add.assoc)
qed simp

lemma swapchain_images_objects:
  assumes "swapchain_images drv ma d w = Inr (d', w')" and "display_sizes d"
  shows "vk_objects w' = vk_objects w + owned_views d'" and "valid_use w \<longrightarrow> valid_use w'"
    and "\<forall>t\<in>set (m_vk_swapchain_textures d'). m_import t" and "display_sizes d'"
    and "same_sync d d'" and "same_depth d d'"
proof -
  obtain a w1 vs where a: "checked drv (vkGetSwapchainImagesKHR (m_vk_swapchain d) (of_nat BufferedFrames)) w = Inr (a, w1)"
      "each_init (image_target drv) (zip (zip (map2 Texture_ImportExisting (take BufferedFrames (vk_values a @ replicate BufferedFrames 0)) (m_vk_swapchain_textures d))
        (map (\<lambda>i. target_info VK_FORMAT_B8G8R8A8_SRGB (texture_address ma i)) [0..<BufferedFrames])) (m_vk_swapchain_targets d)) w1 = Inr (vs, w')"
      "d' = d\<lparr>m_vk_swapchain_textures := map2 Texture_ImportExisting (take BufferedFrames (vk_values a @ replicate BufferedFrames 0)) (m_vk_swapchain_textures d),
        m_vk_swapchain_targets := vs\<rparr>"
    using assms(1) by (auto simp: swapchain_images_def and_then_Inr_iff Let_def)
  have w1: "vk_objects w1 = vk_objects w" "valid_use w1 \<longleftrightarrow> valid_use w" using a(1) by (auto simp: checked_Inr_iff)
  note e = swapchain_target.each_init_owns [OF a(2)]
  show "vk_objects w' = vk_objects w + owned_views d'" using e w1 by (simp add: owned_views_def a(3))
  show "valid_use w \<longrightarrow> valid_use w'" using e w1 by simp
  show "\<forall>t\<in>set (m_vk_swapchain_textures d'). m_import t" by (auto simp: a(3) Texture_ImportExisting_def)
  show "display_sizes d'" using e assms(2) by (auto simp: display_sizes_def a(3))
  show "same_sync d d'" "same_depth d d'" by (simp_all add: a(3) same_defs)
qed

lemma create_depth_objects:
  assumes "create_depth drv ctx ma x y d w = Inr (d', w')" and "\<not> m_import (m_depth_stencil_texture d)"
  shows "vk_objects w' = vk_objects w + owned_depth d'" and "valid_use w \<longrightarrow> valid_use w'"
    and "m_is_import (m_depth_stencil_memory d')" and "\<not> m_import (m_depth_stencil_texture d')"
    and "same_sync d d'" and "same_images d d'"
proof -
  obtain w0 n memory w1 p t w2 v where
    a: "GetRequiredMemorySize drv ctx (depth_image_info x y) w = (n, w0)" and
    b: "create drv (vkAllocateMemory \<lparr>device_address = False, host_pointer = None, allocationSize = AlignUp n TargetMemoryPoolAlignment,
        memoryTypeIndex = FindMemoryHeapIndex ctx VK_MEMORY_PROPERTY_DEVICE_LOCAL_BIT\<rparr>) w0 = Inr (memory, w1)" and
    p: "p = MemoryPool_ImportExisting memory True (m_depth_stencil_memory d)" and
    c: "Texture_Initialize drv ctx (depth_image_info x y, depth_pool_address ma, p) (m_depth_stencil_texture d) w1 = Inr (t, w2)" and
    e: "DepthStencilTargetView_Initialize drv (\<lambda>_. t) (target_info VK_FORMAT_D24_UNORM_S8_UINT (depth_texture_address ma))
        (db_depth_stencil_target d) w2 = Inr (v, w')" and
    d': "d' = d\<lparr>m_vk_depth_stencil_image_memory := memory, m_depth_stencil_memory := p, m_depth_stencil_texture := t, db_depth_stencil_target := v\<rparr>"
    using assms(1) by (auto simp: create_depth_def and_then_Inr_iff Let_def split: prod.splits)
  have w0: "vk_objects w0 = vk_objects w" "valid_use w0 \<longleftrightarrow> valid_use w"
    using a by (auto simp: GetRequiredMemorySize_def GetMemoryRequirements_def ask_def)
  show "vk_objects w' = vk_objects w + owned_depth d'"
    using objects_create(1) [OF b] texture.init_owns [OF assms(2) c] depth_target.init_owns [OF TrueI e] w0 by (simp add: owned_depth_def d')
  show "valid_use w \<longrightarrow> valid_use w'"
    using objects_create(2) [OF b] texture.init_valid [OF assms(2) c] depth_target.init_valid [OF TrueI e] w0 by simp
  show "m_is_import (m_depth_stencil_memory d')" by (simp add: d' p MemoryPool_ImportExisting_def)
  show "\<not> m_import (m_depth_stencil_texture d')" using c assms(2) by (auto simp: d' Texture_Initialize_def owner_simps)
  show "same_sync d d'" "same_images d d'" by (simp_all add: d' same_defs)
qed

text \<open>Destroying objects of one kind, one after the other, in a log that has them.\<close>

lemma destroy_objects:
  assumes "k \<noteq> VkDevice" and "k \<noteq> VkInstance"
  shows "vk_objects w = (\<Sum>h\<leftarrow>hs. object k h) + m \<Longrightarrow> vk_objects (fold (\<lambda>h. tell drv (vkDestroy k h)) hs w) = m \<and>
    (valid_use w \<longrightarrow> valid_use (fold (\<lambda>h. tell drv (vkDestroy k h)) hs w))"
proof (induction hs arbitrary: w)
  case (Cons h hs)
  have "object k h \<subseteq># vk_objects w" using Cons.prems by (simp add: union_assoc)
  then have "valid_call (vkDestroy k h) (vk_objects w)" using assms valid_destroy by blast
  moreover have "vk_objects (tell drv (vkDestroy k h) w) = (\<Sum>h\<leftarrow>hs. object k h) + m" using Cons.prems by (simp add: tell_eq)
  ultimately show ?case using Cons.IH [of "tell drv (vkDestroy k h) w"] by (simp add: tell_eq)
qed simp

lemma destroy_sync_objects:
  "vk_objects w = (\<Sum>s\<leftarrow>map fst xs. object VkSemaphore s) + (\<Sum>f\<leftarrow>map snd xs. object VkFence f) + m \<Longrightarrow>
    vk_objects (destroy_sync drv xs w) = m \<and> (valid_use w \<longrightarrow> valid_use (destroy_sync drv xs w))"
proof (induction xs arbitrary: w)
  case (Cons x xs)
  obtain s f where x: "x = (s, f)" by (cases x)
  let ?w = "tell drv (vkDestroy VkFence f) (tell drv (vkDestroy VkSemaphore s) w)"
  have w: "vk_objects w = object VkSemaphore s + (object VkFence f + ((\<Sum>s\<leftarrow>map fst xs. object VkSemaphore s) + (\<Sum>f\<leftarrow>map snd xs. object VkFence f) + m))"
    using Cons.prems by (simp add: x ac_simps)
  then have "vk_objects ?w = (\<Sum>s\<leftarrow>map fst xs. object VkSemaphore s) + (\<Sum>f\<leftarrow>map snd xs. object VkFence f) + m" by (simp add: tell_eq)
  moreover have "valid_use w \<longrightarrow> valid_use ?w" using w by (simp add: tell_eq valid_destroy)
  ultimately show ?case using Cons.IH [of ?w] by (simp add: x destroy_sync_def)
qed (simp add: destroy_sync_def)

lemma finalize_images_objects:
  assumes "finalize_images drv xs w = (ys, w')" and "\<forall>x\<in>set xs. m_import (snd x)" and "vk_objects w = (\<Sum>x\<leftarrow>xs. owned_target (fst x)) + m"
  shows "vk_objects w' = m \<and> (valid_use w \<longrightarrow> valid_use w') \<and> length ys = length xs"
  using assms
proof (induction xs arbitrary: w ys)
  case (Cons x xs)
  obtain v t where x: "x = (v, t)" by (cases x)
  obtain v' w1 ys' where f: "TargetView_Finalize drv v w = (v', w1)" "finalize_images drv xs w1 = (ys', w')" "ys = (v', t) # ys'"
    using Cons.prems(1,2) by (auto simp: x Texture_Finalize_def Let_def split: prod.splits)
  have "owned_target v \<subseteq># vk_objects w" using Cons.prems(3) by (simp add: x union_assoc)
  then have "valid_use w \<longrightarrow> valid_use w1" using color_target.fin_valid [OF f(1)] by blast
  moreover have "vk_objects w1 = (\<Sum>x\<leftarrow>xs. owned_target (fst x)) + m"
    using color_target.fin_frees [OF f(1)] Cons.prems(3) by (simp add: x)
  ultimately show ?case using Cons.IH [OF f(2)] Cons.prems(2) f(3) by simp
qed simp

lemma finalize_swapchain_objects:
  assumes "finalize_swapchain_images drv d w = (d', w')" and "display_ok d" and "vk_objects w = owned_views d + m"
  shows "vk_objects w' = m" and "valid_use w \<longrightarrow> valid_use w'" and "display_sizes d'"
    and "same_sync d d'" and "same_depth d d'"
proof -
  let ?xs = "zip (m_vk_swapchain_targets d) (m_vk_swapchain_textures d)"
  obtain ys where y: "finalize_images drv ?xs w = (ys, w')" "d' = d\<lparr>m_vk_swapchain_targets := map fst ys, m_vk_swapchain_textures := map snd ys\<rparr>"
    using assms(1) by (auto simp: finalize_swapchain_images_def Let_def split: prod.splits)
  have l: "length (m_vk_swapchain_targets d) = length (m_vk_swapchain_textures d)" using assms(2) by (simp add: display_ok_def display_sizes_def)
  have "(\<Sum>x\<leftarrow>?xs. owned_target (fst x)) = owned_views d"
    using l by (simp add: owned_views_def flip: map_map comp_def [of owned_target fst])
  moreover have "\<forall>x\<in>set ?xs. m_import (snd x)" using assms(2) by (auto simp: display_ok_def dest: set_zip_rightD)
  ultimately have f: "vk_objects w' = m \<and> (valid_use w \<longrightarrow> valid_use w') \<and> length ys = length ?xs"
    using finalize_images_objects [OF y(1)] assms(3) by simp
  then show "vk_objects w' = m" "valid_use w \<longrightarrow> valid_use w'" by blast+
  show "display_sizes d'" using f assms(2) by (simp add: display_ok_def display_sizes_def y(2))
  show "same_sync d d'" "same_depth d d'" by (simp_all add: y(2) same_defs)
qed

lemma finalize_depth_objects:
  assumes "finalize_depth drv d w = (d', w')" and "m_is_import (m_depth_stencil_memory d)" and "vk_objects w = owned_depth d + m"
  shows "vk_objects w' = m" and "valid_use w \<longrightarrow> valid_use w'" and "same_sync d d'" and "same_images d d'"
    and "m_depth_stencil_texture d' = m_depth_stencil_texture d"
proof -
  obtain v w1 t w2 where f: "TargetView_Finalize drv (db_depth_stencil_target d) w = (v, w1)" "Texture_Finalize drv (m_depth_stencil_texture d) w1 = (t, w2)"
      "w' = tell drv (vkDestroy VkDeviceMemory (m_vk_depth_stencil_image_memory d)) w2"
      "d' = d\<lparr>db_depth_stencil_target := v, m_depth_stencil_texture := t, m_depth_stencil_memory := m_depth_stencil_memory d\<rparr>"
    using assms(1,2) by (auto simp: finalize_depth_def MemoryPool_Finalize_def Let_def split: prod.splits)
  have t: "t = m_depth_stencil_texture d" using f(2) by (simp add: Texture_Finalize_def)
  have 1: "vk_objects w1 = owned_texture (m_depth_stencil_texture d) + (object VkDeviceMemory (m_vk_depth_stencil_image_memory d) + m)"
    using depth_target.fin_frees [OF f(1)] assms(3) by (simp add: owned_depth_def union_assoc)
  have 2: "vk_objects w2 = object VkDeviceMemory (m_vk_depth_stencil_image_memory d) + m"
    using texture.fin_frees [OF f(2)] 1 by simp
  show "vk_objects w' = m" using 2 by (simp add: f(3) tell_eq)
  have "owned_target (db_depth_stencil_target d) \<subseteq># vk_objects w" using assms(3) by (simp add: owned_depth_def union_assoc)
  then have "valid_use w \<longrightarrow> valid_use w1" using depth_target.fin_valid [OF f(1)] by blast
  moreover have "valid_use w1 \<longrightarrow> valid_use w2" using texture.fin_valid [OF f(2)] 1 by simp
  moreover have "valid_use w2 \<longrightarrow> valid_use w'" using 2 by (simp add: f(3) tell_eq valid_destroy)
  ultimately show "valid_use w \<longrightarrow> valid_use w'" by blast
  show "same_sync d d'" "same_images d d'" "m_depth_stencil_texture d' = m_depth_stencil_texture d" by (simp_all add: f(4) t same_defs)
qed

lemma same_owned:
  "same_sync d d' \<Longrightarrow> owned_semaphores d' = owned_semaphores d" "same_sync d d' \<Longrightarrow> owned_fences d' = owned_fences d"
  "same_images d d' \<Longrightarrow> owned_views d' = owned_views d" "same_depth d d' \<Longrightarrow> owned_depth d' = owned_depth d"
  by (simp_all add: same_defs owned_semaphores_def owned_fences_def owned_views_def owned_depth_def)

section \<open>Life of a display buffer\<close>

definition owned_display :: "DisplayBuffer \<Rightarrow> (vk_kind \<times> u64) multiset" where
  "owned_display d = owned_views d + owned_semaphores d + owned_fences d + owned_depth d"

lemma acquire_image_objects:
  assumes "acquire_image drv d w = Inr (d', w')"
  shows "vk_objects w' = vk_objects w" "valid_use w' \<longleftrightarrow> valid_use w" "same_sync d d'" "same_images d d'" "same_depth d d'"
  using assms by (auto simp: acquire_image_def vk_simps same_defs)

lemma Initialize_objects:
  assumes "DisplayBuffer_Initialize drv ctx ma surface x y d w = Inr (d', w')" and "display_sizes d"
  shows "vk_objects w' = vk_objects w + object VkSwapchainKHR (m_vk_swapchain d') + owned_display d'" and "valid_use w \<longrightarrow> valid_use w'"
    and "display_ok d'" and "\<exists>i w1. create drv (vkCreateSwapchainKHR i) w = Inr (m_vk_swapchain d', w1)" and "m_vk_surface d' = surface"
proof -
  define d0 where "d0 h = (SetDimensions (real (unat x)) (real (unat y)) (SetVirtualCanvasSize (real (unat x)) (real (unat y)) d))
    \<lparr>m_vk_surface := surface, m_vk_swapchain := h\<rparr>" for h
  obtain h w1 d1 w2 ss w3 af w4 fs w5 d2 w6 a w7 where
    1: "create drv (vkCreateSwapchainKHR (swapchain_info ctx surface x y 0)) w = Inr (h, w1)" and
    2: "swapchain_images drv ma (d0 h) w1 = Inr (d1, w2)" and
    3: "create_list drv (replicate FramesInFlight vkCreateSemaphore) w2 = Inr (ss, w3)" and
    4: "create drv (vkCreateFence False) w3 = Inr (af, w4)" and
    5: "create_list drv (replicate FramesInFlight (vkCreateFence True)) w4 = Inr (fs, w5)" and
    6: "acquire_image drv (d1\<lparr>m_vk_queue_present_semaphore := ss, m_vk_image_acquire_fence := af, m_vk_queue_submit_fence := fs\<rparr>) w5 = Inr (d2, w6)" and
    7: "checked drv (vkWaitForFences (m_vk_image_acquire_fence d2) UINT64_MAX) w6 = Inr (a, w7)" and
    8: "create_depth drv ctx ma x y d2 w7 = Inr (d', w')"
    using assms(1) by (auto simp: DisplayBuffer_Initialize_def and_then_Inr_iff Let_def d0_def)
  have "display_sizes (d0 h)" using assms(2) by (simp add: display_sizes_def d0_def SetDimensions_def SetVirtualCanvasSize_def)
  note i = swapchain_images_objects [OF 2 this]
  note s = create_list_objects [OF 3, of VkSemaphore, simplified] and g = create_list_objects [OF 5, of VkFence, simplified]
  note q = acquire_image_objects [OF 6]
  have o7: "vk_objects w7 = vk_objects w6" "valid_use w7 \<longleftrightarrow> valid_use w6" using 7 by (auto simp: checked_Inr_iff)
  have n: "\<not> m_import (m_depth_stencil_texture d2)" using i(4) q(5) by (simp add: display_sizes_def same_defs)
  note c = create_depth_objects [OF 8 n]
  have e: "m_vk_swapchain d' = h" "m_vk_queue_present_semaphore d' = ss" "m_vk_queue_submit_fence d' = fs" "m_vk_image_acquire_fence d' = af"
      "m_vk_swapchain_textures d' = m_vk_swapchain_textures d1" "m_vk_swapchain_targets d' = m_vk_swapchain_targets d1"
    using c(5,6) q(3,4) i(5) by (simp_all add: same_defs d0_def)
  then have o: "owned_views d' = owned_views d1" "owned_semaphores d' = (\<Sum>s\<leftarrow>ss. object VkSemaphore s)"
      "owned_fences d' = (\<Sum>f\<leftarrow>fs. object VkFence f) + object VkFence af"
    by (simp_all add: owned_views_def owned_semaphores_def owned_fences_def)
  show "vk_objects w' = vk_objects w + object VkSwapchainKHR (m_vk_swapchain d') + owned_display d'"
    using objects_create(1) [OF 1] i(1) objects_create(1) [OF 4] c(1) o7(1) q(1) conjunct1 [OF g] conjunct1 [OF s]
    by (simp add: owned_display_def o e(1))
  show "valid_use w \<longrightarrow> valid_use w'"
    using c(2) o7(2) q(2) g s objects_create(2) [OF 4] i(2) objects_create(2) [OF 1] by simp
  show "display_ok d'" using i(3,4) c(3,4) s g e by (simp add: display_ok_def display_sizes_def)
  show "\<exists>i w1. create drv (vkCreateSwapchainKHR i) w = Inr (m_vk_swapchain d', w1)" using 1 e(1) by blast
  show "m_vk_surface d' = surface" using c(5) q(3) i(5) by (simp add: same_defs d0_def)
qed

lemma Finalize_objects:
  assumes "DisplayBuffer_Finalize drv d w = (d', w')" and "display_ok d" and "vk_objects w = owned_display d + m"
  shows "vk_objects w' = m" and "valid_use w \<longrightarrow> valid_use w'"
proof -
  let ?w0 = "tell drv (vkDestroy VkFence (m_vk_image_acquire_fence d)) w"
  let ?xs = "zip (m_vk_queue_present_semaphore d) (m_vk_queue_submit_fence d)"
  obtain d1 w1 d2 where f: "finalize_swapchain_images drv d (destroy_sync drv ?xs ?w0) = (d1, w1)" "finalize_depth drv d1 w1 = (d2, w')"
    using assms(1) by (auto simp: DisplayBuffer_Finalize_def Let_def split: prod.splits)
  have l: "length (m_vk_queue_present_semaphore d) = length (m_vk_queue_submit_fence d)" using assms(2) by (simp add: display_ok_def)
  have e: "vk_objects w = object VkFence (m_vk_image_acquire_fence d) + ((\<Sum>s\<leftarrow>map fst ?xs. object VkSemaphore s) + (\<Sum>f\<leftarrow>map snd ?xs. object VkFence f) +
      (owned_views d + (owned_depth d + m)))"
    using assms(3) l by (simp add: owned_display_def owned_semaphores_def owned_fences_def ac_simps)
  then have "vk_objects ?w0 = (\<Sum>s\<leftarrow>map fst ?xs. object VkSemaphore s) + (\<Sum>f\<leftarrow>map snd ?xs. object VkFence f) + (owned_views d + (owned_depth d + m))"
    by (simp add: tell_eq)
  note s = destroy_sync_objects [OF this, of drv]
  have v0: "valid_use w \<longrightarrow> valid_use ?w0" using e by (simp add: tell_eq valid_destroy)
  note i = finalize_swapchain_objects [OF f(1) assms(2) conjunct1 [OF s]]
  have d1: "m_is_import (m_depth_stencil_memory d1)" "owned_depth d1 = owned_depth d"
    using assms(2) i(5) same_owned(4) [OF i(5)] by (simp_all add: same_depth_def display_ok_def)
  note c = finalize_depth_objects [OF f(2) d1(1), of m]
  show "vk_objects w' = m" "valid_use w \<longrightarrow> valid_use w'" using c i(1,2) d1(2) s v0 by auto
qed

text \<open>
  Finalising a display buffer destroys the views, the depth image with its memory and the synchronisation objects, each once; but the swapchain, which is created by \<open>Initialize\<close>,
  is left behind. (The flag of the depth texture that says it is imported has to start false.)
\<close>

theorem swapchain_left_behind:
  assumes "DisplayBuffer_Initialize drv ctx ma surface x y d w = Inr (d1, w1)" and "display_sizes d" and "DisplayBuffer_Finalize drv d1 w1 = (d2, w2)"
  shows "vk_objects w2 = vk_objects w + object VkSwapchainKHR (m_vk_swapchain d1) \<and> (valid_use w \<longrightarrow> valid_use w2)"
proof -
  note i = Initialize_objects [OF assms(1,2)]
  have "vk_objects w1 = owned_display d1 + (vk_objects w + object VkSwapchainKHR (m_vk_swapchain d1))" using i(1) by (simp add: ac_simps)
  from Finalize_objects [OF assms(3) i(3) this] i(2) show ?thesis by blast
qed

text \<open>The two halves of \<open>Recreate\<close>: the swapchain with its images, then the semaphores and the depth image.\<close>

lemma recreate_images:
  assumes "create drv (vkCreateSwapchainKHR i) w = Inr (h, w1)" and "display_ok d"
    and "finalize_swapchain_images drv (d\<lparr>m_vk_swapchain := h\<rparr>) (tell drv (vkDestroy VkSwapchainKHR (m_vk_swapchain d)) w1) = (d1, w2)"
    and "swapchain_images drv ma (d1\<lparr>m_current_frame := 0\<rparr>) w2 = Inr (d2, w3)"
    and "vk_objects w = object VkSwapchainKHR (m_vk_swapchain d) + (owned_views d + m)"
  shows "vk_objects w3 = m + object VkSwapchainKHR h + owned_views d2" and "valid_use w \<longrightarrow> valid_use w3" and "display_ok d2" and "same_depth d d2"
    and "same_sync (d\<lparr>m_vk_swapchain := h, m_current_frame := 0\<rparr>) d2"
proof -
  let ?w1 = "tell drv (vkDestroy VkSwapchainKHR (m_vk_swapchain d)) w1"
  have o: "vk_objects w1 = object VkSwapchainKHR (m_vk_swapchain d) + (owned_views d + (m + object VkSwapchainKHR h))"
    using objects_create(1) [OF assms(1)] assms(5) by (simp add: union_assoc)
  then have o': "vk_objects ?w1 = owned_views (d\<lparr>m_vk_swapchain := h\<rparr>) + (m + object VkSwapchainKHR h)"
    and v: "valid_use w \<longrightarrow> valid_use ?w1"
    using objects_create(2) [OF assms(1)] by (simp_all add: tell_eq owned_views_def valid_destroy)
  have "display_ok (d\<lparr>m_vk_swapchain := h\<rparr>)" using assms(2) by (simp add: display_ok_def display_sizes_def)
  note f = finalize_swapchain_objects [OF assms(3) this o']
  have "display_sizes (d1\<lparr>m_current_frame := 0\<rparr>)" using f(3) by (simp add: display_sizes_def)
  note i = swapchain_images_objects [OF assms(4) this]
  show "vk_objects w3 = m + object VkSwapchainKHR h + owned_views d2" using i(1) f(1) by simp
  show "valid_use w \<longrightarrow> valid_use w3" using v f(2) i(2) by blast
  show "same_depth d d2" "same_sync (d\<lparr>m_vk_swapchain := h, m_current_frame := 0\<rparr>) d2" using f(4,5) i(5,6) by (simp_all add: same_defs)
  then show "display_ok d2" using i(3,4) assms(2) by (simp add: display_ok_def display_sizes_def same_defs)
qed

lemma recreate_depth:
  assumes "create_list drv (replicate FramesInFlight vkCreateSemaphore) (fold (\<lambda>s. tell drv (vkDestroy VkSemaphore s)) (m_vk_queue_present_semaphore d) w) = Inr (ss, w1)"
    and "finalize_depth drv (d\<lparr>m_vk_queue_present_semaphore := ss\<rparr>) w1 = (d1, w2)" and "create_depth drv ctx ma x y d1 w2 = Inr (d', w')"
    and "display_ok d" and "vk_objects w = owned_semaphores d + (owned_depth d + m)"
  shows "vk_objects w' = m + owned_semaphores d' + owned_depth d'" and "valid_use w \<longrightarrow> valid_use w'" and "display_ok d'" and "same_images d d'"
    and "same_sync (d\<lparr>m_vk_queue_present_semaphore := ss\<rparr>) d'"
proof -
  note s = destroy_objects [OF _ _ assms(5) [unfolded owned_semaphores_def], of drv, simplified]
  note g = create_list_objects [OF assms(1), of VkSemaphore, simplified]
  have o: "vk_objects w1 = owned_depth (d\<lparr>m_vk_queue_present_semaphore := ss\<rparr>) + (m + (\<Sum>s\<leftarrow>ss. object VkSemaphore s))"
    using g s by (simp add: owned_depth_def union_assoc)
  have "m_is_import (m_depth_stencil_memory (d\<lparr>m_vk_queue_present_semaphore := ss\<rparr>))" using assms(4) by (simp add: display_ok_def)
  note z = finalize_depth_objects [OF assms(2) this o]
  have "\<not> m_import (m_depth_stencil_texture d1)" using z(5) assms(4) by (simp add: display_ok_def display_sizes_def)
  note c = create_depth_objects [OF assms(3) this]
  show *: "same_images d d'" "same_sync (d\<lparr>m_vk_queue_present_semaphore := ss\<rparr>) d'" using z(3,4) c(5,6) by (simp_all add: same_defs)
  show "vk_objects w' = m + owned_semaphores d' + owned_depth d'" using c(1) z(1) * by (simp add: owned_semaphores_def same_defs)
  show "valid_use w \<longrightarrow> valid_use w'" using s g z(2) c(2) by simp
  show "display_ok d'" using c(3,4) * assms(4) g by (simp add: display_ok_def display_sizes_def same_defs)
qed

text \<open>
  What a part of an operation does with objects: the ones the calls it adds to the log destroy and create, and the creating calls themselves in order.
\<close>

definition destroyed :: "vk_log \<Rightarrow> (vk_kind \<times> u64) multiset" where
  "destroyed l = (\<Sum>e\<leftarrow>l. old_object (fst e))"

definition created :: "vk_log \<Rightarrow> (vk_kind \<times> u64) multiset" where
  "created l = (\<Sum>e\<leftarrow>l. new_object (fst e) (snd e))"

definition creating_calls :: "vk_log \<Rightarrow> vk_call list" where
  "creating_calls l = filter (\<lambda>c. creates c \<noteq> None) (map fst l)"

definition does :: "vk_log \<Rightarrow> vk_log \<Rightarrow> (vk_kind \<times> u64) multiset \<Rightarrow> (vk_kind \<times> u64) multiset \<Rightarrow> vk_call list \<Rightarrow> bool" where
  "does w w' D C cs \<longleftrightarrow> (\<exists>l. w' = w @ l \<and> destroyed l = D \<and> created l = C \<and> creating_calls l = cs)"

lemma does_refl: "does w w {#} {#} []"
  by (simp add: does_def destroyed_def created_def creating_calls_def)

lemma does_trans: "does w w1 D C cs \<Longrightarrow> does w1 w2 D' C' cs' \<Longrightarrow> does w w2 (D + D') (C + C') (cs @ cs')"
  unfolding does_def by (elim exE conjE) (rule exI, auto simp: destroyed_def created_def creating_calls_def)

lemma does_create: "create drv c w = Inr (h, w') \<Longrightarrow> creates c = Some k \<Longrightarrow> does w w' {#} (object k h) [c]"
  using creates_old_object [of c k]
  by (auto simp: does_def create_Inr_iff destroyed_def created_def creating_calls_def new_object_def)

lemma does_checked: "checked drv c w = Inr (a, w') \<Longrightarrow> creates c = None \<Longrightarrow> old_object c = {#} \<Longrightarrow> does w w' {#} {#} []"
  by (auto simp: does_def checked_Inr_iff destroyed_def created_def creating_calls_def new_object_def)

lemma does_destroy: "does w (tell drv (vkDestroy k h) w) (object k h) {#} []"
  by (auto simp: does_def tell_eq destroyed_def created_def creating_calls_def new_object_def)

lemma does_destroy_list: "does w (fold (\<lambda>h. tell drv (vkDestroy k h)) hs w) (\<Sum>h\<leftarrow>hs. object k h) {#} []"
proof (induction hs arbitrary: w)
  case (Cons h hs)
  from does_trans [OF does_destroy [of w drv k h] Cons.IH] show ?case by simp
qed (simp add: does_refl)

lemma does_create_list:
  assumes "create_list drv cs w = Inr (hs, w')" and "\<forall>c\<in>set cs. creates c = Some k"
  shows "does w w' {#} (\<Sum>h\<leftarrow>hs. object k h) cs"
  using assms
proof (induction cs arbitrary: w hs)
  case (Cons c cs)
  then obtain h w1 hs' where h: "create drv c w = Inr (h, w1)" "create_list drv cs w1 = Inr (hs', w')" "hs = h # hs'"
    by (auto simp: and_then_Inr_iff)
  from does_trans [OF does_create [OF h(1), of k] Cons.IH [OF h(2)]] Cons.prems(2) show ?case by (simp add: h(3))
qed (simp add: does_refl)

lemma does_image_target:
  assumes "image_target drv i v w = Inr (v', w')"
  shows "does w w' {#} (owned_target v') [vkCreateImageView (target_view_info VK_IMAGE_ASPECT_COLOR_BIT (\<lambda>_. fst i) (snd i))]"
  using assms does_create by (fastforce simp: image_target_def ColorTargetView_Initialize_def and_then_Inr_iff owned_target_def)

lemma does_image_targets:
  assumes "each_init (image_target drv) xs w = Inr (vs, w')"
  shows "does w w' {#} (\<Sum>v\<leftarrow>vs. owned_target v)
    (map (\<lambda>x. vkCreateImageView (target_view_info VK_IMAGE_ASPECT_COLOR_BIT (\<lambda>_. fst (fst x)) (snd (fst x)))) xs)"
  using assms
proof (induction xs arbitrary: w vs)
  case (Cons x xs)
  obtain i v where x: "x = (i, v)" by (cases x)
  from Cons.prems obtain v' w1 vs' where h: "image_target drv i v w = Inr (v', w1)" "each_init (image_target drv) xs w1 = Inr (vs', w')" "vs = v' # vs'"
    by (auto simp: x and_then_Inr_iff)
  from does_trans [OF does_image_target [OF h(1)] Cons.IH [OF h(2)]] show ?case by (simp add: h(3) x)
qed (simp add: does_refl)

definition view_call :: "member_addresses \<Rightarrow> DisplayBuffer \<Rightarrow> nat \<Rightarrow> vk_call" where
  "view_call ma d i = vkCreateImageView (target_view_info VK_IMAGE_ASPECT_COLOR_BIT (\<lambda>_. m_vk_swapchain_textures d ! i)
    (target_info VK_FORMAT_B8G8R8A8_SRGB (texture_address ma i)))"

lemma does_swapchain_images:
  assumes "swapchain_images drv ma d w = Inr (d', w')" and "display_sizes d"
  shows "does w w' {#} (owned_views d') (map (view_call ma d') [0..<BufferedFrames])"
proof -
  obtain a w1 vs where a: "checked drv (vkGetSwapchainImagesKHR (m_vk_swapchain d) (of_nat BufferedFrames)) w = Inr (a, w1)"
      "each_init (image_target drv) (zip (zip (map2 Texture_ImportExisting (take BufferedFrames (vk_values a @ replicate BufferedFrames 0)) (m_vk_swapchain_textures d))
        (map (\<lambda>i. target_info VK_FORMAT_B8G8R8A8_SRGB (texture_address ma i)) [0..<BufferedFrames])) (m_vk_swapchain_targets d)) w1 = Inr (vs, w')"
      "d' = d\<lparr>m_vk_swapchain_textures := map2 Texture_ImportExisting (take BufferedFrames (vk_values a @ replicate BufferedFrames 0)) (m_vk_swapchain_textures d),
        m_vk_swapchain_targets := vs\<rparr>"
    using assms(1) by (auto simp: swapchain_images_def and_then_Inr_iff Let_def)
  have l: "length (m_vk_swapchain_textures d) = BufferedFrames" "length (m_vk_swapchain_targets d) = BufferedFrames"
    using assms(2) by (simp_all add: display_sizes_def)
  have "map (\<lambda>x. vkCreateImageView (target_view_info VK_IMAGE_ASPECT_COLOR_BIT (\<lambda>_. fst (fst x)) (snd (fst x))))
      (zip (zip (m_vk_swapchain_textures d') (map (\<lambda>i. target_info VK_FORMAT_B8G8R8A8_SRGB (texture_address ma i)) [0..<BufferedFrames])) (m_vk_swapchain_targets d)) =
      map (view_call ma d') [0..<BufferedFrames]"
    using l by (intro nth_equalityI) (auto simp: a(3) view_call_def)
  then show ?thesis
    using does_trans [OF does_checked [OF a(1)] does_image_targets [OF a(2)]] by (simp add: a(3) owned_views_def)
qed

lemma does_finalize_images:
  assumes "finalize_images drv xs w = (ys, w')" and "\<forall>x\<in>set xs. m_import (snd x)"
  shows "does w w' (\<Sum>x\<leftarrow>xs. owned_target (fst x)) {#} []"
  using assms
proof (induction xs arbitrary: w ys)
  case (Cons x xs)
  obtain v t where x: "x = (v, t)" by (cases x)
  obtain ys' where f: "finalize_images drv xs (tell drv (vkDestroy VkImageView (m_vk_target_image_view v)) w) = (ys', w')"
    using Cons.prems by (auto simp: x Texture_Finalize_def TargetView_Finalize_def Let_def split: prod.splits)
  from does_trans [OF does_destroy Cons.IH [OF f]] Cons.prems(2) show ?case by (simp add: x owned_target_def)
qed (simp add: does_refl)

lemma does_finalize_swapchain_images:
  assumes "finalize_swapchain_images drv d w = (d', w')" and "display_ok d"
  shows "does w w' (owned_views d) {#} []"
proof -
  let ?xs = "zip (m_vk_swapchain_targets d) (m_vk_swapchain_textures d)"
  obtain ys where y: "finalize_images drv ?xs w = (ys, w')"
    using assms(1) by (auto simp: finalize_swapchain_images_def Let_def split: prod.splits)
  have l: "length (m_vk_swapchain_targets d) = length (m_vk_swapchain_textures d)" using assms(2) by (simp add: display_ok_def display_sizes_def)
  have "(\<Sum>x\<leftarrow>?xs. owned_target (fst x)) = owned_views d"
    using l by (simp add: owned_views_def flip: map_map comp_def [of owned_target fst])
  moreover have "\<forall>x\<in>set ?xs. m_import (snd x)" using assms(2) by (auto simp: display_ok_def dest: set_zip_rightD)
  ultimately show ?thesis using does_finalize_images [OF y] by simp
qed

lemma does_finalize_depth:
  assumes "finalize_depth drv d w = (d', w')" and "m_is_import (m_depth_stencil_memory d)" and "\<not> m_import (m_depth_stencil_texture d)"
  shows "does w w' (owned_depth d) {#} []"
proof -
  let ?w1 = "tell drv (vkDestroy VkImageView (m_vk_target_image_view (db_depth_stencil_target d))) w"
  let ?w2 = "tell drv (vkDestroy VkImage (m_vk_image (m_depth_stencil_texture d))) ?w1"
  have "w' = tell drv (vkDestroy VkDeviceMemory (m_vk_depth_stencil_image_memory d)) ?w2"
    using assms by (simp add: finalize_depth_def TargetView_Finalize_def Texture_Finalize_def MemoryPool_Finalize_def Let_def)
  then show ?thesis
    using does_trans [OF does_trans [OF does_destroy does_destroy] does_destroy, where w = w] assms(3)
    by (simp add: owned_depth_def owned_target_def owned_texture_def)
qed

definition depth_calls :: "vk_context \<Rightarrow> member_addresses \<Rightarrow> u32 \<Rightarrow> u32 \<Rightarrow> u64 \<Rightarrow> DisplayBuffer \<Rightarrow> vk_call list" where
  "depth_calls ctx ma x y n d =
    [vkAllocateMemory \<lparr>device_address = False, host_pointer = None, allocationSize = AlignUp n TargetMemoryPoolAlignment,
      memoryTypeIndex = FindMemoryHeapIndex ctx VK_MEMORY_PROPERTY_DEVICE_LOCAL_BIT\<rparr>,
     vkCreateImage (image_info ctx (depth_image_info x y)),
     vkCreateImageView (target_view_info (VK_IMAGE_ASPECT_DEPTH_BIT OR VK_IMAGE_ASPECT_STENCIL_BIT) (\<lambda>_. m_depth_stencil_texture d)
       (target_info VK_FORMAT_D24_UNORM_S8_UINT (depth_texture_address ma)))]"

lemma does_create_depth:
  assumes "create_depth drv ctx ma x y d w = Inr (d', w')" and "\<not> m_import (m_depth_stencil_texture d)"
  shows "\<exists>n. does w w' {#} (owned_depth d') (depth_calls ctx ma x y n d')"
proof -
  obtain w0 n memory w1 p t w2 v where
    a: "GetRequiredMemorySize drv ctx (depth_image_info x y) w = (n, w0)" and
    b: "create drv (vkAllocateMemory \<lparr>device_address = False, host_pointer = None, allocationSize = AlignUp n TargetMemoryPoolAlignment,
        memoryTypeIndex = FindMemoryHeapIndex ctx VK_MEMORY_PROPERTY_DEVICE_LOCAL_BIT\<rparr>) w0 = Inr (memory, w1)" and
    c: "Texture_Initialize drv ctx (depth_image_info x y, depth_pool_address ma, p) (m_depth_stencil_texture d) w1 = Inr (t, w2)" and
    e: "DepthStencilTargetView_Initialize drv (\<lambda>_. t) (target_info VK_FORMAT_D24_UNORM_S8_UINT (depth_texture_address ma))
        (db_depth_stencil_target d) w2 = Inr (v, w')" and
    d': "d' = d\<lparr>m_vk_depth_stencil_image_memory := memory, m_depth_stencil_memory := p, m_depth_stencil_texture := t, db_depth_stencil_target := v\<rparr>"
    using assms(1) by (auto simp: create_depth_def and_then_Inr_iff Let_def split: prod.splits)
  have 0: "does w w0 {#} {#} []"
    using a by (auto simp: GetRequiredMemorySize_def GetMemoryRequirements_def ask_def does_def destroyed_def created_def creating_calls_def new_object_def)
  obtain h u a where h: "create drv (vkCreateImage (image_info ctx (depth_image_info x y))) w1 = Inr (h, u)"
      "checked drv (vkBindImageMemory h (m_vk_memory p) (ucast (memory_offset (depth_image_info x y)))) u = Inr (a, w2)"
      "m_vk_image t = h" "m_import t = m_import (m_depth_stencil_texture d)"
    using c by (auto simp: Texture_Initialize_def and_then_Inr_iff)
  obtain g where g: "create drv (vkCreateImageView (target_view_info (VK_IMAGE_ASPECT_DEPTH_BIT OR VK_IMAGE_ASPECT_STENCIL_BIT) (\<lambda>_. t)
      (target_info VK_FORMAT_D24_UNORM_S8_UINT (depth_texture_address ma)))) w2 = Inr (g, w')" "m_vk_target_image_view v = g"
    using e by (auto simp: DepthStencilTargetView_Initialize_def and_then_Inr_iff)
  note steps = does_trans [OF does_trans [OF does_trans [OF does_trans [OF 0 does_create [OF b]] does_create [OF h(1)]] does_checked [OF h(2)]] does_create [OF g(1)]]
  show ?thesis
    using steps [of VkDeviceMemory VkImage VkImageView] h(3,4) g(2) assms(2)
    by (intro exI [of _ n]) (simp add: d' owned_depth_def owned_target_def owned_texture_def depth_calls_def ac_simps)
qed

text \<open>The steps of \<open>Recreate\<close>.\<close>

lemma recreate_steps:
  assumes "DisplayBuffer_Recreate drv ctx ma x y d w = Inr (d', w')"
  obtains h w1 d1 w2 d2 w3 a w4 d3 w5 ss w6 d4 w7 where
    "create drv (vkCreateSwapchainKHR (swapchain_info ctx (m_vk_surface d) x y (m_vk_swapchain d))) w = Inr (h, w1)"
    and "finalize_swapchain_images drv (d\<lparr>m_vk_swapchain := h\<rparr>) (tell drv (vkDestroy VkSwapchainKHR (m_vk_swapchain d)) w1) = (d1, w2)"
    and "swapchain_images drv ma (d1\<lparr>m_current_frame := 0\<rparr>) w2 = Inr (d2, w3)"
    and "checked drv (vkResetFences (m_vk_image_acquire_fence d2)) w3 = Inr (a, w4)"
    and "acquire_image drv d2 w4 = Inr (d3, w5)"
    and "create_list drv (replicate FramesInFlight vkCreateSemaphore) (fold (\<lambda>s. tell drv (vkDestroy VkSemaphore s)) (m_vk_queue_present_semaphore d3) w5) = Inr (ss, w6)"
    and "finalize_depth drv (d3\<lparr>m_vk_queue_present_semaphore := ss\<rparr>) w6 = (d4, w7)"
    and "create_depth drv ctx ma x y d4 w7 = Inr (d', w')"
proof -
  obtain h w1 where 1: "create drv (vkCreateSwapchainKHR (swapchain_info ctx (m_vk_surface d) x y (m_vk_swapchain d))) w = Inr (h, w1)"
    using assms by (auto simp: DisplayBuffer_Recreate_def and_then_Inr_iff Let_def)
  obtain d1 w2 where 2: "finalize_swapchain_images drv (d\<lparr>m_vk_swapchain := h\<rparr>) (tell drv (vkDestroy VkSwapchainKHR (m_vk_swapchain d)) w1) = (d1, w2)"
    by fastforce
  note r = assms [unfolded DisplayBuffer_Recreate_def, simplified Let_def 1 2 and_then.simps case_prod_conv]
  obtain d2 w3 a w4 d3 w5 ss w6 where
    3: "swapchain_images drv ma (d1\<lparr>m_current_frame := 0\<rparr>) w2 = Inr (d2, w3)" and
    4: "checked drv (vkResetFences (m_vk_image_acquire_fence d2)) w3 = Inr (a, w4)" and
    5: "acquire_image drv d2 w4 = Inr (d3, w5)" and
    6: "create_list drv (replicate FramesInFlight vkCreateSemaphore) (fold (\<lambda>s. tell drv (vkDestroy VkSemaphore s)) (m_vk_queue_present_semaphore d3) w5) = Inr (ss, w6)"
    using r by (auto simp: and_then_Inr_iff)
  obtain d4 w7 where 7: "finalize_depth drv (d3\<lparr>m_vk_queue_present_semaphore := ss\<rparr>) w6 = (d4, w7)" by fastforce
  have 8: "create_depth drv ctx ma x y d4 w7 = Inr (d', w')" using r by (simp add: 3 4 5 6 7)
  show thesis by (rule that [OF 1 2 3 4 5 6 7 8])
qed

text \<open>Parts that the steps leave as they are.\<close>

lemma finalize_images_length: "finalize_images drv xs w = (ys, w') \<Longrightarrow> length ys = length xs"
  by (induction xs arbitrary: w ys) (auto simp: Let_def split: prod.splits)

lemma finalize_swapchain_same:
  assumes "finalize_swapchain_images drv d w = (d', w')" and "display_sizes d"
  shows "display_sizes d'" "same_sync d d'" "same_depth d d'"
  using assms by (auto simp: finalize_swapchain_images_def display_sizes_def same_defs Let_def dest!: finalize_images_length split: prod.splits)

lemma finalize_depth_same:
  assumes "finalize_depth drv d w = (d', w')"
  shows "same_sync d d'" "same_images d d'" "m_depth_stencil_texture d' = m_depth_stencil_texture d"
  using assms by (auto simp: finalize_depth_def same_defs Texture_Finalize_def Let_def split: prod.splits)

lemma recreate_objects:
  assumes "DisplayBuffer_Recreate drv ctx ma x y d w = Inr (d', w')" and "display_ok d"
    and "vk_objects w = object VkSwapchainKHR (m_vk_swapchain d) + owned_display d + m"
  shows "vk_objects w' = object VkSwapchainKHR (m_vk_swapchain d') + owned_display d' + m \<and> (valid_use w \<longrightarrow> valid_use w') \<and> display_ok d' \<and>
    m_current_frame d' = 0 \<and> m_vk_surface d' = m_vk_surface d"
proof -
  obtain h w1 d1 w2 d2 w3 a w4 d3 w5 ss w6 d4 w7 where
    1: "create drv (vkCreateSwapchainKHR (swapchain_info ctx (m_vk_surface d) x y (m_vk_swapchain d))) w = Inr (h, w1)" and
    2: "finalize_swapchain_images drv (d\<lparr>m_vk_swapchain := h\<rparr>) (tell drv (vkDestroy VkSwapchainKHR (m_vk_swapchain d)) w1) = (d1, w2)" and
    3: "swapchain_images drv ma (d1\<lparr>m_current_frame := 0\<rparr>) w2 = Inr (d2, w3)" and
    4: "checked drv (vkResetFences (m_vk_image_acquire_fence d2)) w3 = Inr (a, w4)" and
    5: "acquire_image drv d2 w4 = Inr (d3, w5)" and
    6: "create_list drv (replicate FramesInFlight vkCreateSemaphore) (fold (\<lambda>s. tell drv (vkDestroy VkSemaphore s)) (m_vk_queue_present_semaphore d3) w5) = Inr (ss, w6)" and
    7: "finalize_depth drv (d3\<lparr>m_vk_queue_present_semaphore := ss\<rparr>) w6 = (d4, w7)" and
    8: "create_depth drv ctx ma x y d4 w7 = Inr (d', w')"
    by (rule recreate_steps [OF assms(1)])
  have "vk_objects w = object VkSwapchainKHR (m_vk_swapchain d) + (owned_views d + (owned_semaphores d + (owned_depth d + (owned_fences d + m))))"
    using assms(3) by (simp add: owned_display_def ac_simps)
  note i = recreate_images [OF 1 assms(2) 2 3 this]
  have o4: "vk_objects w4 = vk_objects w3" "valid_use w4 \<longleftrightarrow> valid_use w3" using 4 by (auto simp: checked_Inr_iff)
  note q = acquire_image_objects [OF 5]
  have ok: "display_ok d3" using i(3) q(3-5) by (simp add: display_ok_def display_sizes_def same_defs)
  have d3: "owned_semaphores d3 = owned_semaphores d" "owned_depth d3 = owned_depth d" "owned_views d3 = owned_views d2"
    using i(4,5) q(3-5) by (simp_all add: same_defs owned_semaphores_def owned_depth_def owned_views_def)
  have "vk_objects w5 = owned_semaphores d3 + (owned_depth d3 + (owned_fences d + m + object VkSwapchainKHR h + owned_views d3))"
    using q(1) o4(1) i(1) d3 by (simp add: ac_simps)
  note c = recreate_depth [OF 6 7 8 ok this]
  have e: "owned_fences d' = owned_fences d" "owned_views d' = owned_views d3" "m_vk_swapchain d' = h" "m_vk_surface d' = m_vk_surface d" "m_current_frame d' = 0"
    using c(4,5) q(3) i(5) by (simp_all add: same_defs owned_fences_def owned_views_def)
  have "vk_objects w' = object VkSwapchainKHR (m_vk_swapchain d') + owned_display d' + m"
    using c(1) e by (simp add: owned_display_def ac_simps)
  moreover have "valid_use w \<longrightarrow> valid_use w'" using i(2) o4(2) q(2) c(2) by simp
  ultimately show ?thesis using c(3) e by blast
qed

lemma does_recreate:
  assumes "DisplayBuffer_Recreate drv ctx ma x y d w = Inr (d', w')" and "display_ok d"
  shows "\<exists>n. does w w' (object VkSwapchainKHR (m_vk_swapchain d) + owned_views d + owned_semaphores d + owned_depth d)
      (object VkSwapchainKHR (m_vk_swapchain d') + owned_views d' + owned_semaphores d' + owned_depth d')
      (vkCreateSwapchainKHR (swapchain_info ctx (m_vk_surface d) x y (m_vk_swapchain d)) #
        map (view_call ma d') [0..<BufferedFrames] @ replicate FramesInFlight vkCreateSemaphore @ depth_calls ctx ma x y n d') \<and>
    owned_fences d' = owned_fences d"
proof -
  obtain h w1 d1 w2 d2 w3 a w4 d3 w5 ss w6 d4 w7 where
    1: "create drv (vkCreateSwapchainKHR (swapchain_info ctx (m_vk_surface d) x y (m_vk_swapchain d))) w = Inr (h, w1)" and
    2: "finalize_swapchain_images drv (d\<lparr>m_vk_swapchain := h\<rparr>) (tell drv (vkDestroy VkSwapchainKHR (m_vk_swapchain d)) w1) = (d1, w2)" and
    3: "swapchain_images drv ma (d1\<lparr>m_current_frame := 0\<rparr>) w2 = Inr (d2, w3)" and
    4: "checked drv (vkResetFences (m_vk_image_acquire_fence d2)) w3 = Inr (a, w4)" and
    5: "acquire_image drv d2 w4 = Inr (d3, w5)" and
    6: "create_list drv (replicate FramesInFlight vkCreateSemaphore) (fold (\<lambda>s. tell drv (vkDestroy VkSemaphore s)) (m_vk_queue_present_semaphore d3) w5) = Inr (ss, w6)" and
    7: "finalize_depth drv (d3\<lparr>m_vk_queue_present_semaphore := ss\<rparr>) w6 = (d4, w7)" and
    8: "create_depth drv ctx ma x y d4 w7 = Inr (d', w')"
    by (rule recreate_steps [OF assms(1)])
  have ok: "display_ok (d\<lparr>m_vk_swapchain := h\<rparr>)" "display_sizes (d\<lparr>m_vk_swapchain := h\<rparr>)"
    using assms(2) by (simp_all add: display_ok_def display_sizes_def)
  note s1 = finalize_swapchain_same [OF 2 ok(2)]
  have "display_sizes (d1\<lparr>m_current_frame := 0\<rparr>)" using s1(1) by (simp add: display_sizes_def)
  note s2 = swapchain_images_objects(4-6) [OF 3 this] and D = does_swapchain_images [OF 3 this]
  note s3 = acquire_image_objects(3-5) [OF 5] and s4 = finalize_depth_same [OF 7]
  have n: "\<not> m_import (m_depth_stencil_texture (d3\<lparr>m_vk_queue_present_semaphore := ss\<rparr>))"
      "m_is_import (m_depth_stencil_memory (d3\<lparr>m_vk_queue_present_semaphore := ss\<rparr>))" "\<not> m_import (m_depth_stencil_texture d4)"
    using assms(2) s1(3) s2(3) s3(3) s4(3) by (simp_all add: display_ok_def display_sizes_def same_defs)
  note s5 = create_depth_objects(5,6) [OF 8 n(3)]
  have o: "owned_semaphores d3 = owned_semaphores d" "owned_depth (d3\<lparr>m_vk_queue_present_semaphore := ss\<rparr>) = owned_depth d"
      "owned_views d' = owned_views d2" "m_vk_swapchain_textures d' = m_vk_swapchain_textures d2" "owned_semaphores d' = (\<Sum>s\<leftarrow>ss. object VkSemaphore s)"
      "m_vk_swapchain d' = h" "owned_fences d' = owned_fences d"
    using s1(2,3) s2 s3 s4 s5 by (simp_all add: same_defs owned_semaphores_def owned_depth_def owned_views_def owned_fences_def)
  obtain k where J: "does w7 w' {#} (owned_depth d') (depth_calls ctx ma x y k d')" using does_create_depth [OF 8 n(3)] by blast
  have F: "does w4 w5 {#} {#} []" using 5 does_checked by (fastforce simp: acquire_image_def and_then_Inr_iff)
  note A = does_create [OF 1, of VkSwapchainKHR, simplified]
    and C = does_finalize_swapchain_images [OF 2 ok(1)] and E = does_checked [OF 4, simplified]
    and H = does_create_list [OF 6, of VkSemaphore, simplified] and I = does_finalize_depth [OF 7 n(2,1)]
  note all = does_trans [OF does_trans [OF does_trans [OF does_trans [OF does_trans [OF does_trans [OF does_trans [OF does_trans [OF does_trans
    [OF A does_destroy] C] D] E] F] does_destroy_list] H] I] J]
  have "view_call ma d' = view_call ma d2" "owned_views (d\<lparr>m_vk_swapchain := h\<rparr>) = owned_views d"
    by (simp_all add: fun_eq_iff view_call_def o owned_views_def)
  then show ?thesis
    using all o by (intro exI [of _ k]) (simp add: owned_semaphores_def ac_simps)
qed

text \<open>
  C26. Recreating the swapchain for a new size replaces every object that depends on it. The calls it adds destroy exactly the old swapchain and the views, semaphores and depth
  image (with its view and memory) the display buffer owned, each once, and create exactly the swapchain, views, semaphores and depth image it owns afterwards: a swapchain of
  the new size that replaces the old one, a view for each of its images, a semaphore for each frame in flight, and memory, image and view for depth of the new size. The fences
  are kept, only objects that exist are destroyed, and the current frame starts again.
\<close>

theorem recreate_replaces:
  assumes "DisplayBuffer_Recreate drv ctx ma x y d w = Inr (d', w')" and "display_ok d"
    and "vk_objects w = object VkSwapchainKHR (m_vk_swapchain d) + owned_display d + m"
  shows "(\<exists>l n. w' = w @ l \<and>
      destroyed l = object VkSwapchainKHR (m_vk_swapchain d) + owned_views d + owned_semaphores d + owned_depth d \<and>
      created l = object VkSwapchainKHR (m_vk_swapchain d') + owned_views d' + owned_semaphores d' + owned_depth d' \<and>
      creating_calls l = vkCreateSwapchainKHR (swapchain_info ctx (m_vk_surface d) x y (m_vk_swapchain d)) #
        map (view_call ma d') [0..<BufferedFrames] @ replicate FramesInFlight vkCreateSemaphore @ depth_calls ctx ma x y n d') \<and>
    owned_fences d' = owned_fences d \<and>
    vk_objects w' = object VkSwapchainKHR (m_vk_swapchain d') + owned_display d' + m \<and> (valid_use w \<longrightarrow> valid_use w') \<and> display_ok d' \<and>
    m_current_frame d' = 0 \<and> m_vk_surface d' = m_vk_surface d"
proof -
  obtain n l where "w' = w @ l" "destroyed l = object VkSwapchainKHR (m_vk_swapchain d) + owned_views d + owned_semaphores d + owned_depth d"
      "created l = object VkSwapchainKHR (m_vk_swapchain d') + owned_views d' + owned_semaphores d' + owned_depth d'"
      "creating_calls l = vkCreateSwapchainKHR (swapchain_info ctx (m_vk_surface d) x y (m_vk_swapchain d)) #
        map (view_call ma d') [0..<BufferedFrames] @ replicate FramesInFlight vkCreateSemaphore @ depth_calls ctx ma x y n d'"
      "owned_fences d' = owned_fences d"
    using does_recreate [OF assms(1,2)] unfolding does_def by blast
  then show ?thesis
    using recreate_objects [OF assms] by blast
qed

section \<open>Frames\<close>

fun present_frames :: "vk_driver \<Rightarrow> vk_context \<Rightarrow> nat \<Rightarrow> DisplayBuffer \<Rightarrow> vk_log \<Rightarrow> (DisplayBuffer \<times> vk_log) outcome" where
  "present_frames drv ctx 0 d w = Inr (d, w)"
| "present_frames drv ctx (Suc n) d w = and_then (PresentTextureAndAcquireNext drv ctx d w) (\<lambda>(d, w). present_frames drv ctx n d w)"

text \<open>The semaphores that presents of a swapchain have waited for.\<close>

fun waited :: "vk_call \<times> vk_answer \<Rightarrow> u64 list" where
  "waited (vkQueuePresentKHR q s c i, a) = [s]"
| "waited e = []"

lemma Present_frame:
  assumes "PresentTextureAndAcquireNext drv ctx d w = Inr (d', w')"
  shows "m_vk_queue_present_semaphore d' = m_vk_queue_present_semaphore d" "unat (m_current_frame d) < length (m_vk_queue_present_semaphore d)"
    "m_current_frame d' = (m_current_frame d + 1) mod 2"
    "concat (map waited w') = concat (map waited w) @ [m_vk_queue_present_semaphore d ! unat (m_current_frame d)]"
  using assms by (auto simp: PresentTextureAndAcquireNext_def GetCurrentQueuePresentSemaphore_def frame_item_def acquire_image_def vk_simps FramesInFlight_def
      split: if_splits)

lemma next_frame: "unat (f :: u32) < 2 \<Longrightarrow> unat ((f + 1) mod 2) = (unat f + 1) mod 2"
  by (auto simp: unat_mod unat_word_ariths)

text \<open>
  Presenting goes through the frames in flight in turn: with the current frame in range it always is, and the presents wait for the semaphores of frame 0, 1, 0, 1 and so on.
  (\<open>m_current_frame\<close> has to start in range, which neither the constructor nor \<open>Initialize\<close> sees to.)
\<close>

theorem frames_in_turn:
  assumes "present_frames drv ctx n d w = Inr (d', w')" and "unat (m_current_frame d) < FramesInFlight"
  shows "unat (m_current_frame d') = (unat (m_current_frame d) + n) mod FramesInFlight \<and>
    concat (map waited w') = concat (map waited w) @ map (\<lambda>k. m_vk_queue_present_semaphore d ! ((unat (m_current_frame d) + k) mod FramesInFlight)) [0..<n]"
  using assms
proof (induction n arbitrary: d w)
  case (Suc n)
  then obtain d1 w1 where p: "PresentTextureAndAcquireNext drv ctx d w = Inr (d1, w1)" "present_frames drv ctx n d1 w1 = Inr (d', w')"
    by (auto simp: and_then_Inr_iff)
  note f = Present_frame [OF p(1)]
  have u: "unat (m_current_frame d1) = (unat (m_current_frame d) + 1) mod 2" using f(3) Suc.prems(2) by (simp add: next_frame FramesInFlight_def)
  have l: "unat (m_current_frame d1) < FramesInFlight" by (simp add: u FramesInFlight_def)
  have s: "map g [0..<Suc n] = g 0 # map (\<lambda>k. g (Suc k)) [0..<n]" for g :: "nat \<Rightarrow> u64"
    by (simp add: upt_conv_Cons map_Suc_upt [symmetric] del: upt_Suc)
  have m: "(unat (m_current_frame d1) + k) mod 2 = (unat (m_current_frame d) + Suc k) mod 2" for k by (simp add: u mod_simps)
  show ?case
    using Suc.IH [OF p(2) l] f(1,4) Suc.prems(2) unfolding s by (simp add: FramesInFlight_def m)
qed (simp add: FramesInFlight_def)

section \<open>Examples\<close>

definition example_texture :: texture where
  "example_texture = \<lparr>m_vk_image = 0, t_bound_memory_pool = 0, m_vk_image_layout = 0, m_import = False, t_requires_relocation = False\<rparr>"

definition example_view :: target_view where
  "example_view = \<lparr>m_texture = 0, m_vk_target_image_view = 0\<rparr>"

definition example_display :: DisplayBuffer where
  "example_display = \<lparr>m_virtual_size = (0, 0), m_dimensions = (0, 0), m_vk_swapchain = 0, m_vk_surface = 0, m_vk_queue_present_semaphore = [],
    m_vk_queue_submit_fence = [], m_vk_image_acquire_fence = 0, m_vk_swapchain_textures = replicate 3 example_texture,
    m_vk_swapchain_targets = replicate 3 example_view, m_vk_depth_stencil_image_memory = 0, m_depth_stencil_memory = blank_pool,
    m_depth_stencil_texture = example_texture, db_depth_stencil_target = example_view, m_current_target_index = 0, m_current_frame = 0\<rparr>"

definition example_addresses :: member_addresses where
  "example_addresses = \<lparr>texture_address = (\<lambda>i. of_nat i + 1), depth_texture_address = 4, depth_pool_address = 5\<rparr>"

lemma example_display_runs:
  "case DisplayBuffer_Initialize steady_driver example_context example_addresses 9 640 480 example_display [] of Inl e \<Rightarrow> False | Inr x \<Rightarrow>
    (case DisplayBuffer_Recreate steady_driver example_context example_addresses 800 600 (fst x) (snd x) of Inl e \<Rightarrow> False | Inr y \<Rightarrow>
      m_current_frame (fst y) = 0 \<and> (case present_frames steady_driver example_context 3 (fst y) (snd y) of Inl e \<Rightarrow> False | Inr z \<Rightarrow> True))"
  by code_simp

lemma example_display_states:
  obtains d1 w1 d2 w2 d3 w3 where
    "DisplayBuffer_Initialize steady_driver example_context example_addresses 9 640 480 example_display [] = Inr (d1, w1)"
    "DisplayBuffer_Recreate steady_driver example_context example_addresses 800 600 d1 w1 = Inr (d2, w2)"
    "present_frames steady_driver example_context 3 d2 w2 = Inr (d3, w3)"
    "m_current_frame d2 = 0"
  using example_display_runs by (auto split: sum.splits)

lemma example_display_sizes: "display_sizes example_display"
  by (simp add: display_sizes_def example_display_def BufferedFrames_def example_texture_def)

theorem swapchain_left_behind_witness:
  "\<exists>d1 w1. DisplayBuffer_Initialize steady_driver example_context example_addresses 9 640 480 example_display [] = Inr (d1, w1) \<and>
    vk_objects (snd (DisplayBuffer_Finalize steady_driver d1 w1)) = object VkSwapchainKHR (m_vk_swapchain d1)"
proof -
  obtain d1 w1 where i: "DisplayBuffer_Initialize steady_driver example_context example_addresses 9 640 480 example_display [] = Inr (d1, w1)"
    by (rule example_display_states)
  obtain d2 w2 where f: "DisplayBuffer_Finalize steady_driver d1 w1 = (d2, w2)" by fastforce
  from swapchain_left_behind [OF i example_display_sizes f] i f show ?thesis by auto
qed

theorem recreate_replaces_witness:
  "\<exists>d1 w1 d2 l. DisplayBuffer_Recreate steady_driver example_context example_addresses 800 600 d1 w1 = Inr (d2, w1 @ l) \<and>
    destroyed l = object VkSwapchainKHR (m_vk_swapchain d1) + owned_views d1 + owned_semaphores d1 + owned_depth d1 \<and>
    length (creating_calls l) = 9 \<and> hd (creating_calls l) = vkCreateSwapchainKHR (swapchain_info example_context 9 800 600 (m_vk_swapchain d1)) \<and>
    vk_objects (w1 @ l) = object VkSwapchainKHR (m_vk_swapchain d2) + owned_display d2 \<and> valid_use (w1 @ l)"
proof -
  obtain d1 w1 d2 w2 where r: "DisplayBuffer_Initialize steady_driver example_context example_addresses 9 640 480 example_display [] = Inr (d1, w1)"
    "DisplayBuffer_Recreate steady_driver example_context example_addresses 800 600 d1 w1 = Inr (d2, w2)"
    by (rule example_display_states)
  note i = Initialize_objects [OF r(1) example_display_sizes]
  have w1: "vk_objects w1 = object VkSwapchainKHR (m_vk_swapchain d1) + owned_display d1 + {#}" "valid_use w1"
    using i(1,2) by (simp_all add: valid_use_def)
  obtain l n where l: "w2 = w1 @ l" "destroyed l = object VkSwapchainKHR (m_vk_swapchain d1) + owned_views d1 + owned_semaphores d1 + owned_depth d1"
      "creating_calls l = vkCreateSwapchainKHR (swapchain_info example_context (m_vk_surface d1) 800 600 (m_vk_swapchain d1)) #
        map (view_call example_addresses d2) [0..<BufferedFrames] @ replicate FramesInFlight vkCreateSemaphore @ depth_calls example_context example_addresses 800 600 n d2"
      "vk_objects w2 = object VkSwapchainKHR (m_vk_swapchain d2) + owned_display d2 + {#}" "valid_use w2"
    using recreate_replaces [OF r(2) i(3) w1(1)] w1(2) by blast
  have "m_vk_surface d1 = 9" by (rule i(5))
  then show ?thesis
    using r(2) l by (intro exI [of _ d1] exI [of _ w1] exI [of _ d2] exI [of _ l]) (simp add: BufferedFrames_def FramesInFlight_def depth_calls_def)
qed

theorem frames_in_turn_witness:
  "\<exists>d w d' w'. present_frames steady_driver example_context 3 d w = Inr (d', w') \<and> m_current_frame d = 0 \<and> unat (m_current_frame d') = 1"
proof -
  obtain d2 w2 d3 w3 where r: "present_frames steady_driver example_context 3 d2 w2 = Inr (d3, w3)" "m_current_frame d2 = 0"
    by (rule example_display_states)
  then show ?thesis using frames_in_turn [OF r(1)] by (auto simp: FramesInFlight_def)
qed

end
