(* ===== verification/Unit_Tests.thy ===== *)
theory Unit_Tests
  imports Handle_Table Time_Span Heap_Manager Sys_Thread
begin

text \<open>
  The unit tester (\<open>src/libraries/lib_unit_tester\<close>) and tests of
  \<open>src/unit_tests/lib_dd_tests\<close> run on the models of the components they test: the handle table, the
  time span and the heap manager. A test returns the line of the first assertion that fails, or -1.

  Shown here: the tester runs every test that was added once, the last one first; the handle
  table's tests pass, the exhaustion test for any number of iterations; the time span test passes
  on every clock of at least 1 kHz; the heap manager's test passes when the operating system gives the memory.
\<close>

section \<open>The tester\<close>

text \<open>
  A test is an object at an address; \<open>m_next_test\<close> links it. The virtual methods are a record per
  object. What \<open>puts\<close> prints is the list of lines.
\<close>

record test_methods =
  GetTestName :: string
  GetTestFileName :: string
  TestMain :: "int outcome"

record test_holder =
  m_head_test :: "nat option"
  m_next_test :: "nat \<Rightarrow> nat option"

definition TestHolder :: test_holder where
  "TestHolder = \<lparr>m_head_test = None, m_next_test = (\<lambda>_. None)\<rparr>"

definition AddTest :: "nat \<Rightarrow> test_holder \<Rightarrow> test_holder" where
  "AddTest test h = (let h = h\<lparr>m_next_test := (m_next_test h)(test := m_head_test h)\<rparr> in h\<lparr>m_head_test := Some test\<rparr>)"

definition TestBase :: "nat \<Rightarrow> test_holder \<Rightarrow> test_holder" where
  "TestBase this h = AddTest this (h\<lparr>m_next_test := (m_next_test h)(this := None)\<rparr>)"

definition default_TestMain :: "int outcome" where
  "default_TestMain = Inr 1"

fun count_tests :: "nat \<Rightarrow> nat option \<Rightarrow> u64 \<Rightarrow> test_holder \<Rightarrow> u64 outcome" where
  "count_tests fuel None test_count h = Inr test_count"
| "count_tests 0 (Some current_test) test_count h = Inl Diverges"
| "count_tests (Suc fuel) (Some current_test) test_count h =
    count_tests fuel (m_next_test h current_test) (test_count + 1) h"

definition CountTests :: "nat \<Rightarrow> test_holder \<Rightarrow> u64 outcome" where
  "CountTests fuel h = count_tests fuel (m_head_test h) 0 h"

text \<open>The formats of the two lines; \<open>snprintf\<close> keeps one byte of the 0x200 for the terminator.\<close>

fun decimal_nat :: "nat \<Rightarrow> string" where
  "decimal_nat n = (if n < 10 then [char_of (48 + n)] else decimal_nat (n div 10) @ [char_of (48 + n mod 10)])"

declare decimal_nat.simps [simp del]

definition decimal :: "int \<Rightarrow> string" where
  "decimal i = (if i < 0 then CHR ''-'' # decimal_nat (nat (- i)) else decimal_nat (nat i))"

definition snprintf :: "nat \<Rightarrow> string \<Rightarrow> string" where
  "snprintf sz s = take (sz - 1) s"

definition test_line :: "test_methods \<Rightarrow> int \<Rightarrow> u64 \<Rightarrow> u64 \<Rightarrow> string" where
  "test_line m result test_number test_count =
    (let tail = ''('' @ decimal (sint test_number) @ ''/'' @ decimal (sint test_count) @ '')'' in
     if result \<noteq> - 1
     then snprintf 0x200 (''Test failed:    '' @ GetTestName m @ '' ('' @ GetTestFileName m @ '':'' @ decimal result @ '')'' @ tail)
     else snprintf 0x200 (''Test succeeded: '' @ GetTestName m @ '' ('' @ GetTestFileName m @ '')'' @ tail))"

fun run_tests :: "nat \<Rightarrow> (nat \<Rightarrow> test_methods) \<Rightarrow> nat option \<Rightarrow> u64 \<Rightarrow> u64 \<Rightarrow> test_holder \<Rightarrow> string list \<Rightarrow> string list outcome" where
  "run_tests fuel M None test_number test_count h out = Inr out"
| "run_tests 0 M (Some current_test) test_number test_count h out = Inl Diverges"
| "run_tests (Suc fuel) M (Some current_test) test_number test_count h out =
    and_then (TestMain (M current_test)) (\<lambda>result.
    run_tests fuel M (m_next_test h current_test) (test_number + 1) test_count h
      (out @ [test_line (M current_test) result test_number test_count]))"

definition RunAllTests :: "nat \<Rightarrow> (nat \<Rightarrow> test_methods) \<Rightarrow> test_holder \<Rightarrow> string list outcome" where
  "RunAllTests fuel M h =
    and_then (CountTests fuel h) (\<lambda>test_count. run_tests fuel M (m_head_test h) 1 test_count h [])"

section \<open>Statements of a test\<close>

text \<open>A statement returns from the test with a line (\<open>Inl\<close>) or goes on with the state (\<open>Inr\<close>).\<close>

definition TEST_ASSERT :: "int \<Rightarrow> bool \<Rightarrow> 's \<Rightarrow> (int + 's) outcome" where
  "TEST_ASSERT line condition s = (if condition = False then Inr (Inl line) else Inr (Inr s))"

definition TEST_SUCCESS :: int where
  "TEST_SUCCESS = - 1"

definition stmt_seq :: "(int + 's) outcome \<Rightarrow> ('s \<Rightarrow> (int + 't) outcome) \<Rightarrow> (int + 't) outcome" where
  "stmt_seq p q = and_then p (\<lambda>r. case r of Inl line \<Rightarrow> Inr (Inl line) | Inr s \<Rightarrow> q s)"

fun for_range :: "nat list \<Rightarrow> (nat \<Rightarrow> 's \<Rightarrow> (int + 's) outcome) \<Rightarrow> 's \<Rightarrow> (int + 's) outcome" where
  "for_range [] body s = Inr (Inr s)"
| "for_range (i # is) body s = stmt_seq (body i s) (for_range is body)"

definition test_end :: "(int + 's) outcome \<Rightarrow> int outcome" where
  "test_end p = and_then p (\<lambda>r. case r of Inl line \<Rightarrow> Inr line | Inr s \<Rightarrow> Inr TEST_SUCCESS)"

section \<open>The tests of the handle table\<close>

text \<open>
  The objects are addresses of the values: their positions in \<open>test_values\<close>. \<open>ReserveHandle\<close> writes
  the handle only when it returns true.
\<close>

record table_test =
  handle_table :: "nat handle_table"
  handles :: "u32 list"
  test_values :: "u32 list"

definition assert_reserve :: "int \<Rightarrow> nat \<Rightarrow> bool \<Rightarrow> table_test \<Rightarrow> (int + table_test) outcome" where
  "assert_reserve line i expected s =
    and_then (ReserveHandle (Some i) (handle_table s)) (\<lambda>(h, t).
    let s = s\<lparr>handle_table := t\<rparr>;
        s = (case h of None \<Rightarrow> s | Some h \<Rightarrow> s\<lparr>handles := (handles s)[i := h]\<rparr>)
    in TEST_ASSERT line ((h \<noteq> None) = expected) s)"

definition assert_object :: "int \<Rightarrow> nat \<Rightarrow> bool \<Rightarrow> table_test \<Rightarrow> (int + table_test) outcome" where
  "assert_object line i expected s =
    and_then (GetObjectByHandle (handles s ! i) (handle_table s)) (\<lambda>p. TEST_ASSERT line ((p \<noteq> None) = expected) s)"

definition assert_value :: "int \<Rightarrow> nat \<Rightarrow> u32 \<Rightarrow> table_test \<Rightarrow> (int + table_test) outcome" where
  "assert_value line i expected s =
    and_then (GetObjectByHandle (handles s ! i) (handle_table s)) (\<lambda>p.
    and_then (deref p) (\<lambda>a. TEST_ASSERT line (test_values s ! a = expected) s))"

definition assert_free :: "int \<Rightarrow> nat \<Rightarrow> table_test \<Rightarrow> (int + table_test) outcome" where
  "assert_free line i s =
    and_then (FreeHandle (handles s ! i) (handle_table s)) (\<lambda>(b, t). TEST_ASSERT line (b = True) (s\<lparr>handle_table := t\<rparr>))"

definition HandleTableAllocation :: "int outcome" where
  "HandleTableAllocation = test_end (
    stmt_seq (assert_reserve 34 0 True \<lparr>handle_table = Initialize HandleTable, handles = [0, 0, 0], test_values = [1, 2, 3]\<rparr>) (\<lambda>s.
    stmt_seq (assert_reserve 35 1 True s) (\<lambda>s.
    stmt_seq (assert_reserve 36 2 True s) (\<lambda>s.
    stmt_seq (assert_object 39 0 True s) (\<lambda>s.
    stmt_seq (assert_object 40 1 True s) (\<lambda>s.
    stmt_seq (assert_object 41 2 True s) (\<lambda>s.
    stmt_seq (assert_value 44 0 1 s) (\<lambda>s.
    stmt_seq (assert_value 45 1 2 s) (\<lambda>s.
    stmt_seq (assert_value 46 2 3 s) (\<lambda>s.
    stmt_seq (assert_free 49 0 s) (\<lambda>s.
    stmt_seq (assert_free 50 1 s) (\<lambda>s.
    stmt_seq (assert_free 51 2 s) (\<lambda>s.
    stmt_seq (assert_object 54 0 False s) (\<lambda>s.
    stmt_seq (assert_object 55 1 False s) (\<lambda>s.
    assert_object 56 2 False s)))))))))))))))"

definition exhaustion_iteration :: "table_test \<Rightarrow> (int + table_test) outcome" where
  "exhaustion_iteration s =
    stmt_seq (for_range [0..<MaxHandles] (\<lambda>i s.
        assert_reserve 78 i True (s\<lparr>test_values := (test_values s)[i := of_nat i + 1]\<rparr>))
      (s\<lparr>test_values := replicate (MaxHandles + 1) 0\<rparr>)) (\<lambda>s.
    stmt_seq (assert_reserve 83 MaxHandles False
      (s\<lparr>test_values := (test_values s)[MaxHandles := of_nat MaxHandles + 1]\<rparr>)) (\<lambda>s.
    stmt_seq (for_range [0..<MaxHandles] (\<lambda>i. assert_object 87 i True) s) (\<lambda>s.
    stmt_seq (for_range [0..<MaxHandles] (\<lambda>i. assert_value 90 i (of_nat i + 1)) s) (\<lambda>s.
    for_range [0..<MaxHandles] (\<lambda>i. assert_free 95 i) s))))"

definition TestIterations :: nat where
  "TestIterations = 2048"

definition HandleExhaustion :: "nat \<Rightarrow> int outcome" where
  "HandleExhaustion iterations = test_end (for_range [0..<iterations] (\<lambda>y. exhaustion_iteration)
    \<lparr>handle_table = Initialize HandleTable, handles = replicate (MaxHandles + 1) 0, test_values = []\<rparr>)"

section \<open>The other tests\<close>

definition UnitTesterTest :: "int outcome" where
  "UnitTesterTest = Inr TEST_SUCCESS"

definition TimeSpanToTickConversion :: "int option \<Rightarrow> timestamp \<Rightarrow> int outcome" where
  "TimeSpanToTickConversion qpf t = test_end (
    and_then (InitializeTimeStamp qpf t) (\<lambda>t.
    and_then (FromMilliSeconds 2) (\<lambda>span.
    stmt_seq (TEST_ASSERT 29 (GetMilliSeconds span = 2) ()) (\<lambda>_.
    and_then (GetTick t span) (\<lambda>tick.
    and_then (FromTick t tick) (\<lambda>convert_span.
    TEST_ASSERT 33 (GetMilliSeconds convert_span = 2) ()))))))"

text \<open>
  What the operating system gives: the clock's frequency, the handles of the kernel's threads and
  fibers, the system information, the memory of the arena.
\<close>

definition HeapManagerInitialization ::
  "int option \<Rightarrow> address option \<Rightarrow> address \<Rightarrow> address \<Rightarrow> (nat \<Rightarrow> address) \<Rightarrow> bool \<Rightarrow> u32 \<Rightarrow> u32 \<Rightarrow> (u64 \<times> u64) option \<Rightarrow>
    u64 \<Rightarrow> u64 \<Rightarrow> bool \<Rightarrow> timestamp \<Rightarrow> user_scheduler \<Rightarrow> heap_manager \<Rightarrow> int outcome" where
  "HeapManagerInitialization qpf main_thread_handle main_fiber scheduler_fiber new_thread is_amd64 page_bytes active affinity
      allocation_granularity virtual_memory freed t k g = test_end (
    and_then (InitializeTimeStamp qpf t) (\<lambda>t.
    and_then (InitializeUKern 1 main_thread_handle main_fiber scheduler_fiber new_thread k) (\<lambda>k.
    and_then (InitializeSystemManager is_amd64 page_bytes active affinity) (\<lambda>sm.
    and_then (InitializeHeapManager 0x2000000 allocation_granularity virtual_memory g) (\<lambda>g.
    and_then (FindHeapByName heap_fuel ''HeapManager::sRootHeap'' g) (\<lambda>heap.
    stmt_seq (TEST_ASSERT 25 (heap \<noteq> 0) ()) (\<lambda>_.
    stmt_seq (TEST_ASSERT 26 (m_name (hm_heap (heaps g) heap) = ''HeapManager::sRootHeap'') ()) (\<lambda>_.
    and_then (FinalizeHeapManager freed g) (\<lambda>g. Inr (Inr ()))))))))))"

section \<open>Lemmas\<close>

lemma stmt_seq_simps [simp]:
  "stmt_seq (Inr (Inr s)) q = q s" "stmt_seq (Inr (Inl line)) q = Inr (Inl line)" "stmt_seq (Inl e) q = Inl e"
  by (simp_all add: stmt_seq_def)

lemma stmt_seq_assoc: "stmt_seq (stmt_seq p q) r = stmt_seq p (\<lambda>s. stmt_seq (q s) r)"
  by (cases p; simp add: stmt_seq_def split: sum.split)

lemma for_range_append: "for_range (xs @ ys) body s = stmt_seq (for_range xs body s) (for_range ys body)"
proof (induction xs arbitrary: s)
  case (Cons x xs)
  then have "for_range (xs @ ys) body = (\<lambda>s. stmt_seq (for_range xs body s) (for_range ys body))" by blast
  then show ?case by (simp add: stmt_seq_assoc)
qed simp

text \<open>The rule for a loop that no assertion leaves: an invariant that every pass takes one further.\<close>

lemma for_range_invariant:
  assumes "I 0 s" and "\<And>i s. i < n \<Longrightarrow> I i s \<Longrightarrow> \<exists>s'. body i s = Inr (Inr s') \<and> I (Suc i) s'"
  shows "\<exists>s'. for_range [0..<n] body s = Inr (Inr s') \<and> I n s'"
  using assms(2)
proof (induction n)
  case 0
  then show ?case using assms(1) by simp
next
  case (Suc n)
  then obtain s1 where s1: "for_range [0..<n] body s = Inr (Inr s1)" "I n s1" by fastforce
  obtain s2 where "body n s1 = Inr (Inr s2)" "I (Suc n) s2" using Suc.prems s1(2) by blast
  with s1 show ?case by (simp add: for_range_append)
qed

subsection \<open>The tester\<close>

fun linked_tests :: "(nat \<Rightarrow> nat option) \<Rightarrow> nat option \<Rightarrow> nat list \<Rightarrow> bool" where
  "linked_tests nx p [] \<longleftrightarrow> p = None"
| "linked_tests nx p (t # ts) \<longleftrightarrow> p = Some t \<and> linked_tests nx (nx t) ts"

lemma linked_tests_update: "t \<notin> set ts \<Longrightarrow> linked_tests (nx(t := v)) p ts = linked_tests nx p ts"
  by (induction ts arbitrary: p) auto

lemma added_tests:
  "distinct ts \<Longrightarrow> linked_tests (m_next_test (fold TestBase ts TestHolder)) (m_head_test (fold TestBase ts TestHolder)) (rev ts)"
proof (induction ts rule: rev_induct)
  case Nil
  show ?case by (simp add: TestHolder_def)
next
  case (snoc t ts)
  have "TestBase t h = h\<lparr>m_next_test := (m_next_test h)(t := m_head_test h), m_head_test := Some t\<rparr>" for h
    by (simp add: TestBase_def AddTest_def)
  with snoc show ?case by (simp add: linked_tests_update del: fun_upd_apply) simp
qed

lemma count_tests_linked:
  "linked_tests (m_next_test h) p ts \<Longrightarrow> length ts \<le> fuel \<Longrightarrow> count_tests fuel p n h = Inr (n + of_nat (length ts))"
proof (induction ts arbitrary: fuel p n)
  case Nil
  then show ?case by (cases fuel) auto
next
  case (Cons t ts)
  then obtain k where "fuel = Suc k" by (cases fuel) auto
  with Cons show ?case by (simp add: algebra_simps)
qed

lemma run_tests_linked:
  assumes "linked_tests (m_next_test h) p ts" and "length ts \<le> fuel" and "\<forall>t\<in>set ts. TestMain (M t) = Inr (r t)"
  shows "run_tests fuel M p (of_nat n) c h out =
    Inr (out @ map (\<lambda>(i, t). test_line (M t) (r t) (of_nat i) c) (zip [n..<n + length ts] ts))"
  using assms
proof (induction ts arbitrary: fuel p n out)
  case Nil
  then show ?case by (cases fuel) auto
next
  case (Cons t ts)
  then obtain k where k: "fuel = Suc k" by (cases fuel) auto
  have "[n..<n + length (t # ts)] = n # [Suc n..<Suc n + length ts]"
    using upt_conv_Cons [of n "n + length (t # ts)"] by (simp del: upt_Suc)
  moreover have "of_nat n + 1 = (of_nat (Suc n) :: u64)" by simp
  ultimately show ?case
    using Cons.prems Cons.IH [of "m_next_test h t" k "Suc n"] k by (simp del: upt_Suc of_nat_Suc)
qed

subsection \<open>The handle table\<close>

text \<open>\<open>filled n k\<close>: the handles from \<open>n\<close> below \<open>k\<close> find the objects they were reserved for and no other handle is in use.\<close>

definition filled :: "nat \<Rightarrow> nat \<Rightarrow> table_test \<Rightarrow> bool" where
  "filled n k s \<longleftrightarrow> (\<exists>fl. table_inv (handle_table s) fl \<and> length fl + k = MaxHandles + n) \<and> k \<le> length (handles s) \<and>
    (\<forall>i. n \<le> i \<and> i < k \<longrightarrow> GetObjectByHandle (handles s ! i) (handle_table s) = Inr (Some i))"

lemma filled_values [simp]: "filled n k (s\<lparr>test_values := v\<rparr>) = filled n k s"
  by (simp add: filled_def)

lemma filled_reserve:
  assumes "filled n k s" and "k < MaxHandles + n" and "k < length (handles s)"
  shows "\<exists>t h. assert_reserve line k True s = Inr (Inr (s\<lparr>handle_table := t, handles := (handles s)[k := h]\<rparr>)) \<and>
    filled n (Suc k) (s\<lparr>handle_table := t, handles := (handles s)[k := h]\<rparr>)"
proof -
  obtain fl where fl: "table_inv (handle_table s) fl" "length fl + k = MaxHandles + n"
    using assms(1) by (auto simp: filled_def)
  then obtain i fl' where "fl = i # fl'" using assms(2) by (cases fl) auto
  then obtain t where t: "ReserveHandle (Some k) (handle_table s) = Inr (Some (mk_handle i (m_counter_value (handle_table s))), t)"
      "table_inv t fl'" "\<And>g. GetObjectByHandle g t = (if g = mk_handle i (m_counter_value (handle_table s))
        then Inr (Some k) else GetObjectByHandle g (handle_table s))"
    using reserve_step [of "handle_table s" i fl' k] fl(1) by blast
  have "GetObjectByHandle (mk_handle i (m_counter_value (handle_table s))) (handle_table s) = Inr None"
    using ht.reserve_fresh [OF _ t(1)] fl(1) by (auto simp: table_wf_def)
  then show ?thesis
    using assms fl t \<open>fl = i # fl'\<close>
    by (intro exI [of _ t] exI [of _ "mk_handle i (m_counter_value (handle_table s))"])
      (auto simp: assert_reserve_def TEST_ASSERT_def filled_def nth_list_update less_Suc_eq)
qed

lemma filled_full:
  assumes "filled 0 MaxHandles s"
  shows "assert_reserve line i False s = Inr (Inr s)"
proof -
  obtain fl where "table_inv (handle_table s) fl" "fl = []" using assms by (auto simp: filled_def)
  then show ?thesis using reserve_full [of "handle_table s" i] by (simp add: assert_reserve_def TEST_ASSERT_def)
qed

lemma filled_object:
  assumes "filled n k s" and "n \<le> i" and "i < k"
  shows "assert_object line i True s = Inr (Inr s)"
    and "test_values s ! i = v \<Longrightarrow> assert_value line i v s = Inr (Inr s)"
  using assms by (auto simp: filled_def assert_object_def assert_value_def TEST_ASSERT_def)

lemma filled_free:
  assumes "filled n k s" and "n < k"
  shows "\<exists>t. assert_free line n s = Inr (Inr (s\<lparr>handle_table := t\<rparr>)) \<and> filled (Suc n) k (s\<lparr>handle_table := t\<rparr>) \<and>
    (\<forall>g. GetObjectByHandle g t = (if g = handles s ! n then Inr None else GetObjectByHandle g (handle_table s)))"
proof -
  obtain fl where fl: "table_inv (handle_table s) fl" "length fl + k = MaxHandles + n"
    using assms(1) by (auto simp: filled_def)
  have look: "GetObjectByHandle (handles s ! i) (handle_table s) = Inr (Some i)" if "n \<le> i" "i < k" for i
    using assms that by (auto simp: filled_def)
  obtain t i where t: "FreeHandle (handles s ! n) (handle_table s) = Inr (True, t)" "table_inv t (i # fl)"
      "\<And>g. GetObjectByHandle g t = (if g = handles s ! n then Inr None else GetObjectByHandle g (handle_table s))"
    using free_step [OF fl(1) look [of n]] assms(2) by blast
  have "handles s ! j \<noteq> handles s ! n" if "n < j" "j < k" for j
    using look [of j] look [of n] that assms(2) by auto
  then have "\<forall>j. Suc n \<le> j \<and> j < k \<longrightarrow> GetObjectByHandle (handles s ! j) t = Inr (Some j)"
    using look t(3) by auto
  then have "filled (Suc n) k (s\<lparr>handle_table := t\<rparr>)"
    using assms(1) fl(2) t(2) by (auto simp: filled_def intro!: exI [of _ "i # fl"])
  then show ?thesis using t by (auto simp: assert_free_def TEST_ASSERT_def)
qed

lemma filled_initial:
  "filled 0 0 \<lparr>handle_table = Initialize HandleTable, handles = hs, test_values = v\<rparr>"
  using Initialize_inv [OF HandleTable_fresh, where 'a = nat] by (auto simp: filled_def)

lemma filled_again: "filled MaxHandles MaxHandles s \<Longrightarrow> filled 0 0 s"
  by (auto simp: filled_def)

text \<open>One pass of the exhaustion test.\<close>

lemma exhaustion_pass:
  assumes "filled 0 0 s" and "length (handles s) = MaxHandles + 1"
  shows "\<exists>s'. exhaustion_iteration s = Inr (Inr s') \<and> filled 0 0 s' \<and> length (handles s') = MaxHandles + 1"
proof -
  let ?I = "\<lambda>k s. filled 0 k s \<and> length (handles s) = MaxHandles + 1 \<and> length (test_values s) = MaxHandles + 1 \<and>
    (\<forall>i<k. test_values s ! i = of_nat i + 1)"
  obtain s1 where s1: "for_range [0..<MaxHandles] (\<lambda>i s. assert_reserve 78 i True (s\<lparr>test_values := (test_values s)[i := of_nat i + 1]\<rparr>))
      (s\<lparr>test_values := replicate (MaxHandles + 1) 0\<rparr>) = Inr (Inr s1)" "?I MaxHandles s1"
  proof (rule exE [OF for_range_invariant [of ?I]])
    show "?I 0 (s\<lparr>test_values := replicate (MaxHandles + 1) 0\<rparr>)" using assms by simp
    fix i s assume i: "i < MaxHandles" and s: "?I i s"
    then show "\<exists>s'. assert_reserve 78 i True (s\<lparr>test_values := (test_values s)[i := of_nat i + 1]\<rparr>) = Inr (Inr s') \<and> ?I (Suc i) s'"
      using filled_reserve [of 0 i "s\<lparr>test_values := (test_values s)[i := of_nat i + 1]\<rparr>" 78]
      by (force simp: nth_list_update less_Suc_eq)
  qed (use that in auto)
  let ?s = "s1\<lparr>test_values := (test_values s1)[MaxHandles := of_nat MaxHandles + 1]\<rparr>"
  have f: "filled 0 MaxHandles ?s" using s1(2) by simp
  have look: "for_range [0..<MaxHandles] (\<lambda>i. assert_object 87 i True) ?s = Inr (Inr ?s)"
    using for_range_invariant [of "\<lambda>_ s. s = ?s" ?s MaxHandles "\<lambda>i. assert_object 87 i True"] filled_object(1) [OF f] by auto
  have val: "for_range [0..<MaxHandles] (\<lambda>i. assert_value 90 i (of_nat i + 1)) ?s = Inr (Inr ?s)"
    using for_range_invariant [of "\<lambda>_ s. s = ?s" ?s MaxHandles "\<lambda>i. assert_value 90 i (of_nat i + 1)"]
      filled_object(2) [OF f] s1(2) by (auto simp: nth_list_update)
  let ?J = "\<lambda>k s. filled k MaxHandles s \<and> length (handles s) = MaxHandles + 1"
  obtain s2 where s2: "for_range [0..<MaxHandles] (\<lambda>i. assert_free 95 i) ?s = Inr (Inr s2)" "?J MaxHandles s2"
  proof (rule exE [OF for_range_invariant [of ?J]])
    show "?J 0 ?s" using f s1(2) by simp
    fix i s assume "i < MaxHandles" and "?J i s"
    then show "\<exists>s'. assert_free 95 i s = Inr (Inr s') \<and> ?J (Suc i) s'"
      using filled_free [of i MaxHandles s 95] by force
  qed (use that in auto)
  show ?thesis
    unfolding exhaustion_iteration_def
    using s1(1) filled_full [OF f, of 83 MaxHandles] look val s2 filled_again by simp
qed

section \<open>Properties\<close>

text \<open>The tester runs every test that was constructed once, the last one first, and counts them right.\<close>

theorem all_tests_run:
  assumes "distinct ts" and "length ts \<le> fuel" and "\<forall>t\<in>set ts. TestMain (M t) = Inr (r t)"
  shows "CountTests fuel (fold TestBase ts TestHolder) = Inr (of_nat (length ts)) \<and>
    RunAllTests fuel M (fold TestBase ts TestHolder) =
      Inr (map (\<lambda>(i, t). test_line (M t) (r t) (of_nat i) (of_nat (length ts))) (zip [1..<1 + length ts] (rev ts)))"
proof -
  let ?h = "fold TestBase ts TestHolder"
  have l: "linked_tests (m_next_test ?h) (m_head_test ?h) (rev ts)" by (rule added_tests [OF assms(1)])
  then have "CountTests fuel ?h = Inr (of_nat (length ts))"
    using count_tests_linked [OF l] assms(2) by (simp add: CountTests_def)
  then show ?thesis
    using run_tests_linked [OF l, of fuel M r 1] assms(2,3) by (simp add: RunAllTests_def)
qed

text \<open>C12. The exhaustion test of the handle table passes, whatever the number of its iterations: all 256 handles can be
  reserved, no further one, each finds its own object, all can be freed, and then again.\<close>

theorem HandleExhaustion_passes: "HandleExhaustion n = Inr TEST_SUCCESS"
proof -
  let ?s = "\<lparr>handle_table = Initialize HandleTable, handles = replicate (MaxHandles + 1) 0, test_values = []\<rparr>"
  have "\<exists>s'. for_range [0..<n] (\<lambda>y. exhaustion_iteration) ?s = Inr (Inr s') \<and> filled 0 0 s' \<and> length (handles s') = MaxHandles + 1"
    by (rule for_range_invariant [of "\<lambda>_ s. filled 0 0 s \<and> length (handles s) = MaxHandles + 1"])
      (use filled_initial exhaustion_pass in auto)
  then show ?thesis by (auto simp: HandleExhaustion_def test_end_def)
qed

text \<open>The other test of the handle table passes: three handles, each with its own object, none of them valid after it is
  freed.\<close>

theorem HandleTableAllocation_passes: "HandleTableAllocation = Inr TEST_SUCCESS"
proof -
  let ?s = "\<lparr>handle_table = Initialize HandleTable, handles = [0, 0, 0], test_values = [1, 2, 3]\<rparr>"
  obtain s1 where s1: "assert_reserve 34 0 True ?s = Inr (Inr s1)" "filled 0 1 s1" "length (handles s1) = 3" "test_values s1 = [1, 2, 3]"
    using filled_reserve [OF filled_initial [of "[0, 0, 0]" "[1, 2, 3]"], of 34] by (force simp: MaxHandles_def)
  obtain s2 where s2: "assert_reserve 35 1 True s1 = Inr (Inr s2)" "filled 0 2 s2" "length (handles s2) = 3" "test_values s2 = [1, 2, 3]"
    using filled_reserve [OF s1(2), of 35] s1(3,4) by (force simp: MaxHandles_def numeral_2_eq_2)
  obtain s3 where s3: "assert_reserve 36 2 True s2 = Inr (Inr s3)" "filled 0 3 s3" "length (handles s3) = 3" "test_values s3 = [1, 2, 3]"
    using filled_reserve [OF s2(2), of 36] s2(3,4) by (force simp: MaxHandles_def numeral_3_eq_3 numeral_2_eq_2)
  obtain t4 where t4: "assert_free 49 0 s3 = Inr (Inr (s3\<lparr>handle_table := t4\<rparr>))" "filled 1 3 (s3\<lparr>handle_table := t4\<rparr>)"
      "\<And>g. GetObjectByHandle g t4 = (if g = handles s3 ! 0 then Inr None else GetObjectByHandle g (handle_table s3))"
    using filled_free [OF s3(2), of 49] by auto
  obtain t5 where t5: "assert_free 50 1 (s3\<lparr>handle_table := t4\<rparr>) = Inr (Inr (s3\<lparr>handle_table := t5\<rparr>))"
      "filled 2 3 (s3\<lparr>handle_table := t5\<rparr>)"
      "\<And>g. GetObjectByHandle g t5 = (if g = handles s3 ! 1 then Inr None else GetObjectByHandle g t4)"
    using filled_free [OF t4(2), of 50] by (auto simp: numeral_2_eq_2)
  obtain t6 where t6: "assert_free 51 2 (s3\<lparr>handle_table := t5\<rparr>) = Inr (Inr (s3\<lparr>handle_table := t6\<rparr>))"
      "\<And>g. GetObjectByHandle g t6 = (if g = handles s3 ! 2 then Inr None else GetObjectByHandle g t5)"
    using filled_free [OF t5(2), of 51] by auto
  have "GetObjectByHandle (handles s3 ! i) t6 = Inr None" if "i \<in> {0, 1, 2}" for i
    using that t4(3) t5(3) t6(2) by auto
  then have gone: "assert_object l i False (s3\<lparr>handle_table := t6\<rparr>) = Inr (Inr (s3\<lparr>handle_table := t6\<rparr>))" if "i \<in> {0, 1, 2}" for i l
    using that by (simp add: assert_object_def TEST_ASSERT_def)
  note found = filled_object(1) [OF s3(2)] and val = filled_object(2) [OF s3(2)]
  show ?thesis
    using s1(1) s2(1) s3(1,4) t4(1) t5(1) t6(1) gone found val by (simp add: HandleTableAllocation_def test_end_def)
qed

text \<open>The time span test passes on every clock of 1 kHz up to one tick per nanosecond.\<close>

lemma two_milliseconds_ticks:
  assumes "1000 \<le> f" and "f \<le> 1000000000"
  defines "k \<equiv> ticks_of f 2000000"
  shows "0 \<le> k" "k \<le> sMaxTickToTimeSpan (clock f)" "2000000 \<le> k * 1000000000 div f" "k * 1000000000 div f < 3000000"
proof -
  have k: "2000000 * f \<le> k * 1000000000" "k * 1000000000 \<le> 2000000 * f + 999999999"
    unfolding k_def ticks_of_def by linarith+
  then show "0 \<le> k" using assms(1) by linarith
  have m: "MaxTime mod f < f" using assms(1) by simp
  have "MaxTime - 1000000000 \<le> MaxTime - MaxTime mod f" using m assms(2) by linarith
  then have "(MaxTime - 1000000000) div 1000000000 \<le> (MaxTime - MaxTime mod f) div 1000000000" by (rule zdiv_mono1) simp
  then have "9223372035 \<le> (MaxTime - MaxTime mod f) div 1000000000" by (simp add: MaxTime_def)
  then have "9223372035 * f \<le> sMaxTickToTimeSpan (clock f)"
    using assms(1) by (simp add: clock_def mult_right_mono)
  moreover have "k \<le> 9223372035 * f" using k(2) assms(1) by linarith
  ultimately show "k \<le> sMaxTickToTimeSpan (clock f)" by linarith
  show "2000000 \<le> k * 1000000000 div f" using zdiv_mono1 [OF k(1), of f] assms(1) by simp
  have "k * 1000000000 < 3000000 * f" using k(2) assms(1) by linarith
  moreover have "k * 1000000000 div f * f \<le> k * 1000000000" using assms(1) div_mult_mod_eq [of "k * 1000000000" f] pos_mod_sign [of f "k * 1000000000"] by linarith
  ultimately have "k * 1000000000 div f * f < 3000000 * f" by linarith
  then show "k * 1000000000 div f < 3000000" using assms(1) by (simp only: mult_less_cancel_right_pos)
qed

theorem TimeSpanToTickConversion_passes:
  assumes "1000 \<le> f" and "f \<le> 1000000000"
  shows "TimeSpanToTickConversion (Some f) t = Inr TEST_SUCCESS"
proof -
  note k = two_milliseconds_ticks [OF assms]
  let ?n = "ticks_of f 2000000 * 1000000000 div f"
  have f: "0 < f" using assms(1) by simp
  have g: "GetTick (clock f) 2000000 = Inr (ticks_of f 2000000)"
    by (rule GetTick_exact) (use f assms in \<open>simp_all add: MaxTime_def\<close>)
  have h: "FromTick (clock f) (ticks_of f 2000000) = Inr ?n" by (rule FromTick_exact [OF f assms(2) k(1,2)])
  have "?n div 1000000 = 2" using k(3,4) by linarith
  then have "GetMilliSeconds ?n = 2" using k(3) by (simp add: GetMilliSeconds_def)
  with g h InitializeTimeStamp_clock [OF f assms(2), of t] show ?thesis
    by (simp add: TimeSpanToTickConversion_def FromMilliSeconds_def s64_ok_def GetMilliSeconds_def TEST_ASSERT_def test_end_def)
qed

text \<open>The test of the heap manager passes when the kernel starts, the system information is what the program expects and
  the operating system gives and takes back the memory: the root heap is found by its name, which is the only way
  \<open>FindHeapByName\<close> can find it, since it is no child of a heap.\<close>

lemma root_heap_found:
  assumes "p \<noteq> 0" and "188 \<le> AlignUp sz gran"
  shows "\<exists>g1. InitializeHeapManager sz gran p g = Inr g1 \<and> FindHeapByName heap_fuel root_heap_name g1 = Inr p \<and>
    m_name (hm_heap (heaps g1) p) = root_heap_name \<and> sRootHeap g1 = p"
proof -
  let ?n = "AlignUp sz gran"
  let ?s = "first_block p ?n (ExpHeap p root_heap_name 0 p ?n False (heaps g))"
  have c: "TryCreate_at p ?n root_heap_name False (heaps g) = (p, ?s)"
    using assms by (simp add: TryCreate_at_def minimum_heap_size_def sizeof_ExpHeap_def
        sizeof_ExpHeapMemoryBlock_def MinimumAllocationGranularity_def not_less)
  have h: "m_name (hm_heap ?s p) = root_heap_name" and ch: "ring (hm_children ?s) (ChildList p) []"
    by (simp_all add: first_block_def ExpHeap_def Let_def block_links_def construct_block_def block_update_def Heap_def links_simps unlinked_def)
  have fuel: "heap_fuel = Suc (2 ^ 64 + 3)" by (simp add: heap_fuel_def)
  have "FindHeapByNameImpl heap_fuel p root_heap_name ?s = Inr 0"
    using ch by (subst fuel, unfold FindHeapByNameImpl.simps, subst for_each_visit [where xs = "[]" and I = "\<lambda>_. True"]) (simp_all add: heap_fuel_def)
  with c h assms(1) show ?thesis by (simp add: InitializeHeapManager_def FindHeapByName_def)
qed

theorem HeapManagerInitialization_passes:
  assumes "0 < f" and "f \<le> 1000000000" and "InitializeUKern 1 h main_fiber scheduler_fiber new_thread k = Inr k1"
    and "active \<noteq> 0" and "process \<noteq> 0" and "system \<noteq> 0" and "p \<noteq> 0" and "188 \<le> AlignUp 0x2000000 gran"
  shows "HeapManagerInitialization (Some f) h main_fiber scheduler_fiber new_thread True 0x1000 active (Some (process, system))
    gran p True t k g = Inr TEST_SUCCESS"
proof -
  obtain g1 where g1: "InitializeHeapManager 0x2000000 gran p g = Inr g1" "FindHeapByName heap_fuel root_heap_name g1 = Inr p"
      "m_name (hm_heap (heaps g1) p) = root_heap_name" "sRootHeap g1 = p"
    using root_heap_found [OF assms(7,8)] by blast
  then show ?thesis
    using assms InitializeTimeStamp_clock [OF assms(1,2), of t]
    by (simp add: HeapManagerInitialization_def InitializeSystemManager_def FinalizeHeapManager_def TEST_ASSERT_def test_end_def root_heap_name_def)
qed

end
