(* ===== verification/Scheduler_Tests.thy ===== *)
theory Scheduler_Tests
  imports Unit_Tests Thread_Lifecycle
begin

text \<open>
  The core of a started kernel that has nothing to do, and the tests of the scheduler that run on one core
  (\<open>src/unit_tests/lib_dd_tests/source/ukern\<close>): \<open>SchedulerInit\<close> and \<open>SchedulerSleepSingle\<close>. Here the pieces of \<open>Scheduler\<close> (a pass, resting, waking up) are put
  together to the loop of \<open>SchedulerFiberMain\<close>, driven by the readings of the clock.

  Shown here: the thread of the sleeping test is switched to at the first pass whose reading of the clock is past the time it sleeps to, the loop ends then, and
  the test passes.
\<close>

section \<open>The loop of a core\<close>

text \<open>
  From one switch of the scheduler fiber to the next. Each reading of the clock takes an element of the list, in a pass and in a rest; when the list is used up the
  result is \<open>None\<close>. Otherwise it is the fiber that is switched to and the readings that are left. \<open>WaitOnAddress\<close>, where the core sleeps, may return at any time.
\<close>

datatype scheduler_phase = Looking | Resting u64

fun SchedulerFiberMain :: "timestamp \<Rightarrow> u32 \<Rightarrow> scheduler_phase \<Rightarrow> int list \<Rightarrow> user_scheduler \<Rightarrow> ((nat \<times> int list) option \<times> user_scheduler) outcome" where
  "SchedulerFiberMain t core_number _ [] s = Inr (None, s)"
| "SchedulerFiberMain t core_number Looking (tick # ticks) s =
    and_then (scheduler_pass core_number (word_of_int tick) s) (\<lambda>(r, s).
    case r of Some f \<Rightarrow> Inr (Some (f, ticks), s)
    | None \<Rightarrow> and_then (rest_begin core_number s) (\<lambda>(timeout_tick, s). SchedulerFiberMain t core_number (Resting timeout_tick) ticks s))"
| "SchedulerFiberMain t core_number (Resting timeout_tick) (now # ticks) s =
    and_then (rest_time_left t now timeout_tick) (\<lambda>time_left.
    if time_left = 0 then SchedulerFiberMain t core_number Looking ticks (rest_no_time s)
    else and_then (rest_woken core_number s) (\<lambda>(r, s).
      case r of Leave_rest \<Rightarrow> SchedulerFiberMain t core_number Looking ticks s
      | Rest_again timeout_tick \<Rightarrow> SchedulerFiberMain t core_number (Resting timeout_tick) ticks s))"

section \<open>The tests\<close>

definition SchedulerInit :: "int option \<Rightarrow> address option \<Rightarrow> address \<Rightarrow> address \<Rightarrow> (nat \<Rightarrow> address) \<Rightarrow> timestamp \<Rightarrow> user_scheduler \<Rightarrow> int outcome" where
  "SchedulerInit qpf main_thread_handle main_fiber scheduler_fiber new_thread t k = test_end (
    and_then (InitializeTimeStamp qpf t) (\<lambda>t.
    and_then (InitializeUKern 3 main_thread_handle main_fiber scheduler_fiber new_thread k) (\<lambda>k. Inr (Inr ()))))"

text \<open>
  The first call of the main thread that switches: the fiber of the scheduler starts, lists the main thread and looks for work. The main thread has the slot 0, which
  the allocator hands out first, and is the only one of the test; \<open>None\<close> while it has not been switched back to.
\<close>

definition main_sleeps :: "timestamp \<Rightarrow> int \<Rightarrow> int \<Rightarrow> int list \<Rightarrow> user_scheduler \<Rightarrow> (int list option \<times> user_scheduler) outcome" where
  "main_sleeps t now timeout_span ticks k =
    and_then (Sleep t now 0 timeout_span k) (\<lambda>(c, k).
    case c of Returned _ \<Rightarrow> Inr (Some ticks, k)
    | Switched core_number rest \<Rightarrow>
      and_then (SchedulerFiberMain t core_number Looking ticks (InternalSchedulerMainThreadFiberMain 0 k)) (\<lambda>(r, k).
      case r of None \<Rightarrow> Inr (None, k)
      | Some (f, ticks) \<Rightarrow> if f = 0 then Inr (Some ticks, snd (resume_call f rest k)) else Inl BadObject))"

text \<open>The readings of the clock: at the start, in the call, in the scheduler, and at the end.\<close>

fun SchedulerSleepSingle :: "int option \<Rightarrow> address option \<Rightarrow> address \<Rightarrow> address \<Rightarrow> (nat \<Rightarrow> address) \<Rightarrow> int list \<Rightarrow> timestamp \<Rightarrow> user_scheduler \<Rightarrow> int option outcome" where
  "SchedulerSleepSingle qpf main_thread_handle main_fiber scheduler_fiber new_thread (start # now # ticks) t k =
    and_then (InitializeTimeStamp qpf t) (\<lambda>t.
    and_then (InitializeUKern 1 main_thread_handle main_fiber scheduler_fiber new_thread k) (\<lambda>k.
    and_then (FromMilliSeconds 2) (\<lambda>span.
    and_then (main_sleeps t now span ticks k) (\<lambda>(r, k).
    case r of Some (end_tick # _) \<Rightarrow>
      and_then (s64_val (end_tick - start)) (\<lambda>d.
      and_then (FromTick t d) (\<lambda>elapsed.
      and_then (test_end (TEST_ASSERT 42 (2 \<le> GetMilliSeconds elapsed) ())) (\<lambda>line. Inr (Some line))))
    | _ \<Rightarrow> Inr None))))"
| "SchedulerSleepSingle qpf main_thread_handle main_fiber scheduler_fiber new_thread ticks t k = Inr None"

section \<open>The kernel after its start\<close>

lemma Initialize_fields:
  assumes "InitializeUKern mk h main_fiber scheduler_fiber new_thread blank = Inr s"
  shows "\<exists>g. m_fibers s = (\<lambda>_. zero_fiber)(0 := fiber_name_storage_update (\<lambda>_. strncpy ''MainThread'' MaxFiberNameLength)
      (ukern_fiber_handle_update (\<lambda>_. g) (main_thread main_fiber zero_fiber))) \<and>
    m_core_count s = CountOneBits64 mk \<and> m_active_cores s = CountOneBits64 mk \<and> m_runnable_fibers s = 0 \<and>
    length (m_scheduler_fiber_table s) = MaxCoreCount"
proof -
  obtain h' where h: "h = Some h'"
    using assms by (cases h) (auto simp: InitializeUKern_def UserScheduler_Initialize_def Let_def)
  obtain s1 f g t x where a: "allocate_fiber (blank\<lparr>m_active_cores := CountOneBits64 mk, m_core_count := CountOneBits64 mk,
      m_core_mask := mk, m_handle_table := Initialize (m_handle_table blank),
      m_scheduler_thread_table := (m_scheduler_thread_table blank)[0 := h']\<rparr>) = Inr (Some f, s1)"
    and s: "s = (SetInitialFiberNameUnsafe f (fiber_update f (ukern_fiber_handle_update (\<lambda>_. g))
      ((fiber_update f (main_thread main_fiber) s1)\<lparr>
        m_scheduler_fiber_table := (m_scheduler_fiber_table s1)[0 := scheduler_fiber], m_handle_table := t\<rparr>)))\<lparr>m_scheduler_thread_table := x\<rparr>"
    using Initialize_cases [OF assms [unfolded h]] by metis
  have f: "f = 0" and s1: "m_fibers s1 = (\<lambda>_. zero_fiber)" "m_core_count s1 = CountOneBits64 mk" "m_active_cores s1 = CountOneBits64 mk" "m_runnable_fibers s1 = 0"
    "length (m_scheduler_fiber_table s1) = MaxCoreCount"
    using a by (auto simp: allocate_fiber_def Allocate_def and_then_Inr_iff blank_def UserScheduler_def FixedObjectAllocator_def links_update_def Let_def
        split: if_splits slot.splits option.splits)
  show ?thesis
    by (rule exI [of _ g]) (simp add: s f SetInitialFiberNameUnsafe_eq s1 fun_eq_iff main_thread_def zero_fiber_def)
qed

section \<open>A core whose only thread sleeps\<close>

definition sleeping :: "u64 \<Rightarrow> user_scheduler \<Rightarrow> bool" where
  "sleeping w k \<longleftrightarrow> sched_lists k ((\<lambda>_. [])(NormalPriorityList := [0])) (\<lambda>_. []) \<and> fiber_state (m_fibers k 0) = Scheduled \<and> core_mask (m_fibers k 0) = 1 \<and>
    waitable (m_fibers k 0) = None \<and> timeout (m_fibers k 0) = w \<and> m_core_count k = 1 \<and> m_active_cores k = 1 \<and> m_runnable_fibers k \<noteq> 0"

lemma core_0: "core_bit 0 = Inr 1" "core_flag 0 = 1"
  by (simp_all add: core_bit_def core_flag_def)

lemma sleeping_queue: "queued ((\<lambda>_. [])(NormalPriorityList := [0])) = [0]"
  by (simp add: queued_def priority_lists_def)

lemma sleeping_quiet: "sleeping w k \<Longrightarrow> quiet k ((\<lambda>_. [])(NormalPriorityList := [0])) (\<lambda>_. [])"
  unfolding quiet_def sleeping_queue by (simp add: sleeping_def MaxThreadCount_def)

lemma sleeping_pass:
  assumes "sleeping w k"
  shows "if w < tick then \<exists>k'. scheduler_pass 0 tick k = Inr (Some 0, k') else scheduler_pass 0 tick k = Inr (None, k)"
proof -
  have "\<exists>k'. Dispatch_begin 0 0 k = Inr k'" using Dispatch_begin_spec [of k _ _ 0 0] assms by (auto simp: sleeping_def)
  then show ?thesis
    using assms by (auto simp: scheduler_pass_eq [OF sleeping_quiet [OF assms] core_0(1)] sleeping_queue can_run_def sleeping_def)
qed

lemma sleeping_rests:
  assumes "sleeping w k" and "w < 0xffffffffffffffff"
  shows "\<exists>k'. rest_begin 0 k = Inr (w, k') \<and> sleeping w (rest_no_time k')"
proof -
  let ?k = "k\<lparr>m_active_cores := m_active_cores k - 1\<rparr>" and ?L = "(\<lambda>_. [])(NormalPriorityList := [0])"
  have "sched_lists ?k ?L (\<lambda>_. [])" using assms(1) by (simp add: sleeping_def sched_lists_def)
  moreover have "{timeout (m_fibers ?k f) | f. f \<in> set (?L SchedulerWaitList @ queued ?L) \<and> core_mask (m_fibers ?k f) AND core_flag 0 \<noteq> 0} = {w}"
    using assms(1) by (auto simp: sleeping_def sleeping_queue core_0)
  ultimately have "next_wakeup 0 ?k = Inr (Min {0xffffffffffffffff, w})"
    using next_wakeup_spec [of ?k ?L "\<lambda>_. []" 0] by (simp add: sleeping_queue MaxThreadCount_def)
  then have "rest_begin 0 k = Inr (w, ReleaseSRWLockExclusive ?k)"
    using assms leD by (auto simp: rest_begin_def Let_def sleeping_def min_def)
  moreover have "sleeping w (rest_no_time (ReleaseSRWLockExclusive ?k))"
    using assms(1) by (simp add: sleeping_def rest_no_time_def Let_def sched_lists_def)
  ultimately show ?thesis by blast
qed

text \<open>The readings that are left after the first pass at which the thread may run; every other reading is one of a rest.\<close>

fun first_late :: "int \<Rightarrow> int list \<Rightarrow> int list option" where
  "first_late w (x # y # ticks) = (if w < x then Some (y # ticks) else first_late w ticks)"
| "first_late w [x] = (if w < x then Some [] else None)"
| "first_late w [] = None"

lemma tick_less: "0 \<le> a \<Longrightarrow> a \<le> MaxTime \<Longrightarrow> 0 \<le> b \<Longrightarrow> b \<le> MaxTime \<Longrightarrow> (word_of_int a :: u64) < word_of_int b \<longleftrightarrow> a < b"
  by (simp add: word_less_def uint_word_of_int_eq take_bit_int_eq_self MaxTime_def)

lemma core_waits:
  assumes "sleeping (word_of_int w) k" and "0 \<le> w" and "w \<le> MaxTime" and "\<forall>x\<in>set ticks. 0 < x \<and> x \<le> MaxTime"
  shows "\<exists>k'. SchedulerFiberMain t 0 Looking ticks k = Inr (map_option (Pair 0) (first_late w ticks), k')"
  using assms
proof (induction w ticks arbitrary: k rule: first_late.induct)
  case (1 w x y ticks)
  note p = sleeping_pass [OF 1(2), of "word_of_int x"] and l = tick_less [of w x]
  show ?case
  proof (cases "w < x")
    case True
    then show ?thesis using p l 1 by auto
  next
    case False
    have b: "word_of_int w < (0xffffffffffffffff :: u64)" using 1(3,4) by (simp add: word_less_def uint_word_of_int_eq take_bit_int_eq_self MaxTime_def)
    have w: "sint (word_of_int w :: u64) = w" using 1(3,4) by (simp add: sint_sbintrunc' signed_take_bit_int_eq_self MaxTime_def)
    obtain k' where k': "rest_begin 0 k = Inr (word_of_int w, k')" "sleeping (word_of_int w) (rest_no_time k')" using sleeping_rests [OF 1(2) b] by blast
    have "rest_time_left t y (word_of_int w) = Inr 0"
      using time_left_always_zero [of y w t] 1(3-5) by (simp add: rest_time_left_def w GetMilliSeconds_def quot_c_def MinTime_def MaxTime_def)
    moreover obtain k'' where "SchedulerFiberMain t 0 Looking ticks (rest_no_time k') = Inr (map_option (Pair 0) (first_late w ticks), k'')"
      using 1(1) [OF False k'(2)] 1(3-5) by auto
    ultimately show ?thesis using False p l 1(3-5) k'(1) by simp
  qed
next
  case (2 w x)
  have b: "word_of_int w < (0xffffffffffffffff :: u64)" using 2(2,3) by (simp add: word_less_def uint_word_of_int_eq take_bit_int_eq_self MaxTime_def)
  then show ?case using sleeping_pass [OF 2(1), of "word_of_int x"] sleeping_rests [OF 2(1)] tick_less [of w x] 2 by (auto split: if_splits)
qed auto

lemma first_late_reached: "2 * n + 1 < length ticks \<Longrightarrow> w < ticks ! (2 * n) \<Longrightarrow> \<exists>e r. first_late w ticks = Some (e # r)"
proof (induction w ticks arbitrary: n rule: first_late.induct)
  case (1 w x y ticks)
  then show ?case by (cases n) auto
qed auto

lemma first_late_is_late: "first_late w ticks = Some (e # r) \<Longrightarrow> sorted ticks \<Longrightarrow> w < e \<and> e \<in> set ticks"
  by (induction w ticks rule: first_late.induct) (auto split: if_splits)

section \<open>The tests pass\<close>

lemma elapsed_enough:
  assumes "0 < f" and "f \<le> 1000000000" and "ns * f \<le> d * 1000000000" and "0 \<le> d" and "ns \<le> MaxTime"
  shows "\<exists>e. FromTick (clock f) d = Inr e \<and> ns \<le> e"
proof -
  have "ns \<le> d * 1000000000 div f" using assms(1,3) zdiv_mono1 [of "ns * f" "d * 1000000000" f] by simp
  then show ?thesis
    using FromTick_spec [OF assms(1,2) InitializeTimeStamp_clock [OF assms(1,2), of t0] assms(4)] assms(5) by simp
qed

lemma main_thread_sleeps:
  assumes "0 < f" and "f \<le> 1000000000" and "InitializeUKern 1 h main_fiber scheduler_fiber new_thread blank = Inr k"
    and "0 < now" and "now \<le> 2 ^ 62"
  shows "\<exists>k'. Sleep (clock f) now 0 2000000 k = Inr (Switched 0 ReturnVoid, k') \<and>
    sleeping (word_of_int (ticks_of f 2000000 + now + 2)) (InternalSchedulerMainThreadFiberMain 0 k')"
proof -
  let ?w = "ticks_of f 2000000 + now + 2" and ?k = "AcquireSRWLockExclusive k"
  let ?s = "fiber_update 0 (timeout_update (\<lambda>_. word_of_int ?w)) ?k"
  have tk: "0 < ticks_of f 2000000" "ticks_of f 2000000 \<le> 2000001" using assms(1,2) by (auto simp: ticks_of_def)
  have g: "GetAbsoluteTimeToWakeup (clock f) now 2000000 = Inr ?w"
    using assms tk by (intro wakeup_exact) (simp_all add: MaxTime_def)
  have "?w mod 2 ^ 64 \<noteq> 0" using tk assms(4,5) by simp
  then have nz: "(word_of_int ?w :: u64) \<noteq> 0" by (simp only: word_of_int_eq_0_iff take_bit_eq_mod) (simp add: dvd_eq_mod_eq_0)
  have c1: "CountOneBits64 1 = 1" by code_simp
  obtain x where x: "m_fibers k = (\<lambda>_. zero_fiber)(0 := x)" "current_core x = 0" "core_mask x = 1" "waitable x = None" "activity_level x = ActivityLevel_Schedulable"
      "priority x = 2" and k: "m_core_count k = 1" "m_active_cores k = 1" "m_runnable_fibers k = 0" "length (m_scheduler_fiber_table k) = MaxCoreCount"
    using Initialize_fields [OF assms(3)] by (auto simp: c1 main_thread_def zero_fiber_def)
  have "Sleep (clock f) now 0 2000000 k = Inr (Switched 0 ReturnVoid, ?s)"
    using nz x(1,2) k by (simp add: Sleep_def g SleepThreadImpl_def switch_to_scheduler_def GetSchedulerFiber_def Let_def MaxCoreCount_def fiber_update_def)
  moreover have l: "sched_lists ?s (\<lambda>_. []) (\<lambda>_. [])"
    using placedD(1) [OF Initialize_placed [OF assms(3), THEN conjunct1]] by (simp add: sched_lists_def)
  moreover have "list_for (m_fibers ?s 0) = Some NormalPriorityList"
    using x(1,5,6) by (simp add: list_for_def ActivityLevel_Schedulable_def ActivityLevel_Suspended_def)
  moreover have "sleeping (word_of_int ?w) (AddToSchedulerUnsafe 0 ?s)"
    using AddToSchedulerUnsafe_lists [OF l, of 0 NormalPriorityList] calculation(3) x k
    by (simp add: sleeping_def state_for_def AddToSchedulerUnsafe_runnable ActivityLevel_Schedulable_def ActivityLevel_Suspended_def)
  ultimately show ?thesis by (auto simp: InternalSchedulerMainThreadFiberMain_def)
qed

text \<open>
  C5. The sleeping test never fails on a machine with one core: for every clock of at most one tick per nanosecond that does not run backwards, the main thread is not
  switched back to before two milliseconds have passed; and it is switched back to, and the test passes, as soon as a pass of the scheduler reads a time after that.
  (The passes take every other reading of the scheduler, the first one included.)
\<close>

theorem sleep_test_passes:
  assumes "0 < f" and "f \<le> 1000000000" and "InitializeUKern 1 h main_fiber scheduler_fiber new_thread blank = Inr k"
    and "sorted (start # now # ticks)" and "0 < start" and "\<forall>x\<in>set (now # ticks). x \<le> 2 ^ 62"
  shows "\<exists>r. SchedulerSleepSingle (Some f) h main_fiber scheduler_fiber new_thread (start # now # ticks) t blank = Inr r \<and>
    (r = None \<or> r = Some TEST_SUCCESS) \<and>
    (\<forall>n. 2 * n + 1 < length ticks \<and> ticks_of f 2000000 + now + 2 < ticks ! (2 * n) \<longrightarrow> r = Some TEST_SUCCESS)"
proof -
  let ?w = "ticks_of f 2000000 + now + 2"
  have now: "0 < now" "now \<le> 2 ^ 62" "start \<le> now" and ticks: "sorted ticks" "\<forall>x\<in>set ticks. 0 < x \<and> x \<le> 2 ^ 62"
    using assms(4-6) by force+
  have tk: "0 < ticks_of f 2000000" "ticks_of f 2000000 \<le> 2000001" "2000000 * f \<le> ticks_of f 2000000 * 1000000000"
    using assms(1,2) by (auto simp: ticks_of_def)
  obtain k1 where k1: "Sleep (clock f) now 0 2000000 k = Inr (Switched 0 ReturnVoid, k1)"
      "sleeping (word_of_int ?w) (InternalSchedulerMainThreadFiberMain 0 k1)"
    using main_thread_sleeps [OF assms(1-3) now(1,2)] by blast
  obtain k2 where "SchedulerFiberMain (clock f) 0 Looking ticks (InternalSchedulerMainThreadFiberMain 0 k1) = Inr (map_option (Pair 0) (first_late ?w ticks), k2)"
    using core_waits [OF k1(2), of ticks "clock f"] now tk ticks(2) by (force simp: MaxTime_def)
  then obtain k3 where m: "main_sleeps (clock f) now 2000000 ticks k = Inr (first_late ?w ticks, k3)"
    by (cases "first_late ?w ticks") (simp_all add: main_sleeps_def k1(1))
  have pass: "\<exists>e'. FromTick (clock f) (e - start) = Inr e' \<and> 2 \<le> GetMilliSeconds e' \<and> s64_val (e - start) = Inr (e - start)"
    if late: "first_late ?w ticks = Some (e # r)" for e r
  proof -
    have e: "?w < e" "e \<le> 2 ^ 62" using first_late_is_late [OF late ticks(1)] ticks(2) by auto
    have "ticks_of f 2000000 \<le> e - start" using e(1) now(3) by linarith
    then have "ticks_of f 2000000 * 1000000000 \<le> (e - start) * 1000000000" by (rule mult_right_mono) simp
    with tk(3) have "2000000 * f \<le> (e - start) * 1000000000" by (rule order_trans)
    then obtain e' where "FromTick (clock f) (e - start) = Inr e'" "2000000 \<le> e'"
      using elapsed_enough [OF assms(1,2), of 2000000 "e - start"] e now tk by (auto simp: MaxTime_def)
    moreover have "s64_ok (e - start)" using e now tk assms(5) by (simp add: s64_ok_def)
    moreover have "2 \<le> GetMilliSeconds e'" using \<open>2000000 \<le> e'\<close> by (simp add: GetMilliSeconds_def quot_c_nonneg)
    ultimately show ?thesis by simp
  qed
  have run: "SchedulerSleepSingle (Some f) h main_fiber scheduler_fiber new_thread (start # now # ticks) t blank =
      Inr (case first_late ?w ticks of Some (e # r) \<Rightarrow> Some TEST_SUCCESS | _ \<Rightarrow> None)"
    using pass by (auto simp: InitializeTimeStamp_clock [OF assms(1,2)] assms(3) FromMilliSeconds_def s64_ok_def m TEST_ASSERT_def test_end_def
        split: option.split list.split)
  show ?thesis unfolding run using first_late_reached [of _ ticks ?w] by (fastforce split: option.split list.split)
qed

text \<open>On a clock of 10 MHz, a machine that reads the clock every 20000 ticks wakes the thread at the third pass.\<close>

theorem sleep_test_passes_witness:
  "\<exists>r. SchedulerSleepSingle (Some 10000000) (Some 1) 1 1 (\<lambda>_. 1) [100, 200, 300, 400, 20100, 20150, 20300, 20400] initial_timestamp blank = Inr r \<and>
    (r = None \<or> r = Some TEST_SUCCESS) \<and>
    (\<forall>n. 2 * n + 1 < length [300, 400, 20100, 20150, 20300, 20400 :: int] \<and>
      ticks_of 10000000 2000000 + 200 + 2 < [300, 400, 20100, 20150, 20300, 20400] ! (2 * n) \<longrightarrow> r = Some TEST_SUCCESS)"
proof -
  obtain k where "InitializeUKern 1 (Some 1) 1 1 (\<lambda>_. 1) blank = Inr k" using boot_one_core by blast
  then show ?thesis by (intro sleep_test_passes) simp_all
qed

text \<open>The test of the start passes whenever the operating system gives the kernel what it asks for.\<close>

theorem init_test_passes:
  assumes "0 < f" and "f \<le> 1000000000" and "InitializeUKern 3 h main_fiber scheduler_fiber new_thread k = Inr k'"
  shows "SchedulerInit (Some f) h main_fiber scheduler_fiber new_thread t k = Inr TEST_SUCCESS"
  using assms by (simp add: SchedulerInit_def InitializeTimeStamp_clock test_end_def)

end
