(* ===== verification/Trace_Abort.thy ===== *)
theory Trace_Abort
  imports Unit_Tests
begin

text \<open>
  Aborting: \<open>trace_abort.h\<close>, \<open>trace_abort.cpp\<close> and \<open>trace_assert.h\<close>. An assertion that fails prints a report, writes it to a file whose name tells the result and
  ends the process. What the system answers is an argument: whether memory and the file are there, and whether there is a debugger. Shown here: the process always
  ends with the result, and what the report holds (\<open>abort_report\<close>).
\<close>

definition newline :: char where "newline = CHR 0x0A"

record abort_answers =
  info_memory :: bool
  output_memory :: bool
  file_created :: bool
  file_written :: bool
  debugger :: bool

text \<open>What the process leaves behind: lines on the standard output, the crash file with its contents, whether the debugger was called, and its exit code.\<close>

record abort_effects =
  printed :: "string list"
  crash_file :: "(string \<times> string) option"
  debug_break :: bool
  exit_code :: u32

definition Abort :: "abort_answers \<Rightarrow> string list \<Rightarrow> (string \<times> string) option \<Rightarrow> u32 \<Rightarrow> abort_effects" where
  "Abort os out f result = \<lparr>printed = out, crash_file = f, debug_break = debugger os, exit_code = result\<rparr>"

text \<open>The two formats of the report: the first, which is only measured, has a space that the second has not.\<close>

definition report_text :: "string \<Rightarrow> string \<Rightarrow> string \<Rightarrow> u32 \<Rightarrow> string \<Rightarrow> string \<Rightarrow> string" where
  "report_text file_label function_name full_file_path line_number expected_result abort_info =
    ''DD ABORT'' @ [newline] @ ''Function: '' @ function_name @ [newline] @ file_label @ full_file_path @ '':'' @ decimal (sint line_number) @ [newline] @
    ''Expected: '' @ expected_result @ [newline] @ abort_info"

definition crash_file_name :: "u32 \<Rightarrow> string" where
  "crash_file_name result = snprintf 256 (''crash_report_module_'' @ decimal (sint (GetModule result)) @ ''_desc_'' @ decimal (sint (GetDescription result)) @ ''.txt'')"

text \<open>\<open>message\<close> is the format applied to its arguments.\<close>

definition AbortImpl :: "abort_answers \<Rightarrow> string \<Rightarrow> string \<Rightarrow> string \<Rightarrow> u32 \<Rightarrow> u32 \<Rightarrow> string \<Rightarrow> abort_effects" where
  "AbortImpl os expected_result function_name full_file_path line_number result message =
    (let abort_info_length = length message in
     if \<not> info_memory os then Abort os [] None result
     else
       let abort_info = snprintf abort_info_length message;
           output_length = length (report_text '' File: '' function_name full_file_path line_number expected_result abort_info) in
       if \<not> output_memory os then Abort os [] None result
       else
         let output = snprintf output_length (report_text ''File: '' function_name full_file_path line_number expected_result abort_info);
             file_path = crash_file_name result in
         if \<not> file_created os then Abort os [output, ''failed to create file''] None result
         else if \<not> file_written os then Abort os [output] (Some (file_path, [])) result
         else Abort os [output] (Some (file_path, take output_length (output @ [CHR 0x00]))) result)"

text \<open>\<open>DD_ASSERT\<close> in a debug build and in a release build; \<open>None\<close> is going on.\<close>

definition DD_ASSERT_debug :: "abort_answers \<Rightarrow> string \<Rightarrow> string \<Rightarrow> string \<Rightarrow> u32 \<Rightarrow> bool \<Rightarrow> abort_effects option" where
  "DD_ASSERT_debug os expression function_name file line value =
    (if \<not> value then Some (AbortImpl os ''Assert failed!!!'' function_name file line trace_ResultAssertFailed (''Failed: '' @ expression @ [newline])) else None)"

definition DD_ASSERT_release :: "bool \<Rightarrow> abort_effects option" where
  "DD_ASSERT_release value = None"

text \<open>\<open>RESULT_ABORT_UNLESS\<close>; the text of the range in \<open>RESULT_RANGE_ABORT_UNLESS\<close> is the name of a parameter that the macro has not.\<close>

definition result_message :: "string \<Rightarrow> u32 \<Rightarrow> string" where
  "result_message expression result =
    ''Failed: '' @ expression @ [newline] @ ''  Module: '' @ decimal (sint (GetModule result)) @ [newline] @ ''  Description '' @ decimal (sint (GetDescription result)) @ [newline]"

definition RESULT_ABORT_UNLESS :: "abort_answers \<Rightarrow> string \<Rightarrow> string \<Rightarrow> string \<Rightarrow> string \<Rightarrow> u32 \<Rightarrow> u32 \<Rightarrow> u32 \<Rightarrow> abort_effects option" where
  "RESULT_ABORT_UNLESS os expression expected_text function_name file line result expected_result =
    (if result \<noteq> expected_result then Some (AbortImpl os expected_text function_name file line result (result_message expression result)) else None)"

definition RESULT_RANGE_ABORT_UNLESS :: "abort_answers \<Rightarrow> string \<Rightarrow> string \<Rightarrow> string \<Rightarrow> u32 \<Rightarrow> u32 \<Rightarrow> u32 \<times> u32 \<Rightarrow> abort_effects option" where
  "RESULT_RANGE_ABORT_UNLESS os expression function_name file line result bounds =
    (if result < fst bounds \<or> snd bounds < result then Some (AbortImpl os ''expected_result'' function_name file line result (result_message expression result)) else None)"

section \<open>The report\<close>

lemma report_text_space: "length (report_text '' File: '' f p n e i) = Suc (length (report_text ''File: '' f p n e i))"
  by (simp add: report_text_def)

lemma snprintf_whole: "length s < n \<Longrightarrow> snprintf n s = s"
  by (simp add: snprintf_def)

text \<open>
  The process always ends with the result. With memory for it, the report that is printed and written is complete: the buffer is measured without its terminating zero, but
  with the format that is one character longer. Only the message of the caller has lost its last character, which for an assertion is the end of the line; the file gets a zero
  at its end.
\<close>

theorem abort_report:
  fixes os :: abort_answers
  defines "whole \<equiv> \<lambda>f p n e m. report_text ''File: '' f p n e (butlast m)"
  shows "exit_code (AbortImpl os e f p n r m) = r"
    and "info_memory os \<Longrightarrow> output_memory os \<Longrightarrow> hd (printed (AbortImpl os e f p n r m)) = whole f p n e m"
    and "info_memory os \<Longrightarrow> output_memory os \<Longrightarrow> file_created os \<Longrightarrow> file_written os \<Longrightarrow>
      crash_file (AbortImpl os e f p n r m) = Some (crash_file_name r, whole f p n e m @ [CHR 0x00])"
proof -
  have i: "snprintf (length m) m = butlast m" by (simp add: snprintf_def butlast_conv_take)
  have o: "snprintf (Suc (length (whole f p n e m))) (whole f p n e m) = whole f p n e m" by (simp add: snprintf_whole)
  show "exit_code (AbortImpl os e f p n r m) = r" by (simp add: AbortImpl_def Abort_def Let_def)
  show "info_memory os \<Longrightarrow> output_memory os \<Longrightarrow> hd (printed (AbortImpl os e f p n r m)) = whole f p n e m"
    using o by (simp add: AbortImpl_def Abort_def Let_def i report_text_space whole_def)
  show "info_memory os \<Longrightarrow> output_memory os \<Longrightarrow> file_created os \<Longrightarrow> file_written os \<Longrightarrow>
      crash_file (AbortImpl os e f p n r m) = Some (crash_file_name r, whole f p n e m @ [CHR 0x00])"
    using o by (simp add: AbortImpl_def Abort_def Let_def i report_text_space whole_def)
qed

text \<open>
  An assertion ends the process in a debug build exactly if it fails, with the code of a failed assertion, and is without effect in a release build; in the report, the text of the
  expression is followed by nothing.
\<close>

theorem assertion_effects:
  "DD_ASSERT_debug os ex f p n v = None \<longleftrightarrow> v" "DD_ASSERT_debug os ex f p n v = Some x \<Longrightarrow> exit_code x = trace_ResultAssertFailed" "DD_ASSERT_release v = None"
  "DD_ASSERT_debug os ex f p n v = Some x \<Longrightarrow> info_memory os \<Longrightarrow> output_memory os \<Longrightarrow> hd (printed x) = report_text ''File: '' f p n ''Assert failed!!!'' (''Failed: '' @ ex)"
  using abort_report(2) [of os "''Assert failed!!!''" f p n trace_ResultAssertFailed "''Failed: '' @ ex @ [newline]"]
  by (auto simp: DD_ASSERT_debug_def DD_ASSERT_release_def abort_report(1) butlast_append split: if_splits)

theorem result_check_effects:
  "RESULT_ABORT_UNLESS os ex et f p n r r' = None \<longleftrightarrow> r = r'" "RESULT_ABORT_UNLESS os ex et f p n r r' = Some x \<Longrightarrow> exit_code x = r"
  "RESULT_RANGE_ABORT_UNLESS os ex f p n r (a, b) = None \<longleftrightarrow> a \<le> r \<and> r \<le> b" "RESULT_RANGE_ABORT_UNLESS os ex f p n r (a, b) = Some x \<Longrightarrow> exit_code x = r"
  by (auto simp: RESULT_ABORT_UNLESS_def RESULT_RANGE_ABORT_UNLESS_def abort_report(1) split: if_splits)

end
