(* ===== verification/Input_Thread.thy ===== *)
theory Input_Thread
  imports Raw_Input Sys_Thread
begin

text \<open>
  Service threads and the thread of the input module: \<open>sys_servicethread.hpp\<close> and \<open>hid_thread.cpp\<close>. A service thread is a thread of Win32; the input thread is the
  only one. It makes a window that receives raw input, lists the devices and handles the messages of the window until it is destroyed.

  The functions of Win32 are arguments: each call is recorded with its answer in a log, as the calls of Vulkan are. Shown here: the thread is created suspended and
  never resumed (\<open>input_thread_never_started\<close>), the list of devices that is searched is not the one that was asked for (\<open>device_list_not_read\<close>), asking can
  go on forever (\<open>device_loop_forever\<close>), and no keyboard is ever found (\<open>keyboard_never_found\<close>); messages reach the devices in their order (\<open>messages_in_order\<close>).
\<close>

section \<open>Calls of Win32\<close>

datatype w32_call = w32_CreateThread u32 bool | w32_SetThreadPriority u64 int | w32_ResumeThread u64 | w32_SuspendThread u64 | w32_WaitForSingleObject u64
  | w32_SetThreadAffinityMask u64 u64 | w32_RegisterClass string | w32_CreateWindowEx string | w32_RegisterRawInputDevices "(u16 \<times> u16) list"

type_synonym w32_log = "(w32_call \<times> int) list"
type_synonym w32_answers = "w32_log \<Rightarrow> w32_call \<Rightarrow> int"

definition w32_ask :: "w32_answers \<Rightarrow> w32_call \<Rightarrow> (int \<Rightarrow> bool) \<Rightarrow> w32_log \<Rightarrow> (int \<times> w32_log) outcome" where
  "w32_ask os c ok g = (let a = os g c in dd_assert (ok a) (a, g @ [(c, a)]))"

definition CREATE_SUSPENDED :: bool where "CREATE_SUSPENDED = True"
definition WAIT_OBJECT_0 :: int where "WAIT_OBJECT_0 = 0"

section \<open>Service threads\<close>

record service_thread =
  st_base :: thread_base
  st_handle :: u64
  st_name :: string

text \<open>\<open>new\<close> is the new message queue, and what the field of the core mask holds, which no constructor sets.\<close>

definition ServiceThread :: "w32_answers \<Rightarrow> string \<Rightarrow> ThreadRunMode \<Rightarrow> u64 \<Rightarrow> sys_queue \<times> u64 \<Rightarrow> u32 \<Rightarrow> int \<Rightarrow> w32_log \<Rightarrow> (service_thread \<times> w32_log) outcome" where
  "ServiceThread os name run_mode exit_code new stack prio g =
    and_then (w32_ask os (w32_CreateThread stack CREATE_SUSPENDED) (\<lambda>h. h \<noteq> 0) g) (\<lambda>(h, g).
    and_then (w32_ask os (w32_SetThreadPriority (word_of_int h) prio) (\<lambda>r. r \<noteq> 0) g) (\<lambda>(_, g).
    Inr (\<lparr>st_base = \<lparr>m_message_queue = fst new, m_exit_message = exit_code, m_stack_size = stack, m_priority = word_of_int prio, m_thread_core_mask = snd new,
        m_run_mode = run_mode\<rparr>, st_handle = word_of_int h, st_name = strncpy name MaxFiberNameLength\<rparr>, g)))"

definition ServiceThread_StartThread :: "w32_answers \<Rightarrow> service_thread \<Rightarrow> w32_log \<Rightarrow> w32_log outcome" where
  "ServiceThread_StartThread os t g = and_then (w32_ask os (w32_ResumeThread (st_handle t)) (\<lambda>r. r \<noteq> - 1) g) (\<lambda>(_, g). Inr g)"

definition ServiceThread_WaitForThreadExit :: "w32_answers \<Rightarrow> service_thread \<Rightarrow> w32_log \<Rightarrow> w32_log outcome" where
  "ServiceThread_WaitForThreadExit os t g = and_then (w32_ask os (w32_WaitForSingleObject (st_handle t)) (\<lambda>r. r = WAIT_OBJECT_0) g) (\<lambda>(_, g). Inr g)"

definition ServiceThread_ResumeThread :: "w32_answers \<Rightarrow> service_thread \<Rightarrow> w32_log \<Rightarrow> w32_log outcome" where
  "ServiceThread_ResumeThread os t g = and_then (w32_ask os (w32_ResumeThread (st_handle t)) (\<lambda>r. r \<noteq> - 1) g) (\<lambda>(_, g). Inr g)"

definition ServiceThread_SuspendThread :: "w32_answers \<Rightarrow> service_thread \<Rightarrow> w32_log \<Rightarrow> w32_log outcome" where
  "ServiceThread_SuspendThread os t g = and_then (w32_ask os (w32_SuspendThread (st_handle t)) (\<lambda>r. r \<noteq> - 1) g) (\<lambda>(_, g). Inr g)"

definition ServiceThread_SetPriority :: "w32_answers \<Rightarrow> int \<Rightarrow> service_thread \<Rightarrow> w32_log \<Rightarrow> (service_thread \<times> w32_log) outcome" where
  "ServiceThread_SetPriority os prio t g =
    and_then (w32_ask os (w32_SetThreadPriority (st_handle t) prio) (\<lambda>r. r \<noteq> 0) g) (\<lambda>(_, g).
    Inr (t\<lparr>st_base := (st_base t)\<lparr>m_priority := word_of_int prio\<rparr>\<rparr>, g))"

definition ServiceThread_SetCoreMask :: "w32_answers \<Rightarrow> u64 \<Rightarrow> service_thread \<Rightarrow> w32_log \<Rightarrow> (service_thread \<times> w32_log) outcome" where
  "ServiceThread_SetCoreMask os cmask t g =
    and_then (w32_ask os (w32_SetThreadAffinityMask (st_handle t) cmask) (\<lambda>r. r \<noteq> 0) g) (\<lambda>(_, g).
    Inr (t\<lparr>st_base := (st_base t)\<lparr>m_thread_core_mask := cmask\<rparr>\<rparr>, g))"

section \<open>The devices\<close>

record raw_device =
  dwType :: u32
  hDevice :: u64

record device_info =
  info_type :: u32
  dwNumberOfKeysTotal :: u32

definition RIM_TYPEMOUSE :: u32 where "RIM_TYPEMOUSE = 0"
definition RIM_TYPEKEYBOARD :: u32 where "RIM_TYPEKEYBOARD = 1"
definition sizeof_RID_DEVICE_INFO :: u32 where "sizeof_RID_DEVICE_INFO = 32"

text \<open>What \<open>GetRawInputDeviceInfo\<close> returns, and what it has stored.\<close>

definition CheckRealKeyboard :: "int \<times> device_info \<Rightarrow> bool" where
  "CheckRealKeyboard x =
    (case x of (result, info) \<Rightarrow>
     if result \<noteq> - 1 \<or> (word_of_int result :: u32) < sizeof_RID_DEVICE_INFO \<or> info_type info \<noteq> RIM_TYPEKEYBOARD then False
     else 30 \<le> dwNumberOfKeysTotal info)"

text \<open>
  The list of devices. \<open>devices k\<close> is what is connected at the call number \<open>k\<close> of \<open>GetRawInputDeviceList\<close>: if the buffer is too small, the call fails and stores
  how many there are; otherwise it stores them and returns how many. \<open>fresh k\<close> is what memory allocated after that call holds, \<open>None\<close> if there is none.
\<close>

type_synonym device_list = "raw_device list"

definition resized :: "nat \<Rightarrow> device_list \<Rightarrow> device_list" where
  "resized n xs = take n (xs @ replicate n \<lparr>dwType = 0, hDevice = 0\<rparr>)"

partial_function (option) device_loop :: "(nat \<Rightarrow> device_list) \<Rightarrow> (nat \<Rightarrow> device_list option) \<Rightarrow> nat \<Rightarrow> u32 \<Rightarrow> u32 \<Rightarrow> device_list \<Rightarrow> (u32 \<times> device_list) outcome option" where
  "device_loop devices fresh k device_count second_count xs =
    (if device_count = second_count then Some (Inr (device_count, xs))
     else
       let ds = devices k in
       if unat second_count < length ds then
         (case fresh k of
            None \<Rightarrow> Some (Inl AssertFailed)
          | Some m \<Rightarrow> device_loop devices fresh (Suc k) device_count (of_nat (length ds)) (resized (length ds) m))
       else device_loop devices fresh (Suc k) (of_nat (length ds)) second_count (ds @ drop (length ds) xs))"

definition list_devices :: "(nat \<Rightarrow> device_list) \<Rightarrow> (nat \<Rightarrow> device_list option) \<Rightarrow> (u32 \<times> device_list) outcome option" where
  "list_devices devices fresh =
    (let n = length (devices 0) in
     case fresh 0 of None \<Rightarrow> Some (Inl AssertFailed) | Some m \<Rightarrow> device_loop devices fresh 1 (of_nat n) 0 (resized n m))"

text \<open>\<open>keyboard_handle\<close> and \<open>mouse_handle\<close>: the last keyboard that is a real one, and the last mouse.\<close>

definition find_devices :: "(u64 \<Rightarrow> int \<times> device_info) \<Rightarrow> u32 \<times> device_list \<Rightarrow> nat option \<times> nat option \<Rightarrow> (nat option \<times> nat option) outcome" where
  "find_devices device_info x s =
    (case x of (n, xs) \<Rightarrow>
     if length xs < unat n then Inl OutOfBounds
     else Inr (fold (\<lambda>i (keyboard, mouse).
       (if dwType (xs ! i) = RIM_TYPEKEYBOARD \<and> CheckRealKeyboard (device_info (hDevice (xs ! i))) then Some i else keyboard,
        if dwType (xs ! i) = RIM_TYPEMOUSE then Some i else mouse)) [0..<unat n] s))"

section \<open>Messages of the window\<close>

definition WM_DESTROY :: u32 where "WM_DESTROY = 2"
definition WM_INPUT_DEVICE_CHANGE :: u32 where "WM_INPUT_DEVICE_CHANGE = 0xFE"
definition WM_INPUT :: u32 where "WM_INPUT = 0xFF"

text \<open>What \<open>GetRawInputData\<close> gives for the input of a message: the sizes it returns and the report.\<close>

record window_message =
  wm_message :: u32
  wm_header_size :: u32
  wm_data_size :: u32
  wm_report :: raw_report

text \<open>The first part of the state says whether \<open>PostQuitMessage\<close> was called.\<close>

definition HidWndProc :: "(int \<times> int) \<Rightarrow> window_message \<Rightarrow> bool \<times> keyboard \<times> mouse \<Rightarrow> (bool \<times> keyboard \<times> mouse) outcome" where
  "HidWndProc screen m s =
    (case s of (quit, input) \<Rightarrow>
     if wm_message m = WM_DESTROY then Inr (True, input)
     else if wm_message m = WM_INPUT then
       and_then (SetLastRawInput screen (wm_header_size m) (wm_data_size m) (wm_report m) input) (\<lambda>input. Inr (quit, input))
     else Inr (quit, input))"

text \<open>The messages that \<open>GetMessage\<close> gives before it returns zero.\<close>

fun message_loop :: "(int \<times> int) \<Rightarrow> window_message list \<Rightarrow> bool \<times> keyboard \<times> mouse \<Rightarrow> (bool \<times> keyboard \<times> mouse) outcome" where
  "message_loop screen [] s = Inr s"
| "message_loop screen (m # ms) s = and_then (HidWndProc screen m s) (message_loop screen ms)"

section \<open>The thread\<close>

record input_environment =
  connected :: "nat \<Rightarrow> device_list"
  new_memory :: "nat \<Rightarrow> device_list option"
  device_infos :: "u64 \<Rightarrow> int \<times> device_info"
  screen_size :: "int \<times> int"
  window_messages :: "window_message list"

record hid_state =
  hid_hwnd :: u64
  keyboard_handle :: "nat option"
  mouse_handle :: "nat option"
  hid_input :: "keyboard \<times> mouse"

definition ThreadCalc :: "w32_answers \<Rightarrow> input_environment \<Rightarrow> hid_state \<times> w32_log \<Rightarrow> (hid_state \<times> w32_log) outcome option" where
  "ThreadCalc os e x =
    (case x of (s, g) \<Rightarrow>
     case and_then (w32_ask os (w32_RegisterClass ''HidDDWindow'') (\<lambda>r. r \<noteq> 0) g) (\<lambda>(_, g). w32_ask os (w32_CreateWindowEx ''HidDDWindow'') (\<lambda>r. r \<noteq> 0) g) of
       Inl f \<Rightarrow> Some (Inl f)
     | Inr (h, g) \<Rightarrow>
       let s = s\<lparr>hid_hwnd := word_of_int h\<rparr> in
       (case list_devices (connected e) (new_memory e) of
          None \<Rightarrow> None
        | Some r \<Rightarrow> Some (
            and_then r (\<lambda>x.
            and_then (find_devices (device_infos e) x (keyboard_handle s, mouse_handle s)) (\<lambda>(k, m).
            let s = s\<lparr>keyboard_handle := k, mouse_handle := m\<rparr>; c = w32_RegisterRawInputDevices [(1, 2), (1, 6)]; g = g @ [(c, os g c)] in
            and_then (message_loop (screen_size e) (window_messages e) (False, hid_input s)) (\<lambda>(quit, input).
            Inr (s\<lparr>hid_input := input\<rparr>, g)))))))"

definition THREAD_PRIORITY_ABOVE_NORMAL :: int where "THREAD_PRIORITY_ABOVE_NORMAL = 1"

definition HidThread :: "w32_answers \<Rightarrow> sys_queue \<times> u64 \<Rightarrow> w32_log \<Rightarrow> (service_thread \<times> w32_log) outcome" where
  "HidThread os new g = ServiceThread os ''dd::hid::HidThread'' ThreadRunMode_Looping 0 new 0x1000 THREAD_PRIORITY_ABOVE_NORMAL g"

text \<open>\<open>FinalizeRawInputThread\<close> runs the destructor of the base class, which calls a member of it that is defined nowhere.\<close>

definition InitializeRawInputThread :: "w32_answers \<Rightarrow> sys_queue \<times> u64 \<Rightarrow> w32_log \<Rightarrow> (service_thread \<times> w32_log) outcome" where
  "InitializeRawInputThread os new g = HidThread os new g"

section \<open>The thread is not started\<close>

text \<open>
  How often a thread is suspended, as Win32 counts it: once if it was created so, once more for every \<open>SuspendThread\<close>, once less for every \<open>ResumeThread\<close>. It runs if
  the count is zero.
\<close>

fun suspend_step :: "u64 \<Rightarrow> w32_call \<times> int \<Rightarrow> nat \<Rightarrow> nat" where
  "suspend_step h (w32_CreateThread n b, a) k = (if word_of_int a = h then (if b then 1 else 0) else k)"
| "suspend_step h (w32_SuspendThread h', a) k = (if h' = h then k + 1 else k)"
| "suspend_step h (w32_ResumeThread h', a) k = (if h' = h then k - 1 else k)"
| "suspend_step h e k = k"

definition suspend_count :: "u64 \<Rightarrow> w32_log \<Rightarrow> nat" where
  "suspend_count h g = fold (suspend_step h) g 0"

lemma w32_ask_Inr_iff: "w32_ask os c ok g = Inr (a, g') \<longleftrightarrow> ok a \<and> a = os g c \<and> g' = g @ [(c, a)]"
  by (auto simp: w32_ask_def Let_def dd_assert_def)

lemmas thread_simps = w32_ask_Inr_iff and_then_Inr_iff suspend_count_def

text \<open>
  The operations on a service thread do to the count of suspensions what their names say; \<open>StartThread\<close> and \<open>ResumeThread\<close> are the same.
\<close>

theorem service_thread_counts:
  "ServiceThread os name mode e new n p g = Inr (t, g') \<Longrightarrow> suspend_count (st_handle t) g' = 1"
  "ServiceThread_StartThread os t g = Inr g' \<Longrightarrow> suspend_count (st_handle t) g' = suspend_count (st_handle t) g - 1"
  "ServiceThread_SuspendThread os t g = Inr g' \<Longrightarrow> suspend_count (st_handle t) g' = suspend_count (st_handle t) g + 1"
  "ServiceThread_ResumeThread os t g = ServiceThread_StartThread os t g"
  "ServiceThread_SuspendThread os t g = Inr g1 \<Longrightarrow> ServiceThread_ResumeThread os t g1 = Inr g' \<Longrightarrow> suspend_count (st_handle t) g' = suspend_count (st_handle t) g"
  by (auto simp: ServiceThread_def ServiceThread_StartThread_def ServiceThread_SuspendThread_def ServiceThread_ResumeThread_def thread_simps CREATE_SUSPENDED_def)

text \<open>
  The thread of the input module is created suspended, and nothing resumes it: it never runs, and no input is ever received.
\<close>

theorem input_thread_never_started:
  assumes "InitializeRawInputThread os new g = Inr (t, g')"
  shows "suspend_count (st_handle t) g' = 1"
  using assms service_thread_counts(1) by (simp add: InitializeRawInputThread_def HidThread_def)

section \<open>The list of devices\<close>

lemma device_loop_done: "device_loop devices fresh k c c xs = Some (Inr (c, xs))"
  by (simp add: device_loop.simps)

text \<open>
  While the same devices are connected, the loop that should read them ends as soon as it has learnt how many there are: what is searched is the memory
  as it was allocated, not the devices.
\<close>

theorem device_list_not_read:
  assumes "\<And>k. devices k = ds" and "ds \<noteq> []" and "length ds < 2 ^ 32" and "fresh 0 = Some m0" and "fresh 1 = Some m1"
  shows "list_devices devices fresh = Some (Inr (of_nat (length ds), resized (length ds) m1))"
proof -
  have "unat (of_nat (length ds) :: u32) \<noteq> 0" using assms(2,3) by (simp add: unat_of_nat_small)
  then have n: "(of_nat (length ds) :: u32) \<noteq> 0" by (metis unat_0)
  have "device_loop devices fresh 1 (of_nat (length ds)) 0 (resized (length ds) m0) =
      device_loop devices fresh (Suc 1) (of_nat (length ds)) (of_nat (length ds)) (resized (length ds) m1)"
    using n assms(2,5) by (subst device_loop.simps) (simp add: assms(1))
  then show ?thesis using assms(4) by (simp add: list_devices_def assms(1) device_loop_done Let_def)
qed

text \<open>
  The loop does read the devices when one is plugged in between the first call and the second.
\<close>

theorem device_list_read:
  assumes "devices 0 = ds" and "ds \<noteq> []" and "\<And>k. devices (Suc k) = d # ds" and "length ds < 2 ^ 32 - 1" and "fresh 0 = Some m0" and "fresh 1 = Some m1"
  shows "list_devices devices fresh = Some (Inr (of_nat (length ds + 1), d # ds))"
proof -
  let ?n = "of_nat (length ds) :: u32" and ?k = "of_nat (length ds + 1) :: u32"
  have u: "unat ?n = length ds" using assms(4) by (intro unat_of_nat_small) simp
  have v: "unat ?k = length ds + 1" using assms(4) by (intro unat_of_nat_small) simp
  have n: "?n \<noteq> ?k" using u v by (metis n_not_Suc_n Suc_eq_plus1)
  have d: "devices 1 = d # ds" "devices 2 = d # ds" using assms(3) [of 0] assms(3) [of 1] by (simp_all add: numeral_2_eq_2)
  have "?n \<noteq> 0" using u assms(2) by (metis length_0_conv unat_0)
  then have "device_loop devices fresh 1 ?n 0 (resized (length ds) m0) = device_loop devices fresh 2 ?n ?k (resized (length ds + 1) m1)"
    using assms(6) d(1) by (subst device_loop.simps) (simp add: numeral_2_eq_2)
  also have "\<dots> = device_loop devices fresh 3 ?k ?k (d # ds)"
    using n v by (subst device_loop.simps) (simp add: d(2) resized_def numeral_3_eq_3)
  finally show ?thesis using assms(1,5) by (simp add: list_devices_def device_loop_done Let_def)
qed

text \<open>
  If a device is unplugged after the loop has learnt how many there are, it never ends: the call succeeds from then on, with a number that is not the one that was learnt.
\<close>

definition stuck :: "device_list \<Rightarrow> (nat \<Rightarrow> device_list) \<Rightarrow> nat \<Rightarrow> u32 \<Rightarrow> u32 \<Rightarrow> bool" where
  "stuck ds devices k c n \<longleftrightarrow> (\<forall>j\<ge>k. devices j = ds) \<and> length ds < unat n \<and> c \<noteq> n"

lemma stuck_step:
  assumes "stuck ds devices k c n"
  shows "stuck ds devices (Suc k) (of_nat (length ds)) n" "devices k = ds" "c \<noteq> n" "\<not> unat n < length ds"
proof -
  have "unat n < 2 ^ LENGTH(32)" by (rule unsigned_less)
  then have "unat (of_nat (length ds) :: u32) = length ds" using assms by (intro unat_of_nat_small) (simp add: stuck_def)
  then have "(of_nat (length ds) :: u32) \<noteq> n" using assms by (auto simp: stuck_def)
  then show "stuck ds devices (Suc k) (of_nat (length ds)) n" "devices k = ds" "c \<noteq> n" "\<not> unat n < length ds" using assms by (auto simp: stuck_def)
qed

lemma device_loop_stuck: "device_loop devices fresh k c n xs = Some r \<Longrightarrow> \<not> stuck ds devices k c n"
proof (rule device_loop.raw_induct [where P = "\<lambda>devices fresh k c n xs r. \<not> stuck ds devices k c n"], goal_cases)
  case (1 loop devices fresh k c n xs r)
  show ?case
  proof
    assume "stuck ds devices k c n"
    note s = stuck_step [OF this]
    have "loop devices fresh (Suc k) (of_nat (length ds)) n (ds @ drop (length ds) xs) = Some r" using 1(3) s(2-4) by (simp add: Let_def)
    from 1(2) [OF this] s(1) show False by contradiction
  qed
qed assumption

theorem device_loop_forever:
  assumes "\<And>j. k \<le> j \<Longrightarrow> devices j = ds" and "length ds < unat n" and "c \<noteq> n"
  shows "device_loop devices fresh k c n xs = None"
  using device_loop_stuck [of devices fresh k c n xs _ ds] assms by (cases "device_loop devices fresh k c n xs") (auto simp: stuck_def)

section \<open>No keyboard is found\<close>

text \<open>
  The check of a keyboard demands that the query has failed. A query that fails stores nothing, so that the type is the one of a mouse: no
  keyboard passes, and \<open>keyboard_handle\<close> is never set.
\<close>

lemma no_real_keyboard: "(fst x = - 1 \<Longrightarrow> info_type (snd x) = 0) \<Longrightarrow> \<not> CheckRealKeyboard x"
  by (cases x) (auto simp: CheckRealKeyboard_def RIM_TYPEKEYBOARD_def)

theorem keyboard_never_found:
  assumes "\<And>h. fst (infos h) = - 1 \<Longrightarrow> info_type (snd (infos h)) = 0" and "find_devices infos (n, xs) (None, m) = Inr (k, m')"
  shows "k = None"
proof -
  have c: "\<not> CheckRealKeyboard (infos h)" for h using no_real_keyboard [OF assms(1)] .
  let ?f = "\<lambda>i (keyboard, mouse).
       (if dwType (xs ! i) = RIM_TYPEKEYBOARD \<and> CheckRealKeyboard (infos (hDevice (xs ! i))) then Some i else keyboard,
        if dwType (xs ! i) = RIM_TYPEMOUSE then Some i else mouse)"
  have "fst (fold ?f js s) = fst s" for js s
  proof (induction js arbitrary: s)
    case (Cons j js)
    show ?case unfolding fold_Cons comp_apply Cons by (cases s) (simp add: c)
  qed simp
  note f = this [of "[0..<unat n]" "(None, m)"]
  have "fold ?f [0..<unat n] (None, m) = (k, m')"
    using assms(2) unfolding find_devices_def prod.case by (cases "length xs < unat n") (simp_all only: if_True if_False sum.inject sum.distinct)
  with f show ?thesis by simp
qed

section \<open>Messages\<close>

text \<open>
  The reports of the messages reach the devices in the order of the messages, also after the window was destroyed; other messages change nothing.
\<close>

fun input_reports :: "(int \<times> int) \<Rightarrow> window_message list \<Rightarrow> keyboard \<times> mouse \<Rightarrow> (keyboard \<times> mouse) outcome" where
  "input_reports screen [] s = Inr s"
| "input_reports screen (m # ms) s = and_then (SetLastRawInput screen (wm_header_size m) (wm_data_size m) (wm_report m) s) (input_reports screen ms)"

theorem messages_in_order:
  "message_loop screen ms (quit, s) =
    and_then (input_reports screen (filter (\<lambda>m. wm_message m = WM_INPUT) ms) s) (\<lambda>s. Inr (quit \<or> (\<exists>m\<in>set ms. wm_message m = WM_DESTROY), s))"
proof (induction ms arbitrary: quit s)
  case (Cons m ms)
  have "WM_INPUT \<noteq> WM_DESTROY" by (simp add: WM_INPUT_def WM_DESTROY_def)
  then show ?case
    using Cons by (cases "SetLastRawInput screen (wm_header_size m) (wm_data_size m) (wm_report m) s") (auto simp: HidWndProc_def)
qed simp

end
