(* ===== verification/Vector_Ops.thy ===== *)
theory Vector_Ops
  imports Vector_Math
begin

text \<open>
  The 128-bit registers and the instructions on them (\<open>util_int128.sse4.hpp\<close>, the rest of \<open>util_float128.sse4.hpp\<close>), and the
  operators of the vector and matrix types that are made from them (\<open>util_vector2.hpp\<close>, \<open>util_vector3.hpp\<close>, \<open>util_vector4.hpp\<close>,
  \<open>util_matrix33.hpp\<close>, \<open>util_matrix34.hpp\<close>), with the remaining constants of \<open>util_constants.hpp\<close>.

  Each function has two bodies: one for \<open>std::is_constant_evaluated()\<close> and one with the instruction. The flag \<open>ct\<close> selects; \<open>True\<close> is the
  body for the compiler. Shown here: which functions compute the same in both, and where they do not.
\<close>

section \<open>Registers\<close>

text \<open>
  \<open>v128\<close> is a union of views: lanes of 64, 32, 16 or 8 bits of the same 128. The width of a view is the width of the type of its lanes.
\<close>

type_synonym v128 = "128 word"

definition get_lane :: "v128 \<Rightarrow> nat \<Rightarrow> 'l::len word" where
  "get_lane a i = ucast (drop_bit (LENGTH('l) * i) a)"

definition lane_count :: "'l::len itself \<Rightarrow> nat" where
  "lane_count _ = 128 div LENGTH('l)"

definition of_lane_list :: "'l::len word list \<Rightarrow> v128" where
  "of_lane_list xs = foldr (\<lambda>x acc. ucast x OR push_bit LENGTH('l) acc) xs 0"

definition lanes :: "v128 \<Rightarrow> 'l::len word list" where
  "lanes a = map (get_lane a) [0..<lane_count TYPE('l)]"

text \<open>Lane by lane: an operation of the instruction, and one of the language whose signed results may not overflow.\<close>

definition lanewise :: "('l::len word \<Rightarrow> 'l word \<Rightarrow> 'l word) \<Rightarrow> v128 \<Rightarrow> v128 \<Rightarrow> v128" where
  "lanewise f a b = of_lane_list (map2 f (lanes a) (lanes b))"

definition signed_lanes :: "(int \<Rightarrow> int \<Rightarrow> int) \<Rightarrow> 'l::len itself \<Rightarrow> v128 \<Rightarrow> v128 \<Rightarrow> v128 outcome" where
  "signed_lanes f _ a b =
    (let rs = map2 (\<lambda>x y. f (sint x) (sint y)) (lanes a :: 'l word list) (lanes b :: 'l word list) in
     if \<forall>r\<in>set rs. - (2 ^ (LENGTH('l) - 1)) \<le> r \<and> r < 2 ^ (LENGTH('l) - 1)
     then Inr (of_lane_list (map (word_of_int :: int \<Rightarrow> 'l word) rs)) else Inl SignedOverflow)"

text \<open>A shift of the language, lane by lane; the count has to be below the width.\<close>

definition shifted_lanes :: "'l::len itself \<Rightarrow> v128 \<Rightarrow> v128 \<Rightarrow> v128 outcome" where
  "shifted_lanes _ a count =
    (if \<forall>c\<in>set (lanes count :: 'l word list). 0 \<le> sint c \<and> sint c < int LENGTH('l)
     then Inr (lanewise (\<lambda>x c. push_bit (unat c) (x :: 'l word)) a count) else Inl ShiftRange)"

text \<open>The instruction takes its count from the low 64 bits; a count of the width or more gives zero.\<close>

definition shift_all :: "'l::len itself \<Rightarrow> v128 \<Rightarrow> v128 \<Rightarrow> v128" where
  "shift_all _ a count =
    (let n = unat (get_lane count 0 :: u64) in
     of_lane_list (map (\<lambda>x. if n < LENGTH('l) then push_bit n (x :: 'l word) else 0) (lanes a)))"

section \<open>Integer instructions\<close>

definition paddq :: "bool \<Rightarrow> v128 \<Rightarrow> v128 \<Rightarrow> v128 outcome" where
  "paddq ct a b = (if ct then signed_lanes (+) TYPE(64) a b else Inr (lanewise (\<lambda>x y :: 64 word. x + y) a b))"

definition paddd :: "bool \<Rightarrow> v128 \<Rightarrow> v128 \<Rightarrow> v128 outcome" where
  "paddd ct a b = (if ct then signed_lanes (+) TYPE(32) a b else Inr (lanewise (\<lambda>x y :: 32 word. x + y) a b))"

definition psubq :: "bool \<Rightarrow> v128 \<Rightarrow> v128 \<Rightarrow> v128 outcome" where
  "psubq ct a b = (if ct then signed_lanes (-) TYPE(64) a b else Inr (lanewise (\<lambda>x y :: 64 word. x - y) a b))"

text \<open>The next two return in their first line, both with the difference.\<close>

definition psubd :: "v128 \<Rightarrow> v128 \<Rightarrow> v128 outcome" where
  "psubd a b = signed_lanes (-) TYPE(32) a b"

definition pmuld :: "v128 \<Rightarrow> v128 \<Rightarrow> v128 outcome" where
  "pmuld a b = signed_lanes (-) TYPE(32) a b"

definition psllq :: "bool \<Rightarrow> v128 \<Rightarrow> v128 \<Rightarrow> v128 outcome" where
  "psllq ct a count = (if ct then shifted_lanes TYPE(64) a count else Inr (shift_all TYPE(64) a count))"

definition pslld :: "bool \<Rightarrow> v128 \<Rightarrow> v128 \<Rightarrow> v128 outcome" where
  "pslld ct a count = (if ct then shifted_lanes TYPE(32) a count else Inr (shift_all TYPE(32) a count))"

definition psllw :: "bool \<Rightarrow> v128 \<Rightarrow> v128 \<Rightarrow> v128 outcome" where
  "psllw ct a count = (if ct then shifted_lanes TYPE(16) a count else Inr (shift_all TYPE(16) a count))"

text \<open>The language works on the lanes of the view, the instruction on all the bits.\<close>

definition pand :: "bool \<Rightarrow> v128 \<Rightarrow> v128 \<Rightarrow> v128" where
  "pand ct a b = (if ct then lanewise (\<lambda>x y :: 64 word. x AND y) a b else a AND b)"

definition pandn :: "bool \<Rightarrow> v128 \<Rightarrow> v128 \<Rightarrow> v128" where
  "pandn ct a b = (if ct then lanewise (\<lambda>x y :: 64 word. NOT x AND y) a b else NOT a AND b)"

definition por :: "bool \<Rightarrow> v128 \<Rightarrow> v128 \<Rightarrow> v128" where
  "por ct a b = (if ct then lanewise (\<lambda>x y :: 64 word. x OR y) a b else a OR b)"

definition pxor :: "bool \<Rightarrow> v128 \<Rightarrow> v128 \<Rightarrow> v128" where
  "pxor ct a b = (if ct then lanewise (\<lambda>x y :: 64 word. x XOR y) a b else a XOR b)"

text \<open>A comparison gives all ones or zero in each lane. The instructions compare equal or signed greater; less is greater with the operands exchanged.\<close>

definition lane_mask :: "bool \<Rightarrow> 'l::len word" where
  "lane_mask c = (if c then - 1 else 0)"

definition cmpeq :: "'l::len itself \<Rightarrow> v128 \<Rightarrow> v128 \<Rightarrow> v128" where
  "cmpeq _ a b = lanewise (\<lambda>x y :: 'l word. lane_mask (x = y)) a b"

definition cmpgt :: "'l::len itself \<Rightarrow> v128 \<Rightarrow> v128 \<Rightarrow> v128" where
  "cmpgt _ a b = lanewise (\<lambda>x y :: 'l word. lane_mask (sint x > sint y)) a b"

definition cmplt :: "'l::len itself \<Rightarrow> v128 \<Rightarrow> v128 \<Rightarrow> v128" where
  "cmplt _ a b = lanewise (\<lambda>x y :: 'l word. lane_mask (sint x < sint y)) a b"

definition pcmpeqd :: "bool \<Rightarrow> v128 \<Rightarrow> v128 \<Rightarrow> v128" where "pcmpeqd ct a b = cmpeq TYPE(32) a b"
definition pcmpeqw :: "bool \<Rightarrow> v128 \<Rightarrow> v128 \<Rightarrow> v128" where "pcmpeqw ct a b = cmpeq TYPE(16) a b"
definition pcmpeqb :: "bool \<Rightarrow> v128 \<Rightarrow> v128 \<Rightarrow> v128" where "pcmpeqb ct a b = cmpeq TYPE(8) a b"
definition pcmpgtd :: "bool \<Rightarrow> v128 \<Rightarrow> v128 \<Rightarrow> v128" where "pcmpgtd ct a b = cmpgt TYPE(32) a b"
definition pcmpgtw :: "bool \<Rightarrow> v128 \<Rightarrow> v128 \<Rightarrow> v128" where "pcmpgtw ct a b = cmpgt TYPE(16) a b"
definition pcmpgtb :: "bool \<Rightarrow> v128 \<Rightarrow> v128 \<Rightarrow> v128" where "pcmpgtb ct a b = cmpgt TYPE(8) a b"

definition pcmpltd :: "bool \<Rightarrow> v128 \<Rightarrow> v128 \<Rightarrow> v128" where
  "pcmpltd ct a b = (if ct then cmplt TYPE(32) a b else cmpgt TYPE(32) b a)"
definition pcmpltw :: "bool \<Rightarrow> v128 \<Rightarrow> v128 \<Rightarrow> v128" where
  "pcmpltw ct a b = (if ct then cmplt TYPE(16) a b else cmpgt TYPE(16) b a)"
definition pcmpltb :: "bool \<Rightarrow> v128 \<Rightarrow> v128 \<Rightarrow> v128" where
  "pcmpltb ct a b = (if ct then cmplt TYPE(8) a b else cmpgt TYPE(8) b a)"

definition Clamp_int :: "int \<Rightarrow> int \<Rightarrow> int \<Rightarrow> int" where
  "Clamp_int v mn mx = (let v = (if mx < v then mx else v) in if mn > v then mn else v)"

text \<open>The loop over the four lanes, with the \<open>switch\<close> on the two bits of the mask, and the instruction.\<close>

fun shuffle_loop :: "nat list \<Rightarrow> v128 \<Rightarrow> s32 \<Rightarrow> s32 list \<Rightarrow> s32 list" where
  "shuffle_loop [] a m temp = temp"
| "shuffle_loop (i # is) a m temp =
    (let index = drop_bit (i + i) m AND 3 in
     shuffle_loop is a m (temp[i := (if index = 0 then get_lane a 0 else if index = 1 then get_lane a 1
       else if index = 2 then get_lane a 2 else get_lane a 3)]))"

definition pshufd :: "bool \<Rightarrow> s32 list \<Rightarrow> v128 \<Rightarrow> s32 \<Rightarrow> v128" where
  "pshufd ct junk a shuffle_mask =
    (if ct then of_lane_list (shuffle_loop [0..<4] a shuffle_mask (take 4 (junk @ replicate 4 0)))
     else of_lane_list (map (\<lambda>i. get_lane a (unat (drop_bit (2 * i) shuffle_mask AND 3)) :: s32) [0..<4]))"

definition lddqu :: "bool \<Rightarrow> s32 list \<Rightarrow> v128 outcome" where
  "lddqu ct address = (if length address < 4 then Inl OutOfBounds
    else if ct then Inr (of_lane_list [address ! 0, address ! 1, address ! 2, address ! 3]) else Inr (of_lane_list (take 4 address)))"

definition pinsrd :: "bool \<Rightarrow> v128 \<Rightarrow> s32 \<Rightarrow> nat \<Rightarrow> v128 outcome" where
  "pinsrd ct a i index =
    (if ct then (if index < 4 then Inr (of_lane_list ((lanes a :: s32 list)[index := i])) else Inl OutOfBounds)
     else Inr (of_lane_list ((lanes a :: s32 list)[index mod 4 := i])))"

section \<open>Lemmas on lanes\<close>

lemma bit_get_lane: "bit (get_lane a i :: 'l::len word) n \<longleftrightarrow> n < LENGTH('l) \<and> bit a (LENGTH('l) * i + n)"
  by (auto simp: get_lane_def bit_simps add.commute dest: bit_imp_le_length)

lemma bit_of_lane_list:
  fixes xs :: "'l::len word list"
  shows "bit (of_lane_list xs) n \<longleftrightarrow> n < 128 \<and> n div LENGTH('l) < length xs \<and> bit (xs ! (n div LENGTH('l))) (n mod LENGTH('l))"
proof (induction xs arbitrary: n)
  case Nil
  show ?case by (simp add: of_lane_list_def)
next
  case (Cons x xs)
  have s: "bit (of_lane_list (x # xs)) n \<longleftrightarrow> n < 128 \<and> (bit x n \<or> LENGTH('l) \<le> n \<and> bit (of_lane_list xs) (n - LENGTH('l)))"
    by (auto simp: of_lane_list_def bit_simps)
  show ?case
  proof (cases "n < LENGTH('l)")
    case True
    then show ?thesis by (simp add: s)
  next
    case False
    then have "n div LENGTH('l) = Suc ((n - LENGTH('l)) div LENGTH('l))" "(n - LENGTH('l)) mod LENGTH('l) = n mod LENGTH('l)"
      by (simp_all add: le_div_geq le_mod_geq)
    moreover have "\<not> bit x n" using False bit_imp_le_length by (metis leI)
    ultimately show ?thesis using False by (auto simp: s Cons.IH)
  qed
qed

lemma get_lane_of_list:
  fixes xs :: "'l::len word list"
  assumes "LENGTH('l) * length xs \<le> 128" and "i < length xs"
  shows "(get_lane (of_lane_list xs) i :: 'l word) = xs ! i"
proof (rule bit_word_eqI)
  fix n assume n: "n < LENGTH('l)"
  have "LENGTH('l) * i + n < LENGTH('l) * (i + 1)" using n by simp
  also have "\<dots> \<le> LENGTH('l) * length xs" using assms(2) by (intro mult_le_mono) simp_all
  finally have "LENGTH('l) * i + n < 128" using assms(1) by simp
  then show "bit (get_lane (of_lane_list xs) i :: 'l word) n \<longleftrightarrow> bit (xs ! i) n"
    using n assms(2) by (simp add: bit_get_lane bit_of_lane_list)
qed

lemma lanes_of_list:
  fixes xs :: "'l::len word list"
  assumes "length xs = lane_count TYPE('l)"
  shows "(lanes (of_lane_list xs) :: 'l word list) = xs"
proof (rule nth_equalityI)
  have "LENGTH('l) * length xs \<le> 128" using assms by (simp add: lane_count_def)
  then show "lanes (of_lane_list xs) ! i = xs ! i" if "i < length (lanes (of_lane_list xs) :: 'l word list)" for i
    using that assms get_lane_of_list [of xs i] by (simp add: lanes_def)
qed (simp add: lanes_def assms)

lemma of_lane_list_lanes:
  assumes "LENGTH('l::len) * lane_count TYPE('l) = 128"
  shows "of_lane_list (lanes a :: 'l word list) = a"
proof (rule bit_word_eqI)
  fix n assume n: "n < LENGTH(128)"
  then have "n div LENGTH('l) < lane_count TYPE('l)" using less_mult_imp_div_less [of n "lane_count TYPE('l)" "LENGTH('l)"] assms by (simp add: mult.commute)
  then show "bit (of_lane_list (lanes a :: 'l word list)) n \<longleftrightarrow> bit a n"
    using n by (simp add: bit_of_lane_list lanes_def bit_get_lane)
qed

lemma lane_counts [simp]:
  "lane_count TYPE(64) = 2" "lane_count TYPE(32) = 4" "lane_count TYPE(16) = 8" "lane_count TYPE(8) = 16"
  by (simp_all add: lane_count_def)

lemma length_lanes [simp]: "length (lanes a :: 'l::len word list) = lane_count TYPE('l)"
  by (simp add: lanes_def)

text \<open>The lanes of an operation that works lane by lane.\<close>

lemma lanes_lanewise:
  "(lanes (lanewise f a b) :: 'l::len word list) = map2 f (lanes a) (lanes b)"
  by (simp add: lanewise_def lanes_of_list)

text \<open>A signed operation that does not overflow has the result of the one that wraps.\<close>

lemma signed_lanes_wrap:
  fixes g :: "'l::len word \<Rightarrow> 'l word \<Rightarrow> 'l word"
  assumes "signed_lanes f TYPE('l) a b = Inr r" and "\<And>x y. word_of_int (f (sint x) (sint y)) = g x y"
  shows "r = lanewise g a b"
  using assms(1)
  by (auto simp: signed_lanes_def lanewise_def Let_def o_def assms(2) split_beta split: if_splits intro!: arg_cong [of _ _ of_lane_list])

lemma lanewise_bits:
  assumes "\<And>x y n. n < 64 \<Longrightarrow> bit (f x y :: 64 word) n = g (bit x n) (bit y n)"
    and "\<And>n. n < 128 \<Longrightarrow> bit c n = g (bit a n) (bit b n)"
  shows "lanewise f a b = c"
proof (rule bit_word_eqI)
  fix n assume "n < LENGTH(128)"
  then have n: "n < 128" "n div 64 < 2" by auto
  then have "bit (lanewise f a b) n = g (bit a (64 * (n div 64) + n mod 64)) (bit b (64 * (n div 64) + n mod 64))"
    by (simp add: lanewise_def bit_of_lane_list assms(1) lanes_def bit_get_lane)
  then show "bit (lanewise f a b) n = bit c n" using n by (simp add: assms(2))
qed

lemma shuffle_loop_nth:
  assumes "distinct is" and "\<forall>i\<in>set is. i < length temp"
  shows "length (shuffle_loop is a m temp) = length temp \<and> (\<forall>i<length temp. shuffle_loop is a m temp ! i =
    (if i \<in> set is then get_lane a (unat (drop_bit (i + i) m AND 3)) else temp ! i))"
  using assms
proof (induction "is" arbitrary: temp)
  case (Cons i "is")
  let ?x = "drop_bit (i + i) m AND 3"
  have m: "(3 :: s32) = mask 2" by (simp add: mask_eq_decr_exp)
  have "unat ?x < 4" by (simp add: m unat_and_mask)
  then have "unat ?x = 0 \<or> unat ?x = 1 \<or> unat ?x = 2 \<or> unat ?x = 3" by arith
  then have x: "(if ?x = 0 then get_lane a 0 else if ?x = 1 then get_lane a 1 else if ?x = 2 then get_lane a 2 else get_lane a 3) =
      (get_lane a (unat ?x) :: s32)"
    by (auto simp: word_unat_eq_iff)
  show ?case
    using Cons.IH [of "temp[i := get_lane a (unat ?x)]"] Cons.prems by (auto simp: Let_def x nth_list_update)
qed simp

section \<open>The two bodies\<close>

text \<open>
  C35. Where the compiler's body has a value, the instruction has the same: sums and differences as long as
  no lane overflows, the bitwise operations, the comparisons, the shuffle, the load and the insertion.
\<close>

theorem integer_bodies_agree:
  "(\<forall>r. paddq True a b = Inr r \<longrightarrow> paddq False a b = Inr r) \<and> (\<forall>r. paddd True a b = Inr r \<longrightarrow> paddd False a b = Inr r) \<and>
   (\<forall>r. psubq True a b = Inr r \<longrightarrow> psubq False a b = Inr r) \<and>
   pand True a b = pand False a b \<and> pandn True a b = pandn False a b \<and> por True a b = por False a b \<and> pxor True a b = pxor False a b \<and>
   pcmpltd True a b = pcmpltd False a b \<and> pcmpltw True a b = pcmpltw False a b \<and> pcmpltb True a b = pcmpltb False a b \<and>
   pshufd True junk a m = pshufd False junk a m \<and> lddqu True p = lddqu False p \<and>
   (\<forall>r. pinsrd True a i k = Inr r \<longrightarrow> pinsrd False a i k = Inr r)"
proof (intro conjI)
  show "\<forall>r. paddq True a b = Inr r \<longrightarrow> paddq False a b = Inr r" "\<forall>r. paddd True a b = Inr r \<longrightarrow> paddd False a b = Inr r"
    "\<forall>r. psubq True a b = Inr r \<longrightarrow> psubq False a b = Inr r"
    by (auto simp: paddq_def paddd_def psubq_def dest!: signed_lanes_wrap)
  show "pand True a b = pand False a b" by (simp add: pand_def) (rule lanewise_bits, simp_all add: bit_simps)
  show "pandn True a b = pandn False a b" by (simp add: pandn_def) (rule lanewise_bits, simp_all add: bit_simps)
  show "por True a b = por False a b" by (simp add: por_def) (rule lanewise_bits, simp_all add: bit_simps)
  show "pxor True a b = pxor False a b" by (simp add: pxor_def) (rule lanewise_bits, simp_all add: bit_simps)
  show "pcmpltd True a b = pcmpltd False a b" "pcmpltw True a b = pcmpltw False a b" "pcmpltb True a b = pcmpltb False a b"
    by (simp_all add: pcmpltd_def pcmpltw_def pcmpltb_def cmplt_def cmpgt_def lanewise_def map2_map_map lanes_def)
  have j: "length (take 4 (junk @ replicate 4 0)) = 4" by simp
  show "pshufd True junk a m = pshufd False junk a m"
    using shuffle_loop_nth [of "[0..<4]" "take 4 (junk @ replicate 4 0)" a m] j
    by (auto simp: pshufd_def mult_2 intro!: arg_cong [of _ _ of_lane_list] nth_equalityI)
  have "take 4 p = [p ! 0, p ! 1, p ! 2, p ! 3]" if "4 \<le> length p"
    using that by (intro nth_equalityI) (auto simp: less_Suc_eq numeral_eq_Suc)
  then show "lddqu True p = lddqu False p" by (simp add: lddqu_def)
  show "\<forall>r. pinsrd True a i k = Inr r \<longrightarrow> pinsrd False a i k = Inr r" by (auto simp: pinsrd_def split: if_splits)
qed

theorem integer_bodies_agree_witness:
  "(\<exists>r. paddq True 5 7 = Inr r \<and> paddq False 5 7 = Inr r) \<and> (\<exists>r. paddd True 5 7 = Inr r \<and> paddd False 5 7 = Inr r) \<and>
   (\<exists>r. psubq True 5 7 = Inr r \<and> psubq False 5 7 = Inr r) \<and> (\<exists>r. pinsrd True 5 9 2 = Inr r \<and> pinsrd False 5 9 2 = Inr r)"
proof -
  have "paddq True 5 7 = Inr 12" "paddd True 5 7 = Inr 12" "psubq True 5 7 = Inr 0xfffffffffffffffe" "pinsrd True 5 9 2 = Inr 0x90000000000000005"
    by code_simp+
  then show ?thesis using integer_bodies_agree [of 5 7 "[]" 0 "[]" 9 2] by blast
qed

text \<open>
  The shifts do not: the compiler's body shifts each lane by its own count, the instruction shifts all by the low 64 bits of the counts. They agree
  for 64-bit lanes with one count for both; for 32-bit lanes a count in every lane makes the instruction clear the register.
\<close>

theorem shift_bodies_differ:
  "(unat (get_lane c 0 :: u64) < 64 \<and> (get_lane c 1 :: u64) = get_lane c 0 \<longrightarrow> psllq True a c = psllq False a c) \<and>
   pslld True (of_lane_list [1, 1, 1, 1 :: s32]) (of_lane_list [1, 1, 1, 1 :: s32]) = Inr (of_lane_list [2, 2, 2, 2 :: s32]) \<and>
   pslld False (of_lane_list [1, 1, 1, 1 :: s32]) (of_lane_list [1, 1, 1, 1 :: s32]) = Inr 0"
proof (intro conjI impI)
  assume c: "unat (get_lane c 0 :: u64) < 64 \<and> (get_lane c 1 :: u64) = get_lane c 0"
  have l: "(lanes x :: u64 list) = [get_lane x 0, get_lane x 1]" for x by (simp add: lanes_def upt_rec)
  have "sint (get_lane c 0 :: u64) = int (unat (get_lane c 0 :: u64))" using c by (intro sint_small) simp
  moreover have "int (unat (get_lane c 0 :: u64)) < 64" using c by linarith
  then have "uint (get_lane c 0 :: u64) < 64" by simp
  ultimately show "psllq True a c = psllq False a c" using c by (simp add: psllq_def shifted_lanes_def shift_all_def lanewise_def l Let_def)
next
  have l: "(lanes (of_lane_list [1, 1, 1, 1 :: s32]) :: s32 list) = [1, 1, 1, 1]" by (rule lanes_of_list) simp
  show "pslld True (of_lane_list [1, 1, 1, 1 :: s32]) (of_lane_list [1, 1, 1, 1 :: s32]) = Inr (of_lane_list [2, 2, 2, 2 :: s32])"
    by (simp add: pslld_def shifted_lanes_def lanewise_def l)
  have "(get_lane (of_lane_list [1, 1, 1, 1 :: s32]) 0 :: u64) = 0x100000001" by code_simp
  then show "pslld False (of_lane_list [1, 1, 1, 1 :: s32]) (of_lane_list [1, 1, 1, 1 :: s32]) = Inr 0"
    by (simp add: pslld_def shift_all_def l) code_simp
qed

section \<open>Float instructions\<close>

text \<open>\<open>temp\<close> is not initialised and the loop of the compiler's \<open>shufps\<close> writes three lanes: the last is \<open>junk\<close>. The masks are numbers of 32 bits.\<close>

definition shufps_ct :: "real \<Rightarrow> v4 \<Rightarrow> v4 \<Rightarrow> s32 \<Rightarrow> v4" where
  "shufps_ct junk a b shuffle_mask = \<lparr>lane0 = lane a (unat (shuffle_mask AND 3)), lane1 = lane a (unat (drop_bit 2 shuffle_mask AND 3)),
    lane2 = lane b (unat (drop_bit 4 shuffle_mask AND 3)), lane3 = junk\<rparr>"

definition GetSelectionMask :: "s32 \<Rightarrow> s32 \<Rightarrow> s32 \<Rightarrow> s32 \<Rightarrow> s32" where
  "GetSelectionMask x y z w = x OR push_bit 1 y OR push_bit 2 z OR push_bit 3 w"

definition GetDotProductMask :: "s32 \<Rightarrow> s32 \<Rightarrow> s32" where
  "GetDotProductMask selection_mask result_selection_mask =
    (let result_mask = word_of_int (Clamp_int (sint result_selection_mask) 0 15) :: s32;
         select_mask = word_of_int (Clamp_int (sint selection_mask) 0 15) :: s32
     in result_mask OR push_bit 4 select_mask)"

definition v4_of :: "(nat \<Rightarrow> real) \<Rightarrow> v4" where
  "v4_of f = \<lparr>lane0 = f 0, lane1 = f 1, lane2 = f 2, lane3 = f 3\<rparr>"

definition dpps :: "bool \<Rightarrow> v4 \<Rightarrow> v4 \<Rightarrow> s32 \<Rightarrow> v4" where
  "dpps ct a b dot_product_mask =
    (if ct then
       let temp = v4_of (\<lambda>i. if push_bit (4 + i) dot_product_mask AND 1 \<noteq> 0 then lane a i * lane b i else 0);
           result = lane0 temp + lane1 temp + lane2 temp + lane3 temp
       in v4_of (\<lambda>i. if push_bit i dot_product_mask AND 1 \<noteq> 0 then result else 0)
     else
       let temp = v4_of (\<lambda>i. if bit dot_product_mask (4 + i) then lane a i * lane b i else 0);
           result = lane0 temp + lane1 temp + lane2 temp + lane3 temp
       in v4_of (\<lambda>i. if bit dot_product_mask i then result else 0))"

definition movaps_load :: "real list \<Rightarrow> v4 outcome" where
  "movaps_load array = (if length array < 4 then Inl OutOfBounds
    else Inr \<lparr>lane0 = array ! 0, lane1 = array ! 1, lane2 = array ! 2, lane3 = array ! 3\<rparr>)"

definition movaps_store :: "real list \<Rightarrow> v4 \<Rightarrow> real list outcome" where
  "movaps_store array a = (if length array < 4 then Inl OutOfBounds
    else Inr (array[0 := lane0 a, 1 := lane1 a, 2 := lane2 a, 3 := lane3 a]))"

definition insertps :: "bool \<Rightarrow> v4 \<Rightarrow> v4 \<Rightarrow> s32 \<Rightarrow> v4" where
  "insertps ct a b insertps_mask =
    (let shift = (\<lambda>n. if ct then push_bit n insertps_mask else drop_bit n insertps_mask);
         select_mask = shift 6 AND 3;
         temp1 = lane b (unat select_mask);
         insert_mask = shift 4 AND 3;
         temp2 = (\<lambda>i. if i = unat insert_mask then temp1 else lane a i)
     in v4_of (\<lambda>i. if shift i AND 1 = 0 then temp2 i else 0))"

lemma shifted_low_bits:
  "push_bit n m AND 1 = (if n = 0 then m AND 1 else 0)" "2 \<le> n \<Longrightarrow> push_bit n m AND 3 = 0" for m :: s32
proof -
  have three: "(3 :: s32) = mask 2" by (simp add: mask_eq_decr_exp)
  show "push_bit n m AND 1 = (if n = 0 then m AND 1 else 0)" by (rule bit_word_eqI) (auto simp: bit_simps bit_1_iff)
  show "2 \<le> n \<Longrightarrow> push_bit n m AND 3 = 0" by (rule bit_word_eqI) (simp add: three bit_simps)
qed

text \<open>
  The compiler's bodies of the dot product and of the insertion shift their masks left in place of right: the dot product is zero whatever the operands, and
  the insertion always moves lane 0 to lane 0. The shuffle agrees with the instruction in the lanes that make a \<open>Vector3\<close>.
\<close>

theorem float_bodies_differ:
  "dpps True a b m = \<lparr>lane0 = 0, lane1 = 0, lane2 = 0, lane3 = 0\<rparr> \<and>
   lane0 (dpps False a b (GetDotProductMask 15 1)) = lane0 a * lane0 b + lane1 a * lane1 b + lane2 a * lane2 b + lane3 a * lane3 b \<and>
   insertps True a b m = a\<lparr>lane0 := (if bit m 0 then 0 else lane0 b)\<rparr> \<and>
   of_lanes (shufps_ct junk a b m) = of_lanes (shufps a b (unat m))"
proof (intro conjI)
  show "dpps True a b m = \<lparr>lane0 = 0, lane1 = 0, lane2 = 0, lane3 = 0\<rparr>"
    by (simp add: dpps_def shifted_low_bits v4_of_def Let_def)
  have "GetDotProductMask 15 1 = 0xF1" by (simp add: GetDotProductMask_def Clamp_int_def)
  then show "lane0 (dpps False a b (GetDotProductMask 15 1)) = lane0 a * lane0 b + lane1 a * lane1 b + lane2 a * lane2 b + lane3 a * lane3 b"
    by (simp add: dpps_def v4_of_def Let_def)
  show "insertps True a b m = a\<lparr>lane0 := (if bit m 0 then 0 else lane0 b)\<rparr>"
    by (simp add: insertps_def shifted_low_bits v4_of_def Let_def bit_0 and_one_eq mod_2_eq_odd)
  have three: "(3 :: s32) = mask 2" by (simp add: mask_eq_decr_exp)
  show "of_lanes (shufps_ct junk a b m) = of_lanes (shufps a b (unat m))"
    by (simp add: of_lanes_def shufps_ct_def shufps_def three unat_and_mask unat_drop_bit_div del: lane.simps)
qed

section \<open>Operators of the vector types\<close>

text \<open>
  The types are templates; the operators on \<open>float\<close> are modelled. Each operator is declared for a reference and for a constant
  reference, with the same body.
\<close>

record Vector2 =
  d_x :: real
  d_y :: real

definition Vector2Type :: "real \<Rightarrow> real \<Rightarrow> Vector2" where
  "Vector2Type x y = \<lparr>d_x = x, d_y = y\<rparr>"

definition v2_index :: "Vector2 \<Rightarrow> int \<Rightarrow> real outcome" where
  "v2_index v index = (if index = 0 then Inr (d_x v) else if index = 1 then Inr (d_y v) else Inl OutOfBounds)"

definition v2_add :: "Vector2 \<Rightarrow> Vector2 \<Rightarrow> Vector2" where
  "v2_add v rhs = \<lparr>d_x = d_x v + d_x rhs, d_y = d_y v + d_y rhs\<rparr>"

definition v2_sub :: "Vector2 \<Rightarrow> Vector2 \<Rightarrow> Vector2" where
  "v2_sub v rhs = \<lparr>d_x = d_x v - d_x rhs, d_y = d_y v - d_y rhs\<rparr>"

definition v2_mul :: "Vector2 \<Rightarrow> Vector2 \<Rightarrow> real" where
  "v2_mul v rhs = (let a = \<lparr>d_x = d_x v * d_x rhs, d_y = d_y v * d_y rhs\<rparr> in d_x a + d_y a)"

definition v2_div :: "Vector2 \<Rightarrow> Vector2 \<Rightarrow> Vector2" where
  "v2_div v rhs = \<lparr>d_x = d_x v / d_x rhs, d_y = d_y v / d_y rhs\<rparr>"

definition v2_eq :: "Vector2 \<Rightarrow> Vector2 \<Rightarrow> bool" where
  "v2_eq v rhs \<longleftrightarrow> (d_x v = d_x rhs) \<and> (d_y v = d_y rhs)"

definition v2_neq :: "Vector2 \<Rightarrow> Vector2 \<Rightarrow> bool" where
  "v2_neq v rhs \<longleftrightarrow> \<not> ((d_x v = d_x rhs) \<and> (d_y v = d_y rhs))"

text \<open>The assigning operators of the three types: the value of \<open>*this\<close> afterwards.\<close>

definition v2_add_assign :: "Vector2 \<Rightarrow> Vector2 \<Rightarrow> Vector2" where "v2_add_assign this rhs = v2_add this rhs"
definition v2_sub_assign :: "Vector2 \<Rightarrow> Vector2 \<Rightarrow> Vector2" where "v2_sub_assign this rhs = v2_sub this rhs"

definition v3_add_assign :: "Vector3 \<Rightarrow> Vector3 \<Rightarrow> Vector3" where
  "v3_add_assign this rhs = (let v = addps (GetVectorType this) (GetVectorType rhs) in this\<lparr>v_x := lane0 v, v_y := lane1 v, v_z := lane2 v\<rparr>)"

definition v3_sub_assign :: "Vector3 \<Rightarrow> Vector3 \<Rightarrow> Vector3" where
  "v3_sub_assign this rhs = (let v = subps (GetVectorType this) (GetVectorType rhs) in this\<lparr>v_x := lane0 v, v_y := lane1 v, v_z := lane2 v\<rparr>)"

definition v3_neq :: "Vector3 \<Rightarrow> Vector3 \<Rightarrow> bool" where
  "v3_neq v rhs \<longleftrightarrow> \<not> v3_eq v rhs"

definition v4_add :: "Vector4 \<Rightarrow> Vector4 \<Rightarrow> Vector4" where
  "v4_add v rhs = \<lparr>q_x = q_x v + q_x rhs, q_y = q_y v + q_y rhs, q_z = q_z v + q_z rhs, q_w = q_w v + q_w rhs\<rparr>"

definition v4_sub :: "Vector4 \<Rightarrow> Vector4 \<Rightarrow> Vector4" where
  "v4_sub v rhs = \<lparr>q_x = q_x v - q_x rhs, q_y = q_y v - q_y rhs, q_z = q_z v - q_z rhs, q_w = q_w v - q_w rhs\<rparr>"

definition v4_mul :: "Vector4 \<Rightarrow> Vector4 \<Rightarrow> real" where
  "v4_mul v rhs = (let a = \<lparr>q_x = q_x v * q_x rhs, q_y = q_y v * q_y rhs, q_z = q_z v * q_z rhs, q_w = q_w v * q_w rhs\<rparr>
    in q_x a + q_y a + q_z a + q_w a)"

definition v4_div :: "Vector4 \<Rightarrow> Vector4 \<Rightarrow> Vector4" where
  "v4_div v rhs = \<lparr>q_x = q_x v / q_x rhs, q_y = q_y v / q_y rhs, q_z = q_z v / q_z rhs, q_w = q_w v / q_w rhs\<rparr>"

definition v4_add_assign :: "Vector4 \<Rightarrow> Vector4 \<Rightarrow> Vector4" where "v4_add_assign this rhs = v4_add this rhs"
definition v4_sub_assign :: "Vector4 \<Rightarrow> Vector4 \<Rightarrow> Vector4" where "v4_sub_assign this rhs = v4_sub this rhs"

definition v4_eq :: "Vector4 \<Rightarrow> Vector4 \<Rightarrow> bool" where
  "v4_eq v rhs \<longleftrightarrow> q_x v = q_x rhs \<and> q_y v = q_y rhs \<and> q_z v = q_z rhs \<and> q_w v = q_w rhs"

definition v4_neq :: "Vector4 \<Rightarrow> Vector4 \<Rightarrow> bool" where
  "v4_neq v rhs \<longleftrightarrow> \<not> (q_x v = q_x rhs \<and> q_y v = q_y rhs \<and> q_z v = q_z rhs \<and> q_w v = q_w rhs)"

text \<open>The cross product of integer vectors.\<close>

definition Cross_int :: "bool \<Rightarrow> s32 list \<Rightarrow> s32 \<times> s32 \<times> s32 \<Rightarrow> s32 \<times> s32 \<times> s32 \<Rightarrow> (s32 \<times> s32 \<times> s32) outcome" where
  "Cross_int ct junk v rhs =
    (case (v, rhs) of ((x, y, z), (x', y', z')) \<Rightarrow>
     let this_vec = of_lane_list [x, y, z, 0]; rhs_vec = of_lane_list [x', y', z', 0];
         a = pshufd ct junk this_vec (of_nat (ShuffleToOrder 1 2 0 3));
         b = pshufd ct junk rhs_vec (of_nat (ShuffleToOrder 2 0 1 3)) in
     and_then (pmuld a rhs_vec) (\<lambda>c.
     and_then (pmuld a b) (\<lambda>d.
     let e = pshufd ct junk c (of_nat (ShuffleToOrder 1 2 0 3)) in
     and_then (psubd d e) (\<lambda>r. Inr (get_lane r 0, get_lane r 1, get_lane r 2)))))"

section \<open>Operators of the matrix types\<close>

definition m33_add :: "Matrix33 \<Rightarrow> Matrix33 \<Rightarrow> Matrix33" where
  "m33_add m rhs = \<lparr>m_r1 = v3_add (m_r1 m) (m_r1 rhs), m_r2 = v3_add (m_r2 m) (m_r2 rhs), m_r3 = v3_add (m_r3 m) (m_r3 rhs)\<rparr>"

definition m33_sub :: "Matrix33 \<Rightarrow> Matrix33 \<Rightarrow> Matrix33" where
  "m33_sub m rhs = \<lparr>m_r1 = v3_sub (m_r1 m) (m_r1 rhs), m_r2 = v3_sub (m_r2 m) (m_r2 rhs), m_r3 = v3_sub (m_r3 m) (m_r3 rhs)\<rparr>"

definition ZeroMatrix34 :: Matrix34 where
  "ZeroMatrix34 = \<lparr>m_row1 = \<lparr>q_x = 0, q_y = 0, q_z = 0, q_w = 0\<rparr>, m_row2 = \<lparr>q_x = 0, q_y = 0, q_z = 0, q_w = 0\<rparr>,
    m_row3 = \<lparr>q_x = 0, q_y = 0, q_z = 0, q_w = 0\<rparr>\<rparr>"

fun set_entry :: "nat \<Rightarrow> real \<Rightarrow> Vector4 \<Rightarrow> Vector4" where
  "set_entry index a r = (if index = 0 then r\<lparr>q_x := a\<rparr> else if index = 1 then r\<lparr>q_y := a\<rparr> else if index = 2 then r\<lparr>q_z := a\<rparr> else r\<lparr>q_w := a\<rparr>)"

definition SetColumn :: "nat \<Rightarrow> Vector3 \<Rightarrow> Matrix34 \<Rightarrow> Matrix34 outcome" where
  "SetColumn index col_vec3 m =
    (if 4 \<le> index then Inl OutOfBounds
     else Inr \<lparr>m_row1 = set_entry index (v_x col_vec3) (m_row1 m), m_row2 = set_entry index (v_y col_vec3) (m_row2 m),
       m_row3 = set_entry index (v_z col_vec3) (m_row3 m)\<rparr>)"

definition SetRow :: "nat \<Rightarrow> Vector4 \<Rightarrow> Matrix34 \<Rightarrow> Matrix34 outcome" where
  "SetRow index row_vec4 m =
    (if index = 0 then Inr (m\<lparr>m_row1 := row_vec4\<rparr>) else if index = 1 then Inr (m\<lparr>m_row2 := row_vec4\<rparr>)
     else if index = 2 then Inr (m\<lparr>m_row3 := row_vec4\<rparr>) else Inl OutOfBounds)"

text \<open>
  The product of integers returns the difference: the cross product of the first two axes is not the third one.
\<close>

theorem integer_cross_wrong:
  "pmuld a b = psubd a b \<and> Cross_int ct junk (1, 0, 0) (0, 1, 0) = Inr (1, - 1, 0)"
proof
  have p: "pshufd ct junk u m = pshufd False junk u m" for u m using integer_bodies_agree by (cases ct) auto
  have "Cross_int False junk (1, 0, 0) (0, 1, 0) = Inr (1, - 1, 0)"
    by (simp add: Cross_int_def pshufd_def) code_simp
  then show "Cross_int ct junk (1, 0, 0) (0, 1, 0) = Inr (1, - 1, 0)" by (simp add: Cross_int_def p)
qed (simp add: pmuld_def psubd_def)

text \<open>The scalar product of the float vectors: symmetric, linear in its sums, and with a vector itself zero only for the zero vector; a column
  that was set is what the camera's translation reads back.\<close>

theorem vector_operators:
  "v4_mul a b = v4_mul b a \<and> v4_mul (v4_add a c) b = v4_mul a b + v4_mul c b \<and> v4_mul (v4_sub a c) b = v4_mul a b - v4_mul c b \<and>
   (v4_mul a a = 0 \<longleftrightarrow> v4_eq a \<lparr>q_x = 0, q_y = 0, q_z = 0, q_w = 0\<rparr>) \<and>
   v4_sub_assign (v4_add_assign a c) c = a \<and> v2_sub_assign (v2_add_assign p q) q = p \<and> v3_sub_assign (v3_add_assign u w) w = u"
proof -
  have z: "a * a + b * b + c * c + d * d = 0 \<longleftrightarrow> a = 0 \<and> b = 0 \<and> c = 0 \<and> d = 0" for a b c d :: real
  proof
    assume s: "a * a + b * b + c * c + d * d = 0"
    have "0 \<le> a * a" "0 \<le> b * b" "0 \<le> c * c" "0 \<le> d * d" by simp_all
    then have "a * a = 0" "b * b = 0" "c * c = 0" "d * d = 0" using s by linarith+
    then show "a = 0 \<and> b = 0 \<and> c = 0 \<and> d = 0" by simp
  qed simp
  have "v4_mul a a = 0 \<longleftrightarrow> v4_eq a \<lparr>q_x = 0, q_y = 0, q_z = 0, q_w = 0\<rparr>" by (simp add: v4_mul_def v4_eq_def z)
  moreover have "v4_mul a b = v4_mul b a \<and> v4_mul (v4_add a c) b = v4_mul a b + v4_mul c b \<and> v4_mul (v4_sub a c) b = v4_mul a b - v4_mul c b"
    by (simp add: v4_mul_def v4_add_def v4_sub_def algebra_simps)
  ultimately show ?thesis
    by (simp add: v4_add_def v4_sub_def v4_add_assign_def v4_sub_assign_def v2_add_assign_def v2_sub_assign_def
        v2_add_def v2_sub_def v3_add_assign_def v3_sub_assign_def addps_def subps_def GetVectorType_def)
qed

section \<open>Constants\<close>

definition Float2Pi :: real where "Float2Pi = 6.2831855"
definition FloatPiDivided2 :: real where "FloatPiDivided2 = 1.5707964"
definition Float3PiDivided2 :: real where "Float3PiDivided2 = 4.712389"
definition Float1Divided2Pi :: real where "Float1Divided2Pi = 0.15915494"
definition FloatDegree180 :: real where "FloatDegree180 = 180"

definition TRadians :: "real \<Rightarrow> real" where "TRadians Degrees = Degrees * FloatPi / FloatDegree180"
definition TDegrees :: "real \<Rightarrow> real" where "TDegrees Radians = Radians * FloatDegree180 / FloatPi"
definition ToRadians :: "real \<Rightarrow> real" where "ToRadians degrees = degrees * (FloatPi / FloatDegree180)"
definition ToDegrees :: "real \<Rightarrow> real" where "ToDegrees radians = radians * (FloatDegree180 / FloatPi)"

fun TPow :: "real \<Rightarrow> nat \<Rightarrow> real" where
  "TPow V 0 = 1"
| "TPow V (Suc N) = V * TPow V N"

fun TFactorial :: "nat \<Rightarrow> real" where
  "TFactorial 0 = 1"
| "TFactorial (Suc V) = real (Suc V) * TFactorial V"

definition TSin :: "real \<Rightarrow> real" where
  "TSin V = V - (TPow V 3 / TFactorial 3) + (TPow V 5 / TFactorial 5) - (TPow V 7 / TFactorial 7) + (TPow V 9 / TFactorial 9) -
    (TPow V 11 / TFactorial 11) + (TPow V 13 / TFactorial 13) - (TPow V 15 / TFactorial 15)"

definition TCos :: "real \<Rightarrow> real" where
  "TCos V = 1 - (TPow V 2 / TFactorial 2) + (TPow V 4 / TFactorial 4) - (TPow V 6 / TFactorial 6) + (TPow V 8 / TFactorial 8) -
    (TPow V 10 / TFactorial 10) + (TPow V 12 / TFactorial 12) - (TPow V 14 / TFactorial 14)"

definition SinCoefficients :: "real list" where "SinCoefficients = map (\<lambda>n. TPow 1 n / TFactorial n) [3, 5, 7, 9, 11]"
definition CosCoefficients :: "real list" where "CosCoefficients = map (\<lambda>n. TPow 1 n / TFactorial n) [2, 4, 6, 8, 10]"

definition AngleIndexQuarterRound :: u32 where "AngleIndexQuarterRound = 0x40000000"
definition AngleIndexThreeQuarterRound :: u32 where "AngleIndexThreeQuarterRound = 0xC0000000"

definition GetSinPeriodStep :: "int \<Rightarrow> int \<Rightarrow> real outcome" where
  "GetSinPeriodStep t mx = SampleSin ((real (unat AngleIndexHalfRound) / FloatPi) * ((of_int t * Float2Pi) / of_int mx))"

definition GetCosPeriodStep :: "int \<Rightarrow> int \<Rightarrow> real outcome" where
  "GetCosPeriodStep t mx = SampleCos ((real (unat AngleIndexHalfRound) / FloatPi) * ((of_int t * Float2Pi) / of_int mx))"

lemma TPow_eq: "TPow V n = V ^ n" and TFactorial_eq: "TFactorial n = fact n"
  by (induction n) simp_all

lemma sum_upto_17: "(\<Sum>m<17. f m) = f 0 + f 1 + f 2 + f 3 + f 4 + f 5 + f 6 + f 7 + f 8 + f 9 + f 10 + f 11 + f 12 + f 13 + f 14 + f 15 + f (16::nat)"
  for f :: "nat \<Rightarrow> real"
  by (simp add: eval_nat_numeral)

lemma sum_upto_16: "(\<Sum>m<16. f m) = f 0 + f 1 + f 2 + f 3 + f 4 + f 5 + f 6 + f 7 + f 8 + f 9 + f 10 + f 11 + f 12 + f 13 + f 14 + f (15::nat)"
  for f :: "nat \<Rightarrow> real"
  by (simp add: eval_nat_numeral)

text \<open>The compile-time sine and cosine are within the first term that is left out of the series.\<close>

theorem TSin_close: "\<bar>sin v - TSin v\<bar> \<le> \<bar>v\<bar> ^ 17 / fact 17 \<and> \<bar>cos v - TCos v\<bar> \<le> \<bar>v\<bar> ^ 16 / fact 16"
proof
  have s: "(\<Sum>m<17. sin_coeff m * v ^ m) = TSin v"
    unfolding sum_upto_17 by (simp add: TSin_def TPow_eq TFactorial_eq sin_coeff_def)
  show "\<bar>sin v - TSin v\<bar> \<le> \<bar>v\<bar> ^ 17 / fact 17"
    using Maclaurin_sin_bound [of v 17] unfolding s by (simp add: divide_inverse mult.commute)
  have c: "(\<Sum>m<16. cos_coeff m * v ^ m) = TCos v"
    unfolding sum_upto_16 by (simp add: TCos_def TPow_eq TFactorial_eq cos_coeff_def)
  obtain t where t: "cos v = TCos v + (cos (t + 1/2 * real 16 * pi) / fact 16) * v ^ 16"
    using Maclaurin_cos_expansion [of v 16] unfolding c by blast
  have "\<bar>cos v - TCos v\<bar> = \<bar>cos (t + 1/2 * real 16 * pi)\<bar> * (\<bar>v\<bar> ^ 16 / fact 16)"
    unfolding t by (simp add: abs_mult power_abs)
  also have "\<dots> \<le> 1 * (\<bar>v\<bar> ^ 16 / fact 16)" by (intro mult_right_mono) simp_all
  finally show "\<bar>cos v - TCos v\<bar> \<le> \<bar>v\<bar> ^ 16 / fact 16" by simp
qed

text \<open>Degrees to radians and back, and the samples of a period: defined for every step of a period that is not negative.\<close>

theorem degrees_roundtrip: "ToDegrees (ToRadians d) = d \<and> TDegrees (TRadians d) = d \<and> TRadians d = ToRadians d"
  by (simp add: ToDegrees_def ToRadians_def TDegrees_def TRadians_def FloatPi_def FloatDegree180_def)

theorem period_steps_defined:
  assumes "0 \<le> t" and "t \<le> mx" and "0 < mx"
  shows "\<exists>sn cs. GetSinPeriodStep t mx = Inr sn \<and> GetCosPeriodStep t mx = Inr cs"
proof -
  let ?v = "(real (unat AngleIndexHalfRound) / FloatPi) * ((of_int t * Float2Pi) / of_int mx)"
  have q: "of_int t / of_int mx \<le> (1 :: real)" "0 \<le> of_int t / (of_int mx :: real)" using assms by simp_all
  have e: "?v = (real (unat AngleIndexHalfRound) / FloatPi * Float2Pi) * (of_int t / of_int mx)" by simp
  have "?v \<le> (real (unat AngleIndexHalfRound) / FloatPi * Float2Pi) * 1"
    unfolding e using q by (intro mult_left_mono) (simp_all add: FloatPi_def Float2Pi_def AngleIndexHalfRound_def)
  also have "\<dots> < 2 ^ 64" by (simp add: AngleIndexHalfRound_def FloatPi_def Float2Pi_def)
  finally have "?v < 2 ^ 64" .
  moreover have "0 \<le> ?v" unfolding e using q by (intro mult_nonneg_nonneg) (simp_all add: FloatPi_def Float2Pi_def AngleIndexHalfRound_def)
  ultimately obtain a where "angle_index ?v = Inr a" by (simp add: angle_index_def)
  then show ?thesis by (simp add: GetSinPeriodStep_def GetCosPeriodStep_def SampleSin_def SampleCos_def Let_def)
qed

end
