(* ===== verification/Learn_Program.thy ===== *)
theory Learn_Program
  imports Vector_Ops Raw_Input Vk_Display Vk_Context Vk_Draw_Resources
begin

text \<open>
  The test program: \<open>src/test_program1/source/learn/learn_hello.cpp\<close> and \<open>main.cpp\<close>. It makes a shader, two memory pools, three buffers, two textures with
  views, a sampler and two descriptor pools, draws ten cubes a frame, moves a camera by mouse and keyboard, and takes everything down
  again. It is a client of the Vulkan layer, the vector library and the input module, and is translated on top of their models.

  What comes from outside is an argument: the files and images that are loaded, the addresses of new memory, the size of the window, the time
  of a frame, the state of the devices. Objects with static storage start zeroed. \<open>LoadFile\<close>, \<open>LoadStbImage\<close> and \<open>FreeStbImage\<close> are declared in the
  library but defined nowhere in the repository; members of \<open>Context\<close> that the program calls for the window are commented out there.
\<close>

section \<open>Enumerants\<close>

definition VK_BUFFER_USAGE_UNIFORM_BUFFER_BIT :: u32 where "VK_BUFFER_USAGE_UNIFORM_BUFFER_BIT = 0x10"
definition VK_BUFFER_USAGE_INDEX_BUFFER_BIT :: u32 where "VK_BUFFER_USAGE_INDEX_BUFFER_BIT = 0x40"
definition VK_BUFFER_USAGE_VERTEX_BUFFER_BIT :: u32 where "VK_BUFFER_USAGE_VERTEX_BUFFER_BIT = 0x80"
definition VK_IMAGE_USAGE_SAMPLED_BIT :: u16 where "VK_IMAGE_USAGE_SAMPLED_BIT = 4"
definition VK_FORMAT_R8G8B8A8_UNORM :: u32 where "VK_FORMAT_R8G8B8A8_UNORM = 37"
definition VK_FORMAT_R32G32_SFLOAT :: u32 where "VK_FORMAT_R32G32_SFLOAT = 103"
definition VK_FORMAT_R32G32B32_SFLOAT :: u32 where "VK_FORMAT_R32G32B32_SFLOAT = 106"
definition VK_IMAGE_LAYOUT_SHADER_READ_ONLY_OPTIMAL :: u32 where "VK_IMAGE_LAYOUT_SHADER_READ_ONLY_OPTIMAL = 5"
definition VK_IMAGE_LAYOUT_PRESENT_SRC_KHR :: u32 where "VK_IMAGE_LAYOUT_PRESENT_SRC_KHR = 1000001002"
definition VK_PIPELINE_STAGE_ALL_GRAPHICS_BIT :: u64 where "VK_PIPELINE_STAGE_ALL_GRAPHICS_BIT = 0x8000"
definition VK_PRIMITIVE_TOPOLOGY_TRIANGLE_LIST :: u32 where "VK_PRIMITIVE_TOPOLOGY_TRIANGLE_LIST = 3"

section \<open>Data\<close>

text \<open>A face of the cube is six vertices of a position and texture coordinates.\<close>

definition vertices :: "real list" where
  "vertices = concat [
    [- 0.5, - 0.5, - 0.5, 0, 0], [0.5, - 0.5, - 0.5, 1, 0], [0.5, 0.5, - 0.5, 1, 1],
    [0.5, 0.5, - 0.5, 1, 1], [- 0.5, 0.5, - 0.5, 0, 1], [- 0.5, - 0.5, - 0.5, 0, 0],
    [- 0.5, - 0.5, 0.5, 0, 0], [0.5, - 0.5, 0.5, 1, 0], [0.5, 0.5, 0.5, 1, 1],
    [0.5, 0.5, 0.5, 1, 1], [- 0.5, 0.5, 0.5, 0, 1], [- 0.5, - 0.5, 0.5, 0, 0],
    [- 0.5, 0.5, 0.5, 1, 0], [- 0.5, 0.5, - 0.5, 1, 1], [- 0.5, - 0.5, - 0.5, 0, 1],
    [- 0.5, - 0.5, - 0.5, 0, 1], [- 0.5, - 0.5, 0.5, 0, 0], [- 0.5, 0.5, 0.5, 1, 0],
    [0.5, 0.5, 0.5, 1, 0], [0.5, 0.5, - 0.5, 1, 1], [0.5, - 0.5, - 0.5, 0, 1],
    [0.5, - 0.5, - 0.5, 0, 1], [0.5, - 0.5, 0.5, 0, 0], [0.5, 0.5, 0.5, 1, 0],
    [- 0.5, - 0.5, - 0.5, 0, 1], [0.5, - 0.5, - 0.5, 1, 1], [0.5, - 0.5, 0.5, 1, 0],
    [0.5, - 0.5, 0.5, 1, 0], [- 0.5, - 0.5, 0.5, 0, 0], [- 0.5, - 0.5, - 0.5, 0, 1],
    [- 0.5, 0.5, - 0.5, 0, 1], [0.5, 0.5, - 0.5, 1, 1], [0.5, 0.5, 0.5, 1, 0],
    [0.5, 0.5, 0.5, 1, 0], [- 0.5, 0.5, 0.5, 0, 0], [- 0.5, 0.5, - 0.5, 0, 1]]"

definition sizeof_vertices :: u64 where "sizeof_vertices = of_nat (4 * length vertices)"

definition VerticeCount :: u32 where "VerticeCount = of_nat (4 * length vertices div (4 * 5))"

definition VerticeStride :: u32 where "VerticeStride = of_nat (4 * length vertices div (4 * length vertices div (4 * 5)))"

definition indices :: "u32 list" where "indices = [0, 1, 3, 1, 2, 3]"

definition sizeof_indices :: u64 where "sizeof_indices = of_nat (4 * length indices)"

definition CubePositions :: "Vector3 list" where
  "CubePositions = [Vector3Type 0 0 0, Vector3Type 2 5 (- 15), Vector3Type (- 1.5) (- 2.2) (- 2.5), Vector3Type (- 3.8) (- 2) (- 12.3),
    Vector3Type 2.4 (- 0.4) (- 3.5), Vector3Type (- 1.7) 3 (- 7.5), Vector3Type 1.3 (- 2) (- 2.5), Vector3Type 1.5 2 (- 2.5),
    Vector3Type 1.5 0.2 (- 1.5), Vector3Type (- 1.3) 1 (- 1.5)]"

definition CubeCount :: nat where "CubeCount = length CubePositions"

record ViewArg =
  va_model_matrix :: Matrix34
  va_view_matrix :: Matrix34
  va_projection_matrix :: Matrix44

definition sizeof_ViewArg :: nat where "sizeof_ViewArg = 48 + 48 + 64"

definition UniformBufferSize :: u32 where "UniformBufferSize = of_nat (sizeof_ViewArg * CubeCount)"

definition vk_input_binding_description :: "vertex_binding list" where
  "vk_input_binding_description = [(0, VerticeStride, 0, 1)]"

definition vk_attribute_descriptions :: "vertex_attribute list" where
  "vk_attribute_descriptions = [(0, 0, VK_FORMAT_R32G32B32_SFLOAT, 0), (1, 0, VK_FORMAT_R32G32_SFLOAT, 4 * 3)]"

section \<open>State\<close>

text \<open>Memory of the host: its size, and what was copied to which offset.\<close>

datatype host_data = VertexData "real list" | IndexData "u32 list" | ViewData "ViewArg list" | ImageData u64

record host_block =
  hb_size :: u64
  hb_data :: "(u64 \<times> u64 \<times> host_data) list"

definition memcpy :: "u64 \<Rightarrow> u64 \<Rightarrow> host_data \<Rightarrow> host_block \<Rightarrow> host_block outcome" where
  "memcpy offset n x b = (if unat offset + unat n \<le> unat (hb_size b) then Inr (b\<lparr>hb_data := hb_data b @ [(offset, n, x)]\<rparr>) else Inl OutOfBounds)"

text \<open>
  The objects at namespace scope. Pools, buffers and textures are passed by pointer: they are in the \<open>cmd_world\<close> at the addresses of a \<open>learn_addresses\<close>.
  \<open>mapped_view_args\<close> is what the program has written to the uniform buffer while it was mapped.
\<close>

record learn_addresses =
  a_buffer_memory :: u64
  a_image_memory :: u64
  a_vertex_buffer :: u64
  a_index_buffer :: u64
  a_uniform_buffer :: u64
  a_texture0 :: u64
  a_texture1 :: u64

record learn =
  vk_shader :: shader
  vk_pipeline_cmd_state :: PipelineCmdState
  vk_texture_descriptor_pool :: descriptor_pool
  vk_sampler_descriptor_pool :: descriptor_pool
  vk_sampler :: u64
  vk_texture_view0 :: texture_view
  vk_texture_view1 :: texture_view
  texture_view0_slot :: u32
  texture_view1_slot :: u32
  sampler_slot :: u32
  camera :: LookAtCamera
  perspective_projection :: PerspectiveProjection
  yaw :: real
  pitch :: real
  memory_buffer :: u64
  memory_image :: u64
  buffer_block :: host_block
  image_block :: host_block
  mapped_view_args :: "ViewArg list"

type_synonym program = "learn \<times> cmd_world"

definition model_matrix :: Matrix34 where "model_matrix = IdentityMatrix34"

definition initial_camera :: LookAtCamera where
  "initial_camera = \<lparr>m_camera_mtx = ZeroMatrix34, m_pos = Vector3Type 0 0 3, m_at = Vector3Type 0 0 0, m_up = Vector3Type 0 1 0\<rparr>"

definition ZeroMatrix44 :: Matrix44 where
  "ZeroMatrix44 = (let z = \<lparr>q_x = 0, q_y = 0, q_z = 0, q_w = 0\<rparr> in \<lparr>p_row1 = z, p_row2 = z, p_row3 = z, p_row4 = z\<rparr>)"

definition initial_projection :: PerspectiveProjection where
  "initial_projection = PerspectiveProjection ZeroMatrix44 0.1 100 (TRadians 45) (1280 / 720)"

section \<open>Setting up\<close>

definition set_calls :: "vk_log \<Rightarrow> cmd_world \<Rightarrow> cmd_world" where "set_calls g w = w\<lparr>calls := g\<rparr>"

text \<open>\<open>LoadFile\<close> gives the size of a file and the address of its contents.\<close>

definition setup_shader :: "vk_driver \<Rightarrow> vk_context \<Rightarrow> u32 \<times> u64 \<Rightarrow> u32 \<times> u64 \<Rightarrow> program \<Rightarrow> program outcome" where
  "setup_shader drv context vertex_file fragment_file s =
    (case s of (l, w) \<Rightarrow>
     let shader_info = \<lparr>color_attachment_count = 1, vertex_code = (ucast (fst vertex_file), snd vertex_file), tessellation_control_code = (0, 0),
       tessellation_evaluation_code = (0, 0), geometry_code = (0, 0), fragment_code = (ucast (fst fragment_file), snd fragment_file)\<rparr> in
     and_then (Shader_Initialize_primitive drv context shader_info Shader_new (calls w)) (\<lambda>(sh, g).
     Inr (l\<lparr>vk_shader := sh\<rparr>, set_calls g w)))"

record image_file =
  image_pixels :: u64
  image_width :: int
  image_height :: int
  image_channels :: int

record setup_layout =
  vertex_buffer_info :: BufferInfo
  index_buffer_info :: BufferInfo
  uniform_buffer_info :: BufferInfo
  texture0_info :: TextureInfo
  texture1_info :: TextureInfo
  texture0_size :: int
  texture1_size :: int
  buffer_memory_size :: u64
  image_memory_size :: u64

definition learn_texture_info :: "image_file \<Rightarrow> TextureInfo" where
  "learn_texture_info f = \<lparr>vk_create_flags = 0, vk_usage_flags = VK_IMAGE_USAGE_SAMPLED_BIT, ti_mip_levels = 1, ti_width = word_of_int (image_width f),
    ti_height = word_of_int (image_height f), ti_depth = 1, ti_vk_format = VK_FORMAT_R8G8B8A8_UNORM, ti_vk_image_layout = VK_IMAGE_LAYOUT_UNDEFINED,
    vk_image_type = 1, vk_sample_count_flag = 1, vk_tiling = 1, array_layers = 1, memory_offset = 0\<rparr>"

text \<open>The sizes of the images are products of \<open>int\<close>s; the offset of the second one is stored in 32 bits.\<close>

definition plan_memory :: "vk_driver \<Rightarrow> vk_context \<Rightarrow> image_file \<Rightarrow> image_file \<Rightarrow> vk_log \<Rightarrow> (setup_layout \<times> vk_log) outcome" where
  "plan_memory drv context image0 image1 g =
    and_then (s32_val (image_width image0 * image_height image0)) (\<lambda>n. and_then (s32_val (n * 4)) (\<lambda>size0.
    and_then (s32_val (image_width image1 * image_height image1)) (\<lambda>n. and_then (s32_val (n * image_channels image1)) (\<lambda>size1.
    let vertex_info = \<lparr>bi_size = sizeof_vertices, bi_offset = 0, bi_vk_usage = VK_BUFFER_USAGE_VERTEX_BUFFER_BIT\<rparr>;
        index_info = \<lparr>bi_size = sizeof_vertices, bi_offset = 0, bi_vk_usage = VK_BUFFER_USAGE_INDEX_BUFFER_BIT\<rparr>;
        uniform_info = \<lparr>bi_size = sizeof_vertices, bi_offset = 0, bi_vk_usage = VK_BUFFER_USAGE_UNIFORM_BUFFER_BIT\<rparr>;
        (index_alignment, g) = Buffer_GetAlignment drv context index_info g;
        index_info = index_info\<lparr>bi_offset := AlignUp sizeof_vertices index_alignment\<rparr>;
        (uniform_alignment, g) = Buffer_GetAlignment drv context uniform_info g;
        uniform_info = uniform_info\<lparr>bi_offset := AlignUp (bi_offset index_info + sizeof_indices) uniform_alignment\<rparr>;
        info1 = learn_texture_info image1;
        (texture_alignment, g) = GetRequiredMemoryAlignment drv context info1 g;
        info1 = info1\<lparr>memory_offset := ucast (AlignUp (word_of_int size0) texture_alignment)\<rparr> in
    Inr (\<lparr>vertex_buffer_info = vertex_info, index_buffer_info = index_info, uniform_buffer_info = uniform_info,
      texture0_info = learn_texture_info image0, texture1_info = info1, texture0_size = size0, texture1_size = size1,
      buffer_memory_size = AlignUp (bi_offset uniform_info + ucast UniformBufferSize) TargetMemoryPoolAlignment,
      image_memory_size = AlignUp (ucast (memory_offset info1) + word_of_int size1) TargetMemoryPoolAlignment\<rparr>, g)))))"

text \<open>The matrices of the cubes. The code of \<open>SetupTriangle\<close> leaves each model matrix where it is; \<open>DrawTriangle\<close> moves it to its place (\<open>place\<close>) first.\<close>

definition make_view_arg :: "(Matrix34 \<Rightarrow> Matrix34 outcome) \<Rightarrow> nat \<Rightarrow> LookAtCamera \<Rightarrow> PerspectiveProjection \<Rightarrow> (ViewArg \<times> PerspectiveProjection) outcome" where
  "make_view_arg place i cam pp =
    (let (projection, pp) = GetProjectionMatrix pp; rot_angle = 20 * real i in
     and_then (place model_matrix) (\<lambda>m.
     and_then (RotateLocalX m rot_angle) (\<lambda>m.
     and_then (RotateLocalY m (0.3 * rot_angle)) (\<lambda>m.
     and_then (RotateLocalZ m (0.5 * rot_angle)) (\<lambda>m.
     Inr (\<lparr>va_model_matrix = m, va_view_matrix = m_camera_mtx cam, va_projection_matrix = projection\<rparr>, pp))))))"

fun view_arg_loop :: "(nat \<Rightarrow> Matrix34 \<Rightarrow> Matrix34 outcome) \<Rightarrow> nat list \<Rightarrow> LookAtCamera \<Rightarrow> PerspectiveProjection \<Rightarrow> (ViewArg list \<times> PerspectiveProjection) outcome" where
  "view_arg_loop place [] cam pp = Inr ([], pp)"
| "view_arg_loop place (i # is) cam pp =
    and_then (make_view_arg (place i) i cam pp) (\<lambda>(v, pp). and_then (view_arg_loop place is cam pp) (\<lambda>(vs, pp). Inr (v # vs, pp)))"

definition fill_memory :: "setup_layout \<Rightarrow> image_file \<Rightarrow> image_file \<Rightarrow> u64 \<Rightarrow> u64 \<Rightarrow> learn \<Rightarrow> learn outcome" where
  "fill_memory y image0 image1 new_buffer new_image l =
    and_then (dd_assert (new_buffer \<noteq> 0) ()) (\<lambda>_.
    and_then (dd_assert (new_image \<noteq> 0) ()) (\<lambda>_.
    and_then (memcpy 0 sizeof_vertices (VertexData vertices) \<lparr>hb_size = buffer_memory_size y, hb_data = []\<rparr>) (\<lambda>b.
    and_then (memcpy (bi_offset (index_buffer_info y)) sizeof_indices (IndexData indices) b) (\<lambda>b.
    and_then (view_arg_loop (\<lambda>i. Inr) [0..<CubeCount] (camera l) (perspective_projection l)) (\<lambda>(view_arg, pp).
    and_then (memcpy (bi_offset (uniform_buffer_info y)) (of_nat (sizeof_ViewArg * CubeCount)) (ViewData view_arg) b) (\<lambda>b.
    and_then (memcpy 0 (word_of_int (texture0_size y)) (ImageData (image_pixels image0)) \<lparr>hb_size = image_memory_size y, hb_data = []\<rparr>) (\<lambda>m.
    and_then (memcpy (ucast (memory_offset (texture1_info y))) (word_of_int (texture1_size y)) (ImageData (image_pixels image1)) m) (\<lambda>m.
    Inr (l\<lparr>memory_buffer := new_buffer, memory_image := new_image, buffer_block := b, image_block := m, perspective_projection := pp\<rparr>)))))))))"

definition set_pool :: "u64 \<Rightarrow> memory_pool \<times> vk_log \<Rightarrow> cmd_world \<Rightarrow> cmd_world" where
  "set_pool a r w = w\<lparr>pools := (pools w)(a := fst r), calls := snd r\<rparr>"

definition set_buffer :: "u64 \<Rightarrow> vk_buffer \<times> vk_log \<Rightarrow> cmd_world \<Rightarrow> cmd_world" where
  "set_buffer a r w = w\<lparr>buffers := (buffers w)(a := fst r), calls := snd r\<rparr>"

definition set_texture :: "u64 \<Rightarrow> texture \<times> vk_log \<Rightarrow> cmd_world \<Rightarrow> cmd_world" where
  "set_texture a r w = w\<lparr>textures := (textures w)(a := fst r), calls := snd r\<rparr>"

definition setup_pools :: "vk_driver \<Rightarrow> vk_context \<Rightarrow> learn_addresses \<Rightarrow> setup_layout \<Rightarrow> program \<Rightarrow> program outcome" where
  "setup_pools drv context A y s =
    (case s of (l, w) \<Rightarrow>
     and_then (MemoryPool_Initialize drv context \<lparr>pool_size = buffer_memory_size y, vk_memory_property_flags = VK_MEMORY_PROPERTY_DEVICE_LOCAL_BIT OR
         VK_MEMORY_PROPERTY_HOST_VISIBLE_BIT OR VK_MEMORY_PROPERTY_HOST_COHERENT_BIT, import_memory = memory_buffer l\<rparr> (pools w (a_buffer_memory A)) (calls w)) (\<lambda>r.
     let w = set_pool (a_buffer_memory A) r w in
     and_then (MemoryPool_Initialize drv context \<lparr>pool_size = image_memory_size y, vk_memory_property_flags = VK_MEMORY_PROPERTY_DEVICE_LOCAL_BIT,
         import_memory = memory_image l\<rparr> (pools w (a_image_memory A)) (calls w)) (\<lambda>r.
     Inr (l, set_pool (a_image_memory A) r w))))"

definition setup_buffer :: "vk_driver \<Rightarrow> vk_context \<Rightarrow> learn_addresses \<Rightarrow> BufferInfo \<Rightarrow> u64 \<Rightarrow> cmd_world \<Rightarrow> cmd_world outcome" where
  "setup_buffer drv context A info a w =
    and_then (Buffer_Initialize drv context (info, a_buffer_memory A, pools w (a_buffer_memory A)) (buffers w a) (calls w)) (\<lambda>r. Inr (set_buffer a r w))"

definition setup_texture :: "vk_driver \<Rightarrow> vk_context \<Rightarrow> learn_addresses \<Rightarrow> TextureInfo \<Rightarrow> u64 \<Rightarrow> cmd_world \<Rightarrow> cmd_world outcome" where
  "setup_texture drv context A info a w =
    and_then (Texture_Initialize drv context (info, a_image_memory A, pools w (a_image_memory A)) (textures w a) (calls w)) (\<lambda>r. Inr (set_texture a r w))"

definition setup_resources :: "vk_driver \<Rightarrow> vk_context \<Rightarrow> learn_addresses \<Rightarrow> setup_layout \<Rightarrow> program \<Rightarrow> program outcome" where
  "setup_resources drv context A y s =
    (case s of (l, w) \<Rightarrow>
     and_then (setup_buffer drv context A (vertex_buffer_info y) (a_vertex_buffer A) w) (\<lambda>w.
     and_then (setup_buffer drv context A (index_buffer_info y) (a_index_buffer A) w) (\<lambda>w.
     and_then (setup_buffer drv context A (uniform_buffer_info y) (a_uniform_buffer A) w) (\<lambda>w.
     and_then (setup_texture drv context A (texture0_info y) (a_texture0 A) w) (\<lambda>w.
     and_then (setup_texture drv context A (texture1_info y) (a_texture1 A) w) (\<lambda>w. Inr (l, w)))))))"

definition setup_views :: "vk_driver \<Rightarrow> learn_addresses \<Rightarrow> program \<Rightarrow> program outcome" where
  "setup_views drv A s =
    (case s of (l, w) \<Rightarrow>
     let view_info = TextureViewInfo_SetDefaults\<lparr>tv_vk_format := VK_FORMAT_R8G8B8A8_UNORM, tv_texture := a_texture0 A\<rparr> in
     and_then (TextureView_Initialize drv (textures w) view_info (vk_texture_view0 l) (calls w)) (\<lambda>(v0, g).
     let view_info = view_info\<lparr>tv_vk_format := VK_FORMAT_R8G8B8A8_UNORM, tv_texture := a_texture1 A\<rparr> in
     and_then (TextureView_Initialize drv (textures w) view_info (vk_texture_view1 l) g) (\<lambda>(v1, g).
     and_then (Sampler_Initialize drv SamplerInfo_SetDefaults (vk_sampler l) g) (\<lambda>(sm, g).
     Inr (l\<lparr>vk_texture_view0 := v0, vk_texture_view1 := v1, vk_sampler := sm\<rparr>, set_calls g w)))))"

definition learn_pipeline_state :: "PipelineCmdState \<Rightarrow> PipelineCmdState" where
  "learn_pipeline_state st = (PipelineCmdState_SetDefaults st)\<lparr>vertex_state := \<lparr>vertex_binding_count = 1, vertex_attribute_count = 2,
    vertex_binding_array = vk_input_binding_description, vertex_attribute_array = vk_attribute_descriptions\<rparr>\<rparr>"

definition setup_descriptors :: "vk_driver \<Rightarrow> vk_context \<Rightarrow> u32 list \<Rightarrow> program \<Rightarrow> program outcome" where
  "setup_descriptors drv context junk s =
    (case s of (l, w) \<Rightarrow>
     let l = l\<lparr>vk_pipeline_cmd_state := learn_pipeline_state (vk_pipeline_cmd_state l)\<rparr> in
     and_then (DescriptorPool_Initialize drv context (VK_DESCRIPTOR_TYPE_SAMPLED_IMAGE, 32, junk) (vk_texture_descriptor_pool l) (calls w)) (\<lambda>(tp, g).
     and_then (DescriptorPool_Initialize drv context (VK_DESCRIPTOR_TYPE_SAMPLER, 16, junk) (vk_sampler_descriptor_pool l) g) (\<lambda>(sp, g).
     and_then (RegisterSampler drv (vk_sampler l) sp g) (\<lambda>(k, sp, g).
     and_then (RegisterTexture drv (vk_texture_view0 l) tp g) (\<lambda>(v0, tp, g).
     and_then (RegisterTexture drv (vk_texture_view1 l) tp g) (\<lambda>(v1, tp, g).
     Inr (l\<lparr>vk_texture_descriptor_pool := tp, vk_sampler_descriptor_pool := sp, sampler_slot := k, texture_view0_slot := v0, texture_view1_slot := v1\<rparr>,
       set_calls g w)))))))"

record setup_files =
  vertex_file :: "u32 \<times> u64"
  fragment_file :: "u32 \<times> u64"
  image0_file :: image_file
  image1_file :: image_file
  new_buffer_memory :: u64
  new_image_memory :: u64
  new_stack_junk :: "u32 list"

definition SetupTriangle :: "vk_driver \<Rightarrow> vk_context \<Rightarrow> learn_addresses \<Rightarrow> setup_files \<Rightarrow> program \<Rightarrow> program outcome" where
  "SetupTriangle drv context A f s =
    and_then (setup_shader drv context (vertex_file f) (fragment_file f) s) (\<lambda>(l, w).
    and_then (plan_memory drv context (image0_file f) (image1_file f) (calls w)) (\<lambda>(y, g).
    and_then (fill_memory y (image0_file f) (image1_file f) (new_buffer_memory f) (new_image_memory f) l) (\<lambda>l.
    and_then (setup_pools drv context A y (l, set_calls g w)) (\<lambda>s.
    and_then (setup_resources drv context A y s) (\<lambda>s.
    and_then (setup_views drv A s) (\<lambda>s.
    setup_descriptors drv context (new_stack_junk f) s))))))"

section \<open>Moving the camera\<close>

definition VirtualKey_W :: u8 where "VirtualKey_W = 0x57"
definition VirtualKey_A :: u8 where "VirtualKey_A = 0x41"
definition VirtualKey_S :: u8 where "VirtualKey_S = 0x53"
definition VirtualKey_D :: u8 where "VirtualKey_D = 0x44"

text \<open>What a frame finds: the size of the window, the time since the last frame, the devices.\<close>

record frame_input =
  window_width :: u32
  window_height :: u32
  delta_time :: real
  mouse_state :: MouseState
  key_state :: KeyboardState

definition look_direction :: "real \<Rightarrow> real \<Rightarrow> Vector3 outcome" where
  "look_direction yw ptch =
    (let yaw_rad = AngleHalfRound (ToRadians yw); pitch_rad = AngleHalfRound (ToRadians ptch) in
     and_then (SampleCos pitch_rad) (\<lambda>cos_pitch.
     and_then (SampleCos yaw_rad) (\<lambda>cos_yaw.
     and_then (SampleSin pitch_rad) (\<lambda>sin_pitch.
     and_then (SampleSin yaw_rad) (\<lambda>sin_yaw.
     Inr (Normalize (Vector3Type (cos_yaw * cos_pitch) sin_pitch (sin_yaw * cos_pitch))))))))"

definition move_if :: "u8 \<Rightarrow> KeyboardState \<Rightarrow> (Vector3 \<Rightarrow> Vector3) \<Rightarrow> Vector3 \<Rightarrow> Vector3 outcome" where
  "move_if key ks f pos = and_then (IsKeyHeld key ks) (\<lambda>held. Inr (if held then f pos else pos))"

definition CalcTriangle :: "frame_input \<Rightarrow> learn \<Rightarrow> learn outcome" where
  "CalcTriangle x l =
    (let l = l\<lparr>perspective_projection := SetAspect (real (unat (window_width x)) / real (unat (window_height x))) (perspective_projection l)\<rparr>;
         new_pos = m_pos (camera l); up = m_up (camera l);
         speed = 2.5 * delta_time x; sensitivity = 0.1;
         l = l\<lparr>yaw := yaw l + sensitivity * of_int (delta_x (mouse_state x)), pitch := pitch l + sensitivity * of_int (delta_y (mouse_state x))\<rparr> in
     and_then (look_direction (yaw l) (pitch l)) (\<lambda>front.
     and_then (move_if VirtualKey_W (key_state x) (\<lambda>p. v3_add_assign p (v3_scale front speed)) new_pos) (\<lambda>new_pos.
     and_then (move_if VirtualKey_A (key_state x) (\<lambda>p. v3_sub_assign p (v3_scale (Normalize (Cross front up)) speed)) new_pos) (\<lambda>new_pos.
     and_then (move_if VirtualKey_S (key_state x) (\<lambda>p. v3_sub_assign p (v3_scale front speed)) new_pos) (\<lambda>new_pos.
     and_then (move_if VirtualKey_D (key_state x) (\<lambda>p. v3_add_assign p (v3_scale (Normalize (Cross front up)) speed)) new_pos) (\<lambda>new_pos.
     Inr (l\<lparr>camera := SetAt (v3_add new_pos front) (SetPos new_pos (camera l))\<rparr>)))))))"

section \<open>Drawing\<close>

definition image_barrier :: "u64 \<Rightarrow> u64 \<Rightarrow> u64 \<Rightarrow> u64 \<Rightarrow> u32 \<Rightarrow> u32 \<Rightarrow> TextureBarrierCmdState" where
  "image_barrier src_stage src_access dst_stage dst_access src_layout dst_layout =
    \<lparr>barrier_masks = \<lparr>srcStageMask = src_stage, srcAccessMask = src_access, dstStageMask = dst_stage, dstAccessMask = dst_access\<rparr>,
     vk_src_layout = src_layout, vk_dst_layout = dst_layout\<rparr>"

definition texture_barrier_state :: TextureBarrierCmdState where
  "texture_barrier_state = image_barrier VK_PIPELINE_STAGE_TRANSFER_BIT VK_ACCESS_TRANSFER_WRITE_BIT VK_PIPELINE_STAGE_ALL_GRAPHICS_BIT
    VK_ACCESS_SHADER_READ_BIT VK_IMAGE_LAYOUT_UNDEFINED VK_IMAGE_LAYOUT_SHADER_READ_ONLY_OPTIMAL"

text \<open>The matrices are written to the mapped memory of the pool of the uniform buffer, which is as large as the pool. \<open>Unmap\<close> does nothing.\<close>

definition write_uniforms :: "vk_driver \<Rightarrow> learn_addresses \<Rightarrow> learn \<times> recording \<Rightarrow> (learn \<times> recording) outcome" where
  "write_uniforms drv A s =
    (case s of (l, cb, w) \<Rightarrow>
     let l = l\<lparr>camera := UpdateCameraMatrixSelf (camera l)\<rparr> in
     and_then (view_arg_loop (\<lambda>i. SetColumn 3 (CubePositions ! i)) [0..<CubeCount] (camera l) (perspective_projection l)) (\<lambda>(view_arg, pp).
     let l = l\<lparr>perspective_projection := pp\<rparr>; b = buffers w (a_uniform_buffer A); pa = b_bound_memory_pool b in
     and_then (dd_deref pa) (\<lambda>_.
     and_then (Buffer_Map drv b (pools w pa) (calls w)) (\<lambda>(ubo_address, p, g).
     and_then (dd_assert (ubo_address \<noteq> 0) ()) (\<lambda>_.
     if unat (m_memory_offset b) + sizeof_ViewArg * CubeCount \<le> unat (m_size p)
     then Inr (l\<lparr>mapped_view_args := view_arg\<rparr>, cb, set_pool pa (p, g) w) else Inl OutOfBounds)))))"

definition transition_textures :: "vk_driver \<Rightarrow> vk_context \<Rightarrow> learn_addresses \<Rightarrow> learn \<Rightarrow> recording \<Rightarrow> recording outcome" where
  "transition_textures drv context A l s =
    (let t0 = m_parent_texture (vk_texture_view0 l); t1 = m_parent_texture (vk_texture_view1 l) in
     and_then (if m_vk_image_layout (textures (snd s) t0) = VK_IMAGE_LAYOUT_UNDEFINED then
         (case s of (cb, w) \<Rightarrow>
         and_then (RelocateHostMemoryToDevice drv context (m_vk_command_buffer cb) (pools w (a_image_memory A)) (calls w)) (\<lambda>r.
         SetTextureStateTransition drv t0 texture_barrier_state VK_IMAGE_ASPECT_COLOR_BIT (cb, set_pool (a_image_memory A) r w)))
       else Inr s) (\<lambda>s.
     if m_vk_image_layout (textures (snd s) t1) = VK_IMAGE_LAYOUT_UNDEFINED
     then SetTextureStateTransition drv t1 texture_barrier_state VK_IMAGE_ASPECT_COLOR_BIT s else Inr s))"

definition bind_and_draw :: "vk_driver \<Rightarrow> vk_context \<Rightarrow> learn_addresses \<Rightarrow> u32 \<Rightarrow> u32 \<Rightarrow> learn \<Rightarrow> recording \<Rightarrow> recording outcome" where
  "bind_and_draw drv context A width height l s =
    and_then (SetDescriptorPool drv (vk_sampler_descriptor_pool l) s) (\<lambda>s.
    and_then (SetDescriptorPool drv (vk_texture_descriptor_pool l) s) (\<lambda>s.
    let s = SetShader drv (vk_shader l) s in
    and_then (SetPipelineState drv (vk_pipeline_cmd_state l) s) (\<lambda>s.
    and_then (SetVertexBuffer drv context 0 (a_vertex_buffer A) (ucast VerticeStride) sizeof_vertices s) (\<lambda>s.
    let (address, g) = Buffer_GetGpuAddress drv (buffers (snd s) (a_uniform_buffer A)) (calls (snd s)); s = (fst s, set_calls g (snd s)) in
    and_then (SetUniformBuffer 0 ShaderStage_Vertex address s) (\<lambda>s.
    and_then (SetTextureAndSampler 0 ShaderStage_Fragment (texture_view0_slot l) (sampler_slot l) s) (\<lambda>s.
    and_then (SetTextureAndSampler 1 ShaderStage_Fragment (texture_view1_slot l) (sampler_slot l) s) (\<lambda>s.
    let s = SetViewports drv [(0, 0, real (unat width), real (unat height), 1, 0)] s;
        s = SetScissors drv [(0, 0, width, height)] s in
    DrawInstanced drv VK_PRIMITIVE_TOPOLOGY_TRIANGLE_LIST VerticeCount 0 (of_nat CubeCount) 0 s)))))))"

definition DrawTriangle :: "vk_driver \<Rightarrow> vk_context \<Rightarrow> learn_addresses \<Rightarrow> u32 \<Rightarrow> u32 \<Rightarrow> learn \<times> recording \<Rightarrow> (learn \<times> recording) outcome" where
  "DrawTriangle drv context A width height s =
    and_then (write_uniforms drv A s) (\<lambda>(l, s).
    and_then (transition_textures drv context A l s) (\<lambda>s.
    and_then (bind_and_draw drv context A width height l s) (\<lambda>s. Inr (l, s))))"

text \<open>The function \<open>Draw\<close> of \<open>main.cpp\<close>: the targets of the display buffer are at \<open>color_target\<close> and \<open>depth_stencil_target\<close>. The result
  says whether the message with the command buffer was sent to the thread that presents.\<close>

definition color_barrier_state :: TextureBarrierCmdState where
  "color_barrier_state = image_barrier VK_PIPELINE_STAGE_COLOR_ATTACHMENT_OUTPUT_BIT 0 VK_PIPELINE_STAGE_COLOR_ATTACHMENT_OUTPUT_BIT
    VK_ACCESS_COLOR_ATTACHMENT_WRITE_BIT VK_IMAGE_LAYOUT_UNDEFINED VK_IMAGE_LAYOUT_GENERAL"

definition depth_barrier_state :: TextureBarrierCmdState where
  "depth_barrier_state = image_barrier VK_PIPELINE_STAGE_EARLY_FRAGMENT_TESTS_BIT 0 VK_PIPELINE_STAGE_EARLY_FRAGMENT_TESTS_BIT
    VK_ACCESS_DEPTH_STENCIL_ATTACHMENT_WRITE_BIT VK_IMAGE_LAYOUT_UNDEFINED VK_IMAGE_LAYOUT_GENERAL"

definition present_barrier_state :: TextureBarrierCmdState where
  "present_barrier_state = image_barrier VK_PIPELINE_STAGE_COLOR_ATTACHMENT_OUTPUT_BIT VK_ACCESS_COLOR_ATTACHMENT_WRITE_BIT
    VK_PIPELINE_STAGE_BOTTOM_OF_PIPE_BIT 0 VK_IMAGE_LAYOUT_GENERAL VK_IMAGE_LAYOUT_PRESENT_SRC_KHR"

definition Draw_frame :: "vk_driver \<Rightarrow> vk_context \<Rightarrow> learn_addresses \<Rightarrow> bool \<Rightarrow> u64 \<Rightarrow> u64 \<Rightarrow> u32 \<Rightarrow> u32 \<Rightarrow> learn \<times> recording \<Rightarrow> (bool \<times> learn \<times> recording) outcome" where
  "Draw_frame drv context A skip_draw color_target depth_stencil_target width height s =
    (if skip_draw then Inr (False, s)
     else case s of (l, s) \<Rightarrow>
     and_then (dd_deref color_target) (\<lambda>_.
     and_then (dd_deref depth_stencil_target) (\<lambda>_.
     let color_target_texture = m_texture (views (snd s) color_target); depth_target_texture = m_texture (views (snd s) depth_stencil_target);
         s = RegisterFastClearColor (0, 0, 0, 1) s;
         s = RegisterFastClearDepthStencil (0, 0) s in
     and_then (CommandBuffer_Begin drv s) (\<lambda>s.
     and_then (SetTextureStateTransition drv color_target_texture color_barrier_state VK_IMAGE_ASPECT_COLOR_BIT s) (\<lambda>s.
     and_then (SetTextureStateTransition drv depth_target_texture depth_barrier_state (VK_IMAGE_ASPECT_DEPTH_BIT OR VK_IMAGE_ASPECT_STENCIL_BIT) s) (\<lambda>s.
     and_then (SetRenderTargets 1 [color_target] depth_stencil_target s) (\<lambda>s.
     and_then (DrawTriangle drv context A width height (l, s)) (\<lambda>(l, s).
     and_then (SetTextureStateTransition drv color_target_texture present_barrier_state VK_IMAGE_ASPECT_COLOR_BIT s) (\<lambda>s.
     and_then (CommandBuffer_End drv s) (\<lambda>s. Inr (True, l, s)))))))))))"

section \<open>Cleaning up\<close>

definition clean_descriptors :: "vk_driver \<Rightarrow> u32 list \<Rightarrow> program \<Rightarrow> program outcome" where
  "clean_descriptors drv junk s =
    (case s of (l, w) \<Rightarrow>
     let (sh, g) = Shader_Finalize drv (vk_shader l) (calls w) in
     and_then (UnregisterResourceBySlot junk (texture_view1_slot l) (vk_texture_descriptor_pool l)) (\<lambda>tp.
     and_then (UnregisterResourceBySlot junk (texture_view0_slot l) tp) (\<lambda>tp.
     let (tp, g) = DescriptorPool_Finalize drv tp g in
     and_then (UnregisterResourceBySlot junk (sampler_slot l) (vk_sampler_descriptor_pool l)) (\<lambda>sp.
     let (sp, g) = DescriptorPool_Finalize drv sp g in
     Inr (l\<lparr>vk_shader := sh, vk_texture_descriptor_pool := tp, vk_sampler_descriptor_pool := sp\<rparr>, set_calls g w)))))"

definition clean_resources :: "vk_driver \<Rightarrow> learn_addresses \<Rightarrow> program \<Rightarrow> program" where
  "clean_resources drv A s =
    (case s of (l, w) \<Rightarrow>
     let (v0, g) = TextureView_Finalize drv (vk_texture_view0 l) (calls w);
         (v1, g) = TextureView_Finalize drv (vk_texture_view1 l) g;
         w = set_calls g w;
         w = set_texture (a_texture0 A) (Texture_Finalize drv (textures w (a_texture0 A)) (calls w)) w;
         w = set_texture (a_texture1 A) (Texture_Finalize drv (textures w (a_texture1 A)) (calls w)) w;
         (sm, g) = Sampler_Finalize drv (vk_sampler l) (calls w);
         w = set_calls g w;
         w = set_buffer (a_uniform_buffer A) (Buffer_Finalize drv (buffers w (a_uniform_buffer A)) (calls w)) w;
         w = set_buffer (a_index_buffer A) (Buffer_Finalize drv (buffers w (a_index_buffer A)) (calls w)) w;
         w = set_buffer (a_vertex_buffer A) (Buffer_Finalize drv (buffers w (a_vertex_buffer A)) (calls w)) w;
         w = set_pool (a_image_memory A) (MemoryPool_Finalize drv (pools w (a_image_memory A)) (calls w)) w;
         w = set_pool (a_buffer_memory A) (MemoryPool_Finalize drv (pools w (a_buffer_memory A)) (calls w)) w in
     (l\<lparr>vk_texture_view0 := v0, vk_texture_view1 := v1, vk_sampler := sm\<rparr>, w))"

definition CleanTriangle :: "vk_driver \<Rightarrow> learn_addresses \<Rightarrow> u32 list \<Rightarrow> program \<Rightarrow> program outcome" where
  "CleanTriangle drv A junk s = and_then (clean_descriptors drv junk s) (\<lambda>s. Inr (clean_resources drv A s))"

section \<open>The program\<close>

text \<open>
  A pass of the main loop: the command buffer of the current frame is recorded, then the camera is moved. Which one is current, whether the window is too small
  to draw and the addresses of the targets are part of what a frame finds.
\<close>

record frame_targets =
  current_frame :: nat
  skip_draw :: bool
  current_color_target :: u64
  current_depth_target :: u64

type_synonym running = "learn \<times> command_buffer list \<times> cmd_world"

definition main_frame :: "vk_driver \<Rightarrow> vk_context \<Rightarrow> learn_addresses \<Rightarrow> frame_targets \<times> frame_input \<Rightarrow> running \<Rightarrow> running outcome" where
  "main_frame drv context A x s =
    (case (x, s) of ((t, inp), (l, cbs, w)) \<Rightarrow>
     if length cbs \<le> current_frame t then Inl OutOfBounds
     else
       and_then (Draw_frame drv context A (skip_draw t) (current_color_target t) (current_depth_target t) (window_width inp) (window_height inp)
         (l, cbs ! current_frame t, w)) (\<lambda>(sent, l, cb, w).
       and_then (CalcTriangle inp l) (\<lambda>l.
       Inr (l, cbs[current_frame t := cb], w))))"

fun main_loop :: "vk_driver \<Rightarrow> vk_context \<Rightarrow> learn_addresses \<Rightarrow> (frame_targets \<times> frame_input) list \<Rightarrow> running \<Rightarrow> running outcome" where
  "main_loop drv context A [] s = Inr s"
| "main_loop drv context A (x # xs) s = and_then (main_frame drv context A x s) (main_loop drv context A xs)"

text \<open>
  The work of the two threads in the order their events force: \<open>ContextMain\<close> makes the context, the display buffer and the command buffers before the main
  thread sets up, and takes them down after it has cleaned up. The loop runs for as many frames as the list has.
\<close>

record program_parts =
  context_part :: "vk_context \<times> proc_table"
  display_part :: DisplayBuffer
  command_part :: "command_buffer list"

definition context_start :: "vk_driver \<Rightarrow> vk_system \<Rightarrow> member_addresses \<Rightarrow> u64 \<Rightarrow> u32 \<Rightarrow> u32 \<Rightarrow> (nat \<Rightarrow> ResourceBuffer) \<Rightarrow> program_parts \<Rightarrow> vk_log \<Rightarrow>
    (program_parts \<times> vk_log) outcome" where
  "context_start drv sys ma surface width height junk P g =
    and_then (Context_new drv sys (context_part P) g) (\<lambda>((c, t), g).
    and_then (DisplayBuffer_Initialize drv c ma surface width height (display_part P) g) (\<lambda>(d, g).
    and_then (each_init (CommandBuffer_Initialize drv c) (map (\<lambda>cb. ((GetDrawMemorySize 2 2, junk), cb)) (command_part P)) g) (\<lambda>(cbs, g).
    Inr (\<lparr>context_part = (c, t), display_part = d, command_part = cbs\<rparr>, g))))"

definition context_stop :: "vk_driver \<Rightarrow> program_parts \<Rightarrow> vk_log \<Rightarrow> vk_log" where
  "context_stop drv P g =
    (let c = fst (context_part P);
         g = tell drv (vkQueueWaitIdle (m_vk_graphics_queue c)) g;
         g = tell drv (vkDeviceWaitIdle (m_vk_device c)) g;
         (d, g) = DisplayBuffer_Finalize drv (display_part P) g;
         (cbs, g) = each_fin (CommandBuffer_Finalize drv) (command_part P) g in
     Context_delete drv c g)"

definition main_program :: "vk_driver \<Rightarrow> vk_system \<Rightarrow> member_addresses \<Rightarrow> u64 \<Rightarrow> u32 \<Rightarrow> u32 \<Rightarrow> (nat \<Rightarrow> ResourceBuffer) \<Rightarrow> learn_addresses \<Rightarrow> setup_files \<Rightarrow>
    (frame_targets \<times> frame_input) list \<Rightarrow> u32 list \<Rightarrow> program_parts \<Rightarrow> program \<Rightarrow> vk_log outcome" where
  "main_program drv sys ma surface width height junk A f frames clean_junk P s =
    (case s of (l, w) \<Rightarrow>
     and_then (context_start drv sys ma surface width height junk P (calls w)) (\<lambda>(P, g).
     let c = fst (context_part P) in
     and_then (SetupTriangle drv c A f (l, set_calls g w)) (\<lambda>(l, w).
     and_then (main_loop drv c A frames (l, command_part P, w)) (\<lambda>(l, cbs, w).
     let g = tell drv (vkQueueWaitIdle (m_vk_graphics_queue c)) (calls w);
         g = tell drv (vkDeviceWaitIdle (m_vk_device c)) g in
     and_then (CleanTriangle drv A clean_junk (l, set_calls g w)) (\<lambda>(l, w).
     Inr (context_stop drv (P\<lparr>command_part := cbs\<rparr>) (calls w)))))))"

end
