(* ===== verification/Learn_Frame.thy ===== *)
theory Learn_Frame
  imports Learn_Program
begin

text \<open>
  A frame of the test program. Its command buffer is recorded as the specification of Vulkan demands (\<open>frame_stream\<close>); of the objects it changes only what the
  two memory pools own, by the staging buffers that relocation creates (\<open>keeps_frame\<close>).
\<close>

section \<open>The stream of a frame\<close>

lemma in_state_bind:
  assumes "in_state st s" and "st \<noteq> Initial"
  shows "in_state st (SetShader drv sh s)" "in_state st (SetViewports drv vs s)" "in_state st (SetScissors drv rs s)"
    "SetDescriptorPool drv dp s = Inr s' \<Longrightarrow> in_state st s'"
  using in_state_put [OF assms] in_state_put_all [OF assms]
  by (auto simp: SetShader_def SetViewports_def SetScissors_def SetDescriptorPool_def and_then_Inr_iff simp del: split_paired_Ex)

lemma in_state_SetVertexBuffer:
  assumes "in_state Recording s" and "SetVertexBuffer drv ctx i b k n s = Inr s'"
  shows "in_state Recording s'"
proof -
  obtain u c where u: "relocate_if_required drv ctx b s = Inr u" "s' = put drv c u" "is_state_cmd c"
    using assms(2) by (auto simp: SetVertexBuffer_def and_then_Inr_iff simp del: split_paired_Ex)
  have "in_state Recording u" using in_state_relocate [OF assms(1) _ u(1)] by (simp split: if_splits)
  from in_state_put [OF this _ u(3)] show ?thesis unfolding u(2) by simp
qed

lemma in_state_write_uniforms:
  assumes "in_state st s" and "write_uniforms drv A (l, s) = Inr (l', s')"
  shows "in_state st s'"
  using assms by (cases s) (auto simp: write_uniforms_def Let_def and_then_Inr_iff Buffer_Map_def MemoryPool_Map_def vk_simps in_state_def cb_stream_def
      set_pool_def dd_deref_def split: if_splits)

lemma relocate_stream:
  assumes "RelocateHostMemoryToDevice drv ctx h p g = Inr (p', g')" and "fold (stream_step h) g (Some Initial) = Some Recording"
  shows "fold (stream_step h) g' (Some Initial) = Some Recording"
  using assms by (auto simp: RelocateHostMemoryToDevice_def staging_buffer_def vk_simps Let_def split: if_splits)

lemma transition_textures_Inr:
  assumes "transition_textures drv ctx A l (cb, w) = Inr s'"
  obtains u p g where "m_vk_image_layout (textures w (m_parent_texture (vk_texture_view0 l))) = VK_IMAGE_LAYOUT_UNDEFINED \<and>
      RelocateHostMemoryToDevice drv ctx (m_vk_command_buffer cb) (pools w (a_image_memory A)) (calls w) = Inr (p, g) \<and>
      SetTextureStateTransition drv (m_parent_texture (vk_texture_view0 l)) texture_barrier_state VK_IMAGE_ASPECT_COLOR_BIT
        (cb, set_pool (a_image_memory A) (p, g) w) = Inr u \<or> u = (cb, w)"
    and "SetTextureStateTransition drv (m_parent_texture (vk_texture_view1 l)) texture_barrier_state VK_IMAGE_ASPECT_COLOR_BIT u = Inr s' \<or> s' = u"
proof -
  let ?t0 = "m_parent_texture (vk_texture_view0 l)" and ?t1 = "m_parent_texture (vk_texture_view1 l)"
  let ?F = "if m_vk_image_layout (textures w ?t0) = VK_IMAGE_LAYOUT_UNDEFINED then
      and_then (RelocateHostMemoryToDevice drv ctx (m_vk_command_buffer cb) (pools w (a_image_memory A)) (calls w)) (\<lambda>r.
      SetTextureStateTransition drv ?t0 texture_barrier_state VK_IMAGE_ASPECT_COLOR_BIT (cb, set_pool (a_image_memory A) r w)) else Inr (cb, w)"
  obtain u where u: "?F = Inr u" "(if m_vk_image_layout (textures (snd u) ?t1) = VK_IMAGE_LAYOUT_UNDEFINED
      then SetTextureStateTransition drv ?t1 texture_barrier_state VK_IMAGE_ASPECT_COLOR_BIT u else Inr u) = Inr s'"
    using assms unfolding transition_textures_def Let_def and_then_Inr_iff by auto
  then show ?thesis
    by (cases "m_vk_image_layout (textures w ?t0) = VK_IMAGE_LAYOUT_UNDEFINED")
      (auto simp: and_then_Inr_iff intro!: that [of _ _ u] split: if_splits)
qed

lemma in_state_transition_textures:
  assumes "in_state Recording s" and "transition_textures drv ctx A l s = Inr s'"
  shows "in_state Recording s'"
proof -
  obtain cb w where s: "s = (cb, w)" by (cases s)
  have n: "texture_barrier_state = image_barrier VK_PIPELINE_STAGE_TRANSFER_BIT VK_ACCESS_TRANSFER_WRITE_BIT VK_PIPELINE_STAGE_ALL_GRAPHICS_BIT
    VK_ACCESS_SHADER_READ_BIT VK_IMAGE_LAYOUT_UNDEFINED VK_IMAGE_LAYOUT_SHADER_READ_ONLY_OPTIMAL" by (rule texture_barrier_state_def)
  note t = in_state_SetTexture [where st = Recording, simplified]
  from assms(2) [unfolded s] show ?thesis
  proof (rule transition_textures_Inr)
    fix u p g
    assume a: "m_vk_image_layout (textures w (m_parent_texture (vk_texture_view0 l))) = VK_IMAGE_LAYOUT_UNDEFINED \<and>
      RelocateHostMemoryToDevice drv ctx (m_vk_command_buffer cb) (pools w (a_image_memory A)) (calls w) = Inr (p, g) \<and>
      SetTextureStateTransition drv (m_parent_texture (vk_texture_view0 l)) texture_barrier_state VK_IMAGE_ASPECT_COLOR_BIT
        (cb, set_pool (a_image_memory A) (p, g) w) = Inr u \<or> u = (cb, w)"
      and b: "SetTextureStateTransition drv (m_parent_texture (vk_texture_view1 l)) texture_barrier_state VK_IMAGE_ASPECT_COLOR_BIT u = Inr s' \<or> s' = u"
    have "in_state Recording u"
      using a
    proof (elim disjE conjE)
      assume r: "RelocateHostMemoryToDevice drv ctx (m_vk_command_buffer cb) (pools w (a_image_memory A)) (calls w) = Inr (p, g)"
        and v: "SetTextureStateTransition drv (m_parent_texture (vk_texture_view0 l)) texture_barrier_state VK_IMAGE_ASPECT_COLOR_BIT
          (cb, set_pool (a_image_memory A) (p, g) w) = Inr u"
      have "in_state Recording (cb, set_pool (a_image_memory A) (p, g) w)"
        using assms(1) relocate_stream [OF r] by (simp add: s in_state_def cb_stream_def set_pool_def)
      from t [OF this v] show ?thesis .
    qed (use assms(1) s in simp)
    then show ?thesis using b t by blast
  qed
qed

lemma bind_and_draw_Inr:
  assumes "bind_and_draw drv ctx A x y l s = Inr s'"
  obtains s1 s2 s3 s4 s5 s6 s7 where
    "SetDescriptorPool drv (vk_sampler_descriptor_pool l) s = Inr s1" "SetDescriptorPool drv (vk_texture_descriptor_pool l) s1 = Inr s2"
    "SetPipelineState drv (vk_pipeline_cmd_state l) (SetShader drv (vk_shader l) s2) = Inr s3"
    "SetVertexBuffer drv ctx 0 (a_vertex_buffer A) (ucast VerticeStride) sizeof_vertices s3 = Inr s4"
    "SetUniformBuffer 0 ShaderStage_Vertex (fst (Buffer_GetGpuAddress drv (buffers (snd s4) (a_uniform_buffer A)) (calls (snd s4))))
      (fst s4, set_calls (snd (Buffer_GetGpuAddress drv (buffers (snd s4) (a_uniform_buffer A)) (calls (snd s4)))) (snd s4)) = Inr s5"
    "SetTextureAndSampler 0 ShaderStage_Fragment (texture_view0_slot l) (sampler_slot l) s5 = Inr s6"
    "SetTextureAndSampler 1 ShaderStage_Fragment (texture_view1_slot l) (sampler_slot l) s6 = Inr s7"
    "DrawInstanced drv VK_PRIMITIVE_TOPOLOGY_TRIANGLE_LIST VerticeCount 0 (of_nat CubeCount) 0
      (SetScissors drv [(0, 0, x, y)] (SetViewports drv [(0, 0, real (unat x), real (unat y), 1, 0)] s7)) = Inr s'"
  using assms unfolding bind_and_draw_def Let_def and_then_Inr_iff case_prod_beta by blast

lemma in_state_bind_and_draw:
  assumes "in_state Recording s" and "bind_and_draw drv ctx A x y l s = Inr s'"
  shows "in_state Rendering s'"
  using assms(2)
proof (rule bind_and_draw_Inr, goal_cases)
  case (1 s1 s2 s3 s4 s5 s6 s7)
  have "in_state Recording s3"
    using in_state_SetPipelineState(3) [OF in_state_bind(1) [OF in_state_bind(4) [OF in_state_bind(4) [OF assms(1) _ 1(1)] _ 1(2)]] _ 1(3)] by simp
  then have "in_state Recording s4" using in_state_SetVertexBuffer [OF _ 1(4)] by blast
  then have "in_state Recording (fst s4, set_calls (snd (Buffer_GetGpuAddress drv (buffers (snd s4) (a_uniform_buffer A)) (calls (snd s4)))) (snd s4))"
    by (simp add: in_state_def cb_stream_def Buffer_GetGpuAddress_def ask_def set_calls_def)
  from in_state_fields(7) [OF in_state_fields(7) [OF in_state_fields(5) [OF this 1(5)] 1(6)] 1(7)] have "in_state Recording s7" .
  from in_state_Draws(1) [OF in_state_bind(3) [OF in_state_bind(2) [OF this]] _ 1(8)] show ?case by simp
qed

lemma Draw_frame_Inr:
  assumes "Draw_frame drv ctx A False ct dt x y (l, s) = Inr (sent, l', s')"
  obtains s1 s2 s3 s4 s5 s6 s7 s8 where
    "CommandBuffer_Begin drv (RegisterFastClearDepthStencil (0, 0) (RegisterFastClearColor (0, 0, 0, 1) s)) = Inr s1"
    "SetTextureStateTransition drv (m_texture (views (snd s) ct)) color_barrier_state VK_IMAGE_ASPECT_COLOR_BIT s1 = Inr s2"
    "SetTextureStateTransition drv (m_texture (views (snd s) dt)) depth_barrier_state (VK_IMAGE_ASPECT_DEPTH_BIT OR VK_IMAGE_ASPECT_STENCIL_BIT) s2 = Inr s3"
    "SetRenderTargets 1 [ct] dt s3 = Inr s4"
    "write_uniforms drv A (l, s4) = Inr (l', s5)" "transition_textures drv ctx A l' s5 = Inr s6" "bind_and_draw drv ctx A x y l' s6 = Inr s7"
    "SetTextureStateTransition drv (m_texture (views (snd s) ct)) present_barrier_state VK_IMAGE_ASPECT_COLOR_BIT s7 = Inr s8"
    "CommandBuffer_End drv s8 = Inr s'" "sent"
  using assms unfolding Draw_frame_def DrawTriangle_def Let_def and_then_Inr_iff case_prod_beta if_False fst_conv snd_conv
  by (metis Inr_inject prod.collapse prod.inject)

text \<open>
  C15. Recording a frame leaves the command buffer as it found it, ready to be recorded again: between \<open>Begin\<close> and \<open>End\<close> the program relocates, transitions,
  binds and draws in an order that the specification of Vulkan allows, whatever the driver answers, and rendering has been ended before the target is handed over for
  presentation. A frame is sent exactly if the window can be drawn to.
\<close>

theorem frame_stream:
  assumes "in_state Initial s" and "Draw_frame drv ctx A skip ct dt x y (l, s) = Inr (sent, l', s')"
  shows "in_state Initial s' \<and> sent = (\<not> skip)"
proof (cases skip)
  case True
  then show ?thesis using assms by (simp add: Draw_frame_def)
next
  case False
  with assms(2) have "Draw_frame drv ctx A False ct dt x y (l, s) = Inr (sent, l', s')" by simp
  then show ?thesis
  proof (rule Draw_frame_Inr, goal_cases)
    case (1 s1 s2 s3 s4 s5 s6 s7 s8)
    note t = in_state_SetTexture [where st = Recording, simplified]
    have "in_state Recording s3" using t [OF t [OF in_state_CommandBuffer(1) [OF in_state_fields(2) [OF in_state_fields(1) [OF assms(1)]] 1(1)] 1(2)] 1(3)] .
    then have "in_state Rendering s7"
      using in_state_bind_and_draw [OF in_state_transition_textures [OF in_state_write_uniforms [OF in_state_fields(4) [OF _ 1(4)] 1(5)] 1(6)] 1(7)] by simp
    then have "in_state Recording s8" using in_state_SetTexture [OF _ _ 1(8)] by (simp add: present_barrier_state_def image_barrier_def)
    from in_state_CommandBuffer(2) [OF this _ 1(9)] 1(10) False show ?case by simp
  qed
qed

section \<open>What a frame changes of the objects\<close>

definition owned_pools :: "learn_addresses \<Rightarrow> cmd_world \<Rightarrow> (vk_kind \<times> u64) multiset" where
  "owned_pools A w = owned_pool (pools w (a_buffer_memory A)) + owned_pool (pools w (a_image_memory A))"

text \<open>A pool that is still to be relocated has no staging buffers.\<close>

definition pool_ok :: "memory_pool \<Rightarrow> bool" where
  "pool_ok p \<longleftrightarrow> \<not> m_is_import p \<and> (mp_requires_relocation p \<longrightarrow> m_vk_staging_host_buffer p = 0 \<and> m_vk_staging_device_buffer p = 0)"

definition pools_ok :: "learn_addresses \<Rightarrow> cmd_world \<Rightarrow> bool" where
  "pools_ok A w \<longleftrightarrow> a_buffer_memory A \<noteq> a_image_memory A \<and> pool_ok (pools w (a_buffer_memory A)) \<and> pool_ok (pools w (a_image_memory A)) \<and>
    b_bound_memory_pool (buffers w (a_vertex_buffer A)) = a_buffer_memory A"

text \<open>Recording changes what the two pools own, by as much as it creates; everything else stays as it is.\<close>

definition same_handles :: "recording \<Rightarrow> recording \<Rightarrow> bool" where
  "same_handles s s' \<longleftrightarrow> (\<forall>a. owned_buffer (buffers (snd s') a) = owned_buffer (buffers (snd s) a)) \<and>
    (\<forall>a. owned_texture (textures (snd s') a) = owned_texture (textures (snd s) a)) \<and>
    (\<forall>a. b_bound_memory_pool (buffers (snd s') a) = b_bound_memory_pool (buffers (snd s) a)) \<and>
    owned_command_buffer (fst s') = owned_command_buffer (fst s)"

definition keeps :: "learn_addresses \<Rightarrow> recording \<Rightarrow> recording \<Rightarrow> bool" where
  "keeps A s s' \<longleftrightarrow> (pools_ok A (snd s) \<longrightarrow> pools_ok A (snd s') \<and> same_handles s s' \<and>
    vk_objects (calls (snd s')) + owned_pools A (snd s) = vk_objects (calls (snd s)) + owned_pools A (snd s') \<and>
    (valid_use (calls (snd s')) \<longleftrightarrow> valid_use (calls (snd s))))"

lemma keeps_refl [simp]: "keeps A s s"
  by (simp add: keeps_def same_handles_def)

lemma balance_trans:
  fixes a :: "'a multiset"
  assumes "a' + p = a + p'" and "a'' + p' = a' + p''"
  shows "a'' + p = a + p''"
proof -
  have "(a'' + p) + p' = (a'' + p') + p" by (simp add: ac_simps)
  also have "\<dots> = (a' + p) + p''" using assms(2) by (simp add: ac_simps)
  also have "\<dots> = (a + p'') + p'" using assms(1) by (simp add: ac_simps)
  finally show ?thesis by simp
qed

lemma keeps_trans [trans]:
  assumes "keeps A s t" and "keeps A t u"
  shows "keeps A s u"
  unfolding keeps_def
proof (intro impI)
  assume "pools_ok A (snd s)"
  then have 1: "pools_ok A (snd t)" "same_handles s t" "valid_use (calls (snd t)) = valid_use (calls (snd s))"
      "vk_objects (calls (snd t)) + owned_pools A (snd s) = vk_objects (calls (snd s)) + owned_pools A (snd t)"
    using assms(1) by (simp_all add: keeps_def)
  then have 2: "pools_ok A (snd u)" "same_handles t u" "valid_use (calls (snd u)) = valid_use (calls (snd t))"
      "vk_objects (calls (snd u)) + owned_pools A (snd t) = vk_objects (calls (snd t)) + owned_pools A (snd u)"
    using assms(2) by (simp_all add: keeps_def)
  have "same_handles s u" using 1(2) 2(2) by (simp add: same_handles_def)
  then show "pools_ok A (snd u) \<and> same_handles s u \<and> vk_objects (calls (snd u)) + owned_pools A (snd s) = vk_objects (calls (snd s)) + owned_pools A (snd u) \<and>
      valid_use (calls (snd u)) = valid_use (calls (snd s))"
    using 1(3) 2(1,3) balance_trans [OF 1(4) 2(4)] by simp
qed

text \<open>An operation that touches neither pools nor handles and makes no object leaves the footprint of a recording as it is.\<close>

definition footprint where
  "footprint s = (pools (snd s), \<lambda>a. (owned_buffer (buffers (snd s) a), b_bound_memory_pool (buffers (snd s) a)), \<lambda>a. owned_texture (textures (snd s) a),
    (m_vk_command_buffer (fst s), m_vk_resource_buffer (fst s), m_vk_resource_buffer_memory (fst s)), vk_objects (calls (snd s)), valid_use (calls (snd s)))"

lemma footprint_keeps: "footprint s' = footprint s \<Longrightarrow> keeps A s s'"
  by (auto simp: footprint_def keeps_def same_handles_def pools_ok_def owned_pools_def owned_command_buffer_def fun_eq_iff)

lemma footprint_put [simp]: "footprint (put drv c s) = footprint s"
  by (cases s) (simp add: footprint_def put_def tell_eq valid_call_other)

lemma footprint_put_all [simp]: "footprint (put_all drv cs s) = footprint s"
  by (induction cs arbitrary: s) (simp_all add: put_all_def)

lemma footprint_cb:
  "footprint (cb\<lparr>m_is_rendering := b\<rparr>, w) = footprint (cb, w)" "footprint (cb\<lparr>m_are_new_targets := b\<rparr>, w) = footprint (cb, w)"
  "footprint (cb\<lparr>resource_memory := m\<rparr>, w) = footprint (cb, w)" "footprint (cb\<lparr>m_resource_update_count := n\<rparr>, w) = footprint (cb, w)"
  "footprint (cb\<lparr>m_need_resource_update := u\<rparr>, w) = footprint (cb, w)" "footprint (cb\<lparr>m_resource_buffer_per_stage_array := r\<rparr>, w) = footprint (cb, w)"
  "footprint (cb\<lparr>m_color_targets := t\<rparr>, w) = footprint (cb, w)" "footprint (cb\<lparr>m_depth_stencil_target := v\<rparr>, w) = footprint (cb, w)"
  "footprint (cb\<lparr>m_vk_clear_color := c\<rparr>, w) = footprint (cb, w)" "footprint (cb\<lparr>m_fast_clear_color := b\<rparr>, w) = footprint (cb, w)"
  "footprint (cb\<lparr>m_vk_clear_depth_stencil := d\<rparr>, w) = footprint (cb, w)" "footprint (cb\<lparr>m_fast_clear_depth_stencil := b\<rparr>, w) = footprint (cb, w)"
  by (simp_all add: footprint_def)

lemma footprint_End: "footprint (EndRenderingIfRendering drv s) = footprint s"
  by (cases s) (simp add: EndRenderingIfRendering_def footprint_cb)

lemma footprint_start: "footprint (start_rendering drv s) = footprint s"
proof -
  obtain cb w where "put drv (vkCmdBeginRendering (rendering_info (fst s) (snd s))) s = (cb, w)" by fastforce
  then show ?thesis using footprint_put [of drv "vkCmdBeginRendering (rendering_info (fst s) (snd s))" s] by (simp add: start_rendering_def footprint_cb)
qed

lemma footprint_Begin: "footprint (BeginRenderingIfNotRendering drv s) = footprint s"
  by (cases s) (simp add: BeginRenderingIfNotRendering_def footprint_start footprint_End footprint_cb)

lemma footprint_update_stages: "update_stages drv sts s = Inr s' \<Longrightarrow> footprint s' = footprint s"
proof (induction sts arbitrary: s)
  case (Cons st sts)
  have "footprint u = footprint s" if u: "update_stage drv st s = Inr u" for u
  proof -
    obtain i b f cb w where e: "st = (i, b, f)" "s = (cb, w)" by (cases st, cases s)
    show ?thesis using u by (auto simp: e update_stage_def Let_def put_def footprint_cb split: if_splits) (auto simp: footprint_def tell_eq valid_call_other)
  qed
  then show ?case using Cons by (auto simp: and_then_Inr_iff)
qed simp

lemmas footprint_simps = footprint_cb footprint_End footprint_start footprint_Begin

lemma footprint_calls:
  "vk_objects g = vk_objects (calls w) \<Longrightarrow> valid_use g = valid_use (calls w) \<Longrightarrow> footprint (cb, w\<lparr>calls := g\<rparr>) = footprint (cb, w)"
  by (simp add: footprint_def)

lemma footprint_CommandBuffer:
  "CommandBuffer_Begin drv s = Inr s' \<Longrightarrow> footprint s' = footprint s" "CommandBuffer_End drv s = Inr s' \<Longrightarrow> footprint s' = footprint s"
proof -
  have o: "object_step (vkBeginCommandBuffer h, a) m = m" "object_step (vkEndCommandBuffer h, a) m = m" for h a m
    by (simp_all add: objects_other)
  show "CommandBuffer_Begin drv s = Inr s' \<Longrightarrow> footprint s' = footprint s"
    by (cases s) (auto simp: CommandBuffer_Begin_def vk_simps footprint_cb o intro!: footprint_calls)
  obtain cb w where e: "EndRenderingIfRendering drv s = (cb, w)" by fastforce
  assume "CommandBuffer_End drv s = Inr s'"
  then have "footprint s' = footprint (cb, w)" using e by (auto simp: CommandBuffer_End_def vk_simps o intro!: footprint_calls)
  then show "footprint s' = footprint s" using footprint_End [of drv s] e by simp
qed

lemma footprint_fields:
  "footprint (RegisterFastClearColor cc s) = footprint s" "footprint (RegisterFastClearDepthStencil dc s) = footprint s"
  "SetRenderTargets n ts d s = Inr s' \<Longrightarrow> footprint s' = footprint s" "SetUniformBuffer l sh u s = Inr s' \<Longrightarrow> footprint s' = footprint s"
  "SetTextureAndSampler l sh tx sm s = Inr s' \<Longrightarrow> footprint s' = footprint s"
  by (auto simp: RegisterFastClearColor_def RegisterFastClearDepthStencil_def SetRenderTargets_def SetUniformBuffer_def SetTextureAndSampler_def
      change_resource_def Let_def and_then_Inr_iff footprint_def split: if_splits)

lemma footprint_bind:
  "footprint (SetShader drv sh s) = footprint s" "footprint (SetViewports drv vs s) = footprint s" "footprint (SetScissors drv rs s) = footprint s"
  "SetDescriptorPool drv dp s = Inr s' \<Longrightarrow> footprint s' = footprint s"
  by (auto simp: SetShader_def SetViewports_def SetScissors_def SetDescriptorPool_def and_then_Inr_iff simp del: split_paired_Ex)

lemma footprint_SetPipelineState: "SetPipelineState drv ps s = Inr s' \<Longrightarrow> footprint s' = footprint s"
  by (auto simp: SetPipelineState_def SetColorBlendState_def SetVertexState_def SetDepthStencilState_def SetRasterizerState_def Let_def and_then_Inr_iff
      simp del: split_paired_Ex)

lemma footprint_DrawInstanced: "DrawInstanced drv t n b k j s = Inr s' \<Longrightarrow> footprint s' = footprint s"
  by (auto simp: DrawInstanced_def UpdateResourceBufferIfNecessary_def Let_def and_then_Inr_iff footprint_Begin footprint_update_stages simp del: split_paired_Ex)

lemma footprint_SetTexture:
  assumes "SetTextureStateTransition drv t m a s = Inr s'"
  shows "footprint s' = footprint s"
proof -
  let ?s = "if dstStageMask (barrier_masks m) = VK_PIPELINE_STAGE_BOTTOM_OF_PIPE_BIT then EndRenderingIfRendering drv s else s"
  let ?c = "vkCmdPipelineBarrier2_image (m_vk_image (textures (snd ?s) t)) (barrier_masks m) (vk_src_layout m) (vk_dst_layout m) a"
  obtain cb w where e: "put drv ?c ?s = (cb, w)" by fastforce
  have "footprint s' = footprint (cb, w)"
    using assms e by (auto simp: SetTextureStateTransition_def Let_def and_then_Inr_iff footprint_def owned_texture_def SetImageLayout_def fun_eq_iff split: if_splits)
  also have "\<dots> = footprint s" using footprint_put [of drv ?c ?s] footprint_End [of drv s] e by (simp split: if_splits)
  finally show ?thesis .
qed

section \<open>Relocation in a frame\<close>

lemma pool_ok_relocate:
  assumes "RelocateHostMemoryToDevice drv ctx h p g = Inr (p', g')" and "pool_ok p"
  shows "pool_ok p'" "vk_objects g' + owned_pool p = vk_objects g + owned_pool p'" "valid_use g' = valid_use g"
proof -
  show "valid_use g' = valid_use g" by (rule relocate_spec(4) [OF assms(1)])
  have "pool_ok p' \<and> vk_objects g' + owned_pool p = vk_objects g + owned_pool p'"
  proof (cases "mp_requires_relocation p")
    case True
    have "m_is_import p' = m_is_import p" by (subst relocate_spec(5) [OF assms(1) True]) simp
    then show ?thesis using relocate_owned [OF assms(1)] relocate_spec(1) [OF assms(1)] assms(2) True by (simp add: pool_ok_def)
  next
    case False
    then show ?thesis using relocate_spec(2) [OF assms(1)] assms(2) by simp
  qed
  then show "pool_ok p'" "vk_objects g' + owned_pool p = vk_objects g + owned_pool p'" by simp_all
qed

lemma keeps_pool:
  assumes "pools_ok A w \<Longrightarrow> pool_ok p" and "a = a_buffer_memory A \<or> a = a_image_memory A"
    and "pools_ok A w \<Longrightarrow> vk_objects g + owned_pool (pools w a) = vk_objects (calls w) + owned_pool p"
    and "pools_ok A w \<Longrightarrow> valid_use g = valid_use (calls w)"
  shows "keeps A (cb, w) (cb, set_pool a (p, g) w)"
  using assms by (auto simp: keeps_def set_pool_def pools_ok_def owned_pools_def same_handles_def ac_simps)

lemma keeps_relocate:
  assumes "relocate_if_required drv ctx (a_vertex_buffer A) s = Inr s'"
  shows "keeps A s s'"
proof (cases "b_requires_relocation (buffers (snd s) (a_vertex_buffer A))")
  case True
  let ?a = "a_vertex_buffer A"
  obtain cb w where e: "EndRenderingIfRendering drv s = (cb, w)" by fastforce
  have k: "keeps A s (cb, w)" using footprint_keeps [OF footprint_End [of drv s]] e by simp
  obtain b p l where l: "Buffer_Relocate drv ctx (m_vk_command_buffer cb) (buffers w ?a) (pools w (b_bound_memory_pool (buffers w ?a))) (calls w) = Inr (b, p, l)"
      "s' = (cb, w\<lparr>calls := l, buffers := (buffers w)(?a := b), pools := (pools w)(b_bound_memory_pool (buffers w ?a) := p)\<rparr>)"
    using assms True e by (auto simp: relocate_if_required_def and_then_Inr_iff Let_def)
  have b: "b = (buffers w ?a)\<lparr>b_requires_relocation := True\<rparr>" using l(1) by (auto simp: Buffer_Relocate_def and_then_Inr_iff)
  have "keeps A (cb, w) s'"
  proof (cases "pools_ok A w")
    case ok: True
    then have a: "b_bound_memory_pool (buffers w ?a) = a_buffer_memory A" "pool_ok (pools w (a_buffer_memory A))" by (simp_all add: pools_ok_def)
    have r: "pool_ok p" "vk_objects l + owned_pool (pools w (a_buffer_memory A)) = vk_objects (calls w) + owned_pool p" "valid_use l = valid_use (calls w)"
      using l(1) a pool_ok_relocate [of drv ctx "m_vk_command_buffer cb" "pools w (a_buffer_memory A)" "calls w" p l]
      by (auto simp: Buffer_Relocate_def and_then_Inr_iff split: if_splits)
    have "keeps A (cb, w) (cb, set_pool (a_buffer_memory A) (p, l) w)" by (rule keeps_pool) (use r in simp_all)
    also have "footprint s' = footprint (cb, set_pool (a_buffer_memory A) (p, l) w)"
      by (simp add: l(2) a(1) footprint_def set_pool_def b owned_buffer_def fun_eq_iff)
    then have "keeps A (cb, set_pool (a_buffer_memory A) (p, l) w) s'" by (rule footprint_keeps)
    finally show ?thesis .
  qed (simp add: keeps_def)
  with k show ?thesis by (rule keeps_trans)
qed (use assms in \<open>auto simp: relocate_if_required_def and_then_Inr_iff\<close>)

lemma keeps_SetVertexBuffer:
  assumes "SetVertexBuffer drv ctx i (a_vertex_buffer A) k n s = Inr s'"
  shows "keeps A s s'"
proof -
  obtain u c where u: "relocate_if_required drv ctx (a_vertex_buffer A) s = Inr u" "s' = put drv c u"
    using assms by (auto simp: SetVertexBuffer_def and_then_Inr_iff simp del: split_paired_Ex)
  have "keeps A u s'" unfolding u(2) by (rule footprint_keeps) simp
  with keeps_relocate [OF u(1)] show ?thesis by (rule keeps_trans)
qed

lemma keeps_write_uniforms:
  assumes "write_uniforms drv A (l, s) = Inr (l', s')"
  shows "keeps A s s'"
proof -
  obtain cb w where s: "s = (cb, w)" by (cases s)
  let ?pa = "b_bound_memory_pool (buffers w (a_uniform_buffer A))"
  obtain u p g where p: "Buffer_Map drv (buffers w (a_uniform_buffer A)) (pools w ?pa) (calls w) = Inr (u, p, g)" "s' = (cb, set_pool ?pa (p, g) w)"
    using assms by (auto simp: s write_uniforms_def Let_def and_then_Inr_iff split: if_splits)
  have "owned_pool p = owned_pool (pools w ?pa)" "pool_ok p = pool_ok (pools w ?pa)" "vk_objects g = vk_objects (calls w)" "valid_use g = valid_use (calls w)"
    using p(1) by (auto simp: Buffer_Map_def MemoryPool_Map_def vk_simps owned_pool_def pool_ok_def split: if_splits)
  then show ?thesis
    by (auto simp: s p(2) keeps_def set_pool_def pools_ok_def owned_pools_def same_handles_def)
qed

lemma keeps_transition_textures:
  assumes "transition_textures drv ctx A l s = Inr s'"
  shows "keeps A s s'"
proof -
  obtain cb w where s: "s = (cb, w)" by (cases s)
  let ?t0 = "m_parent_texture (vk_texture_view0 l)"
  note t = footprint_keeps [OF footprint_SetTexture]
  from assms [unfolded s] show ?thesis
  proof (rule transition_textures_Inr, goal_cases)
    case (1 u p g)
    have "keeps A s u"
      using 1(1)
    proof (elim disjE conjE)
      assume r: "RelocateHostMemoryToDevice drv ctx (m_vk_command_buffer cb) (pools w (a_image_memory A)) (calls w) = Inr (p, g)"
        and v: "SetTextureStateTransition drv ?t0 texture_barrier_state VK_IMAGE_ASPECT_COLOR_BIT (cb, set_pool (a_image_memory A) (p, g) w) = Inr u"
      have "keeps A (cb, w) (cb, set_pool (a_image_memory A) (p, g) w)"
        by (rule keeps_pool) (use pool_ok_relocate [OF r] in \<open>simp_all add: pools_ok_def\<close>)
      also have "keeps A (cb, set_pool (a_image_memory A) (p, g) w) u" using v by (rule t)
      finally show ?thesis unfolding s .
    qed (simp add: s)
    also have "keeps A u s'" using 1(2) by (auto intro: t)
    finally show ?case .
  qed
qed

lemma keeps_bind_and_draw:
  assumes "bind_and_draw drv ctx A x y l s = Inr s'"
  shows "keeps A s s'"
  using assms
proof (rule bind_and_draw_Inr, goal_cases)
  case (1 s1 s2 s3 s4 s5 s6 s7)
  have "footprint s3 = footprint s" using 1(1,2,3) by (simp add: footprint_bind footprint_SetPipelineState)
  then have "keeps A s s3" by (rule footprint_keeps)
  also have "keeps A s3 s4" using 1(4) by (rule keeps_SetVertexBuffer)
  also have "footprint s' = footprint s4"
  proof -
    have "footprint s5 = footprint s4"
      using 1(5) by (cases s4) (simp add: footprint_fields Buffer_GetGpuAddress_def ask_def set_calls_def footprint_calls)
    then show ?thesis using 1(6,7,8) by (simp add: footprint_fields footprint_bind footprint_DrawInstanced)
  qed
  then have "keeps A s4 s'" by (rule footprint_keeps)
  finally show ?case .
qed

lemma keeps_frame:
  assumes "Draw_frame drv ctx A skip ct dt x y (l, s) = Inr (sent, l', s')"
  shows "keeps A s s'"
proof (cases skip)
  case False
  with assms have "Draw_frame drv ctx A False ct dt x y (l, s) = Inr (sent, l', s')" by simp
  then show ?thesis
  proof (rule Draw_frame_Inr, goal_cases)
    case (1 s1 s2 s3 s4 s5 s6 s7 s8)
    have "footprint s4 = footprint s" using 1(1-4) by (simp add: footprint_CommandBuffer footprint_SetTexture footprint_fields)
    then have "keeps A s s4" by (rule footprint_keeps)
    also have "keeps A s4 s5" using 1(5) by (rule keeps_write_uniforms)
    also have "keeps A s5 s6" using 1(6) by (rule keeps_transition_textures)
    also have "keeps A s6 s7" using 1(7) by (rule keeps_bind_and_draw)
    also have "keeps A s7 s'" by (rule footprint_keeps) (use 1(8,9) in \<open>simp add: footprint_CommandBuffer footprint_SetTexture\<close>)
    finally show ?case .
  qed
qed (use assms in \<open>simp add: Draw_frame_def\<close>)

end
