(* ===== verification/Learn_Setup.thy ===== *)
theory Learn_Setup
  imports Learn_Frame
begin

text \<open>
  Setting up the test program: the matrices of the cubes can be computed (\<open>matrices_computed\<close>), the memory that is planned holds all that is copied to it
  (\<open>setup_memory_fits\<close>), and the objects that are created are the ones the program owns afterwards (\<open>setup_owns\<close>). The angle of the
  camera is converted in a way that is undefined (\<open>camera_angle_undefined\<close>), and the uniform buffer is too small (\<open>uniform_buffer_too_small\<close>).
\<close>

section \<open>The matrices and the camera\<close>

lemma HalfRound: "AngleHalfRound a = a * (2 ^ 31 / FloatPi)"
proof -
  have "real (unat AngleIndexHalfRound) = 2 ^ 31" by (simp add: AngleIndexHalfRound_def)
  then show ?thesis by (simp only: AngleHalfRound_def)
qed

lemma sample_returns:
  assumes "0 \<le> v" and "v < 2 ^ 64"
  shows "\<exists>r. SampleSin v = Inr r" "\<exists>r. SampleCos v = Inr r"
  using assms by (simp_all add: SampleSin_def SampleCos_def angle_index_def Let_def)

lemma turn_rows_returns:
  assumes "0 \<le> a" and "a \<le> 180"
  shows "\<exists>r. turn_rows f m a = Inr r"
proof -
  have "0 \<le> AngleHalfRound a" "AngleHalfRound a < 2 ^ 64" using assms by (simp_all add: HalfRound FloatPi_def)
  from sample_returns [OF this] show ?thesis by (auto simp: turn_rows_def)
qed

lemma make_view_arg_returns:
  assumes "\<exists>r. place model_matrix = Inr r" and "i < 10"
  shows "\<exists>v pp'. make_view_arg place i cam pp = Inr (v, pp')"
proof -
  have b: "0 \<le> 20 * real i" "20 * real i \<le> 180" "0 \<le> 0.3 * (20 * real i)" "0.3 * (20 * real i) \<le> 180" "0 \<le> 0.5 * (20 * real i)" "0.5 * (20 * real i) \<le> 180"
    using assms(2) by simp_all
  obtain m0 where "place model_matrix = Inr m0" using assms(1) by blast
  moreover obtain m1 where "RotateLocalX m0 (20 * real i) = Inr m1" using turn_rows_returns [OF b(1,2)] unfolding RotateLocalX_def by metis
  moreover obtain m2 where "RotateLocalY m1 (0.3 * (20 * real i)) = Inr m2" using turn_rows_returns [OF b(3,4)] unfolding RotateLocalY_def by metis
  moreover obtain m3 where "RotateLocalZ m2 (0.5 * (20 * real i)) = Inr m3" using turn_rows_returns [OF b(5,6)] unfolding RotateLocalZ_def by metis
  ultimately show ?thesis unfolding make_view_arg_def Let_def case_prod_beta by (simp only: and_then.simps) blast
qed

lemma view_arg_loop_returns:
  assumes "\<forall>i\<in>set is. i < 10 \<and> (\<exists>r. place i model_matrix = Inr r)"
  shows "\<exists>vs pp'. view_arg_loop place is cam pp = Inr (vs, pp') \<and> length vs = length is"
  using assms
proof (induction "is" arbitrary: pp)
  case (Cons i xs)
  obtain v pp1 where v: "make_view_arg (place i) i cam pp = Inr (v, pp1)" using make_view_arg_returns [of "place i" i cam pp] Cons.prems by auto
  obtain vs pp2 where "view_arg_loop place xs cam pp1 = Inr (vs, pp2)" "length vs = length xs" using Cons.IH [of pp1] Cons.prems by auto
  then show ?case by (simp add: v)
qed simp

text \<open>
  The matrices of all cubes can be computed, when the program is set up and in every frame: the angles stay where the tables can be sampled.
\<close>

theorem matrices_computed:
  "\<exists>vs pp'. view_arg_loop (\<lambda>i. Inr) [0..<CubeCount] cam pp = Inr (vs, pp') \<and> length vs = CubeCount"
  "\<exists>vs pp'. view_arg_loop (\<lambda>i. SetColumn 3 (CubePositions ! i)) [0..<CubeCount] cam pp = Inr (vs, pp') \<and> length vs = CubeCount"
proof -
  have c: "CubeCount = 10" by (simp add: CubeCount_def CubePositions_def)
  show "\<exists>vs pp'. view_arg_loop (\<lambda>i. Inr) [0..<CubeCount] cam pp = Inr (vs, pp') \<and> length vs = CubeCount"
    using view_arg_loop_returns [of "[0..<CubeCount]" "\<lambda>i. Inr" cam pp] by (simp add: c)
  show "\<exists>vs pp'. view_arg_loop (\<lambda>i. SetColumn 3 (CubePositions ! i)) [0..<CubeCount] cam pp = Inr (vs, pp') \<and> length vs = CubeCount"
    using view_arg_loop_returns [of "[0..<CubeCount]" "\<lambda>i. SetColumn 3 (CubePositions ! i)" cam pp] by (simp add: c SetColumn_def)
qed

text \<open>
  The camera of a frame: an angle below zero is converted to an unsigned integer, which is undefined. The program starts with an angle of -90 degrees, so
  this is what the first frame does unless the mouse has moved far to the right.
\<close>

theorem camera_angle_undefined:
  assumes "yaw l + 0.1 * of_int (delta_x (mouse_state x)) \<le> - 1" and "0 \<le> pitch l + 0.1 * of_int (delta_y (mouse_state x))"
    and "pitch l + 0.1 * of_int (delta_y (mouse_state x)) \<le> 360"
  shows "CalcTriangle x l = Inl SignedOverflow"
proof -
  let ?y = "yaw l + 0.1 * of_int (delta_x (mouse_state x))" and ?p = "pitch l + 0.1 * of_int (delta_y (mouse_state x))"
  have h: "AngleHalfRound (ToRadians d) = d * (2 ^ 31 / 180)" for d
    by (simp add: ToRadians_def HalfRound FloatPi_def FloatDegree180_def)
  obtain c where "SampleCos (AngleHalfRound (ToRadians ?p)) = Inr c" using sample_returns(2) [of "AngleHalfRound (ToRadians ?p)"] assms(2,3) unfolding h by auto
  moreover have "SampleCos (AngleHalfRound (ToRadians ?y)) = Inl SignedOverflow" using assms(1) unfolding h by (simp add: SampleCos_def angle_index_def)
  ultimately have "look_direction ?y ?p = Inl SignedOverflow" by (simp add: look_direction_def)
  then show ?thesis by (simp add: CalcTriangle_def Let_def)
qed

section \<open>Buffers and their memory\<close>

text \<open>
  All three buffers are made with the size of the vertices: the matrices of the cubes, which the shaders read from the uniform buffer, are more than twice as long.
\<close>

theorem uniform_buffer_too_small:
  assumes "plan_memory drv ctx i j g = Inr (y, g')"
  shows "bi_size (uniform_buffer_info y) = sizeof_vertices \<and> sizeof_vertices = 720 \<and> UniformBufferSize = 1600 \<and> bi_size (index_buffer_info y) \<noteq> sizeof_indices"
proof -
  have "sizeof_vertices = 720" "sizeof_vertices \<noteq> sizeof_indices" by (simp_all add: sizeof_vertices_def vertices_def sizeof_indices_def indices_def)
  moreover have "UniformBufferSize = 1600" by (simp add: UniformBufferSize_def sizeof_ViewArg_def CubeCount_def CubePositions_def)
  moreover have "bi_size (uniform_buffer_info y) = sizeof_vertices" "bi_size (index_buffer_info y) = sizeof_vertices"
    using assms by (auto simp: plan_memory_def and_then_Inr_iff Let_def case_prod_beta)
  ultimately show ?thesis by simp
qed

text \<open>An alignment that a driver reports is a power of two; here no larger than 64 KB.\<close>

definition small_alignments :: "vk_driver \<Rightarrow> vk_context \<Rightarrow> bool" where
  "small_alignments drv ctx \<longleftrightarrow> (\<forall>i g. \<exists>n\<le>16. fst (Buffer_GetAlignment drv ctx i g) = 2 ^ n) \<and>
    (\<forall>i g. \<exists>n\<le>16. fst (GetRequiredMemoryAlignment drv ctx i g) = 2 ^ n)"

lemma AlignUp_bounds:
  assumes "n \<le> 16" and "unat v < 2 ^ 63"
  shows "unat v \<le> unat (AlignUp v (2 ^ n)) \<and> unat (AlignUp v (2 ^ n)) < unat v + 2 ^ 16"
proof -
  have n: "(2 :: nat) ^ n \<le> 2 ^ 16" using assms(1) by (rule power_increasing) simp
  then have "unat (AlignUp v (2 ^ n)) = (unat v + 2 ^ n - 1) div 2 ^ n * 2 ^ n" using assms by (intro AlignUp_unat) auto
  moreover have "(unat v + 2 ^ n - 1) div 2 ^ n * 2 ^ n + (unat v + 2 ^ n - 1) mod 2 ^ n = unat v + 2 ^ n - 1" by (rule div_mult_mod_eq)
  moreover have "(unat v + 2 ^ n - 1) mod 2 ^ n < (2 :: nat) ^ n" by simp
  ultimately show ?thesis using n by linarith
qed

lemma unat_add_small: "unat (a :: u64) + unat b < 2 ^ 64 \<Longrightarrow> unat (a + b) = unat a + unat b"
  by (simp add: unat_word_ariths)

lemma unat_size: "0 \<le> n \<Longrightarrow> s32_ok n \<Longrightarrow> unat (word_of_int n :: u64) = nat n \<and> nat n < 2 ^ 31"
  by (simp add: s32_ok_def unat_eq_nat_uint take_bit_int_eq_self uint_word_of_int)

lemma memcpy_fits: "unat a + unat n \<le> unat (hb_size b) \<Longrightarrow> \<exists>b'. memcpy a n x b = Inr b' \<and> hb_size b' = hb_size b"
  by (simp add: memcpy_def)

lemma fill_memory_returns:
  assumes "nb \<noteq> 0" and "ni \<noteq> 0" and "unat sizeof_vertices \<le> unat (buffer_memory_size y)"
    and "unat (bi_offset (index_buffer_info y)) + unat sizeof_indices \<le> unat (buffer_memory_size y)"
    and "unat (bi_offset (uniform_buffer_info y)) + unat (of_nat (sizeof_ViewArg * CubeCount) :: u64) \<le> unat (buffer_memory_size y)"
    and "unat (word_of_int (texture0_size y) :: u64) \<le> unat (image_memory_size y)"
    and "unat (ucast (memory_offset (texture1_info y)) :: u64) + unat (word_of_int (texture1_size y) :: u64) \<le> unat (image_memory_size y)"
  shows "\<exists>l'. fill_memory y i j nb ni l = Inr l'"
proof -
  obtain vs pp where v: "view_arg_loop (\<lambda>i. Inr) [0..<CubeCount] (camera l) (perspective_projection l) = Inr (vs, pp)" using matrices_computed(1) by blast
  obtain b1 where b1: "memcpy 0 sizeof_vertices (VertexData vertices) \<lparr>hb_size = buffer_memory_size y, hb_data = []\<rparr> = Inr b1" "hb_size b1 = buffer_memory_size y"
    using memcpy_fits [of 0 sizeof_vertices "\<lparr>hb_size = buffer_memory_size y, hb_data = []\<rparr>"] assms(3) by fastforce
  obtain b2 where b2: "memcpy (bi_offset (index_buffer_info y)) sizeof_indices (IndexData indices) b1 = Inr b2" "hb_size b2 = buffer_memory_size y"
    using memcpy_fits [of "bi_offset (index_buffer_info y)" sizeof_indices b1] b1(2) assms(4) by fastforce
  obtain b3 where b3: "memcpy (bi_offset (uniform_buffer_info y)) (of_nat (sizeof_ViewArg * CubeCount)) (ViewData vs) b2 = Inr b3"
    using memcpy_fits [of "bi_offset (uniform_buffer_info y)" "of_nat (sizeof_ViewArg * CubeCount)" b2] b2(2) assms(5) by fastforce
  obtain m1 where m1: "memcpy 0 (word_of_int (texture0_size y)) (ImageData (image_pixels i)) \<lparr>hb_size = image_memory_size y, hb_data = []\<rparr> = Inr m1"
      "hb_size m1 = image_memory_size y"
    using memcpy_fits [of 0 "word_of_int (texture0_size y)" "\<lparr>hb_size = image_memory_size y, hb_data = []\<rparr>"] assms(6) by fastforce
  obtain m2 where "memcpy (ucast (memory_offset (texture1_info y))) (word_of_int (texture1_size y)) (ImageData (image_pixels j)) m1 = Inr m2"
    using memcpy_fits [of "ucast (memory_offset (texture1_info y))" "word_of_int (texture1_size y)" m1] m1(2) assms(7) by fastforce
  then show ?thesis using assms(1,2) b3 by (simp add: fill_memory_def dd_assert_def v b1(1) b2(1) m1(1) del: of_nat_mult)
qed

lemma plan_bounds:
  assumes "plan_memory drv ctx i j g = Inr (y, g')" and "small_alignments drv ctx"
    and "0 \<le> image_width i * image_height i" and "0 \<le> image_width j * image_height j" and "0 \<le> image_channels j"
  shows "unat sizeof_vertices \<le> unat (bi_offset (index_buffer_info y))"
    "unat (bi_offset (index_buffer_info y)) + unat sizeof_indices \<le> unat (bi_offset (uniform_buffer_info y))"
    "unat (bi_offset (uniform_buffer_info y)) + unat UniformBufferSize \<le> unat (buffer_memory_size y)"
    "nat (texture0_size y) \<le> unat (memory_offset (texture1_info y))"
    "unat (memory_offset (texture1_info y)) + nat (texture1_size y) \<le> unat (image_memory_size y)"
    "unat (word_of_int (texture0_size y) :: u64) = nat (texture0_size y)" "unat (word_of_int (texture1_size y) :: u64) = nat (texture1_size y)"
    "unat (ucast (memory_offset (texture1_info y)) :: u64) = unat (memory_offset (texture1_info y))"
proof -
  define n0 where "n0 = image_width i * image_height i * 4"
  define n1 where "n1 = image_width j * image_height j * image_channels j"
  have ok: "s32_ok n0" "s32_ok n1" using assms(1) by (auto simp: plan_memory_def and_then_Inr_iff s32_val_def n0_def n1_def split: if_splits)
  have n0: "unat (word_of_int n0 :: u64) = nat n0" "nat n0 < 2 ^ 31" using unat_size [OF _ ok(1)] assms(3) by (simp_all add: n0_def)
  have n1: "unat (word_of_int n1 :: u64) = nat n1" "nat n1 < 2 ^ 31" using unat_size [OF _ ok(2)] assms(4,5) by (simp_all add: n1_def)
  obtain a b c where p: "a \<le> 16" "b \<le> 16" "c \<le> 16" "bi_offset (index_buffer_info y) = AlignUp sizeof_vertices (2 ^ a)"
      "bi_offset (uniform_buffer_info y) = AlignUp (bi_offset (index_buffer_info y) + sizeof_indices) (2 ^ b)"
      "memory_offset (texture1_info y) = ucast (AlignUp (word_of_int n0) (2 ^ c))"
    using assms(1,2) unfolding small_alignments_def
    by (auto simp: plan_memory_def and_then_Inr_iff s32_val_def Let_def case_prod_beta n0_def n1_def split: if_splits) metis
  have q: "buffer_memory_size y = AlignUp (bi_offset (uniform_buffer_info y) + ucast UniformBufferSize) (2 ^ 12)"
      "image_memory_size y = AlignUp (ucast (memory_offset (texture1_info y)) + word_of_int n1) (2 ^ 12)" "texture0_size y = n0" "texture1_size y = n1"
    using assms(1) by (auto simp: plan_memory_def and_then_Inr_iff s32_val_def Let_def case_prod_beta n0_def n1_def TargetMemoryPoolAlignment_def split: if_splits)
  have z: "unat sizeof_vertices = 720" "unat sizeof_indices = 24" "unat UniformBufferSize = 1600" "unat (ucast UniformBufferSize :: u64) = 1600"
    by (simp_all add: sizeof_vertices_def vertices_def sizeof_indices_def indices_def UniformBufferSize_def sizeof_ViewArg_def CubeCount_def CubePositions_def)
  note i1 = AlignUp_bounds [OF p(1), of sizeof_vertices, folded p(4), unfolded z, simplified]
  have u1: "unat (bi_offset (index_buffer_info y) + sizeof_indices) = unat (bi_offset (index_buffer_info y)) + 24" using i1 z by (simp add: unat_add_small)
  have i2: "unat (bi_offset (index_buffer_info y)) + 24 \<le> unat (bi_offset (uniform_buffer_info y))"
      "unat (bi_offset (uniform_buffer_info y)) < unat (bi_offset (index_buffer_info y)) + 24 + 2 ^ 16"
    using AlignUp_bounds [OF p(2), of "bi_offset (index_buffer_info y) + sizeof_indices"] i1 unfolding p(5) [symmetric] u1 by simp_all
  have u2: "unat (bi_offset (uniform_buffer_info y) + ucast UniformBufferSize) = unat (bi_offset (uniform_buffer_info y)) + 1600"
    using i1 i2 z(4) unat_add_small [of "bi_offset (uniform_buffer_info y)" "ucast UniformBufferSize"] by simp
  have i3: "unat (bi_offset (uniform_buffer_info y)) + 1600 \<le> unat (buffer_memory_size y)"
    using AlignUp_bounds [of 12 "bi_offset (uniform_buffer_info y) + ucast UniformBufferSize"] i1 i2 unfolding q(1) u2 by simp
  have i4: "nat n0 \<le> unat (AlignUp (word_of_int n0) (2 ^ c))" "unat (AlignUp (word_of_int n0) (2 ^ c)) < 2 ^ 32"
    using AlignUp_bounds [OF p(3), of "word_of_int n0"] n0 by simp_all
  then have i5: "unat (memory_offset (texture1_info y)) = unat (AlignUp (word_of_int n0) (2 ^ c))" "unat (ucast (memory_offset (texture1_info y)) :: u64) = unat (memory_offset (texture1_info y))"
    unfolding p(6) by (simp_all add: unsigned_ucast_eq unsigned_take_bit_eq take_bit_nat_eq_self)
  have u3: "unat (ucast (memory_offset (texture1_info y)) + word_of_int n1 :: u64) = unat (memory_offset (texture1_info y)) + nat n1"
    using i4(2) i5 n1 by (subst unat_add_small) simp_all
  have i6: "unat (memory_offset (texture1_info y)) + nat n1 \<le> unat (image_memory_size y)"
    using AlignUp_bounds [of 12 "ucast (memory_offset (texture1_info y)) + word_of_int n1"] i4(2) i5(1) n1(2) unfolding q(2) u3 by simp
  show "unat sizeof_vertices \<le> unat (bi_offset (index_buffer_info y))"
    "unat (bi_offset (index_buffer_info y)) + unat sizeof_indices \<le> unat (bi_offset (uniform_buffer_info y))"
    "unat (bi_offset (uniform_buffer_info y)) + unat UniformBufferSize \<le> unat (buffer_memory_size y)"
    "nat (texture0_size y) \<le> unat (memory_offset (texture1_info y))"
    "unat (memory_offset (texture1_info y)) + nat (texture1_size y) \<le> unat (image_memory_size y)"
    "unat (word_of_int (texture0_size y) :: u64) = nat (texture0_size y)" "unat (word_of_int (texture1_size y) :: u64) = nat (texture1_size y)"
    "unat (ucast (memory_offset (texture1_info y)) :: u64) = unat (memory_offset (texture1_info y))"
    using i1 i2 i3 i4(1) i5 i6 z(1-3) n0(1) n1(1) unfolding q(3,4) by simp_all
qed

lemma fill_after_plan:
  assumes "plan_memory drv ctx i j g = Inr (y, g')" and "small_alignments drv ctx" and "nb \<noteq> 0" and "ni \<noteq> 0"
    and "0 \<le> image_width i * image_height i" and "0 \<le> image_width j * image_height j" and "0 \<le> image_channels j"
  shows "\<exists>l'. fill_memory y i j nb ni l = Inr l'"
proof -
  note p = plan_bounds [OF assms(1,2,5-7)]
  have "unat (of_nat (sizeof_ViewArg * CubeCount) :: u64) = unat UniformBufferSize"
    by (simp add: UniformBufferSize_def sizeof_ViewArg_def CubeCount_def CubePositions_def)
  then show ?thesis
    by (intro fill_memory_returns [OF assms(3,4)]) (use p in \<open>simp_all del: of_nat_mult\<close>)
qed

text \<open>
  C18. The layout that \<open>SetupTriangle\<close> plans is sound: the vertices, the indices and the matrices have places in the memory of the buffers that do not overlap, and so
  have the two images in theirs; all copies stay inside, so that the memory is filled without an error. (Sizes of the images that do not overflow an \<open>int\<close> are what
  lets the plan return; the alignments are the driver's.)
\<close>

theorem setup_memory_fits:
  assumes "plan_memory drv ctx i j g = Inr (y, g')" and "small_alignments drv ctx" and "nb \<noteq> 0" and "ni \<noteq> 0"
    and "0 \<le> image_width i * image_height i" and "0 \<le> image_width j * image_height j" and "0 \<le> image_channels j"
  shows "unat sizeof_vertices \<le> unat (bi_offset (index_buffer_info y)) \<and>
    unat (bi_offset (index_buffer_info y)) + unat sizeof_indices \<le> unat (bi_offset (uniform_buffer_info y)) \<and>
    unat (bi_offset (uniform_buffer_info y)) + unat UniformBufferSize \<le> unat (buffer_memory_size y) \<and>
    nat (texture0_size y) \<le> unat (memory_offset (texture1_info y)) \<and>
    unat (memory_offset (texture1_info y)) + nat (texture1_size y) \<le> unat (image_memory_size y) \<and>
    (\<exists>l'. fill_memory y i j nb ni l = Inr l')"
  using plan_bounds [OF assms(1,2,5-7)] fill_after_plan [OF assms] by blast

section \<open>Setting up creates what the program owns\<close>

definition owned_handles :: "learn \<Rightarrow> (vk_kind \<times> u64) multiset" where
  "owned_handles l = owned_shader (vk_shader l) + object VkDescriptorPool (m_vk_descriptor_pool (vk_texture_descriptor_pool l)) +
    object VkDescriptorPool (m_vk_descriptor_pool (vk_sampler_descriptor_pool l)) + owned_texture_view (vk_texture_view0 l) +
    owned_texture_view (vk_texture_view1 l) + object VkSampler (vk_sampler l)"

definition owned_resources :: "learn_addresses \<Rightarrow> cmd_world \<Rightarrow> (vk_kind \<times> u64) multiset" where
  "owned_resources A w = owned_texture (textures w (a_texture0 A)) + owned_texture (textures w (a_texture1 A)) + owned_buffer (buffers w (a_uniform_buffer A)) +
    owned_buffer (buffers w (a_index_buffer A)) + owned_buffer (buffers w (a_vertex_buffer A))"

definition owned_learn :: "learn_addresses \<Rightarrow> program \<Rightarrow> (vk_kind \<times> u64) multiset" where
  "owned_learn A s = owned_handles (fst s) + owned_resources A (snd s) + owned_pools A (snd s)"

text \<open>The objects with static storage before the first use: zeroed, and each at an address of its own.\<close>

definition static_start :: "learn_addresses \<Rightarrow> cmd_world \<Rightarrow> bool" where
  "static_start A w \<longleftrightarrow> fresh_pool (pools w (a_buffer_memory A)) \<and> fresh_pool (pools w (a_image_memory A)) \<and>
    \<not> m_import (textures w (a_texture0 A)) \<and> \<not> m_import (textures w (a_texture1 A)) \<and>
    distinct [a_buffer_memory A, a_image_memory A] \<and> distinct [a_vertex_buffer A, a_index_buffer A, a_uniform_buffer A] \<and> distinct [a_texture0 A, a_texture1 A]"

lemma setup_shader_owns:
  assumes "setup_shader drv ctx vf ff (l, w) = Inr (l', w')"
  shows "\<exists>sh g. l' = l\<lparr>vk_shader := sh\<rparr> \<and> w' = set_calls g w \<and> vk_objects g = vk_objects (calls w) + owned_shader sh \<and> (valid_use (calls w) \<longrightarrow> valid_use g)"
proof -
  obtain i sh g where i: "Shader_Initialize_primitive drv ctx i Shader_new (calls w) = Inr (sh, g)" "l' = l\<lparr>vk_shader := sh\<rparr>" "w' = set_calls g w"
    using assms by (auto simp: setup_shader_def Let_def and_then_Inr_iff)
  from primitive_shader.init_owns [OF TrueI i(1)] primitive_shader.init_valid [OF TrueI i(1)] i(2,3) show ?thesis by blast
qed

lemma plan_memory_objects:
  assumes "plan_memory drv ctx i j g = Inr (y, g')"
  shows "vk_objects g' = vk_objects g" "valid_use g' = valid_use g"
proof -
  have o: "vk_objects (snd (Buffer_GetAlignment drv ctx b u)) = vk_objects u" "valid_use (snd (Buffer_GetAlignment drv ctx b u)) = valid_use u"
      "vk_objects (snd (GetRequiredMemoryAlignment drv ctx f u)) = vk_objects u" "valid_use (snd (GetRequiredMemoryAlignment drv ctx f u)) = valid_use u" for b f u
    by (simp_all add: Buffer_GetAlignment_def GetRequiredMemoryAlignment_def GetMemoryRequirements_def ask_def objects_other)
  show "vk_objects g' = vk_objects g" "valid_use g' = valid_use g"
    using assms by (auto simp: plan_memory_def and_then_Inr_iff Let_def case_prod_beta o)
qed

lemma fill_memory_handles: "fill_memory y i j a b l = Inr l' \<Longrightarrow> owned_handles l' = owned_handles l"
  by (auto simp: fill_memory_def and_then_Inr_iff owned_handles_def)

lemma setup_pools_owns:
  assumes "setup_pools drv ctx A y (l, w) = Inr (l', w')" and "static_start A w"
  shows "l' = l" "vk_objects (calls w') = vk_objects (calls w) + owned_pools A w'" "valid_use (calls w) \<longrightarrow> valid_use (calls w')"
    "pool_ok (pools w' (a_buffer_memory A)) \<and> pool_ok (pools w' (a_image_memory A))" "buffers w' = buffers w" "textures w' = textures w"
proof -
  let ?b = "a_buffer_memory A" and ?m = "a_image_memory A"
  have f: "fresh_pool (pools w ?b)" "fresh_pool (pools w ?m)" and d: "?b \<noteq> ?m" using assms(2) by (simp_all add: static_start_def)
  obtain i j p g q h where
    1: "MemoryPool_Initialize drv ctx i (pools w ?b) (calls w) = Inr (p, g)" and
    2: "MemoryPool_Initialize drv ctx j (pools w ?m) g = Inr (q, h)" and
    3: "l' = l" "w' = set_pool ?m (q, h) (set_pool ?b (p, g) w)"
    using assms(1) d by (auto simp: setup_pools_def and_then_Inr_iff Let_def set_pool_def split: prod.splits)
  show "l' = l" "buffers w' = buffers w" "textures w' = textures w" using 3 by (simp_all add: set_pool_def)
  show "vk_objects (calls w') = vk_objects (calls w) + owned_pools A w'"
    using pool.init_owns [OF f(1) 1] pool.init_owns [OF f(2) 2] d by (simp add: 3 set_pool_def owned_pools_def)
  show "valid_use (calls w) \<longrightarrow> valid_use (calls w')"
    using pool.init_valid [OF f(1) 1] pool.init_valid [OF f(2) 2] by (simp add: 3 set_pool_def)
  show "pool_ok (pools w' ?b) \<and> pool_ok (pools w' ?m)"
    using fresh_pool_Initialize [OF 1 f(1)] fresh_pool_Initialize [OF 2 f(2)] d by (simp add: 3 set_pool_def pool_ok_def)
qed

lemma setup_buffer_owns:
  assumes "setup_buffer drv ctx A i a w = Inr w'"
  shows "\<exists>b g. w' = set_buffer a (b, g) w \<and> vk_objects g = vk_objects (calls w) + owned_buffer b \<and> (valid_use (calls w) \<longrightarrow> valid_use g) \<and>
    b_bound_memory_pool b = a_buffer_memory A"
proof -
  obtain b g where b: "Buffer_Initialize drv ctx (i, a_buffer_memory A, pools w (a_buffer_memory A)) (buffers w a) (calls w) = Inr (b, g)" "w' = set_buffer a (b, g) w"
    using assms by (auto simp: setup_buffer_def and_then_Inr_iff)
  moreover have "b_bound_memory_pool b = a_buffer_memory A" using b(1) by (auto simp: Buffer_Initialize_def and_then_Inr_iff Let_def)
  ultimately show ?thesis using buffer.init_owns [OF TrueI b(1)] buffer.init_valid [OF TrueI b(1)] by blast
qed

lemma setup_texture_owns:
  assumes "setup_texture drv ctx A i a w = Inr w'" and "\<not> m_import (textures w a)"
  shows "\<exists>t g. w' = set_texture a (t, g) w \<and> vk_objects g = vk_objects (calls w) + owned_texture t \<and> (valid_use (calls w) \<longrightarrow> valid_use g)"
proof -
  obtain t g where t: "Texture_Initialize drv ctx (i, a_image_memory A, pools w (a_image_memory A)) (textures w a) (calls w) = Inr (t, g)" "w' = set_texture a (t, g) w"
    using assms(1) by (auto simp: setup_texture_def and_then_Inr_iff)
  then show ?thesis using texture.init_owns [OF assms(2) t(1)] texture.init_valid [OF assms(2) t(1)] by blast
qed

lemma setup_resources_owns:
  assumes "setup_resources drv ctx A y (l, w) = Inr (l', w')"
    and "distinct [a_vertex_buffer A, a_index_buffer A, a_uniform_buffer A]" "distinct [a_texture0 A, a_texture1 A]"
    and "\<not> m_import (textures w (a_texture0 A))" "\<not> m_import (textures w (a_texture1 A))"
  shows "l' = l \<and> pools w' = pools w \<and> vk_objects (calls w') = vk_objects (calls w) + owned_resources A w' \<and> (valid_use (calls w) \<longrightarrow> valid_use (calls w')) \<and>
    b_bound_memory_pool (buffers w' (a_vertex_buffer A)) = a_buffer_memory A"
proof -
  obtain w1 w2 w3 w4 where
    1: "setup_buffer drv ctx A (vertex_buffer_info y) (a_vertex_buffer A) w = Inr w1" and
    2: "setup_buffer drv ctx A (index_buffer_info y) (a_index_buffer A) w1 = Inr w2" and
    3: "setup_buffer drv ctx A (uniform_buffer_info y) (a_uniform_buffer A) w2 = Inr w3" and
    4: "setup_texture drv ctx A (texture0_info y) (a_texture0 A) w3 = Inr w4" and
    5: "setup_texture drv ctx A (texture1_info y) (a_texture1 A) w4 = Inr w'" "l' = l"
    using assms(1) by (auto simp: setup_resources_def and_then_Inr_iff)
  obtain b1 g1 b2 g2 b3 g3 where b: "w1 = set_buffer (a_vertex_buffer A) (b1, g1) w" "w2 = set_buffer (a_index_buffer A) (b2, g2) w1"
      "w3 = set_buffer (a_uniform_buffer A) (b3, g3) w2" "vk_objects g1 = vk_objects (calls w) + owned_buffer b1"
      "vk_objects g2 = vk_objects (calls w1) + owned_buffer b2" "vk_objects g3 = vk_objects (calls w2) + owned_buffer b3"
      "valid_use (calls w) \<longrightarrow> valid_use g1" "valid_use (calls w1) \<longrightarrow> valid_use g2" "valid_use (calls w2) \<longrightarrow> valid_use g3"
      "b_bound_memory_pool b1 = a_buffer_memory A"
    using setup_buffer_owns [OF 1] setup_buffer_owns [OF 2] setup_buffer_owns [OF 3] by blast
  have "textures w3 = textures w" by (simp add: b(1-3) set_buffer_def)
  then obtain t4 g4 where t: "w4 = set_texture (a_texture0 A) (t4, g4) w3" "vk_objects g4 = vk_objects (calls w3) + owned_texture t4"
      "valid_use (calls w3) \<longrightarrow> valid_use g4"
    using setup_texture_owns [OF 4] assms(4) by auto
  have "\<not> m_import (textures w4 (a_texture1 A))" using \<open>textures w3 = textures w\<close> assms(3,5) by (simp add: t(1) set_texture_def)
  then obtain t5 g5 where u: "w' = set_texture (a_texture1 A) (t5, g5) w4" "vk_objects g5 = vk_objects (calls w4) + owned_texture t5"
      "valid_use (calls w4) \<longrightarrow> valid_use g5"
    using setup_texture_owns [OF 5(1)] by auto
  have "vk_objects (calls w') = vk_objects (calls w) + owned_resources A w'"
    using b(4-6) t(2) u(2) assms(2,3) by (simp add: u(1) t(1) b(1-3) set_buffer_def set_texture_def owned_resources_def ac_simps)
  moreover have "valid_use (calls w) \<longrightarrow> valid_use (calls w')"
    using b(7-9) t(3) u(3) by (simp add: u(1) t(1) b(1-3) set_buffer_def set_texture_def)
  moreover have "b_bound_memory_pool (buffers w' (a_vertex_buffer A)) = a_buffer_memory A" "pools w' = pools w"
    using assms(2) b(10) by (simp_all add: u(1) t(1) b(1-3) set_buffer_def set_texture_def)
  ultimately show ?thesis using 5(2) by blast
qed

lemma setup_views_owns:
  assumes "setup_views drv A (l, w) = Inr (l', w')"
  shows "\<exists>v0 v1 sm g. l' = l\<lparr>vk_texture_view0 := v0, vk_texture_view1 := v1, vk_sampler := sm\<rparr> \<and> w' = set_calls g w \<and>
    vk_objects g = vk_objects (calls w) + owned_texture_view v0 + owned_texture_view v1 + object VkSampler sm \<and> (valid_use (calls w) \<longrightarrow> valid_use g)"
proof -
  obtain i v0 g0 j v1 g1 sm g where
    1: "TextureView_Initialize drv (textures w) i (vk_texture_view0 l) (calls w) = Inr (v0, g0)" and
    2: "TextureView_Initialize drv (textures w) j (vk_texture_view1 l) g0 = Inr (v1, g1)" and
    3: "Sampler_Initialize drv SamplerInfo_SetDefaults (vk_sampler l) g1 = Inr (sm, g)" and
    4: "l' = l\<lparr>vk_texture_view0 := v0, vk_texture_view1 := v1, vk_sampler := sm\<rparr>" "w' = set_calls g w"
    using assms by (auto simp: setup_views_def Let_def and_then_Inr_iff)
  show ?thesis
    using texture_view.init_owns [OF TrueI 1] texture_view.init_owns [OF TrueI 2] sampler.init_owns [OF TrueI 3]
      texture_view.init_valid [OF TrueI 1] texture_view.init_valid [OF TrueI 2] sampler.init_valid [OF TrueI 3] 4 by auto
qed

lemma register_objects:
  "RegisterTexture drv v p g = Inr (k, p', g') \<Longrightarrow> m_vk_descriptor_pool p' = m_vk_descriptor_pool p \<and> vk_objects g' = vk_objects g \<and> valid_use g' = valid_use g"
  "RegisterSampler drv sm p g = Inr (k, p', g') \<Longrightarrow> m_vk_descriptor_pool p' = m_vk_descriptor_pool p \<and> vk_objects g' = vk_objects g \<and> valid_use g' = valid_use g"
  "UnregisterResourceBySlot junk k p = Inr p' \<Longrightarrow> m_vk_descriptor_pool p' = m_vk_descriptor_pool p"
  by (auto simp: RegisterTexture_def RegisterSampler_def GetNewDescriptorId_def UnregisterResourceBySlot_def vk_simps Let_def objects_other split: if_splits)

lemma setup_descriptors_owns:
  assumes "setup_descriptors drv ctx junk (l, w) = Inr (l', w')"
  shows "\<exists>st tp sp a b c g. l' = l\<lparr>vk_pipeline_cmd_state := st, vk_texture_descriptor_pool := tp, vk_sampler_descriptor_pool := sp, sampler_slot := a,
      texture_view0_slot := b, texture_view1_slot := c\<rparr> \<and> w' = set_calls g w \<and> vk_objects g = vk_objects (calls w) +
      object VkDescriptorPool (m_vk_descriptor_pool tp) + object VkDescriptorPool (m_vk_descriptor_pool sp) \<and> (valid_use (calls w) \<longrightarrow> valid_use g)"
proof -
  obtain i tp g0 j sp g1 k sp' g2 v0 tp1 g3 v1 tp2 g where
    1: "DescriptorPool_Initialize drv ctx i (vk_texture_descriptor_pool l) (calls w) = Inr (tp, g0)" and
    2: "DescriptorPool_Initialize drv ctx j (vk_sampler_descriptor_pool l) g0 = Inr (sp, g1)" and
    3: "RegisterSampler drv (vk_sampler l) sp g1 = Inr (k, sp', g2)" and
    4: "RegisterTexture drv (vk_texture_view0 l) tp g2 = Inr (v0, tp1, g3)" and 5: "RegisterTexture drv (vk_texture_view1 l) tp1 g3 = Inr (v1, tp2, g)" and
    6: "l' = l\<lparr>vk_pipeline_cmd_state := learn_pipeline_state (vk_pipeline_cmd_state l), vk_texture_descriptor_pool := tp2, vk_sampler_descriptor_pool := sp',
      sampler_slot := k, texture_view0_slot := v0, texture_view1_slot := v1\<rparr>" "w' = set_calls g w"
    using assms by (auto simp: setup_descriptors_def Let_def and_then_Inr_iff)
  have "vk_objects g = vk_objects (calls w) + object VkDescriptorPool (m_vk_descriptor_pool tp2) + object VkDescriptorPool (m_vk_descriptor_pool sp')"
      "valid_use (calls w) \<longrightarrow> valid_use g"
    using descriptor_pool.init_owns [OF TrueI 1] descriptor_pool.init_owns [OF TrueI 2] descriptor_pool.init_valid [OF TrueI 1]
      descriptor_pool.init_valid [OF TrueI 2] register_objects(2) [OF 3] register_objects(1) [OF 4] register_objects(1) [OF 5] by auto
  with 6 show ?thesis by blast
qed

lemma setup_owns:
  assumes "SetupTriangle drv ctx A f (l, w) = Inr (l', w')" and "static_start A w"
  shows "vk_objects (calls w') = vk_objects (calls w) + owned_learn A (l', w')" "valid_use (calls w) \<longrightarrow> valid_use (calls w')" "pools_ok A w'"
proof -
  obtain l1 w1 y g2 l3 l4 w4 l5 w5 l6 w6 where
    1: "setup_shader drv ctx (vertex_file f) (fragment_file f) (l, w) = Inr (l1, w1)" and
    2: "plan_memory drv ctx (image0_file f) (image1_file f) (calls w1) = Inr (y, g2)" and
    3: "fill_memory y (image0_file f) (image1_file f) (new_buffer_memory f) (new_image_memory f) l1 = Inr l3" and
    4: "setup_pools drv ctx A y (l3, set_calls g2 w1) = Inr (l4, w4)" and
    5: "setup_resources drv ctx A y (l4, w4) = Inr (l5, w5)" and
    6: "setup_views drv A (l5, w5) = Inr (l6, w6)" and
    7: "setup_descriptors drv ctx (new_stack_junk f) (l6, w6) = Inr (l', w')"
    using assms(1) by (auto simp: SetupTriangle_def and_then_Inr_iff)
  obtain sh g where s1: "l1 = l\<lparr>vk_shader := sh\<rparr>" "w1 = set_calls g w" "vk_objects g = vk_objects (calls w) + owned_shader sh"
      "valid_use (calls w) \<longrightarrow> valid_use g"
    using setup_shader_owns [OF 1] by blast
  have s3: "vk_shader l3 = sh" using 3 s1(1) by (auto simp: fill_memory_def and_then_Inr_iff)
  have st: "static_start A (set_calls g2 w1)" using assms(2) by (simp add: s1(2) set_calls_def static_start_def)
  note s4 = setup_pools_owns [OF 4 st]
  have d: "distinct [a_vertex_buffer A, a_index_buffer A, a_uniform_buffer A]" "distinct [a_texture0 A, a_texture1 A]"
      "\<not> m_import (textures w4 (a_texture0 A))" "\<not> m_import (textures w4 (a_texture1 A))" "a_buffer_memory A \<noteq> a_image_memory A"
    using st s4(6) by (simp_all add: static_start_def)
  note s5 = setup_resources_owns [OF 5 d(1-4)]
  obtain v0 v1 sm g6 where s6: "l6 = l5\<lparr>vk_texture_view0 := v0, vk_texture_view1 := v1, vk_sampler := sm\<rparr>" "w6 = set_calls g6 w5"
      "vk_objects g6 = vk_objects (calls w5) + owned_texture_view v0 + owned_texture_view v1 + object VkSampler sm" "valid_use (calls w5) \<longrightarrow> valid_use g6"
    using setup_views_owns [OF 6] by blast
  obtain ps tp sp a b c g7 where s7: "l' = l6\<lparr>vk_pipeline_cmd_state := ps, vk_texture_descriptor_pool := tp, vk_sampler_descriptor_pool := sp, sampler_slot := a,
      texture_view0_slot := b, texture_view1_slot := c\<rparr>" "w' = set_calls g7 w6" "vk_objects g7 = vk_objects (calls w6) +
      object VkDescriptorPool (m_vk_descriptor_pool tp) + object VkDescriptorPool (m_vk_descriptor_pool sp)" "valid_use (calls w6) \<longrightarrow> valid_use g7"
    using setup_descriptors_owns [OF 7] by blast
  note o2 = plan_memory_objects [OF 2]
  have w': "buffers w' = buffers w5" "textures w' = textures w5" "pools w' = pools w4" using s6(2) s7(2) s5 by (simp_all add: set_calls_def)
  have "vk_shader l' = sh" "owned_resources A w' = owned_resources A w5" "owned_pools A w' = owned_pools A w4"
    using s3 s4(1) s5 w' by (simp_all add: s7(1) s6(1) owned_resources_def owned_pools_def)
  then show "vk_objects (calls w') = vk_objects (calls w) + owned_learn A (l', w')"
    using s1(3) o2(1) s4(2) s5 s6(3) s7(3) by (simp add: s1(2) s6(1,2) s7(1,2) set_calls_def owned_learn_def owned_handles_def ac_simps)
  show "valid_use (calls w) \<longrightarrow> valid_use (calls w')"
    using s1(4) o2(2) s4(3) s5 s6(4) s7(4) by (simp add: s1(2) s6(2) s7(2) set_calls_def)
  show "pools_ok A w'" using s4(4) s5 w' d(5) by (simp add: pools_ok_def)
qed

end
