(* ===== verification/Learn_Lifetime.thy ===== *)
theory Learn_Lifetime
  imports Learn_Setup
begin

text \<open>
  The test program from start to end: setting up, drawing any number of frames and cleaning up destroys exactly what was created (\<open>triangle_balanced\<close>), and
  the whole program leaves only the swapchain behind, so that its device is destroyed too early (\<open>program_leaves_swapchain\<close>).
\<close>

section \<open>Cleaning up destroys it\<close>

context vk_owner
begin

lemma release:
  assumes "fin s w = (s', w')" and "vk_objects w = owned s + m"
  shows "vk_objects w' = m" "valid_use w \<longrightarrow> valid_use w'"
  using fin_frees [OF assms(1)] fin_valid [OF assms(1)] assms(2) by simp_all

lemma release_snd: "vk_objects w = owned s + m \<Longrightarrow> vk_objects (snd (fin s w)) = m \<and> (valid_use w \<longrightarrow> valid_use (snd (fin s w)))"
  using release [of s w "fst (fin s w)" "snd (fin s w)" m] by simp

end

lemma clean_descriptors_frees:
  assumes "clean_descriptors drv junk (l, w) = Inr (l', w')"
    and "vk_objects (calls w) = owned_shader (vk_shader l) + (object VkDescriptorPool (m_vk_descriptor_pool (vk_texture_descriptor_pool l)) +
      (object VkDescriptorPool (m_vk_descriptor_pool (vk_sampler_descriptor_pool l)) + m))"
  shows "vk_objects (calls w') = m" "valid_use (calls w) \<longrightarrow> valid_use (calls w')"
    "pools w' = pools w \<and> buffers w' = buffers w \<and> textures w' = textures w \<and> vk_texture_view0 l' = vk_texture_view0 l \<and> vk_texture_view1 l' = vk_texture_view1 l \<and> vk_sampler l' = vk_sampler l"
proof -
  obtain sh g1 tp1 tp2 tp3 g2 sp1 sp2 g3 where
    1: "Shader_Finalize drv (vk_shader l) (calls w) = (sh, g1)" and
    2: "UnregisterResourceBySlot junk (texture_view1_slot l) (vk_texture_descriptor_pool l) = Inr tp1" and
    3: "UnregisterResourceBySlot junk (texture_view0_slot l) tp1 = Inr tp2" and 4: "DescriptorPool_Finalize drv tp2 g1 = (tp3, g2)" and
    5: "UnregisterResourceBySlot junk (sampler_slot l) (vk_sampler_descriptor_pool l) = Inr sp1" and 6: "DescriptorPool_Finalize drv sp1 g2 = (sp2, g3)" and
    7: "w' = set_calls g3 w" "l' = l\<lparr>vk_shader := sh, vk_texture_descriptor_pool := tp3, vk_sampler_descriptor_pool := sp2\<rparr>"
    using assms(1) by (auto simp: clean_descriptors_def Let_def and_then_Inr_iff Shader_Finalize_def DescriptorPool_Finalize_def)
  have p: "m_vk_descriptor_pool tp2 = m_vk_descriptor_pool (vk_texture_descriptor_pool l)" "m_vk_descriptor_pool sp1 = m_vk_descriptor_pool (vk_sampler_descriptor_pool l)"
    using register_objects(3) [OF 2] register_objects(3) [OF 3] register_objects(3) [OF 5] by simp_all
  note r1 = primitive_shader.release [OF 1 assms(2)]
  note r2 = descriptor_pool.release [OF 4 r1(1) [folded p]]
  note r3 = descriptor_pool.release [OF 6 r2(1)]
  show "vk_objects (calls w') = m" "valid_use (calls w) \<longrightarrow> valid_use (calls w')" using r1(2) r2(2) r3 by (simp_all add: 7 set_calls_def)
  show "pools w' = pools w \<and> buffers w' = buffers w \<and> textures w' = textures w \<and> vk_texture_view0 l' = vk_texture_view0 l \<and> vk_texture_view1 l' = vk_texture_view1 l \<and> vk_sampler l' = vk_sampler l"
    by (simp add: 7 set_calls_def)
qed

lemma clean_resources_calls:
  assumes "distinct [a_buffer_memory A, a_image_memory A]" "distinct [a_vertex_buffer A, a_index_buffer A, a_uniform_buffer A]" "distinct [a_texture0 A, a_texture1 A]"
  shows "calls (snd (clean_resources drv A (l, w))) =
    snd (MemoryPool_Finalize drv (pools w (a_buffer_memory A)) (snd (MemoryPool_Finalize drv (pools w (a_image_memory A))
    (snd (Buffer_Finalize drv (buffers w (a_vertex_buffer A)) (snd (Buffer_Finalize drv (buffers w (a_index_buffer A))
    (snd (Buffer_Finalize drv (buffers w (a_uniform_buffer A)) (snd (Sampler_Finalize drv (vk_sampler l)
    (snd (Texture_Finalize drv (textures w (a_texture1 A)) (snd (Texture_Finalize drv (textures w (a_texture0 A))
    (snd (TextureView_Finalize drv (vk_texture_view1 l) (snd (TextureView_Finalize drv (vk_texture_view0 l) (calls w))))))))))))))))))))"
  using assms by (simp add: clean_resources_def Let_def case_prod_beta set_pool_def set_buffer_def set_texture_def set_calls_def)

lemma clean_frees:
  assumes "CleanTriangle drv A junk (l, w) = Inr (l', w')" and "vk_objects (calls w) = owned_learn A (l, w) + m"
    and "distinct [a_buffer_memory A, a_image_memory A]" "distinct [a_vertex_buffer A, a_index_buffer A, a_uniform_buffer A]" "distinct [a_texture0 A, a_texture1 A]"
  shows "vk_objects (calls w') = m \<and> (valid_use (calls w) \<longrightarrow> valid_use (calls w'))"
proof -
  let ?r = "owned_texture_view (vk_texture_view0 l) + (owned_texture_view (vk_texture_view1 l) + (owned_texture (textures w (a_texture0 A)) +
    (owned_texture (textures w (a_texture1 A)) + (object VkSampler (vk_sampler l) + (owned_buffer (buffers w (a_uniform_buffer A)) +
    (owned_buffer (buffers w (a_index_buffer A)) + (owned_buffer (buffers w (a_vertex_buffer A)) + (owned_pool (pools w (a_image_memory A)) +
    (owned_pool (pools w (a_buffer_memory A)) + m)))))))))"
  obtain l1 w1 where 1: "clean_descriptors drv junk (l, w) = Inr (l1, w1)" "clean_resources drv A (l1, w1) = (l', w')"
    using assms(1) by (auto simp: CleanTriangle_def and_then_Inr_iff)
  have "vk_objects (calls w) = owned_shader (vk_shader l) + (object VkDescriptorPool (m_vk_descriptor_pool (vk_texture_descriptor_pool l)) +
      (object VkDescriptorPool (m_vk_descriptor_pool (vk_sampler_descriptor_pool l)) + ?r))"
    unfolding assms(2) owned_learn_def owned_handles_def owned_resources_def owned_pools_def by (simp add: ac_simps)
  note d = clean_descriptors_frees [OF 1(1) this]
  have f: "pools w1 = pools w" "buffers w1 = buffers w" "textures w1 = textures w" "vk_texture_view0 l1 = vk_texture_view0 l" "vk_texture_view1 l1 = vk_texture_view1 l"
      "vk_sampler l1 = vk_sampler l"
    using d(3) by simp_all
  have c: "calls w' = calls (snd (clean_resources drv A (l1, w1)))" using 1(2) by simp
  note r1 = texture_view.release_snd [OF d(1), where drv = drv]
  note r2 = texture_view.release_snd [OF conjunct1 [OF r1], where drv = drv]
  note r3 = texture.release_snd [OF conjunct1 [OF r2], where drv = drv]
  note r4 = texture.release_snd [OF conjunct1 [OF r3], where drv = drv]
  note r5 = sampler.release_snd [OF conjunct1 [OF r4], where drv = drv]
  note r6 = buffer.release_snd [OF conjunct1 [OF r5], where drv = drv]
  note r7 = buffer.release_snd [OF conjunct1 [OF r6], where drv = drv]
  note r8 = buffer.release_snd [OF conjunct1 [OF r7], where drv = drv]
  note r9 = pool.release_snd [OF conjunct1 [OF r8], where drv = drv]
  note r10 = pool.release_snd [OF conjunct1 [OF r9], where drv = drv]
  show ?thesis
    unfolding c clean_resources_calls [OF assms(3-5)] f using r1 r2 r3 r4 r5 r6 r7 r8 r9 r10 d(2) by blast
qed

section \<open>The whole program\<close>

lemma frame_handles:
  assumes "Draw_frame drv ctx A skip ct dt x y (l, s) = Inr (sent, l', s')"
  shows "owned_handles l' = owned_handles l"
proof (cases skip)
  case False
  with assms have "Draw_frame drv ctx A False ct dt x y (l, s) = Inr (sent, l', s')" by simp
  then show ?thesis
    by (rule Draw_frame_Inr)
      (auto simp: write_uniforms_def Let_def and_then_Inr_iff owned_handles_def split: if_splits prod.splits)
qed (use assms in \<open>simp add: Draw_frame_def\<close>)

lemma CalcTriangle_handles: "CalcTriangle x l = Inr l' \<Longrightarrow> owned_handles l' = owned_handles l"
  by (auto simp: CalcTriangle_def Let_def and_then_Inr_iff owned_handles_def)

text \<open>What the passes of the main loop keep.\<close>

definition loop_kept :: "learn_addresses \<Rightarrow> running \<Rightarrow> running \<Rightarrow> bool" where
  "loop_kept A s s' \<longleftrightarrow> (case (s, s') of ((l, cbs, w), (l', cbs', w')) \<Rightarrow>
    pools_ok A w \<longrightarrow> pools_ok A w' \<and> map owned_command_buffer cbs' = map owned_command_buffer cbs \<and>
    vk_objects (calls w') + owned_learn A (l, w) = vk_objects (calls w) + owned_learn A (l', w') \<and> (valid_use (calls w') \<longleftrightarrow> valid_use (calls w)))"

lemma main_frame_kept:
  assumes "main_frame drv ctx A x s = Inr s'"
  shows "loop_kept A s s'"
proof -
  obtain l cbs w l' cbs' w' t i where s: "s = (l, cbs, w)" "s' = (l', cbs', w')" "x = (t, i)" by (cases s, cases s', cases x)
  obtain sent l1 cb where d: "Draw_frame drv ctx A (skip_draw t) (current_color_target t) (current_depth_target t) (window_width i) (window_height i)
      (l, cbs ! current_frame t, w) = Inr (sent, l1, cb, w')" and c: "CalcTriangle i l1 = Inr l'" and b: "cbs' = cbs[current_frame t := cb]" "current_frame t < length cbs"
    using assms by (auto simp: s main_frame_def and_then_Inr_iff split: if_splits)
  have h: "owned_handles l' = owned_handles l" using frame_handles [OF d] CalcTriangle_handles [OF c] by simp
  show ?thesis
  proof (cases "pools_ok A w")
    case True
    then have k: "pools_ok A w'" "same_handles (cbs ! current_frame t, w) (cb, w')" "vk_objects (calls w') + owned_pools A w = vk_objects (calls w) + owned_pools A w'"
        "valid_use (calls w') = valid_use (calls w)"
      using keeps_frame [OF d] by (simp_all add: keeps_def)
    then have m: "map owned_command_buffer cbs' = map owned_command_buffer cbs"
      using b by (simp add: same_handles_def map_update list_update_same_conv)
    have r: "owned_resources A w' = owned_resources A w" using k(2) by (simp add: same_handles_def owned_resources_def)
    have "vk_objects (calls w') + owned_learn A (l, w) = (vk_objects (calls w') + owned_pools A w) + owned_handles l + owned_resources A w"
      by (simp add: owned_learn_def ac_simps)
    also have "\<dots> = vk_objects (calls w) + owned_learn A (l', w')" unfolding k(3) by (simp add: owned_learn_def h r ac_simps)
    finally show ?thesis using k(1,4) m by (simp add: loop_kept_def s)
  qed (simp add: loop_kept_def s)
qed

lemma main_loop_kept: "main_loop drv ctx A xs s = Inr s' \<Longrightarrow> loop_kept A s s'"
proof (induction xs arbitrary: s)
  case (Cons x xs)
  then obtain u where u: "main_frame drv ctx A x s = Inr u" "main_loop drv ctx A xs u = Inr s'" by (auto simp: and_then_Inr_iff)
  obtain l cbs w l1 cbs1 w1 l' cbs' w' where s: "s = (l, cbs, w)" "u = (l1, cbs1, w1)" "s' = (l', cbs', w')" by (cases s, cases u, cases s')
  note f = main_frame_kept [OF u(1), unfolded loop_kept_def s prod.case] and r = Cons.IH [OF u(2), unfolded loop_kept_def s prod.case]
  show ?case
    unfolding loop_kept_def s prod.case
  proof (intro impI conjI)
    assume ok: "pools_ok A w"
    note f = f [rule_format, OF ok]
    note r = r [rule_format, OF conjunct1 [OF f]]
    show "pools_ok A w'" "map owned_command_buffer cbs' = map owned_command_buffer cbs" "valid_use (calls w') = valid_use (calls w)"
      using f r by simp_all
    show "vk_objects (calls w') + owned_learn A (l, w) = vk_objects (calls w) + owned_learn A (l', w')"
      by (rule balance_trans [of _ _ _ "owned_learn A (l1, w1)"]) (use f r in blast)+
  qed
qed (simp add: loop_kept_def split: prod.split)

text \<open>
  What \<open>SetupTriangle\<close> creates, and what any number of frames adds to it when memory is relocated, \<open>CleanTriangle\<close> destroys: each object once, and nothing else. The waits in
  between change nothing.
\<close>

theorem triangle_balanced:
  assumes "SetupTriangle drv ctx A f (l, w) = Inr (l1, w1)" and "static_start A w" and "main_loop drv ctx A frames (l1, cbs, w1) = Inr (l2, cbs', w2)"
    and "vk_objects g = vk_objects (calls w2)" and "valid_use g = valid_use (calls w2)" and "CleanTriangle drv A junk (l2, set_calls g w2) = Inr (l3, w3)"
  shows "vk_objects (calls w3) = vk_objects (calls w) \<and> (valid_use (calls w) \<longrightarrow> valid_use (calls w3)) \<and>
    map owned_command_buffer cbs' = map owned_command_buffer cbs"
proof -
  note s = setup_owns [OF assms(1,2)]
  have k: "map owned_command_buffer cbs' = map owned_command_buffer cbs"
      "vk_objects (calls w2) + owned_learn A (l1, w1) = vk_objects (calls w1) + owned_learn A (l2, w2)" "valid_use (calls w2) = valid_use (calls w1)"
    using main_loop_kept [OF assms(3)] s(3) by (simp_all add: loop_kept_def)
  have "vk_objects (calls w2) + owned_learn A (l1, w1) = (owned_learn A (l2, w2) + vk_objects (calls w)) + owned_learn A (l1, w1)"
    unfolding k(2) s(1) by (simp add: ac_simps)
  then have "vk_objects (calls (set_calls g w2)) = owned_learn A (l2, set_calls g w2) + vk_objects (calls w)"
    using assms(4) by (simp add: set_calls_def owned_learn_def owned_resources_def owned_pools_def)
  from clean_frees [OF assms(6) this] assms(2,5) k s(2) show ?thesis by (simp add: static_start_def set_calls_def)
qed

lemma context_start_objects:
  assumes "context_start drv sys ma sf x y junk P g = Inr (P', g')" and "display_sizes (display_part P)"
  shows "vk_objects g' = vk_objects g + owned_context (fst (context_part P')) + object VkSwapchainKHR (m_vk_swapchain (display_part P')) +
      owned_display (display_part P') + (\<Sum>cb\<leftarrow>command_part P'. owned_command_buffer cb)"
    "valid_use g \<longrightarrow> valid_use g'" "display_ok (display_part P')"
proof -
  obtain c t g1 d g2 cbs where
    1: "Context_new drv sys (context_part P) g = Inr ((c, t), g1)" and 2: "DisplayBuffer_Initialize drv c ma sf x y (display_part P) g1 = Inr (d, g2)" and
    3: "each_init (CommandBuffer_Initialize drv c) (map (\<lambda>cb. ((GetDrawMemorySize 2 2, junk), cb)) (command_part P)) g2 = Inr (cbs, g')" and
    4: "P' = \<lparr>context_part = (c, t), display_part = d, command_part = cbs\<rparr>"
    using assms(1) by (auto simp: context_start_def and_then_Inr_iff)
  note a = Context_new_objects [OF 1] and b = Initialize_objects [OF 2 assms(2)] and e = command_buffer.each_init_owns [OF 3]
  show "vk_objects g' = vk_objects g + owned_context (fst (context_part P')) + object VkSwapchainKHR (m_vk_swapchain (display_part P')) +
      owned_display (display_part P') + (\<Sum>cb\<leftarrow>command_part P'. owned_command_buffer cb)" "valid_use g \<longrightarrow> valid_use g'" "display_ok (display_part P')"
    using a b e by (simp_all add: 4)
qed

lemma Context_delete_objects: "vk_objects w = owned_context c + m \<Longrightarrow> vk_objects (Context_delete drv c w) = m"
  by (simp add: Context_delete_def tell_eq owned_context_def ac_simps)

lemma context_stop_objects:
  assumes "vk_objects g = owned_context (fst (context_part P)) + object VkSwapchainKHR h + owned_display (display_part P) +
      (\<Sum>cb\<leftarrow>command_part P. owned_command_buffer cb)" and "display_ok (display_part P)"
  shows "vk_objects (context_stop drv P g) = object VkSwapchainKHR h"
    and "h \<noteq> 0 \<Longrightarrow> m_vk_device (fst (context_part P)) \<noteq> 0 \<Longrightarrow> \<not> valid_use (context_stop drv P g)"
proof -
  define c where "c = fst (context_part P)"
  define g1 where "g1 = tell drv (vkDeviceWaitIdle (m_vk_device c)) (tell drv (vkQueueWaitIdle (m_vk_graphics_queue c)) g)"
  obtain d g2 cbs g3 where f: "DisplayBuffer_Finalize drv (display_part P) g1 = (d, g2)" "each_fin (CommandBuffer_Finalize drv) (command_part P) g2 = (cbs, g3)"
    by fastforce
  have e: "context_stop drv P g = Context_delete drv c g3" using f by (simp add: context_stop_def Let_def c_def g1_def)
  have "vk_objects g1 = owned_display (display_part P) + ((\<Sum>cb\<leftarrow>command_part P. owned_command_buffer cb) + (owned_context c + object VkSwapchainKHR h))"
    using assms(1) by (simp add: g1_def c_def tell_eq ac_simps)
  note o2 = Finalize_objects(1) [OF f(1) assms(2) this]
  have "(\<Sum>cb\<leftarrow>command_part P. owned_command_buffer cb) \<subseteq># vk_objects g2" by (simp add: o2)
  from command_buffer.each_fin_frees [OF f(2) this] have o3: "vk_objects g3 = owned_context c + object VkSwapchainKHR h" by (simp add: o2)
  then show "vk_objects (context_stop drv P g) = object VkSwapchainKHR h" unfolding e by (rule Context_delete_objects)
  assume "h \<noteq> 0" "m_vk_device (fst (context_part P)) \<noteq> 0"
  moreover from this o3 have "(VkSwapchainKHR, h) \<in># vk_objects g3" by (simp add: object_def)
  ultimately show "\<not> valid_use (context_stop drv P g)" using context_deleted_too_early [of VkSwapchainKHR h g3 c drv] by (simp add: e c_def)
qed

lemma create_handle: "gives_handles drv \<Longrightarrow> creates c \<noteq> None \<Longrightarrow> create drv c w = Inr (h, w') \<Longrightarrow> h \<noteq> 0"
  by (auto simp: gives_handles_def create_Inr_iff)

lemma context_start_handles:
  assumes "context_start drv sys ma sf x y junk P g = Inr (P', g')" and "display_sizes (display_part P)" and "gives_handles drv"
  shows "m_vk_device (fst (context_part P')) \<noteq> 0" "m_vk_swapchain (display_part P') \<noteq> 0"
proof -
  obtain c t g1 d g2 cbs where
    1: "Context_new drv sys (context_part P) g = Inr ((c, t), g1)" and 2: "DisplayBuffer_Initialize drv c ma sf x y (display_part P) g1 = Inr (d, g2)" and
    3: "P' = \<lparr>context_part = (c, t), display_part = d, command_part = cbs\<rparr>"
    using assms(1) by (auto simp: context_start_def and_then_Inr_iff)
  obtain s w0 i w1 where "create drv (vkCreateDevice s i DeviceExtensions TargetDeviceFeatures) w0 = Inr (m_vk_device c, w1)"
    using 1 by (auto simp: Context_new_def create_device_def create_layouts_def and_then_Inr_iff ask_def Let_def)
  from create_handle [OF assms(3) _ this] show "m_vk_device (fst (context_part P')) \<noteq> 0" by (simp add: 3)
  show "m_vk_swapchain (display_part P') \<noteq> 0" using Initialize_objects(4) [OF 2 assms(2)] create_handle [OF assms(3), of "vkCreateSwapchainKHR _"] by (auto simp: 3)
qed

text \<open>
  C16. The program from its start to its end, over any number of frames and whatever the driver answers: of all it creates, exactly the swapchain is never
  destroyed, and since it was made from the device, destroying the device at the end is not allowed. (Objects with static storage start zeroed and have
  addresses of their own; a driver gives no null handle for an object it has created.)
\<close>

theorem program_leaves_swapchain:
  assumes "main_program drv sys ma sf x y junk A f frames clean_junk P (l, w) = Inr g" and "calls w = []"
    and "static_start A w" and "display_sizes (display_part P)" and "gives_handles drv"
  shows "\<exists>h. vk_objects g = {#(VkSwapchainKHR, h)#} \<and> \<not> valid_use g"
proof -
  obtain P1 g1 l2 w2 l3 cbs w3 l4 w4 where
    1: "context_start drv sys ma sf x y junk P [] = Inr (P1, g1)" and 2: "SetupTriangle drv (fst (context_part P1)) A f (l, set_calls g1 w) = Inr (l2, w2)" and
    3: "main_loop drv (fst (context_part P1)) A frames (l2, command_part P1, w2) = Inr (l3, cbs, w3)" and
    4: "CleanTriangle drv A clean_junk (l3, set_calls (tell drv (vkDeviceWaitIdle (m_vk_device (fst (context_part P1))))
      (tell drv (vkQueueWaitIdle (m_vk_graphics_queue (fst (context_part P1)))) (calls w3))) w3) = Inr (l4, w4)" and
    5: "g = context_stop drv (P1\<lparr>command_part := cbs\<rparr>) (calls w4)"
    using assms(1,2) by (auto simp: main_program_def and_then_Inr_iff Let_def)
  note s = context_start_objects [OF 1 assms(4)] and n = context_start_handles [OF 1 assms(4,5)]
  have st: "static_start A (set_calls g1 w)" using assms(3) by (simp add: static_start_def set_calls_def)
  have t: "vk_objects (calls w4) = vk_objects g1" "map owned_command_buffer cbs = map owned_command_buffer (command_part P1)"
    using triangle_balanced [OF 2 st 3 _ _ 4] by (simp_all add: tell_eq set_calls_def)
  let ?P = "P1\<lparr>command_part := cbs\<rparr>"
  have "vk_objects (calls w4) = owned_context (fst (context_part ?P)) + object VkSwapchainKHR (m_vk_swapchain (display_part P1)) + owned_display (display_part ?P) +
      (\<Sum>cb\<leftarrow>command_part ?P. owned_command_buffer cb)"
    using s(1) t by simp
  from context_stop_objects [OF this, of drv] s(3) n show ?thesis by (simp add: 5 object_def)
qed

end
