(* ===== verification/Learn_Runs.thy ===== *)
theory Learn_Runs
  imports Learn_Lifetime
begin

text \<open>
  The test program returns: with a driver that obliges (\<open>obliging\<close>), enough memory and images of a reasonable size, no assertion of the setup fails and no access is out of bounds
  (\<open>setup_returns\<close>); the parts of the context thread return as well. A concrete driver, images and window then run the whole program, and a frame of it.
\<close>

section \<open>A driver that obliges\<close>

definition obliging :: "vk_driver \<Rightarrow> bool" where
  "obliging drv \<longleftrightarrow> (\<forall>w c. (\<forall>d q. c \<noteq> vkGetPhysicalDeviceWin32PresentationSupportKHR d q) \<longrightarrow> vk_result (drv w c) = VK_SUCCESS)"

lemma obliging_create: "obliging drv \<Longrightarrow> (\<And>d q. c \<noteq> vkGetPhysicalDeviceWin32PresentationSupportKHR d q) \<Longrightarrow> create drv c w = Inr (vk_value (drv w c), w @ [(c, drv w c)])"
  by (auto simp: obliging_def create_Inr_iff)

lemma obliging_checked: "obliging drv \<Longrightarrow> (\<And>d q. c \<noteq> vkGetPhysicalDeviceWin32PresentationSupportKHR d q) \<Longrightarrow> checked drv c w = Inr (drv w c, w @ [(c, drv w c)])"
  by (simp add: obliging_def checked_def ask_def dd_assert_def)

lemmas obliging_simps = obliging_create obliging_checked and_then.simps prod.case

lemma make_modules_returns: "obliging drv \<Longrightarrow> \<exists>hs g'. create_modules drv cs g = Inr (hs, g')"
proof (induction cs arbitrary: g)
  case (Cons c cs)
  obtain h g1 where h: "create_module drv c g = Inr (h, g1)" using Cons.prems by (cases "snd c = 0") (auto simp: create_module_def obliging_simps)
  then show ?case using Cons.IH [OF Cons.prems, of g1] by auto
qed simp

lemma setup_shader_returns: 
  assumes "obliging drv"
  shows "\<exists>sh g. setup_shader drv ctx vf ff (l, w) = Inr (l\<lparr>vk_shader := sh\<rparr>, set_calls g w)"
proof -
  have "\<exists>x. Shader_Initialize_primitive drv ctx i Shader_new (calls w) = Inr x" for i
    using make_modules_returns [OF assms, of "primitive_code i" "calls w"] assms
    by (auto simp: Shader_Initialize_primitive_def make_pipeline_def primitive_pipeline_def obliging_simps)
  then show ?thesis unfolding setup_shader_def Let_def prod.case by (metis (no_types, lifting) and_then.simps(2) case_prod_conv surj_pair)
qed

lemma pool_Initialize_returns:
  assumes "obliging drv" and "import_memory i \<noteq> 0" and "FindMemoryHeapIndex ctx (vk_memory_property_flags i) \<noteq> - 1" and "FindMemoryHeapIndex ctx host_memory \<noteq> - 1"
  shows "\<exists>x. MemoryPool_Initialize drv ctx i p g = Inr x"
  using assms by (auto simp: MemoryPool_Initialize_def choose_host_memory_def obliging_simps dd_assert_def Let_def)

lemma buffer_texture_return:
  assumes "obliging drv"
  shows "\<exists>x. setup_buffer drv ctx A i a w = Inr x" "\<exists>x. setup_texture drv ctx A j a w = Inr x"
  using assms by (auto simp: setup_buffer_def setup_texture_def Buffer_Initialize_def Texture_Initialize_def obliging_simps)

lemma setup_views_returns:
  assumes "obliging drv" and "a_texture0 A \<noteq> 0" and "a_texture1 A \<noteq> 0"
  shows "\<exists>x. setup_views drv A (l, w) = Inr x"
  using assms by (auto simp: setup_views_def TextureView_Initialize_def Sampler_Initialize_def obliging_simps dd_deref_def Let_def)

lemma setup_descriptors_returns:
  assumes "obliging drv" and "m_free_id_stack_count (vk_texture_descriptor_pool l) = 0" and "m_free_id_stack_count (vk_sampler_descriptor_pool l) = 0"
  shows "\<exists>l' g. setup_descriptors drv ctx junk (l, w) = Inr (l', set_calls g w) \<and> sampler_slot l' = 0 \<and> texture_view0_slot l' = 0 \<and> texture_view1_slot l' = 1 \<and>
    m_texture_id_count (vk_texture_descriptor_pool l') = 2 \<and> m_texture_id_count (vk_sampler_descriptor_pool l') = 1"
  using assms
  by (simp add: setup_descriptors_def DescriptorPool_Initialize_def RegisterSampler_def RegisterTexture_def GetNewDescriptorId_def dd_assert_def Let_def
      VK_DESCRIPTOR_TYPE_SAMPLER_def VK_DESCRIPTOR_TYPE_SAMPLED_IMAGE_def obliging_create) (rule exI, rule refl)

text \<open>The memory that the program asks for is there.\<close>

definition memory_available :: "vk_context \<Rightarrow> bool" where
  "memory_available ctx \<longleftrightarrow> FindMemoryHeapIndex ctx host_memory \<noteq> - 1 \<and> FindMemoryHeapIndex ctx VK_MEMORY_PROPERTY_DEVICE_LOCAL_BIT \<noteq> - 1 \<and>
    FindMemoryHeapIndex ctx (VK_MEMORY_PROPERTY_DEVICE_LOCAL_BIT OR VK_MEMORY_PROPERTY_HOST_VISIBLE_BIT OR VK_MEMORY_PROPERTY_HOST_COHERENT_BIT) \<noteq> - 1"

definition image_ok :: "image_file \<Rightarrow> int \<Rightarrow> bool" where
  "image_ok f channels \<longleftrightarrow> 0 \<le> image_width f * image_height f \<and> s32_ok (image_width f * image_height f) \<and> 0 \<le> channels \<and>
    s32_ok (image_width f * image_height f * channels)"

lemma plan_memory_returns:
  assumes "image_ok i 4" and "image_ok j (image_channels j)"
  shows "\<exists>y g'. plan_memory drv ctx i j g = Inr (y, g')"
  using assms by (simp add: plan_memory_def image_ok_def Let_def case_prod_beta)

lemma setup_runs:
  assumes "obliging drv" and "small_alignments drv ctx" and "memory_available ctx" and "image_ok (image0_file f) 4" and "image_ok (image1_file f) (image_channels (image1_file f))"
    and "new_buffer_memory f \<noteq> 0" and "new_image_memory f \<noteq> 0" and "a_texture0 A \<noteq> 0" and "a_texture1 A \<noteq> 0"
    and "m_free_id_stack_count (vk_texture_descriptor_pool l) = 0" and "m_free_id_stack_count (vk_sampler_descriptor_pool l) = 0"
  shows "\<exists>l' w'. SetupTriangle drv ctx A f (l, w) = Inr (l', w') \<and> sampler_slot l' = 0 \<and> texture_view0_slot l' = 0 \<and> texture_view1_slot l' = 1 \<and>
    (\<forall>g. \<exists>s''. CleanTriangle drv A junk (l', set_calls g w') = Inr s'')"
proof -
  obtain sh g where 1: "setup_shader drv ctx (vertex_file f) (fragment_file f) (l, w) = Inr (l\<lparr>vk_shader := sh\<rparr>, set_calls g w)"
    using setup_shader_returns [OF assms(1)] by blast
  obtain y g2 where 2: "plan_memory drv ctx (image0_file f) (image1_file f) (calls (set_calls g w)) = Inr (y, g2)" using plan_memory_returns assms(4,5) by blast
  obtain l3 where 3: "fill_memory y (image0_file f) (image1_file f) (new_buffer_memory f) (new_image_memory f) (l\<lparr>vk_shader := sh\<rparr>) = Inr l3"
    using fill_after_plan [OF 2 assms(2,6,7)] assms(4,5) by (auto simp: image_ok_def)
  have f: "memory_buffer l3 \<noteq> 0" "memory_image l3 \<noteq> 0" "vk_texture_descriptor_pool l3 = vk_texture_descriptor_pool l"
      "vk_sampler_descriptor_pool l3 = vk_sampler_descriptor_pool l"
    using 3 assms(6,7) by (auto simp: fill_memory_def and_then_Inr_iff)
  obtain w4 where 4: "setup_pools drv ctx A y (l3, set_calls g2 (set_calls g w)) = Inr (l3, w4)"
    using pool_Initialize_returns [OF assms(1)] f assms(3) unfolding setup_pools_def memory_available_def Let_def prod.case
    by (metis (no_types, lifting) MemoryPoolInfo.select_convs(2,3) and_then.simps(2))
  obtain w5 where 5: "setup_resources drv ctx A y (l3, w4) = Inr (l3, w5)"
    using buffer_texture_return [OF assms(1), of ctx A] unfolding setup_resources_def prod.case by (metis (no_types, lifting) and_then.simps(2))
  obtain l6 w6 where 6: "setup_views drv A (l3, w5) = Inr (l6, w6)" using setup_views_returns [OF assms(1,8,9)] by fastforce
  have g: "vk_texture_descriptor_pool l6 = vk_texture_descriptor_pool l" "vk_sampler_descriptor_pool l6 = vk_sampler_descriptor_pool l"
    using setup_views_owns [OF 6] f(3,4) by auto
  obtain l' g7 where 7: "setup_descriptors drv ctx (new_stack_junk f) (l6, w6) = Inr (l', set_calls g7 w6)" "sampler_slot l' = 0" "texture_view0_slot l' = 0"
      "texture_view1_slot l' = 1" "m_texture_id_count (vk_texture_descriptor_pool l') = 2" "m_texture_id_count (vk_sampler_descriptor_pool l') = 1"
    using setup_descriptors_returns [OF assms(1), of l6 ctx "new_stack_junk f" w6] assms(10,11) g by auto
  have "\<forall>g. \<exists>s''. CleanTriangle drv A junk (l', set_calls g (set_calls g7 w6)) = Inr s''"
    by (simp add: CleanTriangle_def clean_descriptors_def UnregisterResourceBySlot_def Shader_Finalize_def DescriptorPool_Finalize_def Let_def 7(2-))
  moreover have "SetupTriangle drv ctx A f (l, w) = Inr (l', set_calls g7 w6)" by (simp add: SetupTriangle_def 1 2 3 4 5 6 7(1))
  ultimately show ?thesis using 7(2-4) by blast
qed

text \<open>
  C17. With a driver that obliges, enough memory, images whose sizes fit in an \<open>int\<close> and objects that start zeroed, \<open>SetupTriangle\<close> returns: no assertion fails and
  no access is out of bounds. The descriptors of the textures and of the sampler get the first slots of their pools, and \<open>CleanTriangle\<close> returns when it is called then.
\<close>

theorem setup_returns:
  assumes "obliging drv" and "small_alignments drv ctx" and "memory_available ctx" and "image_ok (image0_file f) 4" and "image_ok (image1_file f) (image_channels (image1_file f))"
    and "new_buffer_memory f \<noteq> 0" and "new_image_memory f \<noteq> 0" and "a_texture0 A \<noteq> 0" and "a_texture1 A \<noteq> 0"
    and "m_free_id_stack_count (vk_texture_descriptor_pool l) = 0" and "m_free_id_stack_count (vk_sampler_descriptor_pool l) = 0"
  shows "\<exists>l' w'. SetupTriangle drv ctx A f (l, w) = Inr (l', w') \<and> sampler_slot l' = 0 \<and> texture_view0_slot l' = 0 \<and> texture_view1_slot l' = 1 \<and>
    (\<forall>g. \<exists>s''. CleanTriangle drv A junk (l', set_calls g w') = Inr s'')"
  by (rule setup_runs) (use assms in simp_all)

section \<open>The parts of the context thread return\<close>

lemma create_list_returns: "obliging drv \<Longrightarrow> \<forall>c\<in>set cs. creates c \<noteq> None \<Longrightarrow> \<exists>x. create_list drv cs g = Inr x"
proof (induction cs arbitrary: g)
  case (Cons c cs)
  have "c \<noteq> vkGetPhysicalDeviceWin32PresentationSupportKHR d q" for d q using Cons.prems(2) by auto
  then obtain h g1 where "create drv c g = Inr (h, g1)" using obliging_create [OF Cons.prems(1), of c g] by blast
  then show ?case using Cons.IH [OF Cons.prems(1), of g1] Cons.prems(2) by auto
qed simp

lemma each_init_returns: "(\<And>x g. x \<in> set xs \<Longrightarrow> \<exists>r. f (fst x) (snd x) g = Inr r) \<Longrightarrow> \<exists>r. each_init f xs g = Inr r"
proof (induction xs arbitrary: g)
  case (Cons x xs)
  obtain s g1 where "f (fst x) (snd x) g = Inr (s, g1)" using Cons.prems [of x g] by auto
  moreover obtain r where "each_init f xs g1 = Inr r" using Cons.IH [of g1] Cons.prems by auto
  ultimately show ?case by (cases x, cases r) simp
qed simp

definition addresses_ok :: "member_addresses \<Rightarrow> bool" where
  "addresses_ok ma \<longleftrightarrow> (\<forall>i<BufferedFrames. texture_address ma i \<noteq> 0) \<and> depth_texture_address ma \<noteq> 0"

lemma swapchain_images_returns:
  assumes "obliging drv" and "addresses_ok ma"
  shows "\<exists>x. swapchain_images drv ma d g = Inr x"
proof -
  let ?i = "map (\<lambda>i. target_info VK_FORMAT_B8G8R8A8_SRGB (texture_address ma i)) [0..<BufferedFrames]"
  have r: "\<exists>r. each_init (image_target drv) (zip (zip ts ?i) vs) g' = Inr r" for ts vs g'
    by (rule each_init_returns)
      (use assms in \<open>auto simp: image_target_def ColorTargetView_Initialize_def target_info_def obliging_simps dd_deref_def addresses_ok_def set_zip\<close>)
  obtain a g1 where 1: "checked drv (vkGetSwapchainImagesKHR (m_vk_swapchain d) (of_nat BufferedFrames)) g = Inr (a, g1)" using obliging_checked [OF assms(1)] by blast
  let ?ts = "map2 Texture_ImportExisting (take BufferedFrames (vk_values a @ replicate BufferedFrames 0)) (m_vk_swapchain_textures d)"
  obtain vs g2 where "each_init (image_target drv) (zip (zip ?ts ?i) (m_vk_swapchain_targets d)) g1 = Inr (vs, g2)" using r [of ?ts "m_vk_swapchain_targets d" g1] by auto
  then show ?thesis unfolding swapchain_images_def 1 and_then.simps prod.case Let_def by simp
qed

lemma create_depth_returns:
  assumes "obliging drv" and "addresses_ok ma"
  shows "\<exists>r. create_depth drv ctx ma x y d g = Inr r"
  using assms by (auto simp: create_depth_def Texture_Initialize_def DepthStencilTargetView_Initialize_def target_info_def obliging_simps dd_deref_def addresses_ok_def
      GetRequiredMemorySize_def GetMemoryRequirements_def ask_def Let_def)

lemma Display_returns:
  assumes "obliging drv" and "addresses_ok ma"
  shows "\<exists>d' g'. DisplayBuffer_Initialize drv ctx ma sf x y d g = Inr (d', g')"
proof -
  have i: "\<exists>d' g'. swapchain_images drv ma d g = Inr (d', g')" for d g using swapchain_images_returns [OF assms] by fastforce
  have s: "\<exists>hs g'. create_list drv (replicate n vkCreateSemaphore) g = Inr (hs, g')" "\<exists>hs g'. create_list drv (replicate n (vkCreateFence b)) g = Inr (hs, g')" for n b g
    using create_list_returns [OF assms(1), of "replicate n vkCreateSemaphore" g] create_list_returns [OF assms(1), of "replicate n (vkCreateFence b)" g] by auto
  have c: "\<exists>d' g'. create_depth drv ctx ma x y d g = Inr (d', g')" for d g using create_depth_returns [OF assms] by fastforce
  let ?d = "(SetDimensions (real (unat x)) (real (unat y)) (SetVirtualCanvasSize (real (unat x)) (real (unat y)) d))\<lparr>m_vk_surface := sf\<rparr>"
  obtain h g1 where 1: "create drv (vkCreateSwapchainKHR (swapchain_info ctx sf x y 0)) g = Inr (h, g1)" using obliging_create [OF assms(1)] by blast
  obtain d2 g2 where 2: "swapchain_images drv ma (?d\<lparr>m_vk_swapchain := h\<rparr>) g1 = Inr (d2, g2)" using i by blast
  obtain ss g3 where 3: "create_list drv (replicate FramesInFlight vkCreateSemaphore) g2 = Inr (ss, g3)" using s(1) by blast
  obtain a g4 where 4: "create drv (vkCreateFence False) g3 = Inr (a, g4)" using obliging_create [OF assms(1)] by blast
  obtain fs g5 where 5: "create_list drv (replicate FramesInFlight (vkCreateFence True)) g4 = Inr (fs, g5)" using s(2) by blast
  show ?thesis
    unfolding DisplayBuffer_Initialize_def Let_def 1 and_then.simps prod.case 2 3 4 5 using c assms(1) by (simp add: acquire_image_def obliging_simps)
qed

lemma command_buffers_return:
  assumes "obliging drv" and "memory_available ctx"
  shows "\<exists>cbs' g'. each_init (CommandBuffer_Initialize drv ctx) (map (\<lambda>cb. ((n, junk), cb)) cbs) g = Inr (cbs', g')"
proof -
  have "\<exists>r. each_init (CommandBuffer_Initialize drv ctx) (map (\<lambda>cb. ((n, junk), cb)) cbs) g = Inr r"
    by (rule each_init_returns) (use assms in \<open>auto simp: CommandBuffer_Initialize_def obliging_simps ask_def Let_def dd_assert_def memory_available_def\<close>)
  then show ?thesis by auto
qed

section \<open>Examples\<close>

definition obliging_driver :: vk_driver where
  "obliging_driver w c =
    (if c = vkEnumerateInstanceVersion then \<lparr>vk_result = VK_SUCCESS, vk_value = ucast TargetMinimumApiVersion, vk_values = []\<rparr>
     else if c = vkEnumeratePhysicalDevices False then \<lparr>vk_result = VK_SUCCESS, vk_value = 1, vk_values = []\<rparr>
     else if c = vkEnumeratePhysicalDevices True then \<lparr>vk_result = VK_SUCCESS, vk_value = 1, vk_values = [12]\<rparr>
     else if c = vkGetPhysicalDeviceWin32PresentationSupportKHR 12 1 then \<lparr>vk_result = VK_TRUE, vk_value = 0, vk_values = []\<rparr>
     else \<lparr>vk_result = VK_SUCCESS, vk_value = 64, vk_values = [64]\<rparr>)"

lemma obliging_driver_obliges: "obliging obliging_driver" "gives_handles obliging_driver" "small_alignments obliging_driver ctx"
proof -
  show "obliging obliging_driver" by (simp add: obliging_def obliging_driver_def)
  have "creates c \<noteq> None \<Longrightarrow> c \<noteq> vkEnumerateInstanceVersion \<and> c \<noteq> vkEnumeratePhysicalDevices b \<and> c \<noteq> vkGetPhysicalDeviceWin32PresentationSupportKHR d q" for c b d q
    by (cases c) simp_all
  then show "gives_handles obliging_driver" by (simp add: gives_handles_def obliging_driver_def)
  have "(64 :: u64) = 2 ^ 6" by simp
  then show "small_alignments obliging_driver ctx"
    by (auto simp: small_alignments_def Buffer_GetAlignment_def GetRequiredMemoryAlignment_def GetMemoryRequirements_def ask_def obliging_driver_def intro!: exI [of _ 6])
qed

definition example_places :: learn_addresses where
  "example_places = \<lparr>a_buffer_memory = 0x10, a_image_memory = 0x11, a_vertex_buffer = 0x20, a_index_buffer = 0x21, a_uniform_buffer = 0x22, a_texture0 = 0x30, a_texture1 = 0x31\<rparr>"

definition typed_pool :: "u32 \<Rightarrow> descriptor_pool" where
  "typed_pool t = \<lparr>m_vk_descriptor_pool = 0, m_vk_descriptor_set = 0, m_vk_pool_type = t, m_max_slot_ids = 0, m_texture_id_count = 0,
    m_free_id_stack_size = 0, m_free_id_stack_count = 0, m_free_id_stack = []\<rparr>"

definition learn_with :: "LookAtCamera \<Rightarrow> PerspectiveProjection \<Rightarrow> ViewArg list \<Rightarrow> learn" where
  "learn_with c pp vs = \<lparr>vk_shader = Shader_new, vk_pipeline_cmd_state = example_pipeline_state,
    vk_texture_descriptor_pool = typed_pool VK_DESCRIPTOR_TYPE_SAMPLED_IMAGE, vk_sampler_descriptor_pool = typed_pool VK_DESCRIPTOR_TYPE_SAMPLER,
    vk_sampler = 0, vk_texture_view0 = \<lparr>m_vk_image_view = 0, m_parent_texture = 0x30\<rparr>, vk_texture_view1 = \<lparr>m_vk_image_view = 0, m_parent_texture = 0x31\<rparr>,
    texture_view0_slot = 0, texture_view1_slot = 1, sampler_slot = 0, camera = c, perspective_projection = pp, yaw = - 90, pitch = 0,
    memory_buffer = 0, memory_image = 0, buffer_block = \<lparr>hb_size = 0, hb_data = []\<rparr>, image_block = \<lparr>hb_size = 0, hb_data = []\<rparr>, mapped_view_args = vs\<rparr>"

definition example_learn :: learn where "example_learn = learn_with initial_camera initial_projection []"

definition example_images :: setup_files where
  "example_images = \<lparr>vertex_file = (100, 0x40), fragment_file = (100, 0x41), image0_file = \<lparr>image_pixels = 0x50, image_width = 512, image_height = 512, image_channels = 3\<rparr>,
    image1_file = \<lparr>image_pixels = 0x51, image_width = 476, image_height = 476, image_channels = 4\<rparr>, new_buffer_memory = 0x10000, new_image_memory = 0x20000, new_stack_junk = []\<rparr>"

definition start_world :: "vk_log \<Rightarrow> cmd_world" where
  "start_world g = (snd example_recording)\<lparr>calls := g\<rparr>"

lemma example_memory: "memory_types ctx = [1, 6, 7] \<Longrightarrow> memory_available ctx"
  by (simp add: memory_available_def FindMemoryHeapIndex_def host_memory_def VK_MEMORY_PROPERTY_DEVICE_LOCAL_BIT_def VK_MEMORY_PROPERTY_HOST_VISIBLE_BIT_def
      VK_MEMORY_PROPERTY_HOST_COHERENT_BIT_def)

lemma example_setup:
  assumes "memory_types ctx = [1, 6, 7]"
  shows "\<exists>l' w'. SetupTriangle obliging_driver ctx example_places example_images (example_learn, start_world g) = Inr (l', w') \<and>
    sampler_slot l' = 0 \<and> texture_view0_slot l' = 0 \<and> texture_view1_slot l' = 1 \<and> (\<forall>g. \<exists>s''. CleanTriangle obliging_driver example_places [] (l', set_calls g w') = Inr s'')"
  by (rule setup_runs)
    (use example_memory [OF assms] in \<open>simp_all add: obliging_driver_obliges example_images_def example_places_def example_learn_def learn_with_def typed_pool_def image_ok_def s32_ok_def\<close>)

lemma example_context_new:
  "\<exists>c t g. Context_new obliging_driver example_system (example_context, no_procs) [] = Inr ((c, t), g) \<and> memory_types c = [1, 6, 7]"
proof -
  obtain t1 t2 t3 where t: "LoadInitialVkCProcs 1 (\<lambda>_ _. 5) no_procs = Inr t1" "LoadCProcsInstance (\<lambda>_ _ _. 6) 64 t1 = Inr t2"
      "LoadCProcsDevice (\<lambda>_ _ _. 6) 64 t2 = Inr t3"
    by (rule example_procs)
  have c: "queueFlags (example_caps d) = [2, 3]" "memory_type_flags (example_caps d) = [1, 6, 7]" for d by (simp_all add: example_caps_def)
  have v: "TargetMinimumApiVersion \<le> ucast (ucast TargetMinimumApiVersion :: u64)" by (simp add: TargetMinimumApiVersion_def)
  show ?thesis
    by (simp add: v Context_new_def create_instance_def choose_device_def create_device_def create_layouts_def example_system_def t PickValidPhysicalDevice_def
        example_checks assert_if_def VK_TRUE_answer_def create_def checked_def ask_def obliging_driver_def FindGraphicsQueueFamily_def c
        VK_QUEUE_GRAPHICS_BIT_def Let_def)
qed

definition example_parts :: program_parts where
  "example_parts = \<lparr>context_part = (example_context, no_procs), display_part = example_display, command_part = replicate FramesInFlight (fst example_recording)\<rparr>"

lemma example_program:
  "\<exists>g. main_program obliging_driver example_system example_addresses 9 640 480 (\<lambda>_. ResourceBuffer_SetDefaults) example_places example_images [] [] example_parts
    (example_learn, start_world []) = Inr g"
proof -
  obtain c t g1 where 1: "Context_new obliging_driver example_system (example_context, no_procs) [] = Inr ((c, t), g1)" "memory_types c = [1, 6, 7]"
    using example_context_new by blast
  have "addresses_ok example_addresses" by (simp add: addresses_ok_def example_addresses_def BufferedFrames_def less_Suc_eq numeral_3_eq_3)
  then obtain d g2 where 2: "DisplayBuffer_Initialize obliging_driver c example_addresses 9 640 480 example_display g1 = Inr (d, g2)"
    using Display_returns [OF obliging_driver_obliges(1)] by blast
  obtain cbs g3 where 3: "each_init (CommandBuffer_Initialize obliging_driver c) (map (\<lambda>cb. ((GetDrawMemorySize 2 2, \<lambda>_. ResourceBuffer_SetDefaults), cb))
      (replicate FramesInFlight (fst example_recording))) g2 = Inr (cbs, g3)"
    using command_buffers_return [OF obliging_driver_obliges(1) example_memory [OF 1(2)]] by blast
  obtain l' w' where 4: "SetupTriangle obliging_driver c example_places example_images (example_learn, start_world g3) = Inr (l', w')" "sampler_slot l' = 0"
      "texture_view0_slot l' = 0" "texture_view1_slot l' = 1" "\<forall>g. \<exists>s''. CleanTriangle obliging_driver example_places [] (l', set_calls g w') = Inr s''"
    using example_setup [OF 1(2)] by blast
  have w: "set_calls g3 (start_world []) = start_world g3" "calls (start_world []) = []" by (simp_all add: set_calls_def start_world_def)
  let ?g = "tell obliging_driver (vkDeviceWaitIdle (m_vk_device c)) (tell obliging_driver (vkQueueWaitIdle (m_vk_graphics_queue c)) (calls w'))"
  obtain l5 w5 where 5: "CleanTriangle obliging_driver example_places [] (l', set_calls ?g w') = Inr (l5, w5)" using 4(5) by fastforce
  show ?thesis by (simp add: main_program_def context_start_def example_parts_def 1 2 3 [simplified] w 4(1) 5 Let_def)
qed

theorem program_leaves_swapchain_witness:
  "\<exists>g h. main_program obliging_driver example_system example_addresses 9 640 480 (\<lambda>_. ResourceBuffer_SetDefaults) example_places example_images [] [] example_parts
    (example_learn, start_world []) = Inr g \<and> vk_objects g = {#(VkSwapchainKHR, h)#} \<and> \<not> valid_use g"
proof -
  obtain g where g: "main_program obliging_driver example_system example_addresses 9 640 480 (\<lambda>_. ResourceBuffer_SetDefaults) example_places example_images [] []
    example_parts (example_learn, start_world []) = Inr g" using example_program by blast
  have s: "static_start example_places (start_world [])"
    by (simp add: static_start_def start_world_def example_places_def example_recording_def fresh_pool_def blank_pool_def)
  have "calls (start_world []) = []" "display_sizes (display_part example_parts)" by (simp_all add: start_world_def example_parts_def example_display_sizes)
  from program_leaves_swapchain [OF g this(1) s this(2) obliging_driver_obliges(2)] g show ?thesis by blast
qed

definition frame_start :: recording where
  "frame_start = (fst example_recording, (snd example_recording)\<lparr>
    pools := (\<lambda>a. blank_pool\<lparr>m_size := 0x2000, mp_requires_relocation := (a = 0x11)\<rparr>), buffers := (\<lambda>_. blank_buffer\<lparr>b_bound_memory_pool := 0x10\<rparr>)\<rparr>)"

definition frame_begin :: "recording outcome" where
  "frame_begin =
    and_then (CommandBuffer_Begin steady_driver (RegisterFastClearDepthStencil (0, 0) (RegisterFastClearColor (0, 0, 0, 1) frame_start))) (\<lambda>s.
    and_then (SetTextureStateTransition steady_driver 0x80 color_barrier_state VK_IMAGE_ASPECT_COLOR_BIT s) (\<lambda>s.
    and_then (SetTextureStateTransition steady_driver 0x80 depth_barrier_state (VK_IMAGE_ASPECT_DEPTH_BIT OR VK_IMAGE_ASPECT_STENCIL_BIT) s) (\<lambda>s.
    SetRenderTargets 1 [0x60] 0x61 s)))"

definition frame_end :: "learn \<Rightarrow> recording \<Rightarrow> recording outcome" where
  "frame_end l s =
    and_then (transition_textures steady_driver example_context example_places l s) (\<lambda>s.
    and_then (bind_and_draw steady_driver example_context example_places 640 480 l s) (\<lambda>s.
    and_then (SetTextureStateTransition steady_driver 0x80 present_barrier_state VK_IMAGE_ASPECT_COLOR_BIT s) (CommandBuffer_End steady_driver)))"

lemma frame_begin_runs:
  "case frame_begin of Inl e \<Rightarrow> False | Inr s \<Rightarrow> b_bound_memory_pool (buffers (snd s) 0x22) = 0x10 \<and> m_memory_offset (buffers (snd s) 0x22) = 0 \<and>
    (case Buffer_Map steady_driver (buffers (snd s) 0x22) (pools (snd s) 0x10) (calls (snd s)) of Inl e \<Rightarrow> False | Inr (u, p, g) \<Rightarrow> u = 7 \<and> m_size p = 0x2000)"
  by code_simp

lemma frame_end_runs:
  "case frame_begin of Inl e \<Rightarrow> False | Inr s \<Rightarrow>
    (case Buffer_Map steady_driver (buffers (snd s) 0x22) (pools (snd s) 0x10) (calls (snd s)) of Inl e \<Rightarrow> False | Inr (u, p, g) \<Rightarrow>
    (case frame_end (learn_with c pp vs) (fst s, set_pool 0x10 (p, g) (snd s)) of Inl e \<Rightarrow> False | Inr s' \<Rightarrow> True))"
  by code_simp

lemma example_frame: "\<exists>l' s'. Draw_frame steady_driver example_context example_places False 0x60 0x61 640 480 (example_learn, frame_start) = Inr (True, l', s')"
proof -
  obtain cb w where b: "frame_begin = Inr (cb, w)" using frame_begin_runs by (auto split: sum.splits)
  have w: "b_bound_memory_pool (buffers w 0x22) = 0x10" "m_memory_offset (buffers w 0x22) = 0" using frame_begin_runs by (simp_all add: b)
  obtain p g where p: "Buffer_Map steady_driver (buffers w 0x22) (pools w 0x10) (calls w) = Inr (7, p, g)" "m_size p = 0x2000"
    using frame_begin_runs by (auto simp: b split: sum.splits)
  let ?c = "UpdateCameraMatrixSelf initial_camera"
  obtain vs pp where v: "view_arg_loop (\<lambda>i. SetColumn 3 (CubePositions ! i)) [0..<CubeCount] ?c initial_projection = Inr (vs, pp)"
    using matrices_computed(2) by blast
  have n: "sizeof_ViewArg * CubeCount = 1600" by (simp add: sizeof_ViewArg_def CubeCount_def CubePositions_def)
  have u: "write_uniforms steady_driver example_places (example_learn, cb, w) = Inr (learn_with ?c pp vs, cb, set_pool 0x10 (p, g) w)"
    by (simp add: write_uniforms_def example_learn_def learn_with_def example_places_def Let_def v w p dd_deref_def dd_assert_def n)
  obtain s' where e: "frame_end (learn_with ?c pp vs) (cb, set_pool 0x10 (p, g) w) = Inr s'"
    using frame_end_runs [of ?c pp vs] by (auto simp: b p split: sum.splits)
  have t: "m_texture (views (snd frame_start) a) = 0x80" for a by (simp add: frame_start_def example_recording_def)
  from b obtain s1 s2 s3 where 1:
      "CommandBuffer_Begin steady_driver (RegisterFastClearDepthStencil (0, 0) (RegisterFastClearColor (0, 0, 0, 1) frame_start)) = Inr s1"
      "SetTextureStateTransition steady_driver 0x80 color_barrier_state VK_IMAGE_ASPECT_COLOR_BIT s1 = Inr s2"
      "SetTextureStateTransition steady_driver 0x80 depth_barrier_state (VK_IMAGE_ASPECT_DEPTH_BIT OR VK_IMAGE_ASPECT_STENCIL_BIT) s2 = Inr s3"
      "SetRenderTargets 1 [0x60] 0x61 s3 = Inr (cb, w)"
    unfolding frame_begin_def and_then_Inr_iff by blast
  from e obtain s6 s7 s8 where 2: "transition_textures steady_driver example_context example_places (learn_with ?c pp vs) (cb, set_pool 0x10 (p, g) w) = Inr s6"
      "bind_and_draw steady_driver example_context example_places 640 480 (learn_with ?c pp vs) s6 = Inr s7"
      "SetTextureStateTransition steady_driver 0x80 present_barrier_state VK_IMAGE_ASPECT_COLOR_BIT s7 = Inr s8" "CommandBuffer_End steady_driver s8 = Inr s'"
    unfolding frame_end_def and_then_Inr_iff by blast
  show ?thesis by (simp add: Draw_frame_def DrawTriangle_def dd_deref_def t u 1 2 Let_def)
qed

theorem frame_stream_witness:
  "\<exists>l' s'. Draw_frame steady_driver example_context example_places False 0x60 0x61 640 480 (example_learn, frame_start) = Inr (True, l', s') \<and> in_state Initial s'"
proof -
  obtain l' s' where f: "Draw_frame steady_driver example_context example_places False 0x60 0x61 640 480 (example_learn, frame_start) = Inr (True, l', s')"
    using example_frame by blast
  have "in_state Initial frame_start" by (simp add: in_state_def cb_stream_def frame_start_def example_recording_def)
  from frame_stream [OF this f] f show ?thesis by blast
qed

lemma example_plan:
  "case plan_memory obliging_driver example_context (image0_file example_images) (image1_file example_images) [] of Inl e \<Rightarrow> False | Inr x \<Rightarrow>
    bi_offset (uniform_buffer_info (fst x)) = 832 \<and> buffer_memory_size (fst x) = 0x1000"
  by code_simp

theorem setup_memory_fits_witness:
  "\<exists>y g. plan_memory obliging_driver example_context (image0_file example_images) (image1_file example_images) [] = Inr (y, g) \<and>
    bi_offset (uniform_buffer_info y) = 832 \<and> 832 + unat UniformBufferSize \<le> unat (buffer_memory_size y) \<and>
    (\<exists>l'. fill_memory y (image0_file example_images) (image1_file example_images) 1 1 example_learn = Inr l')"
proof -
  obtain y g where y: "plan_memory obliging_driver example_context (image0_file example_images) (image1_file example_images) [] = Inr (y, g)"
      "bi_offset (uniform_buffer_info y) = 832"
    using example_plan by (auto split: sum.splits)
  have "0 \<le> image_width (image0_file example_images) * image_height (image0_file example_images)"
      "0 \<le> image_width (image1_file example_images) * image_height (image1_file example_images)" "0 \<le> image_channels (image1_file example_images)"
    by (simp_all add: example_images_def)
  from setup_memory_fits [OF y(1) obliging_driver_obliges(3) _ _ this, of 1 1 example_learn] y show ?thesis by auto
qed

theorem setup_returns_witness:
  "\<exists>l' w'. SetupTriangle obliging_driver example_context example_places example_images (example_learn, start_world []) = Inr (l', w') \<and> texture_view1_slot l' = 1"
proof -
  have "image_ok (image0_file example_images) 4" "image_ok (image1_file example_images) (image_channels (image1_file example_images))" "new_buffer_memory example_images \<noteq> 0"
      "new_image_memory example_images \<noteq> 0" "a_texture0 example_places \<noteq> 0" "a_texture1 example_places \<noteq> 0"
      "m_free_id_stack_count (vk_texture_descriptor_pool example_learn) = 0" "m_free_id_stack_count (vk_sampler_descriptor_pool example_learn) = 0" "memory_available example_context"
    by (simp_all add: example_images_def example_places_def example_learn_def learn_with_def typed_pool_def image_ok_def s32_ok_def example_memory example_context_def)
  from setup_returns [OF obliging_driver_obliges(1,3) this(9) this(1-8), of "start_world []" "[]"] show ?thesis by blast
qed

end
