(* ===== verification/Spec2Isabelle.thy ===== *)
theory Spec2Isabelle
  imports DD_Prelude DD_Result DD_Bits Intrusive_List Handle_Table Busy_Mutex Message_Queue
    Object_Allocator Time_Span Fiber_State Scheduler Scheduler_Wait Scheduler_Props Scheduler_Wait_Props
    Thread_Lifecycle Fixed_String Path_Util Exp_Heap Exp_Heap_Props
    Critical_Section Sys_Sync Util_Lock Intrusive_Tree Containers Sys_Thread Heap_Manager
    File_Device Resource_Manager Raw_Input Vector_Math
    Vk_Driver Vk_Memory Vk_Shader Vk_Command Vk_Command_Props Vk_Draw_Resources Vk_Proc Vk_Context Vk_Display
    Unit_Tests Scheduler_Tests Trace_Abort Input_Thread Vector_Ops
    Learn_Program Learn_Frame Learn_Setup Learn_Lifetime Learn_Runs
begin

text \<open>
  A verification library for DD-Framework, a C++ framework of games for Windows (the directories are
  relative to \<open>src/libraries/lib_dd/\<close>: headers under \<open>include/dd/\<close>, sources under \<open>source/\<close>).

  \<^bold>\<open>The program.\<close> Its core is a micro kernel in user mode (\<open>ukern\<close>): a scheduler that runs fibers on
  a fixed number of operating system threads, one per core, with priorities, suspension, sleeping, core masks
  and three kinds of waiting (locks, condition keys, addresses). Around it are the heaps (\<open>mem\<close>), the
  threads, mutexes, events and message queues of the program (\<open>sys\<close>), files and resources
  (\<open>res\<close>), the keyboard and the mouse (\<open>hid\<close>), containers, strings, paths, time and results (\<open>util\<close>), and a
  layer over Vulkan (\<open>vk\<close>). The kernel uses the intrusive list, the handle table (under a spin
  lock) and an object allocator; the locks of \<open>sys\<close> are built on the waiting calls of the kernel;
  heaps and managers keep their members in intrusive lists; devices and resources use paths, strings, heaps
  and result codes. The Vulkan layer makes a context (instance, device, layouts) through the loaded entry points, memory pools with buffers and textures
  in them, views, samplers, shaders and descriptor pools from the context, records command buffers over all of these, and shows the result through a display buffer.
  The repository also has a test program that draws cubes with this layer (\<open>src/test_program1\<close>) and unit tests (\<open>src/unit_tests\<close>) with a small tester
  (\<open>src/libraries/lib_unit_tester\<close>), both modelled on top of the parts they use.

  \<^bold>\<open>How code becomes definitions.\<close> A class is a record of its fields, an enumeration a datatype
  or a group of constants, a method a function on the state it changes, with the name of
  the method (a suffix where several classes have it). Integers keep their width; signed
  arithmetic is on integers with the range checked. Whatever stops the program or is undefined is a
  value of \<open>fault\<close> (\<open>DD_Prelude\<close>): a failed assertion, a null pointer, an access out of bounds, a
  shift or an overflow out of range, a pointer that is not what it is used as, a loop that does not
  end. Linked objects are addresses in a memory of links, so that unlinking an object in a loop does what it
  does in the code. A call that switches fibers is cut at the switch: it returns where it is to be resumed.
  What the operating system returns is an argument.

  \<^bold>\<open>Theories, from the bottom up.\<close>
  \<^item> \<open>DD_Prelude\<close>: integer types, outcomes, words; the locales \<open>kept_invariant\<close> and \<open>one_owner\<close> for the
    step relations of the other theories. \<open>DD_Result\<close>: \<open>util_result*.h\<close>, every code and which ones coincide.
    \<open>DD_Bits\<close>: alignment, bit counts, clamping.
  \<^item> \<open>Intrusive_List\<close>, \<open>Intrusive_Tree\<close>: the lists and trees of links; each operation is described on the
    sequence of elements it stands for, and so are the range-based loops, those that unlink what they visit
    included.
  \<^item> \<open>Handle_Table\<close> (locale \<open>object_registry\<close>), \<open>Busy_Mutex\<close> (exclusion for any number of threads),
    \<open>Object_Allocator\<close> (locale \<open>slot_allocator\<close>), \<open>Message_Queue\<close> (locale \<open>bounded_fifo\<close>, interpreted for both
    queues; no wake-up is lost), \<open>Util_Lock\<close> (\<open>util_critsec.hpp\<close>, \<open>util_condvar.hpp\<close>), \<open>Containers\<close>
    (pointer arrays, heap arrays, run-time type information, singletons), \<open>Time_Span\<close> (ticks and time spans),
    \<open>Fixed_String\<close>, \<open>Path_Util\<close>.
  \<^item> \<open>Fiber_State\<close>, \<open>Scheduler\<close>, \<open>Scheduler_Wait\<close>: the state and every call of \<open>ukern_scheduler.cpp\<close>,
    \<open>ukern_fiberlocalstorage.cpp\<close>, \<open>ukern_threadapi.cpp\<close>, \<open>ukern_synchronizationapi.cpp\<close>. \<open>Scheduler_Props\<close>: what a
    pass of the scheduler picks and when a core wakes up. \<open>Scheduler_Wait_Props\<close>: handing over
    locks, waiting and waking (a fiber woken from an address runs after its timeout, with the result of a
    timeout). \<open>Thread_Lifecycle\<close>: the cores as a machine that interleaves the steps of the scheduler and the
    thread calls; no reachable state loses a thread or runs it twice. The waiting calls and priorities no list
    stands for are not steps of that machine: they do lose threads.
  \<^item> \<open>Critical_Section\<close> (\<open>ukern_internalcriticalsection.hpp\<close>, \<open>ukern_internalconditionvariable.hpp\<close>: exclusion of two
    threads in every interleaving of the atomic steps, hand-over, the races of \<open>Leave\<close> with \<open>Enter\<close>),
    \<open>Sys_Sync\<close> (mutexes, events and their service variants), \<open>Sys_Thread\<close> (message threads, the thread manager,
    the blocking queue calls).
  \<^item> \<open>Exp_Heap\<close>, \<open>Exp_Heap_Props\<close>: \<open>mem_expheap.hpp/.cpp\<close>, \<open>mem_heap.hpp\<close>, the lists of blocks and the tree
    of heaps. \<open>Heap_Manager\<close>: \<open>mem_heapmanager.cpp\<close>, the operators \<open>new\<close> and \<open>delete\<close>, disposers.
  \<^item> \<open>File_Device\<close>, \<open>Resource_Manager\<close>: the file devices over the calls of Win32 and the resource factories.
    \<open>Raw_Input\<close>: keys and mouse from report to frame.
  \<^item> \<open>Vector_Math\<close>: vectors and rotations (\<open>util/math\<close>), the table of sines (each sample lies on the line between
    two entries), \<open>util_camera.hpp\<close> (over the reals the view matrix is orthonormal and gives the position back),
    \<open>util_projection.hpp\<close> (what is in view is mapped into the cube, the stored matrix is up to date when it is read).
  \<^item> \<open>Vk_Driver\<close>: the calls the layer makes and what it reads of the answers. A driver is a function from the calls so far and the next one to an answer; the log of calls is
    the state that is passed on. From the log come the objects that exist (a multiset) and whether every call was allowed: nothing destroyed that does not exist, no device or instance
    destroyed before what was made with it. \<open>Vk_Memory\<close>: \<open>vk_memorypool.hpp\<close>, \<open>vk_buffer.hpp\<close>, \<open>vk_texture.hpp\<close>, the views and samplers. \<open>Vk_Shader\<close>: \<open>vk_shader.hpp\<close> (which pipeline
    is created), \<open>vk_descriptorpool.hpp\<close> (slots are not handed out twice).
  \<^item> \<open>Vk_Command\<close>: \<open>vk_commandbuffer.hpp\<close> and its source, every call that records. \<open>Vk_Command_Props\<close>: the recorded commands against an automaton for rendering. \<open>Vk_Draw_Resources\<close>:
    what a draw finds in the resource memory, that the memory lasts, and that every dynamic state is set.
  \<^item> \<open>Vk_Proc\<close>: \<open>vk_proc.vulkan.cpp\<close>, which entry points are loaded and that each call has one. \<open>Vk_Context\<close>: \<open>vk_context.hpp\<close> and its source, choosing a device, making and deleting the
    context. \<open>Vk_Display\<close>: \<open>vk_displaybuffer.hpp\<close>, \<open>util_logicalframebuffer.hpp\<close>, \<open>util_viewport.hpp\<close>, the swapchain and its frames.
  \<^item> \<open>Vector_Ops\<close>: the registers of integers and floats (\<open>util_int128.sse4.hpp\<close>, \<open>util_float128.sse4.hpp\<close>), each function in both its bodies, for constant evaluation and as an
    instruction, and where the two agree; the operators of the vectors and matrices; degrees, radians and the series of the sine.
  \<^item> \<open>Input_Thread\<close>: service threads and the thread that reads the raw input (\<open>sys_servicethread.hpp\<close>, \<open>hid_thread.cpp\<close>) over a log of calls of Win32. \<open>Trace_Abort\<close>:
    assertions and result checks and what the process prints and writes before it ends (\<open>trace_abort.cpp\<close>).
  \<^item> \<open>Unit_Tests\<close>, \<open>Scheduler_Tests\<close>: the tester, and the tests of the handle table, the time span, the heap manager and the scheduler run on the models; that they pass is a theorem for
    every number of rounds, every clock and every answer of the operating system. \<open>Scheduler_Tests\<close> also has the whole loop of a core, \<open>SchedulerFiberMain\<close>.
  \<^item> \<open>Learn_Program\<close>: the test program, \<open>learn_hello.cpp\<close> and \<open>main.cpp\<close>, every call it makes of the Vulkan layer, the camera and the input. \<open>Learn_Frame\<close>: a frame records commands in an allowed
    order. \<open>Learn_Setup\<close>: the planned memory holds what is copied to it. \<open>Learn_Lifetime\<close>: what exists after the program has ended. \<open>Learn_Runs\<close>: setting up and cleaning up return for a driver that obliges, and a complete run.

  \<^bold>\<open>Interfaces.\<close> The kernel's threads rest on the facts of the registry (\<open>ht\<close>) and of the allocator
  (\<open>fixed\<close>), both queues on those of \<open>bounded_fifo\<close>, and the nine machines (kernel, message queue, spin lock, the
  two critical sections, mouse, projection, descriptor slots, command stream) on \<open>kept_invariant\<close> and \<open>one_owner\<close>. Every class of the Vulkan layer
  with \<open>Initialize\<close> and \<open>Finalize\<close> is an instance of \<open>vk_owner\<close> (what the one creates the other destroys, also for arrays of them). Each locale is interpreted in the theory
  that provides the operations.

  \<^bold>\<open>Bounds and fuel.\<close> Loops over linked lists take fuel, since a loop that unlinks its elements may not
  end. In the scheduler it is \<open>loop_fuel\<close> = 1024, more than the 256 fibers and the sentinels there can be;
  in the heaps \<open>heap_fuel\<close> = \<open>2 ^ 64 + 4\<close>, more than the blocks 64 bits can address; elsewhere it is an
  argument and the theorems ask for more than the length of the list. \<open>FindHeapFromAddress\<close> takes the depth
  of the tree. Where a loop does not end that is proved for every fuel. The retry loop of \<open>Enter\<close> is a step
  relation without a bound.

  \<^bold>\<open>Assumptions.\<close> The arbiter a fiber waits on is on the stack of the waiting call and is valid while it
  waits; a call under \<open>m_scheduler_lock\<close>, a heap lock or a list lock is one step; memory is
  sequentially consistent; floats and doubles are reals, without rounding, infinities and NaN. The Vulkan driver is an argument of every definition that calls it and answers anything;
  where a theorem needs more (a created handle is not null) that is a hypothesis. The values of the enumerants are those of the Vulkan specification. \<open>new\<close> and \<open>malloc\<close> do not fail in this layer.

  \<^bold>\<open>Not modelled.\<close> \<open>mem_gpuheapmanager\<close>, \<open>SeparateHeap\<close> and \<open>UnitHeap\<close>: they do not compile and nothing includes them. The window and the presentation thread of the context, which are commented
  out, and the calls of them in the test program (the surface and the size the display buffer needs are arguments there, and sending a frame is a flag). What the four queries of a
  physical device return is an argument of the context. The operators of \<open>Matrix44\<close>, the product of \<open>Matrix33\<close>, the dot products of \<open>Vector2\<close> and \<open>Vector4\<close>: their bodies name members that do not exist. The back traces of
  \<open>ukern_debug\<close>. Delegates and storage types: type plumbing. Third-party code.
\<close>

end
